(* ===== verification/Prelude.thy ===== *)
theory Prelude
  imports Complex_Main "HOL-Library.AList" "HOL-Library.Word"
begin

section \<open>Shared vocabulary of the model\<close>

text \<open>
  What every component of the vault uses of JavaScript: thrown exceptions as values of a
  sum type, JSON values, insertion-ordered Map objects, parseInt, Date, string helpers; and
  two locales, the contract of a keyed store and the contract of a state machine whose steps
  keep an invariant, whose lemmas the component theories reuse.

  Conventions used throughout.
    \<^item> JavaScript numbers that the code only uses as integers (counters, milliseconds, byte
      values) are \<open>int\<close> or \<open>nat\<close>; NaN, where parseInt can produce it, is \<open>None\<close>.
    \<^item> A time stamp is the millisecond count since the epoch; the ISO 8601 text of
      toISOString stands for that count (both orders agree).
    \<^item> One reading \<open>now\<close> of the clock is used for a synchronous stretch of code.
    \<^item> randomUUID is an argument: a name, or a stream of names \<open>nat \<Rightarrow> string\<close> when an
      operation draws several.
\<close>

named_theorems jmap \<open>facts about the model of Map\<close>
named_theorems inv_simps \<open>unfoldings of component invariants\<close>

subsection \<open>Exceptions and JSON values\<close>

datatype js_exn =
    JsError string
  | JsTypeError string
  | JsReferenceError string
  | JsRangeError string
  | JsNamedError string string \<comment> \<open>a class of the source that extends Error: its name, the message\<close>

type_synonym 'a result = "js_exn + 'a"

datatype json =
    JNull
  | JBool bool
  | JNum rat
  | JStr string
  | JArr "json list"
  | JObj "(string \<times> json) list"

fun exn_message :: "js_exn \<Rightarrow> string" where
  "exn_message (JsError m) = m"
| "exn_message (JsTypeError m) = m"
| "exn_message (JsReferenceError m) = m"
| "exn_message (JsRangeError m) = m"
| "exn_message (JsNamedError n m) = m"

text \<open>The truth value of a JSON value.\<close>

definition json_truthy :: "json \<Rightarrow> bool" where
  "json_truthy v =
     (case v of JNull \<Rightarrow> False | JBool b \<Rightarrow> b | JNum n \<Rightarrow> n \<noteq> 0 | JStr s \<Rightarrow> s \<noteq> []
      | JArr _ \<Rightarrow> True | JObj _ \<Rightarrow> True)"

text \<open>\<open>v.k\<close> for a truthy value and a name that no prototype has.\<close>

fun json_prop :: "json \<Rightarrow> string \<Rightarrow> json option" where
  "json_prop (JObj es) k = map_of es k"
| "json_prop v k = None"

definition truthy_prop :: "json \<Rightarrow> string \<Rightarrow> bool" where
  "truthy_prop v k = (case json_prop v k of None \<Rightarrow> False | Some w \<Rightarrow> json_truthy w)"

definition text_prop :: "json \<Rightarrow> string \<Rightarrow> string option" where
  "text_prop v k = (case json_prop v k of Some (JStr s) \<Rightarrow> Some s | _ \<Rightarrow> None)"

text \<open>The names every object literal inherits from Object.prototype: looking one of them
  up in a literal used as a table does not give undefined.\<close>

definition object_prototype_keys :: "string list" where
  "object_prototype_keys =
     [''constructor'', ''__defineGetter__'', ''__defineSetter__'', ''hasOwnProperty'',
      ''__lookupGetter__'', ''__lookupSetter__'', ''isPrototypeOf'', ''propertyIsEnumerable'',
      ''toString'', ''valueOf'', ''__proto__'', ''toLocaleString'']"

subsection \<open>Map objects: insertion-ordered association lists\<close>

type_synonym ('k, 'v) jsmap = "('k \<times> 'v) list"

definition jm_empty :: "('k, 'v) jsmap" where
  "jm_empty = []"

definition jm_get :: "('k, 'v) jsmap \<Rightarrow> 'k \<Rightarrow> 'v option" where
  "jm_get m k = map_of m k"

definition jm_set :: "'k \<Rightarrow> 'v \<Rightarrow> ('k, 'v) jsmap \<Rightarrow> ('k, 'v) jsmap" where
  "jm_set k v m = AList.update k v m"

definition jm_del :: "'k \<Rightarrow> ('k, 'v) jsmap \<Rightarrow> ('k, 'v) jsmap" where
  "jm_del k m = AList.delete k m"

definition jm_has :: "('k, 'v) jsmap \<Rightarrow> 'k \<Rightarrow> bool" where
  "jm_has m k \<longleftrightarrow> jm_get m k \<noteq> None"

definition jm_keys :: "('k, 'v) jsmap \<Rightarrow> 'k list" where
  "jm_keys m = map fst m"

definition jm_values :: "('k, 'v) jsmap \<Rightarrow> 'v list" where
  "jm_values m = map snd m"

text \<open>A Map never holds a key twice.\<close>

definition jm_ok :: "('k, 'v) jsmap \<Rightarrow> bool" where
  "jm_ok m \<longleftrightarrow> distinct (map fst m)"

lemma jm_get_empty [simp, jmap]: "jm_get jm_empty k = None"
  by (simp add: jm_get_def jm_empty_def)

lemma jm_get_set [simp, jmap]: "jm_get (jm_set k v m) k' = (if k' = k then Some v else jm_get m k')"
  by (simp add: jm_get_def jm_set_def update_conv')

lemma jm_get_del [simp, jmap]: "jm_get (jm_del k m) k' = (if k' = k then None else jm_get m k')"
  by (simp add: jm_get_def jm_del_def delete_conv')

lemma jm_ok_empty [simp, intro]: "jm_ok jm_empty"
  by (simp add: jm_ok_def jm_empty_def)

lemma jm_ok_set [simp, intro]: "jm_ok m \<Longrightarrow> jm_ok (jm_set k v m)"
  by (simp add: jm_ok_def jm_set_def distinct_update)

lemma jm_ok_del [simp, intro]: "jm_ok m \<Longrightarrow> jm_ok (jm_del k m)"
  by (simp add: jm_ok_def jm_del_def distinct_delete)

lemma jm_get_iff_mem: "jm_ok m \<Longrightarrow> jm_get m k = Some v \<longleftrightarrow> (k, v) \<in> set m"
  by (simp add: jm_ok_def jm_get_def)

lemma jm_get_mem: "jm_get m k = Some v \<Longrightarrow> (k, v) \<in> set m"
  by (simp add: jm_get_def map_of_SomeD)

lemma jm_get_values: "jm_get m k = Some v \<Longrightarrow> v \<in> set (jm_values m)"
  by (force simp: jm_values_def dest: jm_get_mem)

lemma jm_values_get: "jm_ok m \<Longrightarrow> v \<in> set (jm_values m) \<longleftrightarrow> (\<exists>k. jm_get m k = Some v)"
  by (force simp: jm_values_def jm_get_iff_mem image_iff)

lemma jm_keys_get: "k \<in> set (jm_keys m) \<longleftrightarrow> jm_get m k \<noteq> None"
  by (auto simp: jm_keys_def jm_get_def map_of_eq_None_iff)

lemma jm_keys_set: "jm_keys (jm_set k v m) = (if jm_has m k then jm_keys m else jm_keys m @ [k])"
  by (auto simp: jm_keys_def jm_set_def jm_has_def jm_get_def update_keys map_of_eq_None_iff)

lemma jm_set_fresh: "jm_get m k = None \<Longrightarrow> jm_set k v m = m @ [(k, v)]"
  by (induction m) (auto simp: jm_get_def jm_set_def split: if_splits)

subsection \<open>Spreading one object over another\<close>

text \<open>\<open>{ ...a, ...b }\<close>: the entries of \<open>b\<close> overwrite those of \<open>a\<close> in place, new keys are
  appended.\<close>

fun js_spread :: "('k, 'v) jsmap \<Rightarrow> ('k, 'v) jsmap \<Rightarrow> ('k, 'v) jsmap" where
  "js_spread a [] = a"
| "js_spread a ((k, v) # b) = js_spread (jm_set k v a) b"

lemma jm_ok_spread: "jm_ok a \<Longrightarrow> jm_ok (js_spread a b)"
  by (induction a b rule: js_spread.induct) auto

lemma jm_get_spread:
  "jm_ok b \<Longrightarrow> jm_get (js_spread a b) k =
     (case jm_get b k of Some v \<Rightarrow> Some v | None \<Rightarrow> jm_get a k)"
proof (induction a b rule: js_spread.induct)
  case (1 a)
  then show ?case by (simp add: jm_get_def)
next
  case (2 a k' v' b)
  then have "jm_ok b" and new: "map_of b k' = None"
    by (auto simp: jm_ok_def map_of_eq_None_iff)
  with 2 show ?case
    by (auto simp: jm_get_def [of "(k', v') # b"] jm_get_def [of b] split: option.splits)
qed

text \<open>Object.assign and spread with an optional key: an absent key is \<open>None\<close>, a key that is
  present with the value undefined is \<open>Some None\<close>; a present key overwrites.\<close>

definition assign_key :: "'a option \<Rightarrow> 'a \<Rightarrow> 'a" where
  "assign_key upd old = (case upd of None \<Rightarrow> old | Some v \<Rightarrow> v)"

text \<open>\<open>v ?? d\<close>.\<close>

definition or_default :: "'a option \<Rightarrow> 'a \<Rightarrow> 'a" where
  "or_default v d = (case v of None \<Rightarrow> d | Some x \<Rightarrow> x)"

lemma or_default_simps [simp]: "or_default None d = d" "or_default (Some x) d = x"
  by (simp_all add: or_default_def)

lemma assign_key_simps [simp]: "assign_key None d = d" "assign_key (Some x) d = x"
  by (simp_all add: assign_key_def)

subsection \<open>parseInt, environment defaults and dates\<close>

definition js_digit :: "char \<Rightarrow> bool" where
  "js_digit c \<longleftrightarrow> 48 \<le> (of_char c :: nat) \<and> (of_char c :: nat) \<le> 57"

definition digits_val :: "string \<Rightarrow> int" where
  "digits_val ds = foldl (\<lambda>acc c. 10 * acc + (of_char c - 48)) 0 ds"

definition js_space :: "char \<Rightarrow> bool" where
  "js_space c \<longleftrightarrow> (of_char c :: nat) \<in> {9, 10, 11, 12, 13, 32, 160}"

definition parse_digits :: "int \<Rightarrow> string \<Rightarrow> int option" where
  "parse_digits sign s =
     (let ds = takeWhile js_digit s in if ds = [] then None else Some (sign * digits_val ds))"

text \<open>\<open>parseInt(s, 10)\<close>; \<open>None\<close> is NaN.\<close>

definition parseInt10 :: "string \<Rightarrow> int option" where
  "parseInt10 s =
     (case dropWhile js_space s of
        [] \<Rightarrow> None
      | c # cs \<Rightarrow> if c = CHR ''-'' then parse_digits (-1) cs
                  else if c = CHR ''+'' then parse_digits 1 cs
                  else parse_digits 1 (c # cs))"

text \<open>Comparing with a number that may be NaN.\<close>

fun js_ge :: "int \<Rightarrow> int option \<Rightarrow> bool" where
  "js_ge n None = False"
| "js_ge n (Some m) = (m \<le> n)"

text \<open>\<open>String(n)\<close> for an integer.\<close>

fun show_nat :: "nat \<Rightarrow> string" where
  "show_nat n = (if n < 10 then [char_of (48 + n)] else show_nat (n div 10) @ [char_of (48 + n mod 10)])"

declare show_nat.simps [simp del]

lemma show_nat_length: "0 < k \<Longrightarrow> n < 10 ^ k \<Longrightarrow> length (show_nat n) \<le> k"
proof (induction k arbitrary: n)
  case (Suc k)
  show ?case
  proof (cases "n < 10")
    case True
    then show ?thesis by (simp add: show_nat.simps [of n])
  next
    case False
    then have "0 < k" using Suc.prems by (cases k) auto
    moreover have "n div 10 < 10 ^ k" using Suc.prems by (simp add: less_mult_imp_div_less mult.commute)
    ultimately show ?thesis using Suc.IH [of "n div 10"] False by (simp add: show_nat.simps [of n])
  qed
qed simp

definition show_int :: "int \<Rightarrow> string" where
  "show_int i = (if i < 0 then CHR ''-'' # show_nat (nat (- i)) else show_nat (nat i))"

definition show_num :: "int option \<Rightarrow> string" where
  "show_num n = (case n of None \<Rightarrow> ''NaN'' | Some i \<Rightarrow> show_int i)"

text \<open>\<open>env.KEY || d\<close>: an unset or empty variable gives the default.\<close>

definition env_or :: "(string \<Rightarrow> string option) \<Rightarrow> string \<Rightarrow> string \<Rightarrow> string" where
  "env_or env key d = (case env key of None \<Rightarrow> d | Some s \<Rightarrow> if s = [] then d else s)"

text \<open>\<open>new Date(t).toISOString()\<close>: a RangeError for NaN and beyond the range of Date.\<close>

definition date_iso :: "int option \<Rightarrow> int result" where
  "date_iso t = (case t of
      None \<Rightarrow> Inl (JsRangeError ''Invalid time value'')
    | Some ms \<Rightarrow> if \<bar>ms\<bar> \<le> 8640000000000000 then Inr ms
                 else Inl (JsRangeError ''Invalid time value''))"

text \<open>\<open>s.includes(sub)\<close>, \<open>s.startsWith(p)\<close>, \<open>s.split(c)\<close> and \<open>parts.join(c)\<close>.\<close>

fun starts_with :: "string \<Rightarrow> string \<Rightarrow> bool" where
  "starts_with s [] = True"
| "starts_with [] (p # ps) = False"
| "starts_with (c # s) (p # ps) = (c = p \<and> starts_with s ps)"

fun split_on :: "char \<Rightarrow> string \<Rightarrow> string list" where
  "split_on d [] = [[]]"
| "split_on d (c # s) =
     (if c = d then [] # split_on d s
      else case split_on d s of [] \<Rightarrow> [[c]] | p # ps \<Rightarrow> (c # p) # ps)"

fun join_with :: "string \<Rightarrow> string list \<Rightarrow> string" where
  "join_with d [] = []"
| "join_with d [p] = p"
| "join_with d (p # q # ps) = p @ d @ join_with d (q # ps)"

lemma split_on_nonempty [simp]: "split_on d s \<noteq> []"
  by (induction s) (auto split: list.splits)

lemma join_split [simp]: "join_with [d] (split_on d s) = s"
proof (induction s)
  case Nil
  then show ?case by simp
next
  case (Cons c s)
  show ?case
  proof (cases "split_on d s")
    case Nil
    then show ?thesis by simp
  next
    case (Cons p ps)
    with Cons.IH show ?thesis by (cases ps) auto
  qed
qed

lemma split_on_notin: "d \<notin> set s \<Longrightarrow> split_on d s = [s]"
  by (induction s) auto

lemma split_on_append: "d \<notin> set a \<Longrightarrow> split_on d (a @ d # s) = a # split_on d s"
  by (induction a) (auto split: list.splits)

text \<open>\<open>s.includes(p)\<close>: \<open>p\<close> is a part of \<open>s\<close>; and \<open>s.toLowerCase()\<close> of a text whose letters are
  ASCII.\<close>

definition str_includes :: "'a list \<Rightarrow> 'a list \<Rightarrow> bool" where
  "str_includes s p = list_ex (\<lambda>i. take (length p) (drop i s) = p) [0..<Suc (length s)]"

definition to_lower :: "string \<Rightarrow> string" where
  "to_lower s = map (\<lambda>c. if of_char c \<in> {65..90 :: nat} then char_of (of_char c + (32 :: nat)) else c) s"

definition to_upper :: "string \<Rightarrow> string" where
  "to_upper s = map (\<lambda>c. let n = of_char c :: nat in if 97 \<le> n \<and> n \<le> 122 then char_of (n - 32) else c) s"

lemma str_includes_iff: "str_includes s p \<longleftrightarrow> (\<exists>a b. s = a @ p @ b)"
proof
  assume "str_includes s p"
  then obtain i where "take (length p) (drop i s) = p" by (auto simp: str_includes_def list_ex_iff)
  then have "s = take i s @ p @ drop (length p) (drop i s)" by (metis append_take_drop_id)
  then show "\<exists>a b. s = a @ p @ b" by blast
next
  assume "\<exists>a b. s = a @ p @ b"
  then obtain a b where "s = a @ p @ b" by blast
  then show "str_includes s p"
    by (auto simp: str_includes_def list_ex_iff intro!: bexI [of _ "length a"])
qed

lemma starts_with_append: "starts_with (p @ s) p"
  by (induction p) auto

lemma starts_with_iff: "starts_with s p \<longleftrightarrow> (\<exists>t. s = p @ t)"
  by (induction s p rule: starts_with.induct) auto

text \<open>\<open>s.trim()\<close>.\<close>

definition js_trim :: "string \<Rightarrow> string" where
  "js_trim s = rev (dropWhile js_space (rev (dropWhile js_space s)))"

lemma js_trim_id: "s \<noteq> [] \<Longrightarrow> \<not> js_space (hd s) \<Longrightarrow> \<not> js_space (last s) \<Longrightarrow> js_trim s = s"
proof -
  assume s: "s \<noteq> []" "\<not> js_space (hd s)" "\<not> js_space (last s)"
  have "dropWhile js_space s = s" using s(1,2) by (cases s) auto
  moreover have "dropWhile js_space (rev s) = rev s" using s(1,3) by (cases s rule: rev_cases) auto
  ultimately show ?thesis by (simp add: js_trim_def)
qed

lemma js_trim_Nil: "js_trim s = [] \<longleftrightarrow> (\<forall>c \<in> set s. js_space c)"
proof -
  have "(\<forall>c \<in> set (dropWhile js_space s). js_space c) \<longleftrightarrow> (\<forall>c \<in> set s. js_space c)"
    by (induction s) auto
  then show ?thesis by (simp add: js_trim_def dropWhile_eq_Nil_conv)
qed

lemma set_js_trim: "c \<in> set (js_trim s) \<Longrightarrow> c \<in> set s"
  by (auto simp: js_trim_def dest!: set_dropWhileD)

text \<open>\<open>a <= b\<close> on strings: lexicographic by code unit.\<close>

fun js_str_le :: "string \<Rightarrow> string \<Rightarrow> bool" where
  "js_str_le [] t = True"
| "js_str_le (c # s) [] = False"
| "js_str_le (c # s) (d # t) =
     ((of_char c :: nat) < of_char d \<or> (c = d \<and> js_str_le s t))"

text \<open>\<open>s.replace(/c/g, r)\<close> for a single character, and \<open>String(b)\<close>.\<close>

definition replace_char :: "char \<Rightarrow> string \<Rightarrow> string \<Rightarrow> string" where
  "replace_char c r s = concat (map (\<lambda>d. if d = c then r else [d]) s)"

definition show_bool :: "bool \<Rightarrow> string" where
  "show_bool b = (if b then ''true'' else ''false'')"

text \<open>\<open>xs.slice(a, b)\<close>: negative bounds count from the end, both are clamped.\<close>

definition slice_bound :: "int \<Rightarrow> nat \<Rightarrow> nat" where
  "slice_bound a n = (if a < 0 then nat (int n + a) else min (nat a) n)"

definition js_slice :: "'a list \<Rightarrow> int \<Rightarrow> int \<Rightarrow> 'a list" where
  "js_slice xs a b =
     (let from = slice_bound a (length xs); upto = slice_bound b (length xs)
      in take (upto - from) (drop from xs))"

lemma js_slice_nat: "js_slice xs (int a) (int b) = take (b - a) (drop a xs)"
  by (auto simp: js_slice_def slice_bound_def min_def)

text \<open>The pages every list operation of the API cuts out of its result.\<close>

record 'a page =
  pg_data :: "'a list"
  pg_total :: nat
  pg_page :: int
  pg_limit :: int

definition paginate :: "'a list \<Rightarrow> int \<Rightarrow> int \<Rightarrow> 'a page" where
  "paginate xs pageNo limit =
     (let start = (pageNo - 1) * limit
      in \<lparr>pg_data = js_slice xs start (start + limit), pg_total = length xs,
          pg_page = pageNo, pg_limit = limit\<rparr>)"

lemma paginate_concat:
  "concat (map (\<lambda>p. pg_data (paginate xs (int p + 1) (int limit))) [0..<k]) = take (k * limit) xs"
proof (induction k)
  case 0
  then show ?case by simp
next
  case (Suc k)
  have "js_slice xs (int k * int limit) (int k * int limit + int limit) = take limit (drop (k * limit) xs)"
    using js_slice_nat [of xs "k * limit" "k * limit + limit"] by simp
  moreover have "take (Suc k * limit) xs = take (k * limit) xs @ take limit (drop (k * limit) xs)"
    using take_add [of "k * limit" limit xs] by (simp add: add.commute)
  ultimately show ?case using Suc by (simp add: paginate_def Let_def add.commute)
qed

text \<open>An empty string does not filter: the code tests the truth of the query's fields.\<close>

definition str_filter :: "string option \<Rightarrow> ('a \<Rightarrow> string) \<Rightarrow> 'a list \<Rightarrow> 'a list" where
  "str_filter q f xs =
     (case q of None \<Rightarrow> xs | Some v \<Rightarrow> if v = [] then xs else filter (\<lambda>x. f x = v) xs)"

definition opt_filter :: "'b option \<Rightarrow> ('a \<Rightarrow> 'b) \<Rightarrow> 'a list \<Rightarrow> 'a list" where
  "opt_filter q f xs = (case q of None \<Rightarrow> xs | Some v \<Rightarrow> filter (\<lambda>x. f x = v) xs)"

lemma set_js_slice: "x \<in> set (js_slice xs a b) \<Longrightarrow> x \<in> set xs"
  by (auto simp: js_slice_def Let_def dest: in_set_takeD in_set_dropD)

text \<open>\<open>throw new Object.assign(new Error(m), { statusCode })\<close>: Object.assign is a function that
  is not a constructor, so the new expression itself throws, and not the error it names.\<close>

definition new_object_assign :: "js_exn \<Rightarrow> int \<Rightarrow> js_exn" where
  "new_object_assign err statusCode = JsTypeError ''Object.assign is not a constructor''"

text \<open>Changing the first element that a find would return, in place; the elements themselves
  are shared objects in the source, so the list keeps its shape.\<close>

fun update_first :: "('a \<Rightarrow> bool) \<Rightarrow> ('a \<Rightarrow> 'a) \<Rightarrow> 'a list \<Rightarrow> 'a list" where
  "update_first P f [] = []"
| "update_first P f (x # xs) = (if P x then f x # xs else x # update_first P f xs)"

lemma length_update_first [simp]: "length (update_first P f xs) = length xs"
  by (induction xs) auto

lemma map_update_first:
  "(\<And>x. P x \<Longrightarrow> g (f x) = g x) \<Longrightarrow> map g (update_first P f xs) = map g xs"
  by (induction xs) auto

lemma update_first_find:
  "find P xs = Some x \<Longrightarrow> f x \<in> set (update_first P f xs)"
  by (induction xs) (auto split: if_splits)

lemma update_first_none: "find P xs = None \<Longrightarrow> update_first P f xs = xs"
  by (induction xs) (auto split: if_splits)

lemma length_filter_map_filter:
  "length (filter P (List.map_filter g xs)) =
     length (filter (\<lambda>x. case g x of None \<Rightarrow> False | Some w \<Rightarrow> P w) xs)"
  by (induction xs) (auto simp: map_filter_simps split: option.splits)

lemma length_filter_mono:
  "(\<And>x. x \<in> set xs \<Longrightarrow> P x \<Longrightarrow> Q x) \<Longrightarrow> length (filter P xs) \<le> length (filter Q xs)"
proof (induction xs)
  case Nil
  then show ?case by simp
next
  case (Cons x xs)
  then have "length (filter P xs) \<le> length (filter Q xs)" by simp
  with Cons.prems [of x] show ?case by auto
qed

lemma set_map_filter [simp]: "set (List.map_filter g xs) = {w. \<exists>x \<in> set xs. g x = Some w}"
  by (induction xs) (auto simp: map_filter_simps split: option.splits)

lemma jm_get_map_values:
  "jm_get (map (\<lambda>(k, v). (k, f v)) m) k = map_option f (jm_get m k)"
  by (induction m) (auto simp: jm_get_def)

lemma jm_ok_map_values: "jm_ok m \<Longrightarrow> jm_ok (map (\<lambda>(k, v). (k, f v)) m)"
  by (simp add: jm_ok_def o_def case_prod_beta)

subsection \<open>Contracts\<close>

text \<open>A keyed store: what a component that keeps objects by id relies on. The lemmas say
  that a property of every stored object survives the writes.\<close>

locale keyed_store =
  fixes get :: "'m \<Rightarrow> 'k \<Rightarrow> 'v option"
    and put :: "'k \<Rightarrow> 'v \<Rightarrow> 'm \<Rightarrow> 'm"
    and del :: "'k \<Rightarrow> 'm \<Rightarrow> 'm"
  assumes get_put: "get (put k v m) k' = (if k' = k then Some v else get m k')"
    and get_del: "get (del k m) k' = (if k' = k then None else get m k')"
begin

lemma all_put:
  assumes "\<And>k v. get m k = Some v \<Longrightarrow> P k v" and "P k v"
  shows "get (put k v m) k' = Some v' \<Longrightarrow> P k' v'"
  using assms by (auto simp: get_put split: if_splits)

lemma all_del:
  assumes "\<And>k v. get m k = Some v \<Longrightarrow> P k v"
  shows "get (del k m) k' = Some v' \<Longrightarrow> P k' v'"
  using assms by (auto simp: get_del split: if_splits)

lemma put_other: "k' \<noteq> k \<Longrightarrow> get (put k v m) k' = get m k'"
  by (simp add: get_put)

lemma del_other: "k' \<noteq> k \<Longrightarrow> get (del k m) k' = get m k'"
  by (simp add: get_del)

lemma put_put: "get (put k v (put k w m)) k' = get (put k v m) k'"
  by (simp add: get_put)

end

interpretation jm: keyed_store jm_get jm_set jm_del
  by unfold_locales auto

text \<open>Running a list of events through a step function.\<close>

fun run_events :: "('e \<Rightarrow> 's \<Rightarrow> 's) \<Rightarrow> 'e list \<Rightarrow> 's \<Rightarrow> 's" where
  "run_events f [] s = s"
| "run_events f (e # es) s = run_events f es (f e s)"

text \<open>Each event of the run is admissible in the state it meets (for instance: the ids it
  draws are fresh there).\<close>

fun admissible :: "('e \<Rightarrow> 's \<Rightarrow> bool) \<Rightarrow> ('e \<Rightarrow> 's \<Rightarrow> 's) \<Rightarrow> 'e list \<Rightarrow> 's \<Rightarrow> bool" where
  "admissible ok f [] s = True"
| "admissible ok f (e # es) s = (ok e s \<and> admissible ok f es (f e s))"

lemma admissible_True [simp]: "admissible (\<lambda>_ _. True) f es s"
  by (induction es arbitrary: s) auto

text \<open>A machine whose admissible steps keep an invariant.\<close>

locale invariant_machine =
  fixes step :: "'e \<Rightarrow> 's \<Rightarrow> 's"
    and ok :: "'e \<Rightarrow> 's \<Rightarrow> bool"
    and inv :: "'s \<Rightarrow> bool"
  assumes inv_step: "inv s \<Longrightarrow> ok e s \<Longrightarrow> inv (step e s)"
begin

lemma inv_run: "inv s \<Longrightarrow> admissible ok step es s \<Longrightarrow> inv (run_events step es s)"
  by (induction es arbitrary: s) (auto intro: inv_step)

lemma inv_prefix:
  "inv s \<Longrightarrow> admissible ok step (es @ fs) s \<Longrightarrow> inv (run_events step es s)"
  by (induction es arbitrary: s) (auto intro: inv_step)

end

text \<open>A machine with a ranking that no step increases.\<close>

locale monotone_machine = invariant_machine +
  fixes rank :: "'a \<Rightarrow> 'n::preorder"
  assumes rank_step: "inv s \<Longrightarrow> ok e s \<Longrightarrow> rank s \<le> rank (step e s)"
begin

lemma rank_run: "inv s \<Longrightarrow> admissible ok step es s \<Longrightarrow> rank s \<le> rank (run_events step es s)"
  by (induction es arbitrary: s) (auto intro: inv_step rank_step order_trans)

end

text \<open>An implementation that keeps in step with an abstract machine.\<close>

locale simulation =
  fixes astep :: "'e \<Rightarrow> 'a \<Rightarrow> 'a"
    and cstep :: "'e \<Rightarrow> 'c \<Rightarrow> 'c"
    and ok :: "'e \<Rightarrow> 'c \<Rightarrow> bool"
    and rel :: "'a \<Rightarrow> 'c \<Rightarrow> bool"
  assumes rel_step: "rel a c \<Longrightarrow> ok e c \<Longrightarrow> rel (astep e a) (cstep e c)"
begin

lemma rel_run:
  "rel a c \<Longrightarrow> admissible ok cstep es c \<Longrightarrow> rel (run_events astep es a) (run_events cstep es c)"
  by (induction es arbitrary: a c) (auto intro: rel_step)

lemma rel_prefix:
  "rel a c \<Longrightarrow> admissible ok cstep (es @ fs) c \<Longrightarrow> rel (run_events astep es a) (run_events cstep es c)"
  by (induction es arbitrary: a c) (auto intro: rel_step)

end

lemma run_events_append: "run_events f (es @ fs) s = run_events f fs (run_events f es s)"
  by (induction es arbitrary: s) auto

end
