(* ===== verification/KycOrchestrator.thy ===== *)
theory KycOrchestrator
  imports Prelude
begin

section \<open>The KYC orchestrator service\<close>

text \<open>
  services/kyc-orchestrator: the tier table and limits of config.ts, the workflow store and
  its operations of orchestrator.ts, and the HTTP routes of handler.ts. The invariant
  \<open>orch_inv\<close> relates the two Map objects of the store and bounds the active workflows of a
  user; \<open>handle\<close> is one HTTP request, and every request keeps the invariant.
\<close>

subsection \<open>Configuration (config.ts)\<close>

datatype kyc_tier =
  TierBasic | TierAdvanced | TierPremium | TierEnterprise | TierOther string

fun tier_of_string :: "string \<Rightarrow> kyc_tier" where
  "tier_of_string s =
     (if s = ''basic'' then TierBasic
      else if s = ''advanced'' then TierAdvanced
      else if s = ''premium'' then TierPremium
      else if s = ''enterprise'' then TierEnterprise
      else TierOther s)"

fun tier_name :: "kyc_tier \<Rightarrow> string" where
  "tier_name TierBasic = ''basic''"
| "tier_name TierAdvanced = ''advanced''"
| "tier_name TierPremium = ''premium''"
| "tier_name TierEnterprise = ''enterprise''"
| "tier_name (TierOther s) = s"

record tier_definition =
  td_tier :: kyc_tier
  td_name :: string
  td_requiredVerifications :: "string list"
  td_maxAgeDays :: int
  td_requiresApproval :: bool

record workflow_timeout_config =
  to_sessionTtlMs :: "int option"
  to_stepTimeoutMs :: "int option"
  to_overallTimeoutMs :: "int option"
  to_pollingIntervalMs :: "int option"

record orchestrator_config =
  oc_port :: "int option"
  oc_host :: string
  oc_tiers :: "tier_definition list"
  oc_timeouts :: workflow_timeout_config
  oc_credentialIssuerEndpoint :: string
  oc_didResolverEndpoint :: string
  oc_zkpEngineEndpoint :: string
  oc_maxActiveWorkflowsPerUser :: "int option"

definition loadConfig_orchestrator :: "(string \<Rightarrow> string option) \<Rightarrow> orchestrator_config" where
  "loadConfig_orchestrator env =
     \<lparr>oc_port = parseInt10 (env_or env ''KYC_ORCHESTRATOR_PORT'' ''3030''),
      oc_host = env_or env ''KYC_ORCHESTRATOR_HOST'' ''0.0.0.0'',
      oc_tiers =
        [\<lparr>td_tier = TierBasic, td_name = ''Basic KYC'',
          td_requiredVerifications = [''age_check''],
          td_maxAgeDays = 365, td_requiresApproval = False\<rparr>,
         \<lparr>td_tier = TierAdvanced, td_name = ''Advanced KYC'',
          td_requiredVerifications = [''age_check'', ''identity_check'', ''address_check''],
          td_maxAgeDays = 180, td_requiresApproval = False\<rparr>,
         \<lparr>td_tier = TierPremium, td_name = ''Premium KYC'',
          td_requiredVerifications =
            [''age_check'', ''identity_check'', ''address_check'', ''document_verification''],
          td_maxAgeDays = 90, td_requiresApproval = True\<rparr>,
         \<lparr>td_tier = TierEnterprise, td_name = ''Enterprise KYC'',
          td_requiredVerifications =
            [''age_check'', ''identity_check'', ''address_check'', ''document_verification'',
             ''biometric_check'', ''background_check''],
          td_maxAgeDays = 30, td_requiresApproval = True\<rparr>],
      oc_timeouts =
        \<lparr>to_sessionTtlMs = parseInt10 (env_or env ''KYC_SESSION_TTL_MS'' ''3600000''),
         to_stepTimeoutMs = parseInt10 (env_or env ''KYC_STEP_TIMEOUT_MS'' ''300000''),
         to_overallTimeoutMs = parseInt10 (env_or env ''KYC_OVERALL_TIMEOUT_MS'' ''86400000''),
         to_pollingIntervalMs = parseInt10 (env_or env ''KYC_POLLING_INTERVAL_MS'' ''5000'')\<rparr>,
      oc_credentialIssuerEndpoint =
        env_or env ''CREDENTIAL_ISSUER_ENDPOINT'' ''http://credential-issuer:3020'',
      oc_didResolverEndpoint = env_or env ''DID_RESOLVER_ENDPOINT'' ''http://did-resolver:3010'',
      oc_zkpEngineEndpoint = env_or env ''ZKP_ENGINE_ENDPOINT'' ''http://zkp-engine:3040'',
      oc_maxActiveWorkflowsPerUser = parseInt10 (env_or env ''KYC_MAX_ACTIVE_WORKFLOWS'' ''3'')\<rparr>"

subsection \<open>Workflow data (orchestrator.ts)\<close>

datatype workflow_status =
  WsCreated | WsPendingSubmission | WsSubmitted | WsVerifying
| WsApproved | WsRejected | WsExpired | WsCancelled

fun workflow_status_name :: "workflow_status \<Rightarrow> string" where
  "workflow_status_name WsCreated = ''created''"
| "workflow_status_name WsPendingSubmission = ''pending_submission''"
| "workflow_status_name WsSubmitted = ''submitted''"
| "workflow_status_name WsVerifying = ''verifying''"
| "workflow_status_name WsApproved = ''approved''"
| "workflow_status_name WsRejected = ''rejected''"
| "workflow_status_name WsExpired = ''expired''"
| "workflow_status_name WsCancelled = ''cancelled''"

datatype workflow_event =
  EvSubmit | EvVerify | EvApprove | EvReject | EvExpire | EvCancel
| EvRequestInfo | EvProvideInfo | EvOther string

fun event_of_string :: "string \<Rightarrow> workflow_event" where
  "event_of_string s =
     (if s = ''submit'' then EvSubmit
      else if s = ''verify'' then EvVerify
      else if s = ''approve'' then EvApprove
      else if s = ''reject'' then EvReject
      else if s = ''expire'' then EvExpire
      else if s = ''cancel'' then EvCancel
      else if s = ''request_info'' then EvRequestInfo
      else if s = ''provide_info'' then EvProvideInfo
      else EvOther s)"

fun event_name :: "workflow_event \<Rightarrow> string" where
  "event_name EvSubmit = ''submit''"
| "event_name EvVerify = ''verify''"
| "event_name EvApprove = ''approve''"
| "event_name EvReject = ''reject''"
| "event_name EvExpire = ''expire''"
| "event_name EvCancel = ''cancel''"
| "event_name EvRequestInfo = ''request_info''"
| "event_name EvProvideInfo = ''provide_info''"
| "event_name (EvOther s) = s"

datatype step_status =
  StepPending | StepInProgress | StepCompleted | StepFailed | StepOther string

text \<open>A step's status can become undefined (\<open>None\<close>), see \<open>updateStep\<close>.\<close>

record kyc_step =
  st_id :: string
  st_name :: string
  st_status :: "step_status option"
  st_startedAt :: "int option"
  st_completedAt :: "int option"
  st_result :: "json option"
  st_error :: "string option"

record kyc_workflow =
  wf_id :: string
  wf_userId :: string
  wf_tier :: kyc_tier
  wf_status :: workflow_status
  wf_steps :: "kyc_step list"
  wf_createdAt :: int
  wf_updatedAt :: int
  wf_expiresAt :: int
  wf_completedAt :: "int option"
  wf_metadata :: "(string, json) jsmap"

fun TRANSITIONS :: "workflow_event \<Rightarrow> (workflow_status list \<times> workflow_status) option" where
  "TRANSITIONS EvSubmit = Some ([WsCreated, WsPendingSubmission], WsSubmitted)"
| "TRANSITIONS EvVerify = Some ([WsSubmitted], WsVerifying)"
| "TRANSITIONS EvApprove = Some ([WsVerifying], WsApproved)"
| "TRANSITIONS EvReject = Some ([WsVerifying, WsSubmitted], WsRejected)"
| "TRANSITIONS EvExpire =
     Some ([WsCreated, WsPendingSubmission, WsSubmitted, WsVerifying], WsExpired)"
| "TRANSITIONS EvCancel =
     Some ([WsCreated, WsPendingSubmission, WsSubmitted, WsVerifying], WsCancelled)"
| "TRANSITIONS EvRequestInfo = Some ([WsSubmitted, WsVerifying], WsPendingSubmission)"
| "TRANSITIONS EvProvideInfo = Some ([WsPendingSubmission], WsSubmitted)"
| "TRANSITIONS (EvOther s) = None"

record orchestrator =
  workflows :: "(string, kyc_workflow) jsmap"
  userWorkflows :: "(string, string list) jsmap"

definition new_orchestrator :: orchestrator where
  "new_orchestrator = \<lparr>workflows = jm_empty, userWorkflows = jm_empty\<rparr>"

subsection \<open>Operations of the store\<close>

definition is_active :: "kyc_workflow \<Rightarrow> bool" where
  "is_active w \<longleftrightarrow>
     wf_status w \<in> set [WsCreated, WsPendingSubmission, WsSubmitted, WsVerifying]"

definition user_ids :: "orchestrator \<Rightarrow> string \<Rightarrow> string list" where
  "user_ids orc u = (case jm_get (userWorkflows orc) u of None \<Rightarrow> [] | Some ids \<Rightarrow> ids)"

definition getUserWorkflows :: "string \<Rightarrow> orchestrator \<Rightarrow> kyc_workflow list" where
  "getUserWorkflows u orc = List.map_filter (jm_get (workflows orc)) (user_ids orc u)"

definition new_step :: "(nat \<Rightarrow> string) \<Rightarrow> nat \<Rightarrow> string \<Rightarrow> kyc_step" where
  "new_step uuid i verification =
     \<lparr>st_id = uuid i, st_name = verification, st_status = Some StepPending,
      st_startedAt = None, st_completedAt = None, st_result = None, st_error = None\<rparr>"

text \<open>The first name drawn from \<open>uuid\<close> is the workflow's, the following ones the steps'.\<close>

definition createWorkflow ::
    "orchestrator_config \<Rightarrow> int \<Rightarrow> (nat \<Rightarrow> string) \<Rightarrow> string \<Rightarrow> kyc_tier \<Rightarrow> orchestrator \<Rightarrow>
     (kyc_workflow \<times> orchestrator) result" where
  "createWorkflow cfg now uuid userId tier orc =
     (if js_ge (int (length (filter is_active (getUserWorkflows userId orc))))
               (oc_maxActiveWorkflowsPerUser cfg)
      then Inl (JsError (''User '' @ userId @ '' already has '' @
             show_num (oc_maxActiveWorkflowsPerUser cfg) @ '' active workflows''))
      else case find (\<lambda>t. td_tier t = tier) (oc_tiers cfg) of
        None \<Rightarrow> Inl (JsError (''Unknown tier: '' @ tier_name tier))
      | Some tierDef \<Rightarrow>
          (case date_iso (map_option (\<lambda>t. now + t) (to_overallTimeoutMs (oc_timeouts cfg))) of
             Inl e \<Rightarrow> Inl e
           | Inr expiresAt \<Rightarrow>
               let workflow =
                     \<lparr>wf_id = uuid 0, wf_userId = userId, wf_tier = tier, wf_status = WsCreated,
                      wf_steps =
                        map (\<lambda>(i, v). new_step uuid (Suc i) v)
                          (enumerate 0 (td_requiredVerifications tierDef)),
                      wf_createdAt = now, wf_updatedAt = now, wf_expiresAt = expiresAt,
                      wf_completedAt = None, wf_metadata = jm_empty\<rparr>
               in Inr (workflow,
                    orc\<lparr>workflows := jm_set (uuid 0) workflow (workflows orc),
                      userWorkflows :=
                        jm_set userId (user_ids orc userId @ [uuid 0]) (userWorkflows orc)\<rparr>)))"

text \<open>Objects are stored by reference: mutating a workflow changes its entry of the Map.\<close>

definition put_workflow :: "string \<Rightarrow> kyc_workflow \<Rightarrow> orchestrator \<Rightarrow> orchestrator" where
  "put_workflow i w orc = orc\<lparr>workflows := jm_set i w (workflows orc)\<rparr>"

definition getWorkflow_orc :: "string \<Rightarrow> orchestrator \<Rightarrow> kyc_workflow result" where
  "getWorkflow_orc workflowId orc =
     (case jm_get (workflows orc) workflowId of
        None \<Rightarrow> Inl (JsError (''Workflow not found: '' @ workflowId))
      | Some workflow \<Rightarrow> Inr workflow)"

definition transitionWorkflow ::
    "int \<Rightarrow> string \<Rightarrow> workflow_event \<Rightarrow> orchestrator \<Rightarrow> (kyc_workflow \<times> orchestrator) result" where
  "transitionWorkflow now workflowId event orc =
     (case jm_get (workflows orc) workflowId of
        None \<Rightarrow> Inl (JsError (''Workflow not found: '' @ workflowId))
      | Some workflow \<Rightarrow>
        (case TRANSITIONS event of
           None \<Rightarrow>
             if event_name event \<in> set object_prototype_keys
             then Inl (JsTypeError ''Cannot read properties of undefined (reading 'includes')'')
             else Inl (JsError (''Unknown event: '' @ event_name event))
         | Some (froms, target) \<Rightarrow>
             if wf_status workflow \<notin> set froms
             then Inl (JsError (''Cannot transition from '' @
                    workflow_status_name (wf_status workflow) @ '' with event '' @
                    event_name event))
             else
               let w1 = workflow\<lparr>wf_status := target, wf_updatedAt := now\<rparr>;
                   w2 = (if target \<in> set [WsApproved, WsRejected, WsCancelled]
                         then w1\<lparr>wf_completedAt := Some (wf_updatedAt w1)\<rparr> else w1)
               in Inr (w2, put_workflow workflowId w2 orc)))"

text \<open>A string that is neither undefined nor empty.\<close>

definition truthy_str :: "string option \<Rightarrow> bool" where
  "truthy_str s \<longleftrightarrow> s \<noteq> None \<and> s \<noteq> Some []"

definition listWorkflows_orc :: "string option \<Rightarrow> orchestrator \<Rightarrow> kyc_workflow list" where
  "listWorkflows_orc status orc =
     (if truthy_str status
      then filter (\<lambda>w. Some (workflow_status_name (wf_status w)) = status)
             (jm_values (workflows orc))
      else jm_values (workflows orc))"

text \<open>The update object of updateStep: an absent key is \<open>None\<close>, a key that is present with
  the value undefined is \<open>Some None\<close>. Object.assign copies the latter.\<close>

record step_update =
  su_status :: "step_status option option"
  su_result :: "json option option"
  su_error :: "string option option"

definition apply_step_update :: "int \<Rightarrow> step_update \<Rightarrow> kyc_step \<Rightarrow> kyc_step" where
  "apply_step_update now update st =
     (let s1 = st\<lparr>st_status := assign_key (su_status update) (st_status st),
                  st_result := assign_key (su_result update) (st_result st),
                  st_error := assign_key (su_error update) (st_error st)\<rparr>;
          s2 = (if su_status update = Some (Some StepInProgress) \<and> st_startedAt s1 = None
                then s1\<lparr>st_startedAt := Some now\<rparr> else s1)
      in if su_status update = Some (Some StepCompleted) \<or>
            su_status update = Some (Some StepFailed)
         then s2\<lparr>st_completedAt := Some now\<rparr> else s2)"

definition updateStep ::
    "int \<Rightarrow> string \<Rightarrow> string \<Rightarrow> step_update \<Rightarrow> orchestrator \<Rightarrow> (kyc_workflow \<times> orchestrator) result"
    where
  "updateStep now workflowId stepId update orc =
     (case jm_get (workflows orc) workflowId of
        None \<Rightarrow> Inl (JsError (''Workflow not found: '' @ workflowId))
      | Some workflow \<Rightarrow>
        (case find (\<lambda>s. st_id s = stepId) (wf_steps workflow) of
           None \<Rightarrow> Inl (JsError (''Step not found: '' @ stepId))
         | Some _ \<Rightarrow>
             let w = workflow\<lparr>wf_steps := update_first (\<lambda>s. st_id s = stepId)
                                (apply_step_update now update) (wf_steps workflow),
                              wf_updatedAt := now\<rparr>
             in Inr (w, put_workflow workflowId w orc)))"

definition overdue :: "int \<Rightarrow> kyc_workflow \<Rightarrow> bool" where
  "overdue now w \<longleftrightarrow> is_active w \<and> wf_expiresAt w \<le> now"

definition checkExpired :: "int \<Rightarrow> orchestrator \<Rightarrow> string list \<times> orchestrator" where
  "checkExpired now orc =
     (map fst (filter (\<lambda>(i, w). overdue now w) (workflows orc)),
      orc\<lparr>workflows :=
        map (\<lambda>(i, w). (i, if overdue now w
                          then w\<lparr>wf_status := WsExpired, wf_updatedAt := now\<rparr> else w))
          (workflows orc)\<rparr>)"

definition updateMetadata ::
    "int \<Rightarrow> string \<Rightarrow> (string, json) jsmap \<Rightarrow> orchestrator \<Rightarrow> (kyc_workflow \<times> orchestrator) result"
    where
  "updateMetadata now workflowId metadata orc =
     (case jm_get (workflows orc) workflowId of
        None \<Rightarrow> Inl (JsError (''Workflow not found: '' @ workflowId))
      | Some workflow \<Rightarrow>
          let w = workflow\<lparr>wf_metadata := js_spread (wf_metadata workflow) metadata,
                           wf_updatedAt := now\<rparr>
          in Inr (w, put_workflow workflowId w orc))"

subsection \<open>HTTP routes (handler.ts)\<close>

text \<open>The bodies are the parsed JSON bodies; a missing field is \<open>None\<close>. The empty string is
  falsy too.\<close>

datatype kyc_request =
    GetHealth
  | GetWorkflows "string option"
  | PostWorkflows "string option" "string option"
  | GetWorkflowById string
  | PostTransition string "string option"
  | GetUserWorkflows string
  | PatchStep string string "string option" "json option" "string option"
  | PostCheckExpired
  | PatchMetadata string "(string, json) jsmap option"

datatype kyc_body =
    BodyHealth string string
  | BodyWorkflows nat "kyc_workflow list"
  | BodyWorkflow kyc_workflow
  | BodyError string
  | BodyExpired "string list" nat

type_synonym kyc_response = "nat \<times> kyc_body"

fun step_status_of_string :: "string \<Rightarrow> step_status" where
  "step_status_of_string s =
     (if s = ''pending'' then StepPending
      else if s = ''in_progress'' then StepInProgress
      else if s = ''completed'' then StepCompleted
      else if s = ''failed'' then StepFailed
      else StepOther s)"

text \<open>The try / catch of a mutating route: a thrown error becomes a response with the given
  status, and the store stays as it was.\<close>

definition respond ::
    "nat \<Rightarrow> nat \<Rightarrow> orchestrator \<Rightarrow> (kyc_workflow \<times> orchestrator) result \<Rightarrow>
     kyc_response \<times> orchestrator" where
  "respond okCode errCode orc r =
     (case r of
        Inl e \<Rightarrow> ((errCode, BodyError (exn_message e)), orc)
      | Inr (w, orc') \<Rightarrow> ((okCode, BodyWorkflow w), orc'))"

fun handle ::
    "orchestrator_config \<Rightarrow> int \<Rightarrow> (nat \<Rightarrow> string) \<Rightarrow> kyc_request \<Rightarrow> orchestrator \<Rightarrow>
     kyc_response \<times> orchestrator" where
  "handle cfg now uuid GetHealth orc = ((200, BodyHealth ''ok'' ''kyc-orchestrator''), orc)"
| "handle cfg now uuid (GetWorkflows status) orc =
     (let ws = listWorkflows_orc status orc in ((200, BodyWorkflows (length ws) ws), orc))"
| "handle cfg now uuid (PostWorkflows userId tier) orc =
     (if \<not> truthy_str userId \<or> \<not> truthy_str tier
      then ((400, BodyError ''Missing required fields: userId, tier''), orc)
      else respond 201 400 orc
             (createWorkflow cfg now uuid (the userId) (tier_of_string (the tier)) orc))"
| "handle cfg now uuid (GetWorkflowById i) orc =
     (case getWorkflow_orc i orc of
        Inl e \<Rightarrow> ((404, BodyError (exn_message e)), orc)
      | Inr w \<Rightarrow> ((200, BodyWorkflow w), orc))"
| "handle cfg now uuid (PostTransition i event) orc =
     (if \<not> truthy_str event then ((400, BodyError ''Missing required field: event''), orc)
      else respond 200 400 orc (transitionWorkflow now i (event_of_string (the event)) orc))"
| "handle cfg now uuid (GetUserWorkflows u) orc =
     (let ws = getUserWorkflows u orc in ((200, BodyWorkflows (length ws) ws), orc))"
| "handle cfg now uuid (PatchStep i stepId status res err) orc =
     respond 200 400 orc
       (updateStep now i stepId
          \<lparr>su_status = Some (map_option step_status_of_string status),
           su_result = Some res, su_error = Some err\<rparr> orc)"
| "handle cfg now uuid PostCheckExpired orc =
     (let (expired, orc') = checkExpired now orc
      in ((200, BodyExpired expired (length expired)), orc'))"
| "handle cfg now uuid (PatchMetadata i metadata) orc =
     (case metadata of
        None \<Rightarrow> ((400, BodyError ''Missing required field: metadata''), orc)
      | Some m \<Rightarrow> respond 200 400 orc (updateMetadata now i m orc))"

subsection \<open>The invariant of the store\<close>

definition completed_ok :: "kyc_workflow \<Rightarrow> bool" where
  "completed_ok w \<longleftrightarrow>
     (wf_completedAt w \<noteq> None) = (wf_status w \<in> {WsApproved, WsRejected, WsCancelled})"

definition steps_ok :: "orchestrator_config \<Rightarrow> kyc_workflow \<Rightarrow> bool" where
  "steps_ok cfg w \<longleftrightarrow>
     (\<exists>td. find (\<lambda>t. td_tier t = wf_tier w) (oc_tiers cfg) = Some td \<and>
           map st_name (wf_steps w) = td_requiredVerifications td)"

definition workflow_ok :: "orchestrator_config \<Rightarrow> string \<Rightarrow> kyc_workflow \<Rightarrow> bool" where
  "workflow_ok cfg i w \<longleftrightarrow> wf_id w = i \<and> completed_ok w \<and> steps_ok cfg w"

definition active_count :: "orchestrator \<Rightarrow> string \<Rightarrow> nat" where
  "active_count orc u = length (filter is_active (getUserWorkflows u orc))"

text \<open>A limit of NaN is no limit; a limit below 1 admits no workflow.\<close>

definition within_limit :: "orchestrator_config \<Rightarrow> nat \<Rightarrow> bool" where
  "within_limit cfg n \<longleftrightarrow>
     (case oc_maxActiveWorkflowsPerUser cfg of None \<Rightarrow> True | Some m \<Rightarrow> int n \<le> max 0 m)"

definition index_ok :: "orchestrator \<Rightarrow> bool" where
  "index_ok orc \<longleftrightarrow>
     jm_ok (workflows orc) \<and> jm_ok (userWorkflows orc) \<and>
     (\<forall>u. distinct (user_ids orc u)) \<and>
     (\<forall>u i. i \<in> set (user_ids orc u) \<longleftrightarrow>
        (\<exists>w. jm_get (workflows orc) i = Some w \<and> wf_userId w = u))"

definition orch_inv :: "orchestrator_config \<Rightarrow> orchestrator \<Rightarrow> bool" where
  "orch_inv cfg orc \<longleftrightarrow>
     index_ok orc \<and>
     (\<forall>i w. jm_get (workflows orc) i = Some w \<longrightarrow> workflow_ok cfg i w) \<and>
     (\<forall>u. within_limit cfg (active_count orc u))"

subsection \<open>Preservation\<close>

lemma active_count_ids:
  "active_count orc u =
     length (filter (\<lambda>i. case jm_get (workflows orc) i of None \<Rightarrow> False | Some w \<Rightarrow> is_active w)
       (user_ids orc u))"
  by (simp add: active_count_def getUserWorkflows_def length_filter_map_filter)

lemma within_limit_mono: "within_limit cfg n \<Longrightarrow> m \<le> n \<Longrightarrow> within_limit cfg m"
  by (auto simp: within_limit_def split: option.splits)

text \<open>Replacing workflows by versions of the same user that are active only where the old
  one was, and keep their local invariant: the shape of every mutating operation but
  createWorkflow.\<close>

lemma orch_inv_replace:
  assumes inv: "orch_inv cfg orc"
    and users: "userWorkflows orc' = userWorkflows orc"
    and ok: "jm_ok (workflows orc')"
    and lookup: "\<And>i. jm_get (workflows orc') i = map_option (f i) (jm_get (workflows orc) i)"
    and keep: "\<And>i w. jm_get (workflows orc) i = Some w \<Longrightarrow> workflow_ok cfg i w \<Longrightarrow>
       wf_userId (f i w) = wf_userId w \<and> workflow_ok cfg i (f i w) \<and>
       (is_active (f i w) \<longrightarrow> is_active w)"
  shows "orch_inv cfg orc'"
proof -
  have ids: "user_ids orc' = user_ids orc"
    by (simp add: user_ids_def users fun_eq_iff)
  from inv have idx: "index_ok orc"
    and wok: "\<And>i w. jm_get (workflows orc) i = Some w \<Longrightarrow> workflow_ok cfg i w"
    by (auto simp: orch_inv_def)
  have "index_ok orc'"
    using idx ok keep wok by (fastforce simp: index_ok_def users ids lookup)
  moreover have "workflow_ok cfg i w" if "jm_get (workflows orc') i = Some w" for i w
    using that keep wok by (auto simp: lookup)
  moreover have "within_limit cfg (active_count orc' u)" for u
  proof (rule within_limit_mono)
    show "within_limit cfg (active_count orc u)" using inv by (simp add: orch_inv_def)
    show "active_count orc' u \<le> active_count orc u"
      unfolding active_count_ids ids
      by (rule length_filter_mono) (use keep wok in \<open>auto simp: lookup split: option.splits\<close>)
  qed
  ultimately show ?thesis by (simp add: orch_inv_def)
qed

lemma orch_inv_put_workflow:
  assumes "orch_inv cfg orc" and "jm_get (workflows orc) i = Some w"
    and "workflow_ok cfg i w \<Longrightarrow> wf_userId w' = wf_userId w \<and> workflow_ok cfg i w' \<and>
           (is_active w' \<longrightarrow> is_active w)"
  shows "orch_inv cfg (put_workflow i w' orc)"
proof (rule orch_inv_replace [OF assms(1), where f = "\<lambda>j v. if j = i then w' else v"])
  show "jm_ok (workflows (put_workflow i w' orc))"
    using assms(1) by (simp add: put_workflow_def orch_inv_def index_ok_def jm_ok_set)
qed (use assms(2,3) in \<open>auto simp: put_workflow_def option.map_ident split: if_splits\<close>)

lemma TRANSITIONS_from_active:
  "TRANSITIONS e = Some (froms, target) \<Longrightarrow> wf_status w \<in> set froms \<Longrightarrow> is_active w"
  by (cases e) (auto simp: is_active_def)

lemma transitionWorkflow_inv:
  assumes "orch_inv cfg orc" and "transitionWorkflow now i e orc = Inr (w', orc')"
  shows "orch_inv cfg orc'"
proof -
  from assms(2) obtain w froms target where w: "jm_get (workflows orc) i = Some w"
    and tr: "TRANSITIONS e = Some (froms, target)" and mem: "wf_status w \<in> set froms"
    and orc': "orc' = put_workflow i w' orc"
    and w': "w' = (if target \<in> {WsApproved, WsRejected, WsCancelled}
       then w\<lparr>wf_status := target, wf_updatedAt := now, wf_completedAt := Some now\<rparr>
       else w\<lparr>wf_status := target, wf_updatedAt := now\<rparr>)"
    by (auto simp: transitionWorkflow_def Let_def split: option.splits if_splits prod.splits)
  have act: "is_active w" using tr mem by (rule TRANSITIONS_from_active)
  show ?thesis unfolding orc'
  proof (rule orch_inv_put_workflow [OF assms(1) w])
    assume "workflow_ok cfg i w"
    then show "wf_userId w' = wf_userId w \<and> workflow_ok cfg i w' \<and> (is_active w' \<longrightarrow> is_active w)"
      using act by (auto simp: w' workflow_ok_def completed_ok_def steps_ok_def is_active_def)
  qed
qed

lemma apply_step_update_name [simp]: "st_name (apply_step_update now u st) = st_name st"
  by (simp add: apply_step_update_def Let_def)

lemma apply_step_update_id [simp]: "st_id (apply_step_update now u st) = st_id st"
  by (simp add: apply_step_update_def Let_def)

lemma updateStep_inv:
  assumes inv: "orch_inv cfg orc" and upd: "updateStep now i sid u orc = Inr (w', orc')"
  shows "orch_inv cfg orc'"
proof (cases "jm_get (workflows orc) i")
  case None
  with upd show ?thesis by (simp add: updateStep_def)
next
  case (Some w)
  let ?w = "w\<lparr>wf_steps := update_first (\<lambda>s. st_id s = sid) (apply_step_update now u) (wf_steps w),
               wf_updatedAt := now\<rparr>"
  from upd have "orc' = put_workflow i ?w orc"
    by (auto simp: updateStep_def Some Let_def split: option.splits)
  moreover have "workflow_ok cfg i w \<Longrightarrow> workflow_ok cfg i ?w"
    by (simp add: workflow_ok_def completed_ok_def steps_ok_def map_update_first)
  ultimately show ?thesis
    by (simp add: orch_inv_put_workflow [OF inv Some] is_active_def)
qed

lemma updateMetadata_inv:
  assumes inv: "orch_inv cfg orc" and upd: "updateMetadata now i m orc = Inr (w', orc')"
  shows "orch_inv cfg orc'"
proof (cases "jm_get (workflows orc) i")
  case None
  with upd show ?thesis by (simp add: updateMetadata_def)
next
  case (Some w)
  let ?w = "w\<lparr>wf_metadata := js_spread (wf_metadata w) m, wf_updatedAt := now\<rparr>"
  from upd have "orc' = put_workflow i ?w orc"
    by (auto simp: updateMetadata_def Some Let_def)
  moreover have "workflow_ok cfg i w \<Longrightarrow> workflow_ok cfg i ?w"
    by (simp add: workflow_ok_def completed_ok_def steps_ok_def)
  ultimately show ?thesis
    by (simp add: orch_inv_put_workflow [OF inv Some] is_active_def)
qed

lemma checkExpired_inv:
  assumes "orch_inv cfg orc" and "checkExpired now orc = (ids, orc')"
  shows "orch_inv cfg orc'"
  by (rule orch_inv_replace [OF assms(1), where
        f = "\<lambda>_ w. if overdue now w then w\<lparr>wf_status := WsExpired, wf_updatedAt := now\<rparr> else w"])
    (use assms in \<open>auto simp: checkExpired_def jm_get_map_values jm_ok_map_values orch_inv_def
       index_ok_def workflow_ok_def completed_ok_def steps_ok_def overdue_def is_active_def\<close>)

text \<open>createWorkflow adds one workflow, under a name that is not in use.\<close>

lemma user_ids_create:
  "user_ids (orc\<lparr>workflows := W, userWorkflows := jm_set u0 (user_ids orc u0 @ [i]) (userWorkflows orc)\<rparr>) u =
     (if u = u0 then user_ids orc u @ [i] else user_ids orc u)"
  by (simp add: user_ids_def)

lemma active_count_create:
  assumes "index_ok orc" and fresh: "jm_get (workflows orc) i = None"
  shows "active_count (orc\<lparr>workflows := jm_set i w (workflows orc),
             userWorkflows := jm_set u0 (user_ids orc u0 @ [i]) (userWorkflows orc)\<rparr>) u =
           active_count orc u + (if u = u0 \<and> is_active w then 1 else 0)"
proof -
  have old: "j \<noteq> i" if "j \<in> set (user_ids orc u)" for j
    using that assms by (auto simp: index_ok_def)
  then show ?thesis
    unfolding active_count_ids user_ids_create by (simp cong: filter_cong)
qed

lemma index_ok_create:
  assumes "index_ok orc" and "jm_get (workflows orc) i = None" and "wf_userId w = u0"
  shows "index_ok (orc\<lparr>workflows := jm_set i w (workflows orc),
             userWorkflows := jm_set u0 (user_ids orc u0 @ [i]) (userWorkflows orc)\<rparr>)"
proof -
  from assms(1,2) have "i \<notin> set (user_ids orc u)" for u
    by (auto simp: index_ok_def)
  with assms show ?thesis
    by (auto simp: index_ok_def user_ids_create jm_ok_set split: if_splits)
qed

lemma createWorkflow_Inr:
  assumes "createWorkflow cfg now uuid u t orc = Inr (w, orc')"
  shows "\<exists>td ex. find (\<lambda>x. td_tier x = t) (oc_tiers cfg) = Some td \<and>
     \<not> js_ge (int (active_count orc u)) (oc_maxActiveWorkflowsPerUser cfg) \<and>
     date_iso (map_option (\<lambda>x. now + x) (to_overallTimeoutMs (oc_timeouts cfg))) = Inr ex \<and>
     w = \<lparr>wf_id = uuid 0, wf_userId = u, wf_tier = t, wf_status = WsCreated,
          wf_steps = map (\<lambda>(i, v). new_step uuid (Suc i) v) (enumerate 0 (td_requiredVerifications td)),
          wf_createdAt = now, wf_updatedAt = now, wf_expiresAt = ex, wf_completedAt = None,
          wf_metadata = jm_empty\<rparr> \<and>
     orc' = orc\<lparr>workflows := jm_set (uuid 0) w (workflows orc),
               userWorkflows := jm_set u (user_ids orc u @ [uuid 0]) (userWorkflows orc)\<rparr>"
  using assms
  by (auto simp: createWorkflow_def active_count_def Let_def split: if_splits option.splits sum.splits)

lemma new_step_names: "map st_name (map (\<lambda>(i, v). new_step uuid (Suc i) v) (enumerate k vs)) = vs"
  by (induction vs arbitrary: k) (auto simp: new_step_def)

lemma createWorkflow_inv:
  assumes inv: "orch_inv cfg orc" and cr: "createWorkflow cfg now uuid u t orc = Inr (w, orc')"
    and fresh: "jm_get (workflows orc) (uuid 0) = None"
  shows "orch_inv cfg orc'"
proof -
  from inv have idx: "index_ok orc"
    and wok: "\<And>i w. jm_get (workflows orc) i = Some w \<Longrightarrow> workflow_ok cfg i w"
    and lim: "\<And>u. within_limit cfg (active_count orc u)"
    by (auto simp: orch_inv_def)
  from createWorkflow_Inr [OF cr] obtain td where
    td: "find (\<lambda>x. td_tier x = t) (oc_tiers cfg) = Some td"
    and room: "\<not> js_ge (int (active_count orc u)) (oc_maxActiveWorkflowsPerUser cfg)"
    and w: "wf_id w = uuid 0" "wf_userId w = u" "wf_tier w = t" "wf_status w = WsCreated"
      "wf_completedAt w = None" "map st_name (wf_steps w) = td_requiredVerifications td"
    and orc': "orc' = orc\<lparr>workflows := jm_set (uuid 0) w (workflows orc),
               userWorkflows := jm_set u (user_ids orc u @ [uuid 0]) (userWorkflows orc)\<rparr>"
    using new_step_names [of uuid 0] by (elim exE conjE) simp
  have new: "workflow_ok cfg (uuid 0) w"
    using w td by (simp add: workflow_ok_def completed_ok_def steps_ok_def)
  have "within_limit cfg (active_count orc' v)" for v
    using lim [of v] room unfolding orc' active_count_create [OF idx fresh]
    by (auto simp: within_limit_def split: option.splits)
  then show ?thesis
    using new wok index_ok_create [OF idx fresh w(2)]
    by (simp add: orch_inv_def orc')
qed

subsection \<open>Requests as events of a machine\<close>

type_synonym orch_event = "int \<times> (nat \<Rightarrow> string) \<times> kyc_request"

definition orch_step :: "orchestrator_config \<Rightarrow> orch_event \<Rightarrow> orchestrator \<Rightarrow> orchestrator" where
  "orch_step cfg e orc = (case e of (now, uuid, req) \<Rightarrow> snd (handle cfg now uuid req orc))"

text \<open>randomUUID does not repeat a workflow's name.\<close>

definition orch_fresh :: "orch_event \<Rightarrow> orchestrator \<Rightarrow> bool" where
  "orch_fresh e orc \<longleftrightarrow> (case e of (now, uuid, req) \<Rightarrow> jm_get (workflows orc) (uuid 0) = None)"

lemma respond_inv:
  "orch_inv cfg orc \<Longrightarrow> (\<And>w orc'. r = Inr (w, orc') \<Longrightarrow> orch_inv cfg orc') \<Longrightarrow>
     orch_inv cfg (snd (respond a b orc r))"
  by (cases r) (auto simp: respond_def)

lemma handle_inv:
  assumes "orch_inv cfg orc" and "jm_get (workflows orc) (uuid 0) = None"
  shows "orch_inv cfg (snd (handle cfg now uuid req orc))"
proof (cases req)
  case PostCheckExpired
  then show ?thesis
    using assms checkExpired_inv by (cases "checkExpired now orc") auto
qed (use assms in \<open>auto intro!: respond_inv split: sum.splits option.splits
       dest: createWorkflow_inv transitionWorkflow_inv updateStep_inv updateMetadata_inv simp: Let_def\<close>)

lemma new_orchestrator_inv: "orch_inv cfg new_orchestrator"
  by (auto simp: orch_inv_def index_ok_def new_orchestrator_def user_ids_def active_count_def
      getUserWorkflows_def within_limit_def map_filter_simps split: option.splits)

interpretation orch: invariant_machine "orch_step cfg" orch_fresh "orch_inv cfg" for cfg
  by unfold_locales (auto simp: orch_step_def orch_fresh_def intro: handle_inv)

subsection \<open>What a request does to one workflow\<close>

text \<open>The status change a request can make: the edges of the transition table, with the
  event that walks them, and the overdue active workflows of check-expired.\<close>

definition status_step :: "kyc_request \<Rightarrow> string \<Rightarrow> workflow_status \<Rightarrow> workflow_status \<Rightarrow> bool" where
  "status_step req i a b \<longleftrightarrow>
     a = b \<or>
     (\<exists>ev froms. req = PostTransition i (Some ev) \<and>
        TRANSITIONS (event_of_string ev) = Some (froms, b) \<and> a \<in> set froms) \<or>
     (req = PostCheckExpired \<and> b = WsExpired \<and>
        a \<in> {WsCreated, WsPendingSubmission, WsSubmitted, WsVerifying})"

text \<open>How one request relates the entry of workflow \<open>i\<close> before and after.\<close>

definition entry_step :: "kyc_request \<Rightarrow> string \<Rightarrow> kyc_workflow \<Rightarrow> kyc_workflow \<Rightarrow> bool" where
  "entry_step req i w w' \<longleftrightarrow>
     status_step req i (wf_status w) (wf_status w') \<and>
     (wf_status w' = wf_status w \<longrightarrow>
        wf_completedAt w' = wf_completedAt w \<or> is_active w) \<and>
     wf_userId w' = wf_userId w \<and> wf_tier w' = wf_tier w \<and> wf_createdAt w' = wf_createdAt w \<and>
     wf_expiresAt w' = wf_expiresAt w"

lemma entry_step_refl [simp]: "entry_step req i w w"
  by (simp add: entry_step_def status_step_def)

lemma transition_entry:
  assumes "jm_get (workflows orc) i = Some w"
    and "transitionWorkflow now j (event_of_string ev) orc = Inr (v, orc')"
  shows "\<exists>w'. jm_get (workflows orc') i = Some w' \<and> entry_step (PostTransition j (Some ev)) i w w'"
proof (cases "jm_get (workflows orc) j")
  case None
  with assms show ?thesis by (simp add: transitionWorkflow_def)
next
  case (Some x)
  with assms(2) obtain froms target where tr: "TRANSITIONS (event_of_string ev) = Some (froms, target)"
    and mem: "wf_status x \<in> set froms"
    by (auto simp: transitionWorkflow_def split: option.splits if_splits)
  have act: "is_active x" using tr mem by (rule TRANSITIONS_from_active)
  have v: "wf_status v = target" "wf_userId v = wf_userId x" "wf_tier v = wf_tier x"
    "wf_createdAt v = wf_createdAt x" "wf_expiresAt v = wf_expiresAt x"
    and orc': "orc' = put_workflow j v orc"
    using assms(2) Some tr mem
    by (auto simp: transitionWorkflow_def Let_def simp del: TRANSITIONS.simps event_of_string.simps
        split: if_splits)
  show ?thesis
  proof (cases "i = j")
    case True
    with Some assms(1) have "x = w" by simp
    with tr mem v act have "entry_step (PostTransition j (Some ev)) j w v"
      unfolding entry_step_def status_step_def by blast
    with True show ?thesis by (simp add: orc' put_workflow_def)
  next
    case False
    with assms(1) show ?thesis by (simp add: orc' put_workflow_def)
  qed
qed

lemma create_entry:
  assumes "jm_get (workflows orc) i = Some w" and "jm_get (workflows orc) (uuid 0) = None"
    and "createWorkflow cfg now uuid u t orc = Inr (v, orc')"
  shows "jm_get (workflows orc') i = Some w"
  using createWorkflow_Inr [OF assms(3)] assms(1,2) by auto

lemma updateStep_entry:
  assumes "jm_get (workflows orc) i = Some w" and "updateStep now j sid u orc = Inr (v, orc')"
  shows "\<exists>w'. jm_get (workflows orc') i = Some w' \<and> entry_step req i w w'"
  using assms
  by (cases "i = j")
    (auto simp: updateStep_def Let_def put_workflow_def entry_step_def status_step_def
      split: option.splits)

lemma updateMetadata_entry:
  assumes "jm_get (workflows orc) i = Some w" and "updateMetadata now j m orc = Inr (v, orc')"
  shows "\<exists>w'. jm_get (workflows orc') i = Some w' \<and> entry_step req i w w'"
  using assms
  by (cases "i = j")
    (auto simp: updateMetadata_def Let_def put_workflow_def entry_step_def status_step_def
      split: option.splits)

lemma checkExpired_entry:
  assumes "jm_get (workflows orc) i = Some w"
  shows "\<exists>w'. jm_get (workflows (snd (checkExpired now orc))) i = Some w' \<and>
     entry_step PostCheckExpired i w w'"
  using assms
  by (auto simp: checkExpired_def jm_get_map_values entry_step_def status_step_def overdue_def
      is_active_def)

lemma respond_entry:
  assumes "jm_get (workflows orc) i = Some w"
    and "\<And>v orc'. r = Inr (v, orc') \<Longrightarrow> \<exists>w'. jm_get (workflows orc') i = Some w' \<and> entry_step req i w w'"
  shows "\<exists>w'. jm_get (workflows (snd (respond a b orc r))) i = Some w' \<and> entry_step req i w w'"
  using assms by (cases r) (auto simp: respond_def)

lemma handle_entry:
  assumes w: "jm_get (workflows orc) i = Some w" and fresh: "jm_get (workflows orc) (uuid 0) = None"
  shows "\<exists>w'. jm_get (workflows (snd (handle cfg now uuid req orc))) i = Some w' \<and>
     entry_step req i w w'"
proof (cases req)
  case (PostWorkflows u t)
  have "\<exists>w'. jm_get (workflows (snd (respond 201 400 orc
      (createWorkflow cfg now uuid (the u) (tier_of_string (the t)) orc)))) i = Some w' \<and> entry_step req i w w'"
    using create_entry [where uuid = uuid, OF w fresh] by (intro respond_entry [OF w]) auto
  with PostWorkflows w show ?thesis by (auto simp del: tier_of_string.simps)
next
  case (PostTransition j ev)
  show ?thesis
  proof (cases "truthy_str ev")
    case False
    with PostTransition w show ?thesis by simp
  next
    case True
    then obtain e where "ev = Some e" by (auto simp: truthy_str_def)
    with PostTransition True transition_entry [OF w, of now j e] show ?thesis
      by (auto intro!: respond_entry [OF w] simp del: event_of_string.simps)
  qed
next
  case (PatchStep j sid st res err)
  with updateStep_entry [OF w, of now j sid] show ?thesis
    by (auto intro!: respond_entry [OF w] simp del: step_status_of_string.simps)
next
  case PostCheckExpired
  with checkExpired_entry [OF w, of now] show ?thesis by (simp add: case_prod_beta Let_def)
next
  case (PatchMetadata j m)
  with updateMetadata_entry [OF w, of now j] w show ?thesis
    by (auto intro!: respond_entry [OF w] split: option.splits)
qed (use w in \<open>auto simp: Let_def split: sum.splits\<close>)

text \<open>The second machine: the entry of a workflow that reached a terminal status.\<close>

definition settled :: "string \<Rightarrow> workflow_status \<Rightarrow> int option \<Rightarrow> orchestrator \<Rightarrow> bool" where
  "settled i st fin orc \<longleftrightarrow>
     (\<exists>w. jm_get (workflows orc) i = Some w \<and> wf_status w = st \<and> wf_completedAt w = fin \<and>
          \<not> is_active w)"

lemma settled_entry:
  "\<not> is_active w \<Longrightarrow> entry_step req i w w' \<Longrightarrow>
     wf_status w' = wf_status w \<and> wf_completedAt w' = wf_completedAt w \<and> \<not> is_active w'"
  by (auto simp: entry_step_def status_step_def is_active_def elim!: TRANSITIONS.elims)

lemma handle_settled:
  assumes "settled i st fin orc" and "jm_get (workflows orc) (uuid 0) = None"
  shows "settled i st fin (snd (handle cfg now uuid req orc))"
proof -
  from assms(1) obtain w where w: "jm_get (workflows orc) i = Some w" "wf_status w = st"
    "wf_completedAt w = fin" "\<not> is_active w"
    by (auto simp: settled_def)
  from handle_entry [where uuid = uuid, OF w(1) assms(2), of cfg now req] obtain w' where
    "jm_get (workflows (snd (handle cfg now uuid req orc))) i = Some w'" "entry_step req i w w'"
    by blast
  with settled_entry [OF w(4)] w show ?thesis by (auto simp: settled_def)
qed

interpretation settled: invariant_machine "orch_step cfg" orch_fresh "settled i st fin" for cfg i st fin
  by unfold_locales (auto simp: orch_step_def orch_fresh_def intro: handle_settled)

subsection \<open>Properties\<close>

text \<open>A concrete run, for the witnesses: two workflows of one user, one taken to approval.\<close>

definition demo_config :: orchestrator_config where
  "demo_config = loadConfig_orchestrator (\<lambda>_. None)"

definition demo_events :: "orch_event list" where
  "demo_events =
     [(1000, \<lambda>n. ''w1'', PostWorkflows (Some ''ann'') (Some ''basic'')),
      (2000, \<lambda>n. ''w2'', PostWorkflows (Some ''ann'') (Some ''premium'')),
      (3000, \<lambda>n. ''x'', PostTransition ''w1'' (Some ''submit'')),
      (4000, \<lambda>n. ''x'', PostTransition ''w1'' (Some ''verify'')),
      (5000, \<lambda>n. ''x'', PostTransition ''w1'' (Some ''approve''))]"

lemma demo_limit: "oc_maxActiveWorkflowsPerUser demo_config = Some 3"
  by code_simp

lemma demo_admissible: "admissible orch_fresh (orch_step demo_config) demo_events new_orchestrator"
  by code_simp

text \<open>C1: Whatever HTTP requests the orchestrator serves, in whatever order, no user ever has
  more active workflows than the configured limit (none at all for a limit below 1).\<close>

theorem active_workflows_bounded:
  assumes "oc_maxActiveWorkflowsPerUser cfg = Some m"
    and "admissible orch_fresh (orch_step cfg) es new_orchestrator"
  shows "int (active_count (run_events (orch_step cfg) es new_orchestrator) u) \<le> max 0 m"
  using orch.inv_run [OF new_orchestrator_inv assms(2)] assms(1)
  by (simp add: orch_inv_def within_limit_def)

theorem active_workflows_bounded_witness:
  "int (active_count (run_events (orch_step demo_config) demo_events new_orchestrator) ''ann'') \<le> 3"
  using active_workflows_bounded [OF demo_limit demo_admissible, of "''ann''"] by simp

text \<open>The per-user index and the workflow store agree after any run of requests: the
  workflows listed for a user are exactly the stored workflows of that user, none twice, and
  each carries one step per verification its tier requires.\<close>

theorem user_index_agrees:
  assumes "admissible orch_fresh (orch_step cfg) es new_orchestrator"
    and "orc = run_events (orch_step cfg) es new_orchestrator"
  shows "set (getUserWorkflows u orc) = {w \<in> set (jm_values (workflows orc)). wf_userId w = u} \<and>
     distinct (map wf_id (getUserWorkflows u orc)) \<and>
     (\<forall>w \<in> set (getUserWorkflows u orc). steps_ok cfg w)"
proof -
  have inv: "orch_inv cfg orc"
    unfolding assms(2) using new_orchestrator_inv assms(1) by (rule orch.inv_run)
  then have ok: "jm_ok (workflows orc)" and dist: "distinct (user_ids orc u)"
    and mem: "\<And>i. i \<in> set (user_ids orc u) \<longleftrightarrow>
        (\<exists>w. jm_get (workflows orc) i = Some w \<and> wf_userId w = u)"
    and wok: "\<And>i w. jm_get (workflows orc) i = Some w \<Longrightarrow> workflow_ok cfg i w"
    by (auto simp: orch_inv_def index_ok_def)
  have "map wf_id (List.map_filter (jm_get (workflows orc)) ids) = ids"
    if "set ids \<subseteq> set (user_ids orc u)" for ids
    using that mem wok by (induction ids) (auto simp: map_filter_simps workflow_ok_def split: option.splits)
  then have "map wf_id (getUserWorkflows u orc) = user_ids orc u"
    by (simp add: getUserWorkflows_def)
  moreover have "set (getUserWorkflows u orc) = {w \<in> set (jm_values (workflows orc)). wf_userId w = u}"
    using mem by (auto simp: getUserWorkflows_def jm_values_get [OF ok])
  moreover have "\<forall>w \<in> set (getUserWorkflows u orc). steps_ok cfg w"
    using wok by (auto simp: getUserWorkflows_def workflow_ok_def)
  ultimately show ?thesis using dist by simp
qed

theorem user_index_agrees_witness:
  "distinct (map wf_id (getUserWorkflows ''ann'' (run_events (orch_step demo_config) demo_events new_orchestrator)))"
  using user_index_agrees [OF demo_admissible refl, of "''ann''"] by simp

text \<open>C2: A workflow that is approved, rejected, expired or cancelled keeps that status and its
  completion time whatever requests follow.\<close>

theorem terminal_status_is_final:
  assumes "jm_get (workflows orc) i = Some w" and "\<not> is_active w"
    and "admissible orch_fresh (orch_step cfg) es orc"
  shows "\<exists>w'. jm_get (workflows (run_events (orch_step cfg) es orc)) i = Some w' \<and>
     wf_status w' = wf_status w \<and> wf_completedAt w' = wf_completedAt w"
proof -
  have "settled i (wf_status w) (wf_completedAt w) orc"
    using assms(1,2) by (simp add: settled_def)
  from settled.inv_run [OF this assms(3)] show ?thesis by (auto simp: settled_def)
qed

definition cancelled_demo :: kyc_workflow where
  "cancelled_demo =
     \<lparr>wf_id = ''w1'', wf_userId = ''ann'', wf_tier = TierBasic, wf_status = WsCancelled,
      wf_steps = [], wf_createdAt = 0, wf_updatedAt = 0, wf_expiresAt = 9, wf_completedAt = Some 5,
      wf_metadata = []\<rparr>"

theorem terminal_status_is_final_witness:
  "\<exists>w'. jm_get (workflows (run_events (orch_step demo_config)
        [(9, \<lambda>n. ''x'', PostCheckExpired), (10, \<lambda>n. ''x'', PostTransition ''w1'' (Some ''submit''))]
        \<lparr>workflows = [(''w1'', cancelled_demo)], userWorkflows = [(''ann'', [''w1''])]\<rparr>)) ''w1'' = Some w' \<and>
     wf_status w' = WsCancelled \<and> wf_completedAt w' = Some 5"
proof -
  let ?o = "\<lparr>workflows = [(''w1'', cancelled_demo)], userWorkflows = [(''ann'', [''w1''])]\<rparr>"
  have 1: "jm_get (workflows ?o) ''w1'' = Some cancelled_demo" by (simp add: jm_get_def)
  have 2: "\<not> is_active cancelled_demo" by (simp add: is_active_def cancelled_demo_def)
  have 3: "admissible orch_fresh (orch_step demo_config)
        [(9, \<lambda>n. ''x'', PostCheckExpired), (10, \<lambda>n. ''x'', PostTransition ''w1'' (Some ''submit''))] ?o"
    by code_simp
  show ?thesis using terminal_status_is_final [OF 1 2 3] by (simp add: cancelled_demo_def)
qed

text \<open>C5: Only an approve event on a workflow that is being verified approves it: if a request
  turns a stored workflow into an approved one, the request was that transition and the
  workflow was in the status verifying.\<close>

theorem approval_needs_verification:
  assumes "jm_get (workflows orc) i = Some w" and "jm_get (workflows orc) (uuid 0) = None"
    and "jm_get (workflows (snd (handle cfg now uuid req orc))) i = Some w'"
    and "wf_status w' = WsApproved" and "wf_status w \<noteq> WsApproved"
  shows "req = PostTransition i (Some ''approve'') \<and> wf_status w = WsVerifying"
proof -
  from handle_entry [where uuid = uuid, OF assms(1,2), of cfg now req] assms(3)
  have "status_step req i (wf_status w) (wf_status w')" by (auto simp: entry_step_def)
  then obtain ev froms where req: "req = PostTransition i (Some ev)"
    and tr: "TRANSITIONS (event_of_string ev) = Some (froms, WsApproved)" "wf_status w \<in> set froms"
    using assms(4,5) by (auto simp: status_step_def)
  from tr(1) have "event_of_string ev = EvApprove" and "froms = [WsVerifying]"
    by (auto elim!: TRANSITIONS.elims simp del: event_of_string.simps)
  then have "ev = ''approve''" by (auto split: if_splits)
  with req tr(2) \<open>froms = [WsVerifying]\<close> show ?thesis by simp
qed

definition verifying_demo :: orchestrator where
  "verifying_demo =
     \<lparr>workflows = [(''w1'', cancelled_demo\<lparr>wf_status := WsVerifying, wf_completedAt := None\<rparr>)],
      userWorkflows = [(''ann'', [''w1''])]\<rparr>"

theorem approval_needs_verification_witness:
  "\<exists>w w'. jm_get (workflows verifying_demo) ''w1'' = Some w \<and>
     jm_get (workflows (snd (handle demo_config 7 (\<lambda>n. ''x'')
        (PostTransition ''w1'' (Some ''approve'')) verifying_demo))) ''w1'' = Some w' \<and>
     wf_status w' = WsApproved \<and> wf_status w = WsVerifying"
proof -
  let ?w = "cancelled_demo\<lparr>wf_status := WsVerifying, wf_completedAt := None\<rparr>"
  let ?v = "?w\<lparr>wf_status := WsApproved, wf_updatedAt := 7, wf_completedAt := Some 7\<rparr>"
  have 1: "jm_get (workflows verifying_demo) ''w1'' = Some ?w"
    by (simp add: jm_get_def verifying_demo_def)
  have 2: "jm_get (workflows verifying_demo) ((\<lambda>n. ''x'') 0) = None"
    by (simp add: jm_get_def verifying_demo_def)
  have 3: "jm_get (workflows (snd (handle demo_config 7 (\<lambda>n. ''x'')
        (PostTransition ''w1'' (Some ''approve'')) verifying_demo))) ''w1'' = Some ?v"
    by (simp add: truthy_str_def respond_def transitionWorkflow_def 1 put_workflow_def Let_def)
  have "wf_status ?w = WsVerifying"
    using approval_needs_verification [OF 1 2 3] by simp
  with 1 3 show ?thesis by auto
qed

text \<open>check-expired is exact: it expires precisely the active workflows whose expiry time
  has come, reports precisely their ids in store order, leaves every other workflow
  untouched, and afterwards no active workflow is overdue.\<close>

theorem checkExpired_exact:
  assumes "jm_ok (workflows orc)" and "checkExpired now orc = (ids, orc')"
  shows "(\<forall>i. i \<in> set ids \<longleftrightarrow> (\<exists>w. jm_get (workflows orc) i = Some w \<and> is_active w \<and> wf_expiresAt w \<le> now)) \<and>
     (\<forall>i. jm_get (workflows orc') i =
        (if i \<in> set ids
         then map_option (\<lambda>w. w\<lparr>wf_status := WsExpired, wf_updatedAt := now\<rparr>) (jm_get (workflows orc) i)
         else jm_get (workflows orc) i)) \<and>
     fst (checkExpired now orc') = [] \<and> jm_keys (workflows orc') = jm_keys (workflows orc)"
proof -
  let ?f = "\<lambda>w. if overdue now w then w\<lparr>wf_status := WsExpired, wf_updatedAt := now\<rparr> else w"
  have ids: "ids = map fst (filter (\<lambda>(i, w). overdue now w) (workflows orc))"
    and W: "workflows orc' = map (\<lambda>(i, w). (i, ?f w)) (workflows orc)"
    using assms(2) by (auto simp: checkExpired_def)
  have mem: "i \<in> set ids \<longleftrightarrow> (\<exists>w. jm_get (workflows orc) i = Some w \<and> overdue now w)" for i
    using assms(1) by (force simp: ids jm_get_iff_mem)
  have "jm_get (workflows orc') i =
        (if i \<in> set ids
         then map_option (\<lambda>w. w\<lparr>wf_status := WsExpired, wf_updatedAt := now\<rparr>) (jm_get (workflows orc) i)
         else jm_get (workflows orc) i)" for i
    using mem [of i] by (auto simp: W jm_get_map_values split: option.splits)
      (cases "jm_get (workflows orc) i", auto)
  moreover have "\<not> overdue now (?f w)" for w
    by (cases "overdue now w") (simp_all add: overdue_def is_active_def)
  then have "fst (checkExpired now orc') = []"
    by (simp add: checkExpired_def W filter_empty_conv case_prod_beta)
  moreover have "jm_keys (workflows orc') = jm_keys (workflows orc)"
    by (simp add: jm_keys_def W o_def case_prod_beta)
  ultimately show ?thesis using mem by (auto simp: overdue_def)
qed

theorem checkExpired_exact_witness:
  "fst (checkExpired 9 verifying_demo) = [''w1''] \<and>
   fst (checkExpired 9 (snd (checkExpired 9 verifying_demo))) = []"
proof -
  have 1: "jm_ok (workflows verifying_demo)" by (simp add: jm_ok_def verifying_demo_def)
  have 2: "fst (checkExpired 9 verifying_demo) = [''w1'']" by code_simp
  show ?thesis
    using checkExpired_exact [OF 1 surjective_pairing, of 9] 2 by simp
qed

text \<open>A PATCH of a step that carries no status erases the step's status: the route always
  passes the three keys to updateStep and Object.assign copies the undefined ones.\<close>

theorem patch_without_status_erases_it:
  assumes "jm_get (workflows orc) i = Some w" and "find (\<lambda>s. st_id s = sid) (wf_steps w) = Some s"
  shows "\<exists>w' s'. handle cfg now uuid (PatchStep i sid None res err) orc =
            ((200, BodyWorkflow w'), put_workflow i w' orc) \<and>
          s' \<in> set (wf_steps w') \<and> st_id s' = sid \<and> st_name s' = st_name s \<and>
          st_status s' = None \<and> st_result s' = res \<and> st_error s' = err \<and>
          st_completedAt s' = st_completedAt s"
proof -
  let ?u = "\<lparr>su_status = Some None, su_result = Some res, su_error = Some err\<rparr>"
  let ?s = "apply_step_update now ?u s"
  let ?w = "w\<lparr>wf_steps := update_first (\<lambda>s. st_id s = sid) (apply_step_update now ?u) (wf_steps w),
               wf_updatedAt := now\<rparr>"
  have "handle cfg now uuid (PatchStep i sid None res err) orc = ((200, BodyWorkflow ?w), put_workflow i ?w orc)"
    using assms by (simp add: updateStep_def respond_def Let_def)
  moreover have "?s \<in> set (wf_steps ?w)" using update_first_find [OF assms(2)] by simp
  moreover have "st_id s = sid" using assms(2) by (auto simp: find_Some_iff)
  ultimately show ?thesis
    by (intro exI [of _ ?w] exI [of _ ?s]) (simp add: apply_step_update_def assign_key_def)
qed

definition step_demo :: orchestrator where
  "step_demo =
     \<lparr>workflows = [(''w1'', cancelled_demo\<lparr>wf_steps := [new_step (\<lambda>n. ''s1'') 0 ''age_check'']\<rparr>)],
      userWorkflows = [(''ann'', [''w1''])]\<rparr>"

theorem patch_without_status_erases_it_witness:
  "\<exists>w' s'. handle demo_config 7 (\<lambda>n. ''x'') (PatchStep ''w1'' ''s1'' None (Some JNull) None) step_demo =
       ((200, BodyWorkflow w'), put_workflow ''w1'' w' step_demo) \<and>
     s' \<in> set (wf_steps w') \<and> st_name s' = ''age_check'' \<and> st_status s' = None"
proof -
  let ?s = "new_step (\<lambda>n. ''s1'') 0 ''age_check''"
  have 1: "jm_get (workflows step_demo) ''w1'' = Some (cancelled_demo\<lparr>wf_steps := [?s]\<rparr>)"
    by (simp add: jm_get_def step_demo_def)
  have 2: "find (\<lambda>s. st_id s = ''s1'') (wf_steps (cancelled_demo\<lparr>wf_steps := [?s]\<rparr>)) = Some ?s"
    by (simp add: new_step_def)
  have "st_name ?s = ''age_check''" by (simp add: new_step_def)
  with patch_without_status_erases_it [OF 1 2, of demo_config 7 "\<lambda>n. ''x''" "Some JNull" None]
  show ?thesis by auto
qed

end
