(* ===== verification/KycService.thy ===== *)
theory KycService
  imports Prelude
begin

section \<open>The KYC service of the API\<close>

text \<open>
  packages/api/src/services/kyc_service.ts and the KYC types of packages/api/src/types. The
  service is a Map from workflow ids to workflows. Its methods are asynchronous only in form:
  after the lookup every method runs to its end, so a call is one step on the Map. A rejected
  promise is \<open>Inl\<close>. States, tiers and decisions are the union types of the signatures.
\<close>

datatype kyc_state =
    Initiated | DocumentSubmission | VerificationInProgress | ManualReview | Escalated
  | Approved | Rejected | Expired

datatype kyc_service_tier = TierBasic | TierEnhanced | TierEnterprise

datatype review_decision = Approve | Reject | Escalate | RequestInfo

record kyc_document =
  doc_id :: string
  doc_type :: string
  doc_fileName :: string
  doc_mimeType :: string
  doc_storageRef :: string
  doc_checksum :: string
  doc_verified :: bool
  doc_uploadedAt :: int

record kyc_review =
  rev_id :: string
  rev_reviewer :: string
  rev_decision :: review_decision
  rev_reason :: string
  rev_createdAt :: int

record kyc_workflow_event =
  ke_eventType :: string
  ke_timestamp :: int
  ke_actor :: string
  ke_detail :: "string option"
  ke_metadata :: "json option"

record kyc_case =
  kc_id :: string
  kc_subjectDid :: string
  kc_tier :: kyc_service_tier
  kc_platformId :: string
  kc_state :: kyc_state
  kc_documents :: "kyc_document list"
  kc_reviews :: "kyc_review list"
  kc_history :: "kyc_workflow_event list"
  kc_createdAt :: int
  kc_updatedAt :: "int option"
  kc_completedAt :: "int option"

record create_workflow_input =
  cw_subjectDid :: string
  cw_tier :: kyc_service_tier
  cw_platformId :: string
  cw_metadata :: "json option"

record workflow_transition_input =
  wt_workflowId :: string
  wt_newState :: kyc_state
  wt_actor :: string
  wt_detail :: "string option"
  wt_metadata :: "json option"

record document_upload_input =
  du_workflowId :: string
  du_documentType :: string
  du_fileName :: string
  du_mimeType :: string
  du_content :: string
  du_checksum :: string

record review_decision_input =
  rd_workflowId :: string
  rd_decision :: review_decision
  rd_reason :: string
  rd_reviewer :: string
  rd_metadata :: "json option"

text \<open>The strings the states and decisions are.\<close>

fun kyc_state_name :: "kyc_state \<Rightarrow> string" where
  "kyc_state_name Initiated = ''Initiated''"
| "kyc_state_name DocumentSubmission = ''DocumentSubmission''"
| "kyc_state_name VerificationInProgress = ''VerificationInProgress''"
| "kyc_state_name ManualReview = ''ManualReview''"
| "kyc_state_name Escalated = ''Escalated''"
| "kyc_state_name Approved = ''Approved''"
| "kyc_state_name Rejected = ''Rejected''"
| "kyc_state_name Expired = ''Expired''"

fun review_decision_name :: "review_decision \<Rightarrow> string" where
  "review_decision_name Approve = ''approve''"
| "review_decision_name Reject = ''reject''"
| "review_decision_name Escalate = ''escalate''"
| "review_decision_name RequestInfo = ''request_info''"

fun VALID_TRANSITIONS :: "kyc_state \<Rightarrow> kyc_state list" where
  "VALID_TRANSITIONS Initiated = [DocumentSubmission]"
| "VALID_TRANSITIONS DocumentSubmission = [VerificationInProgress, ManualReview]"
| "VALID_TRANSITIONS VerificationInProgress = [ManualReview, Approved, Rejected]"
| "VALID_TRANSITIONS ManualReview = [Approved, Rejected, Escalated, DocumentSubmission]"
| "VALID_TRANSITIONS Escalated = [ManualReview, Approved, Rejected]"
| "VALID_TRANSITIONS Approved = []"
| "VALID_TRANSITIONS Rejected = []"
| "VALID_TRANSITIONS Expired = []"

type_synonym kyc_service = "(string, kyc_case) jsmap"

subsection \<open>Operations\<close>

definition createWorkflow_kyc ::
    "int \<Rightarrow> string \<Rightarrow> create_workflow_input \<Rightarrow> kyc_service \<Rightarrow> kyc_case result \<times> kyc_service" where
  "createWorkflow_kyc now uuid input svc =
     (let i = ''wf-'' @ uuid;
          workflow = \<lparr>kc_id = i, kc_subjectDid = cw_subjectDid input, kc_tier = cw_tier input,
            kc_platformId = cw_platformId input, kc_state = Initiated, kc_documents = [],
            kc_reviews = [],
            kc_history = [\<lparr>ke_eventType = ''workflow_created'', ke_timestamp = now,
              ke_actor = ''system'',
              ke_detail = Some (''KYC workflow created for '' @ cw_subjectDid input),
              ke_metadata = cw_metadata input\<rparr>],
            kc_createdAt = now, kc_updatedAt = None, kc_completedAt = None\<rparr>
      in (Inr workflow, jm_set i workflow svc))"

definition getWorkflow_kyc :: "string \<Rightarrow> kyc_service \<Rightarrow> kyc_case result" where
  "getWorkflow_kyc i svc =
     (case jm_get svc i of
        None \<Rightarrow> Inl (new_object_assign (JsError (''Workflow not found: '' @ i)) 404)
      | Some workflow \<Rightarrow> Inr workflow)"

definition is_decided :: "kyc_state \<Rightarrow> bool" where
  "is_decided s \<longleftrightarrow> s = Approved \<or> s = Rejected"

definition transition_kyc ::
    "int \<Rightarrow> workflow_transition_input \<Rightarrow> kyc_service \<Rightarrow> kyc_case result \<times> kyc_service" where
  "transition_kyc now input svc =
     (case getWorkflow_kyc (wt_workflowId input) svc of
        Inl e \<Rightarrow> (Inl e, svc)
      | Inr w \<Rightarrow>
          if wt_newState input \<notin> set (VALID_TRANSITIONS (kc_state w)) then
            (Inl (new_object_assign (JsError (''Invalid transition from '' @
               kyc_state_name (kc_state w) @ '' to '' @ kyc_state_name (wt_newState input))) 400), svc)
          else
            let w1 = w\<lparr>kc_state := wt_newState input, kc_updatedAt := Some now\<rparr>;
                w2 = (if is_decided (wt_newState input) then w1\<lparr>kc_completedAt := Some now\<rparr> else w1);
                w3 = w2\<lparr>kc_history := kc_history w2 @
                  [\<lparr>ke_eventType = ''state_change:'' @ kyc_state_name (wt_newState input),
                    ke_timestamp = now, ke_actor = wt_actor input, ke_detail = wt_detail input,
                    ke_metadata = wt_metadata input\<rparr>]\<rparr>
            in (Inr w3, jm_set (wt_workflowId input) w3 svc))"

text \<open>The object literal of the new document reads \<open>doc.id\<close> while doc is still in its temporal
  dead zone, so building it throws before anything is stored.\<close>

definition build_document :: "int \<Rightarrow> string \<Rightarrow> document_upload_input \<Rightarrow> kyc_document result" where
  "build_document now uuid input =
     Inl (JsReferenceError ''Cannot access 'doc' before initialization'')"

definition uploadDocument ::
    "int \<Rightarrow> string \<Rightarrow> document_upload_input \<Rightarrow> kyc_service \<Rightarrow> kyc_document result \<times> kyc_service" where
  "uploadDocument now uuid input svc =
     (case getWorkflow_kyc (du_workflowId input) svc of
        Inl e \<Rightarrow> (Inl e, svc)
      | Inr w \<Rightarrow>
          (case build_document now uuid input of
             Inl e \<Rightarrow> (Inl e, svc)
           | Inr doc \<Rightarrow>
               let w1 = w\<lparr>kc_documents := kc_documents w @ [doc], kc_updatedAt := Some now,
                     kc_history := kc_history w @
                       [\<lparr>ke_eventType = ''document_uploaded'', ke_timestamp = now,
                         ke_actor = kc_subjectDid w,
                         ke_detail = Some (''Document '' @ du_documentType input @ '' uploaded''),
                         ke_metadata = None\<rparr>]\<rparr>
               in (Inr doc, jm_set (du_workflowId input) w1 svc)))"

fun stateMap :: "review_decision \<Rightarrow> kyc_state" where
  "stateMap Approve = Approved"
| "stateMap Reject = Rejected"
| "stateMap Escalate = Escalated"
| "stateMap RequestInfo = DocumentSubmission"

definition review ::
    "int \<Rightarrow> string \<Rightarrow> review_decision_input \<Rightarrow> kyc_service \<Rightarrow> kyc_case result \<times> kyc_service" where
  "review now uuid input svc =
     (case getWorkflow_kyc (rd_workflowId input) svc of
        Inl e \<Rightarrow> (Inl e, svc)
      | Inr w \<Rightarrow>
          let rv = \<lparr>rev_id = uuid, rev_reviewer = rd_reviewer input, rev_decision = rd_decision input,
                    rev_reason = rd_reason input, rev_createdAt = now\<rparr>;
              newState = stateMap (rd_decision input);
              w1 = w\<lparr>kc_reviews := kc_reviews w @ [rv], kc_updatedAt := Some now, kc_state := newState\<rparr>;
              w2 = (if is_decided newState then w1\<lparr>kc_completedAt := Some now\<rparr> else w1);
              w3 = w2\<lparr>kc_history := kc_history w2 @
                [\<lparr>ke_eventType = ''review:'' @ review_decision_name (rd_decision input),
                  ke_timestamp = now, ke_actor = rd_reviewer input,
                  ke_detail = Some (rd_reason input), ke_metadata = rd_metadata input\<rparr>]\<rparr>
          in (Inr w3, jm_set (rd_workflowId input) w3 svc))"

record kyc_query =
  kq_subjectDid :: "string option"
  kq_platformId :: "string option"
  kq_state :: "kyc_state option"
  kq_tier :: "kyc_service_tier option"
  kq_page :: int
  kq_limit :: int

definition kyc_matching :: "kyc_query \<Rightarrow> kyc_service \<Rightarrow> kyc_case list" where
  "kyc_matching query svc =
     (let w0 = jm_values svc;
          w1 = str_filter (kq_subjectDid query) kc_subjectDid w0;
          w2 = str_filter (kq_platformId query) kc_platformId w1;
          w3 = opt_filter (kq_state query) kc_state w2
      in opt_filter (kq_tier query) kc_tier w3)"

definition list_kyc :: "kyc_query \<Rightarrow> kyc_service \<Rightarrow> kyc_case page" where
  "list_kyc query svc = paginate (kyc_matching query svc) (kq_page query) (kq_limit query)"

subsection \<open>All runs\<close>

datatype kyc_call =
    CreateCase string create_workflow_input
  | TransitionCase workflow_transition_input
  | UploadDoc string document_upload_input
  | ReviewCase string review_decision_input

fun kyc_run :: "int \<times> kyc_call \<Rightarrow> kyc_service \<Rightarrow> kyc_service" where
  "kyc_run (now, CreateCase uuid input) svc = snd (createWorkflow_kyc now uuid input svc)"
| "kyc_run (now, TransitionCase input) svc = snd (transition_kyc now input svc)"
| "kyc_run (now, UploadDoc uuid input) svc = snd (uploadDocument now uuid input svc)"
| "kyc_run (now, ReviewCase uuid input) svc = snd (review now uuid input svc)"

text \<open>The names randomUUID gives are fresh.\<close>

fun kyc_ok :: "int \<times> kyc_call \<Rightarrow> kyc_service \<Rightarrow> bool" where
  "kyc_ok (now, CreateCase uuid input) svc = (jm_get svc (''wf-'' @ uuid) = None)"
| "kyc_ok (now, _) svc = True"

instantiation kyc_state :: enum
begin

definition enum_kyc_state :: "kyc_state list" where
  "enum_kyc_state = [Initiated, DocumentSubmission, VerificationInProgress, ManualReview, Escalated,
     Approved, Rejected, Expired]"

definition enum_all_kyc_state :: "(kyc_state \<Rightarrow> bool) \<Rightarrow> bool" where
  "enum_all_kyc_state P = list_all P enum_class.enum"

definition enum_ex_kyc_state :: "(kyc_state \<Rightarrow> bool) \<Rightarrow> bool" where
  "enum_ex_kyc_state P = list_ex P enum_class.enum"

instance
proof
  show univ: "(UNIV :: kyc_state set) = set enum_class.enum"
    using kyc_state.exhaust by (auto simp: enum_kyc_state_def)
  show "distinct (enum_class.enum :: kyc_state list)"
    by (simp add: enum_kyc_state_def)
  show "enum_class.enum_all P \<longleftrightarrow> Ball UNIV P" for P :: "kyc_state \<Rightarrow> bool"
    by (simp add: enum_all_kyc_state_def univ list_all_iff)
  show "enum_class.enum_ex P \<longleftrightarrow> Bex UNIV P" for P :: "kyc_state \<Rightarrow> bool"
    by (simp add: enum_ex_kyc_state_def univ list_ex_iff)
qed

end

text \<open>What the audit history of a workflow says about its state: replaying it.\<close>

definition event_state :: "kyc_workflow_event \<Rightarrow> kyc_state \<Rightarrow> kyc_state" where
  "event_state ev old =
     (case find (\<lambda>s. ke_eventType ev = ''state_change:'' @ kyc_state_name s) enum_class.enum of
        Some s \<Rightarrow> s
      | None \<Rightarrow>
          (case find (\<lambda>d. ke_eventType ev = ''review:'' @ review_decision_name d)
                  [Approve, Reject, Escalate, RequestInfo] of
             Some d \<Rightarrow> stateMap d
           | None \<Rightarrow> old))"

definition replay :: "kyc_workflow_event list \<Rightarrow> kyc_state" where
  "replay history = foldl (\<lambda>s ev. event_state ev s) Initiated history"

lemma replay_snoc: "replay (h @ [ev]) = event_state ev (replay h)"
  by (simp add: replay_def)

lemma event_state_change [simp]:
  "ke_eventType ev = ''state_change:'' @ kyc_state_name s \<Longrightarrow> event_state ev old = s"
  by (cases s) (simp_all add: event_state_def enum_kyc_state_def)

lemma event_state_review [simp]:
  "ke_eventType ev = ''review:'' @ review_decision_name d \<Longrightarrow> event_state ev old = stateMap d"
  by (cases d) (simp_all add: event_state_def enum_kyc_state_def)

lemma event_state_created [simp]: "ke_eventType ev = ''workflow_created'' \<Longrightarrow> event_state ev old = old"
  by (simp add: event_state_def enum_kyc_state_def)

text \<open>The moves a workflow makes without a review.\<close>

inductive legal_path :: "kyc_state list \<Rightarrow> kyc_state \<Rightarrow> bool" where
  start: "legal_path [] Initiated"
| move: "legal_path ts s \<Longrightarrow> t \<in> set (VALID_TRANSITIONS s) \<Longrightarrow> legal_path (ts @ [t]) t"

inductive_cases legal_path_snocE: "legal_path (ts @ [t]) s"

definition change_event :: "kyc_state \<Rightarrow> string" where
  "change_event t = ''state_change:'' @ kyc_state_name t"

lemma no_transition_into_Expired: "t \<in> set (VALID_TRANSITIONS s) \<Longrightarrow> t \<noteq> Expired \<and> t \<noteq> Initiated"
  by (cases s) auto

lemma legal_path_documents: "legal_path ts s \<Longrightarrow> s \<noteq> Initiated \<Longrightarrow> DocumentSubmission \<in> set ts"
  by (induction rule: legal_path.induct) (auto split: if_splits, metis VALID_TRANSITIONS.simps(1) list.set_intros(1) empty_iff set_ConsD list.set(1))

lemma legal_path_checked:
  "legal_path ts s \<Longrightarrow> s \<in> {VerificationInProgress, ManualReview, Escalated, Approved, Rejected} \<Longrightarrow>
     VerificationInProgress \<in> set ts \<or> ManualReview \<in> set ts"
proof (induction rule: legal_path.induct)
  case start
  then show ?case by simp
next
  case (move ts s t)
  then show ?case by (cases s) auto
qed

definition case_ok :: "kyc_case \<Rightarrow> bool" where
  "case_ok w \<longleftrightarrow>
     kc_state w = replay (kc_history w) \<and> kc_state w \<noteq> Expired \<and> kc_documents w = [] \<and>
     (is_decided (kc_state w) \<longrightarrow> kc_completedAt w \<noteq> None) \<and>
     (kc_reviews w = [] \<longrightarrow>
        (\<exists>ts. legal_path ts (kc_state w) \<and>
              map ke_eventType (kc_history w) = ''workflow_created'' # map change_event ts))"

definition kyc_inv :: "kyc_service \<Rightarrow> bool" where
  "kyc_inv svc \<longleftrightarrow>
     jm_ok svc \<and> (\<forall>i w. jm_get svc i = Some w \<longrightarrow> kc_id w = i \<and> case_ok w)"

lemma kyc_inv_put:
  "kyc_inv svc \<Longrightarrow> kc_id w = i \<Longrightarrow> case_ok w \<Longrightarrow> kyc_inv (jm_set i w svc)"
  by (auto simp: kyc_inv_def)

lemma created_case_ok: "case_ok (case createWorkflow_kyc now uuid input svc of (Inr w, _) \<Rightarrow> w)"
  using legal_path.start
  by (auto simp: createWorkflow_kyc_def Let_def case_ok_def replay_def is_decided_def)

lemma transition_case_ok:
  assumes "case_ok w" and "t \<in> set (VALID_TRANSITIONS (kc_state w))"
    and "ke_eventType ev = change_event t"
    and "c = (if is_decided t then Some now else kc_completedAt w)"
  shows "case_ok (w\<lparr>kc_state := t, kc_updatedAt := u, kc_completedAt := c, kc_history := kc_history w @ [ev]\<rparr>)"
proof -
  have path: "\<exists>ts. legal_path ts t \<and> map ke_eventType (kc_history w @ [ev]) =
                ''workflow_created'' # map change_event ts" if new: "kc_reviews w = []"
  proof -
    from assms(1) new obtain ts where "legal_path ts (kc_state w)"
      and "map ke_eventType (kc_history w) = ''workflow_created'' # map change_event ts"
      by (auto simp: case_ok_def)
    with assms(2,3) show ?thesis
      by (intro exI [of _ "ts @ [t]"]) (auto intro: legal_path.move)
  qed
  have "event_state ev (replay (kc_history w)) = t"
    using assms(3) by (simp add: change_event_def)
  with assms(1,4) path no_transition_into_Expired [OF assms(2)] show ?thesis
    by (simp add: case_ok_def replay_snoc)
qed

lemma review_case_ok:
  assumes "case_ok w" and "ke_eventType ev = ''review:'' @ review_decision_name d"
    and "c = (if is_decided (stateMap d) then Some now else kc_completedAt w)"
  shows "case_ok (w\<lparr>kc_reviews := kc_reviews w @ [rv], kc_updatedAt := u, kc_state := stateMap d,
           kc_completedAt := c, kc_history := kc_history w @ [ev]\<rparr>)"
proof -
  have "event_state ev (replay (kc_history w)) = stateMap d" using assms(2) by simp
  moreover have "stateMap d \<noteq> Expired" by (cases d) simp_all
  ultimately show ?thesis using assms(1,3) by (simp add: case_ok_def replay_snoc)
qed

lemma transition_kyc_cases:
  obtains (failed) e where "transition_kyc now input svc = (Inl e, svc)"
  | (moved) w w' ev where "jm_get svc (wt_workflowId input) = Some w"
      "wt_newState input \<in> set (VALID_TRANSITIONS (kc_state w))"
      "ke_eventType ev = change_event (wt_newState input)"
      "w' = w\<lparr>kc_state := wt_newState input, kc_updatedAt := Some now,
         kc_completedAt := (if is_decided (wt_newState input) then Some now else kc_completedAt w),
         kc_history := kc_history w @ [ev]\<rparr>"
      "transition_kyc now input svc = (Inr w', jm_set (wt_workflowId input) w' svc)"
proof (cases "jm_get svc (wt_workflowId input)")
  case None
  then show ?thesis by (intro failed) (simp add: transition_kyc_def getWorkflow_kyc_def)
next
  case (Some w)
  show ?thesis
  proof (cases "wt_newState input \<in> set (VALID_TRANSITIONS (kc_state w))")
    case False
    with Some show ?thesis by (intro failed) (simp add: transition_kyc_def getWorkflow_kyc_def)
  next
    case True
    let ?ev = "\<lparr>ke_eventType = change_event (wt_newState input), ke_timestamp = now,
                 ke_actor = wt_actor input, ke_detail = wt_detail input, ke_metadata = wt_metadata input\<rparr>"
    from Some True show ?thesis
      by (cases "is_decided (wt_newState input)"; intro moved [of w ?ev])
        (simp_all add: transition_kyc_def getWorkflow_kyc_def change_event_def Let_def)
  qed
qed

lemma review_cases:
  obtains (failed) e where "review now uuid input svc = (Inl e, svc)" "jm_get svc (rd_workflowId input) = None"
  | (reviewed) w w' rv ev where "jm_get svc (rd_workflowId input) = Some w"
      "ke_eventType ev = ''review:'' @ review_decision_name (rd_decision input)"
      "w' = w\<lparr>kc_reviews := kc_reviews w @ [rv], kc_updatedAt := Some now,
         kc_state := stateMap (rd_decision input),
         kc_completedAt := (if is_decided (stateMap (rd_decision input)) then Some now else kc_completedAt w),
         kc_history := kc_history w @ [ev]\<rparr>"
      "review now uuid input svc = (Inr w', jm_set (rd_workflowId input) w' svc)"
proof (cases "jm_get svc (rd_workflowId input)")
  case None
  then show ?thesis by (intro failed) (simp_all add: review_def getWorkflow_kyc_def)
next
  case (Some w)
  let ?ev = "\<lparr>ke_eventType = ''review:'' @ review_decision_name (rd_decision input), ke_timestamp = now,
               ke_actor = rd_reviewer input, ke_detail = Some (rd_reason input), ke_metadata = rd_metadata input\<rparr>"
  let ?rv = "\<lparr>rev_id = uuid, rev_reviewer = rd_reviewer input, rev_decision = rd_decision input,
               rev_reason = rd_reason input, rev_createdAt = now\<rparr>"
  from Some show ?thesis
    by (cases "is_decided (stateMap (rd_decision input))"; intro reviewed [of w ?ev _ ?rv])
      (simp_all add: review_def getWorkflow_kyc_def Let_def)
qed

lemma uploadDocument_state [simp]: "snd (uploadDocument now uuid input svc) = svc"
  by (simp add: uploadDocument_def build_document_def split: sum.splits)

lemma kyc_run_inv:
  assumes "kyc_inv svc" and "kyc_ok (now, c) svc"
  shows "kyc_inv (kyc_run (now, c) svc)"
proof (cases c)
  case (CreateCase uuid input)
  have "snd (createWorkflow_kyc now uuid input svc) =
      jm_set (''wf-'' @ uuid) (case createWorkflow_kyc now uuid input svc of (Inr w, _) \<Rightarrow> w) svc"
    by (simp add: createWorkflow_kyc_def Let_def)
  moreover have "kc_id (case createWorkflow_kyc now uuid input svc of (Inr w, _) \<Rightarrow> w) = ''wf-'' @ uuid"
    by (simp add: createWorkflow_kyc_def Let_def)
  ultimately show ?thesis
    using CreateCase assms(1) created_case_ok by (simp add: kyc_inv_put)
next
  case (TransitionCase input)
  show ?thesis
  proof (cases rule: transition_kyc_cases [of now input svc])
    case failed
    with TransitionCase assms(1) show ?thesis by simp
  next
    case (moved w w' ev)
    have w: "kc_id w = wt_workflowId input" "case_ok w"
      using assms(1) moved(1) by (simp_all add: kyc_inv_def)
    have "case_ok w'"
      unfolding moved(4) by (rule transition_case_ok [OF w(2) moved(2,3) refl])
    with TransitionCase assms(1) w(1) moved(4,5) show ?thesis by (simp add: kyc_inv_put)
  qed
next
  case (UploadDoc uuid input)
  with assms show ?thesis by simp
next
  case (ReviewCase uuid input)
  show ?thesis
  proof (cases rule: review_cases [of now uuid input svc])
    case failed
    with ReviewCase assms(1) show ?thesis by simp
  next
    case (reviewed w w' rv ev)
    have w: "kc_id w = rd_workflowId input" "case_ok w"
      using assms(1) reviewed(1) by (simp_all add: kyc_inv_def)
    have "case_ok w'"
      unfolding reviewed(3) by (rule review_case_ok [OF w(2) reviewed(2) refl])
    with ReviewCase assms(1) w(1) reviewed(3,4) show ?thesis by (simp add: kyc_inv_put)
  qed
qed

interpretation kyc: invariant_machine kyc_run kyc_ok kyc_inv
  by unfold_locales (auto intro: kyc_run_inv)

lemma kyc_inv_empty: "kyc_inv jm_empty"
  by (simp add: kyc_inv_def)

subsection \<open>Properties\<close>

text \<open>C31: Whatever is called, the history of every workflow replays to its state, a decided
  workflow has a completion time, no workflow ever holds a document, and Expired is never
  reached.\<close>

theorem kyc_history_replays:
  assumes "admissible kyc_ok kyc_run calls jm_empty"
    and "jm_get (run_events kyc_run calls jm_empty) i = Some w"
  shows "kc_id w = i \<and> kc_state w = replay (kc_history w) \<and> kc_state w \<noteq> Expired \<and>
     kc_documents w = [] \<and> (is_decided (kc_state w) \<longrightarrow> kc_completedAt w \<noteq> None)"
  using kyc.inv_run [OF kyc_inv_empty assms(1)] assms(2) unfolding kyc_inv_def case_ok_def by blast

definition demo_create :: create_workflow_input where
  "demo_create = \<lparr>cw_subjectDid = ''did:key:z1'', cw_tier = TierBasic, cw_platformId = ''p'', cw_metadata = None\<rparr>"

definition demo_move :: "kyc_state \<Rightarrow> workflow_transition_input" where
  "demo_move s = \<lparr>wt_workflowId = ''wf-a'', wt_newState = s, wt_actor = ''eve'', wt_detail = None, wt_metadata = None\<rparr>"

definition demo_review :: "review_decision \<Rightarrow> review_decision_input" where
  "demo_review d = \<lparr>rd_workflowId = ''wf-a'', rd_decision = d, rd_reason = ''r'', rd_reviewer = ''bob'', rd_metadata = None\<rparr>"

definition demo_calls :: "(int \<times> kyc_call) list" where
  "demo_calls = [(1, CreateCase ''a'' demo_create), (2, TransitionCase (demo_move DocumentSubmission)),
     (3, TransitionCase (demo_move VerificationInProgress)), (4, TransitionCase (demo_move Rejected)),
     (5, TransitionCase (demo_move Approved)), (6, ReviewCase ''r'' (demo_review Approve))]"

lemmas kyc_demo = demo_create_def demo_move_def demo_review_def demo_calls_def

theorem kyc_history_replays_witness:
  "case jm_get (run_events kyc_run demo_calls jm_empty) ''wf-a'' of
     None \<Rightarrow> False
   | Some w \<Rightarrow> kc_state w = Approved \<and> replay (kc_history w) = Approved \<and> kc_completedAt w = Some 6"
proof -
  have ok: "admissible kyc_ok kyc_run demo_calls jm_empty" by code_simp
  have "case jm_get (run_events kyc_run demo_calls jm_empty) ''wf-a'' of None \<Rightarrow> False
      | Some w \<Rightarrow> kc_state w = Approved \<and> kc_completedAt w = Some 6" by code_simp
  then obtain w where w: "jm_get (run_events kyc_run demo_calls jm_empty) ''wf-a'' = Some w"
    and s: "kc_state w = Approved" "kc_completedAt w = Some 6"
    by (auto split: option.splits)
  from kyc_history_replays [OF ok w] w s show ?thesis by simp
qed

text \<open>C4: A workflow that was approved or rejected without any review went through the
  submission of documents and through verification or manual review, one permitted transition
  after the other, and its history records exactly these transitions.\<close>

theorem unreviewed_decision_follows_table:
  assumes "admissible kyc_ok kyc_run calls jm_empty"
    and "jm_get (run_events kyc_run calls jm_empty) i = Some w"
    and "kc_reviews w = []" and "is_decided (kc_state w)"
  shows "\<exists>ts. legal_path ts (kc_state w) \<and>
     map ke_eventType (kc_history w) = ''workflow_created'' # map change_event ts \<and>
     DocumentSubmission \<in> set ts \<and> (VerificationInProgress \<in> set ts \<or> ManualReview \<in> set ts)"
proof -
  have "case_ok w"
    using kyc.inv_run [OF kyc_inv_empty assms(1)] assms(2) by (simp add: kyc_inv_def)
  with assms(3) obtain ts where ts: "legal_path ts (kc_state w)"
    and h: "map ke_eventType (kc_history w) = ''workflow_created'' # map change_event ts"
    by (auto simp: case_ok_def)
  have "DocumentSubmission \<in> set ts"
    using legal_path_documents [OF ts] assms(4) by (auto simp: is_decided_def)
  moreover have "VerificationInProgress \<in> set ts \<or> ManualReview \<in> set ts"
    using legal_path_checked [OF ts] assms(4) by (auto simp: is_decided_def)
  ultimately show ?thesis using ts h by (intro exI [of _ ts] conjI)
qed

theorem unreviewed_decision_follows_table_witness:
  "\<exists>ts. legal_path ts Rejected \<and> DocumentSubmission \<in> set ts"
proof -
  let ?calls = "take 4 demo_calls"
  have ok: "admissible kyc_ok kyc_run ?calls jm_empty" by code_simp
  have "case jm_get (run_events kyc_run ?calls jm_empty) ''wf-a'' of None \<Rightarrow> False
      | Some w \<Rightarrow> kc_reviews w = [] \<and> kc_state w = Rejected" by code_simp
  then obtain w where w: "jm_get (run_events kyc_run ?calls jm_empty) ''wf-a'' = Some w"
    and s: "kc_reviews w = []" "kc_state w = Rejected"
    by (auto split: option.splits)
  from unreviewed_decision_follows_table [OF ok w s(1)] s(2) show ?thesis
    by (auto simp: is_decided_def)
qed

lemma kyc_run_other_state:
  assumes "jm_get svc i = Some w" and "VALID_TRANSITIONS (kc_state w) = []"
    and "\<And>uuid input. c = CreateCase uuid input \<Longrightarrow> ''wf-'' @ uuid \<noteq> i"
    and "\<And>uuid input. c = ReviewCase uuid input \<Longrightarrow> rd_workflowId input \<noteq> i"
  shows "jm_get (kyc_run (now, c) svc) i = Some w"
proof (cases c)
  case (CreateCase uuid input)
  with assms(1,3) show ?thesis by (simp add: createWorkflow_kyc_def Let_def)
next
  case (TransitionCase input)
  with assms(1,2) show ?thesis
    by (cases rule: transition_kyc_cases [of now input svc]) auto
next
  case (UploadDoc uuid input)
  with assms(1) show ?thesis by simp
next
  case (ReviewCase uuid input)
  with assms(1,4) show ?thesis
    by (cases rule: review_cases [of now uuid input svc]) auto
qed

lemma kyc_run_keeps_closed:
  assumes "jm_get svc i = Some w" and "VALID_TRANSITIONS (kc_state w) = []"
    and "admissible kyc_ok kyc_run calls svc"
    and "\<forall>(now, c) \<in> set calls. \<forall>uuid input. c = ReviewCase uuid input \<longrightarrow> rd_workflowId input \<noteq> i"
  shows "jm_get (run_events kyc_run calls svc) i = Some w"
  using assms
proof (induction calls arbitrary: svc)
  case Nil
  then show ?case by simp
next
  case (Cons e calls)
  obtain now c where e: "e = (now, c)" by fastforce
  have "jm_get (kyc_run e svc) i = Some w"
    unfolding e using Cons.prems e by (intro kyc_run_other_state) auto
  with Cons.IH Cons.prems show ?case by simp
qed

lemma only_reviews_reopen_facts:
  assumes "jm_get svc i = Some w" and "is_decided (kc_state w)"
    and "admissible kyc_ok kyc_run calls svc"
    and "\<forall>(now, c) \<in> set calls. \<forall>uuid input. c = ReviewCase uuid input \<longrightarrow> rd_workflowId input \<noteq> i"
  shows "jm_get (run_events kyc_run calls svc) i = Some w"
    and "rd_workflowId inp = i \<Longrightarrow>
       \<exists>w'. jm_get (kyc_run (later, ReviewCase u inp) (run_events kyc_run calls svc)) i = Some w' \<and>
            kc_state w' = stateMap (rd_decision inp) \<and>
            (\<not> is_decided (kc_state w') \<longrightarrow> kc_completedAt w' = kc_completedAt w)"
proof -
  have closed: "VALID_TRANSITIONS (kc_state w) = []"
    using assms(2) by (auto simp: is_decided_def)
  show kept: "jm_get (run_events kyc_run calls svc) i = Some w"
    by (rule kyc_run_keeps_closed [OF assms(1) closed assms(3,4)])
  assume i: "rd_workflowId inp = i"
  show "\<exists>w'. jm_get (kyc_run (later, ReviewCase u inp) (run_events kyc_run calls svc)) i = Some w' \<and>
            kc_state w' = stateMap (rd_decision inp) \<and>
            (\<not> is_decided (kc_state w') \<longrightarrow> kc_completedAt w' = kc_completedAt w)"
    by (cases rule: review_cases [of later u inp "run_events kyc_run calls svc"]) (use kept i in auto)
qed

text \<open>Approved and Rejected are final as far as transitions, uploads and new workflows go;
  but a review moves a workflow to the state of its decision from every state, so it can reopen a
  decided workflow, whose completion time then stays.\<close>

theorem only_reviews_reopen:
  assumes "jm_get svc i = Some w"
    and "is_decided (kc_state w)"
    and "admissible kyc_ok kyc_run calls svc"
    and "\<forall>(now, c) \<in> set calls. \<forall>uuid input. c = ReviewCase uuid input \<longrightarrow> rd_workflowId input \<noteq> i"
  shows "(jm_get (run_events kyc_run calls svc) i = Some w) \<and>
     (rd_workflowId inp = i \<longrightarrow> (\<exists>w'. jm_get (kyc_run (later, ReviewCase u inp) (run_events kyc_run calls svc)) i = Some w' \<and>
            kc_state w' = stateMap (rd_decision inp) \<and>
            (\<not> is_decided (kc_state w') \<longrightarrow> kc_completedAt w' = kc_completedAt w)))"
proof -
  have c1: "jm_get (run_events kyc_run calls svc) i = Some w"
    by (rule only_reviews_reopen_facts(1) [OF assms])
  have c2: "rd_workflowId inp = i \<longrightarrow> (\<exists>w'. jm_get (kyc_run (later, ReviewCase u inp) (run_events kyc_run calls svc)) i = Some w' \<and>
            kc_state w' = stateMap (rd_decision inp) \<and>
            (\<not> is_decided (kc_state w') \<longrightarrow> kc_completedAt w' = kc_completedAt w))"
    by (rule impI) (rule only_reviews_reopen_facts(2) [OF assms]; (assumption | erule spec))
  show ?thesis by (rule conjI [OF c1 c2])
qed

definition rejected_demo :: kyc_service where
  "rejected_demo = run_events kyc_run (take 4 demo_calls) jm_empty"

theorem only_reviews_reopen_witness:
  "\<exists>w'. jm_get (kyc_run (9, ReviewCase ''q'' (demo_review Escalate)) rejected_demo) ''wf-a'' = Some w' \<and>
        kc_state w' = Escalated \<and> kc_completedAt w' = Some 4"
proof -
  have "case jm_get rejected_demo ''wf-a'' of None \<Rightarrow> False
      | Some w \<Rightarrow> is_decided (kc_state w) \<and> kc_completedAt w = Some 4" by code_simp
  then obtain w where w: "jm_get rejected_demo ''wf-a'' = Some w"
    and s: "is_decided (kc_state w)" "kc_completedAt w = Some 4"
    by (auto split: option.splits)
  have "admissible kyc_ok kyc_run [] rejected_demo" by simp
  from only_reviews_reopen [OF w s(1) this, where inp = "demo_review Escalate" and later = 9 and u = "''q''"] s(2)
  show ?thesis by (auto simp: demo_review_def is_decided_def)
qed

lemma list_pages_partition_facts:
  assumes "kq_limit query = int limit"
  shows "concat (map (\<lambda>p. pg_data (list_kyc (query\<lparr>kq_page := int p + 1\<rparr>) svc)) [0..<k]) =
       take (k * limit) (kyc_matching query svc)"
    and "pg_total (list_kyc query svc) = length (kyc_matching query svc)"
    and "w \<in> set (pg_data (list_kyc query svc)) \<Longrightarrow>
       w \<in> set (jm_values svc) \<and>
       (\<forall>s. kq_state query = Some s \<longrightarrow> kc_state w = s) \<and>
       (\<forall>t. kq_tier query = Some t \<longrightarrow> kc_tier w = t) \<and>
       (\<forall>d. kq_subjectDid query = Some d \<and> d \<noteq> [] \<longrightarrow> kc_subjectDid w = d) \<and>
       (\<forall>p. kq_platformId query = Some p \<and> p \<noteq> [] \<longrightarrow> kc_platformId w = p)"
proof -
  have "list_kyc (query\<lparr>kq_page := n\<rparr>) svc = paginate (kyc_matching query svc) n (int limit)" for n
    using assms by (simp add: list_kyc_def kyc_matching_def)
  then show "concat (map (\<lambda>p. pg_data (list_kyc (query\<lparr>kq_page := int p + 1\<rparr>) svc)) [0..<k]) =
      take (k * limit) (kyc_matching query svc)"
    by (simp add: paginate_concat)
  show "pg_total (list_kyc query svc) = length (kyc_matching query svc)"
    by (simp add: list_kyc_def paginate_def Let_def)
  assume "w \<in> set (pg_data (list_kyc query svc))"
  then have "w \<in> set (kyc_matching query svc)"
    by (auto simp: list_kyc_def paginate_def Let_def dest: set_js_slice)
  then show "w \<in> set (jm_values svc) \<and>
       (\<forall>s. kq_state query = Some s \<longrightarrow> kc_state w = s) \<and>
       (\<forall>t. kq_tier query = Some t \<longrightarrow> kc_tier w = t) \<and>
       (\<forall>d. kq_subjectDid query = Some d \<and> d \<noteq> [] \<longrightarrow> kc_subjectDid w = d) \<and>
       (\<forall>p. kq_platformId query = Some p \<and> p \<noteq> [] \<longrightarrow> kc_platformId w = p)"
    by (auto simp: kyc_matching_def str_filter_def opt_filter_def Let_def split: option.splits if_splits)
qed

text \<open>The pages of a list are the matching workflows, in order and without overlap: the
  first k pages together are the first k * limit matches, every entry meets every filter of the
  query, and the total counts all matches.\<close>

theorem list_pages_partition:
  assumes "kq_limit query = int limit"
  shows "(concat (map (\<lambda>p. pg_data (list_kyc (query\<lparr>kq_page := int p + 1\<rparr>) svc)) [0..<k]) =
       take (k * limit) (kyc_matching query svc)) \<and>
     (pg_total (list_kyc query svc) = length (kyc_matching query svc)) \<and>
     (w \<in> set (pg_data (list_kyc query svc)) \<longrightarrow> (w \<in> set (jm_values svc) \<and>
       (\<forall>s. kq_state query = Some s \<longrightarrow> kc_state w = s) \<and>
       (\<forall>t. kq_tier query = Some t \<longrightarrow> kc_tier w = t) \<and>
       (\<forall>d. kq_subjectDid query = Some d \<and> d \<noteq> [] \<longrightarrow> kc_subjectDid w = d) \<and>
       (\<forall>p. kq_platformId query = Some p \<and> p \<noteq> [] \<longrightarrow> kc_platformId w = p)))"
proof -
  have c1: "concat (map (\<lambda>p. pg_data (list_kyc (query\<lparr>kq_page := int p + 1\<rparr>) svc)) [0..<k]) =
       take (k * limit) (kyc_matching query svc)"
    by (rule list_pages_partition_facts(1) [OF assms])
  have c2: "pg_total (list_kyc query svc) = length (kyc_matching query svc)"
    by (rule list_pages_partition_facts(2) [OF assms])
  have c3: "w \<in> set (pg_data (list_kyc query svc)) \<longrightarrow> (w \<in> set (jm_values svc) \<and>
       (\<forall>s. kq_state query = Some s \<longrightarrow> kc_state w = s) \<and>
       (\<forall>t. kq_tier query = Some t \<longrightarrow> kc_tier w = t) \<and>
       (\<forall>d. kq_subjectDid query = Some d \<and> d \<noteq> [] \<longrightarrow> kc_subjectDid w = d) \<and>
       (\<forall>p. kq_platformId query = Some p \<and> p \<noteq> [] \<longrightarrow> kc_platformId w = p))"
    by (rule impI) (rule list_pages_partition_facts(3) [OF assms]; (assumption | erule spec))
  show ?thesis by (rule conjI [OF c1 conjI [OF c2 c3]])
qed

theorem list_pages_partition_witness:
  "concat (map (\<lambda>p. pg_data (list_kyc \<lparr>kq_subjectDid = None, kq_platformId = None, kq_state = Some Rejected,
       kq_tier = None, kq_page = int p + 1, kq_limit = 1\<rparr> rejected_demo)) [0..<3]) = jm_values rejected_demo"
proof -
  define q where "q = \<lparr>kq_subjectDid = None, kq_platformId = None, kq_state = Some Rejected,
       kq_tier = None, kq_page = 1, kq_limit = 1\<rparr>"
  have "kq_limit q = int 1" by (simp add: q_def)
  from list_pages_partition [OF this, where k = 3 and svc = rejected_demo, THEN conjunct1]
  have "concat (map (\<lambda>p. pg_data (list_kyc (q\<lparr>kq_page := int p + 1\<rparr>) rejected_demo)) [0..<3]) =
      take 3 (kyc_matching q rejected_demo)" by simp
  also have "take 3 (kyc_matching q rejected_demo) = jm_values rejected_demo"
    unfolding q_def by code_simp
  finally show ?thesis by (simp add: q_def)
qed

end
