(* ===== verification/CredentialService.thy ===== *)
theory CredentialService
  imports Prelude
begin

section \<open>The credential service of the API\<close>

text \<open>
  packages/api/src/services/credential_service.ts and the credential types of
  packages/api/src/types. A credential to verify is whatever JSON object the caller sends, so
  verify works on JSON and throws where the code would. How Date reads a date
  that is not in its own format is left to the engine: the reading is a parameter \<open>date_ms\<close>
  (\<open>None\<close> is NaN).
\<close>

datatype credential_status = CsActive | CsRevoked | CsExpired | CsSuspended

record verifiable_credential =
  vc_context :: "string list"
  vc_id :: string
  vc_type :: "string list"
  vc_issuer :: string
  vc_issuanceDate :: int
  vc_expirationDate :: "string option"
  vc_credentialSubject :: "(string, json) jsmap"
  vc_credentialStatus :: "(string \<times> string) option"

record issue_credential_input =
  ic_type :: "string + string list"
  ic_issuer :: string
  ic_subject :: string
  ic_claims :: "(string, json) jsmap option"
  ic_expirationDate :: "string option"
  ic_credentialStatus :: "(string \<times> string) option"

record verify_options =
  vo_proofPurpose :: "string option"
  vo_challenge :: "string option"
  vo_domain :: "string option"

record verification_result =
  vr_verified :: bool
  vr_checks :: "string list"
  vr_errors :: "string list option"
  vr_timestamp :: int

record credential_service =
  cs_credentials :: "(string, verifiable_credential) jsmap"
  cs_revokedCredentials :: "string set"

definition new_credential_service :: credential_service where
  "new_credential_service = \<lparr>cs_credentials = jm_empty, cs_revokedCredentials = {}\<rparr>"

definition W3C_CONTEXT :: string where
  "W3C_CONTEXT = ''https://www.w3.org/2018/credentials/v1''"

text \<open>\<open>cond ? { key: v } : {}\<close> for a value that must be truthy.\<close>

definition truthy_str :: "string option \<Rightarrow> string option" where
  "truthy_str v = (case v of None \<Rightarrow> None | Some x \<Rightarrow> if x = [] then None else Some x)"

definition issue ::
    "int \<Rightarrow> string \<Rightarrow> issue_credential_input \<Rightarrow> credential_service \<Rightarrow>
     verifiable_credential \<times> credential_service" where
  "issue now uuid input svc =
     (let i = ''urn:uuid:'' @ uuid;
          types = (case ic_type input of Inl t \<Rightarrow> [t] | Inr ts \<Rightarrow> ts);
          subject = js_spread [(''id'', JStr (ic_subject input))] (or_default (ic_claims input) []);
          credential = \<lparr>vc_context = [W3C_CONTEXT], vc_id = i, vc_type = ''VerifiableCredential'' # types,
            vc_issuer = ic_issuer input, vc_issuanceDate = now,
            vc_expirationDate = truthy_str (ic_expirationDate input),
            vc_credentialSubject = subject, vc_credentialStatus = ic_credentialStatus input\<rparr>
      in (credential, svc\<lparr>cs_credentials := jm_set i credential (cs_credentials svc)\<rparr>))"

definition getById :: "string \<Rightarrow> credential_service \<Rightarrow> verifiable_credential result" where
  "getById i svc =
     (case jm_get (cs_credentials svc) i of
        None \<Rightarrow> Inl (new_object_assign (JsError (''Credential not found: '' @ i)) 404)
      | Some credential \<Rightarrow>
          if i \<in> cs_revokedCredentials svc
          then Inr (credential\<lparr>vc_credentialStatus := Some (i, ''RevocationList2020'')\<rparr>)
          else Inr credential)"

text \<open>\<open>value?.includes(W3C)\<close>: undefined and null give undefined, arrays and strings have the
  method, anything else throws.\<close>

fun json_includes :: "json option \<Rightarrow> string \<Rightarrow> bool result" where
  "json_includes None s = Inr False"
| "json_includes (Some JNull) s = Inr False"
| "json_includes (Some (JArr vs)) s = Inr (JStr s \<in> set vs)"
| "json_includes (Some (JStr t)) s = Inr (\<exists>n \<in> {0..length t}. starts_with (drop n t) s)"
| "json_includes (Some _) s = Inl (JsTypeError ''credential.@context?.includes is not a function'')"

definition field :: "(string, json) jsmap \<Rightarrow> string \<Rightarrow> json option" where
  "field obj k = (case jm_get obj k of None \<Rightarrow> None | Some v \<Rightarrow> if json_truthy v then Some v else None)"

text \<open>The four checks of verify, each adding to the checks and the errors.\<close>

definition check_context :: "(string, json) jsmap \<Rightarrow> string list result" where
  "check_context cred =
     (case json_includes (jm_get cred ''@context'') W3C_CONTEXT of
        Inl e \<Rightarrow> Inl e
      | Inr b \<Rightarrow> Inr (if b then [] else [''Missing or invalid @context'']))"

definition check_issuer :: "(string, json) jsmap \<Rightarrow> (string list \<times> string list) result" where
  "check_issuer cred =
     (case field cred ''issuer'' of
        None \<Rightarrow> Inr ([], [''Invalid or missing issuer''])
      | Some (JStr s) \<Rightarrow>
          Inr (if starts_with s ''did:'' then ([''issuer_trust''], [])
               else ([], [''Invalid or missing issuer'']))
      | Some _ \<Rightarrow> Inl (JsTypeError ''credential.issuer.startsWith is not a function''))"

definition check_expiration ::
    "(json \<Rightarrow> int option) \<Rightarrow> int \<Rightarrow> (string, json) jsmap \<Rightarrow> string list \<times> string list" where
  "check_expiration date_ms now cred =
     (case field cred ''expirationDate'' of
        None \<Rightarrow> ([], [])
      | Some d \<Rightarrow>
          ([''expiration''],
           case date_ms d of
             None \<Rightarrow> []
           | Some ms \<Rightarrow> if ms < now then [''Credential has expired''] else []))"

definition check_revocation :: "credential_service \<Rightarrow> (string, json) jsmap \<Rightarrow> string list" where
  "check_revocation svc cred =
     (case field cred ''id'' of
        Some (JStr i) \<Rightarrow> if i \<in> cs_revokedCredentials svc then [''Credential has been revoked''] else []
      | _ \<Rightarrow> [])"

definition verify_credential ::
    "(json \<Rightarrow> int option) \<Rightarrow> int \<Rightarrow> (string, json) jsmap \<Rightarrow> verify_options option \<Rightarrow>
     credential_service \<Rightarrow> verification_result result" where
  "verify_credential date_ms now cred options svc =
     (case check_context cred of
        Inl e \<Rightarrow> Inl e
      | Inr errs1 \<Rightarrow>
          (case check_issuer cred of
             Inl e \<Rightarrow> Inl e
           | Inr (checks2, errs2) \<Rightarrow>
               let (checks3, errs3) = check_expiration date_ms now cred;
                   errs4 = check_revocation svc cred;
                   proof_check = (case options of
                       None \<Rightarrow> []
                     | Some opt \<Rightarrow> if truthy_str (vo_proofPurpose opt) = None then []
                                   else [''proof_validation'']);
                   checks = [''schema''] @ checks2 @ checks3 @ [''revocation''] @ proof_check;
                   errors = errs1 @ errs2 @ errs3 @ errs4
               in Inr \<lparr>vr_verified = (errors = []), vr_checks = checks,
                       vr_errors = (if errors = [] then None else Some errors), vr_timestamp = now\<rparr>))"

definition revoke :: "string \<Rightarrow> credential_service \<Rightarrow> unit result \<times> credential_service" where
  "revoke i svc =
     (if \<not> jm_has (cs_credentials svc) i then
        (Inl (new_object_assign (JsError (''Credential not found: '' @ i)) 404), svc)
      else if i \<in> cs_revokedCredentials svc then
        (Inl (new_object_assign (JsError (''Credential already revoked: '' @ i)) 409), svc)
      else (Inr (), svc\<lparr>cs_revokedCredentials := insert i (cs_revokedCredentials svc)\<rparr>))"

record credential_query =
  cq_issuer :: "string option"
  cq_subject :: "string option"
  cq_type :: "string option"
  cq_status :: "credential_status option"
  cq_page :: int
  cq_limit :: int

definition credential_matches :: "credential_query \<Rightarrow> credential_service \<Rightarrow> verifiable_credential list" where
  "credential_matches query svc =
     (let c1 = str_filter (cq_issuer query) vc_issuer (jm_values (cs_credentials svc));
          c2 = (case truthy_str (cq_subject query) of None \<Rightarrow> c1
                | Some s \<Rightarrow> filter (\<lambda>c. jm_get (vc_credentialSubject c) ''id'' = Some (JStr s)) c1);
          c3 = (case truthy_str (cq_type query) of None \<Rightarrow> c2
                | Some t \<Rightarrow> filter (\<lambda>c. t \<in> set (vc_type c)) c2)
      in if cq_status query = Some CsRevoked then
           filter (\<lambda>c. vc_id c \<in> cs_revokedCredentials svc) c3
         else if cq_status query = Some CsActive then
           filter (\<lambda>c. vc_id c \<notin> cs_revokedCredentials svc) c3
         else c3)"

definition list_credentials :: "credential_query \<Rightarrow> credential_service \<Rightarrow> verifiable_credential page" where
  "list_credentials query svc = paginate (credential_matches query svc) (cq_page query) (cq_limit query)"

text \<open>The JSON object an issued credential is sent as; \<open>iso_text\<close> is the text of a time stamp.\<close>

definition credential_json :: "(int \<Rightarrow> string) \<Rightarrow> verifiable_credential \<Rightarrow> (string, json) jsmap" where
  "credential_json iso_text c =
     [(''@context'', JArr (map JStr (vc_context c))), (''id'', JStr (vc_id c)),
      (''type'', JArr (map JStr (vc_type c))), (''issuer'', JStr (vc_issuer c)),
      (''issuanceDate'', JStr (iso_text (vc_issuanceDate c))),
      (''credentialSubject'', JObj (vc_credentialSubject c))] @
     (case vc_expirationDate c of None \<Rightarrow> [] | Some d \<Rightarrow> [(''expirationDate'', JStr d)]) @
     (case vc_credentialStatus c of None \<Rightarrow> []
      | Some (i, t) \<Rightarrow> [(''credentialStatus'', JObj [(''id'', JStr i), (''type'', JStr t)])])"

subsection \<open>Runs\<close>

datatype credential_call = Issue string issue_credential_input | Revoke string

fun credential_run :: "int \<times> credential_call \<Rightarrow> credential_service \<Rightarrow> credential_service" where
  "credential_run (now, Issue uuid input) svc = snd (issue now uuid input svc)"
| "credential_run (now, Revoke i) svc = snd (revoke i svc)"

definition cred_inv :: "credential_service \<Rightarrow> bool" where
  "cred_inv svc \<longleftrightarrow>
     jm_ok (cs_credentials svc) \<and>
     (\<forall>i c. jm_get (cs_credentials svc) i = Some c \<longrightarrow> vc_id c = i) \<and>
     (\<forall>i \<in> cs_revokedCredentials svc. jm_has (cs_credentials svc) i)"

lemma issue_fields [simp]:
  "cs_revokedCredentials (snd (issue now uuid input svc)) = cs_revokedCredentials svc"
  "cs_credentials (snd (issue now uuid input svc)) =
     jm_set (''urn:uuid:'' @ uuid) (fst (issue now uuid input svc)) (cs_credentials svc)"
  "vc_id (fst (issue now uuid input svc)) = ''urn:uuid:'' @ uuid"
  by (simp_all add: issue_def Let_def)

lemma revoke_credentials [simp]: "cs_credentials (snd (revoke i svc)) = cs_credentials svc"
  by (simp add: revoke_def)

lemma credential_run_inv: "cred_inv svc \<Longrightarrow> cred_inv (credential_run (now, c) svc)"
  by (cases c) (auto simp: cred_inv_def jm_has_def, auto simp: revoke_def jm_has_def split: if_splits)

lemma credential_run_revoked:
  "cs_revokedCredentials svc \<subseteq> cs_revokedCredentials (credential_run (now, c) svc)"
  by (cases c) (auto simp: revoke_def)

interpretation credentials: monotone_machine credential_run "\<lambda>_ _. True" cred_inv cs_revokedCredentials
  by unfold_locales (auto intro: credential_run_inv credential_run_revoked [THEN subsetD])

lemma credential_run_has:
  "jm_has (cs_credentials svc) i \<Longrightarrow> jm_has (cs_credentials (run_events credential_run calls svc)) i"
proof (induction calls arbitrary: svc)
  case Nil
  then show ?case by simp
next
  case (Cons e calls)
  have "jm_has (cs_credentials (credential_run e svc)) i"
    using Cons.prems by (cases e; cases "snd e") (auto simp: jm_has_def)
  with Cons.IH show ?case by simp
qed

lemma verify_revoked:
  assumes "i \<in> cs_revokedCredentials svc" and "field cred ''id'' = Some (JStr i)"
    and "verify_credential date_ms now cred options svc = Inr r"
  shows "\<not> vr_verified r" and "''Credential has been revoked'' \<in> set (or_default (vr_errors r) [])"
  using assms by (auto simp: verify_credential_def check_revocation_def Let_def split: sum.splits prod.splits)

subsection \<open>Properties\<close>

lemma revocation_is_permanent_facts:
  assumes "cred_inv svc" and "fst (revoke i svc) = Inr ()"
    and "svc' = run_events credential_run calls (snd (revoke i svc))"
  shows "\<exists>c. getById i svc' = Inr c \<and> vc_credentialStatus c = Some (i, ''RevocationList2020'')"
    and "\<exists>e. revoke i svc' = (Inl e, svc')"
    and "field cred ''id'' = Some (JStr i) \<Longrightarrow> verify_credential date_ms now cred options svc' = Inr r \<Longrightarrow>
       \<not> vr_verified r \<and> ''Credential has been revoked'' \<in> set (or_default (vr_errors r) [])"
proof -
  have first: "jm_has (cs_credentials svc) i" "i \<in> cs_revokedCredentials (snd (revoke i svc))"
    using assms(2) by (auto simp: revoke_def split: if_splits)
  then have has: "jm_has (cs_credentials svc') i"
    unfolding assms(3) by (intro credential_run_has) simp
  have "cred_inv (snd (revoke i svc))"
    using credential_run_inv [OF assms(1), of now "Revoke i"] by simp
  then have revoked: "i \<in> cs_revokedCredentials svc'"
    using credentials.rank_run [of "snd (revoke i svc)" calls] first(2) by (auto simp: assms(3))
  show "\<exists>c. getById i svc' = Inr c \<and> vc_credentialStatus c = Some (i, ''RevocationList2020'')"
    using has revoked by (auto simp: getById_def jm_has_def)
  show "\<exists>e. revoke i svc' = (Inl e, svc')"
    using has revoked by (simp add: revoke_def)
  show "\<not> vr_verified r \<and> ''Credential has been revoked'' \<in> set (or_default (vr_errors r) [])"
    if "field cred ''id'' = Some (JStr i)" "verify_credential date_ms now cred options svc' = Inr r"
    using verify_revoked [OF revoked that] by simp
qed

text \<open>C11: Revocation is permanent: whatever is issued or revoked afterwards, a revoked
  credential is looked up with the revocation status, a second revocation is refused and changes
  nothing, and no credential with its id verifies, at any time and with any options.\<close>

theorem revocation_is_permanent:
  assumes "cred_inv svc"
    and "fst (revoke i svc) = Inr ()"
    and "svc' = run_events credential_run calls (snd (revoke i svc))"
  shows "(\<exists>c. getById i svc' = Inr c \<and> vc_credentialStatus c = Some (i, ''RevocationList2020'')) \<and>
     (\<exists>e. revoke i svc' = (Inl e, svc')) \<and>
     (field cred ''id'' = Some (JStr i) \<longrightarrow> verify_credential date_ms now cred options svc' = Inr r \<longrightarrow> (\<not> vr_verified r \<and> ''Credential has been revoked'' \<in> set (or_default (vr_errors r) [])))"
proof -
  have c1: "\<exists>c. getById i svc' = Inr c \<and> vc_credentialStatus c = Some (i, ''RevocationList2020'')"
    by (rule revocation_is_permanent_facts(1) [OF assms])
  have c2: "\<exists>e. revoke i svc' = (Inl e, svc')"
    by (rule revocation_is_permanent_facts(2) [OF assms])
  have c3: "field cred ''id'' = Some (JStr i) \<longrightarrow> verify_credential date_ms now cred options svc' = Inr r \<longrightarrow> (\<not> vr_verified r \<and> ''Credential has been revoked'' \<in> set (or_default (vr_errors r) []))"
    by (rule impI, rule impI) (rule revocation_is_permanent_facts(3) [OF assms]; (assumption | erule spec))
  show ?thesis by (rule conjI [OF c1 conjI [OF c2 c3]])
qed

definition demo_issue :: issue_credential_input where
  "demo_issue = \<lparr>ic_type = Inl ''KycCredential'', ic_issuer = ''did:web:issuer'', ic_subject = ''did:key:alice'',
     ic_claims = Some [(''tier'', JStr ''basic'')], ic_expirationDate = None, ic_credentialStatus = None\<rparr>"

definition demo_credentials :: credential_service where
  "demo_credentials = snd (issue 5 ''1'' demo_issue new_credential_service)"

theorem revocation_is_permanent_witness:
  "\<exists>e. revoke ''urn:uuid:1'' (credential_run (9, Issue ''2'' demo_issue) (snd (revoke ''urn:uuid:1'' demo_credentials))) =
     (Inl e, credential_run (9, Issue ''2'' demo_issue) (snd (revoke ''urn:uuid:1'' demo_credentials)))"
proof -
  have "cred_inv new_credential_service" by (simp add: cred_inv_def new_credential_service_def)
  from credential_run_inv [OF this, of 5 "Issue ''1'' demo_issue"] have inv: "cred_inv demo_credentials"
    by (simp add: demo_credentials_def)
  have "fst (revoke ''urn:uuid:1'' demo_credentials) = Inr ()" by code_simp
  from revocation_is_permanent [OF inv this, where calls = "[(9, Issue ''2'' demo_issue)]"] show ?thesis by simp
qed

lemma issued_credential_verifies_facts:
  assumes "issue t uuid input svc = (c, svc')" and "jm_ok (or_default (ic_claims input) [])"
  shows "\<exists>r. verify_credential date_ms now (credential_json iso_text c) options svc' = Inr r \<and>
       (vr_verified r \<longleftrightarrow>
          starts_with (ic_issuer input) ''did:'' \<and>
          (case truthy_str (ic_expirationDate input) of None \<Rightarrow> True
           | Some d \<Rightarrow> (case date_ms (JStr d) of None \<Rightarrow> True | Some ms \<Rightarrow> now \<le> ms)) \<and>
          ''urn:uuid:'' @ uuid \<notin> cs_revokedCredentials svc) \<and>
       (vr_errors r = None \<longleftrightarrow> vr_verified r)"
    and "jm_get (vc_credentialSubject c) ''id'' =
       (case jm_get (or_default (ic_claims input) []) ''id'' of
          Some v \<Rightarrow> Some v | None \<Rightarrow> Some (JStr (ic_subject input)))"
proof -
  let ?j = "credential_json iso_text c"
  have c: "vc_context c = [W3C_CONTEXT]" "vc_id c = ''urn:uuid:'' @ uuid" "vc_issuer c = ic_issuer input"
    "vc_expirationDate c = truthy_str (ic_expirationDate input)"
    "vc_credentialSubject c = js_spread [(''id'', JStr (ic_subject input))] (or_default (ic_claims input) [])"
    and svc': "cs_revokedCredentials svc' = cs_revokedCredentials svc"
    using assms(1) by (auto simp: issue_def Let_def)
  have get: "jm_get ?j ''@context'' = Some (JArr [JStr W3C_CONTEXT])"
    "jm_get ?j ''id'' = Some (JStr (''urn:uuid:'' @ uuid))" "jm_get ?j ''issuer'' = Some (JStr (ic_issuer input))"
    "jm_get ?j ''expirationDate'' = map_option JStr (truthy_str (ic_expirationDate input))"
    by (auto simp: credential_json_def jm_get_def c map_add_def split: option.splits)
  have ctx: "check_context ?j = Inr []" by (simp add: check_context_def get)
  have iss: "check_issuer ?j = Inr (if starts_with (ic_issuer input) ''did:'' then ([''issuer_trust''], [])
      else ([], [''Invalid or missing issuer'']))"
    by (simp add: check_issuer_def field_def get json_truthy_def)
  have expi: "snd (check_expiration date_ms now ?j) = [] \<longleftrightarrow>
      (case truthy_str (ic_expirationDate input) of None \<Rightarrow> True
       | Some d \<Rightarrow> (case date_ms (JStr d) of None \<Rightarrow> True | Some ms \<Rightarrow> now \<le> ms))"
    by (auto simp: check_expiration_def field_def get json_truthy_def truthy_str_def split: option.splits)
  have rev: "check_revocation svc' ?j = [] \<longleftrightarrow> ''urn:uuid:'' @ uuid \<notin> cs_revokedCredentials svc"
    by (simp add: check_revocation_def field_def get json_truthy_def svc')
  show "\<exists>r. verify_credential date_ms now ?j options svc' = Inr r \<and>
       (vr_verified r \<longleftrightarrow>
          starts_with (ic_issuer input) ''did:'' \<and>
          (case truthy_str (ic_expirationDate input) of None \<Rightarrow> True
           | Some d \<Rightarrow> (case date_ms (JStr d) of None \<Rightarrow> True | Some ms \<Rightarrow> now \<le> ms)) \<and>
          ''urn:uuid:'' @ uuid \<notin> cs_revokedCredentials svc) \<and>
       (vr_errors r = None \<longleftrightarrow> vr_verified r)"
    unfolding expi [symmetric] rev [symmetric]
    by (simp add: verify_credential_def ctx iss Let_def split: prod.splits)
  show "jm_get (vc_credentialSubject c) ''id'' =
       (case jm_get (or_default (ic_claims input) []) ''id'' of
          Some v \<Rightarrow> Some v | None \<Rightarrow> Some (JStr (ic_subject input)))"
    unfolding c(5) by (simp add: jm_get_spread [OF assms(2)] jm_get_def [of "[_]"] split: option.splits)
qed

text \<open>C37: Issuing and verifying agree: a credential that was just issued verifies, as JSON, exactly
  if its issuer is a DID, its expiration date (if the engine can read it) has not passed and its
  id was not revoked before; every error is one of these three. Its subject has the id of the
  input unless the claims bring an id of their own, which then replaces it.\<close>

theorem issued_credential_verifies:
  assumes "issue t uuid input svc = (c, svc')"
    and "jm_ok (or_default (ic_claims input) [])"
  shows "(\<exists>r. verify_credential date_ms now (credential_json iso_text c) options svc' = Inr r \<and>
       (vr_verified r \<longleftrightarrow>
          starts_with (ic_issuer input) ''did:'' \<and>
          (case truthy_str (ic_expirationDate input) of None \<Rightarrow> True
           | Some d \<Rightarrow> (case date_ms (JStr d) of None \<Rightarrow> True | Some ms \<Rightarrow> now \<le> ms)) \<and>
          ''urn:uuid:'' @ uuid \<notin> cs_revokedCredentials svc) \<and>
       (vr_errors r = None \<longleftrightarrow> vr_verified r)) \<and>
     (jm_get (vc_credentialSubject c) ''id'' =
       (case jm_get (or_default (ic_claims input) []) ''id'' of
          Some v \<Rightarrow> Some v | None \<Rightarrow> Some (JStr (ic_subject input))))"
proof -
  have c1: "\<exists>r. verify_credential date_ms now (credential_json iso_text c) options svc' = Inr r \<and>
       (vr_verified r \<longleftrightarrow>
          starts_with (ic_issuer input) ''did:'' \<and>
          (case truthy_str (ic_expirationDate input) of None \<Rightarrow> True
           | Some d \<Rightarrow> (case date_ms (JStr d) of None \<Rightarrow> True | Some ms \<Rightarrow> now \<le> ms)) \<and>
          ''urn:uuid:'' @ uuid \<notin> cs_revokedCredentials svc) \<and>
       (vr_errors r = None \<longleftrightarrow> vr_verified r)"
    by (rule issued_credential_verifies_facts(1) [OF assms])
  have c2: "jm_get (vc_credentialSubject c) ''id'' =
       (case jm_get (or_default (ic_claims input) []) ''id'' of
          Some v \<Rightarrow> Some v | None \<Rightarrow> Some (JStr (ic_subject input)))"
    by (rule issued_credential_verifies_facts(2) [OF assms])
  show ?thesis by (rule conjI [OF c1 c2])
qed

theorem issued_credential_verifies_witness:
  "jm_get (vc_credentialSubject (fst (issue 5 ''1'' (demo_issue\<lparr>ic_claims := Some [(''id'', JStr ''did:key:mallory'')]\<rparr>)
      new_credential_service))) ''id'' = Some (JStr ''did:key:mallory'')"
proof -
  let ?i = "demo_issue\<lparr>ic_claims := Some [(''id'', JStr ''did:key:mallory'')]\<rparr>"
  have "jm_ok (or_default (ic_claims ?i) [])" by (simp add: jm_ok_def)
  from issued_credential_verifies [OF prod.collapse [symmetric] this, THEN conjunct2]
  show ?thesis by (simp add: jm_get_def)
qed

end
