(* ===== verification/AuditChain.thy ===== *)
theory AuditChain
  imports Prelude
begin

section \<open>The audit log and its hash chain\<close>

text \<open>
  packages/api/src/services/audit_service.ts. The hash (sha256, in hex, of node's crypto) is a
  parameter \<open>hash\<close> of the operations that use it. Time stamps are kept as the ISO texts the code
  hashes and compares. The caller's entry is an object literal in the order of the
  interface AuditLogEntry, of which an optional field that is not given is absent.
\<close>

datatype audit_severity = SevLow | SevMedium | SevHigh | SevCritical

record audit_log_entry =
  ae_action :: string
  ae_severity :: audit_severity
  ae_actorId :: string
  ae_actorType :: string
  ae_resourceType :: string
  ae_resourceId :: "string option"
  ae_ip :: string
  ae_userAgent :: string
  ae_success :: bool
  ae_detail :: "string option"
  ae_metadata :: "json option"

record chained_audit_entry = audit_log_entry +
  ae_auditId :: string
  ae_chainHash :: string
  ae_previousHash :: string
  ae_timestamp :: string

record audit_query =
  aq_action :: "string option"
  aq_severity :: "audit_severity option"
  aq_actorId :: "string option"
  aq_resourceType :: "string option"
  aq_resourceId :: "string option"
  aq_success :: "bool option"
  aq_from :: "string option"
  aq_to :: "string option"
  aq_page :: int
  aq_limit :: int

record audit_service =
  as_chain :: "chained_audit_entry list"
  as_genesisHash :: string

definition new_audit_service :: "(string \<Rightarrow> string) \<Rightarrow> audit_service" where
  "new_audit_service hash = \<lparr>as_chain = [], as_genesisHash = hash ''KYC-VAULT-AUDIT-GENESIS''\<rparr>"

text \<open>The text that is hashed.\<close>

definition chain_payload :: "string \<Rightarrow> string \<Rightarrow> string \<Rightarrow> string \<Rightarrow> string \<Rightarrow> string" where
  "chain_payload timestamp action actorId resourceType previousHash =
     join_with '':'' [timestamp, action, actorId, resourceType, previousHash]"

definition entry_payload :: "chained_audit_entry \<Rightarrow> string" where
  "entry_payload e =
     chain_payload (ae_timestamp e) (ae_action e) (ae_actorId e) (ae_resourceType e) (ae_previousHash e)"

definition log_entry ::
    "(string \<Rightarrow> string) \<Rightarrow> string \<Rightarrow> string \<Rightarrow> audit_log_entry \<Rightarrow> audit_service \<Rightarrow>
     chained_audit_entry \<times> audit_service" where
  "log_entry hash timestamp uuid entry svc =
     (let previousHash = (if as_chain svc = [] then as_genesisHash svc
                          else ae_chainHash (last (as_chain svc)));
          chainedEntry = audit_log_entry.extend entry
            (chained_audit_entry.fields uuid [] previousHash timestamp);
          chainPayload = chain_payload timestamp (ae_action entry) (ae_actorId entry)
                           (ae_resourceType entry) previousHash;
          hashed = chainedEntry\<lparr>ae_chainHash := hash chainPayload\<rparr>
      in (hashed, svc\<lparr>as_chain := as_chain svc @ [hashed]\<rparr>))"

definition query_matches :: "audit_query \<Rightarrow> audit_service \<Rightarrow> chained_audit_entry list" where
  "query_matches query svc =
     (let r1 = str_filter (aq_action query) ae_action (as_chain svc);
          r2 = opt_filter (aq_severity query) ae_severity r1;
          r3 = str_filter (aq_actorId query) ae_actorId r2;
          r4 = str_filter (aq_resourceType query) ae_resourceType r3;
          r5 = (case aq_resourceId query of None \<Rightarrow> r4
                | Some v \<Rightarrow> if v = [] then r4 else filter (\<lambda>e. ae_resourceId e = Some v) r4);
          r6 = opt_filter (aq_success query) ae_success r5;
          r7 = (case aq_from query of None \<Rightarrow> r6
                | Some t \<Rightarrow> if t = [] then r6 else filter (\<lambda>e. js_str_le t (ae_timestamp e)) r6)
      in (case aq_to query of None \<Rightarrow> r7
          | Some t \<Rightarrow> if t = [] then r7 else filter (\<lambda>e. js_str_le (ae_timestamp e) t) r7))"

definition query_audit :: "audit_query \<Rightarrow> audit_service \<Rightarrow> chained_audit_entry page" where
  "query_audit query svc = paginate (query_matches query svc) (aq_page query) (aq_limit query)"

subsection \<open>Verification of the chain\<close>

record chain_integrity =
  ci_valid :: bool
  ci_brokenLinks :: nat
  ci_entriesChecked :: nat

text \<open>The loop over the chain; \<open>expected\<close> is the hash the entry must point to.\<close>

fun count_broken :: "(string \<Rightarrow> string) \<Rightarrow> string \<Rightarrow> chained_audit_entry list \<Rightarrow> nat" where
  "count_broken hash expected [] = 0"
| "count_broken hash expected (e # es) =
     (if ae_previousHash e \<noteq> expected then 1 else 0) +
     (if ae_chainHash e \<noteq> hash (entry_payload e) then 1 else 0) +
     count_broken hash (ae_chainHash e) es"

definition verifyChainIntegrity :: "(string \<Rightarrow> string) \<Rightarrow> audit_service \<Rightarrow> chain_integrity" where
  "verifyChainIntegrity hash svc =
     (let brokenLinks = count_broken hash (as_genesisHash svc) (as_chain svc)
      in \<lparr>ci_valid = (brokenLinks = 0), ci_brokenLinks = brokenLinks,
          ci_entriesChecked = length (as_chain svc)\<rparr>)"

subsection \<open>Export\<close>

fun severity_name :: "audit_severity \<Rightarrow> string" where
  "severity_name SevLow = ''low''"
| "severity_name SevMedium = ''medium''"
| "severity_name SevHigh = ''high''"
| "severity_name SevCritical = ''critical''"

definition opt_field :: "string \<Rightarrow> string option \<Rightarrow> (string \<times> string) list" where
  "opt_field k v = (case v of None \<Rightarrow> [] | Some x \<Rightarrow> [(k, x)])"

text \<open>Object.entries of an entry, with String applied to the values.\<close>

definition entry_fields :: "chained_audit_entry \<Rightarrow> (string \<times> string) list" where
  "entry_fields e =
     [(''action'', ae_action e), (''severity'', severity_name (ae_severity e)),
      (''actorId'', ae_actorId e), (''actorType'', ae_actorType e),
      (''resourceType'', ae_resourceType e)] @ opt_field ''resourceId'' (ae_resourceId e) @
     [(''ip'', ae_ip e), (''userAgent'', ae_userAgent e), (''success'', show_bool (ae_success e))] @
     opt_field ''detail'' (ae_detail e) @
     opt_field ''metadata'' (map_option (\<lambda>_. ''[object Object]'') (ae_metadata e)) @
     [(''auditId'', ae_auditId e), (''chainHash'', ae_chainHash e),
      (''previousHash'', ae_previousHash e), (''timestamp'', ae_timestamp e)]"

definition quote :: char where
  "quote = CHR 34"

definition csv_cell :: "string \<Rightarrow> string" where
  "csv_cell v = [quote] @ replace_char quote [quote, quote] v @ [quote]"

definition csv_row :: "string list \<Rightarrow> string" where
  "csv_row vs = join_with '','' (map csv_cell vs)"

text \<open>A JSON export is the text JSON.stringify gives for the list.\<close>

datatype audit_export = ExportJson "chained_audit_entry list" | ExportCsv string

definition export_audit :: "bool \<Rightarrow> audit_query option \<Rightarrow> audit_service \<Rightarrow> audit_export" where
  "export_audit csv query svc =
     (let data = (case query of Some q \<Rightarrow> pg_data (query_audit q svc) | None \<Rightarrow> as_chain svc)
      in if csv then
           let headers = (case data of [] \<Rightarrow> [] | e # _ \<Rightarrow> join_with '','' (map fst (entry_fields e)));
               rows = map (\<lambda>e. csv_row (map snd (entry_fields e))) data
           in ExportCsv (join_with [CHR 10] (headers # rows))
         else ExportJson data)"

subsection \<open>Lemmas on chains\<close>

lemma logged_entry:
  "ae_chainHash (fst (log_entry hash ts u entry svc)) = hash (entry_payload (fst (log_entry hash ts u entry svc)))"
  "ae_previousHash (fst (log_entry hash ts u entry svc)) =
     (if as_chain svc = [] then as_genesisHash svc else ae_chainHash (last (as_chain svc)))"
  by (simp_all add: log_entry_def Let_def audit_log_entry.defs chained_audit_entry.defs entry_payload_def)

lemma log_entry_chain:
  "as_chain (snd (log_entry hash ts u entry svc)) = as_chain svc @ [fst (log_entry hash ts u entry svc)]"
  "as_genesisHash (snd (log_entry hash ts u entry svc)) = as_genesisHash svc"
  by (simp_all add: log_entry_def Let_def)

lemma count_broken_append:
  "count_broken hash g (es @ fs) =
     count_broken hash g es + count_broken hash (if es = [] then g else ae_chainHash (last es)) fs"
  by (induction es arbitrary: g) auto

definition chain_ok :: "(string \<Rightarrow> string) \<Rightarrow> audit_service \<Rightarrow> bool" where
  "chain_ok hash svc \<longleftrightarrow> count_broken hash (as_genesisHash svc) (as_chain svc) = 0"

fun audit_run :: "(string \<Rightarrow> string) \<Rightarrow> string \<times> string \<times> audit_log_entry \<Rightarrow> audit_service \<Rightarrow> audit_service" where
  "audit_run hash (ts, u, entry) svc = snd (log_entry hash ts u entry svc)"

lemma audit_run_ok: "chain_ok hash svc \<Longrightarrow> chain_ok hash (audit_run hash e svc)"
  by (cases e) (simp add: chain_ok_def log_entry_chain count_broken_append logged_entry)

lemma audit_run_length: "length (as_chain (audit_run hash e svc)) = Suc (length (as_chain svc))"
  by (cases e) (simp add: log_entry_chain)

interpretation audit: monotone_machine "audit_run hash" "\<lambda>_ _. True" "chain_ok hash" "\<lambda>s. length (as_chain s)"
  for hash
  by unfold_locales (auto intro: audit_run_ok simp: audit_run_length)

lemma count_broken_zero:
  "count_broken hash g es = 0 \<longleftrightarrow>
     (\<forall>i < length es. ae_previousHash (es ! i) = (if i = 0 then g else ae_chainHash (es ! (i - 1))) \<and>
        ae_chainHash (es ! i) = hash (entry_payload (es ! i)))"
proof (induction es arbitrary: g)
  case Nil
  then show ?case by simp
next
  case (Cons e es)
  have "(if i = 0 then ae_chainHash e else ae_chainHash (es ! (i - 1))) = ae_chainHash ((e # es) ! i)" for i
    by (cases i) simp_all
  with Cons show ?case by (simp add: All_less_Suc2)
qed

lemma verify_valid: "ci_valid (verifyChainIntegrity hash svc) \<longleftrightarrow> chain_ok hash svc"
  by (simp add: verifyChainIntegrity_def chain_ok_def Let_def)

lemma new_audit_ok: "chain_ok hash (new_audit_service hash)"
  by (simp add: chain_ok_def new_audit_service_def)

lemma run_ok: "chain_ok hash (run_events (audit_run hash) es (new_audit_service hash))"
  by (rule audit.inv_run [OF new_audit_ok]) simp

lemma run_entries:
  "map audit_log_entry.truncate (as_chain (run_events (audit_run hash) es svc)) =
     map audit_log_entry.truncate (as_chain svc) @ map (\<lambda>(ts, u, entry). entry) es"
proof (induction es arbitrary: svc)
  case Nil
  then show ?case by simp
next
  case (Cons e es)
  obtain ts u entry where e: "e = (ts, u, entry)" by (cases e)
  have "audit_log_entry.truncate (fst (log_entry hash ts u entry svc)) = entry"
    by (simp add: log_entry_def Let_def audit_log_entry.defs chained_audit_entry.defs)
  with Cons show ?case by (simp add: e log_entry_chain)
qed

subsection \<open>Reading a CSV row back\<close>

text \<open>A reader of quoted cells: inside a cell, with the characters read so far.\<close>

fun csv_scan :: "string \<Rightarrow> string \<Rightarrow> string list" where
  "csv_scan acc [] = [acc]"
| "csv_scan acc (c # cs) =
     (if c \<noteq> quote then csv_scan (acc @ [c]) cs
      else case cs of
             [] \<Rightarrow> [acc]
           | d # ds \<Rightarrow> if d = quote then csv_scan (acc @ [quote]) ds
                        else acc # (case ds of [] \<Rightarrow> [] | _ # es \<Rightarrow> csv_scan [] es))"

definition csv_read :: "string \<Rightarrow> string list" where
  "csv_read s = (case s of [] \<Rightarrow> [] | _ # cs \<Rightarrow> csv_scan [] cs)"

lemma csv_scan_cell:
  "csv_scan acc (replace_char quote [quote, quote] v @ quote # rest) =
     (case rest of [] \<Rightarrow> [acc @ v]
      | d # ds \<Rightarrow> if d = quote then csv_scan (acc @ v @ [quote]) ds
                   else (acc @ v) # (case ds of [] \<Rightarrow> [] | _ # es \<Rightarrow> csv_scan [] es))"
  by (induction v arbitrary: acc) (auto simp: replace_char_def split: list.splits)

lemma csv_row_Cons: "csv_row (v # w # vs) = csv_cell v @ '','' @ csv_row (w # vs)"
  by (simp add: csv_row_def)

lemma csv_read_row: "csv_read (csv_row (v # vs)) = v # vs"
proof (induction vs arbitrary: v)
  case Nil
  then show ?case by (simp add: csv_read_def csv_row_def csv_cell_def csv_scan_cell)
next
  case (Cons w vs)
  have "CHR '','' \<noteq> quote" by (simp add: quote_def)
  moreover obtain r where r: "csv_row (w # vs) = quote # r"
    by (cases vs) (auto simp: csv_row_def csv_cell_def)
  ultimately show ?case
    using Cons [of w] by (simp add: csv_row_Cons csv_read_def csv_cell_def csv_scan_cell)
qed

subsection \<open>Properties\<close>

text \<open>C6: The log is append-only and always verifies: after any sequence of log calls the check
  finds no broken link, has looked at every entry, and the chain holds exactly the logged
  entries in order.\<close>

theorem audit_chain_always_verifies:
  "verifyChainIntegrity hash (run_events (audit_run hash) es (new_audit_service hash)) =
     \<lparr>ci_valid = True, ci_brokenLinks = 0, ci_entriesChecked = length es\<rparr> \<and>
   map audit_log_entry.truncate (as_chain (run_events (audit_run hash) es (new_audit_service hash))) =
     map (\<lambda>(ts, u, entry). entry) es"
proof -
  have entries: "map audit_log_entry.truncate (as_chain (run_events (audit_run hash) es (new_audit_service hash))) =
     map (\<lambda>(ts, u, entry). entry) es"
    by (simp add: run_entries new_audit_service_def)
  then have "length (as_chain (run_events (audit_run hash) es (new_audit_service hash))) = length es"
    using length_map by metis
  with entries run_ok [of hash es] show ?thesis
    by (simp add: verifyChainIntegrity_def chain_ok_def Let_def)
qed


definition demo_entry :: "string \<Rightarrow> audit_severity \<Rightarrow> audit_log_entry" where
  "demo_entry action sev = \<lparr>ae_action = action, ae_severity = sev, ae_actorId = ''alice'', ae_actorType = ''user'',
     ae_resourceType = ''kyc'', ae_resourceId = Some ''wf-1'', ae_ip = ''::1'', ae_userAgent = ''ua'',
     ae_success = False, ae_detail = Some ''d'', ae_metadata = None\<rparr>"

definition demo_log :: "(string \<times> string \<times> audit_log_entry) list" where
  "demo_log = [(''t1'', ''1'', demo_entry ''login'' SevCritical), (''t2'', ''2'', demo_entry ''read'' SevLow)]"

definition demo_audit :: audit_service where
  "demo_audit = run_events (audit_run id) demo_log (new_audit_service id)"


text \<open>The severity, the outcome, the detail, the resource id, the address and every other
  field outside the hashed text can be rewritten, and entries can be cut off the end, without
  the check noticing.\<close>

theorem uncovered_tampering_undetected:
  assumes "svc = run_events (audit_run hash) es (new_audit_service hash)"
    and "k < length (as_chain svc)"
    and "entry_payload e' = entry_payload (as_chain svc ! k)"
    and "ae_previousHash e' = ae_previousHash (as_chain svc ! k)"
    and "ae_chainHash e' = ae_chainHash (as_chain svc ! k)"
  shows "ci_valid (verifyChainIntegrity hash (svc\<lparr>as_chain := (as_chain svc)[k := e']\<rparr>)) \<and>
         ci_valid (verifyChainIntegrity hash (svc\<lparr>as_chain := take n (as_chain svc)\<rparr>))"
proof -
  let ?c = "as_chain svc" and ?c' = "(as_chain svc)[k := e']"
  have old: "i < length ?c \<Longrightarrow>
      ae_previousHash (?c ! i) = (if i = 0 then as_genesisHash svc else ae_chainHash (?c ! (i - 1))) \<and>
      ae_chainHash (?c ! i) = hash (entry_payload (?c ! i))" for i
    using run_ok [of hash es] by (simp add: assms(1) chain_ok_def count_broken_zero)
  have same: "entry_payload (?c' ! i) = entry_payload (?c ! i)" "ae_previousHash (?c' ! i) = ae_previousHash (?c ! i)"
    "ae_chainHash (?c' ! i) = ae_chainHash (?c ! i)" for i
    using assms(2-5) by (cases "i = k"; simp)+
  show ?thesis
    using old by (auto simp: verify_valid chain_ok_def count_broken_zero same)
qed

theorem uncovered_tampering_undetected_witness:
  "ci_valid (verifyChainIntegrity id (demo_audit\<lparr>as_chain := (as_chain demo_audit)[0 :=
       (as_chain demo_audit ! 0)\<lparr>ae_severity := SevLow, ae_success := True, ae_detail := None\<rparr>]\<rparr>))"
proof -
  let ?e = "(as_chain demo_audit ! 0)\<lparr>ae_severity := SevLow, ae_success := True, ae_detail := None\<rparr>"
  have "0 < length (as_chain demo_audit)" by code_simp
  from uncovered_tampering_undetected [OF demo_audit_def this, of ?e] show ?thesis
    by (simp add: entry_payload_def)
qed

text \<open>A CSV export loses nothing a reader of quoted cells needs: the cells of every row, with
  any quotes and commas in the values, read back as the values of the entry.\<close>

theorem csv_rows_read_back:
  "csv_read (csv_row (map snd (entry_fields e))) = map snd (entry_fields e)"
proof -
  obtain v vs where "map snd (entry_fields e) = v # vs"
    by (cases "map snd (entry_fields e)") (auto simp: entry_fields_def)
  then show ?thesis by (simp add: csv_read_row)
qed

end
