(* ===== verification/CircuitBreaker.thy ===== *)
theory CircuitBreaker
  imports Prelude
begin

section \<open>The circuit breaker\<close>

text \<open>
  packages/core/src/retry/circuit_breaker.ts. The class is a record with its counters, its
  options and its monitor timer; a method is a function of the clock and the record. The
  asynchronous method execute is split at its await: \<open>execute_begin\<close> runs up to the call of
  the protected function, onSuccess or onFailure runs when that call settles, and any number
  of calls may be in flight between the two. \<open>breaker_step\<close> interleaves all of it.
\<close>

datatype circuit_state = CbClosed | CbOpen | CbHalfOpen

record circuit_breaker_options =
  opt_failureThreshold :: int
  opt_successThreshold :: int
  opt_timeoutMs :: int
  opt_halfOpenMaxRequests :: "int option"
  opt_monitorIntervalMs :: "int option"

record circuit_breaker =
  cb_state :: circuit_state
  cb_failureCount :: int
  cb_successCount :: int
  cb_lastFailureTime :: "int option"
  cb_lastSuccessTime :: "int option"
  cb_openedAt :: "int option"
  cb_halfOpenAt :: "int option"
  cb_totalFailures :: int
  cb_totalSuccesses :: int
  cb_totalTimeouts :: int
  cb_totalShortCircuits :: int
  cb_halfOpenRequests :: int
  cb_failureThreshold :: int
  cb_successThreshold :: int
  cb_timeoutMs :: int
  cb_halfOpenMaxRequests :: int
  cb_monitorIntervalMs :: int
  cb_monitorTimer :: bool \<comment> \<open>whether an interval timer is armed\<close>
  cb_handler :: bool \<comment> \<open>whether a state-change handler is registered\<close>
  cb_changes :: "(circuit_state \<times> circuit_state) list" \<comment> \<open>the calls the handler received\<close>

definition new_breaker :: "circuit_breaker_options \<Rightarrow> circuit_breaker" where
  "new_breaker options =
     \<lparr>cb_state = CbClosed, cb_failureCount = 0, cb_successCount = 0,
      cb_lastFailureTime = None, cb_lastSuccessTime = None, cb_openedAt = None,
      cb_halfOpenAt = None, cb_totalFailures = 0, cb_totalSuccesses = 0, cb_totalTimeouts = 0,
      cb_totalShortCircuits = 0, cb_halfOpenRequests = 0,
      cb_failureThreshold = opt_failureThreshold options,
      cb_successThreshold = opt_successThreshold options,
      cb_timeoutMs = opt_timeoutMs options,
      cb_halfOpenMaxRequests = or_default (opt_halfOpenMaxRequests options) 1,
      cb_monitorIntervalMs = or_default (opt_monitorIntervalMs options) 0,
      cb_monitorTimer = False, cb_handler = False, cb_changes = []\<rparr>"

definition notify_change :: "circuit_state \<Rightarrow> circuit_state \<Rightarrow> circuit_breaker \<Rightarrow> circuit_breaker" where
  "notify_change old new b = (if cb_handler b then b\<lparr>cb_changes := cb_changes b @ [(old, new)]\<rparr> else b)"

definition stopMonitor :: "circuit_breaker \<Rightarrow> circuit_breaker" where
  "stopMonitor b = (if cb_monitorTimer b then b\<lparr>cb_monitorTimer := False\<rparr> else b)"

definition startMonitor :: "circuit_breaker \<Rightarrow> circuit_breaker" where
  "startMonitor b = (stopMonitor b)\<lparr>cb_monitorTimer := True\<rparr>"

text \<open>\<open>!this.openedAt\<close> holds for null and for 0.\<close>

definition shouldAttemptReset :: "int \<Rightarrow> circuit_breaker \<Rightarrow> bool" where
  "shouldAttemptReset now b =
     (case cb_openedAt b of
        None \<Rightarrow> False
      | Some t \<Rightarrow> if t = 0 then False else cb_timeoutMs b \<le> now - t)"

definition transitionTo :: "int \<Rightarrow> circuit_state \<Rightarrow> circuit_breaker \<Rightarrow> circuit_breaker" where
  "transitionTo now newState b =
     (let b1 = b\<lparr>cb_state := newState\<rparr>;
          b2 = (if newState = CbOpen then
                  let b3 = b1\<lparr>cb_failureCount := 0, cb_successCount := 0,
                              cb_openedAt := Some now, cb_halfOpenAt := None\<rparr>
                  in if cb_monitorIntervalMs b3 > 0 then startMonitor b3 else b3
                else if newState = CbHalfOpen then
                  stopMonitor (b1\<lparr>cb_failureCount := 0, cb_successCount := 0,
                                  cb_halfOpenAt := Some now, cb_halfOpenRequests := 0\<rparr>)
                else b1)
      in notify_change (cb_state b) newState b2)"

definition reset_breaker :: "circuit_breaker \<Rightarrow> circuit_breaker" where
  "reset_breaker b =
     notify_change (cb_state b) CbClosed
       (stopMonitor (b\<lparr>cb_state := CbClosed, cb_failureCount := 0, cb_successCount := 0,
          cb_lastFailureTime := None, cb_openedAt := None, cb_halfOpenAt := None,
          cb_halfOpenRequests := 0\<rparr>))"

definition onSuccess :: "int \<Rightarrow> circuit_breaker \<Rightarrow> circuit_breaker" where
  "onSuccess now b =
     (let b1 = b\<lparr>cb_lastSuccessTime := Some now, cb_totalSuccesses := cb_totalSuccesses b + 1\<rparr>
      in if cb_state b1 = CbHalfOpen then
           let b2 = b1\<lparr>cb_successCount := cb_successCount b1 + 1, cb_halfOpenRequests := 0\<rparr>
           in if cb_successCount b2 \<ge> cb_successThreshold b2 then reset_breaker b2 else b2
         else if cb_state b1 = CbClosed then
           b1\<lparr>cb_failureCount := max 0 (cb_failureCount b1 - 1)\<rparr>
         else b1)"

definition onFailure :: "int \<Rightarrow> circuit_breaker \<Rightarrow> circuit_breaker" where
  "onFailure now b =
     (let b1 = b\<lparr>cb_lastFailureTime := Some now, cb_totalFailures := cb_totalFailures b + 1,
                 cb_halfOpenRequests := 0\<rparr>
      in if cb_state b1 = CbHalfOpen then transitionTo now CbOpen b1
         else
           let b2 = b1\<lparr>cb_failureCount := cb_failureCount b1 + 1\<rparr>
           in if cb_state b2 = CbClosed \<and> cb_failureCount b2 \<ge> cb_failureThreshold b2
              then transitionTo now CbOpen b2 else b2)"

definition onTimeout :: "int \<Rightarrow> circuit_breaker \<Rightarrow> circuit_breaker" where
  "onTimeout now b = onFailure now (b\<lparr>cb_totalTimeouts := cb_totalTimeouts b + 1\<rparr>)"

text \<open>The callback of the monitor's setInterval.\<close>

definition monitor_tick :: "int \<Rightarrow> circuit_breaker \<Rightarrow> circuit_breaker" where
  "monitor_tick now b =
     (if cb_state b = CbOpen \<and> shouldAttemptReset now b then transitionTo now CbHalfOpen b else b)"

text \<open>execute up to the call of the protected function: \<open>Some\<close> error means it throws and the
  function is never called.\<close>

definition execute_begin :: "int \<Rightarrow> circuit_breaker \<Rightarrow> js_exn option \<times> circuit_breaker" where
  "execute_begin now b =
     (if cb_state b = CbOpen then
        if shouldAttemptReset now b then (None, transitionTo now CbHalfOpen b)
        else (Some (JsNamedError ''CircuitBreakerOpenError''
                (''Circuit breaker is open for '' @ show_int (cb_timeoutMs b) @ ''ms'')),
              b\<lparr>cb_totalShortCircuits := cb_totalShortCircuits b + 1\<rparr>)
      else (None, b))"

text \<open>A whole execute with nothing in between: it starts at \<open>now\<close>, the protected function
  settles with \<open>outcome\<close> at \<open>later\<close>.\<close>

definition execute ::
    "int \<Rightarrow> int \<Rightarrow> 'a result \<Rightarrow> circuit_breaker \<Rightarrow> 'a result \<times> circuit_breaker" where
  "execute now later outcome b =
     (case execute_begin now b of
        (Some e, b') \<Rightarrow> (Inl e, b')
      | (None, b') \<Rightarrow>
          (case outcome of
             Inr r \<Rightarrow> (Inr r, onSuccess later b')
           | Inl e \<Rightarrow> (Inl e, onFailure later b')))"

record circuit_breaker_stats =
  cs_state :: circuit_state
  cs_failureCount :: int
  cs_successCount :: int
  cs_lastFailureTime :: "int option"
  cs_lastSuccessTime :: "int option"
  cs_openedAt :: "int option"
  cs_halfOpenAt :: "int option"
  cs_totalFailures :: int
  cs_totalSuccesses :: int
  cs_totalTimeouts :: int
  cs_totalShortCircuits :: int

definition getStats_breaker :: "circuit_breaker \<Rightarrow> circuit_breaker_stats" where
  "getStats_breaker b =
     \<lparr>cs_state = cb_state b, cs_failureCount = cb_failureCount b,
      cs_successCount = cb_successCount b, cs_lastFailureTime = cb_lastFailureTime b,
      cs_lastSuccessTime = cb_lastSuccessTime b, cs_openedAt = cb_openedAt b,
      cs_halfOpenAt = cb_halfOpenAt b, cs_totalFailures = cb_totalFailures b,
      cs_totalSuccesses = cb_totalSuccesses b, cs_totalTimeouts = cb_totalTimeouts b,
      cs_totalShortCircuits = cb_totalShortCircuits b\<rparr>"

definition onStateChangeHandler :: "circuit_breaker \<Rightarrow> circuit_breaker" where
  "onStateChangeHandler b = b\<lparr>cb_handler := True\<rparr>"

definition destroy_breaker :: "circuit_breaker \<Rightarrow> circuit_breaker" where
  "destroy_breaker b = stopMonitor b"

text \<open>The convenience function circuitBreaker: a new breaker for one call.\<close>

definition circuitBreaker_call :: "int \<Rightarrow> int \<Rightarrow> 'a result \<Rightarrow> circuit_breaker_options \<Rightarrow> 'a result" where
  "circuitBreaker_call now later outcome options = fst (execute now later outcome (new_breaker options))"

subsection \<open>All interleavings\<close>

datatype breaker_event =
    CallBegins | CallSucceeds | CallFails | CallTimesOut | MonitorTicks | HandlerSet | Destroyed

fun breaker_step :: "int \<times> breaker_event \<Rightarrow> circuit_breaker \<Rightarrow> circuit_breaker" where
  "breaker_step (now, CallBegins) b = snd (execute_begin now b)"
| "breaker_step (now, CallSucceeds) b = onSuccess now b"
| "breaker_step (now, CallFails) b = onFailure now b"
| "breaker_step (now, CallTimesOut) b = onTimeout now b"
| "breaker_step (now, MonitorTicks) b = (if cb_monitorTimer b then monitor_tick now b else b)"
| "breaker_step (now, HandlerSet) b = onStateChangeHandler b"
| "breaker_step (now, Destroyed) b = destroy_breaker b"

text \<open>The invariant: what each state says about the counters and the stamps.\<close>

definition breaker_inv :: "circuit_breaker \<Rightarrow> bool" where
  "breaker_inv b \<longleftrightarrow>
     0 \<le> cb_failureCount b \<and> 0 \<le> cb_successCount b \<and>
     (cb_state b = CbClosed \<longrightarrow>
        cb_failureCount b < max 1 (cb_failureThreshold b) \<and> cb_openedAt b = None \<and>
        cb_halfOpenAt b = None \<and> cb_successCount b = 0) \<and>
     (cb_state b = CbOpen \<longrightarrow>
        cb_openedAt b \<noteq> None \<and> cb_halfOpenAt b = None \<and> cb_successCount b = 0) \<and>
     (cb_state b = CbHalfOpen \<longrightarrow>
        cb_successCount b < max 1 (cb_successThreshold b) \<and> cb_openedAt b \<noteq> None \<and>
        cb_halfOpenAt b \<noteq> None \<and> cb_failureCount b = 0) \<and>
     (cb_monitorTimer b \<longrightarrow> cb_state b = CbOpen \<and> 0 < cb_monitorIntervalMs b)"

lemmas breaker_ops =
  notify_change_def stopMonitor_def startMonitor_def transitionTo_def reset_breaker_def

lemma new_breaker_inv: "breaker_inv (new_breaker options)"
  by (simp add: breaker_inv_def new_breaker_def)

lemma transitionTo_open_inv:
  "(cb_monitorTimer b \<longrightarrow> 0 < cb_monitorIntervalMs b) \<Longrightarrow> breaker_inv (transitionTo now CbOpen b)"
  by (auto simp: breaker_inv_def breaker_ops Let_def)

lemma transitionTo_half_open_inv:
  "cb_openedAt b \<noteq> None \<Longrightarrow> breaker_inv (transitionTo now CbHalfOpen b)"
  by (auto simp: breaker_inv_def breaker_ops Let_def)

lemma reset_breaker_inv: "breaker_inv (reset_breaker b)"
  by (auto simp: breaker_inv_def breaker_ops Let_def)

lemma breaker_inv_timer: "breaker_inv b \<Longrightarrow> cb_monitorTimer b \<longrightarrow> 0 < cb_monitorIntervalMs b"
  by (simp add: breaker_inv_def)

lemma onSuccess_inv: "breaker_inv b \<Longrightarrow> breaker_inv (onSuccess now b)"
  by (cases "cb_state b") (auto simp: onSuccess_def Let_def reset_breaker_inv, auto simp: breaker_inv_def)

lemma onFailure_inv: "breaker_inv b \<Longrightarrow> breaker_inv (onFailure now b)"
  using breaker_inv_timer [of b]
  by (cases "cb_state b")
    (auto simp: onFailure_def Let_def transitionTo_open_inv, auto simp: breaker_inv_def)

lemma onTimeout_inv: "breaker_inv b \<Longrightarrow> breaker_inv (onTimeout now b)"
  unfolding onTimeout_def by (rule onFailure_inv) (simp add: breaker_inv_def)

lemma shouldAttemptReset_openedAt: "shouldAttemptReset now b \<Longrightarrow> cb_openedAt b \<noteq> None"
  by (auto simp: shouldAttemptReset_def split: option.splits)

lemma execute_begin_inv: "breaker_inv b \<Longrightarrow> breaker_inv (snd (execute_begin now b))"
  using shouldAttemptReset_openedAt [of now b]
  by (auto simp: execute_begin_def transitionTo_half_open_inv) (auto simp: breaker_inv_def)

lemma monitor_tick_inv: "breaker_inv b \<Longrightarrow> breaker_inv (monitor_tick now b)"
  using shouldAttemptReset_openedAt [of now b]
  by (auto simp: monitor_tick_def transitionTo_half_open_inv)

lemma breaker_step_inv: "breaker_inv b \<Longrightarrow> breaker_inv (breaker_step (now, e) b)"
  by (cases e)
    (auto simp: execute_begin_inv onSuccess_inv onFailure_inv onTimeout_inv monitor_tick_inv,
     auto simp: breaker_inv_def onStateChangeHandler_def destroy_breaker_def stopMonitor_def)

text \<open>The totals only grow: together they rank the states of the machine.\<close>

definition breaker_total :: "circuit_breaker \<Rightarrow> int" where
  "breaker_total b =
     cb_totalFailures b + cb_totalSuccesses b + cb_totalTimeouts b + cb_totalShortCircuits b"

lemma breaker_step_total: "breaker_total b \<le> breaker_total (breaker_step (now, e) b)"
  by (cases e)
    (auto simp: breaker_total_def execute_begin_def onSuccess_def onFailure_def onTimeout_def
      monitor_tick_def breaker_ops Let_def onStateChangeHandler_def destroy_breaker_def)

interpretation breaker: monotone_machine breaker_step "\<lambda>_ _. True" breaker_inv breaker_total
  by unfold_locales (auto intro: breaker_step_inv breaker_step_total)

subsection \<open>Runs\<close>

text \<open>Calls made one after the other, each with its start, its end and its outcome.\<close>

fun execute_all ::
    "(int \<times> int \<times> 'a result) list \<Rightarrow> circuit_breaker \<Rightarrow> 'a result list \<times> circuit_breaker" where
  "execute_all [] b = ([], b)"
| "execute_all ((now, later, outcome) # calls) b =
     (let (r, b') = execute now later outcome b; (rs, b'') = execute_all calls b' in (r # rs, b''))"

definition same_options :: "circuit_breaker \<Rightarrow> circuit_breaker \<Rightarrow> bool" where
  "same_options b b' \<longleftrightarrow>
     cb_failureThreshold b' = cb_failureThreshold b \<and> cb_successThreshold b' = cb_successThreshold b \<and>
     cb_timeoutMs b' = cb_timeoutMs b \<and> cb_monitorIntervalMs b' = cb_monitorIntervalMs b"

lemma breaker_step_options: "same_options b (breaker_step (now, e) b)"
  by (cases e)
    (auto simp: same_options_def execute_begin_def onSuccess_def onFailure_def onTimeout_def
      monitor_tick_def breaker_ops Let_def onStateChangeHandler_def destroy_breaker_def)

lemma breaker_run_options: "same_options b (run_events breaker_step es b)"
proof (induction es arbitrary: b)
  case Nil
  then show ?case by (simp add: same_options_def)
next
  case (Cons e es)
  with breaker_step_options [of b "fst e" "snd e"] Cons.IH [of "breaker_step e b"]
  show ?case by (simp add: same_options_def)
qed


definition demo_options :: circuit_breaker_options where
  "demo_options =
     \<lparr>opt_failureThreshold = 2, opt_successThreshold = 2, opt_timeoutMs = 100,
      opt_halfOpenMaxRequests = None, opt_monitorIntervalMs = Some 10\<rparr>"


text \<open>Fail fast: while the breaker is open and its timeout has not passed, no protected
  function runs; every call is refused with a CircuitBreakerOpenError whatever it would have
  returned, and only the short-circuit counter moves.\<close>

theorem open_breaker_refuses:
  assumes "cb_state b = CbOpen" and "cb_openedAt b = Some t"
    and "\<forall>(now, later, outcome) \<in> set calls. now < t + cb_timeoutMs b"
  shows "\<exists>msg. execute_all calls b =
     (replicate (length calls) (Inl (JsNamedError ''CircuitBreakerOpenError'' msg)),
      b\<lparr>cb_totalShortCircuits := cb_totalShortCircuits b + int (length calls)\<rparr>)"
proof -
  define msg where "msg = ''Circuit breaker is open for '' @ show_int (cb_timeoutMs b) @ ''ms''"
  let ?b = "\<lambda>k. b\<lparr>cb_totalShortCircuits := cb_totalShortCircuits b + k\<rparr>"
  have one: "execute now later outcome (?b k) =
      (Inl (JsNamedError ''CircuitBreakerOpenError'' msg), ?b (k + 1))"
    if "now < t + cb_timeoutMs b" for now later and outcome :: "'a result" and k
    using that assms(1,2) by (simp add: execute_def execute_begin_def shouldAttemptReset_def msg_def)
  have "execute_all calls (?b k) =
      (replicate (length calls) (Inl (JsNamedError ''CircuitBreakerOpenError'' msg)),
       ?b (k + int (length calls)))" for k
    using assms(3)
  proof (induction calls arbitrary: k)
    case Nil
    then show ?case by simp
  next
    case (Cons c calls)
    obtain now later outcome where c: "c = (now, later, outcome)" by (cases c)
    with Cons.prems have "now < t + cb_timeoutMs b" by simp
    from one [OF this, of later outcome k] Cons.IH [of "k + 1"] Cons.prems show ?case
      by (simp add: c add.assoc)
  qed
  from this [of 0] show ?thesis by auto
qed

definition opened_demo :: circuit_breaker where
  "opened_demo = transitionTo 50 CbOpen (new_breaker demo_options)"

theorem open_breaker_refuses_witness:
  "\<exists>msg. fst (execute_all [(60, 61, Inr (5::int)), (149, 150, Inr 6)] opened_demo) =
     replicate 2 (Inl (JsNamedError ''CircuitBreakerOpenError'' msg))"
proof -
  have 1: "cb_state opened_demo = CbOpen" and 2: "cb_openedAt opened_demo = Some 50"
    and 3: "\<forall>(now, later, outcome) \<in> set [(60, 61, Inr (5::int)), (149, 150::int, Inr 6 :: int result)].
       now < 50 + cb_timeoutMs opened_demo"
    by (simp_all add: opened_demo_def breaker_ops new_breaker_def demo_options_def Let_def)
  from open_breaker_refuses [OF 1 2 3] show ?thesis by (auto simp: numeral_2_eq_2)
qed

lemma onFailure_closed:
  assumes "cb_state b = CbClosed"
  shows "cb_failureCount b + 1 < cb_failureThreshold b \<Longrightarrow>
           cb_state (onFailure now b) = CbClosed \<and> cb_failureCount (onFailure now b) = cb_failureCount b + 1 \<and>
           cb_failureThreshold (onFailure now b) = cb_failureThreshold b"
    and "cb_failureThreshold b \<le> cb_failureCount b + 1 \<Longrightarrow>
           cb_state (onFailure now b) = CbOpen \<and> cb_openedAt (onFailure now b) = Some now"
  using assms by (auto simp: onFailure_def breaker_ops Let_def)



text \<open>Successes of a half-open breaker.\<close>

lemma onSuccess_half_open:
  assumes "cb_state b = CbHalfOpen"
  shows "cb_successCount b + 1 < cb_successThreshold b \<Longrightarrow>
           cb_state (onSuccess now b) = CbHalfOpen \<and> cb_successCount (onSuccess now b) = cb_successCount b + 1 \<and>
           cb_successThreshold (onSuccess now b) = cb_successThreshold b"
    and "cb_successThreshold b \<le> cb_successCount b + 1 \<Longrightarrow>
           cb_state (onSuccess now b) = CbClosed \<and> cb_failureCount (onSuccess now b) = 0 \<and>
           cb_openedAt (onSuccess now b) = None"
  using assms by (auto simp: onSuccess_def breaker_ops Let_def)

lemma half_open_run:
  assumes "\<forall>(now, later, outcome) \<in> set calls. \<exists>r. outcome = Inr r"
    and "cb_state b = CbHalfOpen" and "0 \<le> cb_successCount b"
  shows "(cb_successCount b + int (length calls) < cb_successThreshold b \<longrightarrow>
            cb_state (snd (execute_all calls b)) = CbHalfOpen) \<and>
         (calls \<noteq> [] \<longrightarrow> cb_successCount b + int (length calls) = max 1 (cb_successThreshold b) \<longrightarrow>
            cb_state (snd (execute_all calls b)) = CbClosed \<and>
            cb_failureCount (snd (execute_all calls b)) = 0 \<and>
            cb_openedAt (snd (execute_all calls b)) = None)"
  using assms
proof (induction calls arbitrary: b)
  case Nil
  then show ?case by simp
next
  case (Cons c calls)
  obtain now later r where c: "c = (now, later, Inr r)"
    using Cons.prems by (cases c) auto
  have ex: "snd (execute_all (c # calls) b) = snd (execute_all calls (onSuccess later b))"
    using Cons.prems(2) by (simp add: c execute_def execute_begin_def case_prod_beta Let_def)
  show ?case
  proof (cases "cb_successCount b + 1 < cb_successThreshold b")
    case True
    with onSuccess_half_open(1) [OF Cons.prems(2)] Cons.IH [of "onSuccess later b"] Cons.prems
    show ?thesis by (auto simp: ex algebra_simps)
  next
    case False
    then have 1: "\<not> cb_successCount b + (1 + n) < cb_successThreshold b"
      and 2: "0 < n \<Longrightarrow> cb_successCount b + (1 + n) \<noteq> max 1 (cb_successThreshold b)" if "0 \<le> n" for n
      using that Cons.prems(3) by auto
    show ?thesis
    proof (cases calls)
      case Nil
      with onSuccess_half_open(2) [OF Cons.prems(2)] False ex show ?thesis by simp
    next
      case (Cons d ds)
      then have "0 < int (length calls)" by simp
      with 1 [of "int (length calls)"] 2 [of "int (length calls)"] show ?thesis by simp
    qed
  qed
qed

text \<open>C24: Recovery: once the timeout of an open breaker has passed, the next call runs in the
  half-open state, the breaker stays half-open through fewer than the success threshold of
  consecutive successes, and closes with a clean record exactly at the threshold-th.\<close>

theorem breaker_recovers:
  assumes "cb_state b = CbOpen" and "cb_openedAt b = Some t" and "t \<noteq> 0"
    and "t + cb_timeoutMs b \<le> fst (hd calls)" and "calls \<noteq> []"
    and "\<forall>(now, later, outcome) \<in> set calls. \<exists>r. outcome = Inr r"
  shows "(int (length calls) < cb_successThreshold b \<longrightarrow>
            cb_state (snd (execute_all calls b)) = CbHalfOpen) \<and>
         (int (length calls) = max 1 (cb_successThreshold b) \<longrightarrow>
            cb_state (snd (execute_all calls b)) = CbClosed \<and>
            cb_failureCount (snd (execute_all calls b)) = 0 \<and>
            cb_openedAt (snd (execute_all calls b)) = None)"
proof -
  from assms(5) obtain now later outcome rest where calls: "calls = (now, later, outcome) # rest"
    by (cases calls) auto
  let ?h = "transitionTo now CbHalfOpen b"
  have h: "cb_state ?h = CbHalfOpen" "cb_successCount ?h = 0" "cb_successThreshold ?h = cb_successThreshold b"
    by (auto simp: breaker_ops Let_def)
  have "shouldAttemptReset now b"
    using assms(2,3,4) by (simp add: shouldAttemptReset_def calls)
  then have "execute now later outcome b = execute now later outcome ?h"
    using assms(1) h(1) by (simp add: execute_def execute_begin_def)
  then have "execute_all calls b = execute_all calls ?h" by (simp add: calls)
  with half_open_run [OF assms(6) h(1)] h(2,3) assms(5) show ?thesis by simp
qed

theorem breaker_recovers_witness:
  "cb_state (snd (execute_all [(150, 151, Inr (1::int)), (152, 153, Inr 2)] opened_demo)) = CbClosed"
proof -
  let ?calls = "[(150, 151, Inr 1), (152, 153, Inr 2)] :: (int \<times> int \<times> int result) list"
  have 1: "cb_state opened_demo = CbOpen" and 2: "cb_openedAt opened_demo = Some 50"
    and 3: "(50::int) \<noteq> 0" and 4: "50 + cb_timeoutMs opened_demo \<le> fst (hd ?calls)" and 5: "?calls \<noteq> []"
    and 6: "\<forall>(now, later, outcome) \<in> set ?calls. \<exists>r. outcome = Inr r"
    and s: "cb_successThreshold opened_demo = 2"
    by (simp_all add: opened_demo_def breaker_ops new_breaker_def demo_options_def Let_def)
  from breaker_recovers [OF 1 2 3 4 5 6] s show ?thesis by simp
qed

text \<open>A half-open breaker admits any number of simultaneous trial calls: however many calls
  begin before one settles, none is refused and the record does not change, whatever
  halfOpenMaxRequests was configured.\<close>

theorem half_open_admits_everything:
  assumes "cb_state b = CbHalfOpen"
  shows "(\<forall>now. execute_begin now b = (None, b)) \<and>
     run_events breaker_step (map (\<lambda>now. (now, CallBegins)) ts) b = b"
proof -
  have "execute_begin now b = (None, b)" for now using assms by (simp add: execute_begin_def)
  moreover from this have "run_events breaker_step (map (\<lambda>now. (now, CallBegins)) ts) b = b"
    by (induction ts) auto
  ultimately show ?thesis by blast
qed

theorem half_open_admits_everything_witness:
  "run_events breaker_step (map (\<lambda>now. (now, CallBegins)) [160, 161, 162]) (transitionTo 155 CbHalfOpen opened_demo) =
     transitionTo 155 CbHalfOpen opened_demo"
proof -
  have "cb_state (transitionTo 155 CbHalfOpen opened_demo) = CbHalfOpen"
    by (auto simp: breaker_ops Let_def)
  from half_open_admits_everything [OF this] show ?thesis by blast
qed

end
