(* ===== verification/RetryPolicy.thy ===== *)
theory RetryPolicy
  imports Prelude
begin

section \<open>Retry policies and backoff\<close>

text \<open>
  packages/core/src/retry/retry_policy.ts and backoff.ts. Delays of a policy are integers.
  The jittered delays of backoff.ts are rationals before they are rounded: a JavaScript
  number is read as the rational it denotes (no rounding in between), Math.random is an
  argument, and Math.round is the floor of x + 1/2.
\<close>

subsection \<open>RetryPolicy\<close>

datatype retry_mode = RmFixed | RmExponential | RmLinear | RmImmediate

text \<open>A partial configuration: a missing or undefined field is \<open>None\<close>.\<close>

record retry_policy_config =
  rc_maxRetries :: "int option"
  rc_mode :: "retry_mode option"
  rc_baseDelayMs :: "int option"
  rc_maxDelayMs :: "int option"
  rc_timeoutMs :: "int option"
  rc_retryableStatusCodes :: "int list option"
  rc_retryableErrorCodes :: "string list option"
  rc_jitter :: "bool option"
  rc_jitterFactor :: "rat option"

record retry_policy =
  rp_maxRetries :: int
  rp_mode :: retry_mode
  rp_baseDelayMs :: int
  rp_maxDelayMs :: int
  rp_timeoutMs :: "int option"
  rp_retryableStatusCodes :: "int list"
  rp_retryableErrorCodes :: "string list"
  rp_jitter :: bool
  rp_jitterFactor :: rat

text \<open>\<open>new Set(list)\<close> in iteration order: the first occurrence of each element.\<close>

fun js_set_of :: "'a list \<Rightarrow> 'a list \<Rightarrow> 'a list" where
  "js_set_of acc [] = acc"
| "js_set_of acc (x # xs) = js_set_of (if x \<in> set acc then acc else acc @ [x]) xs"

definition new_retry_policy :: "retry_policy_config \<Rightarrow> retry_policy" where
  "new_retry_policy config =
     \<lparr>rp_maxRetries = or_default (rc_maxRetries config) 3,
      rp_mode = or_default (rc_mode config) RmExponential,
      rp_baseDelayMs = or_default (rc_baseDelayMs config) 1000,
      rp_maxDelayMs = or_default (rc_maxDelayMs config) 30000,
      rp_timeoutMs = rc_timeoutMs config,
      rp_retryableStatusCodes =
        js_set_of [] (or_default (rc_retryableStatusCodes config) [408, 429, 500, 502, 503, 504]),
      rp_retryableErrorCodes = js_set_of [] (or_default (rc_retryableErrorCodes config) []),
      rp_jitter = or_default (rc_jitter config) True,
      rp_jitterFactor = or_default (rc_jitterFactor config) (1 / 10)\<rparr>"

definition getDelay :: "retry_policy \<Rightarrow> nat \<Rightarrow> int" where
  "getDelay p attempt =
     (if rp_mode p = RmImmediate then 0
      else if rp_mode p = RmFixed then rp_baseDelayMs p
      else
        let delay = (if rp_mode p = RmLinear then rp_baseDelayMs p * (int attempt + 1)
                     else rp_baseDelayMs p * 2 ^ attempt)
        in min delay (rp_maxDelayMs p))"

definition shouldRetry :: "retry_policy \<Rightarrow> int \<Rightarrow> int option \<Rightarrow> string option \<Rightarrow> bool" where
  "shouldRetry p attempt statusCode errorCode =
     (if attempt \<ge> rp_maxRetries p then False
      else if (case statusCode of None \<Rightarrow> False | Some c \<Rightarrow> c \<notin> set (rp_retryableStatusCodes p))
      then False
      else if (case errorCode of None \<Rightarrow> False
               | Some c \<Rightarrow> 0 < length (rp_retryableErrorCodes p) \<and> c \<notin> set (rp_retryableErrorCodes p))
      then False
      else True)"

definition getTotalTimeoutMs :: "retry_policy \<Rightarrow> int" where
  "getTotalTimeoutMs p =
     (case rp_timeoutMs p of
        Some t \<Rightarrow> t
      | None \<Rightarrow> foldl (\<lambda>total i. total + getDelay p i) 0 [0..<nat (rp_maxRetries p)])"

text \<open>The overrides of withConfig: an absent key is \<open>None\<close>; a key that is present, even with
  the value undefined, replaces the policy's own value.\<close>

record retry_overrides =
  ro_maxRetries :: "int option option"
  ro_mode :: "retry_mode option option"
  ro_baseDelayMs :: "int option option"
  ro_maxDelayMs :: "int option option"
  ro_timeoutMs :: "int option option"
  ro_retryableStatusCodes :: "int list option option"
  ro_retryableErrorCodes :: "string list option option"
  ro_jitter :: "bool option option"
  ro_jitterFactor :: "rat option option"

definition no_overrides :: retry_overrides where
  "no_overrides =
     \<lparr>ro_maxRetries = None, ro_mode = None, ro_baseDelayMs = None, ro_maxDelayMs = None,
      ro_timeoutMs = None, ro_retryableStatusCodes = None, ro_retryableErrorCodes = None,
      ro_jitter = None, ro_jitterFactor = None\<rparr>"

definition withConfig :: "retry_overrides \<Rightarrow> retry_policy \<Rightarrow> retry_policy" where
  "withConfig ov p =
     new_retry_policy
       \<lparr>rc_maxRetries = assign_key (ro_maxRetries ov) (Some (rp_maxRetries p)),
        rc_mode = assign_key (ro_mode ov) (Some (rp_mode p)),
        rc_baseDelayMs = assign_key (ro_baseDelayMs ov) (Some (rp_baseDelayMs p)),
        rc_maxDelayMs = assign_key (ro_maxDelayMs ov) (Some (rp_maxDelayMs p)),
        rc_timeoutMs = assign_key (ro_timeoutMs ov) (rp_timeoutMs p),
        rc_retryableStatusCodes =
          assign_key (ro_retryableStatusCodes ov) (Some (rp_retryableStatusCodes p)),
        rc_retryableErrorCodes =
          assign_key (ro_retryableErrorCodes ov) (Some (rp_retryableErrorCodes p)),
        rc_jitter = assign_key (ro_jitter ov) (Some (rp_jitter p)),
        rc_jitterFactor = assign_key (ro_jitterFactor ov) (Some (rp_jitterFactor p))\<rparr>"

definition retry_defaults :: retry_policy_config where
  "retry_defaults =
     \<lparr>rc_maxRetries = Some 3, rc_mode = Some RmExponential, rc_baseDelayMs = Some 1000,
      rc_maxDelayMs = Some 30000, rc_timeoutMs = None,
      rc_retryableStatusCodes = Some [408, 429, 500, 502, 503, 504],
      rc_retryableErrorCodes = None, rc_jitter = Some True, rc_jitterFactor = Some (1 / 10)\<rparr>"

subsection \<open>Facts about policies\<close>

lemma set_js_set_of [simp]: "set (js_set_of acc xs) = set acc \<union> set xs"
  by (induction acc xs rule: js_set_of.induct) auto

lemma distinct_js_set_of: "distinct acc \<Longrightarrow> distinct (js_set_of acc xs)"
  by (induction acc xs rule: js_set_of.induct) auto

lemma js_set_of_distinct: "distinct (acc @ xs) \<Longrightarrow> js_set_of acc xs = acc @ xs"
  by (induction acc xs rule: js_set_of.induct) auto

lemma js_set_of_idem [simp]: "js_set_of [] (js_set_of [] xs) = js_set_of [] xs"
  using js_set_of_distinct [of "[]" "js_set_of [] xs"] distinct_js_set_of [of "[]" xs] by simp

lemma getDelay_le_max: "rp_mode p \<noteq> RmFixed \<Longrightarrow> 0 \<le> rp_maxDelayMs p \<Longrightarrow> getDelay p n \<le> rp_maxDelayMs p"
  by (auto simp: getDelay_def Let_def)

lemma getDelay_nonneg: "0 \<le> rp_baseDelayMs p \<Longrightarrow> 0 \<le> rp_maxDelayMs p \<Longrightarrow> 0 \<le> getDelay p n"
  by (auto simp: getDelay_def Let_def)

lemma getDelay_mono:
  assumes "0 \<le> rp_baseDelayMs p" and "m \<le> n"
  shows "getDelay p m \<le> getDelay p n"
proof -
  have "rp_baseDelayMs p * (int m + 1) \<le> rp_baseDelayMs p * (int n + 1)"
    using assms by (intro mult_left_mono) auto
  moreover have "rp_baseDelayMs p * 2 ^ m \<le> rp_baseDelayMs p * 2 ^ n"
    using assms by (intro mult_left_mono power_increasing) auto
  ultimately show ?thesis by (auto simp: getDelay_def Let_def)
qed

lemma total_is_sum:
  "rp_timeoutMs p = None \<Longrightarrow> getTotalTimeoutMs p = (\<Sum>i < nat (rp_maxRetries p). getDelay p i)"
proof -
  have "foldl (\<lambda>total i. total + getDelay p i) a [0..<n] = a + (\<Sum>i < n. getDelay p i)" for a n
    by (induction n) (auto simp: algebra_simps)
  then show "rp_timeoutMs p = None \<Longrightarrow> ?thesis" by (simp add: getTotalTimeoutMs_def)
qed

subsection \<open>Backoff\<close>

datatype backoff_strategy = BsExponential | BsLinear | BsFibonacci | BsDecorrelated

record backoff_options =
  bo_baseDelayMs :: "int option"
  bo_maxDelayMs :: "int option"
  bo_strategy :: "backoff_strategy option"
  bo_jitterFactor :: "rat option"
  bo_multiplier :: "rat option"

text \<open>The loop of fibonacci: \<open>k\<close> rounds are left.\<close>

fun fib_loop :: "nat \<Rightarrow> int \<Rightarrow> int \<Rightarrow> int" where
  "fib_loop 0 a b = b"
| "fib_loop (Suc k) a b = fib_loop k b (a + b)"

definition fibonacci :: "nat \<Rightarrow> int" where
  "fibonacci n = (if n \<le> 1 then int n else fib_loop (n - 1) 0 1)"

definition js_round :: "rat \<Rightarrow> int" where
  "js_round x = \<lfloor>x + 1 / 2\<rfloor>"

text \<open>\<open>r1\<close> is the value Math.random gives to the decorrelated strategy, \<open>r2\<close> the one it gives
  to the jitter.\<close>

definition computeBackoff :: "nat \<Rightarrow> backoff_options \<Rightarrow> rat \<Rightarrow> rat \<Rightarrow> int" where
  "computeBackoff attempt options r1 r2 =
     (let baseDelayMs = of_int (or_default (bo_baseDelayMs options) 1000) :: rat;
          maxDelayMs = of_int (or_default (bo_maxDelayMs options) 30000);
          strategy = or_default (bo_strategy options) BsExponential;
          jitterFactor = or_default (bo_jitterFactor options) (1 / 10);
          multiplier = or_default (bo_multiplier options) 2;
          delay = (case strategy of
              BsLinear \<Rightarrow> baseDelayMs * (of_nat attempt + 1)
            | BsFibonacci \<Rightarrow> baseDelayMs * of_int (fibonacci (attempt + 1))
            | BsDecorrelated \<Rightarrow>
                let cap = min (baseDelayMs * multiplier ^ attempt) maxDelayMs
                in (baseDelayMs + r1 * (cap - baseDelayMs)) * multiplier
            | BsExponential \<Rightarrow> baseDelayMs * multiplier ^ attempt);
          delay1 = min delay maxDelayMs;
          delay2 = (if jitterFactor > 0
                    then let jitterRange = delay1 * jitterFactor
                         in max 0 (min (delay1 + (r2 * 2 - 1) * jitterRange) maxDelayMs)
                    else delay1)
      in js_round delay2)"

definition fullJitter :: "rat \<Rightarrow> rat \<Rightarrow> int" where
  "fullJitter delay r = js_round (r * delay)"

definition equalJitter :: "rat \<Rightarrow> rat \<Rightarrow> int" where
  "equalJitter delay r = (let half = delay / 2 in js_round (half + r * half))"

definition decorrelatedJitter :: "rat \<Rightarrow> rat \<Rightarrow> rat \<Rightarrow> rat \<Rightarrow> int" where
  "decorrelatedJitter baseDelay previousDelay maxDelay r =
     (let mn = baseDelay; mx = min (previousDelay * 3) maxDelay
      in js_round (mn + r * (mx - mn)))"

lemma js_round_of_int [simp]: "js_round (of_int n) = n"
proof -
  have "\<lfloor>of_int n + 1 / 2 :: rat\<rfloor> = n" by (rule floor_unique) auto
  then show ?thesis by (simp add: js_round_def)
qed

lemma js_round_mono: "x \<le> y \<Longrightarrow> js_round x \<le> js_round y"
  unfolding js_round_def by (rule floor_mono) simp

text \<open>The Fibonacci numbers themselves, as the specification of the loop.\<close>

fun fib :: "nat \<Rightarrow> int" where
  "fib 0 = 0"
| "fib (Suc 0) = 1"
| "fib (Suc (Suc n)) = fib n + fib (Suc n)"

lemma fib_loop_fib: "fib_loop k (fib m) (fib (Suc m)) = fib (Suc m + k)"
proof (induction k arbitrary: m)
  case 0
  then show ?case by simp
next
  case (Suc k)
  from Suc.IH [of "Suc m"] show ?case by simp
qed

lemma fibonacci_fib: "fibonacci n = fib n"
proof (cases "n \<le> 1")
  case True
  then have "n = 0 \<or> n = 1" by auto
  then show ?thesis by (auto simp: fibonacci_def)
next
  case False
  with fib_loop_fib [of "n - 1" 0] show ?thesis by (simp add: fibonacci_def)
qed

lemma fib_nonneg: "0 \<le> fib n"
  by (induction n rule: fib.induct) auto

text \<open>A point between two bounds: the shape of every jitter.\<close>

lemma between:
  fixes a b r :: rat
  assumes "0 \<le> r" "r \<le> 1"
  shows "min a b \<le> a + r * (b - a)" and "a + r * (b - a) \<le> max a b"
proof -
  have "a + r * (b - a) = (1 - r) * a + r * b" by (simp add: algebra_simps)
  moreover have "(1 - r) * min a b + r * min a b \<le> (1 - r) * a + r * b"
    using assms by (intro add_mono mult_left_mono) auto
  moreover have "(1 - r) * a + r * b \<le> (1 - r) * max a b + r * max a b"
    using assms by (intro add_mono mult_left_mono) auto
  ultimately show "min a b \<le> a + r * (b - a)" and "a + r * (b - a) \<le> max a b"
    by (simp_all add: algebra_simps)
qed

subsection \<open>Properties\<close>

text \<open>withConfig with no overrides rebuilds an equal policy, for every policy the
  constructor can build: the sets of status and error codes survive the round through
  arrays.\<close>

theorem withConfig_identity:
  "withConfig no_overrides (new_retry_policy config) = new_retry_policy config"
  by (simp add: withConfig_def no_overrides_def new_retry_policy_def)

text \<open>Outside the fixed mode the delays of a policy never decrease and never exceed
  maxDelayMs, so the total over all retries is at most maxRetries times maxDelayMs, and
  never negative.\<close>

theorem policy_delays_bounded:
  assumes "rp_mode p \<noteq> RmFixed" and "0 \<le> rp_baseDelayMs p" and "0 \<le> rp_maxDelayMs p"
    and "rp_timeoutMs p = None" and "0 \<le> rp_maxRetries p"
  shows "(\<forall>m n. m \<le> n \<longrightarrow> getDelay p m \<le> getDelay p n) \<and>
     (\<forall>n. 0 \<le> getDelay p n \<and> getDelay p n \<le> rp_maxDelayMs p) \<and>
     0 \<le> getTotalTimeoutMs p \<and> getTotalTimeoutMs p \<le> rp_maxRetries p * rp_maxDelayMs p"
proof -
  have "(\<Sum>i < nat (rp_maxRetries p). getDelay p i) \<le> of_nat (card {..<nat (rp_maxRetries p)}) * rp_maxDelayMs p"
    using assms(1,3) by (intro sum_bounded_above getDelay_le_max)
  moreover have "0 \<le> (\<Sum>i < nat (rp_maxRetries p). getDelay p i)"
    using assms(2,3) by (intro sum_nonneg getDelay_nonneg)
  ultimately show ?thesis
    using assms getDelay_mono getDelay_nonneg getDelay_le_max by (simp add: total_is_sum)
qed

theorem policy_delays_bounded_witness:
  "getTotalTimeoutMs (new_retry_policy retry_defaults) \<le> 3 * 30000"
proof -
  let ?p = "new_retry_policy retry_defaults"
  have "rp_mode ?p \<noteq> RmFixed" "0 \<le> rp_baseDelayMs ?p" "0 \<le> rp_maxDelayMs ?p"
    "rp_timeoutMs ?p = None" "0 \<le> rp_maxRetries ?p"
    by (simp_all add: new_retry_policy_def retry_defaults_def)
  from policy_delays_bounded [OF this] show ?thesis
    by (simp add: new_retry_policy_def retry_defaults_def)
qed

text \<open>The iterative fibonacci of the backoff computes the Fibonacci numbers.\<close>

theorem fibonacci_is_fib:
  "fibonacci 0 = 0 \<and> fibonacci 1 = 1 \<and> fibonacci (n + 2) = fibonacci n + fibonacci (n + 1)"
  by (simp add: fibonacci_fib)

text \<open>Whatever the strategy and the random values, a backoff delay lies between 0 and
  maxDelayMs, for non-negative delays and multiplier.\<close>

theorem computeBackoff_bounds:
  assumes "0 \<le> or_default (bo_baseDelayMs opts) 1000" and "0 \<le> or_default (bo_maxDelayMs opts) 30000"
    and "0 \<le> or_default (bo_multiplier opts) 2" and "0 \<le> r1" "r1 < 1"
  shows "0 \<le> computeBackoff attempt opts r1 r2 \<and>
     computeBackoff attempt opts r1 r2 \<le> or_default (bo_maxDelayMs opts) 30000"
proof -
  let ?base = "of_int (or_default (bo_baseDelayMs opts) 1000) :: rat"
  let ?mult = "or_default (bo_multiplier opts) 2"
  define mx where "mx = (of_int (or_default (bo_maxDelayMs opts) 30000) :: rat)"
  define delay where "delay = (case or_default (bo_strategy opts) BsExponential of
      BsLinear \<Rightarrow> ?base * (of_nat attempt + 1)
    | BsFibonacci \<Rightarrow> ?base * of_int (fibonacci (attempt + 1))
    | BsDecorrelated \<Rightarrow> (?base + r1 * (min (?base * ?mult ^ attempt) mx - ?base)) * ?mult
    | BsExponential \<Rightarrow> ?base * ?mult ^ attempt)"
  have base: "0 \<le> ?base" and mx: "0 \<le> mx" using assms(1,2) by (simp_all add: mx_def)
  have "0 \<le> ?base + r1 * (min (?base * ?mult ^ attempt) mx - ?base)"
    using base mx assms(3)
    by (intro order_trans [OF _ between(1) [OF assms(4) less_imp_le [OF assms(5)]]]) simp
  then have "0 \<le> delay"
    using base assms(3) fib_nonneg [of "attempt + 1"]
    by (auto simp: delay_def fibonacci_fib split: backoff_strategy.splits)
  then have mid: "0 \<le> min delay mx" "min delay mx \<le> mx" using mx by auto
  define final where "final = (if or_default (bo_jitterFactor opts) (1 / 10) > 0
     then max 0 (min (min delay mx + (r2 * 2 - 1) * (min delay mx * or_default (bo_jitterFactor opts) (1 / 10))) mx)
     else min delay mx)"
  have "0 \<le> final" "final \<le> mx" using mid mx by (auto simp: final_def)
  then have "js_round 0 \<le> js_round final" "js_round final \<le> js_round mx"
    by (auto intro: js_round_mono)
  moreover have "computeBackoff attempt opts r1 r2 = js_round final"
    unfolding computeBackoff_def Let_def delay_def mx_def final_def by (rule refl)
  moreover have "js_round (0::rat) = 0" using js_round_of_int [of 0] by simp
  ultimately show ?thesis by (simp add: mx_def)
qed

definition backoff_demo :: backoff_options where
  "backoff_demo =
     \<lparr>bo_baseDelayMs = Some 100, bo_maxDelayMs = Some 1000, bo_strategy = Some BsDecorrelated,
      bo_jitterFactor = Some (1 / 4), bo_multiplier = None\<rparr>"

theorem computeBackoff_bounds_witness:
  "0 \<le> computeBackoff 3 backoff_demo (1 / 2) (3 / 4) \<and> computeBackoff 3 backoff_demo (1 / 2) (3 / 4) \<le> 1000"
proof -
  have "0 \<le> or_default (bo_baseDelayMs backoff_demo) 1000" "0 \<le> or_default (bo_maxDelayMs backoff_demo) 30000"
    "0 \<le> or_default (bo_multiplier backoff_demo) 2" "(0::rat) \<le> 1 / 2" "(1 / 2 :: rat) < 1"
    by (simp_all add: backoff_demo_def)
  from computeBackoff_bounds [OF this, of 3 "3 / 4"] show ?thesis by (simp add: backoff_demo_def)
qed

end
