(* ===== verification/RetryQueue.thy ===== *)
theory RetryQueue
  imports RetryPolicy
begin

section \<open>The retry queue\<close>

text \<open>
  packages/core/src/retry/retry_queue.ts. The queue is a record of its items, its running
  counter and its limit. The tasks are asynchronous: starting one is part of processNext, its
  settlement (\<open>settle_ok\<close>, \<open>settle_err\<close>) and the finally clause that releases its slot
  (\<open>release\<close>) are separate steps, because other calls can come between them; the ghost field
  \<open>rq_settling\<close> counts the executions between the two. A task that fails and the circuit breaker
  refusing to run it look the same to the queue: the promise rejects. The optional
  persistence is taken to be absent or to succeed; event handlers are a log and do not call
  back into the queue.
\<close>

datatype item_status = QiPending | QiRunning | QiCompleted | QiFailed | QiCancelled

record retry_queue_item =
  qi_id :: string
  qi_retryPolicy :: retry_policy
  qi_maxRetries :: int
  qi_attempt :: int
  qi_createdAt :: int
  qi_updatedAt :: int
  qi_status :: item_status
  qi_result :: "json option"
  qi_error :: "js_exn option"
  qi_priority :: int

datatype retry_queue_event =
  QeEnqueued | QeStarted | QeCompleted | QeFailed | QeCancelled | QeRetrying

record retry_queue_options =
  qo_concurrency :: "int option"
  qo_backoffStrategy :: "backoff_strategy option"

record retry_queue =
  rq_items :: "retry_queue_item list"
  rq_running :: int
  rq_concurrency :: int
  rq_backoffStrategy :: backoff_strategy
  rq_log :: "(retry_queue_event \<times> string) list"
  rq_settling :: int

definition new_retry_queue :: "retry_queue_options \<Rightarrow> retry_queue" where
  "new_retry_queue opts =
     \<lparr>rq_items = [], rq_running = 0, rq_concurrency = or_default (qo_concurrency opts) 5,
      rq_backoffStrategy = or_default (qo_backoffStrategy opts) BsExponential, rq_log = [],
      rq_settling = 0\<rparr>"

definition emit_rq :: "retry_queue_event \<Rightarrow> string \<Rightarrow> retry_queue \<Rightarrow> retry_queue" where
  "emit_rq ev i q = q\<lparr>rq_log := rq_log q @ [(ev, i)]\<rparr>"

text \<open>\<open>items.sort((a, b) => b.priority - a.priority)\<close>; Array.prototype.sort is stable.\<close>

definition sortByPriority :: "retry_queue_item list \<Rightarrow> retry_queue_item list" where
  "sortByPriority xs = sort_key (\<lambda>i. - qi_priority i) xs"

definition is_pending :: "retry_queue_item \<Rightarrow> bool" where
  "is_pending i \<longleftrightarrow> qi_status i = QiPending"

definition start_item :: "int \<Rightarrow> retry_queue_item \<Rightarrow> retry_queue_item" where
  "start_item now i = i\<lparr>qi_status := QiRunning, qi_updatedAt := now\<rparr>"

function processNext :: "int \<Rightarrow> retry_queue \<Rightarrow> retry_queue" where
  "processNext now q =
     (if rq_running q < rq_concurrency q then
        (case find is_pending (rq_items q) of
           None \<Rightarrow> q
         | Some item \<Rightarrow>
             processNext now
               (emit_rq QeStarted (qi_id item)
                  (q\<lparr>rq_running := rq_running q + 1,
                     rq_items := update_first is_pending (start_item now) (rq_items q)\<rparr>)))
      else q)"
  by pat_completeness auto
termination
  by (relation "measure (\<lambda>(now, q). nat (rq_concurrency q - rq_running q))")
    (auto simp: emit_rq_def)

declare processNext.simps [simp del]

text \<open>How long an execution waits before it runs the task; a retry also reports it.\<close>

definition execution_delay :: "rat \<Rightarrow> rat \<Rightarrow> retry_queue \<Rightarrow> retry_queue_item \<Rightarrow> int option" where
  "execution_delay r1 r2 q item =
     (let delay = computeBackoff (nat (qi_attempt item))
                    \<lparr>bo_baseDelayMs = Some (rp_baseDelayMs (qi_retryPolicy item)),
                     bo_maxDelayMs = Some (rp_maxDelayMs (qi_retryPolicy item)),
                     bo_strategy = Some (rq_backoffStrategy q),
                     bo_jitterFactor = Some (rp_jitterFactor (qi_retryPolicy item)),
                     bo_multiplier = None\<rparr> r1 r2
      in if qi_attempt item > 0 then Some delay else None)"

definition retry_timer :: "string \<Rightarrow> retry_queue \<Rightarrow> retry_queue" where
  "retry_timer i q = emit_rq QeRetrying i q"

definition enqueue :: "int \<Rightarrow> retry_queue_item \<Rightarrow> retry_queue \<Rightarrow> retry_queue" where
  "enqueue now item q =
     (let fullItem = item\<lparr>qi_attempt := 0, qi_createdAt := now, qi_updatedAt := now,
                          qi_status := QiPending\<rparr>
      in processNext now
           (emit_rq QeEnqueued (qi_id fullItem)
              (q\<lparr>rq_items := sortByPriority (rq_items q @ [fullItem])\<rparr>)))"

text \<open>The execution of the running item named \<open>i\<close>.\<close>

definition executing :: "string \<Rightarrow> retry_queue_item \<Rightarrow> bool" where
  "executing i x \<longleftrightarrow> qi_id x = i \<and> qi_status x = QiRunning"

definition settle_ok :: "int \<Rightarrow> string \<Rightarrow> json \<Rightarrow> retry_queue \<Rightarrow> retry_queue" where
  "settle_ok now i res q =
     (case find (executing i) (rq_items q) of
        None \<Rightarrow> q
      | Some _ \<Rightarrow>
          emit_rq QeCompleted i
            (q\<lparr>rq_items := update_first (executing i)
                 (\<lambda>x. x\<lparr>qi_status := QiCompleted, qi_result := Some res, qi_updatedAt := now\<rparr>)
                 (rq_items q),
               rq_settling := rq_settling q + 1\<rparr>))"

definition fail_item :: "int \<Rightarrow> js_exn \<Rightarrow> retry_queue_item \<Rightarrow> retry_queue_item" where
  "fail_item now err x =
     (let y = x\<lparr>qi_attempt := qi_attempt x + 1, qi_updatedAt := now\<rparr>
      in if shouldRetry (qi_retryPolicy y) (qi_attempt y) None None
         then y\<lparr>qi_status := QiPending\<rparr>
         else y\<lparr>qi_status := QiFailed, qi_error := Some err\<rparr>)"

definition settle_err :: "int \<Rightarrow> string \<Rightarrow> js_exn \<Rightarrow> retry_queue \<Rightarrow> retry_queue" where
  "settle_err now i err q =
     (case find (executing i) (rq_items q) of
        None \<Rightarrow> q
      | Some x \<Rightarrow>
          let q1 = q\<lparr>rq_items := update_first (executing i) (fail_item now err) (rq_items q),
                     rq_settling := rq_settling q + 1\<rparr>
          in if qi_status (fail_item now err x) = QiPending then processNext now q1
             else emit_rq QeFailed i q1)"

text \<open>The finally clause of an execution.\<close>

definition release :: "int \<Rightarrow> retry_queue \<Rightarrow> retry_queue" where
  "release now q =
     (if rq_settling q \<le> 0 then q
      else processNext now
             (q\<lparr>rq_running := rq_running q - 1, rq_settling := rq_settling q - 1\<rparr>))"

definition cancel_item :: "int \<Rightarrow> retry_queue_item \<Rightarrow> retry_queue_item" where
  "cancel_item now x = x\<lparr>qi_status := QiCancelled, qi_updatedAt := now\<rparr>"

definition cancel :: "int \<Rightarrow> string \<Rightarrow> retry_queue \<Rightarrow> bool \<times> retry_queue" where
  "cancel now i q =
     (case find (\<lambda>x. qi_id x = i \<and> is_pending x) (rq_items q) of
        None \<Rightarrow> (False, q)
      | Some _ \<Rightarrow>
          (True, emit_rq QeCancelled i
             (q\<lparr>rq_items := update_first (\<lambda>x. qi_id x = i \<and> is_pending x) (cancel_item now)
                              (rq_items q)\<rparr>)))"

definition cancelAll :: "int \<Rightarrow> retry_queue \<Rightarrow> retry_queue" where
  "cancelAll now q =
     q\<lparr>rq_items := map (\<lambda>x. if is_pending x then cancel_item now x else x) (rq_items q),
       rq_log := rq_log q @
         map (\<lambda>x. (QeCancelled, qi_id x)) (filter is_pending (rq_items q))\<rparr>"

definition getPendingCount :: "retry_queue \<Rightarrow> nat" where
  "getPendingCount q = length (filter is_pending (rq_items q))"

definition getRunningCount :: "retry_queue \<Rightarrow> int" where
  "getRunningCount q = rq_running q"

definition getCompletedCount :: "retry_queue \<Rightarrow> nat" where
  "getCompletedCount q = length (filter (\<lambda>i. qi_status i = QiCompleted) (rq_items q))"

definition getFailedCount :: "retry_queue \<Rightarrow> nat" where
  "getFailedCount q = length (filter (\<lambda>i. qi_status i = QiFailed) (rq_items q))"

definition clearCompleted :: "retry_queue \<Rightarrow> retry_queue" where
  "clearCompleted q =
     q\<lparr>rq_items := filter (\<lambda>i. qi_status i = QiPending \<or> qi_status i = QiRunning) (rq_items q)\<rparr>"

text \<open>recover with what persistence.load returned.\<close>

definition recover :: "int \<Rightarrow> retry_queue_item list \<Rightarrow> retry_queue \<Rightarrow> retry_queue" where
  "recover now saved q =
     (let back = map (\<lambda>x. x\<lparr>qi_attempt := 0, qi_status := QiPending, qi_updatedAt := now\<rparr>)
                   (filter (\<lambda>x. qi_status x = QiPending \<or> qi_status x = QiRunning) saved)
      in processNext now (q\<lparr>rq_items := sortByPriority (rq_items q @ back)\<rparr>))"

definition destroy_queue :: "int \<Rightarrow> retry_queue \<Rightarrow> retry_queue" where
  "destroy_queue now q = cancelAll now q"

subsection \<open>The invariant\<close>

definition running_items :: "retry_queue_item list \<Rightarrow> nat" where
  "running_items xs = length (filter (\<lambda>i. qi_status i = QiRunning) xs)"

text \<open>An item that waits or runs has failed fewer times than its policy allows, or never; so
  a task is executed at most max 1 maxRetries times.\<close>

definition attempts_ok :: "retry_queue_item \<Rightarrow> bool" where
  "attempts_ok i \<longleftrightarrow>
     0 \<le> qi_attempt i \<and> qi_attempt i \<le> max 1 (rp_maxRetries (qi_retryPolicy i)) \<and>
     (qi_status i \<in> {QiPending, QiRunning} \<longrightarrow>
        qi_attempt i = 0 \<or> qi_attempt i < rp_maxRetries (qi_retryPolicy i))"

definition by_priority :: "retry_queue_item list \<Rightarrow> bool" where
  "by_priority xs \<longleftrightarrow> sorted (map (\<lambda>i. - qi_priority i) xs)"

definition queue_inv :: "retry_queue \<Rightarrow> bool" where
  "queue_inv q \<longleftrightarrow>
     rq_running q = int (running_items (rq_items q)) + rq_settling q \<and> 0 \<le> rq_settling q \<and>
     rq_running q \<le> max 0 (rq_concurrency q) \<and>
     by_priority (rq_items q) \<and> (\<forall>i \<in> set (rq_items q). attempts_ok i)"

lemma filter_update_first:
  "find P xs = Some x \<Longrightarrow>
     length (filter R (update_first P f xs)) + (if R x then 1 else 0) =
     length (filter R xs) + (if R (f x) then 1 else 0)"
  by (induction xs) (auto split: if_splits)

lemma by_priority_update_first:
  "(\<And>x. qi_priority (f x) = qi_priority x) \<Longrightarrow> by_priority (update_first P f xs) = by_priority xs"
  by (simp add: by_priority_def map_update_first)

lemma set_update_first:
  "(\<And>x. x \<in> set xs \<Longrightarrow> P x \<Longrightarrow> Q (f x)) \<Longrightarrow> (\<forall>x \<in> set xs. Q x) \<Longrightarrow> \<forall>x \<in> set (update_first P f xs). Q x"
  by (induction xs) auto

lemma emit_rq_fields [simp]:
  "rq_items (emit_rq ev i q) = rq_items q" "rq_running (emit_rq ev i q) = rq_running q"
  "rq_concurrency (emit_rq ev i q) = rq_concurrency q" "rq_settling (emit_rq ev i q) = rq_settling q"
  by (simp_all add: emit_rq_def)

lemma queue_inv_emit [simp]: "queue_inv (emit_rq ev i q) = queue_inv q"
  by (simp add: queue_inv_def)

text \<open>Changing the first item that satisfies a test: what the invariant asks of the change.\<close>

lemma queue_inv_update_first:
  assumes inv: "queue_inv q" and f: "find P (rq_items q) = Some x"
    and pr: "\<And>y. qi_priority (f y) = qi_priority y"
    and att: "\<And>y. P y \<Longrightarrow> attempts_ok y \<Longrightarrow> attempts_ok (f y)"
    and bal: "(if qi_status (f x) = QiRunning then 1 else 0) + ds + (rq_running q - r) =
              (if qi_status x = QiRunning then 1 else 0 :: int)"
    and "0 \<le> rq_settling q + ds" and "r \<le> max 0 (rq_concurrency q)"
  shows "queue_inv (q\<lparr>rq_items := update_first P f (rq_items q), rq_running := r,
                      rq_settling := rq_settling q + ds\<rparr>)"
proof -
  have "\<forall>y \<in> set (update_first P f (rq_items q)). attempts_ok y"
    using inv att by (intro set_update_first) (auto simp: queue_inv_def)
  moreover have "running_items (update_first P f (rq_items q)) + (if qi_status x = QiRunning then 1 else 0) =
      running_items (rq_items q) + (if qi_status (f x) = QiRunning then 1 else 0)"
    unfolding running_items_def by (rule filter_update_first [OF f])
  ultimately show ?thesis
    using assms by (auto simp: queue_inv_def by_priority_update_first split: if_splits)
qed

lemma find_holds: "find P xs = Some x \<Longrightarrow> P x"
  by (auto simp: find_Some_iff)

lemma processNext_inv: "queue_inv q \<Longrightarrow> queue_inv (processNext now q)"
proof (induction now q rule: processNext.induct)
  case (1 now q)
  show ?case
  proof (cases "rq_running q < rq_concurrency q \<and> find is_pending (rq_items q) \<noteq> None")
    case False
    with 1 show ?thesis by (auto simp: processNext.simps [of now q] split: option.splits)
  next
    case True
    then obtain x where x: "find is_pending (rq_items q) = Some x" by auto
    let ?q = "q\<lparr>rq_running := rq_running q + 1,
                rq_items := update_first is_pending (start_item now) (rq_items q)\<rparr>"
    have "queue_inv (q\<lparr>rq_items := update_first is_pending (start_item now) (rq_items q),
        rq_running := rq_running q + 1, rq_settling := rq_settling q + 0\<rparr>)"
      using "1.prems" True find_holds [OF x]
      by (intro queue_inv_update_first [OF _ x])
        (auto simp: start_item_def is_pending_def attempts_ok_def queue_inv_def)
    then have "queue_inv ?q" by (simp add: queue_inv_def)
    with 1 True x show ?thesis by (simp add: processNext.simps [of now q])
  qed
qed

lemma by_priority_sort [simp]: "by_priority (sortByPriority xs)"
  by (simp add: by_priority_def sortByPriority_def)

lemma running_items_sort [simp]: "running_items (sortByPriority xs) = running_items xs"
  by (simp add: running_items_def sortByPriority_def filter_sort)

lemma running_items_append [simp]: "running_items (xs @ ys) = running_items xs + running_items ys"
  by (simp add: running_items_def)

text \<open>Adding waiting items that have not failed yet.\<close>

lemma queue_inv_add:
  assumes "queue_inv q" and "\<And>x. x \<in> set xs \<Longrightarrow> qi_status x = QiPending \<and> qi_attempt x = 0"
  shows "queue_inv (q\<lparr>rq_items := sortByPriority (rq_items q @ xs)\<rparr>)"
proof -
  have "running_items xs = 0" using assms(2) by (auto simp: running_items_def filter_empty_conv)
  moreover have "set (sortByPriority (rq_items q @ xs)) = set (rq_items q) \<union> set xs"
    by (simp add: sortByPriority_def)
  moreover have "\<forall>x \<in> set xs. attempts_ok x" using assms(2) by (auto simp: attempts_ok_def)
  ultimately show ?thesis using assms(1) by (auto simp: queue_inv_def)
qed

lemma enqueue_inv: "queue_inv q \<Longrightarrow> queue_inv (enqueue now item q)"
  unfolding enqueue_def Let_def
  by (rule processNext_inv, unfold queue_inv_emit, rule queue_inv_add) auto

lemma recover_inv: "queue_inv q \<Longrightarrow> queue_inv (recover now saved q)"
  unfolding recover_def Let_def by (intro processNext_inv queue_inv_add) auto

lemma settle_ok_inv:
  assumes "queue_inv q"
  shows "queue_inv (settle_ok now i res q)"
proof (cases "find (executing i) (rq_items q)")
  case None
  with assms show ?thesis by (simp add: settle_ok_def)
next
  case (Some x)
  have "queue_inv (q\<lparr>rq_items := update_first (executing i)
         (\<lambda>x. x\<lparr>qi_status := QiCompleted, qi_result := Some res, qi_updatedAt := now\<rparr>) (rq_items q),
       rq_running := rq_running q, rq_settling := rq_settling q + 1\<rparr>)"
    using assms find_holds [OF Some]
    by (intro queue_inv_update_first [OF _ Some]) (auto simp: executing_def attempts_ok_def queue_inv_def)
  then show ?thesis by (simp add: settle_ok_def Some)
qed

lemma fail_item_ok: "qi_status x = QiRunning \<Longrightarrow> attempts_ok x \<Longrightarrow> attempts_ok (fail_item now err x)"
  by (auto simp: fail_item_def attempts_ok_def shouldRetry_def Let_def)

lemma settle_err_inv:
  assumes "queue_inv q"
  shows "queue_inv (settle_err now i err q)"
proof (cases "find (executing i) (rq_items q)")
  case None
  with assms show ?thesis by (simp add: settle_err_def)
next
  case (Some x)
  have "qi_status (fail_item now err x) \<noteq> QiRunning" by (simp add: fail_item_def Let_def)
  then have "queue_inv (q\<lparr>rq_items := update_first (executing i) (fail_item now err) (rq_items q),
       rq_running := rq_running q, rq_settling := rq_settling q + 1\<rparr>)"
    using assms find_holds [OF Some]
    by (intro queue_inv_update_first [OF _ Some])
      (auto simp: executing_def fail_item_ok queue_inv_def, auto simp: fail_item_def Let_def)
  then show ?thesis by (simp add: settle_err_def Some Let_def processNext_inv)
qed

lemma release_inv: "queue_inv q \<Longrightarrow> queue_inv (release now q)"
  unfolding release_def by (auto intro!: processNext_inv) (auto simp: queue_inv_def)

lemma cancel_inv:
  assumes "queue_inv q"
  shows "queue_inv (snd (cancel now i q))"
proof (cases "find (\<lambda>x. qi_id x = i \<and> is_pending x) (rq_items q)")
  case None
  with assms show ?thesis by (simp add: cancel_def)
next
  case (Some x)
  have "queue_inv (q\<lparr>rq_items := update_first (\<lambda>x. qi_id x = i \<and> is_pending x) (cancel_item now) (rq_items q),
       rq_running := rq_running q, rq_settling := rq_settling q + 0\<rparr>)"
    using assms find_holds [OF Some]
    by (intro queue_inv_update_first [OF _ Some])
      (auto simp: is_pending_def cancel_item_def attempts_ok_def queue_inv_def)
  then show ?thesis by (simp add: cancel_def Some)
qed

lemma cancelAll_inv:
  assumes "queue_inv q"
  shows "queue_inv (cancelAll now q)"
proof -
  have "running_items (map (\<lambda>x. if is_pending x then cancel_item now x else x) xs) = running_items xs" for xs
    by (induction xs) (auto simp: running_items_def is_pending_def cancel_item_def)
  moreover have "by_priority (map (\<lambda>x. if is_pending x then cancel_item now x else x) xs) = by_priority xs" for xs
    by (simp add: by_priority_def o_def cancel_item_def if_distrib cong: if_cong)
  ultimately show ?thesis
    using assms by (auto simp: queue_inv_def cancelAll_def attempts_ok_def cancel_item_def)
qed

lemma clearCompleted_inv:
  assumes "queue_inv q"
  shows "queue_inv (clearCompleted q)"
proof -
  have "running_items (filter (\<lambda>i. qi_status i = QiPending \<or> qi_status i = QiRunning) xs) = running_items xs" for xs
    by (induction xs) (auto simp: running_items_def)
  moreover have "by_priority xs \<Longrightarrow> by_priority (filter P xs)" for xs P
    unfolding by_priority_def by (rule sorted_filter)
  ultimately show ?thesis
    using assms by (auto simp: queue_inv_def clearCompleted_def)
qed

subsection \<open>All interleavings\<close>

datatype queue_step =
    Enqueue retry_queue_item | Dispatch | SettleOk string json | SettleErr string js_exn
  | Release | RetryTimer string | Cancel string | CancelAll | ClearCompleted
  | Recover "retry_queue_item list" | DestroyQueue

fun queue_run :: "int \<times> queue_step \<Rightarrow> retry_queue \<Rightarrow> retry_queue" where
  "queue_run (now, Enqueue item) q = enqueue now item q"
| "queue_run (now, Dispatch) q = processNext now q"
| "queue_run (now, SettleOk i res) q = settle_ok now i res q"
| "queue_run (now, SettleErr i err) q = settle_err now i err q"
| "queue_run (now, Release) q = release now q"
| "queue_run (now, RetryTimer i) q = retry_timer i q"
| "queue_run (now, Cancel i) q = snd (cancel now i q)"
| "queue_run (now, CancelAll) q = cancelAll now q"
| "queue_run (now, ClearCompleted) q = clearCompleted q"
| "queue_run (now, Recover saved) q = recover now saved q"
| "queue_run (now, DestroyQueue) q = destroy_queue now q"

lemma queue_run_inv: "queue_inv q \<Longrightarrow> queue_inv (queue_run (now, e) q)"
  by (cases e) (simp_all add: enqueue_inv processNext_inv settle_ok_inv settle_err_inv release_inv
      retry_timer_def cancel_inv cancelAll_inv clearCompleted_inv recover_inv destroy_queue_def)

interpretation queue: invariant_machine queue_run "\<lambda>_ _. True" queue_inv
  by unfold_locales (auto intro: queue_run_inv)

lemma new_retry_queue_inv: "queue_inv (new_retry_queue opts)"
  by (simp add: queue_inv_def new_retry_queue_def running_items_def by_priority_def)

lemma processNext_concurrency [simp]: "rq_concurrency (processNext now q) = rq_concurrency q"
  by (induction now q rule: processNext.induct)
    (subst processNext.simps, auto split: option.splits)

lemma queue_run_concurrency: "rq_concurrency (queue_run (now, e) q) = rq_concurrency q"
  by (cases e) (auto simp: enqueue_def settle_ok_def settle_err_def release_def retry_timer_def
      cancel_def cancelAll_def clearCompleted_def recover_def destroy_queue_def Let_def
      split: option.splits)

lemma queue_concurrency: "rq_concurrency (run_events queue_run es q) = rq_concurrency q"
  by (induction es arbitrary: q) (auto simp: queue_run_concurrency)

subsection \<open>The order in which items start\<close>

lemma update_first_nth:
  "find P xs = Some x \<Longrightarrow>
     \<exists>p < length xs. P (xs ! p) \<and> (\<forall>k < p. \<not> P (xs ! k)) \<and> update_first P f xs = xs[p := f (xs ! p)]"
proof (induction xs)
  case Nil
  then show ?case by simp
next
  case (Cons y ys)
  show ?case
  proof (cases "P y")
    case True
    then show ?thesis by (intro exI [of _ 0]) simp
  next
    case False
    with Cons obtain p where "p < length ys" "P (ys ! p)" "\<forall>k < p. \<not> P (ys ! k)"
      "update_first P f ys = ys[p := f (ys ! p)]" by auto
    with False show ?thesis
      by (intro exI [of _ "Suc p"]) (auto simp: less_Suc_eq_0_disj nth_Cons split: nat.splits)
  qed
qed

lemma processNext_order:
  "length (rq_items (processNext now q)) = length (rq_items q) \<and>
   (rq_running (processNext now q) \<ge> rq_concurrency q \<or>
      find is_pending (rq_items (processNext now q)) = None) \<and>
   (\<forall>i j. i \<le> j \<longrightarrow> j < length (rq_items q) \<longrightarrow> is_pending (rq_items (processNext now q) ! i) \<longrightarrow>
      rq_items (processNext now q) ! j = rq_items q ! j)"
proof (induction now q rule: processNext.induct)
  case (1 now q)
  show ?case
  proof (cases "rq_running q < rq_concurrency q \<and> find is_pending (rq_items q) \<noteq> None")
    case False
    then show ?thesis by (auto simp: processNext.simps [of now q] split: option.splits)
  next
    case True
    then obtain x where x: "find is_pending (rq_items q) = Some x" by auto
    define q1 where "q1 = emit_rq QeStarted (qi_id x) (q\<lparr>rq_running := rq_running q + 1,
                rq_items := update_first is_pending (start_item now) (rq_items q)\<rparr>)"
    have step: "processNext now q = processNext now q1"
      using True x by (simp add: processNext.simps [of now q] q1_def)
    have IH: "length (rq_items (processNext now q1)) = length (rq_items q1) \<and>
       (rq_running (processNext now q1) \<ge> rq_concurrency q1 \<or>
          find is_pending (rq_items (processNext now q1)) = None) \<and>
       (\<forall>i j. i \<le> j \<longrightarrow> j < length (rq_items q1) \<longrightarrow> is_pending (rq_items (processNext now q1) ! i) \<longrightarrow>
          rq_items (processNext now q1) ! j = rq_items q1 ! j)"
      unfolding q1_def by (rule 1 [OF _ x]) (use True in simp)
    obtain p where p: "p < length (rq_items q)" "\<forall>k < p. \<not> is_pending (rq_items q ! k)"
      and items: "rq_items q1 = (rq_items q)[p := start_item now (rq_items q ! p)]"
      using update_first_nth [OF x, of "start_item now"] by (auto simp: q1_def)
    have conc: "rq_concurrency q1 = rq_concurrency q" by (simp add: q1_def)
    have "rq_items (processNext now q) ! j = rq_items q ! j"
      if ij: "i \<le> j" "j < length (rq_items q)" and pend: "is_pending (rq_items (processNext now q) ! i)" for i j
    proof -
      have same: "rq_items (processNext now q1) ! k = rq_items q1 ! k" if "i \<le> k" "k < length (rq_items q)" for k
        using IH that pend by (simp add: items step)
      have "rq_items (processNext now q) ! i = rq_items q1 ! i"
        and j: "rq_items (processNext now q) ! j = rq_items q1 ! j"
        using same [of i] same [of j] ij unfolding step by simp_all
      with pend ij have pi: "is_pending ((rq_items q)[p := start_item now (rq_items q ! p)] ! i)"
        by (simp add: items)
      with p(1) have "i \<noteq> p" by (auto simp: start_item_def is_pending_def)
      with pi have "is_pending (rq_items q ! i)" by simp
      with p(2) \<open>i \<noteq> p\<close> have "p < i" by (meson linorder_neqE_nat)
      with j ij show ?thesis by (simp add: items)
    qed
    with IH show ?thesis unfolding step conc by (simp add: items)
  qed
qed

subsection \<open>Properties\<close>


definition demo_item :: "string \<Rightarrow> int \<Rightarrow> retry_queue_item" where
  "demo_item i priority =
     \<lparr>qi_id = i, qi_retryPolicy = new_retry_policy retry_defaults, qi_maxRetries = 3, qi_attempt = 0,
      qi_createdAt = 0, qi_updatedAt = 0, qi_status = QiPending, qi_result = None, qi_error = None,
      qi_priority = priority\<rparr>"


text \<open>Dispatching wastes no slot and respects priority: after processNext either every slot
  is taken or nothing waits; and an item that was started does not have a lower priority than
  one that still waits, nor was it enqueued behind a waiting one of the same priority.\<close>

theorem dispatch_respects_priority:
  assumes "by_priority (rq_items q)" and "q' = processNext now q"
  shows "(rq_running q' \<ge> rq_concurrency q \<or> (\<forall>x \<in> set (rq_items q'). \<not> is_pending x)) \<and>
     length (rq_items q') = length (rq_items q) \<and>
     (\<forall>i < length (rq_items q). \<forall>j < length (rq_items q).
        is_pending (rq_items q ! i) \<longrightarrow> \<not> is_pending (rq_items q' ! i) \<longrightarrow> is_pending (rq_items q' ! j) \<longrightarrow>
        qi_priority (rq_items q ! j) \<le> qi_priority (rq_items q ! i) \<and> i < j)"
proof -
  note order = processNext_order [of now q, folded assms(2)]
  have before: "i < j" if "i < length (rq_items q)" "is_pending (rq_items q ! i)"
    "\<not> is_pending (rq_items q' ! i)" "is_pending (rq_items q' ! j)" for i j
    using that order by (metis linorder_not_less)
  have "qi_priority (rq_items q ! j) \<le> qi_priority (rq_items q ! i)"
    if "i < length (rq_items q)" "j < length (rq_items q)" "is_pending (rq_items q ! i)"
    "\<not> is_pending (rq_items q' ! i)" "is_pending (rq_items q' ! j)" for i j
  proof -
    have "- qi_priority (rq_items q ! i) \<le> - qi_priority (rq_items q ! j)"
      using assms(1) before [OF that(1,3,4,5)] that(2)
      sorted_nth_mono [of "map (\<lambda>i. - qi_priority i) (rq_items q)" i j]
      by (simp add: by_priority_def)
    then show ?thesis by simp
  qed
  moreover have "rq_running q' \<ge> rq_concurrency q \<or> (\<forall>x \<in> set (rq_items q'). \<not> is_pending x)"
    using order unfolding find_None_iff by blast
  ultimately show ?thesis using order before by blast
qed

theorem dispatch_respects_priority_witness:
  "let q = \<lparr>rq_items = [demo_item ''b'' 7, demo_item ''a'' 1], rq_running = 0, rq_concurrency = 1,
        rq_backoffStrategy = BsLinear, rq_log = [], rq_settling = 0\<rparr>;
       q' = processNext 5 q
   in rq_running q' \<ge> 1 \<or> (\<forall>x \<in> set (rq_items q'). \<not> is_pending x)"
proof -
  let ?q = "\<lparr>rq_items = [demo_item ''b'' 7, demo_item ''a'' 1], rq_running = 0, rq_concurrency = 1,
        rq_backoffStrategy = BsLinear, rq_log = [], rq_settling = 0\<rparr>"
  have "by_priority (rq_items ?q)" by (simp add: by_priority_def demo_item_def)
  from dispatch_respects_priority [OF this refl, of 5] show ?thesis by (simp add: Let_def)
qed

end
