(* ===== verification/Cache.thy ===== *)
theory Cache
  imports Prelude
begin

section \<open>The tiered cache\<close>

text \<open>
  packages/core/src/cache/cache_manager.ts. The memory tier is a record; the Redis and disk tiers
  are counters around an adapter, an interface whose implementation is not in the repository: a
  record of functions over a state of its own, an argument of the model. Cached values are JSON
  values; the text JSON.stringify makes of one stands for the value itself, a text that is not
  JSON is \<open>BadText\<close>. Every adapter call can reject.
\<close>

record cache_entry =
  ce_value :: json
  ce_expiresAt :: "int option"
  ce_createdAt :: int
  ce_lastAccessedAt :: int
  ce_accessCount :: nat

record cache_stats =
  st_size :: nat
  st_hitCount :: nat
  st_missCount :: nat
  st_evictionCount :: nat
  st_memoryUsageBytes :: nat

record memory_tier =
  mt_store :: "(string, cache_entry) jsmap"
  mt_hitCount :: nat
  mt_missCount :: nat
  mt_evictionCount :: nat

definition new_memory_tier :: memory_tier where
  "new_memory_tier = \<lparr>mt_store = jm_empty, mt_hitCount = 0, mt_missCount = 0, mt_evictionCount = 0\<rparr>"

definition entry_expired :: "int \<Rightarrow> cache_entry \<Rightarrow> bool" where
  "entry_expired now e = (case ce_expiresAt e of None \<Rightarrow> False | Some t \<Rightarrow> t < now)"

definition mem_get :: "int \<Rightarrow> string \<Rightarrow> memory_tier \<Rightarrow> json option \<times> memory_tier" where
  "mem_get now key m =
     (case jm_get (mt_store m) key of
        None \<Rightarrow> (None, m\<lparr>mt_missCount := mt_missCount m + 1\<rparr>)
      | Some e \<Rightarrow>
          if entry_expired now e then
            (None, m\<lparr>mt_store := jm_del key (mt_store m), mt_evictionCount := mt_evictionCount m + 1,
                     mt_missCount := mt_missCount m + 1\<rparr>)
          else
            (Some (ce_value e),
             m\<lparr>mt_store := jm_set key (e\<lparr>ce_lastAccessedAt := now, ce_accessCount := ce_accessCount e + 1\<rparr>)
                             (mt_store m),
               mt_hitCount := mt_hitCount m + 1\<rparr>))"

text \<open>A time to live of 0 counts as none.\<close>

definition expiry :: "int \<Rightarrow> int option \<Rightarrow> int option" where
  "expiry now ttlMs = (case ttlMs of None \<Rightarrow> None | Some d \<Rightarrow> if d = 0 then None else Some (now + d))"

definition mem_set :: "int \<Rightarrow> string \<Rightarrow> json \<Rightarrow> int option \<Rightarrow> memory_tier \<Rightarrow> memory_tier" where
  "mem_set now key v ttlMs m =
     m\<lparr>mt_store := jm_set key \<lparr>ce_value = v, ce_expiresAt = expiry now ttlMs, ce_createdAt = now,
                               ce_lastAccessedAt = now, ce_accessCount = 0\<rparr> (mt_store m)\<rparr>"

definition mem_delete :: "string \<Rightarrow> memory_tier \<Rightarrow> bool \<times> memory_tier" where
  "mem_delete key m = (jm_has (mt_store m) key, m\<lparr>mt_store := jm_del key (mt_store m)\<rparr>)"

definition mem_clear :: "memory_tier \<Rightarrow> memory_tier" where
  "mem_clear m = m\<lparr>mt_store := jm_empty\<rparr>"

definition mem_has :: "string \<Rightarrow> memory_tier \<Rightarrow> bool" where
  "mem_has key m = jm_has (mt_store m) key"

text \<open>\<open>json_len\<close> is the length of the text JSON.stringify gives.\<close>

definition estimateMemoryUsage :: "(json \<Rightarrow> nat) \<Rightarrow> memory_tier \<Rightarrow> nat" where
  "estimateMemoryUsage json_len m =
     sum_list (map (\<lambda>(key, e). length key * 2 + json_len (ce_value e) * 2 + 64) (mt_store m))"

definition mem_stats :: "(json \<Rightarrow> nat) \<Rightarrow> memory_tier \<Rightarrow> cache_stats" where
  "mem_stats json_len m =
     \<lparr>st_size = length (mt_store m), st_hitCount = mt_hitCount m, st_missCount = mt_missCount m,
      st_evictionCount = mt_evictionCount m, st_memoryUsageBytes = estimateMemoryUsage json_len m\<rparr>"

subsection \<open>The adapted tiers\<close>

datatype json_text = JsonText json | BadText

fun json_parse :: "json_text \<Rightarrow> json result" where
  "json_parse (JsonText v) = Inr v"
| "json_parse BadText = Inl (JsNamedError ''SyntaxError'' ''Unexpected token in JSON'')"

record 'a cache_adapter =
  ad_get :: "int \<Rightarrow> string \<Rightarrow> 'a \<Rightarrow> json_text option result"
  ad_set :: "int \<Rightarrow> string \<Rightarrow> json_text \<Rightarrow> int option \<Rightarrow> 'a \<Rightarrow> unit result \<times> 'a"
  ad_del :: "string \<Rightarrow> 'a \<Rightarrow> bool result \<times> 'a"
  ad_flush :: "'a \<Rightarrow> unit result \<times> 'a"

record 'a adapted_tier =
  at_adapter :: 'a
  at_hitCount :: nat
  at_missCount :: nat
  at_evictionCount :: nat

definition new_adapted_tier :: "'a \<Rightarrow> 'a adapted_tier" where
  "new_adapted_tier a = \<lparr>at_adapter = a, at_hitCount = 0, at_missCount = 0, at_evictionCount = 0\<rparr>"

definition tier_get ::
    "'a cache_adapter \<Rightarrow> int \<Rightarrow> string \<Rightarrow> 'a adapted_tier \<Rightarrow> json option result \<times> 'a adapted_tier" where
  "tier_get ad now key r =
     (case ad_get ad now key (at_adapter r) of
        Inl e \<Rightarrow> (Inl e, r)
      | Inr None \<Rightarrow> (Inr None, r\<lparr>at_missCount := at_missCount r + 1\<rparr>)
      | Inr (Some raw) \<Rightarrow>
          let r1 = r\<lparr>at_hitCount := at_hitCount r + 1\<rparr>
          in (case json_parse raw of Inl e \<Rightarrow> (Inl e, r1) | Inr v \<Rightarrow> (Inr (Some v), r1)))"

definition tier_set ::
    "'a cache_adapter \<Rightarrow> int \<Rightarrow> string \<Rightarrow> json \<Rightarrow> int option \<Rightarrow> 'a adapted_tier \<Rightarrow>
     unit result \<times> 'a adapted_tier" where
  "tier_set ad now key v ttlMs r =
     (let (res, a) = ad_set ad now key (JsonText v) ttlMs (at_adapter r)
      in (res, r\<lparr>at_adapter := a\<rparr>))"

definition tier_delete ::
    "'a cache_adapter \<Rightarrow> string \<Rightarrow> 'a adapted_tier \<Rightarrow> bool result \<times> 'a adapted_tier" where
  "tier_delete ad key r =
     (case ad_del ad key (at_adapter r) of
        (Inr True, a) \<Rightarrow> (Inr True, r\<lparr>at_adapter := a, at_evictionCount := at_evictionCount r + 1\<rparr>)
      | (res, a) \<Rightarrow> (res, r\<lparr>at_adapter := a\<rparr>))"

definition tier_clear ::
    "'a cache_adapter \<Rightarrow> 'a adapted_tier \<Rightarrow> unit result \<times> 'a adapted_tier" where
  "tier_clear ad r = (let (res, a) = ad_flush ad (at_adapter r) in (res, r\<lparr>at_adapter := a\<rparr>))"

definition tier_stats :: "'a adapted_tier \<Rightarrow> cache_stats" where
  "tier_stats r =
     \<lparr>st_size = 0, st_hitCount = at_hitCount r, st_missCount = at_missCount r,
      st_evictionCount = at_evictionCount r, st_memoryUsageBytes = 0\<rparr>"

subsection \<open>The manager\<close>

record ('r, 'd) cache_manager =
  cm_memory :: memory_tier
  cm_redis :: "'r adapted_tier option"
  cm_disk :: "'d adapted_tier option"
  cm_readThrough :: bool

definition createCacheManager :: "'r option \<Rightarrow> 'd option \<Rightarrow> bool \<Rightarrow> ('r, 'd) cache_manager" where
  "createCacheManager redisAdapter diskAdapter readThrough =
     \<lparr>cm_memory = new_memory_tier, cm_redis = map_option new_adapted_tier redisAdapter,
      cm_disk = map_option new_adapted_tier diskAdapter, cm_readThrough = readThrough\<rparr>"

text \<open>What is left of get after a miss in memory and Redis.\<close>

definition manager_get_disk ::
    "'r cache_adapter \<Rightarrow> 'd cache_adapter \<Rightarrow> int \<Rightarrow> string \<Rightarrow> ('r, 'd) cache_manager \<Rightarrow>
     json option result \<times> ('r, 'd) cache_manager" where
  "manager_get_disk ra da now key c =
     (case cm_disk c of
        None \<Rightarrow> (Inr None, c)
      | Some d \<Rightarrow>
          (case tier_get da now key d of
             (Inl e, d1) \<Rightarrow> (Inl e, c\<lparr>cm_disk := Some d1\<rparr>)
           | (Inr None, d1) \<Rightarrow> (Inr None, c\<lparr>cm_disk := Some d1\<rparr>)
           | (Inr (Some v), d1) \<Rightarrow>
               let c1 = c\<lparr>cm_disk := Some d1, cm_memory := mem_set now key v None (cm_memory c)\<rparr>
               in (case cm_redis c1 of
                     None \<Rightarrow> (Inr (Some v), c1)
                   | Some r \<Rightarrow>
                       (case tier_set ra now key v None r of
                          (Inl e, r1) \<Rightarrow> (Inl e, c1\<lparr>cm_redis := Some r1\<rparr>)
                        | (Inr _, r1) \<Rightarrow> (Inr (Some v), c1\<lparr>cm_redis := Some r1\<rparr>)))))"

definition manager_get ::
    "'r cache_adapter \<Rightarrow> 'd cache_adapter \<Rightarrow> int \<Rightarrow> string \<Rightarrow> ('r, 'd) cache_manager \<Rightarrow>
     json option result \<times> ('r, 'd) cache_manager" where
  "manager_get ra da now key c =
     (case mem_get now key (cm_memory c) of
        (Some v, m) \<Rightarrow> (Inr (Some v), c\<lparr>cm_memory := m\<rparr>)
      | (None, m) \<Rightarrow>
          let c1 = c\<lparr>cm_memory := m\<rparr>
          in (case cm_redis c1 of
                None \<Rightarrow> manager_get_disk ra da now key c1
              | Some r \<Rightarrow>
                  (case tier_get ra now key r of
                     (Inl e, r1) \<Rightarrow> (Inl e, c1\<lparr>cm_redis := Some r1\<rparr>)
                   | (Inr (Some v), r1) \<Rightarrow>
                       (Inr (Some v),
                        c1\<lparr>cm_redis := Some r1, cm_memory := mem_set now key v None (cm_memory c1)\<rparr>)
                   | (Inr None, r1) \<Rightarrow> manager_get_disk ra da now key (c1\<lparr>cm_redis := Some r1\<rparr>))))"

text \<open>\<open>.catch(() => {})\<close>: a rejection of a lower tier is swallowed by set, delete and clear.\<close>

definition manager_set ::
    "'r cache_adapter \<Rightarrow> 'd cache_adapter \<Rightarrow> int \<Rightarrow> string \<Rightarrow> json \<Rightarrow> int option \<Rightarrow>
     ('r, 'd) cache_manager \<Rightarrow> ('r, 'd) cache_manager" where
  "manager_set ra da now key v ttlMs c =
     c\<lparr>cm_memory := mem_set now key v ttlMs (cm_memory c),
       cm_redis := map_option (\<lambda>r. snd (tier_set ra now key v ttlMs r)) (cm_redis c),
       cm_disk := map_option (\<lambda>d. snd (tier_set da now key v ttlMs d)) (cm_disk c)\<rparr>"

definition manager_delete ::
    "'r cache_adapter \<Rightarrow> 'd cache_adapter \<Rightarrow> string \<Rightarrow> ('r, 'd) cache_manager \<Rightarrow>
     ('r, 'd) cache_manager" where
  "manager_delete ra da key c =
     c\<lparr>cm_memory := snd (mem_delete key (cm_memory c)),
       cm_redis := map_option (\<lambda>r. snd (tier_delete ra key r)) (cm_redis c),
       cm_disk := map_option (\<lambda>d. snd (tier_delete da key d)) (cm_disk c)\<rparr>"

definition manager_clear ::
    "'r cache_adapter \<Rightarrow> 'd cache_adapter \<Rightarrow> ('r, 'd) cache_manager \<Rightarrow> ('r, 'd) cache_manager" where
  "manager_clear ra da c =
     c\<lparr>cm_memory := mem_clear (cm_memory c),
       cm_redis := map_option (\<lambda>r. snd (tier_clear ra r)) (cm_redis c),
       cm_disk := map_option (\<lambda>d. snd (tier_clear da d)) (cm_disk c)\<rparr>"

record tier_stats =
  ts_memory :: cache_stats
  ts_redis :: "cache_stats option"
  ts_disk :: "cache_stats option"

definition manager_stats :: "(json \<Rightarrow> nat) \<Rightarrow> ('r, 'd) cache_manager \<Rightarrow> tier_stats" where
  "manager_stats json_len c =
     \<lparr>ts_memory = mem_stats json_len (cm_memory c), ts_redis = map_option tier_stats (cm_redis c),
      ts_disk = map_option tier_stats (cm_disk c)\<rparr>"

subsection \<open>The contract of a tier\<close>

text \<open>What every tier owes the manager: what a look-up at a later time finds after a write, a
  removal or a read.\<close>

locale cache_tier =
  fixes look :: "int \<Rightarrow> string \<Rightarrow> 's \<Rightarrow> json option"
    and put :: "int \<Rightarrow> string \<Rightarrow> json \<Rightarrow> int option \<Rightarrow> 's \<Rightarrow> 's"
    and del :: "string \<Rightarrow> 's \<Rightarrow> 's"
    and touch :: "int \<Rightarrow> string \<Rightarrow> 's \<Rightarrow> 's"
  assumes look_put: "look t' k (put t k v ttl s) =
        (case expiry t ttl of None \<Rightarrow> Some v | Some x \<Rightarrow> if t' \<le> x then Some v else None)"
    and look_put_other: "k' \<noteq> k \<Longrightarrow> look t' k' (put t k v ttl s) = look t' k' s"
    and look_del: "look t k (del k s) = None"
    and look_del_other: "k' \<noteq> k \<Longrightarrow> look t' k' (del k s) = look t' k' s"
    and look_touch: "t \<le> t' \<Longrightarrow> look t' k' (touch t k s) = look t' k' s"
    and look_earlier: "look t' k s = Some v \<Longrightarrow> t \<le> t' \<Longrightarrow> look t k s = Some v"
begin

lemma look_put_live:
  "(case expiry t ttl of None \<Rightarrow> True | Some x \<Rightarrow> t' \<le> x) \<Longrightarrow> look t' k (put t k v ttl s) = Some v"
  by (auto simp: look_put split: option.splits)

lemma look_put_forever: "look t' k (put t k v None s) = Some v"
  by (simp add: look_put expiry_def)

lemma put_keeps:
  "look t' k s = Some v \<Longrightarrow> k' \<noteq> k \<Longrightarrow> look t' k (put t k' w ttl s) = Some v"
  by (simp add: look_put_other)

end

definition mem_look :: "int \<Rightarrow> string \<Rightarrow> memory_tier \<Rightarrow> json option" where
  "mem_look now key m = fst (mem_get now key m)"

lemma mem_look_store:
  "mem_look now key m =
     (case jm_get (mt_store m) key of
        None \<Rightarrow> None | Some e \<Rightarrow> if entry_expired now e then None else Some (ce_value e))"
  by (simp add: mem_look_def mem_get_def split: option.splits)

lemma mem_get_store:
  "jm_get (mt_store (snd (mem_get now key m))) k =
     (if k = key then
        (case jm_get (mt_store m) key of
           None \<Rightarrow> None
         | Some e \<Rightarrow> if entry_expired now e then None
                      else Some (e\<lparr>ce_lastAccessedAt := now, ce_accessCount := ce_accessCount e + 1\<rparr>))
      else jm_get (mt_store m) k)"
  by (auto simp: mem_get_def split: option.splits)

interpretation mem: cache_tier mem_look mem_set "\<lambda>k m. snd (mem_delete k m)" "\<lambda>t k m. snd (mem_get t k m)"
proof
  fix t t' :: int and k k' :: string and v :: json and ttl and s
  show "mem_look t' k (mem_set t k v ttl s) =
      (case expiry t ttl of None \<Rightarrow> Some v | Some x \<Rightarrow> if t' \<le> x then Some v else None)"
    by (auto simp: mem_look_store mem_set_def entry_expired_def split: option.splits)
  show "mem_look t k (snd (mem_delete k s)) = None"
    by (simp add: mem_look_store mem_delete_def)
  show "t \<le> t' \<Longrightarrow> mem_look t' k' (snd (mem_get t k s)) = mem_look t' k' s"
    by (auto simp: mem_look_store mem_get_store entry_expired_def split: option.splits)
  show "mem_look t' k s = Some v \<Longrightarrow> t \<le> t' \<Longrightarrow> mem_look t k s = Some v"
    by (auto simp: mem_look_store entry_expired_def split: option.splits if_splits)
qed (auto simp: mem_look_store mem_set_def mem_delete_def split: option.splits)

subsection \<open>Runs of the manager\<close>

datatype cache_call = CacheGet string | CacheSet string json "int option" | CacheDelete string

fun cache_run ::
    "'r cache_adapter \<Rightarrow> 'd cache_adapter \<Rightarrow> int \<times> cache_call \<Rightarrow> ('r, 'd) cache_manager \<Rightarrow>
     ('r, 'd) cache_manager" where
  "cache_run ra da (now, CacheGet key) c = snd (manager_get ra da now key c)"
| "cache_run ra da (now, CacheSet key v ttlMs) c = manager_set ra da now key v ttlMs c"
| "cache_run ra da (now, CacheDelete key) c = manager_delete ra da key c"

lemma manager_get_disk_memory:
  "cm_memory (snd (manager_get_disk ra da now key c)) = cm_memory c \<or>
   (\<exists>v. cm_memory (snd (manager_get_disk ra da now key c)) = mem_set now key v None (cm_memory c))"
  by (auto simp: manager_get_disk_def Let_def split: option.splits prod.splits sum.splits)

text \<open>What a get does to the memory tier: a hit only touches the entry; a miss may promote a
  value from below.\<close>

lemma manager_get_hit:
  "mem_look now key (cm_memory c) = Some v \<Longrightarrow>
     manager_get ra da now key c = (Inr (Some v), c\<lparr>cm_memory := snd (mem_get now key (cm_memory c))\<rparr>)"
  by (auto simp: manager_get_def mem_look_def split: prod.splits)

lemma manager_get_memory:
  "cm_memory (snd (manager_get ra da now key c)) = snd (mem_get now key (cm_memory c)) \<or>
   (\<exists>v. cm_memory (snd (manager_get ra da now key c)) =
          mem_set now key v None (snd (mem_get now key (cm_memory c))))"
proof (cases "mem_get now key (cm_memory c)")
  case (Pair res m)
  show ?thesis
  proof (cases res)
    case (Some v)
    with Pair show ?thesis by (simp add: manager_get_def)
  next
    case None
    let ?c1 = "c\<lparr>cm_memory := m\<rparr>"
    have "cm_memory (snd (manager_get_disk ra da now key ?c1)) = m \<or>
        (\<exists>v. cm_memory (snd (manager_get_disk ra da now key ?c1)) = mem_set now key v None m)"
      "cm_memory (snd (manager_get_disk ra da now key (?c1\<lparr>cm_redis := r\<rparr>))) = m \<or>
        (\<exists>v. cm_memory (snd (manager_get_disk ra da now key (?c1\<lparr>cm_redis := r\<rparr>))) = mem_set now key v None m)" for r
      using manager_get_disk_memory [of ra da now key ?c1]
        manager_get_disk_memory [of ra da now key "?c1\<lparr>cm_redis := r\<rparr>"] by simp_all
    with Pair None show ?thesis
      by (auto simp: manager_get_def Let_def split: option.splits prod.splits sum.splits)
  qed
qed

definition leaves_key :: "string \<Rightarrow> cache_call \<Rightarrow> bool" where
  "leaves_key key call \<longleftrightarrow>
     (case call of CacheGet k \<Rightarrow> True | CacheSet k _ _ \<Rightarrow> k \<noteq> key | CacheDelete k \<Rightarrow> k \<noteq> key)"

lemma cache_run_keeps:
  assumes "mem_look t' key (cm_memory c) = Some v" and "leaves_key key call" and "now \<le> t'"
  shows "mem_look t' key (cm_memory (cache_run ra da (now, call) c)) = Some v"
proof (cases call)
  case (CacheGet k)
  have touched: "mem_look t' key (snd (mem_get now k (cm_memory c))) = Some v"
    using assms(1,3) by (simp add: mem.look_touch)
  show ?thesis
  proof (cases "k = key")
    case True
    have "mem_look now key (cm_memory c) = Some v"
      by (rule mem.look_earlier [OF assms(1,3)])
    with CacheGet True touched show ?thesis by (simp add: manager_get_hit)
  next
    case False
    with CacheGet touched show ?thesis
      using manager_get_memory [of ra da now k c] by (auto simp: mem.look_put_other)
  qed
next
  case (CacheSet k w ttl)
  with assms show ?thesis by (simp add: manager_set_def leaves_key_def mem.look_put_other)
next
  case (CacheDelete k)
  with assms show ?thesis by (simp add: manager_delete_def leaves_key_def mem.look_del_other)
qed

lemma cache_run_keeps_all:
  assumes "mem_look t' key (cm_memory c) = Some v"
    and "\<forall>(now, call) \<in> set calls. leaves_key key call \<and> now \<le> t'"
  shows "mem_look t' key (cm_memory (run_events (cache_run ra da) calls c)) = Some v"
  using assms
proof (induction calls arbitrary: c)
  case Nil
  then show ?case by simp
next
  case (Cons e calls)
  obtain now call where "e = (now, call)" by fastforce
  with Cons cache_run_keeps [of t' key c v call now ra da] show ?case by simp
qed

subsection \<open>Properties\<close>


text \<open>An adapter that works: a table with expiry times. One that never does.\<close>

definition table_adapter :: "(string, json_text \<times> int option) jsmap cache_adapter" where
  "table_adapter =
     \<lparr>ad_get = (\<lambda>now k m. Inr (case jm_get m k of None \<Rightarrow> None
          | Some (raw, x) \<Rightarrow> (case x of None \<Rightarrow> Some raw | Some t \<Rightarrow> if t < now then None else Some raw))),
      ad_set = (\<lambda>now k raw ttl m. (Inr (), jm_set k (raw, expiry now ttl) m)),
      ad_del = (\<lambda>k m. (Inr (jm_has m k), jm_del k m)), ad_flush = (\<lambda>m. (Inr (), jm_empty))\<rparr>"

definition broken_adapter :: "unit cache_adapter" where
  "broken_adapter =
     \<lparr>ad_get = (\<lambda>now k m. Inl (JsError ''down'')), ad_set = (\<lambda>now k raw ttl m. (Inl (JsError ''down''), m)),
      ad_del = (\<lambda>k m. (Inl (JsError ''down''), m)), ad_flush = (\<lambda>m. (Inl (JsError ''down''), m))\<rparr>"


text \<open>A value that get fetches from Redis is kept in memory without its time to live: from then
  on every get returns it, at any later time, also when Redis has long expired or lost it,
  until the key is written or deleted through this manager.\<close>

theorem promotion_loses_ttl:
  assumes "mem_look t key (cm_memory c) = None" and "cm_redis c = Some r"
    and "ad_get ra t key (at_adapter r) = Inr (Some (JsonText v))"
    and "\<forall>(now, call) \<in> set calls. leaves_key key call \<and> now \<le> t'"
  shows "fst (manager_get ra da t' key
      (run_events (cache_run ra da) calls (snd (manager_get ra da t key c)))) = Inr (Some v)"
proof -
  have "mem_look t' key (cm_memory (snd (manager_get ra da t key c))) = Some v"
    using assms(1-3)
    by (auto simp: manager_get_def mem_look_def [of t] tier_get_def Let_def mem.look_put_forever split: prod.splits)
  from cache_run_keeps_all [OF this assms(4)] show ?thesis by (simp add: manager_get_hit)
qed

theorem promotion_loses_ttl_witness:
  "fst (manager_get table_adapter broken_adapter 1000 ''k''
      (snd (manager_get table_adapter broken_adapter 6 ''k''
        (createCacheManager (Some (snd (ad_set table_adapter 5 ''k'' (JsonText JNull) (Some 4) jm_empty))) None True)))) =
     Inr (Some JNull)"
proof -
  let ?a = "snd (ad_set table_adapter 5 ''k'' (JsonText JNull) (Some 4) jm_empty)"
  have stored: "ad_get table_adapter 6 ''k'' ?a = Inr (Some (JsonText JNull))"
    by (simp add: table_adapter_def expiry_def)
  show ?thesis
    by (rule promotion_loses_ttl [where calls = "[]" and r = "new_adapted_tier ?a", simplified run_events.simps])
      (simp_all add: createCacheManager_def new_memory_tier_def mem_look_store stored new_adapted_tier_def)
qed

end
