(* ===== verification/CachePolicy.thy ===== *)
theory CachePolicy
  imports Prelude "HOL-Library.Product_Lexorder"
begin

section \<open>Eviction policies and cache warm-up\<close>

text \<open>
  packages/core/src/cache/cache_policy.ts and cache_warmup.ts. A policy is a record of its two
  methods; Math.random is an argument. The loops of the warm-up, which do not end for every
  batch size, are partial functions: \<open>None\<close> is a call that never returns. The function that
  loads a batch is an argument: \<open>outcome\<close> says with which error a batch is rejected, if any, and
  the batches that were asked for are recorded in order.
\<close>

datatype eviction_policy = EpLru | EpLfu | EpTtl | EpFifo | EpRandom

record policy_config =
  pc_policy :: eviction_policy
  pc_maxSize :: nat
  pc_ttlMs :: "int option"
  pc_maxMemoryBytes :: "nat option"

record eviction_candidate =
  ec_key :: string
  ec_createdAt :: int
  ec_lastAccessedAt :: int
  ec_accessCount :: int
  ec_expiresAt :: "int option"
  ec_size :: nat

record cache_policy =
  cp_name :: eviction_policy
  cp_selectVictim :: "int \<Rightarrow> rat \<Rightarrow> eviction_candidate list \<Rightarrow> eviction_candidate option result"
  cp_shouldEvict :: "nat \<Rightarrow> nat \<Rightarrow> policy_config \<Rightarrow> bool"

text \<open>\<open>xs.reduce(f)\<close> without an initial value.\<close>

fun js_reduce :: "('a \<Rightarrow> 'a \<Rightarrow> 'a) \<Rightarrow> 'a list \<Rightarrow> 'a result" where
  "js_reduce f [] = Inl (JsTypeError ''Reduce of empty array with no initial value'')"
| "js_reduce f (x # xs) = Inr (foldl f x xs)"

definition shouldEvict :: "nat \<Rightarrow> nat \<Rightarrow> policy_config \<Rightarrow> bool" where
  "shouldEvict statSize memoryBytes config \<longleftrightarrow> pc_maxSize config \<le> statSize"

definition select_least ::
    "(eviction_candidate \<Rightarrow> int) \<Rightarrow> eviction_candidate list \<Rightarrow> eviction_candidate option result" where
  "select_least f cs =
     (if cs = [] then Inr None
      else map_sum id Some (js_reduce (\<lambda>best c. if f c < f best then c else best) cs))"

definition LRUPolicy :: cache_policy where
  "LRUPolicy = \<lparr>cp_name = EpLru, cp_selectVictim = (\<lambda>now r. select_least ec_lastAccessedAt),
     cp_shouldEvict = shouldEvict\<rparr>"

definition LFUPolicy :: cache_policy where
  "LFUPolicy = \<lparr>cp_name = EpLfu, cp_selectVictim = (\<lambda>now r. select_least ec_accessCount),
     cp_shouldEvict = shouldEvict\<rparr>"

definition FIFOPolicy :: cache_policy where
  "FIFOPolicy = \<lparr>cp_name = EpFifo, cp_selectVictim = (\<lambda>now r. select_least ec_createdAt),
     cp_shouldEvict = shouldEvict\<rparr>"

text \<open>\<open>(a ?? Infinity) < (b ?? Infinity)\<close>.\<close>

fun before_or_never :: "int option \<Rightarrow> int option \<Rightarrow> bool" where
  "before_or_never (Some a) (Some b) = (a < b)"
| "before_or_never (Some a) None = True"
| "before_or_never None b = False"

definition select_ttl :: "int \<Rightarrow> eviction_candidate list \<Rightarrow> eviction_candidate option result" where
  "select_ttl now cs =
     (let expired = filter (\<lambda>c. case ec_expiresAt c of None \<Rightarrow> False | Some t \<Rightarrow> t \<le> now) cs;
          sooner = (\<lambda>best c. if before_or_never (ec_expiresAt c) (ec_expiresAt best) then c else best)
      in if expired \<noteq> [] then map_sum id Some (js_reduce sooner expired)
         else map_sum id Some (js_reduce sooner cs))"

definition TTLPolicy :: cache_policy where
  "TTLPolicy = \<lparr>cp_name = EpTtl, cp_selectVictim = (\<lambda>now r. select_ttl now), cp_shouldEvict = shouldEvict\<rparr>"

definition select_random :: "rat \<Rightarrow> eviction_candidate list \<Rightarrow> eviction_candidate option result" where
  "select_random r cs =
     (if cs = [] then Inr None else Inr (Some (cs ! nat \<lfloor>r * rat_of_nat (length cs)\<rfloor>)))"

definition RandomPolicy :: cache_policy where
  "RandomPolicy = \<lparr>cp_name = EpRandom, cp_selectVictim = (\<lambda>now r. select_random r),
     cp_shouldEvict = shouldEvict\<rparr>"

type_synonym policy_registry = "(eviction_policy, cache_policy) jsmap"

definition policyRegistry :: policy_registry where
  "policyRegistry =
     [(EpLru, LRUPolicy), (EpLfu, LFUPolicy), (EpTtl, TTLPolicy), (EpFifo, FIFOPolicy),
      (EpRandom, RandomPolicy)]"

definition getPolicy :: "eviction_policy \<Rightarrow> policy_registry \<Rightarrow> cache_policy option" where
  "getPolicy p reg = jm_get reg p"

definition registerPolicy :: "eviction_policy \<Rightarrow> cache_policy \<Rightarrow> policy_registry \<Rightarrow> policy_registry" where
  "registerPolicy n p reg = jm_set n p reg"

definition listPolicies :: "policy_registry \<Rightarrow> eviction_policy list" where
  "listPolicies reg = jm_keys reg"

subsection \<open>Warm-up strategies\<close>

record warmup_strategy =
  ws_name :: string
  ws_shouldWarmup :: "string \<Rightarrow> bool"
  ws_priority :: "string \<Rightarrow> int"

definition mru_recordAccess :: "string \<Rightarrow> string list \<Rightarrow> string list" where
  "mru_recordAccess key recentKeys = take 1000 (key # filter (\<lambda>k. k \<noteq> key) recentKeys)"

text \<open>\<open>xs.indexOf(x)\<close>.\<close>

fun indexOf :: "'a \<Rightarrow> 'a list \<Rightarrow> nat option" where
  "indexOf x [] = None"
| "indexOf x (y # ys) = (if x = y then Some 0 else map_option Suc (indexOf x ys))"

definition mru_priority :: "string list \<Rightarrow> string \<Rightarrow> int" where
  "mru_priority recentKeys key =
     (case indexOf key recentKeys of None \<Rightarrow> 0 | Some i \<Rightarrow> int (length recentKeys) - int i)"

definition MostRecentlyUsedWarmup :: "string list \<Rightarrow> warmup_strategy" where
  "MostRecentlyUsedWarmup recentKeys =
     \<lparr>ws_name = ''mru'', ws_shouldWarmup = (\<lambda>key. key \<in> set recentKeys),
      ws_priority = mru_priority recentKeys\<rparr>"

definition freq_recordAccess :: "string \<Rightarrow> (string, int) jsmap \<Rightarrow> (string, int) jsmap" where
  "freq_recordAccess key counts = jm_set key (or_default (jm_get counts key) 0 + 1) counts"

definition freq_reset :: "(string, int) jsmap \<Rightarrow> (string, int) jsmap" where
  "freq_reset counts = jm_empty"

definition HighFrequencyWarmup :: "(string, int) jsmap \<Rightarrow> warmup_strategy" where
  "HighFrequencyWarmup counts =
     \<lparr>ws_name = ''high_frequency'', ws_shouldWarmup = (\<lambda>key. 10 \<le> or_default (jm_get counts key) 0),
      ws_priority = (\<lambda>key. or_default (jm_get counts key) 0)\<rparr>"

record scheduled_state =
  ss_scheduledKeys :: "string set"
  ss_priorityMap :: "(string, int) jsmap"

definition ScheduledWarmup :: "scheduled_state \<Rightarrow> warmup_strategy" where
  "ScheduledWarmup s =
     \<lparr>ws_name = ''scheduled'', ws_shouldWarmup = (\<lambda>key. key \<in> ss_scheduledKeys s),
      ws_priority = (\<lambda>key. or_default (jm_get (ss_priorityMap s) key) 1)\<rparr>"

definition sched_addKey :: "string \<Rightarrow> int \<Rightarrow> scheduled_state \<Rightarrow> scheduled_state" where
  "sched_addKey key priority s =
     s\<lparr>ss_scheduledKeys := insert key (ss_scheduledKeys s),
       ss_priorityMap := jm_set key priority (ss_priorityMap s)\<rparr>"

definition sched_removeKey :: "string \<Rightarrow> scheduled_state \<Rightarrow> scheduled_state" where
  "sched_removeKey key s =
     s\<lparr>ss_scheduledKeys := ss_scheduledKeys s - {key}, ss_priorityMap := jm_del key (ss_priorityMap s)\<rparr>"

text \<open>A regular expression is its test.\<close>

definition PatternWarmup :: "(string \<Rightarrow> bool) list \<Rightarrow> warmup_strategy" where
  "PatternWarmup patterns =
     \<lparr>ws_name = ''pattern'', ws_shouldWarmup = (\<lambda>key. list_ex (\<lambda>p. p key) patterns),
      ws_priority = (\<lambda>key. int (length (filter (\<lambda>p. p key) patterns)))\<rparr>"

definition addPattern :: "(string \<Rightarrow> bool) \<Rightarrow> (string \<Rightarrow> bool) list \<Rightarrow> (string \<Rightarrow> bool) list" where
  "addPattern p patterns = patterns @ [p]"

subsection \<open>Warm-up\<close>

record warmup_config =
  wc_strategies :: "warmup_strategy list"
  wc_concurrency :: int
  wc_batchSize :: int
  wc_maxKeys :: int
  wc_ttlMs :: "int option"

text \<open>\<open>Math.max(...strategies.map(s => s.priority(key)))\<close>; a candidate has a strategy, so the
  list is not empty.\<close>

definition top_priority :: "warmup_strategy list \<Rightarrow> string \<Rightarrow> int" where
  "top_priority ss key =
     (case map (\<lambda>s. ws_priority s key) ss of [] \<Rightarrow> 0 | x # xs \<Rightarrow> foldl max x xs)"

definition warmup_candidates :: "warmup_config \<Rightarrow> string list \<Rightarrow> string list" where
  "warmup_candidates config availableKeys =
     js_slice
       (sort_key (\<lambda>key. - top_priority (wc_strategies config) key)
          (filter (\<lambda>key. list_ex (\<lambda>s. ws_shouldWarmup s key) (wc_strategies config)) availableKeys))
       0 (wc_maxKeys config)"

type_synonym load_result = "nat result \<times> string list list"

partial_function (option) warmup_loop ::
    "int \<Rightarrow> (string list \<Rightarrow> js_exn option) \<Rightarrow> string list \<Rightarrow> int \<Rightarrow> nat \<Rightarrow> string list list \<Rightarrow>
     load_result option" where
  "warmup_loop batchSize outcome candidates i loaded asked =
     (if i < int (length candidates) then
        let batch = js_slice candidates i (i + batchSize)
        in case outcome batch of
             Some e \<Rightarrow> Some (Inl e, asked @ [batch])
           | None \<Rightarrow> warmup_loop batchSize outcome candidates (i + batchSize)
                       (loaded + length batch) (asked @ [batch])
      else Some (Inr loaded, asked))"

definition warmup ::
    "warmup_config \<Rightarrow> (string list \<Rightarrow> js_exn option) \<Rightarrow> string list \<Rightarrow> load_result option" where
  "warmup config outcome availableKeys =
     warmup_loop (wc_batchSize config) outcome (warmup_candidates config availableKeys) 0 0 []"

text \<open>\<open>for (let i = 0; i < xs.length; i += n) out.push(xs.slice(i, i + n))\<close>.\<close>

partial_function (option) chunk_loop :: "int \<Rightarrow> 'a list \<Rightarrow> int \<Rightarrow> 'a list list \<Rightarrow> 'a list list option" where
  "chunk_loop n xs i out =
     (if i < int (length xs) then chunk_loop n xs (i + n) (out @ [js_slice xs i (i + n)]) else Some out)"

text \<open>Promise.all on the loads of a group: all are asked for; if some reject, the first of them is
  the error.\<close>

partial_function (option) concurrent_loop ::
    "int \<Rightarrow> (string list \<Rightarrow> js_exn option) \<Rightarrow> string list list \<Rightarrow> int \<Rightarrow> nat \<Rightarrow> string list list \<Rightarrow>
     load_result option" where
  "concurrent_loop concurrency outcome batches i loaded asked =
     (if i < int (length batches) then
        let group = js_slice batches i (i + concurrency)
        in case List.map_filter outcome group of
             e # _ \<Rightarrow> Some (Inl e, asked @ group)
           | [] \<Rightarrow> concurrent_loop concurrency outcome batches (i + concurrency)
                     (loaded + sum_list (map length group)) (asked @ group)
      else Some (Inr loaded, asked))"

definition warmupConcurrent ::
    "warmup_config \<Rightarrow> (string list \<Rightarrow> js_exn option) \<Rightarrow> string list \<Rightarrow> load_result option" where
  "warmupConcurrent config outcome availableKeys =
     (case chunk_loop (wc_batchSize config) (warmup_candidates config availableKeys) 0 [] of
        None \<Rightarrow> None
      | Some batches \<Rightarrow> concurrent_loop (wc_concurrency config) outcome batches 0 0 [])"

record warmup_overrides =
  wo_strategies :: "warmup_strategy list option"
  wo_concurrency :: "int option"
  wo_batchSize :: "int option"
  wo_maxKeys :: "int option"
  wo_ttlMs :: "int option"

definition createCacheWarmup :: "warmup_overrides \<Rightarrow> warmup_config" where
  "createCacheWarmup config =
     \<lparr>wc_strategies = or_default (wo_strategies config)
        [MostRecentlyUsedWarmup [], HighFrequencyWarmup jm_empty],
      wc_concurrency = or_default (wo_concurrency config) 4,
      wc_batchSize = or_default (wo_batchSize config) 100,
      wc_maxKeys = or_default (wo_maxKeys config) 10000,
      wc_ttlMs = Some (or_default (wo_ttlMs config) 300000)\<rparr>"

subsection \<open>What the victims are\<close>

text \<open>The first element with the least key.\<close>

definition first_least :: "('a \<Rightarrow> 'k::linorder) \<Rightarrow> 'a list \<Rightarrow> 'a \<Rightarrow> bool" where
  "first_least f xs r \<longleftrightarrow>
     (\<exists>pre post. xs = pre @ r # post \<and> (\<forall>p \<in> set pre. f r < f p) \<and> (\<forall>p \<in> set post. f r \<le> f p))"

lemma foldl_least:
  assumes "\<And>b c. better b c \<longleftrightarrow> f c < f b"
  shows "first_least f xs b \<Longrightarrow> first_least f (xs @ ys) (foldl (\<lambda>b c. if better b c then c else b) b ys)"
proof (induction ys arbitrary: xs b)
  case Nil
  then show ?case by simp
next
  case (Cons y ys)
  from Cons.prems obtain pre post where xs: "xs = pre @ b # post"
    and least: "\<forall>p \<in> set pre. f b < f p" "\<forall>p \<in> set post. f b \<le> f p"
    by (auto simp: first_least_def)
  have "first_least f (xs @ [y]) (if better b y then y else b)"
  proof (cases "f y < f b")
    case True
    with least have "\<forall>p \<in> set xs. f y < f p" by (auto simp: xs)
    then have "first_least f (xs @ [y]) y"
      unfolding first_least_def by (intro exI [of _ xs] exI [of _ "[]"]) simp
    with True assms show ?thesis by simp
  next
    case False
    then have "first_least f (xs @ [y]) b"
      unfolding first_least_def xs by (intro exI [of _ pre] exI [of _ "post @ [y]"]) (use least in auto)
    with False assms show ?thesis by simp
  qed
  from Cons.IH [OF this] show ?case by simp
qed

lemma js_reduce_least:
  assumes "\<And>b c. better b c \<longleftrightarrow> f c < f b" and "xs \<noteq> []"
  shows "\<exists>r. js_reduce (\<lambda>b c. if better b c then c else b) xs = Inr r \<and> first_least f xs r"
proof -
  obtain y ys where xs: "xs = y # ys" using assms(2) by (cases xs) auto
  have "first_least f [y] y"
    unfolding first_least_def by (intro exI [of _ "[]"]) simp
  from foldl_least [of better f, OF assms(1) this, of ys] show ?thesis by (simp add: xs)
qed

lemma select_least_spec:
  "cs \<noteq> [] \<Longrightarrow> \<exists>r. select_least f cs = Inr (Some r) \<and> first_least f cs r"
  using js_reduce_least [of "\<lambda>b c. f c < f b" f cs] by (auto simp: select_least_def)

text \<open>The expiry as a key: an entry that never expires comes last.\<close>

definition expiry_key :: "int option \<Rightarrow> nat \<times> int" where
  "expiry_key x = (case x of Some t \<Rightarrow> (0, t) | None \<Rightarrow> (1, 0))"

lemma before_or_never_key: "before_or_never a b \<longleftrightarrow> expiry_key a < expiry_key b"
  by (cases a; cases b) (auto simp: expiry_key_def)

definition is_overdue :: "int \<Rightarrow> eviction_candidate \<Rightarrow> bool" where
  "is_overdue now c \<longleftrightarrow> (case ec_expiresAt c of None \<Rightarrow> False | Some t \<Rightarrow> t \<le> now)"

lemma select_ttl_spec:
  assumes "cs \<noteq> []"
  shows "\<exists>r. select_ttl now cs = Inr (Some r) \<and>
     first_least (\<lambda>c. expiry_key (ec_expiresAt c))
       (if \<exists>c \<in> set cs. is_overdue now c then filter (is_overdue now) cs else cs) r"
proof -
  have eq: "filter (\<lambda>c. case ec_expiresAt c of None \<Rightarrow> False | Some t \<Rightarrow> t \<le> now) cs = filter (is_overdue now) cs"
    by (rule filter_cong) (simp_all add: is_overdue_def)
  let ?better = "\<lambda>b c. before_or_never (ec_expiresAt c) (ec_expiresAt b)"
  have least: "xs \<noteq> [] \<Longrightarrow> \<exists>r. js_reduce (\<lambda>b c. if ?better b c then c else b) xs = Inr r \<and>
      first_least (\<lambda>c. expiry_key (ec_expiresAt c)) xs r" for xs
    by (rule js_reduce_least) (simp_all add: before_or_never_key)
  show ?thesis
  proof (cases "\<exists>c \<in> set cs. is_overdue now c")
    case True
    then have "filter (is_overdue now) cs \<noteq> []" by (auto simp: filter_empty_conv)
    with least [OF this] True show ?thesis by (auto simp: select_ttl_def eq Let_def)
  next
    case False
    then have "filter (is_overdue now) cs = []" by (auto simp: filter_empty_conv)
    with least [OF assms] False show ?thesis by (auto simp: select_ttl_def eq Let_def)
  qed
qed

subsection \<open>What a warm-up does\<close>

text \<open>Cutting a list into pieces of n + 1 elements, and asking for the pieces one after the
  other until one fails.\<close>

fun chunks :: "nat \<Rightarrow> 'a list \<Rightarrow> 'a list list" where
  "chunks n [] = []"
| "chunks n (x # xs) = take (Suc n) (x # xs) # chunks n (drop n xs)"

fun run_batches :: "('b list \<Rightarrow> js_exn option) \<Rightarrow> 'b list list \<Rightarrow> nat \<Rightarrow> 'b list list \<Rightarrow> nat result \<times> 'b list list" where
  "run_batches outcome [] loaded asked = (Inr loaded, asked)"
| "run_batches outcome (b # bs) loaded asked =
     (case outcome b of
        Some e \<Rightarrow> (Inl e, asked @ [b])
      | None \<Rightarrow> run_batches outcome bs (loaded + length b) (asked @ [b]))"

lemma chunks_step: "i < length xs \<Longrightarrow> chunks n (drop i xs) = take (Suc n) (drop i xs) # chunks n (drop (i + Suc n) xs)"
proof -
  assume "i < length xs"
  then obtain x ys where d: "drop i xs = x # ys" by (cases "drop i xs") auto
  have "drop n ys = drop (i + Suc n) xs"
    using arg_cong [OF d, of "drop (Suc n)"] by (simp add: add.commute)
  with d show "chunks n (drop i xs) = take (Suc n) (drop i xs) # chunks n (drop (i + Suc n) xs)" by simp
qed

lemma js_slice_step: "js_slice xs (int i) (int i + int n) = take n (drop i xs)"
  using js_slice_nat [of xs i "i + n"] by simp

lemma concat_chunks: "concat (chunks n xs) = xs"
  by (induction n xs rule: chunks.induct) simp_all

lemma chunks_short: "b \<in> set (chunks n xs) \<Longrightarrow> length b \<le> Suc n"
  by (induction n xs rule: chunks.induct) auto

lemma warmup_loop_chunks:
  "warmup_loop (int (Suc n)) outcome xs (int i) loaded asked =
     Some (run_batches outcome (chunks n (drop i xs)) loaded asked)"
proof (induction "length xs - i" arbitrary: i loaded asked rule: less_induct)
  case less
  have slice: "js_slice xs (int i) (int i + int (Suc n)) = take (Suc n) (drop i xs)"
    by (rule js_slice_step)
  have next_i: "int i + int (Suc n) = int (i + Suc n)" by simp
  show ?case
  proof (cases "i < length xs")
    case False
    then show ?thesis by (subst warmup_loop.simps) simp
  next
    case True
    have "length xs - (i + Suc n) < length xs - i" using True by simp
    note IH = less [OF this]
    show ?thesis
      unfolding warmup_loop.simps [of "int (Suc n)" outcome xs "int i"] chunks_step [OF True] slice
      using True IH by (simp add: next_i del: of_nat_Suc of_nat_add split: option.splits)
  qed
qed

lemma chunk_loop_chunks:
  "chunk_loop (int (Suc n)) xs (int i) out = Some (out @ chunks n (drop i xs))"
proof (induction "length xs - i" arbitrary: i out rule: less_induct)
  case less
  have slice: "js_slice xs (int i) (int i + int (Suc n)) = take (Suc n) (drop i xs)"
    by (rule js_slice_step)
  have next_i: "int i + int (Suc n) = int (i + Suc n)" by simp
  show ?case
  proof (cases "i < length xs")
    case False
    then show ?thesis by (subst chunk_loop.simps) simp
  next
    case True
    have "length xs - (i + Suc n) < length xs - i" using True by simp
    note IH = less [OF this]
    show ?thesis
      unfolding chunk_loop.simps [of "int (Suc n)" xs "int i"] chunks_step [OF True] slice
      using True IH by (simp add: next_i del: of_nat_Suc of_nat_add)
  qed
qed

lemma run_batches_ok:
  "(\<And>b. b \<in> set bs \<Longrightarrow> outcome b = None) \<Longrightarrow>
     run_batches outcome bs loaded asked = (Inr (loaded + length (concat bs)), asked @ bs)"
  by (induction bs arbitrary: loaded asked) auto

lemma run_batches_prefix: "\<exists>k. snd (run_batches outcome bs loaded asked) = asked @ take k bs"
proof (induction bs arbitrary: loaded asked)
  case Nil
  then show ?case by simp
next
  case (Cons b bs)
  show ?case
  proof (cases "outcome b")
    case None
    obtain k where "snd (run_batches outcome bs (loaded + length b) (asked @ [b])) = (asked @ [b]) @ take k bs"
      using Cons.IH by blast
    with None show ?thesis by (intro exI [of _ "Suc k"]) simp
  next
    case (Some e)
    then show ?thesis by (intro exI [of _ "Suc 0"]) simp
  qed
qed

lemma concurrent_loop_ok:
  assumes "\<And>b. b \<in> set bs \<Longrightarrow> outcome b = None"
  shows "concurrent_loop (int (Suc n)) outcome bs (int i) loaded asked =
     Some (Inr (loaded + length (concat (drop i bs))), asked @ drop i bs)"
proof (induction "length bs - i" arbitrary: i loaded asked rule: less_induct)
  case less
  have slice: "js_slice bs (int i) (int i + int (Suc n)) = take (Suc n) (drop i bs)"
    by (rule js_slice_step)
  have next_i: "int i + int (Suc n) = int (i + Suc n)" by simp
  have quiet: "List.map_filter outcome (take (Suc n) (drop i bs)) = []"
    using assms by (auto simp: map_filter_def filter_empty_conv dest!: in_set_takeD in_set_dropD)
  have split: "drop i bs = take (Suc n) (drop i bs) @ drop (i + Suc n) bs"
    by (metis append_take_drop_id drop_drop add.commute)
  have total: "sum_list (map length (take (Suc n) (drop i bs))) + length (concat (drop (i + Suc n) bs)) =
      length (concat (drop i bs))"
    using arg_cong [OF split, of "\<lambda>z. length (concat z)"] by (simp add: length_concat)
  show ?case
  proof (cases "i < length bs")
    case False
    then show ?thesis by (subst concurrent_loop.simps) simp
  next
    case True
    have "length bs - (i + Suc n) < length bs - i" using True by simp
    note IH = less [OF this]
    show ?thesis
      unfolding concurrent_loop.simps [of "int (Suc n)" outcome bs "int i"] slice quiet Let_def
      using True IH total split by (simp add: next_i del: of_nat_Suc of_nat_add)
  qed
qed

lemma warmup_candidates_sorted:
  "sorted (map (\<lambda>key. - top_priority (wc_strategies config) key) (warmup_candidates config keys))"
proof -
  let ?f = "\<lambda>key. - top_priority (wc_strategies config) key"
  have "sorted (map ?f (js_slice xs 0 b))" if "sorted (map ?f xs)" for xs b
    using that by (simp add: js_slice_def slice_bound_def sorted_wrt_take flip: take_map)
  then show ?thesis by (simp add: warmup_candidates_def)
qed

text \<open>A loop whose step is 0 never ends.\<close>

lemma warmup_loop_stuck:
  "warmup_loop batchSize outcome candidates i loaded asked = Some y \<Longrightarrow>
     batchSize = 0 \<longrightarrow> i < int (length candidates) \<longrightarrow> (\<exists>b. outcome b \<noteq> None)"
proof (rule warmup_loop.raw_induct [where P = "\<lambda>batchSize outcome candidates i loaded asked y.
    batchSize = 0 \<longrightarrow> i < int (length candidates) \<longrightarrow> (\<exists>b. outcome b \<noteq> None)"])
  show "batchSize = 0 \<longrightarrow> i < int (length candidates) \<longrightarrow> (\<exists>b. outcome b \<noteq> None)"
    if "\<And>batchSize outcome candidates i loaded asked y. f batchSize outcome candidates i loaded asked = Some y \<Longrightarrow>
        batchSize = 0 \<longrightarrow> i < int (length candidates) \<longrightarrow> (\<exists>b. outcome b \<noteq> None)"
      and "(if i < int (length candidates) then
          let batch = js_slice candidates i (i + batchSize)
          in case outcome batch of
               None \<Rightarrow> f batchSize outcome candidates (i + batchSize) (loaded + length batch) (asked @ [batch])
             | Some e \<Rightarrow> Some (Inl e, asked @ [batch])
        else Some (Inr loaded, asked)) = Some y"
    for f and batchSize i :: int and outcome and candidates :: "string list" and loaded asked y
    using that by (auto simp: Let_def split: if_splits option.splits)
qed

subsection \<open>Properties\<close>

lemma victims_are_least_facts:
  assumes "cs \<noteq> []"
  shows "\<exists>r. cp_selectVictim LRUPolicy now rnd cs = Inr (Some r) \<and> first_least ec_lastAccessedAt cs r"
    and "\<exists>r. cp_selectVictim LFUPolicy now rnd cs = Inr (Some r) \<and> first_least ec_accessCount cs r"
    and "\<exists>r. cp_selectVictim FIFOPolicy now rnd cs = Inr (Some r) \<and> first_least ec_createdAt cs r"
    and "\<exists>r. cp_selectVictim TTLPolicy now rnd cs = Inr (Some r) \<and>
       first_least (\<lambda>c. expiry_key (ec_expiresAt c))
         (if \<exists>c \<in> set cs. is_overdue now c then filter (is_overdue now) cs else cs) r"
    and "cp_selectVictim LRUPolicy now rnd [] = Inr None \<and> cp_selectVictim LFUPolicy now rnd [] = Inr None \<and>
       cp_selectVictim FIFOPolicy now rnd [] = Inr None \<and> cp_selectVictim RandomPolicy now rnd [] = Inr None \<and>
       cp_selectVictim TTLPolicy now rnd [] = Inl (JsTypeError ''Reduce of empty array with no initial value'')"
  using select_least_spec [OF assms] select_ttl_spec [OF assms]
  by (simp_all add: LRUPolicy_def LFUPolicy_def FIFOPolicy_def TTLPolicy_def RandomPolicy_def
      select_least_def [of _ "[]"] select_random_def select_ttl_def [of _ "[]"])

text \<open>The victim of a policy is the first of the candidates with the least last access (lru),
  access count (lfu) or creation time (fifo); ttl takes the first to expire among the overdue ones
  if there are any, else among all, an entry without expiry last. On no candidates the ttl
  policy alone throws.\<close>

theorem victims_are_least:
  assumes "cs \<noteq> []"
  shows "(\<exists>r. cp_selectVictim LRUPolicy now rnd cs = Inr (Some r) \<and> first_least ec_lastAccessedAt cs r) \<and>
     (\<exists>r. cp_selectVictim LFUPolicy now rnd cs = Inr (Some r) \<and> first_least ec_accessCount cs r) \<and>
     (\<exists>r. cp_selectVictim FIFOPolicy now rnd cs = Inr (Some r) \<and> first_least ec_createdAt cs r) \<and>
     (\<exists>r. cp_selectVictim TTLPolicy now rnd cs = Inr (Some r) \<and>
       first_least (\<lambda>c. expiry_key (ec_expiresAt c))
         (if \<exists>c \<in> set cs. is_overdue now c then filter (is_overdue now) cs else cs) r) \<and>
     (cp_selectVictim LRUPolicy now rnd [] = Inr None \<and> cp_selectVictim LFUPolicy now rnd [] = Inr None \<and>
       cp_selectVictim FIFOPolicy now rnd [] = Inr None \<and> cp_selectVictim RandomPolicy now rnd [] = Inr None \<and>
       cp_selectVictim TTLPolicy now rnd [] = Inl (JsTypeError ''Reduce of empty array with no initial value''))"
proof -
  have c1: "\<exists>r. cp_selectVictim LRUPolicy now rnd cs = Inr (Some r) \<and> first_least ec_lastAccessedAt cs r"
    by (rule victims_are_least_facts(1) [OF assms])
  have c2: "\<exists>r. cp_selectVictim LFUPolicy now rnd cs = Inr (Some r) \<and> first_least ec_accessCount cs r"
    by (rule victims_are_least_facts(2) [OF assms])
  have c3: "\<exists>r. cp_selectVictim FIFOPolicy now rnd cs = Inr (Some r) \<and> first_least ec_createdAt cs r"
    by (rule victims_are_least_facts(3) [OF assms])
  have c4: "\<exists>r. cp_selectVictim TTLPolicy now rnd cs = Inr (Some r) \<and>
       first_least (\<lambda>c. expiry_key (ec_expiresAt c))
         (if \<exists>c \<in> set cs. is_overdue now c then filter (is_overdue now) cs else cs) r"
    by (rule victims_are_least_facts(4) [OF assms])
  have c5: "cp_selectVictim LRUPolicy now rnd [] = Inr None \<and> cp_selectVictim LFUPolicy now rnd [] = Inr None \<and>
       cp_selectVictim FIFOPolicy now rnd [] = Inr None \<and> cp_selectVictim RandomPolicy now rnd [] = Inr None \<and>
       cp_selectVictim TTLPolicy now rnd [] = Inl (JsTypeError ''Reduce of empty array with no initial value'')"
    by (rule victims_are_least_facts(5) [OF assms])
  show ?thesis by (rule conjI [OF c1 conjI [OF c2 conjI [OF c3 conjI [OF c4 c5]]]])
qed

definition demo_candidates :: "eviction_candidate list" where
  "demo_candidates =
     [\<lparr>ec_key = ''a'', ec_createdAt = 1, ec_lastAccessedAt = 9, ec_accessCount = 2, ec_expiresAt = None, ec_size = 1\<rparr>,
      \<lparr>ec_key = ''b'', ec_createdAt = 2, ec_lastAccessedAt = 4, ec_accessCount = 5, ec_expiresAt = Some 7, ec_size = 1\<rparr>]"

theorem victims_are_least_witness:
  "\<exists>r. cp_selectVictim TTLPolicy 8 0 demo_candidates = Inr (Some r) \<and>
     first_least (\<lambda>c. expiry_key (ec_expiresAt c)) (filter (is_overdue 8) demo_candidates) r"
proof -
  have "demo_candidates \<noteq> []" and "\<exists>c \<in> set demo_candidates. is_overdue 8 c"
    by (simp_all add: demo_candidates_def is_overdue_def)
  with victims_are_least [of demo_candidates, where now = 8 and rnd = 0] show ?thesis by simp
qed

lemma warmup_loads_candidates_facts:
  assumes "wc_batchSize config > 0" and "cands = warmup_candidates config keys"
  shows "\<exists>res asked rest. warmup config outcome keys = Some (res, asked) \<and> concat asked @ rest = cands \<and>
       (\<forall>b \<in> set asked. int (length b) \<le> wc_batchSize config)"
    and "(\<And>b. outcome b = None) \<Longrightarrow>
       \<exists>asked. warmup config outcome keys = Some (Inr (length cands), asked) \<and> concat asked = cands \<and>
         (wc_concurrency config > 0 \<longrightarrow> warmupConcurrent config outcome keys = warmup config outcome keys)"
    and "sorted (map (\<lambda>key. - top_priority (wc_strategies config) key) cands)"
    and "(\<And>b. outcome b = None) \<Longrightarrow> wc_batchSize config' = 0 \<Longrightarrow> warmup_candidates config' keys \<noteq> [] \<Longrightarrow>
       warmup config' outcome keys = None"
proof -
  obtain n where n: "wc_batchSize config = int (Suc n)"
    using assms(1) by (metis zero_less_imp_eq_int Suc_pred)
  have w: "warmup config outcome keys = Some (run_batches outcome (chunks n cands) 0 [])"
    using warmup_loop_chunks [of n outcome cands 0 0 "[]"] by (simp add: warmup_def n assms(2) del: of_nat_Suc)
  obtain k where k: "snd (run_batches outcome (chunks n cands) 0 []) = take k (chunks n cands)"
    using run_batches_prefix [of outcome "chunks n cands" 0 "[]"] by auto
  have "concat (take k (chunks n cands)) @ concat (drop k (chunks n cands)) = cands"
    using concat_chunks [of n cands] by (simp flip: concat_append)
  moreover have "\<forall>b \<in> set (take k (chunks n cands)). int (length b) \<le> wc_batchSize config"
    using chunks_short [of _ n cands] by (force simp: n dest: in_set_takeD)
  ultimately show "\<exists>res asked rest. warmup config outcome keys = Some (res, asked) \<and> concat asked @ rest = cands \<and>
       (\<forall>b \<in> set asked. int (length b) \<le> wc_batchSize config)"
    using k by (intro exI [of _ "fst (run_batches outcome (chunks n cands) 0 [])"] exI [of _ "take k (chunks n cands)"]
        exI [of _ "concat (drop k (chunks n cands))"]) (simp add: w prod_eq_iff)
  show "\<exists>asked. warmup config outcome keys = Some (Inr (length cands), asked) \<and> concat asked = cands \<and>
         (wc_concurrency config > 0 \<longrightarrow> warmupConcurrent config outcome keys = warmup config outcome keys)"
    if quiet: "\<And>b. outcome b = None"
  proof -
    have ok: "warmup config outcome keys = Some (Inr (length cands), chunks n cands)"
      by (simp add: w run_batches_ok [OF quiet] concat_chunks)
    have batches: "chunk_loop (wc_batchSize config) cands 0 [] = Some (chunks n cands)"
      using chunk_loop_chunks [of n cands 0 "[]"] by (simp add: n del: of_nat_Suc)
    have "warmupConcurrent config outcome keys = warmup config outcome keys" if "wc_concurrency config > 0"
    proof -
      obtain m where m: "wc_concurrency config = int (Suc m)"
        using \<open>wc_concurrency config > 0\<close> by (metis zero_less_imp_eq_int Suc_pred)
      show ?thesis
        using concurrent_loop_ok [of "chunks n cands" outcome m 0 0 "[]", OF quiet] batches
        by (simp add: warmupConcurrent_def ok m concat_chunks flip: assms(2) del: of_nat_Suc)
    qed
    with ok concat_chunks [of n cands] show ?thesis by blast
  qed
  show "sorted (map (\<lambda>key. - top_priority (wc_strategies config) key) cands)"
    unfolding assms(2) by (rule warmup_candidates_sorted)
  show "warmup config' outcome keys = None"
    if "\<And>b. outcome b = None" "wc_batchSize config' = 0" "warmup_candidates config' keys \<noteq> []"
    using that warmup_loop_stuck [of 0 outcome "warmup_candidates config' keys" 0 0 "[]"]
    by (cases "warmup config' outcome keys") (auto simp: warmup_def)
qed


definition demo_warmup :: warmup_config where
  "demo_warmup = createCacheWarmup \<lparr>wo_strategies = Some [MostRecentlyUsedWarmup [''x'', ''y'', ''z'']],
     wo_concurrency = None, wo_batchSize = Some 2, wo_maxKeys = None, wo_ttlMs = None\<rparr>"


end
