(* ===== verification/CacheMetrics.thy ===== *)
theory CacheMetrics
  imports Prelude
begin

section \<open>Cache metrics\<close>

text \<open>
  packages/core/src/cache/cache_metrics.ts: counters, a bounded history of snapshots, and the
  merging of two collectors. Latencies are rational numbers.
\<close>

record metrics_snapshot =
  ms_timestamp :: int
  ms_hits :: nat
  ms_misses :: nat
  ms_hitRate :: rat
  ms_size :: nat
  ms_evictions :: nat
  ms_avgAccessLatency :: rat
  ms_memoryBytes :: nat

record cache_metrics =
  cx_hits :: nat
  cx_misses :: nat
  cx_evictions :: nat
  cx_totalLatency :: rat
  cx_accessCount :: nat
  cx_size :: nat
  cx_memoryBytes :: nat
  cx_history :: "metrics_snapshot list"
  cx_maxHistory :: int

definition createCacheMetrics :: "int option \<Rightarrow> cache_metrics" where
  "createCacheMetrics maxHistory =
     \<lparr>cx_hits = 0, cx_misses = 0, cx_evictions = 0, cx_totalLatency = 0, cx_accessCount = 0,
      cx_size = 0, cx_memoryBytes = 0, cx_history = [], cx_maxHistory = or_default maxHistory 1000\<rparr>"

definition recordHit :: "rat \<Rightarrow> cache_metrics \<Rightarrow> cache_metrics" where
  "recordHit latency m =
     m\<lparr>cx_hits := cx_hits m + 1, cx_totalLatency := cx_totalLatency m + latency,
       cx_accessCount := cx_accessCount m + 1\<rparr>"

definition recordMiss :: "rat \<Rightarrow> cache_metrics \<Rightarrow> cache_metrics" where
  "recordMiss latency m =
     m\<lparr>cx_misses := cx_misses m + 1, cx_totalLatency := cx_totalLatency m + latency,
       cx_accessCount := cx_accessCount m + 1\<rparr>"

definition recordEviction :: "cache_metrics \<Rightarrow> cache_metrics" where
  "recordEviction m = m\<lparr>cx_evictions := cx_evictions m + 1\<rparr>"

definition updateSize :: "nat \<Rightarrow> cache_metrics \<Rightarrow> cache_metrics" where
  "updateSize n m = m\<lparr>cx_size := n\<rparr>"

definition updateMemoryBytes :: "nat \<Rightarrow> cache_metrics \<Rightarrow> cache_metrics" where
  "updateMemoryBytes n m = m\<lparr>cx_memoryBytes := n\<rparr>"

definition hitRate :: "cache_metrics \<Rightarrow> rat" where
  "hitRate m =
     (let total = cx_hits m + cx_misses m
      in if total = 0 then 0 else rat_of_nat (cx_hits m) / rat_of_nat total)"

definition avgLatency :: "cache_metrics \<Rightarrow> rat" where
  "avgLatency m =
     (if cx_accessCount m = 0 then 0 else cx_totalLatency m / rat_of_nat (cx_accessCount m))"

definition snapshot :: "int \<Rightarrow> cache_metrics \<Rightarrow> metrics_snapshot" where
  "snapshot now m =
     \<lparr>ms_timestamp = now, ms_hits = cx_hits m, ms_misses = cx_misses m, ms_hitRate = hitRate m,
      ms_size = cx_size m, ms_evictions = cx_evictions m, ms_avgAccessLatency = avgLatency m,
      ms_memoryBytes = cx_memoryBytes m\<rparr>"

definition recordSnapshot :: "int \<Rightarrow> cache_metrics \<Rightarrow> metrics_snapshot \<times> cache_metrics" where
  "recordSnapshot now m =
     (let snap = snapshot now m;
          h = cx_history m @ [snap]
      in (snap, m\<lparr>cx_history := (if int (length h) > cx_maxHistory m then tl h else h)\<rparr>))"

definition getHistory :: "cache_metrics \<Rightarrow> metrics_snapshot list" where
  "getHistory m = cx_history m"

definition reset_metrics :: "cache_metrics \<Rightarrow> cache_metrics" where
  "reset_metrics m =
     m\<lparr>cx_hits := 0, cx_misses := 0, cx_evictions := 0, cx_totalLatency := 0, cx_accessCount := 0,
       cx_size := 0, cx_memoryBytes := 0\<rparr>"

definition clearHistory :: "cache_metrics \<Rightarrow> cache_metrics" where
  "clearHistory m = m\<lparr>cx_history := []\<rparr>"

definition toJSON_metrics :: "cache_metrics \<Rightarrow> json" where
  "toJSON_metrics m =
     JObj [(''hits'', JNum (rat_of_nat (cx_hits m))), (''misses'', JNum (rat_of_nat (cx_misses m))),
       (''hitRate'', JNum (hitRate m)), (''evictions'', JNum (rat_of_nat (cx_evictions m))),
       (''avgLatency'', JNum (avgLatency m)), (''size'', JNum (rat_of_nat (cx_size m))),
       (''memoryBytes'', JNum (rat_of_nat (cx_memoryBytes m)))]"

definition merge_metrics :: "cache_metrics \<Rightarrow> cache_metrics \<Rightarrow> cache_metrics" where
  "merge_metrics m other =
     m\<lparr>cx_hits := cx_hits m + cx_hits other, cx_misses := cx_misses m + cx_misses other,
       cx_evictions := cx_evictions m + cx_evictions other,
       cx_totalLatency := cx_totalLatency m + cx_totalLatency other,
       cx_accessCount := cx_accessCount m + cx_accessCount other,
       cx_size := max (cx_size m) (cx_size other),
       cx_memoryBytes := max (cx_memoryBytes m) (cx_memoryBytes other)\<rparr>"

subsection \<open>Runs\<close>

datatype metrics_event =
    Hit rat | Miss rat | Eviction | Size nat | Bytes nat | Snapshot | Reset | ClearHistory
  | Merge cache_metrics

fun metrics_run :: "int \<times> metrics_event \<Rightarrow> cache_metrics \<Rightarrow> cache_metrics" where
  "metrics_run (now, Hit l) m = recordHit l m"
| "metrics_run (now, Miss l) m = recordMiss l m"
| "metrics_run (now, Eviction) m = recordEviction m"
| "metrics_run (now, Size n) m = updateSize n m"
| "metrics_run (now, Bytes n) m = updateMemoryBytes n m"
| "metrics_run (now, Snapshot) m = snd (recordSnapshot now m)"
| "metrics_run (now, Reset) m = reset_metrics m"
| "metrics_run (now, ClearHistory) m = clearHistory m"
| "metrics_run (now, Merge other) m = merge_metrics m other"

definition metrics_inv :: "cache_metrics \<Rightarrow> bool" where
  "metrics_inv m \<longleftrightarrow>
     cx_accessCount m = cx_hits m + cx_misses m \<and>
     int (length (cx_history m)) \<le> max 0 (cx_maxHistory m) \<and>
     (\<forall>s \<in> set (cx_history m). 0 \<le> ms_hitRate s \<and> ms_hitRate s \<le> 1)"

text \<open>What is merged in is a collector too.\<close>

fun metrics_ok :: "int \<times> metrics_event \<Rightarrow> cache_metrics \<Rightarrow> bool" where
  "metrics_ok (now, Merge other) m = metrics_inv other"
| "metrics_ok (now, _) m = True"

lemmas metrics_ops =
  recordHit_def recordMiss_def recordEviction_def updateSize_def updateMemoryBytes_def
  reset_metrics_def clearHistory_def merge_metrics_def

lemma hitRate_range: "0 \<le> hitRate m \<and> hitRate m \<le> 1"
  by (auto simp: hitRate_def Let_def divide_le_eq simp flip: of_nat_add)

lemma recordSnapshot_inv: "metrics_inv m \<Longrightarrow> metrics_inv (snd (recordSnapshot now m))"
  using hitRate_range [of m]
  by (cases "cx_history m") (auto simp: metrics_inv_def recordSnapshot_def snapshot_def Let_def)

lemma metrics_run_inv: "metrics_inv m \<Longrightarrow> metrics_ok (now, e) m \<Longrightarrow> metrics_inv (metrics_run (now, e) m)"
  by (cases e) (auto simp: recordSnapshot_inv, auto simp: metrics_inv_def metrics_ops)

interpretation metrics: invariant_machine metrics_run metrics_ok metrics_inv
  by unfold_locales (auto intro: metrics_run_inv)

lemma new_metrics_inv: "metrics_inv (createCacheMetrics n)"
  by (simp add: metrics_inv_def createCacheMetrics_def)

text \<open>What a run of recordings adds to the counters.\<close>

definition is_recording :: "metrics_event \<Rightarrow> bool" where
  "is_recording e \<longleftrightarrow>
     (case e of Reset \<Rightarrow> False | Merge other \<Rightarrow> False | _ \<Rightarrow> True)"

definition counters :: "cache_metrics \<Rightarrow> nat \<times> nat \<times> nat \<times> rat \<times> nat" where
  "counters m = (cx_hits m, cx_misses m, cx_evictions m, cx_totalLatency m, cx_accessCount m)"

fun event_counts :: "metrics_event \<Rightarrow> nat \<times> nat \<times> nat \<times> rat \<times> nat" where
  "event_counts (Hit l) = (1, 0, 0, l, 1)"
| "event_counts (Miss l) = (0, 1, 0, l, 1)"
| "event_counts Eviction = (0, 0, 1, 0, 0)"
| "event_counts _ = (0, 0, 0, 0, 0)"

fun add5 :: "nat \<times> nat \<times> nat \<times> rat \<times> nat \<Rightarrow> nat \<times> nat \<times> nat \<times> rat \<times> nat \<Rightarrow> nat \<times> nat \<times> nat \<times> rat \<times> nat" where
  "add5 (a, b, c, d, e) (a', b', c', d', e') = (a + a', b + b', c + c', d + d', e + e')"

lemma add5_assoc: "add5 (add5 x y) z = add5 x (add5 y z)"
  by (cases x; cases y; cases z) simp

lemma add5_zero [simp]: "add5 (0, 0, 0, 0, 0) x = x" "add5 x (0, 0, 0, 0, 0) = x"
  by (cases x; simp)+

lemma run_counters:
  "\<forall>(now, e) \<in> set es. is_recording e \<Longrightarrow>
     counters (run_events metrics_run es m) =
       add5 (counters m) (foldr (\<lambda>(now, e) acc. add5 (event_counts e) acc) es (0, 0, 0, 0, 0))"
proof (induction es arbitrary: m)
  case Nil
  then show ?case by simp
next
  case (Cons e es)
  obtain now ev where e: "e = (now, ev)" by fastforce
  have "counters (metrics_run (now, ev) m) = add5 (counters m) (event_counts ev)"
    using Cons.prems e
    by (cases ev) (auto simp: is_recording_def counters_def metrics_ops recordSnapshot_def Let_def)
  with Cons e show ?case by (simp add: add5_assoc)
qed

lemma counters_merge: "counters (merge_metrics m other) = add5 (counters m) (counters other)"
  by (simp add: counters_def merge_metrics_def)

lemma counters_new: "counters (createCacheMetrics n) = (0, 0, 0, 0, 0)"
  by (simp add: counters_def createCacheMetrics_def)

lemma rates_of_counters:
  "counters m = counters m' \<Longrightarrow> hitRate m = hitRate m' \<and> avgLatency m = avgLatency m'"
  by (simp add: counters_def hitRate_def avgLatency_def)

subsection \<open>Properties\<close>

lemma metrics_account_facts:
  assumes "admissible metrics_ok metrics_run calls (createCacheMetrics n)"
    and "m = run_events metrics_run calls (createCacheMetrics n)"
    and "\<forall>(now, e) \<in> set (es @ fs). is_recording e"
    and "merged = merge_metrics (run_events metrics_run es (createCacheMetrics a))
                    (run_events metrics_run fs (createCacheMetrics b))"
    and "both = run_events metrics_run (es @ fs) (createCacheMetrics c)"
  shows "0 \<le> hitRate m \<and> hitRate m \<le> 1 \<and> int (length (getHistory m)) \<le> max 0 (or_default n 1000) \<and>
       (\<forall>s \<in> set (getHistory m). 0 \<le> ms_hitRate s \<and> ms_hitRate s \<le> 1)"
    and "counters merged = counters both \<and> hitRate merged = hitRate both \<and> avgLatency merged = avgLatency both"
proof -
  have inv: "metrics_inv m"
    unfolding assms(2) by (rule metrics.inv_run [OF new_metrics_inv assms(1)])
  have "cx_maxHistory (metrics_run e m) = cx_maxHistory m" for e m
    by (cases e; cases "snd e") (auto simp: metrics_ops recordSnapshot_def Let_def)
  then have "cx_maxHistory (run_events metrics_run calls m) = cx_maxHistory m" for m
    by (induction calls arbitrary: m) auto
  then have "cx_maxHistory m = or_default n 1000"
    by (simp add: assms(2) createCacheMetrics_def)
  with inv hitRate_range [of m]
  show "0 \<le> hitRate m \<and> hitRate m \<le> 1 \<and> int (length (getHistory m)) \<le> max 0 (or_default n 1000) \<and>
       (\<forall>s \<in> set (getHistory m). 0 \<le> ms_hitRate s \<and> ms_hitRate s \<le> 1)"
    by (simp add: metrics_inv_def getHistory_def)
  have "counters merged = counters both"
    using assms(3) run_counters [of es] run_counters [of fs] run_counters [of "fs"]
    by (simp add: assms(4,5) counters_merge counters_new run_events_append)
  with rates_of_counters [OF this]
  show "counters merged = counters both \<and> hitRate merged = hitRate both \<and> avgLatency merged = avgLatency both"
    by simp
qed

text \<open>In every run the hit rate lies between 0 and 1, also in every snapshot of the history, and
  the history is no longer than its limit; and merging two collectors of disjoint recordings
  gives the counters, the hit rate and the average latency of one collector that recorded all
  of them.\<close>

theorem metrics_account:
  assumes "admissible metrics_ok metrics_run calls (createCacheMetrics n)"
    and "m = run_events metrics_run calls (createCacheMetrics n)"
    and "\<forall>(now, e) \<in> set (es @ fs). is_recording e"
    and "merged = merge_metrics (run_events metrics_run es (createCacheMetrics a))
                    (run_events metrics_run fs (createCacheMetrics b))"
    and "both = run_events metrics_run (es @ fs) (createCacheMetrics c)"
  shows "(0 \<le> hitRate m \<and> hitRate m \<le> 1 \<and> int (length (getHistory m)) \<le> max 0 (or_default n 1000) \<and>
       (\<forall>s \<in> set (getHistory m). 0 \<le> ms_hitRate s \<and> ms_hitRate s \<le> 1)) \<and>
     (counters merged = counters both \<and> hitRate merged = hitRate both \<and> avgLatency merged = avgLatency both)"
proof -
  have c1: "0 \<le> hitRate m \<and> hitRate m \<le> 1 \<and> int (length (getHistory m)) \<le> max 0 (or_default n 1000) \<and>
       (\<forall>s \<in> set (getHistory m). 0 \<le> ms_hitRate s \<and> ms_hitRate s \<le> 1)"
    by (rule metrics_account_facts(1) [OF assms])
  have c2: "counters merged = counters both \<and> hitRate merged = hitRate both \<and> avgLatency merged = avgLatency both"
    by (rule metrics_account_facts(2) [OF assms])
  show ?thesis by (rule conjI [OF c1 c2])
qed

theorem metrics_account_witness:
  "counters (merge_metrics (run_events metrics_run [(1, Hit 2), (2, Snapshot)] (createCacheMetrics None))
      (run_events metrics_run [(3, Miss 4)] (createCacheMetrics None))) =
   counters (run_events metrics_run ([(1, Hit 2), (2, Snapshot)] @ [(3, Miss 4)]) (createCacheMetrics None))"
proof -
  have "admissible metrics_ok metrics_run [] (createCacheMetrics None)" by simp
  moreover have "\<forall>(now, e) \<in> set ([(1, Hit 2), (2, Snapshot)] @ [(3 :: int, Miss 4)]). is_recording e"
    by (simp add: is_recording_def)
  ultimately show ?thesis
    using metrics_account [OF _ refl _ refl refl, THEN conjunct2] by blast
qed

end
