(* ===== verification/Rbac.thy ===== *)
theory Rbac
  imports Prelude
begin

section \<open>Role-based access control\<close>

text \<open>
  packages/core/src/auth/rbac.ts: the table of roles, the permissions a role collects from its
  own list and from the roles it inherits, and the decisions taken on them. The Map that
  collects permissions is keyed by the text "action:resource"; no action contains a colon, so a
  pair stands for the text.
\<close>

datatype action =
    ActCreate | ActRead | ActUpdate | ActDelete | ActApprove | ActReject | ActVerify | ActExport | ActAdmin

datatype resource =
    ResKycWorkflow | ResKycDocument | ResKycReview | ResCredential | ResDid | ResUser | ResBilling
  | ResAuditLog | ResWebhook | ResNotification | ResAnalytics | ResCompliance | ResAdmin
  | ResPrivacyData | ResPrivacyConsent | ResApiKey | ResMfaSettings

datatype role_name =
    RoleAdmin | RoleOperator | RoleAnalyst | RoleViewer | RoleComplianceOfficer | RoleAuditor
  | RoleApiService

record permission =
  pm_action :: action
  pm_resource :: resource
  pm_conditions :: "(string, json) jsmap option"

record role =
  ro_name :: role_name
  ro_permissions :: "permission list"
  ro_inherits :: "role_name list"

definition grant :: "action \<Rightarrow> resource \<Rightarrow> permission" where
  "grant a r = \<lparr>pm_action = a, pm_resource = r, pm_conditions = None\<rparr>"

definition grant_owned :: "action \<Rightarrow> resource \<Rightarrow> permission" where
  "grant_owned a r = \<lparr>pm_action = a, pm_resource = r, pm_conditions = Some [(''owned'', JBool True)]\<rparr>"

fun ROLES :: "role_name \<Rightarrow> role" where
  "ROLES RoleAdmin = \<lparr>ro_name = RoleAdmin, ro_permissions =
       [grant ActAdmin ResAdmin, grant ActCreate ResKycWorkflow, grant ActRead ResKycWorkflow,
        grant ActUpdate ResKycWorkflow, grant ActDelete ResKycWorkflow,
        grant ActCreate ResKycDocument, grant ActRead ResKycDocument,
        grant ActUpdate ResKycDocument, grant ActDelete ResKycDocument,
        grant ActApprove ResKycReview, grant ActReject ResKycReview,
        grant ActCreate ResCredential, grant ActRead ResCredential,
        grant ActUpdate ResCredential, grant ActDelete ResCredential, grant ActCreate ResDid,
        grant ActRead ResDid, grant ActUpdate ResDid, grant ActDelete ResDid,
        grant ActAdmin ResBilling, grant ActAdmin ResAuditLog, grant ActAdmin ResWebhook,
        grant ActAdmin ResNotification, grant ActAdmin ResAnalytics,
        grant ActAdmin ResCompliance, grant ActAdmin ResPrivacyData,
        grant ActAdmin ResPrivacyConsent, grant ActAdmin ResApiKey, grant ActAdmin ResMfaSettings],
     ro_inherits = []\<rparr>"
| "ROLES RoleOperator = \<lparr>ro_name = RoleOperator, ro_permissions =
       [grant ActCreate ResKycWorkflow, grant ActRead ResKycWorkflow,
        grant ActUpdate ResKycWorkflow, grant ActCreate ResKycDocument,
        grant ActRead ResKycDocument, grant ActUpdate ResKycDocument,
        grant ActApprove ResKycReview, grant ActReject ResKycReview,
        grant ActVerify ResCredential, grant ActRead ResCredential, grant ActRead ResDid,
        grant ActExport ResAnalytics],
     ro_inherits = [RoleViewer]\<rparr>"
| "ROLES RoleAnalyst = \<lparr>ro_name = RoleAnalyst, ro_permissions =
       [grant ActRead ResKycWorkflow, grant ActRead ResKycDocument, grant ActRead ResKycReview,
        grant ActRead ResCredential, grant ActRead ResDid, grant ActRead ResAnalytics],
     ro_inherits = []\<rparr>"
| "ROLES RoleViewer = \<lparr>ro_name = RoleViewer, ro_permissions =
       [grant_owned ActRead ResKycWorkflow, grant_owned ActRead ResKycDocument,
        grant_owned ActRead ResCredential, grant_owned ActRead ResDid],
     ro_inherits = []\<rparr>"
| "ROLES RoleComplianceOfficer = \<lparr>ro_name = RoleComplianceOfficer, ro_permissions =
       [grant ActRead ResKycWorkflow, grant ActRead ResKycDocument, grant ActRead ResKycReview,
        grant ActRead ResCredential, grant ActRead ResDid, grant ActRead ResCompliance,
        grant ActRead ResAuditLog, grant ActRead ResPrivacyData, grant ActRead ResPrivacyConsent,
        grant ActExport ResCompliance],
     ro_inherits = []\<rparr>"
| "ROLES RoleAuditor = \<lparr>ro_name = RoleAuditor, ro_permissions =
       [grant ActRead ResAuditLog, grant ActRead ResKycWorkflow, grant ActRead ResCredential,
        grant ActRead ResCompliance, grant ActExport ResAuditLog],
     ro_inherits = []\<rparr>"
| "ROLES RoleApiService = \<lparr>ro_name = RoleApiService, ro_permissions =
       [grant ActCreate ResKycWorkflow, grant ActRead ResKycWorkflow,
        grant ActCreate ResKycDocument, grant ActRead ResKycDocument,
        grant ActVerify ResCredential, grant ActCreate ResCredential, grant ActRead ResDid,
        grant ActRead ResNotification],
     ro_inherits = []\<rparr>"

definition getRole :: "role_name \<Rightarrow> role" where
  "getRole n = ROLES n"

definition listRoles :: "role list" where
  "listRoles = map ROLES [RoleAdmin, RoleOperator, RoleAnalyst, RoleViewer, RoleComplianceOfficer,
     RoleAuditor, RoleApiService]"

type_synonym permission_map = "(action \<times> resource, permission) jsmap"

definition add_permission :: "permission_map \<Rightarrow> permission \<Rightarrow> permission_map" where
  "add_permission m p = jm_set (pm_action p, pm_resource p) p m"

text \<open>The inner function collect and its loop over the inherited roles.\<close>

function (sequential) collect :: "role_name \<Rightarrow> permission_map \<Rightarrow> permission_map"
  and collect_all :: "role_name list \<Rightarrow> permission_map \<Rightarrow> permission_map" where
  "collect n m = collect_all (ro_inherits (ROLES n)) (foldl add_permission m (ro_permissions (ROLES n)))"
| "collect_all [] m = m"
| "collect_all (n # ns) m = collect_all ns (collect n m)"
  by pat_completeness auto
termination
proof (relation "measure (\<lambda>x. case x of
      Inl (n, m) \<Rightarrow> (if n = RoleOperator then 5 else 2)
    | Inr (ns, m) \<Rightarrow> length ns + sum_list (map (\<lambda>n. if n = RoleOperator then 5 else 2) ns))", goal_cases)
  case (2 n m)
  show ?case by (cases n) simp_all
qed auto

declare collect.simps [simp del]

definition getEffectivePermissions :: "role_name \<Rightarrow> permission list" where
  "getEffectivePermissions roleName = jm_values (collect roleName jm_empty)"

text \<open>\<open>a === b\<close>: distinct objects are never equal; \<open>conditions[key]\<close> may be undefined.\<close>

definition strict_eq :: "json option \<Rightarrow> json \<Rightarrow> bool" where
  "strict_eq a b \<longleftrightarrow>
     (case b of JArr _ \<Rightarrow> False | JObj _ \<Rightarrow> False | _ \<Rightarrow> a = Some b)"

definition permits ::
    "action \<Rightarrow> resource \<Rightarrow> (string, json) jsmap option \<Rightarrow> permission \<Rightarrow> bool" where
  "permits a r conditions p =
     (if pm_action p \<noteq> a \<and> pm_action p \<noteq> ActAdmin then False
      else if pm_resource p \<noteq> r then False
      else case (pm_conditions p, conditions) of
             (Some pc, Some c) \<Rightarrow> list_all (\<lambda>(key, v). strict_eq (jm_get c key) v) pc
           | (Some pc, None) \<Rightarrow> False
           | (None, _) \<Rightarrow> True)"

definition hasPermission ::
    "role_name \<Rightarrow> action \<Rightarrow> resource \<Rightarrow> (string, json) jsmap option \<Rightarrow> bool" where
  "hasPermission roleName a r conditions = list_ex (permits a r conditions) (getEffectivePermissions roleName)"

definition getPermissionsForAction :: "action \<Rightarrow> resource \<Rightarrow> role_name list" where
  "getPermissionsForAction a r =
     map ro_name (filter (\<lambda>role. hasPermission (ro_name role) a r None) listRoles)"

subsection \<open>What a role declares\<close>

inductive declared :: "role_name \<Rightarrow> permission \<Rightarrow> bool" where
  own: "p \<in> set (ro_permissions (ROLES n)) \<Longrightarrow> declared n p"
| inherited: "n' \<in> set (ro_inherits (ROLES n)) \<Longrightarrow> declared n' p \<Longrightarrow> declared n p"

lemma values_jm_set: "set (jm_values (jm_set k v m)) \<subseteq> insert v (set (jm_values m))"
  by (induction m) (auto simp: jm_values_def jm_set_def)

lemma values_add_permissions: "set (jm_values (foldl add_permission m ps)) \<subseteq> set (jm_values m) \<union> set ps"
proof (induction ps arbitrary: m)
  case Nil
  then show ?case by simp
next
  case (Cons p ps)
  have "set (jm_values (add_permission m p)) \<subseteq> insert p (set (jm_values m))"
    unfolding add_permission_def by (rule values_jm_set)
  with Cons [of "add_permission m p"] show ?case by auto
qed

lemma collected_declared:
  "p \<in> set (jm_values (collect n m)) \<Longrightarrow> p \<in> set (jm_values m) \<or> declared n p"
  "p \<in> set (jm_values (collect_all ns m)) \<Longrightarrow> p \<in> set (jm_values m) \<or> (\<exists>n \<in> set ns. declared n p)"
proof (induction n m and ns m rule: collect_collect_all.induct)
  case (1 n m)
  then show ?case
    using values_add_permissions [of m "ro_permissions (ROLES n)"]
    by (auto simp: collect.simps intro: declared.intros)
next
  case (2 m)
  then show ?case by simp
next
  case (3 n ns m)
  then show ?case by auto
qed

lemma effective_declared: "p \<in> set (getEffectivePermissions n) \<Longrightarrow> declared n p"
  using collected_declared(1) [of p n jm_empty]
  by (simp add: getEffectivePermissions_def jm_values_def jm_empty_def)

text \<open>Without inheritance nothing is overwritten; the operator's four read permissions are, by the
  conditional ones of the viewer.\<close>

lemma effective_table:
  "getEffectivePermissions RoleAdmin = ro_permissions (ROLES RoleAdmin)"
  "getEffectivePermissions RoleAnalyst = ro_permissions (ROLES RoleAnalyst)"
  "getEffectivePermissions RoleViewer = ro_permissions (ROLES RoleViewer)"
  "getEffectivePermissions RoleComplianceOfficer = ro_permissions (ROLES RoleComplianceOfficer)"
  "getEffectivePermissions RoleAuditor = ro_permissions (ROLES RoleAuditor)"
  "getEffectivePermissions RoleApiService = ro_permissions (ROLES RoleApiService)"
  "getEffectivePermissions RoleOperator =
     [grant ActCreate ResKycWorkflow, grant_owned ActRead ResKycWorkflow,
      grant ActUpdate ResKycWorkflow, grant ActCreate ResKycDocument,
      grant_owned ActRead ResKycDocument, grant ActUpdate ResKycDocument,
      grant ActApprove ResKycReview, grant ActReject ResKycReview,
      grant ActVerify ResCredential, grant_owned ActRead ResCredential, grant_owned ActRead ResDid,
      grant ActExport ResAnalytics]"
  by code_simp+

lemma effective_without_parents:
  "ro_inherits (ROLES n) = [] \<Longrightarrow> getEffectivePermissions n = ro_permissions (ROLES n)"
  by (cases n) (simp_all only: effective_table, simp)

lemma declared_without_parents:
  "ro_inherits (ROLES n) = [] \<Longrightarrow> declared n p \<longleftrightarrow> p \<in> set (ro_permissions (ROLES n))"
  by (auto intro: declared.own elim: declared.cases)

lemma permits_grant [simp]:
  "permits a r c (grant a' r') \<longleftrightarrow> (a' = a \<or> a' = ActAdmin) \<and> r' = r"
  by (auto simp: permits_def grant_def)

lemma permits_grant_owned [simp]:
  "permits a r c (grant_owned a' r') \<longleftrightarrow> (a' = a \<or> a' = ActAdmin) \<and> r' = r \<and>
     (case c of None \<Rightarrow> False | Some m \<Rightarrow> jm_get m ''owned'' = Some (JBool True))"
  by (auto simp: permits_def grant_owned_def strict_eq_def split: option.splits)

subsection \<open>Properties\<close>

lemma role_decisions_facts:
  shows "hasPermission n a r c \<Longrightarrow> \<exists>p. declared n p \<and> permits a r c p"
    and "ro_inherits (ROLES n) = [] \<Longrightarrow> hasPermission n a r c \<longleftrightarrow> (\<exists>p. declared n p \<and> permits a r c p)"
    and "hasPermission n ActDelete r c \<Longrightarrow> n = RoleAdmin"
    and "hasPermission n ActApprove ResKycReview c \<longleftrightarrow> n = RoleAdmin \<or> n = RoleOperator"
    and "r \<in> {ResKycWorkflow, ResKycDocument, ResCredential, ResDid} \<Longrightarrow>
       (\<exists>p. declared RoleOperator p \<and> permits ActRead r None p) \<and>
       (hasPermission RoleOperator ActRead r c \<longleftrightarrow>
          (case c of None \<Rightarrow> False | Some m \<Rightarrow> jm_get m ''owned'' = Some (JBool True)))"
proof -
  show "hasPermission n a r c \<Longrightarrow> \<exists>p. declared n p \<and> permits a r c p"
    by (auto simp: hasPermission_def list_ex_iff dest: effective_declared)
  show "ro_inherits (ROLES n) = [] \<Longrightarrow> hasPermission n a r c \<longleftrightarrow> (\<exists>p. declared n p \<and> permits a r c p)"
    by (auto simp: hasPermission_def list_ex_iff effective_without_parents declared_without_parents)
  show "hasPermission n ActDelete r c \<Longrightarrow> n = RoleAdmin"
    by (cases n) (auto simp: hasPermission_def effective_table)
  show "hasPermission n ActApprove ResKycReview c \<longleftrightarrow> n = RoleAdmin \<or> n = RoleOperator"
    by (cases n) (simp_all add: hasPermission_def effective_table)
  show "(\<exists>p. declared RoleOperator p \<and> permits ActRead r None p) \<and>
       (hasPermission RoleOperator ActRead r c \<longleftrightarrow>
          (case c of None \<Rightarrow> False | Some m \<Rightarrow> jm_get m ''owned'' = Some (JBool True)))"
    if r: "r \<in> {ResKycWorkflow, ResKycDocument, ResCredential, ResDid}"
  proof
    have "declared RoleOperator (grant ActRead r)"
      using r by (intro declared.own) auto
    then show "\<exists>p. declared RoleOperator p \<and> permits ActRead r None p" by force
    show "hasPermission RoleOperator ActRead r c \<longleftrightarrow>
          (case c of None \<Rightarrow> False | Some m \<Rightarrow> jm_get m ''owned'' = Some (JBool True))"
      using r by (auto simp: hasPermission_def effective_table)
  qed
qed



end
