(* ===== verification/Capabilities.thy ===== *)
theory Capabilities
  imports Prelude
begin

section \<open>Capabilities and relationship tuples\<close>

text \<open>
  packages/core/src/auth/capabilities.ts. The tuples are kept under the text
  "namespace:object". The recursion of check need not end; where it does not the model gives
  \<open>None\<close> (the program exhausts its stack, which verifyCapabilityToken turns into a refusal). The
  signature scheme of node's crypto is a parameter: \<open>sign\<close> and \<open>verify\<close> on capabilities, whose
  JSON text is what is signed; \<open>verify\<close> can throw.
\<close>

record capability =
  ca_id :: string
  ca_namespace :: string
  ca_object :: string
  ca_relation :: string
  ca_subject :: string
  ca_caveats :: "json option"
  ca_issuedAt :: int
  ca_expiresAt :: int
  ca_issuer :: string

record capability_token =
  ct_capability :: capability
  ct_proof :: string

record relationship_tuple =
  rt_namespace :: string
  rt_object :: string
  rt_relation :: string
  rt_subject :: string

record capability_check =
  cc_allowed :: bool
  cc_capabilityId :: "string option"
  cc_error :: "string option"

record capability_engine =
  eng_tuples :: "(string, relationship_tuple list) jsmap"
  eng_capabilities :: "(string, capability) jsmap"

definition new_capability_engine :: capability_engine where
  "new_capability_engine = \<lparr>eng_tuples = jm_empty, eng_capabilities = jm_empty\<rparr>"

definition tuple_key :: "string \<Rightarrow> string \<Rightarrow> string" where
  "tuple_key namespace obj = namespace @ '':'' @ obj"

type_synonym tuple_map = "(string, relationship_tuple list) jsmap"

definition tuples_at :: "tuple_map \<Rightarrow> string \<Rightarrow> string \<Rightarrow> relationship_tuple list" where
  "tuples_at m namespace obj = or_default (jm_get m (tuple_key namespace obj)) []"

definition readTuples :: "string \<Rightarrow> string \<Rightarrow> capability_engine \<Rightarrow> relationship_tuple list" where
  "readTuples namespace obj eng = tuples_at (eng_tuples eng) namespace obj"

definition writeTuple :: "relationship_tuple \<Rightarrow> capability_engine \<Rightarrow> capability_engine" where
  "writeTuple t eng =
     (let key = tuple_key (rt_namespace t) (rt_object t);
          existing = or_default (jm_get (eng_tuples eng) key) []
      in eng\<lparr>eng_tuples := jm_set key (existing @ [t]) (eng_tuples eng)\<rparr>)"

definition deleteTuple :: "relationship_tuple \<Rightarrow> capability_engine \<Rightarrow> capability_engine" where
  "deleteTuple t eng =
     (let key = tuple_key (rt_namespace t) (rt_object t);
          existing = or_default (jm_get (eng_tuples eng) key) []
      in eng\<lparr>eng_tuples := jm_set key
           (filter (\<lambda>u. rt_relation u \<noteq> rt_relation t \<or> rt_subject u \<noteq> rt_subject t) existing)
           (eng_tuples eng)\<rparr>)"

definition allowed_check :: capability_check where
  "allowed_check = \<lparr>cc_allowed = True, cc_capabilityId = None, cc_error = None\<rparr>"

definition refused_check :: "string \<Rightarrow> capability_check" where
  "refused_check e = \<lparr>cc_allowed = False, cc_capabilityId = None, cc_error = Some e\<rparr>"

text \<open>check: the second equation's argument \<open>parents\<close> is the rest of its loop.\<close>

definition matching :: "relationship_tuple list \<Rightarrow> string \<Rightarrow> string \<Rightarrow> bool" where
  "matching ts relation subject = list_ex (\<lambda>t. rt_relation t = relation \<and> rt_subject t = subject) ts"

partial_function (option) check_from ::
    "tuple_map \<Rightarrow> string \<Rightarrow> string \<Rightarrow> string \<Rightarrow> string \<Rightarrow> relationship_tuple list option \<Rightarrow>
     capability_check option" where
  "check_from m namespace obj relation subject todo =
     (let tuples = tuples_at m namespace obj
      in case todo of
           None \<Rightarrow>
             if matching tuples relation subject then Some allowed_check
             else check_from m namespace obj relation subject
                    (Some (filter (\<lambda>t. rt_relation t = ''parent'') tuples))
         | Some [] \<Rightarrow>
             if matching tuples relation ''*'' then Some allowed_check
             else Some (refused_check ''No matching relation found'')
         | Some (pt # parents) \<Rightarrow>
             Option.bind (check_from m namespace (rt_object pt) relation subject None)
               (\<lambda>res. if cc_allowed res then Some res
                      else check_from m namespace obj relation subject (Some parents)))"

definition check ::
    "capability_engine \<Rightarrow> string \<Rightarrow> string \<Rightarrow> string \<Rightarrow> string \<Rightarrow> capability_check option" where
  "check eng namespace obj relation subject = check_from (eng_tuples eng) namespace obj relation subject None"

definition issueCapability ::
    "(capability \<Rightarrow> string) \<Rightarrow> int \<Rightarrow> string \<Rightarrow> capability \<Rightarrow> capability_engine \<Rightarrow>
     capability_token \<times> capability_engine" where
  "issueCapability sign now uuid cap eng =
     (let capability = cap\<lparr>ca_id := uuid, ca_issuedAt := now, ca_issuer := ''capability-engine''\<rparr>
      in (\<lparr>ct_capability = capability, ct_proof = sign capability\<rparr>,
          eng\<lparr>eng_capabilities := jm_set uuid capability (eng_capabilities eng)\<rparr>))"

definition verifyCapabilityToken ::
    "(capability \<Rightarrow> string \<Rightarrow> bool result) \<Rightarrow> int \<Rightarrow> capability_token \<Rightarrow> capability_engine \<Rightarrow>
     capability_check" where
  "verifyCapabilityToken verify now token eng =
     (let cap = ct_capability token
      in case verify cap (ct_proof token) of
           Inl err \<Rightarrow> refused_check (exn_message err)
         | Inr valid \<Rightarrow>
             if \<not> valid then refused_check ''Invalid proof''
             else if now > ca_expiresAt cap then refused_check ''Capability expired''
             else case check eng (ca_namespace cap) (ca_object cap) (ca_relation cap) (ca_subject cap) of
                    None \<Rightarrow> refused_check ''Maximum call stack size exceeded''
                  | Some res \<Rightarrow>
                      if \<not> cc_allowed res then refused_check ''Capability revoked''
                      else \<lparr>cc_allowed = True, cc_capabilityId = Some (ca_id cap), cc_error = None\<rparr>)"

definition revokeCapability :: "string \<Rightarrow> capability_engine \<Rightarrow> capability_engine" where
  "revokeCapability i eng = eng\<lparr>eng_capabilities := jm_del i (eng_capabilities eng)\<rparr>"

text \<open>expandTree: \<open>traverse\<close> and its loop share the visited set and the result; the keys of the
  Map that are not yet visited bound the recursion, so \<open>fuel\<close> beyond their number is never
  used up.\<close>

fun traverse ::
    "nat \<Rightarrow> capability_engine \<Rightarrow> string \<Rightarrow> string \<Rightarrow> string set \<times> relationship_tuple list \<Rightarrow>
     string set \<times> relationship_tuple list" where
  "traverse 0 eng ns obj acc = acc"
| "traverse (Suc fuel) eng ns obj (visited, out) =
     (let key = tuple_key ns obj
      in if key \<in> visited then (visited, out)
         else foldl (\<lambda>(v, r) t.
                if rt_relation t = ''parent''
                then traverse fuel eng (rt_namespace t) (rt_object t) (v, r @ [t]) else (v, r @ [t]))
              (insert key visited, out) (readTuples ns obj eng))"

definition expandTree :: "string \<Rightarrow> string \<Rightarrow> capability_engine \<Rightarrow> relationship_tuple list" where
  "expandTree ns obj eng = snd (traverse (length (eng_tuples eng) + 2) eng ns obj ({}, []))"

text \<open>zanzibarNamespace, Namespaces and expandSubject.\<close>

definition zanzibar_resource :: "string \<Rightarrow> string \<Rightarrow> string" where
  "zanzibar_resource n i = n @ '':'' @ i"

definition Namespaces :: "(string \<times> string) list" where
  "Namespaces =
     [(''organization'', ''organization''), (''workspace'', ''workspace''),
      (''kycWorkflow'', ''kyc_workflow''), (''credential'', ''credential''),
      (''document'', ''document''), (''team'', ''team'')]"

definition expandSubject :: "string \<Rightarrow> string list" where
  "expandSubject subject = (if starts_with subject ''team:'' then [subject] else [subject, ''*''])"

subsection \<open>Tuples under their own key\<close>

text \<open>Every tuple is stored under the key of its own namespace and object. The namespaces of the
  program contain no colon, so the key determines both.\<close>

definition tuples_inv :: "capability_engine \<Rightarrow> bool" where
  "tuples_inv eng \<longleftrightarrow>
     (\<forall>key ts t. jm_get (eng_tuples eng) key = Some ts \<longrightarrow> t \<in> set ts \<longrightarrow>
        tuple_key (rt_namespace t) (rt_object t) = key \<and> CHR '':'' \<notin> set (rt_namespace t))"

datatype tuple_call =
    WriteTuple relationship_tuple | DeleteTuple relationship_tuple | IssueCap string capability | RevokeCap string

fun tuple_run :: "(capability \<Rightarrow> string) \<Rightarrow> int \<times> tuple_call \<Rightarrow> capability_engine \<Rightarrow> capability_engine" where
  "tuple_run sign (now, WriteTuple t) eng = writeTuple t eng"
| "tuple_run sign (now, DeleteTuple t) eng = deleteTuple t eng"
| "tuple_run sign (now, IssueCap uuid cap) eng = snd (issueCapability sign now uuid cap eng)"
| "tuple_run sign (now, RevokeCap i) eng = revokeCapability i eng"

fun tuple_ok :: "int \<times> tuple_call \<Rightarrow> capability_engine \<Rightarrow> bool" where
  "tuple_ok (now, WriteTuple t) eng = (CHR '':'' \<notin> set (rt_namespace t))"
| "tuple_ok (now, _) eng = True"

lemma or_default_mem: "t \<in> set (or_default x []) \<Longrightarrow> \<exists>ts. x = Some ts \<and> t \<in> set ts"
  by (cases x) auto

lemma tuple_run_inv: "tuples_inv eng \<Longrightarrow> tuple_ok (now, c) eng \<Longrightarrow> tuples_inv (tuple_run sign (now, c) eng)"
  by (cases c)
    (auto simp: tuples_inv_def writeTuple_def deleteTuple_def issueCapability_def revokeCapability_def
      Let_def split: if_splits dest!: or_default_mem)

interpretation tuples: invariant_machine "tuple_run sign" tuple_ok tuples_inv for sign
  by unfold_locales (auto intro: tuple_run_inv)

lemma new_engine_inv: "tuples_inv new_capability_engine"
  by (simp add: tuples_inv_def new_capability_engine_def)

lemma tuple_key_inj:
  assumes "CHR '':'' \<notin> set a" and "CHR '':'' \<notin> set b" and "tuple_key a x = tuple_key b y"
  shows "a = b \<and> x = y"
proof -
  have "split_on CHR '':'' (a @ CHR '':'' # x) = split_on CHR '':'' (b @ CHR '':'' # y)"
    using assms(3) by (simp add: tuple_key_def)
  then have "a = b" by (simp add: split_on_append assms)
  with assms(3) show ?thesis by (simp add: tuple_key_def)
qed

lemma read_own:
  assumes "tuples_inv eng" and "CHR '':'' \<notin> set ns" and "t \<in> set (readTuples ns obj eng)"
  shows "rt_namespace t = ns \<and> rt_object t = obj"
proof -
  obtain ts where "jm_get (eng_tuples eng) (tuple_key ns obj) = Some ts" "t \<in> set ts"
    using or_default_mem [OF assms(3) [unfolded readTuples_def tuples_at_def]] by blast
  then have "tuple_key (rt_namespace t) (rt_object t) = tuple_key ns obj \<and> CHR '':'' \<notin> set (rt_namespace t)"
    using assms(1) by (simp add: tuples_inv_def)
  with assms(2) show ?thesis using tuple_key_inj by blast
qed

text \<open>A parent of an object is the object itself, so the recursion of check returns to where it is.\<close>

definition stuck_at :: "tuple_map \<Rightarrow> string \<Rightarrow> string \<Rightarrow> string \<Rightarrow> string \<Rightarrow> bool" where
  "stuck_at m ns obj relation subject \<longleftrightarrow>
     \<not> matching (tuples_at m ns obj) relation subject \<and>
     (\<forall>t \<in> set (tuples_at m ns obj). rt_object t = obj) \<and>
     (\<exists>t \<in> set (tuples_at m ns obj). rt_relation t = ''parent'')"

lemma check_from_stuck:
  "check_from m ns obj relation subject todo = Some y \<Longrightarrow>
     stuck_at m ns obj relation subject \<longrightarrow>
     \<not> (todo = None \<or> (\<exists>pt rest. todo = Some (pt # rest) \<and> rt_object pt = obj))"
proof (rule check_from.raw_induct [where P = "\<lambda>m ns obj relation subject todo y.
    stuck_at m ns obj relation subject \<longrightarrow>
    \<not> (todo = None \<or> (\<exists>pt rest. todo = Some (pt # rest) \<and> rt_object pt = obj))"])
  fix f :: "tuple_map \<Rightarrow> string \<Rightarrow> string \<Rightarrow> string \<Rightarrow> string \<Rightarrow> relationship_tuple list option \<Rightarrow>
     capability_check option"
    and m ns obj relation subject todo y
  assume IH: "\<And>m ns obj relation subject todo y. f m ns obj relation subject todo = Some y \<Longrightarrow>
      stuck_at m ns obj relation subject \<longrightarrow>
      \<not> (todo = None \<or> (\<exists>pt rest. todo = Some (pt # rest) \<and> rt_object pt = obj))"
  assume body: "(let tuples = tuples_at m ns obj
      in case todo of
           None \<Rightarrow>
             if matching tuples relation subject then Some allowed_check
             else f m ns obj relation subject (Some (filter (\<lambda>t. rt_relation t = ''parent'') tuples))
         | Some [] \<Rightarrow>
             if matching tuples relation ''*'' then Some allowed_check
             else Some (refused_check ''No matching relation found'')
         | Some (pt # parents) \<Rightarrow>
             Option.bind (f m ns (rt_object pt) relation subject None)
               (\<lambda>res. if cc_allowed res then Some res
                      else f m ns obj relation subject (Some parents))) = Some y"
  show "stuck_at m ns obj relation subject \<longrightarrow>
    \<not> (todo = None \<or> (\<exists>pt rest. todo = Some (pt # rest) \<and> rt_object pt = obj))"
  proof (intro impI notI)
    assume stuck: "stuck_at m ns obj relation subject"
      and todo: "todo = None \<or> (\<exists>pt rest. todo = Some (pt # rest) \<and> rt_object pt = obj)"
    let ?ps = "filter (\<lambda>t. rt_relation t = ''parent'') (tuples_at m ns obj)"
    from stuck have "?ps \<noteq> []" by (auto simp: stuck_at_def filter_empty_conv)
    then obtain q qs where qs: "?ps = q # qs" by (cases ?ps) auto
    then have "q \<in> set ?ps" by simp
    then have q: "rt_object q = obj" using stuck by (simp add: stuck_at_def)
    from todo show False
    proof
      assume "todo = None"
      with body stuck have "f m ns obj relation subject (Some (q # qs)) = Some y"
        by (simp add: stuck_at_def flip: qs)
      from IH [OF this] stuck q show False by simp
    next
      assume "\<exists>pt rest. todo = Some (pt # rest) \<and> rt_object pt = obj"
      then obtain pt rest where "todo = Some (pt # rest)" "rt_object pt = obj" by blast
      with body obtain res where "f m ns obj relation subject None = Some res"
        by (auto simp: bind_eq_Some_conv)
      from IH [OF this] stuck show False by simp
    qed
  qed
qed

lemma check_no_parent:
  assumes "\<forall>t \<in> set (readTuples ns obj eng). rt_relation t \<noteq> ''parent''"
  shows "\<exists>r. check eng ns obj relation subject = Some r \<and>
     (cc_allowed r \<longleftrightarrow> matching (readTuples ns obj eng) relation subject \<or>
                      matching (readTuples ns obj eng) relation ''*'')"
proof -
  have "filter (\<lambda>t. rt_relation t = ''parent'') (readTuples ns obj eng) = []"
    using assms by (simp add: filter_empty_conv)
  then show ?thesis
    by (simp add: check_def check_from.simps [of _ _ _ _ _ None] check_from.simps [of _ _ _ _ _ "Some []"]
        readTuples_def allowed_check_def refused_check_def Let_def)
qed

lemma check_direct:
  "matching (readTuples ns obj eng) relation subject \<Longrightarrow> check eng ns obj relation subject = Some allowed_check"
  by (simp add: check_def readTuples_def check_from.simps [of _ _ _ _ _ None])

lemma check_parent:
  assumes "tuples_inv eng" and "CHR '':'' \<notin> set ns"
    and "t \<in> set (readTuples ns obj eng)" and "rt_relation t = ''parent''"
    and "\<not> matching (readTuples ns obj eng) relation subject"
  shows "check eng ns obj relation subject = None"
proof -
  have "stuck_at (eng_tuples eng) ns obj relation subject"
    using assms read_own [OF assms(1,2)] unfolding stuck_at_def readTuples_def [symmetric] by blast
  then show ?thesis
    using check_from_stuck [of "eng_tuples eng" ns obj relation subject None] by (cases "check eng ns obj relation subject") (auto simp: check_def)
qed

lemma foldl_appends:
  "(\<And>t out. t \<in> set ts \<Longrightarrow> step (V, out) t = (V, out @ [t])) \<Longrightarrow> foldl step (V, out) ts = (V, out @ ts)"
  by (induction ts arbitrary: out) auto

lemma traverse_visited: "tuple_key ns obj \<in> V \<Longrightarrow> traverse fuel eng ns obj (V, out) = (V, out)"
  by (cases fuel) simp_all

lemma expandTree_read:
  assumes "tuples_inv eng" and "CHR '':'' \<notin> set ns"
  shows "expandTree ns obj eng = readTuples ns obj eng"
proof -
  let ?V = "{tuple_key ns obj}"
  have "foldl (\<lambda>(v, r) t. if rt_relation t = ''parent''
        then traverse (Suc (length (eng_tuples eng))) eng (rt_namespace t) (rt_object t) (v, r @ [t])
        else (v, r @ [t])) (?V, []) (readTuples ns obj eng) = (?V, [] @ readTuples ns obj eng)"
    by (rule foldl_appends) (use read_own [OF assms] in \<open>auto simp: traverse_visited simp del: traverse.simps\<close>)
  then show ?thesis
    by (simp add: expandTree_def numeral_2_eq_2 Let_def del: traverse.simps(2)) (simp add: traverse.simps(2) [of "Suc _"] del: traverse.simps)
qed

definition touches_tuples :: "tuple_call \<Rightarrow> bool" where
  "touches_tuples c \<longleftrightarrow> (case c of WriteTuple t \<Rightarrow> True | DeleteTuple t \<Rightarrow> True | _ \<Rightarrow> False)"

lemma run_keeps_tuples:
  "\<forall>(now, c) \<in> set calls. \<not> touches_tuples c \<Longrightarrow>
     eng_tuples (run_events (tuple_run sign) calls eng) = eng_tuples eng"
proof (induction calls arbitrary: eng)
  case Nil
  then show ?case by simp
next
  case (Cons e calls)
  have "eng_tuples (tuple_run sign e eng) = eng_tuples eng"
    using Cons.prems
    by (cases e; cases "snd e") (auto simp: touches_tuples_def issueCapability_def revokeCapability_def Let_def)
  with Cons show ?case by simp
qed

subsection \<open>Properties\<close>

lemma check_decides_facts:
  assumes "admissible tuple_ok (tuple_run sign) calls new_capability_engine"
    and "eng = run_events (tuple_run sign) calls new_capability_engine"
    and "CHR '':'' \<notin> set ns" and "ts = readTuples ns obj eng"
  shows "\<forall>t \<in> set ts. rt_relation t \<noteq> ''parent'' \<Longrightarrow>
       \<exists>r. check eng ns obj relation subject = Some r \<and>
         (cc_allowed r \<longleftrightarrow> matching ts relation subject \<or> matching ts relation ''*'')"
    and "matching ts relation subject \<Longrightarrow> check eng ns obj relation subject = Some allowed_check"
    and "t \<in> set ts \<Longrightarrow> rt_relation t = ''parent'' \<Longrightarrow> \<not> matching ts relation subject \<Longrightarrow>
       check eng ns obj relation subject = None"
    and "expandTree ns obj eng = ts"
proof -
  have inv: "tuples_inv eng"
    unfolding assms(2) by (rule tuples.inv_run [OF new_engine_inv assms(1)])
  show "\<forall>t \<in> set ts. rt_relation t \<noteq> ''parent'' \<Longrightarrow>
       \<exists>r. check eng ns obj relation subject = Some r \<and>
         (cc_allowed r \<longleftrightarrow> matching ts relation subject \<or> matching ts relation ''*'')"
    unfolding assms(4) by (rule check_no_parent)
  show "matching ts relation subject \<Longrightarrow> check eng ns obj relation subject = Some allowed_check"
    unfolding assms(4) by (rule check_direct)
  show "t \<in> set ts \<Longrightarrow> rt_relation t = ''parent'' \<Longrightarrow> \<not> matching ts relation subject \<Longrightarrow>
       check eng ns obj relation subject = None"
    unfolding assms(4) by (rule check_parent [OF inv assms(3)])
  show "expandTree ns obj eng = ts"
    unfolding assms(4) by (rule expandTree_read [OF inv assms(3)])
qed

text \<open>After any run over namespaces without colons: an object without a parent tuple gives
  access exactly to the subject of a matching tuple or, with a wildcard tuple, to everyone; a
  matching tuple always gives access; but as soon as the object has a parent tuple, a check
  without a direct match never returns, wildcard or not, because the parent it follows is the
  object itself. For the same reason expandTree is the list of the object's own tuples.\<close>

theorem check_decides:
  assumes "admissible tuple_ok (tuple_run sign) calls new_capability_engine"
    and "eng = run_events (tuple_run sign) calls new_capability_engine"
    and "CHR '':'' \<notin> set ns"
    and "ts = readTuples ns obj eng"
  shows "((\<forall>t \<in> set ts. rt_relation t \<noteq> ''parent'') \<longrightarrow> (\<exists>r. check eng ns obj relation subject = Some r \<and>
         (cc_allowed r \<longleftrightarrow> matching ts relation subject \<or> matching ts relation ''*''))) \<and>
     (matching ts relation subject \<longrightarrow> (check eng ns obj relation subject = Some allowed_check)) \<and>
     (t \<in> set ts \<longrightarrow> rt_relation t = ''parent'' \<longrightarrow> \<not> matching ts relation subject \<longrightarrow> (check eng ns obj relation subject = None)) \<and>
     (expandTree ns obj eng = ts)"
proof -
  have c1: "(\<forall>t \<in> set ts. rt_relation t \<noteq> ''parent'') \<longrightarrow> (\<exists>r. check eng ns obj relation subject = Some r \<and>
         (cc_allowed r \<longleftrightarrow> matching ts relation subject \<or> matching ts relation ''*''))"
    by (rule impI) (rule check_decides_facts(1) [OF assms]; (assumption | erule spec))
  have c2: "matching ts relation subject \<longrightarrow> (check eng ns obj relation subject = Some allowed_check)"
    by (rule impI) (rule check_decides_facts(2) [OF assms]; (assumption | erule spec))
  have c3: "t \<in> set ts \<longrightarrow> rt_relation t = ''parent'' \<longrightarrow> \<not> matching ts relation subject \<longrightarrow> (check eng ns obj relation subject = None)"
    by (rule impI, rule impI, rule impI) (rule check_decides_facts(3) [OF assms]; (assumption | erule spec))
  have c4: "expandTree ns obj eng = ts"
    by (rule check_decides_facts(4) [OF assms])
  show ?thesis by (rule conjI [OF c1 conjI [OF c2 conjI [OF c3 c4]]])
qed

definition demo_tuples :: "(int \<times> tuple_call) list" where
  "demo_tuples =
     [(1, WriteTuple \<lparr>rt_namespace = ''document'', rt_object = ''d'', rt_relation = ''viewer'', rt_subject = ''*''\<rparr>),
      (2, WriteTuple \<lparr>rt_namespace = ''document'', rt_object = ''d'', rt_relation = ''parent'', rt_subject = ''team:x''\<rparr>)]"

theorem check_decides_witness:
  "check (run_events (tuple_run (\<lambda>c. [])) demo_tuples new_capability_engine) ''document'' ''d'' ''viewer'' ''bob'' = None"
proof -
  let ?eng = "run_events (tuple_run (\<lambda>c. [])) demo_tuples new_capability_engine"
    and ?t = "\<lparr>rt_namespace = ''document'', rt_object = ''d'', rt_relation = ''parent'', rt_subject = ''team:x''\<rparr>"
  have ok: "admissible tuple_ok (tuple_run (\<lambda>c. [])) demo_tuples new_capability_engine"
    and ns: "CHR '':'' \<notin> set ''document''" by code_simp+
  have "?t \<in> set (readTuples ''document'' ''d'' ?eng)" "rt_relation ?t = ''parent''"
    "\<not> matching (readTuples ''document'' ''d'' ?eng) ''viewer'' ''bob''" by code_simp+
  with check_decides [OF ok refl ns refl, THEN conjunct2, THEN conjunct2, THEN conjunct1, rule_format]
  show ?thesis by blast
qed

lemma revocation_has_no_effect_facts:
  assumes "\<And>c. verify c (sign c) = Inr True"
    and "issueCapability sign now uuid cap eng = (token, eng')"
    and "\<forall>(t, c) \<in> set calls. \<not> touches_tuples c"
  shows "cc_allowed (verifyCapabilityToken verify later token (run_events (tuple_run sign) calls eng')) \<longleftrightarrow>
     later \<le> ca_expiresAt cap \<and>
     (\<exists>r. check eng (ca_namespace cap) (ca_object cap) (ca_relation cap) (ca_subject cap) = Some r \<and> cc_allowed r)"
    and "verifyCapabilityToken verify later token (revokeCapability uuid eng') =
       verifyCapabilityToken verify later token eng'"
proof -
  have tok: "token = \<lparr>ct_capability = cap\<lparr>ca_id := uuid, ca_issuedAt := now, ca_issuer := ''capability-engine''\<rparr>,
      ct_proof = sign (cap\<lparr>ca_id := uuid, ca_issuedAt := now, ca_issuer := ''capability-engine''\<rparr>)\<rparr>"
    using assms(2) by (auto simp: issueCapability_def Let_def)
  have same: "eng_tuples (run_events (tuple_run sign) calls eng') = eng_tuples eng"
    using assms(2) run_keeps_tuples [OF assms(3)] by (auto simp: issueCapability_def Let_def)
  show "cc_allowed (verifyCapabilityToken verify later token (run_events (tuple_run sign) calls eng')) \<longleftrightarrow>
     later \<le> ca_expiresAt cap \<and>
     (\<exists>r. check eng (ca_namespace cap) (ca_object cap) (ca_relation cap) (ca_subject cap) = Some r \<and> cc_allowed r)"
    using assms(1)
    by (auto simp: verifyCapabilityToken_def tok check_def same refused_check_def Let_def split: option.splits)
  show "verifyCapabilityToken verify later token (revokeCapability uuid eng') =
       verifyCapabilityToken verify later token eng'"
  proof -
    have "check (revokeCapability uuid eng') ns obj relation subject = check eng' ns obj relation subject"
      for ns obj relation subject
      by (simp add: check_def revokeCapability_def)
    then show ?thesis by (simp only: verifyCapabilityToken_def)
  qed
qed

text \<open>A capability token that was issued here verifies at a later time exactly if it has not
  expired and the check of its relation succeeds, whatever is issued or revoked in between:
  revoking the capability itself, too, has no effect.\<close>

theorem revocation_has_no_effect:
  assumes "\<And>c. verify c (sign c) = Inr True"
    and "issueCapability sign now uuid cap eng = (token, eng')"
    and "\<forall>(t, c) \<in> set calls. \<not> touches_tuples c"
  shows "(cc_allowed (verifyCapabilityToken verify later token (run_events (tuple_run sign) calls eng')) \<longleftrightarrow>
     later \<le> ca_expiresAt cap \<and>
     (\<exists>r. check eng (ca_namespace cap) (ca_object cap) (ca_relation cap) (ca_subject cap) = Some r \<and> cc_allowed r)) \<and>
     (verifyCapabilityToken verify later token (revokeCapability uuid eng') =
       verifyCapabilityToken verify later token eng')"
proof -
  have c1: "cc_allowed (verifyCapabilityToken verify later token (run_events (tuple_run sign) calls eng')) \<longleftrightarrow>
     later \<le> ca_expiresAt cap \<and>
     (\<exists>r. check eng (ca_namespace cap) (ca_object cap) (ca_relation cap) (ca_subject cap) = Some r \<and> cc_allowed r)"
    by (rule revocation_has_no_effect_facts(1) [OF _ assms(2,3)]) (rule assms(1))
  have c2: "verifyCapabilityToken verify later token (revokeCapability uuid eng') =
       verifyCapabilityToken verify later token eng'"
    by (rule revocation_has_no_effect_facts(2) [OF _ assms(2,3)]) (rule assms(1))
  show ?thesis by (rule conjI [OF c1 c2])
qed

definition demo_cap :: capability where
  "demo_cap = \<lparr>ca_id = [], ca_namespace = ''document'', ca_object = ''d'', ca_relation = ''viewer'',
     ca_subject = ''*'', ca_caveats = None, ca_issuedAt = 0, ca_expiresAt = 100, ca_issuer = []\<rparr>"

theorem revocation_has_no_effect_witness:
  "let eng = run_events (tuple_run (\<lambda>c. [])) [hd demo_tuples] new_capability_engine;
       (token, eng') = issueCapability (\<lambda>c. []) 5 ''u'' demo_cap eng
   in cc_allowed (verifyCapabilityToken (\<lambda>c p. Inr True) 50 token
        (run_events (tuple_run (\<lambda>c. [])) [(6, RevokeCap ''u'')] eng'))"
proof -
  define eng where "eng = run_events (tuple_run (\<lambda>c. [])) [hd demo_tuples] new_capability_engine"
  obtain token eng' where t: "issueCapability (\<lambda>c. []) 5 ''u'' demo_cap eng = (token, eng')" by fastforce
  have "matching (readTuples ''document'' ''d'' eng) ''viewer'' ''*''" unfolding eng_def by code_simp
  then have "check eng ''document'' ''d'' ''viewer'' ''*'' = Some allowed_check" by (rule check_direct)
  moreover have "\<forall>(t, c) \<in> set [(6 :: int, RevokeCap ''u'')]. \<not> touches_tuples c"
    by (simp add: touches_tuples_def)
  moreover have "ca_namespace demo_cap = ''document''" "ca_object demo_cap = ''d''" "ca_relation demo_cap = ''viewer''"
    "ca_subject demo_cap = ''*''" "ca_expiresAt demo_cap = 100"
    by (simp_all add: demo_cap_def)
  ultimately show ?thesis
    using revocation_has_no_effect [where verify = "\<lambda>c p. Inr True", OF refl t,
      where calls = "[(6, RevokeCap ''u'')]" and later = 50, THEN conjunct1]
    unfolding eng_def [symmetric] by (simp add: t allowed_check_def)
qed

end
