(* ===== verification/DidUrl.thy ===== *)
theory DidUrl
  imports Prelude
begin

section \<open>DIDs and DID URLs\<close>

text \<open>
  packages/did/src: methods.ts, error.ts and did-url.ts. A DID method is the text between the first
  two colons; parseDID does not compare it with the methods the enumeration knows. An error of
  class DIDError carries its code after its name.
\<close>

datatype did_error_code =
    InvalidDID | UnsupportedMethod | NotFound | ResolutionError | CryptoError | SerializationError
  | KeyRotationNotAllowed | Deactivated | InvalidVerificationMethod

fun did_error_code_text :: "did_error_code \<Rightarrow> string" where
  "did_error_code_text InvalidDID = ''INVALID_DID''"
| "did_error_code_text UnsupportedMethod = ''UNSUPPORTED_METHOD''"
| "did_error_code_text NotFound = ''NOT_FOUND''"
| "did_error_code_text ResolutionError = ''RESOLUTION_ERROR''"
| "did_error_code_text CryptoError = ''CRYPTO_ERROR''"
| "did_error_code_text SerializationError = ''SERIALIZATION_ERROR''"
| "did_error_code_text KeyRotationNotAllowed = ''KEY_ROTATION_NOT_ALLOWED''"
| "did_error_code_text Deactivated = ''DEACTIVATED''"
| "did_error_code_text InvalidVerificationMethod = ''INVALID_VERIFICATION_METHOD''"

definition DIDError :: "string \<Rightarrow> did_error_code \<Rightarrow> js_exn" where
  "DIDError message code = JsNamedError (''DIDError '' @ did_error_code_text code) message"

definition parseDID :: "string \<Rightarrow> (string \<times> string) result" where
  "parseDID did =
     (let parts = split_on CHR '':'' did
      in if length parts < 3 \<or> hd parts \<noteq> ''did''
         then Inl (DIDError (''DID must start with 'did:', got '' @ did) InvalidDID)
         else Inr (parts ! 1, join_with '':'' (drop 2 parts)))"

record did_url =
  dl_did :: string
  dl_method :: string
  dl_methodSpecificId :: string
  dl_path :: "string option"
  dl_query :: "string option"
  dl_fragment :: "string option"

text \<open>The parts of a text before and after the first \<open>c\<close>, as indexOf and slice cut them.\<close>

definition cut_at :: "char \<Rightarrow> string \<Rightarrow> string \<times> string option" where
  "cut_at c s =
     (if c \<in> set s then (takeWhile (\<lambda>d. d \<noteq> c) s, Some (tl (dropWhile (\<lambda>d. d \<noteq> c) s))) else (s, None))"

text \<open>An empty path is undefined.\<close>

definition nonempty :: "string option \<Rightarrow> string option" where
  "nonempty p = (case p of None \<Rightarrow> None | Some s \<Rightarrow> if s = [] then None else Some s)"

text \<open>The first reading of the path, in beforeQuery: the slash is looked for from index 4 on. Its
  methodSpecificId is not used; without a slash it only checks the DID.\<close>

definition first_path :: "string \<Rightarrow> string option result" where
  "first_path beforeQuery =
     (if CHR ''/'' \<in> set (drop 4 beforeQuery) then
        (let rest = tl (dropWhile (\<lambda>d. d \<noteq> CHR ''/'') (drop 4 beforeQuery))
         in if rest \<noteq> [] \<and> CHR '':'' \<notin> set rest then Inr None
            else Inr (nonempty (snd (cut_at CHR '':'' rest))))
      else (case parseDID beforeQuery of Inl e \<Rightarrow> Inl e | Inr _ \<Rightarrow> Inr None))"

definition parse_did_url :: "string \<Rightarrow> did_url result" where
  "parse_did_url url =
     (let (beforeFragment, fragment) = cut_at CHR ''#'' url;
          (beforeQuery, query) = cut_at CHR ''?'' beforeFragment
      in case first_path beforeQuery of
           Inl e \<Rightarrow> Inl e
         | Inr path \<Rightarrow>
             (case parseDID beforeFragment of
                Inl e \<Rightarrow> Inl e
              | Inr (method, _) \<Rightarrow>
                  let msiWithPath = join_with '':'' (drop 2 (split_on CHR '':'' beforeFragment));
                      (finalMsi, afterSlash) = cut_at CHR ''/'' msiWithPath;
                      finalPath = nonempty afterSlash
                  in Inr \<lparr>dl_did = url, dl_method = method, dl_methodSpecificId = finalMsi,
                          dl_path = (case finalPath of Some p \<Rightarrow> Some p | None \<Rightarrow> path),
                          dl_query = query, dl_fragment = fragment\<rparr>))"

definition shown_part :: "char \<Rightarrow> string option \<Rightarrow> string" where
  "shown_part c p = (case nonempty p of None \<Rightarrow> [] | Some s \<Rightarrow> c # s)"

definition did_url_toString :: "did_url \<Rightarrow> string" where
  "did_url_toString u =
     ''did:'' @ dl_method u @ '':'' @ dl_methodSpecificId u @ shown_part CHR ''/'' (dl_path u) @
     shown_part CHR ''?'' (dl_query u) @ shown_part CHR ''#'' (dl_fragment u)"

definition withFragment :: "string \<Rightarrow> did_url \<Rightarrow> did_url" where
  "withFragment f u = u\<lparr>dl_fragment := Some f\<rparr>"

definition withQuery :: "string \<Rightarrow> did_url \<Rightarrow> did_url" where
  "withQuery q u = u\<lparr>dl_query := Some q\<rparr>"

definition withPath :: "string \<Rightarrow> did_url \<Rightarrow> did_url" where
  "withPath p u = u\<lparr>dl_path := Some p\<rparr>"

definition did_url_equals :: "did_url \<Rightarrow> did_url \<Rightarrow> bool" where
  "did_url_equals u v \<longleftrightarrow> did_url_toString u = did_url_toString v"

subsection \<open>Cutting texts\<close>

lemma cut_at_found [simp]: "c \<notin> set a \<Longrightarrow> cut_at c (a @ c # b) = (a, Some b)"
  by (induction a) (auto simp: cut_at_def)

lemma cut_at_none [simp]: "c \<notin> set a \<Longrightarrow> cut_at c a = (a, None)"
  by (simp add: cut_at_def)

lemma cut_at_part:
  "c \<notin> set a \<Longrightarrow> cut_at c (a @ shown_part c p) = (a, nonempty p)"
  by (cases "nonempty p") (simp_all add: shown_part_def)

lemma split_did:
  assumes "CHR '':'' \<notin> set m"
  shows "split_on CHR '':'' (''did:'' @ m @ '':'' @ rest) = ''did'' # m # split_on CHR '':'' rest"
  using split_on_append [of "CHR '':''" "''did''" "m @ '':'' @ rest"] split_on_append [OF assms, of rest] by simp

lemma parseDID_did:
  assumes "CHR '':'' \<notin> set m"
  shows "parseDID (''did:'' @ m @ '':'' @ rest) = Inr (m, rest)"
  unfolding parseDID_def split_did [OF assms] by (cases "split_on CHR '':'' rest") (simp_all, metis join_split)

lemma shown_part_mem: "d \<in> set (shown_part c p) \<Longrightarrow> c \<noteq> d \<Longrightarrow> d \<in> set (or_default p [])"
  by (cases p) (auto simp: shown_part_def nonempty_def split: if_splits)

lemma nonempty_idem [simp]: "nonempty (nonempty p) = nonempty p"
  by (cases p) (auto simp: nonempty_def)

lemma shown_part_nonempty [simp]: "shown_part c (nonempty p) = shown_part c p"
  by (simp add: shown_part_def)

subsection \<open>Properties\<close>

lemma did_url_roundtrip_facts:
  assumes "CHR '':'' \<notin> set m" and "{CHR ''/'', CHR ''?'', CHR ''#''} \<inter> (set m \<union> set msi) = {}"
    and "{CHR ''?'', CHR ''#''} \<inter> set (or_default p []) = {}"
    and "{CHR ''/'', CHR ''#''} \<inter> set (or_default q []) = {}"
    and "base = ''did:'' @ m @ '':'' @ msi"
    and "url = base @ shown_part CHR ''/'' p @ shown_part CHR ''?'' q @ shown_part CHR ''#'' f"
  shows "\<exists>u. parse_did_url url = Inr u \<and> dl_did u = url \<and> dl_method u = m \<and>
       dl_query u = nonempty q \<and> dl_fragment u = nonempty f \<and>
       (nonempty p = None \<longrightarrow> dl_methodSpecificId u = msi @ shown_part CHR ''?'' q \<and> dl_path u = None) \<and>
       (\<forall>x. nonempty p = Some x \<longrightarrow>
          dl_methodSpecificId u = msi \<and> dl_path u = Some (x @ shown_part CHR ''?'' q)) \<and>
       did_url_toString u = base @ shown_part CHR ''/'' p @ shown_part CHR ''?'' q @
         shown_part CHR ''?'' q @ shown_part CHR ''#'' f"
    and "nonempty q = None \<Longrightarrow> map_sum id did_url_toString (parse_did_url url) = Inr url"
proof -
  let ?pp = "shown_part CHR ''/'' p" and ?qq = "shown_part CHR ''?'' q"
  have pset: "CHR ''?'' \<notin> set ?pp" "CHR ''#'' \<notin> set ?pp"
    using assms(3) by (auto dest!: shown_part_mem)
  have qset: "CHR ''#'' \<notin> set ?qq" "CHR ''/'' \<notin> set ?qq"
    using assms(4) by (auto dest!: shown_part_mem)
  have bset: "CHR ''?'' \<notin> set base" "CHR ''#'' \<notin> set base"
    using assms(2) by (auto simp: assms(5))
  have fragment: "cut_at CHR ''#'' url = (base @ ?pp @ ?qq, nonempty f)"
    using cut_at_part [of "CHR ''#''" "base @ ?pp @ ?qq" f] bset pset qset by (simp add: assms(6))
  have query: "cut_at CHR ''?'' (base @ ?pp @ ?qq) = (base @ ?pp, nonempty q)"
    using cut_at_part [of "CHR ''?''" "base @ ?pp" q] bset pset by simp
  have did: "parseDID (base @ x) = Inr (m, msi @ x)"
    and parts: "join_with '':'' (drop 2 (split_on CHR '':'' (base @ x))) = msi @ x" for x
    using parseDID_did [OF assms(1), of "msi @ x"] split_did [OF assms(1), of "msi @ x"]
    by (simp_all add: assms(5))
  have first: "\<exists>path. first_path (base @ ?pp) = Inr path \<and> (nonempty p = None \<longrightarrow> path = None)"
  proof (cases "nonempty p")
    case None
    have "CHR ''/'' \<notin> set (drop 4 base)"
      using assms(2) by (auto simp: assms(5))
    with None show ?thesis by (simp add: first_path_def shown_part_def did [of "[]", simplified])
  next
    case (Some x)
    then have "CHR ''/'' \<in> set (drop 4 (base @ ?pp))"
      by (simp add: assms(5) shown_part_def)
    with Some show ?thesis by (auto simp: first_path_def Let_def)
  qed
  then obtain path where path: "first_path (base @ ?pp) = Inr path" "nonempty p = None \<longrightarrow> path = None"
    by (elim exE conjE) (rule that)
  have slash: "cut_at CHR ''/'' (msi @ ?pp @ ?qq) =
      (case nonempty p of None \<Rightarrow> (msi @ ?qq, None) | Some x \<Rightarrow> (msi, Some (x @ ?qq)))"
  proof (cases "nonempty p")
    case None
    have "CHR ''/'' \<notin> set (msi @ ?qq)" using assms(2) qset by auto
    with None show ?thesis by (simp add: shown_part_def [of _ p])
  next
    case (Some x)
    have "CHR ''/'' \<notin> set msi" using assms(2) by auto
    with Some show ?thesis by (simp add: shown_part_def [of _ p])
  qed
  have parsed: "parse_did_url url = Inr (case nonempty p of
      None \<Rightarrow> \<lparr>dl_did = url, dl_method = m, dl_methodSpecificId = msi @ ?qq, dl_path = None,
               dl_query = nonempty q, dl_fragment = nonempty f\<rparr>
    | Some x \<Rightarrow> \<lparr>dl_did = url, dl_method = m, dl_methodSpecificId = msi, dl_path = Some (x @ ?qq),
                 dl_query = nonempty q, dl_fragment = nonempty f\<rparr>)"
    unfolding parse_did_url_def fragment query Let_def prod.case path(1) did parts slash
    using path(2) by (cases "nonempty p") (auto simp: nonempty_def split: option.splits if_splits)
  show exists: "\<exists>u. parse_did_url url = Inr u \<and> dl_did u = url \<and> dl_method u = m \<and>
       dl_query u = nonempty q \<and> dl_fragment u = nonempty f \<and>
       (nonempty p = None \<longrightarrow> dl_methodSpecificId u = msi @ ?qq \<and> dl_path u = None) \<and>
       (\<forall>x. nonempty p = Some x \<longrightarrow> dl_methodSpecificId u = msi \<and> dl_path u = Some (x @ ?qq)) \<and>
       did_url_toString u = base @ ?pp @ ?qq @ ?qq @ shown_part CHR ''#'' f"
    unfolding parsed
    by (cases "nonempty p")
      (auto simp: did_url_toString_def assms(5) shown_part_def [of _ p] shown_part_def [of _ None]
        shown_part_def [of _ "Some (_ @ _)"] nonempty_def [of None] nonempty_def [of "Some _"] nonempty_def [of p]
        split: option.splits if_splits)
  show "map_sum id did_url_toString (parse_did_url url) = Inr url" if "nonempty q = None"
    using exists that by (auto simp: assms(6) shown_part_def [of _ q])
qed

text \<open>Parsing the text of a DID URL gives back its method, query and fragment, and printing what
  was parsed gives back the text, provided there is no query. A query stays behind in the path
  (or, without a path, in the method-specific id) as well, and printing then repeats it.\<close>

theorem did_url_roundtrip:
  assumes "CHR '':'' \<notin> set m"
    and "{CHR ''/'', CHR ''?'', CHR ''#''} \<inter> (set m \<union> set msi) = {}"
    and "{CHR ''?'', CHR ''#''} \<inter> set (or_default p []) = {}"
    and "{CHR ''/'', CHR ''#''} \<inter> set (or_default q []) = {}"
    and "base = ''did:'' @ m @ '':'' @ msi"
    and "url = base @ shown_part CHR ''/'' p @ shown_part CHR ''?'' q @ shown_part CHR ''#'' f"
  shows "(\<exists>u. parse_did_url url = Inr u \<and> dl_did u = url \<and> dl_method u = m \<and>
       dl_query u = nonempty q \<and> dl_fragment u = nonempty f \<and>
       (nonempty p = None \<longrightarrow> dl_methodSpecificId u = msi @ shown_part CHR ''?'' q \<and> dl_path u = None) \<and>
       (\<forall>x. nonempty p = Some x \<longrightarrow>
          dl_methodSpecificId u = msi \<and> dl_path u = Some (x @ shown_part CHR ''?'' q)) \<and>
       did_url_toString u = base @ shown_part CHR ''/'' p @ shown_part CHR ''?'' q @
         shown_part CHR ''?'' q @ shown_part CHR ''#'' f) \<and>
     (nonempty q = None \<longrightarrow> (map_sum id did_url_toString (parse_did_url url) = Inr url))"
proof -
  have c1: "\<exists>u. parse_did_url url = Inr u \<and> dl_did u = url \<and> dl_method u = m \<and>
       dl_query u = nonempty q \<and> dl_fragment u = nonempty f \<and>
       (nonempty p = None \<longrightarrow> dl_methodSpecificId u = msi @ shown_part CHR ''?'' q \<and> dl_path u = None) \<and>
       (\<forall>x. nonempty p = Some x \<longrightarrow>
          dl_methodSpecificId u = msi \<and> dl_path u = Some (x @ shown_part CHR ''?'' q)) \<and>
       did_url_toString u = base @ shown_part CHR ''/'' p @ shown_part CHR ''?'' q @
         shown_part CHR ''?'' q @ shown_part CHR ''#'' f"
    by (rule did_url_roundtrip_facts(1) [OF assms])
  have c2: "nonempty q = None \<longrightarrow> (map_sum id did_url_toString (parse_did_url url) = Inr url)"
    by (rule impI) (rule did_url_roundtrip_facts(2) [OF assms]; (assumption | erule spec))
  show ?thesis by (rule conjI [OF c1 c2])
qed

theorem did_url_roundtrip_witness:
  "map_sum id did_url_toString (parse_did_url ''did:web:example.com:a/b/c#key-1'') =
     Inr ''did:web:example.com:a/b/c#key-1''"
  by (rule did_url_roundtrip [where m = "''web''" and msi = "''example.com:a''" and p = "Some ''b/c''" and
        q = None and f = "Some ''key-1''", THEN conjunct2, THEN mp]) (auto simp: shown_part_def nonempty_def)

end
