(* ===== verification/DidDocument.thy ===== *)
theory DidDocument
  imports DidUrl
begin

section \<open>DID documents and their resolution\<close>

text \<open>
  packages/did/src: service.ts, verification.ts, document.ts, resolver.ts, methods/did-key.ts and
  methods/did-web.ts. JSON documents have the types of DIDDocumentParams; a field that is undefined
  is \<open>None\<close>. An element of verificationMethod is an instance of its class or a plain
  object cast to it (\<open>vm_instance\<close>), which has no toJSON. The resolver's cache holds the
  documents themselves; no caller in the repository changes a resolved document. fetch is a
  parameter: a rejection, or a response with its status and body.
\<close>

unbundle bit_operations_syntax

subsection \<open>Services and verification methods\<close>

record did_service_params =
  sp_id :: string
  sp_type :: string
  sp_serviceEndpoint :: "string option"
  sp_endpoints :: "string list option"

record did_service =
  dsv_id :: string
  dsv_type :: string
  dsv_serviceEndpoint :: "string option"
  dsv_endpoints :: "string list"

definition new_Service :: "did_service_params \<Rightarrow> did_service" where
  "new_Service params =
     \<lparr>dsv_id = sp_id params, dsv_type = sp_type params, dsv_serviceEndpoint = sp_serviceEndpoint params,
      dsv_endpoints = or_default (sp_endpoints params) []\<rparr>"

definition addEndpoint :: "string \<Rightarrow> did_service \<Rightarrow> did_service" where
  "addEndpoint endpoint s = s\<lparr>dsv_endpoints := dsv_endpoints s @ [endpoint]\<rparr>"

definition list_or_undefined :: "'a list \<Rightarrow> 'a list option" where
  "list_or_undefined xs = (if xs = [] then None else Some xs)"

definition Service_toJSON :: "did_service \<Rightarrow> did_service_params" where
  "Service_toJSON s =
     \<lparr>sp_id = dsv_id s, sp_type = dsv_type s, sp_serviceEndpoint = dsv_serviceEndpoint s,
      sp_endpoints = list_or_undefined (dsv_endpoints s)\<rparr>"

datatype verification_type =
    Ed25519VerificationKey2020 | Ed25519VerificationKey2018 | JsonWebKey2020
  | EcdsaSecp256k1VerificationKey2019 | Bls12381G2Key2020

record verification_method_params =
  vp_id :: string
  vp_type :: verification_type
  vp_controller :: string
  vp_publicKeyMultibase :: "string option"
  vp_publicKeyJwk :: "json option"

record verification_method = verification_method_params +
  vm_instance :: bool

definition new_VerificationMethod :: "verification_method_params \<Rightarrow> verification_method" where
  "new_VerificationMethod params =
     verification_method_params.extend params (verification_method.fields True)"

definition VerificationMethod_toJSON :: "verification_method \<Rightarrow> verification_method_params result" where
  "VerificationMethod_toJSON v =
     (if vm_instance v then Inr (verification_method_params.truncate v)
      else Inl (JsTypeError ''v.toJSON is not a function''))"

text \<open>\<open>Buffer.from(bytes).toString('base64url')\<close>.\<close>

definition base64url_alphabet :: string where
  "base64url_alphabet = ''ABCDEFGHIJKLMNOPQRSTUVWXYZabcdefghijklmnopqrstuvwxyz0123456789-_''"

definition b64 :: "nat \<Rightarrow> char" where
  "b64 n = base64url_alphabet ! (n mod 64)"

fun base64url :: "8 word list \<Rightarrow> string" where
  "base64url [] = []"
| "base64url [a] = [b64 (unat a div 4), b64 (unat a * 16)]"
| "base64url [a, b] =
     [b64 (unat a div 4), b64 (unat a * 16 + unat b div 16), b64 (unat b * 4)]"
| "base64url (a # b # c # bytes) =
     [b64 (unat a div 4), b64 (unat a * 16 + unat b div 16), b64 (unat b * 4 + unat c div 64),
      b64 (unat c)] @ base64url bytes"

definition fromEd25519 :: "string \<Rightarrow> string \<Rightarrow> 8 word list \<Rightarrow> verification_method" where
  "fromEd25519 i controller keyBytes =
     new_VerificationMethod
       \<lparr>vp_id = i, vp_type = Ed25519VerificationKey2020, vp_controller = controller,
        vp_publicKeyMultibase = Some (CHR ''z'' # base64url keyBytes), vp_publicKeyJwk = None\<rparr>"

subsection \<open>Documents\<close>

record did_document =
  dd_context :: "string list"
  dd_id :: string
  dd_controller :: "string list option"
  dd_alsoKnownAs :: "string list"
  dd_verificationMethod :: "verification_method list"
  dd_authentication :: "string list"
  dd_assertionMethod :: "string list"
  dd_keyAgreement :: "string list"
  dd_capabilityInvocation :: "string list"
  dd_capabilityDelegation :: "string list"
  dd_service :: "did_service list"
  dd_created :: "string option"
  dd_updated :: "string option"
  dd_versionId :: "string option"

record did_document_json =
  dj_context :: "string list option"
  dj_id :: string
  dj_controller :: "string list option"
  dj_alsoKnownAs :: "string list option"
  dj_verificationMethod :: "verification_method_params list option"
  dj_authentication :: "string list option"
  dj_assertionMethod :: "string list option"
  dj_service :: "did_service_params list option"
  dj_created :: "string option"
  dj_updated :: "string option"
  dj_versionId :: "string option"

definition new_DIDDocument :: "string \<Rightarrow> did_document" where
  "new_DIDDocument i =
     \<lparr>dd_context = [''https://www.w3.org/ns/did/v1'', ''https://w3id.org/security/suites/ed25519-2020/v1''],
      dd_id = i, dd_controller = None, dd_alsoKnownAs = [], dd_verificationMethod = [],
      dd_authentication = [], dd_assertionMethod = [], dd_keyAgreement = [],
      dd_capabilityInvocation = [], dd_capabilityDelegation = [], dd_service = [],
      dd_created = None, dd_updated = None, dd_versionId = None\<rparr>"

definition addVerificationMethod :: "verification_method \<Rightarrow> did_document \<Rightarrow> did_document" where
  "addVerificationMethod m doc =
     doc\<lparr>dd_verificationMethod := dd_verificationMethod doc @ [m],
         dd_authentication := dd_authentication doc @ [vp_id m]\<rparr>"

definition addService :: "did_service \<Rightarrow> did_document \<Rightarrow> did_document" where
  "addService s doc = doc\<lparr>dd_service := dd_service doc @ [s]\<rparr>"

definition validate_document :: "did_document \<Rightarrow> bool result" where
  "validate_document doc =
     (if \<not> starts_with (dd_id doc) ''did:''
      then Inl (DIDError (''Invalid DID: '' @ dd_id doc) InvalidDID)
      else if list_ex (\<lambda>vm. vp_controller vm = []) (dd_verificationMethod doc)
      then Inl (DIDError ''Empty controller in verification method'' InvalidVerificationMethod)
      else Inr True)"

text \<open>Mapping a method that may throw over a list.\<close>

fun map_result :: "('a \<Rightarrow> 'b result) \<Rightarrow> 'a list \<Rightarrow> 'b list result" where
  "map_result f [] = Inr []"
| "map_result f (x # xs) =
     (case f x of
        Inl e \<Rightarrow> Inl e
      | Inr y \<Rightarrow> (case map_result f xs of Inl e \<Rightarrow> Inl e | Inr ys \<Rightarrow> Inr (y # ys)))"

definition document_toJSON :: "did_document \<Rightarrow> did_document_json result" where
  "document_toJSON doc =
     (case map_result VerificationMethod_toJSON (dd_verificationMethod doc) of
        Inl e \<Rightarrow> Inl e
      | Inr vms \<Rightarrow>
          Inr \<lparr>dj_context = Some (dd_context doc), dj_id = dd_id doc, dj_controller = dd_controller doc,
               dj_alsoKnownAs = list_or_undefined (dd_alsoKnownAs doc),
               dj_verificationMethod = Some vms, dj_authentication = Some (dd_authentication doc),
               dj_assertionMethod = list_or_undefined (dd_assertionMethod doc),
               dj_service = Some (map Service_toJSON (dd_service doc)),
               dj_created = dd_created doc, dj_updated = dd_updated doc,
               dj_versionId = dd_versionId doc\<rparr>)"

definition document_fromJSON :: "did_document_json \<Rightarrow> did_document" where
  "document_fromJSON json =
     (new_DIDDocument (dj_id json))\<lparr>
        dd_controller := dj_controller json,
        dd_alsoKnownAs := or_default (dj_alsoKnownAs json) [],
        dd_created := nonempty (dj_created json), dd_updated := nonempty (dj_updated json),
        dd_versionId := nonempty (dj_versionId json)\<rparr>"

subsection \<open>did:key\<close>

definition base32_alphabet :: string where
  "base32_alphabet = ''abcdefghijklmnopqrstuvwxyz234567''"

fun char_index :: "char \<Rightarrow> string \<Rightarrow> nat option" where
  "char_index c [] = None"
| "char_index c (d # ds) = (if c = d then Some 0 else map_option Suc (char_index c ds))"

text \<open>The loop over the characters: \<open>bits\<close> is a 32-bit integer whose upper bits are never cleared,
  \<open>bitLength\<close> says how many of the lower ones are still to be written.\<close>

fun base32_loop :: "string \<Rightarrow> 32 word \<Rightarrow> nat \<Rightarrow> 8 word list \<Rightarrow> 8 word list result" where
  "base32_loop [] bits bitLength out = Inr out"
| "base32_loop (ch # raw) bits bitLength out =
     (case char_index ch base32_alphabet of
        None \<Rightarrow> Inl (DIDError (''Invalid base32 character: '' @ [ch]) CryptoError)
      | Some idx \<Rightarrow>
          let bits' = push_bit 5 bits OR of_nat idx;
              bitLength' = bitLength + 5
          in if bitLength' \<ge> 8
             then base32_loop raw bits' (bitLength' - 8)
                    (out @ [ucast (drop_bit (bitLength' - 8) bits' AND 255)])
             else base32_loop raw bits' bitLength' out)"

definition decodeMultibase :: "string \<Rightarrow> (8 word list \<times> char) result" where
  "decodeMultibase encoded =
     (case encoded of
        [] \<Rightarrow> Inl (DIDError ''Unsupported multibase prefix: undefined'' CryptoError)
      | p # raw \<Rightarrow>
          if p \<noteq> CHR ''z'' then Inl (DIDError (''Unsupported multibase prefix: '' @ [p]) CryptoError)
          else (case base32_loop raw 0 0 [] of Inl e \<Rightarrow> Inl e | Inr bytes \<Rightarrow> Inr (bytes, p)))"

definition plain_key_method :: "string \<Rightarrow> string \<Rightarrow> string \<Rightarrow> verification_method" where
  "plain_key_method vmId did msi =
     \<lparr>vp_id = vmId, vp_type = Ed25519VerificationKey2020, vp_controller = did,
      vp_publicKeyMultibase = Some msi, vp_publicKeyJwk = None, vm_instance = False\<rparr>"

definition resolveDIDKey :: "string \<Rightarrow> string \<Rightarrow> did_document" where
  "resolveDIDKey now_iso msi =
     (let did = ''did:key:'' @ msi;
          doc = new_DIDDocument did;
          vmId = did @ ''#'' @ msi;
          doc1 = (case decodeMultibase msi of
              Inr (bytes, p) \<Rightarrow> addVerificationMethod (fromEd25519 vmId did bytes) doc
            | Inl _ \<Rightarrow> addVerificationMethod (plain_key_method vmId did msi) doc)
      in doc1\<lparr>dd_created := Some now_iso\<rparr>)"

subsection \<open>did:web\<close>

datatype fetch_response =
    FetchRejects string \<comment> \<open>the promise of fetch rejects, with the message\<close>
  | FetchBadJson int string \<comment> \<open>status; the body is not JSON, with the message\<close>
  | FetchJson int did_document_json

definition response_status :: "fetch_response \<Rightarrow> int" where
  "response_status r = (case r of FetchRejects _ \<Rightarrow> 0 | FetchBadJson st _ \<Rightarrow> st | FetchJson st _ \<Rightarrow> st)"

definition response_ok :: "int \<Rightarrow> bool" where
  "response_ok st \<longleftrightarrow> 200 \<le> st \<and> st \<le> 299"

definition drop_did_web :: "string \<Rightarrow> string" where
  "drop_did_web s = (if starts_with s ''did:web:'' then drop 8 s else s)"

definition did_web_url :: "string \<Rightarrow> string" where
  "did_web_url normalizedDomain =
     (let hostname = join_with ''.'' (split_on CHR '':'' normalizedDomain);
          authority = fst (cut_at CHR ''/'' hostname)
      in ''https://'' @ authority @ ''/.well-known/did.json'')"

definition resolveDIDWeb :: "(string \<Rightarrow> fetch_response) \<Rightarrow> string \<Rightarrow> did_document result" where
  "resolveDIDWeb fetch domain =
     (let normalizedDomain = drop_did_web domain;
          url = did_web_url normalizedDomain
      in case fetch url of
           FetchRejects m \<Rightarrow>
             Inl (DIDError (''Failed to fetch did:web document from '' @ url @ '': '' @ m) ResolutionError)
         | resp \<Rightarrow>
             if \<not> response_ok (response_status resp) then
               Inl (DIDError (''did:web:'' @ domain @ '' not found at '' @ url @ '' (HTTP '' @
                      show_int (response_status resp) @ '')'') NotFound)
             else (case resp of
                 FetchJson _ data \<Rightarrow>
                   let doc = document_fromJSON data;
                       expectedId = ''did:web:'' @ normalizedDomain
                   in if dd_id doc \<noteq> expectedId then
                        Inl (DIDError (''DID document id mismatch: expected '' @ expectedId @ '', got '' @ dd_id doc)
                               InvalidDID)
                      else Inr doc
               | FetchBadJson _ m \<Rightarrow>
                   Inl (DIDError (''Invalid JSON response from '' @ url @ '': '' @ m) SerializationError)
               | FetchRejects m \<Rightarrow>
                   Inl (DIDError (''Failed to fetch did:web document from '' @ url @ '': '' @ m) ResolutionError)))"

subsection \<open>The resolver\<close>

text \<open>A resolver method: the ISO text of the clock, the method-specific id.\<close>

type_synonym resolver_method = "string \<Rightarrow> string \<Rightarrow> did_document result"

record did_resolver =
  dr_resolvers :: "(string, resolver_method) jsmap"
  dr_cache :: "(string, did_document \<times> int) jsmap"
  dr_cacheTTL :: int

definition default_key_resolver :: resolver_method where
  "default_key_resolver now_iso msi =
     (let did = ''did:key:'' @ msi;
          doc = addVerificationMethod (plain_key_method (did @ ''#'' @ msi) did msi) (new_DIDDocument did)
      in Inr (doc\<lparr>dd_created := Some now_iso\<rparr>))"

definition default_web_resolver :: "(string \<Rightarrow> fetch_response) \<Rightarrow> resolver_method" where
  "default_web_resolver fetch now_iso domain =
     (case fetch (''https://'' @ domain @ ''/.well-known/did.json'') of
        FetchRejects m \<Rightarrow> Inl (JsError m)
      | FetchBadJson st m \<Rightarrow>
          if response_ok st then Inl (JsNamedError ''SyntaxError'' m)
          else Inl (DIDError (''did:web:'' @ domain @ '' not found'') NotFound)
      | FetchJson st data \<Rightarrow>
          if response_ok st then Inr (document_fromJSON data)
          else Inl (DIDError (''did:web:'' @ domain @ '' not found'') NotFound))"

definition default_ethr_resolver :: resolver_method where
  "default_ethr_resolver now_iso msi =
     Inl (DIDError ''did:ethr resolver requires Ethereum RPC access'' ResolutionError)"

definition new_DIDResolver :: "(string \<Rightarrow> fetch_response) \<Rightarrow> int option \<Rightarrow> did_resolver" where
  "new_DIDResolver fetch ttl =
     \<lparr>dr_resolvers = [(''key'', default_key_resolver), (''web'', default_web_resolver fetch),
        (''ethr'', default_ethr_resolver)],
      dr_cache = jm_empty, dr_cacheTTL = or_default ttl 300000\<rparr>"

definition registerMethod :: "string \<Rightarrow> resolver_method \<Rightarrow> did_resolver \<Rightarrow> did_resolver" where
  "registerMethod m f r = r\<lparr>dr_resolvers := jm_set m f (dr_resolvers r)\<rparr>"

text \<open>resolve starts at \<open>now\<close>; the resolver method has answered at \<open>later\<close>.\<close>

definition resolve_did ::
    "int \<Rightarrow> int \<Rightarrow> string \<Rightarrow> string \<Rightarrow> did_resolver \<Rightarrow> did_document result \<times> did_resolver" where
  "resolve_did now later now_iso did r =
     (let fresh = (case jm_get (dr_cache r) did of
          None \<Rightarrow> None
        | Some (doc, cachedAt) \<Rightarrow> if now - cachedAt < dr_cacheTTL r then Some doc else None)
      in case fresh of
           Some doc \<Rightarrow> (Inr doc, r)
         | None \<Rightarrow>
             (case parseDID did of
                Inl e \<Rightarrow> (Inl e, r)
              | Inr (m, msi) \<Rightarrow>
                  (case jm_get (dr_resolvers r) m of
                     None \<Rightarrow> (Inl (DIDError (''Unsupported DID method: '' @ m) UnsupportedMethod), r)
                   | Some f \<Rightarrow>
                       (case f now_iso msi of
                          Inl e \<Rightarrow> (Inl e, r)
                        | Inr doc \<Rightarrow> (Inr doc, r\<lparr>dr_cache := jm_set did (doc, later) (dr_cache r)\<rparr>)))))"

definition invalidateCache :: "string \<Rightarrow> did_resolver \<Rightarrow> did_resolver" where
  "invalidateCache did r = r\<lparr>dr_cache := jm_del did (dr_cache r)\<rparr>"

definition clearCache :: "did_resolver \<Rightarrow> did_resolver" where
  "clearCache r = r\<lparr>dr_cache := jm_empty\<rparr>"

subsection \<open>Runs of the resolver\<close>

datatype resolver_call =
    Resolve int string string \<comment> \<open>when the method has answered, the ISO text of the clock, the DID\<close>
  | RegisterMethod string resolver_method
  | Invalidate string
  | ClearAll

fun resolver_run :: "int \<times> resolver_call \<Rightarrow> did_resolver \<Rightarrow> did_resolver" where
  "resolver_run (now, Resolve later now_iso did) r = snd (resolve_did now later now_iso did r)"
| "resolver_run (now, RegisterMethod m f) r = registerMethod m f r"
| "resolver_run (now, Invalidate did) r = invalidateCache did r"
| "resolver_run (now, ClearAll) r = clearCache r"

text \<open>Calls that leave the cached answer for a DID alone: resolutions of it come before it is stale.\<close>

definition spares :: "string \<Rightarrow> int \<Rightarrow> int \<times> resolver_call \<Rightarrow> did_resolver \<Rightarrow> bool" where
  "spares did cachedAt e r \<longleftrightarrow>
     (case snd e of
        Resolve later now_iso d \<Rightarrow> d = did \<longrightarrow> fst e - cachedAt < dr_cacheTTL r
      | RegisterMethod m f \<Rightarrow> True
      | Invalidate d \<Rightarrow> d \<noteq> did
      | ClearAll \<Rightarrow> False)"

lemma resolve_fresh:
  "jm_get (dr_cache r) did = Some (doc, cachedAt) \<Longrightarrow> now - cachedAt < dr_cacheTTL r \<Longrightarrow>
     resolve_did now later now_iso did r = (Inr doc, r)"
  by (simp add: resolve_did_def)

lemma resolve_ttl [simp]: "dr_cacheTTL (snd (resolve_did now later now_iso did r)) = dr_cacheTTL r"
  by (auto simp: resolve_did_def Let_def split: option.splits sum.splits)

lemma resolve_other:
  "d \<noteq> did \<Longrightarrow> jm_get (dr_cache (snd (resolve_did now later now_iso d r))) did = jm_get (dr_cache r) did"
  by (auto simp: resolve_did_def Let_def split: option.splits sum.splits)

lemma resolver_run_spares:
  assumes "jm_get (dr_cache r) did = Some (doc, cachedAt)" and "spares did cachedAt e r"
  shows "jm_get (dr_cache (resolver_run e r)) did = Some (doc, cachedAt) \<and> dr_cacheTTL (resolver_run e r) = dr_cacheTTL r"
proof (cases "snd e")
  case (Resolve later now_iso d)
  with assms show ?thesis
    by (cases e; cases "d = did") (auto simp: spares_def resolve_fresh resolve_other)
qed (use assms in \<open>cases e; auto simp: spares_def registerMethod_def invalidateCache_def\<close>)+

interpretation cached: invariant_machine resolver_run "spares did cachedAt"
  "\<lambda>r. jm_get (dr_cache r) did = Some (doc, cachedAt) \<and> dr_cacheTTL r = ttl" for did cachedAt doc ttl
  by unfold_locales (use resolver_run_spares in blast)

subsection \<open>Properties\<close>

lemma resolver_serves_cache_facts:
  assumes "resolve_did t later now_iso did r = (Inr doc, r1)" and "jm_get (dr_cache r) did = None"
    and "admissible (spares did later) resolver_run calls r1"
    and "r2 = run_events resolver_run calls r1"
  shows "t' - later < dr_cacheTTL r \<Longrightarrow> resolve_did t' later' iso' did r2 = (Inr doc, r2)"
    and "\<exists>m msi. parseDID did = Inr (m, msi) \<and>
       (jm_get (dr_resolvers r2) m = Some f \<longrightarrow>
          fst (resolve_did t' later' iso' did (invalidateCache did r2)) = f iso' msi)"
proof -
  obtain m msi g where did: "parseDID did = Inr (m, msi)" and "jm_get (dr_resolvers r) m = Some g"
    and r1: "r1 = r\<lparr>dr_cache := jm_set did (doc, later) (dr_cache r)\<rparr>"
    using assms(1,2) by (auto simp: resolve_did_def Let_def split: option.splits sum.splits)
  have "jm_get (dr_cache r1) did = Some (doc, later) \<and> dr_cacheTTL r1 = dr_cacheTTL r"
    by (simp add: r1)
  from cached.inv_run [OF this assms(3)]
  have kept: "jm_get (dr_cache r2) did = Some (doc, later)" "dr_cacheTTL r2 = dr_cacheTTL r"
    by (simp_all add: assms(4))
  show "t' - later < dr_cacheTTL r \<Longrightarrow> resolve_did t' later' iso' did r2 = (Inr doc, r2)"
    using kept by (simp add: resolve_fresh)
  show "\<exists>m msi. parseDID did = Inr (m, msi) \<and>
       (jm_get (dr_resolvers r2) m = Some f \<longrightarrow>
          fst (resolve_did t' later' iso' did (invalidateCache did r2)) = f iso' msi)"
    using did by (auto simp: resolve_did_def invalidateCache_def split: sum.splits)
qed

text \<open>Once a DID has been resolved afresh, every resolution of it until the answer is older than
  the time to live returns the same document without asking a resolver, whatever other DIDs are
  resolved or invalidated and whatever methods are registered; after an invalidation the
  registered method is asked again.\<close>

theorem resolver_serves_cache:
  assumes "resolve_did t later now_iso did r = (Inr doc, r1)"
    and "jm_get (dr_cache r) did = None"
    and "admissible (spares did later) resolver_run calls r1"
    and "r2 = run_events resolver_run calls r1"
  shows "(t' - later < dr_cacheTTL r \<longrightarrow> (resolve_did t' later' iso' did r2 = (Inr doc, r2))) \<and>
     (\<exists>m msi. parseDID did = Inr (m, msi) \<and>
       (jm_get (dr_resolvers r2) m = Some f \<longrightarrow>
          fst (resolve_did t' later' iso' did (invalidateCache did r2)) = f iso' msi))"
proof -
  have c1: "t' - later < dr_cacheTTL r \<longrightarrow> (resolve_did t' later' iso' did r2 = (Inr doc, r2))"
    by (rule impI) (rule resolver_serves_cache_facts(1) [OF assms]; (assumption | erule spec))
  have c2: "\<exists>m msi. parseDID did = Inr (m, msi) \<and>
       (jm_get (dr_resolvers r2) m = Some f \<longrightarrow>
          fst (resolve_did t' later' iso' did (invalidateCache did r2)) = f iso' msi)"
    by (rule resolver_serves_cache_facts(2) [OF assms])
  show ?thesis by (rule conjI [OF c1 c2])
qed

definition demo_resolver :: did_resolver where
  "demo_resolver = new_DIDResolver (\<lambda>url. FetchRejects ''offline'') None"

theorem resolver_serves_cache_witness:
  "\<exists>doc r1. resolve_did 0 5 ''t0'' ''did:key:zabc'' demo_resolver = (Inr doc, r1) \<and>
     resolve_did 300000 300001 ''t1'' ''did:key:zabc'' (snd (resolve_did 7 8 ''t2'' ''did:key:zq'' r1)) =
       (Inr doc, snd (resolve_did 7 8 ''t2'' ''did:key:zq'' r1))"
proof -
  obtain doc r1 where first: "resolve_did 0 5 ''t0'' ''did:key:zabc'' demo_resolver = (Inr doc, r1)"
  proof -
    have "case resolve_did 0 5 ''t0'' ''did:key:zabc'' demo_resolver of (Inr _, _) \<Rightarrow> True | _ \<Rightarrow> False" by code_simp
    with that show ?thesis by (auto split: prod.splits sum.splits)
  qed
  have "jm_get (dr_cache demo_resolver) ''did:key:zabc'' = None"
    by (simp add: demo_resolver_def new_DIDResolver_def)
  moreover have "admissible (spares ''did:key:zabc'' 5) resolver_run [(7, Resolve 8 ''t2'' ''did:key:zq'')] r1"
    by (simp add: spares_def)
  moreover have "(300000 :: int) - 5 < dr_cacheTTL demo_resolver"
    by (simp add: demo_resolver_def new_DIDResolver_def)
  ultimately have "resolve_did 300000 300001 ''t1'' ''did:key:zabc'' (snd (resolve_did 7 8 ''t2'' ''did:key:zq'' r1)) =
       (Inr doc, snd (resolve_did 7 8 ''t2'' ''did:key:zq'' r1))"
    using resolver_serves_cache [OF first _ _ refl,
        where calls = "[(7, Resolve 8 ''t2'' ''did:key:zq'')]" and t' = 300000] by simp
  with first show ?thesis by blast
qed

lemma document_json_loses_keys_facts:
  shows "document_toJSON doc = Inr j \<Longrightarrow>
       dd_id (document_fromJSON j) = dd_id doc \<and> dd_controller (document_fromJSON j) = dd_controller doc \<and>
       dd_alsoKnownAs (document_fromJSON j) = dd_alsoKnownAs doc \<and>
       dd_created (document_fromJSON j) = nonempty (dd_created doc) \<and>
       dd_verificationMethod (document_fromJSON j) = [] \<and> dd_authentication (document_fromJSON j) = [] \<and>
       dd_service (document_fromJSON j) = []"
    and "resolveDIDWeb fetch domain = Inr d \<Longrightarrow>
       dd_id d = ''did:web:'' @ drop_did_web domain \<and> dd_verificationMethod d = []"
    and "default_web_resolver (\<lambda>url. FetchJson 200 j) now_iso domain = Inr (document_fromJSON j) \<and>
       dd_id (document_fromJSON j) = dj_id j"
    and "map_sum id document_toJSON (default_key_resolver now_iso msi) =
       Inr (Inl (JsTypeError ''v.toJSON is not a function''))"
proof -
  show "document_toJSON doc = Inr j \<Longrightarrow>
       dd_id (document_fromJSON j) = dd_id doc \<and> dd_controller (document_fromJSON j) = dd_controller doc \<and>
       dd_alsoKnownAs (document_fromJSON j) = dd_alsoKnownAs doc \<and>
       dd_created (document_fromJSON j) = nonempty (dd_created doc) \<and>
       dd_verificationMethod (document_fromJSON j) = [] \<and> dd_authentication (document_fromJSON j) = [] \<and>
       dd_service (document_fromJSON j) = []"
    by (auto simp: document_toJSON_def document_fromJSON_def new_DIDDocument_def list_or_undefined_def
        split: sum.splits)
  show "resolveDIDWeb fetch domain = Inr d \<Longrightarrow>
       dd_id d = ''did:web:'' @ drop_did_web domain \<and> dd_verificationMethod d = []"
    by (auto simp: resolveDIDWeb_def Let_def document_fromJSON_def new_DIDDocument_def
        split: fetch_response.splits if_splits)
  show "default_web_resolver (\<lambda>url. FetchJson 200 j) now_iso domain = Inr (document_fromJSON j) \<and>
       dd_id (document_fromJSON j) = dj_id j"
    by (simp add: default_web_resolver_def response_ok_def document_fromJSON_def new_DIDDocument_def)
  show "map_sum id document_toJSON (default_key_resolver now_iso msi) =
       Inr (Inl (JsTypeError ''v.toJSON is not a function''))"
    by (simp add: default_key_resolver_def document_toJSON_def addVerificationMethod_def new_DIDDocument_def
        plain_key_method_def VerificationMethod_toJSON_def Let_def)
qed

text \<open>A document that is written to JSON and read back keeps its id, controllers, aliases and
  (if not empty) its dates, but loses every verification method, its authentication and its
  services; so no document fetched from the web has a key. Only a fetch through resolveDIDWeb
  guarantees that the document is the one asked for: the resolver's own web method
  accepts any id. What the resolver's own key method makes cannot be written to JSON.\<close>

theorem document_json_loses_keys:
  "(document_toJSON doc = Inr j \<longrightarrow> (dd_id (document_fromJSON j) = dd_id doc \<and> dd_controller (document_fromJSON j) = dd_controller doc \<and>
       dd_alsoKnownAs (document_fromJSON j) = dd_alsoKnownAs doc \<and>
       dd_created (document_fromJSON j) = nonempty (dd_created doc) \<and>
       dd_verificationMethod (document_fromJSON j) = [] \<and> dd_authentication (document_fromJSON j) = [] \<and>
       dd_service (document_fromJSON j) = [])) \<and>
     (resolveDIDWeb fetch domain = Inr d \<longrightarrow> (dd_id d = ''did:web:'' @ drop_did_web domain \<and> dd_verificationMethod d = [])) \<and>
     (default_web_resolver (\<lambda>url. FetchJson 200 j) now_iso domain = Inr (document_fromJSON j) \<and>
       dd_id (document_fromJSON j) = dj_id j) \<and>
     (map_sum id document_toJSON (default_key_resolver now_iso msi) =
       Inr (Inl (JsTypeError ''v.toJSON is not a function'')))"
proof -
  have c1: "document_toJSON doc = Inr j \<longrightarrow> (dd_id (document_fromJSON j) = dd_id doc \<and> dd_controller (document_fromJSON j) = dd_controller doc \<and>
       dd_alsoKnownAs (document_fromJSON j) = dd_alsoKnownAs doc \<and>
       dd_created (document_fromJSON j) = nonempty (dd_created doc) \<and>
       dd_verificationMethod (document_fromJSON j) = [] \<and> dd_authentication (document_fromJSON j) = [] \<and>
       dd_service (document_fromJSON j) = [])"
    by (rule impI) (rule document_json_loses_keys_facts(1); (assumption | erule spec))
  have c2: "resolveDIDWeb fetch domain = Inr d \<longrightarrow> (dd_id d = ''did:web:'' @ drop_did_web domain \<and> dd_verificationMethod d = [])"
    by (rule impI) (rule document_json_loses_keys_facts(2); (assumption | erule spec))
  have c3: "default_web_resolver (\<lambda>url. FetchJson 200 j) now_iso domain = Inr (document_fromJSON j) \<and>
       dd_id (document_fromJSON j) = dj_id j"
    by (rule document_json_loses_keys_facts(3))
  have c4: "map_sum id document_toJSON (default_key_resolver now_iso msi) =
       Inr (Inl (JsTypeError ''v.toJSON is not a function''))"
    by (rule document_json_loses_keys_facts(4))
  show ?thesis by (rule conjI [OF c1 conjI [OF c2 conjI [OF c3 c4]]])
qed

theorem document_json_loses_keys_witness:
  "\<exists>j. document_toJSON (addVerificationMethod (fromEd25519 ''k'' ''did:key:z'' [1, 2, 3]) (new_DIDDocument ''did:key:z'')) = Inr j \<and>
     dd_verificationMethod (document_fromJSON j) = []"
proof -
  let ?doc = "addVerificationMethod (fromEd25519 ''k'' ''did:key:z'' [1, 2, 3]) (new_DIDDocument ''did:key:z'')"
  obtain j where j: "document_toJSON ?doc = Inr j"
    by (simp add: document_toJSON_def addVerificationMethod_def new_DIDDocument_def fromEd25519_def
        new_VerificationMethod_def VerificationMethod_toJSON_def verification_method_params.defs
        verification_method.defs)
  from document_json_loses_keys [THEN conjunct1, THEN mp, OF j] j show ?thesis by blast
qed

end
