(* ===== verification/WebhookRelay.thy ===== *)
theory WebhookRelay
  imports Prelude
begin

section \<open>The webhook relay\<close>

text \<open>
  services/webhook-relay/src: config.ts, relay.ts and handler.ts. The relay keeps subscriptions,
  events and delivery attempts; the handler serves HTTP requests on it, which are their
  parsed bodies here. The delivery of one event to one subscription is modelled by itself: its
  start, and its settlement with what fetch gave. Signatures (HMAC of node's crypto over the
  JSON text) are a parameter where they are made.
\<close>

subsection \<open>Configuration\<close>

datatype retry_strategy = StExponentialBackoff | StLinear | StFixed | StOther string

definition retry_strategy_of :: "string \<Rightarrow> retry_strategy" where
  "retry_strategy_of s =
     (if s = ''exponential_backoff'' then StExponentialBackoff
      else if s = ''linear'' then StLinear else if s = ''fixed'' then StFixed else StOther s)"

record relay_retry_policy =
  rr_strategy :: retry_strategy
  rr_maxRetries :: "int option"
  rr_baseDelayMs :: "int option"
  rr_maxDelayMs :: "int option"
  rr_timeoutMs :: "int option"

record webhook_relay_config =
  wr_port :: "int option"
  wr_host :: string
  wr_retryPolicy :: relay_retry_policy
  wr_maxConcurrentDeliveries :: "int option"
  wr_deliveryQueueSize :: "int option"
  wr_cleanupIntervalMs :: "int option"
  wr_maxEventAgeMs :: "int option"
  wr_healthCheckEndpoint :: string
  wr_secretHeader :: string
  wr_signatureHeader :: string

definition loadConfig_relay :: "(string \<Rightarrow> string option) \<Rightarrow> webhook_relay_config" where
  "loadConfig_relay env =
     \<lparr>wr_port = parseInt10 (env_or env ''WEBHOOK_RELAY_PORT'' ''3050''),
      wr_host = env_or env ''WEBHOOK_RELAY_HOST'' ''0.0.0.0'',
      wr_retryPolicy =
        \<lparr>rr_strategy = retry_strategy_of (env_or env ''WEBHOOK_RETRY_STRATEGY'' ''exponential_backoff''),
         rr_maxRetries = parseInt10 (env_or env ''WEBHOOK_MAX_RETRIES'' ''5''),
         rr_baseDelayMs = parseInt10 (env_or env ''WEBHOOK_BASE_DELAY_MS'' ''1000''),
         rr_maxDelayMs = parseInt10 (env_or env ''WEBHOOK_MAX_DELAY_MS'' ''60000''),
         rr_timeoutMs = parseInt10 (env_or env ''WEBHOOK_TIMEOUT_MS'' ''10000'')\<rparr>,
      wr_maxConcurrentDeliveries = parseInt10 (env_or env ''WEBHOOK_MAX_CONCURRENT'' ''10''),
      wr_deliveryQueueSize = parseInt10 (env_or env ''WEBHOOK_QUEUE_SIZE'' ''1000''),
      wr_cleanupIntervalMs = parseInt10 (env_or env ''WEBHOOK_CLEANUP_INTERVAL_MS'' ''300000''),
      wr_maxEventAgeMs = parseInt10 (env_or env ''WEBHOOK_MAX_EVENT_AGE_MS'' ''86400000''),
      wr_healthCheckEndpoint = env_or env ''WEBHOOK_HEALTH_CHECK_ENDPOINT'' ''/health'',
      wr_secretHeader = env_or env ''WEBHOOK_SECRET_HEADER'' ''X-Webhook-Secret'',
      wr_signatureHeader = env_or env ''WEBHOOK_SIGNATURE_HEADER'' ''X-Webhook-Signature''\<rparr>"

subsection \<open>The relay\<close>

datatype delivery_status = DsPending | DsDelivering | DsDelivered | DsFailed | DsExpired

record relay_event =
  re_id :: string
  re_type :: string
  re_payload :: json
  re_createdAt :: int

record relay_subscription =
  rs_id :: string
  rs_url :: string
  rs_events :: "string list"
  rs_secret :: string
  rs_retryPolicy :: relay_retry_policy
  rs_active :: bool
  rs_createdAt :: "int option" \<comment> \<open>None only in the stand-in of a report\<close>

record delivery_attempt =
  da_id :: string
  da_subscriptionId :: string
  da_eventId :: string
  da_status :: delivery_status
  da_attemptNumber :: int
  da_statusCode :: "int option"
  da_error :: "string option"
  da_startedAt :: "int option"
  da_completedAt :: "int option"
  da_nextRetryAt :: "int option"

record delivery_report =
  dr_subscription :: relay_subscription
  dr_event :: relay_event
  dr_attempts :: "delivery_attempt list"
  dr_status :: delivery_status

record webhook_relay =
  wk_subscriptions :: "(string, relay_subscription) jsmap"
  wk_deliveries :: "(string, delivery_attempt list) jsmap"
  wk_events :: "(string, relay_event) jsmap"
  wk_activeDeliveries :: int
  wk_cleanupTimer :: bool

definition new_webhook_relay :: webhook_relay where
  "new_webhook_relay =
     \<lparr>wk_subscriptions = jm_empty, wk_deliveries = jm_empty, wk_events = jm_empty,
      wk_activeDeliveries = 0, wk_cleanupTimer = True\<rparr>"

definition stop_relay :: "webhook_relay \<Rightarrow> webhook_relay" where
  "stop_relay r = r\<lparr>wk_cleanupTimer := False\<rparr>"

definition registerSubscription ::
    "webhook_relay_config \<Rightarrow> int \<Rightarrow> string \<Rightarrow> string \<Rightarrow> string list \<Rightarrow> string \<Rightarrow> webhook_relay \<Rightarrow>
     relay_subscription \<times> webhook_relay" where
  "registerSubscription cfg now uuid url events secret r =
     (let subscription = \<lparr>rs_id = uuid, rs_url = url, rs_events = events, rs_secret = secret,
            rs_retryPolicy = wr_retryPolicy cfg, rs_active = True, rs_createdAt = Some now\<rparr>
      in (subscription, r\<lparr>wk_subscriptions := jm_set uuid subscription (wk_subscriptions r)\<rparr>))"

text \<open>The body of a PATCH is assigned to the subscription whole, so every field of it can come from
  outside; \<open>None\<close> is a field that is absent. Fields of the wrong JSON type are not modelled.\<close>

record subscription_updates =
  up_id :: "string option"
  up_url :: "string option"
  up_events :: "string list option"
  up_secret :: "string option"
  up_retryPolicy :: "relay_retry_policy option"
  up_active :: "bool option"

definition assign_updates :: "subscription_updates \<Rightarrow> relay_subscription \<Rightarrow> relay_subscription" where
  "assign_updates u s =
     s\<lparr>rs_id := assign_key (up_id u) (rs_id s), rs_url := assign_key (up_url u) (rs_url s),
       rs_events := assign_key (up_events u) (rs_events s),
       rs_secret := assign_key (up_secret u) (rs_secret s),
       rs_retryPolicy := assign_key (up_retryPolicy u) (rs_retryPolicy s),
       rs_active := assign_key (up_active u) (rs_active s)\<rparr>"

definition updateSubscription ::
    "string \<Rightarrow> subscription_updates \<Rightarrow> webhook_relay \<Rightarrow> relay_subscription result \<times> webhook_relay" where
  "updateSubscription i updates r =
     (case jm_get (wk_subscriptions r) i of
        None \<Rightarrow> (Inl (JsError (''Subscription not found: '' @ i)), r)
      | Some s \<Rightarrow>
          (Inr (assign_updates updates s),
           r\<lparr>wk_subscriptions := jm_set i (assign_updates updates s) (wk_subscriptions r)\<rparr>))"

definition removeSubscription :: "string \<Rightarrow> webhook_relay \<Rightarrow> webhook_relay" where
  "removeSubscription i r = r\<lparr>wk_subscriptions := jm_del i (wk_subscriptions r)\<rparr>"

definition getSubscription :: "string \<Rightarrow> webhook_relay \<Rightarrow> relay_subscription option" where
  "getSubscription i r = jm_get (wk_subscriptions r) i"

definition listSubscriptions :: "webhook_relay \<Rightarrow> relay_subscription list" where
  "listSubscriptions r = jm_values (wk_subscriptions r)"

text \<open>emitEvent stores the event and then calls filter on the Map of subscriptions, which has no
  such method: the call throws, and nothing after it is ever run.\<close>

definition emitEvent ::
    "int \<Rightarrow> string \<Rightarrow> string \<Rightarrow> json \<Rightarrow> webhook_relay \<Rightarrow> string result \<times> webhook_relay" where
  "emitEvent now uuid type payload r =
     (let event = \<lparr>re_id = uuid, re_type = type, re_payload = payload, re_createdAt = now\<rparr>;
          r1 = r\<lparr>wk_events := jm_set uuid event (wk_events r)\<rparr>
      in (Inl (JsTypeError ''this.subscriptions.filter is not a function''), r1))"

definition getDeliveryReport ::
    "webhook_relay_config \<Rightarrow> string \<Rightarrow> webhook_relay \<Rightarrow> delivery_report option" where
  "getDeliveryReport cfg eventId r =
     (case jm_get (wk_events r) eventId of
        None \<Rightarrow> None
      | Some event \<Rightarrow>
          let attempts = or_default (jm_get (wk_deliveries r) eventId) [];
              subscription = (case attempts of [] \<Rightarrow> None
                | a # _ \<Rightarrow> if da_subscriptionId a = [] then None
                            else jm_get (wk_subscriptions r) (da_subscriptionId a))
          in Some \<lparr>dr_subscription = or_default subscription
                     \<lparr>rs_id = ''unknown'', rs_url = [], rs_events = [], rs_secret = [],
                      rs_retryPolicy = wr_retryPolicy cfg, rs_active = False, rs_createdAt = None\<rparr>,
                   dr_event = event, dr_attempts = attempts,
                   dr_status = (if attempts = [] then DsPending else da_status (last attempts))\<rparr>)"

text \<open>The clean-up looks at the deliveries that are there; a comparison with NaN is false.\<close>

definition old_delivery :: "webhook_relay_config \<Rightarrow> int \<Rightarrow> delivery_attempt list \<Rightarrow> bool" where
  "old_delivery cfg now attempts \<longleftrightarrow>
     (case attempts of [] \<Rightarrow> False
      | _ \<Rightarrow> (case (da_completedAt (last attempts), wr_maxEventAgeMs cfg) of
                (Some t, Some age) \<Rightarrow> age < now - t
              | _ \<Rightarrow> False))"

definition cleanupExpired_relay :: "webhook_relay_config \<Rightarrow> int \<Rightarrow> webhook_relay \<Rightarrow> webhook_relay" where
  "cleanupExpired_relay cfg now r =
     foldl (\<lambda>r (i, delivery).
              if old_delivery cfg now delivery
              then r\<lparr>wk_deliveries := jm_del i (wk_deliveries r), wk_events := jm_del i (wk_events r)\<rparr>
              else r)
       r (wk_deliveries r)"

definition getQueueStats :: "webhook_relay \<Rightarrow> int \<times> nat \<times> nat" where
  "getQueueStats r = (wk_activeDeliveries r, length (wk_events r), length (wk_subscriptions r))"

subsection \<open>The requests\<close>

datatype relay_request =
    GetHealth
  | PostSubscription "string option" "string list option" "string option"
  | GetSubscriptions
  | GetSubscriptionById string
  | PatchSubscription string subscription_updates
  | DeleteSubscription string
  | PostEmit "string option" "json option"
  | GetDelivery string
  | GetStats

datatype relay_body =
    RbHealth string string
  | RbError string
  | RbSubscription relay_subscription
  | RbSubscriptions nat "relay_subscription list"
  | RbDeleted string
  | RbQueued string
  | RbReport delivery_report
  | RbStats "int \<times> nat \<times> nat"

text \<open>\<open>events\<close> that is not an array is \<open>None\<close>.\<close>

fun handle_relay ::
    "webhook_relay_config \<Rightarrow> int \<Rightarrow> string \<Rightarrow> relay_request \<Rightarrow> webhook_relay \<Rightarrow>
     (int \<times> relay_body) \<times> webhook_relay" where
  "handle_relay cfg now uuid GetHealth r = ((200, RbHealth ''ok'' ''webhook-relay''), r)"
| "handle_relay cfg now uuid (PostSubscription url events secret) r =
     (if or_default url [] = [] \<or> or_default events [] = []
      then ((400, RbError ''Missing required fields: url, events (non-empty array)''), r)
      else let (s, r') = registerSubscription cfg now uuid (the url) (the events) (or_default secret []) r
           in ((201, RbSubscription s), r'))"
| "handle_relay cfg now uuid GetSubscriptions r =
     ((200, RbSubscriptions (length (listSubscriptions r)) (listSubscriptions r)), r)"
| "handle_relay cfg now uuid (GetSubscriptionById i) r =
     (case getSubscription i r of
        None \<Rightarrow> ((404, RbError (''Subscription '' @ i @ '' not found'')), r)
      | Some s \<Rightarrow> ((200, RbSubscription s), r))"
| "handle_relay cfg now uuid (PatchSubscription i updates) r =
     (case updateSubscription i updates r of
        (Inl e, r') \<Rightarrow> ((404, RbError (exn_message e)), r')
      | (Inr s, r') \<Rightarrow> ((200, RbSubscription s), r'))"
| "handle_relay cfg now uuid (DeleteSubscription i) r = ((200, RbDeleted i), removeSubscription i r)"
| "handle_relay cfg now uuid (PostEmit type payload) r =
     (if or_default type [] = [] \<or> payload = None
      then ((400, RbError ''Missing required fields: type, payload''), r)
      else (case emitEvent now uuid (the type) (the payload) r of
              (Inl e, r') \<Rightarrow> ((500, RbError (exn_message e)), r')
            | (Inr eventId, r') \<Rightarrow> ((201, RbQueued eventId), r')))"
| "handle_relay cfg now uuid (GetDelivery i) r =
     (case getDeliveryReport cfg i r of
        None \<Rightarrow> ((404, RbError (''Event '' @ i @ '' not found'')), r)
      | Some report \<Rightarrow> ((200, RbReport report), r))"
| "handle_relay cfg now uuid GetStats r = ((200, RbStats (getQueueStats r)), r)"

subsection \<open>One delivery\<close>

definition signPayload :: "(string \<Rightarrow> json \<Rightarrow> string) \<Rightarrow> string \<Rightarrow> json \<Rightarrow> string" where
  "signPayload hmac secret payload = hmac secret payload"

text \<open>\<open>Math.min\<close>, and products with NaN.\<close>

definition min_nan :: "int option \<Rightarrow> int option \<Rightarrow> int option" where
  "min_nan a b = (case (a, b) of (Some x, Some y) \<Rightarrow> Some (min x y) | _ \<Rightarrow> None)"

definition calculateBackoff :: "nat \<Rightarrow> relay_retry_policy \<Rightarrow> int option" where
  "calculateBackoff attemptNumber policy =
     (case rr_strategy policy of
        StExponentialBackoff \<Rightarrow>
          min_nan (map_option (\<lambda>b. b * 2 ^ (attemptNumber - 1)) (rr_baseDelayMs policy)) (rr_maxDelayMs policy)
      | StLinear \<Rightarrow>
          min_nan (map_option (\<lambda>b. b * int attemptNumber) (rr_baseDelayMs policy)) (rr_maxDelayMs policy)
      | _ \<Rightarrow> min_nan (rr_baseDelayMs policy) (rr_maxDelayMs policy))"

definition new_attempt :: "string \<Rightarrow> relay_subscription \<Rightarrow> relay_event \<Rightarrow> delivery_attempt" where
  "new_attempt uuid s event =
     \<lparr>da_id = uuid, da_subscriptionId = rs_id s, da_eventId = re_id event, da_status = DsPending,
      da_attemptNumber = 0, da_statusCode = None, da_error = None, da_startedAt = None,
      da_completedAt = None, da_nextRetryAt = None\<rparr>"

definition enqueueDelivery ::
    "string \<Rightarrow> relay_subscription \<Rightarrow> relay_event \<Rightarrow> webhook_relay \<Rightarrow> delivery_attempt \<times> webhook_relay" where
  "enqueueDelivery uuid s event r =
     (let attempt = new_attempt uuid s event;
          existing = or_default (jm_get (wk_deliveries r) (re_id event)) []
      in (attempt, r\<lparr>wk_deliveries := jm_set (re_id event) (existing @ [attempt]) (wk_deliveries r)\<rparr>))"

text \<open>What fetch gives: a status, or a rejection (with its message).\<close>

datatype fetch_outcome = Response int string | NetworkError string

text \<open>\<open>None\<close>: all slots are taken, the call is put off by 100 ms and changes nothing.\<close>

definition delivery_begin ::
    "webhook_relay_config \<Rightarrow> int \<Rightarrow> int \<Rightarrow> delivery_attempt \<Rightarrow> (delivery_attempt \<times> int) option" where
  "delivery_begin cfg now active a =
     (if js_ge active (wr_maxConcurrentDeliveries cfg) then None
      else Some (a\<lparr>da_status := DsDelivering, da_attemptNumber := da_attemptNumber a + 1,
                   da_startedAt := Some now\<rparr>, active + 1))"

text \<open>A failed attempt is tried again after the back-off, or it is complete. If the back-off is not a
  number (a misread configuration), toISOString throws and the attempt is neither.\<close>

definition delivery_failed ::
    "int \<Rightarrow> relay_subscription \<Rightarrow> string \<Rightarrow> delivery_attempt \<Rightarrow> delivery_attempt \<times> int option option" where
  "delivery_failed now s message a =
     (let a1 = a\<lparr>da_error := Some message, da_status := DsFailed\<rparr>
      in if (case rr_maxRetries (rs_retryPolicy s) of None \<Rightarrow> False | Some m \<Rightarrow> da_attemptNumber a1 < m)
         then let delay = calculateBackoff (nat (da_attemptNumber a1)) (rs_retryPolicy s)
              in (case date_iso (map_option (\<lambda>d. now + d) delay) of
                    Inl e \<Rightarrow> (a1, None)
                  | Inr t \<Rightarrow> (a1\<lparr>da_nextRetryAt := Some t\<rparr>, Some delay))
         else (a1\<lparr>da_completedAt := Some now\<rparr>, None))"

text \<open>The rest of processDelivery once fetch has settled: the attempt, the delay after which it is
  tried again if it is, and the number of active deliveries.\<close>

definition delivery_settle ::
    "int \<Rightarrow> relay_subscription \<Rightarrow> fetch_outcome \<Rightarrow> int \<Rightarrow> delivery_attempt \<Rightarrow>
     delivery_attempt \<times> int option option \<times> int" where
  "delivery_settle now s outcome active a =
     (let (a', retry) = (case outcome of
            Response status statusText \<Rightarrow>
              let a1 = a\<lparr>da_statusCode := Some status\<rparr>
              in if 200 \<le> status \<and> status \<le> 299
                 then (a1\<lparr>da_status := DsDelivered, da_completedAt := Some now\<rparr>, None)
                 else delivery_failed now s (''HTTP '' @ show_int status @ '': '' @ statusText) a1
          | NetworkError message \<Rightarrow> delivery_failed now s message a)
      in (a', retry, active - 1))"

text \<open>The life of one delivery, while nothing else is being delivered: each try starts and
  settles, and a retry follows if one is due.\<close>

fun deliver ::
    "webhook_relay_config \<Rightarrow> relay_subscription \<Rightarrow> (int \<times> int \<times> fetch_outcome) list \<Rightarrow>
     delivery_attempt \<Rightarrow> delivery_attempt" where
  "deliver cfg s [] a = a"
| "deliver cfg s ((t1, t2, outcome) # os) a =
     (case delivery_begin cfg t1 0 a of
        None \<Rightarrow> a
      | Some (a1, active) \<Rightarrow>
          (case delivery_settle t2 s outcome active a1 of
             (a2, None, _) \<Rightarrow> a2
           | (a2, Some _, _) \<Rightarrow> deliver cfg s os a2))"

definition is_ok :: "fetch_outcome \<Rightarrow> bool" where
  "is_ok outcome \<longleftrightarrow> (case outcome of Response st _ \<Rightarrow> 200 \<le> st \<and> st \<le> 299 | NetworkError _ \<Rightarrow> False)"

subsection \<open>Runs\<close>

fun relay_run ::
    "webhook_relay_config \<Rightarrow> int \<times> string \<times> relay_request option \<Rightarrow> webhook_relay \<Rightarrow> webhook_relay" where
  "relay_run cfg (now, uuid, Some req) r = snd (handle_relay cfg now uuid req r)"
| "relay_run cfg (now, uuid, None) r = cleanupExpired_relay cfg now r"

definition quiet :: "webhook_relay \<Rightarrow> bool" where
  "quiet r \<longleftrightarrow> wk_deliveries r = jm_empty \<and> wk_activeDeliveries r = 0"

lemma quiet_cleanup: "quiet r \<Longrightarrow> cleanupExpired_relay cfg now r = r"
  by (simp add: quiet_def cleanupExpired_relay_def jm_empty_def)

lemma relay_run_quiet: "quiet r \<Longrightarrow> quiet (relay_run cfg (now, uuid, req) r)"
proof (cases req)
  case None
  then show "quiet r \<Longrightarrow> ?thesis" by (simp add: quiet_cleanup)
next
  case (Some q)
  then show "quiet r \<Longrightarrow> ?thesis"
    by (cases q) (auto simp: quiet_def registerSubscription_def updateSubscription_def
        removeSubscription_def emitEvent_def Let_def split: option.splits)
qed

definition event_ids :: "webhook_relay \<Rightarrow> string set" where
  "event_ids r = {i. jm_has (wk_events r) i}"

lemma relay_run_events: "quiet r \<Longrightarrow> event_ids r \<subseteq> event_ids (relay_run cfg (now, uuid, req) r)"
proof (cases req)
  case None
  then show "quiet r \<Longrightarrow> ?thesis" by (simp add: quiet_cleanup)
next
  case (Some q)
  then show "quiet r \<Longrightarrow> ?thesis"
    by (cases q) (auto simp: event_ids_def jm_has_def registerSubscription_def updateSubscription_def
        removeSubscription_def emitEvent_def Let_def split: option.splits)
qed

interpretation relay: monotone_machine "relay_run cfg" "\<lambda>_ _. True" quiet event_ids for cfg
  by unfold_locales (auto intro: relay_run_quiet relay_run_events [THEN subsetD])

lemma quiet_new: "quiet new_webhook_relay"
  by (simp add: quiet_def new_webhook_relay_def)

subsection \<open>The retries of a delivery\<close>

text \<open>A policy whose numbers are numbers, within the range of Date.\<close>

definition sane_policy :: "relay_retry_policy \<Rightarrow> bool" where
  "sane_policy p \<longleftrightarrow>
     (\<exists>b d. rr_baseDelayMs p = Some b \<and> rr_maxDelayMs p = Some d \<and> 0 \<le> b \<and> 0 \<le> d \<and> d \<le> 1000000000000)"

lemma backoff_range:
  assumes "sane_policy p"
  obtains x where "calculateBackoff n p = Some x" "0 \<le> x" "x \<le> 1000000000000"
    "\<forall>d. rr_maxDelayMs p = Some d \<longrightarrow> x \<le> d"
  using assms that by (cases "rr_strategy p") (auto simp: sane_policy_def calculateBackoff_def min_nan_def)

definition sane_times :: "(int \<times> int \<times> fetch_outcome) list \<Rightarrow> bool" where
  "sane_times os \<longleftrightarrow> (\<forall>(t1, t2, outcome) \<in> set os. 0 \<le> t2 \<and> t2 \<le> 1000000000000000)"

lemma settle_ok_outcome:
  "is_ok outcome \<Longrightarrow> \<exists>a'. delivery_settle t s outcome active a = (a', None, active - 1) \<and>
     da_status a' = DsDelivered \<and> da_attemptNumber a' = da_attemptNumber a"
  by (cases outcome) (auto simp: is_ok_def delivery_settle_def)

lemma delivery_failed_last:
  "rr_maxRetries (rs_retryPolicy s) = Some m \<Longrightarrow> m \<le> da_attemptNumber a \<Longrightarrow>
     \<exists>a'. delivery_failed t s msg a = (a', None) \<and> da_status a' = DsFailed \<and>
       da_attemptNumber a' = da_attemptNumber a \<and> da_completedAt a' = Some t"
  by (simp add: delivery_failed_def Let_def)

lemma delivery_failed_again:
  assumes "rr_maxRetries (rs_retryPolicy s) = Some m" and "da_attemptNumber a < m"
    and "sane_policy (rs_retryPolicy s)" and "0 \<le> t" and "t \<le> 1000000000000000"
  shows "\<exists>a' d. delivery_failed t s msg a = (a', Some d) \<and> da_attemptNumber a' = da_attemptNumber a"
proof -
  obtain x where "calculateBackoff (nat (da_attemptNumber a)) (rs_retryPolicy s) = Some x" "0 \<le> x" "x \<le> 1000000000000"
    using assms(3) by (rule backoff_range)
  with assms show ?thesis by (simp add: delivery_failed_def Let_def date_iso_def)
qed

lemma settle_failed:
  assumes "\<not> is_ok outcome"
  obtains msg b where "da_attemptNumber b = da_attemptNumber a"
    "delivery_settle t s outcome active a =
       (fst (delivery_failed t s msg b), snd (delivery_failed t s msg b), active - 1)"
proof (cases outcome)
  case (Response st reason)
  with assms that [of "a\<lparr>da_statusCode := Some st\<rparr>" "''HTTP '' @ show_int st @ '': '' @ reason"] show ?thesis
    by (auto simp: is_ok_def delivery_settle_def Let_def split: prod.splits)
next
  case (NetworkError msg)
  with that [of a msg] show ?thesis by (auto simp: delivery_settle_def split: prod.splits)
qed

lemma deliver_tries:
  assumes "\<not> js_ge 0 (wr_maxConcurrentDeliveries cfg)" and "rr_maxRetries (rs_retryPolicy s) = Some (int m)"
    and "sane_policy (rs_retryPolicy s)"
  shows "da_attemptNumber a = int n \<Longrightarrow> n < m \<Longrightarrow> sane_times os \<Longrightarrow>
     k = length (takeWhile (\<lambda>(_, _, outcome). \<not> is_ok outcome) os) \<Longrightarrow>
     (k < length os \<and> n + k < m \<longrightarrow>
        da_status (deliver cfg s os a) = DsDelivered \<and> da_attemptNumber (deliver cfg s os a) = int (n + k + 1)) \<and>
     (m \<le> n + k \<longrightarrow>
        da_status (deliver cfg s os a) = DsFailed \<and> da_attemptNumber (deliver cfg s os a) = int m \<and>
        da_completedAt (deliver cfg s os a) \<noteq> None)"
proof (induction os arbitrary: a n k)
  case Nil
  then show ?case by simp
next
  case (Cons e os)
  obtain t1 t2 outcome where e: "e = (t1, t2, outcome)" by (cases e)
  define a1 where "a1 = a\<lparr>da_status := DsDelivering, da_attemptNumber := da_attemptNumber a + 1, da_startedAt := Some t1\<rparr>"
  have n1: "da_attemptNumber a1 = int (n + 1)" by (simp add: a1_def Cons.prems(1))
  have begins: "delivery_begin cfg t1 0 a = Some (a1, 1)" by (simp add: delivery_begin_def assms(1) a1_def)
  have t2: "0 \<le> t2" "t2 \<le> 1000000000000000" and times: "sane_times os"
    using Cons.prems(3) by (auto simp: sane_times_def e)
  show ?case
  proof (cases "is_ok outcome")
    case True
    then show ?thesis
      using settle_ok_outcome [OF True, of t2 s 1 a1] begins n1 Cons.prems(2,4) by (auto simp: e)
  next
    case False
    obtain msg b where b: "da_attemptNumber b = da_attemptNumber a1"
      and settled: "delivery_settle t2 s outcome 1 a1 =
        (fst (delivery_failed t2 s msg b), snd (delivery_failed t2 s msg b), 0)"
      by (rule settle_failed [OF False, of a1 t2 s 1]) simp
    obtain k' where k: "k = Suc k'" "k' = length (takeWhile (\<lambda>(_, _, outcome). \<not> is_ok outcome) os)"
      using Cons.prems(4) False by (simp add: e)
    show ?thesis
    proof (cases "n + 1 < m")
      case True
      then have "da_attemptNumber b < int m" by (simp add: b n1)
      from delivery_failed_again [OF assms(2) this assms(3) t2, of msg]
      obtain a' d where a': "delivery_failed t2 s msg b = (a', Some d)" "da_attemptNumber a' = int (n + 1)"
        using b n1 by auto
      have "deliver cfg s (e # os) a = deliver cfg s os a'"
        by (simp add: e begins settled a')
      with Cons.IH [OF a'(2) True times k(2)] show ?thesis by (simp add: k(1))
    next
      case False
      then have "int m \<le> da_attemptNumber b" by (simp add: b n1)
      from delivery_failed_last [OF assms(2) this, of t2 msg]
      obtain a' where a': "delivery_failed t2 s msg b = (a', None)" "da_status a' = DsFailed"
        "da_attemptNumber a' = int (n + 1)" "da_completedAt a' = Some t2"
        using b n1 by auto
      have "deliver cfg s (e # os) a = a'"
        by (simp add: e begins settled a')
      with False Cons.prems(2) a' show ?thesis by (auto simp: k(1))
    qed
  qed
qed

subsection \<open>Properties\<close>

lemma emit_never_delivers_facts:
  assumes "r = run_events (relay_run cfg) reqs new_webhook_relay"
  shows "wk_deliveries r = jm_empty \<and> wk_activeDeliveries r = 0"
    and "type \<noteq> [] \<Longrightarrow>
       fst (handle_relay cfg now uuid (PostEmit (Some type) (Some payload)) r) =
         (500, RbError ''this.subscriptions.filter is not a function'') \<and>
       uuid \<in> event_ids (snd (handle_relay cfg now uuid (PostEmit (Some type) (Some payload)) r))"
    and "i \<in> event_ids r \<Longrightarrow> i \<in> event_ids (run_events (relay_run cfg) later r)"
proof -
  have q: "quiet r"
    unfolding assms by (rule relay.inv_run [OF quiet_new]) simp
  then show "wk_deliveries r = jm_empty \<and> wk_activeDeliveries r = 0" by (simp add: quiet_def)
  show "type \<noteq> [] \<Longrightarrow>
       fst (handle_relay cfg now uuid (PostEmit (Some type) (Some payload)) r) =
         (500, RbError ''this.subscriptions.filter is not a function'') \<and>
       uuid \<in> event_ids (snd (handle_relay cfg now uuid (PostEmit (Some type) (Some payload)) r))"
    by (simp add: emitEvent_def Let_def event_ids_def jm_has_def)
  show "i \<in> event_ids r \<Longrightarrow> i \<in> event_ids (run_events (relay_run cfg) later r)"
    using relay.rank_run [OF q, of cfg later] by auto
qed

text \<open>Whatever is requested and cleaned up, no delivery is ever made: every emit request that
  names a type and a payload is answered with status 500, the deliveries stay empty and no
  slot is taken; yet the event is stored, and no stored event ever goes away again.\<close>

theorem emit_never_delivers:
  assumes "r = run_events (relay_run cfg) reqs new_webhook_relay"
  shows "(wk_deliveries r = jm_empty \<and> wk_activeDeliveries r = 0) \<and>
     (type \<noteq> [] \<longrightarrow> (fst (handle_relay cfg now uuid (PostEmit (Some type) (Some payload)) r) =
         (500, RbError ''this.subscriptions.filter is not a function'') \<and>
       uuid \<in> event_ids (snd (handle_relay cfg now uuid (PostEmit (Some type) (Some payload)) r)))) \<and>
     (i \<in> event_ids r \<longrightarrow> (i \<in> event_ids (run_events (relay_run cfg) later r)))"
proof -
  have c1: "wk_deliveries r = jm_empty \<and> wk_activeDeliveries r = 0"
    by (rule emit_never_delivers_facts(1) [OF assms])
  have c2: "type \<noteq> [] \<longrightarrow> (fst (handle_relay cfg now uuid (PostEmit (Some type) (Some payload)) r) =
         (500, RbError ''this.subscriptions.filter is not a function'') \<and>
       uuid \<in> event_ids (snd (handle_relay cfg now uuid (PostEmit (Some type) (Some payload)) r)))"
    by (rule impI) (rule emit_never_delivers_facts(2) [OF assms]; (assumption | erule spec))
  have c3: "i \<in> event_ids r \<longrightarrow> (i \<in> event_ids (run_events (relay_run cfg) later r))"
    by (rule impI) (rule emit_never_delivers_facts(3) [OF assms]; (assumption | erule spec))
  show ?thesis by (rule conjI [OF c1 conjI [OF c2 c3]])
qed

theorem emit_never_delivers_witness:
  "fst (handle_relay (loadConfig_relay (\<lambda>_. None)) 9 ''e'' (PostEmit (Some ''kyc.approved'') (Some JNull))
      (run_events (relay_run (loadConfig_relay (\<lambda>_. None)))
         [(5, ''s'', Some (PostSubscription (Some ''https://x'') (Some [''*'']) None))] new_webhook_relay)) =
     (500, RbError ''this.subscriptions.filter is not a function'')"
proof -
  have "''kyc.approved'' \<noteq> ([] :: string)" by simp
  from emit_never_delivers [OF refl, THEN conjunct2, THEN conjunct1, THEN mp, OF this] show ?thesis by blast
qed

lemma delivery_retries_facts:
  assumes "\<not> js_ge 0 (wr_maxConcurrentDeliveries cfg)" and "rr_maxRetries (rs_retryPolicy s) = Some (int m)"
    and "0 < m" and "sane_policy (rs_retryPolicy s)" and "sane_times os"
    and "k = length (takeWhile (\<lambda>(_, _, outcome). \<not> is_ok outcome) os)"
    and "a = deliver cfg s os (new_attempt uuid s event)"
  shows "k < length os \<Longrightarrow> k < m \<Longrightarrow> da_status a = DsDelivered \<and> da_attemptNumber a = int (k + 1)"
    and "m \<le> k \<Longrightarrow> da_status a = DsFailed \<and> da_attemptNumber a = int m \<and> da_completedAt a \<noteq> None"
    and "\<exists>d x. rr_maxDelayMs (rs_retryPolicy s) = Some d \<and>
       calculateBackoff n (rs_retryPolicy s) = Some x \<and> 0 \<le> x \<and> x \<le> d"
proof -
  have zero: "da_attemptNumber (new_attempt uuid s event) = int 0" by (simp add: new_attempt_def)
  note tries = deliver_tries [OF assms(1,2,4) zero assms(3,5,6)]
  show "k < length os \<Longrightarrow> k < m \<Longrightarrow> da_status a = DsDelivered \<and> da_attemptNumber a = int (k + 1)"
    using tries by (simp add: assms(7))
  show "m \<le> k \<Longrightarrow> da_status a = DsFailed \<and> da_attemptNumber a = int m \<and> da_completedAt a \<noteq> None"
    using tries by (simp add: assms(7))
  show "\<exists>d x. rr_maxDelayMs (rs_retryPolicy s) = Some d \<and>
       calculateBackoff n (rs_retryPolicy s) = Some x \<and> 0 \<le> x \<and> x \<le> d"
    using assms(4) by (rule backoff_range) (use assms(4) in \<open>auto simp: sane_policy_def\<close>)
qed

text \<open>A delivery is tried until the endpoint accepts it, at most maxRetries times: if it accepts
  on try k + 1 < maxRetries + 1 the attempt is delivered with that number, otherwise it has
  failed, with its completion time set, after exactly maxRetries tries; and every pause between
  two tries is within the maximal delay of the policy.\<close>

theorem delivery_retries:
  assumes "\<not> js_ge 0 (wr_maxConcurrentDeliveries cfg)"
    and "rr_maxRetries (rs_retryPolicy s) = Some (int m)"
    and "0 < m"
    and "sane_policy (rs_retryPolicy s)"
    and "sane_times os"
    and "k = length (takeWhile (\<lambda>(_, _, outcome). \<not> is_ok outcome) os)"
    and "a = deliver cfg s os (new_attempt uuid s event)"
  shows "(k < length os \<longrightarrow> k < m \<longrightarrow> (da_status a = DsDelivered \<and> da_attemptNumber a = int (k + 1))) \<and>
     (m \<le> k \<longrightarrow> (da_status a = DsFailed \<and> da_attemptNumber a = int m \<and> da_completedAt a \<noteq> None)) \<and>
     (\<exists>d x. rr_maxDelayMs (rs_retryPolicy s) = Some d \<and>
       calculateBackoff n (rs_retryPolicy s) = Some x \<and> 0 \<le> x \<and> x \<le> d)"
proof -
  have c1: "k < length os \<longrightarrow> k < m \<longrightarrow> (da_status a = DsDelivered \<and> da_attemptNumber a = int (k + 1))"
    by (rule impI, rule impI) (rule delivery_retries_facts(1) [OF assms]; (assumption | erule spec))
  have c2: "m \<le> k \<longrightarrow> (da_status a = DsFailed \<and> da_attemptNumber a = int m \<and> da_completedAt a \<noteq> None)"
    by (rule impI) (rule delivery_retries_facts(2) [OF assms]; (assumption | erule spec))
  have c3: "\<exists>d x. rr_maxDelayMs (rs_retryPolicy s) = Some d \<and>
       calculateBackoff n (rs_retryPolicy s) = Some x \<and> 0 \<le> x \<and> x \<le> d"
    by (rule delivery_retries_facts(3) [OF assms])
  show ?thesis by (rule conjI [OF c1 conjI [OF c2 c3]])
qed

definition demo_subscription :: relay_subscription where
  "demo_subscription = fst (registerSubscription (loadConfig_relay (\<lambda>_. None)) 5 ''s'' ''https://x'' [''*''] []
     new_webhook_relay)"

definition demo_event :: relay_event where
  "demo_event = \<lparr>re_id = ''e'', re_type = ''t'', re_payload = JNull, re_createdAt = 5\<rparr>"

theorem delivery_retries_witness:
  "da_attemptNumber (deliver (loadConfig_relay (\<lambda>_. None)) demo_subscription
      [(5, 6, NetworkError ''down''), (2000, 2010, Response 503 ''busy''), (5000, 5010, Response 200 ''OK'')]
      (new_attempt ''a'' demo_subscription demo_event)) = 3"
proof -
  let ?os = "[(5, 6, NetworkError ''down''), (2000, 2010, Response 503 ''busy''), (5000, 5010, Response 200 ''OK'')]"
  have p: "rr_maxRetries (rs_retryPolicy demo_subscription) = Some 5"
    "rr_baseDelayMs (rs_retryPolicy demo_subscription) = Some 1000"
    "rr_maxDelayMs (rs_retryPolicy demo_subscription) = Some 60000" by code_simp+
  have limit: "\<not> js_ge 0 (wr_maxConcurrentDeliveries (loadConfig_relay (\<lambda>_. None)))" by code_simp
  have retries: "rr_maxRetries (rs_retryPolicy demo_subscription) = Some (int 5)" "0 < (5 :: nat)" by (simp_all add: p)
  have sane: "sane_policy (rs_retryPolicy demo_subscription)" by (simp add: sane_policy_def p)
  have times: "sane_times ?os" by (simp add: sane_times_def)
  have "2 = length (takeWhile (\<lambda>(_, _, outcome). \<not> is_ok outcome) ?os)" by (simp add: is_ok_def)
  from delivery_retries [OF limit retries sane times this refl] show ?thesis by simp
qed

end
