(* ===== verification/ByteCodec.thy ===== *)
theory ByteCodec
  imports Prelude
begin

section \<open>Buffers, text and values of the binary codecs\<close>

text \<open>
  What the codecs of packages/core/src/serialization use of the JavaScript runtime: bytes in a
  Buffer (big- and little-endian integers, readers that throw past the end), strings as UTF-16
  code units with the UTF-8 conversions of Buffer.from and toString, numbers as integers or
  IEEE 754 bit patterns, the values a codec is given and returns, and objects whose keys follow
  the order of Object.keys. The lemmas are the ones every codec's round trip rests on; the
  locales at the end are the contracts a codec keeps (a self-delimiting encoding; a decoder
  whose recursion is bounded by its input).
\<close>

unbundle bit_operations_syntax

type_synonym byte = "8 word"
type_synonym bytes = "8 word list"

subsection \<open>Fixed-width integers\<close>

fun put_be :: "nat \<Rightarrow> nat \<Rightarrow> bytes" where
  "put_be 0 x = []"
| "put_be (Suc k) x = put_be k (x div 256) @ [word_of_nat (x mod 256)]"

definition get_be :: "bytes \<Rightarrow> nat" where
  "get_be bs = foldl (\<lambda>acc b. acc * 256 + unat b) 0 bs"

definition put_le :: "nat \<Rightarrow> nat \<Rightarrow> bytes" where
  "put_le k x = rev (put_be k x)"

definition get_le :: "bytes \<Rightarrow> nat" where
  "get_le bs = get_be (rev bs)"

lemma length_put_be [simp]: "length (put_be k x) = k"
  by (induction k arbitrary: x) auto

lemma length_put_le [simp]: "length (put_le k x) = k"
  by (simp add: put_le_def)

lemma unat_byte [simp]: "x < 256 \<Longrightarrow> unat (word_of_nat x :: byte) = x"
  by (simp add: unat_of_nat)

lemma unat_byte_less [simp]: "unat (b :: byte) < 256"
  by (rule order_less_le_trans, rule unsigned_less) simp

lemma get_be_put_be [simp]: "x < 256 ^ k \<Longrightarrow> get_be (put_be k x) = x"
proof (induction k arbitrary: x)
  case 0
  then show ?case by (simp add: get_be_def)
next
  case (Suc k)
  then have "x div 256 < 256 ^ k"
    by (simp add: less_mult_imp_div_less mult.commute)
  with Suc.IH have "get_be (put_be k (x div 256)) = x div 256" by simp
  then show ?case by (simp add: get_be_def)
qed

lemma get_le_put_le [simp]: "x < 256 ^ k \<Longrightarrow> get_le (put_le k x) = x"
  by (simp add: get_le_def put_le_def)

lemma get_be_bound: "get_be bs < 256 ^ length bs"
proof (induction bs rule: rev_induct)
  case Nil
  then show ?case by (simp add: get_be_def)
next
  case (snoc b bs)
  have "get_be (bs @ [b]) < (get_be bs + 1) * 256" by (simp add: get_be_def)
  also have "\<dots> \<le> 256 ^ length bs * 256" using snoc by (intro mult_right_mono) auto
  finally show ?case by simp
qed

text \<open>Two's complement at a width of \<open>w\<close> bits.\<close>

definition to_unsigned :: "nat \<Rightarrow> int \<Rightarrow> nat" where
  "to_unsigned w x = nat (x mod 2 ^ w)"

definition to_signed :: "nat \<Rightarrow> nat \<Rightarrow> int" where
  "to_signed w u = (if u < 2 ^ (w - 1) then int u else int u - 2 ^ w)"

lemma to_unsigned_less [simp]: "to_unsigned w x < 2 ^ w"
  by (simp add: to_unsigned_def nat_less_iff)

lemma to_signed_unsigned [simp]:
  assumes "- (2 ^ (w - 1)) \<le> x" "x < 2 ^ (w - 1)" "0 < w"
  shows "to_signed w (to_unsigned w x) = x"
proof -
  have w: "(2::int) ^ w = 2 * 2 ^ (w - 1)" using assms(3) by (cases w) auto
  show ?thesis
  proof (cases "0 \<le> x")
    case True
    then have "x mod 2 ^ w = x" using assms w by (intro mod_pos_pos_trivial) auto
    with True assms show ?thesis by (simp add: to_signed_def to_unsigned_def nat_less_iff)
  next
    case False
    have "x mod 2 ^ w = (x + 2 ^ w) mod 2 ^ w" by simp
    also have "\<dots> = x + 2 ^ w" using False assms w by (intro mod_pos_pos_trivial) auto
    finally have *: "x mod 2 ^ w = x + 2 ^ w" .
    with False assms w show ?thesis
      by (simp add: to_signed_def to_unsigned_def nat_less_iff)
  qed
qed

subsection \<open>Outcomes of a codec\<close>

text \<open>A codec throws, or it reaches a conversion of the language that is not modelled (the
  property key of a fractional number, an array or an object; the key \<open>__proto__\<close>), or the
  bound given to its recursion is used up.\<close>

datatype codec_error = Throws js_exn | OutOfModel | OutOfFuel

type_synonym 'a codec = "codec_error + 'a"

abbreviation range_error :: codec_error where
  "range_error \<equiv> Throws (JsRangeError ''ERR_OUT_OF_RANGE'')"

fun and_then :: "'a codec \<Rightarrow> ('a \<Rightarrow> 'b codec) \<Rightarrow> 'b codec" where
  "and_then (Inl e) f = Inl e"
| "and_then (Inr x) f = f x"

lemma and_then_Inr: "and_then r f = Inr y \<longleftrightarrow> (\<exists>x. r = Inr x \<and> f x = Inr y)"
  by (cases r) auto

lemma and_then_Inl: "and_then r f = Inl e \<longleftrightarrow> r = Inl e \<or> (\<exists>x. r = Inr x \<and> f x = Inl e)"
  by (cases r) auto

lemma and_then_cong [fundef_cong]:
  "r = r' \<Longrightarrow> (\<And>x. r' = Inr x \<Longrightarrow> f x = f' x) \<Longrightarrow> and_then r f = and_then r' f'"
  by (cases r') auto

text \<open>buffer.readUIntXX(offset): a RangeError when fewer bytes are left; the rest of the
  buffer stands for the advanced offset.\<close>

definition read_be :: "nat \<Rightarrow> bytes \<Rightarrow> (nat \<times> bytes) codec" where
  "read_be k bs = (if length bs < k then Inl range_error else Inr (get_be (take k bs), drop k bs))"

definition read_le :: "nat \<Rightarrow> bytes \<Rightarrow> (nat \<times> bytes) codec" where
  "read_le k bs = (if length bs < k then Inl range_error else Inr (get_le (take k bs), drop k bs))"

lemma read_be_put_be [simp]: "x < 256 ^ k \<Longrightarrow> read_be k (put_be k x @ rest) = Inr (x, rest)"
  by (simp add: read_be_def)

lemma read_le_put_le [simp]: "x < 256 ^ k \<Longrightarrow> read_le k (put_le k x @ rest) = Inr (x, rest)"
  by (simp add: read_le_def)

lemma read_be_unsigned [simp]:
  "read_be 2 (put_be 2 (to_unsigned 16 x) @ rest) = Inr (to_unsigned 16 x, rest)"
  "read_be 4 (put_be 4 (to_unsigned 32 x) @ rest) = Inr (to_unsigned 32 x, rest)"
  "read_be 8 (put_be 8 (to_unsigned 64 x) @ rest) = Inr (to_unsigned 64 x, rest)"
  using to_unsigned_less [of 16 x] to_unsigned_less [of 32 x] to_unsigned_less [of 64 x]
  by (simp_all del: to_unsigned_less)

lemma byte_and_ff [simp]: "(w :: byte) AND 0xff = w"
proof -
  have "(0xff :: byte) = -1" by simp
  then show ?thesis by (simp only: and.right_neutral)
qed

lemma unat_byte_of_int [simp]: "unat (word_of_int x :: byte) = nat (x mod 256)"
  by (simp add: unsigned_of_int take_bit_eq_mod)

lemma read_be_byte [simp]: "read_be (Suc 0) (b # rest) = Inr (unat b, rest)"
  by (simp add: read_be_def get_be_def)

lemma byte_le: "(v :: byte) \<le> w \<longleftrightarrow> unat v \<le> unat w"
  by (rule word_le_nat_alt)

lemma read_be_length: "read_be k bs = Inr (x, rest) \<Longrightarrow> length bs = k + length rest"
  by (auto simp: read_be_def split: if_splits)

text \<open>buf.writeUIntXXBE(x): a RangeError unless the value fits.\<close>

definition write_be :: "nat \<Rightarrow> int \<Rightarrow> bytes codec" where
  "write_be k x = (if 0 \<le> x \<and> x < 256 ^ k then Inr (put_be k (nat x)) else Inl range_error)"

definition write_signed_be :: "nat \<Rightarrow> int \<Rightarrow> bytes codec" where
  "write_signed_be k x =
     (if - (2 ^ (8 * k - 1)) \<le> x \<and> x < 2 ^ (8 * k - 1) then Inr (put_be k (to_unsigned (8 * k) x))
      else Inl range_error)"

lemma write_be_Inr: "write_be k x = Inr bs \<longleftrightarrow> 0 \<le> x \<and> x < 256 ^ k \<and> bs = put_be k (nat x)"
  by (auto simp: write_be_def)

subsection \<open>Text: UTF-16 code units and UTF-8 bytes\<close>

type_synonym js_text = "16 word list"

definition units :: "string \<Rightarrow> js_text" where
  "units s = map (\<lambda>c. word_of_nat (of_char c)) s"

definition high_surrogate :: "16 word \<Rightarrow> bool" where
  "high_surrogate u \<longleftrightarrow> 0xD800 \<le> unat u \<and> unat u \<le> 0xDBFF"

definition low_surrogate :: "16 word \<Rightarrow> bool" where
  "low_surrogate u \<longleftrightarrow> 0xDC00 \<le> unat u \<and> unat u \<le> 0xDFFF"

text \<open>The code points of a string; a surrogate without its partner counts as U+FFFD.\<close>

fun code_points :: "js_text \<Rightarrow> nat list" where
  "code_points [] = []"
| "code_points (u # us) =
     (if high_surrogate u then
        (case us of
           v # vs \<Rightarrow> if low_surrogate v
                     then (0x10000 + (unat u - 0xD800) * 1024 + (unat v - 0xDC00)) # code_points vs
                     else 0xFFFD # code_points us
         | [] \<Rightarrow> [0xFFFD])
      else if low_surrogate u then 0xFFFD # code_points us
      else unat u # code_points us)"

definition units_of :: "nat \<Rightarrow> js_text" where
  "units_of c =
     (if c < 0x10000 then [word_of_nat c]
      else [word_of_nat (0xD800 + (c - 0x10000) div 1024), word_of_nat (0xDC00 + (c - 0x10000) mod 1024)])"

text \<open>No surrogate stands alone.\<close>

fun well_formed_text :: "js_text \<Rightarrow> bool" where
  "well_formed_text [] = True"
| "well_formed_text (u # us) =
     (if high_surrogate u then
        (case us of v # vs \<Rightarrow> low_surrogate v \<and> well_formed_text vs | [] \<Rightarrow> False)
      else \<not> low_surrogate u \<and> well_formed_text us)"

definition utf8_of :: "nat \<Rightarrow> nat list" where
  "utf8_of c =
     (if c < 0x80 then [c]
      else if c < 0x800 then [0xC0 + c div 64, 0x80 + c mod 64]
      else if c < 0x10000 then [0xE0 + c div 4096, 0x80 + c div 64 mod 64, 0x80 + c mod 64]
      else [0xF0 + c div 262144, 0x80 + c div 4096 mod 64, 0x80 + c div 64 mod 64, 0x80 + c mod 64])"

text \<open>Buffer.from(s, 'utf-8').\<close>

definition to_utf8 :: "js_text \<Rightarrow> bytes" where
  "to_utf8 s = map word_of_nat (concat (map utf8_of (code_points s)))"

text \<open>The decoder of the WHATWG standard: \<open>n\<close> continuation bytes are still needed, the next one
  lies between \<open>lo\<close> and \<open>hi\<close>; a byte that does not continue the sequence yields U+FFFD and is
  read again.\<close>

function utf8_scan :: "nat \<Rightarrow> nat \<Rightarrow> nat \<Rightarrow> nat \<Rightarrow> nat list \<Rightarrow> nat list" where
  "utf8_scan n cp lo hi [] = (if n = 0 then [] else [0xFFFD])"
| "utf8_scan n cp lo hi (b # bs) =
     (if n = 0 then
        if b < 0x80 then b # utf8_scan 0 0 0x80 0xBF bs
        else if 0xC2 \<le> b \<and> b \<le> 0xDF then utf8_scan 1 (b - 0xC0) 0x80 0xBF bs
        else if 0xE0 \<le> b \<and> b \<le> 0xEF then
          utf8_scan 2 (b - 0xE0) (if b = 0xE0 then 0xA0 else 0x80) (if b = 0xED then 0x9F else 0xBF) bs
        else if 0xF0 \<le> b \<and> b \<le> 0xF4 then
          utf8_scan 3 (b - 0xF0) (if b = 0xF0 then 0x90 else 0x80) (if b = 0xF4 then 0x8F else 0xBF) bs
        else 0xFFFD # utf8_scan 0 0 0x80 0xBF bs
      else if b < lo \<or> hi < b then 0xFFFD # utf8_scan 0 0 0x80 0xBF (b # bs)
      else if n = 1 then (cp * 64 + (b - 0x80)) # utf8_scan 0 0 0x80 0xBF bs
      else utf8_scan (n - 1) (cp * 64 + (b - 0x80)) 0x80 0xBF bs)"
  by pat_completeness auto
termination
  by (relation "measures [\<lambda>(n, cp, lo, hi, bs). length bs, \<lambda>(n, cp, lo, hi, bs). n]") auto

text \<open>buffer.toString('utf-8').\<close>

definition from_utf8 :: "bytes \<Rightarrow> js_text" where
  "from_utf8 bs = concat (map units_of (utf8_scan 0 0 0x80 0xBF (map unat bs)))"

definition scalar_value :: "nat \<Rightarrow> bool" where
  "scalar_value c \<longleftrightarrow> c < 0x110000 \<and> \<not> (0xD800 \<le> c \<and> c \<le> 0xDFFF)"

lemma scan_lead:
  assumes "scalar_value c"
  shows "utf8_scan 0 cp lo hi (utf8_of c @ bs) = c # utf8_scan 0 0 0x80 0xBF bs"
proof -
  consider "c < 0x80" | "0x80 \<le> c" "c < 0x800" | "0x800 \<le> c" "c < 0x10000"
    | "0x10000 \<le> c" "c < 0x110000"
    using assms unfolding scalar_value_def by (meson not_le)
  then show ?thesis
  proof cases
    case 1
    then show ?thesis by (simp add: utf8_of_def)
  next
    case 2
    define p where "p = c div 64"
    define q where "q = c mod 64"
    have c: "p * 64 + q = c" and q: "q < 64" by (simp_all add: p_def q_def)
    then have "2 \<le> p" "p \<le> 31" using 2 by linarith+
    moreover have "utf8_of c = [0xC0 + p, 0x80 + q]" using 2 by (simp add: utf8_of_def p_def q_def)
    ultimately show ?thesis using c q by simp
  next
    case 3
    define q where "q = c div 4096"
    define m where "m = c mod 64"
    define r where "r = c div 64 mod 64"
    have "q = c div 64 div 64" by (simp add: q_def div_mult2_eq [symmetric])
    then have "q * 64 + r = c div 64" by (simp add: r_def)
    then have c: "(q * 64 + r) * 64 + m = c" by (simp add: m_def)
    have q: "q \<le> 15" using 3 by (simp add: q_def)
    have r: "r < 64" by (simp add: r_def)
    have m: "m < 64" by (simp add: m_def)
    have lo: "32 \<le> r" if "q = 0" using that c m 3 by simp
    have hi: "r \<le> 31" if "q = 13" using that c m r assms 3 by (simp add: scalar_value_def)
    have "utf8_of c = [0xE0 + q, 0x80 + r, 0x80 + m]" using 3 by (simp add: utf8_of_def q_def r_def m_def)
    with q r m lo hi c show ?thesis by (simp add: not_less)
  next
    case 4
    define p where "p = c div 262144"
    define q where "q = c div 4096 mod 64"
    define m where "m = c mod 64"
    define r where "r = c div 64 mod 64"
    have "p = c div 4096 div 64" "c div 4096 = c div 64 div 64"
      by (simp_all add: p_def div_mult2_eq [symmetric])
    then have "p * 64 + q = c div 64 div 64" by (simp add: q_def)
    then have "(p * 64 + q) * 64 + r = c div 64" by (simp add: r_def)
    then have c: "((p * 64 + q) * 64 + r) * 64 + m = c" by (simp add: m_def)
    have q: "q < 64" "r < 64" by (simp_all add: q_def r_def)
    have m: "m < 64" by (simp add: m_def)
    have p: "p \<le> 4" using 4 by (simp add: p_def)
    have lo: "16 \<le> q" if "p = 0" using that c m q 4 by simp
    have hi: "q \<le> 15" if "p = 4" using that c m q 4 by simp
    have "utf8_of c = [0xF0 + p, 0x80 + q, 0x80 + r, 0x80 + m]"
      using 4 by (simp add: utf8_of_def p_def q_def r_def m_def)
    with p q m lo hi c show ?thesis by (simp add: not_less)
  qed
qed

lemma unat_unit_less [simp]: "unat (u :: 16 word) < 65536"
  by (rule order_less_le_trans, rule unsigned_less) simp

lemma unat_unit [simp]: "x < 65536 \<Longrightarrow> unat (word_of_nat x :: 16 word) = x"
  by (simp add: unat_of_nat)

lemma surrogate_pair:
  assumes "low_surrogate v" "high_surrogate u"
  obtains p q where "unat u = 0xD800 + p" "unat v = 0xDC00 + q" "p < 1024" "q < 1024"
proof
  show "unat u = 0xD800 + (unat u - 0xD800)" "unat v = 0xDC00 + (unat v - 0xDC00)"
    "unat u - 0xD800 < 1024" "unat v - 0xDC00 < 1024"
    using assms unfolding high_surrogate_def low_surrogate_def by arith+
qed

lemma code_points_scalar: "c \<in> set (code_points s) \<Longrightarrow> scalar_value c"
proof (induction s rule: code_points.induct)
  case 1
  then show ?case by simp
next
  case (2 u us)
  show ?case
  proof (cases "high_surrogate u")
    case True
    show ?thesis
    proof (cases us)
      case Nil
      with 2 True show ?thesis by (simp add: scalar_value_def)
    next
      case (Cons v vs)
      show ?thesis
      proof (cases "low_surrogate v")
        case low: True
        then obtain p q where "unat u = 0xD800 + p" "unat v = 0xDC00 + q" "p < 1024" "q < 1024"
          using True by (rule surrogate_pair)
        then have "scalar_value (0x10000 + (unat u - 0xD800) * 1024 + (unat v - 0xDC00))"
          by (simp add: scalar_value_def)
        with 2 True Cons low show ?thesis by auto
      next
        case False
        with 2 True Cons show ?thesis by (auto simp: scalar_value_def)
      qed
    qed
  next
    case False
    have "\<not> low_surrogate u \<Longrightarrow> scalar_value (unat u)"
      using False unat_unit_less [of u]
      unfolding scalar_value_def high_surrogate_def low_surrogate_def by arith
    moreover have "scalar_value 0xFFFD" by (simp add: scalar_value_def)
    ultimately show ?thesis using 2 False by (auto split: if_splits)
  qed
qed

lemma utf8_of_byte: "scalar_value c \<Longrightarrow> b \<in> set (utf8_of c) \<Longrightarrow> b < 256"
  by (auto simp: utf8_of_def scalar_value_def split: if_splits)

lemma scan_code_points:
  "(\<And>c. c \<in> set cs \<Longrightarrow> scalar_value c) \<Longrightarrow>
   utf8_scan 0 0 0x80 0xBF (concat (map utf8_of cs)) = cs"
  by (induction cs) (simp_all add: scan_lead)

text \<open>Reading back the UTF-8 of a string replaces each lone surrogate and nothing else.\<close>

lemma from_to_utf8: "from_utf8 (to_utf8 s) = concat (map units_of (code_points s))"
proof -
  have "map (unat \<circ> (word_of_nat :: nat \<Rightarrow> byte)) (concat (map utf8_of (code_points s))) =
        concat (map utf8_of (code_points s))"
    by (rule map_idI) (auto dest!: code_points_scalar intro!: unat_byte intro: utf8_of_byte)
  then have "map unat (to_utf8 s) = concat (map utf8_of (code_points s))"
    unfolding to_utf8_def map_map .
  then show ?thesis
    by (simp add: from_utf8_def scan_code_points code_points_scalar)
qed

lemma unit_eq_iff: "(u :: 16 word) = word_of_nat n \<longleftrightarrow> unat u = n mod 65536"
  by (simp add: word_unat_eq_iff unat_of_nat)

lemma units_code_points: "well_formed_text s \<Longrightarrow> concat (map units_of (code_points s)) = s"
proof (induction s rule: well_formed_text.induct)
  case 1
  then show ?case by simp
next
  case (2 u us)
  show ?case
  proof (cases "high_surrogate u")
    case True
    with 2 obtain v vs where us: "us = v # vs" "low_surrogate v" "well_formed_text vs"
      by (auto split: list.splits)
    from us(2) True obtain p q where pq: "unat u = 0xD800 + p" "unat v = 0xDC00 + q" "p < 1024" "q < 1024"
      by (rule surrogate_pair)
    then have "units_of (0x10000 + (p * 1024 + q)) = [word_of_nat (0xD800 + p), word_of_nat (0xDC00 + q)]"
      by (simp add: units_of_def del: of_nat_add)
    also have "\<dots> = [u, v]" by (simp only: pq(1,2) [symmetric] of_nat_unat ucast_id)
    finally have "units_of (0x10000 + (unat u - 0xD800) * 1024 + (unat v - 0xDC00)) = [u, v]"
      by (simp add: pq add.assoc)
    with 2 True us show ?thesis by simp
  next
    case False
    with 2 show ?thesis by (simp add: units_of_def)
  qed
qed

lemma utf8_roundtrip: "well_formed_text s \<Longrightarrow> from_utf8 (to_utf8 s) = s"
  by (simp add: from_to_utf8 units_code_points)

text \<open>ASCII text is its own UTF-8.\<close>

definition ascii :: "string \<Rightarrow> bool" where
  "ascii s \<longleftrightarrow> list_all (\<lambda>c. (of_char c :: nat) < 128) s"

lemma ascii_units:
  assumes "ascii s"
  shows "well_formed_text (units s)" "code_points (units s) = map of_char s"
  using assms
  by (induction s) (auto simp: ascii_def units_def high_surrogate_def low_surrogate_def split: list.splits)

lemma ascii_utf8: "ascii s \<Longrightarrow> to_utf8 (units s) = map (\<lambda>c. word_of_nat (of_char c)) s"
proof -
  assume s: "ascii s"
  then have "concat (map utf8_of (map of_char s)) = map of_char s"
    by (induction s) (auto simp: ascii_def utf8_of_def)
  with s show ?thesis by (simp add: to_utf8_def ascii_units)
qed

lemma units_eq_iff: "units s = units t \<longleftrightarrow> s = t"
proof
  assume "units s = units t"
  then have "map (unat :: 16 word \<Rightarrow> nat) (units s) = map unat (units t)" by simp
  moreover have "map (unat :: 16 word \<Rightarrow> nat) (units u) = map of_char u" for u
  proof (induction u)
    case Nil
    then show ?case by (simp add: units_def)
  next
    case (Cons c u)
    have "(of_char c :: nat) < 65536"
      by (rule order_less_trans [OF nat_of_char_less_256]) simp
    with Cons show ?case by (simp add: units_def)
  qed
  ultimately have "map (of_char :: char \<Rightarrow> nat) s = map of_char t" by simp
  then show "s = t" by (simp add: inj_map_eq_map inj_def)
qed simp

subsection \<open>Numbers\<close>

text \<open>A JavaScript number is an integer, or a double that is not one (a fraction, -0, an
  infinity, the NaN) given by its bits.\<close>

datatype (discs_sels) js_number = NumInt int | NumBits "64 word"

fun bit_length :: "nat \<Rightarrow> nat" where
  "bit_length n = (if n = 0 then 0 else Suc (bit_length (n div 2)))"

declare bit_length.simps [simp del]

text \<open>Number(n) for a BigInt, and the result of an integer operation: the nearest double, ties
  to even.\<close>

definition round_nat :: "nat \<Rightarrow> nat" where
  "round_nat n =
     (let k = bit_length n - 53; q = n div 2 ^ k; r = n mod 2 ^ k
      in if 2 ^ k < 2 * r \<or> (2 ^ k = 2 * r \<and> odd q) then (q + 1) * 2 ^ k else q * 2 ^ k)"

definition js_round :: "int \<Rightarrow> int" where
  "js_round n = sgn n * int (round_nat (nat \<bar>n\<bar>))"

definition nan_bits :: "64 word" where
  "nan_bits = 0x7FF8000000000000"

definition minus_zero :: "64 word" where
  "minus_zero = 0x8000000000000000"

text \<open>The number with the given IEEE 754 bits, as readDoubleBE returns it.\<close>

definition number_of_bits :: "64 word \<Rightarrow> js_number" where
  "number_of_bits w =
     (let b = unat w; neg = 2 ^ 63 \<le> b; e = b div 2 ^ 52 mod 2048; m = b mod 2 ^ 52;
          signed = (\<lambda>x. if neg then - int x else int x)
      in if e = 2047 then NumBits (if m = 0 then w else nan_bits)
         else if e = 0 \<and> m = 0 then (if neg then NumBits w else NumInt 0)
         else
           let sig = (if e = 0 then m else m + 2 ^ 52); e1 = max e 1
           in if 1075 \<le> e1 then NumInt (signed (sig * 2 ^ (e1 - 1075)))
              else if sig mod 2 ^ (1075 - e1) = 0 then NumInt (signed (sig div 2 ^ (1075 - e1)))
              else NumBits w)"

text \<open>The double with the value of a single, as readFloatBE returns it.\<close>

definition widen_single :: "nat \<Rightarrow> 64 word" where
  "widen_single b =
     (let s = b div 2 ^ 31; e = b div 2 ^ 23 mod 256; m = b mod 2 ^ 23; l = bit_length m
      in word_of_nat
           (if e = 255 then s * 2 ^ 63 + 2047 * 2 ^ 52 + m * 2 ^ 29
            else if e = 0 then
              (if m = 0 then s * 2 ^ 63
               else s * 2 ^ 63 + (l + 873) * 2 ^ 52 + (m - 2 ^ (l - 1)) * 2 ^ (53 - l))
            else s * 2 ^ 63 + (e + 896) * 2 ^ 52 + m * 2 ^ 29))"

text \<open>What holds of the numbers a program can have: an integer is a double.\<close>

fun is_number :: "js_number \<Rightarrow> bool" where
  "is_number (NumInt n) = (js_round n = n)"
| "is_number (NumBits b) = (number_of_bits b = NumBits b)"

lemma bit_length_less: "n < 2 ^ k \<longleftrightarrow> bit_length n \<le> k"
proof (induction k arbitrary: n)
  case 0
  then show ?case by (subst bit_length.simps) auto
next
  case (Suc k)
  have "n < 2 ^ Suc k \<longleftrightarrow> n div 2 < 2 ^ k" by (simp add: div_less_iff_less_mult mult.commute)
  also have "\<dots> \<longleftrightarrow> bit_length (n div 2) \<le> k" by (rule Suc.IH)
  also have "\<dots> \<longleftrightarrow> bit_length n \<le> Suc k"
    by (cases "n = 0") (simp_all add: bit_length.simps [of n] bit_length.simps [of 0])
  finally show ?case .
qed

lemma round_nat_small: "n \<le> 2 ^ 53 \<Longrightarrow> round_nat n = n"
proof (cases "n < 2 ^ 53")
  case True
  then have "bit_length n \<le> 53" by (simp only: bit_length_less)
  then show ?thesis by (simp add: round_nat_def)
next
  case False
  assume "n \<le> 2 ^ 53"
  with False have n: "n = 2 ^ 53" by simp
  have "bit_length n \<le> 54" "\<not> bit_length n \<le> 53"
    unfolding n by (simp_all only: bit_length_less [symmetric], simp_all)
  then have "bit_length n = 54" by simp
  then show ?thesis unfolding n by (simp add: round_nat_def)
qed

lemma js_round_safe [simp]: "\<bar>n\<bar> \<le> 2 ^ 53 \<Longrightarrow> js_round n = n"
  by (simp add: js_round_def round_nat_small nat_le_iff sgn_if)

lemma js_round_0 [simp]: "js_round 0 = 0"
  by (simp add: js_round_def)

subsection \<open>Values\<close>

text \<open>What a codec is given: \<open>VObject\<close> lists the own enumerable keys in the order of
  Object.keys; \<open>VOther\<close> is a bigint, a symbol or a function.\<close>

datatype (discs_sels) js_value =
    VUndefined
  | VNull
  | VBool bool
  | VNumber js_number
  | VString js_text
  | VBuffer bytes
  | VUint8Array bytes
  | VArray "js_value list"
  | VObject "(js_text \<times> js_value) list"
  | VOther

type_synonym 'v entries = "(js_text \<times> 'v) list"

text \<open>Keys that are array indices come first, in ascending order; the others keep the order in
  which they were added.\<close>

definition index_key :: "js_text \<Rightarrow> nat option" where
  "index_key k =
     (let n = foldl (\<lambda>acc u. acc * 10 + (unat u - 48)) 0 k
      in if k \<noteq> [] \<and> (\<forall>u \<in> set k. 48 \<le> unat u \<and> unat u \<le> 57) \<and>
            (hd k = 48 \<longrightarrow> length k = 1) \<and> n < 2 ^ 32 - 1
         then Some n else None)"

definition key_before :: "nat \<Rightarrow> js_text \<times> 'v \<Rightarrow> bool" where
  "key_before i e = (case index_key (fst e) of None \<Rightarrow> False | Some j \<Rightarrow> j < i)"

text \<open>\<open>obj[k] = v\<close>.\<close>

definition set_property :: "js_text \<Rightarrow> 'v \<Rightarrow> 'v entries \<Rightarrow> 'v entries" where
  "set_property k v es =
     (if k \<in> fst ` set es then map (\<lambda>e. if fst e = k then (k, v) else e) es
      else case index_key k of
             None \<Rightarrow> es @ [(k, v)]
           | Some i \<Rightarrow> takeWhile (key_before i) es @ (k, v) # dropWhile (key_before i) es)"

definition build_object :: "'v entries \<Rightarrow> 'v entries" where
  "build_object es = foldl (\<lambda>acc (k, v). set_property k v acc) [] es"

text \<open>A list of entries an object can have: adding them one by one gives them back.\<close>

definition object_entries :: "'v entries \<Rightarrow> bool" where
  "object_entries es \<longleftrightarrow> build_object es = es"

lemma set_property_map:
  "set_property k (g v) (map (\<lambda>(k, v). (k, g v)) es) = map (\<lambda>(k, v). (k, g v)) (set_property k v es)"
proof -
  have k: "k \<in> fst ` (\<lambda>(k, v). (k, g v)) ` set es \<longleftrightarrow> k \<in> fst ` set es" by force
  have b: "key_before i \<circ> (\<lambda>(k, v). (k, g v)) = key_before i" for i
    by (auto simp: key_before_def)
  show ?thesis
    by (auto simp: set_property_def k takeWhile_map dropWhile_map b split: option.splits)
qed

lemma build_object_snoc:
  "build_object (es @ [(k, v)]) = set_property k v (build_object es)"
  by (simp add: build_object_def)

lemma build_object_map:
  "build_object (map (\<lambda>(k, v). (k, g v)) es) = map (\<lambda>(k, v). (k, g v)) (build_object es)"
proof (induction es rule: rev_induct)
  case Nil
  then show ?case by (simp add: build_object_def)
next
  case (snoc e es)
  then show ?case by (cases e) (simp add: build_object_snoc set_property_map)
qed

lemma set_property_set: "set (set_property k v es) \<subseteq> insert (k, v) (set es)"
  unfolding set_property_def
  by (auto split: option.splits if_splits dest: set_takeWhileD set_dropWhileD)

lemma set_property_keys: "fst ` set (set_property k v es) = insert k (fst ` set es)"
proof (cases "k \<in> fst ` set es")
  case True
  have "map fst (map (\<lambda>e. if fst e = k then (k, v) else e) es) = map fst es" by auto
  then have "fst ` set (map (\<lambda>e. if fst e = k then (k, v) else e) es) = fst ` set es"
    by (metis list.set_map)
  with True show ?thesis by (simp add: set_property_def insert_absorb del: list.set_map)
next
  case False
  have p: "fst ` set (takeWhile P es @ (k, v) # dropWhile P es) =
      insert k (fst ` set (takeWhile P es @ dropWhile P es))" for P
    by (simp del: takeWhile_dropWhile_id add: image_Un)
  show ?thesis
  proof (cases "index_key k")
    case None
    with False show ?thesis by (simp add: set_property_def)
  next
    case (Some i)
    with False p [of "key_before i"] show ?thesis
      by (simp add: set_property_def del: set_append)
  qed
qed

lemma map_of_map_entry:
  "map_of (map (\<lambda>e. if fst e = k then (k, v) else e) es) k' =
     (if k' = k \<and> k \<in> fst ` set es then Some v else map_of es k')"
proof (induction es)
  case Nil
  then show ?case by simp
next
  case (Cons e es)
  then show ?case by (cases "k \<in> fst ` set es") auto
qed

lemma set_property_lookup: "map_of (set_property k v es) k' = (if k' = k then Some v else map_of es k')"
proof (cases "k \<in> fst ` set es")
  case True
  then show ?thesis by (simp add: set_property_def map_of_map_entry)
next
  case False
  have s: "map_of (a @ (k, v) # b) k' = (if k' = k then Some v else map_of (a @ b) k')"
    if "k \<notin> fst ` set a" for a b :: "'a entries"
  proof -
    have "map_of a k = None" using that by (simp add: map_of_eq_None_iff)
    then show ?thesis by (cases "k' = k") (simp_all add: map_add_def split: option.split)
  qed
  have t: "k \<notin> fst ` set (takeWhile P es)" for P using False by (auto dest: set_takeWhileD)
  show ?thesis
  proof (cases "index_key k")
    case None
    with False s [of es "[]"] show ?thesis by (simp add: set_property_def)
  next
    case (Some i)
    with False s [OF t, of "key_before i" "dropWhile (key_before i) es"] show ?thesis
      by (simp add: set_property_def)
  qed
qed

lemma build_object_set: "set (build_object es) \<subseteq> set es"
proof (induction es rule: rev_induct)
  case Nil
  then show ?case by (simp add: build_object_def)
next
  case (snoc e es)
  then show ?case using set_property_set [of "fst e" "snd e" "build_object es"]
    by (cases e) (auto simp: build_object_snoc)
qed

lemma build_object_keys: "fst ` set (build_object es) = fst ` set es"
proof (induction es rule: rev_induct)
  case Nil
  then show ?case by (simp add: build_object_def)
next
  case (snoc e es)
  then show ?case by (cases e) (simp add: build_object_snoc set_property_keys)
qed

text \<open>The property key a value is converted to.\<close>

fun property_key :: "js_value \<Rightarrow> js_text codec" where
  "property_key (VString s) = (if s = units ''__proto__'' then Inl OutOfModel else Inr s)"
| "property_key VUndefined = Inr (units ''undefined'')"
| "property_key VNull = Inr (units ''null'')"
| "property_key (VBool b) = Inr (units (show_bool b))"
| "property_key (VNumber (NumInt n)) =
     (if \<bar>n\<bar> < 10 ^ 21 then Inr (units (show_int n)) else Inl OutOfModel)"
| "property_key (VBuffer b) =
     (if from_utf8 b = units ''__proto__'' then Inl OutOfModel else Inr (from_utf8 b))"
| "property_key _ = Inl OutOfModel"

text \<open>Buffer.from(value), Buffer.from(value, 'utf-8').\<close>

fun buffer_from :: "js_value \<Rightarrow> bytes codec" where
  "buffer_from (VString s) = Inr (to_utf8 s)"
| "buffer_from (VBuffer b) = Inr b"
| "buffer_from (VUint8Array b) = Inr b"
| "buffer_from (VArray vs) = Inl OutOfModel"
| "buffer_from (VObject es) = Inl OutOfModel"
| "buffer_from v = Inl (Throws (JsTypeError ''ERR_INVALID_ARG_TYPE''))"

subsection \<open>The loops of the decoders\<close>

text \<open>\<open>for (let i = 0; i < length; i++) result.push(decode(...))\<close>, and the same with a key
  and a value per turn.\<close>

fun read_items :: "(bytes \<Rightarrow> ('v \<times> bytes) codec) \<Rightarrow> nat \<Rightarrow> bytes \<Rightarrow> ('v list \<times> bytes) codec" where
  "read_items d 0 bs = Inr ([], bs)"
| "read_items d (Suc n) bs =
     and_then (d bs) (\<lambda>(v, bs1).
     and_then (read_items d n bs1) (\<lambda>(vs, bs2). Inr (v # vs, bs2)))"

fun read_entries ::
    "(bytes \<Rightarrow> (js_value \<times> bytes) codec) \<Rightarrow> nat \<Rightarrow> bytes \<Rightarrow> (js_value entries \<times> bytes) codec" where
  "read_entries d 0 bs = Inr ([], bs)"
| "read_entries d (Suc n) bs =
     and_then (d bs) (\<lambda>(k, bs1).
     and_then (d bs1) (\<lambda>(v, bs2).
     and_then (property_key k) (\<lambda>p.
     and_then (read_entries d n bs2) (\<lambda>(es, bs3). Inr ((p, v) # es, bs3)))))"

text \<open>A decoder uses up at least one byte; within a buffer shorter than \<open>m\<close> it does not run out of
  turns; it gives what another one gives wherever that one does not run out.\<close>

definition consuming :: "('a list \<Rightarrow> ('v \<times> 'a list) codec) \<Rightarrow> bool" where
  "consuming d \<longleftrightarrow> (\<forall>bs v r. d bs = Inr (v, r) \<longrightarrow> length r < length bs)"

definition enough_below :: "nat \<Rightarrow> ('a list \<Rightarrow> 'r codec) \<Rightarrow> bool" where
  "enough_below m d \<longleftrightarrow> (\<forall>bs. length bs < m \<longrightarrow> d bs \<noteq> Inl OutOfFuel)"

definition extended_by :: "('b \<Rightarrow> 'r codec) \<Rightarrow> ('b \<Rightarrow> 'r codec) \<Rightarrow> bool" where
  "extended_by d d' \<longleftrightarrow> (\<forall>b. d b \<noteq> Inl OutOfFuel \<longrightarrow> d' b = d b)"

lemma consumingD: "consuming d \<Longrightarrow> d bs = Inr (v, r) \<Longrightarrow> length r < length bs"
  by (simp add: consuming_def)

lemma enough_belowD: "enough_below m d \<Longrightarrow> length bs < m \<Longrightarrow> d bs \<noteq> Inl OutOfFuel"
  by (simp add: enough_below_def)

lemma extended_byD: "extended_by d d' \<Longrightarrow> d b \<noteq> Inl OutOfFuel \<Longrightarrow> d' b = d b"
  by (simp add: extended_by_def)

lemma extended_if:
  "extended_by f f' \<Longrightarrow> extended_by g g' \<Longrightarrow>
   extended_by (\<lambda>b. if c then f b else g b) (\<lambda>b. if c then f' b else g' b)"
  by (simp add: extended_by_def)

lemma extended_refl: "extended_by f f"
  by (simp add: extended_by_def)

lemma extended_pair:
  "(\<And>n. extended_by (\<lambda>b. f n b) (\<lambda>b. g n b)) \<Longrightarrow> extended_by (\<lambda>(n, b). f n b) (\<lambda>(n, b). g n b)"
  by (simp add: extended_by_def split_beta)

lemma extended_and_then:
  "extended_by f g \<Longrightarrow> extended_by (\<lambda>b. and_then (r b) f) (\<lambda>b. and_then (r b) g)"
  unfolding extended_by_def
proof (intro allI impI)
  fix b
  assume "\<forall>b. f b \<noteq> Inl OutOfFuel \<longrightarrow> g b = f b" "and_then (r b) f \<noteq> Inl OutOfFuel"
  then show "and_then (r b) g = and_then (r b) f" by (cases "r b") simp_all
qed

lemma read_items_consumes:
  assumes "consuming d"
  shows "read_items d n bs = Inr (vs, r) \<Longrightarrow> length r + n \<le> length bs"
proof (induction n arbitrary: bs vs)
  case 0
  then show ?case by simp
next
  case (Suc n)
  then obtain v b1 vs' where "d bs = Inr (v, b1)" "read_items d n b1 = Inr (vs', r)"
    by (auto simp: and_then_Inr)
  with Suc.IH [of b1 vs'] consumingD [OF assms, of bs v b1] show ?case by simp
qed

lemma read_entries_consumes:
  assumes "consuming d"
  shows "read_entries d n bs = Inr (vs, r) \<Longrightarrow> length r + n \<le> length bs"
proof (induction n arbitrary: bs vs)
  case 0
  then show ?case by simp
next
  case (Suc n)
  then obtain k b1 v b2 es where "d bs = Inr (k, b1)" "d b1 = Inr (v, b2)"
    "read_entries d n b2 = Inr (es, r)"
    by (auto simp: and_then_Inr)
  with Suc.IH [of b2 es] consumingD [OF assms, of bs k b1] consumingD [OF assms, of b1 v b2] show ?case by simp
qed

lemma property_key_fuel [simp]: "property_key v \<noteq> Inl OutOfFuel"
  by (induction v rule: property_key.induct) auto

lemma read_items_fuel:
  assumes "consuming d" and "enough_below m d"
  shows "length bs < m \<Longrightarrow> read_items d n bs \<noteq> Inl OutOfFuel"
proof (induction n arbitrary: bs)
  case 0
  then show ?case by simp
next
  case (Suc n)
  show ?case
  proof
    assume "read_items d (Suc n) bs = Inl OutOfFuel"
    moreover have "d bs \<noteq> Inl OutOfFuel" using assms(2) Suc.prems by (rule enough_belowD)
    ultimately obtain v b1 where 1: "d bs = Inr (v, b1)" and "read_items d n b1 = Inl OutOfFuel"
      by (auto simp: and_then_Inl)
    moreover have "length b1 < m" using consumingD [OF assms(1) 1] Suc.prems by simp
    ultimately show False using Suc.IH by simp
  qed
qed

lemma read_entries_fuel:
  assumes "consuming d" and "enough_below m d"
  shows "length bs < m \<Longrightarrow> read_entries d n bs \<noteq> Inl OutOfFuel"
proof (induction n arbitrary: bs)
  case 0
  then show ?case by simp
next
  case (Suc n)
  show ?case
  proof
    assume "read_entries d (Suc n) bs = Inl OutOfFuel"
    moreover have "d bs \<noteq> Inl OutOfFuel" using assms(2) Suc.prems by (rule enough_belowD)
    ultimately obtain k b1 where 1: "d bs = Inr (k, b1)"
      and "d b1 = Inl OutOfFuel \<or> (\<exists>v b2. d b1 = Inr (v, b2) \<and> read_entries d n b2 = Inl OutOfFuel)"
      by (auto simp: and_then_Inl)
    moreover have "length b1 < m" using consumingD [OF assms(1) 1] Suc.prems by simp
    ultimately show False
      using consumingD [OF assms(1)] enough_belowD [OF assms(2)] Suc.IH by (meson less_trans)
  qed
qed

lemma read_items_mono:
  assumes "extended_by d d'"
  shows "read_items d n bs \<noteq> Inl OutOfFuel \<Longrightarrow> read_items d' n bs = read_items d n bs"
proof (induction n arbitrary: bs)
  case 0
  then show ?case by simp
next
  case (Suc n)
  then have "d' bs = d bs" by (intro extended_byD [OF assms]) (auto simp: and_then_Inl)
  with Suc show ?case by (cases "d bs") (auto simp: and_then_Inl)
qed

lemma read_entries_mono:
  assumes "extended_by d d'"
  shows "read_entries d n bs \<noteq> Inl OutOfFuel \<Longrightarrow> read_entries d' n bs = read_entries d n bs"
proof (induction n arbitrary: bs)
  case 0
  then show ?case by simp
next
  case (Suc n)
  then have 1: "d' bs = d bs" by (intro extended_byD [OF assms]) (auto simp: and_then_Inl)
  show ?case
  proof (cases "d bs")
    case (Inl e)
    with 1 show ?thesis by simp
  next
    case (Inr kb)
    obtain k b1 where kb: "kb = (k, b1)" by (cases kb)
    have 2: "d' b1 = d b1" using Suc.prems by (intro extended_byD [OF assms]) (auto simp: and_then_Inl Inr kb)
    show ?thesis
    proof (cases "d b1")
      case (Inl e)
      with 1 2 Inr kb show ?thesis by simp
    next
      case inr: (Inr vb)
      obtain v b2 where vb: "vb = (v, b2)" by (cases vb)
      have "read_entries d' n b2 = read_entries d n b2" if "property_key k = Inr q" for q
        using Suc.prems that by (intro Suc.IH) (auto simp: and_then_Inl Inr kb inr vb)
      with 1 2 Inr kb inr vb show ?thesis by (cases "property_key k") simp_all
    qed
  qed
qed

text \<open>A loop over a list that reads once per element.\<close>

fun read_seq :: "('f \<Rightarrow> bytes \<Rightarrow> ('v \<times> bytes) codec) \<Rightarrow> 'f list \<Rightarrow> bytes \<Rightarrow> ('v list \<times> bytes) codec" where
  "read_seq d [] bs = Inr ([], bs)"
| "read_seq d (x # xs) bs =
     and_then (d x bs) (\<lambda>(v, bs1).
     and_then (read_seq d xs bs1) (\<lambda>(vs, bs2). Inr (v # vs, bs2)))"

lemma read_seq_cong [fundef_cong]:
  "xs = xs' \<Longrightarrow> bs = bs' \<Longrightarrow> (\<And>x b. x \<in> set xs' \<Longrightarrow> d x b = d' x b) \<Longrightarrow>
   read_seq d xs bs = read_seq d' xs' bs'"
proof (induction xs' arbitrary: xs bs bs')
  case Nil
  then show ?case by simp
next
  case (Cons x xs')
  have "read_seq d xs' b = read_seq d' xs' b" for b
    using Cons.prems(3) by (intro Cons.IH) simp_all
  with Cons.prems show ?case by simp
qed

subsection \<open>The loops of the encoders\<close>

text \<open>\<open>for (const item of value) encode(item, chunks)\<close>.\<close>

fun enc_all :: "('v \<Rightarrow> bytes codec) \<Rightarrow> 'v list \<Rightarrow> bytes codec" where
  "enc_all e [] = Inr []"
| "enc_all e (v # vs) = and_then (e v) (\<lambda>a. and_then (enc_all e vs) (\<lambda>b. Inr (a @ b)))"

lemma enc_all_cong [fundef_cong]:
  "vs = vs' \<Longrightarrow> (\<And>v. v \<in> set vs' \<Longrightarrow> e v = e' v) \<Longrightarrow> enc_all e vs = enc_all e' vs'"
  by (induction vs' arbitrary: vs) auto

lemma enc_all_total:
  "(\<exists>bs. enc_all e vs = Inr bs) \<longleftrightarrow> (\<forall>v \<in> set vs. \<exists>bs. e v = Inr bs)"
proof (induction vs)
  case Nil
  then show ?case by simp
next
  case (Cons v vs)
  then show ?case by (cases "e v"; cases "enc_all e vs") auto
qed

lemma and_then_total:
  "(\<exists>y. and_then r f = Inr y) \<longleftrightarrow> (\<exists>x. r = Inr x \<and> (\<exists>y. f x = Inr y))"
  by (cases r) auto

lemma enc_all_part:
  "enc_all e vs = Inr bs \<Longrightarrow> v \<in> set vs \<Longrightarrow> e v = Inr b \<Longrightarrow> length b \<le> length bs"
proof (induction vs arbitrary: bs)
  case Nil
  then show ?case by simp
next
  case (Cons w ws)
  then obtain x y where xy: "e w = Inr x" "enc_all e ws = Inr y" "bs = x @ y"
    by (auto simp: and_then_Inr)
  with Cons Cons.IH [OF xy(2)] show ?case by (cases "v = w") auto
qed

lemma read_items_enc_all:
  assumes "\<And>v bs r. v \<in> set vs \<Longrightarrow> e v = Inr bs \<Longrightarrow> d (bs @ r) = Inr (g v, r)"
  shows "enc_all e vs = Inr bs \<Longrightarrow> read_items d (length vs) (bs @ rest) = Inr (map g vs, rest)"
  using assms
proof (induction vs arbitrary: bs)
  case Nil
  then show ?case by simp
next
  case (Cons v vs)
  then obtain a b where ab: "e v = Inr a" "enc_all e vs = Inr b" "bs = a @ b"
    by (auto simp: and_then_Inr)
  have "d (a @ b @ rest) = Inr (g v, b @ rest)" using ab(1) by (intro Cons.prems(2)) simp_all
  moreover have "read_items d (length vs) (b @ rest) = Inr (map g vs, rest)"
    using ab(2) Cons.prems(2) by (intro Cons.IH) simp_all
  ultimately show ?case using ab(3) by simp
qed

lemma read_entries_enc_all:
  assumes "\<And>k v bs. (k, v) \<in> set es \<Longrightarrow> e (k, v) = Inr bs \<Longrightarrow>
      \<exists>a b. bs = a @ b \<and> (\<forall>r. d (a @ r) = Inr (VString k, r)) \<and> (\<forall>r. d (b @ r) = Inr (g v, r))"
    and "\<And>k v. (k, v) \<in> set es \<Longrightarrow> k \<noteq> units ''__proto__''"
  shows "enc_all e es = Inr bs \<Longrightarrow>
    read_entries d (length es) (bs @ rest) = Inr (map (\<lambda>(k, v). (k, g v)) es, rest)"
  using assms
proof (induction es arbitrary: bs)
  case Nil
  then show ?case by simp
next
  case (Cons kv es)
  obtain k v where kv: "kv = (k, v)" by (cases kv)
  with Cons.prems(1) obtain x c where xc: "e (k, v) = Inr x" "enc_all e es = Inr c" "bs = x @ c"
    by (auto simp: and_then_Inr)
  from Cons.prems(2) [of k v x] kv xc obtain a b where ab: "x = a @ b"
    and a: "\<And>r. d (a @ r) = Inr (VString k, r)" and b: "\<And>r. d (b @ r) = Inr (g v, r)" by auto
  have "k \<noteq> units ''__proto__''" using Cons.prems(3) [of k v] kv by simp
  moreover have "read_entries d (length es) (c @ rest) = Inr (map (\<lambda>(k, v). (k, g v)) es, rest)"
  proof (rule Cons.IH [OF xc(2)])
    fix k v bs
    assume "(k, v) \<in> set es" "e (k, v) = Inr bs"
    then show "\<exists>a b. bs = a @ b \<and> (\<forall>r. d (a @ r) = Inr (VString k, r)) \<and> (\<forall>r. d (b @ r) = Inr (g v, r))"
      by (intro Cons.prems(2)) simp_all
  next
    fix k v
    assume "(k, v) \<in> set es"
    then show "k \<noteq> units ''__proto__''" by (intro Cons.prems(3) [of k v]) simp
  qed
  ultimately show ?case by (simp add: kv xc(3) ab a b)
qed

lemma read_seq_enc_all:
  assumes "\<And>x bs r. x \<in> set xs \<Longrightarrow> e x = Inr bs \<Longrightarrow> d x (bs @ r) = Inr (g x, r)"
  shows "enc_all e xs = Inr bs \<Longrightarrow> read_seq d xs (bs @ rest) = Inr (map g xs, rest)"
  using assms
proof (induction xs arbitrary: bs)
  case Nil
  then show ?case by simp
next
  case (Cons x xs)
  then obtain a b where ab: "e x = Inr a" "enc_all e xs = Inr b" "bs = a @ b"
    by (auto simp: and_then_Inr)
  have "d x (a @ b @ rest) = Inr (g x, b @ rest)" using ab(1) by (intro Cons.prems(2)) simp_all
  moreover have "read_seq d xs (b @ rest) = Inr (map g xs, rest)"
    using ab(2) Cons.prems(2) by (intro Cons.IH) simp_all
  ultimately show ?case using ab(3) by simp
qed

lemma read_items_all:
  assumes "\<And>bs v r. d bs = Inr (v, r) \<Longrightarrow> P v"
  shows "read_items d n bs = Inr (vs, r) \<Longrightarrow> v \<in> set vs \<Longrightarrow> P v"
proof (induction n arbitrary: bs vs)
  case 0
  then show ?case by simp
next
  case (Suc n)
  then obtain w b1 ws where "d bs = Inr (w, b1)" "read_items d n b1 = Inr (ws, r)" "vs = w # ws"
    by (auto simp: and_then_Inr)
  with Suc assms show ?case by auto
qed

lemma read_seq_all:
  assumes "\<And>x bs v r. x \<in> set xs \<Longrightarrow> d x bs = Inr (v, r) \<Longrightarrow> P x v"
  shows "read_seq d xs bs = Inr (vs, r) \<Longrightarrow> list_all2 P xs vs"
  using assms
proof (induction xs arbitrary: bs vs)
  case Nil
  then show ?case by simp
next
  case (Cons x xs)
  then obtain v b1 ws where "d x bs = Inr (v, b1)" "read_seq d xs b1 = Inr (ws, r)" "vs = v # ws"
    by (auto simp: and_then_Inr)
  with Cons.IH [of b1 ws] Cons.prems(2) show ?case by simp
qed

subsection \<open>The contracts of a codec\<close>

text \<open>An encoding that tells the decoder where it ends: what follows it is left alone.\<close>

locale self_delimiting =
  fixes enc :: "'v \<Rightarrow> bytes codec"
    and dec :: "bytes \<Rightarrow> ('w \<times> bytes) codec"
    and image :: "'v \<Rightarrow> 'w"
    and good :: "'v \<Rightarrow> bool"
  assumes dec_enc: "good v \<Longrightarrow> enc v = Inr bs \<Longrightarrow> dec (bs @ rest) = Inr (image v, rest)"
begin

lemma dec_enc_alone: "good v \<Longrightarrow> enc v = Inr bs \<Longrightarrow> dec bs = Inr (image v, [])"
  using dec_enc [of v bs "[]"] by simp

lemma dec_stream:
  assumes "\<And>v. v \<in> set vs \<Longrightarrow> good v" and "enc_all enc vs = Inr bs"
  shows "read_items dec (length vs) (bs @ rest) = Inr (map image vs, rest)"
  by (rule read_items_enc_all [OF dec_enc assms(2)]) (simp_all add: assms(1))

lemma prefix_free:
  assumes "good v" "enc v = Inr a" "good w" "enc w = Inr (a @ b)"
  shows "b = [] \<and> image v = image w"
  using dec_enc [OF assms(1,2), of b] dec_enc_alone [OF assms(3,4)] by simp

lemma enc_determines:
  assumes "good v" "good w" "enc v = Inr bs" "enc w = Inr bs"
  shows "image v = image w"
  using prefix_free [OF assms(1,3,2), of "[]"] assms(4) by simp

end

text \<open>A decoder whose recursion needs no more turns than its input has bytes.\<close>

locale bounded_decoder =
  fixes dec :: "nat \<Rightarrow> 'a list \<Rightarrow> ('w \<times> 'a list) codec"
  assumes dec_consumes: "dec f bs = Inr (v, r) \<Longrightarrow> length r < length bs"
    and dec_fuel: "length bs < f \<Longrightarrow> dec f bs \<noteq> Inl OutOfFuel"
    and dec_more: "dec f bs \<noteq> Inl OutOfFuel \<Longrightarrow> dec (Suc f) bs = dec f bs"
begin

lemma dec_any_fuel: "length bs < f \<Longrightarrow> dec f bs = dec (Suc (length bs)) bs"
proof (induction f rule: nat_induct)
  case 0
  then show ?case by simp
next
  case (Suc f)
  then show ?case
    using dec_more [OF dec_fuel, of bs f] by (cases "length bs = f") auto
qed

lemma dec_mono: "dec f bs \<noteq> Inl OutOfFuel \<Longrightarrow> f \<le> g \<Longrightarrow> dec g bs = dec f bs"
proof (induction g rule: nat_induct)
  case 0
  then show ?case by simp
next
  case (Suc g)
  show ?case
  proof (cases "f = Suc g")
    case True
    then show ?thesis by simp
  next
    case False
    with Suc have "dec g bs = dec f bs" by simp
    with Suc.prems(1) dec_more [of g bs] show ?thesis by simp
  qed
qed

lemma dec_top:
  assumes "dec f bs \<noteq> Inl OutOfFuel"
  shows "dec (Suc (length bs)) bs = dec f bs"
proof (cases "f \<le> Suc (length bs)")
  case True
  with assms show ?thesis by (rule dec_mono)
next
  case False
  then show ?thesis by (intro dec_any_fuel [symmetric]) simp
qed

end

text \<open>The decoders of the binary formats read a token and go on by its value; \<open>f\<close> bounds how deep
  the values nest.\<close>

locale token_decoder =
  fixes dec :: "nat \<Rightarrow> 'a list \<Rightarrow> ('w \<times> 'a list) codec"
    and tok :: "('a list \<Rightarrow> ('w \<times> 'a list) codec) \<Rightarrow> 'a \<Rightarrow> 'a list \<Rightarrow> ('w \<times> 'a list) codec"
    and eof :: js_exn
  assumes dec_0: "dec 0 bs = Inl OutOfFuel"
    and dec_Nil: "dec (Suc f) [] = Inl (Throws eof)"
    and dec_Cons: "dec (Suc f) (t # bs) = tok (dec f) t bs"
    and tok_consumes: "consuming d \<Longrightarrow> tok d t bs = Inr (v, r) \<Longrightarrow> length r \<le> length bs"
    and tok_fuel: "consuming d \<Longrightarrow> enough_below m d \<Longrightarrow> length bs < m \<Longrightarrow> tok d t bs \<noteq> Inl OutOfFuel"
    and tok_extended: "extended_by d d' \<Longrightarrow> extended_by (tok d t) (tok d' t)"
begin

lemma dec_consuming: "consuming (dec f)"
proof (induction f)
  case 0
  then show ?case by (simp add: consuming_def dec_0)
next
  case (Suc f)
  have "length r < length bs" if "dec (Suc f) bs = Inr (v, r)" for bs v r
    using that tok_consumes [OF Suc] by (cases bs) (auto simp: less_Suc_eq_le dec_Nil dec_Cons)
  then show ?case by (simp add: consuming_def)
qed

lemma dec_enough: "enough_below f (dec f)"
proof (induction f)
  case 0
  then show ?case by (simp add: enough_below_def)
next
  case (Suc f)
  have "dec (Suc f) bs \<noteq> Inl OutOfFuel" if "length bs < Suc f" for bs
    using that tok_fuel [OF dec_consuming Suc] by (cases bs) (auto simp: dec_Nil dec_Cons)
  then show ?case by (simp add: enough_below_def)
qed

lemma dec_extended: "extended_by (dec f) (dec (Suc f))"
proof (induction f)
  case 0
  then show ?case by (simp add: extended_by_def dec_0)
next
  case (Suc f)
  have "dec (Suc (Suc f)) bs = dec (Suc f) bs" if "dec (Suc f) bs \<noteq> Inl OutOfFuel" for bs
    using that extended_byD [OF tok_extended [OF Suc]]
    by (cases bs) (simp_all only: dec_Nil dec_Cons)
  then show ?case by (simp add: extended_by_def)
qed

end

sublocale token_decoder \<subseteq> bounded_decoder dec
proof
  show "dec f bs = Inr (v, r) \<Longrightarrow> length r < length bs" for f bs v r
    by (rule consumingD [OF dec_consuming])
  show "length bs < f \<Longrightarrow> dec f bs \<noteq> Inl OutOfFuel" for f bs
    by (rule enough_belowD [OF dec_enough])
  show "dec f bs \<noteq> Inl OutOfFuel \<Longrightarrow> dec (Suc f) bs = dec f bs" for f bs
    by (rule extended_byD [OF dec_extended])
qed

end
