(* ===== verification/MessagePack.thy ===== *)
theory MessagePack
  imports ByteCodec
begin

section \<open>The MessagePack codec\<close>

text \<open>
  packages/core/src/serialization/msgpack.ts: MessagePackEncoder as a function from values to
  bytes (the list of chunks is their concatenation), MessagePackDecoder as a function from the
  bytes that are left to a value and the bytes after it. The lemmas show the round trip of every
  value the format carries, except arrays of at most 15 items: their header is taken for the
  header of a map.
\<close>

definition FORMAT_NIL :: byte where "FORMAT_NIL = 0xc0"
definition FORMAT_FALSE :: byte where "FORMAT_FALSE = 0xc2"
definition FORMAT_TRUE :: byte where "FORMAT_TRUE = 0xc3"
definition FORMAT_FLOAT32 :: byte where "FORMAT_FLOAT32 = 0xca"
definition FORMAT_FLOAT64 :: byte where "FORMAT_FLOAT64 = 0xcb"
definition FORMAT_UINT8 :: byte where "FORMAT_UINT8 = 0xcc"
definition FORMAT_UINT16 :: byte where "FORMAT_UINT16 = 0xcd"
definition FORMAT_UINT32 :: byte where "FORMAT_UINT32 = 0xce"
definition FORMAT_UINT64 :: byte where "FORMAT_UINT64 = 0xcf"
definition FORMAT_INT8 :: byte where "FORMAT_INT8 = 0xd0"
definition FORMAT_INT16 :: byte where "FORMAT_INT16 = 0xd1"
definition FORMAT_INT32 :: byte where "FORMAT_INT32 = 0xd2"
definition FORMAT_INT64 :: byte where "FORMAT_INT64 = 0xd3"
definition FORMAT_STR8 :: byte where "FORMAT_STR8 = 0xd9"
definition FORMAT_STR16 :: byte where "FORMAT_STR16 = 0xda"
definition FORMAT_STR32 :: byte where "FORMAT_STR32 = 0xdb"
definition FORMAT_BIN8 :: byte where "FORMAT_BIN8 = 0xc4"
definition FORMAT_BIN16 :: byte where "FORMAT_BIN16 = 0xc5"
definition FORMAT_BIN32 :: byte where "FORMAT_BIN32 = 0xc6"
definition FORMAT_ARRAY16 :: byte where "FORMAT_ARRAY16 = 0xdc"
definition FORMAT_ARRAY32 :: byte where "FORMAT_ARRAY32 = 0xdd"
definition FORMAT_MAP16 :: byte where "FORMAT_MAP16 = 0xde"
definition FORMAT_MAP32 :: byte where "FORMAT_MAP32 = 0xdf"

lemmas formats =
  FORMAT_NIL_def FORMAT_FALSE_def FORMAT_TRUE_def FORMAT_FLOAT32_def FORMAT_FLOAT64_def
  FORMAT_UINT8_def FORMAT_UINT16_def FORMAT_UINT32_def FORMAT_UINT64_def
  FORMAT_INT8_def FORMAT_INT16_def FORMAT_INT32_def FORMAT_INT64_def
  FORMAT_STR8_def FORMAT_STR16_def FORMAT_STR32_def FORMAT_BIN8_def FORMAT_BIN16_def
  FORMAT_BIN32_def FORMAT_ARRAY16_def FORMAT_ARRAY32_def FORMAT_MAP16_def FORMAT_MAP32_def

subsection \<open>The encoder\<close>

text \<open>A format byte and a length or number of \<open>k\<close> bytes behind it.\<close>

definition format_be :: "byte \<Rightarrow> nat \<Rightarrow> int \<Rightarrow> bytes codec" where
  "format_be fmt k x = and_then (write_be k x) (\<lambda>bs. Inr (fmt # bs))"

definition format_signed :: "byte \<Rightarrow> nat \<Rightarrow> int \<Rightarrow> bytes codec" where
  "format_signed fmt k x = and_then (write_signed_be k x) (\<lambda>bs. Inr (fmt # bs))"

definition mp_encode_integer :: "int \<Rightarrow> bytes codec" where
  "mp_encode_integer value =
     (if 0 \<le> value \<and> value \<le> 0x7f then Inr [word_of_int value]
      else if value < 0 \<and> -32 \<le> value then Inr [word_of_int value AND 0xff]
      else if 0 \<le> value \<and> value \<le> 0xff then Inr [FORMAT_UINT8, word_of_int value]
      else if 0 \<le> value \<and> value \<le> 0xffff then format_be FORMAT_UINT16 2 value
      else if 0 \<le> value \<and> value \<le> 0xffffffff then format_be FORMAT_UINT32 4 value
      else if 0 \<le> value then format_be FORMAT_UINT64 8 value
      else if -128 \<le> value then Inr [FORMAT_INT8, word_of_int value AND 0xff]
      else if -32768 \<le> value then format_signed FORMAT_INT16 2 value
      else if -2147483648 \<le> value then format_signed FORMAT_INT32 4 value
      else format_signed FORMAT_INT64 8 value)"

definition mp_encodeString :: "js_text \<Rightarrow> bytes codec" where
  "mp_encodeString value =
     (let bs = to_utf8 value; len = length bs
      in and_then
           (if len \<le> 31 then Inr [0xa0 OR word_of_nat len]
            else if len \<le> 0xff then Inr [FORMAT_STR8, word_of_nat len]
            else if len \<le> 0xffff then format_be FORMAT_STR16 2 (int len)
            else format_be FORMAT_STR32 4 (int len))
           (\<lambda>header. Inr (header @ bs)))"

definition mp_encodeBinary :: "bytes \<Rightarrow> bytes codec" where
  "mp_encodeBinary value =
     (let len = length value
      in and_then
           (if len \<le> 0xff then Inr [FORMAT_BIN8, word_of_nat len]
            else if len \<le> 0xffff then format_be FORMAT_BIN16 2 (int len)
            else format_be FORMAT_BIN32 4 (int len))
           (\<lambda>header. Inr (header @ value)))"

definition mp_array_header :: "nat \<Rightarrow> bytes codec" where
  "mp_array_header len =
     (if len \<le> 15 then Inr [0x90 OR word_of_nat len]
      else if len \<le> 0xffff then format_be FORMAT_ARRAY16 2 (int len)
      else format_be FORMAT_ARRAY32 4 (int len))"

definition mp_map_header :: "nat \<Rightarrow> bytes codec" where
  "mp_map_header len =
     (if len \<le> 15 then Inr [0x80 OR word_of_nat len]
      else if len \<le> 0xffff then format_be FORMAT_MAP16 2 (int len)
      else format_be FORMAT_MAP32 4 (int len))"

text \<open>A bigint, a symbol or a function matches no branch and adds no bytes; -0 is an integer
  and is written as the byte 0.\<close>

fun mp_encode :: "js_value \<Rightarrow> bytes codec" where
  "mp_encode VNull = Inr [FORMAT_NIL]"
| "mp_encode VUndefined = Inr [FORMAT_NIL]"
| "mp_encode (VBool b) = Inr [if b then FORMAT_TRUE else FORMAT_FALSE]"
| "mp_encode (VNumber (NumInt n)) = mp_encode_integer n"
| "mp_encode (VNumber (NumBits w)) =
     (if w = minus_zero then Inr [0] else Inr (FORMAT_FLOAT64 # put_be 8 (unat w)))"
| "mp_encode (VString s) = mp_encodeString s"
| "mp_encode (VBuffer b) = mp_encodeBinary b"
| "mp_encode (VUint8Array b) = mp_encodeBinary b"
| "mp_encode (VArray vs) =
     and_then (mp_array_header (length vs)) (\<lambda>h.
     and_then (enc_all mp_encode vs) (\<lambda>bs. Inr (h @ bs)))"
| "mp_encode (VObject es) =
     and_then (mp_map_header (length es)) (\<lambda>h.
     and_then (enc_all (\<lambda>(k, v). and_then (mp_encodeString k) (\<lambda>kb.
                                  and_then (mp_encode v) (\<lambda>vb. Inr (kb @ vb)))) es)
       (\<lambda>bs. Inr (h @ bs)))"
| "mp_encode VOther = Inr []"

definition encodeMessagePack :: "js_value \<Rightarrow> bytes codec" where
  "encodeMessagePack value = mp_encode value"

subsection \<open>The decoder\<close>

definition hex_digit :: "nat \<Rightarrow> char" where
  "hex_digit n = (if n < 10 then char_of (48 + n) else char_of (87 + n))"

definition mp_readString :: "bytes \<Rightarrow> nat \<Rightarrow> js_value \<times> bytes" where
  "mp_readString bs len = (VString (from_utf8 (take len bs)), drop len bs)"

definition mp_readBytes :: "bytes \<Rightarrow> nat \<Rightarrow> js_value \<times> bytes" where
  "mp_readBytes bs len = (VBuffer (take len bs), drop len bs)"

definition mp_readArray ::
    "(bytes \<Rightarrow> (js_value \<times> bytes) codec) \<Rightarrow> bytes \<Rightarrow> nat \<Rightarrow> (js_value \<times> bytes) codec" where
  "mp_readArray decodeInternal bs len =
     and_then (read_items decodeInternal len bs) (\<lambda>(vs, rest). Inr (VArray vs, rest))"

definition mp_readMap ::
    "(bytes \<Rightarrow> (js_value \<times> bytes) codec) \<Rightarrow> bytes \<Rightarrow> nat \<Rightarrow> (js_value \<times> bytes) codec" where
  "mp_readMap decodeInternal bs len =
     and_then (read_entries decodeInternal len bs)
       (\<lambda>(es, rest). Inr (VObject (build_object es), rest))"

definition unsigned_result :: "nat \<times> bytes \<Rightarrow> (js_value \<times> bytes) codec" where
  "unsigned_result r = Inr (VNumber (NumInt (js_round (int (fst r)))), snd r)"

definition signed_result :: "nat \<Rightarrow> nat \<times> bytes \<Rightarrow> (js_value \<times> bytes) codec" where
  "signed_result w r = Inr (VNumber (NumInt (js_round (to_signed w (fst r)))), snd r)"

text \<open>decodeInternal after the token has been read, in the order of its tests; \<open>dec\<close> decodes the
  items of an array or a map.\<close>

definition mp_decode_token ::
    "(bytes \<Rightarrow> (js_value \<times> bytes) codec) \<Rightarrow> byte \<Rightarrow> bytes \<Rightarrow> (js_value \<times> bytes) codec" where
  "mp_decode_token dec token bs =
     (if token = FORMAT_NIL then Inr (VNull, bs)
      else if token = FORMAT_FALSE then Inr (VBool False, bs)
      else if token = FORMAT_TRUE then Inr (VBool True, bs)
      else if token = FORMAT_FLOAT64 then
        and_then (read_be 8 bs) (\<lambda>(b, r). Inr (VNumber (number_of_bits (word_of_nat b)), r))
      else if token = FORMAT_FLOAT32 then
        and_then (read_be 4 bs) (\<lambda>(b, r). Inr (VNumber (number_of_bits (widen_single b)), r))
      else if 0xe0 \<le> token then Inr (VNumber (NumInt (int (unat token) - 256)), bs)
      else if token \<le> 0x7f then Inr (VNumber (NumInt (int (unat token))), bs)
      else if token AND 0xe0 = 0xa0 then Inr (mp_readString bs (unat (token AND 0x1f)))
      else if token AND 0xe0 = 0x80 then mp_readMap dec bs (unat (token AND 0x0f))
      else if token AND 0xe0 = 0x90 then mp_readArray dec bs (unat (token AND 0x0f))
      else if token = FORMAT_UINT8 then and_then (read_be 1 bs) unsigned_result
      else if token = FORMAT_UINT16 then and_then (read_be 2 bs) unsigned_result
      else if token = FORMAT_UINT32 then and_then (read_be 4 bs) unsigned_result
      else if token = FORMAT_UINT64 then and_then (read_be 8 bs) unsigned_result
      else if token = FORMAT_INT8 then and_then (read_be 1 bs) (signed_result 8)
      else if token = FORMAT_INT16 then and_then (read_be 2 bs) (signed_result 16)
      else if token = FORMAT_INT32 then and_then (read_be 4 bs) (signed_result 32)
      else if token = FORMAT_INT64 then and_then (read_be 8 bs) (signed_result 64)
      else if token = FORMAT_STR8 then and_then (read_be 1 bs) (\<lambda>(len, r). Inr (mp_readString r len))
      else if token = FORMAT_STR16 then and_then (read_be 2 bs) (\<lambda>(len, r). Inr (mp_readString r len))
      else if token = FORMAT_STR32 then and_then (read_be 4 bs) (\<lambda>(len, r). Inr (mp_readString r len))
      else if token = FORMAT_BIN8 then and_then (read_be 1 bs) (\<lambda>(len, r). Inr (mp_readBytes r len))
      else if token = FORMAT_BIN16 then and_then (read_be 2 bs) (\<lambda>(len, r). Inr (mp_readBytes r len))
      else if token = FORMAT_BIN32 then and_then (read_be 4 bs) (\<lambda>(len, r). Inr (mp_readBytes r len))
      else if token = FORMAT_ARRAY16 then and_then (read_be 2 bs) (\<lambda>(len, r). mp_readArray dec r len)
      else if token = FORMAT_ARRAY32 then and_then (read_be 4 bs) (\<lambda>(len, r). mp_readArray dec r len)
      else if token = FORMAT_MAP16 then and_then (read_be 2 bs) (\<lambda>(len, r). mp_readMap dec r len)
      else if token = FORMAT_MAP32 then and_then (read_be 4 bs) (\<lambda>(len, r). mp_readMap dec r len)
      else Inl (Throws (JsError (''Unknown MessagePack format: 0x'' @
             [hex_digit (unat token div 16), hex_digit (unat token mod 16)]))))"

fun mp_decode :: "nat \<Rightarrow> bytes \<Rightarrow> (js_value \<times> bytes) codec" where
  "mp_decode 0 bs = Inl OutOfFuel"
| "mp_decode (Suc f) [] = Inl (Throws (JsError ''Unexpected end of MessagePack data''))"
| "mp_decode (Suc f) (token # bs) = mp_decode_token (mp_decode f) token bs"

text \<open>The recursion never goes deeper than the buffer is long; bytes after the value are
  ignored.\<close>

definition decodeMessagePack :: "bytes \<Rightarrow> js_value codec" where
  "decodeMessagePack buffer =
     and_then (mp_decode (Suc (length buffer)) buffer) (\<lambda>(v, rest). Inr v)"

subsection \<open>The decoder always answers\<close>

lemma readArray_consumes:
  "consuming d \<Longrightarrow> mp_readArray d bs n = Inr (v, r) \<Longrightarrow> length r \<le> length bs"
  using read_items_consumes by (fastforce simp: mp_readArray_def and_then_Inr)

lemma readMap_consumes:
  "consuming d \<Longrightarrow> mp_readMap d bs n = Inr (v, r) \<Longrightarrow> length r \<le> length bs"
  using read_entries_consumes by (fastforce simp: mp_readMap_def and_then_Inr)

lemma token_consumes:
  assumes d: "consuming d" and "mp_decode_token d t bs = Inr (v, r)"
  shows "length r \<le> length bs"
  using assms(2)
  unfolding mp_decode_token_def mp_readString_def mp_readBytes_def unsigned_result_def signed_result_def
  by (auto simp: and_then_Inr dest!: read_be_length readArray_consumes [OF d] readMap_consumes [OF d]
      split: if_split_asm)

lemma token_fuel:
  assumes d: "consuming d" "enough_below m d" and bs: "length bs < m"
  shows "mp_decode_token d t bs \<noteq> Inl OutOfFuel"
proof -
  have k: "read_be k b \<noteq> Inl OutOfFuel" for k b by (simp add: read_be_def)
  have a: "mp_readArray d b n \<noteq> Inl OutOfFuel" "mp_readMap d b n \<noteq> Inl OutOfFuel"
    if "length b < m" for b n
    using read_items_fuel [OF d that] read_entries_fuel [OF d that]
    by (auto simp: mp_readArray_def mp_readMap_def and_then_Inl)
  have l: "length x < m" if "read_be k bs = Inr (y, x)" for k x y
    using read_be_length [OF that] bs by simp
  show ?thesis
    unfolding mp_decode_token_def
    using k a [OF bs] a [OF l]
    by (auto simp: and_then_Inl unsigned_result_def signed_result_def split: if_split_asm)
qed

lemma token_extended:
  assumes "extended_by d d'"
  shows "extended_by (mp_decode_token d t) (mp_decode_token d' t)"
proof -
  have a: "extended_by (\<lambda>b. mp_readArray d b n) (\<lambda>b. mp_readArray d' b n)" for n
    unfolding extended_by_def mp_readArray_def
    using read_items_mono [OF assms, of n] by (auto simp: and_then_Inl)
  have m: "extended_by (\<lambda>b. mp_readMap d b n) (\<lambda>b. mp_readMap d' b n)" for n
    unfolding extended_by_def mp_readMap_def
    using read_entries_mono [OF assms, of n] by (auto simp: and_then_Inl)
  show ?thesis
    unfolding mp_decode_token_def
    by (intro extended_if extended_refl a m extended_and_then extended_pair)
qed

interpretation mp: token_decoder mp_decode mp_decode_token
    "JsError ''Unexpected end of MessagePack data''"
  by unfold_locales
    (auto intro: token_consumes dest: token_fuel intro!: token_extended)

subsection \<open>Single tokens\<close>

lemma token_positive:
  "t \<le> 0x7f \<Longrightarrow> mp_decode_token d t bs = Inr (VNumber (NumInt (int (unat t))), bs)"
  by (auto simp: mp_decode_token_def formats dest: order_trans)

lemma token_negative:
  "0xe0 \<le> t \<Longrightarrow> mp_decode_token d t bs = Inr (VNumber (NumInt (int (unat t) - 256)), bs)"
  by (auto simp: mp_decode_token_def formats)

lemma mp_integer_roundtrip:
  assumes "js_round n = n" "mp_encode_integer n = Inr bs"
  shows "mp_decode (Suc f) (bs @ rest) = Inr (VNumber (NumInt n), rest)"
proof -
  consider "0 \<le> n" "n \<le> 0x7f" | "n < 0" "-32 \<le> n" | "0x7f < n" "n \<le> 0xff" | "0xff < n" "n \<le> 0xffff"
    | "0xffff < n" "n \<le> 0xffffffff" | "0xffffffff < n" | "n < -32" "-128 \<le> n" | "n < -128" "-32768 \<le> n"
    | "n < -32768" "-2147483648 \<le> n" | "n < -2147483648"
    by linarith
  then show ?thesis
  proof cases
    case 1
    then have "bs = [word_of_int n]" using assms by (simp add: mp_encode_integer_def)
    moreover have "(word_of_int n :: byte) \<le> 0x7f" using 1 by (simp add: byte_le)
    ultimately show ?thesis using 1 by (simp add: token_positive)
  next
    case 2
    then have "bs = [word_of_int n]" using assms by (simp add: mp_encode_integer_def)
    moreover have m: "n mod 256 = n + 256"
      using 2 mod_pos_pos_trivial [of "n + 256" 256] by simp
    moreover have "(0xe0 :: byte) \<le> word_of_int n" using 2 by (simp add: byte_le m)
    ultimately show ?thesis using 2 by (simp add: token_negative)
  next
    case 3
    with assms show ?thesis
      by (auto simp: mp_encode_integer_def mp_decode_token_def formats unsigned_result_def)
  next
    case 7
    then have m: "n mod 256 = n + 256"
      using mod_pos_pos_trivial [of "n + 256" 256] by simp
    with 7 assms show ?thesis
      by (auto simp: mp_encode_integer_def mp_decode_token_def formats signed_result_def to_signed_def)
  qed (use assms in \<open>auto simp: mp_encode_integer_def format_be_def format_signed_def and_then_Inr
        write_be_def write_signed_be_def mp_decode_token_def formats unsigned_result_def
        signed_result_def split: if_splits\<close>)
qed


subsection \<open>The round trip\<close>

lemma small_headers:
  "\<forall>n \<in> set [0..<32]. let t = 0xa0 OR word_of_nat n :: byte in
     \<not> 0xe0 \<le> t \<and> \<not> t \<le> 0x7f \<and> t AND 0xe0 = 0xa0 \<and> unat (t AND 0x1f) = n"
  "\<forall>n \<in> set [0..<16]. let t = 0x80 OR word_of_nat n :: byte in
     \<not> 0xe0 \<le> t \<and> \<not> t \<le> 0x7f \<and> t AND 0xe0 = 0x80 \<and> unat (t AND 0x0f) = n"
  "\<forall>n \<in> set [0..<16]. let t = 0x90 OR word_of_nat n :: byte in
     \<not> 0xe0 \<le> t \<and> \<not> t \<le> 0x7f \<and> t AND 0xe0 = 0x80 \<and> unat (t AND 0x0f) = n"
  by code_simp+

text \<open>The tokens of short strings, maps and arrays: bit 4 is not under the mask 0xe0, so the
  header of a short array is read as the header of a map.\<close>

lemma token_fixstr:
  "n < 32 \<Longrightarrow> mp_decode_token d (0xa0 OR word_of_nat n) bs = Inr (mp_readString bs n)"
  using bspec [OF small_headers(1), of n] by (auto simp: mp_decode_token_def formats Let_def)

lemma token_fixmap:
  "n < 16 \<Longrightarrow> mp_decode_token d (0x80 OR word_of_nat n) bs = mp_readMap d bs n"
  using bspec [OF small_headers(2), of n] by (auto simp: mp_decode_token_def formats Let_def)

lemma token_fixarray:
  "n < 16 \<Longrightarrow> mp_decode_token d (0x90 OR word_of_nat n) bs = mp_readMap d bs n"
  using bspec [OF small_headers(3), of n] by (auto simp: mp_decode_token_def formats Let_def)
lemma mp_string_roundtrip:
  assumes "mp_encodeString s = Inr bs"
  shows "mp_decode (Suc f) (bs @ rest) = Inr (VString (from_utf8 (to_utf8 s)), rest)"
proof (cases "length (to_utf8 s) \<le> 31")
  case True
  with assms have "bs = (0xa0 OR word_of_nat (length (to_utf8 s))) # to_utf8 s"
    by (simp add: mp_encodeString_def Let_def)
  with True show ?thesis by (simp add: token_fixstr mp_readString_def)
next
  case False
  with assms show ?thesis
    by (auto simp: mp_encodeString_def Let_def format_be_def and_then_Inr write_be_def
        mp_decode_token_def formats mp_readString_def split: if_splits)
qed

lemma mp_binary_roundtrip:
  assumes "mp_encodeBinary b = Inr bs"
  shows "mp_decode (Suc f) (bs @ rest) = Inr (VBuffer b, rest)"
  using assms
  by (auto simp: mp_encodeBinary_def Let_def format_be_def and_then_Inr write_be_def
      mp_decode_token_def formats mp_readBytes_def split: if_splits)

lemma mp_array_header_read:
  assumes "mp_array_header n = Inr h" "16 \<le> n"
  shows "mp_decode (Suc f) (h @ bs) = mp_readArray (mp_decode f) bs n"
  using assms
  by (auto simp: mp_array_header_def format_be_def and_then_Inr write_be_def
      mp_decode_token_def formats split: if_splits)

lemma mp_map_header_read:
  assumes "mp_map_header n = Inr h"
  shows "mp_decode (Suc f) (h @ bs) = mp_readMap (mp_decode f) bs n"
proof (cases "n \<le> 15")
  case True
  with assms show ?thesis by (auto simp: mp_map_header_def token_fixmap)
next
  case False
  with assms show ?thesis
    by (auto simp: mp_map_header_def format_be_def and_then_Inr write_be_def
        mp_decode_token_def formats split: if_splits)
qed

text \<open>What decoding gives for an encoded value: undefined has become null, a Uint8Array a
  Buffer, -0 the number 0.\<close>

fun mp_image :: "js_value \<Rightarrow> js_value" where
  "mp_image VUndefined = VNull"
| "mp_image (VNumber (NumBits w)) = VNumber (if w = minus_zero then NumInt 0 else NumBits w)"
| "mp_image (VUint8Array b) = VBuffer b"
| "mp_image (VArray vs) = VArray (map mp_image vs)"
| "mp_image (VObject es) = VObject (map (\<lambda>(k, v). (k, mp_image v)) es)"
| "mp_image v = v"

text \<open>The values that come back: text without lone surrogates, arrays of 16 items or more.\<close>

fun mp_good :: "js_value \<Rightarrow> bool" where
  "mp_good (VNumber n) = is_number n"
| "mp_good (VString s) = well_formed_text s"
| "mp_good (VArray vs) = (16 \<le> length vs \<and> (\<forall>v \<in> set vs. mp_good v))"
| "mp_good (VObject es) =
     (object_entries es \<and>
      (\<forall>(k, v) \<in> set es. well_formed_text k \<and> k \<noteq> units ''__proto__'' \<and> mp_good v))"
| "mp_good VOther = False"
| "mp_good v = True"

lemma mp_header_nonempty:
  "mp_array_header n = Inr h \<Longrightarrow> h \<noteq> []" "mp_map_header n = Inr h \<Longrightarrow> h \<noteq> []"
  by (auto simp: mp_array_header_def mp_map_header_def format_be_def and_then_Inr split: if_splits)

lemma mp_string_nonempty: "mp_encodeString s = Inr bs \<Longrightarrow> bs \<noteq> []"
  by (auto simp: mp_encodeString_def Let_def format_be_def and_then_Inr split: if_splits)

lemma mp_integer_nonempty: "mp_encode_integer n = Inr bs \<Longrightarrow> bs \<noteq> []"
  by (auto simp: mp_encode_integer_def format_be_def format_signed_def and_then_Inr split: if_splits)

lemma mp_encode_nonempty: "mp_good v \<Longrightarrow> mp_encode v = Inr bs \<Longrightarrow> bs \<noteq> []"
  by (cases v rule: mp_encode.cases)
    (auto simp: and_then_Inr mp_integer_nonempty mp_string_nonempty
      mp_encodeBinary_def Let_def format_be_def dest: mp_header_nonempty split: if_splits)

lemma mp_number_roundtrip:
  assumes "is_number n" "mp_encode (VNumber n) = Inr bs"
  shows "mp_decode (Suc f) (bs @ rest) = Inr (mp_image (VNumber n), rest)"
proof (cases n)
  case (NumInt i)
  with assms mp_integer_roundtrip show ?thesis by simp
next
  case (NumBits w)
  show ?thesis
  proof (cases "w = minus_zero")
    case True
    with NumBits assms have "bs = [0]" by simp
    with True NumBits show ?thesis by (simp add: token_positive)
  next
    case False
    have "unat w < 2 ^ LENGTH(64)" by (rule unsigned_less)
    then have "unat w < 256 ^ 8" by simp
    with False NumBits assms show ?thesis
      by (auto simp: mp_decode_token_def formats)
  qed
qed

lemma mp_roundtrip:
  "mp_good v \<Longrightarrow> mp_encode v = Inr bs \<Longrightarrow> length bs \<le> f \<Longrightarrow>
   mp_decode f (bs @ rest) = Inr (mp_image v, rest)"
proof (induction v arbitrary: bs f rest)
  case (VArray vs)
  then obtain h b where h: "mp_array_header (length vs) = Inr h" "enc_all mp_encode vs = Inr b"
    and bs: "bs = h @ b" by (auto simp: and_then_Inr)
  with VArray.prems(3) mp_header_nonempty(1) [OF h(1)] obtain g where f: "f = Suc g" "length b \<le> g"
    by (cases f; cases h) auto
  have "read_items (mp_decode g) (length vs) (b @ rest) = Inr (map mp_image vs, rest)"
  proof (rule read_items_enc_all [OF _ h(2)])
    fix v c r
    assume v: "v \<in> set vs" "mp_encode v = Inr c"
    then have "length c \<le> g" using enc_all_part [OF h(2)] f(2) by (meson order_trans)
    with v VArray show "mp_decode g (c @ r) = Inr (mp_image v, r)" by simp
  qed
  with VArray.prems(1) h(1) show ?case
    by (simp add: bs f mp_array_header_read mp_readArray_def del: mp_decode.simps)
next
  case (VObject es)
  then obtain h b where h: "mp_map_header (length es) = Inr h"
    and b: "enc_all (\<lambda>(k, v). and_then (mp_encodeString k) (\<lambda>kb.
              and_then (mp_encode v) (\<lambda>vb. Inr (kb @ vb)))) es = Inr b"
    and bs: "bs = h @ b" by (auto simp: and_then_Inr)
  with VObject.prems(3) mp_header_nonempty(2) [OF h] obtain g where f: "f = Suc g" "length b \<le> g"
    by (cases f; cases h) auto
  have "read_entries (mp_decode g) (length es) (b @ rest) =
      Inr (map (\<lambda>(k, v). (k, mp_image v)) es, rest)"
  proof (rule read_entries_enc_all [OF _ _ b])
    fix k v c
    assume kv: "(k, v) \<in> set es" and c: "(case (k, v) of (k, v) \<Rightarrow> and_then (mp_encodeString k)
      (\<lambda>kb. and_then (mp_encode v) (\<lambda>vb. Inr (kb @ vb)))) = Inr c"
    then obtain x y where xy: "mp_encodeString k = Inr x" "mp_encode v = Inr y" "c = x @ y"
      by (auto simp: and_then_Inr)
    have "length c \<le> g" using enc_all_part [OF b kv c] f(2) by simp
    moreover have good: "well_formed_text k" "mp_good v" using VObject.prems(1) kv by auto
    moreover have "mp_decode g (x @ r) = Inr (VString k, r)" for r
      using mp_string_roundtrip [OF xy(1), of "g - 1"] good(1) mp_string_nonempty [OF xy(1)]
        \<open>length c \<le> g\<close> xy(3) by (cases g) (simp_all add: utf8_roundtrip)
    moreover have "mp_decode g (y @ r) = Inr (mp_image v, r)" for r
      by (rule VObject.IH [OF kv]) (use good xy \<open>length c \<le> g\<close> in simp_all)
    ultimately show "\<exists>x y. c = x @ y \<and> (\<forall>r. mp_decode g (x @ r) = Inr (VString k, r)) \<and>
        (\<forall>r. mp_decode g (y @ r) = Inr (mp_image v, r))"
      using xy(3) by blast
  next
    fix k v
    assume "(k, v) \<in> set es"
    with VObject.prems(1) show "k \<noteq> units ''__proto__''" by auto
  qed
  moreover have "build_object (map (\<lambda>(k, v). (k, mp_image v)) es) = map (\<lambda>(k, v). (k, mp_image v)) es"
    using VObject.prems(1) by (simp add: build_object_map object_entries_def)
  ultimately show ?case
    using h by (simp add: bs f mp_map_header_read mp_readMap_def del: mp_decode.simps)
next
  case (VNumber n)
  with mp_encode_nonempty [OF VNumber.prems(1,2)] mp_number_roundtrip show ?case by (cases f) auto
next
  case (VString s)
  with mp_encode_nonempty [OF VString.prems(1,2)] show ?case
    by (cases f) (auto simp: mp_string_roundtrip utf8_roundtrip)
next
  case (VBuffer b)
  with mp_encode_nonempty [OF VBuffer.prems(1,2)] show ?case
    by (cases f) (auto simp: mp_binary_roundtrip)
next
  case (VUint8Array b)
  with mp_encode_nonempty [OF VUint8Array.prems(1,2)] show ?case
    by (cases f) (auto simp: mp_binary_roundtrip)
next
  case (VBool b)
  then show ?case by (cases f) (auto simp: mp_decode_token_def formats)
next
  case VNull
  then show ?case by (cases f) (auto simp: mp_decode_token_def formats)
next
  case VUndefined
  then show ?case by (cases f) (auto simp: mp_decode_token_def formats)
next
  case VOther
  then show ?case by simp
qed

interpretation mpack: self_delimiting mp_encode "\<lambda>bs. mp_decode (Suc (length bs)) bs" mp_image mp_good
  by unfold_locales (simp add: mp_roundtrip del: mp_decode.simps)

text \<open>The values the encoder accepts: 64-bit integers, lengths below 2^32.\<close>

fun mp_fits :: "js_value \<Rightarrow> bool" where
  "mp_fits (VNumber (NumInt n)) = (- (2 ^ 63) \<le> n \<and> n < 2 ^ 64)"
| "mp_fits (VString s) = (length (to_utf8 s) < 2 ^ 32)"
| "mp_fits (VBuffer b) = (length b < 2 ^ 32)"
| "mp_fits (VUint8Array b) = (length b < 2 ^ 32)"
| "mp_fits (VArray vs) = (length vs < 2 ^ 32 \<and> (\<forall>v \<in> set vs. mp_fits v))"
| "mp_fits (VObject es) =
     (length es < 2 ^ 32 \<and> (\<forall>(k, v) \<in> set es. length (to_utf8 k) < 2 ^ 32 \<and> mp_fits v))"
| "mp_fits v = True"

lemma mp_string_total: "(\<exists>bs. mp_encodeString s = Inr bs) \<longleftrightarrow> length (to_utf8 s) < 2 ^ 32"
  by (auto simp: mp_encodeString_def Let_def format_be_def write_be_def split: if_splits)

lemma mp_header_total:
  "(\<exists>h. mp_array_header n = Inr h) \<longleftrightarrow> n < 2 ^ 32" "(\<exists>h. mp_map_header n = Inr h) \<longleftrightarrow> n < 2 ^ 32"
  by (auto simp: mp_array_header_def mp_map_header_def format_be_def write_be_def split: if_splits)

lemma mp_encode_total: "mp_fits v \<longleftrightarrow> (\<exists>bs. mp_encode v = Inr bs)"
proof (induction v)
  case (VNumber n)
  show ?case
    by (cases n) (auto simp: mp_encode_integer_def format_be_def format_signed_def write_be_def
        write_signed_be_def split: if_splits)
next
  case (VString s)
  then show ?case
    by (auto simp: mp_encodeString_def Let_def format_be_def write_be_def split: if_splits)
next
  case (VBuffer b)
  then show ?case
    by (auto simp: mp_encodeBinary_def Let_def format_be_def write_be_def split: if_splits)
next
  case (VUint8Array b)
  then show ?case
    by (auto simp: mp_encodeBinary_def Let_def format_be_def write_be_def split: if_splits)
next
  case (VArray vs)
  have "(\<exists>bs. mp_encode (VArray vs) = Inr bs) \<longleftrightarrow>
      (\<exists>h. mp_array_header (length vs) = Inr h) \<and> (\<exists>b. enc_all mp_encode vs = Inr b)"
    by (auto simp: and_then_Inr)
  with VArray show ?case
    unfolding mp_header_total enc_all_total mp_fits.simps by simp
next
  case (VObject es)
  let ?e = "\<lambda>(k, v). and_then (mp_encodeString k) (\<lambda>kb. and_then (mp_encode v) (\<lambda>vb. Inr (kb @ vb)))"
  have "(\<exists>bs. mp_encode (VObject es) = Inr bs) \<longleftrightarrow>
      (\<exists>h. mp_map_header (length es) = Inr h) \<and> (\<exists>b. enc_all ?e es = Inr b)"
    by (auto simp: and_then_Inr)
  moreover have "(\<exists>b. ?e (k, v) = Inr b) \<longleftrightarrow> length (to_utf8 k) < 2 ^ 32 \<and> mp_fits v"
    if "(k, v) \<in> set es" for k v
    using VObject [OF that] by (auto simp: and_then_total mp_string_total)
  ultimately show ?case
    unfolding mp_header_total enc_all_total mp_fits.simps by fastforce
qed simp_all

lemma short_array_entries:
  assumes "\<And>v. v \<in> set vs \<Longrightarrow> mp_good v \<and> (\<exists>k. property_key (mp_image v) = Inr k)"
    and "enc_all mp_encode vs = Inr bs" "length bs \<le> f" "0 < f" "length vs < 2 * n"
  shows "read_entries (mp_decode f) n bs =
    Inl (Throws (JsError ''Unexpected end of MessagePack data''))"
  using assms
proof (induction n arbitrary: vs bs)
  case 0
  then show ?case by simp
next
  case (Suc n)
  have eof: "mp_decode f [] = Inl (Throws (JsError ''Unexpected end of MessagePack data''))"
    using Suc.prems(4) by (cases f) simp_all
  show ?case
  proof (cases vs)
    case Nil
    with Suc.prems(2) eof show ?thesis by simp
  next
    case (Cons v ws)
    then obtain a b where a: "mp_encode v = Inr a" "enc_all mp_encode ws = Inr b" "bs = a @ b"
      using Suc.prems(2) by (auto simp: and_then_Inr)
    with Suc.prems(1,3) Cons have v: "mp_decode f (a @ r) = Inr (mp_image v, r)" for r
      by (intro mp_roundtrip) auto
    obtain k where k: "property_key (mp_image v) = Inr k" using Suc.prems(1) Cons by auto
    show ?thesis
    proof (cases ws)
      case Nil
      with a v [of "[]"] eof show ?thesis by simp
    next
      case Cons2: (Cons w us)
      then obtain c d where c: "mp_encode w = Inr c" "enc_all mp_encode us = Inr d" "b = c @ d"
        using a(2) by (auto simp: and_then_Inr)
      with Suc.prems(1,3) Cons Cons2 a(3) have w: "mp_decode f (c @ r) = Inr (mp_image w, r)" for r
        by (intro mp_roundtrip) auto
      have "read_entries (mp_decode f) n d =
          Inl (Throws (JsError ''Unexpected end of MessagePack data''))"
        using Suc.prems Cons Cons2 a(3) c by (intro Suc.IH [of us]) auto
      with a(3) c(3) v w k show ?thesis by simp
    qed
  qed
qed

subsection \<open>The properties\<close>

text \<open>C35: Every value the format carries comes back: if its text has no lone surrogates, its
  arrays have 16 items or more and its integers and lengths fit, encodeMessagePack does not throw
  and decodeMessagePack returns the value, with undefined read as null, a Uint8Array as a Buffer
  and -0 as 0.\<close>

theorem messagepack_roundtrip:
  assumes "mp_good v" "mp_fits v"
  shows "\<exists>bs. encodeMessagePack v = Inr bs \<and> decodeMessagePack bs = Inr (mp_image v)"
proof -
  obtain bs where bs: "mp_encode v = Inr bs" using assms(2) mp_encode_total by blast
  then have "mp_decode (Suc (length bs)) bs = Inr (mp_image v, [])"
    using assms(1) by (intro mpack.dec_enc_alone)
  with bs show ?thesis
    by (auto simp: encodeMessagePack_def decodeMessagePack_def simp del: mp_decode.simps)
qed

theorem messagepack_roundtrip_witness:
  "\<exists>bs. encodeMessagePack (VObject [(units ''k'', VArray (replicate 16 (VNumber (NumInt (-300))))),
                                     (units ''b'', VUint8Array [1, 2])]) = Inr bs \<and>
        decodeMessagePack bs =
          Inr (VObject [(units ''k'', VArray (replicate 16 (VNumber (NumInt (-300))))),
                        (units ''b'', VBuffer [1, 2])])"
proof -
  let ?v = "VObject [(units ''k'', VArray (replicate 16 (VNumber (NumInt (-300))))),
                     (units ''b'', VUint8Array [1, 2])]"
  have s: "ascii ''k''" "ascii ''b''" by (simp_all add: ascii_def)
  have "index_key (units ''b'') = None" "index_key (units ''k'') = None"
    by (simp_all add: index_key_def units_def)
  with s have "mp_good ?v"
    by (simp add: object_entries_def build_object_def set_property_def ascii_units units_eq_iff)
  moreover have "mp_fits ?v" using s by (simp add: ascii_utf8)
  ultimately show ?thesis using messagepack_roundtrip [of ?v] by simp
qed

text \<open>An array of at most 15 items never comes back: the decoder takes its header for the header
  of a map, so the empty array becomes the empty object and decoding any other one ends in the
  error for missing data.\<close>

theorem short_arrays_lost:
  assumes "\<And>v. v \<in> set vs \<Longrightarrow> mp_good v \<and> (\<exists>k. property_key (mp_image v) = Inr k)"
    and "length vs \<le> 15" "encodeMessagePack (VArray vs) = Inr bs"
  shows "decodeMessagePack bs =
    (if vs = [] then Inr (VObject [])
     else Inl (Throws (JsError ''Unexpected end of MessagePack data'')))"
proof -
  obtain b where b: "enc_all mp_encode vs = Inr b" "bs = (0x90 OR word_of_nat (length vs)) # b"
    using assms(2,3) by (auto simp: encodeMessagePack_def mp_array_header_def and_then_Inr)
  then have *: "mp_decode (Suc (length bs)) bs = mp_readMap (mp_decode (length bs)) b (length vs)"
    using assms(2) by (simp add: token_fixarray)
  show ?thesis
  proof (cases "vs = []")
    case True
    with b * show ?thesis
      by (simp add: decodeMessagePack_def mp_readMap_def build_object_def del: mp_decode.simps)
  next
    case False
    then have "read_entries (mp_decode (length bs)) (length vs) b =
        Inl (Throws (JsError ''Unexpected end of MessagePack data''))"
      using b by (intro short_array_entries [OF assms(1)]) auto
    with * False show ?thesis
      by (simp add: decodeMessagePack_def mp_readMap_def del: mp_decode.simps)
  qed
qed

theorem short_arrays_lost_witness:
  "decodeMessagePack [0x92, 1, 0xa1, 97] =
     Inl (Throws (JsError ''Unexpected end of MessagePack data''))"
proof -
  let ?vs = "[VNumber (NumInt 1), VString (units ''a'')]"
  have "to_utf8 (units ''a'') = [97]" "well_formed_text (units ''a'')" "units ''a'' \<noteq> units ''__proto__''"
    by (simp_all add: ascii_utf8 ascii_units ascii_def units_eq_iff)
  moreover from this have "encodeMessagePack (VArray ?vs) = Inr [0x92, 1, 0xa1, 97]"
    by (simp add: encodeMessagePack_def mp_array_header_def mp_encode_integer_def mp_encodeString_def)
  moreover have "mp_good v \<and> (\<exists>k. property_key (mp_image v) = Inr k)" if "v \<in> set ?vs" for v
    using that calculation by auto
  ultimately show ?thesis using short_arrays_lost [of ?vs "[0x92, 1, 0xa1, 97]"] by simp
qed

end
