(* ===== verification/Cbor.thy ===== *)
theory Cbor
  imports ByteCodec
begin

section \<open>The CBOR codec\<close>

text \<open>
  packages/core/src/serialization/cbor.ts: CBOREncoder as a function from values to bytes,
  CBORDecoder as a function from the bytes that are left to a value and the bytes after it. The
  lemmas show the round trip of every value without fractional numbers, and what a fractional
  number turns into: its bits, read as an integer.
\<close>

definition MAJOR_TYPE_MASK :: byte where "MAJOR_TYPE_MASK = 0xe0"
definition ADDITIONAL_MASK :: byte where "ADDITIONAL_MASK = 0x1f"
definition ADDITIONAL_MAX_7BIT :: int where "ADDITIONAL_MAX_7BIT = 23"
definition MAJOR_UNSIGNED :: byte where "MAJOR_UNSIGNED = 0x00"
definition MAJOR_NEGATIVE :: byte where "MAJOR_NEGATIVE = 0x20"
definition MAJOR_BYTES :: byte where "MAJOR_BYTES = 0x40"
definition MAJOR_TEXT :: byte where "MAJOR_TEXT = 0x60"
definition MAJOR_ARRAY :: byte where "MAJOR_ARRAY = 0x80"
definition MAJOR_MAP :: byte where "MAJOR_MAP = 0xa0"
definition MAJOR_TAG :: byte where "MAJOR_TAG = 0xc0"
definition MAJOR_SIMPLE :: byte where "MAJOR_SIMPLE = 0xe0"
definition SIMPLE_FALSE :: int where "SIMPLE_FALSE = 20"
definition SIMPLE_TRUE :: int where "SIMPLE_TRUE = 21"
definition SIMPLE_NULL :: int where "SIMPLE_NULL = 22"
definition SIMPLE_UNDEFINED :: int where "SIMPLE_UNDEFINED = 23"

lemmas cbor_constants =
  MAJOR_TYPE_MASK_def ADDITIONAL_MASK_def ADDITIONAL_MAX_7BIT_def MAJOR_UNSIGNED_def
  MAJOR_NEGATIVE_def MAJOR_BYTES_def MAJOR_TEXT_def MAJOR_ARRAY_def MAJOR_MAP_def MAJOR_TAG_def
  MAJOR_SIMPLE_def SIMPLE_FALSE_def SIMPLE_TRUE_def SIMPLE_NULL_def SIMPLE_UNDEFINED_def

subsection \<open>The encoder\<close>

definition encodeHeader :: "byte \<Rightarrow> int \<Rightarrow> bytes codec" where
  "encodeHeader major additional =
     (if additional \<le> ADDITIONAL_MAX_7BIT then Inr [major OR word_of_int additional]
      else if additional \<le> 0xff then Inr [major OR 24, word_of_int additional]
      else if additional \<le> 0xffff then
        and_then (write_be 2 additional) (\<lambda>bs. Inr ((major OR 25) # bs))
      else if additional \<le> 0xffffffff then
        and_then (write_be 4 additional) (\<lambda>bs. Inr ((major OR 26) # bs))
      else and_then (write_be 8 additional) (\<lambda>bs. Inr ((major OR 27) # bs)))"

definition encodeUnsigned :: "int \<Rightarrow> bytes codec" where
  "encodeUnsigned value = encodeHeader MAJOR_UNSIGNED value"

definition encodeNegative :: "int \<Rightarrow> bytes codec" where
  "encodeNegative value = encodeHeader MAJOR_NEGATIVE (js_round (-1 - value))"

definition encodeFloat :: "64 word \<Rightarrow> bytes codec" where
  "encodeFloat value = Inr ((MAJOR_SIMPLE OR 27) # put_be 8 (unat value))"

definition encodeBytes :: "bytes \<Rightarrow> bytes codec" where
  "encodeBytes value =
     and_then (encodeHeader MAJOR_BYTES (int (length value))) (\<lambda>h. Inr (h @ value))"

definition encodeText :: "js_text \<Rightarrow> bytes codec" where
  "encodeText value =
     (let bs = to_utf8 value
      in and_then (encodeHeader MAJOR_TEXT (int (length bs))) (\<lambda>h. Inr (h @ bs)))"

definition encodeSimple :: "int \<Rightarrow> bytes codec" where
  "encodeSimple value = encodeHeader MAJOR_SIMPLE value"

text \<open>-0 is an integer that is not negative and is written as 0; a bigint, a symbol or a function
  matches no branch.\<close>

fun cbor_encode :: "js_value \<Rightarrow> bytes codec" where
  "cbor_encode VNull = encodeSimple SIMPLE_NULL"
| "cbor_encode VUndefined = encodeSimple SIMPLE_UNDEFINED"
| "cbor_encode (VBool b) = encodeSimple (if b then SIMPLE_TRUE else SIMPLE_FALSE)"
| "cbor_encode (VNumber (NumInt n)) = (if 0 \<le> n then encodeUnsigned n else encodeNegative n)"
| "cbor_encode (VNumber (NumBits w)) =
     (if w = minus_zero then encodeUnsigned 0 else encodeFloat w)"
| "cbor_encode (VString s) = encodeText s"
| "cbor_encode (VBuffer b) = encodeBytes b"
| "cbor_encode (VUint8Array b) = encodeBytes b"
| "cbor_encode (VArray vs) =
     and_then (encodeHeader MAJOR_ARRAY (int (length vs))) (\<lambda>h.
     and_then (enc_all cbor_encode vs) (\<lambda>bs. Inr (h @ bs)))"
| "cbor_encode (VObject es) =
     and_then (encodeHeader MAJOR_MAP (int (length es))) (\<lambda>h.
     and_then (enc_all (\<lambda>(k, v). and_then (encodeText k) (\<lambda>kb.
                                  and_then (cbor_encode v) (\<lambda>vb. Inr (kb @ vb)))) es)
       (\<lambda>bs. Inr (h @ bs)))"
| "cbor_encode VOther = Inr []"

definition encodeCBOR :: "js_value \<Rightarrow> bytes codec" where
  "encodeCBOR value = cbor_encode value"

subsection \<open>The decoder\<close>

definition readExtra :: "bytes \<Rightarrow> nat \<Rightarrow> (int \<times> bytes) codec" where
  "readExtra bs additional =
     (let size = 2 ^ (additional - 24)
      in and_then (read_be size bs)
           (\<lambda>(x, r). Inr (if size = 8 then js_round (int x) else int x, r)))"

definition cbor_readBytes :: "bytes \<Rightarrow> nat \<Rightarrow> js_value \<times> bytes" where
  "cbor_readBytes bs len = (VBuffer (take len bs), drop len bs)"

definition cbor_readText :: "bytes \<Rightarrow> nat \<Rightarrow> js_value \<times> bytes" where
  "cbor_readText bs len = (VString (from_utf8 (take len bs)), drop len bs)"

definition cbor_readArray ::
    "(bytes \<Rightarrow> (js_value \<times> bytes) codec) \<Rightarrow> bytes \<Rightarrow> nat \<Rightarrow> (js_value \<times> bytes) codec" where
  "cbor_readArray decodeInternal bs len =
     and_then (read_items decodeInternal len bs) (\<lambda>(vs, rest). Inr (VArray vs, rest))"

definition cbor_readMap ::
    "(bytes \<Rightarrow> (js_value \<times> bytes) codec) \<Rightarrow> bytes \<Rightarrow> nat \<Rightarrow> (js_value \<times> bytes) codec" where
  "cbor_readMap decodeInternal bs len =
     and_then (read_entries decodeInternal len bs)
       (\<lambda>(es, rest). Inr (VObject (build_object es), rest))"

definition readTag ::
    "(bytes \<Rightarrow> (js_value \<times> bytes) codec) \<Rightarrow> bytes \<Rightarrow> (js_value \<times> bytes) codec" where
  "readTag decodeInternal bs = decodeInternal bs"

definition readSimple :: "int \<Rightarrow> js_value" where
  "readSimple additional =
     (if additional = SIMPLE_FALSE then VBool False
      else if additional = SIMPLE_TRUE then VBool True
      else if additional = SIMPLE_NULL then VNull
      else if additional = SIMPLE_UNDEFINED then VUndefined
      else if 24 \<le> additional \<and> additional \<le> 27 then VUndefined
      else VNumber (NumInt additional))"

definition cbor_decode_major ::
    "(bytes \<Rightarrow> (js_value \<times> bytes) codec) \<Rightarrow> byte \<Rightarrow> int \<times> bytes \<Rightarrow> (js_value \<times> bytes) codec" where
  "cbor_decode_major dec major ar =
     (let additional = fst ar; r = snd ar
      in if major = MAJOR_UNSIGNED then Inr (VNumber (NumInt additional), r)
         else if major = MAJOR_NEGATIVE then Inr (VNumber (NumInt (js_round (-1 - additional))), r)
         else if major = MAJOR_BYTES then Inr (cbor_readBytes r (nat additional))
         else if major = MAJOR_TEXT then Inr (cbor_readText r (nat additional))
         else if major = MAJOR_ARRAY then cbor_readArray dec r (nat additional)
         else if major = MAJOR_MAP then cbor_readMap dec r (nat additional)
         else if major = MAJOR_TAG then readTag dec r
         else if major = MAJOR_SIMPLE then Inr (readSimple additional, r)
         else Inl (Throws (JsError (''Unknown major type: '' @ show_nat (unat major)))))"

definition cbor_decode_token ::
    "(bytes \<Rightarrow> (js_value \<times> bytes) codec) \<Rightarrow> byte \<Rightarrow> bytes \<Rightarrow> (js_value \<times> bytes) codec" where
  "cbor_decode_token dec first bs =
     (let major = first AND MAJOR_TYPE_MASK; additional = unat (first AND ADDITIONAL_MASK)
      in and_then
           (if 24 \<le> additional \<and> additional \<le> 27 then readExtra bs additional
            else Inr (int additional, bs))
           (cbor_decode_major dec major))"

fun cbor_decode :: "nat \<Rightarrow> bytes \<Rightarrow> (js_value \<times> bytes) codec" where
  "cbor_decode 0 bs = Inl OutOfFuel"
| "cbor_decode (Suc f) [] = Inl (Throws (JsError ''Unexpected end of CBOR data''))"
| "cbor_decode (Suc f) (first # bs) = cbor_decode_token (cbor_decode f) first bs"

definition decodeCBOR :: "bytes \<Rightarrow> js_value codec" where
  "decodeCBOR buffer =
     and_then (cbor_decode (Suc (length buffer)) buffer) (\<lambda>(v, rest). Inr v)"

subsection \<open>The decoder always answers\<close>

lemma cbor_readArray_consumes:
  "consuming d \<Longrightarrow> cbor_readArray d bs n = Inr (v, r) \<Longrightarrow> length r \<le> length bs"
  using read_items_consumes by (fastforce simp: cbor_readArray_def and_then_Inr)

lemma cbor_readMap_consumes:
  "consuming d \<Longrightarrow> cbor_readMap d bs n = Inr (v, r) \<Longrightarrow> length r \<le> length bs"
  using read_entries_consumes by (fastforce simp: cbor_readMap_def and_then_Inr)

lemma readExtra_consumes: "readExtra bs k = Inr (x, r) \<Longrightarrow> length r \<le> length bs"
  by (auto simp: readExtra_def Let_def and_then_Inr dest: read_be_length)

lemma cbor_major_consumes:
  assumes d: "consuming d" and "cbor_decode_major d major (a, bs) = Inr (v, r)"
  shows "length r \<le> length bs"
  using assms(2) unfolding cbor_decode_major_def Let_def
  by (auto simp: cbor_readBytes_def cbor_readText_def readTag_def
      dest!: cbor_readArray_consumes [OF d] cbor_readMap_consumes [OF d] dest: consumingD [OF d]
      split: if_split_asm)

lemma cbor_token_consumes:
  assumes d: "consuming d" and "cbor_decode_token d t bs = Inr (v, r)"
  shows "length r \<le> length bs"
  using assms(2) unfolding cbor_decode_token_def Let_def
  by (auto simp: and_then_Inr dest!: cbor_major_consumes [OF d] readExtra_consumes split: if_split_asm)

lemma cbor_major_fuel:
  assumes d: "consuming d" "enough_below m d" and bs: "length bs < m"
  shows "cbor_decode_major d major (a, bs) \<noteq> Inl OutOfFuel"
  using read_items_fuel [OF d bs] read_entries_fuel [OF d bs] enough_belowD [OF d(2) bs]
  unfolding cbor_decode_major_def Let_def
  by (auto simp: cbor_readArray_def cbor_readMap_def readTag_def and_then_Inl)

lemma cbor_token_fuel:
  assumes d: "consuming d" "enough_below m d" and bs: "length bs < m"
  shows "cbor_decode_token d t bs \<noteq> Inl OutOfFuel"
proof -
  have "readExtra bs k \<noteq> Inl OutOfFuel" for k
    by (auto simp: readExtra_def Let_def and_then_Inl read_be_def split: if_splits)
  moreover have "length r < m" if "readExtra bs k = Inr (x, r)" for k x r
    using readExtra_consumes [OF that] bs by simp
  ultimately show ?thesis
    unfolding cbor_decode_token_def Let_def
    using cbor_major_fuel [OF d] bs by (auto simp: and_then_Inl split: if_splits)
qed

lemma cbor_token_extended:
  assumes "extended_by d d'"
  shows "extended_by (cbor_decode_token d t) (cbor_decode_token d' t)"
proof -
  have "extended_by (\<lambda>b. cbor_readArray d (snd b) (nat (fst b))) (\<lambda>b. cbor_readArray d' (snd b) (nat (fst b)))"
    unfolding extended_by_def cbor_readArray_def
    using read_items_mono [OF assms] by (auto simp: and_then_Inl)
  moreover have "extended_by (\<lambda>b. cbor_readMap d (snd b) (nat (fst b))) (\<lambda>b. cbor_readMap d' (snd b) (nat (fst b)))"
    unfolding extended_by_def cbor_readMap_def
    using read_entries_mono [OF assms] by (auto simp: and_then_Inl)
  moreover have "extended_by (\<lambda>b. readTag d (snd b)) (\<lambda>b. readTag d' (snd b))"
    using assms by (simp add: extended_by_def readTag_def)
  ultimately show ?thesis
    unfolding cbor_decode_token_def cbor_decode_major_def Let_def
    by (intro extended_and_then extended_if extended_refl)
qed

interpretation cbor: token_decoder cbor_decode cbor_decode_token
    "JsError ''Unexpected end of CBOR data''"
  by unfold_locales
    (auto intro: cbor_token_consumes dest: cbor_token_fuel intro!: cbor_token_extended)

subsection \<open>The round trip\<close>

definition majors :: "byte list" where
  "majors = [MAJOR_UNSIGNED, MAJOR_NEGATIVE, MAJOR_BYTES, MAJOR_TEXT, MAJOR_ARRAY, MAJOR_MAP,
             MAJOR_TAG, MAJOR_SIMPLE]"

lemma header_bits:
  "\<forall>M \<in> set majors. \<forall>n \<in> set [0..<28]. let t = M OR word_of_nat n in
     t AND MAJOR_TYPE_MASK = M \<and> unat (t AND ADDITIONAL_MASK) = n"
  by code_simp

lemma header_token:
  assumes "M \<in> set majors" "n < 28"
  shows "(M OR word_of_nat n) AND MAJOR_TYPE_MASK = M"
    "unat ((M OR word_of_nat n) AND ADDITIONAL_MASK) = n"
  using header_bits assms by (auto simp: Let_def)

text \<open>A number of 64 bits goes through Number.\<close>

definition read_back :: "int \<Rightarrow> int" where
  "read_back a = (if a \<le> 0xffffffff then a else js_round a)"

lemma header_read:
  assumes M: "M \<in> set majors" and "encodeHeader M a = Inr h" "0 \<le> a"
  shows "cbor_decode (Suc f) (h @ rest) = cbor_decode_major (cbor_decode f) M (read_back a, rest)"
proof -
  have t: "(M OR word_of_nat n) AND MAJOR_TYPE_MASK = M"
    "unat ((M OR word_of_nat n) AND ADDITIONAL_MASK) = n" if "n < 28" for n
    using header_token [OF M that] .
  consider "a \<le> 23" | "23 < a" "a \<le> 0xff" | "0xff < a" "a \<le> 0xffff"
    | "0xffff < a" "a \<le> 0xffffffff" | "0xffffffff < a" by linarith
  then show ?thesis
  proof cases
    case 1
    obtain n where n: "a = int n" using assms(3) by (rule nonneg_int_cases)
    with 1 assms(2) have "h = [M OR word_of_nat n]"
      by (simp add: encodeHeader_def ADDITIONAL_MAX_7BIT_def)
    with 1 n t [of n] show ?thesis by (simp add: cbor_decode_token_def Let_def read_back_def)
  next
    case 2
    with assms(2) have "h = [M OR word_of_nat 24, word_of_int a]"
      by (simp add: encodeHeader_def ADDITIONAL_MAX_7BIT_def)
    with 2 t [of 24] show ?thesis
      by (simp add: cbor_decode_token_def Let_def readExtra_def read_back_def)
  next
    case 3
    with assms(2) have "h = (M OR word_of_nat 25) # put_be 2 (nat a)"
      by (simp add: encodeHeader_def ADDITIONAL_MAX_7BIT_def write_be_def)
    with 3 t [of 25] show ?thesis
      by (simp add: cbor_decode_token_def Let_def readExtra_def read_back_def)
  next
    case 4
    with assms(2) have "h = (M OR word_of_nat 26) # put_be 4 (nat a)"
      by (simp add: encodeHeader_def ADDITIONAL_MAX_7BIT_def write_be_def)
    with 4 t [of 26] show ?thesis
      by (simp add: cbor_decode_token_def Let_def readExtra_def read_back_def)
  next
    case 5
    with assms(2) have "h = (M OR word_of_nat 27) # put_be 8 (nat a)" "a < 2 ^ 64"
      by (auto simp: encodeHeader_def ADDITIONAL_MAX_7BIT_def write_be_def split: if_splits)
    with 5 t [of 27] show ?thesis
      by (simp add: cbor_decode_token_def Let_def readExtra_def read_back_def)
  qed
qed

lemma major_simps [simp]:
  "cbor_decode_major d MAJOR_UNSIGNED (a, r) = Inr (VNumber (NumInt a), r)"
  "cbor_decode_major d MAJOR_NEGATIVE (a, r) = Inr (VNumber (NumInt (js_round (-1 - a))), r)"
  "cbor_decode_major d MAJOR_BYTES (a, r) = Inr (cbor_readBytes r (nat a))"
  "cbor_decode_major d MAJOR_TEXT (a, r) = Inr (cbor_readText r (nat a))"
  "cbor_decode_major d MAJOR_ARRAY (a, r) = cbor_readArray d r (nat a)"
  "cbor_decode_major d MAJOR_MAP (a, r) = cbor_readMap d r (nat a)"
  "cbor_decode_major d MAJOR_TAG (a, r) = readTag d r"
  "cbor_decode_major d MAJOR_SIMPLE (a, r) = Inr (readSimple a, r)"
  by (simp_all add: cbor_decode_major_def cbor_constants)

lemma major_in_majors [simp]:
  "MAJOR_UNSIGNED \<in> set majors" "MAJOR_NEGATIVE \<in> set majors" "MAJOR_BYTES \<in> set majors"
  "MAJOR_TEXT \<in> set majors" "MAJOR_ARRAY \<in> set majors" "MAJOR_MAP \<in> set majors"
  "MAJOR_TAG \<in> set majors" "MAJOR_SIMPLE \<in> set majors"
  by (simp_all add: majors_def)

lemma read_back_exact [simp]: "js_round a = a \<Longrightarrow> read_back a = a"
  by (simp add: read_back_def)

lemma header_total: "(\<exists>h. encodeHeader M a = Inr h) \<longleftrightarrow> a < 2 ^ 64"
  by (auto simp: encodeHeader_def ADDITIONAL_MAX_7BIT_def write_be_def split: if_splits)

lemma header_nonempty: "encodeHeader M a = Inr h \<Longrightarrow> h \<noteq> []"
  by (auto simp: encodeHeader_def and_then_Inr split: if_splits)

text \<open>What decoding gives for an encoded value: a Uint8Array has become a Buffer, -0 the
  number 0.\<close>

fun cbor_image :: "js_value \<Rightarrow> js_value" where
  "cbor_image (VNumber (NumBits w)) = VNumber (if w = minus_zero then NumInt 0 else NumBits w)"
| "cbor_image (VUint8Array b) = VBuffer b"
| "cbor_image (VArray vs) = VArray (map cbor_image vs)"
| "cbor_image (VObject es) = VObject (map (\<lambda>(k, v). (k, cbor_image v)) es)"
| "cbor_image v = v"

text \<open>The values that come back: integers from -2^53 up to 64 bits, no fractional numbers, text
  without lone surrogates.\<close>

fun cbor_good :: "js_value \<Rightarrow> bool" where
  "cbor_good (VNumber (NumInt n)) = (- (2 ^ 53) \<le> n \<and> n < 2 ^ 64 \<and> js_round n = n)"
| "cbor_good (VNumber (NumBits w)) = (w = minus_zero)"
| "cbor_good (VString s) = (well_formed_text s \<and> length (to_utf8 s) \<le> 2 ^ 53)"
| "cbor_good (VBuffer b) = (length b \<le> 2 ^ 53)"
| "cbor_good (VUint8Array b) = (length b \<le> 2 ^ 53)"
| "cbor_good (VArray vs) = (length vs \<le> 2 ^ 53 \<and> (\<forall>v \<in> set vs. cbor_good v))"
| "cbor_good (VObject es) =
     (length es \<le> 2 ^ 53 \<and> object_entries es \<and>
      (\<forall>(k, v) \<in> set es. well_formed_text k \<and> length (to_utf8 k) \<le> 2 ^ 53 \<and>
         k \<noteq> units ''__proto__'' \<and> cbor_good v))"
| "cbor_good VOther = False"
| "cbor_good v = True"

lemma cbor_text_roundtrip:
  assumes "encodeText s = Inr bs" "well_formed_text s" "length (to_utf8 s) \<le> 2 ^ 53"
  shows "cbor_decode (Suc f) (bs @ rest) = Inr (VString s, rest)"
proof -
  from assms(1) obtain h where h: "encodeHeader MAJOR_TEXT (int (length (to_utf8 s))) = Inr h"
    "bs = h @ to_utf8 s" by (auto simp: encodeText_def Let_def and_then_Inr)
  with assms(2,3) header_read [OF major_in_majors(4) h(1)] show ?thesis
    by (simp add: cbor_readText_def utf8_roundtrip del: cbor_decode.simps)
qed

lemma cbor_bytes_roundtrip:
  assumes "encodeBytes b = Inr bs" "length b \<le> 2 ^ 53"
  shows "cbor_decode (Suc f) (bs @ rest) = Inr (VBuffer b, rest)"
proof -
  from assms(1) obtain h where h: "encodeHeader MAJOR_BYTES (int (length b)) = Inr h" "bs = h @ b"
    by (auto simp: encodeBytes_def and_then_Inr)
  with assms(2) header_read [OF major_in_majors(3) h(1)] show ?thesis
    by (simp add: cbor_readBytes_def del: cbor_decode.simps)
qed

lemma cbor_simple_roundtrip:
  assumes "encodeSimple k = Inr bs" "0 \<le> k" "k < 24"
  shows "cbor_decode (Suc f) (bs @ rest) = Inr (readSimple k, rest)"
  using assms header_read [OF major_in_majors(8), of k bs]
  by (simp add: encodeSimple_def del: cbor_decode.simps)

lemma cbor_integer_roundtrip:
  assumes "cbor_encode (VNumber (NumInt n)) = Inr bs" "cbor_good (VNumber (NumInt n))"
  shows "cbor_decode (Suc f) (bs @ rest) = Inr (VNumber (NumInt n), rest)"
proof (cases "0 \<le> n")
  case True
  with assms header_read [OF major_in_majors(1), of n bs] show ?thesis
    by (simp add: encodeUnsigned_def del: cbor_decode.simps)
next
  case False
  then have "js_round (-1 - n) = -1 - n" using assms(2) by (intro js_round_safe) auto
  with False assms header_read [OF major_in_majors(2), of "-1 - n" bs] show ?thesis
    by (simp add: encodeNegative_def del: cbor_decode.simps)
qed

lemma cbor_text_nonempty: "encodeText s = Inr bs \<Longrightarrow> bs \<noteq> []"
  by (auto simp: encodeText_def Let_def and_then_Inr dest: header_nonempty)

lemma cbor_encode_nonempty: "cbor_good v \<Longrightarrow> cbor_encode v = Inr bs \<Longrightarrow> bs \<noteq> []"
  by (cases v rule: cbor_encode.cases)
    (auto simp: and_then_Inr encodeSimple_def encodeUnsigned_def encodeNegative_def encodeFloat_def
      encodeBytes_def cbor_text_nonempty dest: header_nonempty split: if_splits)

lemma cbor_roundtrip:
  "cbor_good v \<Longrightarrow> cbor_encode v = Inr bs \<Longrightarrow> length bs \<le> f \<Longrightarrow>
   cbor_decode f (bs @ rest) = Inr (cbor_image v, rest)"
proof (induction v arbitrary: bs f rest)
  case (VArray vs)
  then obtain h b where h: "encodeHeader MAJOR_ARRAY (int (length vs)) = Inr h"
    and b: "enc_all cbor_encode vs = Inr b" and bs: "bs = h @ b" by (auto simp: and_then_Inr)
  with VArray.prems(3) header_nonempty [OF h] obtain g where f: "f = Suc g" "length b \<le> g"
    by (cases f; cases h) auto
  have "read_items (cbor_decode g) (length vs) (b @ rest) = Inr (map cbor_image vs, rest)"
  proof (rule read_items_enc_all [OF _ b])
    fix v c r
    assume v: "v \<in> set vs" "cbor_encode v = Inr c"
    then have "length c \<le> g" using enc_all_part [OF b] f(2) by (meson order_trans)
    with v VArray show "cbor_decode g (c @ r) = Inr (cbor_image v, r)" by simp
  qed
  with VArray.prems(1) header_read [OF major_in_majors(5) h] show ?case
    by (simp add: bs f cbor_readArray_def del: cbor_decode.simps)
next
  case (VObject es)
  then obtain h b where h: "encodeHeader MAJOR_MAP (int (length es)) = Inr h"
    and b: "enc_all (\<lambda>(k, v). and_then (encodeText k) (\<lambda>kb.
              and_then (cbor_encode v) (\<lambda>vb. Inr (kb @ vb)))) es = Inr b"
    and bs: "bs = h @ b" by (auto simp: and_then_Inr)
  with VObject.prems(3) header_nonempty [OF h] obtain g where f: "f = Suc g" "length b \<le> g"
    by (cases f; cases h) auto
  have "read_entries (cbor_decode g) (length es) (b @ rest) =
      Inr (map (\<lambda>(k, v). (k, cbor_image v)) es, rest)"
  proof (rule read_entries_enc_all [OF _ _ b])
    fix k v c
    assume kv: "(k, v) \<in> set es" and c: "(case (k, v) of (k, v) \<Rightarrow> and_then (encodeText k)
      (\<lambda>kb. and_then (cbor_encode v) (\<lambda>vb. Inr (kb @ vb)))) = Inr c"
    then obtain x y where xy: "encodeText k = Inr x" "cbor_encode v = Inr y" "c = x @ y"
      by (auto simp: and_then_Inr)
    have g: "length c \<le> g" using enc_all_part [OF b kv c] f(2) by simp
    have good: "well_formed_text k" "length (to_utf8 k) \<le> 2 ^ 53" "cbor_good v"
      using VObject.prems(1) kv by auto
    have "cbor_decode g (x @ r) = Inr (VString k, r)" for r
      using cbor_text_roundtrip [OF xy(1) good(1,2), of "g - 1"] cbor_text_nonempty [OF xy(1)] g xy(3)
      by (cases g) simp_all
    moreover have "cbor_decode g (y @ r) = Inr (cbor_image v, r)" for r
      by (rule VObject.IH [OF kv]) (use good xy g in simp_all)
    ultimately show "\<exists>x y. c = x @ y \<and> (\<forall>r. cbor_decode g (x @ r) = Inr (VString k, r)) \<and>
        (\<forall>r. cbor_decode g (y @ r) = Inr (cbor_image v, r))"
      using xy(3) by blast
  next
    fix k v
    assume "(k, v) \<in> set es"
    with VObject.prems(1) show "k \<noteq> units ''__proto__''" by auto
  qed
  moreover have "build_object (map (\<lambda>(k, v). (k, cbor_image v)) es) =
      map (\<lambda>(k, v). (k, cbor_image v)) es"
    using VObject.prems(1) by (simp add: build_object_map object_entries_def)
  ultimately show ?case
    using VObject.prems(1) header_read [OF major_in_majors(6) h]
    by (simp add: bs f cbor_readMap_def del: cbor_decode.simps)
next
  case (VNumber n)
  show ?case
  proof (cases n)
    case (NumInt i)
    with VNumber cbor_encode_nonempty [OF VNumber.prems(1,2)] show ?thesis
      by (cases f) (auto simp: cbor_integer_roundtrip simp del: cbor_decode.simps cbor_good.simps cbor_encode.simps)
  next
    case (NumBits w)
    with VNumber cbor_encode_nonempty [OF VNumber.prems(1,2)]
      header_read [OF major_in_majors(1), of 0 bs]
    show ?thesis
      by (cases f) (auto simp: encodeUnsigned_def simp del: cbor_decode.simps)
  qed
next
  case (VString s)
  with cbor_encode_nonempty [OF VString.prems(1,2)] show ?case
    by (cases f) (auto simp: cbor_text_roundtrip simp del: cbor_decode.simps)
next
  case (VBuffer b)
  with cbor_encode_nonempty [OF VBuffer.prems(1,2)] show ?case
    by (cases f) (auto simp: cbor_bytes_roundtrip simp del: cbor_decode.simps)
next
  case (VUint8Array b)
  with cbor_encode_nonempty [OF VUint8Array.prems(1,2)] show ?case
    by (cases f) (auto simp: cbor_bytes_roundtrip simp del: cbor_decode.simps)
next
  case (VBool b)
  with cbor_encode_nonempty [OF VBool.prems(1,2)] show ?case
    by (cases f) (auto simp: cbor_simple_roundtrip cbor_constants readSimple_def
        simp del: cbor_decode.simps split: if_splits)
next
  case VNull
  with cbor_encode_nonempty [OF VNull.prems(1,2)] show ?case
    by (cases f) (auto simp: cbor_simple_roundtrip cbor_constants readSimple_def simp del: cbor_decode.simps)
next
  case VUndefined
  with cbor_encode_nonempty [OF VUndefined.prems(1,2)] show ?case
    by (cases f) (auto simp: cbor_simple_roundtrip cbor_constants readSimple_def simp del: cbor_decode.simps)
next
  case VOther
  then show ?case by simp
qed

interpretation cborc: self_delimiting cbor_encode "\<lambda>bs. cbor_decode (Suc (length bs)) bs"
    cbor_image cbor_good
  by unfold_locales (simp add: cbor_roundtrip del: cbor_decode.simps)

lemma cbor_encode_total: "cbor_good v \<Longrightarrow> \<exists>bs. cbor_encode v = Inr bs"
proof (induction v)
  case (VNumber n)
  then show ?case
    using header_total [of MAJOR_UNSIGNED] header_total [of MAJOR_NEGATIVE]
    by (cases n) (auto simp: encodeUnsigned_def encodeNegative_def)
next
  case (VString s)
  then show ?case using header_total [of MAJOR_TEXT "int (length (to_utf8 s))"]
    by (auto simp: encodeText_def Let_def)
next
  case (VBuffer b)
  then show ?case using header_total [of MAJOR_BYTES "int (length b)"] by (auto simp: encodeBytes_def)
next
  case (VUint8Array b)
  then show ?case using header_total [of MAJOR_BYTES "int (length b)"] by (auto simp: encodeBytes_def)
next
  case (VArray vs)
  then have "\<exists>b. enc_all cbor_encode vs = Inr b" by (auto simp: enc_all_total)
  with VArray.prems header_total [of MAJOR_ARRAY "int (length vs)"] show ?case by auto
next
  case (VObject es)
  let ?e = "\<lambda>(k, v). and_then (encodeText k) (\<lambda>kb. and_then (cbor_encode v) (\<lambda>vb. Inr (kb @ vb)))"
  have "\<exists>b. ?e (k, v) = Inr b" if kv: "(k, v) \<in> set es" for k v
  proof -
    have "cbor_good v" "length (to_utf8 k) \<le> 2 ^ 53" using VObject.prems kv by auto
    then show ?thesis
      using VObject.IH [OF kv] header_total [of MAJOR_TEXT "int (length (to_utf8 k))"]
      by (auto simp: encodeText_def Let_def)
  qed
  then have "\<exists>b. enc_all ?e es = Inr b" unfolding enc_all_total by auto
  with VObject.prems header_total [of MAJOR_MAP "int (length es)"] show ?case by auto
qed (simp_all add: encodeSimple_def cbor_constants encodeHeader_def)

subsection \<open>The properties\<close>

text \<open>A value without fractional numbers comes back from CBOR: encodeCBOR does not throw and
  decodeCBOR returns the value, with a Uint8Array read as a Buffer and -0 as 0.\<close>

theorem cbor_values_come_back:
  assumes "cbor_good v"
  shows "\<exists>bs. encodeCBOR v = Inr bs \<and> decodeCBOR bs = Inr (cbor_image v)"
proof -
  obtain bs where bs: "cbor_encode v = Inr bs" using cbor_encode_total [OF assms] by blast
  then have "cbor_decode (Suc (length bs)) bs = Inr (cbor_image v, [])"
    using assms by (intro cborc.dec_enc_alone)
  with bs show ?thesis
    by (auto simp: encodeCBOR_def decodeCBOR_def simp del: cbor_decode.simps)
qed

theorem cbor_values_come_back_witness:
  "\<exists>bs. encodeCBOR (VObject [(units ''k'', VArray [VNumber (NumInt (-300)), VUndefined, VUint8Array [7]])]) =
          Inr bs \<and>
        decodeCBOR bs =
          Inr (VObject [(units ''k'', VArray [VNumber (NumInt (-300)), VUndefined, VBuffer [7]])])"
proof -
  let ?v = "VObject [(units ''k'', VArray [VNumber (NumInt (-300)), VUndefined, VUint8Array [7]])]"
  have s: "ascii ''k''" by (simp add: ascii_def)
  then have "cbor_good ?v"
    by (simp add: object_entries_def build_object_def set_property_def ascii_units ascii_utf8
        units_eq_iff index_key_def) (simp add: units_def)
  then show ?thesis using cbor_values_come_back [of ?v] by simp
qed

text \<open>No fractional number comes back from CBOR: the decoder reads the 64 bits of the double
  as an unsigned integer (and the bit patterns 20 to 27 as false, true, null or undefined).\<close>

theorem cbor_fractions_become_integers:
  assumes "w \<noteq> minus_zero"
  shows "\<exists>bs. encodeCBOR (VNumber (NumBits w)) = Inr bs \<and>
     decodeCBOR bs = Inr (readSimple (js_round (uint w))) \<and>
     decodeCBOR bs \<noteq> Inr (VNumber (NumBits w'))"
proof -
  have "unat w < 2 ^ LENGTH(64)" by (rule unsigned_less)
  then have w: "unat w < 256 ^ 8" by simp
  let ?bs = "(MAJOR_SIMPLE OR 27) # put_be 8 (unat w)"
  have "(MAJOR_SIMPLE OR 27) AND MAJOR_TYPE_MASK = MAJOR_SIMPLE"
    "unat ((MAJOR_SIMPLE OR 27) AND ADDITIONAL_MASK) = 27"
    using header_token [OF major_in_majors(8), of 27] by simp_all
  with read_be_put_be [OF w, of "[]"]
  have "cbor_decode_token d (MAJOR_SIMPLE OR 27) (put_be 8 (unat w)) =
      Inr (readSimple (js_round (uint w)), [])" for d
    by (simp add: cbor_decode_token_def Let_def readExtra_def)
  then have "cbor_decode (Suc (length ?bs)) ?bs = Inr (readSimple (js_round (uint w)), [])"
    by (simp only: cbor_decode.simps)
  moreover have "encodeCBOR (VNumber (NumBits w)) = Inr ?bs"
    using assms by (simp add: encodeCBOR_def encodeFloat_def)
  moreover have "readSimple a \<noteq> VNumber (NumBits w')" for a
    by (simp add: readSimple_def)
  ultimately show ?thesis
    by (simp add: decodeCBOR_def del: cbor_decode.simps)
qed

theorem cbor_fractions_become_integers_witness:
  "\<exists>bs. encodeCBOR (VNumber (NumBits 0x3FF8000000000000)) = Inr bs \<and>
     decodeCBOR bs = Inr (VNumber (NumInt 4609434218613702656))"
proof -
  have "bit_length 4609434218613702656 \<le> 62 \<and> \<not> bit_length 4609434218613702656 \<le> 61"
    by (simp add: bit_length_less [symmetric])
  then have "bit_length 4609434218613702656 = 62" by simp
  then have "js_round 4609434218613702656 = 4609434218613702656"
    by (simp add: js_round_def round_nat_def)
  then show ?thesis
    using cbor_fractions_become_integers [of "0x3FF8000000000000" 0]
    by (auto simp: minus_zero_def readSimple_def cbor_constants)
qed

end
