(* ===== verification/Varint.thy ===== *)
theory Varint
  imports ByteCodec
begin

section \<open>32-bit integers, varints and doubles on the wire\<close>

text \<open>
  What avro.ts and protobuf.ts share: JavaScript's bitwise operators, which first take an
  operand to 32 bits, the base-128 integers built with them, and the bytes of floating point
  numbers. The loops are the ones of encodeVarint and decodeVarint in protobuf.ts; encodeLong and
  decodeLong of avro.ts have the same loops around their zigzag arithmetic.
\<close>

definition to_int32 :: "int \<Rightarrow> int" where
  "to_int32 x = to_signed 32 (to_unsigned 32 x)"

text \<open>\<open>x << s\<close>, \<open>x >> s\<close>, \<open>x >>> s\<close>.\<close>

definition shl32 :: "int \<Rightarrow> nat \<Rightarrow> int" where
  "shl32 x s = to_int32 (push_bit (s mod 32) (to_int32 x))"

definition sar32 :: "int \<Rightarrow> nat \<Rightarrow> int" where
  "sar32 x s = drop_bit (s mod 32) (to_int32 x)"

definition shr32 :: "int \<Rightarrow> nat \<Rightarrow> int" where
  "shr32 x s = drop_bit (s mod 32) (int (to_unsigned 32 x))"

lemma to_int32_id [simp]: "- (2 ^ 31) \<le> x \<Longrightarrow> x < 2 ^ 31 \<Longrightarrow> to_int32 x = x"
  by (simp add: to_int32_def)

lemma to_int32_le: "0 \<le> x \<Longrightarrow> to_int32 x \<le> x"
proof -
  assume "0 \<le> x"
  then have "x mod 2 ^ 32 \<le> x" by (rule zmod_le_nonneg_dividend)
  then show ?thesis by (auto simp: to_int32_def to_signed_def to_unsigned_def)
qed

lemma to_int32_range: "- (2 ^ 31) \<le> to_int32 x" "to_int32 x < 2 ^ 31"
  using to_unsigned_less [of 32 x] by (auto simp: to_int32_def to_signed_def simp del: to_unsigned_less)

function encodeVarint :: "int \<Rightarrow> bytes" where
  "encodeVarint v =
     (if v > 0x7f
      then word_of_int ((to_int32 v AND 0x7f) OR 0x80) # encodeVarint (sar32 v 7)
      else [word_of_int (to_int32 v AND 0x7f)])"
  by pat_completeness auto
termination
proof (relation "measure nat")
  fix v :: int
  assume v: "v > 0x7f"
  then have "to_int32 v \<le> v" by (simp add: to_int32_le)
  then have "sar32 v 7 \<le> v div 128"
    by (simp add: sar32_def drop_bit_eq_div zdiv_mono1)
  also have "\<dots> < v" using v by simp
  finally show "(sar32 v 7, v) \<in> measure nat" using v by simp
qed simp

declare encodeVarint.simps [simp del]

text \<open>Past the end of the buffer a byte reads as undefined, which ends the loop.\<close>

fun decode_loop :: "nat \<Rightarrow> int \<Rightarrow> bytes \<Rightarrow> int \<times> bytes" where
  "decode_loop shift value [] = (value, [])"
| "decode_loop shift value (b # bs) =
     (let value' = to_int32 (value OR shl32 (uint b AND 0x7f) shift)
      in if b AND 0x80 = 0 then (value', bs) else decode_loop (shift + 7) value' bs)"

definition decodeVarint :: "bytes \<Rightarrow> int \<times> bytes" where
  "decodeVarint bs = decode_loop 0 0 bs"

lemma int_and_127: "(x :: int) AND 127 = x mod 128"
  using take_bit_eq_mask [of 7 x] by (simp add: take_bit_eq_mod mask_eq_exp_minus_1)

lemma varint_bytes:
  "\<forall>m \<in> set [0..<128]. let b = word_of_nat (128 + m) :: byte; c = word_of_nat m :: byte in
     unat b = 128 + m \<and> b AND 0x80 \<noteq> 0 \<and> c AND 0x80 = 0 \<and> unat c = m"
  by code_simp

lemma or_shifted:
  fixes acc m :: int
  assumes "0 \<le> acc" "acc < 2 ^ s"
  shows "acc OR push_bit s m = acc + m * 2 ^ s"
proof -
  have "take_bit s acc = acc" using assms by (simp add: take_bit_int_eq_self)
  moreover have "take_bit s acc AND push_bit s m = 0"
    by (auto simp: bit_eq_iff bit_simps)
  ultimately have "acc + push_bit s m = acc OR push_bit s m"
    by (intro disjunctive_add_eq_or) simp
  then show ?thesis by (simp add: push_bit_eq_mult)
qed

lemma varint_head:
  assumes "0 \<le> v" "v < 2 ^ 31"
  shows "v > 0x7f \<Longrightarrow> encodeVarint v = word_of_nat (128 + nat (v mod 128)) # encodeVarint (v div 128)"
    "v \<le> 0x7f \<Longrightarrow> encodeVarint v = [word_of_nat (nat v)]"
proof -
  have m: "(v mod 128) OR 128 = 128 + v mod 128"
    using or_shifted [of "v mod 128" 7 1] by (simp add: push_bit_eq_mult)
  have t: "to_int32 v = v" using assms by simp
  show "encodeVarint v = word_of_nat (128 + nat (v mod 128)) # encodeVarint (v div 128)" if "v > 0x7f"
    using that by (subst encodeVarint.simps) (simp add: t sar32_def drop_bit_eq_div int_and_127 m)
  show "encodeVarint v = [word_of_nat (nat v)]" if "v \<le> 0x7f"
    using that assms by (subst encodeVarint.simps) (simp add: t int_and_127)
qed

lemma decode_loop_encode:
  assumes "0 \<le> z" "z * 2 ^ s < 2 ^ 31" "0 \<le> acc" "acc < 2 ^ s" "s < 32"
  shows "decode_loop s acc (encodeVarint z @ rest) = (acc + z * 2 ^ s, rest)"
  using assms
proof (induction "nat z" arbitrary: z s acc rule: less_induct)
  case less
  have z31: "z < 2 ^ 31"
  proof -
    have "z * 1 \<le> z * 2 ^ s" using less.prems(1) by (intro mult_left_mono) simp_all
    with less.prems(2) show ?thesis by simp
  qed
  let ?m = "z mod 128"
  have m: "0 \<le> ?m" "?m < 128" "nat ?m \<in> set [0..<128]" by simp_all
  have "?m * 2 ^ s \<le> z * 2 ^ s" using less.prems(1) by (intro mult_right_mono) (simp_all add: zmod_le_nonneg_dividend)
  then have ms: "?m * 2 ^ s < 2 ^ 31" using less.prems(2) by (rule le_less_trans)
  have ms0: "0 \<le> ?m * 2 ^ s" by simp
  have shl: "shl32 ?m s = ?m * 2 ^ s"
  proof -
    have "to_int32 (?m * 2 ^ s) = ?m * 2 ^ s" using ms ms0 by (intro to_int32_id) linarith+
    moreover have "to_int32 ?m = ?m"
      using order_less_trans [OF m(2)] order_trans [OF _ m(1)] by (intro to_int32_id) simp_all
    ultimately
    show ?thesis using less.prems(5) by (simp add: shl32_def push_bit_eq_mult)
  qed
  have or: "acc OR (?m * 2 ^ s) = acc + ?m * 2 ^ s"
    using or_shifted [OF less.prems(3,4), of ?m] by (simp add: push_bit_eq_mult)
  show ?case
  proof (cases "z > 0x7f")
    case True
    have *: "z * 2 ^ s = ?m * 2 ^ s + (z div 128) * 2 ^ (s + 7)"
    proof -
      have "(m + q * 128) * p = m * p + q * (p * 128)" for m q p :: int
        by (simp add: distrib_right)
      from this [of ?m "z div 128" "2 ^ s"] show ?thesis by (simp add: power_add)
    qed
    have acc: "acc + ?m * 2 ^ s < 2 ^ (s + 7)"
    proof -
      have "acc + ?m * 2 ^ s < (1 + ?m) * 2 ^ s" using less.prems(4) by (simp add: distrib_right)
      also have "\<dots> \<le> 128 * 2 ^ s" using m(2) by (intro mult_right_mono) simp_all
      finally show ?thesis by (simp add: power_add)
    qed
    have zz: "z div 128 * 2 ^ (s + 7) < 2 ^ 31" using * ms0 less.prems(2) by linarith
    have acc0: "0 \<le> acc + ?m * 2 ^ s" using ms0 less.prems(3) by simp
    have d: "1 \<le> z div 128" using True by simp
    then have "2 ^ (s + 7) \<le> z div 128 * 2 ^ (s + 7)" by simp
    also have "\<dots> \<le> z * 2 ^ s" using * ms0 by simp
    finally have "(2::int) ^ (s + 7) < 2 ^ 31" using less.prems(2) by simp
    then have s: "s + 7 < 31" by (rule power_less_imp_less_exp [rotated]) simp
    have "to_int32 (acc + ?m * 2 ^ s) = acc + ?m * 2 ^ s"
      using less.prems(3) ms0 acc \<open>(2::int) ^ (s + 7) < 2 ^ 31\<close> by (intro to_int32_id) linarith+
    moreover have "decode_loop (s + 7) (acc + ?m * 2 ^ s) (encodeVarint (z div 128) @ rest) =
        (acc + ?m * 2 ^ s + (z div 128) * 2 ^ (s + 7), rest)"
      using True zz acc0 s acc by (intro less.hyps) simp_all
    ultimately show ?thesis
      using varint_head(1) [OF less.prems(1) z31 True] bspec [OF varint_bytes m(3)] shl or m
      by (simp add: Let_def * int_and_127 uint_nat mod_add_self1)
  next
    case False
    then have zm: "?m = z" using less.prems(1) by simp
    have p: "(2::int) ^ 31 = 2 ^ (31 - s) * 2 ^ s"
      using less.prems(5) by (simp add: power_add [symmetric])
    with less.prems(2) have "z * 2 ^ s < 2 ^ (31 - s) * 2 ^ s" by simp
    then have "z + 1 \<le> 2 ^ (31 - s)" by simp
    then have "(z + 1) * 2 ^ s \<le> 2 ^ 31" unfolding p by (intro mult_right_mono) simp_all
    then have "acc + z * 2 ^ s < 2 ^ 31" using less.prems(4) by (simp add: distrib_right)
    then have "to_int32 (acc + z * 2 ^ s) = acc + z * 2 ^ s"
      using less.prems(1,3) by (intro to_int32_id) (simp_all add: order_trans [of _ 0])
    then show ?thesis
      using varint_head(2) [OF less.prems(1) z31] False bspec [OF varint_bytes m(3)] shl or m
      by (simp add: Let_def zm int_and_127 uint_nat)
  qed
qed

lemma varint_roundtrip:
  "0 \<le> z \<Longrightarrow> z < 2 ^ 31 \<Longrightarrow> decodeVarint (encodeVarint z @ rest) = (z, rest)"
  using decode_loop_encode [of z 0 0 rest] by (simp add: decodeVarint_def)

lemma encodeVarint_nonempty [simp]: "encodeVarint z \<noteq> []"
  by (subst encodeVarint.simps) simp

text \<open>\<open>v < 0 ? -1 - (v << 1) : v << 1\<close>, and \<open>(v >>> 1) ^ -(v & 1)\<close>.\<close>

definition zigzag :: "int \<Rightarrow> int" where
  "zigzag v = (if v < 0 then -1 - shl32 v 1 else shl32 v 1)"

definition unzigzag :: "int \<Rightarrow> int" where
  "unzigzag v = shr32 v 1 XOR (- (v AND 1))"

lemma zigzag_small:
  assumes "- (2 ^ 30) \<le> v" "v < 2 ^ 30"
  shows "zigzag v = (if v < 0 then - 2 * v - 1 else 2 * v)"
proof -
  have "to_int32 v = v" using assms by (intro to_int32_id) simp_all
  moreover have "to_int32 (v * 2) = v * 2" using assms by (intro to_int32_id) simp_all
  ultimately show ?thesis by (simp add: zigzag_def shl32_def push_bit_eq_mult)
qed

lemma unzigzag_zigzag:
  assumes "- (2 ^ 30) \<le> v" "v < 2 ^ 30"
  shows "unzigzag (zigzag v) = v"
proof -
  let ?z = "zigzag v"
  have z: "?z = (if v < 0 then - 2 * v - 1 else 2 * v)" using zigzag_small [OF assms] .
  then have r: "0 \<le> ?z" "?z < 2 ^ 31" using assms by auto
  then have "int (to_unsigned 32 ?z) = ?z" by (simp add: to_unsigned_def)
  then have s: "shr32 ?z 1 = ?z div 2" by (simp add: shr32_def drop_bit_eq_div)
  have b: "?z AND 1 = ?z mod 2" by (simp add: and_one_eq)
  show ?thesis
  proof (cases "v < 0")
    case True
    have n: "(- 2 * v - 1) div 2 = - v - 1" "(- 2 * v - 1) mod 2 = 1" by presburger+
    have "unzigzag ?z = (- v - 1) XOR (- 1)" using True s b z n by (simp add: unzigzag_def)
    also have "\<dots> = v" by (simp add: not_int_def)
    finally show ?thesis .
  next
    case False
    with s b z show ?thesis by (simp add: unzigzag_def)
  qed
qed

lemma unzigzag_range: "- (2 ^ 31) \<le> unzigzag v \<and> unzigzag v < 2 ^ 31"
proof -
  have "int (to_unsigned 32 v) < 2 ^ 32" using to_unsigned_less [of 32 v] by (simp del: to_unsigned_less)
  then have s: "0 \<le> shr32 v 1" "shr32 v 1 < 2 ^ 31" by (simp_all add: shr32_def drop_bit_eq_div)
  have "v AND 1 = 0 \<or> v AND 1 = 1" unfolding and_one_eq by presburger
  then show ?thesis
  proof
    assume "v AND 1 = 0"
    with s show ?thesis by (simp add: unzigzag_def)
  next
    assume "v AND 1 = 1"
    then have "unzigzag v = - shr32 v 1 - 1" by (simp add: unzigzag_def not_int_def)
    with s show ?thesis by simp
  qed
qed

subsection \<open>Floating point numbers as bytes\<close>

text \<open>The IEEE 754 bits of a number, as writeDoubleLE writes them.\<close>

definition bits_of_number :: "js_number \<Rightarrow> 64 word" where
  "bits_of_number x =
     (case x of
        NumBits w \<Rightarrow> w
      | NumInt n \<Rightarrow>
          let a = nat \<bar>n\<bar>; l = bit_length a; s = (if n < 0 then 2 ^ 63 else 0);
              sig = (if l \<le> 53 then a * 2 ^ (53 - l) else a div 2 ^ (l - 53))
          in if a = 0 then 0 else word_of_nat (s + (l + 1022) * 2 ^ 52 + (sig - 2 ^ 52)))"

text \<open>The nearest single, ties to even, as writeFloatLE writes it: too large a number becomes an
  infinity, the smallest ones are subnormal or 0.\<close>

definition round_half_even :: "nat \<Rightarrow> nat \<Rightarrow> nat" where
  "round_half_even n k =
     (let q = n div 2 ^ k; r = n mod 2 ^ k
      in if 2 ^ k < 2 * r \<or> (2 ^ k = 2 * r \<and> odd q) then q + 1 else q)"

definition single_of_bits :: "64 word \<Rightarrow> nat" where
  "single_of_bits w =
     (let b = unat w; s = b div 2 ^ 63; e = b div 2 ^ 52 mod 2048; m = b mod 2 ^ 52; e1 = max e 1;
          sig = (if e = 0 then m else m + 2 ^ 52);
          mag = (if 897 \<le> e1 then (e1 - 897) * 2 ^ 23 + round_half_even sig 29
                 else round_half_even sig (29 + (897 - e1)))
      in s * 2 ^ 31 +
         (if e = 2047 then (if m = 0 then 255 * 2 ^ 23 else 255 * 2 ^ 23 + 2 ^ 22)
          else min mag (255 * 2 ^ 23)))"

lemma bit_length_bounds: "0 < a \<Longrightarrow> 2 ^ (bit_length a - 1) \<le> a \<and> a < 2 ^ bit_length a \<and> 0 < bit_length a"
  using bit_length_less [of a "bit_length a - 1"] bit_length_less [of a "bit_length a"]
    bit_length_less [of a 0] by (cases "bit_length a") auto

lemma exact_multiple:
  assumes "round_nat a = a" "53 < bit_length a"
  shows "a div 2 ^ (bit_length a - 53) * 2 ^ (bit_length a - 53) = a"
proof -
  let ?p = "2 ^ (bit_length a - 53) :: nat"
  have "?p dvd round_nat a" by (auto simp: round_nat_def Let_def)
  with assms(1) show ?thesis by simp
qed

lemma double_fields:
  fixes s e m :: nat
  assumes "e < 2048" "m < 2 ^ 52" "s = 0 \<or> s = 2 ^ 63"
  shows "(s + e * 2 ^ 52 + m) div 2 ^ 52 mod 2048 = e" "(s + e * 2 ^ 52 + m) mod 2 ^ 52 = m"
    "2 ^ 63 \<le> s + e * 2 ^ 52 + m \<longleftrightarrow> s = 2 ^ 63" "s + e * 2 ^ 52 + m < 2 ^ 64"
proof -
  obtain k where k: "s = k * 2048 * 2 ^ 52" "k \<le> 1" using assms(3) by (auto intro: that [of 0] that [of 1])
  have d: "s + e * 2 ^ 52 + m = (k * 2048 + e) * 2 ^ 52 + m" using k by (simp add: distrib_right)
  have "(s + e * 2 ^ 52 + m) div 2 ^ 52 = k * 2048 + e" unfolding d using assms(2) by simp
  then show "(s + e * 2 ^ 52 + m) div 2 ^ 52 mod 2048 = e" using assms(1) by simp
  show "(s + e * 2 ^ 52 + m) mod 2 ^ 52 = m"
    unfolding d mod_mult_self3 using assms(2) by (rule mod_less)
  have "e * 2 ^ 52 + m < 2 ^ 63" using assms(1,2) by simp
  then show "2 ^ 63 \<le> s + e * 2 ^ 52 + m \<longleftrightarrow> s = 2 ^ 63" "s + e * 2 ^ 52 + m < 2 ^ 64"
    using assms(3) by auto
qed

lemma number_of_bits_of_int:
  assumes "js_round n = n" "\<bar>n\<bar> < 2 ^ 1024"
  shows "number_of_bits (bits_of_number (NumInt n)) = NumInt n"
proof (cases "n = 0")
  case True
  then show ?thesis by (simp add: bits_of_number_def number_of_bits_def)
next
  case False
  define a where "a = nat \<bar>n\<bar>"
  define l where "l = bit_length a"
  define sig where "sig = (if l \<le> 53 then a * 2 ^ (53 - l) else a div 2 ^ (l - 53))"
  define s where "s = (if n < 0 then 2 ^ 63 else 0 :: nat)"
  have a: "0 < a" "n = (if s = 2 ^ 63 then - int a else int a)" using False by (auto simp: a_def s_def)
  have "a < 2 ^ 1024" using assms(2) by (simp add: a_def nat_less_iff)
  then have "l \<le> 1024" unfolding l_def by (simp only: bit_length_less)
  have b: "2 ^ (l - 1) \<le> a" "a < 2 ^ l" "0 < l" using bit_length_bounds [OF a(1)] by (auto simp: l_def)
  have ra: "round_nat a = a"
    using arg_cong [OF assms(1), of abs] False by (simp add: js_round_def a_def abs_mult)
  have sig: "2 ^ 52 \<le> sig \<and> sig < 2 ^ 53"
  proof (cases "l \<le> 53")
    case True
    have "2 ^ (l - 1) * 2 ^ (53 - l) = (2::nat) ^ 52" "2 ^ l * 2 ^ (53 - l) = (2::nat) ^ 53"
      using True b(3) by (simp_all add: power_add [symmetric])
    moreover have "2 ^ (l - 1) * 2 ^ (53 - l) \<le> a * 2 ^ (53 - l)"
      using b(1) by (rule mult_right_mono) simp
    moreover have "a * 2 ^ (53 - l) < 2 ^ l * 2 ^ (53 - l)"
      using b(2) by (rule mult_strict_right_mono) simp
    ultimately show ?thesis using True by (simp add: sig_def)
  next
    case False
    have "l = 53 + (l - 53)" "l - 1 = 52 + (l - 53)" using False by simp_all
    then have "(2::nat) ^ l = 2 ^ 53 * 2 ^ (l - 53)" "(2::nat) ^ (l - 1) = 2 ^ 52 * 2 ^ (l - 53)"
      by (metis power_add)+
    with b False show ?thesis
      by (simp add: sig_def less_mult_imp_div_less less_eq_div_iff_mult_less_eq)
  qed
  have e: "l + 1022 < 2048" and m: "sig - 2 ^ 52 < 2 ^ 52" and s: "s = 0 \<or> s = 2 ^ 63"
    using \<open>l \<le> 1024\<close> sig by (auto simp: s_def)
  have "bits_of_number (NumInt n) = word_of_nat (s + (l + 1022) * 2 ^ 52 + (sig - 2 ^ 52))"
    using a(1) unfolding bits_of_number_def Let_def sig_def s_def l_def a_def
    by (simp del: of_nat_add of_nat_mult)
  then have w: "unat (bits_of_number (NumInt n)) = s + (l + 1022) * 2 ^ 52 + (sig - 2 ^ 52)"
    using double_fields(4) [OF e m s] by (simp only: unat_of_nat) (simp del: of_nat_add)
  note f = double_fields [OF e m s, folded w]
  have nz: "l + 1022 \<noteq> 2047" "l + 1022 \<noteq> 0" "max (l + 1022) 1 = l + 1022" "sig - 2 ^ 52 + 2 ^ 52 = sig"
    using \<open>l \<le> 1024\<close> sig by auto
  show ?thesis
  proof (cases "53 \<le> l")
    case True
    then have "sig * 2 ^ (l + 1022 - 1075) = a"
      using exact_multiple [OF ra] by (cases "l = 53") (auto simp: sig_def l_def)
    moreover have "1075 \<le> l + 1022" using True by simp
    ultimately show ?thesis
      unfolding number_of_bits_def Let_def f nz using nz(1,2) a(2) by simp
  next
    case False
    then have "sig = a * 2 ^ (53 - l)" "1075 - (l + 1022) = 53 - l" by (simp_all add: sig_def)
    then have "sig mod 2 ^ (1075 - (l + 1022)) = 0" "sig div 2 ^ (1075 - (l + 1022)) = a" by simp_all
    moreover have "\<not> 1075 \<le> l + 1022" using False by simp
    ultimately show ?thesis
      unfolding number_of_bits_def Let_def f nz using nz(1,2) a(2) by simp
  qed
qed

lemma number_of_bits_of_number:
  assumes "is_number x" "\<And>n. x = NumInt n \<Longrightarrow> \<bar>n\<bar> < 2 ^ 1024"
  shows "number_of_bits (bits_of_number x) = x"
proof (cases x)
  case (NumInt n)
  with assms number_of_bits_of_int show ?thesis by simp
next
  case (NumBits w)
  with assms show ?thesis by (simp add: bits_of_number_def)
qed

definition encode_number :: "(js_number \<Rightarrow> bytes) \<Rightarrow> js_value \<Rightarrow> bytes codec" where
  "encode_number f v = (case v of VNumber n \<Rightarrow> Inr (f n) | _ \<Rightarrow> Inl OutOfModel)"

text \<open>The numbers that a double, or a single, carries.\<close>

definition double_value :: "js_number \<Rightarrow> bool" where
  "double_value n \<longleftrightarrow> is_number n \<and> (case n of NumInt i \<Rightarrow> \<bar>i\<bar> < 2 ^ 1024 | _ \<Rightarrow> True)"

definition single_value :: "js_number \<Rightarrow> bool" where
  "single_value n \<longleftrightarrow> number_of_bits (widen_single (single_of_bits (bits_of_number n))) = n"

lemma single_of_bits_less: "single_of_bits w < 2 ^ 32"
proof -
  have "unat w < 2 ^ LENGTH(64)" by (rule unsigned_less)
  then have "unat w div 2 ^ 63 < 2" by (simp add: less_mult_imp_div_less)
  then have "unat w div 2 ^ 63 * 2 ^ 31 \<le> 2 ^ 31" by simp
  moreover have "\<exists>y. single_of_bits w = unat w div 2 ^ 63 * 2 ^ 31 + y \<and> y \<le> 255 * 2 ^ 23 + 2 ^ 22"
    unfolding single_of_bits_def Let_def
    by (rule exI, rule conjI, rule refl) (simp add: min.coboundedI2)
  ultimately show ?thesis by fastforce
qed

lemma read_double [simp]:
  assumes "double_value n"
  shows "read_le 8 (put_le 8 (unat (bits_of_number n)) @ rest) = Inr (unat (bits_of_number n), rest)"
    "number_of_bits (bits_of_number n) = n"
proof -
  have "unat (bits_of_number n) < 2 ^ LENGTH(64)" by (rule unsigned_less)
  then have "unat (bits_of_number n) < 256 ^ 8" by simp
  then show "read_le 8 (put_le 8 (unat (bits_of_number n)) @ rest) = Inr (unat (bits_of_number n), rest)"
    by simp
  show "number_of_bits (bits_of_number n) = n"
    using assms by (intro number_of_bits_of_number) (auto simp: double_value_def)
qed

lemma read_single [simp]:
  "read_le 4 (put_le 4 (single_of_bits w) @ rest) = Inr (single_of_bits w, rest)"
proof -
  have "single_of_bits w < 256 ^ 4" using single_of_bits_less [of w] by simp
  then show ?thesis by simp
qed

end
