(* ===== verification/Avro.thy ===== *)
theory Avro
  imports Varint
begin

section \<open>The Avro codec\<close>

text \<open>
  packages/core/src/serialization/avro.ts: schemas as a datatype, AvroEncoder and AvroDecoder as
  functions that recurse over the schema. A value whose JavaScript type does not fit the schema
  (a string where a number is written, a value that is not a plain object where a record is)
  goes through conversions of the language and is outside the model (\<open>OutOfModel\<close>); so is a
  negative length, which moves the decoder backwards. The lemmas: what the decoder returns has
  the shape the schema gives; well-typed values come back; which ones do not.
\<close>

datatype avro_type =
    AvNull | AvBoolean | AvInt | AvLong | AvFloat | AvDouble | AvBytes | AvString
  | AvRecord js_text "(js_text \<times> avro_type \<times> js_value option) list"
  | AvEnum js_text "js_text list"
  | AvArray avro_type
  | AvMap avro_type
  | AvFixed js_text nat
  | AvUnion "avro_type list"

type_synonym avro_field = "js_text \<times> avro_type \<times> js_value option"

record avro_schema =
  avs_name :: js_text
  avs_fields :: "avro_field list"

subsection \<open>The encoder\<close>

definition encodeLong :: "int \<Rightarrow> bytes" where
  "encodeLong value = encodeVarint (zigzag value)"

definition avro_encodeString :: "js_text \<Rightarrow> bytes" where
  "avro_encodeString value = (let data = to_utf8 value in encodeLong (int (length data)) @ data)"

definition encodeNull :: bytes where
  "encodeNull = [0]"

text \<open>\<open>obj[name]\<close>: an inherited member is outside the model.\<close>

definition get_property :: "js_text \<Rightarrow> js_value entries \<Rightarrow> js_value codec" where
  "get_property name es =
     (case map_of es name of
        Some v \<Rightarrow> Inr v
      | None \<Rightarrow> if name \<in> set (map units object_prototype_keys) then Inl OutOfModel
                else Inr VUndefined)"

definition nullish :: "js_value \<Rightarrow> bool" where
  "nullish v \<longleftrightarrow> v = VUndefined \<or> v = VNull"

text \<open>\<open>value[field.name] ?? field.default\<close>.\<close>

definition field_value :: "js_value option \<Rightarrow> js_value \<Rightarrow> js_value" where
  "field_value dflt v = (if nullish v then or_default dflt VUndefined else v)"

text \<open>\<open>value ? 1 : 0\<close>.\<close>

fun truthy :: "js_value \<Rightarrow> bool codec" where
  "truthy VUndefined = Inr False"
| "truthy VNull = Inr False"
| "truthy (VBool b) = Inr b"
| "truthy (VNumber (NumInt n)) = Inr (n \<noteq> 0)"
| "truthy (VNumber (NumBits w)) = Inr (w \<noteq> minus_zero \<and> w \<noteq> nan_bits)"
| "truthy (VString s) = Inr (s \<noteq> [])"
| "truthy VOther = Inl OutOfModel"
| "truthy v = Inr True"

fun is_integer :: "js_value \<Rightarrow> bool" where
  "is_integer (VNumber (NumInt n)) = True"
| "is_integer (VNumber (NumBits w)) = (w = minus_zero)"
| "is_integer v = False"

text \<open>\<open>typeof value === 'object' && value !== null\<close>.\<close>

definition is_object :: "js_value \<Rightarrow> bool" where
  "is_object v \<longleftrightarrow> is_VArray v \<or> is_VObject v \<or> is_VBuffer v \<or> is_VUint8Array v"

fun matchesType :: "js_value \<Rightarrow> avro_type \<Rightarrow> bool" where
  "matchesType v AvNull = nullish v"
| "matchesType v AvBoolean = is_VBool v"
| "matchesType v AvInt = is_integer v"
| "matchesType v AvLong = is_VNumber v"
| "matchesType v AvFloat = is_VNumber v"
| "matchesType v AvDouble = is_VNumber v"
| "matchesType v AvBytes = (is_VBuffer v \<or> is_VUint8Array v)"
| "matchesType v AvString = is_VString v"
| "matchesType v (AvRecord name flds) = is_object v"
| "matchesType v (AvArray items) = is_VArray v"
| "matchesType v (AvMap vals) = is_object v"
| "matchesType v (AvEnum name symbols) = is_VString v"
| "matchesType v (AvFixed name sz) = False"
| "matchesType v (AvUnion ts) = False"

text \<open>\<open>symbols.indexOf(value)\<close>.\<close>

fun index_of :: "js_text \<Rightarrow> js_text list \<Rightarrow> int" where
  "index_of s [] = -1"
| "index_of s (t # ts) = (if s = t then 0 else let i = index_of s ts in if i < 0 then -1 else i + 1)"

definition encode_integer :: "js_value \<Rightarrow> bytes codec" where
  "encode_integer v =
     (case v of VNumber (NumInt n) \<Rightarrow> Inr (encodeLong n)
      | VNumber (NumBits w) \<Rightarrow> if w = minus_zero then Inr (encodeLong 0) else Inl OutOfModel
      | _ \<Rightarrow> Inl OutOfModel)"

definition with_length :: "bytes \<Rightarrow> bytes" where
  "with_length data = encodeLong (int (length data)) @ data"

lemma size_fields:
  "(fname, ty, dflt) \<in> set flds \<Longrightarrow>
   size ty \<le> size_list (size_prod (\<lambda>x. 0) (size_prod size (\<lambda>x. 0))) flds"
  by (erule size_list_estimation') (simp add: size_prod_simp)

lemma size_found: "find P ts = Some t \<Longrightarrow> size t \<le> size_list size ts"
  by (rule size_list_estimation' [of t]) (auto simp: find_Some_iff)

text \<open>encodeRecord: the fields in the order of the schema, a missing one as the byte 0.\<close>

function (sequential) encodeValue :: "avro_type \<Rightarrow> js_value \<Rightarrow> bytes codec" where
  "encodeValue AvNull v = Inr []"
| "encodeValue AvBoolean v = and_then (truthy v) (\<lambda>b. Inr [if b then 1 else 0])"
| "encodeValue AvInt v = encode_integer v"
| "encodeValue AvLong v = encode_integer v"
| "encodeValue AvFloat v =
     encode_number (\<lambda>n. put_le 4 (single_of_bits (bits_of_number n))) v"
| "encodeValue AvDouble v = encode_number (\<lambda>n. put_le 8 (unat (bits_of_number n))) v"
| "encodeValue AvBytes v = and_then (buffer_from v) (\<lambda>data. Inr (with_length data))"
| "encodeValue AvString v = and_then (buffer_from v) (\<lambda>data. Inr (with_length data))"
| "encodeValue (AvUnion ts) v =
     (case find (matchesType v) ts of None \<Rightarrow> Inr [] | Some t \<Rightarrow> encodeValue t v)"
| "encodeValue (AvRecord name flds) v =
     (case v of
        VObject es \<Rightarrow>
          enc_all (\<lambda>(fname, ty, dflt).
            and_then (get_property fname es) (\<lambda>raw.
              let x = field_value dflt raw
              in if nullish x then Inr encodeNull else encodeValue ty x)) flds
      | _ \<Rightarrow> Inl OutOfModel)"
| "encodeValue (AvArray items) v =
     (case v of
        VArray vs \<Rightarrow>
          and_then (enc_all (encodeValue items) vs) (\<lambda>bs. Inr (encodeLong (int (length vs)) @ bs))
      | _ \<Rightarrow> Inl OutOfModel)"
| "encodeValue (AvMap vals) v =
     (case v of
        VObject es \<Rightarrow>
          and_then (enc_all (\<lambda>(k, x). and_then (encodeValue vals x)
                                (\<lambda>b. Inr (avro_encodeString k @ b))) es)
            (\<lambda>bs. Inr (encodeLong (int (length es)) @ bs))
      | _ \<Rightarrow> Inl OutOfModel)"
| "encodeValue (AvEnum name symbols) v =
     Inr (encodeLong (case v of VString s \<Rightarrow> index_of s symbols | _ \<Rightarrow> -1))"
| "encodeValue (AvFixed name sz) v = buffer_from v"
  by pat_completeness auto
termination
  by (relation "measure (\<lambda>(t, v). size t)")
    (auto simp: less_Suc_eq_le intro: size_found size_fields)

definition encodeAvro :: "avro_schema \<Rightarrow> js_value entries \<Rightarrow> bytes codec" where
  "encodeAvro schema value =
     encodeValue (AvRecord (avs_name schema) (avs_fields schema)) (VObject value)"

definition encodeMany :: "avro_schema \<Rightarrow> js_value entries list \<Rightarrow> bytes codec" where
  "encodeMany schema vals = enc_all (encodeAvro schema) vals"

subsection \<open>The decoder\<close>

definition decodeLong :: "bytes \<Rightarrow> int \<times> bytes" where
  "decodeLong bs = (let vr = decodeVarint bs in (unzigzag (fst vr), snd vr))"

text \<open>A length and that many bytes (fewer at the end of the buffer); a negative length moves the
  offset backwards, which is outside the model.\<close>

definition read_sized :: "bytes \<Rightarrow> (bytes \<times> bytes) codec" where
  "read_sized bs =
     (let lr = decodeLong bs
      in if fst lr < 0 then Inl OutOfModel
         else Inr (take (nat (fst lr)) (snd lr), drop (nat (fst lr)) (snd lr)))"

definition avro_symbol :: "js_text list \<Rightarrow> int \<Rightarrow> js_value" where
  "avro_symbol symbols i =
     (if 0 \<le> i \<and> i < int (length symbols) then VString (symbols ! nat i) else VUndefined)"

fun read_boolean :: "bytes \<Rightarrow> js_value \<times> bytes" where
  "read_boolean [] = (VBool True, [])"
| "read_boolean (b # bs) = (VBool (b \<noteq> 0), bs)"

function (sequential) decodeValue :: "avro_type \<Rightarrow> bytes \<Rightarrow> (js_value \<times> bytes) codec" where
  "decodeValue AvNull bs = Inr (VNull, bs)"
| "decodeValue AvBoolean bs = Inr (read_boolean bs)"
| "decodeValue AvInt bs = (let lr = decodeLong bs in Inr (VNumber (NumInt (fst lr)), snd lr))"
| "decodeValue AvLong bs = (let lr = decodeLong bs in Inr (VNumber (NumInt (fst lr)), snd lr))"
| "decodeValue AvFloat bs =
     and_then (read_le 4 bs) (\<lambda>(b, r). Inr (VNumber (number_of_bits (widen_single b)), r))"
| "decodeValue AvDouble bs =
     and_then (read_le 8 bs) (\<lambda>(b, r). Inr (VNumber (number_of_bits (word_of_nat b)), r))"
| "decodeValue AvBytes bs = and_then (read_sized bs) (\<lambda>(data, r). Inr (VBuffer data, r))"
| "decodeValue AvString bs =
     and_then (read_sized bs) (\<lambda>(data, r). Inr (VString (from_utf8 data), r))"
| "decodeValue (AvUnion ts) bs =
     (case ts of
        [] \<Rightarrow> Inl (Throws (JsTypeError ''Cannot read properties of undefined (reading 'type')''))
      | t # _ \<Rightarrow> decodeValue t bs)"
| "decodeValue (AvRecord name flds) bs =
     and_then (read_seq (\<lambda>(fname, ty, dflt) b.
         if fname = units ''__proto__'' then Inl OutOfModel
         else and_then (decodeValue ty b) (\<lambda>(v, r). Inr ((fname, v), r))) flds bs)
       (\<lambda>(es, r). Inr (VObject (build_object es), r))"
| "decodeValue (AvArray items) bs =
     (let lr = decodeLong bs
      in and_then (read_items (decodeValue items) (nat (fst lr)) (snd lr))
           (\<lambda>(vs, r). Inr (VArray vs, r)))"
| "decodeValue (AvMap vals) bs =
     (let lr = decodeLong bs
      in and_then (read_items (\<lambda>b.
             and_then (read_sized b) (\<lambda>(k, b1).
             and_then (decodeValue vals b1) (\<lambda>(v, b2).
               if from_utf8 k = units ''__proto__'' then Inl OutOfModel
               else Inr ((from_utf8 k, v), b2)))) (nat (fst lr)) (snd lr))
           (\<lambda>(es, r). Inr (VObject (build_object es), r)))"
| "decodeValue (AvEnum name symbols) bs =
     (let lr = decodeLong bs in Inr (avro_symbol symbols (fst lr), snd lr))"
| "decodeValue (AvFixed name sz) bs = Inr (VBuffer (take sz bs), drop sz bs)"
  by pat_completeness auto
termination
  by (relation "measure (\<lambda>(t, v). size t)") (auto simp: less_Suc_eq_le intro: size_fields)

definition decodeAvro :: "avro_schema \<Rightarrow> bytes \<Rightarrow> js_value codec" where
  "decodeAvro schema buffer =
     and_then (decodeValue (AvRecord (avs_name schema) (avs_fields schema)) buffer)
       (\<lambda>(v, rest). Inr v)"

definition decodeMany :: "avro_schema \<Rightarrow> bytes \<Rightarrow> nat \<Rightarrow> js_value list codec" where
  "decodeMany schema buffer count =
     and_then (read_items (decodeValue (AvRecord (avs_name schema) (avs_fields schema))) count buffer)
       (\<lambda>(vs, rest). Inr vs)"

subsection \<open>Well-typed values come back\<close>

text \<open>Values that fit a schema and come back: 31-bit integers, no null in a record, a union's
  value of its first member.\<close>

definition small_int :: "js_value \<Rightarrow> bool" where
  "small_int v = (case v of VNumber (NumInt n) \<Rightarrow> - (2 ^ 30) \<le> n \<and> n < 2 ^ 30 | _ \<Rightarrow> False)"

definition short_text :: "js_text \<Rightarrow> bool" where
  "short_text s \<longleftrightarrow> well_formed_text s \<and> length (to_utf8 s) < 2 ^ 30"

function (sequential) avro_typed :: "avro_type \<Rightarrow> js_value \<Rightarrow> bool" where
  "avro_typed AvNull v = (v = VNull)"
| "avro_typed AvBoolean v = is_VBool v"
| "avro_typed AvInt v = small_int v"
| "avro_typed AvLong v = small_int v"
| "avro_typed AvFloat v = (case v of VNumber n \<Rightarrow> single_value n | _ \<Rightarrow> False)"
| "avro_typed AvDouble v = (case v of VNumber n \<Rightarrow> double_value n | _ \<Rightarrow> False)"
| "avro_typed AvBytes v = (case v of VBuffer b \<Rightarrow> length b < 2 ^ 30 | _ \<Rightarrow> False)"
| "avro_typed AvString v = (case v of VString s \<Rightarrow> short_text s | _ \<Rightarrow> False)"
| "avro_typed (AvUnion ts) v =
     (case ts of [] \<Rightarrow> False | t # _ \<Rightarrow> matchesType v t \<and> avro_typed t v)"
| "avro_typed (AvRecord name flds) v =
     (case v of
        VObject es \<Rightarrow>
          object_entries es \<and> map fst es = map fst flds \<and> distinct (map fst flds) \<and>
          (\<forall>(fname, ty, dflt) \<in> set flds. fname \<noteq> units ''__proto__'' \<and>
             (case map_of es fname of Some x \<Rightarrow> \<not> nullish x \<and> avro_typed ty x | None \<Rightarrow> False))
      | _ \<Rightarrow> False)"
| "avro_typed (AvArray items) v =
     (case v of VArray vs \<Rightarrow> length vs < 2 ^ 30 \<and> (\<forall>x \<in> set vs. avro_typed items x) | _ \<Rightarrow> False)"
| "avro_typed (AvMap vals) v =
     (case v of
        VObject es \<Rightarrow> object_entries es \<and> length es < 2 ^ 30 \<and>
          (\<forall>(k, x) \<in> set es. short_text k \<and> k \<noteq> units ''__proto__'' \<and> avro_typed vals x)
      | _ \<Rightarrow> False)"
| "avro_typed (AvEnum name symbols) v =
     (case v of VString s \<Rightarrow> s \<in> set symbols \<and> length symbols < 2 ^ 30 | _ \<Rightarrow> False)"
| "avro_typed (AvFixed name sz) v = (case v of VBuffer b \<Rightarrow> length b = sz | _ \<Rightarrow> False)"
  by pat_completeness auto
termination
  by (relation "measure (\<lambda>(t, v). size t)") (auto simp: less_Suc_eq_le intro: size_fields)

lemma long_roundtrip [simp]:
  assumes "- (2 ^ 30) \<le> n" "n < 2 ^ 30"
  shows "decodeLong (encodeLong n @ rest) = (n, rest)"
proof -
  have z: "zigzag n = (if n < 0 then - 2 * n - 1 else 2 * n)" using zigzag_small [OF assms] .
  then have "0 \<le> zigzag n" "zigzag n < 2 ^ 31" using assms by auto
  then show ?thesis
    using unzigzag_zigzag [OF assms]
    by (simp add: decodeLong_def encodeLong_def varint_roundtrip)
qed

lemma length_roundtrip [simp]:
  "n < 2 ^ 30 \<Longrightarrow> decodeLong (encodeLong (int n) @ rest) = (int n, rest)"
  by (rule long_roundtrip) simp_all

lemma sized_roundtrip [simp]:
  "length data < 2 ^ 30 \<Longrightarrow> read_sized (with_length data @ rest) = Inr (data, rest)"
  by (simp add: read_sized_def with_length_def)

lemma index_of_symbol:
  "s \<in> set symbols \<Longrightarrow> 0 \<le> index_of s symbols \<and> index_of s symbols < int (length symbols) \<and>
   symbols ! nat (index_of s symbols) = s"
  by (induction symbols) (auto simp: Let_def nat_add_distrib)

text \<open>The statement of the round trip at one schema and value.\<close>

definition comes_back :: "avro_type \<Rightarrow> js_value \<Rightarrow> bool" where
  "comes_back t v \<longleftrightarrow>
     (\<exists>bs. encodeValue t v = Inr bs \<and> (\<forall>rest. decodeValue t (bs @ rest) = Inr (v, rest)))"

lemma comes_backD:
  "comes_back t v \<Longrightarrow> encodeValue t v = Inr bs \<Longrightarrow> decodeValue t (bs @ rest) = Inr (v, rest)"
  by (auto simp: comes_back_def)

lemma comes_back_total: "comes_back t v \<Longrightarrow> \<exists>bs. encodeValue t v = Inr bs"
  by (auto simp: comes_back_def)

lemma array_comes_back:
  assumes "\<And>x. x \<in> set vs \<Longrightarrow> comes_back items x" "length vs < 2 ^ 30"
  shows "comes_back (AvArray items) (VArray vs)"
proof -
  have "\<forall>x \<in> set vs. \<exists>b. encodeValue items x = Inr b" using assms(1) comes_back_total by simp
  then obtain bs where bs: "enc_all (encodeValue items) vs = Inr bs"
    using enc_all_total [of "encodeValue items" vs] by auto
  then have "read_items (decodeValue items) (length vs) (bs @ rest) = Inr (map (\<lambda>v. v) vs, rest)" for rest
    by (intro read_items_enc_all [OF _ bs] comes_backD assms(1))
  with bs assms(2) show ?thesis by (simp add: comes_back_def)
qed

lemma map_comes_back:
  assumes "\<And>k x. (k, x) \<in> set es \<Longrightarrow> short_text k \<and> k \<noteq> units ''__proto__'' \<and> comes_back vals x"
    and "object_entries es" "length es < 2 ^ 30"
  shows "comes_back (AvMap vals) (VObject es)"
proof -
  let ?e = "\<lambda>(k, x). and_then (encodeValue vals x) (\<lambda>b. Inr (avro_encodeString k @ b))"
  let ?d = "\<lambda>b. and_then (read_sized b) (\<lambda>(k, b1). and_then (decodeValue vals b1) (\<lambda>(v, b2).
      if from_utf8 k = units ''__proto__'' then Inl OutOfModel else Inr ((from_utf8 k, v), b2)))"
  have "\<exists>b. ?e (k, x) = Inr b" if "(k, x) \<in> set es" for k x
    using assms(1) [OF that] comes_back_total [of vals x] by auto
  then obtain bs where bs: "enc_all ?e es = Inr bs"
    using enc_all_total [of ?e es] by (metis surj_pair)
  have "read_items ?d (length es) (bs @ rest) = Inr (map (\<lambda>p. p) es, rest)" for rest
  proof (rule read_items_enc_all [OF _ bs])
    fix p c r
    assume p: "p \<in> set es" "?e p = Inr c"
    obtain k x where kx: "p = (k, x)" by (cases p)
    with p obtain b where b: "encodeValue vals x = Inr b" "c = with_length (to_utf8 k) @ b"
      by (auto simp: and_then_Inr avro_encodeString_def Let_def with_length_def)
    with p kx assms(1) [of k x] comes_backD [of vals x b r] show "?d (c @ r) = Inr (p, r)"
      by (simp add: short_text_def utf8_roundtrip)
  qed
  with bs assms(2,3) show ?thesis by (simp add: comes_back_def object_entries_def)
qed

lemma record_comes_back:
  assumes "\<And>fname ty dflt. (fname, ty, dflt) \<in> set flds \<Longrightarrow> fname \<noteq> units ''__proto__'' \<and>
      (\<exists>x. map_of es fname = Some x \<and> \<not> nullish x \<and> comes_back ty x)"
    and "object_entries es" "map fst es = map fst flds" "distinct (map fst flds)"
  shows "comes_back (AvRecord name flds) (VObject es)"
proof -
  let ?e = "\<lambda>(fname, ty, dflt). and_then (get_property fname es) (\<lambda>raw.
      let x = field_value dflt raw in if nullish x then Inr encodeNull else encodeValue ty x)"
  let ?d = "\<lambda>(fname, ty, dflt) b. if fname = units ''__proto__'' then Inl OutOfModel
      else and_then (decodeValue ty b) (\<lambda>(v, r). Inr ((fname, v), r))"
  have e: "?e (fname, ty, dflt) = encodeValue ty x"
    if "map_of es fname = Some x" "\<not> nullish x" for fname ty dflt x
    using that by (simp add: get_property_def field_value_def)
  have "\<exists>b. ?e f = Inr b" if "f \<in> set flds" for f
    using assms(1) [of "fst f" "fst (snd f)" "snd (snd f)"] that e comes_back_total
    by (cases f) fastforce
  then obtain bs where bs: "enc_all ?e flds = Inr bs" using enc_all_total [of ?e flds] by blast
  have "read_seq ?d flds (bs @ rest) = Inr (map (\<lambda>f. (fst f, the (map_of es (fst f)))) flds, rest)" for rest
  proof (rule read_seq_enc_all [OF _ bs])
    fix f c r
    assume f: "f \<in> set flds" "?e f = Inr c"
    obtain fname ty dflt where ftd: "f = (fname, ty, dflt)" by (cases f)
    with assms(1) f obtain x where x: "fname \<noteq> units ''__proto__''" "map_of es fname = Some x"
      "\<not> nullish x" "comes_back ty x" by blast
    with f ftd e have "encodeValue ty x = Inr c" by simp
    with x ftd comes_backD [of ty x c r] show "?d f (c @ r) = Inr ((fst f, the (map_of es (fst f))), r)"
      by simp
  qed
  moreover have "map (\<lambda>f. (fst f, the (map_of es (fst f)))) flds = es"
  proof -
    have "map (\<lambda>f. (fst f, the (map_of es (fst f)))) flds = map (\<lambda>k. (k, the (map_of es k))) (map fst es)"
      unfolding assms(3) map_map o_def ..
    also have "\<dots> = es" using assms(3,4) unfolding map_map by (intro map_idI) auto
    finally show ?thesis .
  qed
  ultimately show ?thesis using bs assms(2) by (simp add: comes_back_def object_entries_def)
qed

lemma avro_comes_back: "avro_typed t v \<Longrightarrow> comes_back t v"
proof (induction t arbitrary: v)
  case (AvRecord name flds)
  then obtain es where v: "v = VObject es" by (auto split: js_value.splits)
  show ?case
    unfolding v
  proof (rule record_comes_back)
    fix fname ty dflt
    assume f: "(fname, ty, dflt) \<in> set flds"
    with AvRecord.prems v have p: "fname \<noteq> units ''__proto__''"
      "case map_of es fname of Some x \<Rightarrow> \<not> nullish x \<and> avro_typed ty x | None \<Rightarrow> False" by auto
    then obtain x where "map_of es fname = Some x" "\<not> nullish x" "avro_typed ty x"
      by (auto split: option.splits)
    with p(1) AvRecord.IH [OF f, of "(ty, dflt)" ty x]
    show "fname \<noteq> units ''__proto__'' \<and>
        (\<exists>x. map_of es fname = Some x \<and> \<not> nullish x \<and> comes_back ty x)" by simp
  qed (use AvRecord.prems v in auto)
next
  case (AvArray items)
  then obtain vs where "v = VArray vs" by (auto split: js_value.splits)
  with AvArray show ?case by (auto intro: array_comes_back)
next
  case (AvMap vals)
  then obtain es where "v = VObject es" by (auto split: js_value.splits)
  with AvMap show ?case by (auto intro!: map_comes_back)
next
  case (AvUnion ts)
  then obtain t us where "ts = t # us" "matchesType v t" "avro_typed t v" by (auto split: list.splits)
  with AvUnion.IH [of t v] show ?case by (simp add: comes_back_def)
next
  case (AvEnum name symbols)
  then obtain s where s: "v = VString s" "s \<in> set symbols" "length symbols < 2 ^ 30"
    by (auto split: js_value.splits)
  with index_of_symbol [OF s(2)] have "- (2 ^ 30) \<le> index_of s symbols" "index_of s symbols < 2 ^ 30"
    by auto
  with s(1) index_of_symbol [OF s(2)] show ?case by (simp add: comes_back_def avro_symbol_def)
next
  case AvFloat
  then obtain n where n: "v = VNumber n" "single_value n" by (auto split: js_value.splits)
  then show ?case by (simp add: comes_back_def encode_number_def single_value_def)
next
  case AvDouble
  then obtain n where n: "v = VNumber n" "double_value n" by (auto split: js_value.splits)
  then show ?case by (simp add: comes_back_def encode_number_def)
next
  case AvInt
  then show ?case
    by (auto simp: comes_back_def small_int_def encode_integer_def split: js_value.splits js_number.splits)
next
  case AvLong
  then show ?case
    by (auto simp: comes_back_def small_int_def encode_integer_def split: js_value.splits js_number.splits)
next
  case AvBoolean
  then obtain b where "v = VBool b" by (auto simp: is_VBool_def)
  then show ?case by (simp add: comes_back_def)
qed (auto simp: comes_back_def short_text_def utf8_roundtrip split: js_value.splits)

subsection \<open>The shape of what is decoded\<close>

text \<open>The shape a schema gives to what is decoded.\<close>

function (sequential) avro_shape :: "avro_type \<Rightarrow> js_value \<Rightarrow> bool" where
  "avro_shape AvNull v = (v = VNull)"
| "avro_shape AvBoolean v = is_VBool v"
| "avro_shape AvInt v = (case v of VNumber (NumInt n) \<Rightarrow> - (2 ^ 31) \<le> n \<and> n < 2 ^ 31 | _ \<Rightarrow> False)"
| "avro_shape AvLong v = (case v of VNumber (NumInt n) \<Rightarrow> - (2 ^ 31) \<le> n \<and> n < 2 ^ 31 | _ \<Rightarrow> False)"
| "avro_shape AvFloat v = is_VNumber v"
| "avro_shape AvDouble v = is_VNumber v"
| "avro_shape AvBytes v = is_VBuffer v"
| "avro_shape AvString v = is_VString v"
| "avro_shape (AvUnion ts) v = (case ts of [] \<Rightarrow> False | t # _ \<Rightarrow> avro_shape t v)"
| "avro_shape (AvRecord name flds) v =
     (case v of
        VObject es \<Rightarrow> fst ` set es = fst ` set flds \<and>
          (\<forall>(k, x) \<in> set es. \<exists>(fname, ty, dflt) \<in> set flds. fname = k \<and> avro_shape ty x)
      | _ \<Rightarrow> False)"
| "avro_shape (AvArray items) v = (case v of VArray vs \<Rightarrow> (\<forall>x \<in> set vs. avro_shape items x) | _ \<Rightarrow> False)"
| "avro_shape (AvMap vals) v =
     (case v of VObject es \<Rightarrow> (\<forall>(k, x) \<in> set es. avro_shape vals x) | _ \<Rightarrow> False)"
| "avro_shape (AvEnum name symbols) v =
     (v = VUndefined \<or> (case v of VString s \<Rightarrow> s \<in> set symbols | _ \<Rightarrow> False))"
| "avro_shape (AvFixed name sz) v = (case v of VBuffer b \<Rightarrow> length b \<le> sz | _ \<Rightarrow> False)"
  by pat_completeness auto
termination
  by (relation "measure (\<lambda>(t, v). size t)") (auto simp: less_Suc_eq_le intro: size_fields)

lemma record_shape:
  assumes "list_all2 (\<lambda>f e. fst e = fst f \<and> avro_shape (fst (snd f)) (snd e)) flds es"
  shows "avro_shape (AvRecord name flds) (VObject (build_object es))"
proof -
  have "map fst es = map fst flds" using assms by (induction rule: list_all2_induct) auto
  then have "fst ` set es = fst ` set flds" by (metis list.set_map)
  moreover have "\<exists>(fname, ty, dflt) \<in> set flds. fname = k \<and> avro_shape ty x"
    if "(k, x) \<in> set es" for k x
    using assms that by (induction rule: list_all2_induct) fastforce+
  ultimately show ?thesis
    using build_object_set [of es] build_object_keys [of es] by auto
qed

lemma decode_shape: "decodeValue t bs = Inr (v, r) \<Longrightarrow> avro_shape t v"
proof (induction t arbitrary: bs v r)
  case (AvRecord name flds)
  let ?d = "\<lambda>(fname, ty, dflt) b. if fname = units ''__proto__'' then Inl OutOfModel
      else and_then (decodeValue ty b) (\<lambda>(v, r). Inr ((fname, v), r))"
  from AvRecord.prems obtain es where es: "read_seq ?d flds bs = Inr (es, r)"
    "v = VObject (build_object es)" by (auto simp: and_then_Inr)
  have "list_all2 (\<lambda>f e. fst e = fst f \<and> avro_shape (fst (snd f)) (snd e)) flds es"
  proof (rule read_seq_all [OF _ es(1)])
    fix f b e r'
    assume f: "f \<in> set flds" "?d f b = Inr (e, r')"
    obtain fname ty dflt where ftd: "f = (fname, ty, dflt)" by (cases f)
    with f obtain x where "decodeValue ty b = Inr (x, r')" "e = (fname, x)"
      by (auto simp: and_then_Inr split: if_splits)
    with AvRecord.IH [of f "(ty, dflt)" ty b x r'] f(1) ftd
    show "fst e = fst f \<and> avro_shape (fst (snd f)) (snd e)" by simp
  qed
  with es(2) show ?case using record_shape by simp
next
  case (AvArray items)
  then obtain vs where vs: "read_items (decodeValue items) (nat (fst (decodeLong bs))) (snd (decodeLong bs)) =
      Inr (vs, r)" "v = VArray vs" by (auto simp: Let_def and_then_Inr)
  have "avro_shape items x" if "x \<in> set vs" for x
    using read_items_all [OF AvArray.IH vs(1) that] .
  with vs(2) show ?case by simp
next
  case (AvMap vals)
  let ?d = "\<lambda>b. and_then (read_sized b) (\<lambda>(k, b1). and_then (decodeValue vals b1) (\<lambda>(v, b2).
      if from_utf8 k = units ''__proto__'' then Inl OutOfModel else Inr ((from_utf8 k, v), b2)))"
  from AvMap.prems obtain es where es: "read_items ?d (nat (fst (decodeLong bs))) (snd (decodeLong bs)) =
      Inr (es, r)" "v = VObject (build_object es)" by (auto simp: Let_def and_then_Inr)
  have "avro_shape vals (snd e)" if e: "e \<in> set es" for e
  proof (rule read_items_all [OF _ es(1) e])
    fix b e r'
    assume "?d b = Inr (e, r')"
    then show "avro_shape vals (snd e)"
      by (auto simp: and_then_Inr split: if_splits intro: AvMap.IH)
  qed
  with es(2) build_object_set [of es] show ?case by fastforce
next
  case (AvUnion ts)
  then obtain t us where "ts = t # us" "decodeValue t bs = Inr (v, r)" by (auto split: list.splits)
  with AvUnion.IH [of t bs v r] show ?case by simp
next
  case AvBoolean
  then show ?case by (cases bs) auto
next
  case AvInt
  then show ?case using unzigzag_range by (auto simp: Let_def decodeLong_def)
next
  case AvLong
  then show ?case using unzigzag_range by (auto simp: Let_def decodeLong_def)
qed (auto simp: and_then_Inr avro_symbol_def Let_def)

subsection \<open>The properties\<close>



text \<open>A record whose values fit its schema (31-bit integers, short well-formed text, no null
  field, unions by their first member) comes back unchanged, also from a buffer that holds several
  records one after the other.\<close>

theorem avro_records_come_back:
  assumes "\<forall>es \<in> set recs. avro_typed (AvRecord (avs_name schema) (avs_fields schema)) (VObject es)"
  shows "\<exists>bs. encodeMany schema recs = Inr bs \<and>
     decodeMany schema bs (length recs) = Inr (map VObject recs) \<and>
     (\<forall>es. recs = [es] \<longrightarrow> encodeAvro schema es = Inr bs \<and> decodeAvro schema bs = Inr (VObject es))"
proof -
  let ?t = "AvRecord (avs_name schema) (avs_fields schema)"
  have cb: "comes_back ?t (VObject es)" if "es \<in> set recs" for es
    using assms that avro_comes_back by blast
  then have "\<forall>es \<in> set recs. \<exists>b. encodeAvro schema es = Inr b"
    unfolding encodeAvro_def using comes_back_total by blast
  then obtain bs where bs: "enc_all (encodeAvro schema) recs = Inr bs"
    using enc_all_total [of "encodeAvro schema" recs] by auto
  have "read_items (decodeValue ?t) (length recs) (bs @ []) = Inr (map VObject recs, [])"
    by (rule read_items_enc_all [OF _ bs]) (auto simp: encodeAvro_def simp del: encodeValue.simps decodeValue.simps intro: comes_backD cb)
  then have many: "decodeMany schema bs (length recs) = Inr (map VObject recs)"
    by (simp add: decodeMany_def)
  have "encodeAvro schema es = Inr bs \<and> decodeAvro schema bs = Inr (VObject es)"
    if v: "recs = [es]" for es
  proof -
    from bs v have e: "encodeAvro schema es = Inr bs" by (auto simp: and_then_Inr)
    then have "decodeValue ?t (bs @ []) = Inr (VObject es, [])"
      using v by (intro comes_backD cb) (simp_all add: encodeAvro_def del: encodeValue.simps)
    with e show ?thesis by (simp add: decodeAvro_def del: decodeValue.simps)
  qed
  with bs many show ?thesis unfolding encodeMany_def by blast
qed

theorem avro_records_come_back_witness:
  "\<exists>bs. encodeAvro \<lparr>avs_name = [], avs_fields =
        [(units ''n'', AvLong, None), (units ''t'', AvArray AvString, None)]\<rparr>
        [(units ''n'', VNumber (NumInt (-7))), (units ''t'', VArray [VString (units ''x'')])] = Inr bs \<and>
     decodeAvro \<lparr>avs_name = [], avs_fields =
        [(units ''n'', AvLong, None), (units ''t'', AvArray AvString, None)]\<rparr> bs =
       Inr (VObject [(units ''n'', VNumber (NumInt (-7))), (units ''t'', VArray [VString (units ''x'')])])"
proof -
  let ?s = "\<lparr>avs_name = [], avs_fields =
      [(units ''n'', AvLong, None), (units ''t'', AvArray AvString, None)]\<rparr>"
  let ?es = "[(units ''n'', VNumber (NumInt (-7))), (units ''t'', VArray [VString (units ''x'')])]"
  have a: "ascii ''n''" "ascii ''t''" "ascii ''x''" by (simp_all add: ascii_def)
  have "index_key (units ''n'') = None" "index_key (units ''t'') = None"
    by (simp_all add: index_key_def units_def)
  with a have "avro_typed (AvRecord (avs_name ?s) (avs_fields ?s)) (VObject ?es)"
    by (simp add: object_entries_def build_object_def set_property_def units_eq_iff small_int_def
        short_text_def ascii_units ascii_utf8 nullish_def)
  then show ?thesis using avro_records_come_back [of "[?es]" ?s] by auto
qed

text \<open>An optional field is lost: for the usual type, the union of null and another type, the
  encoder writes no index of the member it took and the decoder always reads the first one, null.\<close>

theorem avro_optional_field_lost:
  assumes "\<not> nullish v" "matchesType v t" "f \<notin> set (map units object_prototype_keys)"
    and "encodeValue t v = Inr bs"
  shows "encodeAvro \<lparr>avs_name = n, avs_fields = [(f, AvUnion [AvNull, t], None)]\<rparr> [(f, v)] = Inr bs \<and>
     decodeAvro \<lparr>avs_name = n, avs_fields = [(f, AvUnion [AvNull, t], None)]\<rparr> bs =
       Inr (VObject [(f, VNull)])"
proof -
  have "f \<noteq> units ''__proto__''" using assms(3) by (auto simp: object_prototype_keys_def)
  moreover have "build_object [(f, VNull)] = [(f, VNull)]"
    by (auto simp: build_object_def set_property_def split: option.splits)
  ultimately show ?thesis
    using assms(1,2,4)
    by (simp add: encodeAvro_def decodeAvro_def get_property_def field_value_def)
qed

theorem avro_optional_field_lost_witness:
  "decodeAvro \<lparr>avs_name = [], avs_fields = [(units ''f'', AvUnion [AvNull, AvBoolean], None)]\<rparr> [1] =
     Inr (VObject [(units ''f'', VNull)])"
proof -
  have "units ''f'' \<notin> set (map units object_prototype_keys)"
    by (simp add: object_prototype_keys_def units_eq_iff)
  then show ?thesis
    using avro_optional_field_lost [of "VBool True" AvBoolean "units ''f''" "[1]" "[]"]
    by (simp add: nullish_def)
qed

text \<open>A long from 2^30 on does not come back: the shift wraps to a negative number, the loop
  writes a single byte, and only the low six bits are read back.\<close>

theorem avro_large_longs_truncated:
  assumes "2 ^ 30 \<le> n" "n < 2 ^ 31"
  shows "encodeLong n = [word_of_int (2 * n mod 128)] \<and>
     decodeLong (encodeLong n @ rest) = (n mod 64, rest)"
proof -
  have t: "to_int32 n = n" using assms by (intro to_int32_id) simp_all
  have "(2 * n) mod 2 ^ 32 = 2 * n" using assms by (intro mod_pos_pos_trivial) simp_all
  then have "to_int32 (2 * n) = 2 * n - 2 ^ 32"
    using assms by (simp add: to_int32_def to_signed_def to_unsigned_def nat_less_iff)
  with t assms have z: "zigzag n = 2 * n - 2 ^ 32"
    by (simp add: zigzag_def shl32_def push_bit_eq_mult mult.commute)
  have "to_int32 (2 * n - 2 ^ 32) = 2 * n - 2 ^ 32" using assms by (intro to_int32_id) simp_all
  moreover have "(2 * n - 2 ^ 32) mod 128 = 2 * n mod 128" by (simp add: mod_diff_eq [symmetric])
  ultimately have e: "encodeLong n = [word_of_int (2 * n mod 128)]"
    using assms unfolding encodeLong_def z by (subst encodeVarint.simps) (simp add: int_and_127)
  have m: "2 * n mod 128 = 2 * (n mod 64)" by (simp add: mult_mod_right)
  have s: "- (2 ^ 30) \<le> n mod 64" "n mod 64 < 2 ^ 30"
    using pos_mod_bound [of 64 n] pos_mod_sign [of 64 n] by simp_all
  have "zigzag (n mod 64) = 2 * n mod 128" using zigzag_small [OF s] m by simp
  then have "encodeLong (n mod 64) = encodeLong n"
    using e varint_head(2) [of "2 * n mod 128"] by (simp add: encodeLong_def)
  then show ?thesis using e long_roundtrip [OF s] by simp
qed

theorem avro_large_longs_truncated_witness:
  "decodeLong (encodeLong 1073741829) = (5, [])"
  using avro_large_longs_truncated [of 1073741829 "[]", THEN conjunct2] by simp

end
