(* ===== verification/Protobuf.thy ===== *)
theory Protobuf
  imports Varint
begin

section \<open>The Protobuf codec\<close>

text \<open>
  packages/core/src/serialization/protobuf.ts: keys, varints (theory Varint), ProtobufEncoder and
  ProtobufDecoder. The object \<open>fields\<close>, whose keys are field numbers, is the list of its entries
  in the order of Object.entries, ascending by number. A varint of a value that is not an integer
  is outside the model. The lemmas show the round trip of messages whose numbers fit, and what
  becomes of a negative number.
\<close>

datatype wire_type = WtVarint | WtFixed64 | WtLengthDelimited | WtFixed32

type_synonym pb_fields = "(nat \<times> wire_type \<times> js_value) list"
type_synonym pb_message = "(int \<times> wire_type \<times> js_value) list"
type_synonym field_map = "(js_text \<times> nat \<times> wire_type) list"

fun wireTypeToInt :: "wire_type \<Rightarrow> int" where
  "wireTypeToInt WtVarint = 0"
| "wireTypeToInt WtFixed64 = 1"
| "wireTypeToInt WtLengthDelimited = 2"
| "wireTypeToInt WtFixed32 = 5"

definition getWireTypeName :: "int \<Rightarrow> wire_type codec" where
  "getWireTypeName wt =
     (if wt = 0 then Inr WtVarint
      else if wt = 1 then Inr WtFixed64
      else if wt = 2 then Inr WtLengthDelimited
      else if wt = 5 then Inr WtFixed32
      else Inl (Throws (JsError (''Unknown wire type: '' @ show_int wt))))"

definition encodeKey :: "int \<Rightarrow> int \<Rightarrow> bytes" where
  "encodeKey fieldNumber wireType = encodeVarint (shl32 fieldNumber 3 OR wireType)"

definition decodeKey :: "bytes \<Rightarrow> (int \<times> int) \<times> bytes" where
  "decodeKey bs = (let vr = decodeVarint bs in ((sar32 (fst vr) 3, fst vr AND 7), snd vr))"

definition encodeFloat32 :: "js_number \<Rightarrow> bytes" where
  "encodeFloat32 n = put_le 4 (single_of_bits (bits_of_number n))"

definition encodeFloat64 :: "js_number \<Rightarrow> bytes" where
  "encodeFloat64 n = put_le 8 (unat (bits_of_number n))"

definition decodeFloat32 :: "bytes \<Rightarrow> (js_value \<times> bytes) codec" where
  "decodeFloat32 bs =
     and_then (read_le 4 bs) (\<lambda>(b, r). Inr (VNumber (number_of_bits (widen_single b)), r))"

definition decodeFloat64 :: "bytes \<Rightarrow> (js_value \<times> bytes) codec" where
  "decodeFloat64 bs =
     and_then (read_le 8 bs) (\<lambda>(b, r). Inr (VNumber (number_of_bits (word_of_nat b)), r))"

definition encodeSignedVarint :: "int \<Rightarrow> bytes" where
  "encodeSignedVarint value = encodeVarint (zigzag value)"

definition encodeLengthDelimited :: "bytes \<Rightarrow> bytes" where
  "encodeLengthDelimited data = encodeVarint (int (length data)) @ data"

subsection \<open>The encoder\<close>

definition encode_varint_value :: "js_value \<Rightarrow> bytes codec" where
  "encode_varint_value v =
     (case v of VNumber (NumInt n) \<Rightarrow> Inr (encodeVarint n)
      | VNumber (NumBits w) \<Rightarrow> if w = minus_zero then Inr (encodeVarint 0) else Inl OutOfModel
      | _ \<Rightarrow> Inl OutOfModel)"

definition encode_field :: "nat \<times> wire_type \<times> js_value \<Rightarrow> bytes codec" where
  "encode_field f =
     (case f of (fieldNumber, wt, v) \<Rightarrow>
        and_then
          (case wt of
             WtVarint \<Rightarrow> encode_varint_value v
           | WtFixed64 \<Rightarrow> encode_number encodeFloat64 v
           | WtFixed32 \<Rightarrow> encode_number encodeFloat32 v
           | WtLengthDelimited \<Rightarrow>
               and_then (buffer_from v) (\<lambda>data. Inr (encodeLengthDelimited data)))
          (\<lambda>bs. Inr (encodeKey (int fieldNumber) (wireTypeToInt wt) @ bs)))"

definition pb_encode :: "pb_fields \<Rightarrow> bytes codec" where
  "pb_encode flds = enc_all encode_field flds"

text \<open>\<open>fields[number] = { wireType, value }\<close>.\<close>

fun put_field :: "nat \<Rightarrow> wire_type \<times> js_value \<Rightarrow> pb_fields \<Rightarrow> pb_fields" where
  "put_field n x [] = [(n, x)]"
| "put_field n x ((m, y) # fs) =
     (if n = m then (n, x) # fs
      else if n < m then (n, x) # (m, y) # fs
      else (m, y) # put_field n x fs)"

text \<open>The loop of encodeMessage; the lookup in fieldMap finds inherited members too.\<close>

fun collect_fields :: "field_map \<Rightarrow> js_value entries \<Rightarrow> pb_fields \<Rightarrow> pb_fields codec" where
  "collect_fields fieldMap [] flds = Inr flds"
| "collect_fields fieldMap ((key, v) # es) flds =
     (case map_of fieldMap key of
        Some (n, wt) \<Rightarrow> collect_fields fieldMap es (put_field n (wt, v) flds)
      | None \<Rightarrow> if key \<in> set (map units object_prototype_keys) then Inl OutOfModel
                else collect_fields fieldMap es flds)"

definition encodeMessage :: "js_value entries \<Rightarrow> field_map \<Rightarrow> bytes codec" where
  "encodeMessage message fieldMap = and_then (collect_fields fieldMap message []) pb_encode"

subsection \<open>The decoder\<close>

text \<open>One turn of the loop of decode; a negative length moves the offset backwards and is outside
  the model.\<close>

definition decode_field :: "bytes \<Rightarrow> ((int \<times> wire_type \<times> js_value) \<times> bytes) codec" where
  "decode_field bs =
     (let kr = decodeKey bs; fieldNumber = fst (fst kr); wt = snd (fst kr); r = snd kr
      in and_then
           (if wt = 0 then let vr = decodeVarint r in Inr (VNumber (NumInt (fst vr)), snd vr)
            else if wt = 1 then decodeFloat64 r
            else if wt = 2 then
              let lr = decodeVarint r
              in if fst lr < 0 then Inl OutOfModel
                 else Inr (VBuffer (take (nat (fst lr)) (snd lr)), drop (nat (fst lr)) (snd lr))
            else if wt = 5 then decodeFloat32 r
            else Inl (Throws (JsError (''Unknown wire type: '' @ show_int wt))))
           (\<lambda>(v, r'). and_then (getWireTypeName wt) (\<lambda>name. Inr ((fieldNumber, name, v), r'))))"

lemma decode_loop_length: "length (snd (decode_loop s v bs)) \<le> length bs"
  by (induction s v bs rule: decode_loop.induct) (auto simp: Let_def le_SucI)

lemma decodeVarint_length: "length (snd (decodeVarint (b # bs))) \<le> length bs"
  using decode_loop_length by (auto simp: decodeVarint_def Let_def)

lemma decodeVarint_length': "length (snd (decodeVarint bs)) \<le> length bs"
  using decode_loop_length by (simp add: decodeVarint_def)

lemma read_le_length: "read_le k bs = Inr (x, r) \<Longrightarrow> length bs = k + length r"
  by (auto simp: read_le_def split: if_splits)

lemma decode_field_consumes: "bs \<noteq> [] \<Longrightarrow> decode_field bs = Inr (f, r) \<Longrightarrow> length r < length bs"
proof -
  assume "bs \<noteq> []" and d: "decode_field bs = Inr (f, r)"
  then obtain b bs' where "bs = b # bs'" by (cases bs) auto
  then have k: "length (snd (decodeKey bs)) < length bs"
    using decodeVarint_length [of b bs'] by (simp add: decodeKey_def Let_def less_Suc_eq_le)
  have "length r \<le> length (snd (decodeKey bs))"
    using d decodeVarint_length' [of "snd (decodeKey bs)"]
    by (auto simp: decode_field_def Let_def and_then_Inr decodeFloat32_def decodeFloat64_def
        dest!: read_le_length split: if_splits)
  with k show ?thesis by simp
qed

text \<open>\<open>while (offset < buffer.length)\<close>.\<close>

function pb_decode :: "bytes \<Rightarrow> pb_message codec" where
  "pb_decode bs =
     (if bs = [] then Inr []
      else and_then (decode_field bs) (\<lambda>(f, r).
           and_then (pb_decode r) (\<lambda>fs. Inr (f # fs))))"
  by pat_completeness auto
termination
  by (relation "measure length") (auto dest: decode_field_consumes)

declare pb_decode.simps [simp del]

text \<open>The key the reverse map gives for a field number: the last entry of the field map wins.\<close>

definition reverse_key :: "field_map \<Rightarrow> int \<Rightarrow> js_text option" where
  "reverse_key fieldMap number =
     map_of (rev (map (\<lambda>(key, n, wt). (int n, key)) fieldMap)) number"

definition field_text :: "wire_type \<Rightarrow> js_value \<Rightarrow> js_value" where
  "field_text wt v =
     (case v of VBuffer b \<Rightarrow> if wt = WtLengthDelimited then VString (from_utf8 b) else v | _ \<Rightarrow> v)"

fun assign_fields :: "field_map \<Rightarrow> pb_message \<Rightarrow> js_value entries \<Rightarrow> js_value entries codec" where
  "assign_fields fieldMap [] result = Inr result"
| "assign_fields fieldMap ((n, wt, v) # fs) result =
     (case reverse_key fieldMap n of
        None \<Rightarrow> assign_fields fieldMap fs result
      | Some key \<Rightarrow>
          if key = units ''__proto__'' then Inl OutOfModel
          else assign_fields fieldMap fs (set_property key (field_text wt v) result))"

definition decodeToObject :: "bytes \<Rightarrow> field_map \<Rightarrow> js_value codec" where
  "decodeToObject buffer fieldMap =
     and_then (pb_decode buffer) (\<lambda>message.
     and_then (assign_fields fieldMap message []) (\<lambda>result. Inr (VObject result)))"

definition encodeProtobuf :: "pb_fields \<Rightarrow> bytes codec" where
  "encodeProtobuf flds = pb_encode flds"

definition decodeProtobuf :: "bytes \<Rightarrow> pb_message codec" where
  "decodeProtobuf buffer = pb_decode buffer"

subsection \<open>The round trip\<close>

fun pb_good :: "nat \<times> wire_type \<times> js_value \<Rightarrow> bool" where
  "pb_good (n, WtVarint, v) =
     (n < 2 ^ 28 \<and> (case v of VNumber (NumInt z) \<Rightarrow> 0 \<le> z \<and> z < 2 ^ 31 | _ \<Rightarrow> False))"
| "pb_good (n, WtFixed64, v) = (n < 2 ^ 28 \<and> (case v of VNumber x \<Rightarrow> double_value x | _ \<Rightarrow> False))"
| "pb_good (n, WtFixed32, v) = (n < 2 ^ 28 \<and> (case v of VNumber x \<Rightarrow> single_value x | _ \<Rightarrow> False))"
| "pb_good (n, WtLengthDelimited, v) =
     (n < 2 ^ 28 \<and> (case v of VBuffer b \<Rightarrow> length b < 2 ^ 31 | VString s \<Rightarrow> length (to_utf8 s) < 2 ^ 31
                   | _ \<Rightarrow> False))"

text \<open>A length-delimited string is decoded as the Buffer of its UTF-8.\<close>

definition wire_value :: "js_value \<Rightarrow> js_value" where
  "wire_value v = (case v of VString s \<Rightarrow> VBuffer (to_utf8 s) | _ \<Rightarrow> v)"

definition wire_field :: "nat \<times> wire_type \<times> js_value \<Rightarrow> int \<times> wire_type \<times> js_value" where
  "wire_field f = (case f of (n, wt, v) \<Rightarrow> (int n, wt, wire_value v))"

lemma key_roundtrip:
  assumes "n < 2 ^ 28"
  shows "decodeKey (encodeKey (int n) (wireTypeToInt wt) @ rest) = ((int n, wireTypeToInt wt), rest)"
proof -
  let ?w = "wireTypeToInt wt"
  have w: "0 \<le> ?w" "?w < 8" by (cases wt; simp)+
  have "to_int32 (int n) = int n" using assms by (intro to_int32_id) simp_all
  moreover have "to_int32 (int n * 8) = int n * 8" using assms by (intro to_int32_id) simp_all
  ultimately have s: "shl32 (int n) 3 = int n * 8" by (simp add: shl32_def push_bit_eq_mult)
  have "?w OR push_bit 3 (int n) = ?w + int n * 2 ^ 3" using w by (intro or_shifted) simp_all
  then have o: "int n * 8 OR ?w = ?w + int n * 8" by (simp add: push_bit_eq_mult or.commute)
  have b: "0 \<le> ?w + int n * 8" "?w + int n * 8 < 2 ^ 31" using assms w by auto
  have "to_int32 (?w + int n * 8) = ?w + int n * 8" using b by (intro to_int32_id) simp_all
  then have "sar32 (?w + int n * 8) 3 = int n" using w by (simp add: sar32_def drop_bit_eq_div)
  moreover have "(?w + int n * 8) AND 7 = ?w"
    using w take_bit_eq_mask [of 3 "?w + int n * 8"] by (simp add: take_bit_eq_mod mask_eq_exp_minus_1)
  ultimately show ?thesis
    using varint_roundtrip [OF b, of rest] by (simp add: decodeKey_def encodeKey_def s o)
qed

lemma encodeKey_nonempty [simp]: "encodeKey n wt \<noteq> []"
  by (simp add: encodeKey_def)

lemma wire_type_name [simp]: "getWireTypeName (wireTypeToInt wt) = Inr wt"
  by (cases wt) (simp_all add: getWireTypeName_def)

lemma field_roundtrip:
  assumes "pb_good f"
  shows "\<exists>bs. encode_field f = Inr bs \<and> bs \<noteq> [] \<and> (\<forall>rest. decode_field (bs @ rest) = Inr (wire_field f, rest))"
proof -
  obtain n wt v where f: "f = (n, wt, v)" by (cases f)
  have n: "n < 2 ^ 28" using assms f by (cases wt) auto
  note k = key_roundtrip [OF n, of wt]
  show ?thesis
  proof (cases wt)
    case WtVarint
    with assms f obtain z where z: "v = VNumber (NumInt z)" "0 \<le> z" "z < 2 ^ 31"
      by (auto split: js_value.splits js_number.splits)
    with f k WtVarint show ?thesis
      by (simp add: encode_field_def encode_varint_value_def decode_field_def varint_roundtrip
          wire_field_def wire_value_def getWireTypeName_def)
  next
    case WtFixed64
    with assms f obtain x where "v = VNumber x" "double_value x" by (auto split: js_value.splits)
    with f k WtFixed64 show ?thesis
      by (simp add: encode_field_def encode_number_def decode_field_def encodeFloat64_def
          decodeFloat64_def wire_field_def wire_value_def getWireTypeName_def)
  next
    case WtFixed32
    with assms f obtain x where "v = VNumber x" "single_value x" by (auto split: js_value.splits)
    with f k WtFixed32 show ?thesis
      by (simp add: encode_field_def encode_number_def decode_field_def encodeFloat32_def
          decodeFloat32_def single_value_def wire_field_def wire_value_def getWireTypeName_def)
  next
    case WtLengthDelimited
    with assms f obtain b where b: "buffer_from v = Inr b" "length b < 2 ^ 31" "wire_value v = VBuffer b"
      by (auto simp: wire_value_def split: js_value.splits)
    have "decodeVarint (encodeVarint (int (length b)) @ r) = (int (length b), r)" for r
      using b(2) by (intro varint_roundtrip) simp_all
    with b f k WtLengthDelimited show ?thesis
      by (simp add: encode_field_def decode_field_def encodeLengthDelimited_def wire_field_def
          getWireTypeName_def)
  qed
qed

lemma fields_roundtrip:
  "\<forall>f \<in> set flds. pb_good f \<Longrightarrow>
   \<exists>bs. pb_encode flds = Inr bs \<and> pb_decode bs = Inr (map wire_field flds)"
proof (induction flds)
  case Nil
  then show ?case by (simp add: pb_encode_def pb_decode.simps)
next
  case (Cons f flds)
  then obtain bs where bs: "pb_encode flds = Inr bs" "pb_decode bs = Inr (map wire_field flds)" by auto
  from Cons.prems field_roundtrip [of f] obtain a where a: "encode_field f = Inr a" "a \<noteq> []"
    "\<And>rest. decode_field (a @ rest) = Inr (wire_field f, rest)" by auto
  from bs a have "pb_decode (a @ bs) = Inr (map wire_field (f # flds))"
    by (subst pb_decode.simps) simp
  with bs(1) a(1) show ?case by (simp add: pb_encode_def)
qed

subsection \<open>Messages as objects\<close>

text \<open>A field map that gives every key a number of its own.\<close>

definition field_map_ok :: "field_map \<Rightarrow> bool" where
  "field_map_ok fieldMap \<longleftrightarrow>
     distinct (map fst fieldMap) \<and> distinct (map (\<lambda>(k, n, wt). n) fieldMap) \<and>
     units ''__proto__'' \<notin> fst ` set fieldMap"

definition mapped_fields :: "field_map \<Rightarrow> js_value entries \<Rightarrow> (nat \<times> wire_type \<times> js_value) set" where
  "mapped_fields fieldMap es = {(n, wt, v). \<exists>k. (k, v) \<in> set es \<and> map_of fieldMap k = Some (n, wt)}"

lemma number_key:
  assumes "field_map_ok fieldMap" "map_of fieldMap k = Some (n, wt)" "map_of fieldMap k' = Some (n, wt')"
  shows "k = k'"
proof -
  have "(k, n, wt) \<in> set fieldMap" "(k', n, wt') \<in> set fieldMap" using assms by (auto dest: map_of_SomeD)
  moreover have "inj_on (\<lambda>(k, n, wt). n) (set fieldMap)"
    using assms(1) by (simp add: field_map_ok_def distinct_map)
  ultimately have "(k, n, wt) = (k', n, wt')" by (intro inj_onD [of "\<lambda>(k, n, wt). n"]) simp_all
  then show ?thesis by simp
qed

lemma reverse_key_iff:
  assumes "field_map_ok fieldMap"
  shows "reverse_key fieldMap (int n) = Some k \<longleftrightarrow> (\<exists>wt. map_of fieldMap k = Some (n, wt))"
proof -
  let ?xs = "map (\<lambda>(key, n, wt). (int n, key)) fieldMap"
  have "map fst ?xs = map int (map (\<lambda>(k, n, wt). n) fieldMap)" by (simp add: o_def case_prod_beta)
  then have "distinct (map fst ?xs)"
    using assms unfolding field_map_ok_def by (simp add: distinct_map inj_on_def)
  then have "map_of (rev ?xs) (int n) = Some k \<longleftrightarrow> (int n, k) \<in> set ?xs"
    by (simp add: map_of_eq_Some_iff rev_map [symmetric] distinct_rev)
  also have "\<dots> \<longleftrightarrow> (\<exists>wt. (k, n, wt) \<in> set fieldMap)" by force
  also have "\<dots> \<longleftrightarrow> (\<exists>wt. map_of fieldMap k = Some (n, wt))"
    using assms by (simp add: field_map_ok_def map_of_eq_Some_iff)
  finally show ?thesis by (simp add: reverse_key_def)
qed

lemma put_field_new: "n \<notin> fst ` set fs \<Longrightarrow> set (put_field n x fs) = insert (n, x) (set fs)"
  by (induction n x fs rule: put_field.induct) auto

lemma collect_fields_set:
  assumes "field_map_ok fieldMap" "distinct (map fst es)"
    and "\<forall>k \<in> fst ` set es. map_of fieldMap k = None \<longrightarrow> k \<notin> set (map units object_prototype_keys)"
    and "\<forall>(k, v) \<in> set es. \<forall>n wt. map_of fieldMap k = Some (n, wt) \<longrightarrow> n \<notin> fst ` set flds"
  shows "\<exists>flds'. collect_fields fieldMap es flds = Inr flds' \<and>
    set flds' = set flds \<union> mapped_fields fieldMap es"
  using assms(2-)
proof (induction es arbitrary: flds)
  case Nil
  then show ?case by (auto simp: mapped_fields_def)
next
  case (Cons kv es)
  obtain k v where kv: "kv = (k, v)" by (cases kv)
  show ?case
  proof (cases "map_of fieldMap k")
    case None
    have "mapped_fields fieldMap (kv # es) = mapped_fields fieldMap es"
      using None kv by (auto simp: mapped_fields_def)
    with None kv Cons show ?thesis by auto
  next
    case (Some nw)
    obtain n wt where nw: "nw = (n, wt)" by (cases nw)
    have new: "n \<notin> fst ` set flds" using Cons.prems(3) Some kv nw by auto
    have other: "m \<noteq> n" if "(k', v') \<in> set es" "map_of fieldMap k' = Some (m, wt')" for k' v' m wt'
    proof
      assume "m = n"
      with that(2) Some nw have "k' = k" by (auto dest: number_key [OF assms(1)])
      with that(1) Cons.prems(1) kv show False by force
    qed
    have p: "\<forall>(k', v') \<in> set es. \<forall>m wt'. map_of fieldMap k' = Some (m, wt') \<longrightarrow>
        m \<notin> fst ` set (put_field n (wt, v) flds)"
    proof (intro ballI case_prodI2 allI impI)
      fix e k' v' m wt'
      assume e: "e \<in> set es" "e = (k', v')" "map_of fieldMap k' = Some (m, wt')"
      then have "m \<noteq> n" using other by blast
      moreover have "m \<notin> fst ` set flds" using bspec [OF Cons.prems(3), of e] e by simp
      ultimately show "m \<notin> fst ` set (put_field n (wt, v) flds)" by (simp add: put_field_new [OF new])
    qed
    have d: "distinct (map fst es)" using Cons.prems(1) by simp
    have o: "\<forall>k \<in> fst ` set es. map_of fieldMap k = None \<longrightarrow> k \<notin> set (map units object_prototype_keys)"
      using Cons.prems(2) by simp
    obtain flds' where "collect_fields fieldMap es (put_field n (wt, v) flds) = Inr flds'"
      "set flds' = set (put_field n (wt, v) flds) \<union> mapped_fields fieldMap es"
      using Cons.IH [OF d o p] by blast
    moreover have "mapped_fields fieldMap (kv # es) = insert (n, wt, v) (mapped_fields fieldMap es)"
      using Some nw kv by (auto simp: mapped_fields_def)
    ultimately show ?thesis using Some nw kv new by (auto simp: put_field_new)
  qed
qed

lemma assign_fields_lookup:
  assumes "field_map_ok fieldMap"
    and "\<forall>(n, wt, v) \<in> set fs. \<forall>k wt'. map_of fieldMap k = Some (n, wt') \<longrightarrow>
           map_of es k = Some (field_text wt (wire_value v))"
  shows "\<exists>r. assign_fields fieldMap (map wire_field fs) result = Inr r \<and>
    (\<forall>k. map_of r k = (if \<exists>n wt v wt'. (n, wt, v) \<in> set fs \<and> map_of fieldMap k = Some (n, wt')
                         then map_of es k else map_of result k))"
  using assms(2)
proof (induction fs arbitrary: result)
  case Nil
  then show ?case by simp
next
  case (Cons f fs)
  obtain n wt v where f: "f = (n, wt, v)" by (cases f)
  show ?case
  proof (cases "reverse_key fieldMap (int n)")
    case None
    then have "map_of fieldMap k \<noteq> Some (n, wt')" for k wt'
      using reverse_key_iff [OF assms(1), of n k] by auto
    then have m: "(\<exists>m w x w'. (m, w, x) \<in> set (f # fs) \<and> map_of fieldMap k = Some (m, w')) \<longleftrightarrow>
        (\<exists>m w x w'. (m, w, x) \<in> set fs \<and> map_of fieldMap k = Some (m, w'))" for k
      using f by auto
    have "assign_fields fieldMap (map wire_field (f # fs)) result =
        assign_fields fieldMap (map wire_field fs) result"
      using None f by (simp add: wire_field_def)
    with Cons.IH [of result] Cons.prems show ?thesis unfolding m by auto
  next
    case (Some key)
    then obtain w where w: "map_of fieldMap key = Some (n, w)" using reverse_key_iff [OF assms(1)] by auto
    then have np: "key \<noteq> units ''__proto__''"
      using assms(1) unfolding field_map_ok_def by (metis map_of_eq_None_iff option.simps(3))
    have u: "k = key" if "map_of fieldMap k = Some (n, wt')" for k wt'
      using number_key [OF assms(1) that w] .
    have e: "map_of es key = Some (field_text wt (wire_value v))" using Cons.prems f w by auto
    have p: "\<forall>(n, wt, v) \<in> set fs. \<forall>k wt'. map_of fieldMap k = Some (n, wt') \<longrightarrow>
        map_of es k = Some (field_text wt (wire_value v))" using Cons.prems by simp
    obtain r where r: "assign_fields fieldMap (map wire_field fs)
        (set_property key (field_text wt (wire_value v)) result) = Inr r"
      "\<And>k. map_of r k = (if \<exists>n wt v wt'. (n, wt, v) \<in> set fs \<and> map_of fieldMap k = Some (n, wt')
          then map_of es k else map_of (set_property key (field_text wt (wire_value v)) result) k)"
      using Cons.IH [OF p] by blast
    have "map_of r k = (if \<exists>n wt v wt'. (n, wt, v) \<in> set (f # fs) \<and> map_of fieldMap k = Some (n, wt')
        then map_of es k else map_of result k)" for k
    proof (cases "k = key")
      case True
      then show ?thesis using r(2) [of k] e w f by (auto simp: set_property_lookup)
    next
      case False
      then have "map_of fieldMap k \<noteq> Some (n, wt')" for wt' using u by blast
      then have m: "(\<exists>m w x w'. (m, w, x) \<in> set (f # fs) \<and> map_of fieldMap k = Some (m, w')) \<longleftrightarrow>
          (\<exists>m w x w'. (m, w, x) \<in> set fs \<and> map_of fieldMap k = Some (m, w'))"
        using f by auto
      show ?thesis unfolding m r(2) by (simp only: set_property_lookup False if_False)
    qed
    moreover have "assign_fields fieldMap (map wire_field (f # fs)) result = Inr r"
      using r(1) Some np f by (simp add: wire_field_def)
    ultimately show ?thesis by blast
  qed
qed

subsection \<open>The properties\<close>

text \<open>Protobuf messages come back: fields with numbers below 2^28 and values that fit their wire
  type are decoded in order, with the same numbers, types and values (a string as the Buffer of its
  UTF-8).\<close>

theorem protobuf_fields_come_back:
  assumes "\<forall>f \<in> set flds. pb_good f"
  shows "\<exists>bs. encodeProtobuf flds = Inr bs \<and> decodeProtobuf bs = Inr (map wire_field flds)"
  unfolding encodeProtobuf_def decodeProtobuf_def using fields_roundtrip [OF assms] .

theorem protobuf_fields_come_back_witness:
  "\<exists>bs. encodeProtobuf [(1, WtVarint, VNumber (NumInt 300)), (7, WtLengthDelimited, VString (units ''ab''))] =
       Inr bs \<and>
     decodeProtobuf bs = Inr [(1, WtVarint, VNumber (NumInt 300)), (7, WtLengthDelimited, VBuffer [97, 98])]"
  using protobuf_fields_come_back
    [of "[(1, WtVarint, VNumber (NumInt 300)), (7, WtLengthDelimited, VString (units ''ab''))]"]
  by (simp add: ascii_utf8 ascii_def wire_field_def wire_value_def)

text \<open>encodeMessage and decodeToObject are inverse on the mapped keys: if the field map gives
  every key a number of its own and the values fit, the decoded object has exactly the mapped keys
  of the message, with their values; the other keys are dropped.\<close>

theorem protobuf_messages_come_back:
  assumes fm: "field_map_ok fieldMap" and es: "distinct (map fst es)"
    and other: "\<forall>k \<in> fst ` set es. map_of fieldMap k = None \<longrightarrow> k \<notin> set (map units object_prototype_keys)"
    and good: "\<forall>(k, v) \<in> set es. \<forall>n wt. map_of fieldMap k = Some (n, wt) \<longrightarrow>
      pb_good (n, wt, v) \<and> field_text wt (wire_value v) = v"
  shows "\<exists>bs r. encodeMessage es fieldMap = Inr bs \<and> decodeToObject bs fieldMap = Inr (VObject r) \<and>
    (\<forall>k. map_of r k = (if map_of fieldMap k = None then None else map_of es k))"
proof -
  from collect_fields_set [OF fm es other, of "[]"] obtain flds where
    c: "collect_fields fieldMap es [] = Inr flds" and f: "set flds = mapped_fields fieldMap es" by auto
  have "\<forall>x \<in> set flds. pb_good x" using good unfolding f mapped_fields_def by fastforce
  then obtain bs where bs: "pb_encode flds = Inr bs" "pb_decode bs = Inr (map wire_field flds)"
    using fields_roundtrip by blast
  have "\<forall>(n, wt, v) \<in> set flds. \<forall>k wt'. map_of fieldMap k = Some (n, wt') \<longrightarrow>
      map_of es k = Some (field_text wt (wire_value v))"
  proof (intro ballI case_prodI2 allI impI)
    fix x n y wt v k wt'
    assume x: "x \<in> set flds" "x = (n, y)" "y = (wt, v)" and k: "map_of fieldMap k = Some (n, wt')"
    then obtain k' where k': "(k', v) \<in> set es" "map_of fieldMap k' = Some (n, wt)"
      unfolding f mapped_fields_def by auto
    with number_key [OF fm k k'(2)] have "(k, v) \<in> set es" by simp
    moreover have "field_text wt (wire_value v) = v" using bspec [OF good k'(1)] k'(2) by simp
    ultimately show "map_of es k = Some (field_text wt (wire_value v))"
      using es by (simp add: map_of_eq_Some_iff)
  qed
  from assign_fields_lookup [OF fm this, of "[]"] obtain r where
    r: "assign_fields fieldMap (map wire_field flds) [] = Inr r"
    "\<And>k. map_of r k = (if \<exists>n wt v wt'. (n, wt, v) \<in> set flds \<and> map_of fieldMap k = Some (n, wt')
       then map_of es k else map_of [] k)" by blast
  have "map_of r k = (if map_of fieldMap k = None then None else map_of es k)" for k
  proof (cases "map_of es k")
    case None
    then show ?thesis using r(2) [of k] by (simp split: if_splits)
  next
    case (Some v)
    then have v: "(k, v) \<in> set es" by (rule map_of_SomeD)
    show ?thesis
    proof (cases "map_of fieldMap k")
      case None
      then show ?thesis using r(2) [of k] by simp
    next
      case (Some nw)
      obtain n wt where "nw = (n, wt)" by (cases nw)
      with Some v have "(n, wt, v) \<in> set flds" "map_of fieldMap k = Some (n, wt)"
        unfolding f mapped_fields_def by auto
      then have "\<exists>n wt v wt'. (n, wt, v) \<in> set flds \<and> map_of fieldMap k = Some (n, wt')" by blast
      with r(2) [of k] Some show ?thesis by simp
    qed
  qed
  with c bs r(1) show ?thesis by (auto simp: encodeMessage_def decodeToObject_def)
qed

theorem protobuf_messages_come_back_witness:
  "\<exists>bs r. encodeMessage [(units ''n'', VNumber (NumInt 5)), (units ''z'', VNull), (units ''s'', VString (units ''x''))]
        [(units ''s'', 1, WtLengthDelimited), (units ''n'', 2, WtVarint)] = Inr bs \<and>
     decodeToObject bs [(units ''s'', 1, WtLengthDelimited), (units ''n'', 2, WtVarint)] = Inr (VObject r) \<and>
     map_of r (units ''n'') = Some (VNumber (NumInt 5)) \<and> map_of r (units ''z'') = None"
proof -
  let ?es = "[(units ''n'', VNumber (NumInt 5)), (units ''z'', VNull), (units ''s'', VString (units ''x''))]"
  let ?fm = "[(units ''s'', 1, WtLengthDelimited), (units ''n'', 2, WtVarint)] :: field_map"
  have fm: "field_map_ok ?fm" and es: "distinct (map fst ?es)"
    by (simp_all add: field_map_ok_def units_eq_iff)
  have x: "ascii ''x''" by (simp add: ascii_def)
  then have "from_utf8 (to_utf8 (units ''x'')) = units ''x''" by (intro utf8_roundtrip ascii_units)
  with x have good: "\<forall>(k, v) \<in> set ?es. \<forall>n wt. map_of ?fm k = Some (n, wt) \<longrightarrow>
      pb_good (n, wt, v) \<and> field_text wt (wire_value v) = v"
    by (simp add: units_eq_iff ascii_utf8 field_text_def wire_value_def)
  have other: "\<forall>k \<in> fst ` set ?es. map_of ?fm k = None \<longrightarrow> k \<notin> set (map units object_prototype_keys)"
    by (simp add: object_prototype_keys_def units_eq_iff)
  obtain bs r where r: "encodeMessage ?es ?fm = Inr bs" "decodeToObject bs ?fm = Inr (VObject r)"
    "\<And>k. map_of r k = (if map_of ?fm k = None then None else map_of ?es k)"
    using protobuf_messages_come_back [OF fm es other good] by blast
  show ?thesis
    by (intro exI [of _ bs] exI [of _ r] conjI r(1,2)) (simp_all add: r(3) units_eq_iff)
qed

text \<open>A negative number written as a plain varint does not come back: only its low seven bits are
  written, so -1 is read as 127.\<close>

theorem protobuf_negative_varints_lost:
  assumes "z < 0"
  shows "encodeVarint z = [word_of_int (z mod 128)] \<and>
    decodeVarint (encodeVarint z @ rest) = (z mod 128, rest)"
proof -
  have m: "0 \<le> z mod 128" "z mod 128 < 128" by simp_all
  have "to_int32 z mod 128 = z mod 128"
  proof -
    obtain k :: int where k: "to_int32 z = z + k * 2 ^ 32"
    proof -
      have "int (to_unsigned 32 z) = z mod 2 ^ 32" by (simp add: to_unsigned_def)
      also have "\<dots> = z + (- (z div 2 ^ 32)) * 2 ^ 32"
        using minus_div_mult_eq_mod [of z "2 ^ 32"] by simp
      finally have u: "int (to_unsigned 32 z) = z + (- (z div 2 ^ 32)) * 2 ^ 32" .
      show thesis
      proof (cases "to_unsigned 32 z < 2 ^ 31")
        case True
        with u have "to_int32 z = z + (- (z div 2 ^ 32)) * 2 ^ 32"
          by (simp add: to_int32_def to_signed_def)
        with that show ?thesis .
      next
        case False
        with u have "to_int32 z = z + (- (z div 2 ^ 32) - 1) * 2 ^ 32"
          by (simp add: to_int32_def to_signed_def left_diff_distrib)
        with that show ?thesis .
      qed
    qed
    then have "to_int32 z = z + (k * 2 ^ 25) * 128" by simp
    then show ?thesis by (simp only: mod_mult_self1)
  qed
  then have e: "encodeVarint z = [word_of_int (z mod 128)]"
    using assms by (subst encodeVarint.simps) (simp add: int_and_127)
  moreover have "encodeVarint (z mod 128) = [word_of_int (z mod 128)]"
    using m varint_head(2) [of "z mod 128"] by simp
  ultimately show ?thesis using varint_roundtrip [of "z mod 128" rest] m by simp
qed

theorem protobuf_negative_varints_lost_witness:
  "decodeVarint (encodeVarint (-1)) = (127, [])"
  using protobuf_negative_varints_lost [of "-1" "[]", THEN conjunct2] by simp

end
