(* ===== verification/JsonSchema.thy ===== *)
theory JsonSchema
  imports Prelude
begin

section \<open>The JSON helpers and the schema check\<close>

text \<open>
  packages/core/src/serialization/json.ts. validateJSON recurses over the schema; the operator
  \<open>in\<close> and the lookup \<open>obj[key]\<close> also find what an object inherits from Object.prototype, so a
  value that is looked up is an own JSON value, an inherited function or Object.prototype
  itself. The helpers around JSON.parse take the parser as an argument; it is the one of the
  runtime, a function that returns a value or throws.
\<close>

datatype looked_up = JOwn json | JFunction | JObjectPrototype

datatype json_schema = JsonSchema
  (sc_type: string)
  (sc_properties: "(string \<times> json_schema) list option")
  (sc_items: "json_schema option")
  (sc_required: "string list option")
  (sc_additional: "bool option")

definition inherited :: "string \<Rightarrow> bool" where
  "inherited key \<longleftrightarrow> key \<in> set object_prototype_keys"

text \<open>typeof value === 'object', not null and not an array.\<close>

fun plain_object :: "looked_up \<Rightarrow> bool" where
  "plain_object (JOwn v) = (case v of JObj es \<Rightarrow> True | _ \<Rightarrow> False)"
| "plain_object JFunction = False"
| "plain_object JObjectPrototype = True"

fun own_entries :: "looked_up \<Rightarrow> (string \<times> json) list" where
  "own_entries (JOwn (JObj es)) = es"
| "own_entries v = []"

text \<open>\<open>key in obj\<close>, \<open>obj[key]\<close>: Object.prototype is where the search ends, its own __proto__ is
  null.\<close>

definition key_in :: "string \<Rightarrow> looked_up \<Rightarrow> bool" where
  "key_in key v \<longleftrightarrow> key \<in> fst ` set (own_entries v) \<or> inherited key"

definition look_up :: "string \<Rightarrow> looked_up \<Rightarrow> looked_up" where
  "look_up key v =
     (case map_of (own_entries v) key of
        Some x \<Rightarrow> JOwn x
      | None \<Rightarrow> if key = ''__proto__'' then (if v = JObjectPrototype then JOwn JNull else JObjectPrototype)
                else JFunction)"

text \<open>\<open>key in schema.properties\<close>.\<close>

definition in_properties :: "string \<Rightarrow> (string \<times> json_schema) list \<Rightarrow> bool" where
  "in_properties key props \<longleftrightarrow> key \<in> fst ` set props \<or> inherited key"

definition is_integer_number :: "json \<Rightarrow> bool" where
  "is_integer_number v = (case v of JNum q \<Rightarrow> snd (quotient_of q) = 1 | _ \<Rightarrow> False)"

fun scalar_matches :: "string \<Rightarrow> looked_up \<Rightarrow> bool" where
  "scalar_matches ty (JOwn v) =
     (if ty = ''string'' then (case v of JStr s \<Rightarrow> True | _ \<Rightarrow> False)
      else if ty = ''number'' then (case v of JNum q \<Rightarrow> True | _ \<Rightarrow> False)
      else if ty = ''boolean'' then (case v of JBool b \<Rightarrow> True | _ \<Rightarrow> False)
      else if ty = ''integer'' then is_integer_number v
      else if ty = ''null'' then v = JNull
      else False)"
| "scalar_matches ty v = False"

function (sequential) validateJSON :: "json_schema \<Rightarrow> looked_up \<Rightarrow> bool" where
  "validateJSON (JsonSchema ty props items req addl) v =
     (if ty = ''object'' then
        plain_object v \<and>
        (case req of None \<Rightarrow> True | Some ks \<Rightarrow> list_all (\<lambda>key. key_in key v) ks) \<and>
        (case props of
           None \<Rightarrow> True
         | Some ps \<Rightarrow> list_all (\<lambda>(key, prop). key_in key v \<longrightarrow> validateJSON prop (look_up key v)) ps) \<and>
        (case (addl, props) of
           (Some False, Some ps) \<Rightarrow> list_all (\<lambda>(key, x). in_properties key ps) (own_entries v)
         | _ \<Rightarrow> True)
      else if ty = ''array'' then
        (case v of
           JOwn (JArr vs) \<Rightarrow>
             (case items of None \<Rightarrow> True
              | Some it \<Rightarrow> list_all (\<lambda>x. validateJSON it (JOwn x)) vs)
         | _ \<Rightarrow> False)
      else scalar_matches ty v)"
  by pat_completeness auto

lemma size_property:
  "(key, prop) \<in> set ps \<Longrightarrow> size prop \<le> size_list (size_prod (\<lambda>x. 0) size) ps"
  by (erule size_list_estimation') (simp add: size_prod_simp)

termination validateJSON
  by (relation "measure (\<lambda>(s, v). size s)") (auto simp: less_Suc_eq_le dest!: size_property)

text \<open>safeFromJSON, fromJSON and isJSON over the parser of the runtime; the variants for buffers
  first turn the bytes into text.\<close>

definition fromJSON :: "(string \<Rightarrow> json result) \<Rightarrow> string \<Rightarrow> json result" where
  "fromJSON parse txt' = parse txt'"

definition safeFromJSON :: "(string \<Rightarrow> json result) \<Rightarrow> string \<Rightarrow> json \<Rightarrow> json" where
  "safeFromJSON parse txt' fallback = (case parse txt' of Inl e \<Rightarrow> fallback | Inr v \<Rightarrow> v)"

definition isJSON :: "(string \<Rightarrow> json result) \<Rightarrow> string \<Rightarrow> bool" where
  "isJSON parse txt' = (case parse txt' of Inl e \<Rightarrow> False | Inr v \<Rightarrow> True)"

subsection \<open>What an accepted object has\<close>

text \<open>An accepted object has, as own keys, all required names that are not members of
  Object.prototype; its own values at declared names fit their schemas; and with
  additionalProperties false it has no further names, members of Object.prototype excepted. The
  exceptions are real: the empty object is accepted whatever such members are required.\<close>

theorem accepted_objects:
  assumes "validateJSON (JsonSchema ''object'' (Some ps) items (Some req) (Some False)) (JOwn v)"
  shows "\<exists>es. v = JObj es \<and>
    {k \<in> set req. \<not> inherited k} \<subseteq> fst ` set es \<and>
    {k \<in> fst ` set es. \<not> inherited k} \<subseteq> fst ` set ps \<and>
    (\<forall>(k, x) \<in> set es. \<forall>(k', s) \<in> set ps. k' = k \<and> map_of es k = Some x \<longrightarrow> validateJSON s (JOwn x)) \<and>
    ((\<forall>k \<in> set req'. inherited k) \<longrightarrow>
       validateJSON (JsonSchema ''object'' None items (Some req') None) (JOwn (JObj [])))"
proof -
  obtain es where v: "v = JObj es" using assms by (auto split: json.splits)
  have req: "list_all (\<lambda>key. key_in key (JOwn (JObj es))) req"
    and props: "list_all (\<lambda>(key, prop). key_in key (JOwn (JObj es)) \<longrightarrow>
        validateJSON prop (look_up key (JOwn (JObj es)))) ps"
    and addl: "list_all (\<lambda>(key, x). in_properties key ps) es"
    using assms v by simp_all
  have "{k \<in> set req. \<not> inherited k} \<subseteq> fst ` set es"
    using req by (auto simp: list_all_iff key_in_def)
  moreover have "{k \<in> fst ` set es. \<not> inherited k} \<subseteq> fst ` set ps"
    using addl by (auto simp: list_all_iff in_properties_def)
  moreover have "validateJSON s (JOwn x)"
    if "(k, x) \<in> set es" "(k, s) \<in> set ps" "map_of es k = Some x" for k x s
  proof -
    have "key_in k (JOwn (JObj es))" using that(1) by (force simp: key_in_def)
    with props that(2) have "validateJSON s (look_up k (JOwn (JObj es)))" by (auto simp: list_all_iff)
    with that(3) show ?thesis by (simp add: look_up_def)
  qed
  ultimately show ?thesis using v by (auto simp: list_all_iff key_in_def)
qed

theorem accepted_objects_witness:
  "validateJSON (JsonSchema ''object'' None None (Some [''constructor'']) None) (JOwn (JObj []))"
proof -
  have "validateJSON (JsonSchema ''object'' (Some [(''a'', JsonSchema ''integer'' None None None None)]) None
      (Some [''a'']) (Some False)) (JOwn (JObj [(''a'', JNum 3)]))"
    by (simp add: key_in_def look_up_def in_properties_def is_integer_number_def)
  then show ?thesis
    using accepted_objects [where req' = "[''constructor'']" and items = None]
    by (fastforce simp: inherited_def object_prototype_keys_def)
qed

end
