(* ===== verification/BaseText.thy ===== *)
theory BaseText
  imports ByteCodec
begin

section \<open>Bytes as text: base64url and hexadecimal\<close>

text \<open>
  The text encodings of Buffer that tokens and digests use: toString('base64url') and its
  decoder Buffer.from(s, 'base64url'), which takes the characters of both alphabets, skips any
  other character and stops at an equals sign; toString('hex'). Both encodings can be read back,
  and neither contains a dot, which separates the parts of a token.
\<close>

subsection \<open>base64url\<close>

text \<open>The characters \<open>A-Z a-z 0-9 - _\<close>, in this order.\<close>

definition b64_char :: "nat \<Rightarrow> char" where
  "b64_char n =
     char_of (if n < 26 then n + 65 else if n < 52 then n + 71 else if n < 62 then n - 4
              else if n = 62 then 45 else 95)"

definition b64_value :: "char \<Rightarrow> nat option" where
  "b64_value c =
     (let n = of_char c :: nat
      in if 65 \<le> n \<and> n \<le> 90 then Some (n - 65)
         else if 97 \<le> n \<and> n \<le> 122 then Some (n - 71)
         else if 48 \<le> n \<and> n \<le> 57 then Some (n + 4)
         else if n = 45 \<or> n = 43 then Some 62
         else if n = 95 \<or> n = 47 then Some 63
         else None)"

fun sextets :: "bytes \<Rightarrow> nat list" where
  "sextets [] = []"
| "sextets [a] = [unat a div 4, unat a mod 4 * 16]"
| "sextets [a, b] = [unat a div 4, unat a mod 4 * 16 + unat b div 16, unat b mod 16 * 4]"
| "sextets (a # b # c # r) =
     unat a div 4 # (unat a mod 4 * 16 + unat b div 16) # (unat b mod 16 * 4 + unat c div 64) #
     unat c mod 64 # sextets r"

fun from_sextets :: "nat list \<Rightarrow> bytes" where
  "from_sextets (p # q # r # s # t) =
     word_of_nat (p * 4 + q div 16) # word_of_nat (q mod 16 * 16 + r div 4) #
     word_of_nat (r mod 4 * 64 + s) # from_sextets t"
| "from_sextets [p, q, r] = [word_of_nat (p * 4 + q div 16), word_of_nat (q mod 16 * 16 + r div 4)]"
| "from_sextets [p, q] = [word_of_nat (p * 4 + q div 16)]"
| "from_sextets _ = []"

definition to_base64url :: "bytes \<Rightarrow> string" where
  "to_base64url bs = map b64_char (sextets bs)"

definition from_base64url :: "string \<Rightarrow> bytes" where
  "from_base64url s = from_sextets (List.map_filter b64_value (takeWhile (\<lambda>c. c \<noteq> CHR ''='') s))"

lemma of_char_b64 [simp]:
  "n < 64 \<Longrightarrow> (of_char (b64_char n) :: nat) =
     (if n < 26 then n + 65 else if n < 52 then n + 71 else if n < 62 then n - 4 else if n = 62 then 45 else 95)"
  by (simp add: b64_char_def)

lemma char_neqI: "(of_char c :: nat) \<noteq> of_char d \<Longrightarrow> c \<noteq> d"
  by auto

lemma b64_value_char:
  assumes "n < 64"
  shows "b64_value (b64_char n) = Some n" "b64_char n \<noteq> CHR ''=''" "b64_char n \<noteq> CHR ''.''" "b64_char n \<noteq> CHR '':''"
    "(of_char (b64_char n) :: nat) < 128"
proof -
  show "b64_value (b64_char n) = Some n" using assms by (auto simp: b64_value_def Let_def)
  show "b64_char n \<noteq> CHR ''=''" using assms by (intro char_neqI) auto
  show "b64_char n \<noteq> CHR ''.''" using assms by (intro char_neqI) auto
  show "b64_char n \<noteq> CHR '':''" using assms by (intro char_neqI) auto
  show "(of_char (b64_char n) :: nat) < 128" using assms by auto
qed

lemma sextet_less: "n \<in> set (sextets bs) \<Longrightarrow> n < 64"
proof (induction bs rule: sextets.induct)
  case 1
  then show ?case by simp
next
  case (2 a)
  have "unat a div 4 < 64" using unat_byte_less [of a] by linarith
  with 2 show ?case by auto
next
  case (3 a b)
  have "unat a div 4 < 64" "unat a mod 4 * 16 + unat b div 16 < 64" "unat b mod 16 * 4 < 64"
    using unat_byte_less [of a] unat_byte_less [of b]
      mod_less_divisor [of 4 "unat a"] mod_less_divisor [of 16 "unat b"] by linarith+
  with 3 show ?case by auto
next
  case (4 a b c r)
  have "unat a div 4 < 64" "unat a mod 4 * 16 + unat b div 16 < 64" "unat b mod 16 * 4 + unat c div 64 < 64"
    using unat_byte_less [of a] unat_byte_less [of b] unat_byte_less [of c]
      mod_less_divisor [of 4 "unat a"] mod_less_divisor [of 16 "unat b"] by linarith+
  with 4 show ?case by auto
qed

lemma byte_parts:
  fixes a :: byte
  assumes "q = unat a mod 4 * 16 + x" "x < 16"
  shows "word_of_nat (unat a div 4 * 4 + q div 16) = a" "q mod 16 = x"
proof -
  have "q div 16 = unat a mod 4" using assms by simp
  then have "unat a div 4 * 4 + q div 16 = unat a" by simp
  then show "word_of_nat (unat a div 4 * 4 + q div 16) = a" by (simp del: of_nat_add of_nat_mult)
  show "q mod 16 = x" using assms by simp
qed

lemma byte_parts2:
  fixes b :: byte
  assumes "r = unat b mod 16 * 4 + x" "x < 4"
  shows "word_of_nat (unat b div 16 * 16 + r div 4) = b" "r mod 4 = x"
proof -
  have "r div 4 = unat b mod 16" using assms by simp
  then have "unat b div 16 * 16 + r div 4 = unat b" by simp
  then show "word_of_nat (unat b div 16 * 16 + r div 4) = b" by (simp del: of_nat_add of_nat_mult)
  show "r mod 4 = x" using assms by simp
qed

lemma from_sextets_sextets: "from_sextets (sextets bs) = bs"
proof (induction bs rule: sextets.induct)
  case (2 a)
  show ?case using byte_parts(1) [of "unat a mod 4 * 16" a 0] by simp
next
  case (3 a b)
  have x: "unat b div 16 < 16" using unat_byte_less [of b] by linarith
  show ?case
    using byte_parts [of _ a "unat b div 16", OF refl x] byte_parts2(1) [of "unat b mod 16 * 4" b 0]
    by (simp del: of_nat_add of_nat_mult)
next
  case (4 a b c r)
  have x: "unat b div 16 < 16" "unat c div 64 < 4" using unat_byte_less [of b] unat_byte_less [of c] by linarith+
  have "word_of_nat (unat c div 64 * 64 + unat c mod 64) = c" by (simp del: of_nat_add of_nat_mult)
  with 4 show ?case
    using byte_parts [of _ a "unat b div 16", OF refl x(1)] byte_parts2 [of _ b "unat c div 64", OF refl x(2)]
    by (simp del: of_nat_add of_nat_mult)
qed simp

lemma base64url_chars: "c \<in> set (to_base64url bs) \<Longrightarrow> c \<noteq> CHR ''='' \<and> c \<noteq> CHR ''.'' \<and> c \<noteq> CHR '':''"
  using sextet_less b64_value_char by (fastforce simp: to_base64url_def)

lemma base64url_roundtrip [simp]: "from_base64url (to_base64url bs) = bs"
proof -
  have *: "takeWhile (\<lambda>c. c \<noteq> CHR ''='') (to_base64url bs) = to_base64url bs"
    using base64url_chars [of _ bs] unfolding takeWhile_eq_all_conv by blast
  have "List.map_filter b64_value (map b64_char ns) = ns" if "\<forall>n \<in> set ns. n < 64" for ns
    using that by (induction ns) (simp_all add: b64_value_char)
  then have "List.map_filter b64_value (to_base64url bs) = sextets bs"
    using sextet_less [of _ bs] by (simp add: to_base64url_def)
  then show ?thesis by (simp only: from_base64url_def * from_sextets_sextets)
qed

lemma length_sextets:
  "length (sextets bs) = 4 * (length bs div 3) + (if length bs mod 3 = 0 then 0 else length bs mod 3 + 1)"
  by (induction bs rule: sextets.induct) simp_all

subsection \<open>Hexadecimal\<close>

definition hex_char :: "nat \<Rightarrow> char" where
  "hex_char n = char_of (if n < 10 then n + 48 else n + 87)"

definition to_hex :: "bytes \<Rightarrow> string" where
  "to_hex bs = concat (map (\<lambda>b. [hex_char (unat b div 16), hex_char (unat b mod 16)]) bs)"

lemma length_to_hex [simp]: "length (to_hex bs) = 2 * length bs"
  by (induction bs) (simp_all add: to_hex_def)

lemma of_char_hex: "n < 16 \<Longrightarrow> (of_char (hex_char n) :: nat) = (if n < 10 then n + 48 else n + 87)"
  by (simp add: hex_char_def)

lemma hex_char_inj:
  assumes "hex_char m = hex_char n" "m < 16" "n < 16"
  shows "m = n"
proof -
  have "(of_char (hex_char m) :: nat) = of_char (hex_char n)" using assms(1) by simp
  then show ?thesis using assms(2,3) by (simp add: of_char_hex split: if_splits)
qed

lemma to_hex_inj: "to_hex a = to_hex b \<longleftrightarrow> a = b"
proof
  show "to_hex a = to_hex b \<Longrightarrow> a = b"
  proof (induction a arbitrary: b)
    case Nil
    then show ?case by (cases b) (simp_all add: to_hex_def)
  next
    case (Cons x a)
    then obtain y c where b: "b = y # c" by (cases b) (auto simp: to_hex_def)
    have less: "unat w div 16 < 16" "unat w mod 16 < 16" for w :: byte using unat_byte_less [of w] by linarith+
    from Cons.prems b have "hex_char (unat x div 16) = hex_char (unat y div 16)"
      "hex_char (unat x mod 16) = hex_char (unat y mod 16)" "to_hex a = to_hex c"
      by (simp_all add: to_hex_def)
    then have "unat x div 16 = unat y div 16" "unat x mod 16 = unat y mod 16" "a = c"
      using hex_char_inj less Cons.IH by auto
    then have "unat x = unat y" by (metis div_mult_mod_eq)
    then have "x = y" by (simp only: word_unat_eq_iff)
    with \<open>a = c\<close> b show ?case by simp
  qed
qed simp

subsection \<open>Buffer.from(s) of a string of the model\<close>

lemma well_formed_small:
  "(\<And>u. u \<in> set s \<Longrightarrow> \<not> high_surrogate u \<and> \<not> low_surrogate u) \<Longrightarrow> well_formed_text s"
  by (induction s) auto

lemma units_well_formed: "well_formed_text (units s)"
proof (rule well_formed_small)
  show "\<not> high_surrogate u \<and> \<not> low_surrogate u" if u: "u \<in> set (units s)" for u
  proof -
    from u obtain c where "u = word_of_nat (of_char c)" by (auto simp: units_def)
    moreover have 1: "(of_char c :: nat) < 256" by (rule nat_of_char_less_256)
    moreover have "(of_char c :: nat) < 65536" by (rule order_less_trans [OF 1]) simp
    ultimately have "unat u < 256" using unat_unit [of "of_char c"] by (simp only:)
    then show ?thesis by (auto simp: high_surrogate_def low_surrogate_def)
  qed
qed

definition utf8 :: "string \<Rightarrow> bytes" where
  "utf8 s = to_utf8 (units s)"

lemma utf8_units: "from_utf8 (utf8 s) = units s"
  unfolding utf8_def by (rule utf8_roundtrip [OF units_well_formed])

lemma utf8_inj: "utf8 s = utf8 t \<longleftrightarrow> s = t"
  by (metis utf8_units units_eq_iff)

lemma length_ascii_utf8: "ascii s \<Longrightarrow> length (utf8 s) = length s"
  by (simp add: utf8_def ascii_utf8)

lemma ascii_append [simp]: "ascii (s @ t) \<longleftrightarrow> ascii s \<and> ascii t"
  by (simp add: ascii_def)

lemma ascii_hex_char: "n < 16 \<Longrightarrow> ascii [hex_char n]"
  by (simp add: ascii_def of_char_hex)

lemma ascii_to_hex: "ascii (to_hex bs)"
proof (induction bs)
  case Nil
  then show ?case by (simp add: to_hex_def ascii_def)
next
  case (Cons b bs)
  have "unat b div 16 < 16" "unat b mod 16 < 16" using unat_byte_less [of b] by linarith+
  then have "ascii [hex_char (unat b div 16)]" "ascii [hex_char (unat b mod 16)]"
    by (simp_all add: ascii_hex_char)
  with Cons show ?case by (simp add: to_hex_def ascii_def)
qed

text \<open>crypto.timingSafeEqual(a, b): a RangeError unless the buffers have the same length.\<close>

definition timingSafeEqual :: "bytes \<Rightarrow> bytes \<Rightarrow> bool result" where
  "timingSafeEqual a b =
     (if length a \<noteq> length b then Inl (JsRangeError ''Input buffers must have the same byte length'')
      else Inr (a = b))"

end
