(* ===== verification/Json.thy ===== *)
theory Json
  imports BaseText
begin

section \<open>JSON text\<close>

text \<open>
  JSON.stringify and JSON.parse, which the token and session code applies to the values of
  \<^theory_text>\<open>ByteCodec\<close>: the text is a list of UTF-16 code units, lone surrogates are escaped,
  properties that are undefined are left out, and the properties of a parsed object take the
  order of Object.keys. A syntax error is the exception \<open>syntax_error\<close>. Outside the model are
  numbers with a fraction or an exponent and integers beyond 2^53 (\<open>OutOfModel\<close>). The parser's
  recursion has fuel; twice the length of the text plus two is always enough.
\<close>

abbreviation syntax_error :: codec_error where
  "syntax_error \<equiv> Throws (JsNamedError ''SyntaxError'' [])"

subsection \<open>JSON.stringify\<close>

fun map_codec :: "('a \<Rightarrow> 'b codec) \<Rightarrow> 'a list \<Rightarrow> 'b list codec" where
  "map_codec f [] = Inr []"
| "map_codec f (x # xs) = and_then (f x) (\<lambda>y. and_then (map_codec f xs) (\<lambda>ys. Inr (y # ys)))"

lemma map_codec_cong [fundef_cong]:
  "xs = xs' \<Longrightarrow> (\<And>x. x \<in> set xs' \<Longrightarrow> f x = f' x) \<Longrightarrow> map_codec f xs = map_codec f' xs'"
  by (induction xs' arbitrary: xs) auto

lemma map_codec_Inr: "map_codec f xs = Inr ys \<longleftrightarrow> list_all2 (\<lambda>x y. f x = Inr y) xs ys"
proof (induction xs arbitrary: ys)
  case Nil
  show ?case by (cases ys) simp_all
next
  case (Cons x xs)
  show ?case by (simp add: and_then_Inr Cons list_all2_Cons1) blast
qed

definition hex_unit :: "nat \<Rightarrow> 16 word" where
  "hex_unit n = word_of_nat (if n < 10 then 48 + n else 87 + n)"

definition unicode_escape :: "16 word \<Rightarrow> js_text" where
  "unicode_escape u =
     [0x5C, 0x75, hex_unit (unat u div 4096), hex_unit (unat u div 256 mod 16),
      hex_unit (unat u div 16 mod 16), hex_unit (unat u mod 16)]"

fun json_escape :: "js_text \<Rightarrow> js_text" where
  "json_escape [] = []"
| "json_escape (u # us) =
     (if u = 0x22 then [0x5C, 0x22] @ json_escape us
      else if u = 0x5C then [0x5C, 0x5C] @ json_escape us
      else if u = 0x08 then [0x5C, 0x62] @ json_escape us
      else if u = 0x0C then [0x5C, 0x66] @ json_escape us
      else if u = 0x0A then [0x5C, 0x6E] @ json_escape us
      else if u = 0x0D then [0x5C, 0x72] @ json_escape us
      else if u = 0x09 then [0x5C, 0x74] @ json_escape us
      else if u < 0x20 then unicode_escape u @ json_escape us
      else if high_surrogate u then
        (case us of
           v # vs \<Rightarrow> if low_surrogate v then u # v # json_escape vs
                     else unicode_escape u @ json_escape us
         | [] \<Rightarrow> unicode_escape u)
      else if low_surrogate u then unicode_escape u @ json_escape us
      else u # json_escape us)"

definition json_quote :: "js_text \<Rightarrow> js_text" where
  "json_quote s = 0x22 # json_escape s @ [0x22]"

fun join_units :: "js_text list \<Rightarrow> js_text" where
  "join_units [] = []"
| "join_units [t] = t"
| "join_units (t # u # us) = t @ 0x2C # join_units (u # us)"

text \<open>The exponent bits of an infinity or the NaN.\<close>

definition not_finite :: "64 word \<Rightarrow> bool" where
  "not_finite w \<longleftrightarrow> unat w div 2 ^ 52 mod 2048 = 2047"

text \<open>\<open>None\<close> is the undefined that JSON.stringify returns for undefined.\<close>

fun stringify :: "js_value \<Rightarrow> js_text option codec" where
  "stringify VUndefined = Inr None"
| "stringify VNull = Inr (Some (units ''null''))"
| "stringify (VBool b) = Inr (Some (units (show_bool b)))"
| "stringify (VNumber (NumInt n)) =
     (if \<bar>n\<bar> \<le> 2 ^ 53 then Inr (Some (units (show_int n))) else Inl OutOfModel)"
| "stringify (VNumber (NumBits w)) =
     (if w = minus_zero then Inr (Some (units ''0''))
      else if not_finite w then Inr (Some (units ''null''))
      else Inl OutOfModel)"
| "stringify (VString s) = Inr (Some (json_quote s))"
| "stringify (VArray vs) =
     and_then (map_codec stringify vs) (\<lambda>ts.
     Inr (Some (0x5B # join_units (map (\<lambda>t. case t of None \<Rightarrow> units ''null'' | Some t \<Rightarrow> t) ts) @ [0x5D])))"
| "stringify (VObject es) =
     and_then (map_codec (\<lambda>(k, v).
       and_then (stringify v) (\<lambda>t. Inr (map_option (\<lambda>t. json_quote k @ 0x3A # t) t))) es) (\<lambda>ts.
     Inr (Some (0x7B # join_units (List.map_filter (\<lambda>t. t) ts) @ [0x7D])))"
| "stringify _ = Inl OutOfModel"

subsection \<open>JSON.parse\<close>

definition json_space :: "16 word \<Rightarrow> bool" where
  "json_space u \<longleftrightarrow> u = 0x20 \<or> u = 0x09 \<or> u = 0x0A \<or> u = 0x0D"

abbreviation skip_spaces :: "js_text \<Rightarrow> js_text" where
  "skip_spaces s \<equiv> dropWhile json_space s"

definition hex_value :: "16 word \<Rightarrow> nat option" where
  "hex_value u =
     (if 48 \<le> unat u \<and> unat u \<le> 57 then Some (unat u - 48)
      else if 97 \<le> unat u \<and> unat u \<le> 102 then Some (unat u - 87)
      else if 65 \<le> unat u \<and> unat u \<le> 70 then Some (unat u - 55)
      else None)"

definition hex4 :: "16 word \<Rightarrow> 16 word \<Rightarrow> 16 word \<Rightarrow> 16 word \<Rightarrow> 16 word option" where
  "hex4 a b c d =
     (case (hex_value a, hex_value b, hex_value c, hex_value d) of
        (Some p, Some q, Some r, Some s) \<Rightarrow> Some (word_of_nat (p * 4096 + q * 256 + r * 16 + s))
      | _ \<Rightarrow> None)"

definition simple_escape :: "16 word \<Rightarrow> 16 word option" where
  "simple_escape e =
     (if e = 0x22 \<or> e = 0x5C \<or> e = 0x2F then Some e
      else if e = 0x62 then Some 0x08
      else if e = 0x66 then Some 0x0C
      else if e = 0x6E then Some 0x0A
      else if e = 0x72 then Some 0x0D
      else if e = 0x74 then Some 0x09
      else None)"

text \<open>The rest of a string literal, after its opening quote.\<close>

function read_string :: "js_text \<Rightarrow> (js_text \<times> js_text) codec" where
  "read_string [] = Inl syntax_error"
| "read_string (u # us) =
     (if u = 0x22 then Inr ([], us)
      else if u = 0x5C then
        (case us of
           [] \<Rightarrow> Inl syntax_error
         | e # es \<Rightarrow>
             if e = 0x75 then
               (case es of
                  a # b # c # d # r \<Rightarrow>
                    (case hex4 a b c d of
                       None \<Rightarrow> Inl syntax_error
                     | Some w \<Rightarrow> and_then (read_string r) (\<lambda>(t, r'). Inr (w # t, r')))
                | _ \<Rightarrow> Inl syntax_error)
             else
               (case simple_escape e of
                  None \<Rightarrow> Inl syntax_error
                | Some w \<Rightarrow> and_then (read_string es) (\<lambda>(t, r'). Inr (w # t, r'))))
      else if u < 0x20 then Inl syntax_error
      else and_then (read_string us) (\<lambda>(t, r'). Inr (u # t, r')))"
  by pat_completeness auto
termination by (relation "measure length") auto

definition digit_unit :: "16 word \<Rightarrow> bool" where
  "digit_unit u \<longleftrightarrow> 48 \<le> unat u \<and> unat u \<le> 57"

definition digits_value :: "js_text \<Rightarrow> nat" where
  "digits_value ds = foldl (\<lambda>acc u. acc * 10 + (unat u - 48)) 0 ds"

definition number_digits :: "js_text \<Rightarrow> js_text" where
  "number_digits s =
     (case s of u # us \<Rightarrow> if u = 0x30 then [u] else takeWhile digit_unit s | [] \<Rightarrow> [])"

text \<open>A fraction or an exponent follows.\<close>

definition fraction_ahead :: "js_text \<Rightarrow> bool" where
  "fraction_ahead s \<longleftrightarrow> (case s of u # us \<Rightarrow> u = 0x2E \<or> u = 0x65 \<or> u = 0x45 | [] \<Rightarrow> False)"

definition read_number :: "js_text \<Rightarrow> (js_value \<times> js_text) codec" where
  "read_number s =
     (let neg = (s \<noteq> [] \<and> hd s = 0x2D); s1 = (if neg then tl s else s);
          ds = number_digits s1; r = drop (length ds) s1; n = digits_value ds
      in if ds = [] then Inl syntax_error
         else if fraction_ahead r \<or> 2 ^ 53 < n then Inl OutOfModel
         else Inr (VNumber (if neg then if n = 0 then NumBits minus_zero else NumInt (- int n)
                            else NumInt (int n)), r))"

definition read_word :: "string \<Rightarrow> js_value \<Rightarrow> js_text \<Rightarrow> (js_value \<times> js_text) codec" where
  "read_word w v s =
     (if take (length w) s = units w then Inr (v, drop (length w) s) else Inl syntax_error)"

definition read_atom :: "js_text \<Rightarrow> (js_value \<times> js_text) codec" where
  "read_atom s =
     (case s of
        [] \<Rightarrow> Inl syntax_error
      | u # us \<Rightarrow>
          if u = 0x6E then read_word ''null'' VNull s
          else if u = 0x74 then read_word ''true'' (VBool True) s
          else if u = 0x66 then read_word ''false'' (VBool False) s
          else read_number s)"

text \<open>The items of an array or an object, separated by commas; \<open>n\<close> bounds the turns.\<close>

fun json_list ::
    "(js_text \<Rightarrow> ('v \<times> js_text) codec) \<Rightarrow> 16 word \<Rightarrow> nat \<Rightarrow> js_text \<Rightarrow> ('v list \<times> js_text) codec" where
  "json_list d close 0 s = Inl OutOfFuel"
| "json_list d close (Suc n) s =
     and_then (d s) (\<lambda>(v, r).
       (case skip_spaces r of
          [] \<Rightarrow> Inl syntax_error
        | w # ws \<Rightarrow>
            if w = 0x2C then and_then (json_list d close n ws) (\<lambda>(vs, r). Inr (v # vs, r))
            else if w = close then Inr ([v], ws)
            else Inl syntax_error))"

definition json_member ::
    "(js_text \<Rightarrow> (js_value \<times> js_text) codec) \<Rightarrow> js_text \<Rightarrow> ((js_text \<times> js_value) \<times> js_text) codec" where
  "json_member d s =
     (case skip_spaces s of
        [] \<Rightarrow> Inl syntax_error
      | u # us \<Rightarrow>
          if u \<noteq> 0x22 then Inl syntax_error
          else and_then (read_string us) (\<lambda>(k, r).
            (case skip_spaces r of
               [] \<Rightarrow> Inl syntax_error
             | c # cs \<Rightarrow> if c \<noteq> 0x3A then Inl syntax_error
                         else and_then (d cs) (\<lambda>(v, r). Inr ((k, v), r)))))"

definition json_items ::
    "(js_text \<Rightarrow> ('v \<times> js_text) codec) \<Rightarrow> 16 word \<Rightarrow> js_text \<Rightarrow> ('v list \<times> js_text) codec" where
  "json_items d close us =
     (case skip_spaces us of
        [] \<Rightarrow> Inl syntax_error
      | w # ws \<Rightarrow> if w = close then Inr ([], ws) else json_list d close (Suc (length us)) us)"

definition json_token ::
    "(js_text \<Rightarrow> (js_value \<times> js_text) codec) \<Rightarrow> 16 word \<Rightarrow> js_text \<Rightarrow> (js_value \<times> js_text) codec" where
  "json_token d t s =
     (case skip_spaces (t # s) of
        [] \<Rightarrow> Inl syntax_error
      | u # us \<Rightarrow>
          if u = 0x22 then and_then (read_string us) (\<lambda>(t, r). Inr (VString t, r))
          else if u = 0x5B then and_then (json_items d 0x5D us) (\<lambda>(vs, r). Inr (VArray vs, r))
          else if u = 0x7B then
            and_then (json_items (json_member d) 0x7D us) (\<lambda>(es, r). Inr (VObject (build_object es), r))
          else read_atom (u # us))"

fun json_value :: "nat \<Rightarrow> js_text \<Rightarrow> (js_value \<times> js_text) codec" where
  "json_value 0 s = Inl OutOfFuel"
| "json_value (Suc f) [] = Inl syntax_error"
| "json_value (Suc f) (u # us) = json_token (json_value f) u us"

definition parse_json :: "js_text \<Rightarrow> js_value codec" where
  "parse_json s =
     and_then (json_value (Suc (length s)) s) (\<lambda>(v, r).
       if skip_spaces r = [] then Inr v else Inl syntax_error)"

declare dropWhile_eq_Nil_conv [simp del]

subsection \<open>What the parser consumes, and the turns it needs\<close>

lemma skip_spaces_Cons: "skip_spaces s = u # us \<Longrightarrow> length us < length s"
  using length_dropWhile_le [of json_space s] by simp

lemma read_string_length: "read_string s = Inr (t, r) \<Longrightarrow> length r < length s"
proof (induction s arbitrary: t rule: read_string.induct)
  case 1
  then show ?case by simp
next
  case (2 u us)
  then consider "u = 0x22" "r = us" | "u = 0x5C" | t' where "u \<noteq> 0x22" "u \<noteq> 0x5C" "\<not> u < 0x20" "read_string us = Inr (t', r)"
    by (force simp: and_then_Inr split: if_splits)
  then show ?case
  proof cases
    case 2
    then obtain e es where us: "us = e # es" using "2.prems" by (auto split: list.splits)
    show ?thesis
    proof (cases "e = 0x75")
      case True
      with 2 us "2.prems" obtain a b c d r' w t' where es: "es = a # b # c # d # r'" "hex4 a b c d = Some w"
        "read_string r' = Inr (t', r)"
        by (auto simp: and_then_Inr split: list.splits option.splits)
      with "2.IH"(1) [OF _ 2(1) us True es(1) refl refl refl es(2), of t'] 2 us show ?thesis by simp
    next
      case False
      with 2 us "2.prems" obtain w t' where es: "simple_escape e = Some w" "read_string es = Inr (t', r)"
        by (auto simp: and_then_Inr split: option.splits)
      with "2.IH"(2) [OF _ 2(1) us False es(1), of t'] 2 us show ?thesis by simp
    qed
  qed (use "2.IH"(3) in force)+
qed

lemma read_string_fuel [simp]: "read_string s \<noteq> Inl OutOfFuel"
proof (induction s rule: read_string.induct)
  case 1
  then show ?case by simp
next
  case (2 u us)
  show ?case
  proof
    assume *: "read_string (u # us) = Inl OutOfFuel"
    show False
    proof (cases "u = 0x5C")
      case True
      with * obtain e es where us: "us = e # es" by (auto split: list.splits)
      show False
      proof (cases "e = 0x75")
        case e: True
        with True us * obtain a b c d r w where "es = a # b # c # d # r" "hex4 a b c d = Some w"
          "read_string r = Inl OutOfFuel"
          by (auto simp: and_then_Inl split: list.splits option.splits)
        with "2.IH"(1) [of e es a _ b _ c _ d r w] True us e show False by auto
      next
        case e: False
        with True us * obtain w where "simple_escape e = Some w" "read_string es = Inl OutOfFuel"
          by (auto simp: and_then_Inl split: option.splits)
        with "2.IH"(2) [of e es w] True us e show False by auto
      qed
    qed (use * "2.IH"(3) in \<open>auto simp: and_then_Inl split: if_splits\<close>)
  qed
qed

lemma read_number_length: "read_number s = Inr (v, r) \<Longrightarrow> length r < length s"
proof -
  define s1 where "s1 = (if s \<noteq> [] \<and> hd s = 0x2D then tl s else s)"
  assume "read_number s = Inr (v, r)"
  then have "number_digits s1 \<noteq> []" "r = drop (length (number_digits s1)) s1"
    unfolding read_number_def Let_def s1_def by (auto simp only: sum.simps prod.simps split: if_splits)
  moreover from this(1) have "s1 \<noteq> []" by (auto simp: number_digits_def)
  moreover have "length s1 \<le> length s" by (simp add: s1_def)
  ultimately show ?thesis by (cases "number_digits s1"; cases s1) auto
qed

lemma read_word_length: "read_word w v' s = Inr (v, r) \<Longrightarrow> w \<noteq> [] \<Longrightarrow> length r < length s"
proof -
  assume "read_word w v' s = Inr (v, r)" and w: "w \<noteq> []"
  then have *: "take (length w) s = units w" and r: "r = drop (length w) s"
    by (simp_all add: read_word_def split: if_splits)
  from * have "s \<noteq> []" using w by (auto simp: units_def)
  with w r show ?thesis by (cases w) simp_all
qed

lemma read_atom_length: "read_atom s = Inr (v, r) \<Longrightarrow> length r < length s"
  by (auto simp: read_atom_def dest: read_word_length read_number_length split: list.splits if_splits)

lemma read_number_fuel [simp]: "read_number s \<noteq> Inl OutOfFuel"
  unfolding read_number_def Let_def by (simp only: sum.simps codec_error.simps split: if_split) simp

lemma read_atom_fuel [simp]: "read_atom s \<noteq> Inl OutOfFuel"
  by (auto simp: read_atom_def read_word_def split: list.split)

lemma json_list_length:
  assumes "consuming d"
  shows "json_list d c n s = Inr (vs, r) \<Longrightarrow> length r < length s"
proof (induction n arbitrary: s vs)
  case 0
  then show ?case by simp
next
  case (Suc n)
  then obtain v r1 where v: "d s = Inr (v, r1)" by (auto simp: and_then_Inr)
  with Suc.prems obtain w ws where 1: "d s = Inr (v, r1)" "skip_spaces r1 = w # ws"
    by (cases "skip_spaces r1") auto
  with Suc.prems have "(\<exists>us. json_list d c n ws = Inr (us, r)) \<or> r = ws"
    by (auto simp: and_then_Inr split: if_splits)
  then have "length r \<le> length ws" using Suc.IH by (auto intro: less_imp_le)
  with consumingD [OF assms 1(1)] skip_spaces_Cons [OF 1(2)] show ?case by simp
qed

lemma json_list_fuel:
  assumes "consuming d" "enough_below m d"
  shows "length s < m \<Longrightarrow> length s < n \<Longrightarrow> json_list d c n s \<noteq> Inl OutOfFuel"
proof (induction n arbitrary: s)
  case 0
  then show ?case by simp
next
  case (Suc n)
  show ?case
  proof
    assume *: "json_list d c (Suc n) s = Inl OutOfFuel"
    with enough_belowD [OF assms(2) Suc.prems(1)] obtain v r1 where v: "d s = Inr (v, r1)"
      by (auto simp: and_then_Inl)
    with * obtain w ws where 1: "d s = Inr (v, r1)" "skip_spaces r1 = w # ws"
      by (cases "skip_spaces r1") auto
    with * have 2: "json_list d c n ws = Inl OutOfFuel"
      by (auto simp: and_then_Inl split: if_splits)
    have "length ws < length s" using consumingD [OF assms(1) 1(1)] skip_spaces_Cons [OF 1(2)] by simp
    with Suc.IH [of ws] 2 Suc.prems show False by simp
  qed
qed

lemma json_list_mono:
  assumes "extended_by d d'"
  shows "json_list d c n s \<noteq> Inl OutOfFuel \<Longrightarrow> json_list d' c n s = json_list d c n s"
proof (induction n arbitrary: s)
  case 0
  then show ?case by simp
next
  case (Suc n)
  then have d: "d' s = d s" by (intro extended_byD [OF assms]) auto
  show ?case
  proof (cases "d s")
    case (Inr vr)
    have "json_list d' c n ws = json_list d c n ws" if "skip_spaces (snd vr) = 0x2C # ws" for ws
      using Suc.prems that by (intro Suc.IH) (auto simp: Inr split_beta)
    with d Inr show ?thesis by (cases "skip_spaces (snd vr)") (simp_all add: split_beta)
  qed (simp add: d)
qed

lemma json_member_length:
  assumes "consuming d"
  shows "consuming (json_member d)"
  unfolding consuming_def
proof (intro allI impI)
  fix s kv r
  assume *: "json_member d s = Inr (kv, r)"
  then obtain us where us: "skip_spaces s = 0x22 # us"
    by (cases "skip_spaces s") (auto simp: json_member_def split: if_splits)
  with * obtain k r1 where k: "read_string us = Inr (k, r1)" by (auto simp: json_member_def and_then_Inr)
  with * us obtain cs where cs: "skip_spaces r1 = 0x3A # cs"
    by (cases "skip_spaces r1") (auto simp: json_member_def split: if_splits)
  with * us k obtain v where "d cs = Inr (v, r)" by (auto simp: json_member_def and_then_Inr)
  with skip_spaces_Cons [OF us] read_string_length [OF k] skip_spaces_Cons [OF cs] consumingD [OF assms]
  show "length r < length s" by fastforce
qed

lemma json_member_fuel:
  assumes "consuming d" "enough_below m d"
  shows "enough_below m (json_member d)"
  unfolding enough_below_def
proof (intro allI impI notI)
  fix s
  assume s: "length s < m" and *: "json_member d s = Inl OutOfFuel"
  then obtain us where us: "skip_spaces s = 0x22 # us"
    by (cases "skip_spaces s") (auto simp: json_member_def split: if_splits)
  with * obtain k r1 where k: "read_string us = Inr (k, r1)" by (auto simp: json_member_def and_then_Inl)
  with * us obtain cs where cs: "skip_spaces r1 = 0x3A # cs"
    by (cases "skip_spaces r1") (auto simp: json_member_def split: if_splits)
  have "length cs < m"
    using s skip_spaces_Cons [OF us] read_string_length [OF k] skip_spaces_Cons [OF cs] by simp
  moreover from * us k cs have "d cs = Inl OutOfFuel" by (auto simp: json_member_def and_then_Inl)
  ultimately show False using enough_belowD [OF assms(2)] by simp
qed

lemma json_member_mono:
  assumes "extended_by d d'"
  shows "extended_by (json_member d) (json_member d')"
  unfolding extended_by_def
proof (intro allI impI)
  fix s
  assume *: "json_member d s \<noteq> Inl OutOfFuel"
  have "d' cs = d cs"
    if "skip_spaces s = 0x22 # us" "read_string us = Inr (k, r1)" "skip_spaces r1 = 0x3A # cs" for us k r1 cs
    using * that by (intro extended_byD [OF assms]) (auto simp: json_member_def)
  then show "json_member d' s = json_member d s"
    by (auto simp: json_member_def intro!: and_then_cong split: list.split prod.split)
qed

lemma json_items_length:
  "consuming d \<Longrightarrow> json_items d c s = Inr (vs, r) \<Longrightarrow> length r < length s"
  by (cases "skip_spaces s")
    (auto simp: json_items_def dest: skip_spaces_Cons json_list_length simp del: json_list.simps split: if_splits)

lemma json_items_fuel:
  assumes "consuming d" "enough_below m d"
  shows "length s < m \<Longrightarrow> json_items d c s \<noteq> Inl OutOfFuel"
  using json_list_fuel [OF assms, of s "Suc (length s)" c]
  by (cases "skip_spaces s") (simp_all add: json_items_def del: json_list.simps)

lemma json_items_mono:
  "extended_by d d' \<Longrightarrow> json_items d c s \<noteq> Inl OutOfFuel \<Longrightarrow> json_items d' c s = json_items d c s"
  using json_list_mono [of d d' c "Suc (length s)" s]
  by (cases "skip_spaces s") (auto simp: json_items_def simp del: json_list.simps)

lemma json_token_length:
  assumes "consuming d" "json_token d t s = Inr (v, r)"
  shows "length r \<le> length s"
proof (cases "skip_spaces (t # s)")
  case Nil
  with assms show ?thesis by (simp add: json_token_def)
next
  case (Cons u us)
  have "length r < length (u # us)"
    using assms(2) Cons
    by (auto simp: json_token_def and_then_Inr simp del: dropWhile.simps split: if_splits
        dest: read_string_length json_items_length [OF assms(1)]
          json_items_length [OF json_member_length [OF assms(1)]] read_atom_length)
  with skip_spaces_Cons [OF Cons] show ?thesis by simp
qed

lemma json_token_fuel:
  assumes "consuming d" "enough_below m d" "length s < m"
  shows "json_token d t s \<noteq> Inl OutOfFuel"
proof (cases "skip_spaces (t # s)")
  case Nil
  then show ?thesis by (simp add: json_token_def)
next
  case (Cons u us)
  then have "length us < m" using skip_spaces_Cons [OF Cons] assms(3) by simp
  with Cons json_items_fuel [OF assms(1,2)]
    json_items_fuel [OF json_member_length [OF assms(1)] json_member_fuel [OF assms(1,2)]]
  show ?thesis by (auto simp: json_token_def and_then_Inl simp del: dropWhile.simps)
qed

lemma json_token_mono:
  assumes "extended_by d d'"
  shows "extended_by (json_token d t) (json_token d' t)"
  unfolding extended_by_def
proof (intro allI impI)
  fix s
  assume *: "json_token d t s \<noteq> Inl OutOfFuel"
  show "json_token d' t s = json_token d t s"
  proof (cases "skip_spaces (t # s)")
    case Nil
    then show ?thesis by (simp add: json_token_def)
  next
    case (Cons u us)
    have "json_items d' 0x5D us = json_items d 0x5D us" if "u = 0x5B"
      using * that Cons by (intro json_items_mono [OF assms]) (auto simp: json_token_def simp del: dropWhile.simps)
    moreover have "json_items (json_member d') 0x7D us = json_items (json_member d) 0x7D us" if "u = 0x7B"
      using * that Cons
      by (intro json_items_mono [OF json_member_mono [OF assms]]) (auto simp: json_token_def simp del: dropWhile.simps)
    ultimately show ?thesis using Cons by (simp add: json_token_def del: dropWhile.simps)
  qed
qed

interpretation json: token_decoder json_value json_token "JsNamedError ''SyntaxError'' []"
proof
  show "length r \<le> length s" if "consuming d" "json_token d t s = Inr (v, r)" for d t s v r
    using that by (rule json_token_length)
  show "json_token d t s \<noteq> Inl OutOfFuel" if "consuming d" "enough_below m d" "length s < m" for d m s t
    using that by (rule json_token_fuel)
  show "extended_by (json_token d t) (json_token d' t)" if "extended_by d d'" for d d' t
    using that by (rule json_token_mono)
qed simp_all

text \<open>The parser never runs out of turns.\<close>

lemma parse_json_fuel [simp]: "parse_json s \<noteq> Inl OutOfFuel"
  using json.dec_fuel [of s "Suc (length s)"]
  by (auto simp: parse_json_def and_then_Inl split: if_splits)

subsection \<open>Reading back what was written\<close>

lemma hex_value_digit: "n < 16 \<Longrightarrow> hex_value (hex_unit n) = Some n"
  by (simp add: hex_value_def hex_unit_def)

lemma hex4_unicode_escape:
  "hex4 (hex_unit (unat u div 4096)) (hex_unit (unat u div 256 mod 16))
     (hex_unit (unat u div 16 mod 16)) (hex_unit (unat u mod 16)) = Some u"
proof -
  have "unat u div 4096 < 16" using unat_unit_less [of u] by (simp add: div_less_iff_less_mult)
  moreover have "unat u div 4096 * 4096 + unat u div 256 mod 16 * 256 + unat u div 16 mod 16 * 16 + unat u mod 16 = unat u"
  proof -
    have "unat u div 16 div 16 = unat u div 256" "unat u div 256 div 16 = unat u div 4096"
      by (simp_all add: div_mult2_eq [symmetric])
    then have "unat u div 256 = unat u div 4096 * 16 + unat u div 256 mod 16"
      "unat u div 16 = unat u div 256 * 16 + unat u div 16 mod 16"
      using div_mult_mod_eq [of "unat u div 256" 16] div_mult_mod_eq [of "unat u div 16" 16] by simp_all
    then show ?thesis using div_mult_mod_eq [of "unat u" 16] by linarith
  qed
  ultimately show ?thesis by (simp add: hex4_def hex_value_digit del: of_nat_add of_nat_mult)
qed

lemma read_unicode_escape:
  "read_string (unicode_escape u @ s) = and_then (read_string s) (\<lambda>(t, r). Inr (u # t, r))"
  by (simp add: unicode_escape_def hex4_unicode_escape)

lemma read_plain:
  "u \<noteq> 0x22 \<Longrightarrow> u \<noteq> 0x5C \<Longrightarrow> \<not> u < 0x20 \<Longrightarrow>
   read_string (u # s) = and_then (read_string s) (\<lambda>(t, r). Inr (u # t, r))"
  by simp

lemma surrogate_plain:
  assumes "low_surrogate u \<or> high_surrogate u"
  shows "u \<noteq> 0x22" "u \<noteq> 0x5C" "\<not> u < 0x20"
  using assms by (auto simp: low_surrogate_def high_surrogate_def word_less_nat_alt)

lemma read_escape_simple:
  assumes "simple_escape e = Some w" "e \<noteq> 0x75"
  shows "read_string (0x5C # e # s) = and_then (read_string s) (\<lambda>(t, r). Inr (w # t, r))"
  using assms by simp

lemma simple_escapes:
  "simple_escape 0x22 = Some 0x22" "simple_escape 0x5C = Some 0x5C" "simple_escape 0x62 = Some 0x08"
  "simple_escape 0x66 = Some 0x0C" "simple_escape 0x6E = Some 0x0A" "simple_escape 0x72 = Some 0x0D"
  "simple_escape 0x74 = Some 0x09"
  by (simp_all add: simple_escape_def)

lemma escape_special:
  "json_escape (0x22 # s) = 0x5C # 0x22 # json_escape s"
  "json_escape (0x5C # s) = 0x5C # 0x5C # json_escape s"
  "json_escape (0x08 # s) = 0x5C # 0x62 # json_escape s"
  "json_escape (0x0C # s) = 0x5C # 0x66 # json_escape s"
  "json_escape (0x0A # s) = 0x5C # 0x6E # json_escape s"
  "json_escape (0x0D # s) = 0x5C # 0x72 # json_escape s"
  "json_escape (0x09 # s) = 0x5C # 0x74 # json_escape s"
  by (subst json_escape.simps, simp)+

definition special_units :: "16 word set" where
  "special_units = {0x22, 0x5C, 0x08, 0x0C, 0x0A, 0x0D, 0x09}"

lemma escape_control:
  "u \<notin> special_units \<Longrightarrow> u < 0x20 \<Longrightarrow> json_escape (u # s) = unicode_escape u @ json_escape s"
  by (simp add: special_units_def)

lemma escape_plain:
  "u \<notin> special_units \<Longrightarrow> \<not> u < 0x20 \<Longrightarrow> \<not> high_surrogate u \<Longrightarrow>
   json_escape (u # s) = (if low_surrogate u then unicode_escape u else [u]) @ json_escape s"
  by (simp add: special_units_def)

lemma escape_high:
  "high_surrogate u \<Longrightarrow> json_escape [u] = unicode_escape u"
  "high_surrogate u \<Longrightarrow> low_surrogate v \<Longrightarrow> json_escape (u # v # s) = u # v # json_escape s"
  "high_surrogate u \<Longrightarrow> \<not> low_surrogate v \<Longrightarrow> json_escape (u # v # s) = unicode_escape u @ json_escape (v # s)"
  using surrogate_plain [of u]
  by (auto simp: high_surrogate_def simp del: json_escape.simps(2) simp: json_escape.simps(2) [of u])

lemma read_json_escape: "read_string (json_escape s @ 0x22 # rest) = Inr (s, rest)"
proof (induction "length s" arbitrary: s rule: less_induct)
  case less
  note reads = read_escape_simple simple_escapes read_unicode_escape read_plain surrogate_plain
    escape_special escape_control escape_plain escape_high
  show ?case
  proof (cases s)
    case Nil
    then show ?thesis by simp
  next
    case (Cons u us)
    then have IH: "read_string (json_escape us @ 0x22 # rest) = Inr (us, rest)" by (intro less) simp
    consider "u \<in> special_units" | "u \<notin> special_units" "u < 0x20"
      | "u \<notin> special_units" "\<not> u < 0x20" "\<not> high_surrogate u" | "high_surrogate u"
      by blast
    then show ?thesis
    proof cases
      case 1
      then show ?thesis unfolding special_units_def Cons
        by (elim insertE emptyE) (simp_all add: reads IH del: read_string.simps json_escape.simps)
    next
      case 2
      then show ?thesis by (simp add: Cons reads IH del: read_string.simps json_escape.simps)
    next
      case 3
      then have "u \<noteq> 0x22" "u \<noteq> 0x5C" by (auto simp: special_units_def)
      with 3 show ?thesis by (simp add: Cons reads IH del: read_string.simps json_escape.simps)
    next
      case 4
      show ?thesis
      proof (cases us)
        case Nil
        with 4 show ?thesis by (simp add: Cons reads del: read_string.simps json_escape.simps) simp
      next
        case vs: (Cons v vs)
        have "read_string (json_escape vs @ 0x22 # rest) = Inr (vs, rest)" by (intro less) (simp add: Cons vs)
        with 4 IH vs show ?thesis
          by (cases "low_surrogate v") (simp_all add: Cons reads del: read_string.simps json_escape.simps)
      qed
    qed
  qed
qed

subsection \<open>Numbers\<close>

lemma units_append [simp]: "units (s @ t) = units s @ units t"
  by (simp add: units_def)

lemma digits_value_append: "digits_value (a @ [u]) = digits_value a * 10 + (unat u - 48)"
  by (simp add: digits_value_def)

lemma show_nat_units: "\<forall>u \<in> set (units (show_nat n)). digit_unit u"
  "digits_value (units (show_nat n)) = n"
  "units (show_nat n) \<noteq> []"
  "hd (units (show_nat n)) = 0x30 \<longleftrightarrow> n = 0"
proof (induction n rule: show_nat.induct)
  case (1 n)
  have d: "units [char_of (48 + k)] = [word_of_nat (48 + k)]" if "k < 10" for k :: nat
    using that by (simp add: units_def)
  have u: "unat (word_of_nat (48 + k) :: 16 word) = 48 + k" if "k < 10" for k :: nat
    using that by (intro unat_unit) simp
  {
    case 1
    show ?case using "1.IH"(1) d u by (subst show_nat.simps) (auto simp: digit_unit_def)
  next
    case 2
    then show ?case using "1.IH"(2) d u by (subst show_nat.simps) (simp add: digits_value_append digits_value_def [of "[_]"])
  next
    case 3
    show ?case using "1.IH"(3) by (subst show_nat.simps) (simp add: units_def)
  next
    case 4
    show ?case
    proof (cases "n < 10")
      case True
      then show ?thesis by (subst show_nat.simps) (simp add: d word_unat_eq_iff u [simplified])
    next
      case False
      with "1.IH"(3,4) show ?thesis by (subst show_nat.simps) (auto simp: hd_append)
    qed
  }
qed

text \<open>What may follow a value inside an array or an object.\<close>

definition json_stop :: "js_text \<Rightarrow> bool" where
  "json_stop s \<longleftrightarrow> (case s of [] \<Rightarrow> True | u # us \<Rightarrow> u = 0x2C \<or> u = 0x5D \<or> u = 0x7D)"

lemma json_stop_simps [simp]: "json_stop []" "json_stop (0x2C # s)" "json_stop (0x5D # s)" "json_stop (0x7D # s)"
  by (simp_all add: json_stop_def)

lemma show_nat_zero: "units (show_nat 0) = [0x30]"
  by (simp add: show_nat.simps [of 0] units_def)

lemma number_digits_show_nat:
  assumes "json_stop rest"
  shows "number_digits (units (show_nat n) @ rest) = units (show_nat n)"
proof (cases "n = 0")
  case True
  then show ?thesis by (simp add: show_nat_zero number_digits_def)
next
  case False
  then obtain u us where u: "units (show_nat n) = u # us" "u \<noteq> 0x30"
    using show_nat_units(3,4) [of n] by (cases "units (show_nat n)") auto
  have "takeWhile digit_unit rest = []"
    using assms by (cases rest) (auto simp: json_stop_def digit_unit_def)
  with show_nat_units(1) [of n] have "takeWhile digit_unit (units (show_nat n) @ rest) = units (show_nat n)"
    by (simp add: takeWhile_append)
  with u show ?thesis by (simp add: number_digits_def)
qed

lemma units_Cons: "units (c # s) = word_of_nat (of_char c) # units s"
  by (simp add: units_def)

lemma units_Nil [simp]: "units [] = []"
  by (simp add: units_def)

lemma length_units [simp]: "length (units s) = length s"
  by (simp add: units_def)

lemma stop_no_fraction: "json_stop s \<Longrightarrow> \<not> fraction_ahead s"
  by (auto simp: json_stop_def fraction_ahead_def split: list.splits)

lemma show_nat_head: "hd (units (show_nat n) @ rest) \<noteq> 0x2D"
  using show_nat_units(1,3) [of n] by (cases "units (show_nat n)") (auto simp: digit_unit_def)

lemma read_natural:
  assumes "json_stop rest" "n \<le> 2 ^ 53"
  shows "read_number (units (show_nat n) @ rest) = Inr (VNumber (NumInt (int n)), rest)"
    and "0 < n \<Longrightarrow> read_number (0x2D # units (show_nat n) @ rest) = Inr (VNumber (NumInt (- int n)), rest)"
  using assms number_digits_show_nat [OF assms(1), of n] show_nat_units(2,3) [of n] show_nat_head [of n rest]
    stop_no_fraction
  by (simp_all add: read_number_def del: length_units)

lemma read_show_int:
  assumes "json_stop rest" "\<bar>n\<bar> \<le> 2 ^ 53"
  shows "read_number (units (show_int n) @ rest) = Inr (VNumber (NumInt n), rest)"
proof (cases "n < 0")
  case True
  with assms show ?thesis
    using read_natural(2) [OF assms(1), of "nat (- n)"] by (simp add: show_int_def units_Cons nat_le_iff)
next
  case False
  with assms show ?thesis
    using read_natural(1) [OF assms(1), of "nat n"] by (simp add: show_int_def nat_le_iff)
qed

text \<open>The first unit of a number.\<close>

lemma show_int_head: "\<exists>u us. units (show_int n) = u # us \<and> (digit_unit u \<or> u = 0x2D)"
proof (cases "n < 0")
  case True
  then show ?thesis by (simp add: show_int_def units_Cons)
next
  case False
  obtain u us where s: "units (show_nat (nat n)) = u # us"
    using show_nat_units(3) [of "nat n"] by (cases "units (show_nat (nat n))") auto
  moreover have "digit_unit u" using show_nat_units(1) [of "nat n"] s by simp
  ultimately show ?thesis using False by (simp add: show_int_def)
qed

subsection \<open>The round trip\<close>

text \<open>What comes back: undefined becomes null in an array and is absent in an object, -0 becomes
  0, and the NaN and the infinities become null.\<close>

definition defined_entry :: "js_text \<times> js_value \<Rightarrow> bool" where
  "defined_entry e \<longleftrightarrow> snd e \<noteq> VUndefined"

fun json_image :: "js_value \<Rightarrow> js_value" where
  "json_image VUndefined = VNull"
| "json_image (VNumber (NumBits w)) =
     (if w = minus_zero then VNumber (NumInt 0) else if not_finite w then VNull else VNumber (NumBits w))"
| "json_image (VArray vs) = VArray (map json_image vs)"
| "json_image (VObject es) = VObject (map (\<lambda>(k, v). (k, json_image v)) (filter defined_entry es))"
| "json_image v = v"

text \<open>Objects whose entries are in the order of Object.keys.\<close>

fun json_able :: "js_value \<Rightarrow> bool" where
  "json_able (VArray vs) = list_all json_able vs"
| "json_able (VObject es) =
     (object_entries (filter defined_entry es) \<and> list_all (\<lambda>(k, v). json_able v) es)"
| "json_able v = True"

lemma json_text_None: "stringify v = Inr None \<longleftrightarrow> v = VUndefined"
  by (induction v rule: stringify.induct) (auto simp: and_then_Inr)

text \<open>The text of a value begins with neither a space nor a closing bracket.\<close>

definition value_head :: "js_text \<Rightarrow> bool" where
  "value_head t \<longleftrightarrow> (\<exists>u us. t = u # us \<and> \<not> json_space u \<and> u \<noteq> 0x5D \<and> u \<noteq> 0x7D)"

lemma value_head_append: "value_head t \<Longrightarrow> value_head (t @ s)"
  by (auto simp: value_head_def)

lemma value_head_skip: "value_head t \<Longrightarrow> skip_spaces t = t"
  by (auto simp: value_head_def)

lemma json_text_head:
  assumes "stringify v = Inr (Some t)"
  shows "value_head t"
proof -
  have "value_head (units (show_int n))" for n
    using show_int_head [of n] by (auto simp: value_head_def json_space_def digit_unit_def)
  moreover have "value_head (units ''null'')" "value_head (units ''true'')" "value_head (units ''false'')"
    "value_head (units ''0'')"
    by (simp_all add: value_head_def units_Cons json_space_def)
  ultimately show ?thesis using assms
    by (induction v rule: stringify.induct)
      (auto simp: and_then_Inr show_bool_def split: if_splits, auto simp: json_quote_def value_head_def json_space_def)
qed

text \<open>A parser reads a text back as a value, whatever may follow it, within a text shorter than \<open>m\<close>.\<close>

definition reads_back :: "nat \<Rightarrow> (js_text \<Rightarrow> ('v \<times> js_text) codec) \<Rightarrow> 'v \<Rightarrow> js_text \<Rightarrow> bool" where
  "reads_back m d x t \<longleftrightarrow>
     (\<forall>rest. json_stop rest \<longrightarrow> length (t @ rest) < m \<longrightarrow> d (t @ rest) = Inr (x, rest))"

lemma reads_backD:
  "reads_back m d x t \<Longrightarrow> json_stop rest \<Longrightarrow> length (t @ rest) < m \<Longrightarrow> d (t @ rest) = Inr (x, rest)"
  by (simp add: reads_back_def)

lemma closing_stop: "c = 0x5D \<or> c = 0x7D \<Longrightarrow> json_stop (c # s) \<and> \<not> json_space c \<and> c \<noteq> 0x2C"
  by (auto simp: json_space_def)

lemma json_list_read:
  assumes "list_all2 (reads_back m d) xs ts" "c = 0x5D \<or> c = 0x7D"
  shows "xs \<noteq> [] \<Longrightarrow> length (join_units ts @ c # rest) < m \<Longrightarrow> length ts \<le> n \<Longrightarrow>
    json_list d c n (join_units ts @ c # rest) = Inr (xs, rest)"
  using assms(1)
proof (induction arbitrary: n rule: list_all2_induct)
  case Nil
  then show ?case by simp
next
  case (Cons x xs t ts)
  then obtain k where n: "n = Suc k" by (cases n) auto
  show ?case
  proof (cases "xs = []")
    case True
    with Cons.hyps have "ts = []" by simp
    with True Cons closing_stop [OF assms(2), of rest] show ?thesis by (simp add: n reads_backD)
  next
    case False
    with Cons.hyps obtain u us where ts: "ts = u # us" by (cases ts) auto
    have "json_list d c k (join_units ts @ c # rest) = Inr (xs, rest)"
      using Cons.prems False n by (intro Cons.IH) (simp_all add: ts)
    moreover have "d (t @ 0x2C # join_units ts @ c # rest) = Inr (x, 0x2C # join_units ts @ c # rest)"
      using Cons.prems Cons.hyps(1) by (intro reads_backD) (simp_all add: ts)
    ultimately show ?thesis by (simp add: n ts json_space_def)
  qed
qed

lemma join_units_length: "(\<And>t. t \<in> set ts \<Longrightarrow> t \<noteq> []) \<Longrightarrow> length ts \<le> length (join_units ts)"
proof (induction ts rule: join_units.induct)
  case (3 t u us)
  then have "length (u # us) \<le> length (join_units (u # us))" by simp
  moreover have "0 < length t" using 3 by simp
  ultimately show ?case by simp
qed (auto simp: Suc_le_eq)

lemma json_items_read:
  assumes "list_all2 (reads_back m d) xs ts" "c = 0x5D \<or> c = 0x7D"
    and "\<And>t. t \<in> set ts \<Longrightarrow> value_head t" and "length (join_units ts @ c # rest) < m"
  shows "json_items d c (join_units ts @ c # rest) = Inr (xs, rest)"
proof (cases ts)
  case Nil
  with assms closing_stop [OF assms(2)] show ?thesis by (simp add: json_items_def)
next
  case (Cons t us)
  then have "value_head (join_units ts @ c # rest)"
    using assms(3) [of t] value_head_append [of t] by (cases us) auto
  then obtain u s where u: "join_units ts @ c # rest = u # s" "\<not> json_space u" "u \<noteq> c"
    using assms(2) by (auto simp: value_head_def)
  have "length ts \<le> length (join_units ts)"
    using assms(3) by (intro join_units_length) (auto simp: value_head_def)
  then have "json_list d c (Suc (length (join_units ts @ c # rest))) (join_units ts @ c # rest) = Inr (xs, rest)"
    using assms(1,4) Cons by (intro json_list_read [OF assms(1,2)]) auto
  with u(1) have "json_list d c (Suc (length (u # s))) (u # s) = Inr (xs, rest)" by simp
  with u show ?thesis unfolding u(1) json_items_def by (simp del: json_list.simps)
qed

lemma json_member_read:
  assumes "reads_back m d v t"
  shows "reads_back m (json_member d) (k, v) (json_quote k @ 0x3A # t)"
  unfolding reads_back_def
proof (intro allI impI)
  fix rest
  assume stop: "json_stop rest" and "length ((json_quote k @ 0x3A # t) @ rest) < m"
  then have "length (t @ rest) < m" by (simp add: json_quote_def)
  with assms stop have "d (t @ rest) = Inr (v, rest)" by (intro reads_backD)
  then show "json_member d ((json_quote k @ 0x3A # t) @ rest) = Inr ((k, v), rest)"
    using read_json_escape [of k "0x3A # t @ rest"]
    by (simp add: json_member_def json_quote_def json_space_def)
qed

lemma json_token_head:
  assumes "value_head (u # us)"
  shows "json_token d u us =
    (if u = 0x22 then and_then (read_string us) (\<lambda>(t, r). Inr (VString t, r))
     else if u = 0x5B then and_then (json_items d 0x5D us) (\<lambda>(vs, r). Inr (VArray vs, r))
     else if u = 0x7B then
       and_then (json_items (json_member d) 0x7D us) (\<lambda>(es, r). Inr (VObject (build_object es), r))
     else read_atom (u # us))"
  using value_head_skip [OF assms] unfolding json_token_def by simp

text \<open>A text that is read as an atom.\<close>

lemma atom_reads_back:
  assumes "value_head t" "hd t \<noteq> 0x22" "hd t \<noteq> 0x5B" "hd t \<noteq> 0x7B"
    and "\<And>rest. json_stop rest \<Longrightarrow> read_atom (t @ rest) = Inr (v, rest)"
  shows "reads_back m (json_value m) v t"
  unfolding reads_back_def
proof (intro allI impI)
  fix rest
  assume "json_stop rest" "length (t @ rest) < m"
  moreover obtain u us where t: "t = u # us" using assms(1) by (auto simp: value_head_def)
  moreover have "value_head (u # us @ rest)" using value_head_append [OF assms(1), of rest] t by simp
  ultimately show "json_value m (t @ rest) = Inr (v, rest)"
    using assms(2-5) json_token_head by (cases m) simp_all
qed

lemma read_atom_word:
  "read_atom (units ''null'' @ rest) = Inr (VNull, rest)"
  "read_atom (units ''true'' @ rest) = Inr (VBool True, rest)"
  "read_atom (units ''false'' @ rest) = Inr (VBool False, rest)"
  by (simp_all add: read_atom_def read_word_def units_Cons)

lemma read_atom_number:
  assumes "json_stop rest" "\<bar>n\<bar> \<le> 2 ^ 53"
  shows "read_atom (units (show_int n) @ rest) = Inr (VNumber (NumInt n), rest)"
proof -
  obtain u us where "units (show_int n) = u # us" "digit_unit u \<or> u = 0x2D" using show_int_head [of n] by auto
  moreover from this have "u \<noteq> 0x6E \<and> u \<noteq> 0x74 \<and> u \<noteq> 0x66" by (auto simp: digit_unit_def)
  ultimately show ?thesis using read_show_int [OF assms] by (simp add: read_atom_def)
qed

lemma number_reads_back:
  assumes "\<bar>n\<bar> \<le> 2 ^ 53"
  shows "reads_back m (json_value m) (VNumber (NumInt n)) (units (show_int n))"
proof (rule atom_reads_back [OF _ _ _ _ read_atom_number [OF _ assms]])
  show "value_head (units (show_int n))"
    using json_text_head [of "VNumber (NumInt n)"] assms by simp
  obtain u us where "units (show_int n) = u # us" "digit_unit u \<or> u = 0x2D" using show_int_head [of n] by auto
  then show "hd (units (show_int n)) \<noteq> 0x22" "hd (units (show_int n)) \<noteq> 0x5B" "hd (units (show_int n)) \<noteq> 0x7B"
    by (auto simp: digit_unit_def)
qed

lemma word_reads_back:
  "reads_back m (json_value m) VNull (units ''null'')"
  "reads_back m (json_value m) (VBool b) (units (show_bool b))"
proof -
  show "reads_back m (json_value m) VNull (units ''null'')"
    by (rule atom_reads_back [OF _ _ _ _ read_atom_word(1)])
      (simp_all add: value_head_def json_space_def units_Cons)
  have "reads_back m (json_value m) (VBool True) (units ''true'')"
    by (rule atom_reads_back [OF _ _ _ _ read_atom_word(2)])
      (simp_all add: value_head_def json_space_def units_Cons)
  moreover have "reads_back m (json_value m) (VBool False) (units ''false'')"
    by (rule atom_reads_back [OF _ _ _ _ read_atom_word(3)])
      (simp_all add: value_head_def json_space_def units_Cons)
  ultimately show "reads_back m (json_value m) (VBool b) (units (show_bool b))"
    by (cases b) (simp_all add: show_bool_def)
qed

lemma string_reads_back: "reads_back (Suc m) (json_value (Suc m)) (VString s) (json_quote s)"
  using read_json_escape by (simp add: reads_back_def json_quote_def json_token_head value_head_def json_space_def)

lemma zero_reads_back: "reads_back m (json_value m) (VNumber (NumInt 0)) (units ''0'')"
  using number_reads_back [of 0 m] show_nat_zero by (simp add: show_int_def units_Cons)

lemma array_reads_back:
  assumes "list_all2 (reads_back m (json_value m)) vs ts" "\<And>t. t \<in> set ts \<Longrightarrow> value_head t"
  shows "reads_back (Suc m) (json_value (Suc m)) (VArray vs) (0x5B # join_units ts @ [0x5D])"
  using json_items_read [OF assms(1) _ assms(2)]
  by (simp add: reads_back_def json_token_head value_head_def json_space_def)

lemma object_reads_back:
  assumes "list_all2 (reads_back m (json_member (json_value m))) es ts" "\<And>t. t \<in> set ts \<Longrightarrow> value_head t"
    and "object_entries es"
  shows "reads_back (Suc m) (json_value (Suc m)) (VObject es) (0x7B # join_units ts @ [0x7D])"
  using json_items_read [OF assms(1) _ assms(2)] assms(3)
  by (simp add: reads_back_def json_token_head value_head_def json_space_def object_entries_def)

text \<open>A text that reads back with enough turns reads back with fewer, as long as they exceed the
  text.\<close>

lemma reads_back_turns:
  assumes "reads_back m (json_value m) v t" "n \<le> m"
  shows "reads_back n (json_value n) v t"
  unfolding reads_back_def
proof (intro allI impI)
  fix rest
  assume *: "json_stop rest" "length (t @ rest) < n"
  then have "json_value m (t @ rest) = json_value n (t @ rest)"
    using assms(2) json.dec_any_fuel [of "t @ rest" m] json.dec_any_fuel [of "t @ rest" n] by simp
  then show "json_value n (t @ rest) = Inr (v, rest)"
    using reads_backD [OF assms(1)] * assms(2) by simp
qed

lemma entries_image:
  "object_entries (filter defined_entry es) \<Longrightarrow>
   object_entries (map (\<lambda>(k, v). (k, json_image v)) (filter defined_entry es))"
  using build_object_map [of json_image "filter defined_entry es"] by (simp add: object_entries_def)

lemma json_text_array:
  "stringify (VArray vs) = Inr (Some t) \<longleftrightarrow>
     (\<exists>ts. list_all2 (\<lambda>v x. stringify v = Inr x) vs ts \<and>
       t = 0x5B # join_units (map (\<lambda>t. case t of None \<Rightarrow> units ''null'' | Some t \<Rightarrow> t) ts) @ [0x5D])"
  by (auto simp: and_then_Inr map_codec_Inr)

lemma json_text_object:
  "stringify (VObject es) = Inr (Some t) \<longleftrightarrow>
     (\<exists>ts. list_all2 (\<lambda>e x. \<exists>y. stringify (snd e) = Inr y \<and> x = map_option (\<lambda>t. json_quote (fst e) @ 0x3A # t) y) es ts \<and>
       t = 0x7B # join_units (List.map_filter (\<lambda>t. t) ts) @ [0x7D])"
proof -
  have "(\<lambda>(k, v). and_then (stringify v) (\<lambda>t. Inr (map_option (\<lambda>t. json_quote k @ 0x3A # t) t))) e = Inr x \<longleftrightarrow>
      (\<exists>y. stringify (snd e) = Inr y \<and> x = map_option (\<lambda>t. json_quote (fst e) @ 0x3A # t) y)" for e x
    by (auto simp: split_beta and_then_Inr)
  then show ?thesis unfolding stringify.simps and_then_Inr map_codec_Inr by auto
qed

lemma list_all2_defined:
  assumes "list_all2 P es ts"
    and "\<And>e t. e \<in> set es \<Longrightarrow> P e t \<Longrightarrow> (case t of None \<Rightarrow> \<not> D e | Some u \<Rightarrow> D e \<and> Q (g e) u)"
  shows "list_all2 Q (map g (filter D es)) (List.map_filter (\<lambda>t. t) ts)"
  using assms
proof (induction rule: list_all2_induct)
  case Nil
  then show ?case by simp
next
  case (Cons e es t ts)
  then have "list_all2 Q (map g (filter D es)) (List.map_filter (\<lambda>t. t) ts)" by simp
  moreover have "case t of None \<Rightarrow> \<not> D e | Some u \<Rightarrow> D e \<and> Q (g e) u" using Cons by simp
  ultimately show ?case by (cases t) (simp_all add: map_filter_simps)
qed

lemma json_reads_back:
  "json_able v \<Longrightarrow> stringify v = Inr (Some t) \<Longrightarrow> reads_back (Suc m) (json_value (Suc m)) (json_image v) t"
proof (induction v arbitrary: t m rule: stringify.induct)
  case (7 vs)
  from 7(3) obtain ts where 2: "list_all2 (\<lambda>v x. stringify v = Inr x) vs ts"
    and t: "t = 0x5B # join_units (map (\<lambda>t. case t of None \<Rightarrow> units ''null'' | Some t \<Rightarrow> t) ts) @ [0x5D]"
    unfolding json_text_array by blast
  have 1: "reads_back (Suc k) (json_value (Suc k)) (json_image v) (case x of None \<Rightarrow> units ''null'' | Some t \<Rightarrow> t)
      \<and> value_head (case x of None \<Rightarrow> units ''null'' | Some t \<Rightarrow> t)"
    if "v \<in> set vs" "stringify v = Inr x" for v x k
  proof (cases x)
    case None
    with that have "v = VUndefined" by (simp add: json_text_None)
    with None json_text_head [of VNull] show ?thesis by (simp add: word_reads_back del: json_value.simps)
  next
    case (Some u)
    moreover have "json_able v" using 7(2) that(1) by (simp add: list_all_iff)
    ultimately show ?thesis using 7(1) [OF that(1)] that(2) json_text_head by simp
  qed
  show ?case unfolding t json_image.simps
  proof (rule array_reads_back)
    show "list_all2 (reads_back m (json_value m)) (map json_image vs)
        (map (\<lambda>t. case t of None \<Rightarrow> units ''null'' | Some t \<Rightarrow> t) ts)"
      unfolding list_all2_map1 list_all2_map2
      by (rule list.rel_mono_strong [OF 2]) (use 1 reads_back_turns [of "Suc m" _ _ m] in simp)
    show "value_head u" if "u \<in> set (map (\<lambda>t. case t of None \<Rightarrow> units ''null'' | Some t \<Rightarrow> t) ts)" for u
    proof -
      from that obtain i where i: "i < length ts" "u = (case ts ! i of None \<Rightarrow> units ''null'' | Some t \<Rightarrow> t)"
        by (auto simp: in_set_conv_nth)
      then have "vs ! i \<in> set vs" "stringify (vs ! i) = Inr (ts ! i)"
        using 2 by (auto simp: list_all2_conv_all_nth)
      with 1 [of "vs ! i" "ts ! i"] i(2) show ?thesis by simp
    qed
  qed
next
  case (8 es)
  let ?entry = "\<lambda>e x. \<exists>y. stringify (snd e) = Inr y \<and> x = map_option (\<lambda>t. json_quote (fst e) @ 0x3A # t) y"
  from 8(3) obtain ts where 1: "list_all2 ?entry es ts"
    and t: "t = 0x7B # join_units (List.map_filter (\<lambda>t. t) ts) @ [0x7D]"
    unfolding json_text_object by blast
  have 2: "reads_back m (json_value m) (json_image v) u"
    if "(k, v) \<in> set es" "stringify v = Inr (Some u)" for k v u
  proof -
    have "json_able v" using 8(2) that(1) by (auto simp: list_all_iff)
    then have "reads_back (Suc m) (json_value (Suc m)) (json_image v) u"
      using 8(1) [OF that(1) refl] that(2) by simp
    then show ?thesis by (rule reads_back_turns) simp
  qed
  show ?case unfolding t json_image.simps
  proof (rule object_reads_back)
    show "list_all2 (reads_back m (json_member (json_value m)))
        (map (\<lambda>(k, v). (k, json_image v)) (filter defined_entry es)) (List.map_filter (\<lambda>t. t) ts)"
      by (rule list_all2_defined [OF 1])
        (auto simp: defined_entry_def json_text_None [symmetric] split: option.split intro!: json_member_read 2)
    show "object_entries (map (\<lambda>(k, v). (k, json_image v)) (filter defined_entry es))"
      using 8(2) by (intro entries_image) simp
    show "value_head u" if "u \<in> set (List.map_filter (\<lambda>t. t) ts)" for u
    proof -
      from that obtain i where "i < length ts" "ts ! i = Some u" by (auto simp: in_set_conv_nth)
      with 1 have "\<exists>k t. u = json_quote k @ 0x3A # t"
        by (force simp: list_all2_conv_all_nth split_beta)
      then show ?thesis by (auto simp: json_quote_def value_head_def json_space_def)
    qed
  qed
qed (use word_reads_back number_reads_back zero_reads_back string_reads_back in \<open>auto split: if_splits simp del: json_value.simps\<close>)

text \<open>JSON.parse reads back what JSON.stringify wrote.\<close>

theorem json_roundtrip:
  assumes "json_able v" and "stringify v = Inr (Some t)"
  shows "parse_json t = Inr (json_image v)"
proof -
  have "json_value (Suc (length t)) (t @ []) = Inr (json_image v, [])"
    by (rule reads_backD [OF json_reads_back [OF assms]]) simp_all
  then show ?thesis by (simp add: parse_json_def del: json_value.simps)
qed

text \<open>The text has no lone surrogate, so that it survives its UTF-8 encoding.\<close>

lemma well_formed_append: "well_formed_text s \<Longrightarrow> well_formed_text t \<Longrightarrow> well_formed_text (s @ t)"
  by (induction s rule: well_formed_text.induct) (auto split: list.splits if_splits)

lemma well_formed_escape: "well_formed_text (unicode_escape u)"
proof (rule well_formed_small)
  fix w
  have "unat (hex_unit n) < 256" if "n < 16" for n using that by (simp add: hex_unit_def unat_of_nat)
  moreover have "unat u div 4096 < 16" using unat_unit_less [of u] by (simp add: div_less_iff_less_mult)
  moreover assume "w \<in> set (unicode_escape u)"
  ultimately have "unat w < 256" by (auto simp: unicode_escape_def)
  then show "\<not> high_surrogate w \<and> \<not> low_surrogate w" by (auto simp: high_surrogate_def low_surrogate_def)
qed

lemma well_formed_Cons: "\<not> high_surrogate u \<Longrightarrow> \<not> low_surrogate u \<Longrightarrow> well_formed_text s \<Longrightarrow> well_formed_text (u # s)"
  by simp

lemma not_surrogate: "unat u < 0xD800 \<Longrightarrow> \<not> high_surrogate u \<and> \<not> low_surrogate u"
  by (simp add: high_surrogate_def low_surrogate_def)

lemma well_formed_json_escape: "well_formed_text (json_escape s)"
proof (induction "length s" arbitrary: s rule: less_induct)
  case less
  note simps = escape_special escape_control escape_plain escape_high
  note wf = well_formed_append well_formed_escape well_formed_Cons
  show ?case
  proof (cases s)
    case Nil
    then show ?thesis by simp
  next
    case (Cons u us)
    then have IH: "well_formed_text (json_escape us)" by (intro less) simp
    consider "u \<in> special_units" | "u \<notin> special_units" "u < 0x20"
      | "u \<notin> special_units" "\<not> u < 0x20" "\<not> high_surrogate u" | "high_surrogate u"
      by blast
    then show ?thesis
    proof cases
      case 1
      then show ?thesis unfolding special_units_def Cons
        by (elim insertE emptyE)
          (simp_all add: simps IH not_surrogate del: json_escape.simps)
    next
      case 2
      then show ?thesis by (simp add: Cons simps IH wf del: json_escape.simps)
    next
      case 3
      then show ?thesis by (cases "low_surrogate u") (simp_all add: Cons simps IH wf del: json_escape.simps)
    next
      case 4
      show ?thesis
      proof (cases us)
        case Nil
        with 4 show ?thesis by (simp add: Cons simps wf del: json_escape.simps)
      next
        case vs: (Cons v vs)
        have "well_formed_text (json_escape vs)" by (intro less) (simp add: Cons vs)
        with 4 IH vs show ?thesis
          by (cases "low_surrogate v") (simp_all add: Cons simps wf del: json_escape.simps)
      qed
    qed
  qed
qed

lemma well_formed_quote: "well_formed_text (json_quote s)"
  by (simp add: json_quote_def not_surrogate well_formed_append well_formed_json_escape)

lemma well_formed_join: "(\<And>t. t \<in> set ts \<Longrightarrow> well_formed_text t) \<Longrightarrow> well_formed_text (join_units ts)"
  by (induction ts rule: join_units.induct) (simp_all add: well_formed_append not_surrogate)

lemma json_text_well_formed: "stringify v = Inr (Some t) \<Longrightarrow> well_formed_text t"
proof (induction v arbitrary: t rule: stringify.induct)
  case (7 vs)
  from 7(2) obtain ts where ts: "list_all2 (\<lambda>v x. stringify v = Inr x) vs ts"
    and t: "t = 0x5B # join_units (map (\<lambda>t. case t of None \<Rightarrow> units ''null'' | Some t \<Rightarrow> t) ts) @ [0x5D]"
    unfolding json_text_array by blast
  have "well_formed_text u" if "Some u \<in> set ts" for u
    using ts 7(1) that by (fastforce simp: list_all2_conv_all_nth in_set_conv_nth)
  then have "well_formed_text (join_units (map (\<lambda>t. case t of None \<Rightarrow> units ''null'' | Some t \<Rightarrow> t) ts))"
    by (intro well_formed_join) (auto simp: units_well_formed split: option.split)
  then show ?case by (simp add: t not_surrogate well_formed_append)
next
  case (8 es)
  from 8(2) obtain ts where ts: "list_all2 (\<lambda>e x. \<exists>y. stringify (snd e) = Inr y \<and>
      x = map_option (\<lambda>t. json_quote (fst e) @ 0x3A # t) y) es ts"
    and t: "t = 0x7B # join_units (List.map_filter (\<lambda>t. t) ts) @ [0x7D]"
    unfolding json_text_object by blast
  have "well_formed_text u" if "Some u \<in> set ts" for u
  proof -
    from that obtain i where i: "i < length ts" "ts ! i = Some u" by (auto simp: in_set_conv_nth)
    then obtain y where y: "stringify (snd (es ! i)) = Inr (Some y)" "u = json_quote (fst (es ! i)) @ 0x3A # y"
      using ts by (fastforce simp: list_all2_conv_all_nth split_beta)
    have "es ! i \<in> set es" using i ts by (simp add: list_all2_conv_all_nth)
    then have "well_formed_text y" using 8(1) [of "es ! i" "fst (es ! i)" "snd (es ! i)" y] y(1) by simp
    then show ?thesis using y(2) by (simp add: not_surrogate well_formed_append well_formed_quote)
  qed
  then have "well_formed_text (join_units (List.map_filter (\<lambda>t. t) ts))"
    by (intro well_formed_join) auto
  then show ?case by (simp add: t not_surrogate well_formed_append)
qed (auto simp: units_well_formed well_formed_quote split: if_splits)

lemma json_bytes_roundtrip:
  assumes "json_able v" and "stringify v = Inr (Some t)"
  shows "parse_json (from_utf8 (to_utf8 t)) = Inr (json_image v)"
  using json_roundtrip [OF assms] utf8_roundtrip [OF json_text_well_formed [OF assms(2)]] by simp

text \<open>Objects whose keys are no array indices keep the order of their entries.\<close>

lemma index_key_letter: "\<not> digit_unit u \<Longrightarrow> index_key (u # us) = None"
  by (auto simp: index_key_def digit_unit_def Let_def)

lemma index_key_named:
  assumes "s \<noteq> []" "\<not> (48 \<le> (of_char (hd s) :: nat) \<and> (of_char (hd s) :: nat) \<le> 57)"
  shows "index_key (units s) = None"
proof -
  obtain c cs where s: "s = c # cs" using assms(1) by (cases s) auto
  have 1: "(of_char c :: nat) < 256" by (rule nat_of_char_less_256)
  have "unat (word_of_nat (of_char c) :: 16 word) = of_char c"
    by (rule unat_unit, rule order_less_trans [OF 1]) simp
  then have "\<not> digit_unit (word_of_nat (of_char c))" using assms(2) unfolding s digit_unit_def by simp
  then show ?thesis unfolding s units_Cons by (rule index_key_letter)
qed

lemma object_entries_named:
  assumes "distinct (map fst es)" and "\<And>k. k \<in> fst ` set es \<Longrightarrow> index_key k = None"
  shows "object_entries es"
  using assms
proof (induction es rule: rev_induct)
  case Nil
  then show ?case by (simp add: object_entries_def build_object_def)
next
  case (snoc e es)
  then have "build_object es = es" by (simp add: object_entries_def)
  moreover have "fst e \<notin> fst ` set es" "index_key (fst e) = None" using snoc.prems by auto
  ultimately show ?case
    by (cases e) (simp add: object_entries_def build_object_snoc set_property_def)
qed

text \<open>An exception, as the outcome of a codec.\<close>

definition lift_result :: "'a result \<Rightarrow> 'a codec" where
  "lift_result r = (case r of Inl e \<Rightarrow> Inl (Throws e) | Inr x \<Rightarrow> Inr x)"

subsection \<open>Reading properties\<close>

text \<open>\<open>v.k\<close> for a name that no prototype has: reading a property of null throws; a value without the
  property gives undefined.\<close>

fun read_property :: "string \<Rightarrow> js_value \<Rightarrow> js_value result" where
  "read_property k VNull = Inl (JsTypeError (''Cannot read properties of null (reading '' @ [CHR 0x27] @ k @ [CHR 0x27] @ '')''))"
| "read_property k VUndefined = Inl (JsTypeError (''Cannot read properties of undefined (reading '' @ [CHR 0x27] @ k @ [CHR 0x27] @ '')''))"
| "read_property k (VObject es) = Inr (case map_of es (units k) of None \<Rightarrow> VUndefined | Some v \<Rightarrow> v)"
| "read_property k v = Inr VUndefined"

text \<open>A value in a condition.\<close>

fun value_truthy :: "js_value \<Rightarrow> bool" where
  "value_truthy VUndefined = False"
| "value_truthy VNull = False"
| "value_truthy (VBool b) = b"
| "value_truthy (VNumber (NumInt n)) = (n \<noteq> 0)"
| "value_truthy (VNumber (NumBits w)) = (w \<noteq> minus_zero \<and> w \<noteq> nan_bits)"
| "value_truthy (VString s) = (s \<noteq> [])"
| "value_truthy v = True"

declare dropWhile_eq_Nil_conv [simp]

end
