(* ===== verification/Session.thy ===== *)
theory Session
  imports Json
begin

section \<open>Sessions\<close>

text \<open>
  packages/core/src/auth/session.ts: encrypted session tokens and the in-memory session store
  with its timers. AES-256-GCM and scrypt are parameters (\<open>gcm\<close>, \<open>scrypt\<close>), the initialisation
  vector and the session id are arguments; the JSON text, its UTF-8 bytes and base64url are the
  concrete ones. A timer of the store is its due time; firing it is an event of its own, which can
  happen at any moment from then on.
\<close>

subsection \<open>Session data and its JSON form\<close>

record session_data =
  sd_userId :: js_text
  sd_did :: "js_text option"
  sd_roles :: "js_text list"
  sd_permissions :: "js_text list"
  sd_metadata :: "js_value option"
  sd_issuedAt :: int
  sd_expiresAt :: int

definition optional_value :: "js_value option \<Rightarrow> js_value" where
  "optional_value v = (case v of None \<Rightarrow> VUndefined | Some x \<Rightarrow> x)"

definition session_entries :: "session_data \<Rightarrow> js_value entries" where
  "session_entries d =
     [(units ''userId'', VString (sd_userId d)),
      (units ''did'', optional_value (map_option VString (sd_did d))),
      (units ''roles'', VArray (map VString (sd_roles d))),
      (units ''permissions'', VArray (map VString (sd_permissions d))),
      (units ''metadata'', optional_value (sd_metadata d)),
      (units ''issuedAt'', VNumber (NumInt (sd_issuedAt d))),
      (units ''expiresAt'', VNumber (NumInt (sd_expiresAt d)))]"

fun text_of :: "js_value \<Rightarrow> js_text option" where
  "text_of (VString s) = Some s"
| "text_of v = None"

fun texts_of :: "js_value \<Rightarrow> js_text list option" where
  "texts_of (VArray vs) = those (map text_of vs)"
| "texts_of v = None"

fun int_of :: "js_value \<Rightarrow> int option" where
  "int_of (VNumber (NumInt n)) = Some n"
| "int_of v = None"

text \<open>The record a parsed object stands for; \<open>None\<close> when it is not the JSON form of one.\<close>

definition session_of :: "js_value \<Rightarrow> session_data option" where
  "session_of v =
     (case v of
        VObject es \<Rightarrow>
          (let f = (\<lambda>k. map_of es (units k))
           in case (Option.bind (f ''userId'') text_of, Option.bind (f ''roles'') texts_of,
                    Option.bind (f ''permissions'') texts_of, Option.bind (f ''issuedAt'') int_of,
                    Option.bind (f ''expiresAt'') int_of) of
                (Some u, Some r, Some p, Some i, Some e) \<Rightarrow>
                  (let d = \<lparr>sd_userId = u, sd_did = Option.bind (f ''did'') text_of, sd_roles = r,
                            sd_permissions = p, sd_metadata = f ''metadata'', sd_issuedAt = i, sd_expiresAt = e\<rparr>
                   in if filter defined_entry (session_entries d) = es then Some d else None)
              | _ \<Rightarrow> None)
      | _ \<Rightarrow> None)"

subsection \<open>Encryption and tokens\<close>

text \<open>\<open>gcm_seal key iv plaintext\<close> gives the ciphertext and the tag; \<open>gcm_open key iv ciphertext tag\<close>
  is \<open>None\<close> where the decipher throws.\<close>

record gcm =
  gcm_seal :: "bytes \<Rightarrow> bytes \<Rightarrow> bytes \<Rightarrow> bytes \<times> bytes"
  gcm_open :: "bytes \<Rightarrow> bytes \<Rightarrow> bytes \<Rightarrow> bytes \<Rightarrow> bytes option"

record encrypted_session =
  es_ciphertext :: string
  es_iv :: string
  es_tag :: string

definition derive_key :: "(string \<Rightarrow> string \<Rightarrow> nat \<Rightarrow> bytes) \<Rightarrow> string + bytes \<Rightarrow> bytes" where
  "derive_key scrypt encryptionKey =
     (case encryptionKey of Inl passphrase \<Rightarrow> scrypt passphrase ''session-salt'' 32 | Inr buffer \<Rightarrow> buffer)"

definition encrypt :: "gcm \<Rightarrow> bytes \<Rightarrow> bytes \<Rightarrow> session_data \<Rightarrow> encrypted_session codec" where
  "encrypt G key iv sessionData =
     (if length key \<noteq> 32 then Inl (Throws (JsRangeError ''Invalid key length''))
      else and_then (stringify (VObject (session_entries sessionData))) (\<lambda>t.
        (case gcm_seal G key iv (to_utf8 (case t of None \<Rightarrow> [] | Some u \<Rightarrow> u)) of
           (encrypted, tag) \<Rightarrow>
             Inr \<lparr>es_ciphertext = to_base64url encrypted, es_iv = to_base64url iv, es_tag = to_base64url tag\<rparr>)))"

text \<open>Every exception is caught and gives null; a value that is no session data is outside the
  model.\<close>

definition decrypt :: "gcm \<Rightarrow> bytes \<Rightarrow> encrypted_session \<Rightarrow> session_data option codec" where
  "decrypt G key encrypted =
     (if length key \<noteq> 32 then Inr None
      else
        (case gcm_open G key (from_base64url (es_iv encrypted)) (from_base64url (es_ciphertext encrypted))
                (from_base64url (es_tag encrypted)) of
           None \<Rightarrow> Inr None
         | Some decrypted \<Rightarrow>
             (case parse_json (from_utf8 decrypted) of
                Inl (Throws e) \<Rightarrow> Inr None
              | Inl e \<Rightarrow> Inl e
              | Inr v \<Rightarrow> (case session_of v of None \<Rightarrow> Inl OutOfModel | Some d \<Rightarrow> Inr (Some d)))))"

text \<open>The JSON text of \<open>{ typ: 'session-v1' }\<close>.\<close>

definition token_header :: string where
  "token_header = to_base64url (utf8 (''{'' @ [CHR 0x22] @ ''typ'' @ [CHR 0x22] @ '':'' @ [CHR 0x22] @ ''session-v1'' @ [CHR 0x22] @ ''}''))"

definition createSessionToken :: "gcm \<Rightarrow> bytes \<Rightarrow> bytes \<Rightarrow> session_data \<Rightarrow> string codec" where
  "createSessionToken G key iv sessionData =
     and_then (encrypt G key iv sessionData) (\<lambda>e.
       Inr (token_header @ ''.'' @ es_iv e @ ''.'' @ es_ciphertext e @ ''.'' @ es_tag e))"

definition parseSessionToken :: "gcm \<Rightarrow> bytes \<Rightarrow> string \<Rightarrow> session_data option codec" where
  "parseSessionToken G key token =
     (case split_on (CHR ''.'') token of
        [h, iv, ciphertext, tag] \<Rightarrow> decrypt G key \<lparr>es_ciphertext = ciphertext, es_iv = iv, es_tag = tag\<rparr>
      | _ \<Rightarrow> Inr None)"

definition validateSession :: "gcm \<Rightarrow> bytes \<Rightarrow> string \<Rightarrow> int \<Rightarrow> session_data option codec" where
  "validateSession G key token now =
     and_then (parseSessionToken G key token) (\<lambda>data.
       (case data of
          None \<Rightarrow> Inr None
        | Some d \<Rightarrow> if now > sd_expiresAt d then Inr None else Inr (Some d)))"

subsection \<open>The store\<close>

record session_store =
  ss_store :: "(string, session_data \<times> int) jsmap"
  ss_timers :: "(string, int) jsmap" \<comment> \<open>when the pending timer is due\<close>

definition empty_session_store :: session_store where
  "empty_session_store = \<lparr>ss_store = jm_empty, ss_timers = jm_empty\<rparr>"

text \<open>setTimeout fires after one millisecond when the delay is below 1 or beyond 2^31 - 1.\<close>

definition timer_delay :: "int \<Rightarrow> int" where
  "timer_delay ms = (if 1 \<le> ms \<and> ms \<le> 2147483647 then ms else 1)"

definition store_get :: "string \<Rightarrow> int \<Rightarrow> session_store \<Rightarrow> session_data option \<times> session_store" where
  "store_get sid now s =
     (case jm_get (ss_store s) sid of
        None \<Rightarrow> (None, s)
      | Some (data, ttl) \<Rightarrow>
          if now > sd_expiresAt data then (None, s\<lparr>ss_store := jm_del sid (ss_store s)\<rparr>)
          else (Some data, s))"

definition store_set :: "string \<Rightarrow> session_data \<Rightarrow> int \<Rightarrow> int \<Rightarrow> session_store \<Rightarrow> session_store" where
  "store_set sid data ttlMs now s =
     s\<lparr>ss_store := jm_set sid (data, ttlMs) (ss_store s),
       ss_timers := jm_set sid (now + timer_delay ttlMs) (ss_timers s)\<rparr>"

definition store_delete :: "string \<Rightarrow> session_store \<Rightarrow> session_store" where
  "store_delete sid s =
     s\<lparr>ss_store := jm_del sid (ss_store s),
       ss_timers := (case jm_get (ss_timers s) sid of None \<Rightarrow> ss_timers s | Some due \<Rightarrow> jm_del sid (ss_timers s))\<rparr>"

text \<open>The callback of the timer of \<open>sid\<close>, once it is due.\<close>

definition fire_timer :: "string \<Rightarrow> int \<Rightarrow> session_store \<Rightarrow> session_store" where
  "fire_timer sid now s =
     (case jm_get (ss_timers s) sid of
        None \<Rightarrow> s
      | Some due \<Rightarrow>
          if due \<le> now then s\<lparr>ss_store := jm_del sid (ss_store s), ss_timers := jm_del sid (ss_timers s)\<rparr>
          else s)"

subsection \<open>The session manager\<close>

definition new_session :: "js_text \<Rightarrow> js_text list \<Rightarrow> js_text list \<Rightarrow> int \<Rightarrow> js_text option \<Rightarrow> js_value option \<Rightarrow> int \<Rightarrow> session_data" where
  "new_session userId roles permissions ttlMs did metadata now =
     \<lparr>sd_userId = userId, sd_did = did, sd_roles = roles, sd_permissions = permissions,
      sd_metadata = metadata, sd_issuedAt = now, sd_expiresAt = now + ttlMs\<rparr>"

definition createSession ::
    "gcm \<Rightarrow> bytes \<Rightarrow> string \<Rightarrow> bytes \<Rightarrow> int \<Rightarrow> js_text \<Rightarrow> js_text list \<Rightarrow> js_text list \<Rightarrow> int \<Rightarrow> js_text option
      \<Rightarrow> js_value option \<Rightarrow> session_store \<Rightarrow> (string \<times> string) codec \<times> session_store" where
  "createSession G key sessionId iv now userId roles permissions ttlMs did metadata s =
     (let sessionData = new_session userId roles permissions ttlMs did metadata now
      in case createSessionToken G key iv sessionData of
           Inl e \<Rightarrow> (Inl e, s)
         | Inr token \<Rightarrow> (Inr (sessionId, token), store_set sessionId sessionData ttlMs now s))"

definition refreshSession ::
    "gcm \<Rightarrow> bytes \<Rightarrow> bytes \<Rightarrow> int \<Rightarrow> string \<Rightarrow> string \<Rightarrow> int \<Rightarrow> session_store \<Rightarrow> (string \<times> string) option codec \<times> session_store" where
  "refreshSession G key iv now sessionId token ttlMs s =
     (case validateSession G key token now of
        Inl e \<Rightarrow> (Inl e, s)
      | Inr None \<Rightarrow> (Inr None, s)
      | Inr (Some data) \<Rightarrow>
          (let newData = data\<lparr>sd_issuedAt := now, sd_expiresAt := now + ttlMs\<rparr>
           in case createSessionToken G key iv newData of
                Inl e \<Rightarrow> (Inl e, s)
              | Inr newToken \<Rightarrow> (Inr (Some (sessionId, newToken)), store_set sessionId newData ttlMs now s)))"

definition revokeSession :: "string \<Rightarrow> session_store \<Rightarrow> session_store" where
  "revokeSession sessionId s = store_delete sessionId s"

subsection \<open>Tokens read back\<close>

text \<open>Metadata that JSON can carry.\<close>

definition session_ok :: "session_data \<Rightarrow> bool" where
  "session_ok d \<longleftrightarrow> \<bar>sd_issuedAt d\<bar> \<le> 2 ^ 53 \<and> \<bar>sd_expiresAt d\<bar> \<le> 2 ^ 53 \<and>
     (case sd_metadata d of None \<Rightarrow> True
      | Some m \<Rightarrow> m \<noteq> VUndefined \<and> json_able m \<and> json_image m = m \<and> (\<exists>t. stringify m = Inr (Some t)))"

text \<open>What AES-GCM documents: opening what was sealed with the same key and vector gives it back.\<close>

definition gcm_correct :: "gcm \<Rightarrow> bool" where
  "gcm_correct G \<longleftrightarrow> (\<forall>key iv p. case gcm_seal G key iv p of (c, tag) \<Rightarrow> gcm_open G key iv c tag = Some p)"

lemma those_text_of [simp]: "those (map (text_of \<circ> VString) xs) = Some xs"
  by (induction xs) simp_all

lemma image_VString [simp]: "map (json_image \<circ> VString) xs = map VString xs"
  by simp

lemma session_keys_distinct: "distinct (map fst (session_entries d))"
  by (simp add: session_entries_def units_eq_iff)

lemma session_keys_named: "k \<in> fst ` set (session_entries d) \<Longrightarrow> index_key k = None"
  by (auto simp: session_entries_def intro!: index_key_named)

lemma distinct_map_filter_fst: "distinct (map fst es) \<Longrightarrow> distinct (map fst (filter P es))"
  by (induction es) auto

lemma session_object_entries: "object_entries (filter defined_entry (session_entries d))"
  by (intro object_entries_named distinct_map_filter_fst session_keys_distinct session_keys_named) auto

lemma session_image:
  assumes "session_ok d"
  shows "json_image (VObject (session_entries d)) = VObject (filter defined_entry (session_entries d))"
  using assms
  by (auto simp: session_entries_def defined_entry_def session_ok_def optional_value_def
      split: option.splits)

lemma session_able: "session_ok d \<Longrightarrow> json_able (VObject (session_entries d))"
  using session_object_entries [of d]
  by (auto simp: session_entries_def session_ok_def optional_value_def list_all_iff split: option.splits)

lemma session_of_entries:
  assumes "session_ok d"
  shows "session_of (VObject (filter defined_entry (session_entries d))) = Some d"
proof -
  obtain u did r p m i e where d: "d = \<lparr>sd_userId = u, sd_did = did, sd_roles = r, sd_permissions = p,
      sd_metadata = m, sd_issuedAt = i, sd_expiresAt = e\<rparr>"
    by (cases d) auto
  show ?thesis using assms unfolding d
    by (cases did; cases m)
      (simp_all add: session_of_def session_entries_def defined_entry_def optional_value_def units_eq_iff
        Let_def session_ok_def)
qed

lemma session_text:
  assumes "session_ok d"
  shows "\<exists>t. stringify (VObject (session_entries d)) = Inr (Some t)"
proof -
  have v: "\<exists>x. stringify v = Inr x" if "(k, v) \<in> set (session_entries d)" for k v
  proof -
    have "stringify (VArray (map VString xs)) = Inr (Some (0x5B # join_units (map json_quote xs) @ [0x5D]))" for xs
    proof -
      have "map_codec stringify (map VString xs) = Inr (map (Some \<circ> json_quote) xs)"
        by (simp add: map_codec_Inr list_all2_conv_all_nth)
      then show ?thesis by (simp add: comp_def)
    qed
    with that assms show ?thesis
      by (auto simp: session_entries_def session_ok_def optional_value_def split: option.splits simp del: stringify.simps(7))
  qed
  have "\<exists>ts. list_all2 (\<lambda>e x. \<exists>y. stringify (snd e) = Inr y \<and>
      x = map_option (\<lambda>t. json_quote (fst e) @ 0x3A # t) y) es ts"
    if "\<And>k v. (k, v) \<in> set es \<Longrightarrow> \<exists>x. stringify v = Inr x" for es
    using that
  proof (induction es)
    case (Cons e es)
    then obtain ts where "list_all2 (\<lambda>e x. \<exists>y. stringify (snd e) = Inr y \<and>
      x = map_option (\<lambda>t. json_quote (fst e) @ 0x3A # t) y) es ts" by force
    moreover obtain y where "stringify (snd e) = Inr y" using Cons.prems [of "fst e" "snd e"] by auto
    ultimately show ?case by (intro exI [of _ "map_option (\<lambda>t. json_quote (fst e) @ 0x3A # t) y # ts"]) auto
  qed auto
  with v show ?thesis unfolding json_text_object by blast
qed

lemma token_parts:
  "split_on (CHR ''.'') (token_header @ ''.'' @ to_base64url a @ ''.'' @ to_base64url b @ ''.'' @ to_base64url c) =
     [token_header, to_base64url a, to_base64url b, to_base64url c]"
proof -
  have n: "CHR ''.'' \<notin> set (to_base64url x)" for x using base64url_chars by blast
  show ?thesis unfolding token_header_def by (simp add: split_on_append n split_on_notin)
qed

lemma token_roundtrip:
  assumes "gcm_correct G" "length key = 32" "session_ok d"
  obtains token where "createSessionToken G key iv d = Inr token"
    "parseSessionToken G key token = Inr (Some d)"
proof -
  obtain t where t: "stringify (VObject (session_entries d)) = Inr (Some t)"
    using session_text [OF assms(3)] by blast
  obtain c tag where seal: "gcm_seal G key iv (to_utf8 t) = (c, tag)" by (cases "gcm_seal G key iv (to_utf8 t)")
  then have opens: "gcm_open G key iv c tag = Some (to_utf8 t)"
  proof -
    have "case gcm_seal G key iv (to_utf8 t) of (c, tag) \<Rightarrow> gcm_open G key iv c tag = Some (to_utf8 t)"
      using assms(1) by (simp add: gcm_correct_def)
    then show ?thesis by (simp add: seal)
  qed
  let ?token = "token_header @ ''.'' @ to_base64url iv @ ''.'' @ to_base64url c @ ''.'' @ to_base64url tag"
  have "createSessionToken G key iv d = Inr ?token"
    using assms(2) t seal by (simp add: createSessionToken_def encrypt_def del: stringify.simps)
  moreover have "parse_json (from_utf8 (to_utf8 t)) = Inr (VObject (filter defined_entry (session_entries d)))"
    using json_bytes_roundtrip [OF session_able [OF assms(3)] t] session_image [OF assms(3)] by simp
  then have "parseSessionToken G key ?token = Inr (Some d)"
    unfolding parseSessionToken_def token_parts
    using assms opens session_of_entries [OF assms(3)] by (simp add: decrypt_def)
  ultimately show ?thesis by (rule that)
qed

subsection \<open>The contract of a session store\<close>

text \<open>What the manager relies on, between two timers: a session that is set can be read until it
  expires, a deleted one cannot, other sessions are not touched.\<close>

locale session_keeper =
  fixes get :: "string \<Rightarrow> int \<Rightarrow> 's \<Rightarrow> session_data option"
    and set :: "string \<Rightarrow> session_data \<Rightarrow> int \<Rightarrow> int \<Rightarrow> 's \<Rightarrow> 's"
    and del :: "string \<Rightarrow> 's \<Rightarrow> 's"
  assumes get_set: "get sid' t (set sid d ttl now s) =
      (if sid' = sid then if t > sd_expiresAt d then None else Some d else get sid' t s)"
    and get_del: "get sid' t (del sid s) = (if sid' = sid then None else get sid' t s)"
begin

lemma set_after_del: "t \<le> sd_expiresAt d \<Longrightarrow> get sid t (set sid d ttl now (del sid s)) = Some d"
  by (simp add: get_set)

lemma set_set: "get sid' t (set sid d ttl now (set sid d' ttl' now' s)) = get sid' t (set sid d ttl now s)"
  by (simp add: get_set)

lemma set_del_other: "sid' \<noteq> sid \<Longrightarrow> get sid' t (del sid' (set sid d ttl now s)) = None"
  by (simp add: get_del)

end

lemma store_get_simps:
  "fst (store_get sid t s) =
     (case jm_get (ss_store s) sid of None \<Rightarrow> None
      | Some (d, ttl) \<Rightarrow> if t > sd_expiresAt d then None else Some d)"
  by (auto simp: store_get_def split: option.splits)

interpretation sk: session_keeper "\<lambda>sid t s. fst (store_get sid t s)" store_set store_delete
  by unfold_locales (auto simp: store_get_simps store_set_def store_delete_def split: option.splits)

text \<open>C10: A session token is accepted until its own expiry, and nothing else matters: after
  createSession returned a token, in whatever state the store is later (\<open>s'\<close>), once the session
  is revoked the store no longer has it, but its token still validates, and presenting it to
  refreshSession yields a new token and puts the session back into the store.\<close>

theorem revoked_session_lives_on:
  assumes "gcm_correct G" "length key = 32"
    and "fst (createSession G key sid iv now userId roles permissions ttl did metadata s) = Inr (sid, token)"
    and "session_ok (new_session userId roles permissions ttl did metadata now)"
    and "t \<le> now + ttl" "\<bar>t\<bar> \<le> 2 ^ 53" "\<bar>t + ttl'\<bar> \<le> 2 ^ 53" "0 \<le> ttl'"
  shows "(let data = new_session userId roles permissions ttl did metadata now;
            (r, s2) = refreshSession G key iv' t sid token ttl' (revokeSession sid s')
      in validateSession G key token t = Inr (Some data)
       \<and> validateSession G key token (now + ttl + 1) = Inr None
       \<and> fst (store_get sid t (revokeSession sid s')) = None
       \<and> (\<exists>token'. r = Inr (Some (sid, token')) \<and> validateSession G key token' t = Inr (Some (data\<lparr>sd_issuedAt := t, sd_expiresAt := t + ttl'\<rparr>)))
       \<and> fst (store_get sid t s2) = Some (data\<lparr>sd_issuedAt := t, sd_expiresAt := t + ttl'\<rparr>))"
proof -
  define data where "data = new_session userId roles permissions ttl did metadata now"
  define newData where "newData = data\<lparr>sd_issuedAt := t, sd_expiresAt := t + ttl'\<rparr>"
  have exp: "sd_expiresAt data = now + ttl" by (simp add: data_def new_session_def)
  have new_ok: "session_ok newData"
    using assms(4,6,7) by (simp add: newData_def data_def session_ok_def new_session_def)
  from token_roundtrip [OF assms(1,2) assms(4)] obtain tok
    where tok: "createSessionToken G key iv data = Inr tok" "parseSessionToken G key tok = Inr (Some data)"
    unfolding data_def by blast
  have "tok = token"
    using assms(3) tok(1) by (simp add: createSession_def data_def [symmetric])
  with tok have parse: "parseSessionToken G key token = Inr (Some data)" by simp
  from token_roundtrip [OF assms(1,2) new_ok] obtain tok'
    where tok': "createSessionToken G key iv' newData = Inr tok'" "parseSessionToken G key tok' = Inr (Some newData)"
    by blast
  have valid: "validateSession G key token t = Inr (Some data)"
    using parse assms(5) by (simp add: validateSession_def exp)
  have refresh: "refreshSession G key iv' t sid token ttl' (revokeSession sid s') =
      (Inr (Some (sid, tok')), store_set sid newData ttl' t (revokeSession sid s'))"
    using tok'(1) by (simp add: refreshSession_def valid newData_def [symmetric])
  have "validateSession G key token (now + ttl + 1) = Inr None"
    using parse by (simp add: validateSession_def exp)
  moreover have "validateSession G key tok' t = Inr (Some newData)"
    using tok'(2) assms(8) by (simp add: validateSession_def newData_def)
  moreover have "fst (store_get sid t (revokeSession sid s')) = None"
    by (simp add: revokeSession_def sk.get_del)
  moreover have "fst (store_get sid t (store_set sid newData ttl' t (revokeSession sid s'))) = Some newData"
    unfolding revokeSession_def using assms(8) by (intro sk.set_after_del) (simp add: newData_def)
  ultimately show ?thesis using valid by (simp add: refresh data_def [symmetric] newData_def [symmetric])
qed

subsection \<open>The store refines a map of last writes\<close>

datatype store_event =
    SetSession string session_data int
  | GetSession string
  | DeleteSession string
  | TimerFires string

text \<open>The concrete machine: the time of the last event, and the store.\<close>

fun store_step :: "store_event \<times> int \<Rightarrow> int \<times> session_store \<Rightarrow> int \<times> session_store" where
  "store_step (SetSession sid d ttl, t) (clock, s) = (t, store_set sid d ttl t s)"
| "store_step (GetSession sid, t) (clock, s) = (t, snd (store_get sid t s))"
| "store_step (DeleteSession sid, t) (clock, s) = (t, store_delete sid s)"
| "store_step (TimerFires sid, t) (clock, s) = (t, fire_timer sid t s)"

text \<open>The specification: the last session set and not deleted, and the time until which it is kept
  at least.\<close>

fun spec_step :: "store_event \<times> int \<Rightarrow> (string \<Rightarrow> (session_data \<times> int) option) \<Rightarrow> string \<Rightarrow> (session_data \<times> int) option" where
  "spec_step (SetSession sid d ttl, t) A = A(sid \<mapsto> (d, t + timer_delay ttl))"
| "spec_step (DeleteSession sid, t) A = A(sid := None)"
| "spec_step (GetSession sid, t) A = A"
| "spec_step (TimerFires sid, t) A = A"

text \<open>What holds of one session id: \<open>a\<close> is its abstract entry, \<open>e\<close> its entry in the store, \<open>tm\<close> its
  timer.\<close>

definition refines_at ::
    "(session_data \<times> int) option \<Rightarrow> (session_data \<times> int) option \<Rightarrow> int option \<Rightarrow> int \<Rightarrow> bool" where
  "refines_at a e tm clock \<longleftrightarrow>
     (\<forall>d ttl. e = Some (d, ttl) \<longrightarrow> (\<exists>due. a = Some (d, due) \<and> tm = Some due)) \<and>
     (\<forall>due. tm = Some due \<longrightarrow> (\<exists>d. a = Some (d, due))) \<and>
     (\<forall>d due. a = Some (d, due) \<longrightarrow> (\<exists>ttl. e = Some (d, ttl)) \<or> sd_expiresAt d < clock \<or> due \<le> clock)"

definition store_refines :: "(string \<Rightarrow> (session_data \<times> int) option) \<Rightarrow> int \<times> session_store \<Rightarrow> bool" where
  "store_refines A c \<longleftrightarrow>
     (\<forall>sid. refines_at (A sid) (jm_get (ss_store (snd c)) sid) (jm_get (ss_timers (snd c)) sid) (fst c))"

definition in_order :: "store_event \<times> int \<Rightarrow> int \<times> session_store \<Rightarrow> bool" where
  "in_order e c \<longleftrightarrow> fst c \<le> snd e"

lemma refines_at_later: "refines_at a e tm clock \<Longrightarrow> clock \<le> t \<Longrightarrow> refines_at a e tm t"
  unfolding refines_at_def by fastforce

lemma refines_at_cases:
  "refines_at (Some (d, due)) (Some (d, ttl)) (Some due) t"
  "refines_at None None None t"
  "refines_at a (Some (d, ttl)) tm t \<Longrightarrow> sd_expiresAt d < t \<Longrightarrow> refines_at a None tm t"
  "refines_at a e (Some due) t \<Longrightarrow> due \<le> t \<Longrightarrow> refines_at a None None t"
  by (auto simp: refines_at_def)

lemma store_refines_step:
  assumes "store_refines A c" "in_order e c"
  shows "store_refines (spec_step e A) (store_step e c)"
proof -
  obtain ev t where e: "e = (ev, t)" by (cases e)
  obtain clock s where c: "c = (clock, s)" by (cases c)
  from assms(2) have t: "clock \<le> t" by (simp add: in_order_def e c)
  have at: "refines_at (A k) (jm_get (ss_store s) k) (jm_get (ss_timers s) k) t" for k
    using assms(1) t by (auto simp: store_refines_def c intro: refines_at_later)
  show ?thesis
  proof (cases ev)
    case (SetSession sid d ttl)
    with at show ?thesis by (simp add: store_refines_def e c store_set_def refines_at_cases)
  next
    case (GetSession sid)
    show ?thesis
    proof (cases "jm_get (ss_store s) sid")
      case None
      with GetSession at show ?thesis by (simp add: store_refines_def e c store_get_def)
    next
      case (Some x)
      obtain d ttl where x: "x = (d, ttl)" by (cases x)
      have "refines_at (A sid) None (jm_get (ss_timers s) sid) t" if "sd_expiresAt d < t"
        using at [of sid] that unfolding Some x by (rule refines_at_cases)
      with GetSession Some x at show ?thesis by (simp add: store_refines_def e c store_get_def)
    qed
  next
    case (DeleteSession sid)
    with at show ?thesis
      by (cases "jm_get (ss_timers s) sid") (simp_all add: store_refines_def e c store_delete_def refines_at_cases)
  next
    case (TimerFires sid)
    show ?thesis
    proof (cases "jm_get (ss_timers s) sid")
      case None
      with TimerFires at show ?thesis by (simp add: store_refines_def e c fire_timer_def)
    next
      case (Some due)
      have "refines_at (A sid) None None t" if "due \<le> t"
        using at [of sid] that unfolding Some by (rule refines_at_cases)
      with TimerFires Some at show ?thesis by (simp add: store_refines_def e c fire_timer_def)
    qed
  qed
qed

interpretation keeper: simulation spec_step store_step in_order store_refines
  by unfold_locales (rule store_refines_step)

text \<open>C3: In every interleaving of set, get, delete and timer callbacks at non-decreasing times, the
  store, with its two maps and its timers, implements a map of last writes: a session that get
  returns is the one last set and not deleted since, and it has not expired; and such a session is
  returned at least until the time to live given to set has passed (one millisecond when the delay
  is out of the range of setTimeout), unless it expires first. Every stored session has a timer
  that will remove it.\<close>

theorem session_store_refines_map:
  assumes "admissible in_order store_step es (0, empty_session_store)"
    and "fst (run_events store_step es (0, empty_session_store)) \<le> t"
  shows "(let s = snd (run_events store_step es (0, empty_session_store));
            A = run_events spec_step es (\<lambda>_. None)
      in (\<forall>sid d. fst (store_get sid t s) = Some d \<longrightarrow> (\<exists>due. A sid = Some (d, due)) \<and> t \<le> sd_expiresAt d)
       \<and> (\<forall>sid d due. A sid = Some (d, due) \<and> t \<le> sd_expiresAt d \<and> t < due \<longrightarrow> fst (store_get sid t s) = Some d)
       \<and> (\<forall>sid x. jm_get (ss_store s) sid = Some x \<longrightarrow> jm_get (ss_timers s) sid \<noteq> None))"
proof -
  obtain clock s where c: "run_events store_step es (0, empty_session_store) = (clock, s)" by force
  define A where "A = run_events spec_step es (\<lambda>_. None)"
  have start: "store_refines (\<lambda>_. None) (0, empty_session_store)"
    by (simp add: store_refines_def empty_session_store_def refines_at_cases)
  have "store_refines A (clock, s)"
    using keeper.rel_run [OF start assms(1)] unfolding A_def c .
  then have r: "refines_at (A sid) (jm_get (ss_store s) sid) (jm_get (ss_timers s) sid) t" for sid
    using assms(2) by (auto simp: store_refines_def c intro: refines_at_later)
  have "fst (store_get sid t s) = Some d \<longrightarrow> (\<exists>due. A sid = Some (d, due)) \<and> t \<le> sd_expiresAt d" for sid d
    using r [of sid] by (auto simp: refines_at_def store_get_simps split: option.splits if_splits)
  moreover have "A sid = Some (d, due) \<and> t \<le> sd_expiresAt d \<and> t < due \<longrightarrow> fst (store_get sid t s) = Some d" for sid d due
    using r [of sid] by (auto simp: refines_at_def store_get_simps split: option.splits)
  moreover have "jm_get (ss_store s) sid = Some x \<longrightarrow> jm_get (ss_timers s) sid \<noteq> None" for sid x
    using r [of sid] by (cases x) (auto simp: refines_at_def)
  ultimately show ?thesis unfolding c snd_conv A_def [symmetric] Let_def by blast
qed

definition sample_session :: session_data where
  "sample_session = new_session (units ''u'') [units ''user''] [] 5000 None None 1000"

theorem session_store_refines_map_witness:
  "fst (store_get ''s'' 3000 (snd (run_events store_step
      [(SetSession ''s'' sample_session 5000, 1000), (GetSession ''s'', 2000), (TimerFires ''s'', 2500)]
      (0, empty_session_store)))) = Some sample_session"
proof -
  let ?es = "[(SetSession ''s'' sample_session 5000, 1000), (GetSession ''s'', 2000), (TimerFires ''s'', 2500)]"
  have "admissible in_order store_step ?es (0, empty_session_store)"
    "fst (run_events store_step ?es (0, empty_session_store)) \<le> 3000"
    by (simp_all add: in_order_def)
  then have all: "\<forall>sid d due. run_events spec_step ?es (\<lambda>_. None) sid = Some (d, due) \<and> 3000 \<le> sd_expiresAt d \<and> 3000 < due \<longrightarrow>
      fst (store_get sid 3000 (snd (run_events store_step ?es (0, empty_session_store)))) = Some d"
    using session_store_refines_map [of ?es 3000] unfolding Let_def by blast
  have "run_events spec_step ?es (\<lambda>_. None) ''s'' = Some (sample_session, 6000)" "sd_expiresAt sample_session = 6000"
    by (simp_all add: timer_delay_def sample_session_def new_session_def)
  then have "run_events spec_step ?es (\<lambda>_. None) ''s'' = Some (sample_session, 6000) \<and>
      3000 \<le> sd_expiresAt sample_session \<and> (3000 :: int) < 6000"
    by (simp del: run_events.simps)
  with all [THEN spec [of _ "''s''"], THEN spec [of _ sample_session], THEN spec [of _ 6000]]
  show ?thesis by (rule mp)
qed

text \<open>A toy cipher shows that the premises on encryption can hold.\<close>

definition toy_gcm :: gcm where
  "toy_gcm = \<lparr>gcm_seal = (\<lambda>key iv p. (p, [])), gcm_open = (\<lambda>key iv c tag. Some c)\<rparr>"

theorem revoked_session_lives_on_witness:
  "\<exists>token. fst (createSession toy_gcm (replicate 32 0) ''s'' [] 1000 (units ''u'') [units ''user''] [] 5000 None None
       empty_session_store) = Inr (''s'', token) \<and>
     validateSession toy_gcm (replicate 32 0) token 2000 = Inr (Some sample_session)"
proof -
  have ok: "gcm_correct toy_gcm" "length (replicate 32 (0 :: byte)) = 32" "session_ok sample_session"
    by (simp_all add: gcm_correct_def toy_gcm_def session_ok_def sample_session_def new_session_def)
  obtain token where tok: "createSessionToken toy_gcm (replicate 32 0) [] sample_session = Inr token"
    using token_roundtrip [OF ok, of "[]"] by blast
  then have c: "fst (createSession toy_gcm (replicate 32 0) ''s'' [] 1000 (units ''u'') [units ''user''] [] 5000 None None
       empty_session_store) = Inr (''s'', token)"
    by (simp add: createSession_def sample_session_def)
  have "validateSession toy_gcm (replicate 32 0) token 2000 = Inr (Some sample_session)"
    using revoked_session_lives_on [OF ok(1,2) c, of 2000 60000 "[]" empty_session_store] ok(3)
    by (auto simp: sample_session_def Let_def split_beta)
  with c show ?thesis by blast
qed

end
