(* ===== verification/Jwt.thy ===== *)
theory Jwt
  imports Json
begin

section \<open>JSON Web Tokens\<close>

text \<open>
  packages/core/src/auth/jwt.ts: creating, verifying and decoding tokens. HMAC-SHA256 and the
  asymmetric signature are parameters; the JSON text, UTF-8 and base64url are the concrete ones.
  A time stamp claim that is neither absent, falsy nor an integer, and a maximal age that is no
  whole number of seconds, are outside the model (\<open>OutOfModel\<close>), because the comparison then
  depends on conversions and on rounding.
\<close>

datatype key_type = Ed25519 | Hmac

record jwt_signing_key =
  sk_type :: key_type
  sk_key :: string
  sk_kid :: "js_text option"

record jwt_crypto =
  jc_hmac :: "string \<Rightarrow> bytes \<Rightarrow> bytes"
  jc_sign :: "string \<Rightarrow> bytes \<Rightarrow> bytes result"
  jc_verify :: "string \<Rightarrow> bytes \<Rightarrow> bytes \<Rightarrow> bool result"

datatype audience = OneAudience js_text | Audiences "js_text list"

record jwt_options =
  jo_aud :: "audience option"
  jo_iss :: "js_text option"
  jo_maxAgeMs :: "int option"

definition jwt_header :: "jwt_signing_key \<Rightarrow> js_value entries \<Rightarrow> js_value" where
  "jwt_header signingKey headerOverrides =
     VObject (foldl (\<lambda>acc (k, v). set_property k v acc)
       [(units ''alg'', VString (units (if sk_type signingKey = Ed25519 then ''EdDSA'' else ''HS256''))),
        (units ''typ'', VString (units ''JWT'')),
        (units ''kid'', case sk_kid signingKey of None \<Rightarrow> VUndefined | Some k \<Rightarrow> VString k)]
       headerOverrides)"

text \<open>\<open>base64url(Buffer.from(JSON.stringify(v)))\<close>: Buffer.from throws for undefined.\<close>

definition json_base64url :: "js_value \<Rightarrow> string codec" where
  "json_base64url v =
     and_then (stringify v) (\<lambda>t.
       (case t of
          None \<Rightarrow> Inl (Throws (JsTypeError ''ERR_INVALID_ARG_TYPE''))
        | Some u \<Rightarrow> Inr (to_base64url (to_utf8 u))))"

definition createJWT ::
    "jwt_crypto \<Rightarrow> js_value \<Rightarrow> jwt_signing_key \<Rightarrow> js_value entries \<Rightarrow> string codec" where
  "createJWT C payload signingKey headerOverrides =
     and_then (json_base64url (jwt_header signingKey headerOverrides)) (\<lambda>headerEncoded.
     and_then (json_base64url payload) (\<lambda>payloadEncoded.
       (let data = headerEncoded @ ''.'' @ payloadEncoded
        in and_then (lift_result
             (if sk_type signingKey = Ed25519 then jc_sign C (sk_key signingKey) (utf8 data)
              else Inr (jc_hmac C (sk_key signingKey) (utf8 data)))) (\<lambda>signature.
           Inr (data @ ''.'' @ to_base64url signature)))))"

subsection \<open>The checks of verifyJWT\<close>

text \<open>The number in \<open>v && compare(v)\<close>: \<open>None\<close> when the condition is already false.\<close>

definition time_claim :: "js_value \<Rightarrow> int option codec" where
  "time_claim v =
     (if \<not> value_truthy v then Inr None
      else case v of VNumber (NumInt n) \<Rightarrow> Inr (Some n) | VBool b \<Rightarrow> Inr (Some 1) | _ \<Rightarrow> Inl OutOfModel)"

definition read_claim :: "string \<Rightarrow> js_value \<Rightarrow> js_value codec" where
  "read_claim k payload = lift_result (read_property k payload)"

definition check_exp :: "js_value \<Rightarrow> int \<Rightarrow> bool codec" where
  "check_exp payload now =
     and_then (read_claim ''exp'' payload) (\<lambda>v. and_then (time_claim v) (\<lambda>e.
       Inr (case e of None \<Rightarrow> True | Some x \<Rightarrow> \<not> now \<ge> x)))"

definition check_nbf :: "js_value \<Rightarrow> int \<Rightarrow> bool codec" where
  "check_nbf payload now =
     and_then (read_claim ''nbf'' payload) (\<lambda>v. and_then (time_claim v) (\<lambda>e.
       Inr (case e of None \<Rightarrow> True | Some x \<Rightarrow> \<not> now < x)))"

definition check_age :: "jwt_options \<Rightarrow> js_value \<Rightarrow> int \<Rightarrow> bool codec" where
  "check_age options payload nowMs =
     (case jo_maxAgeMs options of
        None \<Rightarrow> Inr True
      | Some m \<Rightarrow>
          if m = 0 then Inr True
          else and_then (read_claim ''iat'' payload) (\<lambda>v. and_then (time_claim v) (\<lambda>e.
            (case e of
               None \<Rightarrow> Inr True
             | Some iat \<Rightarrow> if m mod 1000 \<noteq> 0 then Inl OutOfModel
                          else Inr (\<not> nowMs > (iat + m div 1000) * 1000)))))"

definition check_iss :: "jwt_options \<Rightarrow> js_value \<Rightarrow> bool codec" where
  "check_iss options payload =
     (case jo_iss options of
        None \<Rightarrow> Inr True
      | Some iss \<Rightarrow>
          if iss = [] then Inr True
          else and_then (read_claim ''iss'' payload) (\<lambda>v. Inr (v = VString iss)))"

definition audience_values :: "js_value \<Rightarrow> js_value list" where
  "audience_values aud = (case aud of VArray vs \<Rightarrow> vs | v \<Rightarrow> [v])"

definition expected_audiences :: "audience \<Rightarrow> js_text list" where
  "expected_audiences a = (case a of OneAudience s \<Rightarrow> [s] | Audiences ss \<Rightarrow> ss)"

definition check_aud :: "jwt_options \<Rightarrow> js_value \<Rightarrow> bool codec" where
  "check_aud options payload =
     (case jo_aud options of
        None \<Rightarrow> Inr True
      | Some a \<Rightarrow>
          if a = OneAudience [] then Inr True
          else and_then (read_claim ''aud'' payload) (\<lambda>aud.
            Inr (value_truthy aud \<and>
              list_ex (\<lambda>e. VString e \<in> set (audience_values aud)) (expected_audiences a))))"

text \<open>\<open>if (!isValid) return null; ...; return payload\<close>: the first check that fails, or throws,
  decides.\<close>

fun all_checks :: "bool codec list \<Rightarrow> bool codec" where
  "all_checks [] = Inr True"
| "all_checks (c # cs) = and_then c (\<lambda>b. if b then all_checks cs else Inr False)"

definition check_signature :: "jwt_crypto \<Rightarrow> jwt_signing_key \<Rightarrow> string \<Rightarrow> bytes \<Rightarrow> bool codec" where
  "check_signature C key data sig =
     lift_result
       (if sk_type key = Ed25519 then jc_verify C (sk_key key) (utf8 data) sig
        else timingSafeEqual sig (jc_hmac C (sk_key key) (utf8 data)))"

definition jwt_checks ::
    "jwt_crypto \<Rightarrow> jwt_signing_key \<Rightarrow> jwt_options \<Rightarrow> string \<Rightarrow> bytes \<Rightarrow> js_value \<Rightarrow> int \<Rightarrow> bool codec" where
  "jwt_checks C key options data sig payload nowMs =
     (let now = nowMs div 1000
      in all_checks
           [check_signature C key data sig, check_exp payload now, check_nbf payload now,
            check_age options payload nowMs, check_iss options payload, check_aud options payload])"

text \<open>Whatever is thrown is caught and gives null.\<close>

definition catch_null :: "'a option codec \<Rightarrow> 'a option codec" where
  "catch_null r = (case r of Inl (Throws e) \<Rightarrow> Inr None | _ \<Rightarrow> r)"

definition parse_part :: "string \<Rightarrow> js_value codec" where
  "parse_part s = parse_json (from_utf8 (from_base64url s))"

definition verifyJWT ::
    "jwt_crypto \<Rightarrow> string \<Rightarrow> jwt_signing_key \<Rightarrow> jwt_options \<Rightarrow> int \<Rightarrow> js_value option codec" where
  "verifyJWT C token key options nowMs =
     catch_null
       (case split_on (CHR ''.'') token of
          [headerEncoded, payloadEncoded, signatureEncoded] \<Rightarrow>
            and_then (parse_part headerEncoded) (\<lambda>header.
            and_then (parse_part payloadEncoded) (\<lambda>payload.
            and_then (jwt_checks C key options (headerEncoded @ ''.'' @ payloadEncoded)
                (from_base64url signatureEncoded) payload nowMs) (\<lambda>ok.
              Inr (if ok then Some payload else None))))
        | _ \<Rightarrow> Inr None)"

definition decodeJWT :: "string \<Rightarrow> (js_value \<times> js_value) option codec" where
  "decodeJWT token =
     catch_null
       (case split_on (CHR ''.'') token of
          [h, p, s] \<Rightarrow>
            and_then (parse_part h) (\<lambda>header. and_then (parse_part p) (\<lambda>payload. Inr (Some (header, payload))))
        | _ \<Rightarrow> Inr None)"

subsection \<open>What is accepted\<close>

lemma all_checks_True: "all_checks cs = Inr True \<longleftrightarrow> (\<forall>c \<in> set cs. c = Inr True)"
proof (induction cs)
  case (Cons c cs)
  then show ?case by (cases c) auto
qed simp

lemma catch_null_Some: "catch_null r = Inr (Some x) \<longleftrightarrow> r = Inr (Some x)"
  by (auto simp: catch_null_def split: sum.splits codec_error.splits)

lemma hmac_check:
  "sk_type key = Hmac \<Longrightarrow>
   check_signature C key data sig = Inr True \<longleftrightarrow> sig = jc_hmac C (sk_key key) (utf8 data)"
  by (auto simp: check_signature_def lift_result_def timingSafeEqual_def)


subsection \<open>A token verifies\<close>

lemma json_base64url_parse:
  assumes "json_base64url v = Inr s" "json_able v"
  shows "parse_part s = Inr (json_image v)" "CHR ''.'' \<notin> set s"
proof -
  obtain u where u: "stringify v = Inr (Some u)" "s = to_base64url (to_utf8 u)"
    using assms(1) by (auto simp: json_base64url_def and_then_Inr split: option.splits)
  then show "parse_part s = Inr (json_image v)" using json_bytes_roundtrip [OF assms(2)] by (simp add: parse_part_def)
  show "CHR ''.'' \<notin> set s" using u base64url_chars by blast
qed

text \<open>The claim \<open>k\<close> of a payload is the integer \<open>x\<close>, or has no effect (\<open>None\<close>: absent or falsy).\<close>

definition has_time :: "js_value \<Rightarrow> string \<Rightarrow> int option \<Rightarrow> bool" where
  "has_time payload k x \<longleftrightarrow> and_then (read_claim k payload) time_claim = Inr x"

definition claims_hold :: "jwt_options \<Rightarrow> int \<Rightarrow> int option \<Rightarrow> int option \<Rightarrow> int option \<Rightarrow> js_value \<Rightarrow> js_value \<Rightarrow> bool" where
  "claims_hold options t e nbf iat iss aud \<longleftrightarrow>
     (case e of None \<Rightarrow> True | Some x \<Rightarrow> t div 1000 < x) \<and>
     (case nbf of None \<Rightarrow> True | Some x \<Rightarrow> x \<le> t div 1000) \<and>
     (case (jo_maxAgeMs options, iat) of (Some m, Some x) \<Rightarrow> m = 0 \<or> t \<le> x * 1000 + m | _ \<Rightarrow> True) \<and>
     (case jo_iss options of None \<Rightarrow> True | Some i \<Rightarrow> i = [] \<or> iss = VString i) \<and>
     (case jo_aud options of None \<Rightarrow> True
      | Some a \<Rightarrow> a = OneAudience [] \<or>
          value_truthy aud \<and> (\<exists>e \<in> set (expected_audiences a). VString e \<in> set (audience_values aud)))"

lemma has_timeD:
  assumes "has_time p k x"
  obtains v where "read_claim k p = Inr v" "time_claim v = Inr x"
  using assms by (auto simp: has_time_def and_then_Inr)

lemma checks_claims:
  assumes "has_time p ''exp'' e" "has_time p ''nbf'' n" "has_time p ''iat'' i"
    and "read_claim ''iss'' p = Inr iss" "read_claim ''aud'' p = Inr aud"
    and "\<And>m. jo_maxAgeMs options = Some m \<Longrightarrow> m mod 1000 = 0"
  shows "all_checks [check_exp p (t div 1000), check_nbf p (t div 1000), check_age options p t,
      check_iss options p, check_aud options p] = Inr (claims_hold options t e n i iss aud)"
proof -
  obtain ve where ve: "read_claim ''exp'' p = Inr ve" "time_claim ve = Inr e" using assms(1) by (rule has_timeD)
  obtain vn where vn: "read_claim ''nbf'' p = Inr vn" "time_claim vn = Inr n" using assms(2) by (rule has_timeD)
  obtain vi where vi: "read_claim ''iat'' p = Inr vi" "time_claim vi = Inr i" using assms(3) by (rule has_timeD)
  have "check_exp p (t div 1000) = Inr (case e of None \<Rightarrow> True | Some x \<Rightarrow> t div 1000 < x)"
    by (simp add: check_exp_def ve not_le split: option.split)
  moreover have "check_nbf p (t div 1000) = Inr (case n of None \<Rightarrow> True | Some x \<Rightarrow> x \<le> t div 1000)"
    by (simp add: check_nbf_def vn not_less split: option.split)
  moreover have "check_age options p t =
      Inr (case (jo_maxAgeMs options, i) of (Some m, Some x) \<Rightarrow> m = 0 \<or> t \<le> x * 1000 + m | _ \<Rightarrow> True)"
  proof (cases "jo_maxAgeMs options")
    case (Some m)
    have m: "m mod 1000 = 0" using Some by (rule assms(6))
    with div_mult_mod_eq [of m 1000] have "m div 1000 * 1000 = m" by simp
    then have x: "(x + m div 1000) * 1000 = x * 1000 + m" for x :: int
      by (simp only: distrib_right)
    show ?thesis
    proof (cases i)
      case None
      with Some vi show ?thesis by (simp add: check_age_def)
    next
      case i: (Some y)
      have "check_age options p t = (if m = 0 then Inr True else Inr (\<not> t > (y + m div 1000) * 1000))"
        using Some vi i m by (simp add: check_age_def)
      then show ?thesis using Some i by (simp only: x option.case prod.case not_less) simp
    qed
  qed (simp add: check_age_def)
  moreover have "check_iss options p = Inr (case jo_iss options of None \<Rightarrow> True | Some i \<Rightarrow> i = [] \<or> iss = VString i)"
    using assms(4) by (simp add: check_iss_def split: option.split)
  moreover have "check_aud options p = Inr (case jo_aud options of None \<Rightarrow> True
      | Some a \<Rightarrow> a = OneAudience [] \<or>
          value_truthy aud \<and> (\<exists>e \<in> set (expected_audiences a). VString e \<in> set (audience_values aud)))"
    using assms(5) by (simp add: check_aud_def list_ex_iff split: option.split)
  ultimately show ?thesis by (simp add: claims_hold_def)
qed

text \<open>A token that createJWT wrote with an HMAC key verifies with the same key, at a time \<open>t\<close>
  (milliseconds), exactly when its claims hold then: not yet expired, already valid, not older
  than the maximal age, from the issuer and for one of the audiences asked for; the payload that
  comes back is the one that went in (up to what JSON drops).\<close>

theorem jwt_own_tokens:
  assumes "sk_type key = Hmac" "createJWT C payload key overrides = Inr token"
    and "json_able payload" "json_able (jwt_header key overrides)"
    and "has_time (json_image payload) ''exp'' e" "has_time (json_image payload) ''nbf'' n"
    and "has_time (json_image payload) ''iat'' i"
    and "read_claim ''iss'' (json_image payload) = Inr iss" "read_claim ''aud'' (json_image payload) = Inr aud"
    and "\<And>m. jo_maxAgeMs options = Some m \<Longrightarrow> m mod 1000 = 0"
  shows "verifyJWT C token key options t =
    Inr (if claims_hold options t e n i iss aud then Some (json_image payload) else None)"
proof -
  obtain h b where h: "json_base64url (jwt_header key overrides) = Inr h" and b: "json_base64url payload = Inr b"
    and token: "token = h @ ''.'' @ b @ ''.'' @ to_base64url (jc_hmac C (sk_key key) (utf8 (h @ ''.'' @ b)))"
    using assms(1,2) by (auto simp: createJWT_def and_then_Inr lift_result_def Let_def)
  note h' = json_base64url_parse [OF h assms(4)] and b' = json_base64url_parse [OF b assms(3)]
  have "CHR ''.'' \<notin> set (to_base64url x)" for x using base64url_chars by blast
  then have parts: "split_on (CHR ''.'') token = [h, b, to_base64url (jc_hmac C (sk_key key) (utf8 (h @ ''.'' @ b)))]"
    using h'(2) b'(2) unfolding token by (simp add: split_on_append split_on_notin)
  have "check_signature C key (h @ ''.'' @ b) (jc_hmac C (sk_key key) (utf8 (h @ ''.'' @ b))) = Inr True"
    using hmac_check [OF assms(1)] by blast
  then have "jwt_checks C key options (h @ ''.'' @ b) (jc_hmac C (sk_key key) (utf8 (h @ ''.'' @ b))) (json_image payload) t =
      Inr (claims_hold options t e n i iss aud)"
    using checks_claims [OF assms(5-10)] by (simp add: jwt_checks_def)
  then show ?thesis
    by (simp add: verifyJWT_def parts h'(1) b'(1) catch_null_def)
qed

text \<open>A payload, a key and a toy MAC for which the premises hold.\<close>

definition sample_payload :: js_value where
  "sample_payload = VObject [(units ''exp'', VNumber (NumInt 2000000000)), (units ''iss'', VString (units ''vault''))]"

definition sample_key :: jwt_signing_key where
  "sample_key = \<lparr>sk_type = Hmac, sk_key = ''secret'', sk_kid = None\<rparr>"

definition toy_crypto :: jwt_crypto where
  "toy_crypto = \<lparr>jc_hmac = (\<lambda>key data. take 32 (data @ replicate 32 0)),
     jc_sign = (\<lambda>key data. Inl (JsError [])), jc_verify = (\<lambda>key data sig. Inl (JsError []))\<rparr>"

definition sample_options :: jwt_options where
  "sample_options = \<lparr>jo_aud = None, jo_iss = Some (units ''vault''), jo_maxAgeMs = None\<rparr>"

lemma sample_token: "\<exists>token. createJWT toy_crypto sample_payload sample_key [] = Inr token"
  by (simp add: createJWT_def json_base64url_def jwt_header_def sample_payload_def sample_key_def lift_result_def Let_def)

lemma sample_able:
  "json_able sample_payload" "json_able (jwt_header sample_key [])" "json_image sample_payload = sample_payload"
proof -
  have 1: "index_key (units ''exp'') = None" "index_key (units ''iss'') = None" "index_key (units ''alg'') = None"
    "index_key (units ''typ'') = None"
    by (simp_all add: index_key_named)
  show "json_able sample_payload" "json_able (jwt_header sample_key [])"
    using 1 by (auto simp: sample_payload_def jwt_header_def sample_key_def defined_entry_def units_eq_iff
        intro!: object_entries_named)
  show "json_image sample_payload = sample_payload" by (simp add: sample_payload_def defined_entry_def)
qed

theorem jwt_own_tokens_witness:
  "\<exists>token. createJWT toy_crypto sample_payload sample_key [] = Inr token \<and>
     verifyJWT toy_crypto token sample_key sample_options 1700000000000 = Inr (Some sample_payload) \<and>
     verifyJWT toy_crypto token sample_key sample_options 2000000000000 = Inr None"
proof -
  obtain token where token: "createJWT toy_crypto sample_payload sample_key [] = Inr token"
    using sample_token by blast
  have t: "has_time sample_payload ''exp'' (Some 2000000000)" "has_time sample_payload ''nbf'' None"
    "has_time sample_payload ''iat'' None" "read_claim ''iss'' sample_payload = Inr (VString (units ''vault''))"
    "read_claim ''aud'' sample_payload = Inr VUndefined"
    by (simp_all add: has_time_def read_claim_def lift_result_def time_claim_def sample_payload_def units_eq_iff)
  have "verifyJWT toy_crypto token sample_key sample_options t = Inr (if t div 1000 < 2000000000 then Some sample_payload else None)" for t
    using jwt_own_tokens [of sample_key toy_crypto sample_payload "[]" token "Some 2000000000" None None
        "VString (units ''vault'')" VUndefined sample_options t] token t sample_able
    by (simp add: claims_hold_def sample_options_def sample_key_def)
  with token show ?thesis by simp
qed


end
