(* ===== verification/Mfa.thy ===== *)
theory Mfa
  imports Json
begin

section \<open>Multi-factor authentication\<close>

text \<open>
  packages/core/src/auth/mfa.ts: the base-32 encoding of a new secret, time-based one-time
  passwords, backup codes and WebAuthn assertions. HMAC-SHA1, SHA-256 and the signature check of
  node's crypto are parameters, random bytes are arguments. A secret and a code are strings whose
  characters stand for UTF-16 code units below 256. \<open>Math.floor(timestamp / 1000 / 30)\<close> is the
  integer quotient by 30000, which it is for every time stamp of this era.
\<close>

subsection \<open>The base-32 encoder\<close>

definition b32_alphabet :: string where
  "b32_alphabet = ''ABCDEFGHIJKLMNOPQRSTUVWXYZ234567''"

text \<open>The inner loop \<open>while (bits >= 5)\<close>: the bits that are left, and what it wrote.\<close>

fun b32_drain :: "nat \<Rightarrow> 32 word \<Rightarrow> nat \<times> string" where
  "b32_drain bits value =
     (if 5 \<le> bits then
        (let (left, out) = b32_drain (bits - 5) value
         in (left, b32_alphabet ! unat (drop_bit (bits - 5) value AND 31) # out))
      else (bits, []))"

declare b32_drain.simps [simp del]

fun b32_loop :: "nat \<Rightarrow> 32 word \<Rightarrow> bytes \<Rightarrow> string" where
  "b32_loop bits value [] =
     (if 0 < bits then [b32_alphabet ! unat (push_bit (5 - bits) value AND 31)] else [])"
| "b32_loop bits value (b # bs) =
     (let value' = push_bit 8 value OR ucast b; (bits', out) = b32_drain (bits + 8) value'
      in out @ b32_loop bits' value' bs)"

definition base32Encode :: "bytes \<Rightarrow> string" where
  "base32Encode bs = b32_loop 0 0 bs"

text \<open>The definition of RFC 4648, without padding: the bits of all bytes in groups of five, the
  last one filled up with zeros.\<close>

definition bits_of_byte :: "byte \<Rightarrow> bool list" where
  "bits_of_byte b = map (bit b) [7, 6, 5, 4, 3, 2, 1, 0]"

definition group_value :: "bool list \<Rightarrow> nat" where
  "group_value g = foldl (\<lambda>acc b. 2 * acc + of_bool b) 0 (g @ replicate (5 - length g) False)"

fun b32_groups :: "bool list \<Rightarrow> string" where
  "b32_groups [] = []"
| "b32_groups (b # bs) = b32_alphabet ! group_value (take 5 (b # bs)) # b32_groups (drop 5 (b # bs))"

definition base32_rfc :: "bytes \<Rightarrow> string" where
  "base32_rfc bs = b32_groups (concat (map bits_of_byte bs))"

text \<open>The low \<open>k\<close> bits of the accumulator, most significant first.\<close>

definition low_bits :: "nat \<Rightarrow> 32 word \<Rightarrow> bool list" where
  "low_bits k v = map (bit v) (rev [0..<k])"

lemma length_low_bits [simp]: "length (low_bits k v) = k"
  by (simp add: low_bits_def)

lemma low_bits_0 [simp]: "low_bits 0 v = []"
  by (simp add: low_bits_def)

lemma foldl_bits: "foldl (\<lambda>acc b. 2 * acc + of_bool b) (0::nat) (rev bs) = horner_sum of_bool 2 bs"
  by (induction bs) simp_all

lemma low_bits_value: "foldl (\<lambda>acc b. 2 * acc + of_bool b) (0::nat) (low_bits k v) = take_bit k (unat v)"
proof -
  have "low_bits k v = rev (map (bit v) [0..<k])" by (simp add: low_bits_def rev_map)
  also have "map (bit v) [0..<k] = map (bit (unat v)) [0..<k]" by (simp add: bit_unsigned_iff)
  finally show ?thesis by (simp only: foldl_bits horner_sum_bit_eq_take_bit)
qed

lemma and_31: "unat (w AND 31 :: 32 word) = take_bit 5 (unat w)"
proof -
  have "w AND 31 = take_bit 5 w" by (simp add: take_bit_eq_mask mask_eq_exp_minus_1)
  then show ?thesis by (simp add: unsigned_take_bit_eq)
qed

lemma low_bits_split: "5 \<le> k \<Longrightarrow> low_bits k v = low_bits 5 (drop_bit (k - 5) v) @ low_bits (k - 5) v"
proof (rule nth_equalityI)
  assume k: "5 \<le> k"
  then show "length (low_bits k v) = length (low_bits 5 (drop_bit (k - 5) v) @ low_bits (k - 5) v)" by simp
  fix i
  assume "i < length (low_bits k v)"
  with k show "low_bits k v ! i = (low_bits 5 (drop_bit (k - 5) v) @ low_bits (k - 5) v) ! i"
    by (auto simp: low_bits_def nth_append rev_nth bit_drop_bit_eq intro!: arg_cong [of _ _ "bit v"])
qed

lemma b32_groups_full: "length g = 5 \<Longrightarrow> b32_groups (g @ bs) = b32_alphabet ! group_value g # b32_groups bs"
  by (cases g) auto

lemma group_value_low: "group_value (low_bits 5 v) = unat (v AND 31)"
  by (simp add: group_value_def low_bits_value and_31)

lemma drain_groups:
  "b32_groups (low_bits k v @ bs) =
     snd (b32_drain k v) @ b32_groups (low_bits (fst (b32_drain k v)) v @ bs) \<and> fst (b32_drain k v) < 5
   \<and> fst (b32_drain k v) \<le> k"
proof (induction k v rule: b32_drain.induct)
  case (1 k v)
  show ?case
  proof (cases "5 \<le> k")
    case True
    then have "low_bits k v @ bs = low_bits 5 (drop_bit (k - 5) v) @ low_bits (k - 5) v @ bs"
      by (simp only: low_bits_split [OF True] append_assoc)
    then have "b32_groups (low_bits k v @ bs) =
        b32_alphabet ! unat (drop_bit (k - 5) v AND 31) # b32_groups (low_bits (k - 5) v @ bs)"
      by (simp only: b32_groups_full length_low_bits group_value_low)
    moreover have "b32_drain k v = (fst (b32_drain (k - 5) v),
        b32_alphabet ! unat (drop_bit (k - 5) v AND 31) # snd (b32_drain (k - 5) v))"
      using True by (simp add: b32_drain.simps [of k] split_beta Let_def)
    ultimately show ?thesis using 1 [OF True] by auto
  next
    case False
    then show ?thesis by (simp add: b32_drain.simps [of k])
  qed
qed

lemma low_bits_shift:
  assumes "k < 24"
  shows "low_bits (k + 8) (push_bit 8 v OR ucast (b :: byte)) = low_bits k v @ bits_of_byte b"
proof (rule nth_equalityI)
  show "length (low_bits (k + 8) (push_bit 8 v OR ucast b)) = length (low_bits k v @ bits_of_byte b)"
    by (simp add: bits_of_byte_def)
  fix i
  assume "i < length (low_bits (k + 8) (push_bit 8 v OR ucast b))"
  then have i: "i < k + 8" by simp
  have rev8: "bits_of_byte b = map (bit b) (rev [0..<8])"
    by (simp add: bits_of_byte_def upt_rec numeral_eq_Suc)
  have lhs: "low_bits (k + 8) (push_bit 8 v OR ucast b) ! i = bit (push_bit 8 v OR ucast b) (k + 7 - i)"
    using i by (simp add: low_bits_def rev_nth add.commute)
  show "low_bits (k + 8) (push_bit 8 v OR ucast b) ! i = (low_bits k v @ bits_of_byte b) ! i"
  proof (cases "i < k")
    case True
    then have "low_bits k v ! i = bit v (k - Suc i)" by (simp add: low_bits_def rev_nth)
    moreover have "\<not> bit b (k + 7 - i)" using True bit_word_iff_drop_bit_and [of b] by (auto dest: bit_imp_le_length)
    moreover have "8 \<le> k + 7 - i" "k + 7 - i < 32" using True assms by simp_all
    ultimately show ?thesis using True lhs
      by (simp add: nth_append bit_or_iff bit_push_bit_iff bit_ucast_iff)
  next
    case False
    then have "bits_of_byte b ! (i - k) = bit b (k + 7 - i)" using i by (simp add: rev8 rev_nth add.commute)
    moreover have "\<not> 8 \<le> k + 7 - i" "k + 7 - i < 32" using False i assms by simp_all
    ultimately show ?thesis using False lhs
      by (simp add: nth_append bit_or_iff bit_push_bit_iff bit_ucast_iff)
  qed
qed

lemma last_group:
  assumes "0 < k" "k < 5"
  shows "b32_groups (low_bits k v) = [b32_alphabet ! unat (push_bit (5 - k) v AND 31)]"
proof -
  have "low_bits k v \<noteq> []" using assms(1) by (metis length_low_bits less_numeral_extra(3) list.size(3))
  then have "b32_groups (low_bits k v) = [b32_alphabet ! group_value (low_bits k v)]"
    using assms(2) by (cases "low_bits k v") (auto simp: Let_def dest: arg_cong [of _ _ length])
  moreover have "group_value (low_bits k v) = unat (push_bit (5 - k) v AND 31)"
  proof -
    have "low_bits k v @ replicate (5 - k) False = low_bits 5 (push_bit (5 - k) v)"
    proof (rule nth_equalityI)
      show "length (low_bits k v @ replicate (5 - k) False) = length (low_bits 5 (push_bit (5 - k) v))"
        using assms by simp
      fix i
      assume "i < length (low_bits k v @ replicate (5 - k) False)"
      then show "(low_bits k v @ replicate (5 - k) False) ! i = low_bits 5 (push_bit (5 - k) v) ! i"
        using assms by (auto simp: low_bits_def nth_append rev_nth bit_push_bit_iff intro!: arg_cong [of _ _ "bit v"])
    qed
    then have "group_value (low_bits k v) = group_value (low_bits 5 (push_bit (5 - k) v))"
      by (simp add: group_value_def)
    then show ?thesis by (simp only: group_value_low)
  qed
  ultimately show ?thesis by simp
qed

lemma b32_loop_groups:
  "k < 5 \<Longrightarrow> b32_loop k v bs = b32_groups (low_bits k v @ concat (map bits_of_byte bs))"
proof (induction k v bs rule: b32_loop.induct)
  case (1 k v)
  then show ?case by (cases "k = 0") (simp_all add: last_group)
next
  case (2 k v b bs)
  define w where "w = push_bit 8 v OR ucast b"
  obtain j out where d: "b32_drain (k + 8) w = (j, out)" by (cases "b32_drain (k + 8) w")
  have "low_bits k v @ concat (map bits_of_byte (b # bs)) = low_bits (k + 8) w @ concat (map bits_of_byte bs)"
    using 2(2) by (simp add: w_def low_bits_shift)
  moreover have "b32_groups \<dots> = out @ b32_groups (low_bits j w @ concat (map bits_of_byte bs)) \<and> j < 5"
    using drain_groups [of "k + 8" w "concat (map bits_of_byte bs)"] d by simp
  moreover have "b32_loop j w bs = b32_groups (low_bits j w @ concat (map bits_of_byte bs))" if "j < 5"
    by (rule 2(1) [OF w_def d [symmetric] refl that])
  ultimately show ?case
    using d by (simp only: b32_loop.simps w_def [symmetric] Let_def prod.case)
qed

text \<open>C13: The base-32 loop of the source, which keeps its pending bits in a 32-bit accumulator it
  never clears, writes for every input what RFC 4648 defines (without padding).\<close>

theorem base32_is_rfc4648: "base32Encode bs = base32_rfc bs"
  by (simp add: base32Encode_def base32_rfc_def b32_loop_groups)

subsection \<open>Time-based one-time passwords\<close>

text \<open>\<open>hmac[i] & m\<close>: an index past the end gives undefined, which counts as 0.\<close>

definition byte_at :: "bytes \<Rightarrow> nat \<Rightarrow> byte" where
  "byte_at h i = (if i < length h then h ! i else 0)"

definition padStart :: "nat \<Rightarrow> char \<Rightarrow> string \<Rightarrow> string" where
  "padStart n c s = replicate (n - length s) c @ s"

text \<open>Buffer.from(secret, 'ascii') keeps the low byte of every character.\<close>

definition buffer_ascii :: "string \<Rightarrow> bytes" where
  "buffer_ascii s = map (\<lambda>c. word_of_nat (of_char c)) s"

definition truncated :: "bytes \<Rightarrow> 32 word" where
  "truncated hmac =
     (let offset = unat (byte_at hmac (length hmac - 1) AND 0x0f)
      in push_bit 24 (ucast (byte_at hmac offset AND 0x7f)) OR
         push_bit 16 (ucast (byte_at hmac (offset + 1) AND 0xff)) OR
         push_bit 8 (ucast (byte_at hmac (offset + 2) AND 0xff)) OR
         ucast (byte_at hmac (offset + 3) AND 0xff))"

text \<open>writeBigUInt64BE throws unless the counter is an unsigned 64-bit integer.\<close>

definition generateTOTPCode :: "(bytes \<Rightarrow> bytes \<Rightarrow> bytes) \<Rightarrow> string \<Rightarrow> int \<Rightarrow> string result" where
  "generateTOTPCode hmac_sha1 secret timestamp =
     (let counter = timestamp div 30000
      in if counter < 0 \<or> 2 ^ 64 \<le> counter then Inl (JsRangeError ''ERR_OUT_OF_RANGE'')
         else
           let hmac = hmac_sha1 (buffer_ascii secret) (put_be 8 (nat counter));
               code = truncated hmac
           in Inr (padStart 6 (CHR ''0'') (show_nat (unat code mod 10 ^ 6))))"

text \<open>The loop over the window of one step on either side.\<close>

fun totp_window ::
    "(bytes \<Rightarrow> bytes \<Rightarrow> bytes) \<Rightarrow> string \<Rightarrow> string \<Rightarrow> int \<Rightarrow> int list \<Rightarrow> bool result" where
  "totp_window hmac_sha1 secret code timestamp [] = Inr False"
| "totp_window hmac_sha1 secret code timestamp (i # is) =
     (case generateTOTPCode hmac_sha1 secret (timestamp + i * 30 * 1000) of
        Inl e \<Rightarrow> Inl e
      | Inr expected \<Rightarrow>
          (case timingSafeEqual (utf8 expected) (utf8 code) of
             Inl e \<Rightarrow> Inl e
           | Inr True \<Rightarrow> Inr True
           | Inr False \<Rightarrow> totp_window hmac_sha1 secret code timestamp is))"

definition verifyTOTPCode ::
    "(bytes \<Rightarrow> bytes \<Rightarrow> bytes) \<Rightarrow> string \<Rightarrow> string \<Rightarrow> int \<Rightarrow> bool result" where
  "verifyTOTPCode hmac_sha1 secret code timestamp = totp_window hmac_sha1 secret code timestamp [-1, 0, 1]"

record totp_secret =
  ts_secret :: string
  ts_uri :: string

text \<open>\<open>encode\<close> is encodeURIComponent, \<open>secretBytes\<close> the 20 random bytes.\<close>

definition generateTOTPSecret ::
    "(string \<Rightarrow> string) \<Rightarrow> bytes \<Rightarrow> string \<Rightarrow> string \<Rightarrow> totp_secret" where
  "generateTOTPSecret encode secretBytes issuer account =
     (let secret = base32Encode secretBytes
      in \<lparr>ts_secret = secret,
          ts_uri = ''otpauth://totp/'' @ encode issuer @ '':'' @ encode account @ ''?secret='' @ secret
            @ ''&issuer='' @ encode issuer @ ''&digits='' @ show_nat 6 @ ''&period='' @ show_nat 30\<rparr>)"

text \<open>The dynamic truncation of RFC 4226 as arithmetic: the last six decimal digits of the 31-bit
  integer at the offset that the last byte names.\<close>

definition hotp_number :: "bytes \<Rightarrow> nat" where
  "hotp_number h = get_be (take 4 (drop (unat (last h) mod 16) h)) mod 2 ^ 31"

fun last_digits :: "nat \<Rightarrow> nat \<Rightarrow> string" where
  "last_digits 0 n = []"
| "last_digits (Suc k) n = last_digits k (n div 10) @ [char_of (48 + n mod 10)]"

lemma char_zero: "char_of (48 :: nat) = CHR ''0''"
  by code_simp

lemma last_digits_0: "last_digits k 0 = replicate k (CHR ''0'')"
  by (induction k) (simp_all add: replicate_append_same char_zero)

lemma padStart_digits: "n < 10 ^ k \<Longrightarrow> 0 < k \<Longrightarrow> padStart k (CHR ''0'') (show_nat n) = last_digits k n"
proof (induction k arbitrary: n)
  case (Suc k)
  show ?case
  proof (cases "n < 10")
    case True
    then show ?thesis by (simp add: show_nat.simps [of n] padStart_def last_digits_0)
  next
    case False
    then have k: "0 < k" using Suc.prems by (cases k) auto
    have "n div 10 < 10 ^ k" using Suc.prems by (simp add: less_mult_imp_div_less mult.commute)
    then have "padStart k (CHR ''0'') (show_nat (n div 10)) = last_digits k (n div 10)"
      using k by (intro Suc.IH)
    then show ?thesis using False by (simp add: show_nat.simps [of n] padStart_def)
  qed
qed simp

lemma length_last_digits [simp]: "length (last_digits k n) = k"
  by (induction k arbitrary: n) simp_all

lemma ascii_last_digits: "ascii (last_digits k n)"
  by (induction k arbitrary: n) (simp_all add: ascii_def)

lemma unat_shift_byte:
  fixes v :: "32 word" and b :: byte
  assumes "unat v < 2 ^ 24"
  shows "unat (push_bit 8 v OR ucast b) = unat v * 256 + unat b"
proof -
  have "push_bit 8 v OR ucast b = push_bit 8 v + ucast b"
    by (rule disjunctive_add [symmetric])
      (auto simp: bit_push_bit_iff bit_ucast_iff dest: bit_imp_le_length)
  moreover have "unat (push_bit 8 v) = unat v * 256"
    using assms by (simp add: push_bit_eq_mult unat_mult_lem [THEN iffD1] mult.commute)
  moreover have "unat (ucast b :: 32 word) = unat b" by (simp add: unsigned_ucast_eq take_bit_nat_eq_self_iff order_less_trans [OF unat_byte_less])
  moreover have "unat v * 256 + unat b < 4294967296"
  proof -
    have "unat v < 16777216" using assms by simp
    then show ?thesis using unat_byte_less [of b] by linarith
  qed
  ultimately show ?thesis by (simp add: unat_word_ariths)
qed

lemma truncated_horner:
  "truncated h =
     (let offset = unat (byte_at h (length h - 1)) mod 16
      in push_bit 8 (push_bit 8 (push_bit 8 (ucast (byte_at h offset AND 0x7f)) OR ucast (byte_at h (offset + 1)))
           OR ucast (byte_at h (offset + 2))) OR ucast (byte_at h (offset + 3)))"
proof -
  have "w AND 0x0f = take_bit 4 w" for w :: byte by (simp add: take_bit_eq_mask mask_eq_exp_minus_1)
  then have "unat (w AND 0x0f) = unat w mod 16" for w :: byte by (simp add: take_bit_eq_mod unat_mod)
  then show ?thesis by (simp add: truncated_def Let_def push_bit_or push_bit_push_bit or.assoc)
qed

lemma horner_mod:
  fixes a b c d :: nat
  assumes "b < 256" "c < 256" "d < 256"
  shows "(((a * 256 + b) * 256 + c) * 256 + d) mod 2 ^ 31 = ((a mod 128 * 256 + b) * 256 + c) * 256 + d"
proof -
  define q where "q = a div 128"
  define m where "m = a mod 128"
  have a: "a = q * 128 + m" and m: "m < 128" by (simp_all add: q_def m_def)
  have "((a * 256 + b) * 256 + c) * 256 + d = ((m * 256 + b) * 256 + c) * 256 + d + q * 2 ^ 31"
    unfolding a by simp
  moreover have "((m * 256 + b) * 256 + c) * 256 + d < 2 ^ 31" using m assms by simp
  ultimately show ?thesis by (simp only: m_def [symmetric] mod_mult_self1 mod_less)
qed

lemma unat_ucast_byte: "unat (ucast (w :: byte) :: 32 word) = unat w"
  by (simp add: unsigned_ucast_eq take_bit_nat_eq_self_iff order_less_trans [OF unat_byte_less])

lemma shift_bytes:
  assumes "unat a < 128"
  shows "unat (push_bit 8 (push_bit 8 (push_bit 8 (ucast a) OR ucast b) OR ucast c) OR ucast d :: 32 word) =
    ((unat (a :: byte) * 256 + unat (b :: byte)) * 256 + unat (c :: byte)) * 256 + unat (d :: byte)"
proof -
  have 1: "unat (push_bit 8 (ucast a) OR ucast b :: 32 word) = unat a * 256 + unat b"
    using assms by (subst unat_shift_byte) (simp_all add: unat_ucast_byte)
  have 2: "unat (push_bit 8 (push_bit 8 (ucast a) OR ucast b) OR ucast c :: 32 word) =
      (unat a * 256 + unat b) * 256 + unat c"
  proof -
    have "unat a * 256 + unat b < 16777216" using assms unat_byte_less [of b] by linarith
    then show ?thesis by (subst unat_shift_byte) (simp_all add: 1)
  qed
  show ?thesis
  proof -
    have "(x * 256 + y) * 256 + z < 2 ^ 24" if "x < 128" "y < 256" "z < 256" for x y z :: nat
      using that by simp
    from this [OF assms unat_byte_less unat_byte_less]
    have 3: "unat (push_bit 8 (push_bit 8 (ucast a) OR ucast b) OR ucast c :: 32 word) < 2 ^ 24"
      by (simp only: 2)
    show ?thesis by (simp only: unat_shift_byte [OF 3] 2)
  qed
qed

lemma truncated_is_hotp:
  assumes "19 < length h"
  shows "unat (truncated h) = hotp_number h"
proof -
  define k where "k = unat (last h) mod 16"
  have k: "k < 16" by (simp add: k_def)
  have "w AND 0x7f = take_bit 7 w" for w :: byte by (simp add: take_bit_eq_mask mask_eq_exp_minus_1)
  then have a: "unat (w AND 0x7f) = unat w mod 128" for w :: byte
    by (simp add: take_bit_eq_mod unat_mod)
  have l: "byte_at h (length h - 1) = last h" using assms by (cases h rule: rev_cases) (auto simp: byte_at_def)
  have bytes: "byte_at h k = h ! k" "byte_at h (k + 1) = h ! (k + 1)" "byte_at h (k + 2) = h ! (k + 2)"
    "byte_at h (k + 3) = h ! (k + 3)"
    using k assms by (simp_all add: byte_at_def)
  have "take 4 (drop k h) = [h ! k, h ! (k + 1), h ! (k + 2), h ! (k + 3)]"
    using k assms by (simp add: numeral_eq_Suc Cons_nth_drop_Suc [symmetric])
  then have "hotp_number h = (((unat (h ! k) * 256 + unat (h ! (k + 1))) * 256 + unat (h ! (k + 2))) * 256
      + unat (h ! (k + 3))) mod 2 ^ 31"
    by (simp add: hotp_number_def k_def get_be_def)
  also have "\<dots> = ((unat (h ! k) mod 128 * 256 + unat (h ! (k + 1))) * 256 + unat (h ! (k + 2))) * 256
      + unat (h ! (k + 3))"
    by (rule horner_mod) simp_all
  also have "\<dots> = unat (truncated h)"
    using shift_bytes [of "h ! k AND 0x7f"] a [of "h ! k"]
    by (simp only: truncated_horner Let_def l k_def [symmetric] bytes)
  finally show ?thesis by simp
qed

text \<open>The one-time password of a time step.\<close>

definition totp_at :: "(bytes \<Rightarrow> bytes \<Rightarrow> bytes) \<Rightarrow> string \<Rightarrow> int \<Rightarrow> string" where
  "totp_at hmac_sha1 secret step =
     last_digits 6 (hotp_number (hmac_sha1 (buffer_ascii secret) (put_be 8 (nat step))) mod 10 ^ 6)"

lemma generateTOTPCode_at:
  assumes "\<And>key msg. length (hmac_sha1 key msg) = 20" "0 \<le> t" "t div 30000 < 2 ^ 64"
  shows "generateTOTPCode hmac_sha1 secret t = Inr (totp_at hmac_sha1 secret (t div 30000))"
  using assms
  by (simp add: generateTOTPCode_def totp_at_def Let_def truncated_is_hotp padStart_digits pos_imp_zdiv_neg_iff not_less)

lemma totp_at_text: "length (totp_at h s i) = 6" "ascii (totp_at h s i)"
  by (simp_all add: totp_at_def ascii_last_digits del: last_digits.simps)

text \<open>C27: With a hash of 20 bytes, a code of six ASCII characters is accepted at time \<open>t\<close> exactly when
  it is the one-time password of RFC 6238 (dynamic truncation of the HMAC of the step's number)
  of the current step of 30 seconds, of the one before or of the one after. A code of any other
  length in UTF-8 is not rejected: the comparison throws a RangeError.\<close>

theorem totp_acceptance:
  assumes "\<And>key msg. length (hmac_sha1 key msg) = 20"
    and "30000 \<le> t" and "t < 2 ^ 60"
  shows "verifyTOTPCode hmac_sha1 secret code t =
    (if length (utf8 code) = 6
     then Inr (\<exists>d \<in> {-1, 0, 1}. code = totp_at hmac_sha1 secret (t div 30000 + d))
     else Inl (JsRangeError ''Input buffers must have the same byte length''))"
proof -
  have g: "generateTOTPCode hmac_sha1 secret (t + d * 30 * 1000) = Inr (totp_at hmac_sha1 secret (t div 30000 + d))"
    if "d \<in> {-1, 0, 1}" for d
  proof -
    have d: "(t + d * 30 * 1000) div 30000 = t div 30000 + d" by simp
    have "0 \<le> t + d * 30 * 1000" using that assms(2) by auto
    moreover have "t div 30000 + d < 2 ^ 64" using that assms(2,3) by auto
    ultimately show ?thesis
      using generateTOTPCode_at [OF assms(1), of "t + d * 30 * 1000"] unfolding d by simp
  qed
  have l: "length (utf8 (totp_at hmac_sha1 secret i)) = 6" for i
    by (simp add: length_ascii_utf8 totp_at_text)
  show ?thesis
  proof (cases "length (utf8 code) = 6")
    case True
    then have "timingSafeEqual (utf8 (totp_at hmac_sha1 secret i)) (utf8 code) =
        Inr (totp_at hmac_sha1 secret i = code)" for i
      by (simp add: timingSafeEqual_def l utf8_inj)
    with True g [of "-1"] g [of 0] g [of 1] show ?thesis
      by (auto simp: verifyTOTPCode_def split: bool.splits)
  next
    case False
    with g [of "-1"] show ?thesis by (simp add: verifyTOTPCode_def timingSafeEqual_def l)
  qed
qed

text \<open>A toy hash shows that the premises can hold, and how a wrong length fails.\<close>

definition toy_hmac :: "bytes \<Rightarrow> bytes \<Rightarrow> bytes" where
  "toy_hmac key msg = take 20 (msg @ key @ replicate 20 7)"

lemma length_toy_hmac: "length (toy_hmac key msg) = 20"
  by (simp add: toy_hmac_def)

theorem totp_acceptance_witness:
  "verifyTOTPCode toy_hmac ''JBSWY3DP'' ''12345'' 1700000000000 =
     Inl (JsRangeError ''Input buffers must have the same byte length'') \<and>
   verifyTOTPCode toy_hmac ''JBSWY3DP'' (totp_at toy_hmac ''JBSWY3DP'' 56666667) 1700000000000 = Inr True"
proof -
  have "length (utf8 ''12345'') = 5" by (simp add: length_ascii_utf8 ascii_def)
  moreover have "length (utf8 (totp_at toy_hmac ''JBSWY3DP'' 56666667)) = 6"
    by (simp add: length_ascii_utf8 totp_at_text)
  ultimately show ?thesis
    using totp_acceptance [of toy_hmac 1700000000000 "''JBSWY3DP''", OF length_toy_hmac] by auto
qed

subsection \<open>Backup codes\<close>

fun chunks4 :: "'a list \<Rightarrow> 'a list list" where
  "chunks4 xs = (if xs = [] then [] else take 4 xs # chunks4 (drop 4 xs))"

declare chunks4.simps [simp del]

definition sha256_hex :: "(bytes \<Rightarrow> bytes) \<Rightarrow> string \<Rightarrow> string" where
  "sha256_hex sha256 s = to_hex (sha256 (utf8 s))"

definition backup_code :: "bytes \<Rightarrow> string" where
  "backup_code randomBytes = join_with ''-'' (chunks4 (to_upper (to_hex randomBytes)))"

record backup_codes =
  bc_codes :: "string list"
  bc_hashed :: "string list"
  bc_createdAt :: int

text \<open>\<open>randomBytes i\<close> are the six random bytes of the i-th turn.\<close>

definition generateBackupCodes :: "(bytes \<Rightarrow> bytes) \<Rightarrow> (nat \<Rightarrow> bytes) \<Rightarrow> nat \<Rightarrow> int \<Rightarrow> backup_codes" where
  "generateBackupCodes sha256 randomBytes count now =
     (let codes = map (\<lambda>i. backup_code (randomBytes i)) [0..<count]
      in \<lparr>bc_codes = codes, bc_hashed = map (sha256_hex sha256) codes, bc_createdAt = now\<rparr>)"

text \<open>The loop of verifyBackupCode from index \<open>i\<close>; the result is the index of a valid code.\<close>

fun backup_scan :: "string \<Rightarrow> nat \<Rightarrow> string list \<Rightarrow> nat option result" where
  "backup_scan inputHash i [] = Inr None"
| "backup_scan inputHash i (h # hs) =
     (case timingSafeEqual (utf8 inputHash) (utf8 h) of
        Inl e \<Rightarrow> Inl e
      | Inr True \<Rightarrow> Inr (Some i)
      | Inr False \<Rightarrow> backup_scan inputHash (Suc i) hs)"

definition verifyBackupCode :: "(bytes \<Rightarrow> bytes) \<Rightarrow> string \<Rightarrow> string list \<Rightarrow> nat option result" where
  "verifyBackupCode sha256 code hashedCodes = backup_scan (sha256_hex sha256 code) 0 hashedCodes"

lemma backup_scan_index:
  assumes "\<And>h. h \<in> set hs \<Longrightarrow> length (utf8 h) = length (utf8 x)"
  shows "backup_scan x i hs = Inr (if x \<in> set hs then Some (i + length (takeWhile (\<lambda>h. h \<noteq> x) hs)) else None)"
  using assms
proof (induction hs arbitrary: i)
  case Nil
  then show ?case by simp
next
  case (Cons h hs)
  have "timingSafeEqual (utf8 x) (utf8 h) = Inr (x = h)"
    using Cons.prems by (simp add: timingSafeEqual_def utf8_inj)
  moreover have "backup_scan x (Suc i) hs =
      Inr (if x \<in> set hs then Some (Suc i + length (takeWhile (\<lambda>h. h \<noteq> x) hs)) else None)"
    using Cons.prems by (intro Cons.IH) simp
  ultimately show ?case by (cases "x = h") auto
qed

text \<open>Against the hashes of generated backup codes, a code is valid exactly when its hash is one of
  them, and the index returned is the first with that hash; in particular every generated code
  is accepted, as often as it is presented, since nothing marks it as used.\<close>

theorem backup_codes_verify:
  assumes "\<And>m. length (sha256 m) = 32"
  shows "(let hashed = bc_hashed (generateBackupCodes sha256 randomBytes count now); h = sha256_hex sha256 code
      in verifyBackupCode sha256 code hashed =
           Inr (if h \<in> set hashed then Some (length (takeWhile (\<lambda>g. g \<noteq> h) hashed)) else None))
    \<and> (\<forall>c \<in> set (bc_codes (generateBackupCodes sha256 randomBytes count now)).
        sha256_hex sha256 c \<in> set (bc_hashed (generateBackupCodes sha256 randomBytes count now)))"
proof -
  have hashed: "bc_hashed (generateBackupCodes sha256 randomBytes count now) =
      map (sha256_hex sha256) (bc_codes (generateBackupCodes sha256 randomBytes count now))"
    by (simp add: generateBackupCodes_def Let_def)
  have "length (utf8 (sha256_hex sha256 c)) = 64" for c
    by (simp add: sha256_hex_def length_ascii_utf8 ascii_to_hex assms)
  then have "verifyBackupCode sha256 code (bc_hashed (generateBackupCodes sha256 randomBytes count now)) =
      Inr (if sha256_hex sha256 code \<in> set (bc_hashed (generateBackupCodes sha256 randomBytes count now))
        then Some (0 + length (takeWhile (\<lambda>g. g \<noteq> sha256_hex sha256 code)
          (bc_hashed (generateBackupCodes sha256 randomBytes count now)))) else None)"
    unfolding verifyBackupCode_def
    by (intro backup_scan_index) (auto simp: hashed)
  then show ?thesis by (simp add: Let_def hashed)
qed

theorem backup_codes_verify_witness:
  "sha256_hex (\<lambda>m. take 32 (m @ replicate 32 0)) (backup_code [1, 2, 3, 4, 5, 6]) \<in>
     set (bc_hashed (generateBackupCodes (\<lambda>m. take 32 (m @ replicate 32 0)) (\<lambda>i. [1, 2, 3, 4, 5, 6]) 3 0))"
proof -
  have "backup_code [1, 2, 3, 4, 5, 6] \<in>
      set (bc_codes (generateBackupCodes (\<lambda>m. take 32 (m @ replicate 32 0)) (\<lambda>i. [1, 2, 3, 4, 5, 6]) 3 0))"
    by (simp add: generateBackupCodes_def Let_def image_constant_conv)
  then show ?thesis
    using backup_codes_verify [of "\<lambda>m. take 32 (m @ replicate 32 0)" "\<lambda>i. [1, 2, 3, 4, 5, 6]" 3 0 "[]"]
    by simp
qed

subsection \<open>WebAuthn\<close>

datatype transport = Usb | Nfc | Ble | Internal | Hybrid

record webauthn_credential =
  wc_id :: string
  wc_publicKey :: string
  wc_counter :: int
  wc_transports :: "transport list option"
  wc_createdAt :: int

datatype preference = Preferred | Required | Discouraged

record registration_options =
  ro_challenge :: string
  ro_rp :: "string \<times> string" \<comment> \<open>name, id\<close>
  ro_user :: "string \<times> string \<times> string" \<comment> \<open>id, name, displayName\<close>
  ro_pubKeyCredParams :: "int list" \<comment> \<open>the alg of each; type is 'public-key'\<close>
  ro_timeout :: int
  ro_attestation :: string
  ro_residentKey :: preference
  ro_requireResidentKey :: bool
  ro_userVerification :: preference

definition createWebAuthnRegistrationOptions ::
    "bytes \<Rightarrow> string \<Rightarrow> string \<Rightarrow> string \<Rightarrow> string \<Rightarrow> registration_options" where
  "createWebAuthnRegistrationOptions randomBytes rpName rpId userId userName =
     \<lparr>ro_challenge = to_base64url randomBytes, ro_rp = (rpName, rpId), ro_user = (userId, userName, userName),
      ro_pubKeyCredParams = [-7, -257], ro_timeout = 60000, ro_attestation = ''none'',
      ro_residentKey = Preferred, ro_requireResidentKey = False, ro_userVerification = Preferred\<rparr>"

record authentication_options =
  ao_challenge :: string
  ao_rpId :: string
  ao_allowCredentials :: "(string \<times> transport list option) list" \<comment> \<open>id, transports\<close>
  ao_timeout :: int
  ao_userVerification :: preference

definition createWebAuthnAuthenticationOptions ::
    "bytes \<Rightarrow> string \<Rightarrow> webauthn_credential list \<Rightarrow> authentication_options" where
  "createWebAuthnAuthenticationOptions randomBytes rpId credentials =
     \<lparr>ao_challenge = to_base64url randomBytes, ao_rpId = rpId,
      ao_allowCredentials = map (\<lambda>c. (wc_id c, wc_transports c)) credentials,
      ao_timeout = 60000, ao_userVerification = Preferred\<rparr>"

record mfa_verification =
  mv_verified :: bool
  mv_method :: "string option"
  mv_error :: "string option"

definition mfa_failure :: "string \<Rightarrow> mfa_verification" where
  "mfa_failure e = \<lparr>mv_verified = False, mv_method = None, mv_error = Some e\<rparr>"

text \<open>\<open>verify data key sig\<close> is the signature check, which may throw.\<close>

definition verifyWebAuthnAssertion ::
    "(bytes \<Rightarrow> bytes) \<Rightarrow> (bytes \<Rightarrow> bytes \<Rightarrow> bytes \<Rightarrow> bool result) \<Rightarrow> string \<Rightarrow> string \<Rightarrow> string \<Rightarrow> string
      \<Rightarrow> webauthn_credential \<Rightarrow> mfa_verification codec" where
  "verifyWebAuthnAssertion sha256 verify credentialId signature authenticatorData clientDataJSON storedCredential =
     (case parse_json (from_utf8 (from_base64url clientDataJSON)) of
        Inl (Throws e) \<Rightarrow> Inr (mfa_failure (exn_message e))
      | Inl e \<Rightarrow> Inl e
      | Inr clientData \<Rightarrow>
          (case read_property ''type'' clientData of
             Inl e \<Rightarrow> Inr (mfa_failure (exn_message e))
           | Inr ty \<Rightarrow>
               if ty \<noteq> VString (units ''webauthn.get'') then Inr (mfa_failure ''Invalid assertion type'')
               else
                 (let dataHash = sha256 (utf8 clientDataJSON);
                      signedData = from_base64url authenticatorData @ dataHash
                  in case verify signedData (from_base64url (wc_publicKey storedCredential)) (from_base64url signature) of
                       Inl e \<Rightarrow> Inr (mfa_failure (exn_message e))
                     | Inr isValid \<Rightarrow>
                         Inr \<lparr>mv_verified = isValid, mv_method = Some ''webauthn'',
                              mv_error = (if isValid then None else Some ''Invalid WebAuthn signature'')\<rparr>)))"

text \<open>What verifyMFAChallenge is given, by method: the secret or the hashed codes that its casts
  expect.\<close>

datatype mfa_challenge = TotpChallenge string | WebAuthnChallenge | BackupCodeChallenge "string list"

fun verifyMFAChallenge ::
    "(bytes \<Rightarrow> bytes \<Rightarrow> bytes) \<Rightarrow> (bytes \<Rightarrow> bytes) \<Rightarrow> mfa_challenge \<Rightarrow> string \<Rightarrow> int \<Rightarrow> mfa_verification result" where
  "verifyMFAChallenge hmac_sha1 sha256 (TotpChallenge secret) challenge now =
     (case verifyTOTPCode hmac_sha1 secret challenge now of
        Inl e \<Rightarrow> Inl e
      | Inr valid \<Rightarrow> Inr \<lparr>mv_verified = valid, mv_method = Some ''totp'',
                        mv_error = (if valid then None else Some ''Invalid TOTP code'')\<rparr>)"
| "verifyMFAChallenge hmac_sha1 sha256 (BackupCodeChallenge codes) challenge now =
     (case verifyBackupCode sha256 challenge codes of
        Inl e \<Rightarrow> Inl e
      | Inr r \<Rightarrow> Inr \<lparr>mv_verified = (r \<noteq> None), mv_method = Some ''backup_code'',
                    mv_error = (if r \<noteq> None then None else Some ''Invalid backup code'')\<rparr>)"
| "verifyMFAChallenge hmac_sha1 sha256 WebAuthnChallenge challenge now =
     Inr (mfa_failure ''Unsupported MFA method: webauthn'')"

text \<open>An assertion is verified exactly when the client data names its type and the signature over
  the authenticator data and the hash of the base64url text is good: the challenge, the origin
  and the counter play no part.\<close>

lemma webauthn_verified_iff:
  "(\<exists>m. verifyWebAuthnAssertion sha256 verify cid sig adata cdata cred = Inr m \<and> mv_verified m) \<longleftrightarrow>
   (\<exists>v. parse_json (from_utf8 (from_base64url cdata)) = Inr v \<and>
        read_property ''type'' v = Inr (VString (units ''webauthn.get'')) \<and>
        verify (from_base64url adata @ sha256 (utf8 cdata)) (from_base64url (wc_publicKey cred))
          (from_base64url sig) = Inr True)"
  by (auto simp: verifyWebAuthnAssertion_def mfa_failure_def Let_def split: sum.splits codec_error.splits if_splits)

end
