(* ===== verification/ApiKeys.thy ===== *)
theory ApiKeys
  imports BaseText
begin

section \<open>API keys\<close>

text \<open>
  packages/core/src/auth/api_keys.ts: keys, their salted hashes and the in-memory store. PBKDF2 is a
  parameter (\<open>pbkdf2 rawKey salt\<close>, the 64 bytes of the source's settings); random bytes, names and
  the clock are arguments.
\<close>

definition API_KEY_PREFIX :: string where "API_KEY_PREFIX = ''kyc_''"

record api_key =
  ak_id :: string
  ak_keyPrefix :: string
  ak_hash :: string
  ak_salt :: string
  ak_name :: string
  ak_permissions :: "string list"
  ak_metadata :: "json option"
  ak_expiresAt :: "int option"
  ak_createdAt :: int
  ak_lastUsedAt :: "int option"
  ak_enabled :: bool

record api_key_input =
  ai_name :: string
  ai_permissions :: "string list"
  ai_metadata :: "json option"
  ai_expiresAt :: "int option"

text \<open>What createApiKey draws: the 32 bytes of the key, the 16 bytes of the salt, the id.\<close>

record key_randomness =
  kr_keyBytes :: bytes
  kr_saltBytes :: bytes
  kr_uuid :: string

definition generateApiKey :: "bytes \<Rightarrow> string" where
  "generateApiKey keyBytes = API_KEY_PREFIX @ to_base64url keyBytes"

definition hashApiKey :: "(string \<Rightarrow> string \<Rightarrow> bytes) \<Rightarrow> bytes \<Rightarrow> string \<Rightarrow> string \<times> string" where
  "hashApiKey pbkdf2 saltBytes rawKey =
     (let salt = to_hex saltBytes in (to_hex (pbkdf2 rawKey salt), salt))"

definition verifyApiKey :: "(string \<Rightarrow> string \<Rightarrow> bytes) \<Rightarrow> string \<Rightarrow> string \<Rightarrow> string \<Rightarrow> bool result" where
  "verifyApiKey pbkdf2 rawKey hash salt = timingSafeEqual (utf8 (to_hex (pbkdf2 rawKey salt))) (utf8 hash)"

definition createApiKey ::
    "(string \<Rightarrow> string \<Rightarrow> bytes) \<Rightarrow> key_randomness \<Rightarrow> int \<Rightarrow> api_key_input \<Rightarrow> api_key \<times> string" where
  "createApiKey pbkdf2 R now input =
     (let rawKey = generateApiKey (kr_keyBytes R); (hash, salt) = hashApiKey pbkdf2 (kr_saltBytes R) rawKey
      in (\<lparr>ak_id = kr_uuid R, ak_keyPrefix = take 8 rawKey, ak_hash = hash, ak_salt = salt,
           ak_name = ai_name input, ak_permissions = ai_permissions input, ak_metadata = ai_metadata input,
           ak_expiresAt = ai_expiresAt input, ak_createdAt = now, ak_lastUsedAt = None, ak_enabled = True\<rparr>,
          rawKey))"

definition maskApiKey :: "string \<Rightarrow> string" where
  "maskApiKey rawKey =
     (if length rawKey \<le> 8 then rawKey
      else take 4 rawKey @ replicate (length rawKey - 8) (CHR ''*'') @ drop (length rawKey - 4) rawKey)"

definition isApiKeyExpired :: "api_key \<Rightarrow> int \<Rightarrow> bool" where
  "isApiKeyExpired k now = (case ak_expiresAt k of None \<Rightarrow> False | Some e \<Rightarrow> now > e)"

definition validateKeyPrefix :: "string \<Rightarrow> bool" where
  "validateKeyPrefix rawKey \<longleftrightarrow> starts_with rawKey API_KEY_PREFIX \<and> length API_KEY_PREFIX < length rawKey"

definition updateApiKeyUsage :: "api_key \<Rightarrow> int \<Rightarrow> api_key" where
  "updateApiKeyUsage k now = k\<lparr>ak_lastUsedAt := Some now\<rparr>"

definition rotateApiKey ::
    "(string \<Rightarrow> string \<Rightarrow> bytes) \<Rightarrow> key_randomness \<Rightarrow> int \<Rightarrow> api_key \<Rightarrow> string option \<Rightarrow> api_key \<times> string" where
  "rotateApiKey pbkdf2 R now k newName =
     createApiKey pbkdf2 R now
       \<lparr>ai_name = or_default newName (ak_name k), ai_permissions = ak_permissions k,
        ai_metadata = ak_metadata k, ai_expiresAt = ak_expiresAt k\<rparr>"

subsection \<open>The store\<close>

type_synonym key_store = "(string, api_key) jsmap"

definition getById_key :: "string \<Rightarrow> key_store \<Rightarrow> api_key option" where
  "getById_key i s = jm_get s i"

definition getByKeyPrefix :: "string \<Rightarrow> key_store \<Rightarrow> api_key option" where
  "getByKeyPrefix prefix s = find (\<lambda>k. ak_keyPrefix k = prefix) (jm_values s)"

definition save_key :: "api_key \<Rightarrow> key_store \<Rightarrow> key_store" where
  "save_key k s = jm_set (ak_id k) k s"

definition delete_key :: "string \<Rightarrow> key_store \<Rightarrow> key_store" where
  "delete_key i s = jm_del i s"

definition list_keys :: "key_store \<Rightarrow> api_key list" where
  "list_keys s = jm_values s"

subsection \<open>What a key proves\<close>

lemma created_key_simps:
  assumes "createApiKey pbkdf2 R now input = (k, raw)"
  shows "raw = generateApiKey (kr_keyBytes R)" "ak_keyPrefix k = take 8 raw"
    "ak_hash k = to_hex (pbkdf2 raw (ak_salt k))" "ak_id k = kr_uuid R" "ak_enabled k"
    "ak_permissions k = ai_permissions input" "ak_expiresAt k = ai_expiresAt input"
  using assms by (auto simp: createApiKey_def hashApiKey_def Let_def)

lemma verify_created_key:
  assumes "\<And>p s. length (pbkdf2 p s) = 64" "createApiKey pbkdf2 R now input = (k, raw)"
  shows "verifyApiKey pbkdf2 raw' (ak_hash k) (ak_salt k) = Inr (pbkdf2 raw' (ak_salt k) = pbkdf2 raw (ak_salt k))"
  using assms(1)
  by (simp add: verifyApiKey_def created_key_simps(3) [OF assms(2)] timingSafeEqual_def length_ascii_utf8
      ascii_to_hex utf8_inj to_hex_inj)

lemma created_key_prefix:
  assumes "createApiKey pbkdf2 R now input = (k, raw)" "kr_keyBytes R \<noteq> []"
  shows "validateKeyPrefix raw"
proof -
  have "raw = API_KEY_PREFIX @ to_base64url (kr_keyBytes R)"
    using created_key_simps(1) [OF assms(1)] by (simp add: generateApiKey_def)
  moreover have "sextets (kr_keyBytes R) \<noteq> []" using assms(2) by (cases "kr_keyBytes R" rule: sextets.cases) auto
  ultimately show ?thesis by (simp add: validateKeyPrefix_def starts_with_append to_base64url_def)
qed

lemma find_append: "find P (xs @ ys) = (case find P xs of None \<Rightarrow> find P ys | Some x \<Rightarrow> Some x)"
  by (induction xs) auto

text \<open>A key that was created and saved under a fresh id is found by the first eight characters of
  the raw key unless an older stored key has the same eight; the raw key, and only a key with the
  same PBKDF2 value, then verifies against it. An older key with the same prefix hides the
  new one: it is what the lookup returns. Rotating a key leaves the old one stored, enabled and
  verifiable.\<close>

theorem stored_key_authenticates:
  assumes "\<And>p s. length (pbkdf2 p s) = 64"
    and "createApiKey pbkdf2 R now input = (k, raw)" and "jm_get s (ak_id k) = None"
    and "rotateApiKey pbkdf2 R' now' k newName = (k', raw')" and "kr_uuid R' \<noteq> kr_uuid R"
  shows "getByKeyPrefix (take 8 raw) (save_key k s) =
       (case getByKeyPrefix (take 8 raw) s of None \<Rightarrow> Some k | Some older \<Rightarrow> Some older)
    \<and> (\<forall>r. verifyApiKey pbkdf2 r (ak_hash k) (ak_salt k) = Inr (pbkdf2 r (ak_salt k) = pbkdf2 raw (ak_salt k)))
    \<and> getById_key (ak_id k) (save_key k' (save_key k s)) = Some k \<and> ak_enabled k
    \<and> ak_permissions k' = ak_permissions k"
proof -
  have "save_key k s = s @ [(ak_id k, k)]" using assms(3) by (simp add: save_key_def jm_set_fresh)
  then have "getByKeyPrefix (take 8 raw) (save_key k s) =
       (case getByKeyPrefix (take 8 raw) s of None \<Rightarrow> Some k | Some older \<Rightarrow> Some older)"
    using created_key_simps(2) [OF assms(2)] by (simp add: getByKeyPrefix_def jm_values_def find_append split: option.split)
  moreover have "ak_id k' \<noteq> ak_id k"
    using assms(5) created_key_simps(4) [OF assms(2)] created_key_simps(4) [OF assms(4) [unfolded rotateApiKey_def]]
    by simp
  then have "getById_key (ak_id k) (save_key k' (save_key k s)) = Some k"
    by (simp add: getById_key_def save_key_def)
  moreover have "ak_permissions k' = ak_permissions k"
    using created_key_simps(6) [OF assms(4) [unfolded rotateApiKey_def]] by simp
  ultimately show ?thesis
    using verify_created_key [OF assms(1,2)] created_key_simps(5) [OF assms(2)] by simp
qed

definition toy_pbkdf2 :: "string \<Rightarrow> string \<Rightarrow> bytes" where
  "toy_pbkdf2 p s = take 64 (utf8 p @ utf8 s @ replicate 64 0)"

definition sample_input :: api_key_input where
  "sample_input = \<lparr>ai_name = ''ci'', ai_permissions = [''kyc:read''], ai_metadata = None, ai_expiresAt = None\<rparr>"

definition sample_randomness :: "string \<Rightarrow> key_randomness" where
  "sample_randomness i = \<lparr>kr_keyBytes = replicate 32 1, kr_saltBytes = replicate 16 2, kr_uuid = i\<rparr>"

theorem stored_key_authenticates_witness:
  "(case createApiKey toy_pbkdf2 (sample_randomness ''a'') 0 sample_input of
      (k, raw) \<Rightarrow> getByKeyPrefix (take 8 raw) (save_key k jm_empty) = Some k \<and>
        verifyApiKey toy_pbkdf2 raw (ak_hash k) (ak_salt k) = Inr True)"
proof -
  obtain k raw where k: "createApiKey toy_pbkdf2 (sample_randomness ''a'') 0 sample_input = (k, raw)"
    by (cases "createApiKey toy_pbkdf2 (sample_randomness ''a'') 0 sample_input")
  obtain k' raw' where k': "rotateApiKey toy_pbkdf2 (sample_randomness ''b'') 1 k None = (k', raw')"
    by (cases "rotateApiKey toy_pbkdf2 (sample_randomness ''b'') 1 k None")
  have len: "length (toy_pbkdf2 p s) = 64" for p s by (simp add: toy_pbkdf2_def)
  have ids: "kr_uuid (sample_randomness ''b'') \<noteq> kr_uuid (sample_randomness ''a'')"
    by (simp add: sample_randomness_def)
  have "getByKeyPrefix (take 8 raw) jm_empty = None" by (simp add: getByKeyPrefix_def jm_values_def jm_empty_def)
  then show ?thesis
    using stored_key_authenticates [OF len k _ k' ids, of jm_empty] by (simp add: k)
qed

text \<open>Masking keeps the length and, of a key longer than eight characters, shows the first and the
  last four and nothing else.\<close>

lemma maskApiKey_shape:
  "length (maskApiKey raw) = length raw"
  "8 < length raw \<Longrightarrow> take 4 raw = take 4 raw' \<Longrightarrow> length raw = length raw' \<Longrightarrow>
   drop (length raw - 4) raw = drop (length raw' - 4) raw' \<Longrightarrow> maskApiKey raw = maskApiKey raw'"
  by (auto simp: maskApiKey_def)

end
