(* ===== verification/DidAuth.thy ===== *)
theory DidAuth
  imports DidDocument BaseText
begin

section \<open>DID authentication\<close>

text \<open>
  packages/core/src/auth/did_auth.ts: challenges, their signatures, and authenticateWithDID. The
  resolver is a function from DIDs to documents or an exception; SHA-256, the reading of a public key
  and the signature check are parameters; the nonce is an argument.
\<close>

record challenge_request =
  cq_did :: string
  cq_domain :: "string option"
  cq_expirationMs :: "int option"

record challenge =
  ch_challenge :: string
  ch_did :: string
  ch_domain :: "string option"
  ch_issuedAt :: int
  ch_expiresAt :: int

record challenge_verification =
  cv_verified :: bool
  cv_did :: "string option"
  cv_error :: "string option"

definition CHALLENGE_EXPIRATION_MS :: int where "CHALLENGE_EXPIRATION_MS = 5 * 60 * 1000"

record 'key auth_crypto =
  ac_sha256 :: "bytes \<Rightarrow> bytes"
  ac_createPublicKey :: "bytes \<Rightarrow> 'key result" \<comment> \<open>format der, type spki\<close>
  ac_verify :: "'key \<Rightarrow> bytes \<Rightarrow> bytes \<Rightarrow> bool result" \<comment> \<open>key, message, signature\<close>

definition generateChallenge :: "'key auth_crypto \<Rightarrow> bytes \<Rightarrow> int \<Rightarrow> challenge_request \<Rightarrow> challenge" where
  "generateChallenge C nonceBytes now req =
     (let expiresAt = now + or_default (cq_expirationMs req) CHALLENGE_EXPIRATION_MS;
          nonce = to_base64url nonceBytes
      in \<lparr>ch_challenge = to_hex (ac_sha256 C (utf8 (cq_did req @ '':'' @ nonce @ '':'' @ show_int expiresAt))),
          ch_did = cq_did req, ch_domain = cq_domain req, ch_issuedAt = now, ch_expiresAt = expiresAt\<rparr>)"

definition challenge_failure :: "string \<Rightarrow> challenge_verification" where
  "challenge_failure e = \<lparr>cv_verified = False, cv_did = None, cv_error = Some e\<rparr>"

definition verifyChallengeSignature ::
    "'key auth_crypto \<Rightarrow> int \<Rightarrow> challenge \<Rightarrow> string \<Rightarrow> 'key \<Rightarrow> challenge_verification result" where
  "verifyChallengeSignature C now c signature publicKey =
     (if now > ch_expiresAt c then Inr (challenge_failure ''Challenge expired'')
      else case ac_verify C publicKey (utf8 (ch_challenge c)) (from_base64url signature) of
             Inl e \<Rightarrow> Inl e
           | Inr isValid \<Rightarrow>
               Inr \<lparr>cv_verified = isValid, cv_did = (if isValid then Some (ch_did c) else None),
                    cv_error = (if isValid then None else Some ''Invalid signature'')\<rparr>)"

definition verifyChallengeSignatureEd25519 ::
    "'key auth_crypto \<Rightarrow> int \<Rightarrow> challenge \<Rightarrow> string \<Rightarrow> bytes \<Rightarrow> challenge_verification result" where
  "verifyChallengeSignatureEd25519 C now c signature publicKeyBytes =
     (if now > ch_expiresAt c then Inr (challenge_failure ''Challenge expired'')
      else case ac_createPublicKey C publicKeyBytes of
             Inl e \<Rightarrow> Inl e
           | Inr keyObject \<Rightarrow> verifyChallengeSignature C now c signature keyObject)"

text \<open>\<open>s.replace('z', '')\<close>: the first occurrence only.\<close>

fun remove_first :: "char \<Rightarrow> string \<Rightarrow> string" where
  "remove_first c [] = []"
| "remove_first c (d # s) = (if d = c then s else d # remove_first c s)"

definition authenticateWithDID ::
    "'key auth_crypto \<Rightarrow> (string \<Rightarrow> did_document result) \<Rightarrow> bytes \<Rightarrow> int \<Rightarrow> string \<Rightarrow> string \<Rightarrow> string option
      \<Rightarrow> challenge_verification" where
  "authenticateWithDID C resolve nonceBytes now did signature domain =
     (case resolve did of
        Inl e \<Rightarrow> challenge_failure (exn_message e)
      | Inr doc \<Rightarrow>
          (let c = generateChallenge C nonceBytes now \<lparr>cq_did = did, cq_domain = domain, cq_expirationMs = None\<rparr>
           in case dd_verificationMethod doc of
                [] \<Rightarrow> challenge_failure ''No verification method found''
              | vm # _ \<Rightarrow>
                  (case vp_publicKeyMultibase vm of
                     None \<Rightarrow> challenge_failure ''No public key available''
                   | Some m \<Rightarrow>
                       if m = [] then challenge_failure ''No public key available''
                       else case verifyChallengeSignatureEd25519 C now c signature
                                   (from_base64url (remove_first (CHR ''z'') m)) of
                              Inl e \<Rightarrow> challenge_failure (exn_message e)
                            | Inr v \<Rightarrow> v)))"

definition createDIDAuthToken :: "string \<Rightarrow> string \<Rightarrow> string" where
  "createDIDAuthToken did c = did @ '':'' @ c"

text \<open>authenticateWithDID accepts exactly the signatures, under the first key of the resolved
  document, of the challenge made from the nonce it draws itself: the hash of the DID, that fresh
  nonce and the expiry five minutes ahead. The caller never sees this challenge before signing, so
  a signature made for any challenge whose text differs is checked against the wrong message.\<close>

theorem did_authentication_needs_own_nonce:
  "cv_verified (authenticateWithDID C resolve nonceBytes now did signature domain) \<longleftrightarrow>
    (\<exists>doc vm vms m key. resolve did = Inr doc \<and> dd_verificationMethod doc = vm # vms
      \<and> vp_publicKeyMultibase vm = Some m \<and> m \<noteq> []
      \<and> ac_createPublicKey C (from_base64url (remove_first (CHR ''z'') m)) = Inr key
      \<and> ac_verify C key
          (utf8 (to_hex (ac_sha256 C (utf8 (did @ '':'' @ to_base64url nonceBytes @ '':'' @ show_int (now + 300000))))))
          (from_base64url signature) = Inr True)"
  by (auto simp: authenticateWithDID_def generateChallenge_def challenge_failure_def Let_def
      verifyChallengeSignatureEd25519_def verifyChallengeSignature_def CHALLENGE_EXPIRATION_MS_def
      split: sum.splits list.splits option.splits)

end
