(* ===== verification/RateLimit.thy ===== *)
theory RateLimit
  imports Prelude
begin

section \<open>Rate limiting\<close>

text \<open>
  packages/api/src/middleware/rate-limit.ts: the token bucket and the sliding window, each
  keyed by the user or the address of a request, with the two module-level Maps as the state.
  Token counts are rationals: the model is the algorithm in exact arithmetic, without the rounding
  of doubles. Configurations have a positive \<open>windowMs\<close>. The headers of a reply are the numbers
  that the source converts to strings; \<open>None\<close> as Retry-After is Infinity.
\<close>

record rl_config =
  rl_windowMs :: int
  rl_maxRequests :: int
  rl_burstSize :: "int option"

record token_bucket =
  tb_tokens :: rat
  tb_lastRefill :: int

record rate_stores =
  rs_tokenBuckets :: "(string, token_bucket) jsmap"
  rs_slidingWindows :: "(string, int list) jsmap" \<comment> \<open>the time stamps of the entries\<close>

record rl_request =
  rq_user :: "string option" \<comment> \<open>the id of the authenticated user\<close>
  rq_ip :: "string option"
  rq_remoteAddress :: "string option"

datatype rl_reply =
    Passed int int int \<comment> \<open>X-RateLimit-Limit, -Remaining and -Reset; then next()\<close>
  | TooManyRequests "int option" \<comment> \<open>status 429, Retry-After\<close>

definition default_identifier :: "rl_request \<Rightarrow> string" where
  "default_identifier req =
     (case rq_user req of Some i \<Rightarrow> i
      | None \<Rightarrow> or_default (rq_ip req) (or_default (rq_remoteAddress req) ''unknown''))"

definition clearRateLimitStores :: "rate_stores \<Rightarrow> rate_stores" where
  "clearRateLimitStores s = \<lparr>rs_tokenBuckets = jm_empty, rs_slidingWindows = jm_empty\<rparr>"

definition empty_rate_stores :: rate_stores where
  "empty_rate_stores = \<lparr>rs_tokenBuckets = jm_empty, rs_slidingWindows = jm_empty\<rparr>"

definition burst :: "rl_config \<Rightarrow> int" where
  "burst config = or_default (rl_burstSize config) (rl_maxRequests config)"

definition bucket_key :: "string \<Rightarrow> string" where
  "bucket_key i = ''tb:'' @ i"

definition window_key :: "string \<Rightarrow> string" where
  "window_key i = ''sw:'' @ i"

lemma key_eq_iff [simp]: "bucket_key i = bucket_key j \<longleftrightarrow> i = j" "window_key i = window_key j \<longleftrightarrow> i = j"
  by (simp_all add: bucket_key_def window_key_def)

subsection \<open>The token bucket\<close>

definition refillBucket :: "rl_config \<Rightarrow> int \<Rightarrow> token_bucket \<Rightarrow> token_bucket" where
  "refillBucket config now bucket =
     (let elapsed = now - tb_lastRefill bucket;
          refillTokens = of_int elapsed / of_int (rl_windowMs config) * of_int (rl_maxRequests config)
      in \<lparr>tb_tokens = min (of_int (burst config)) (tb_tokens bucket + refillTokens), tb_lastRefill = now\<rparr>)"

definition tokenBucket :: "rl_config \<Rightarrow> string \<Rightarrow> int \<Rightarrow> rate_stores \<Rightarrow> rl_reply \<times> rate_stores" where
  "tokenBucket config i now s =
     (let key = bucket_key i;
          bucket = or_default (jm_get (rs_tokenBuckets s) key) \<lparr>tb_tokens = of_int (burst config), tb_lastRefill = now\<rparr>;
          b = refillBucket config now bucket
      in if tb_tokens b < 1 then
           (TooManyRequests
              (if rl_maxRequests config = 0 then None
               else Some \<lceil>of_int (rl_windowMs config) * (1 - tb_tokens b) / of_int (rl_maxRequests config) / 1000\<rceil>),
            s\<lparr>rs_tokenBuckets := jm_set key b (rs_tokenBuckets s)\<rparr>)
         else
           (let b' = b\<lparr>tb_tokens := tb_tokens b - 1\<rparr>
            in (Passed (rl_maxRequests config) \<lfloor>tb_tokens b'\<rfloor> \<lceil>of_int (now + rl_windowMs config) / (1000 :: rat)\<rceil>,
                s\<lparr>rs_tokenBuckets := jm_set key b' (rs_tokenBuckets s)\<rparr>)))"

subsection \<open>The sliding window\<close>

text \<open>With \<open>maxRequests\<close> at most 0 and no entry left, \<open>filtered[0]!.timestamp\<close> throws.\<close>

definition slidingWindow :: "rl_config \<Rightarrow> string \<Rightarrow> int \<Rightarrow> rate_stores \<Rightarrow> rl_reply result \<times> rate_stores" where
  "slidingWindow config i now s =
     (let key = window_key i;
          windowStart = now - rl_windowMs config;
          entries = or_default (jm_get (rs_slidingWindows s) key) [];
          filtered = filter (\<lambda>t. t > windowStart) entries
      in if int (length filtered) \<ge> rl_maxRequests config then
           (case filtered of
              [] \<Rightarrow> Inl (JsTypeError (''Cannot read properties of undefined (reading '' @ [CHR 0x27] @ ''timestamp'' @ [CHR 0x27] @ '')''))
            | oldest # _ \<Rightarrow>
                Inr (TooManyRequests (Some \<lceil>of_int (oldest + rl_windowMs config - now) / (1000 :: rat)\<rceil>)),
            s\<lparr>rs_slidingWindows := jm_set key filtered (rs_slidingWindows s)\<rparr>)
         else
           (let filtered' = filtered @ [now]
            in (Inr (Passed (rl_maxRequests config) (rl_maxRequests config - int (length filtered'))
                       \<lceil>of_int (now + rl_windowMs config) / (1000 :: rat)\<rceil>),
                s\<lparr>rs_slidingWindows := jm_set key filtered' (rs_slidingWindows s)\<rparr>)))"

subsection \<open>Runs of requests\<close>

text \<open>A request: the identifier and its time. The state of a run keeps the time of the last request
  and, per identifier, the times of the requests that passed, the latest last.\<close>

type_synonym rl_run = "int \<times> rate_stores \<times> (string \<Rightarrow> int list)"

definition log_pass :: "bool \<Rightarrow> string \<Rightarrow> int \<Rightarrow> (string \<Rightarrow> int list) \<Rightarrow> string \<Rightarrow> int list" where
  "log_pass passed i t passes = (if passed then passes(i := passes i @ [t]) else passes)"

fun is_passed :: "rl_reply \<Rightarrow> bool" where
  "is_passed (Passed _ _ _) = True"
| "is_passed (TooManyRequests _) = False"

fun bucket_step :: "rl_config \<Rightarrow> string \<times> int \<Rightarrow> rl_run \<Rightarrow> rl_run" where
  "bucket_step config (i, t) (clock, s, passes) =
     (let (r, s') = tokenBucket config i t s in (t, s', log_pass (is_passed r) i t passes))"

fun window_step :: "rl_config \<Rightarrow> string \<times> int \<Rightarrow> rl_run \<Rightarrow> rl_run" where
  "window_step config (i, t) (clock, s, passes) =
     (let (r, s') = slidingWindow config i t s
      in (t, s', log_pass (case r of Inl e \<Rightarrow> False | Inr x \<Rightarrow> is_passed x) i t passes))"

definition in_time :: "string \<times> int \<Rightarrow> rl_run \<Rightarrow> bool" where
  "in_time e c \<longleftrightarrow> fst c \<le> snd e"

text \<open>How many requests passed in the interval from \<open>a\<close> to \<open>b\<close>.\<close>

definition passed_between :: "int \<Rightarrow> int \<Rightarrow> int list \<Rightarrow> nat" where
  "passed_between a b ts = length (filter (\<lambda>t. a \<le> t \<and> t \<le> b) ts)"

lemma passed_between_snoc:
  "passed_between a b (ts @ [t]) = passed_between a b ts + (if a \<le> t \<and> t \<le> b then 1 else 0)"
  by (simp add: passed_between_def)

lemma passed_between_late: "(\<And>t. t \<in> set ts \<Longrightarrow> t < a) \<Longrightarrow> passed_between a b ts = 0"
  by (force simp: passed_between_def filter_empty_conv)

lemma passed_between_past:
  "(\<And>t. t \<in> set ts \<Longrightarrow> t \<le> c) \<Longrightarrow> c \<le> b \<Longrightarrow> passed_between a b ts = passed_between a c ts"
  unfolding passed_between_def by (rule arg_cong [of _ _ length], rule filter_cong) (auto intro: order_trans)

subsection \<open>The sliding window never admits more than its maximum\<close>

definition window_entries :: "rate_stores \<Rightarrow> string \<Rightarrow> int list" where
  "window_entries s i = or_default (jm_get (rs_slidingWindows s) (window_key i)) []"

text \<open>What holds of one identifier: its entries are the passed requests younger than some time that
  has left the window.\<close>

definition window_ok :: "rl_config \<Rightarrow> int \<Rightarrow> int list \<Rightarrow> int list \<Rightarrow> bool" where
  "window_ok config clock es ts \<longleftrightarrow>
     (\<forall>t \<in> set ts. t \<le> clock) \<and>
     (\<exists>lo \<le> clock - rl_windowMs config. es = filter (\<lambda>t. t > lo) ts) \<and>
     (\<forall>x. int (passed_between (x - rl_windowMs config + 1) x ts) \<le> rl_maxRequests config)"

definition window_inv :: "rl_config \<Rightarrow> rl_run \<Rightarrow> bool" where
  "window_inv config c \<longleftrightarrow>
     (let (clock, s, passes) = c in \<forall>i. window_ok config clock (window_entries s i) (passes i))"

lemma window_ok_later:
  assumes "window_ok config clock es ts" "clock \<le> t"
  shows "window_ok config t es ts"
proof -
  obtain lo where "lo \<le> clock - rl_windowMs config" "es = filter (\<lambda>t. t > lo) ts"
    using assms(1) by (auto simp: window_ok_def)
  moreover from this(1) have "lo \<le> t - rl_windowMs config" using assms(2) by linarith
  ultimately have "\<exists>lo \<le> t - rl_windowMs config. es = filter (\<lambda>t. t > lo) ts" by blast
  moreover have "\<forall>u \<in> set ts. u \<le> t" using assms by (auto simp: window_ok_def intro: order_trans)
  ultimately show ?thesis using assms(1) unfolding window_ok_def by blast
qed

lemma window_ok_filter:
  assumes "window_ok config t es ts"
  shows "window_ok config t (filter (\<lambda>u. u > t - rl_windowMs config) es) ts"
    and "filter (\<lambda>u. u > t - rl_windowMs config) es = filter (\<lambda>u. u > t - rl_windowMs config) ts"
proof -
  obtain lo where lo: "lo \<le> t - rl_windowMs config" "es = filter (\<lambda>t. t > lo) ts"
    using assms by (auto simp: window_ok_def)
  then show *: "filter (\<lambda>u. u > t - rl_windowMs config) es = filter (\<lambda>u. u > t - rl_windowMs config) ts"
    by (auto intro!: filter_cong)
  show "window_ok config t (filter (\<lambda>u. u > t - rl_windowMs config) es) ts"
    using assms unfolding * window_ok_def by blast
qed

lemma window_ok_pass:
  assumes "window_ok config t es ts" "0 < rl_windowMs config"
    and "int (length (filter (\<lambda>u. u > t - rl_windowMs config) es)) < rl_maxRequests config"
  shows "window_ok config t (filter (\<lambda>u. u > t - rl_windowMs config) es @ [t]) (ts @ [t])"
proof -
  let ?w = "rl_windowMs config"
  note f = window_ok_filter(2) [OF assms(1)]
  have past: "u \<le> t" if "u \<in> set ts" for u using assms(1) that by (simp add: window_ok_def)
  have now: "passed_between (t - ?w + 1) t ts = length (filter (\<lambda>u. u > t - ?w) ts)"
    unfolding passed_between_def using past by (intro arg_cong [of _ _ length] filter_cong) auto
  have "int (passed_between (x - ?w + 1) x (ts @ [t])) \<le> rl_maxRequests config" for x
  proof (cases "x - ?w + 1 \<le> t \<and> t \<le> x")
    case True
    have "passed_between (x - ?w + 1) x ts \<le> passed_between (t - ?w + 1) t ts"
      unfolding passed_between_def using True past by (intro length_filter_mono) auto
    with assms(3) True show ?thesis unfolding f now by (simp add: passed_between_snoc)
  next
    case False
    then have "passed_between (x - ?w + 1) x (ts @ [t]) = passed_between (x - ?w + 1) x ts"
      by (simp only: passed_between_snoc if_False)
    with assms(1) show ?thesis by (simp add: window_ok_def)
  qed
  moreover have "filter (\<lambda>u. u > t - ?w) es @ [t] = filter (\<lambda>u. u > t - ?w) (ts @ [t])"
    using f assms(2) by simp
  ultimately show ?thesis using past unfolding window_ok_def
    by (intro conjI exI [of _ "t - ?w"]) auto
qed

lemma window_step_inv:
  assumes "0 < rl_windowMs config" "window_inv config c" "in_time e c"
  shows "window_inv config (window_step config e c)"
proof -
  obtain i t where e: "e = (i, t)" by (cases e)
  obtain clock s passes where c: "c = (clock, s, passes)" by (cases c)
  have ok: "window_ok config t (window_entries s j) (passes j)" for j
    using assms(2,3) by (auto simp: window_inv_def in_time_def e c intro: window_ok_later)
  define es where "es = filter (\<lambda>u. u > t - rl_windowMs config) (window_entries s i)"
  have get: "window_entries (s\<lparr>rs_slidingWindows := jm_set (window_key i) v (rs_slidingWindows s)\<rparr>) j =
      (if j = i then v else window_entries s j)" for v j
    by (simp add: window_entries_def)
  show ?thesis
  proof (cases "int (length es) < rl_maxRequests config")
    case True
    then have "window_step config e c =
        (t, s\<lparr>rs_slidingWindows := jm_set (window_key i) (es @ [t]) (rs_slidingWindows s)\<rparr>, passes(i := passes i @ [t]))"
      by (simp add: e c slidingWindow_def Let_def window_entries_def [symmetric] es_def [symmetric] log_pass_def not_le)
    moreover have "window_ok config t (es @ [t]) (passes i @ [t])"
      unfolding es_def using ok assms(1) True by (intro window_ok_pass) (simp_all add: es_def)
    ultimately show ?thesis using ok by (simp add: window_inv_def get)
  next
    case False
    then have "window_step config e c =
        (t, s\<lparr>rs_slidingWindows := jm_set (window_key i) es (rs_slidingWindows s)\<rparr>, passes)"
      by (simp add: e c slidingWindow_def Let_def window_entries_def [symmetric] es_def [symmetric] log_pass_def
          split: list.split)
    moreover have "window_ok config t es (passes i)" unfolding es_def by (rule window_ok_filter [OF ok])
    ultimately show ?thesis using ok by (simp add: window_inv_def get)
  qed
qed

text \<open>The machine of a limiter, for configurations with a positive window: the configuration is part of
  the state.\<close>

definition sound_config :: "rl_config \<Rightarrow> bool" where
  "sound_config config \<longleftrightarrow> 0 < rl_windowMs config \<and> 0 \<le> rl_maxRequests config \<and> 0 \<le> burst config"

interpretation win: invariant_machine
    "\<lambda>e (config, c). (config, window_step config e c)" "\<lambda>e (config, c). in_time e c"
    "\<lambda>(config, c). sound_config config \<and> window_inv config c"
  by unfold_locales (auto simp: sound_config_def intro: window_step_inv)

text \<open>C20: Over any run of requests by any identifiers at non-decreasing times, the sliding window
  admits at most \<open>maxRequests\<close> requests of an identifier within any span of \<open>windowMs\<close>, wherever the
  span begins.\<close>

theorem sliding_window_limit:
  assumes "sound_config config" and "admissible in_time (window_step config) rs (0, empty_rate_stores, \<lambda>_. [])"
  shows "int (passed_between (x - rl_windowMs config + 1) x
      (snd (snd (run_events (window_step config) rs (0, empty_rate_stores, \<lambda>_. []))) i)) \<le> rl_maxRequests config"
proof -
  have run: "run_events (\<lambda>e (config, c). (config, window_step config e c)) es (config, c) =
      (config, run_events (window_step config) es c)" for es c
    by (induction es arbitrary: c) simp_all
  have adm: "admissible (\<lambda>e (config, c). in_time e c) (\<lambda>e (config, c). (config, window_step config e c)) es (config, c) \<longleftrightarrow>
      admissible in_time (window_step config) es c" for es c
    by (induction es arbitrary: c) simp_all
  have "window_inv config (0, empty_rate_stores, \<lambda>_. [])"
    using assms(1)
    by (auto simp: window_inv_def window_ok_def window_entries_def empty_rate_stores_def passed_between_def sound_config_def
        intro: exI [of _ "- rl_windowMs config"])
  then have "window_inv config (run_events (window_step config) rs (0, empty_rate_stores, \<lambda>_. []))"
    using win.inv_run [of "(config, 0, empty_rate_stores, \<lambda>_. [])" rs] assms by (simp add: run adm)
  then show ?thesis by (auto simp: window_inv_def window_ok_def split: prod.splits)
qed

definition sample_limits :: rl_config where
  "sample_limits = \<lparr>rl_windowMs = 1000, rl_maxRequests = 2, rl_burstSize = None\<rparr>"

theorem sliding_window_limit_witness:
  "passed_between 1 1000
     (snd (snd (run_events (window_step sample_limits) [(''u'', 10), (''u'', 20), (''u'', 30), (''u'', 40)]
       (0, empty_rate_stores, \<lambda>_. []))) ''u'') \<le> 2"
proof -
  have "sound_config sample_limits" by (simp add: sound_config_def sample_limits_def burst_def)
  moreover have "fst (window_step config e c) = snd e" for config e c
    by (cases e; cases c) (simp add: split_beta)
  then have "admissible in_time (window_step sample_limits) [(''u'', 10), (''u'', 20), (''u'', 30), (''u'', 40)]
      (0, empty_rate_stores, \<lambda>_. [])"
    by (simp add: in_time_def del: window_step.simps)
  ultimately show ?thesis
    using sliding_window_limit [of sample_limits "[(''u'', 10), (''u'', 20), (''u'', 30), (''u'', 40)]" 1000 "''u''"]
    by (simp add: sample_limits_def del: run_events.simps)
qed

subsection \<open>The token bucket admits its burst plus its rate\<close>

definition refill_rate :: "rl_config \<Rightarrow> rat" where
  "refill_rate config = of_int (rl_maxRequests config) / of_int (rl_windowMs config)"

definition bucket_of :: "rate_stores \<Rightarrow> string \<Rightarrow> token_bucket option" where
  "bucket_of s i = jm_get (rs_tokenBuckets s) (bucket_key i)"

text \<open>The allowance for an interval of length \<open>d\<close>.\<close>

definition allowance :: "rl_config \<Rightarrow> int \<Rightarrow> rat" where
  "allowance config d = of_int (burst config) + of_int d * refill_rate config"

text \<open>A bucket whose tokens, together with the requests that passed since any earlier time, are
  within the allowance.\<close>

definition filled_ok :: "rl_config \<Rightarrow> token_bucket \<Rightarrow> int list \<Rightarrow> bool" where
  "filled_ok config b ts \<longleftrightarrow>
     0 \<le> tb_tokens b \<and> tb_tokens b \<le> of_int (burst config) \<and> (\<forall>t \<in> set ts. t \<le> tb_lastRefill b) \<and>
     (\<forall>a \<le> tb_lastRefill b. of_nat (passed_between a (tb_lastRefill b) ts) + tb_tokens b
        \<le> allowance config (tb_lastRefill b - a)) \<and>
     (\<forall>x y. x \<le> y \<longrightarrow> of_nat (passed_between x y ts) \<le> allowance config (y - x))"

definition bucket_inv :: "rl_config \<Rightarrow> rl_run \<Rightarrow> bool" where
  "bucket_inv config c \<longleftrightarrow>
     (let (clock, s, passes) = c
      in \<forall>i. case bucket_of s i of
               None \<Rightarrow> passes i = []
             | Some b \<Rightarrow> tb_lastRefill b \<le> clock \<and> filled_ok config b (passes i))"

lemma rate_nonneg: "sound_config config \<Longrightarrow> 0 \<le> refill_rate config"
  by (simp add: refill_rate_def sound_config_def)

lemma allowance_nonneg: "sound_config config \<Longrightarrow> 0 \<le> d \<Longrightarrow> 0 \<le> allowance config d"
  using rate_nonneg by (simp add: allowance_def sound_config_def)

lemma allowance_add: "allowance config (d + e) = allowance config d + of_int e * refill_rate config"
  by (simp add: allowance_def distrib_right)

lemma allowance_mono: "sound_config config \<Longrightarrow> d \<le> e \<Longrightarrow> allowance config d \<le> allowance config e"
  using rate_nonneg [of config] by (simp add: allowance_def mult_right_mono)

lemma filled_ok_new:
  "sound_config config \<Longrightarrow> filled_ok config \<lparr>tb_tokens = of_int (burst config), tb_lastRefill = t\<rparr> []"
  using allowance_nonneg [of config] allowance_mono [of config 0]
  by (auto simp: filled_ok_def passed_between_def sound_config_def allowance_def [of config 0] simp del: of_int_diff)

lemma filled_ok_refill:
  assumes "sound_config config" "filled_ok config b ts" "tb_lastRefill b \<le> now"
  shows "filled_ok config (refillBucket config now b) ts"
proof -
  let ?l = "tb_lastRefill b"
  define r where "r = of_int (now - ?l) * refill_rate config"
  have r: "0 \<le> r" using assms(1,3) rate_nonneg by (simp add: r_def)
  have b': "refillBucket config now b = \<lparr>tb_tokens = min (of_int (burst config)) (tb_tokens b + r), tb_lastRefill = now\<rparr>"
    by (simp add: refillBucket_def Let_def r_def refill_rate_def)
  have past: "t \<le> ?l" if "t \<in> set ts" for t using assms(2) that by (simp add: filled_ok_def)
  have "of_nat (passed_between a now ts) + min (of_int (burst config)) (tb_tokens b + r) \<le> allowance config (now - a)"
    if "a \<le> now" for a
  proof (cases "a \<le> ?l")
    case True
    have "passed_between a now ts = passed_between a ?l ts"
      using past assms(3) by (rule passed_between_past)
    moreover have "of_nat (passed_between a ?l ts) + tb_tokens b \<le> allowance config (?l - a)"
      using assms(2) True by (simp add: filled_ok_def)
    moreover have "allowance config (now - a) = allowance config (?l - a) + r"
      using allowance_add [of config "?l - a" "now - ?l"] by (simp add: r_def)
    ultimately show ?thesis by linarith
  next
    case False
    then have "passed_between a now ts = 0" using past by (intro passed_between_late) force
    moreover have "of_int (burst config) \<le> allowance config (now - a)"
      using allowance_mono [of config 0 "now - a"] that assms(1) by (simp add: allowance_def)
    ultimately show ?thesis by simp
  qed
  moreover have "0 \<le> min (of_int (burst config)) (tb_tokens b + r)"
    using r assms(1,2) by (simp add: filled_ok_def sound_config_def)
  ultimately show ?thesis using assms(2,3) past unfolding filled_ok_def b' by fastforce
qed

lemma filled_ok_pass:
  assumes "sound_config config" "filled_ok config b ts" "1 \<le> tb_tokens b"
  shows "filled_ok config (b\<lparr>tb_tokens := tb_tokens b - 1\<rparr>) (ts @ [tb_lastRefill b])"
proof -
  let ?l = "tb_lastRefill b"
  have since: "of_nat (passed_between a ?l ts) + tb_tokens b \<le> allowance config (?l - a)" if "a \<le> ?l" for a
    using assms(2) that by (simp add: filled_ok_def)
  have past: "t \<le> ?l" if "t \<in> set ts" for t using assms(2) that by (simp add: filled_ok_def)
  have "of_nat (passed_between x y (ts @ [?l])) \<le> allowance config (y - x)" if "x \<le> y" for x y
  proof (cases "x \<le> ?l \<and> ?l \<le> y")
    case True
    then have "passed_between x y ts = passed_between x ?l ts" using past by (intro passed_between_past) auto
    with since [of x] True assms(3) have "of_nat (passed_between x y ts) + 1 \<le> allowance config (?l - x)" by simp
    also have "\<dots> \<le> allowance config (y - x)" using True assms(1) by (intro allowance_mono) auto
    finally show ?thesis using True by (simp add: passed_between_snoc)
  next
    case False
    have "of_nat (passed_between x y ts) \<le> allowance config (y - x)"
      using assms(2) that by (simp add: filled_ok_def)
    moreover have "passed_between x y (ts @ [?l]) = passed_between x y ts"
      using False by (simp only: passed_between_snoc if_False)
    ultimately show ?thesis by simp
  qed
  moreover have "of_nat (passed_between a ?l (ts @ [?l])) + (tb_tokens b - 1) \<le> allowance config (?l - a)" if "a \<le> ?l" for a
    using since [OF that] that by (simp add: passed_between_snoc)
  ultimately show ?thesis using assms(2,3) past unfolding filled_ok_def by auto
qed

lemma bucket_step_inv:
  assumes "sound_config config" "bucket_inv config c" "in_time e c"
  shows "bucket_inv config (bucket_step config e c)"
proof -
  obtain i t where e: "e = (i, t)" by (cases e)
  obtain clock s passes where c: "c = (clock, s, passes)" by (cases c)
  have t: "clock \<le> t" using assms(3) by (simp add: in_time_def e c)
  have inv: "case bucket_of s j of None \<Rightarrow> passes j = [] | Some b \<Rightarrow> tb_lastRefill b \<le> clock \<and> filled_ok config b (passes j)" for j
    using assms(2) by (simp add: bucket_inv_def c)
  have later: "case bucket_of s j of None \<Rightarrow> passes j = [] | Some b \<Rightarrow> tb_lastRefill b \<le> t \<and> filled_ok config b (passes j)" for j
    using inv [of j] t by (auto split: option.splits)
  define b where "b = or_default (bucket_of s i) \<lparr>tb_tokens = of_int (burst config), tb_lastRefill = t\<rparr>"
  define b1 where "b1 = refillBucket config t b"
  have last: "tb_lastRefill b1 = t" by (simp add: b1_def refillBucket_def Let_def)
  have "filled_ok config b (passes i) \<and> tb_lastRefill b \<le> t"
    using later [of i] filled_ok_new [OF assms(1), of t] by (cases "bucket_of s i") (simp_all add: b_def)
  then have ok1: "filled_ok config b1 (passes i)" unfolding b1_def using assms(1) by (intro filled_ok_refill) auto
  have get: "bucket_of (s\<lparr>rs_tokenBuckets := jm_set (bucket_key i) v (rs_tokenBuckets s)\<rparr>) j =
      (if j = i then Some v else bucket_of s j)" for v j
    by (simp add: bucket_of_def)
  show ?thesis
  proof (cases "tb_tokens b1 < 1")
    case True
    then have "bucket_step config e c = (t, s\<lparr>rs_tokenBuckets := jm_set (bucket_key i) b1 (rs_tokenBuckets s)\<rparr>, passes)"
      by (simp add: e c tokenBucket_def Let_def bucket_of_def [symmetric] b_def [symmetric] b1_def [symmetric] log_pass_def)
    with later ok1 last show ?thesis by (simp add: bucket_inv_def get)
  next
    case False
    then have "bucket_step config e c = (t, s\<lparr>rs_tokenBuckets := jm_set (bucket_key i) (b1\<lparr>tb_tokens := tb_tokens b1 - 1\<rparr>) (rs_tokenBuckets s)\<rparr>,
        passes(i := passes i @ [t]))"
      by (simp add: e c tokenBucket_def Let_def bucket_of_def [symmetric] b_def [symmetric] b1_def [symmetric] log_pass_def)
    moreover have "filled_ok config (b1\<lparr>tb_tokens := tb_tokens b1 - 1\<rparr>) (passes i @ [t])"
      using filled_ok_pass [OF assms(1) ok1] False last by simp
    moreover have "case bucket_of (s\<lparr>rs_tokenBuckets := jm_set (bucket_key i) (b1\<lparr>tb_tokens := tb_tokens b1 - 1\<rparr>) (rs_tokenBuckets s)\<rparr>) j of
          None \<Rightarrow> (passes(i := passes i @ [t])) j = []
        | Some b \<Rightarrow> tb_lastRefill b \<le> t \<and> filled_ok config b ((passes(i := passes i @ [t])) j)" for j
      using later [of j] calculation(2) last by (cases "j = i") (auto simp: get split: option.splits)
    ultimately show ?thesis by (simp add: bucket_inv_def)
  qed
qed

interpretation tb: invariant_machine
    "\<lambda>e (config, c). (config, bucket_step config e c)" "\<lambda>e (config, c). in_time e c"
    "\<lambda>(config, c). sound_config config \<and> bucket_inv config c"
  by unfold_locales (auto intro: bucket_step_inv)

text \<open>C19: Over any run of requests at non-decreasing times, the token bucket admits in the interval
  from \<open>x\<close> to \<open>y\<close> at most its burst size plus the tokens refilled in that time,
  \<open>(y - x) * maxRequests / windowMs\<close>, of each identifier.\<close>

theorem token_bucket_limit:
  assumes "sound_config config" and "x \<le> y"
    and "admissible in_time (bucket_step config) rs (0, empty_rate_stores, \<lambda>_. [])"
  shows "of_nat (passed_between x y
      (snd (snd (run_events (bucket_step config) rs (0, empty_rate_stores, \<lambda>_. []))) i)) \<le>
    (of_int (burst config) + of_int (y - x) * of_int (rl_maxRequests config) / of_int (rl_windowMs config) :: rat)"
proof -
  have run: "run_events (\<lambda>e (config, c). (config, bucket_step config e c)) es (config, c) =
      (config, run_events (bucket_step config) es c)" for es c
    by (induction es arbitrary: c) simp_all
  have adm: "admissible (\<lambda>e (config, c). in_time e c) (\<lambda>e (config, c). (config, bucket_step config e c)) es (config, c) \<longleftrightarrow>
      admissible in_time (bucket_step config) es c" for es c
    by (induction es arbitrary: c) simp_all
  obtain clock s passes where c: "run_events (bucket_step config) rs (0, empty_rate_stores, \<lambda>_. []) = (clock, s, passes)"
    by (cases "run_events (bucket_step config) rs (0, empty_rate_stores, \<lambda>_. [])")
  have "bucket_inv config (0, empty_rate_stores, \<lambda>_. [])"
    by (simp add: bucket_inv_def bucket_of_def empty_rate_stores_def)
  then have "bucket_inv config (clock, s, passes)"
    using tb.inv_run [of "(config, 0, empty_rate_stores, \<lambda>_. [])" rs] assms by (simp add: run adm c)
  then have "of_nat (passed_between x y (passes i)) \<le> allowance config (y - x)"
    using assms(2) allowance_nonneg [OF assms(1), of "y - x"]
    by (cases "bucket_of s i") (auto simp: bucket_inv_def filled_ok_def passed_between_def dest!: spec [of _ i])
  then show ?thesis by (simp add: c allowance_def refill_rate_def)
qed

theorem token_bucket_limit_witness:
  "passed_between 10 40
     (snd (snd (run_events (bucket_step sample_limits) [(''u'', 10), (''u'', 20), (''u'', 30), (''u'', 40)]
       (0, empty_rate_stores, \<lambda>_. []))) ''u'') \<le> 2"
proof -
  have "sound_config sample_limits" by (simp add: sound_config_def sample_limits_def burst_def)
  moreover have "fst (bucket_step config e c) = snd e" for config e c
    by (cases e; cases c) (simp add: split_beta)
  then have "admissible in_time (bucket_step sample_limits) [(''u'', 10), (''u'', 20), (''u'', 30), (''u'', 40)]
      (0, empty_rate_stores, \<lambda>_. [])"
    by (simp add: in_time_def del: bucket_step.simps)
  ultimately have "of_nat (passed_between 10 40
     (snd (snd (run_events (bucket_step sample_limits) [(''u'', 10), (''u'', 20), (''u'', 30), (''u'', 40)]
       (0, empty_rate_stores, \<lambda>_. []))) ''u'')) \<le> (2 + 3 / 50 :: rat)"
    using token_bucket_limit [of sample_limits 10 40 "[(''u'', 10), (''u'', 20), (''u'', 30), (''u'', 40)]" "''u''"]
    by (simp add: sample_limits_def burst_def del: run_events.simps)
  then have "of_nat (passed_between 10 40
     (snd (snd (run_events (bucket_step sample_limits) [(''u'', 10), (''u'', 20), (''u'', 30), (''u'', 40)]
       (0, empty_rate_stores, \<lambda>_. []))) ''u'')) < (of_nat 3 :: rat)"
    by (rule order_le_less_trans) simp
  then have "passed_between 10 40
     (snd (snd (run_events (bucket_step sample_limits) [(''u'', 10), (''u'', 20), (''u'', 30), (''u'', 40)]
       (0, empty_rate_stores, \<lambda>_. []))) ''u'') < 3"
    by (simp only: of_nat_less_iff)
  then show ?thesis by (simp del: run_events.simps)
qed

end
