(* ===== verification/SchemaValidator.thy ===== *)
theory SchemaValidator
  imports Prelude
begin

section \<open>The JSON schema validator\<close>

text \<open>
  packages/core/src/validation/schema_validator.ts. Data and schema are JSON values parsed from
  separate texts: an object or an array of the one is never identical to one of the other, nor
  two of the same text to each other. What \<open>in\<close> and indexing find on an object's prototype is
  modelled: a function, or Object.prototype itself. A message is its template with the interpolated
  values (\<open>sv_message\<close>). Regular expressions are a parameter; the patterns of a schema are
  assumed to be well-formed. The keywords the source never reads (if, then, else, format,
  minimumProperties, definitions and the annotations) are not part of \<open>sv_schema\<close>.
\<close>

subsection \<open>Schemas\<close>

datatype schema_type = TString | TNumber | TInteger | TBoolean | TArray | TObject | TNull

datatype type_keyword = OneType schema_type | TypeList "schema_type list"

record schema_keywords =
  kw_ref :: "string option"
  kw_type :: "type_keyword option"
  kw_enum :: "json list option"
  kw_const :: "json option"
  kw_required :: "string list option"
  kw_minimum :: "rat option"
  kw_maximum :: "rat option"
  kw_minLength :: "rat option"
  kw_maxLength :: "rat option"
  kw_pattern :: "string option"
  kw_minItems :: "rat option"
  kw_maxItems :: "rat option"
  kw_uniqueItems :: bool

text \<open>\<open>items\<close> is one schema (\<open>js_items\<close>) or an array of them (\<open>js_itemList\<close>).\<close>

datatype sv_schema =
  JSONSchema
    (js_keywords: schema_keywords)
    (js_properties: "(string \<times> sv_schema) list option")
    (js_items: "sv_schema option")
    (js_itemList: "sv_schema list option")
    (js_allOf: "sv_schema list option")
    (js_anyOf: "sv_schema list option")
    (js_oneOf: "sv_schema list option")
    (js_not: "sv_schema option")

subsection \<open>Data\<close>

datatype sv_data = Own json | InheritedFunction | ObjectPrototype

fun typeof :: "sv_data \<Rightarrow> string" where
  "typeof (Own (JStr s)) = ''string''"
| "typeof (Own (JNum n)) = ''number''"
| "typeof (Own (JBool b)) = ''boolean''"
| "typeof (Own v) = ''object''"
| "typeof InheritedFunction = ''function''"
| "typeof ObjectPrototype = ''object''"

fun is_array :: "sv_data \<Rightarrow> bool" where
  "is_array (Own (JArr vs)) = True"
| "is_array d = False"

text \<open>\<open>key in data\<close> and \<open>data[key]\<close> for an object: \<open>None\<close> when the key is not found.\<close>

fun find_property :: "sv_data \<Rightarrow> string \<Rightarrow> sv_data option" where
  "find_property (Own (JObj es)) k =
     (case map_of es k of
        Some v \<Rightarrow> Some (Own v)
      | None \<Rightarrow> if k = ''__proto__'' then Some ObjectPrototype
                else if k \<in> set object_prototype_keys then Some InheritedFunction else None)"
| "find_property ObjectPrototype k =
     (if k = ''__proto__'' then Some (Own JNull)
      else if k \<in> set object_prototype_keys then Some InheritedFunction else None)"
| "find_property d k = None"

definition whole_number :: "rat \<Rightarrow> bool" where
  "whole_number n \<longleftrightarrow> of_int \<lfloor>n\<rfloor> = n"

fun checkType :: "sv_data \<Rightarrow> schema_type \<Rightarrow> bool" where
  "checkType d TInteger = (case d of Own (JNum n) \<Rightarrow> whole_number n | _ \<Rightarrow> False)"
| "checkType d TNumber = (typeof d = ''number'')"
| "checkType d TString = (typeof d = ''string'')"
| "checkType d TBoolean = (typeof d = ''boolean'')"
| "checkType d TArray = is_array d"
| "checkType d TObject = (d \<noteq> Own JNull \<and> typeof d = ''object'' \<and> \<not> is_array d)"
| "checkType d TNull = (d = Own JNull)"

text \<open>\<open>data === v\<close> for a value \<open>v\<close> of the schema, and for two items of one array.\<close>

fun scalar :: "json \<Rightarrow> bool" where
  "scalar (JArr vs) = False"
| "scalar (JObj es) = False"
| "scalar v = True"

fun identical :: "sv_data \<Rightarrow> json \<Rightarrow> bool" where
  "identical (Own w) v = (scalar w \<and> w = v)"
| "identical d v = False"

fun has_repeat :: "json list \<Rightarrow> json list \<Rightarrow> bool" where
  "has_repeat seen [] = False"
| "has_repeat seen (x # xs) = (scalar x \<and> x \<in> set seen \<or> has_repeat (x # seen) xs)"

subsection \<open>Errors\<close>

text \<open>One constructor per \<open>errors.push\<close>, with the values that its message, \<open>expected\<close> and \<open>received\<close> are
  made of.\<close>

datatype sv_problem =
    InvalidSchema
  | TypesMismatch "schema_type list" string
  | TypeMismatch schema_type string
  | EnumMismatch "json list" sv_data
  | ConstMismatch json sv_data
  | MinLength nat rat
  | MaxLength nat rat
  | PatternMismatch string string
  | Minimum rat rat
  | Maximum rat rat
  | MinItems nat rat
  | MaxItems nat rat
  | UniqueItems
  | RequiredMissing string
  | AnyOfFailed
  | OneOfFailed nat
  | NotFailed

fun problem_code :: "sv_problem \<Rightarrow> string" where
  "problem_code InvalidSchema = ''INVALID_SCHEMA''"
| "problem_code (TypesMismatch ts r) = ''TYPE_MISMATCH''"
| "problem_code (TypeMismatch t r) = ''TYPE_MISMATCH''"
| "problem_code (EnumMismatch e d) = ''ENUM_MISMATCH''"
| "problem_code (ConstMismatch c d) = ''CONST_MISMATCH''"
| "problem_code (MinLength n m) = ''MIN_LENGTH''"
| "problem_code (MaxLength n m) = ''MAX_LENGTH''"
| "problem_code (PatternMismatch p s) = ''PATTERN_MISMATCH''"
| "problem_code (Minimum n m) = ''MINIMUM''"
| "problem_code (Maximum n m) = ''MAXIMUM''"
| "problem_code (MinItems n m) = ''MIN_ITEMS''"
| "problem_code (MaxItems n m) = ''MAX_ITEMS''"
| "problem_code UniqueItems = ''UNIQUE_ITEMS''"
| "problem_code (RequiredMissing k) = ''REQUIRED''"
| "problem_code AnyOfFailed = ''ANY_OF_FAILED''"
| "problem_code (OneOfFailed n) = ''ONE_OF_FAILED''"
| "problem_code NotFailed = ''NOT_FAILED''"

type_synonym sv_error = "string \<times> sv_problem" \<comment> \<open>the path and the problem\<close>

definition push_if :: "bool \<Rightarrow> string \<Rightarrow> sv_problem \<Rightarrow> sv_error list" where
  "push_if c path p = (if c then [(path, p)] else [])"

lemma push_if_Nil [simp]: "push_if c path p = [] \<longleftrightarrow> \<not> c"
  by (simp add: push_if_def)

subsection \<open>The checks of one schema\<close>

definition applies :: "schema_type \<Rightarrow> schema_keywords \<Rightarrow> bool" where
  "applies t kw \<longleftrightarrow> kw_type kw = Some (OneType t) \<or> kw_type kw = None"

definition type_errors :: "sv_data \<Rightarrow> schema_keywords \<Rightarrow> string \<Rightarrow> sv_error list" where
  "type_errors d kw path =
     (case kw_type kw of
        None \<Rightarrow> []
      | Some (TypeList ts) \<Rightarrow> push_if (\<not> list_ex (checkType d) ts) path (TypesMismatch ts (typeof d))
      | Some (OneType t) \<Rightarrow> push_if (\<not> checkType d t) path (TypeMismatch t (typeof d)))"

definition stops :: "sv_data \<Rightarrow> schema_keywords \<Rightarrow> bool" where
  "stops d kw \<longleftrightarrow> (case kw_type kw of Some (OneType t) \<Rightarrow> \<not> checkType d t | _ \<Rightarrow> False)"

definition enum_errors :: "sv_data \<Rightarrow> schema_keywords \<Rightarrow> string \<Rightarrow> sv_error list" where
  "enum_errors d kw path =
     (case kw_enum kw of None \<Rightarrow> []
      | Some vs \<Rightarrow> push_if (\<not> list_ex (identical d) vs) path (EnumMismatch vs d))"

definition const_errors :: "sv_data \<Rightarrow> schema_keywords \<Rightarrow> string \<Rightarrow> sv_error list" where
  "const_errors d kw path =
     (case kw_const kw of None \<Rightarrow> []
      | Some v \<Rightarrow> push_if (\<not> identical d v) path (ConstMismatch v d))"

definition validateStringConstraints ::
    "(string \<Rightarrow> string \<Rightarrow> bool) \<Rightarrow> sv_data \<Rightarrow> schema_keywords \<Rightarrow> string \<Rightarrow> sv_error list" where
  "validateStringConstraints rx d kw path =
     (case d of
        Own (JStr s) \<Rightarrow>
          (case kw_minLength kw of None \<Rightarrow> []
           | Some m \<Rightarrow> push_if (rat_of_nat (length s) < m) path (MinLength (length s) m)) @
          (case kw_maxLength kw of None \<Rightarrow> []
           | Some m \<Rightarrow> push_if (rat_of_nat (length s) > m) path (MaxLength (length s) m)) @
          (case kw_pattern kw of None \<Rightarrow> []
           | Some p \<Rightarrow> push_if (p \<noteq> [] \<and> \<not> rx p s) path (PatternMismatch p s))
      | _ \<Rightarrow> [])"

definition validateNumberConstraints :: "sv_data \<Rightarrow> schema_keywords \<Rightarrow> string \<Rightarrow> sv_error list" where
  "validateNumberConstraints d kw path =
     (case d of
        Own (JNum n) \<Rightarrow>
          (case kw_minimum kw of None \<Rightarrow> [] | Some m \<Rightarrow> push_if (n < m) path (Minimum n m)) @
          (case kw_maximum kw of None \<Rightarrow> [] | Some m \<Rightarrow> push_if (n > m) path (Maximum n m))
      | _ \<Rightarrow> [])"

definition array_errors :: "json list \<Rightarrow> schema_keywords \<Rightarrow> string \<Rightarrow> sv_error list" where
  "array_errors vs kw path =
     (case kw_minItems kw of None \<Rightarrow> []
      | Some m \<Rightarrow> push_if (rat_of_nat (length vs) < m) path (MinItems (length vs) m)) @
     (case kw_maxItems kw of None \<Rightarrow> []
      | Some m \<Rightarrow> push_if (rat_of_nat (length vs) > m) path (MaxItems (length vs) m)) @
     push_if (kw_uniqueItems kw \<and> has_repeat [] vs) path UniqueItems"

definition required_errors :: "sv_data \<Rightarrow> schema_keywords \<Rightarrow> string \<Rightarrow> sv_error list" where
  "required_errors d kw path =
     concat (map (\<lambda>k. push_if (find_property d k = None) (path @ ''/'' @ k) (RequiredMissing k))
       (or_default (kw_required kw) []))"

definition is_record :: "sv_data \<Rightarrow> bool" where
  "is_record d \<longleftrightarrow> typeof d = ''object'' \<and> d \<noteq> Own JNull \<and> \<not> is_array d"

subsection \<open>The recursion over the schema\<close>

text \<open>The schemas inside a schema.\<close>

definition inner_schemas :: "sv_schema \<Rightarrow> sv_schema list" where
  "inner_schemas S =
     map snd (or_default (js_properties S) []) @ (case js_items S of None \<Rightarrow> [] | Some T \<Rightarrow> [T]) @
     or_default (js_itemList S) [] @ or_default (js_allOf S) [] @ or_default (js_anyOf S) [] @
     or_default (js_oneOf S) [] @ (case js_not S of None \<Rightarrow> [] | Some T \<Rightarrow> [T])"

lemma size_in_list: "x \<in> set xs \<Longrightarrow> f x < size_list f xs"
  by (induction xs) auto

lemma size_in_entries: "(k, x) \<in> set es \<Longrightarrow> size x < size_list (size_prod (\<lambda>_. 0) size) es"
  using size_in_list [of "(k, x)" es "size_prod (\<lambda>_. 0) size"] by (simp add: size_prod_simp)

lemma size_schema_list: "T \<in> set Ts \<Longrightarrow> size (T::sv_schema) < size_list size Ts"
  by (rule size_in_list)

lemma size_inner: "T \<in> set (inner_schemas S) \<Longrightarrow> size T < size S"
  by (cases S)
    (auto simp: inner_schemas_def or_default_def split: option.splits dest: size_schema_list size_in_entries)

lemma inner_schemas_mem:
  "js_properties S = Some ps \<Longrightarrow> (k, T) \<in> set ps \<Longrightarrow> T \<in> set (inner_schemas S)"
  "js_items S = Some T \<Longrightarrow> T \<in> set (inner_schemas S)"
  "js_itemList S = Some Ts \<Longrightarrow> T \<in> set Ts \<Longrightarrow> T \<in> set (inner_schemas S)"
  "js_allOf S = Some Ts \<Longrightarrow> T \<in> set Ts \<Longrightarrow> T \<in> set (inner_schemas S)"
  "js_anyOf S = Some Ts \<Longrightarrow> T \<in> set Ts \<Longrightarrow> T \<in> set (inner_schemas S)"
  "js_oneOf S = Some Ts \<Longrightarrow> T \<in> set Ts \<Longrightarrow> T \<in> set (inner_schemas S)"
  "js_not S = Some T \<Longrightarrow> T \<in> set (inner_schemas S)"
  by (auto simp: inner_schemas_def intro: rev_image_eqI)

lemmas size_parts [termination_simp] = inner_schemas_mem [THEN size_inner]

definition indexed :: "'a list \<Rightarrow> (nat \<times> 'a) list" where
  "indexed xs = zip [0..<length xs] xs"

lemma indexed_mem: "(i, x) \<in> set (indexed xs) \<Longrightarrow> x \<in> set xs"
  by (auto simp: indexed_def dest: set_zip_rightD)

function validateValue ::
    "(string \<Rightarrow> string \<Rightarrow> bool) \<Rightarrow> sv_data \<Rightarrow> sv_schema \<Rightarrow> string \<Rightarrow> sv_error list" where
  "validateValue rx d S path =
     (let kw = js_keywords S
      in if or_default (kw_ref kw) [] \<noteq> [] then []
         else if stops d kw then type_errors d kw path
         else
           type_errors d kw path @ enum_errors d kw path @ const_errors d kw path @
           (if applies TString kw then validateStringConstraints rx d kw path else []) @
           (if applies TNumber kw \<or> applies TInteger kw then validateNumberConstraints d kw path else []) @
           (if applies TArray kw then
              (case d of
                 Own (JArr vs) \<Rightarrow>
                   array_errors vs kw path @
                   (case js_itemList S of
                      Some Ts \<Rightarrow>
                        concat (map (\<lambda>(i, v, T). validateValue rx (Own v) T (path @ ''['' @ show_nat i @ '']''))
                          (indexed (zip vs Ts)))
                    | None \<Rightarrow>
                        (case js_items S of
                           Some T \<Rightarrow>
                             concat (map (\<lambda>(i, v). validateValue rx (Own v) T (path @ ''['' @ show_nat i @ '']''))
                               (indexed vs))
                         | None \<Rightarrow> []))
               | _ \<Rightarrow> [])
            else []) @
           (if applies TObject kw \<and> is_record d then
              required_errors d kw path @
              (case js_properties S of
                 None \<Rightarrow> []
               | Some ps \<Rightarrow>
                   concat (map (\<lambda>(k, T).
                     (case find_property d k of
                        None \<Rightarrow> []
                      | Some v \<Rightarrow> validateValue rx v T (path @ ''/'' @ k))) ps))
            else []) @
           (case js_allOf S of
              None \<Rightarrow> []
            | Some Ts \<Rightarrow>
                concat (map (\<lambda>(i, T). validateValue rx d T (path @ ''/allOf/'' @ show_nat i)) (indexed Ts))) @
           (case js_anyOf S of
              None \<Rightarrow> []
            | Some Ts \<Rightarrow>
                push_if (\<not> list_ex (\<lambda>(i, T). validateValue rx d T (path @ ''/anyOf/'' @ show_nat i) = []) (indexed Ts))
                  (path @ ''/anyOf'') AnyOfFailed) @
           (case js_oneOf S of
              None \<Rightarrow> []
            | Some Ts \<Rightarrow>
                (let matchCount = length (filter (\<lambda>(i, T).
                       validateValue rx d T (path @ ''/oneOf/'' @ show_nat i) = []) (indexed Ts))
                 in push_if (matchCount \<noteq> 1) (path @ ''/oneOf'') (OneOfFailed matchCount))) @
           (case js_not S of
              None \<Rightarrow> []
            | Some T \<Rightarrow> push_if (validateValue rx d T (path @ ''/not'') = []) (path @ ''/not'') NotFailed))"
  by pat_completeness auto
termination
  by (relation "measure (\<lambda>(rx, d, S, path). size S)")
    (auto simp: size_parts dest!: indexed_mem set_zip_rightD)

text \<open>A schema that is null or no object is \<open>None\<close>.\<close>

record schema_result =
  sr_valid :: bool
  sr_errors :: "sv_error list"
  sr_warnings :: "string list"

definition validateSchemaStructure :: "sv_schema option \<Rightarrow> sv_error list" where
  "validateSchemaStructure S = push_if (S = None) ''$'' InvalidSchema"

definition validateSchema :: "(string \<Rightarrow> string \<Rightarrow> bool) \<Rightarrow> json \<Rightarrow> sv_schema option \<Rightarrow> schema_result" where
  "validateSchema rx v S =
     (case S of
        None \<Rightarrow> \<lparr>sr_valid = False, sr_errors = validateSchemaStructure S, sr_warnings = []\<rparr>
      | Some T \<Rightarrow>
          (let errors = validateSchemaStructure S @ validateValue rx (Own v) T []
           in \<lparr>sr_valid = (errors = []), sr_errors = errors, sr_warnings = []\<rparr>))"

subsection \<open>What the keywords mean\<close>

text \<open>
  The reading of the keywords in the JSON Schema standard, by the value and not by the way the code
  goes: every keyword constrains the values of the type it is about, whatever \<open>type\<close> says,
  and values are compared by content.
\<close>

definition has_type :: "json \<Rightarrow> schema_type \<Rightarrow> bool" where
  "has_type v t =
     (case v of
        JNull \<Rightarrow> t = TNull | JBool b \<Rightarrow> t = TBoolean | JStr s \<Rightarrow> t = TString | JArr vs \<Rightarrow> t = TArray
      | JObj es \<Rightarrow> t = TObject | JNum n \<Rightarrow> t = TNumber \<or> t = TInteger \<and> whole_number n)"

definition type_ok :: "json \<Rightarrow> schema_keywords \<Rightarrow> bool" where
  "type_ok v kw =
     (case kw_type kw of
        None \<Rightarrow> True | Some (OneType t) \<Rightarrow> has_type v t | Some (TypeList ts) \<Rightarrow> list_ex (has_type v) ts)"

definition if_given :: "'a option \<Rightarrow> ('a \<Rightarrow> bool) \<Rightarrow> bool" where
  "if_given k P = (case k of None \<Rightarrow> True | Some x \<Rightarrow> P x)"

lemma if_given_simps [simp]: "if_given None P" "if_given (Some x) P = P x"
  by (simp_all add: if_given_def)

definition keywords_ok :: "(string \<Rightarrow> string \<Rightarrow> bool) \<Rightarrow> json \<Rightarrow> schema_keywords \<Rightarrow> bool" where
  "keywords_ok rx v kw \<longleftrightarrow>
     if_given (kw_enum kw) (\<lambda>vs. v \<in> set vs) \<and> if_given (kw_const kw) (\<lambda>w. v = w) \<and>
     (case v of
        JStr s \<Rightarrow>
          if_given (kw_minLength kw) (\<lambda>m. m \<le> of_nat (length s)) \<and>
          if_given (kw_maxLength kw) (\<lambda>m. of_nat (length s) \<le> m) \<and>
          if_given (kw_pattern kw) (\<lambda>p. p = [] \<or> rx p s)
      | JNum n \<Rightarrow> if_given (kw_minimum kw) (\<lambda>m. m \<le> n) \<and> if_given (kw_maximum kw) (\<lambda>m. n \<le> m)
      | JArr vs \<Rightarrow>
          if_given (kw_minItems kw) (\<lambda>m. m \<le> of_nat (length vs)) \<and>
          if_given (kw_maxItems kw) (\<lambda>m. of_nat (length vs) \<le> m) \<and> (kw_uniqueItems kw \<longrightarrow> distinct vs)
      | JObj es \<Rightarrow> if_given (kw_required kw) (list_all (\<lambda>k. k \<in> fst ` set es))
      | _ \<Rightarrow> True)"

function conforms :: "(string \<Rightarrow> string \<Rightarrow> bool) \<Rightarrow> json \<Rightarrow> sv_schema \<Rightarrow> bool" where
  "conforms rx v S \<longleftrightarrow>
     type_ok v (js_keywords S) \<and> keywords_ok rx v (js_keywords S) \<and>
     (case v of
        JArr vs \<Rightarrow>
          (case js_itemList S of
             Some Ts \<Rightarrow> list_all (\<lambda>(w, T). conforms rx w T) (zip vs Ts)
           | None \<Rightarrow> (case js_items S of None \<Rightarrow> True | Some T \<Rightarrow> list_all (\<lambda>w. conforms rx w T) vs))
      | JObj es \<Rightarrow>
          (case js_properties S of
             None \<Rightarrow> True
           | Some ps \<Rightarrow> list_all (\<lambda>(k, T). case map_of es k of None \<Rightarrow> True | Some w \<Rightarrow> conforms rx w T) ps)
      | _ \<Rightarrow> True) \<and>
     (case js_allOf S of None \<Rightarrow> True | Some Ts \<Rightarrow> list_all (conforms rx v) Ts) \<and>
     (case js_anyOf S of None \<Rightarrow> True | Some Ts \<Rightarrow> list_ex (conforms rx v) Ts) \<and>
     (case js_oneOf S of None \<Rightarrow> True | Some Ts \<Rightarrow> length (filter (conforms rx v) Ts) = 1) \<and>
     (case js_not S of None \<Rightarrow> True | Some T \<Rightarrow> \<not> conforms rx v T)"
  by pat_completeness auto
termination
  by (relation "measure (\<lambda>(rx, v, S). size S)") (auto simp: size_parts dest: set_zip_rightD)

declare validateValue.simps [simp del] conforms.simps [simp del]

text \<open>The schemas for which the code decides this reading.\<close>

definition plain_keywords :: "schema_keywords \<Rightarrow> bool" where
  "plain_keywords kw \<longleftrightarrow>
     or_default (kw_ref kw) [] = [] \<and> (\<forall>ts. kw_type kw \<noteq> Some (TypeList ts)) \<and> \<not> kw_uniqueItems kw \<and>
     list_all scalar (or_default (kw_enum kw) []) \<and> if_given (kw_const kw) scalar \<and>
     list_all (\<lambda>k. k \<notin> set object_prototype_keys) (or_default (kw_required kw) [])"

function plain_schema :: "sv_schema \<Rightarrow> bool" where
  "plain_schema S \<longleftrightarrow>
     plain_keywords (js_keywords S) \<and>
     list_all (\<lambda>(k, T). k \<notin> set object_prototype_keys) (or_default (js_properties S) []) \<and>
     list_all plain_schema (inner_schemas S)"
  by pat_completeness auto
termination
  by (relation "measure size") (auto simp: size_inner)

declare plain_schema.simps [simp del]

subsection \<open>The code against the standard\<close>

lemma zip_snd:
  assumes "length is = length xs"
  shows "list_all (\<lambda>(i, x). P x) (zip is xs) = list_all P xs"
    and "list_ex (\<lambda>(i, x). P x) (zip is xs) = list_ex P xs"
    and "length (filter (\<lambda>(i, x). P x) (zip is xs)) = length (filter P xs)"
  using assms by (induction rule: list_induct2) auto

lemmas indexed_snd = zip_snd [of "[0..<length xs]" xs for xs, simplified, folded indexed_def]

lemma no_errors_indexed:
  assumes "\<And>x i. x \<in> set xs \<Longrightarrow> f i x = [] \<longleftrightarrow> P x"
  shows "concat (map (\<lambda>(i, x). f i x) (indexed xs)) = [] \<longleftrightarrow> list_all P xs"
proof -
  have "concat (map (\<lambda>(i, x). f i x) (indexed xs)) = [] \<longleftrightarrow> list_all (\<lambda>(i, x). P x) (indexed xs)"
    using assms by (fastforce simp: list_all_iff dest: indexed_mem)
  then show ?thesis by (simp only: indexed_snd)
qed

lemma some_match_indexed:
  assumes "\<And>x i. x \<in> set xs \<Longrightarrow> f i x = [] \<longleftrightarrow> P x"
  shows "list_ex (\<lambda>(i, x). f i x = []) (indexed xs) \<longleftrightarrow> list_ex P xs"
proof -
  have "list_ex (\<lambda>(i, x). f i x = []) (indexed xs) \<longleftrightarrow> list_ex (\<lambda>(i, x). P x) (indexed xs)"
    using assms by (fastforce simp: list_ex_iff dest: indexed_mem)
  then show ?thesis by (simp only: indexed_snd)
qed

lemma count_indexed:
  assumes "\<And>x i. x \<in> set xs \<Longrightarrow> f i x = [] \<longleftrightarrow> P x"
  shows "length (filter (\<lambda>(i, x). f i x = []) (indexed xs)) = length (filter P xs)"
proof -
  have "filter (\<lambda>(i, x). f i x = []) (indexed xs) = filter (\<lambda>(i, x). P x) (indexed xs)"
    using assms by (auto intro!: filter_cong dest: indexed_mem)
  then show ?thesis by (simp only: indexed_snd)
qed

lemma type_errors_Nil: "type_errors (Own v) kw path = [] \<longleftrightarrow> type_ok v kw"
proof -
  have "checkType (Own v) t = has_type v t" for t
    by (cases v; cases t) (auto simp: has_type_def)
  then show ?thesis
    by (auto simp: type_errors_def type_ok_def list_ex_iff split: option.splits type_keyword.splits)
qed

lemma stops_not_ok: "stops (Own v) kw \<Longrightarrow> type_errors (Own v) kw path \<noteq> []"
  by (auto simp: stops_def type_errors_def split: option.splits type_keyword.splits)

lemma identical_Own: "scalar w \<Longrightarrow> identical (Own v) w \<longleftrightarrow> v = w"
  by auto

lemma enum_errors_Nil:
  assumes "plain_keywords kw"
  shows "enum_errors (Own v) kw path = [] \<longleftrightarrow> if_given (kw_enum kw) (\<lambda>vs. v \<in> set vs)"
  using assms
  by (auto simp: enum_errors_def plain_keywords_def list_all_iff list_ex_iff split: option.splits)

lemma const_errors_Nil:
  assumes "plain_keywords kw"
  shows "const_errors (Own v) kw path = [] \<longleftrightarrow> if_given (kw_const kw) (\<lambda>w. v = w)"
  using assms by (auto simp: const_errors_def plain_keywords_def split: option.splits)

lemma find_own:
  "k \<notin> set object_prototype_keys \<Longrightarrow> find_property (Own (JObj es)) k = map_option Own (map_of es k)"
  by (auto simp: object_prototype_keys_def split: option.splits)

lemma required_errors_Nil:
  assumes "plain_keywords kw"
  shows "required_errors (Own (JObj es)) kw path = [] \<longleftrightarrow>
    if_given (kw_required kw) (list_all (\<lambda>k. k \<in> fst ` set es))"
  using assms
  by (cases "kw_required kw")
    (auto simp: required_errors_def plain_keywords_def list_all_iff find_own map_of_eq_None_iff
      simp del: find_property.simps)

text \<open>Under a single type that the value has, the group of constraints for that value is looked at.\<close>

lemma applies_group:
  assumes "type_ok v kw" and "\<forall>ts. kw_type kw \<noteq> Some (TypeList ts)"
  shows "v = JStr s \<Longrightarrow> applies TString kw" "v = JNum n \<Longrightarrow> applies TNumber kw \<or> applies TInteger kw"
    "v = JArr vs \<Longrightarrow> applies TArray kw" "v = JObj es \<Longrightarrow> applies TObject kw"
  using assms
  by (auto simp: applies_def type_ok_def has_type_def split: option.splits type_keyword.splits)

definition own_errors :: "(string \<Rightarrow> string \<Rightarrow> bool) \<Rightarrow> sv_data \<Rightarrow> schema_keywords \<Rightarrow> string \<Rightarrow> sv_error list" where
  "own_errors rx d kw path =
     enum_errors d kw path @ const_errors d kw path @
     (if applies TString kw then validateStringConstraints rx d kw path else []) @
     (if applies TNumber kw \<or> applies TInteger kw then validateNumberConstraints d kw path else []) @
     (case d of
        Own (JArr vs) \<Rightarrow> if applies TArray kw then array_errors vs kw path else []
      | _ \<Rightarrow> if applies TObject kw \<and> is_record d then required_errors d kw path else [])"

lemma own_errors_Nil:
  assumes p: "plain_keywords kw" and t: "type_ok v kw"
  shows "own_errors rx (Own v) kw path = [] \<longleftrightarrow> keywords_ok rx v kw"
proof -
  have single: "\<forall>ts. kw_type kw \<noteq> Some (TypeList ts)" and u: "\<not> kw_uniqueItems kw"
    using p by (auto simp: plain_keywords_def)
  note a = applies_group [OF t single]
  note g = own_errors_def keywords_ok_def enum_errors_Nil [OF p] const_errors_Nil [OF p] is_record_def
  show ?thesis
  proof (cases v)
    case (JStr s)
    then show ?thesis using a(1)
      by (auto simp: g validateStringConstraints_def validateNumberConstraints_def if_given_def not_less
        split: option.splits)
  next
    case (JNum n)
    then show ?thesis using a(2)
      by (auto simp: g validateStringConstraints_def validateNumberConstraints_def if_given_def not_less
        split: option.splits)
  next
    case (JArr vs)
    then show ?thesis using a(3) u
      by (auto simp: g validateStringConstraints_def validateNumberConstraints_def array_errors_def
        if_given_def not_less split: option.splits)
  next
    case (JObj es)
    then show ?thesis using a(4)
      by (simp add: g validateStringConstraints_def validateNumberConstraints_def required_errors_Nil [OF p])
  qed (simp_all add: g validateStringConstraints_def validateNumberConstraints_def)
qed

text \<open>What the schemas inside a schema contribute.\<close>

definition nested_errors :: "(string \<Rightarrow> string \<Rightarrow> bool) \<Rightarrow> json \<Rightarrow> sv_schema \<Rightarrow> string \<Rightarrow> sv_error list" where
  "nested_errors rx v S path =
     (case v of
        JArr vs \<Rightarrow>
          (case js_itemList S of
             Some Ts \<Rightarrow>
               concat (map (\<lambda>(i, w, T). validateValue rx (Own w) T (path @ ''['' @ show_nat i @ '']''))
                 (indexed (zip vs Ts)))
           | None \<Rightarrow>
               (case js_items S of
                  Some T \<Rightarrow>
                    concat (map (\<lambda>(i, w). validateValue rx (Own w) T (path @ ''['' @ show_nat i @ '']''))
                      (indexed vs))
                | None \<Rightarrow> []))
      | JObj es \<Rightarrow>
          (case js_properties S of
             None \<Rightarrow> []
           | Some ps \<Rightarrow>
               concat (map (\<lambda>(k, T).
                 (case find_property (Own v) k of
                    None \<Rightarrow> []
                  | Some w \<Rightarrow> validateValue rx w T (path @ ''/'' @ k))) ps))
      | _ \<Rightarrow> [])"

definition combined_errors :: "(string \<Rightarrow> string \<Rightarrow> bool) \<Rightarrow> sv_data \<Rightarrow> sv_schema \<Rightarrow> string \<Rightarrow> sv_error list" where
  "combined_errors rx d S path =
     (case js_allOf S of
        None \<Rightarrow> []
      | Some Ts \<Rightarrow>
          concat (map (\<lambda>(i, T). validateValue rx d T (path @ ''/allOf/'' @ show_nat i)) (indexed Ts))) @
     (case js_anyOf S of
        None \<Rightarrow> []
      | Some Ts \<Rightarrow>
          push_if (\<not> list_ex (\<lambda>(i, T). validateValue rx d T (path @ ''/anyOf/'' @ show_nat i) = []) (indexed Ts))
            (path @ ''/anyOf'') AnyOfFailed) @
     (case js_oneOf S of
        None \<Rightarrow> []
      | Some Ts \<Rightarrow>
          (let matchCount = length (filter (\<lambda>(i, T).
                 validateValue rx d T (path @ ''/oneOf/'' @ show_nat i) = []) (indexed Ts))
           in push_if (matchCount \<noteq> 1) (path @ ''/oneOf'') (OneOfFailed matchCount))) @
     (case js_not S of
        None \<Rightarrow> []
      | Some T \<Rightarrow> push_if (validateValue rx d T (path @ ''/not'') = []) (path @ ''/not'') NotFailed)"

lemma validateValue_Nil:
  assumes p: "plain_keywords (js_keywords S)"
  shows "validateValue rx (Own v) S path = [] \<longleftrightarrow>
    type_ok v (js_keywords S) \<and> own_errors rx (Own v) (js_keywords S) path = [] \<and>
    nested_errors rx v S path = [] \<and> combined_errors rx (Own v) S path = []"
proof (cases "type_ok v (js_keywords S)")
  case False
  then show ?thesis
    using p by (simp add: validateValue.simps [of rx "Own v" S] plain_keywords_def type_errors_Nil Let_def)
next
  case True
  have single: "\<forall>ts. kw_type (js_keywords S) \<noteq> Some (TypeList ts)" and r: "or_default (kw_ref (js_keywords S)) [] = []"
    using p by (auto simp: plain_keywords_def)
  have nst: "\<not> stops (Own v) (js_keywords S)" and te: "type_errors (Own v) (js_keywords S) path = []"
    using stops_not_ok [of v "js_keywords S" path] True by (auto simp: type_errors_Nil)
  note a = applies_group [OF True single]
  show ?thesis
    unfolding validateValue.simps [of rx "Own v" S path] Let_def combined_errors_def
    using a nst te True r
    by (cases v; hypsubst)
      (simp_all add: own_errors_def nested_errors_def is_record_def
        validateStringConstraints_def validateNumberConstraints_def conj_ac)
qed

lemma nested_errors_Nil:
  assumes p: "plain_schema S"
    and IH: "\<And>T w path. T \<in> set (inner_schemas S) \<Longrightarrow> validateValue rx (Own w) T path = [] \<longleftrightarrow> conforms rx w T"
  shows "nested_errors rx v S path = [] \<longleftrightarrow>
    (case v of
        JArr vs \<Rightarrow>
          (case js_itemList S of
             Some Ts \<Rightarrow> list_all (\<lambda>(w, T). conforms rx w T) (zip vs Ts)
           | None \<Rightarrow> (case js_items S of None \<Rightarrow> True | Some T \<Rightarrow> list_all (\<lambda>w. conforms rx w T) vs))
      | JObj es \<Rightarrow>
          (case js_properties S of
             None \<Rightarrow> True
           | Some ps \<Rightarrow> list_all (\<lambda>(k, T). case map_of es k of None \<Rightarrow> True | Some w \<Rightarrow> conforms rx w T) ps)
      | _ \<Rightarrow> True)"
proof (cases v)
  case (JArr vs)
  show ?thesis
  proof (cases "js_itemList S")
    case None
    show ?thesis
      by (cases "js_items S")
        (simp_all add: nested_errors_def JArr None no_errors_indexed IH inner_schemas_mem
          del: concat_eq_Nil_conv)
  next
    case (Some Ts)
    have "concat (map (\<lambda>(i, w, T). validateValue rx (Own w) T (path @ ''['' @ show_nat i @ '']''))
        (indexed (zip vs Ts))) = [] \<longleftrightarrow> list_all (\<lambda>(w, T). conforms rx w T) (zip vs Ts)"
      by (rule no_errors_indexed) (auto dest!: set_zip_rightD simp: inner_schemas_mem(3) [OF Some] IH)
    then show ?thesis by (simp add: nested_errors_def JArr Some)
  qed
next
  case (JObj es)
  show ?thesis
  proof (cases "js_properties S")
    case (Some ps)
    have own: "find_property (Own (JObj es)) k = map_option Own (map_of es k)" if "(k, T) \<in> set ps" for k T
      using p that by (intro find_own) (auto simp: plain_schema.simps [of S] Some list_all_iff)
    have in_S: "T \<in> set (inner_schemas S)" if "(k, T) \<in> set ps" for k T
      using inner_schemas_mem(1) [OF Some that] .
    show ?thesis
      using own in_S IH
      by (fastforce simp: nested_errors_def JObj Some list_all_iff simp del: find_property.simps split: option.splits)
  qed (simp add: nested_errors_def JObj)
qed (simp_all add: nested_errors_def)

lemma combined_errors_Nil:
  assumes IH: "\<And>T path. T \<in> set (inner_schemas S) \<Longrightarrow> validateValue rx (Own v) T path = [] \<longleftrightarrow> conforms rx v T"
  shows "combined_errors rx (Own v) S path = [] \<longleftrightarrow>
     (case js_allOf S of None \<Rightarrow> True | Some Ts \<Rightarrow> list_all (conforms rx v) Ts) \<and>
     (case js_anyOf S of None \<Rightarrow> True | Some Ts \<Rightarrow> list_ex (conforms rx v) Ts) \<and>
     (case js_oneOf S of None \<Rightarrow> True | Some Ts \<Rightarrow> length (filter (conforms rx v) Ts) = 1) \<and>
     (case js_not S of None \<Rightarrow> True | Some T \<Rightarrow> \<not> conforms rx v T)"
proof -
  have "(case js_allOf S of None \<Rightarrow> []
      | Some Ts \<Rightarrow> concat (map (\<lambda>(i, T). validateValue rx (Own v) T (path @ ''/allOf/'' @ show_nat i)) (indexed Ts))) = []
    \<longleftrightarrow> (case js_allOf S of None \<Rightarrow> True | Some Ts \<Rightarrow> list_all (conforms rx v) Ts)"
    by (cases "js_allOf S") (simp_all add: no_errors_indexed IH inner_schemas_mem del: concat_eq_Nil_conv)
  moreover have "list_ex (\<lambda>(i, T). validateValue rx (Own v) T (path @ ''/anyOf/'' @ show_nat i) = []) (indexed Ts)
      = list_ex (conforms rx v) Ts" if "js_anyOf S = Some Ts" for Ts
    using that by (auto simp: inner_schemas_mem IH intro!: some_match_indexed)
  moreover have "length (filter (\<lambda>(i, T). validateValue rx (Own v) T (path @ ''/oneOf/'' @ show_nat i) = []) (indexed Ts))
      = length (filter (conforms rx v) Ts)" if "js_oneOf S = Some Ts" for Ts
    using that by (auto simp: inner_schemas_mem IH intro!: count_indexed)
  moreover have "validateValue rx (Own v) T (path @ ''/not'') = [] \<longleftrightarrow> conforms rx v T" if "js_not S = Some T" for T
    using that by (simp add: inner_schemas_mem IH)
  ultimately show ?thesis
    by (simp add: combined_errors_def Let_def split: option.splits)
qed


definition no_keywords :: schema_keywords where
  "no_keywords =
     \<lparr>kw_ref = None, kw_type = None, kw_enum = None, kw_const = None, kw_required = None, kw_minimum = None,
      kw_maximum = None, kw_minLength = None, kw_maxLength = None, kw_pattern = None, kw_minItems = None,
      kw_maxItems = None, kw_uniqueItems = False\<rparr>"

definition only_keywords :: "schema_keywords \<Rightarrow> sv_schema" where
  "only_keywords kw = JSONSchema kw None None None None None None None"

text \<open>A person with a name of at least two letters and an age that is an integer or the word unknown.\<close>

definition name_schema :: sv_schema where
  "name_schema = only_keywords (no_keywords\<lparr>kw_type := Some (OneType TString), kw_minLength := Some 2\<rparr>)"

definition age_schema :: sv_schema where
  "age_schema = JSONSchema no_keywords None None None None None
     (Some [only_keywords (no_keywords\<lparr>kw_type := Some (OneType TInteger), kw_minimum := Some 0\<rparr>),
            only_keywords (no_keywords\<lparr>kw_const := Some (JStr ''unknown'')\<rparr>)]) None"

definition person_schema :: sv_schema where
  "person_schema = JSONSchema
     (no_keywords\<lparr>kw_type := Some (OneType TObject), kw_required := Some [''name'']\<rparr>)
     (Some [(''name'', name_schema), (''age'', age_schema)]) None None None None None None"

lemmas person_defs = no_keywords_def only_keywords_def name_schema_def age_schema_def person_schema_def

lemmas schema_eval = plain_schema.simps conforms.simps inner_schemas_def plain_keywords_def type_ok_def
  has_type_def keywords_ok_def object_prototype_keys_def person_defs

lemma person_plain: "plain_schema person_schema"
  by (simp add: schema_eval)


subsection \<open>Where the code departs from the standard\<close>

text \<open>The schema without the constraints on strings, numbers, arrays and objects.\<close>

definition without_constraints :: "sv_schema \<Rightarrow> sv_schema" where
  "without_constraints S =
     JSONSchema
       ((js_keywords S)\<lparr>kw_required := None, kw_minimum := None, kw_maximum := None, kw_minLength := None,
          kw_maxLength := None, kw_pattern := None, kw_minItems := None, kw_maxItems := None,
          kw_uniqueItems := False\<rparr>)
       None None None (js_allOf S) (js_anyOf S) (js_oneOf S) (js_not S)"

lemma type_list_skips:
  assumes "kw_type (js_keywords S) = Some (TypeList ts)"
  shows "validateValue rx d S path = validateValue rx d (without_constraints S) path"
  unfolding validateValue.simps [of rx d S path] validateValue.simps [of rx d "without_constraints S" path]
  using assms
  by (simp add: Let_def without_constraints_def applies_def stops_def type_errors_def enum_errors_def const_errors_def)

text \<open>Two holes of the schema validator. When \<open>type\<close> is a list of types, the constraints on
  strings, numbers, arrays and objects are never looked at: the result is that of the schema with
  minLength, pattern, minimum, required, properties, items and their like taken out. And a required
  property is looked up with \<open>in\<close>, so that the names every object inherits, such as constructor or
  toString, are never reported missing.\<close>

theorem validator_skips_constraints:
  assumes "kw_type (js_keywords S) = Some (TypeList ts)"
    and "kw_type kw = Some (OneType TObject)" "kw_required kw = Some ks" "set ks \<subseteq> set object_prototype_keys"
    and "or_default (kw_ref kw) [] = []" "kw_enum kw = None" "kw_const kw = None"
  shows "validateValue rx d S path = validateValue rx d (without_constraints S) path \<and>
    validateValue rx (Own (JObj es)) (only_keywords kw) path = []"
proof
  show "validateValue rx d S path = validateValue rx d (without_constraints S) path"
    by (rule type_list_skips [OF assms(1)])
  have "find_property (Own (JObj es)) k \<noteq> None" if "k \<in> set ks" for k
    using assms(4) that by (auto split: option.splits)
  then have "required_errors (Own (JObj es)) kw path = []"
    using assms(3) by (simp add: required_errors_def del: find_property.simps)
  then show "validateValue rx (Own (JObj es)) (only_keywords kw) path = []"
    using assms(2,5-7)
    by (simp add: validateValue.simps only_keywords_def stops_def applies_def type_errors_def enum_errors_def
      const_errors_def)
qed

lemma validator_skips_constraints_witness:
  "validateValue (\<lambda>p s. True) (Own (JStr [])) (only_keywords (no_keywords\<lparr>kw_type := Some (TypeList [TString, TNull]),
       kw_minLength := Some 2\<rparr>)) [] = [] \<and>
   validateValue (\<lambda>p s. True) (Own (JObj [])) (only_keywords (no_keywords\<lparr>kw_type := Some (OneType TObject),
       kw_required := Some [''constructor'']\<rparr>)) [] = []"
  using validator_skips_constraints [of "only_keywords (no_keywords\<lparr>kw_type := Some (TypeList [TString, TNull]),
       kw_minLength := Some 2\<rparr>)" "[TString, TNull]"
    "no_keywords\<lparr>kw_type := Some (OneType TObject), kw_required := Some [''constructor'']\<rparr>" "[''constructor'']"
    "\<lambda>p s. True" "Own (JStr [])" "[]" "[]"]
  by (simp add: person_defs object_prototype_keys_def without_constraints_def validateValue.simps stops_def
    type_errors_def enum_errors_def const_errors_def applies_def)

end
