(* ===== verification/ApiAuth.thy ===== *)
theory ApiAuth
  imports Jwt DidAuth
begin

section \<open>The authentication middleware of the API\<close>

text \<open>
  packages/api/src/middleware/auth.ts. A request is its path and its Authorization header; the
  answer is to go on (\<open>Next\<close>, with the user it attached) or a problem document. The resolver and the
  validator of API keys are parameters, HMAC is the one of \<open>jwt_crypto\<close>. The claims of a token are
  JSON values of any kind, and so are the id and the permissions of the user made from them.
\<close>

datatype auth_method = MDid | MApiKey | MJwt

record auth_user =
  us_id :: js_value
  us_method :: auth_method
  us_did :: "string option"
  us_permissions :: js_value

record auth_config =
  am_jwtSecret :: "string option"
  am_apiKeyValidator :: "(string \<Rightarrow> (string \<times> string list) option result) option"
  am_skipPaths :: "string list option"

record auth_request =
  aq_path :: string
  aq_authorization :: "string option"

datatype auth_reply =
    Next "auth_user option"
  | Problem int string string \<comment> \<open>status, title and detail\<close>

definition DEFAULT_SKIP :: "string list" where
  "DEFAULT_SKIP = [''/health'', ''/ready'', ''/api/v1/did/resolve'']"

definition extractBearerToken :: "auth_request \<Rightarrow> string option" where
  "extractBearerToken req =
     (case aq_authorization req of
        None \<Rightarrow> None
      | Some header \<Rightarrow>
          if header = [] then None
          else case split_on (CHR '' '') header of
                 scheme # token # _ \<Rightarrow> if to_lower scheme \<noteq> ''bearer'' \<or> token = [] then None else Some token
               | _ \<Rightarrow> None)"

subsection \<open>The three kinds of token\<close>

definition verifyDIDAuth :: "(string \<Rightarrow> did_document result) \<Rightarrow> string \<Rightarrow> auth_user option" where
  "verifyDIDAuth resolve token =
     (case split_on (CHR '':'') token of
        [] \<Rightarrow> None
      | did # rest \<Rightarrow>
          if \<not> starts_with did ''did:'' then None
          else case resolve did of
                 Inl e \<Rightarrow> None
               | Inr doc \<Rightarrow>
                   (let challenge = join_with '':'' rest
                    in if challenge = [] then None
                       else Some \<lparr>us_id = VString (units did), us_method = MDid, us_did = Some did,
                              us_permissions = VArray (map (\<lambda>_. VString (units ''authenticate'')) (dd_verificationMethod doc))\<rparr>))"

definition is_nullish :: "js_value \<Rightarrow> bool" where
  "is_nullish v \<longleftrightarrow> v = VUndefined \<or> v = VNull"

definition coalesce :: "js_value \<Rightarrow> js_value \<Rightarrow> js_value" where
  "coalesce v d = (if is_nullish v then d else v)"

text \<open>\<open>header.alg?.startsWith('HS')\<close>: both outcomes give sha256; it throws unless alg is a text or missing.\<close>

definition read_alg :: "js_value \<Rightarrow> unit codec" where
  "read_alg header =
     and_then (read_claim ''alg'' header) (\<lambda>alg.
       (case alg of
          VString s \<Rightarrow> Inr ()
        | v \<Rightarrow> if is_nullish v then Inr () else Inl (Throws (JsTypeError ''header.alg?.startsWith is not a function''))))"

definition unexpired :: "js_value \<Rightarrow> int \<Rightarrow> bool codec" where
  "unexpired payload nowMs =
     and_then (read_claim ''exp'' payload) (\<lambda>v. and_then (time_claim v) (\<lambda>e.
       Inr (case e of None \<Rightarrow> True | Some x \<Rightarrow> \<not> nowMs \<ge> x * 1000)))"

definition jwt_user :: "js_value \<Rightarrow> auth_user codec" where
  "jwt_user payload =
     and_then (read_claim ''sub'' payload) (\<lambda>s. and_then (read_claim ''iss'' payload) (\<lambda>i.
     and_then (read_claim ''permissions'' payload) (\<lambda>p.
       Inr \<lparr>us_id = coalesce s (coalesce i (VString (units ''unknown''))), us_method = MJwt, us_did = None,
            us_permissions = coalesce p (VArray [])\<rparr>)))"

definition verifyJWT_api :: "jwt_crypto \<Rightarrow> string \<Rightarrow> string option \<Rightarrow> int \<Rightarrow> auth_user option codec" where
  "verifyJWT_api C token secret nowMs =
     (if or_default secret [] = [] then Inr None
      else catch_null
        (case split_on (CHR ''.'') token of
           [h, b, s] \<Rightarrow>
             and_then (parse_part b) (\<lambda>payload. and_then (parse_part h) (\<lambda>header. and_then (read_alg header) (\<lambda>_.
             and_then (lift_result (timingSafeEqual (from_base64url s)
                 (jc_hmac C (or_default secret []) (utf8 (h @ ''.'' @ b))))) (\<lambda>same.
               if \<not> same then Inr None
               else and_then (unexpired payload nowMs) (\<lambda>live.
                 if \<not> live then Inr None
                 else and_then (jwt_user payload) (\<lambda>u. Inr (Some u)))))))
         | _ \<Rightarrow> Inr None))"

subsection \<open>The middleware\<close>

definition skips :: "auth_config \<Rightarrow> string \<Rightarrow> bool" where
  "skips config path = list_ex (starts_with path) (DEFAULT_SKIP @ or_default (am_skipPaths config) [])"

definition find_user ::
    "jwt_crypto \<Rightarrow> (string \<Rightarrow> did_document result) \<Rightarrow> auth_config \<Rightarrow> string \<Rightarrow> int \<Rightarrow> auth_user option codec" where
  "find_user C resolve config token nowMs =
     (if starts_with token ''did:'' then Inr (verifyDIDAuth resolve token)
      else case am_apiKeyValidator config of
             Some validate \<Rightarrow>
               if length token \<le> 128 then
                 (case validate token of
                    Inl e \<Rightarrow> Inl (Throws e)
                  | Inr None \<Rightarrow> Inr None
                  | Inr (Some (i, ps)) \<Rightarrow>
                      Inr (Some \<lparr>us_id = VString (units i), us_method = MApiKey, us_did = None,
                             us_permissions = VArray (map (\<lambda>p. VString (units p)) ps)\<rparr>))
               else verifyJWT_api C token (am_jwtSecret config) nowMs
           | None \<Rightarrow> verifyJWT_api C token (am_jwtSecret config) nowMs)"

definition authMiddleware ::
    "jwt_crypto \<Rightarrow> (string \<Rightarrow> did_document result) \<Rightarrow> auth_config \<Rightarrow> auth_request \<Rightarrow> int \<Rightarrow> auth_reply codec" where
  "authMiddleware C resolve config req nowMs =
     (if skips config (aq_path req) then Inr (Next None)
      else case extractBearerToken req of
             None \<Rightarrow> Inr (Problem 401 ''Unauthorized'' ''Missing or malformed Authorization header'')
           | Some token \<Rightarrow>
               and_then (find_user C resolve config token nowMs) (\<lambda>user.
                 Inr (case user of
                        None \<Rightarrow> Problem 401 ''Unauthorized'' ''Invalid or expired credentials''
                      | Some u \<Rightarrow> Next (Some u))))"

text \<open>\<open>user.permissions.includes(p)\<close>: membership in an array, but a search for a substring in a text.\<close>

definition permissions_include :: "js_value \<Rightarrow> string \<Rightarrow> bool result" where
  "permissions_include ps p =
     (case ps of
        VArray vs \<Rightarrow> Inr (VString (units p) \<in> set vs)
      | VString s \<Rightarrow> Inr (str_includes s (units p))
      | _ \<Rightarrow> Inl (JsTypeError ''user.permissions.includes is not a function''))"

fun every_included :: "js_value \<Rightarrow> string list \<Rightarrow> bool result" where
  "every_included ps [] = Inr True"
| "every_included ps (p # rest) =
     (case permissions_include ps p of
        Inl e \<Rightarrow> Inl e
      | Inr b \<Rightarrow> if b then every_included ps rest else Inr False)"

definition requirePermission :: "string list \<Rightarrow> auth_user option \<Rightarrow> auth_reply result" where
  "requirePermission permissions user =
     (case user of
        None \<Rightarrow> Inr (Problem 401 ''Unauthorized'' ''Authentication required'')
      | Some u \<Rightarrow>
          (case every_included (us_permissions u) permissions of
             Inl e \<Rightarrow> Inl e
           | Inr hasAll \<Rightarrow>
               Inr (if \<not> hasAll
                    then Problem 403 ''Forbidden'' (''Missing required permissions: '' @ join_with '', '' permissions)
                    else Next (Some u))))"

subsection \<open>Who gets through\<close>

lemma and_then_Inr_iff: "and_then r f = Inr y \<longleftrightarrow> (\<exists>x. r = Inr x \<and> f x = Inr y)"
  by (cases r) auto

lemma same_mac: "lift_result (timingSafeEqual a b) = Inr True \<longleftrightarrow> a = b"
  by (auto simp: lift_result_def timingSafeEqual_def)

text \<open>What an accepted token of the JWT branch proves.\<close>

definition signed_claims :: "jwt_crypto \<Rightarrow> string \<Rightarrow> string \<Rightarrow> int \<Rightarrow> js_value \<Rightarrow> bool" where
  "signed_claims C secret token nowMs payload \<longleftrightarrow>
     (\<exists>h b s header. split_on (CHR ''.'') token = [h, b, s] \<and> parse_part h = Inr header \<and> parse_part b = Inr payload
       \<and> read_alg header = Inr () \<and> from_base64url s = jc_hmac C secret (utf8 (h @ ''.'' @ b))
       \<and> unexpired payload nowMs = Inr True)"

lemma guarded: "(if \<not> b then Inr None else r) = Inr (Some u) \<longleftrightarrow> b \<and> r = Inr (Some u)"
  by simp

lemma verifyJWT_api_Some:
  "verifyJWT_api C token secret nowMs = Inr (Some u) \<longleftrightarrow>
     (\<exists>sec payload. secret = Some sec \<and> sec \<noteq> [] \<and> signed_claims C sec token nowMs payload \<and> jwt_user payload = Inr u)"
proof (cases "or_default secret [] = []")
  case True
  then show ?thesis by (auto simp: verifyJWT_api_def)
next
  case False
  then obtain sec where sec: "secret = Some sec" "sec \<noteq> []" by (cases secret) auto
  show ?thesis
  proof (cases "\<exists>h b s. split_on (CHR ''.'') token = [h, b, s]")
    case True
    then obtain h b s where parts: "split_on (CHR ''.'') token = [h, b, s]" by blast
    have "verifyJWT_api C token secret nowMs = Inr (Some u) \<longleftrightarrow>
        (\<exists>payload. parse_part b = Inr payload \<and> (\<exists>header. parse_part h = Inr header \<and> read_alg header = Inr () \<and>
          from_base64url s = jc_hmac C sec (utf8 (h @ ''.'' @ b)) \<and> unexpired payload nowMs = Inr True \<and>
          jwt_user payload = Inr u))"
    proof -
      have "verifyJWT_api C token secret nowMs = Inr (Some u) \<longleftrightarrow>
        (\<exists>payload. parse_part b = Inr payload \<and> (\<exists>header. parse_part h = Inr header \<and> (\<exists>x. read_alg header = Inr x \<and>
          (\<exists>same. lift_result (timingSafeEqual (from_base64url s) (jc_hmac C sec (utf8 (h @ ''.'' @ b)))) = Inr same \<and>
          same \<and> (\<exists>live. unexpired payload nowMs = Inr live \<and> live \<and> (\<exists>y. jwt_user payload = Inr y \<and> y = u))))))"
        by (simp only: verifyJWT_api_def sec parts list.case or_default_simps if_False catch_null_Some and_then_Inr_iff guarded
            sum.inject option.inject)
      also have "\<dots> \<longleftrightarrow> (\<exists>payload. parse_part b = Inr payload \<and> (\<exists>header. parse_part h = Inr header \<and> read_alg header = Inr () \<and>
          from_base64url s = jc_hmac C sec (utf8 (h @ ''.'' @ b)) \<and> unexpired payload nowMs = Inr True \<and>
          jwt_user payload = Inr u))"
        using same_mac [of "from_base64url s" "jc_hmac C sec (utf8 (h @ ''.'' @ b))"] by (auto; metis)
      finally show ?thesis .
    qed
    then show ?thesis by (simp add: signed_claims_def parts sec) blast
  next
    case False
    then have "verifyJWT_api C token secret nowMs \<noteq> Inr (Some u)"
      by (auto simp: verifyJWT_api_def sec catch_null_Some split: list.splits)
    with False show ?thesis by (auto simp: signed_claims_def)
  qed
qed

lemma bearer_lower: "to_lower ''Bearer'' = ''bearer''"
  by code_simp

lemma did_never: "verifyDIDAuth resolve token = None"
proof -
  obtain d ds where p: "split_on (CHR '':'') token = d # ds" by (cases "split_on (CHR '':'') token") auto
  have "CHR '':'' \<notin> set (hd (split_on (CHR '':'') token))" by (induction token) (auto split: list.splits)
  then have "\<not> starts_with d ''did:''" using p by (auto simp: starts_with_iff)
  then show ?thesis by (simp add: verifyDIDAuth_def p)
qed


text \<open>No token made by createDIDAuthToken is ever accepted: the middleware splits it at every colon, so
  that the part it takes for the DID is the word did; whatever the resolver knows and however the rest is
  configured, a request with such a token is answered with 401 unless its path is skipped.\<close>

theorem did_tokens_always_refused:
  assumes "starts_with did ''did:''" and "CHR '' '' \<notin> set (createDIDAuthToken did c)"
    and "aq_authorization req = Some (''Bearer '' @ createDIDAuthToken did c)"
  shows "authMiddleware C resolve config req nowMs =
    Inr (if skips config (aq_path req) then Next None
         else Problem 401 ''Unauthorized'' ''Invalid or expired credentials'')"
proof -
  have "split_on (CHR '' '') (''Bearer'' @ CHR '' '' # createDIDAuthToken did c) = [''Bearer'', createDIDAuthToken did c]"
    using assms(2) by (subst split_on_append) (simp_all add: split_on_notin)
  moreover have "createDIDAuthToken did c \<noteq> []" by (simp add: createDIDAuthToken_def)
  ultimately have "extractBearerToken req = Some (createDIDAuthToken did c)"
    using assms(3) bearer_lower by (simp add: extractBearerToken_def del: split_on.simps)
  moreover have "starts_with (createDIDAuthToken did c) ''did:''"
    using assms(1) by (auto simp: starts_with_iff createDIDAuthToken_def)
  ultimately show ?thesis by (simp add: authMiddleware_def find_user_def did_never)
qed

lemma did_tokens_always_refused_witness:
  "authMiddleware toy_crypto (\<lambda>d. Inl (JsError [])) \<lparr>am_jwtSecret = None, am_apiKeyValidator = None, am_skipPaths = None\<rparr>
     \<lparr>aq_path = ''/api/v1/kyc'', aq_authorization = Some ''Bearer did:key:z6Mk:abcd''\<rparr> 0 =
   Inr (Problem 401 ''Unauthorized'' ''Invalid or expired credentials'')"
  using did_tokens_always_refused [of "''did:key:z6Mk''" "''abcd''"
      "\<lparr>aq_path = ''/api/v1/kyc'', aq_authorization = Some ''Bearer did:key:z6Mk:abcd''\<rparr>" toy_crypto
      "\<lambda>d. Inl (JsError [])" "\<lparr>am_jwtSecret = None, am_apiKeyValidator = None, am_skipPaths = None\<rparr>" 0]
  by (simp add: createDIDAuthToken_def skips_def DEFAULT_SKIP_def)

subsection \<open>Tokens of the core library\<close>

lemma base64url_no_space: "CHR '' '' \<notin> set (to_base64url bs)"
proof -
  have "b64_value c \<noteq> None" if "c \<in> set (to_base64url bs)" for c
    using that by (auto simp: to_base64url_def dest!: sextet_less simp: b64_value_char(1))
  moreover have "b64_value (CHR '' '') = None" by code_simp
  ultimately show ?thesis by blast
qed

lemma token_shape:
  assumes "sk_type key = Hmac" "createJWT C payload key overrides = Inr token"
    and "json_able payload" "json_able (jwt_header key overrides)"
  obtains h b where "split_on (CHR ''.'') token = [h, b, to_base64url (jc_hmac C (sk_key key) (utf8 (h @ ''.'' @ b)))]"
    "parse_part h = Inr (json_image (jwt_header key overrides))" "parse_part b = Inr (json_image payload)"
    "CHR '' '' \<notin> set token" "CHR '':'' \<notin> set token" "token \<noteq> []"
proof -
  obtain h b where h: "json_base64url (jwt_header key overrides) = Inr h" and b: "json_base64url payload = Inr b"
    and token: "token = h @ ''.'' @ b @ ''.'' @ to_base64url (jc_hmac C (sk_key key) (utf8 (h @ ''.'' @ b)))"
    using assms(1,2) by (auto simp: createJWT_def and_then_Inr lift_result_def Let_def)
  note h' = json_base64url_parse [OF h assms(4)] and b' = json_base64url_parse [OF b assms(3)]
  have part: "CHR ''.'' \<notin> set (to_base64url x)" "CHR '':'' \<notin> set (to_base64url x)" for x
    using base64url_chars by blast+
  obtain x y where xy: "h = to_base64url x" "b = to_base64url y"
    using h b by (auto simp: json_base64url_def and_then_Inr split: option.splits)
  show thesis
  proof (rule that)
    show "split_on (CHR ''.'') token = [h, b, to_base64url (jc_hmac C (sk_key key) (utf8 (h @ ''.'' @ b)))]"
      using h'(2) b'(2) part unfolding token by (simp add: split_on_append split_on_notin)
  qed (use h' b' part base64url_no_space in \<open>auto simp: token xy\<close>)
qed

lemma header_alg:
  assumes "sk_type key = Hmac"
  shows "read_alg (json_image (jwt_header key [])) = Inr ()"
  using assms
  by (cases "sk_kid key")
    (simp_all add: read_alg_def read_claim_def lift_result_def jwt_header_def defined_entry_def)

text \<open>The API accepts the core's tokens: a token that createJWT made with an HMAC key is accepted by the
  middleware configured with the same secret exactly as long as it has not expired (to the millisecond),
  with the user its claims describe. Its start, issuer and audience are not looked at.\<close>

theorem core_tokens_pass_api:
  assumes "sk_type key = Hmac" "createJWT C payload key [] = Inr token"
    and "json_able payload" "json_able (jwt_header key [])"
    and "am_jwtSecret config = Some (sk_key key)" "sk_key key \<noteq> []" "am_apiKeyValidator config = None"
    and "\<not> skips config (aq_path req)" "aq_authorization req = Some (''Bearer '' @ token)"
    and "has_time (json_image payload) ''exp'' e" "jwt_user (json_image payload) = Inr u"
  shows "authMiddleware C resolve config req t =
    Inr (if (case e of None \<Rightarrow> True | Some x \<Rightarrow> t < x * 1000) then Next (Some u)
         else Problem 401 ''Unauthorized'' ''Invalid or expired credentials'')"
proof -
  obtain h b where parts: "split_on (CHR ''.'') token = [h, b, to_base64url (jc_hmac C (sk_key key) (utf8 (h @ ''.'' @ b)))]"
    and hb: "parse_part h = Inr (json_image (jwt_header key []))" "parse_part b = Inr (json_image payload)"
    and chars: "CHR '' '' \<notin> set token" "CHR '':'' \<notin> set token" "token \<noteq> []"
    by (rule token_shape [OF assms(1-4)])
  have "split_on (CHR '' '') (''Bearer'' @ CHR '' '' # token) = [''Bearer'', token]"
    using chars by (subst split_on_append) (simp_all add: split_on_notin)
  then have bearer: "extractBearerToken req = Some token"
    using assms(9) bearer_lower chars(3) by (simp add: extractBearerToken_def del: split_on.simps)
  have "\<not> starts_with token ''did:''" using chars(2) by (auto simp: starts_with_iff)
  then have find: "find_user C resolve config token t = verifyJWT_api C token (Some (sk_key key)) t"
    by (simp add: find_user_def assms(5,7))
  have mac: "lift_result (timingSafeEqual m m) = Inr True" for m by (simp add: same_mac)
  have live: "unexpired (json_image payload) t = Inr (case e of None \<Rightarrow> True | Some x \<Rightarrow> t < x * 1000)"
  proof -
    obtain v where "read_claim ''exp'' (json_image payload) = Inr v" "time_claim v = Inr e"
      using assms(10) by (rule has_timeD)
    then show ?thesis by (simp add: unexpired_def not_le split: option.split)
  qed
  have "verifyJWT_api C token (Some (sk_key key)) t =
      Inr (if (case e of None \<Rightarrow> True | Some x \<Rightarrow> t < x * 1000) then Some u else None)"
    by (simp add: verifyJWT_api_def parts hb header_alg [OF assms(1)] mac live assms(6,11) catch_null_def)
  with bearer find show ?thesis by (simp add: authMiddleware_def assms(8))
qed

definition api_sample_config :: auth_config where
  "api_sample_config = \<lparr>am_jwtSecret = Some ''secret'', am_apiKeyValidator = None, am_skipPaths = None\<rparr>"

lemma core_tokens_pass_api_witness:
  "\<exists>token u. createJWT toy_crypto sample_payload sample_key [] = Inr token \<and>
     authMiddleware toy_crypto (\<lambda>d. Inl (JsError [])) api_sample_config
       \<lparr>aq_path = ''/api/v1/kyc'', aq_authorization = Some (''Bearer '' @ token)\<rparr> 1700000000000 = Inr (Next (Some u)) \<and>
     us_id u = VString (units ''vault'')"
proof -
  obtain token where token: "createJWT toy_crypto sample_payload sample_key [] = Inr token"
    using sample_token by blast
  have t: "has_time sample_payload ''exp'' (Some 2000000000)"
    by (simp add: has_time_def read_claim_def lift_result_def time_claim_def sample_payload_def units_eq_iff)
  have u: "jwt_user sample_payload = Inr \<lparr>us_id = VString (units ''vault''), us_method = MJwt, us_did = None,
      us_permissions = VArray []\<rparr>"
    by (simp add: jwt_user_def read_claim_def lift_result_def sample_payload_def units_eq_iff coalesce_def is_nullish_def)
  have p: "\<not> skips api_sample_config ''/api/v1/kyc''"
    by (simp add: skips_def DEFAULT_SKIP_def api_sample_config_def)
  show ?thesis
    using core_tokens_pass_api [of sample_key toy_crypto sample_payload token api_sample_config
        "\<lparr>aq_path = ''/api/v1/kyc'', aq_authorization = Some (''Bearer '' @ token)\<rparr>" "Some 2000000000"
        "\<lparr>us_id = VString (units ''vault''), us_method = MJwt, us_did = None, us_permissions = VArray []\<rparr>"
        "\<lambda>d. Inl (JsError [])" 1700000000000] token t u p sample_able
    by (simp add: sample_key_def api_sample_config_def)
qed

subsection \<open>Permissions\<close>

lemma every_included_array:
  "every_included (VArray vs) ps = Inr (\<forall>p \<in> set ps. VString (units p) \<in> set vs)"
  by (induction ps) (auto simp: permissions_include_def)

text \<open>requirePermission lets a request pass exactly when a user is attached whose permissions contain all
  the required ones: as members if they are an array; if the claim was a text, any part of that text
  counts as a permission.\<close>

theorem required_permissions_checked:
  "(requirePermission required None = Inr (Problem 401 ''Unauthorized'' ''Authentication required'')) \<and>
   (requirePermission required (Some (u\<lparr>us_permissions := VArray vs\<rparr>)) = Inr (Next v) \<longleftrightarrow>
      v = Some (u\<lparr>us_permissions := VArray vs\<rparr>) \<and> (VString \<circ> units) ` set required \<subseteq> set vs) \<and>
   (requirePermission [p] (Some (u\<lparr>us_permissions := VString s\<rparr>)) = Inr (Next v) \<longleftrightarrow>
      v = Some (u\<lparr>us_permissions := VString s\<rparr>) \<and> (\<exists>a b. s = a @ units p @ b))"
proof (intro conjI)
  show "requirePermission required None = Inr (Problem 401 ''Unauthorized'' ''Authentication required'')"
    by (simp add: requirePermission_def)
  show "requirePermission required (Some (u\<lparr>us_permissions := VArray vs\<rparr>)) = Inr (Next v) \<longleftrightarrow>
      v = Some (u\<lparr>us_permissions := VArray vs\<rparr>) \<and> (VString \<circ> units) ` set required \<subseteq> set vs"
    by (auto simp: requirePermission_def every_included_array)
  show "requirePermission [p] (Some (u\<lparr>us_permissions := VString s\<rparr>)) = Inr (Next v) \<longleftrightarrow>
      v = Some (u\<lparr>us_permissions := VString s\<rparr>) \<and> (\<exists>a b. s = a @ units p @ b)"
    by (auto simp: requirePermission_def permissions_include_def str_includes_iff)
qed

end
