(* ===== verification/ResponseCache.thy ===== *)
theory ResponseCache
  imports BaseText
begin

section \<open>The response cache of the API\<close>

text \<open>
  packages/api/src/middleware/cache.ts. The middleware has two halves: what it does when a request
  arrives (\<open>cache_request\<close>), and, when the answer was not in the cache, what the replaced send and json
  do when the handler answers (\<open>cache_store\<close>). Between them, and at any time, other requests, the
  pruning timer and invalidateCache_responses can happen. SHA-256 is a parameter; header names are given in
  lower case, as node does; ordinary header values are single texts.
\<close>

record cache_config =
  cc_ttlSeconds :: "int option"
  cc_cacheMethods :: "string list option"
  cc_varyByHeaders :: "string list option"
  cc_excludePaths :: "string list option"
  cc_maxEntries :: "int option"

record http_request =
  hq_method :: string
  hq_url :: string
  hq_path :: string
  hq_headers :: "string \<Rightarrow> string option"

record response_entry =
  rp_body :: string
  rp_statusCode :: int
  rp_headers :: "(string \<times> string) list"
  rp_etag :: string
  rp_createdAt :: int
  rp_ttlMs :: int

type_synonym response_cache = "(string, response_entry) jsmap"

definition ttlMs :: "cache_config \<Rightarrow> int" where
  "ttlMs config = or_default (cc_ttlSeconds config) 60 * 1000"

definition maxEntries :: "cache_config \<Rightarrow> int" where
  "maxEntries config = or_default (cc_maxEntries config) 500"

definition generateETag :: "(bytes \<Rightarrow> bytes) \<Rightarrow> string \<Rightarrow> string" where
  "generateETag sha256 body = [CHR 0x22] @ take 27 (to_base64url (sha256 (utf8 body))) @ [CHR 0x22]"

definition header_value :: "http_request \<Rightarrow> string \<Rightarrow> string" where
  "header_value req name = or_default (hq_headers req name) []"

definition makeCacheKey :: "http_request \<Rightarrow> cache_config \<Rightarrow> string" where
  "makeCacheKey req config =
     join_with ''|''
       ((hq_method req @ '':'' @ hq_url req) #
        concat (map (\<lambda>header.
            (let val = header_value req (to_lower header) in if val \<noteq> [] then [header @ ''='' @ val] else []))
          (or_default (cc_varyByHeaders config) [''Accept''])))"

definition isCacheable :: "http_request \<Rightarrow> cache_config \<Rightarrow> bool" where
  "isCacheable req config =
     (if list_ex (starts_with (hq_path req)) (or_default (cc_excludePaths config) []) then False
      else if hq_method req \<notin> set (or_default (cc_cacheMethods config) [''GET'', ''HEAD'']) then False
      else if header_value req ''authorization'' \<noteq> [] \<and> header_value req ''vary'' = [] then False
      else True)"

definition shouldBypassCache :: "http_request \<Rightarrow> bool" where
  "shouldBypassCache req =
     (let cc = header_value req ''cache-control''
      in if cc = [] then False
         else str_includes cc ''no-cache'' \<or> str_includes cc ''no-store'' \<or> str_includes cc ''max-age=0'')"

definition setCacheHeaders :: "response_entry \<Rightarrow> cache_config \<Rightarrow> (string \<times> string) list" where
  "setCacheHeaders entry config =
     [(''ETag'', rp_etag entry),
      (''Cache-Control'', ''public, max-age='' @ show_int (or_default (cc_ttlSeconds config) 60)),
      (''Vary'', join_with '', '' (or_default (cc_varyByHeaders config) [''Accept'']))]"

text \<open>\<open>entries.sort((a, b) => a[1].createdAt - b[1].createdAt)\<close> is stable; the oldest are deleted.\<close>

definition evictIfNeeded :: "cache_config \<Rightarrow> response_cache \<Rightarrow> response_cache" where
  "evictIfNeeded config m =
     (if int (length m) \<le> maxEntries config then m
      else
        (let entries = sort_key (\<lambda>(k, e). rp_createdAt e) m;
             toDelete = take (nat (int (length entries) - maxEntries config)) entries
         in foldl (\<lambda>m' (k, e). jm_del k m') m toDelete))"

text \<open>Deleting from a Map while iterating over it visits every key once.\<close>

definition pruneExpired :: "int \<Rightarrow> response_cache \<Rightarrow> response_cache" where
  "pruneExpired now m = filter (\<lambda>(k, e). \<not> now - rp_createdAt e > rp_ttlMs e) m"

definition invalidateCache_responses :: "string option \<Rightarrow> response_cache \<Rightarrow> response_cache" where
  "invalidateCache_responses pattern m =
     (if or_default pattern [] = [] then jm_empty
      else filter (\<lambda>(k, e). \<not> str_includes k (or_default pattern [])) m)"

datatype cache_reply =
    PassThrough \<comment> \<open>next(), with send and json as they were\<close>
  | NotModified \<comment> \<open>304\<close>
  | Served int "(string \<times> string) list" string \<comment> \<open>status, headers set in this order, body\<close>
  | Miss string \<comment> \<open>next(), with send and json replaced, for this key\<close>

definition cache_request :: "cache_config \<Rightarrow> int \<Rightarrow> http_request \<Rightarrow> response_cache \<Rightarrow> cache_reply \<times> response_cache" where
  "cache_request config now req m =
     (if \<not> isCacheable req config then (PassThrough, m)
      else
        (let cacheKey = makeCacheKey req config
         in case jm_get m cacheKey of
              None \<Rightarrow> (Miss cacheKey, m)
            | Some cached \<Rightarrow>
                if shouldBypassCache req then (Miss cacheKey, m)
                else if now - rp_createdAt cached > rp_ttlMs cached then (Miss cacheKey, jm_del cacheKey m)
                else if hq_headers req ''if-none-match'' = Some (rp_etag cached) then (NotModified, m)
                else (Served (rp_statusCode cached) (rp_headers cached @ setCacheHeaders cached config) (rp_body cached), m)))"

text \<open>What the handler answers with: send with a text or a Buffer (its UTF-8 text), send with anything
  else, or json (the text JSON.stringify gives).\<close>

datatype answer = SendText string | SendOther | SendJson string

definition cache_store ::
    "(bytes \<Rightarrow> bytes) \<Rightarrow> cache_config \<Rightarrow> int \<Rightarrow> string \<Rightarrow> int \<Rightarrow> (string \<times> string) list \<Rightarrow> answer \<Rightarrow> response_cache
      \<Rightarrow> response_cache" where
  "cache_store sha256 config now cacheKey status headers ans m =
     (case ans of
        SendOther \<Rightarrow> m
      | SendText body \<Rightarrow>
          evictIfNeeded config (jm_set cacheKey
            \<lparr>rp_body = body, rp_statusCode = status, rp_headers = headers, rp_etag = generateETag sha256 body,
             rp_createdAt = now, rp_ttlMs = ttlMs config\<rparr> m)
      | SendJson body \<Rightarrow>
          evictIfNeeded config (jm_set cacheKey
            \<lparr>rp_body = body, rp_statusCode = status,
             rp_headers = jm_set ''Content-Type'' ''application/json'' headers, rp_etag = generateETag sha256 body,
             rp_createdAt = now, rp_ttlMs = ttlMs config\<rparr> m))"

subsection \<open>Eviction\<close>

lemma delete_pairs:
  "foldl (\<lambda>m' (k, e). jm_del k m') m ds = filter (\<lambda>(k, e). k \<notin> fst ` set ds) m"
proof (induction ds arbitrary: m)
  case (Cons d ds)
  then show ?case
    by (cases d) (auto simp: jm_del_def AList.delete_eq intro!: filter_cong)
qed (simp add: case_prod_unfold)

lemma filter_fst:
  assumes "set m = A \<union> B" "fst ` A \<inter> fst ` B = {}"
  shows "set (filter (\<lambda>(k, e). k \<notin> fst ` A) m) = B"
proof -
  have "fst x \<notin> fst ` A \<longleftrightarrow> x \<in> B" if "x \<in> A \<union> B" for x
    using assms(2) that by (cases "x \<in> B") blast+
  then show ?thesis using assms(1) by (auto simp: case_prod_unfold)
qed

text \<open>Splitting a Map by a stable sort at some place: the keys on the two sides.\<close>

lemma evict_eq:
  assumes "jm_ok m" "maxEntries config < int (length m)"
  defines "entries \<equiv> sort_key (\<lambda>(k, e). rp_createdAt e) m"
    and "n \<equiv> nat (int (length m) - maxEntries config)"
  shows "set (evictIfNeeded config m) = set (drop n entries)"
    and "length (evictIfNeeded config m) = length (drop n entries)"
proof -
  have d: "distinct (map fst entries)"
    using assms(1) by (simp add: entries_def jm_ok_def distinct_map inj_on_def)
  have dropped: "evictIfNeeded config m = filter (\<lambda>(k, e). k \<notin> fst ` set (take n entries)) m"
    using assms(2) by (simp add: evictIfNeeded_def delete_pairs entries_def n_def Let_def)
  have "distinct (map fst (take n entries @ drop n entries))" using d by simp
  then have disj: "fst ` set (take n entries) \<inter> fst ` set (drop n entries) = {}"
    by (simp only: map_append distinct_append set_map)
  have "set m = set (take n entries) \<union> set (drop n entries)"
    by (metis append_take_drop_id entries_def set_append set_sort)
  then show s: "set (evictIfNeeded config m) = set (drop n entries)"
    unfolding dropped by (rule filter_fst [OF _ disj])
  have "distinct (evictIfNeeded config m)" "distinct (drop n entries)"
    using assms(1) d by (auto simp: dropped jm_ok_def distinct_map intro: distinct_drop)
  with s show "length (evictIfNeeded config m) = length (drop n entries)"
    by (metis distinct_card)
qed

lemma evict_ok: "jm_ok m \<Longrightarrow> jm_ok (evictIfNeeded config m)"
  by (simp add: evictIfNeeded_def delete_pairs jm_ok_def distinct_map_filter Let_def)

lemma evict_subset: "set (evictIfNeeded config m) \<subseteq> set m"
  by (auto simp: evictIfNeeded_def delete_pairs Let_def)

lemma evict_size:
  assumes "jm_ok m" "0 \<le> maxEntries config"
  shows "int (length (evictIfNeeded config m)) = min (int (length m)) (maxEntries config)"
proof (cases "int (length m) \<le> maxEntries config")
  case True
  then show ?thesis by (simp add: evictIfNeeded_def)
next
  case False
  then have "length (evictIfNeeded config m) = length m - nat (int (length m) - maxEntries config)"
    using evict_eq(2) [OF assms(1), of config] by simp
  with False assms(2) show ?thesis by simp
qed

lemma evict_oldest:
  assumes "jm_ok m" "(k, e) \<in> set m" "(k, e) \<notin> set (evictIfNeeded config m)" "(k', e') \<in> set (evictIfNeeded config m)"
  shows "rp_createdAt e \<le> rp_createdAt e'"
proof -
  have big: "maxEntries config < int (length m)"
    using assms(2,3) by (auto simp: evictIfNeeded_def split: if_splits)
  let ?es = "sort_key (\<lambda>(k, e). rp_createdAt e) m" and ?n = "nat (int (length m) - maxEntries config)"
  have "sorted (map (\<lambda>(k, e). rp_createdAt e) (take ?n ?es @ drop ?n ?es))" by (simp only: append_take_drop_id sorted_sort_key)
  then have "\<forall>x \<in> set (take ?n ?es). \<forall>y \<in> set (drop ?n ?es). (\<lambda>(k, e). rp_createdAt e) x \<le> (\<lambda>(k, e). rp_createdAt e) y"
    by (simp only: map_append sorted_append set_map) blast
  moreover have "set m = set (take ?n ?es) \<union> set (drop ?n ?es)"
    by (metis append_take_drop_id set_append set_sort)
  then have "(k, e) \<in> set (take ?n ?es)" "(k', e') \<in> set (drop ?n ?es)"
    using assms(2-4) by (auto simp: evict_eq(1) [OF assms(1) big])
  ultimately show ?thesis by fastforce
qed

subsection \<open>Runs\<close>

text \<open>What can happen to the cache, with the time it happens at. An answer comes from a request that
  was a miss: it carries that request.\<close>

datatype cache_event =
    Arrives http_request
  | Answers http_request int "(string \<times> string) list" answer
  | Prune
  | Invalidate "string option"

text \<open>Beside the cache a run keeps, per key, the last entry that was made for it.\<close>

type_synonym cache_run = "response_cache \<times> (string \<Rightarrow> response_entry option)"

definition entry_of ::
    "(bytes \<Rightarrow> bytes) \<Rightarrow> cache_config \<Rightarrow> int \<Rightarrow> int \<Rightarrow> (string \<times> string) list \<Rightarrow> answer \<Rightarrow> response_entry option" where
  "entry_of sha256 config now status headers ans =
     (case ans of
        SendOther \<Rightarrow> None
      | SendText body \<Rightarrow>
          Some \<lparr>rp_body = body, rp_statusCode = status, rp_headers = headers, rp_etag = generateETag sha256 body,
            rp_createdAt = now, rp_ttlMs = ttlMs config\<rparr>
      | SendJson body \<Rightarrow>
          Some \<lparr>rp_body = body, rp_statusCode = status,
            rp_headers = jm_set ''Content-Type'' ''application/json'' headers, rp_etag = generateETag sha256 body,
            rp_createdAt = now, rp_ttlMs = ttlMs config\<rparr>)"

lemma cache_store_entry:
  "cache_store sha256 config now k status headers ans m =
     (case entry_of sha256 config now status headers ans of
        None \<Rightarrow> m | Some e \<Rightarrow> evictIfNeeded config (jm_set k e m))"
  by (cases ans) (simp_all add: cache_store_def entry_of_def)

text \<open>The headers that storing an answer puts on the response itself.\<close>

definition sent_headers ::
    "(bytes \<Rightarrow> bytes) \<Rightarrow> cache_config \<Rightarrow> int \<Rightarrow> int \<Rightarrow> (string \<times> string) list \<Rightarrow> answer \<Rightarrow> (string \<times> string) list" where
  "sent_headers sha256 config now status headers ans =
     (case entry_of sha256 config now status headers ans of
        None \<Rightarrow> []
      | Some entry \<Rightarrow>
          setCacheHeaders entry config @
          (case ans of SendJson body \<Rightarrow> [(''Content-Type'', ''application/json'')] | _ \<Rightarrow> []))"

text \<open>A client that sends the ETag of an answer back finds it not modified while the answer is cached.\<close>

lemma sent_etag_revalidates:
  assumes "isCacheable req config" "\<not> shouldBypassCache req"
    and "jm_get m (makeCacheKey req config) = Some e" "entry_of sha256 config t status headers ans = Some e"
    and "now \<le> t + ttlMs config"
    and "hq_headers req ''if-none-match'' = map_of (sent_headers sha256 config t status headers ans) ''ETag''"
  shows "cache_request config now req m = (NotModified, m)"
proof -
  have "rp_createdAt e = t" "rp_ttlMs e = ttlMs config"
    using assms(4) by (auto simp: entry_of_def split: answer.splits)
  then show ?thesis
    using assms by (simp add: cache_request_def sent_headers_def setCacheHeaders_def Let_def)
qed

fun cache_step :: "(bytes \<Rightarrow> bytes) \<Rightarrow> cache_config \<Rightarrow> cache_event \<times> int \<Rightarrow> cache_run \<Rightarrow> cache_run" where
  "cache_step sha256 config (Arrives req, now) (m, latest) = (snd (cache_request config now req m), latest)"
| "cache_step sha256 config (Answers req status headers ans, now) (m, latest) =
     (let k = makeCacheKey req config
      in (cache_store sha256 config now k status headers ans m,
          case entry_of sha256 config now status headers ans of None \<Rightarrow> latest | Some e \<Rightarrow> latest(k := Some e)))"
| "cache_step sha256 config (Prune, now) (m, latest) = (pruneExpired now m, latest)"
| "cache_step sha256 config (Invalidate pattern, now) (m, latest) = (invalidateCache_responses pattern m, latest)"

definition cache_inv :: "cache_config \<Rightarrow> cache_run \<Rightarrow> bool" where
  "cache_inv config r \<longleftrightarrow>
     0 \<le> maxEntries config \<and> jm_ok (fst r) \<and> int (length (fst r)) \<le> maxEntries config \<and>
     (\<forall>k e. jm_get (fst r) k = Some e \<longrightarrow> snd r k = Some e)"

lemma jm_get_filter:
  "jm_ok m \<Longrightarrow> jm_get (filter (\<lambda>(k, e). P k e) m) k = Some e \<Longrightarrow> jm_get m k = Some e"
  by (auto simp: jm_get_iff_mem jm_ok_def distinct_map_filter dest: jm_get_mem)

lemma cache_inv_filter:
  assumes "cache_inv config (m, latest)"
  shows "cache_inv config (filter (\<lambda>(k, e). P k e) m, latest)"
proof -
  have ok: "jm_ok m" and "int (length m) \<le> maxEntries config" using assms by (auto simp: cache_inv_def)
  moreover have "int (length (filter (\<lambda>(k, e). P k e) m)) \<le> int (length m)"
    by (simp only: of_nat_le_iff length_filter_le)
  ultimately have "int (length (filter (\<lambda>(k, e). P k e) m)) \<le> maxEntries config" by linarith
  then show ?thesis
    using assms jm_get_filter [OF ok, of P] by (auto simp: cache_inv_def jm_ok_def distinct_map_filter)
qed

lemma jm_del_filter: "jm_del k m = filter (\<lambda>(k', e). k' \<noteq> k) m"
  by (auto simp: jm_del_def AList.delete_eq intro!: filter_cong)

lemma cache_step_inv:
  assumes "cache_inv config r"
  shows "cache_inv config (cache_step sha256 config ev r)"
proof -
  obtain m latest where r: "r = (m, latest)" by (cases r)
  note inv = assms [unfolded r]
  show ?thesis
  proof (cases ev)
    case (Pair e now)
    show ?thesis
    proof (cases e)
      case (Arrives req)
      have "snd (cache_request config now req m) = m \<or>
          snd (cache_request config now req m) = jm_del (makeCacheKey req config) m"
        by (auto simp: cache_request_def Let_def split: option.splits)
      then show ?thesis
        using inv cache_inv_filter [OF inv] by (auto simp: Arrives Pair r jm_del_filter)
    next
      case (Answers req status headers ans)
      show ?thesis
      proof (cases "entry_of sha256 config now status headers ans")
        case None
        then show ?thesis using inv by (simp add: Answers Pair r cache_store_entry Let_def)
      next
        case (Some e')
        let ?k = "makeCacheKey req config"
        have ok: "jm_ok (jm_set ?k e' m)" and max: "0 \<le> maxEntries config" using inv by (auto simp: cache_inv_def)
        have "jm_get (jm_set ?k e' m) k = Some e''" if "jm_get (evictIfNeeded config (jm_set ?k e' m)) k = Some e''" for k e''
          using subsetD [OF evict_subset jm_get_mem [OF that]] by (simp only: jm_get_iff_mem [OF ok])
        then have "(latest(?k := Some e')) k = Some e''" if "jm_get (evictIfNeeded config (jm_set ?k e' m)) k = Some e''" for k e''
          using inv that by (fastforce simp: cache_inv_def split: if_splits)
        moreover have "int (length (evictIfNeeded config (jm_set ?k e' m))) \<le> maxEntries config"
          using evict_size [OF ok max] by simp
        ultimately show ?thesis
          using evict_ok [OF ok] max by (simp add: cache_inv_def Answers Pair r cache_store_entry Some Let_def)
      qed
    next
      case Prune
      show ?thesis using cache_inv_filter [OF inv] by (simp add: Prune Pair r pruneExpired_def)
    next
      case (Invalidate pattern)
      have "cache_inv config (jm_empty, latest)" using inv by (simp add: cache_inv_def) (simp add: jm_empty_def)
      then show ?thesis using cache_inv_filter [OF inv] by (simp add: Invalidate Pair r invalidateCache_responses_def)
    qed
  qed
qed

interpretation rc: invariant_machine "cache_step sha256 config" "\<lambda>e r. True" "cache_inv config"
  for sha256 config
  by unfold_locales (rule cache_step_inv)

lemma run_inv:
  assumes "0 \<le> maxEntries config"
  shows "cache_inv config (run_events (cache_step sha256 config) es (jm_empty, \<lambda>_. None))"
proof (rule rc.inv_run)
  show "cache_inv config (jm_empty, \<lambda>_. None)"
    using assms by (simp add: cache_inv_def) (simp add: jm_empty_def)
qed (rule admissible_True)

subsection \<open>Properties\<close>

text \<open>C21: Over any run of requests, answers, prunings and invalidations the cache holds at most maxEntries
  entries, and a request is served from it only if it is cacheable, asks for no bypass, and the last
  answer stored under its key, at most its time to live ago, had that status and body.\<close>

theorem cache_serves_latest_answer:
  assumes "0 \<le> maxEntries config"
    and "run_events (cache_step sha256 config) es (jm_empty, \<lambda>_. None) = (m, latest)"
    and "cache_request config now req m = (Served status headers body, m')"
  shows "int (length m) \<le> maxEntries config \<and> m' = m \<and> isCacheable req config \<and> \<not> shouldBypassCache req \<and>
    (\<exists>e. latest (makeCacheKey req config) = Some e \<and> now \<le> rp_createdAt e + rp_ttlMs e \<and>
      status = rp_statusCode e \<and> body = rp_body e \<and> headers = rp_headers e @ setCacheHeaders e config)"
proof -
  have inv: "cache_inv config (m, latest)"
    using run_inv [OF assms(1), of sha256 es] assms(2) by simp
  have "m' = m" "isCacheable req config" "\<not> shouldBypassCache req"
    using assms(3) by (auto simp: cache_request_def Let_def split: if_splits option.splits)
  moreover obtain e where "jm_get m (makeCacheKey req config) = Some e" "now \<le> rp_createdAt e + rp_ttlMs e"
    "status = rp_statusCode e" "body = rp_body e" "headers = rp_headers e @ setCacheHeaders e config"
    using assms(3) by (auto simp: cache_request_def Let_def split: if_splits option.splits)
  ultimately show ?thesis using inv by (auto simp: cache_inv_def)
qed

definition default_config :: cache_config where
  "default_config = \<lparr>cc_ttlSeconds = None, cc_cacheMethods = None, cc_varyByHeaders = None, cc_excludePaths = None,
     cc_maxEntries = None\<rparr>"

lemma default_limits: "maxEntries default_config = 500" "ttlMs default_config = 60000"
  by (simp_all add: maxEntries_def ttlMs_def default_config_def)

definition sample_request :: http_request where
  "sample_request = \<lparr>hq_method = ''GET'', hq_url = ''/api/v1/kyc'', hq_path = ''/api/v1/kyc'', hq_headers = (\<lambda>_. None)\<rparr>"

lemma cache_serves_latest_answer_witness:
  "\<exists>m m'. run_events (cache_step (\<lambda>b. []) default_config) [(Answers sample_request 200 [] (SendText ''ok''), 0)]
       (jm_empty, \<lambda>_. None) = (m, (\<lambda>_. None)(makeCacheKey sample_request default_config := entry_of (\<lambda>b. []) default_config 0 200 [] (SendText ''ok''))) \<and>
     cache_request default_config 1000 sample_request m =
       (Served 200 (setCacheHeaders (the (entry_of (\<lambda>b. []) default_config 0 200 [] (SendText ''ok''))) default_config) ''ok'', m') \<and>
     int (length m) \<le> 500"
proof -
  let ?e = "the (entry_of (\<lambda>b. []) default_config 0 200 [] (SendText ''ok''))"
  let ?k = "makeCacheKey sample_request default_config"
  let ?m = "jm_set ?k ?e jm_empty"
  have run: "run_events (cache_step (\<lambda>b. []) default_config) [(Answers sample_request 200 [] (SendText ''ok''), 0)]
      (jm_empty, \<lambda>_. None) = (?m, (\<lambda>_. None)(?k := entry_of (\<lambda>b. []) default_config 0 200 [] (SendText ''ok'')))"
    by (simp add: cache_store_def entry_of_def evictIfNeeded_def default_config_def maxEntries_def jm_set_def jm_empty_def Let_def)
  have "isCacheable sample_request default_config" "\<not> shouldBypassCache sample_request"
    by (simp_all add: isCacheable_def shouldBypassCache_def header_value_def sample_request_def default_config_def Let_def)
  then have req: "cache_request default_config 1000 sample_request ?m = (Served 200 (setCacheHeaders ?e default_config) ''ok'', ?m)"
    by (simp add: cache_request_def Let_def entry_of_def ttlMs_def default_config_def sample_request_def)
  show ?thesis
    using cache_serves_latest_answer [OF _ run req] run req
    by (intro exI [of _ ?m]) (simp add: maxEntries_def default_config_def)
qed

text \<open>Eviction keeps the newest: after it there are as many entries as the limit allows, all of them
  were there before, and every entry that was removed was created no later than every one that stayed.\<close>

theorem eviction_keeps_newest:
  assumes "jm_ok m" and "0 \<le> maxEntries config"
  shows "int (length (evictIfNeeded config m)) = min (int (length m)) (maxEntries config) \<and>
    set (evictIfNeeded config m) \<subseteq> set m \<and>
    (\<forall>(k, e) \<in> set m - set (evictIfNeeded config m). \<forall>(k', e') \<in> set (evictIfNeeded config m).
      rp_createdAt e \<le> rp_createdAt e')"
  using evict_size [OF assms] evict_subset evict_oldest [OF assms(1)] by blast

lemma eviction_keeps_newest_witness:
  "int (length (evictIfNeeded (default_config\<lparr>cc_maxEntries := Some 1\<rparr>)
     [(''a'', the (entry_of (\<lambda>b. []) default_config 5 200 [] (SendText ''x''))),
      (''b'', the (entry_of (\<lambda>b. []) default_config 3 200 [] (SendText ''y'')))])) = 1"
  using eviction_keeps_newest [of "[(''a'', the (entry_of (\<lambda>b. []) default_config 5 200 [] (SendText ''x''))),
      (''b'', the (entry_of (\<lambda>b. []) default_config 3 200 [] (SendText ''y'')))]" "default_config\<lparr>cc_maxEntries := Some 1\<rparr>"]
  by (simp add: jm_ok_def maxEntries_def default_config_def)



end
