(* ===== verification/ApiMiddleware.thy ===== *)
theory ApiMiddleware
  imports ApiAuth ResponseCache
begin

section \<open>CORS, validation, errors, audit, billing and security headers of the API\<close>

text \<open>
  packages/api/src/middleware: cors.ts, validate.ts, error-handler.ts, audit.ts, billing.ts and
  security-headers.ts. The headers a middleware sets are a Map from names to values (\<open>jm_set\<close> is
  setHeader). Zod schemas are parameters of \<open>validate\<close>; the audit transport receives the event that is
  the result of \<open>audit_event\<close>.
\<close>

type_synonym headers = "(string, string) jsmap"

subsection \<open>CORS\<close>

record cors_config =
  co_allowedOrigins :: "string list"
  co_allowedMethods :: "string list option"
  co_allowedHeaders :: "string list option"
  co_exposedHeaders :: "string list option"
  co_credentials :: "bool option"
  co_maxAge :: "int option"

definition DEFAULT_METHODS :: "string list" where
  "DEFAULT_METHODS = [''GET'', ''HEAD'', ''PUT'', ''PATCH'', ''POST'', ''DELETE'', ''OPTIONS'']"

definition DEFAULT_HEADERS :: "string list" where
  "DEFAULT_HEADERS = [''Content-Type'', ''Authorization'', ''X-Request-ID'', ''X-API-Key'', ''If-None-Match'', ''If-Modified-Since'']"

definition DEFAULT_EXPOSED :: "string list" where
  "DEFAULT_EXPOSED = [''X-Request-ID'', ''ETag'', ''X-RateLimit-Limit'', ''X-RateLimit-Remaining'', ''X-RateLimit-Reset'']"

datatype cors_reply =
    CorsNext headers
  | CorsPreflight headers \<comment> \<open>204\<close>
  | CorsForbidden string \<comment> \<open>403, the detail\<close>

definition set_all :: "(string \<times> string) list \<Rightarrow> headers \<Rightarrow> headers" where
  "set_all hs res = foldl (\<lambda>m (k, v). jm_set k v m) res hs"

definition cors_headers :: "cors_config \<Rightarrow> string \<Rightarrow> (string \<times> string) list" where
  "cors_headers config origin =
     [(''Access-Control-Allow-Origin'', if ''*'' \<in> set (co_allowedOrigins config) then ''*'' else origin),
      (''Access-Control-Allow-Methods'', join_with '', '' (or_default (co_allowedMethods config) DEFAULT_METHODS)),
      (''Access-Control-Allow-Headers'', join_with '', '' (or_default (co_allowedHeaders config) DEFAULT_HEADERS)),
      (''Access-Control-Expose-Headers'', join_with '', '' (or_default (co_exposedHeaders config) DEFAULT_EXPOSED)),
      (''Access-Control-Max-Age'', show_int (or_default (co_maxAge config) 86400))] @
     (if or_default (co_credentials config) True then [(''Access-Control-Allow-Credentials'', ''true'')] else [])"

definition corsMiddleware :: "cors_config \<Rightarrow> http_request \<Rightarrow> headers \<Rightarrow> cors_reply" where
  "corsMiddleware config req res =
     (let origin = header_value req ''origin''
      in if origin = [] then CorsNext res
         else if \<not> (''*'' \<in> set (co_allowedOrigins config) \<or> origin \<in> set (co_allowedOrigins config)) then
           CorsForbidden (''Origin '' @ [CHR 0x22] @ origin @ [CHR 0x22] @ '' not allowed by CORS policy'')
         else if hq_method req = ''OPTIONS'' then CorsPreflight (set_all (cors_headers config origin) res)
         else CorsNext (set_all (cors_headers config origin) res))"

subsection \<open>Problem documents\<close>

record app_error =
  ae_statusCode :: int
  ae_message :: string
  ae_type :: string
  ae_errors :: "json list option"

definition AppError :: "int \<Rightarrow> string \<Rightarrow> string option \<Rightarrow> json list option \<Rightarrow> app_error" where
  "AppError statusCode message ty errors =
     \<lparr>ae_statusCode = statusCode, ae_message = message, ae_type = or_default ty ''about:blank'', ae_errors = errors\<rparr>"

definition BadRequestError :: "string option \<Rightarrow> json list option \<Rightarrow> app_error" where
  "BadRequestError message errors = AppError 400 (or_default message ''Bad request'') (Some ''about:blank'') errors"

definition NotFoundError :: "string option \<Rightarrow> app_error" where
  "NotFoundError message = AppError 404 (or_default message ''Resource not found'') (Some ''about:blank'') None"

definition ConflictError :: "string option \<Rightarrow> app_error" where
  "ConflictError message = AppError 409 (or_default message ''Resource conflict'') (Some ''about:blank'') None"

definition InternalError :: "string option \<Rightarrow> app_error" where
  "InternalError message = AppError 500 (or_default message ''Internal server error'') (Some ''about:blank'') None"

record zod_issue =
  zi_path :: "string list"
  zi_message :: string
  zi_code :: string

text \<open>What may reach the error handler: an AppError, an object with an array of issues, or anything else
  that is truthy, with its message if it has one.\<close>

datatype thrown = ThrownApp app_error | ThrownIssues "zod_issue list" | ThrownOther "string option"

record problem_details =
  pd_type :: string
  pd_title :: string
  pd_status :: int
  pd_detail :: string
  pd_instance :: string
  pd_errors :: "json list option"

definition format_issue :: "zod_issue \<Rightarrow> json" where
  "format_issue issue =
     JObj [(''path'', JStr (join_with ''.'' (zi_path issue))), (''message'', JStr (zi_message issue)),
       (''code'', JStr (zi_code issue))]"

definition buildProblemDetails :: "string \<Rightarrow> thrown \<Rightarrow> http_request \<Rightarrow> problem_details" where
  "buildProblemDetails NODE_ENV err req =
     (case err of
        ThrownApp e \<Rightarrow>
          \<lparr>pd_type = ae_type e, pd_title = ae_message e, pd_status = ae_statusCode e, pd_detail = ae_message e,
           pd_instance = hq_url req, pd_errors = ae_errors e\<rparr>
      | ThrownIssues issues \<Rightarrow>
          \<lparr>pd_type = ''about:blank'', pd_title = ''Validation Error'', pd_status = 400,
           pd_detail = ''Request validation failed'', pd_instance = hq_url req,
           pd_errors = Some (map format_issue issues)\<rparr>
      | ThrownOther message \<Rightarrow>
          \<lparr>pd_type = ''about:blank'', pd_title = ''Internal Server Error'', pd_status = 500,
           pd_detail =
             (if NODE_ENV = ''production'' \<or> or_default message [] = [] then ''An unexpected error occurred''
              else or_default message []),
           pd_instance = hq_url req, pd_errors = None\<rparr>)"

definition errorHandler :: "string \<Rightarrow> thrown \<Rightarrow> http_request \<Rightarrow> headers \<Rightarrow> int \<times> headers \<times> problem_details" where
  "errorHandler NODE_ENV err req res =
     (let problem = buildProblemDetails NODE_ENV err req
      in (pd_status problem, jm_set ''Content-Type'' ''application/problem+json'' res, problem))"

subsection \<open>Validation\<close>

text \<open>A schema is its safeParse. The request has three parts to validate; the validated body replaces the
  body, the validated query and parameters are kept beside the originals.\<close>

type_synonym zod_schema = "json \<Rightarrow> zod_issue list + json"

record request_data =
  rd_body :: json
  rd_query :: json
  rd_params :: json
  rd_validatedQuery :: "json option"
  rd_validatedParams :: "json option"

datatype validation_target = TBody | TQuery | TParams

fun source_of :: "validation_target \<Rightarrow> request_data \<Rightarrow> json" where
  "source_of TBody r = rd_body r"
| "source_of TQuery r = rd_query r"
| "source_of TParams r = rd_params r"

fun target_name :: "validation_target \<Rightarrow> string" where
  "target_name TBody = ''body''"
| "target_name TQuery = ''query''"
| "target_name TParams = ''params''"

fun keep_result :: "validation_target \<Rightarrow> json \<Rightarrow> request_data \<Rightarrow> request_data" where
  "keep_result TBody v r = r\<lparr>rd_body := v\<rparr>"
| "keep_result TQuery v r = r\<lparr>rd_validatedQuery := Some v\<rparr>"
| "keep_result TParams v r = r\<lparr>rd_validatedParams := Some v\<rparr>"

text \<open>The loop over the targets, each with the source read before the loop.\<close>

fun validate_targets ::
    "(validation_target \<Rightarrow> zod_schema option) \<Rightarrow> (validation_target \<times> json) list \<Rightarrow> request_data
      \<Rightarrow> (string \<times> json list) + request_data" where
  "validate_targets schemas [] r = Inr r"
| "validate_targets schemas ((key, source) # rest) r =
     (case schemas key of
        None \<Rightarrow> validate_targets schemas rest r
      | Some schema \<Rightarrow>
          (case schema source of
             Inl issues \<Rightarrow> Inl (''Request '' @ target_name key @ '' validation failed'', map format_issue issues)
           | Inr v \<Rightarrow> validate_targets schemas rest (keep_result key v r)))"

definition validate :: "(validation_target \<Rightarrow> zod_schema option) \<Rightarrow> request_data \<Rightarrow> (string \<times> json list) + request_data" where
  "validate schemas req =
     validate_targets schemas [(TBody, rd_body req), (TQuery, rd_query req), (TParams, rd_params req)] req"

definition validateBody :: "zod_schema \<Rightarrow> request_data \<Rightarrow> (string \<times> json list) + request_data" where
  "validateBody schema = validate ((\<lambda>_. None)(TBody := Some schema))"

definition validateQuery :: "zod_schema \<Rightarrow> request_data \<Rightarrow> (string \<times> json list) + request_data" where
  "validateQuery schema = validate ((\<lambda>_. None)(TQuery := Some schema))"

definition validateParams :: "zod_schema \<Rightarrow> request_data \<Rightarrow> (string \<times> json list) + request_data" where
  "validateParams schema = validate ((\<lambda>_. None)(TParams := Some schema))"

subsection \<open>Audit\<close>

datatype request_action = AcCreate | AcRead | AcUpdate | AcDelete | AcLogin | AcLogout | AcVerify | AcIssue | AcRevoke | AcExport
datatype request_severity = AsLow | AsMedium | AsHigh | AsCritical

record audit_event =
  av_auditId :: string
  av_timestamp :: int
  av_action :: request_action
  av_severity :: request_severity
  av_actorId :: js_value
  av_actorType :: string
  av_resourceType :: string
  av_resourceId :: "string option"
  av_ip :: string
  av_userAgent :: string
  av_success :: bool
  av_detail :: string
  av_statusCode :: int
  av_durationMs :: int

definition SENSITIVE_PATTERNS :: "string list" where
  "SENSITIVE_PATTERNS = [''/credentials/issue'', ''/credentials/verify'', ''/credentials/revoke'', ''/kyc/workflows'',
     ''/did/resolve/batch'', ''/auth/'', ''/admin/'']"

definition SENSITIVE_ACTIONS :: "string \<Rightarrow> (request_action \<times> request_severity) option" where
  "SENSITIVE_ACTIONS m =
     (if m = ''POST'' then Some (AcCreate, AsMedium) else if m = ''PUT'' then Some (AcUpdate, AsMedium)
      else if m = ''PATCH'' then Some (AcUpdate, AsMedium) else if m = ''DELETE'' then Some (AcDelete, AsHigh) else None)"

definition determineSensitivity :: "string \<Rightarrow> string \<Rightarrow> (request_action \<times> request_severity) option" where
  "determineSensitivity m path =
     (if \<not> list_ex (str_includes path) SENSITIVE_PATTERNS then None
      else Some (or_default (SENSITIVE_ACTIONS m) (AcRead, AsLow)))"

definition extractResourceType :: "string \<Rightarrow> string" where
  "extractResourceType path =
     (case filter (\<lambda>p. p \<in> set [''did'', ''credentials'', ''kyc'', ''admin'', ''auth''])
             (filter (\<lambda>p. p \<noteq> []) (split_on (CHR ''/'') path)) of
        [] \<Rightarrow> ''unknown'' | p # _ \<Rightarrow> p)"

definition method_name :: "auth_method \<Rightarrow> string" where
  "method_name m = (case m of MDid \<Rightarrow> ''did'' | MApiKey \<Rightarrow> ''api_key'' | MJwt \<Rightarrow> ''jwt'')"

text \<open>When a request arrives: \<open>None\<close> leaves the response alone, otherwise its end will write an event.\<close>

definition audit_request :: "string list option \<Rightarrow> http_request \<Rightarrow> (request_action \<times> request_severity) option" where
  "audit_request excludePaths req =
     (if list_ex (starts_with (hq_path req)) (or_default excludePaths [''/health'', ''/ready'']) then None
      else determineSensitivity (hq_method req) (hq_path req))"

definition audit_event_of ::
    "request_action \<times> request_severity \<Rightarrow> string \<Rightarrow> int \<Rightarrow> int \<Rightarrow> http_request \<Rightarrow> auth_user option \<Rightarrow> string option \<Rightarrow> string option
      \<Rightarrow> string option \<Rightarrow> int \<Rightarrow> audit_event" where
  "audit_event_of s auditId start now req user ip remoteAddress resourceId statusCode =
     \<lparr>av_auditId = auditId, av_timestamp = now, av_action = fst s, av_severity = snd s,
      av_actorId = (case user of Some u \<Rightarrow> us_id u | None \<Rightarrow> VString (units (or_default ip ''anonymous''))),
      av_actorType = (case user of Some u \<Rightarrow> method_name (us_method u) | None \<Rightarrow> ''ip''),
      av_resourceType = extractResourceType (hq_path req), av_resourceId = resourceId,
      av_ip = or_default ip (or_default remoteAddress []), av_userAgent = header_value req ''user-agent'',
      av_success = (statusCode < 400),
      av_detail = hq_method req @ '' '' @ hq_url req @ '' -> '' @ show_int statusCode @ '' ('' @ show_int (now - start) @ ''ms)'',
      av_statusCode = statusCode, av_durationMs = now - start\<rparr>"

subsection \<open>Billing\<close>

record billing_context =
  bc_customerId :: string
  bc_meterName :: string
  bc_quantity :: int
  bc_usageId :: string

text \<open>The default extractor, for a user whose id is a text: \<open>user?.id || headers['x-customer-id']\<close>.\<close>

definition extractCustomerId :: "string option \<Rightarrow> http_request \<Rightarrow> string option" where
  "extractCustomerId userId req =
     (if or_default userId [] \<noteq> [] then userId else hq_headers req ''x-customer-id'')"

text \<open>The context attached to the request, which json records: \<open>None\<close> leaves the response alone.\<close>

definition billing_request ::
    "string option \<Rightarrow> int option \<Rightarrow> int \<Rightarrow> string option \<Rightarrow> billing_context option" where
  "billing_request meterName defaultQuantity now customerId =
     (if or_default customerId [] = [] then None
      else
        (let c = or_default customerId []; m = or_default meterName ''api_calls''
         in Some \<lparr>bc_customerId = c, bc_meterName = m, bc_quantity = or_default defaultQuantity 1,
              bc_usageId = c @ ''_'' @ m @ ''_'' @ show_int now\<rparr>))"

subsection \<open>Security headers\<close>

text \<open>An option of the configuration: not given, \<open>false\<close>, or a value; \<open>chosen\<close> is null or the value used.\<close>

datatype setting = Unset | Disabled | Value string

definition chosen :: "setting \<Rightarrow> string \<Rightarrow> string option" where
  "chosen s d = (case s of Disabled \<Rightarrow> None | Unset \<Rightarrow> Some d | Value v \<Rightarrow> Some v)"

record security_config =
  se_contentSecurityPolicy :: setting
  se_hstsMaxAge :: "int option"
  se_hstsIncludeSubdomains :: "bool option"
  se_hstsPreload :: "bool option"
  se_xFrameOptions :: setting
  se_xContentTypeOptions :: setting
  se_xPermittedCrossDomainPolicies :: setting
  se_referrerPolicy :: setting
  se_xXSSProtection :: setting
  se_crossOriginOpenerPolicy :: setting
  se_crossOriginEmbedderPolicy :: setting
  se_crossOriginResourcePolicy :: setting
  se_permissionsPolicy :: setting
  se_strictTransportSecurity :: bool \<comment> \<open>it is false\<close>
  se_dnsPrefetchControl :: setting

definition quoted :: "string \<Rightarrow> string" where
  "quoted s = [CHR 0x27] @ s @ [CHR 0x27]"

definition DEFAULT_CSP :: string where
  "DEFAULT_CSP = join_with ''; ''
     [''default-src '' @ quoted ''self'', ''script-src '' @ quoted ''self'',
      ''style-src '' @ quoted ''self'' @ '' '' @ quoted ''unsafe-inline'', ''img-src '' @ quoted ''self'' @ '' data:'',
      ''font-src '' @ quoted ''self'', ''connect-src '' @ quoted ''self'', ''frame-ancestors '' @ quoted ''none'',
      ''form-action '' @ quoted ''self'', ''base-uri '' @ quoted ''self'']"

definition defaultPermissionsPolicy :: string where
  "defaultPermissionsPolicy = join_with '', ''
     [''accelerometer=()'', ''camera=()'', ''display-capture=()'', ''document-domain=()'', ''encrypted-media=()'',
      ''fullscreen=()'', ''geolocation=()'', ''gyroscope=()'', ''magnetometer=()'', ''microphone=()'', ''midi=()'',
      ''payment=()'', ''picture-in-picture=()'', ''publickey-credentials-get=(self)'', ''screen-wake-lock=()'',
      ''sync-xhr=()'', ''usb=()'', ''web-share=()'', ''xr-spatial-tracking=()'']"

text \<open>\<open>if (v) res.setHeader(name, v)\<close>: neither null nor the empty text.\<close>

definition header_if :: "string \<Rightarrow> string option \<Rightarrow> (string \<times> string) list" where
  "header_if name v = (case v of None \<Rightarrow> [] | Some x \<Rightarrow> if x = [] then [] else [(name, x)])"

definition hsts_headers :: "security_config \<Rightarrow> (string \<times> string) list" where
  "hsts_headers config =
     (let hstsMaxAge = (if se_strictTransportSecurity config then 0 else or_default (se_hstsMaxAge config) 31536000)
      in if hstsMaxAge > 0 then
           [(''Strict-Transport-Security'', ''max-age='' @ show_int hstsMaxAge @
              (if or_default (se_hstsIncludeSubdomains config) True then ''; includeSubDomains'' else []) @
              (if or_default (se_hstsPreload config) False then ''; preload'' else []))]
         else [])"

definition securityHeaders :: "security_config \<Rightarrow> headers \<Rightarrow> headers" where
  "securityHeaders config res =
     set_all
       (header_if ''Content-Security-Policy'' (chosen (se_contentSecurityPolicy config) DEFAULT_CSP) @
        hsts_headers config @
        header_if ''X-Frame-Options'' (chosen (se_xFrameOptions config) ''DENY'') @
        header_if ''X-Content-Type-Options'' (chosen (se_xContentTypeOptions config) ''nosniff'') @
        header_if ''X-Permitted-Cross-Domain-Policies'' (chosen (se_xPermittedCrossDomainPolicies config) ''none'') @
        header_if ''Referrer-Policy'' (chosen (se_referrerPolicy config) ''strict-origin-when-cross-origin'') @
        header_if ''X-XSS-Protection'' (chosen (se_xXSSProtection config) ''0'') @
        header_if ''Cross-Origin-Opener-Policy'' (chosen (se_crossOriginOpenerPolicy config) ''same-origin'') @
        header_if ''Cross-Origin-Embedder-Policy'' (chosen (se_crossOriginEmbedderPolicy config) ''require-corp'') @
        header_if ''Cross-Origin-Resource-Policy'' (chosen (se_crossOriginResourcePolicy config) ''same-origin'') @
        header_if ''Permissions-Policy'' (chosen (se_permissionsPolicy config) defaultPermissionsPolicy) @
        header_if ''X-DNS-Prefetch-Control'' (chosen (se_dnsPrefetchControl config) ''off'') @
        [(''X-Content-Type-Options'', or_default (chosen (se_xContentTypeOptions config) ''nosniff'') ''nosniff'')])
       res"

subsection \<open>Properties\<close>

lemma set_all_get:
  "jm_get (set_all hs res) k =
     (case map_of (rev hs) k of Some v \<Rightarrow> Some v | None \<Rightarrow> jm_get res k)"
  by (induction hs arbitrary: res) (auto simp: set_all_def map_add_def split: option.splits)

definition cors_allows :: "cors_config \<Rightarrow> string \<Rightarrow> bool" where
  "cors_allows config origin \<longleftrightarrow> ''*'' \<in> set (co_allowedOrigins config) \<or> origin \<in> set (co_allowedOrigins config)"

lemma cors_origin_header:
  "jm_get (set_all (cors_headers config origin) res) ''Access-Control-Allow-Origin'' =
     Some (if ''*'' \<in> set (co_allowedOrigins config) then ''*'' else origin)"
  by (simp add: set_all_get cors_headers_def)

text \<open>CORS lets the browser of no other site read: a response gets an Access-Control-Allow-Origin
  header only for a request whose origin is allowed, and then it is that origin, or the star when the star
  is among the allowed ones; a request from any other origin is refused with 403; a preflight of an allowed
  origin is answered at once, every other allowed request goes on.\<close>

theorem cors_grants_only_allowed:
  "(origin = header_value req ''origin'' \<and> origin \<noteq> [] \<and> \<not> cors_allows config origin \<longrightarrow>
      (\<exists>d. corsMiddleware config req res = CorsForbidden d)) \<and>
   (corsMiddleware config req res = CorsNext h \<or> corsMiddleware config req res = CorsPreflight h \<longrightarrow>
      h = res \<and> header_value req ''origin'' = [] \<or>
      cors_allows config (header_value req ''origin'') \<and>
      jm_get h ''Access-Control-Allow-Origin'' =
        Some (if ''*'' \<in> set (co_allowedOrigins config) then ''*'' else header_value req ''origin'')) \<and>
   (corsMiddleware config req res = CorsPreflight h \<longrightarrow> hq_method req = ''OPTIONS'')"
  by (auto simp: corsMiddleware_def cors_allows_def cors_origin_header Let_def split: if_splits)

definition sample_cors :: cors_config where
  "sample_cors = \<lparr>co_allowedOrigins = [''https://a''], co_allowedMethods = None, co_allowedHeaders = None,
     co_exposedHeaders = None, co_credentials = None, co_maxAge = None\<rparr>"

lemma cors_grants_only_allowed_witness:
  "(\<exists>d. corsMiddleware sample_cors (sample_request\<lparr>hq_headers := (\<lambda>_. None)(''origin'' := Some ''https://b'')\<rparr>) jm_empty = CorsForbidden d)"
  using cors_grants_only_allowed [of "''https://b''" "sample_request\<lparr>hq_headers := (\<lambda>_. None)(''origin'' := Some ''https://b'')\<rparr>"
      sample_cors jm_empty]
  by (simp add: header_value_def cors_allows_def sample_cors_def)

text \<open>In production an unexpected error tells the client nothing: the answers to any two errors that are
  neither AppErrors nor validation errors are the same 500; an AppError keeps its status and its message, a
  validation error is a 400 that lists every issue in order.\<close>

theorem production_hides_errors:
  "errorHandler ''production'' (ThrownOther m1) req res = errorHandler ''production'' (ThrownOther m2) req res \<and>
   fst (errorHandler env (ThrownOther m1) req res) = 500 \<and>
   fst (errorHandler env (ThrownApp (AppError status message ty errors)) req res) = status \<and>
   pd_detail (snd (snd (errorHandler env (ThrownApp (AppError status message ty errors)) req res))) = message \<and>
   fst (errorHandler env (ThrownIssues issues) req res) = 400 \<and>
   pd_errors (snd (snd (errorHandler env (ThrownIssues issues) req res))) = Some (map format_issue issues)"
  by (simp add: errorHandler_def buildProblemDetails_def AppError_def Let_def)

definition schema_accepts :: "zod_schema option \<Rightarrow> json \<Rightarrow> json \<Rightarrow> bool" where
  "schema_accepts schema source v \<longleftrightarrow> (case schema of None \<Rightarrow> v = source | Some p \<Rightarrow> p source = Inr v)"

text \<open>The handler behind validate sees only data that passed: a request goes on exactly when every schema
  that was given accepts its part, and then the body is what the body schema made of it; otherwise the answer
  names the first part that failed, in the order body, query, params, with the issues of its schema.\<close>

theorem handler_sees_validated_data:
  "(validate schemas r = Inr r' \<longleftrightarrow>
     (\<exists>b q p. schema_accepts (schemas TBody) (rd_body r) b \<and> schema_accepts (schemas TQuery) (rd_query r) q \<and>
       schema_accepts (schemas TParams) (rd_params r) p \<and>
       r' = r\<lparr>rd_body := b, rd_validatedQuery := (if schemas TQuery = None then rd_validatedQuery r else Some q),
              rd_validatedParams := (if schemas TParams = None then rd_validatedParams r else Some p)\<rparr>)) \<and>
   (validate schemas r = Inl (''Request query validation failed'', es) \<longleftrightarrow>
     (\<exists>b issues schema. schema_accepts (schemas TBody) (rd_body r) b \<and> schemas TQuery = Some schema \<and>
       schema (rd_query r) = Inl issues \<and> es = map format_issue issues))"
  by (cases "schemas TBody"; cases "schemas TQuery"; cases "schemas TParams")
    (auto simp: validate_def schema_accepts_def split: sum.splits)

text \<open>The audit trail of the API: a request is audited exactly when its path contains one of the sensitive
  patterns and begins with none of the excluded ones; the event is a success exactly when the status is below
  400, and names the authenticated user if there is one.\<close>

theorem sensitive_requests_audited:
  "(audit_request excl req = None \<longleftrightarrow>
     (\<exists>p \<in> set (or_default excl [''/health'', ''/ready'']). starts_with (hq_path req) p) \<or>
     (\<forall>p \<in> set SENSITIVE_PATTERNS. \<not> (\<exists>a b. hq_path req = a @ p @ b))) \<and>
   (av_success (audit_event_of s i start now req user ip remote rid status) \<longleftrightarrow> status < 400) \<and>
   av_actorId (audit_event_of s i start now req (Some u) ip remote rid status) = us_id u"
  by (auto simp: audit_request_def determineSensitivity_def list_ex_iff str_includes_iff audit_event_of_def)

text \<open>Billing: a request is charged exactly when a customer is known, but the id of the usage record, which
  is meant to tell records apart, is the same for all requests of a customer in one millisecond.\<close>

theorem usage_ids_collide:
  "(billing_request meter quantity now c = None \<longleftrightarrow> or_default c [] = []) \<and>
   (billing_request meter quantity now c = Some x \<and> billing_request meter quantity' now c = Some y \<longrightarrow>
      bc_usageId x = bc_usageId y) \<and>
   (billing_request None None now c = Some x \<longrightarrow> bc_meterName x = ''api_calls'' \<and> bc_quantity x = 1)"
  by (auto simp: billing_request_def Let_def)

lemma usage_ids_collide_witness:
  "bc_usageId (the (billing_request None None 5 (Some ''c''))) = bc_usageId (the (billing_request None (Some 2) 5 (Some ''c'')))"
  using usage_ids_collide [of None None 5 "Some ''c''" "the (billing_request None None 5 (Some ''c''))" "Some 2"
      "the (billing_request None (Some 2) 5 (Some ''c''))"]
  by (simp add: billing_request_def)

lemma header_if_get: "map_of (rev (header_if n v)) k = (if k = n \<and> v \<noteq> Some [] then v else None)"
  by (auto simp: header_if_def split: option.splits)

lemma hsts_get: "k \<noteq> ''Strict-Transport-Security'' \<Longrightarrow> map_of (rev (hsts_headers config)) k = None"
  by (auto simp: hsts_headers_def Let_def)

lemma csp_nonempty: "DEFAULT_CSP \<noteq> []"
  by (simp add: DEFAULT_CSP_def)

text \<open>Whatever the configuration, X-Content-Type-Options is sent, also when it is switched off;
  Content-Security-Policy and X-Frame-Options are missing from the response exactly when they are switched off
  or set to the empty text.\<close>

theorem security_headers_sent:
  "jm_get (securityHeaders config jm_empty) ''X-Content-Type-Options'' =
     Some (or_default (chosen (se_xContentTypeOptions config) ''nosniff'') ''nosniff'') \<and>
   (jm_get (securityHeaders config jm_empty) ''Content-Security-Policy'' = None \<longleftrightarrow>
     se_contentSecurityPolicy config = Disabled \<or> se_contentSecurityPolicy config = Value []) \<and>
   (jm_get (securityHeaders config jm_empty) ''X-Frame-Options'' = None \<longleftrightarrow>
     se_xFrameOptions config = Disabled \<or> se_xFrameOptions config = Value [])"
proof (intro conjI)
  note g = securityHeaders_def set_all_get map_of_append map_add_def header_if_get hsts_get
  show "jm_get (securityHeaders config jm_empty) ''X-Content-Type-Options'' =
     Some (or_default (chosen (se_xContentTypeOptions config) ''nosniff'') ''nosniff'')"
    by (simp add: g)
  show "jm_get (securityHeaders config jm_empty) ''Content-Security-Policy'' = None \<longleftrightarrow>
     se_contentSecurityPolicy config = Disabled \<or> se_contentSecurityPolicy config = Value []"
    by (simp add: g chosen_def csp_nonempty split: setting.split)
  show "jm_get (securityHeaders config jm_empty) ''X-Frame-Options'' = None \<longleftrightarrow>
     se_xFrameOptions config = Disabled \<or> se_xFrameOptions config = Value []"
    by (simp add: g chosen_def split: setting.split)
qed

end
