(* ===== verification/EventBus.thy ===== *)
theory EventBus
  imports Prelude
begin

section \<open>The event bus\<close>

text \<open>
  packages/core/src/events/event_bus.ts. A subscription is known by its id (randomUUID, an
  argument); a Set of subscriptions is the list of its members in insertion order. Filters are
  total functions; a handler is only a name here, and whether a run of it throws is given with the
  run. \<open>emit\<close> hands its invocations to the scheduler, whose default runs them later: they are
  pending tasks of a world (\<open>bus_world\<close>) in which any operation can happen before a task runs, and
  tasks run in any order. \<open>emitSync\<close> runs the handlers at once; there they are assumed not to
  change the bus themselves.
\<close>

subsection \<open>Events and subscriptions\<close>

datatype event_severity = SevDebug | SevInfo | SevWarning | SevError | SevCritical

record bus_event =
  be_type :: string
  be_id :: string
  be_timestamp :: int
  be_correlationId :: "string option"
  be_causationId :: "string option"
  be_tenantId :: "string option"
  be_userId :: "string option"
  be_severity :: event_severity
  be_metadata :: "json option"
  be_payload :: json

record subscription =
  su_id :: string
  su_handler :: nat
  su_filter :: "(bus_event \<Rightarrow> bool) option"
  su_once :: "bool option"

record event_bus =
  eb_handlers :: "(string, subscription list) jsmap"
  eb_wildcard :: "subscription list"
  eb_processed :: nat
  eb_dropped :: nat
  eb_startedAt :: int

record bus_stats =
  bs_subscribers :: nat
  bs_eventsProcessed :: nat
  bs_eventsDropped :: nat
  bs_handlersByType :: "(string \<times> nat) list"
  bs_uptime :: int

definition new_bus :: "int \<Rightarrow> event_bus" where
  "new_bus now = \<lparr>eb_handlers = jm_empty, eb_wildcard = [], eb_processed = 0, eb_dropped = 0, eb_startedAt = now\<rparr>"

definition set_delete :: "subscription \<Rightarrow> subscription list \<Rightarrow> subscription list" where
  "set_delete sub subs = filter (\<lambda>s. su_id s \<noteq> su_id sub) subs"

definition subscribe :: "string \<Rightarrow> subscription \<Rightarrow> event_bus \<Rightarrow> event_bus" where
  "subscribe ty sub b =
     (let hs = (if jm_has (eb_handlers b) ty then eb_handlers b else jm_set ty [] (eb_handlers b))
      in b\<lparr>eb_handlers := jm_set ty (or_default (jm_get hs ty) [] @ [sub]) hs\<rparr>)"

definition subscribeAll :: "subscription \<Rightarrow> event_bus \<Rightarrow> event_bus" where
  "subscribeAll sub b = b\<lparr>eb_wildcard := eb_wildcard b @ [sub]\<rparr>"

text \<open>The loop of \<open>unsubscribe\<close>: the first subscription with the id is deleted.\<close>

fun delete_first :: "string \<Rightarrow> subscription list \<Rightarrow> subscription list" where
  "delete_first i [] = []"
| "delete_first i (s # ss) = (if su_id s = i then ss else s # delete_first i ss)"

definition unsubscribe :: "string \<Rightarrow> string \<Rightarrow> event_bus \<Rightarrow> event_bus" where
  "unsubscribe ty i b =
     (case jm_get (eb_handlers b) ty of
        None \<Rightarrow> b
      | Some subs \<Rightarrow>
          (let left = delete_first i subs
           in b\<lparr>eb_handlers := (if left = [] then jm_del ty (eb_handlers b) else jm_set ty left (eb_handlers b))\<rparr>))"

definition unsubscribeAll :: "subscription \<Rightarrow> event_bus \<Rightarrow> event_bus" where
  "unsubscribeAll sub b = b\<lparr>eb_wildcard := set_delete sub (eb_wildcard b)\<rparr>"

definition clear_bus :: "event_bus \<Rightarrow> event_bus" where
  "clear_bus b = b\<lparr>eb_handlers := jm_empty, eb_wildcard := []\<rparr>"

definition stats_bus :: "int \<Rightarrow> event_bus \<Rightarrow> bus_stats" where
  "stats_bus now b =
     \<lparr>bs_subscribers = sum_list (map length (jm_values (eb_handlers b))) + length (eb_wildcard b),
      bs_eventsProcessed = eb_processed b, bs_eventsDropped = eb_dropped b,
      bs_handlersByType = map (\<lambda>(ty, subs). (ty, length subs)) (eb_handlers b),
      bs_uptime = now - eb_startedAt b\<rparr>"

subsection \<open>Emitting\<close>

definition passes :: "bus_event \<Rightarrow> subscription \<Rightarrow> bool" where
  "passes e sub = (case su_filter sub of None \<Rightarrow> True | Some p \<Rightarrow> p e)"

definition is_once :: "subscription \<Rightarrow> bool" where
  "is_once sub \<longleftrightarrow> su_once sub = Some True"

text \<open>The loop over the subscriptions of the event's type: those to invoke, and the Set that is left.\<close>

fun emit_scan :: "bus_event \<Rightarrow> subscription list \<Rightarrow> subscription list \<Rightarrow> subscription list \<times> subscription list" where
  "emit_scan e [] subs = ([], subs)"
| "emit_scan e (sub # rest) subs =
     (if \<not> passes e sub then emit_scan e rest subs
      else
        (let (ran, left) = emit_scan e rest (if is_once sub then set_delete sub subs else subs)
         in (sub # ran, left)))"

definition dispatch_typed :: "bus_event \<Rightarrow> event_bus \<Rightarrow> subscription list \<times> (string, subscription list) jsmap" where
  "dispatch_typed e b =
     (case jm_get (eb_handlers b) (be_type e) of
        None \<Rightarrow> ([], eb_handlers b)
      | Some subs \<Rightarrow>
          (let (ran, left) = emit_scan e subs subs
           in (ran, if left = [] then jm_del (be_type e) (eb_handlers b)
                    else jm_set (be_type e) left (eb_handlers b))))"

text \<open>\<open>emit\<close> up to its await: the subscriptions whose invocations go to the scheduler, in order.\<close>

definition emit :: "bus_event \<Rightarrow> event_bus \<Rightarrow> subscription list \<times> event_bus" where
  "emit e b =
     (case dispatch_typed e b of
        (typed, hs) \<Rightarrow>
          (typed @ filter (passes e) (eb_wildcard b), b\<lparr>eb_handlers := hs, eb_processed := eb_processed b + 1\<rparr>))"

text \<open>One invocation: an exception of the handler is counted.\<close>

definition invoke :: "bool \<Rightarrow> event_bus \<Rightarrow> event_bus" where
  "invoke throws b = (if throws then b\<lparr>eb_dropped := eb_dropped b + 1\<rparr> else b)"

definition emitSync :: "(string \<Rightarrow> bool) \<Rightarrow> bus_event \<Rightarrow> event_bus \<Rightarrow> subscription list \<times> event_bus" where
  "emitSync throws e b =
     (case dispatch_typed e b of
        (typed, hs) \<Rightarrow>
          (let ran = typed @ filter (passes e) (eb_wildcard b)
           in (ran, (foldl (\<lambda>b' sub. invoke (throws (su_id sub)) b') (b\<lparr>eb_handlers := hs\<rparr>) ran)
                \<lparr>eb_processed := eb_processed b + 1\<rparr>)))"

subsection \<open>The world around a bus\<close>

record bus_world =
  w_bus :: event_bus
  w_pending :: "(subscription \<times> bus_event) list" \<comment> \<open>invocations the scheduler has not run yet\<close>
  w_delivered :: "(string \<times> bus_event) list" \<comment> \<open>the runs of handlers, by subscription id\<close>
  w_issued :: "subscription list" \<comment> \<open>every subscription ever made\<close>

definition new_world :: "int \<Rightarrow> bus_world" where
  "new_world now = \<lparr>w_bus = new_bus now, w_pending = [], w_delivered = [], w_issued = []\<rparr>"

inductive bus_step :: "bus_world \<Rightarrow> bus_world \<Rightarrow> bool" where
  Subscribe: "su_id sub \<notin> su_id ` set (w_issued w) \<Longrightarrow>
     bus_step w (w\<lparr>w_bus := subscribe ty sub (w_bus w), w_issued := sub # w_issued w\<rparr>)"
| SubscribeAll: "su_id sub \<notin> su_id ` set (w_issued w) \<Longrightarrow> su_once sub = None \<Longrightarrow>
     bus_step w (w\<lparr>w_bus := subscribeAll sub (w_bus w), w_issued := sub # w_issued w\<rparr>)"
| Unsubscribe: "bus_step w (w\<lparr>w_bus := unsubscribe ty i (w_bus w)\<rparr>)"
| UnsubscribeAll: "bus_step w (w\<lparr>w_bus := unsubscribeAll sub (w_bus w)\<rparr>)"
| Emit: "emit e (w_bus w) = (called, b) \<Longrightarrow>
     bus_step w (w\<lparr>w_bus := b, w_pending := w_pending w @ map (\<lambda>s. (s, e)) called\<rparr>)"
| EmitSync: "emitSync throws e (w_bus w) = (called, b) \<Longrightarrow>
     bus_step w (w\<lparr>w_bus := b, w_delivered := w_delivered w @ map (\<lambda>s. (su_id s, e)) called\<rparr>)"
| RunTask: "w_pending w = before @ (s, e) # after \<Longrightarrow>
     bus_step w (w\<lparr>w_bus := invoke throws (w_bus w), w_pending := before @ after,
       w_delivered := w_delivered w @ [(su_id s, e)]\<rparr>)"
| Clear: "bus_step w (w\<lparr>w_bus := clear_bus (w_bus w)\<rparr>)"

inductive bus_reachable :: "bus_world \<Rightarrow> bool" where
  Start: "bus_reachable (new_world now)"
| Step: "bus_reachable w \<Longrightarrow> bus_step w w' \<Longrightarrow> bus_reachable w'"

inductive_cases bus_stepE: "bus_step w w'"

subsection \<open>Who is registered\<close>

definition registered :: "string \<Rightarrow> event_bus \<Rightarrow> subscription list" where
  "registered ty b = or_default (jm_get (eb_handlers b) ty) []"

lemma emit_scan_eq:
  "emit_scan e xs subs =
     (filter (passes e) xs, filter (\<lambda>s. \<forall>x \<in> set xs. passes e x \<and> is_once x \<longrightarrow> su_id s \<noteq> su_id x) subs)"
  by (induction xs arbitrary: subs) (auto simp: set_delete_def split_beta intro: filter_cong)

lemma emit_scan_distinct:
  assumes "distinct (map su_id subs)"
  shows "emit_scan e subs subs = (filter (passes e) subs, filter (\<lambda>s. \<not> (passes e s \<and> is_once s)) subs)"
  using assms by (auto simp: emit_scan_eq distinct_map inj_on_def intro!: filter_cong)

definition left_after :: "bus_event \<Rightarrow> string \<Rightarrow> event_bus \<Rightarrow> subscription list" where
  "left_after e ty b =
     (if ty = be_type e then filter (\<lambda>s. \<not> (passes e s \<and> is_once s)) (registered ty b) else registered ty b)"

lemma dispatch_typed_eq:
  assumes "distinct (map su_id (registered (be_type e) b))"
  shows "fst (dispatch_typed e b) = filter (passes e) (registered (be_type e) b)"
    and "or_default (jm_get (snd (dispatch_typed e b)) ty) [] = left_after e ty b"
  using assms
  by (auto simp: dispatch_typed_def registered_def left_after_def emit_scan_distinct split: option.splits)

lemma registered_simps:
  "registered ty (subscribe ty' sub b) = (if ty = ty' then registered ty b @ [sub] else registered ty b)"
  "registered ty (subscribeAll sub b) = registered ty b"
  "registered ty (unsubscribe ty' i b) = (if ty = ty' then delete_first i (registered ty b) else registered ty b)"
  "registered ty (unsubscribeAll sub b) = registered ty b"
  "registered ty (invoke throws b) = registered ty b"
  "registered ty (clear_bus b) = []"
  by (auto simp: registered_def subscribe_def subscribeAll_def unsubscribe_def unsubscribeAll_def invoke_def
    clear_bus_def jm_has_def Let_def split: option.splits)

lemma wildcard_simps:
  "eb_wildcard (subscribe ty sub b) = eb_wildcard b" "eb_wildcard (subscribeAll sub b) = eb_wildcard b @ [sub]"
  "eb_wildcard (unsubscribe ty i b) = eb_wildcard b"
  "eb_wildcard (unsubscribeAll sub b) = set_delete sub (eb_wildcard b)"
  "eb_wildcard (invoke throws b) = eb_wildcard b" "eb_wildcard (clear_bus b) = []"
  by (simp_all add: subscribe_def subscribeAll_def unsubscribe_def unsubscribeAll_def invoke_def clear_bus_def
    Let_def split: option.splits)

lemma invoke_all:
  "eb_handlers (foldl (\<lambda>b' sub. invoke (throws (su_id sub)) b') b xs) = eb_handlers b"
  "eb_wildcard (foldl (\<lambda>b' sub. invoke (throws (su_id sub)) b') b xs) = eb_wildcard b"
  "eb_processed (foldl (\<lambda>b' sub. invoke (throws (su_id sub)) b') b xs) = eb_processed b"
  "eb_startedAt (foldl (\<lambda>b' sub. invoke (throws (su_id sub)) b') b xs) = eb_startedAt b"
  "eb_dropped (foldl (\<lambda>b' sub. invoke (throws (su_id sub)) b') b xs) =
     eb_dropped b + length (filter (\<lambda>s. throws (su_id s)) xs)"
  by (induction xs arbitrary: b) (simp_all add: invoke_def)

text \<open>What either way of emitting does.\<close>

definition recipients :: "bus_event \<Rightarrow> event_bus \<Rightarrow> subscription list" where
  "recipients e b = filter (passes e) (registered (be_type e) b) @ filter (passes e) (eb_wildcard b)"

lemma emit_eqs:
  assumes "distinct (map su_id (registered (be_type e) b))" and "emit e b = (called, b')"
  shows "called = recipients e b" "registered ty b' = left_after e ty b" "eb_wildcard b' = eb_wildcard b"
    "eb_processed b' = eb_processed b + 1" "eb_dropped b' = eb_dropped b"
  using assms dispatch_typed_eq [OF assms(1)]
  by (auto simp: emit_def recipients_def registered_def [of _ b'] split: prod.splits)

lemma emitSync_eqs:
  assumes "distinct (map su_id (registered (be_type e) b))" and "emitSync throws e b = (called, b')"
  shows "called = recipients e b" "registered ty b' = left_after e ty b" "eb_wildcard b' = eb_wildcard b"
    "eb_processed b' = eb_processed b + 1"
    "eb_dropped b' = eb_dropped b + length (filter (\<lambda>s. throws (su_id s)) called)"
  using assms dispatch_typed_eq [OF assms(1)]
  by (auto simp: emitSync_def recipients_def registered_def [of _ b'] invoke_all Let_def split: prod.splits)

lemma delete_first_filter:
  "distinct (map su_id ss) \<Longrightarrow> delete_first i ss = filter (\<lambda>s. su_id s \<noteq> i) ss"
  by (induction ss) (auto simp: filter_id_conv image_iff eq_commute)

subsection \<open>What holds of every reachable world\<close>

definition bus_ok :: "subscription list \<Rightarrow> event_bus \<Rightarrow> bool" where
  "bus_ok issued b \<longleftrightarrow>
     (\<forall>ty. distinct (map su_id (registered ty b)) \<and> set (registered ty b) \<subseteq> set issued) \<and>
     (\<forall>ty ty' s. s \<in> set (registered ty b) \<and> s \<in> set (registered ty' b) \<longrightarrow> ty = ty') \<and>
     set (eb_wildcard b) \<subseteq> set issued \<and> (\<forall>s \<in> set (eb_wildcard b). \<not> is_once s)"

lemma bus_ok_unique:
  "bus_ok issued b \<Longrightarrow> s \<in> set (registered ty b) \<Longrightarrow> s \<in> set (registered ty' b) \<Longrightarrow> ty = ty'"
  unfolding bus_ok_def by blast

text \<open>Less subscriptions do no harm.\<close>

lemma bus_ok_shrink:
  assumes "bus_ok issued b"
    and "\<And>ty. \<exists>P. registered ty b' = filter P (registered ty b)"
    and "set (eb_wildcard b') \<subseteq> set (eb_wildcard b)"
  shows "bus_ok issued b'"
proof -
  obtain P where "\<And>ty. registered ty b' = filter (P ty) (registered ty b)"
    using assms(2) by metis
  then have "set (registered ty b') \<subseteq> set (registered ty b)"
    "distinct (map su_id (registered ty b)) \<Longrightarrow> distinct (map su_id (registered ty b'))" for ty
    by (auto intro: distinct_map_filter)
  with assms(1,3) show ?thesis unfolding bus_ok_def by (meson subset_iff)
qed

text \<open>How often the subscription \<open>i\<close> was invoked or is going to be.\<close>

definition runs :: "string \<Rightarrow> bus_world \<Rightarrow> nat" where
  "runs i w = length (filter (\<lambda>(s, e). su_id s = i) (w_pending w)) + length (filter (\<lambda>(j, e). j = i) (w_delivered w))"

definition world_inv :: "bus_world \<Rightarrow> bool" where
  "world_inv w \<longleftrightarrow>
     distinct (map su_id (w_issued w)) \<and> bus_ok (w_issued w) (w_bus w) \<and>
     (\<forall>i. i \<notin> su_id ` set (w_issued w) \<longrightarrow> runs i w = 0) \<and>
     (\<forall>ty. \<forall>s \<in> set (registered ty (w_bus w)). is_once s \<longrightarrow> runs (su_id s) w = 0) \<and>
     (\<forall>s \<in> set (w_issued w). is_once s \<longrightarrow> runs (su_id s) w \<le> 1)"

definition hits :: "string \<Rightarrow> subscription list \<Rightarrow> nat" where
  "hits i called = length (filter (\<lambda>s. su_id s = i) called)"

lemma runs_scheduled: "runs i (w\<lparr>w_bus := b, w_pending := w_pending w @ map (\<lambda>s. (s, e)) called\<rparr>) = runs i w + hits i called"
  by (simp add: runs_def hits_def filter_map comp_def)

lemma runs_sync: "runs i (w\<lparr>w_bus := b, w_delivered := w_delivered w @ map (\<lambda>s. (su_id s, e)) called\<rparr>) = runs i w + hits i called"
  by (simp add: runs_def hits_def filter_map comp_def)

lemma runs_task:
  "w_pending w = before @ (s, e) # after \<Longrightarrow>
     runs i (w\<lparr>w_bus := b, w_pending := before @ after, w_delivered := w_delivered w @ [(su_id s, e)]\<rparr>) = runs i w"
  by (simp add: runs_def)

lemma runs_bus [simp]:
  "runs i (w\<lparr>w_bus := b\<rparr>) = runs i w" "runs i (w\<lparr>w_bus := b, w_issued := issued\<rparr>) = runs i w"
  by (simp_all add: runs_def)

lemma length_filter_eq: "distinct xs \<Longrightarrow> length (filter (\<lambda>t. t = s) xs) = (if s \<in> set xs then 1 else 0)"
  by (induction xs) (auto simp: filter_empty_conv)

text \<open>An emission invokes a once-subscription at most once, and takes it out if it does.\<close>

lemma recipients_hits:
  assumes ok: "bus_ok issued b" and d: "distinct (map su_id issued)" and "s \<in> set issued" "is_once s"
  shows "hits (su_id s) (recipients e b) = (if s \<in> set (registered (be_type e) b) \<and> passes e s then 1 else 0)"
proof -
  have same: "t = s" if "t \<in> set issued" "su_id t = su_id s" for t
    using d that assms(3) by (auto simp: distinct_map inj_on_def)
  have w: "filter (\<lambda>t. su_id t = su_id s) (filter (passes e) (eb_wildcard b)) = []"
    using ok assms(4) same by (fastforce simp: bus_ok_def filter_empty_conv)
  have r: "filter (\<lambda>t. su_id t = su_id s) (filter (passes e) (registered (be_type e) b)) =
      filter (\<lambda>t. t = s) (filter (passes e) (registered (be_type e) b))"
    using ok same by (intro filter_cong) (auto simp: bus_ok_def)
  have "distinct (filter (passes e) (registered (be_type e) b))"
    using ok by (auto simp: bus_ok_def distinct_map)
  then have "length (filter (\<lambda>t. t = s) (filter (passes e) (registered (be_type e) b))) =
      (if s \<in> set (filter (passes e) (registered (be_type e) b)) then 1 else 0)"
    by (rule length_filter_eq)
  with r w show ?thesis by (simp add: hits_def recipients_def del: filter_filter)
qed

lemma recipients_issued:
  "bus_ok issued b \<Longrightarrow> s \<in> set (recipients e b) \<Longrightarrow> s \<in> set issued"
  by (auto simp: bus_ok_def recipients_def)

lemma hits_unissued:
  "bus_ok issued b \<Longrightarrow> i \<notin> su_id ` set issued \<Longrightarrow> hits i (recipients e b) = 0"
  by (auto simp: hits_def filter_empty_conv dest: recipients_issued)

text \<open>The effect of an emission on the invariant, whichever way its handlers are run.\<close>

lemma emission_inv:
  assumes inv: "world_inv w"
    and called: "called = recipients e (w_bus w)"
    and left: "\<And>ty. registered ty b = left_after e ty (w_bus w)" "eb_wildcard b = eb_wildcard (w_bus w)"
    and w': "w_bus w' = b" "w_issued w' = w_issued w" "\<And>i. runs i w' = runs i w + hits i called"
  shows "world_inv w'"
proof -
  have d: "distinct (map su_id (w_issued w))" and ok: "bus_ok (w_issued w) (w_bus w)"
    and fresh: "\<And>i. i \<notin> su_id ` set (w_issued w) \<Longrightarrow> runs i w = 0"
    and zero: "\<And>ty s. s \<in> set (registered ty (w_bus w)) \<Longrightarrow> is_once s \<Longrightarrow> runs (su_id s) w = 0"
    and one: "\<And>s. s \<in> set (w_issued w) \<Longrightarrow> is_once s \<Longrightarrow> runs (su_id s) w \<le> 1"
    using inv by (auto simp: world_inv_def)
  have h: "hits (su_id s) called = (if s \<in> set (registered (be_type e) (w_bus w)) \<and> passes e s then 1 else 0)"
    if "s \<in> set (w_issued w)" "is_once s" for s
    unfolding called by (rule recipients_hits [OF ok d that])
  have "bus_ok (w_issued w) b"
    using ok by (rule bus_ok_shrink) (auto simp: left left_after_def intro: exI [of _ "\<lambda>_. True"])
  moreover have "runs i w' = 0" if "i \<notin> su_id ` set (w_issued w)" for i
    using fresh [OF that] hits_unissued [OF ok that] by (simp add: w' called)
  moreover have "runs (su_id s) w' = 0" if "s \<in> set (registered ty b)" "is_once s" for ty s
  proof -
    have in_ty: "s \<in> set (registered ty (w_bus w))" and out: "ty = be_type e \<Longrightarrow> \<not> passes e s"
      using that by (auto simp: left left_after_def split: if_splits)
    moreover have "s \<in> set (w_issued w)" using ok in_ty by (auto simp: bus_ok_def)
    moreover have "s \<in> set (registered (be_type e) (w_bus w)) \<Longrightarrow> ty = be_type e"
      using bus_ok_unique [OF ok in_ty] by blast
    ultimately show ?thesis using zero [OF in_ty that(2)] h [OF _ that(2)] by (auto simp: w')
  qed
  moreover have "runs (su_id s) w' \<le> 1" if "s \<in> set (w_issued w)" "is_once s" for s
    using h [OF that] one [OF that] zero [OF _ that(2)] by (auto simp: w')
  ultimately show ?thesis using d by (simp add: world_inv_def w')
qed

lemma shrink_inv:
  assumes "world_inv w" and "bus_ok (w_issued w) b"
    and "\<And>ty. set (registered ty b) \<subseteq> set (registered ty (w_bus w))"
    and "w_bus w' = b" "w_issued w' = w_issued w" "\<And>i. runs i w' = runs i w"
  shows "world_inv w'"
  using assms unfolding world_inv_def by (metis subsetD)

lemma issue_inv:
  assumes inv: "world_inv w" and new: "su_id sub \<notin> su_id ` set (w_issued w)"
    and b: "bus_ok (sub # w_issued w) b" "\<And>ty s. s \<in> set (registered ty b) \<Longrightarrow> s = sub \<or> s \<in> set (registered ty (w_bus w))"
  shows "world_inv (w\<lparr>w_bus := b, w_issued := sub # w_issued w\<rparr>)"
  using inv new b(1) b(2) by (auto simp: world_inv_def) fastforce+

lemma step_inv:
  assumes "bus_step w w'" and inv: "world_inv w"
  shows "world_inv w'"
proof -
  have ok: "bus_ok (w_issued w) (w_bus w)" and d: "\<And>ty. distinct (map su_id (registered ty (w_bus w)))"
    using inv by (auto simp: world_inv_def bus_ok_def)
  from assms(1) show ?thesis
  proof cases
    case (Subscribe sub ty)
    have "sub \<notin> set (registered ty' (w_bus w))" for ty' using ok Subscribe(2) by (auto simp: bus_ok_def)
    moreover have "su_id sub \<notin> su_id ` set (registered ty (w_bus w))" using ok Subscribe(2) by (auto simp: bus_ok_def)
    ultimately have "bus_ok (sub # w_issued w) (subscribe ty sub (w_bus w))"
      using ok bus_ok_unique [OF ok]
      by (auto simp: bus_ok_def registered_simps wildcard_simps split: if_splits; blast)
    then show ?thesis unfolding Subscribe(1)
      by (rule issue_inv [OF inv Subscribe(2)]) (auto simp: registered_simps split: if_splits)
  next
    case (SubscribeAll sub)
    have "bus_ok (sub # w_issued w) (subscribeAll sub (w_bus w))"
      using ok SubscribeAll(3) by (auto simp: bus_ok_def registered_simps wildcard_simps is_once_def)
    then show ?thesis unfolding SubscribeAll(1)
      by (rule issue_inv [OF inv SubscribeAll(2)]) (auto simp: registered_simps)
  next
    case (Unsubscribe ty i)
    have "bus_ok (w_issued w) (unsubscribe ty i (w_bus w))"
      by (rule bus_ok_shrink [OF ok])
        (auto simp: registered_simps wildcard_simps delete_first_filter [OF d] intro: exI [of _ "\<lambda>_. True"])
    then show ?thesis unfolding Unsubscribe
      by (rule shrink_inv [OF inv]) (auto simp: registered_simps delete_first_filter [OF d])
  next
    case (UnsubscribeAll sub)
    have "bus_ok (w_issued w) (unsubscribeAll sub (w_bus w))"
      by (rule bus_ok_shrink [OF ok])
        (auto simp: registered_simps wildcard_simps set_delete_def intro: exI [of _ "\<lambda>_. True"])
    then show ?thesis unfolding UnsubscribeAll by (rule shrink_inv [OF inv]) (auto simp: registered_simps)
  next
    case (Emit e called b)
    show ?thesis unfolding Emit(1)
      by (rule emission_inv [OF inv emit_eqs(1,2,3) [OF d Emit(2)]]) (simp_all add: runs_scheduled)
  next
    case (EmitSync throws e called b)
    show ?thesis unfolding EmitSync(1)
      by (rule emission_inv [OF inv emitSync_eqs(1,2,3) [OF d EmitSync(2)]]) (simp_all add: runs_sync)
  next
    case (RunTask before s e after throws)
    have "bus_ok (w_issued w) (invoke throws (w_bus w))"
      by (rule bus_ok_shrink [OF ok]) (auto simp: registered_simps wildcard_simps intro: exI [of _ "\<lambda>_. True"])
    then show ?thesis unfolding RunTask(1)
      by (rule shrink_inv [OF inv]) (auto simp: registered_simps runs_task [OF RunTask(2)])
  next
    case Clear
    have "bus_ok (w_issued w) (clear_bus (w_bus w))"
      by (rule bus_ok_shrink [OF ok]) (auto simp: registered_simps wildcard_simps intro: exI [of _ "\<lambda>_. False"])
    then show ?thesis unfolding Clear by (rule shrink_inv [OF inv]) (auto simp: registered_simps)
  qed
qed

lemma reachable_inv: "bus_reachable w \<Longrightarrow> world_inv w"
proof (induction rule: bus_reachable.induct)
  case (Start now)
  then show ?case
    by (simp add: world_inv_def new_world_def new_bus_def bus_ok_def registered_def runs_def)
qed (rule step_inv)

subsection \<open>Properties\<close>

text \<open>C18: A subscription made with \<open>once\<close> is invoked at most once: in every world that subscribing,
  unsubscribing, emitting in both ways, clearing and the scheduler can reach, its handler has run or is
  waiting to run at most once in total, and not at all as long as it is still registered.\<close>

theorem once_runs_at_most_once:
  assumes "bus_reachable w" and "s \<in> set (w_issued w)" and "is_once s"
  shows "length (filter (\<lambda>(t, e). su_id t = su_id s) (w_pending w)) +
      length (filter (\<lambda>(j, e). j = su_id s) (w_delivered w)) \<le> 1 \<and>
    (s \<in> set (registered ty (w_bus w)) \<longrightarrow> su_id s \<notin> fst ` set (w_delivered w))"
proof
  note inv = reachable_inv [OF assms(1)]
  show "length (filter (\<lambda>(t, e). su_id t = su_id s) (w_pending w)) +
      length (filter (\<lambda>(j, e). j = su_id s) (w_delivered w)) \<le> 1"
    using inv assms(2,3) by (auto simp: world_inv_def runs_def)
  show "s \<in> set (registered ty (w_bus w)) \<longrightarrow> su_id s \<notin> fst ` set (w_delivered w)"
    using inv assms(3) by (fastforce simp: world_inv_def runs_def filter_empty_conv)
qed

text \<open>Concrete worlds: one subscription with \<open>once\<close>, one event of its type.\<close>

definition sample_sub :: subscription where
  "sample_sub = \<lparr>su_id = ''s1'', su_handler = 0, su_filter = None, su_once = Some True\<rparr>"

definition sample_event :: bus_event where
  "sample_event = \<lparr>be_type = ''kyc'', be_id = ''e1'', be_timestamp = 0, be_correlationId = None,
     be_causationId = None, be_tenantId = None, be_userId = None, be_severity = SevInfo, be_metadata = None,
     be_payload = JNull\<rparr>"

definition world_subscribed :: bus_world where
  "world_subscribed = (new_world 0)\<lparr>w_bus := subscribe ''kyc'' sample_sub (new_bus 0), w_issued := [sample_sub]\<rparr>"

definition world_emitted :: bus_world where
  "world_emitted = world_subscribed\<lparr>w_bus := snd (emit sample_event (w_bus world_subscribed)),
     w_pending := [(sample_sub, sample_event)]\<rparr>"

lemma subscribed_reachable: "bus_reachable world_subscribed"
proof -
  have "bus_step (new_world 0) ((new_world 0)\<lparr>w_bus := subscribe ''kyc'' sample_sub (w_bus (new_world 0)),
      w_issued := sample_sub # w_issued (new_world 0)\<rparr>)"
    by (rule bus_step.Subscribe) (simp add: new_world_def)
  then have "bus_step (new_world 0) world_subscribed"
    by (simp add: new_world_def world_subscribed_def)
  with bus_reachable.Start show ?thesis by (rule bus_reachable.Step)
qed

lemma world_emitted_reachable: "bus_reachable world_emitted"
proof -
  have "emit sample_event (w_bus world_subscribed) = ([sample_sub], snd (emit sample_event (w_bus world_subscribed)))"
    by (simp add: world_subscribed_def subscribe_def new_bus_def emit_def dispatch_typed_def sample_event_def
      sample_sub_def passes_def jm_has_def jm_get_def jm_set_def jm_empty_def set_delete_def is_once_def)
  from bus_step.Emit [OF this] have "bus_step world_subscribed world_emitted"
    by (simp add: world_emitted_def world_subscribed_def new_world_def)
  with subscribed_reachable show ?thesis by (rule bus_reachable.Step)
qed

lemma once_runs_at_most_once_witness:
  "length (filter (\<lambda>(t, e). su_id t = ''s1'') (w_pending world_emitted)) \<le> 1"
  using once_runs_at_most_once [OF world_emitted_reachable, of sample_sub "''kyc''"]
  by (simp add: world_emitted_def world_subscribed_def new_world_def sample_sub_def is_once_def)

text \<open>An emission reaches exactly the subscriptions of the event's type whose filter accepts it, in
  the order in which they subscribed, and then the accepting wildcard subscriptions; the once-subscriptions
  among them are gone afterwards and no other registration changes. \<open>emit\<close> and \<open>emitSync\<close> agree on all of
  it; \<open>emitSync\<close> counts the handlers that threw, \<open>emit\<close> ends before any handler ran.\<close>

theorem emission_reaches_subscribers:
  assumes "bus_reachable w"
  shows "fst (emit e (w_bus w)) = filter (passes e) (registered (be_type e) (w_bus w)) @ filter (passes e) (eb_wildcard (w_bus w)) \<and>
    fst (emitSync throws e (w_bus w)) = fst (emit e (w_bus w)) \<and>
    registered ty (snd (emit e (w_bus w))) = left_after e ty (w_bus w) \<and>
    registered ty (snd (emitSync throws e (w_bus w))) = left_after e ty (w_bus w) \<and>
    eb_dropped (snd (emit e (w_bus w))) = eb_dropped (w_bus w) \<and>
    eb_dropped (snd (emitSync throws e (w_bus w))) =
      eb_dropped (w_bus w) + length (filter (\<lambda>s. throws (su_id s)) (fst (emit e (w_bus w))))"
proof -
  have d: "distinct (map su_id (registered (be_type e) (w_bus w)))"
    using reachable_inv [OF assms] by (auto simp: world_inv_def bus_ok_def)
  obtain called b called' b' where r: "emit e (w_bus w) = (called, b)" "emitSync throws e (w_bus w) = (called', b')"
    by (metis surj_pair)
  show ?thesis
    using emit_eqs(1,5) [OF d r(1)] emit_eqs(2) [OF d r(1)] emitSync_eqs(1,5) [OF d r(2)] emitSync_eqs(2) [OF d r(2)]
    by (simp add: r recipients_def)
qed

lemma emission_reaches_subscribers_witness:
  "fst (emit sample_event (w_bus world_subscribed)) = [sample_sub] \<and>
   registered ''kyc'' (snd (emit sample_event (w_bus world_subscribed))) = []"
  using emission_reaches_subscribers [OF subscribed_reachable, of sample_event "\<lambda>_. False" "''kyc''"]
  by (simp add: world_subscribed_def subscribe_def new_bus_def registered_def left_after_def sample_event_def
    sample_sub_def passes_def jm_has_def jm_get_def jm_set_def jm_empty_def is_once_def)

text \<open>The counts that \<open>stats\<close> gives.\<close>

definition counts_ok :: "bus_world \<Rightarrow> bool" where
  "counts_ok w \<longleftrightarrow>
     jm_ok (eb_handlers (w_bus w)) \<and> (\<forall>ty. jm_get (eb_handlers (w_bus w)) ty \<noteq> Some []) \<and>
     eb_dropped (w_bus w) \<le> length (w_delivered w)"

lemma dispatch_keeps:
  assumes "jm_ok (eb_handlers b)" "\<forall>ty. jm_get (eb_handlers b) ty \<noteq> Some []"
  shows "jm_ok (snd (dispatch_typed e b))" "jm_get (snd (dispatch_typed e b)) ty \<noteq> Some []"
  using assms by (auto simp: dispatch_typed_def Let_def split: option.splits prod.splits)

lemma emitSync_counts:
  assumes "emitSync throws e b = (called, b')"
  shows "eb_dropped b' = eb_dropped b + length (filter (\<lambda>s. throws (su_id s)) called)"
    "eb_handlers b' = snd (dispatch_typed e b)"
  using assms by (auto simp: emitSync_def invoke_all Let_def split: prod.splits)

lemma step_counts:
  assumes "bus_step w w'" and ok: "counts_ok w"
  shows "counts_ok w'"
  using assms(1)
proof cases
  case (Emit e called b)
  then show ?thesis using ok dispatch_keeps [of "w_bus w" e]
    by (auto simp: counts_ok_def emit_def split: prod.splits)
next
  case (EmitSync throws e called b)
  have "eb_dropped b \<le> eb_dropped (w_bus w) + length called"
    using emitSync_counts(1) [OF EmitSync(2)] by simp
  then show ?thesis using ok dispatch_keeps [of "w_bus w" e] emitSync_counts(2) [OF EmitSync(2)]
    by (simp add: counts_ok_def EmitSync(1))
qed (use ok in \<open>auto simp: counts_ok_def subscribe_def subscribeAll_def unsubscribe_def unsubscribeAll_def
    clear_bus_def invoke_def Let_def split: option.splits\<close>)

lemma reachable_counts: "bus_reachable w \<Longrightarrow> counts_ok w"
proof (induction rule: bus_reachable.induct)
  case (Start now)
  then show ?case by (simp add: counts_ok_def new_world_def new_bus_def)
qed (rule step_counts)

text \<open>In every reachable world the statistics are right: handlersByType lists exactly the types that
  have a subscription, each once and with the number of its subscriptions, and no more events were
  counted as dropped than handlers have run.\<close>

theorem bus_statistics:
  assumes "bus_reachable w"
  shows "distinct (map fst (bs_handlersByType (stats_bus now (w_bus w)))) \<and>
    ((ty, n) \<in> set (bs_handlersByType (stats_bus now (w_bus w))) \<longleftrightarrow>
      n = length (registered ty (w_bus w)) \<and> 0 < n) \<and>
    bs_eventsDropped (stats_bus now (w_bus w)) \<le> length (w_delivered w)"
proof -
  note ok = reachable_counts [OF assms]
  have keys: "fst \<circ> (\<lambda>(ty, subs). (ty, length subs)) = (fst :: string \<times> subscription list \<Rightarrow> string)"
    by auto
  have "(ty, n) \<in> set (map (\<lambda>(ty, subs). (ty, length subs)) (eb_handlers (w_bus w))) \<longleftrightarrow>
      (\<exists>subs. jm_get (eb_handlers (w_bus w)) ty = Some subs \<and> n = length subs)"
    using ok by (force simp: counts_ok_def jm_get_iff_mem)
  also have "\<dots> \<longleftrightarrow> n = length (registered ty (w_bus w)) \<and> 0 < n"
    using ok by (cases "jm_get (eb_handlers (w_bus w)) ty") (auto simp: counts_ok_def registered_def)
  finally show ?thesis
    using ok by (simp add: stats_bus_def counts_ok_def jm_ok_def keys)
qed

lemma bus_statistics_witness:
  "(''kyc'', 1) \<in> set (bs_handlersByType (stats_bus 0 (w_bus world_subscribed)))"
  using bus_statistics [OF subscribed_reachable, of 0 "''kyc''" 1]
  by (simp add: world_subscribed_def subscribe_def new_bus_def registered_def jm_has_def jm_get_def jm_set_def
    jm_empty_def)

text \<open>Unsubscribing takes back exactly what subscribing did, but does not reach what is already with
  the scheduler: a handler can run after its subscription was cancelled and even after \<open>clear\<close>.\<close>

theorem cancelled_handlers_still_run:
  assumes "bus_reachable w" and "su_id sub \<notin> su_id ` set (w_issued w)"
  shows "registered ty' (unsubscribe ty (su_id sub) (subscribe ty sub (w_bus w))) = registered ty' (w_bus w) \<and>
    (\<exists>w1 w2. bus_reachable w1 \<and> eb_handlers (w_bus w1) = jm_empty \<and> eb_wildcard (w_bus w1) = [] \<and>
      bus_step w1 w2 \<and> w_delivered w2 = w_delivered w1 @ [(su_id sample_sub, sample_event)])"
proof
  have "distinct (map su_id (registered ty (w_bus w) @ [sub]))" "su_id sub \<notin> su_id ` set (registered ty (w_bus w))"
    using reachable_inv [OF assms(1)] assms(2) by (auto simp: world_inv_def bus_ok_def)
  then show "registered ty' (unsubscribe ty (su_id sub) (subscribe ty sub (w_bus w))) = registered ty' (w_bus w)"
    by (auto simp: registered_simps delete_first_filter filter_id_conv image_iff simp del: map_append)
next
  let ?w1 = "world_emitted\<lparr>w_bus := clear_bus (w_bus world_emitted)\<rparr>"
  have "bus_reachable ?w1"
    using world_emitted_reachable bus_step.Clear by (rule bus_reachable.Step)
  moreover have "w_pending ?w1 = [] @ (sample_sub, sample_event) # []" by (simp add: world_emitted_def)
  note bus_step.RunTask [OF this, of False]
  ultimately show "\<exists>w1 w2. bus_reachable w1 \<and> eb_handlers (w_bus w1) = jm_empty \<and> eb_wildcard (w_bus w1) = [] \<and>
      bus_step w1 w2 \<and> w_delivered w2 = w_delivered w1 @ [(su_id sample_sub, sample_event)]"
    by (intro exI [of _ ?w1] exI conjI) (assumption | simp add: clear_bus_def)+
qed

lemma cancelled_handlers_still_run_witness:
  "registered ''kyc'' (unsubscribe ''kyc'' ''s1'' (subscribe ''kyc'' sample_sub (w_bus (new_world 0)))) = []"
  using cancelled_handlers_still_run [OF bus_reachable.Start [of 0], of sample_sub "''kyc''" "''kyc''"]
  by (simp add: new_world_def new_bus_def sample_sub_def registered_def)

end
