(* ===== verification/CredentialIssuer.thy ===== *)
theory CredentialIssuer
  imports CredentialService
begin

section \<open>The credential issuer service\<close>

text \<open>
  services/credential-issuer/src: config.ts, issuer.ts and handler.ts. Requests are their parsed JSON
  bodies. The text of a date is the parameter \<open>df_iso\<close>, the reading of a date \<open>df_ms\<close>, the hash that
  stands as the proof \<open>digest\<close> (SHA-256 of the JSON text of its argument); ids and the clock are
  arguments. An expiry is a whole number of seconds.
\<close>

subsection \<open>Configuration\<close>

record schema_entry =
  sn_id :: string
  sn_type :: string
  sn_version :: string
  sn_schema :: json
  sn_requiredFields :: "string list"

record signing_key_config =
  sg_keyId :: string
  sg_algorithm :: string
  sg_privateKeyPath :: string
  sg_publicKeyPath :: string

record issuer_config =
  is_port :: "int option"
  is_host :: string
  is_signingKey :: signing_key_config
  is_schemaRegistry :: "schema_entry list"
  is_defaultExpirySeconds :: "int option"
  is_maxCredentialBatch :: "int option"
  is_verifyDidEndpoint :: string

definition text_schema :: "string \<Rightarrow> json" where
  "text_schema t = JObj [(''type'', JStr t)]"

definition date_schema :: json where
  "date_schema = JObj [(''type'', JStr ''string''), (''format'', JStr ''date-time'')]"

definition age_field_schema :: json where
  "age_field_schema = JObj [(''type'', JStr ''integer''), (''minimum'', JNum 18)]"

definition KycBasic :: schema_entry where
  "KycBasic =
     \<lparr>sn_id = ''KycBasicV1'', sn_type = ''KycBasic'', sn_version = ''1.0.0'',
      sn_schema = JObj
        [(''type'', JStr ''object''),
         (''properties'', JObj
           [(''id'', text_schema ''string''), (''age'', age_field_schema), (''nationality'', text_schema ''string''),
            (''verificationDate'', date_schema)]),
         (''required'', JArr [JStr ''id'', JStr ''age'', JStr ''verificationDate''])],
      sn_requiredFields = [''id'', ''age'', ''verificationDate'']\<rparr>"

definition KycAdvanced :: schema_entry where
  "KycAdvanced =
     \<lparr>sn_id = ''KycAdvancedV1'', sn_type = ''KycAdvanced'', sn_version = ''1.1.0'',
      sn_schema = JObj
        [(''type'', JStr ''object''),
         (''properties'', JObj
           [(''id'', text_schema ''string''), (''age'', age_field_schema), (''nationality'', text_schema ''string''),
            (''address'', text_schema ''string''),
            (''documentType'', JObj [(''type'', JStr ''string''),
               (''enum'', JArr [JStr ''passport'', JStr ''id_card'', JStr ''drivers_license''])]),
            (''verificationDate'', date_schema), (''expiryDate'', date_schema)]),
         (''required'', JArr [JStr ''id'', JStr ''age'', JStr ''nationality'', JStr ''verificationDate''])],
      sn_requiredFields = [''id'', ''age'', ''nationality'', ''verificationDate'']\<rparr>"

definition loadConfig_issuer :: "(string \<Rightarrow> string option) \<Rightarrow> issuer_config" where
  "loadConfig_issuer env =
     \<lparr>is_port = parseInt10 (env_or env ''CREDENTIAL_ISSUER_PORT'' ''3020''),
      is_host = env_or env ''CREDENTIAL_ISSUER_HOST'' ''0.0.0.0'',
      is_signingKey =
        \<lparr>sg_keyId = env_or env ''SIGNING_KEY_ID'' ''issuer-key-1'',
         sg_algorithm = env_or env ''SIGNING_KEY_ALGORITHM'' ''Ed25519'',
         sg_privateKeyPath = env_or env ''SIGNING_PRIVATE_KEY_PATH'' ''/keys/issuer-private.pem'',
         sg_publicKeyPath = env_or env ''SIGNING_PUBLIC_KEY_PATH'' ''/keys/issuer-public.pem''\<rparr>,
      is_schemaRegistry = [KycBasic, KycAdvanced],
      is_defaultExpirySeconds = parseInt10 (env_or env ''CREDENTIAL_DEFAULT_EXPIRY_SECONDS'' ''31536000''),
      is_maxCredentialBatch = parseInt10 (env_or env ''CREDENTIAL_MAX_BATCH'' ''100''),
      is_verifyDidEndpoint = env_or env ''VERIFY_DID_ENDPOINT'' ''http://did-resolver:3010/api/v1/did/resolve''\<rparr>"

subsection \<open>Issuing\<close>

record issuer_state =
  ci_revokedCredentials :: "string set"
  ci_suspendedCredentials :: "string set"

definition new_issuer :: issuer_state where
  "new_issuer = \<lparr>ci_revokedCredentials = {}, ci_suspendedCredentials = {}\<rparr>"

record issue_request =
  iq_schemaId :: string
  iq_subject :: json
  iq_issuerDid :: string
  iq_expirySeconds :: "int option"

record date_functions =
  df_iso :: "int \<Rightarrow> string"
  df_ms :: "json \<Rightarrow> int option"

definition getSchema :: "issuer_config \<Rightarrow> string \<Rightarrow> schema_entry option" where
  "getSchema config schemaId = List.find (\<lambda>s. sn_id s = schemaId) (is_schemaRegistry config)"

definition generateProof :: "(json \<Rightarrow> string) \<Rightarrow> json \<Rightarrow> string \<Rightarrow> int \<Rightarrow> string" where
  "generateProof digest subject issuerDid now =
     digest (JObj [(''subject'', subject), (''issuer'', JStr issuerDid), (''issuedAt'', JNum (of_int now))])"

text \<open>\<open>field in subject\<close> for a name that no prototype has: it throws unless the subject is an object.\<close>

fun has_field :: "json \<Rightarrow> string \<Rightarrow> bool result" where
  "has_field (JObj es) f = Inr (f \<in> fst ` set es)"
| "has_field (JArr vs) f = Inr False"
| "has_field v f = Inl (JsTypeError ''Cannot use in operator'')"

fun missing_fields :: "json \<Rightarrow> string list \<Rightarrow> string list result" where
  "missing_fields subject [] = Inr []"
| "missing_fields subject (f # fs) =
     (case has_field subject f of
        Inl e \<Rightarrow> Inl e
      | Inr b \<Rightarrow> (case missing_fields subject fs of Inl e \<Rightarrow> Inl e | Inr ms \<Rightarrow> Inr (if b then ms else f # ms)))"

definition issueCredential ::
    "issuer_config \<Rightarrow> date_functions \<Rightarrow> (json \<Rightarrow> string) \<Rightarrow> int \<Rightarrow> string \<Rightarrow> issue_request \<Rightarrow> json result" where
  "issueCredential config D digest now uuid request =
     (case getSchema config (iq_schemaId request) of
        None \<Rightarrow> Inl (JsError (''Unknown schema: '' @ iq_schemaId request))
      | Some schema \<Rightarrow>
          (case missing_fields (iq_subject request) (sn_requiredFields schema) of
             Inl e \<Rightarrow> Inl e
           | Inr missing \<Rightarrow>
               if missing \<noteq> [] then Inl (JsError (''Missing required fields: '' @ join_with '', '' missing))
               else
                 (let expirySeconds = (case iq_expirySeconds request of Some s \<Rightarrow> Some s | None \<Rightarrow> is_defaultExpirySeconds config)
                  in case date_iso (map_option (\<lambda>s. now + s * 1000) expirySeconds) of
                       Inl e \<Rightarrow> Inl e
                     | Inr expiration \<Rightarrow>
                         Inr (JObj
                           [(''@context'', JArr [JStr ''https://www.w3.org/2018/credentials/v1'',
                               JStr ''https://www.w3.org/2018/credentials/examples/v1'']),
                            (''id'', JStr (''urn:uuid:'' @ uuid)),
                            (''type'', JArr [JStr ''VerifiableCredential'', JStr (sn_type schema)]),
                            (''issuer'', JStr (iq_issuerDid request)),
                            (''issuanceDate'', JStr (df_iso D now)),
                            (''expirationDate'', JStr (df_iso D expiration)),
                            (''credentialSubject'', iq_subject request),
                            (''credentialSchema'', JObj [(''id'', JStr (sn_id schema)), (''type'', JStr ''JsonSchemaValidator2018'')]),
                            (''proof'', JObj
                               [(''type'', JStr ''Ed25519Signature2020''), (''created'', JStr (df_iso D now)),
                                (''verificationMethod'', JStr (iq_issuerDid request @ ''#'' @ sg_keyId (is_signingKey config))),
                                (''proofPurpose'', JStr ''assertionMethod''),
                                (''proofValue'', JStr (generateProof digest (iq_subject request) (iq_issuerDid request) now))])]))))"

text \<open>\<open>Promise.all(requests.map(...))\<close>: the requests are worked off one after the other without an await, so
  that the first one that fails decides. A comparison with NaN is false.\<close>

fun issue_all ::
    "issuer_config \<Rightarrow> date_functions \<Rightarrow> (json \<Rightarrow> string) \<Rightarrow> int \<Rightarrow> (nat \<Rightarrow> string) \<Rightarrow> nat \<Rightarrow> issue_request list \<Rightarrow> json list result" where
  "issue_all config D digest now uuids n [] = Inr []"
| "issue_all config D digest now uuids n (r # rs) =
     (case issueCredential config D digest now (uuids n) r of
        Inl e \<Rightarrow> Inl e
      | Inr c \<Rightarrow> (case issue_all config D digest now uuids (Suc n) rs of Inl e \<Rightarrow> Inl e | Inr cs \<Rightarrow> Inr (c # cs)))"

definition issueBatch ::
    "issuer_config \<Rightarrow> date_functions \<Rightarrow> (json \<Rightarrow> string) \<Rightarrow> int \<Rightarrow> (nat \<Rightarrow> string) \<Rightarrow> issue_request list \<Rightarrow> json list result" where
  "issueBatch config D digest now uuids requests =
     (case is_maxCredentialBatch config of
        Some m \<Rightarrow>
          if int (length requests) > m
          then Inl (JsError (''Batch size '' @ show_nat (length requests) @ '' exceeds maximum '' @ show_int m))
          else issue_all config D digest now uuids 0 requests
      | None \<Rightarrow> issue_all config D digest now uuids 0 requests)"

subsection \<open>Verifying and revoking\<close>

record verify_result =
  vf_valid :: bool
  vf_errors :: "string list"
  vf_schemaValid :: bool
  vf_proofValid :: bool
  vf_notExpired :: bool

definition verify_errors :: "date_functions \<Rightarrow> int \<Rightarrow> json \<Rightarrow> issuer_state \<Rightarrow> string list" where
  "verify_errors D now credential st =
     (if truthy_prop credential ''expirationDate'' \<and>
         (case df_ms D (the (json_prop credential ''expirationDate'')) of None \<Rightarrow> False | Some t \<Rightarrow> t < now)
      then [''Credential has expired''] else []) @
     (case text_prop credential ''id'' of
        Some i \<Rightarrow> if i \<in> ci_revokedCredentials st then [''Credential has been revoked''] else []
      | None \<Rightarrow> [])"

definition verifyCredential :: "issuer_config \<Rightarrow> date_functions \<Rightarrow> int \<Rightarrow> json \<Rightarrow> issuer_state \<Rightarrow> verify_result" where
  "verifyCredential config D now credential st =
     (let hasProof = truthy_prop credential ''proof'';
          hasSubject = truthy_prop credential ''credentialSubject'';
          hasSchema = truthy_prop credential ''credentialSchema'';
          schemaEntry = (if hasSchema then
              Option.bind (text_prop (the (json_prop credential ''credentialSchema'')) ''id'') (getSchema config) else None);
          errors = verify_errors D now credential st
      in \<lparr>vf_valid = (errors = [] \<and> hasProof \<and> hasSubject \<and> hasSchema), vf_errors = errors,
          vf_schemaValid = (schemaEntry \<noteq> None), vf_proofValid = hasProof, vf_notExpired = (errors = [])\<rparr>)"

definition revokeCredential :: "string \<Rightarrow> issuer_state \<Rightarrow> issuer_state" where
  "revokeCredential i st = st\<lparr>ci_revokedCredentials := insert i (ci_revokedCredentials st)\<rparr>"

definition suspendCredential :: "string \<Rightarrow> issuer_state \<Rightarrow> issuer_state" where
  "suspendCredential i st = st\<lparr>ci_suspendedCredentials := insert i (ci_suspendedCredentials st)\<rparr>"

definition unsuspendCredential :: "string \<Rightarrow> issuer_state \<Rightarrow> issuer_state" where
  "unsuspendCredential i st = st\<lparr>ci_suspendedCredentials := ci_suspendedCredentials st - {i}\<rparr>"

record credential_status_result =
  sr_active :: bool
  sr_revoked :: bool
  sr_suspended :: bool
  sr_lastModified :: int

definition getCredentialStatus :: "int \<Rightarrow> string \<Rightarrow> issuer_state \<Rightarrow> credential_status_result" where
  "getCredentialStatus now i st =
     \<lparr>sr_active = (i \<notin> ci_revokedCredentials st \<and> i \<notin> ci_suspendedCredentials st),
      sr_revoked = (i \<in> ci_revokedCredentials st), sr_suspended = (i \<in> ci_suspendedCredentials st),
      sr_lastModified = now\<rparr>"

definition resolveIssuerDid :: "(string \<Rightarrow> 'doc result) \<Rightarrow> string \<Rightarrow> bool" where
  "resolveIssuerDid resolve issuerDid = (case resolve issuerDid of Inl e \<Rightarrow> False | Inr doc \<Rightarrow> True)"

subsection \<open>The routes\<close>

text \<open>A body as far as a route reads it; texts where the code treats the value as a text.\<close>

record issue_body =
  ib_schemaId :: "string option"
  ib_subject :: "json option"
  ib_issuerDid :: "string option"
  ib_expirySeconds :: "int option"

datatype issuer_request =
    GetHealth
  | GetSchemas
  | GetSchema string
  | PostIssue issue_body
  | PostIssueBatch "issue_request list option" \<comment> \<open>None: missing or no array\<close>
  | PostVerify "json option"
  | GetStatus string
  | PostRevoke "string option"
  | PostSuspend "string option"
  | PostUnsuspend "string option"

datatype issuer_reply =
    Healthy string
  | Schemas "schema_entry list"
  | Schema schema_entry
  | Failed int string
  | Created json
  | CreatedBatch nat "json list"
  | Verified verify_result
  | StatusOf string credential_status_result
  | Done string string

definition with_id :: "string option \<Rightarrow> string \<Rightarrow> (string \<Rightarrow> issuer_state \<Rightarrow> issuer_state) \<Rightarrow> issuer_state
    \<Rightarrow> issuer_reply \<times> issuer_state" where
  "with_id credentialId what f st =
     (let i = or_default credentialId []
      in if i = [] then (Failed 400 ''Missing required field: credentialId'', st) else (Done what i, f i st))"

definition present :: "json option \<Rightarrow> bool" where
  "present v = (case v of None \<Rightarrow> False | Some w \<Rightarrow> json_truthy w)"

fun issuer_route ::
    "issuer_config \<Rightarrow> date_functions \<Rightarrow> (json \<Rightarrow> string) \<Rightarrow> int \<Rightarrow> (nat \<Rightarrow> string) \<Rightarrow> issuer_request \<Rightarrow> issuer_state
      \<Rightarrow> issuer_reply \<times> issuer_state" where
  "issuer_route config D digest now uuids GetHealth st = (Healthy ''credential-issuer'', st)"
| "issuer_route config D digest now uuids GetSchemas st = (Schemas (is_schemaRegistry config), st)"
| "issuer_route config D digest now uuids (GetSchema i) st =
     (case getSchema config i of
        None \<Rightarrow> (Failed 404 (''Schema '' @ i @ '' not found''), st) | Some s \<Rightarrow> (Schema s, st))"
| "issuer_route config D digest now uuids (PostIssue b) st =
     (if or_default (ib_schemaId b) [] = [] \<or> \<not> present (ib_subject b) \<or> or_default (ib_issuerDid b) [] = []
      then (Failed 400 ''Missing required fields: schemaId, subject, issuerDid'', st)
      else case issueCredential config D digest now (uuids 0)
                  \<lparr>iq_schemaId = or_default (ib_schemaId b) [], iq_subject = the (ib_subject b),
                   iq_issuerDid = or_default (ib_issuerDid b) [], iq_expirySeconds = ib_expirySeconds b\<rparr> of
             Inl e \<Rightarrow> (Failed 400 (exn_message e), st)
           | Inr c \<Rightarrow> (Created c, st))"
| "issuer_route config D digest now uuids (PostIssueBatch requests) st =
     (case requests of
        None \<Rightarrow> (Failed 400 ''Missing required field: requests (array)'', st)
      | Some rs \<Rightarrow>
          (case issueBatch config D digest now uuids rs of
             Inl e \<Rightarrow> (Failed 400 (exn_message e), st)
           | Inr cs \<Rightarrow> (CreatedBatch (length cs) cs, st)))"
| "issuer_route config D digest now uuids (PostVerify c) st =
     (if \<not> present c then (Failed 400 ''Missing required field: credential'', st)
      else (Verified (verifyCredential config D now (the c) st), st))"
| "issuer_route config D digest now uuids (GetStatus i) st = (StatusOf i (getCredentialStatus now i st), st)"
| "issuer_route config D digest now uuids (PostRevoke i) st = with_id i ''revoked'' revokeCredential st"
| "issuer_route config D digest now uuids (PostSuspend i) st = with_id i ''suspended'' suspendCredential st"
| "issuer_route config D digest now uuids (PostUnsuspend i) st = with_id i ''unsuspended'' unsuspendCredential st"

subsection \<open>Properties\<close>

text \<open>A run of the service: requests with their times and fresh ids.\<close>

definition issuer_step ::
    "issuer_config \<Rightarrow> date_functions \<Rightarrow> (json \<Rightarrow> string) \<Rightarrow> int \<times> (nat \<Rightarrow> string) \<times> issuer_request \<Rightarrow> issuer_state \<Rightarrow> issuer_state" where
  "issuer_step config D digest e st = (case e of (now, uuids, r) \<Rightarrow> snd (issuer_route config D digest now uuids r st))"

lemma revoked_grow: "ci_revokedCredentials st \<subseteq> ci_revokedCredentials (issuer_step config D digest e st)"
proof -
  obtain now uuids r where e: "e = (now, uuids, r)" by (metis surj_pair)
  show ?thesis
    by (cases r)
      (auto simp: e issuer_step_def with_id_def Let_def revokeCredential_def suspendCredential_def unsuspendCredential_def
        split: option.splits sum.splits)
qed

interpretation ci: monotone_machine "issuer_step config D digest" "\<lambda>e s. True" "\<lambda>s. True" ci_revokedCredentials
  for config D digest
  by unfold_locales (simp_all add: revoked_grow)

lemma verify_refuses_revoked:
  "text_prop c ''id'' = Some i \<Longrightarrow> i \<in> ci_revokedCredentials st \<Longrightarrow>
     \<not> vf_valid (verifyCredential config D now c st)"
  by (auto simp: verifyCredential_def verify_errors_def Let_def)

text \<open>Revocation is for good: after a revocation, whatever requests follow, the credential of that id is
  reported revoked and inactive, and no credential with that id verifies any more.\<close>

theorem issuer_revocation_permanent:
  assumes "i \<noteq> []"
    and st': "st' = run_events (issuer_step config D digest) es
      (snd (issuer_route config D digest t uuids (PostRevoke (Some i)) st))"
  shows "sr_revoked (getCredentialStatus now i st') \<and> \<not> sr_active (getCredentialStatus now i st') \<and>
    (text_prop c ''id'' = Some i \<longrightarrow> \<not> vf_valid (verifyCredential config D now c st'))"
proof -
  have "ci_revokedCredentials (snd (issuer_route config D digest t uuids (PostRevoke (Some i)) st)) \<subseteq> ci_revokedCredentials st'"
    unfolding st' by (rule ci.rank_run) simp_all
  then have "i \<in> ci_revokedCredentials st'"
    using assms(1) by (auto simp: with_id_def revokeCredential_def)
  then show ?thesis by (auto simp: getCredentialStatus_def verify_refuses_revoked)
qed

lemma verify_suspended:
  "verify_errors D now c (st\<lparr>ci_suspendedCredentials := S\<rparr>) = verify_errors D now c st"
  by (simp add: verify_errors_def split: option.split)

text \<open>What verification is worth. verifyCredential accepts exactly the objects that have some truthy proof,
  subject and schema, whose expiry is missing, unreadable or not past, and whose id is not revoked: the
  proof is never compared with anything, and a suspension, which the status shows, changes nothing.\<close>

theorem issuer_accepts_any_proof:
  "(vf_valid (verifyCredential config D now c st) \<longleftrightarrow>
      truthy_prop c ''proof'' \<and> truthy_prop c ''credentialSubject'' \<and> truthy_prop c ''credentialSchema'' \<and>
      \<not> (truthy_prop c ''expirationDate'' \<and> (\<exists>t. df_ms D (the (json_prop c ''expirationDate'')) = Some t \<and> t < now)) \<and>
      (\<forall>i. text_prop c ''id'' = Some i \<longrightarrow> i \<notin> ci_revokedCredentials st)) \<and>
   verifyCredential config D now c (suspendCredential i st) = verifyCredential config D now c st \<and>
   sr_suspended (getCredentialStatus now i (suspendCredential i st)) \<and>
   getCredentialStatus now i (unsuspendCredential i (suspendCredential i st)) = getCredentialStatus now i (unsuspendCredential i st)"
proof (intro conjI)
  show "vf_valid (verifyCredential config D now c st) \<longleftrightarrow>
      truthy_prop c ''proof'' \<and> truthy_prop c ''credentialSubject'' \<and> truthy_prop c ''credentialSchema'' \<and>
      \<not> (truthy_prop c ''expirationDate'' \<and> (\<exists>t. df_ms D (the (json_prop c ''expirationDate'')) = Some t \<and> t < now)) \<and>
      (\<forall>i. text_prop c ''id'' = Some i \<longrightarrow> i \<notin> ci_revokedCredentials st)"
    by (auto simp: verifyCredential_def verify_errors_def Let_def split: option.splits if_splits)
qed (simp_all add: verifyCredential_def verify_suspended suspendCredential_def unsuspendCredential_def getCredentialStatus_def)

lemma missing_fields_eq:
  "missing_fields (JObj es) fs = Inr (filter (\<lambda>f. f \<notin> fst ` set es) fs)"
  by (induction fs) auto

text \<open>Issuing and verifying agree: a request with a known schema, all its required fields and an expiry that
  Date can represent gives a credential, and that credential verifies, with a valid schema, exactly until
  its expiry, as long as its id has not been revoked.\<close>

theorem issued_credential_verifies_until_expiry:
  assumes "getSchema config (iq_schemaId r) = Some schema" "sn_id schema = iq_schemaId r"
    and "iq_subject r = JObj es" "set (sn_requiredFields schema) \<subseteq> fst ` set es"
    and "iq_expirySeconds r = Some secs" "\<bar>now + secs * 1000\<bar> \<le> 8640000000000000"
    and "\<And>t. df_iso D t \<noteq> [] \<and> df_ms D (JStr (df_iso D t)) = Some t"
    and "''urn:uuid:'' @ uuid \<notin> ci_revokedCredentials st"
  shows "\<exists>c. issueCredential config D digest now uuid r = Inr c \<and>
    vf_schemaValid (verifyCredential config D later c st) \<and>
    (vf_valid (verifyCredential config D later c st) \<longleftrightarrow> later \<le> now + secs * 1000)"
proof -
  have "filter (\<lambda>f. f \<notin> fst ` set es) (sn_requiredFields schema) = []"
    using assms(4) by (auto simp: filter_empty_conv)
  then have "\<exists>c. issueCredential config D digest now uuid r = Inr c \<and> json_prop c ''id'' = Some (JStr (''urn:uuid:'' @ uuid)) \<and>
      json_prop c ''expirationDate'' = Some (JStr (df_iso D (now + secs * 1000))) \<and> json_prop c ''credentialSubject'' = Some (JObj es) \<and>
      json_prop c ''credentialSchema'' = Some (JObj [(''id'', JStr (sn_id schema)), (''type'', JStr ''JsonSchemaValidator2018'')]) \<and>
      (\<exists>ps. json_prop c ''proof'' = Some (JObj ps))"
    using assms(1,3,5,6) by (simp add: issueCredential_def missing_fields_eq date_iso_def Let_def)
  then obtain c ps where c: "issueCredential config D digest now uuid r = Inr c"
    "json_prop c ''id'' = Some (JStr (''urn:uuid:'' @ uuid))"
    "json_prop c ''expirationDate'' = Some (JStr (df_iso D (now + secs * 1000)))" "json_prop c ''credentialSubject'' = Some (JObj es)"
    "json_prop c ''credentialSchema'' = Some (JObj [(''id'', JStr (sn_id schema)), (''type'', JStr ''JsonSchemaValidator2018'')])"
    "json_prop c ''proof'' = Some (JObj ps)" by blast
  have errors: "verify_errors D later c st = (if later \<le> now + secs * 1000 then [] else [''Credential has expired''])"
    using assms(7,8) by (simp add: verify_errors_def truthy_prop_def text_prop_def c json_truthy_def)
  have "vf_schemaValid (verifyCredential config D later c st)"
    using assms(1,2) by (simp add: verifyCredential_def Let_def truthy_prop_def text_prop_def c json_truthy_def)
  moreover have "vf_valid (verifyCredential config D later c st) \<longleftrightarrow> later \<le> now + secs * 1000"
    by (simp add: verifyCredential_def Let_def errors truthy_prop_def c json_truthy_def)
  ultimately show ?thesis using c(1) by blast
qed

text \<open>A batch is all or nothing: issueBatch gives one credential per request, in order, or fails: with the size
  when there are more requests than the maximum, otherwise with the first request that fails.\<close>

theorem batch_all_or_nothing:
  "(issueBatch config D digest now uuids rs = Inr cs \<longleftrightarrow>
      (\<forall>m. is_maxCredentialBatch config = Some m \<longrightarrow> int (length rs) \<le> m) \<and>
      list_all2 (\<lambda>(n, r) c. issueCredential config D digest now (uuids n) r = Inr c) (zip [0..<length rs] rs) cs) \<and>
   (is_maxCredentialBatch config = None \<longrightarrow> issueCredential config D digest now (uuids 0) r = Inl e \<longrightarrow>
      issueBatch config D digest now uuids (r # rs) = Inl e)"
proof -
  have all: "issue_all config D digest now uuids n rs = Inr cs \<longleftrightarrow>
      list_all2 (\<lambda>(n, r) c. issueCredential config D digest now (uuids n) r = Inr c) (zip [n..<n + length rs] rs) cs" for n cs
  proof (induction rs arbitrary: n cs)
    case (Cons r rs)
    have upt: "[n..<n + length (r # rs)] = n # [Suc n..<Suc n + length rs]" by (simp add: upt_rec del: upt_Suc)
    have seq: "(case x of Inl e \<Rightarrow> Inl e | Inr cs \<Rightarrow> Inr (c # cs)) = Inr (c' # cs') \<longleftrightarrow> c = c' \<and> x = Inr cs'"
      for x :: "json list result" and c c' cs' by (cases x) auto
    have nil: "(case x of Inl e \<Rightarrow> Inl e | Inr cs \<Rightarrow> Inr (c # cs)) \<noteq> Inr []" for x :: "json list result" and c
      by (cases x) auto
    show ?case
      unfolding upt
      by (cases cs; cases "issueCredential config D digest now (uuids n) r")
        (simp_all add: seq nil Cons.IH del: upt_Suc add_Suc)
  qed auto
  show ?thesis
    using all [of 0] by (auto simp: issueBatch_def not_less split: option.splits)
qed

subsection \<open>Concrete requests\<close>

definition sample_config :: issuer_config where
  "sample_config = loadConfig_issuer (\<lambda>_. None)"

definition sample_subject :: "(string \<times> json) list" where
  "sample_subject = [(''id'', JStr ''did:key:z6Mk''), (''age'', JNum 30), (''verificationDate'', JStr ''2024-01-01'')]"

definition sample_issue :: issue_request where
  "sample_issue = \<lparr>iq_schemaId = ''KycBasicV1'', iq_subject = JObj sample_subject, iq_issuerDid = ''did:web:vault'',
     iq_expirySeconds = Some 60\<rparr>"

text \<open>Dates written as their number of milliseconds: one stroke per unit, after a sign.\<close>

definition toy_dates :: date_functions where
  "toy_dates =
     \<lparr>df_iso = (\<lambda>t. (if t < 0 then CHR ''-'' else CHR ''+'') # replicate (nat \<bar>t\<bar>) (CHR ''i'')),
      df_ms = (\<lambda>v. case v of
          JStr (c # s) \<Rightarrow> Some ((if c = CHR ''-'' then - 1 else 1) * int (length s)) | _ \<Rightarrow> None)\<rparr>"

lemma issued_credential_verifies_until_expiry_witness:
  "\<exists>c. issueCredential sample_config toy_dates (\<lambda>_. ''x'') 0 ''u'' sample_issue = Inr c \<and>
     vf_valid (verifyCredential sample_config toy_dates 60000 c new_issuer) \<and>
     \<not> vf_valid (verifyCredential sample_config toy_dates 60001 c new_issuer)"
proof -
  have 1: "getSchema sample_config (iq_schemaId sample_issue) = Some KycBasic" "sn_id KycBasic = iq_schemaId sample_issue"
    by (simp_all add: getSchema_def sample_config_def loadConfig_issuer_def sample_issue_def KycBasic_def)
  have 2: "iq_subject sample_issue = JObj sample_subject" "set (sn_requiredFields KycBasic) \<subseteq> fst ` set sample_subject"
    "iq_expirySeconds sample_issue = Some 60" "\<bar>0 + 60 * 1000\<bar> \<le> (8640000000000000 :: int)"
    by (auto simp: sample_issue_def KycBasic_def sample_subject_def)
  have 3: "df_iso toy_dates t \<noteq> [] \<and> df_ms toy_dates (JStr (df_iso toy_dates t)) = Some t" for t
    by (simp add: toy_dates_def)
  have 4: "''urn:uuid:'' @ ''u'' \<notin> ci_revokedCredentials new_issuer" by (simp add: new_issuer_def)
  note ok = issued_credential_verifies_until_expiry [OF 1 2 3 4, of "\<lambda>_. ''x''"]
  show ?thesis using ok [of 60000] ok [of 60001] by auto
qed

lemma issuer_revocation_permanent_witness:
  "sr_revoked (getCredentialStatus 1 ''c'' (run_events (issuer_step sample_config toy_dates (\<lambda>_. ''x''))
      [(2, (\<lambda>_. ''u''), PostSuspend (Some ''c'')), (3, (\<lambda>_. ''u''), PostUnsuspend (Some ''c''))]
      (snd (issuer_route sample_config toy_dates (\<lambda>_. ''x'') 0 (\<lambda>_. ''u'') (PostRevoke (Some ''c'')) new_issuer))))"
  using issuer_revocation_permanent [OF _ refl, where i = "''c''" and config = sample_config and D = toy_dates
      and digest = "\<lambda>_. ''x''" and es = "[(2, (\<lambda>_. ''u''), PostSuspend (Some ''c'')), (3, (\<lambda>_. ''u''), PostUnsuspend (Some ''c''))]"
      and t = 0 and uuids = "\<lambda>_. ''u''" and st = new_issuer and now = 1]
  by blast

lemma batch_all_or_nothing_witness:
  "\<exists>e. issueBatch (sample_config\<lparr>is_maxCredentialBatch := None\<rparr>) toy_dates (\<lambda>_. ''x'') 0 (\<lambda>_. ''u'')
     [sample_issue\<lparr>iq_schemaId := ''none''\<rparr>, sample_issue] = Inl e"
proof -
  have "issueCredential (sample_config\<lparr>is_maxCredentialBatch := None\<rparr>) toy_dates (\<lambda>_. ''x'') 0 ''u''
      (sample_issue\<lparr>iq_schemaId := ''none''\<rparr>) = Inl (JsError ''Unknown schema: none'')"
    by (simp add: issueCredential_def getSchema_def sample_config_def loadConfig_issuer_def sample_issue_def
      KycBasic_def KycAdvanced_def)
  then show ?thesis
    using batch_all_or_nothing [of "sample_config\<lparr>is_maxCredentialBatch := None\<rparr>" toy_dates "\<lambda>_. ''x''" 0 "\<lambda>_. ''u''"]
    by auto
qed

end
