(* ===== verification/WebhookService.thy ===== *)
theory WebhookService
  imports Prelude
begin

section \<open>The webhook service of the API\<close>

text \<open>
  packages/api/src/services/webhook_service.ts. Every second a timer starts
  \<open>processPendingDeliveries\<close>, which takes the deliveries that are due and awaits the receiver's answer
  to one after the other. A loop that is still waiting does not keep the timer from starting the
  next one: the loops in progress (\<open>ws_loops\<close>) are part of the state, and an answer to any
  of them is a step of its own. A delivery is an object that the map of pending
  deliveries and the loops share; it is known by the key under which \<open>emitEvent_api\<close> entered it, so
  that the state keeps all delivery objects by key (\<open>ws_objects\<close>) and the map as the list of
  its keys. The answer to a request and the bookkeeping after it are one step. JSON.stringify, the
  hexadecimal HMAC and the text of a date are parameters; \<open>ws_requests\<close> records the requests made.
\<close>

subsection \<open>Data\<close>

record webhook_event =
  we_eventId :: string
  we_eventType :: string
  we_timestamp :: int
  we_source :: string
  we_subject :: string
  we_data :: json

record webhook_retry_policy =
  wp_maxRetries :: int
  wp_baseDelayMs :: rat
  wp_maxDelayMs :: rat
  wp_backoffFactor :: rat

record retry_policy_part =
  pp_maxRetries :: "int option"
  pp_baseDelayMs :: "rat option"
  pp_maxDelayMs :: "rat option"
  pp_backoffFactor :: "rat option"

record webhook_subscription =
  wh_id :: string
  wh_url :: string
  wh_events :: "string list"
  wh_secret :: string
  wh_retryPolicy :: webhook_retry_policy
  wh_enabled :: bool
  wh_createdAt :: int
  wh_updatedAt :: int

record attempt_entry =
  ae_attempt :: nat
  ae_timestamp :: int
  ae_statusCode :: int
  ae_durationMs :: int
  ae_error :: "string option"

record pending_delivery =
  pd_event :: webhook_event
  pd_subscription :: webhook_subscription
  pd_attempts :: nat
  pd_nextAttemptAt :: rat
  pd_deliveryHistory :: "attempt_entry list"

definition DEFAULT_RETRY_POLICY :: webhook_retry_policy where
  "DEFAULT_RETRY_POLICY =
     \<lparr>wp_maxRetries = 5, wp_baseDelayMs = 1000, wp_maxDelayMs = 60000, wp_backoffFactor = 2\<rparr>"

record webhook_request =
  hr_url :: string
  hr_headers :: "(string \<times> string) list"
  hr_body :: string

text \<open>A call of \<open>processPendingDeliveries\<close> in progress: the key it awaits the answer for, since when, and
  the keys it still has to go through.\<close>

record delivery_loop =
  lp_key :: string
  lp_start :: int
  lp_rest :: "string list"

record webhook_service =
  ws_subscriptions :: "(string, webhook_subscription) jsmap"
  ws_objects :: "(string, pending_delivery) jsmap"
  ws_pending :: "string list"
  ws_deliveryTimer :: bool
  ws_loops :: "delivery_loop list"
  ws_requests :: "(string \<times> webhook_request) list"

definition new_webhook_service :: webhook_service where
  "new_webhook_service =
     \<lparr>ws_subscriptions = jm_empty, ws_objects = jm_empty, ws_pending = [], ws_deliveryTimer = True,
      ws_loops = [], ws_requests = []\<rparr>"

definition destroy :: "webhook_service \<Rightarrow> webhook_service" where
  "destroy s = s\<lparr>ws_deliveryTimer := False\<rparr>"

subsection \<open>Subscriptions\<close>

definition with_policy :: "retry_policy_part \<Rightarrow> webhook_retry_policy" where
  "with_policy p =
     \<lparr>wp_maxRetries = or_default (pp_maxRetries p) (wp_maxRetries DEFAULT_RETRY_POLICY),
      wp_baseDelayMs = or_default (pp_baseDelayMs p) (wp_baseDelayMs DEFAULT_RETRY_POLICY),
      wp_maxDelayMs = or_default (pp_maxDelayMs p) (wp_maxDelayMs DEFAULT_RETRY_POLICY),
      wp_backoffFactor = or_default (pp_backoffFactor p) (wp_backoffFactor DEFAULT_RETRY_POLICY)\<rparr>"

definition createSubscription ::
    "int \<Rightarrow> string \<Rightarrow> string \<Rightarrow> string \<Rightarrow> string list \<Rightarrow> string option \<Rightarrow> retry_policy_part \<Rightarrow> webhook_service \<Rightarrow>
      webhook_subscription \<times> webhook_service" where
  "createSubscription now i uuid url events secret policy s =
     (let subscription =
        \<lparr>wh_id = i, wh_url = url, wh_events = events,
         wh_secret = (if or_default secret [] = [] then uuid else or_default secret []),
         wh_retryPolicy = with_policy policy, wh_enabled = True, wh_createdAt = now, wh_updatedAt = now\<rparr>
      in (subscription, s\<lparr>ws_subscriptions := jm_set i subscription (ws_subscriptions s)\<rparr>))"

record webhook_updates =
  hu_url :: "string option"
  hu_events :: "string list option"
  hu_secret :: "string option"
  hu_retryPolicy :: "webhook_retry_policy option"
  hu_enabled :: "bool option"

definition not_found_subscription :: "string \<Rightarrow> js_exn" where
  "not_found_subscription i = new_object_assign (JsError (''Subscription not found: '' @ i)) 404"

definition updateSubscription_api ::
    "int \<Rightarrow> string \<Rightarrow> webhook_updates \<Rightarrow> webhook_service \<Rightarrow> webhook_subscription result \<times> webhook_service" where
  "updateSubscription_api now i u s =
     (case jm_get (ws_subscriptions s) i of
        None \<Rightarrow> (Inl (not_found_subscription i), s)
      | Some sub \<Rightarrow>
          (let updated = sub\<lparr>wh_url := assign_key (hu_url u) (wh_url sub), wh_events := assign_key (hu_events u) (wh_events sub),
                 wh_secret := assign_key (hu_secret u) (wh_secret sub),
                 wh_retryPolicy := assign_key (hu_retryPolicy u) (wh_retryPolicy sub),
                 wh_enabled := assign_key (hu_enabled u) (wh_enabled sub), wh_updatedAt := now\<rparr>
           in (Inr updated, s\<lparr>ws_subscriptions := jm_set i updated (ws_subscriptions s)\<rparr>)))"

definition deleteSubscription_api :: "string \<Rightarrow> webhook_service \<Rightarrow> unit result \<times> webhook_service" where
  "deleteSubscription_api i s =
     (if \<not> jm_has (ws_subscriptions s) i then (Inl (not_found_subscription i), s)
      else (Inr (), s\<lparr>ws_subscriptions := jm_del i (ws_subscriptions s)\<rparr>))"

definition getSubscription_api :: "string \<Rightarrow> webhook_service \<Rightarrow> webhook_subscription result" where
  "getSubscription_api i s =
     (case jm_get (ws_subscriptions s) i of None \<Rightarrow> Inl (not_found_subscription i) | Some sub \<Rightarrow> Inr sub)"

definition listSubscriptions_api :: "webhook_service \<Rightarrow> webhook_subscription list" where
  "listSubscriptions_api s = jm_values (ws_subscriptions s)"

subsection \<open>Events\<close>

definition matches_event :: "string \<Rightarrow> webhook_subscription \<Rightarrow> bool" where
  "matches_event ty sub \<longleftrightarrow> wh_enabled sub \<and> (''*'' \<in> set (wh_events sub) \<or> ty \<in> set (wh_events sub))"

definition pending_key :: "webhook_subscription \<Rightarrow> webhook_event \<Rightarrow> string" where
  "pending_key sub event = wh_id sub @ '':'' @ we_eventId event"

definition add_pending :: "int \<Rightarrow> webhook_event \<Rightarrow> webhook_subscription \<Rightarrow> webhook_service \<Rightarrow> webhook_service" where
  "add_pending now event sub s =
     (let k = pending_key sub event
      in s\<lparr>ws_objects := jm_set k
             \<lparr>pd_event = event, pd_subscription = sub, pd_attempts = 0, pd_nextAttemptAt = of_int now, pd_deliveryHistory = []\<rparr>
             (ws_objects s),
           ws_pending := (if k \<in> set (ws_pending s) then ws_pending s else ws_pending s @ [k])\<rparr>)"

definition emitEvent_api :: "int \<Rightarrow> webhook_event \<Rightarrow> webhook_service \<Rightarrow> webhook_service" where
  "emitEvent_api now event s =
     foldl (\<lambda>s' sub. add_pending now event sub s') s
       (filter (matches_event (we_eventType event)) (jm_values (ws_subscriptions s)))"

subsection \<open>Delivering\<close>

record webhook_env =
  wn_iso :: "int \<Rightarrow> string"
  wn_stringify :: "json \<Rightarrow> string"
  wn_hmac :: "string \<Rightarrow> string \<Rightarrow> string" \<comment> \<open>secret, payload\<close>

definition payload_of :: "webhook_env \<Rightarrow> webhook_event \<Rightarrow> string" where
  "payload_of E e =
     wn_stringify E (JObj
       [(''eventId'', JStr (we_eventId e)), (''eventType'', JStr (we_eventType e)), (''timestamp'', JStr (wn_iso E (we_timestamp e))),
        (''source'', JStr (we_source e)), (''subject'', JStr (we_subject e)), (''data'', we_data e)])"

text \<open>The request \<open>deliver\<close> sends.\<close>

definition delivery_request :: "webhook_env \<Rightarrow> pending_delivery \<Rightarrow> webhook_request" where
  "delivery_request E d =
     (let payload = payload_of E (pd_event d)
      in \<lparr>hr_url = wh_url (pd_subscription d),
          hr_headers =
            [(''Content-Type'', ''application/json''), (''X-Webhook-ID'', wh_id (pd_subscription d)),
             (''X-Webhook-Event'', we_eventType (pd_event d)),
             (''X-Webhook-Signature'', wn_hmac E (wh_secret (pd_subscription d)) payload),
             (''X-Webhook-Timestamp'', wn_iso E (we_timestamp (pd_event d)))],
          hr_body = payload\<rparr>)"

text \<open>The head of the loop: the next delivery is taken out of the map and its request sent.\<close>

definition send :: "webhook_env \<Rightarrow> string \<Rightarrow> webhook_service \<Rightarrow> webhook_service" where
  "send E k s =
     s\<lparr>ws_pending := filter (\<lambda>k'. k' \<noteq> k) (ws_pending s),
       ws_requests := ws_requests s @ [(k, delivery_request E (the (jm_get (ws_objects s) k)))]\<rparr>"

fun advance :: "webhook_env \<Rightarrow> int \<Rightarrow> string list \<Rightarrow> webhook_service \<Rightarrow> delivery_loop list \<times> webhook_service" where
  "advance E now [] s = ([], s)"
| "advance E now (k # ks) s = ([\<lparr>lp_key = k, lp_start = now, lp_rest = ks\<rparr>], send E k s)"

definition ready_keys :: "int \<Rightarrow> webhook_service \<Rightarrow> string list" where
  "ready_keys now s =
     filter (\<lambda>k. pd_nextAttemptAt (the (jm_get (ws_objects s) k)) \<le> of_int now) (ws_pending s)"

definition processPendingDeliveries :: "webhook_env \<Rightarrow> int \<Rightarrow> webhook_service \<Rightarrow> webhook_service" where
  "processPendingDeliveries E now s =
     (case advance E now (ready_keys now s) s of (l, s') \<Rightarrow> s'\<lparr>ws_loops := ws_loops s' @ l\<rparr>)"

text \<open>What the awaited fetch gives: it rejects (network failure, timeout), or there is a response.\<close>

datatype fetch_result = NoResponse | Response int

definition http_ok :: "int \<Rightarrow> bool" where
  "http_ok st \<longleftrightarrow> 200 \<le> st \<and> st \<le> 299"

fun accepted :: "fetch_result \<Rightarrow> bool" where
  "accepted NoResponse = False"
| "accepted (Response st) = http_ok st"

fun record_response :: "int \<Rightarrow> int \<Rightarrow> fetch_result \<Rightarrow> pending_delivery \<Rightarrow> pending_delivery" where
  "record_response now start NoResponse d = d"
| "record_response now start (Response st) d =
     d\<lparr>pd_deliveryHistory := pd_deliveryHistory d @
         [\<lparr>ae_attempt = pd_attempts d + 1, ae_timestamp = now, ae_statusCode = st, ae_durationMs = now - start, ae_error = None\<rparr>]\<rparr>"

definition retry_delay :: "webhook_retry_policy \<Rightarrow> nat \<Rightarrow> rat" where
  "retry_delay p attempts = min (wp_baseDelayMs p * wp_backoffFactor p ^ (attempts - 1)) (wp_maxDelayMs p)"

definition may_retry :: "pending_delivery \<Rightarrow> bool" where
  "may_retry d \<longleftrightarrow> int (pd_attempts d) < wp_maxRetries (wh_retryPolicy (pd_subscription d))"

text \<open>The catch block.\<close>

definition record_failure :: "int \<Rightarrow> pending_delivery \<Rightarrow> pending_delivery" where
  "record_failure now d =
     (let d1 = d\<lparr>pd_attempts := pd_attempts d + 1,
            pd_deliveryHistory := pd_deliveryHistory d @
              [\<lparr>ae_attempt = pd_attempts d + 1, ae_timestamp = now, ae_statusCode = 0, ae_durationMs = 0,
                ae_error = Some ''Delivery failed''\<rparr>]\<rparr>
      in if may_retry d1
         then d1\<lparr>pd_nextAttemptAt := of_int now + retry_delay (wh_retryPolicy (pd_subscription d1)) (pd_attempts d1)\<rparr>
         else d1)"

text \<open>After the answer to the request of key \<open>k\<close>.\<close>

definition settle_key :: "int \<Rightarrow> int \<Rightarrow> fetch_result \<Rightarrow> string \<Rightarrow> webhook_service \<Rightarrow> webhook_service" where
  "settle_key now start outcome k s =
     (let d = record_response now start outcome (the (jm_get (ws_objects s) k))
      in if accepted outcome then s\<lparr>ws_objects := jm_set k d (ws_objects s)\<rparr>
         else
           (let d' = record_failure now d
            in s\<lparr>ws_objects := jm_set k d' (ws_objects s),
                 ws_pending := (if may_retry d' \<and> k \<notin> set (ws_pending s) then ws_pending s @ [k] else ws_pending s)\<rparr>))"

text \<open>The answer to the request of the \<open>i\<close>-th loop, which then goes on to its next delivery.\<close>

definition answer_arrives :: "webhook_env \<Rightarrow> int \<Rightarrow> nat \<Rightarrow> fetch_result \<Rightarrow> webhook_service \<Rightarrow> webhook_service" where
  "answer_arrives E now i outcome s =
     (if length (ws_loops s) \<le> i then s
      else
        (let l = ws_loops s ! i;
             s1 = settle_key now (lp_start l) outcome (lp_key l) s
         in case advance E now (lp_rest l) s1 of
              (l', s2) \<Rightarrow> s2\<lparr>ws_loops := take i (ws_loops s) @ l' @ drop (Suc i) (ws_loops s)\<rparr>))"

definition getDeliveryStatus :: "string \<Rightarrow> webhook_service \<Rightarrow> attempt_entry list" where
  "getDeliveryStatus eventId s =
     concat (map (\<lambda>k. let d = the (jm_get (ws_objects s) k)
                      in if we_eventId (pd_event d) = eventId then pd_deliveryHistory d else []) (ws_pending s))"

subsection \<open>Runs\<close>

datatype webhook_input =
    WCreate int string string string "string list" "string option" retry_policy_part
  | WUpdate int string webhook_updates
  | WDelete string
  | WEmit int webhook_event
  | WTick int
  | WAnswer int nat fetch_result
  | WDestroy

fun webhook_step :: "webhook_env \<Rightarrow> webhook_input \<Rightarrow> webhook_service \<Rightarrow> webhook_service" where
  "webhook_step E (WCreate now i uuid url events secret policy) s = snd (createSubscription now i uuid url events secret policy s)"
| "webhook_step E (WUpdate now i u) s = snd (updateSubscription_api now i u s)"
| "webhook_step E (WDelete i) s = snd (deleteSubscription_api i s)"
| "webhook_step E (WEmit now event) s = emitEvent_api now event s"
| "webhook_step E (WTick now) s = (if ws_deliveryTimer s then processPendingDeliveries E now s else s)"
| "webhook_step E (WAnswer now i outcome) s = answer_arrives E now i outcome s"
| "webhook_step E WDestroy s = destroy s"

text \<open>What randomUUID gives is new: no subscription has the id, and no key of a delivery ends with it.\<close>

fun fresh_ids :: "webhook_input \<Rightarrow> webhook_service \<Rightarrow> bool" where
  "fresh_ids (WCreate now i uuid url events secret policy) s = (jm_get (ws_subscriptions s) i = None)"
| "fresh_ids (WEmit now event) s =
     list_all (\<lambda>k. \<not> starts_with (rev k) (rev ('':'' @ we_eventId event))) (jm_keys (ws_objects s))"
| "fresh_ids e s = True"

text \<open>The timer fires only when the loop before it is done.\<close>

fun one_loop :: "webhook_input \<Rightarrow> webhook_service \<Rightarrow> bool" where
  "one_loop (WTick now) s = (ws_loops s = [])"
| "one_loop e s = True"

subsection \<open>Every request belongs to a subscription\<close>

lemma record_response_same [simp]:
  "pd_event (record_response now start outcome d) = pd_event d"
  "pd_subscription (record_response now start outcome d) = pd_subscription d"
  "pd_attempts (record_response now start outcome d) = pd_attempts d"
  by (cases outcome; simp)+

lemma record_failure_same [simp]:
  "pd_event (record_failure now d) = pd_event d"
  "pd_subscription (record_failure now d) = pd_subscription d"
  "pd_attempts (record_failure now d) = Suc (pd_attempts d)"
  by (simp_all add: record_failure_def Let_def)

lemma delivery_request_cong:
  "pd_event d = pd_event d' \<Longrightarrow> pd_subscription d = pd_subscription d' \<Longrightarrow> delivery_request E d = delivery_request E d'"
  by (simp add: delivery_request_def)

lemma pending_key_fresh:
  "fresh_ids (WEmit now event) s \<Longrightarrow> jm_get (ws_objects s) (pending_key sub event) = None"
proof (rule ccontr)
  assume fresh: "fresh_ids (WEmit now event) s" and "jm_get (ws_objects s) (pending_key sub event) \<noteq> None"
  then have "pending_key sub event \<in> set (jm_keys (ws_objects s))" by (simp add: jm_keys_get)
  with fresh show False
    by (auto simp: list_all_iff pending_key_def starts_with_iff)
qed

text \<open>The part of the state that deliveries are about.\<close>

definition subs_inv :: "webhook_service \<Rightarrow> bool" where
  "subs_inv s \<longleftrightarrow> jm_ok (ws_subscriptions s) \<and> (\<forall>i sub. jm_get (ws_subscriptions s) i = Some sub \<longrightarrow> wh_id sub = i)"

definition requests_inv :: "webhook_env \<Rightarrow> webhook_service \<Rightarrow> bool" where
  "requests_inv E s \<longleftrightarrow>
     (\<forall>k d. jm_get (ws_objects s) k = Some d \<longrightarrow>
        k = pending_key (pd_subscription d) (pd_event d) \<and> matches_event (we_eventType (pd_event d)) (pd_subscription d)) \<and>
     (\<forall>k \<in> set (ws_pending s). jm_has (ws_objects s) k) \<and>
     (\<forall>l \<in> set (ws_loops s). \<forall>k \<in> set (lp_key l # lp_rest l). jm_has (ws_objects s) k) \<and>
     (\<forall>k r. (k, r) \<in> set (ws_requests s) \<longrightarrow> (\<exists>d. jm_get (ws_objects s) k = Some d \<and> r = delivery_request E d))"

lemma subs_inv_step: "subs_inv s \<Longrightarrow> fresh_ids e s \<Longrightarrow> subs_inv (webhook_step E e s)"
proof -
  have add: "ws_subscriptions (foldl (\<lambda>s' sub. add_pending now event sub s') s xs) = ws_subscriptions s" for now event s xs
    by (induction xs arbitrary: s) (simp_all add: add_pending_def Let_def)
  have adv: "ws_subscriptions (snd (advance E now ks s)) = ws_subscriptions s" for now ks s
    by (cases ks) (simp_all add: send_def)
  have set: "ws_subscriptions (settle_key now start outcome k s) = ws_subscriptions s" for now start outcome k s
    by (simp add: settle_key_def Let_def)
  assume "subs_inv s" "fresh_ids e s"
  then show ?thesis
    by (cases e)
      (auto simp: subs_inv_def createSubscription_def updateSubscription_api_def deleteSubscription_api_def emitEvent_api_def add
        processPendingDeliveries_def answer_arrives_def adv set destroy_def Let_def split_beta split: option.splits)
qed


text \<open>An event is entered for one subscription after the other; each time the key is new.\<close>

lemma emitEvent_api_induct:
  assumes "subs_inv s" and "fresh_ids (WEmit now event) s" and "P s"
    and step: "\<And>s' sub. P s' \<Longrightarrow> matches_event (we_eventType event) sub \<Longrightarrow>
      jm_get (ws_objects s') (pending_key sub event) = None \<Longrightarrow> P (add_pending now event sub s')"
  shows "P (emitEvent_api now event s)"
proof -
  have distinct: "distinct (map wh_id (jm_values (ws_subscriptions s)))"
  proof -
    have "map wh_id (jm_values (ws_subscriptions s)) = map fst (ws_subscriptions s)"
      using assms(1) by (auto simp: jm_values_def subs_inv_def jm_get_iff_mem)
    then show ?thesis using assms(1) by (simp add: subs_inv_def jm_ok_def)
  qed
  have "P (foldl (\<lambda>s' sub. add_pending now event sub s') s' xs)"
    if "P s'" "distinct (map wh_id xs)" "\<forall>sub \<in> set xs. matches_event (we_eventType event) sub"
      "\<forall>sub \<in> set xs. jm_get (ws_objects s') (pending_key sub event) = None" for s' xs
    using that
  proof (induction xs arbitrary: s')
    case (Cons sub xs)
    have "jm_get (ws_objects (add_pending now event sub s')) (pending_key sub' event) = None" if "sub' \<in> set xs" for sub'
      using Cons.prems(2,4) that by (auto simp: add_pending_def Let_def pending_key_def image_iff)
    then show ?case using Cons.prems by (auto intro!: Cons.IH step)
  qed simp
  then show ?thesis
    unfolding emitEvent_api_def using assms(1-3) distinct pending_key_fresh [OF assms(2)]
    by (auto simp: distinct_map_filter)
qed

lemma requests_inv_add:
  assumes "requests_inv E s" "matches_event (we_eventType event) sub" "jm_get (ws_objects s) (pending_key sub event) = None"
  shows "requests_inv E (add_pending now event sub s)"
  using assms by (fastforce simp: requests_inv_def add_pending_def Let_def jm_has_def)

lemma requests_inv_advance:
  assumes "requests_inv E s" "\<forall>k \<in> set ks. jm_has (ws_objects s) k"
  shows "requests_inv E (snd (advance E now ks s)) \<and> ws_loops (snd (advance E now ks s)) = ws_loops s \<and>
    ws_objects (snd (advance E now ks s)) = ws_objects s \<and>
    (\<forall>l \<in> set (fst (advance E now ks s)). \<forall>k \<in> set (lp_key l # lp_rest l). k \<in> set ks)"
  using assms by (cases ks) (auto simp: requests_inv_def send_def jm_has_def)

lemma settle_same:
  "ws_loops (settle_key now start outcome k s) = ws_loops s"
  "ws_requests (settle_key now start outcome k s) = ws_requests s"
  "jm_has (ws_objects s) k \<Longrightarrow> jm_has (ws_objects (settle_key now start outcome k s)) k' = jm_has (ws_objects s) k'"
  by (auto simp: settle_key_def Let_def jm_has_def)

text \<open>The delivery object after the answer.\<close>

definition settled_delivery :: "int \<Rightarrow> int \<Rightarrow> fetch_result \<Rightarrow> pending_delivery \<Rightarrow> pending_delivery" where
  "settled_delivery now start outcome d =
     (let d' = record_response now start outcome d in if accepted outcome then d' else record_failure now d')"

lemma settle_key_eq:
  "jm_get (ws_objects s) k = Some d \<Longrightarrow>
     ws_objects (settle_key now start outcome k s) = jm_set k (settled_delivery now start outcome d) (ws_objects s) \<and>
     ws_pending (settle_key now start outcome k s) =
       (if \<not> accepted outcome \<and> may_retry (settled_delivery now start outcome d) \<and> k \<notin> set (ws_pending s)
        then ws_pending s @ [k] else ws_pending s)"
  by (simp add: settle_key_def settled_delivery_def Let_def)

lemma settled_same [simp]:
  "pd_event (settled_delivery now start outcome d) = pd_event d"
  "pd_subscription (settled_delivery now start outcome d) = pd_subscription d"
  by (simp_all add: settled_delivery_def Let_def)

lemma requests_inv_settle:
  assumes "requests_inv E s" "jm_get (ws_objects s) k = Some d"
  shows "requests_inv E (settle_key now start outcome k s)"
proof -
  let ?d' = "settled_delivery now start outcome d"
  have "set (ws_pending (settle_key now start outcome k s)) \<subseteq> insert k (set (ws_pending s))"
    and obj: "ws_objects (settle_key now start outcome k s) = jm_set k ?d' (ws_objects s)"
    using settle_key_eq [OF assms(2)] by auto
  moreover have "delivery_request E ?d' = delivery_request E d"
    by (rule delivery_request_cong) simp_all
  ultimately show ?thesis
    using assms unfolding requests_inv_def settle_same obj
    by (fastforce simp: jm_has_def split: if_splits)
qed

lemma requests_inv_loops:
  "requests_inv E s \<Longrightarrow> (\<forall>l \<in> set ls. \<forall>k \<in> set (lp_key l # lp_rest l). jm_has (ws_objects s) k) \<Longrightarrow>
     requests_inv E (s\<lparr>ws_loops := ls\<rparr>)"
  by (simp add: requests_inv_def)

lemma requests_inv_tick:
  assumes "requests_inv E s"
  shows "requests_inv E (processPendingDeliveries E now s)"
proof -
  let ?ks = "ready_keys now s"
  have ks: "\<forall>k \<in> set ?ks. jm_has (ws_objects s) k"
    using assms by (auto simp: ready_keys_def requests_inv_def)
  note adv = requests_inv_advance [OF assms ks, of now]
  then have "requests_inv E ((snd (advance E now ?ks s))\<lparr>ws_loops := ws_loops s @ fst (advance E now ?ks s)\<rparr>)"
    using assms ks by (intro requests_inv_loops) (auto simp: requests_inv_def)
  with adv show ?thesis by (simp add: processPendingDeliveries_def split_beta)
qed

lemma requests_inv_answer:
  assumes "requests_inv E s"
  shows "requests_inv E (answer_arrives E now i outcome s)"
proof (cases "i < length (ws_loops s)")
  case True
  let ?l = "ws_loops s ! i"
  let ?s1 = "settle_key now (lp_start ?l) outcome (lp_key ?l) s"
  have l: "?l \<in> set (ws_loops s)" using True by simp
  then obtain d where d: "jm_get (ws_objects s) (lp_key ?l) = Some d"
    using assms by (auto simp: requests_inv_def jm_has_def)
  then have has: "jm_has (ws_objects ?s1) k = jm_has (ws_objects s) k" for k
    by (intro settle_same(3)) (simp add: jm_has_def)
  have ks: "\<forall>k \<in> set (lp_rest ?l). jm_has (ws_objects ?s1) k"
    using assms l by (auto simp: requests_inv_def has)
  note adv = requests_inv_advance [OF requests_inv_settle [OF assms d] ks, of now]
  have "requests_inv E ((snd (advance E now (lp_rest ?l) ?s1))\<lparr>ws_loops :=
      take i (ws_loops s) @ fst (advance E now (lp_rest ?l) ?s1) @ drop (Suc i) (ws_loops s)\<rparr>)"
    using adv assms ks
    by (intro requests_inv_loops) (auto simp: requests_inv_def has dest!: in_set_takeD in_set_dropD)
  then show ?thesis using True by (simp add: answer_arrives_def Let_def split_beta)
qed (simp add: answer_arrives_def assms)

text \<open>The operations on subscriptions leave the deliveries alone.\<close>

fun about_subscriptions :: "webhook_input \<Rightarrow> bool" where
  "about_subscriptions (WEmit now event) = False"
| "about_subscriptions (WTick now) = False"
| "about_subscriptions (WAnswer now i outcome) = False"
| "about_subscriptions e = True"

lemma subscription_steps:
  assumes "about_subscriptions e"
  shows "ws_objects (webhook_step E e s) = ws_objects s \<and> ws_pending (webhook_step E e s) = ws_pending s \<and>
    ws_loops (webhook_step E e s) = ws_loops s \<and> ws_requests (webhook_step E e s) = ws_requests s"
  using assms
  by (cases e) (simp_all add: createSubscription_def updateSubscription_api_def deleteSubscription_api_def destroy_def Let_def
    split: option.split)

lemma requests_inv_step:
  assumes "requests_inv E s" "subs_inv s" "fresh_ids e s"
  shows "requests_inv E (webhook_step E e s)"
proof (cases "about_subscriptions e")
  case True
  then show ?thesis using assms(1) subscription_steps [OF True, of E s] by (simp add: requests_inv_def)
next
  case False
  then consider now event where "e = WEmit now event" | now where "e = WTick now"
    | now i outcome where "e = WAnswer now i outcome" by (cases e) auto
  then show ?thesis
  proof cases
    case (1 now event)
    have "requests_inv E (emitEvent_api now event s)"
      by (rule emitEvent_api_induct [where P = "requests_inv E", OF assms(2) assms(3) [unfolded 1] assms(1)])
        (rule requests_inv_add)
    with 1 show ?thesis by simp
  qed (use assms(1) in \<open>simp_all add: requests_inv_tick requests_inv_answer\<close>)
qed

interpretation wr: invariant_machine "webhook_step E" fresh_ids "\<lambda>s. subs_inv s \<and> requests_inv E s" for E
  by unfold_locales (simp add: subs_inv_step requests_inv_step)

lemma new_service_inv: "subs_inv new_webhook_service \<and> requests_inv E new_webhook_service"
  by (simp add: subs_inv_def requests_inv_def new_webhook_service_def)

subsection \<open>One loop at a time\<close>

definition tries :: "string \<Rightarrow> (string \<times> webhook_request) list \<Rightarrow> nat" where
  "tries k reqs = length (filter (\<lambda>(k', r). k' = k) reqs)"

definition successes :: "pending_delivery \<Rightarrow> nat" where
  "successes d = length (filter (\<lambda>a. http_ok (ae_statusCode a)) (pd_deliveryHistory d))"

definition attempt_limit :: "pending_delivery \<Rightarrow> int" where
  "attempt_limit d = max 1 (wp_maxRetries (wh_retryPolicy (pd_subscription d)))"

definition undelivered :: "pending_delivery \<Rightarrow> bool" where
  "undelivered d \<longleftrightarrow> successes d = 0 \<and> (pd_attempts d = 0 \<or> may_retry d)"

definition key_inv :: "string set \<Rightarrow> string option \<Rightarrow> nat \<Rightarrow> string \<Rightarrow> pending_delivery \<Rightarrow> bool" where
  "key_inv pend cur n k d \<longleftrightarrow>
     successes d \<le> 1 \<and> int n \<le> attempt_limit d \<and>
     (k \<in> pend \<longrightarrow> n = pd_attempts d \<and> undelivered d) \<and>
     (cur = Some k \<longrightarrow> n = Suc (pd_attempts d) \<and> undelivered d) \<and>
     (k \<notin> pend \<and> cur \<noteq> Some k \<longrightarrow> successes d = 1 \<or> int n = attempt_limit d)"

definition serial_inv :: "webhook_service \<Rightarrow> string option \<Rightarrow> string list \<Rightarrow> bool" where
  "serial_inv s cur rest \<longleftrightarrow>
     (\<forall>k d. jm_get (ws_objects s) k = Some d \<longrightarrow> key_inv (set (ws_pending s)) cur (tries k (ws_requests s)) k d) \<and>
     (\<forall>k. jm_get (ws_objects s) k = None \<longrightarrow> tries k (ws_requests s) = 0 \<and> k \<notin> set (ws_pending s) \<and> cur \<noteq> Some k) \<and>
     distinct (ws_pending s) \<and> distinct rest \<and> set rest \<subseteq> set (ws_pending s) \<and> (\<forall>k. cur = Some k \<longrightarrow> k \<notin> set (ws_pending s))"

lemma settled_facts:
  assumes "undelivered d" "n = Suc (pd_attempts d)" "int n \<le> attempt_limit d"
  shows "successes (settled_delivery now start outcome d) \<le> 1"
    and "attempt_limit (settled_delivery now start outcome d) = attempt_limit d"
    and "\<not> accepted outcome \<and> may_retry (settled_delivery now start outcome d) \<Longrightarrow>
      n = pd_attempts (settled_delivery now start outcome d) \<and> undelivered (settled_delivery now start outcome d)"
    and "\<not> (\<not> accepted outcome \<and> may_retry (settled_delivery now start outcome d)) \<Longrightarrow>
      successes (settled_delivery now start outcome d) = 1 \<or> int n = attempt_limit (settled_delivery now start outcome d)"
proof -
  have retry: "may_retry (record_failure now d') \<longleftrightarrow> int (Suc (pd_attempts d')) < wp_maxRetries (wh_retryPolicy (pd_subscription d'))"
    for d' by (simp add: may_retry_def)
  have succ: "successes (record_response now start outcome d) = successes d + (if accepted outcome then 1 else 0)"
    by (cases outcome) (simp_all add: successes_def)
  have fail: "successes (record_failure now d') = successes d'" for d'
    by (simp add: record_failure_def successes_def http_ok_def Let_def)
  show "successes (settled_delivery now start outcome d) \<le> 1" "attempt_limit (settled_delivery now start outcome d) = attempt_limit d"
    using assms(1) by (simp_all add: settled_delivery_def succ fail attempt_limit_def undelivered_def Let_def)
  show "\<not> accepted outcome \<and> may_retry (settled_delivery now start outcome d) \<Longrightarrow>
      n = pd_attempts (settled_delivery now start outcome d) \<and> undelivered (settled_delivery now start outcome d)"
    using assms(1,2) by (auto simp: settled_delivery_def succ fail undelivered_def Let_def)
  show "\<not> (\<not> accepted outcome \<and> may_retry (settled_delivery now start outcome d)) \<Longrightarrow>
      successes (settled_delivery now start outcome d) = 1 \<or> int n = attempt_limit (settled_delivery now start outcome d)"
    using assms by (auto simp: settled_delivery_def succ fail retry attempt_limit_def undelivered_def Let_def)
qed

lemma serial_settle:
  assumes "serial_inv s (Some k) rest"
  shows "serial_inv (settle_key now start outcome k s) None rest"
proof -
  obtain d where d: "jm_get (ws_objects s) k = Some d"
    using assms by (cases "jm_get (ws_objects s) k") (auto simp: serial_inv_def)
  let ?d' = "settled_delivery now start outcome d" and ?n = "tries k (ws_requests s)"
  let ?s' = "settle_key now start outcome k s"
  have "key_inv (set (ws_pending s)) (Some k) ?n k d" "k \<notin> set (ws_pending s)"
    using assms d by (simp_all add: serial_inv_def)
  then have inv: "undelivered d" "?n = Suc (pd_attempts d)" "int ?n \<le> attempt_limit d" "k \<notin> set (ws_pending s)"
    unfolding key_inv_def by blast+
  note facts = settled_facts [OF inv(1-3), where now = now and start = start and outcome = outcome]
  have obj: "ws_objects ?s' = jm_set k ?d' (ws_objects s)"
    and pend: "ws_pending ?s' = (if \<not> accepted outcome \<and> may_retry ?d' then ws_pending s @ [k] else ws_pending s)"
    using settle_key_eq [OF d, of now start outcome] inv(4) by auto
  have own: "key_inv (set (ws_pending ?s')) None ?n k ?d'"
    using facts inv(3,4) by (auto simp: key_inv_def pend)
  have other: "key_inv (set (ws_pending ?s')) None (tries k' (ws_requests s)) k' d'"
    if "k' \<noteq> k" "jm_get (ws_objects s) k' = Some d'" for k' d'
    using assms that by (auto simp: serial_inv_def key_inv_def pend)
  show ?thesis
    using assms own other d inv(4) by (auto simp: serial_inv_def obj settle_same pend)
qed

fun loop_key :: "delivery_loop list \<Rightarrow> string option" where
  "loop_key [] = None"
| "loop_key (l # ls) = Some (lp_key l)"

fun loop_rest :: "delivery_loop list \<Rightarrow> string list" where
  "loop_rest [] = []"
| "loop_rest (l # ls) = lp_rest l"

lemma tries_append [simp]: "tries k (reqs @ [(k', r)]) = tries k reqs + (if k' = k then 1 else 0)"
  by (simp add: tries_def)

lemma serial_advance:
  assumes "serial_inv s None ks"
  shows "serial_inv (snd (advance E now ks s)) (loop_key (fst (advance E now ks s))) (loop_rest (fst (advance E now ks s)))"
proof (cases ks)
  case (Cons k rest)
  have pend: "k \<in> set (ws_pending s)" "k \<notin> set rest" "set rest \<subseteq> set (ws_pending s)"
    using assms by (auto simp: serial_inv_def Cons)
  let ?s' = "send E k s"
  have keys: "key_inv (set (ws_pending ?s')) (Some k) (tries k' (ws_requests ?s')) k' d"
    if "jm_get (ws_objects s) k' = Some d" for k' d
  proof -
    have "key_inv (set (ws_pending s)) None (tries k' (ws_requests s)) k' d"
      using assms that by (simp add: serial_inv_def)
    then show ?thesis
      using pend(1) by (auto simp: key_inv_def send_def undelivered_def may_retry_def attempt_limit_def)
  qed
  have "jm_get (ws_objects s) k \<noteq> None" using assms pend(1) by (auto simp: serial_inv_def)
  then show ?thesis
    using assms keys pend unfolding serial_inv_def Cons by (auto simp: send_def)
qed (use assms in simp)

lemma serial_add:
  assumes "serial_inv s cur rest" "jm_get (ws_objects s) (pending_key sub event) = None"
  shows "serial_inv (add_pending now event sub s) cur rest"
  using assms
  by (auto simp: serial_inv_def key_inv_def add_pending_def undelivered_def successes_def attempt_limit_def Let_def)

definition serial_ok :: "webhook_service \<Rightarrow> bool" where
  "serial_ok s \<longleftrightarrow> length (ws_loops s) \<le> 1 \<and> serial_inv s (loop_key (ws_loops s)) (loop_rest (ws_loops s))"

lemma serial_inv_loops [simp]: "serial_inv (s\<lparr>ws_loops := ls\<rparr>) cur rest = serial_inv s cur rest"
  by (simp add: serial_inv_def)

lemma advance_loops: "length (fst (advance E now ks s)) \<le> 1 \<and> ws_loops (snd (advance E now ks s)) = ws_loops s"
  by (cases ks) (simp_all add: send_def)

lemma serial_tick:
  assumes "serial_ok s" "ws_loops s = []"
  shows "serial_ok (processPendingDeliveries E now s)"
proof -
  have "serial_inv s None (ready_keys now s)"
    using assms by (auto simp: serial_ok_def serial_inv_def ready_keys_def)
  from serial_advance [OF this, of E now] show ?thesis
    using advance_loops [of E now "ready_keys now s" s] assms(2)
    by (simp add: processPendingDeliveries_def split_beta serial_ok_def)
qed

lemma serial_answer:
  assumes "serial_ok s"
  shows "serial_ok (answer_arrives E now i outcome s)"
proof (cases "i < length (ws_loops s)")
  case True
  then obtain l where l: "ws_loops s = [l]" "i = 0"
    using assms by (cases "ws_loops s") (auto simp: serial_ok_def)
  let ?s1 = "settle_key now (lp_start l) outcome (lp_key l) s"
  have "serial_inv ?s1 None (lp_rest l)"
    using assms by (intro serial_settle) (simp add: serial_ok_def l)
  from serial_advance [OF this, of E now] show ?thesis
    using advance_loops [of E now "lp_rest l" ?s1]
    by (simp add: answer_arrives_def l split_beta serial_ok_def Let_def)
qed (simp add: answer_arrives_def assms)

lemma serial_emit:
  assumes "serial_ok s" "subs_inv s" "fresh_ids (WEmit now event) s"
  shows "serial_ok (emitEvent_api now event s)"
proof (rule emitEvent_api_induct [where P = serial_ok, OF assms(2,3,1)])
  fix s' sub assume "serial_ok s'" "jm_get (ws_objects s') (pending_key sub event) = None"
  moreover have "ws_loops (add_pending now event sub s') = ws_loops s'" by (simp add: add_pending_def Let_def)
  ultimately show "serial_ok (add_pending now event sub s')"
    by (simp add: serial_ok_def serial_add)
qed

lemma serial_step:
  assumes "serial_ok s" "subs_inv s" "fresh_ids e s" "one_loop e s"
  shows "serial_ok (webhook_step E e s)"
proof (cases "about_subscriptions e")
  case True
  then show ?thesis using assms(1) subscription_steps [OF True, of E s] by (simp add: serial_ok_def serial_inv_def)
next
  case False
  then show ?thesis using assms by (cases e) (simp_all add: serial_tick serial_answer serial_emit)
qed

interpretation ws: invariant_machine "webhook_step E" "\<lambda>e s. fresh_ids e s \<and> one_loop e s" "\<lambda>s. subs_inv s \<and> serial_ok s" for E
  by unfold_locales (simp add: subs_inv_step serial_step)

subsection \<open>Properties\<close>

text \<open>C26: As long as the timer fires only when the loop before it has ended, every delivery is
  requested at most as often as its policy allows (once, if it allows less), the receiver accepts it at
  most once, and it is not given up before it was accepted or the limit reached.\<close>

theorem deliveries_bounded_without_overlap:
  assumes "admissible (\<lambda>e s. fresh_ids e s \<and> one_loop e s) (webhook_step E) es new_webhook_service"
    and "s = run_events (webhook_step E) es new_webhook_service" and "jm_get (ws_objects s) k = Some d"
  shows "int (tries k (ws_requests s)) \<le> max 1 (wp_maxRetries (wh_retryPolicy (pd_subscription d))) \<and> successes d \<le> 1 \<and>
    (k \<notin> set (ws_pending s) \<and> k \<notin> lp_key ` set (ws_loops s) \<longrightarrow>
      successes d = 1 \<or> int (tries k (ws_requests s)) = max 1 (wp_maxRetries (wh_retryPolicy (pd_subscription d))))"
proof -
  have "serial_ok new_webhook_service"
    by (simp add: serial_ok_def serial_inv_def new_webhook_service_def tries_def)
  then have "subs_inv s \<and> serial_ok s"
    unfolding assms(2) by (intro ws.inv_run assms(1)) (simp add: new_service_inv)
  then have "key_inv (set (ws_pending s)) (loop_key (ws_loops s)) (tries k (ws_requests s)) k d" "length (ws_loops s) \<le> 1"
    using assms(3) by (auto simp: serial_ok_def serial_inv_def)
  then show ?thesis
    by (cases "ws_loops s") (auto simp: key_inv_def attempt_limit_def)
qed

text \<open>But the timer does not wait: while the first of two due deliveries is being answered, the next
  tick sends the second, and the first loop, which still has it on its list, sends it again, although
  it was accepted. The receiver gets the event twice.\<close>

theorem slow_receiver_causes_duplicates:
  assumes "ws_pending s = [a, b]" "a \<noteq> b" "ws_loops s = []" "ws_deliveryTimer s"
    and "jm_get (ws_objects s) a = Some da" "jm_get (ws_objects s) b = Some db"
    and "pd_nextAttemptAt da \<le> of_int t1" "pd_nextAttemptAt db \<le> of_int t1" "t1 \<le> t2"
  shows "map fst (ws_requests (run_events (webhook_step E)
      [WTick t1, WTick t2, WAnswer t3 1 (Response 200), WAnswer t4 0 (Response 200)] s)) = map fst (ws_requests s) @ [a, b, b]"
proof -
  have le: "(of_int t1 :: rat) \<le> of_int t2" using assms(9) by simp
  define s1 where "s1 = webhook_step E (WTick t1) s"
  have 1: "ws_pending s1 = [b]" "ws_loops s1 = [\<lparr>lp_key = a, lp_start = t1, lp_rest = [b]\<rparr>]" "ws_objects s1 = ws_objects s"
    "map fst (ws_requests s1) = map fst (ws_requests s) @ [a]" "ws_deliveryTimer s1"
    using assms by (auto simp: s1_def processPendingDeliveries_def ready_keys_def send_def)
  define s2 where "s2 = webhook_step E (WTick t2) s1"
  have 2: "ws_pending s2 = []" "ws_objects s2 = ws_objects s"
    "ws_loops s2 = [\<lparr>lp_key = a, lp_start = t1, lp_rest = [b]\<rparr>, \<lparr>lp_key = b, lp_start = t2, lp_rest = []\<rparr>]"
    "map fst (ws_requests s2) = map fst (ws_requests s) @ [a, b]"
    using 1 assms(6,8) order_trans [OF _ le] by (auto simp: s2_def processPendingDeliveries_def ready_keys_def send_def)
  define s3 where "s3 = webhook_step E (WAnswer t3 1 (Response 200)) s2"
  have 3: "ws_loops s3 = [\<lparr>lp_key = a, lp_start = t1, lp_rest = [b]\<rparr>]"
    "map fst (ws_requests s3) = map fst (ws_requests s) @ [a, b]"
    using 2 by (simp_all add: s3_def answer_arrives_def settle_key_def http_ok_def)
  have "map fst (ws_requests (webhook_step E (WAnswer t4 0 (Response 200)) s3)) = map fst (ws_requests s) @ [a, b, b]"
    using 3 by (simp add: answer_arrives_def settle_key_def http_ok_def send_def)
  then show ?thesis by (simp add: s1_def s2_def s3_def)
qed

text \<open>Whatever interleaves, every request goes to a subscription that was enabled and asked for the
  event's type when the event was emitted, at the address it had then, and carries the HMAC of exactly its body
  under the secret it had then; it is sent for one pending entry, named by subscription and event.\<close>

theorem requests_signed_for_subscription:
  assumes "admissible fresh_ids (webhook_step E) es new_webhook_service"
    and "s = run_events (webhook_step E) es new_webhook_service" and "(k, r) \<in> set (ws_requests s)"
  shows "\<exists>sub event. k = pending_key sub event \<and> matches_event (we_eventType event) sub \<and> hr_url r = wh_url sub \<and>
    hr_body r = payload_of E event \<and>
    map_of (hr_headers r) ''X-Webhook-Signature'' = Some (wn_hmac E (wh_secret sub) (hr_body r)) \<and>
    (\<exists>d. jm_get (ws_objects s) k = Some d \<and> pd_subscription d = sub \<and> pd_event d = event)"
proof -
  have "subs_inv s \<and> requests_inv E s"
    unfolding assms(2) by (intro wr.inv_run assms(1) new_service_inv)
  then obtain d where "jm_get (ws_objects s) k = Some d" "r = delivery_request E d"
    "k = pending_key (pd_subscription d) (pd_event d)" "matches_event (we_eventType (pd_event d)) (pd_subscription d)"
    using assms(3) unfolding requests_inv_def by blast
  then show ?thesis
    by (intro exI [of _ "pd_subscription d"] exI [of _ "pd_event d"]) (simp add: delivery_request_def Let_def)
qed

text \<open>After a request that was not accepted the attempt is counted, and the delivery comes back after the
  back-off of its policy, capped at the maximum, or is dropped once the limit is reached. A refusal that came as a
  response is written into the history twice; and once a delivery is dropped or accepted its history can no longer
  be asked for.\<close>

theorem failed_delivery_rescheduled:
  assumes d: "jm_get (ws_objects s) k = Some d" and "k \<notin> set (ws_pending s)" and "\<not> accepted outcome"
    and s': "s' = settle_key now start outcome k s" and policy: "p = wh_retryPolicy (pd_subscription d)"
  shows "\<exists>d'. jm_get (ws_objects s') k = Some d' \<and> pd_attempts d' = pd_attempts d + 1 \<and>
    length (pd_deliveryHistory d') = length (pd_deliveryHistory d) + (if outcome = NoResponse then 1 else 2) \<and>
    (if int (pd_attempts d + 1) < wp_maxRetries p
     then ws_pending s' = ws_pending s @ [k] \<and>
       pd_nextAttemptAt d' = of_int now + min (wp_baseDelayMs p * wp_backoffFactor p ^ pd_attempts d) (wp_maxDelayMs p)
     else ws_pending s' = ws_pending s \<and>
       ((\<forall>k' \<in> set (ws_pending s). we_eventId (pd_event (the (jm_get (ws_objects s) k'))) \<noteq> we_eventId (pd_event d)) \<longrightarrow>
         getDeliveryStatus (we_eventId (pd_event d)) s' = []))"
proof -
  let ?d' = "settled_delivery now start outcome d" and ?r = "record_response now start outcome d"
  have obj: "ws_objects s' = jm_set k ?d' (ws_objects s)"
    and pend: "ws_pending s' = (if may_retry ?d' then ws_pending s @ [k] else ws_pending s)"
    using settle_key_eq [OF d, of now start outcome] assms(2,3) by (simp_all add: s')
  have fail: "?d' = record_failure now ?r" using assms(3) by (simp add: settled_delivery_def Let_def)
  have "length (pd_deliveryHistory ?d') = length (pd_deliveryHistory d) + (if outcome = NoResponse then 1 else 2)"
    unfolding fail by (cases outcome) (simp_all add: record_failure_def Let_def)
  moreover have retry: "may_retry ?d' \<longleftrightarrow> int (pd_attempts d + 1) < wp_maxRetries p"
    by (simp add: fail may_retry_def policy)
  moreover have "may_retry ?d' \<Longrightarrow> pd_nextAttemptAt ?d' =
      of_int now + min (wp_baseDelayMs p * wp_backoffFactor p ^ pd_attempts d) (wp_maxDelayMs p)"
    using retry unfolding fail by (simp add: record_failure_def [of now ?r] may_retry_def retry_delay_def policy Let_def)
  moreover have "getDeliveryStatus (we_eventId (pd_event d)) s' = []"
    if "\<not> may_retry ?d'"
      "\<forall>k' \<in> set (ws_pending s). we_eventId (pd_event (the (jm_get (ws_objects s) k'))) \<noteq> we_eventId (pd_event d)"
    using that assms(2) by (auto simp: getDeliveryStatus_def pend obj Let_def)
  ultimately show ?thesis using pend by (auto simp: obj fail)
qed

subsection \<open>A concrete run\<close>

definition toy_env :: webhook_env where
  "toy_env = \<lparr>wn_iso = (\<lambda>_. ''t''), wn_stringify = (\<lambda>_. ''{}''), wn_hmac = (\<lambda>secret payload. secret @ payload)\<rparr>"

definition toy_event :: webhook_event where
  "toy_event = \<lparr>we_eventId = ''e'', we_eventType = ''kyc.approved'', we_timestamp = 0, we_source = ''kyc'',
     we_subject = ''u'', we_data = JNull\<rparr>"

definition toy_policy :: retry_policy_part where
  "toy_policy = \<lparr>pp_maxRetries = None, pp_baseDelayMs = None, pp_maxDelayMs = None, pp_backoffFactor = None\<rparr>"

definition toy_start :: "webhook_input list" where
  "toy_start = [WCreate 0 ''a'' ''s'' ''http://a'' [''*''] None toy_policy,
     WCreate 0 ''b'' ''s'' ''http://b'' [''kyc.approved''] None toy_policy, WEmit 0 toy_event]"

lemmas run_simps = toy_start_def toy_event_def toy_policy_def new_webhook_service_def createSubscription_def with_policy_def
  DEFAULT_RETRY_POLICY_def emitEvent_api_def matches_event_def add_pending_def pending_key_def jm_set_def jm_empty_def
  jm_values_def jm_get_def jm_keys_def

lemma toy_start_state:
  shows "map fst (ws_objects (run_events (webhook_step toy_env) toy_start new_webhook_service)) = [''a:e'', ''b:e'']"
    and "ws_pending (run_events (webhook_step toy_env) toy_start new_webhook_service) = [''a:e'', ''b:e'']"
    and "ws_loops (run_events (webhook_step toy_env) toy_start new_webhook_service) = []"
    and "ws_requests (run_events (webhook_step toy_env) toy_start new_webhook_service) = []"
    and "ws_deliveryTimer (run_events (webhook_step toy_env) toy_start new_webhook_service)"
    and "\<exists>d. jm_get (ws_objects (run_events (webhook_step toy_env) toy_start new_webhook_service)) ''a:e'' = Some d \<and>
      pd_nextAttemptAt d = 0 \<and> wp_maxRetries (wh_retryPolicy (pd_subscription d)) = 5"
    and "\<exists>d. jm_get (ws_objects (run_events (webhook_step toy_env) toy_start new_webhook_service)) ''b:e'' = Some d \<and>
      pd_nextAttemptAt d = 0 \<and> wp_maxRetries (wh_retryPolicy (pd_subscription d)) = 5"
  by (simp_all add: run_simps Let_def)

lemma toy_start_admissible:
  "admissible (\<lambda>e s. fresh_ids e s \<and> one_loop e s) (webhook_step toy_env) toy_start new_webhook_service"
  by (simp add: run_simps Let_def)

lemma deliveries_bounded_without_overlap_witness:
  "tries ''a:e'' (ws_requests (run_events (webhook_step toy_env) toy_start new_webhook_service)) \<le> 5"
proof -
  obtain d where "jm_get (ws_objects (run_events (webhook_step toy_env) toy_start new_webhook_service)) ''a:e'' = Some d"
    "wp_maxRetries (wh_retryPolicy (pd_subscription d)) = 5" using toy_start_state(6) by blast
  then show ?thesis
    using deliveries_bounded_without_overlap [OF toy_start_admissible refl, of "''a:e''" d] by simp
qed

lemma slow_receiver_causes_duplicates_witness:
  "map fst (ws_requests (run_events (webhook_step toy_env)
      (toy_start @ [WTick 1000, WTick 2000, WAnswer 2500 1 (Response 200), WAnswer 4000 0 (Response 200)]) new_webhook_service)) =
     [''a:e'', ''b:e'', ''b:e'']"
proof -
  obtain da db where d:
    "jm_get (ws_objects (run_events (webhook_step toy_env) toy_start new_webhook_service)) ''a:e'' = Some da"
    "jm_get (ws_objects (run_events (webhook_step toy_env) toy_start new_webhook_service)) ''b:e'' = Some db"
    "pd_nextAttemptAt da = 0" "pd_nextAttemptAt db = 0" using toy_start_state(6,7) by blast
  show ?thesis
    unfolding run_events_append
    using slow_receiver_causes_duplicates [OF toy_start_state(2) _ toy_start_state(3) toy_start_state(5) d(1,2),
      of 1000 2000 toy_env 2500 4000] by (simp add: d(3,4) toy_start_state(4))
qed

lemma requests_signed_for_subscription_witness:
  "\<exists>r. (''a:e'', r) \<in> set (ws_requests (run_events (webhook_step toy_env) (toy_start @ [WTick 1000]) new_webhook_service)) \<and>
    map_of (hr_headers r) ''X-Webhook-Signature'' = Some (''s'' @ hr_body r)"
proof -
  let ?s = "run_events (webhook_step toy_env) (toy_start @ [WTick 1000]) new_webhook_service"
  have adm: "admissible fresh_ids (webhook_step toy_env) (toy_start @ [WTick 1000]) new_webhook_service"
    by (simp add: run_simps Let_def)
  have run: "\<exists>r. (''a:e'', r) \<in> set (ws_requests ?s)"
    "\<forall>d. jm_get (ws_objects ?s) ''a:e'' = Some d \<longrightarrow> wh_secret (pd_subscription d) = ''s''"
    by (simp_all add: run_simps run_events_append processPendingDeliveries_def ready_keys_def send_def Let_def)
  then obtain r where r: "(''a:e'', r) \<in> set (ws_requests ?s)" by blast
  from requests_signed_for_subscription [OF adm refl r] run(2) r show ?thesis
    by (auto simp: toy_env_def)
qed

lemma failed_delivery_rescheduled_witness:
  "\<exists>(s :: webhook_service) d. jm_get (ws_objects s) ''a:e'' = Some d \<and> pd_nextAttemptAt d = 2000 \<and> length (pd_deliveryHistory d) = 2 \<and>
     ws_pending s = [''b:e'', ''a:e'']"
proof -
  let ?s = "run_events (webhook_step toy_env) (toy_start @ [WTick 500]) new_webhook_service"
  have "\<exists>d. jm_get (ws_objects ?s) ''a:e'' = Some d \<and> pd_attempts d = 0 \<and> pd_deliveryHistory d = [] \<and>
      wh_retryPolicy (pd_subscription d) = DEFAULT_RETRY_POLICY"
    and pend: "ws_pending ?s = [''b:e'']"
    by (simp_all add: run_simps run_events_append processPendingDeliveries_def ready_keys_def send_def Let_def)
  then obtain d where d: "jm_get (ws_objects ?s) ''a:e'' = Some d" "pd_attempts d = 0" "pd_deliveryHistory d = []"
    "wh_retryPolicy (pd_subscription d) = DEFAULT_RETRY_POLICY" by blast
  have "\<not> accepted (Response 500)" by (simp add: http_ok_def)
  moreover have "''a:e'' \<notin> set (ws_pending ?s)" by (simp add: pend)
  ultimately have "\<exists>d'. jm_get (ws_objects (settle_key 1000 500 (Response 500) ''a:e'' ?s)) ''a:e'' = Some d' \<and>
      pd_nextAttemptAt d' = 2000 \<and> length (pd_deliveryHistory d') = 2 \<and>
      ws_pending (settle_key 1000 500 (Response 500) ''a:e'' ?s) = [''b:e'', ''a:e'']"
    using failed_delivery_rescheduled [OF d(1) _ _ refl refl, where now = 1000 and start = 500 and outcome = "Response 500"]
    by (auto simp: pend d(2-4) DEFAULT_RETRY_POLICY_def)
  then show ?thesis by blast
qed

end
