(* ===== verification/FieldValidators.thy ===== *)
theory FieldValidators
  imports DidUrl
begin

section \<open>The field validators\<close>

text \<open>
  packages/core/src/validation: kyc_validator.ts, credential_validator.ts, webhook_validator.ts,
  billing_validator.ts, rate_limit_validator.ts, zkp_validator.ts and did_validator.ts. Each looks at a
  value parsed from JSON (\<open>None\<close> is undefined) and collects errors and warnings in order; a value is
  valid when there is no error. Date.parse is a parameter; the regular expressions are written out
  as predicates.
\<close>

record complaint =
  cp_field :: string
  cp_message :: string
  cp_code :: string

record validation_result =
  va_valid :: bool
  va_errors :: "complaint list"
  va_warnings :: "string list"

definition complain :: "bool \<Rightarrow> string \<Rightarrow> string \<Rightarrow> string \<Rightarrow> complaint list" where
  "complain c fld message code = (if c then [\<lparr>cp_field = fld, cp_message = message, cp_code = code\<rparr>] else [])"

definition warn :: "bool \<Rightarrow> string \<Rightarrow> string list" where
  "warn c message = (if c then [message] else [])"

definition finish :: "complaint list \<Rightarrow> string list \<Rightarrow> validation_result" where
  "finish errors warnings = \<lparr>va_valid = (errors = []), va_errors = errors, va_warnings = warnings\<rparr>"

lemma complain_none [simp]: "complain c f m k = [] \<longleftrightarrow> \<not> c"
  by (simp add: complain_def)

lemma finish_simps [simp]:
  "va_valid (finish es ws) \<longleftrightarrow> es = []" "va_errors (finish es ws) = es" "va_warnings (finish es ws) = ws"
  by (simp_all add: finish_def)

subsection \<open>What is asked of a value\<close>

text \<open>\<open>v && typeof v === 'object'\<close>; \<open>v.k\<close> of such a value.\<close>

fun is_object_value :: "json option \<Rightarrow> bool" where
  "is_object_value (Some (JObj es)) = True"
| "is_object_value (Some (JArr vs)) = True"
| "is_object_value v = False"

definition get_prop :: "json option \<Rightarrow> string \<Rightarrow> json option" where
  "get_prop v k = (case v of None \<Rightarrow> None | Some w \<Rightarrow> json_prop w k)"

fun is_text_value :: "json option \<Rightarrow> bool" where
  "is_text_value (Some (JStr s)) = True"
| "is_text_value v = False"

text \<open>\<open>s.trim().length === 0\<close>.\<close>

definition blank :: "string \<Rightarrow> bool" where
  "blank s = list_all js_space s"

text \<open>A text that is not blank; a text that fulfils \<open>P\<close>; a number that fulfils \<open>P\<close>.\<close>

fun text_with :: "(string \<Rightarrow> bool) \<Rightarrow> json option \<Rightarrow> bool" where
  "text_with P (Some (JStr s)) = P s"
| "text_with P v = False"

abbreviation named :: "json option \<Rightarrow> bool" where
  "named \<equiv> text_with (\<lambda>s. \<not> blank s)"

fun number_with :: "(rat \<Rightarrow> bool) \<Rightarrow> json option \<Rightarrow> bool" where
  "number_with P (Some (JNum n)) = P n"
| "number_with P v = False"

text \<open>\<open>Number.isInteger(n) && n >= 1\<close>.\<close>

definition positive_integer :: "rat \<Rightarrow> bool" where
  "positive_integer n \<longleftrightarrow> of_int \<lfloor>n\<rfloor> = n \<and> 1 \<le> n"

fun elements :: "json option \<Rightarrow> json list option" where
  "elements (Some (JArr vs)) = Some vs"
| "elements v = None"

definition nullish_value :: "json option \<Rightarrow> bool" where
  "nullish_value v \<longleftrightarrow> v = None \<or> v = Some JNull"

text \<open>Texts over an alphabet.\<close>

definition upper :: "char \<Rightarrow> bool" where
  "upper c \<longleftrightarrow> 65 \<le> (of_char c :: nat) \<and> (of_char c :: nat) \<le> 90"

definition lower :: "char \<Rightarrow> bool" where
  "lower c \<longleftrightarrow> 97 \<le> (of_char c :: nat) \<and> (of_char c :: nat) \<le> 122"

definition country_code :: "string \<Rightarrow> bool" where
  "country_code s \<longleftrightarrow> length s = 2 \<and> list_all upper s"

fun date_shape :: "string \<Rightarrow> bool" where
  "date_shape [a, b, c, d, e, f, g, h, i, j] =
     (list_all js_digit [a, b, c, d, f, g, i, j] \<and> e = CHR ''-'' \<and> h = CHR ''-'')"
| "date_shape s = False"

text \<open>\<open>/^[^\s@]+@[^\s@]+\.[^\s@]+$/\<close>.\<close>

definition email_shape :: "string \<Rightarrow> bool" where
  "email_shape s =
     (case split_on (CHR ''@'') s of
        [a, d] \<Rightarrow> \<not> list_ex js_space s \<and> a \<noteq> [] \<and> list_ex (\<lambda>i. d ! i = CHR ''.'') [1..<length d - 1]
      | _ \<Rightarrow> False)"

definition index_path :: "string \<Rightarrow> nat \<Rightarrow> string" where
  "index_path name i = name @ ''['' @ show_nat i @ '']''"

subsection \<open>KYC workflows\<close>

definition DOCUMENT_TYPES :: "string list" where
  "DOCUMENT_TYPES = [''passport'', ''national_id'', ''drivers_license'', ''residence_permit'', ''voter_id'', ''other'']"

text \<open>An optional field that must be a text with a property.\<close>

definition absent_or :: "(string \<Rightarrow> bool) \<Rightarrow> json option \<Rightarrow> bool" where
  "absent_or P v \<longleftrightarrow> v = None \<or> text_with P v"

definition validateSubject_kyc :: "(string \<Rightarrow> int option) \<Rightarrow> json option \<Rightarrow> complaint list" where
  "validateSubject_kyc parse_date s =
     (if \<not> is_object_value s
      then complain True ''subject'' ''KYC subject is required and must be an object'' ''MISSING_SUBJECT''
      else
        complain (\<not> named (get_prop s ''id'')) ''subject.id'' ''Subject id is required and must be a non-empty string''
          ''MISSING_SUBJECT_ID'' @
        complain (\<not> absent_or (\<lambda>t. \<not> blank t) (get_prop s ''legalName'')) ''subject.legalName''
          ''legalName must be a non-empty string if provided'' ''INVALID_LEGAL_NAME'' @
        (if get_prop s ''dateOfBirth'' = None then []
         else if \<not> text_with date_shape (get_prop s ''dateOfBirth'') then
           complain True ''subject.dateOfBirth'' ''dateOfBirth must be a valid date in YYYY-MM-DD format'' ''INVALID_DATE_OF_BIRTH''
         else
           complain (text_with (\<lambda>t. parse_date t = None) (get_prop s ''dateOfBirth'')) ''subject.dateOfBirth''
             ''dateOfBirth is not a valid calendar date'' ''INVALID_DATE_OF_BIRTH'') @
        complain (\<not> absent_or country_code (get_prop s ''nationality'')) ''subject.nationality''
          ''nationality must be a valid ISO 3166-1 alpha-2 country code'' ''INVALID_NATIONALITY'' @
        complain (\<not> absent_or country_code (get_prop s ''countryOfResidence'')) ''subject.countryOfResidence''
          ''countryOfResidence must be a valid ISO 3166-1 alpha-2 country code'' ''INVALID_COUNTRY_OF_RESIDENCE'' @
        complain (\<not> absent_or email_shape (get_prop s ''email'')) ''subject.email''
          ''email must be a valid email address if provided'' ''INVALID_EMAIL'')"

definition document_errors :: "nat \<Rightarrow> json \<Rightarrow> complaint list" where
  "document_errors i doc =
     (let d = Some doc; path = index_path ''documents'' i
      in if \<not> is_object_value d then complain True path ''Each document must be a non-null object'' ''INVALID_DOCUMENT''
         else
           complain (\<not> text_with (\<lambda>t. t \<in> set DOCUMENT_TYPES) (get_prop d ''type'')) (path @ ''.type'')
             (''Document type must be one of: '' @ join_with '', '' DOCUMENT_TYPES) ''INVALID_DOCUMENT_TYPE'' @
           complain (\<not> absent_or country_code (get_prop d ''country'')) (path @ ''.country'')
             ''Document country must be a valid ISO 3166-1 alpha-2 code'' ''INVALID_DOCUMENT_COUNTRY'' @
           complain (\<not> absent_or date_shape (get_prop d ''expirationDate'')) (path @ ''.expirationDate'')
             ''expirationDate must be in YYYY-MM-DD format'' ''INVALID_EXPIRATION_DATE'')"

text \<open>A loop over an array that adds what \<open>f\<close> says of each element.\<close>

definition for_each :: "(nat \<Rightarrow> 'a \<Rightarrow> complaint list) \<Rightarrow> 'a list \<Rightarrow> complaint list" where
  "for_each f xs = concat (map (\<lambda>i. f i (xs ! i)) [0..<length xs])"

lemma for_each_empty: "for_each f xs = [] \<longleftrightarrow> (\<forall>i < length xs. f i (xs ! i) = [])"
  by (simp add: for_each_def) (meson atLeastLessThan_iff le0)

definition validateDocuments :: "json option \<Rightarrow> complaint list" where
  "validateDocuments documents =
     (case elements documents of
        None \<Rightarrow> complain True ''documents'' ''KYC documents must be an array'' ''MISSING_DOCUMENTS''
      | Some docs \<Rightarrow>
          if docs = [] then complain True ''documents'' ''At least one KYC document is required'' ''EMPTY_DOCUMENTS''
          else for_each document_errors docs)"

definition validateLevel :: "json option \<Rightarrow> complaint list" where
  "validateLevel level = complain (\<not> named level) ''level'' ''KYC verification level is required'' ''MISSING_LEVEL''"

definition validateWorkflow :: "(string \<Rightarrow> int option) \<Rightarrow> json option \<Rightarrow> validation_result" where
  "validateWorkflow parse_date input =
     (if \<not> is_object_value input
      then finish (complain True ''root'' ''KYC workflow input must be a non-null object'' ''INVALID_TYPE'') []
      else finish
        (validateSubject_kyc parse_date (get_prop input ''subject'') @ validateDocuments (get_prop input ''documents'') @
         validateLevel (get_prop input ''level'')) [])"

subsection \<open>Credentials\<close>

definition type_element_errors :: "nat \<Rightarrow> json \<Rightarrow> complaint list" where
  "type_element_errors i v =
     complain (\<not> named (Some v)) (index_path ''type'' i) ''Each credential type must be a non-empty string'' ''INVALID_TYPE_ELEMENT''"

fun falsy :: "json option \<Rightarrow> bool" where
  "falsy None = True"
| "falsy (Some v) = (\<not> json_truthy v)"

definition validateType :: "json option \<Rightarrow> complaint list" where
  "validateType type =
     (if falsy type then complain True ''type'' ''Credential type is required'' ''MISSING_TYPE''
      else case the type of
             JStr s \<Rightarrow> complain (blank s) ''type'' ''Credential type must not be empty'' ''EMPTY_TYPE''
           | JArr vs \<Rightarrow>
               complain (vs = []) ''type'' ''Credential type array must not be empty'' ''EMPTY_TYPE_ARRAY'' @
               for_each type_element_errors vs
           | _ \<Rightarrow> complain True ''type'' ''Credential type must be a string or array of strings'' ''INVALID_TYPE_FORMAT'')"

definition validateIssuer :: "json option \<Rightarrow> complaint list" where
  "validateIssuer issuer =
     (if falsy issuer then complain True ''issuer'' ''Credential issuer is required'' ''MISSING_ISSUER''
      else complain (\<not> named issuer) ''issuer'' ''Credential issuer must be a non-empty string (DID or URL)'' ''INVALID_ISSUER'')"

definition validateSubject_credential :: "json option \<Rightarrow> complaint list" where
  "validateSubject_credential subject =
     (if falsy subject then complain True ''subject'' ''Credential subject is required'' ''MISSING_SUBJECT''
      else if \<not> is_object_value subject then
        complain True ''subject'' ''Credential subject must be a non-null object'' ''INVALID_SUBJECT''
      else complain (\<not> named (get_prop subject ''id'')) ''subject.id''
        ''Credential subject id is required and must be a non-empty string'' ''MISSING_SUBJECT_ID'')"

text \<open>\<open>Date.parse(issuanceDate as string)\<close> of a value that is not a text is not modelled: it is NaN here,
  and a comparison with NaN is false.\<close>

fun date_of :: "(string \<Rightarrow> int option) \<Rightarrow> json option \<Rightarrow> int option" where
  "date_of parse_date (Some (JStr s)) = parse_date s"
| "date_of parse_date v = None"

definition not_after :: "int option \<Rightarrow> int option \<Rightarrow> bool" where
  "not_after a b = (case (a, b) of (Some x, Some y) \<Rightarrow> x \<le> y | _ \<Rightarrow> False)"

definition validateDates :: "(string \<Rightarrow> int option) \<Rightarrow> json option \<Rightarrow> complaint list \<times> string list" where
  "validateDates parse_date credential =
     (let issuance = get_prop credential ''issuanceDate''; expiration = get_prop credential ''expirationDate''
      in (complain (issuance \<noteq> None \<and> date_of parse_date issuance = None) ''issuanceDate''
            ''issuanceDate must be a valid ISO 8601 date string'' ''INVALID_ISSUANCE_DATE'' @
          complain (expiration \<noteq> None \<and> date_of parse_date expiration = None) ''expirationDate''
            ''expirationDate must be a valid ISO 8601 date string'' ''INVALID_EXPIRATION_DATE'',
          warn (expiration \<noteq> None \<and> date_of parse_date expiration \<noteq> None \<and> \<not> falsy issuance \<and>
              not_after (date_of parse_date expiration) (date_of parse_date issuance))
            ''expirationDate should be after issuanceDate''))"

definition validateCredential :: "(string \<Rightarrow> int option) \<Rightarrow> json option \<Rightarrow> validation_result" where
  "validateCredential parse_date input =
     (if \<not> is_object_value input
      then finish (complain True ''root'' ''Credential input must be a non-null object'' ''INVALID_TYPE'') []
      else case validateDates parse_date input of
             (date_errors, warnings) \<Rightarrow>
               finish
                 (validateType (get_prop input ''type'') @ validateIssuer (get_prop input ''issuer'') @
                  validateSubject_credential (get_prop input ''subject'') @ date_errors) warnings)"

subsection \<open>Webhook payloads\<close>

definition VALID_EVENT_TYPES :: "string list" where
  "VALID_EVENT_TYPES =
     [''kyc.workflow.created'', ''kyc.workflow.updated'', ''kyc.workflow.completed'', ''kyc.workflow.failed'',
      ''kyc.document.uploaded'', ''kyc.document.verified'', ''kyc.document.rejected'', ''credential.issued'',
      ''credential.revoked'', ''credential.expired'', ''did.created'', ''did.updated'', ''did.deactivated'',
      ''billing.invoice.paid'', ''billing.invoice.failed'', ''billing.subscription.changed'', ''compliance.alert'',
      ''compliance.sanctions.match'', ''webhook.test'']"

definition validateEvent :: "json option \<Rightarrow> complaint list \<times> string list" where
  "validateEvent event =
     (if falsy event \<or> \<not> is_text_value event
      then (complain True ''event'' ''Webhook event is required and must be a string'' ''MISSING_EVENT'', [])
      else ([], case event of
                  Some (JStr s) \<Rightarrow> warn (s \<notin> set VALID_EVENT_TYPES) (''Unknown webhook event type: '' @ s)
                | _ \<Rightarrow> []))"

definition validateCreated :: "(string \<Rightarrow> int option) \<Rightarrow> json option \<Rightarrow> complaint list" where
  "validateCreated parse_date created =
     (if falsy created \<or> \<not> is_text_value created
      then complain True ''created'' ''Webhook created timestamp is required and must be a string'' ''MISSING_CREATED''
      else complain (date_of parse_date created = None) ''created'' ''created must be a valid ISO 8601 timestamp string''
        ''INVALID_CREATED'')"

definition validateData :: "json option \<Rightarrow> complaint list" where
  "validateData data =
     (if nullish_value data then complain True ''data'' ''Webhook data is required'' ''MISSING_DATA''
      else complain (\<not> is_object_value data \<or> elements data \<noteq> None) ''data'' ''Webhook data must be a non-array object''
        ''INVALID_DATA_TYPE'')"

definition validateWebhook :: "(string \<Rightarrow> int option) \<Rightarrow> json option \<Rightarrow> validation_result" where
  "validateWebhook parse_date payload =
     (if \<not> is_object_value payload
      then finish (complain True ''root'' ''Webhook payload must be a non-null object'' ''INVALID_TYPE'') []
      else case validateEvent (get_prop payload ''event'') of
             (event_errors, warnings) \<Rightarrow>
               finish
                 (complain (\<not> named (get_prop payload ''id'')) ''id'' ''Webhook id is required and must be a non-empty string'' ''MISSING_ID'' @
                  event_errors @ validateCreated parse_date (get_prop payload ''created'') @ validateData (get_prop payload ''data'') @
                  complain (\<not> absent_or (\<lambda>s. \<not> blank s) (get_prop payload ''specversion'')) ''specversion''
                    ''specversion must be a non-empty string if provided'' ''INVALID_SPECVERSION'' @
                  complain (\<not> absent_or (\<lambda>s. True) (get_prop payload ''source'')) ''source''
                    ''source must be a string if provided'' ''INVALID_SOURCE'' @
                  complain (\<not> absent_or (\<lambda>s. True) (get_prop payload ''subject'')) ''subject''
                    ''subject must be a string if provided'' ''INVALID_SUBJECT'' @
                  complain (\<not> absent_or (\<lambda>s. True) (get_prop payload ''datacontenttype'')) ''datacontenttype''
                    ''datacontenttype must be a string if provided'' ''INVALID_DATACONTENTTYPE'')
                 warnings)"

subsection \<open>Billing\<close>

definition VALID_TIERS :: "string list" where
  "VALID_TIERS = [''free'', ''starter'', ''professional'', ''enterprise'']"

definition VALID_INTERVALS :: "string list" where
  "VALID_INTERVALS = [''monthly'', ''yearly'']"

definition VALID_PAYMENT_METHODS :: "string list" where
  "VALID_PAYMENT_METHODS = [''card'', ''crypto'', ''invoice'']"

definition VALID_CURRENCIES :: "string list" where
  "VALID_CURRENCIES = [''USD'', ''EUR'', ''GBP'']"

abbreviation one_of :: "string list \<Rightarrow> json option \<Rightarrow> bool" where
  "one_of xs \<equiv> text_with (\<lambda>s. s \<in> set xs)"

definition addon_errors :: "string \<Rightarrow> string \<Rightarrow> string \<Rightarrow> nat \<Rightarrow> json \<Rightarrow> complaint list" where
  "addon_errors name message code i v = complain (\<not> is_text_value (Some v)) (index_path name i) message code"

text \<open>An optional array of texts.\<close>

definition text_array_errors :: "string \<Rightarrow> json option \<Rightarrow> string \<Rightarrow> string \<Rightarrow> string \<Rightarrow> string \<Rightarrow> complaint list" where
  "text_array_errors name v message code elementMessage elementCode =
     (if v = None then []
      else case elements v of
             None \<Rightarrow> complain True name message code
           | Some vs \<Rightarrow> for_each (addon_errors name elementMessage elementCode) vs)"

definition validatePlan :: "json option \<Rightarrow> validation_result" where
  "validatePlan input =
     (if \<not> is_object_value input
      then finish (complain True ''root'' ''Billing plan input must be a non-null object'' ''INVALID_TYPE'') []
      else finish
        (complain (\<not> one_of VALID_TIERS (get_prop input ''tier'')) ''tier''
           (''Billing tier must be one of: '' @ join_with '', '' VALID_TIERS) ''INVALID_TIER'' @
         complain (\<not> one_of VALID_INTERVALS (get_prop input ''interval'')) ''interval''
           (''Billing interval must be one of: '' @ join_with '', '' VALID_INTERVALS) ''INVALID_INTERVAL'' @
         complain (get_prop input ''seats'' \<noteq> None \<and> \<not> number_with positive_integer (get_prop input ''seats'')) ''seats''
           ''seats must be a positive integer if provided'' ''INVALID_SEATS'' @
         text_array_errors ''addons'' (get_prop input ''addons'') ''addons must be an array of strings if provided'' ''INVALID_ADDONS''
           ''Each addon must be a string'' ''INVALID_ADDON'') [])"

definition validatePayment :: "json option \<Rightarrow> validation_result" where
  "validatePayment input =
     (if \<not> is_object_value input
      then finish (complain True ''root'' ''Billing payment input must be a non-null object'' ''INVALID_TYPE'') []
      else finish
        (complain (\<not> one_of VALID_PAYMENT_METHODS (get_prop input ''method'')) ''method''
           (''Payment method must be one of: '' @ join_with '', '' VALID_PAYMENT_METHODS) ''INVALID_PAYMENT_METHOD'' @
         complain (\<not> one_of VALID_CURRENCIES (get_prop input ''currency'')) ''currency''
           (''Currency must be one of: '' @ join_with '', '' VALID_CURRENCIES) ''INVALID_CURRENCY'' @
         complain (\<not> number_with (\<lambda>n. 0 < n) (get_prop input ''amount'')) ''amount'' ''amount must be a positive number''
           ''INVALID_AMOUNT'') [])"

definition validateLineItem :: "json \<Rightarrow> string \<Rightarrow> complaint list" where
  "validateLineItem item path =
     (let li = Some item
      in if \<not> is_object_value li then complain True path ''Each line item must be a non-null object'' ''INVALID_LINE_ITEM''
         else
           complain (\<not> named (get_prop li ''description'')) (path @ ''.description'') ''Line item description is required''
             ''MISSING_DESCRIPTION'' @
           complain (\<not> number_with (\<lambda>n. 0 < n) (get_prop li ''quantity'')) (path @ ''.quantity'')
             ''Line item quantity must be a positive number'' ''INVALID_QUANTITY'' @
           complain (\<not> number_with (\<lambda>n. 0 < n) (get_prop li ''unitPrice'')) (path @ ''.unitPrice'')
             ''Line item unitPrice must be a positive number'' ''INVALID_UNIT_PRICE'')"

definition validateInvoice :: "(string \<Rightarrow> int option) \<Rightarrow> json option \<Rightarrow> validation_result" where
  "validateInvoice parse_date input =
     (if \<not> is_object_value input
      then finish (complain True ''root'' ''Billing invoice input must be a non-null object'' ''INVALID_TYPE'') []
      else finish
        (complain (\<not> named (get_prop input ''customerId'')) ''customerId'' ''customerId is required and must be a non-empty string''
           ''MISSING_CUSTOMER_ID'' @
         (if or_default (elements (get_prop input ''items'')) [] = []
          then complain True ''items'' ''Invoice must have at least one line item'' ''MISSING_ITEMS''
          else for_each (\<lambda>i item. validateLineItem item (index_path ''items'' i)) (or_default (elements (get_prop input ''items'')) [])) @
         complain (\<not> absent_or (\<lambda>s. s \<in> set VALID_CURRENCIES) (get_prop input ''currency'')) ''currency''
           (''Currency must be one of: '' @ join_with '', '' VALID_CURRENCIES) ''INVALID_CURRENCY'' @
         complain (get_prop input ''dueDate'' \<noteq> None \<and> date_of parse_date (get_prop input ''dueDate'') = None) ''dueDate''
           ''dueDate must be a valid ISO 8601 date string if provided'' ''INVALID_DUE_DATE'') [])"

subsection \<open>Rate limits\<close>

definition VALID_STRATEGIES :: "string list" where
  "VALID_STRATEGIES = [''token_bucket'', ''leaky_bucket'', ''fixed_window'', ''sliding_window'', ''concurrent'']"

definition validateStrategy :: "json option \<Rightarrow> complaint list" where
  "validateStrategy strategy =
     (if falsy strategy \<or> \<not> is_text_value strategy
      then complain True ''strategy'' ''Rate limit strategy is required'' ''MISSING_STRATEGY''
      else complain (\<not> one_of VALID_STRATEGIES strategy) ''strategy''
        (''Strategy must be one of: '' @ join_with '', '' VALID_STRATEGIES) ''INVALID_STRATEGY'')"

definition validateMaxRequests :: "json option \<Rightarrow> complaint list" where
  "validateMaxRequests maxRequests =
     (if nullish_value maxRequests then complain True ''maxRequests'' ''maxRequests is required'' ''MISSING_MAX_REQUESTS''
      else complain (\<not> number_with positive_integer maxRequests) ''maxRequests'' ''maxRequests must be a positive integer''
        ''INVALID_MAX_REQUESTS'')"

definition validateWindowMs :: "json option \<Rightarrow> complaint list" where
  "validateWindowMs windowMs =
     (if nullish_value windowMs then complain True ''windowMs'' ''windowMs is required'' ''MISSING_WINDOW_MS''
      else
        complain (\<not> number_with positive_integer windowMs) ''windowMs'' ''windowMs must be a positive integer'' ''INVALID_WINDOW_MS'' @
        complain (number_with (\<lambda>n. n > 86400000) windowMs) ''windowMs'' ''windowMs must not exceed 24 hours (86400000ms)''
          ''WINDOW_TOO_LARGE'')"

definition is_strategy :: "string \<Rightarrow> json option \<Rightarrow> bool" where
  "is_strategy s strategy \<longleftrightarrow> strategy = Some (JStr s)"

definition validateMaxConcurrent :: "json option \<Rightarrow> json option \<Rightarrow> complaint list \<times> string list" where
  "validateMaxConcurrent strategy maxConcurrent =
     (if maxConcurrent = None
      then (complain (is_strategy ''concurrent'' strategy) ''maxConcurrent'' ''maxConcurrent is required for concurrent strategy''
              ''MISSING_MAX_CONCURRENT'', [])
      else (complain (\<not> number_with positive_integer maxConcurrent) ''maxConcurrent'' ''maxConcurrent must be a positive integer''
              ''INVALID_MAX_CONCURRENT'',
            warn (\<not> is_strategy ''concurrent'' strategy) ''maxConcurrent is only used with concurrent strategy''))"

definition below :: "json option \<Rightarrow> json option \<Rightarrow> bool" where
  "below a b = (case (a, b) of (Some (JNum x), Some (JNum y)) \<Rightarrow> x < y | _ \<Rightarrow> False)"

definition validateBurstSize :: "json option \<Rightarrow> json option \<Rightarrow> json option \<Rightarrow> complaint list \<times> string list" where
  "validateBurstSize strategy burstSize maxRequests =
     (if burstSize = None then ([], [])
      else if \<not> number_with positive_integer burstSize then
        (complain True ''burstSize'' ''burstSize must be a positive integer if provided'' ''INVALID_BURST_SIZE'', [])
      else
        ([], warn (below burstSize maxRequests) ''burstSize should typically be >= maxRequests for effective bursting'' @
             warn (\<not> is_strategy ''token_bucket'' strategy \<and> \<not> is_strategy ''leaky_bucket'' strategy)
               ''burstSize is typically used with token_bucket or leaky_bucket strategies''))"

definition validateRefillConfig :: "json option \<Rightarrow> complaint list \<times> string list" where
  "validateRefillConfig cfg =
     (let rate = get_prop cfg ''refillRate''; interval = get_prop cfg ''refillIntervalMs''; prefix = get_prop cfg ''keyPrefix''
      in (complain (rate \<noteq> None \<and> \<not> number_with (\<lambda>n. 0 < n) rate) ''refillRate''
            ''refillRate must be a positive number if provided'' ''INVALID_REFILL_RATE'' @
          complain (interval \<noteq> None \<and> \<not> number_with positive_integer interval) ''refillIntervalMs''
            ''refillIntervalMs must be a positive integer if provided'' ''INVALID_REFILL_INTERVAL'' @
          complain (\<not> absent_or (\<lambda>s. \<not> blank s) prefix) ''keyPrefix'' ''keyPrefix must be a non-empty string if provided''
            ''INVALID_KEY_PREFIX'',
          warn ((rate \<noteq> None) \<noteq> (interval \<noteq> None)) ''refillRate and refillIntervalMs should typically be provided together''))"

definition validateRateLimit :: "json option \<Rightarrow> validation_result" where
  "validateRateLimit config =
     (if \<not> is_object_value config
      then finish (complain True ''root'' ''Rate limit config must be a non-null object'' ''INVALID_TYPE'') []
      else
        (case (validateMaxConcurrent (get_prop config ''strategy'') (get_prop config ''maxConcurrent''),
               validateBurstSize (get_prop config ''strategy'') (get_prop config ''burstSize'') (get_prop config ''maxRequests''),
               validateRefillConfig config) of
           ((concurrent_errors, w1), (burst_errors, w2), (refill_errors, w3)) \<Rightarrow>
             finish
               (validateStrategy (get_prop config ''strategy'') @ validateMaxRequests (get_prop config ''maxRequests'') @
                validateWindowMs (get_prop config ''windowMs'') @ concurrent_errors @ burst_errors @ refill_errors)
               (w1 @ w2 @ w3)))"

subsection \<open>Zero-knowledge proofs\<close>

definition SUPPORTED_PROOF_TYPES :: "string list" where
  "SUPPORTED_PROOF_TYPES = [''groth16'', ''plonk'', ''fflonk'', ''ultraplonk'', ''stark'']"

definition circuit_char :: "char \<Rightarrow> bool" where
  "circuit_char c \<longleftrightarrow> upper c \<or> lower c \<or> js_digit c \<or> c \<in> {CHR ''_'', CHR ''-'', CHR ''.'', CHR ''/''}"

definition validateCircuitId :: "json option \<Rightarrow> complaint list" where
  "validateCircuitId circuitId =
     (case circuitId of
        Some (JStr s) \<Rightarrow>
          if s = [] then complain True ''circuitId'' ''circuitId is required and must be a string'' ''MISSING_CIRCUIT_ID''
          else
            complain (blank s) ''circuitId'' ''circuitId must not be empty'' ''EMPTY_CIRCUIT_ID'' @
            complain (256 < length s) ''circuitId'' ''circuitId must not exceed 256 characters'' ''CIRCUIT_ID_TOO_LONG'' @
            complain (\<not> list_all circuit_char s) ''circuitId'' ''circuitId contains invalid characters'' ''INVALID_CIRCUIT_ID_CHARS''
      | _ \<Rightarrow> complain True ''circuitId'' ''circuitId is required and must be a string'' ''MISSING_CIRCUIT_ID'')"

definition validatePublicInputs :: "json option \<Rightarrow> complaint list \<times> string list" where
  "validatePublicInputs inputs =
     (if nullish_value inputs then (complain True ''publicInputs'' ''publicInputs is required'' ''MISSING_PUBLIC_INPUTS'', [])
      else case inputs of
             Some (JObj es) \<Rightarrow> ([], warn (es = []) ''publicInputs is an empty object'')
           | _ \<Rightarrow> (complain True ''publicInputs'' ''publicInputs must be a non-array object'' ''INVALID_PUBLIC_INPUTS_TYPE'', []))"

definition validateProofRequest :: "json option \<Rightarrow> validation_result" where
  "validateProofRequest input =
     (if \<not> is_object_value input
      then finish (complain True ''root'' ''ZKP proof request must be a non-null object'' ''INVALID_TYPE'') []
      else case validatePublicInputs (get_prop input ''publicInputs'') of
             (input_errors, warnings) \<Rightarrow>
               finish
                 (validateCircuitId (get_prop input ''circuitId'') @ input_errors @
                  complain (\<not> absent_or (\<lambda>s. s \<in> set SUPPORTED_PROOF_TYPES) (get_prop input ''proofType'')) ''proofType''
                    (''proofType must be one of: '' @ join_with '', '' SUPPORTED_PROOF_TYPES) ''INVALID_PROOF_TYPE'' @
                  text_array_errors ''privateInputs'' (get_prop input ''privateInputs'') ''privateInputs must be an array of strings''
                    ''INVALID_PRIVATE_INPUTS'' ''Each private input must be a string'' ''INVALID_PRIVATE_INPUT'')
                 warnings)"

definition validateVerificationRequest :: "json option \<Rightarrow> validation_result" where
  "validateVerificationRequest input =
     (if \<not> is_object_value input
      then finish (complain True ''root'' ''ZKP verification request must be a non-null object'' ''INVALID_TYPE'') []
      else case validatePublicInputs (get_prop input ''publicInputs'') of
             (input_errors, warnings) \<Rightarrow>
               finish
                 (validateCircuitId (get_prop input ''circuitId'') @
                  complain (nullish_value (get_prop input ''proof'')) ''proof'' ''Proof is required for verification'' ''MISSING_PROOF'' @
                  input_errors)
                 warnings)"

subsection \<open>DIDs\<close>

definition method_char :: "char \<Rightarrow> bool" where
  "method_char c \<longleftrightarrow> lower c \<or> js_digit c"

definition id_char :: "char \<Rightarrow> bool" where
  "id_char c \<longleftrightarrow> upper c \<or> lower c \<or> js_digit c \<or> c \<in> {CHR ''.'', CHR ''_'', CHR '':'', CHR ''%'', CHR ''-''}"

text \<open>\<open>did.match(/^did:([a-z0-9]+):([a-zA-Z0-9._:%-]+)$/)\<close>: the two groups. A method cannot contain a colon,
  so that the first group ends at the first colon.\<close>

definition match_did :: "string \<Rightarrow> (string \<times> string) option" where
  "match_did did =
     (if \<not> starts_with did ''did:'' then None
      else
        (let method = takeWhile (\<lambda>c. c \<noteq> CHR '':'') (drop 4 did); rest = dropWhile (\<lambda>c. c \<noteq> CHR '':'') (drop 4 did)
         in if method \<noteq> [] \<and> list_all method_char method \<and> tl rest \<noteq> [] \<and> list_all id_char (tl rest)
            then Some (method, tl rest) else None))"

definition did_errors :: "string \<Rightarrow> complaint list" where
  "did_errors did =
     complain (2048 < length did) ''did'' ''DID string exceeds maximum length of 2048 characters'' ''DID_TOO_LONG'' @
     (case match_did did of
        None \<Rightarrow> complain True ''did'' ''DID must conform to the format did:method:specific-identifier'' ''INVALID_DID_FORMAT''
      | Some (method, specificId) \<Rightarrow>
          complain (\<not> (method \<noteq> [] \<and> list_all method_char method)) ''did''
            ''DID method must contain only lowercase alphanumeric characters'' ''INVALID_METHOD'' @
          complain (length specificId < 1) ''did'' ''DID specific identifier must not be empty'' ''EMPTY_SPECIFIC_ID'')"

definition validateDID :: "json option \<Rightarrow> validation_result" where
  "validateDID did =
     (case did of
        Some (JStr s) \<Rightarrow> finish (did_errors s) []
      | _ \<Rightarrow> finish (complain True ''did'' ''DID must be a string'' ''INVALID_TYPE'') [])"

definition controller_errors :: "nat \<Rightarrow> json \<Rightarrow> complaint list" where
  "controller_errors i c =
     (case c of
        JStr s \<Rightarrow> map (\<lambda>e. e\<lparr>cp_field := index_path ''controller'' i\<rparr>) (did_errors s)
      | _ \<Rightarrow> [])"

definition validateDIDDocument :: "json option \<Rightarrow> validation_result" where
  "validateDIDDocument doc =
     (if \<not> is_object_value doc
      then finish (complain True ''document'' ''DID document must be a non-null object'' ''INVALID_TYPE'') []
      else finish
        ((case get_prop doc ''id'' of
            Some (JStr s) \<Rightarrow>
              if s = [] then complain True ''id'' ''DID document must have a string id field'' ''MISSING_ID'' else did_errors s
          | _ \<Rightarrow> complain True ''id'' ''DID document must have a string id field'' ''MISSING_ID'') @
         (case get_prop doc ''controller'' of
            None \<Rightarrow> []
          | Some (JStr s) \<Rightarrow> did_errors s
          | Some (JArr cs) \<Rightarrow> for_each controller_errors cs
          | Some v \<Rightarrow> complain True ''controller'' ''controller must be a string or array of strings'' ''INVALID_CONTROLLER'') @
         complain (get_prop doc ''verificationMethod'' \<noteq> None \<and> elements (get_prop doc ''verificationMethod'') = None)
           ''verificationMethod'' ''verificationMethod must be an array'' ''INVALID_VERIFICATION_METHOD'') [])"

subsection \<open>Properties\<close>

lemma text_with_iff: "text_with P v \<longleftrightarrow> (\<exists>s. v = Some (JStr s) \<and> P s)"
  by (cases "(P, v)" rule: text_with.cases) auto

lemma number_with_iff: "number_with P v \<longleftrightarrow> (\<exists>n. v = Some (JNum n) \<and> P n)"
  by (cases "(P, v)" rule: number_with.cases) auto

lemma elements_iff: "elements v = Some vs \<longleftrightarrow> v = Some (JArr vs)"
  by (cases v rule: elements.cases) auto

lemma get_prop_object: "get_prop v k = Some w \<Longrightarrow> \<exists>es. v = Some (JObj es) \<and> map_of es k = Some w"
  by (cases v; simp add: get_prop_def; metis json_prop.elims option.discI)

lemma get_prop_obj [simp]: "get_prop (Some (JObj es)) k = map_of es k"
  by (simp add: get_prop_def)

definition subject_accepted :: "(string \<Rightarrow> int option) \<Rightarrow> (string \<times> json) list \<Rightarrow> bool" where
  "subject_accepted parse_date s \<longleftrightarrow>
     named (map_of s ''id'') \<and> absent_or (\<lambda>t. \<not> blank t) (map_of s ''legalName'') \<and>
     absent_or (\<lambda>t. date_shape t \<and> parse_date t \<noteq> None) (map_of s ''dateOfBirth'') \<and>
     absent_or country_code (map_of s ''nationality'') \<and> absent_or country_code (map_of s ''countryOfResidence'') \<and>
     absent_or email_shape (map_of s ''email'')"

lemma validateSubject_kyc_empty:
  "validateSubject_kyc parse_date v = [] \<longleftrightarrow> (\<exists>s. v = Some (JObj s) \<and> subject_accepted parse_date s)"
proof (cases v rule: is_object_value.cases)
  case (1 es)
  then show ?thesis
    by (auto simp: validateSubject_kyc_def subject_accepted_def absent_or_def text_with_iff)
qed (auto simp: validateSubject_kyc_def get_prop_def)

lemma document_errors_empty:
  "document_errors i doc = [] \<longleftrightarrow> (\<exists>e. doc = JObj e \<and> one_of DOCUMENT_TYPES (map_of e ''type'') \<and>
     absent_or country_code (map_of e ''country'') \<and> absent_or date_shape (map_of e ''expirationDate''))"
proof (cases "Some doc" rule: is_object_value.cases)
  case (1 es)
  then show ?thesis by (auto simp: document_errors_def Let_def)
qed (auto simp: document_errors_def get_prop_def Let_def)

text \<open>The KYC workflows that pass the validator are exactly the objects with a subject whose id is a
  text that is not blank and whose other fields, where given, are well-formed (the date of birth a
  calendar date, the countries two capitals, the e-mail an address), a non-empty array of documents, each
  of a known type with a well-formed country and expiry, and a level that is not blank.\<close>

theorem accepted_kyc_workflows:
  "va_valid (validateWorkflow parse_date input) \<longleftrightarrow>
     (\<exists>w s docs. input = Some (JObj w) \<and> map_of w ''subject'' = Some (JObj s) \<and> subject_accepted parse_date s \<and>
       map_of w ''documents'' = Some (JArr docs) \<and> docs \<noteq> [] \<and>
       list_all (\<lambda>d. \<exists>e. d = JObj e \<and> one_of DOCUMENT_TYPES (map_of e ''type'') \<and>
         absent_or country_code (map_of e ''country'') \<and> absent_or date_shape (map_of e ''expirationDate'')) docs \<and>
       named (map_of w ''level''))"
proof -
  have docs: "validateDocuments v = [] \<longleftrightarrow> (\<exists>docs. v = Some (JArr docs) \<and> docs \<noteq> [] \<and>
      list_all (\<lambda>d. \<exists>e. d = JObj e \<and> one_of DOCUMENT_TYPES (map_of e ''type'') \<and>
        absent_or country_code (map_of e ''country'') \<and> absent_or date_shape (map_of e ''expirationDate'')) docs)" for v
    by (cases v rule: elements.cases)
      (auto simp: validateDocuments_def for_each_empty document_errors_empty list_all_length)
  show ?thesis
  proof (cases input rule: is_object_value.cases)
    case (1 es)
    then show ?thesis by (auto simp: validateWorkflow_def validateSubject_kyc_empty docs validateLevel_def)
  qed (auto simp: validateWorkflow_def validateSubject_kyc_empty get_prop_def)
qed

lemma match_did_iff:
  "match_did s = Some (m, r) \<longleftrightarrow>
     s = ''did:'' @ m @ '':'' @ r \<and> m \<noteq> [] \<and> list_all method_char m \<and> r \<noteq> [] \<and> list_all id_char r"
proof
  assume "match_did s = Some (m, r)"
  then have s: "starts_with s ''did:''" and m: "m = takeWhile (\<lambda>c. c \<noteq> CHR '':'') (drop 4 s)"
    and r: "r = tl (dropWhile (\<lambda>c. c \<noteq> CHR '':'') (drop 4 s))" "r \<noteq> []"
    and ok: "m \<noteq> []" "list_all method_char m" "list_all id_char r"
    by (auto simp: match_did_def Let_def split: if_splits)
  obtain t where t: "s = ''did:'' @ t" using s by (auto simp: starts_with_iff)
  have "t = m @ dropWhile (\<lambda>c. c \<noteq> CHR '':'') t" using m t by simp
  moreover obtain c where "dropWhile (\<lambda>c. c \<noteq> CHR '':'') t = c # r" "c = CHR '':''"
    using r t hd_dropWhile [of "\<lambda>c. c \<noteq> CHR '':''" t] by (cases "dropWhile (\<lambda>c. c \<noteq> CHR '':'') t") auto
  ultimately show "s = ''did:'' @ m @ '':'' @ r \<and> m \<noteq> [] \<and> list_all method_char m \<and> r \<noteq> [] \<and> list_all id_char r"
    using t ok r(2) by simp
next
  assume a: "s = ''did:'' @ m @ '':'' @ r \<and> m \<noteq> [] \<and> list_all method_char m \<and> r \<noteq> [] \<and> list_all id_char r"
  have "\<not> method_char (CHR '':'')" by (simp add: method_char_def lower_def js_digit_def)
  then have m: "\<forall>c \<in> set m. c \<noteq> CHR '':''" using a by (auto simp: list_all_iff)
  have "takeWhile (\<lambda>c. c \<noteq> CHR '':'') (m @ '':'' @ r) = m" "dropWhile (\<lambda>c. c \<noteq> CHR '':'') (m @ '':'' @ r) = '':'' @ r"
    using m by (simp_all add: takeWhile_append2 dropWhile_append2)
  then show "match_did s = Some (m, r)"
    using a by (simp add: match_did_def Let_def)
qed

text \<open>The validator of DIDs and the parser of packages/did agree: every DID that the validator accepts has
  the form did:method:id over its alphabets, and both parseDID and DIDUrl.parse take it apart into that method and
  that id, without path, query or fragment.\<close>

theorem accepted_dids_parse:
  assumes "va_valid (validateDID (Some (JStr s)))"
  shows "\<exists>m r. s = ''did:'' @ m @ '':'' @ r \<and> m \<noteq> [] \<and> r \<noteq> [] \<and> length s \<le> 2048 \<and> parseDID s = Inr (m, r) \<and>
    parse_did_url s = Inr \<lparr>dl_did = s, dl_method = m, dl_methodSpecificId = r, dl_path = None, dl_query = None, dl_fragment = None\<rparr>"
proof -
  obtain m r where mr: "match_did s = Some (m, r)" and len: "length s \<le> 2048"
    using assms by (auto simp: validateDID_def did_errors_def split: option.splits)
  then have s: "s = ''did:'' @ m @ '':'' @ r" "m \<noteq> []" "r \<noteq> []" "list_all method_char m" "list_all id_char r"
    by (auto simp: match_did_iff)
  have colon: "CHR '':'' \<notin> set m"
    using s(4) by (auto simp: list_all_iff method_char_def lower_def js_digit_def)
  have "\<not> id_char c \<and> \<not> method_char c" if "c \<in> {CHR ''/'', CHR ''?'', CHR ''#''}" for c
    using that by (auto simp: id_char_def method_char_def upper_def lower_def js_digit_def)
  then have none: "c \<notin> set m" "c \<notin> set r" if "c \<in> {CHR ''/'', CHR ''?'', CHR ''#''}" for c
    using that s(4,5) by (auto simp: list_all_iff)
  have parse: "parseDID s = Inr (m, r)"
    unfolding s(1) by (rule parseDID_did [OF colon])
  have "CHR ''/'' \<notin> set s" "CHR ''?'' \<notin> set s" "CHR ''#'' \<notin> set s"
    using none by (auto simp: s(1))
  moreover have "CHR ''/'' \<notin> set (drop 4 s)" using \<open>CHR ''/'' \<notin> set s\<close> by (auto dest: in_set_dropD)
  moreover have "join_with '':'' (drop 2 (split_on CHR '':'' s)) = r"
    unfolding s(1) split_did [OF colon] by simp
  ultimately have "parse_did_url s =
      Inr \<lparr>dl_did = s, dl_method = m, dl_methodSpecificId = r, dl_path = None, dl_query = None, dl_fragment = None\<rparr>"
    using none by (simp add: parse_did_url_def first_path_def parse nonempty_def)
  then show ?thesis using s(1-3) len parse by blast
qed

lemma accepted_dids_parse_witness:
  "parseDID ''did:key:z6Mk'' = Inr (''key'', ''z6Mk'')"
proof -
  have "match_did ''did:key:z6Mk'' = Some (''key'', ''z6Mk'')"
    by (simp add: match_did_def Let_def method_char_def id_char_def lower_def upper_def js_digit_def)
  then have "va_valid (validateDID (Some (JStr ''did:key:z6Mk'')))"
    by (simp add: validateDID_def did_errors_def method_char_def lower_def js_digit_def)
  from accepted_dids_parse [OF this] show ?thesis
    by (auto simp: parseDID_def)
qed

text \<open>The rate limits that pass the validator: a known strategy, a whole positive number of requests in a
  whole number of milliseconds between 1 and one day, for the concurrent strategy a positive number of
  places, and every other setting, where given, positive and of its type. Warnings refuse nothing.\<close>

theorem accepted_rate_limits:
  "va_valid (validateRateLimit (Some (JObj c))) \<longleftrightarrow>
     one_of VALID_STRATEGIES (map_of c ''strategy'') \<and>
     number_with positive_integer (map_of c ''maxRequests'') \<and>
     number_with (\<lambda>n. positive_integer n \<and> n \<le> 86400000) (map_of c ''windowMs'') \<and>
     (if map_of c ''maxConcurrent'' = None then map_of c ''strategy'' \<noteq> Some (JStr ''concurrent'')
      else number_with positive_integer (map_of c ''maxConcurrent'')) \<and>
     (map_of c ''burstSize'' = None \<or> number_with positive_integer (map_of c ''burstSize'')) \<and>
     (map_of c ''refillRate'' = None \<or> number_with (\<lambda>n. 0 < n) (map_of c ''refillRate'')) \<and>
     (map_of c ''refillIntervalMs'' = None \<or> number_with positive_integer (map_of c ''refillIntervalMs'')) \<and>
     absent_or (\<lambda>s. \<not> blank s) (map_of c ''keyPrefix'')"
proof -
  have strategy: "validateStrategy v = [] \<longleftrightarrow> one_of VALID_STRATEGIES v" for v
    by (cases v rule: is_text_value.cases) (auto simp: validateStrategy_def json_truthy_def VALID_STRATEGIES_def)
  have requests: "validateMaxRequests v = [] \<longleftrightarrow> number_with positive_integer v" for v
    by (auto simp: validateMaxRequests_def nullish_value_def)
  have window: "validateWindowMs v = [] \<longleftrightarrow> number_with (\<lambda>n. positive_integer n \<and> n \<le> 86400000) v" for v
    by (auto simp: validateWindowMs_def nullish_value_def number_with_iff not_less)
  have "fst (validateMaxConcurrent st v) = [] \<longleftrightarrow>
      (if v = None then st \<noteq> Some (JStr ''concurrent'') else number_with positive_integer v)" for st v
    by (simp add: validateMaxConcurrent_def is_strategy_def)
  moreover have "fst (validateBurstSize st v n) = [] \<longleftrightarrow> v = None \<or> number_with positive_integer v" for st v n
    by (simp add: validateBurstSize_def)
  moreover have "fst (validateRefillConfig cfg) = [] \<longleftrightarrow>
      (get_prop cfg ''refillRate'' = None \<or> number_with (\<lambda>n. 0 < n) (get_prop cfg ''refillRate'')) \<and>
      (get_prop cfg ''refillIntervalMs'' = None \<or> number_with positive_integer (get_prop cfg ''refillIntervalMs'')) \<and>
      absent_or (\<lambda>s. \<not> blank s) (get_prop cfg ''keyPrefix'')" for cfg
    by (auto simp: validateRefillConfig_def Let_def)
  ultimately show ?thesis
    by (simp add: validateRateLimit_def split_beta strategy requests window)
qed

text \<open>An expiry before the issuance is no error: a credential that the validator accepts is still accepted
  with an expiration date that is not after its issuance date; there is only a warning.\<close>

theorem expiry_before_issuance_accepted:
  assumes "va_valid (validateCredential parse_date (Some (JObj c)))"
    and "parse_date early = Some t1" "parse_date late = Some t2" "t1 \<le> t2" "late \<noteq> []"
  shows "va_valid (validateCredential parse_date
      (Some (JObj ((''issuanceDate'', JStr late) # (''expirationDate'', JStr early) # c)))) \<and>
    ''expirationDate should be after issuanceDate'' \<in>
      set (va_warnings (validateCredential parse_date
        (Some (JObj ((''issuanceDate'', JStr late) # (''expirationDate'', JStr early) # c)))))"
  using assms
  by (auto simp: validateCredential_def validateDates_def Let_def warn_def not_after_def json_truthy_def complain_def)

lemma expiry_before_issuance_accepted_witness:
  "va_valid (validateCredential (\<lambda>s. Some (int (length s)))
     (Some (JObj ((''issuanceDate'', JStr ''bb'') # (''expirationDate'', JStr ''a'') #
        [(''type'', JStr ''KYC''), (''issuer'', JStr ''did:x:y''), (''subject'', JObj [(''id'', JStr ''s'')])]))))"
proof -
  have "va_valid (validateCredential (\<lambda>s. Some (int (length s)))
      (Some (JObj [(''type'', JStr ''KYC''), (''issuer'', JStr ''did:x:y''), (''subject'', JObj [(''id'', JStr ''s'')])])))"
    by (simp add: validateCredential_def validateDates_def validateType_def validateIssuer_def validateSubject_credential_def
      Let_def json_truthy_def blank_def js_space_def)
  from expiry_before_issuance_accepted [OF this, of "''a''" 1 "''bb''" 2] show ?thesis by simp
qed

end
