(* ===== verification/DidService.thy ===== *)
theory DidService
  imports Prelude
begin

section \<open>The DID service of the API\<close>

text \<open>
  packages/api/src/services/did_service.ts: documents kept by DID. The name of a new DID is the first
  half of the SHA-256 of the JSON text of its verification methods (\<open>digest\<close>, a parameter); the
  clock is an argument. A field set to undefined is one that is absent.
\<close>

subsection \<open>Documents\<close>

record stored_method =
  vx_id :: string
  vx_type :: string
  vx_controller :: string
  vx_publicKeyMultibase :: "string option"
  vx_publicKeyJwk :: "json option"

datatype method_ref = RefTo string | Embedded stored_method

datatype did_controller = OneController string | Controllers "string list"

record service_entry =
  sx_id :: string
  sx_type :: string
  sx_serviceEndpoint :: json

text \<open>The parts that create and update take from their input.\<close>

record document_parts =
  dx_verificationMethod :: "stored_method list option"
  dx_authentication :: "method_ref list option"
  dx_assertionMethod :: "method_ref list option"
  dx_keyAgreement :: "method_ref list option"
  dx_capabilityInvocation :: "method_ref list option"
  dx_capabilityDelegation :: "method_ref list option"
  dx_service :: "service_entry list option"
  dx_alsoKnownAs :: "string list option"

record stored_document = document_parts +
  dx_context :: "string list"
  dx_id :: string
  dx_controller :: "did_controller option"
  dx_created :: int
  dx_updated :: int

record create_input =
  cr_method :: string
  cr_verificationMethod :: "stored_method list"
  cr_rest :: document_parts

type_synonym did_store = "(string, stored_document) jsmap"

record resolution_result =
  rz_didDocument :: stored_document
  rz_contentType :: string
  rz_created :: int
  rz_updated :: int

subsection \<open>Operations\<close>

definition did_not_found :: "string \<Rightarrow> js_exn" where
  "did_not_found did = new_object_assign (JsError (''DID not found: '' @ did)) 404"

definition resolve_stored :: "string \<Rightarrow> did_store \<Rightarrow> resolution_result result" where
  "resolve_stored did m =
     (case jm_get m did of
        None \<Rightarrow> Inl (did_not_found did)
      | Some doc \<Rightarrow>
          Inr \<lparr>rz_didDocument = doc, rz_contentType = ''application/did+ld+json'', rz_created = dx_created doc,
                rz_updated = dx_updated doc\<rparr>)"

definition key_name :: "nat \<Rightarrow> string" where
  "key_name i = ''#key-'' @ show_nat i"

definition name_method :: "string \<Rightarrow> nat \<Rightarrow> stored_method \<Rightarrow> stored_method" where
  "name_method did i vm = vm\<lparr>vx_id := (if CHR '':'' \<in> set (vx_id vm) then vx_id vm else did @ key_name i)\<rparr>"

definition did_of_input :: "(stored_method list \<Rightarrow> string) \<Rightarrow> create_input \<Rightarrow> string" where
  "did_of_input digest input =
     ''did:'' @ cr_method input @ '':'' @ take 32 (digest (cr_verificationMethod input))"

definition new_document :: "int \<Rightarrow> string \<Rightarrow> create_input \<Rightarrow> stored_document" where
  "new_document now did input =
     (let vms = cr_verificationMethod input; rest = cr_rest input
      in \<lparr>dx_verificationMethod = Some (map (\<lambda>i. name_method did i (vms ! i)) [0..<length vms]),
          dx_authentication = Some (or_default (dx_authentication rest) (map (\<lambda>i. RefTo (key_name i)) [0..<length vms])),
          dx_assertionMethod = dx_assertionMethod rest, dx_keyAgreement = dx_keyAgreement rest,
          dx_capabilityInvocation = dx_capabilityInvocation rest, dx_capabilityDelegation = dx_capabilityDelegation rest,
          dx_service = dx_service rest, dx_alsoKnownAs = dx_alsoKnownAs rest,
          dx_context = [''https://www.w3.org/ns/did/v1''], dx_id = did, dx_controller = None,
          dx_created = now, dx_updated = now\<rparr>)"

definition create_did ::
    "(stored_method list \<Rightarrow> string) \<Rightarrow> int \<Rightarrow> create_input \<Rightarrow> did_store \<Rightarrow> stored_document result \<times> did_store" where
  "create_did digest now input m =
     (let did = did_of_input digest input
      in if jm_has m did then (Inl (new_object_assign (JsError ''DID already exists'') 409), m)
         else (let doc = new_document now did input in (Inr doc, jm_set did doc m)))"

definition orelse :: "'a option \<Rightarrow> 'a option \<Rightarrow> 'a option" where
  "orelse a b = (case a of None \<Rightarrow> b | Some x \<Rightarrow> Some x)"

definition update_did :: "int \<Rightarrow> string \<Rightarrow> document_parts \<Rightarrow> did_store \<Rightarrow> stored_document result \<times> did_store" where
  "update_did now did u m =
     (case jm_get m did of
        None \<Rightarrow> (Inl (did_not_found did), m)
      | Some existing \<Rightarrow>
          (let updated = existing
             \<lparr>dx_verificationMethod := orelse (dx_verificationMethod u) (dx_verificationMethod existing),
              dx_authentication := orelse (dx_authentication u) (dx_authentication existing),
              dx_assertionMethod := orelse (dx_assertionMethod u) (dx_assertionMethod existing),
              dx_keyAgreement := orelse (dx_keyAgreement u) (dx_keyAgreement existing),
              dx_capabilityInvocation := orelse (dx_capabilityInvocation u) (dx_capabilityInvocation existing),
              dx_capabilityDelegation := orelse (dx_capabilityDelegation u) (dx_capabilityDelegation existing),
              dx_service := orelse (dx_service u) (dx_service existing),
              dx_alsoKnownAs := orelse (dx_alsoKnownAs u) (dx_alsoKnownAs existing), dx_updated := now\<rparr>
           in (Inr updated, jm_set did updated m)))"

definition deactivate_did :: "string \<Rightarrow> did_store \<Rightarrow> unit result \<times> did_store" where
  "deactivate_did did m =
     (if \<not> jm_has m did then (Inl (did_not_found did), m) else (Inr (), jm_del did m))"

definition controlled_by :: "string \<Rightarrow> stored_document \<Rightarrow> bool" where
  "controlled_by c doc =
     (case dx_controller doc of None \<Rightarrow> False | Some (OneController d) \<Rightarrow> d = c | Some (Controllers ds) \<Rightarrow> c \<in> set ds)"

text \<open>An empty method or controller does not filter.\<close>

definition matching_documents :: "string option \<Rightarrow> string option \<Rightarrow> did_store \<Rightarrow> stored_document list" where
  "matching_documents method controller m =
     (let docs = jm_values m;
          docs1 = (if or_default method [] = [] then docs
                   else filter (\<lambda>d. starts_with (dx_id d) (''did:'' @ or_default method [] @ '':'')) docs)
      in if or_default controller [] = [] then docs1 else filter (controlled_by (or_default controller [])) docs1)"

definition list_dids :: "string option \<Rightarrow> string option \<Rightarrow> int \<Rightarrow> int \<Rightarrow> did_store \<Rightarrow> stored_document page" where
  "list_dids method controller pageNo limit m = paginate (matching_documents method controller m) pageNo limit"

subsection \<open>Runs\<close>

datatype did_operation =
    CreateDid int create_input
  | UpdateDid int string document_parts
  | DeactivateDid string

fun did_step :: "(stored_method list \<Rightarrow> string) \<Rightarrow> did_operation \<Rightarrow> did_store \<Rightarrow> did_store" where
  "did_step digest (CreateDid now input) m = snd (create_did digest now input m)"
| "did_step digest (UpdateDid now did u) m = snd (update_did now did u m)"
| "did_step digest (DeactivateDid did) m = snd (deactivate_did did m)"

definition store_inv :: "did_store \<Rightarrow> bool" where
  "store_inv m \<longleftrightarrow> jm_ok m \<and> (\<forall>did doc. jm_get m did = Some doc \<longrightarrow> dx_id doc = did \<and> dx_controller doc = None)"

lemma store_inv_step: "store_inv m \<Longrightarrow> store_inv (did_step digest e m)"
  by (cases e)
    (auto simp: store_inv_def create_did_def new_document_def update_did_def deactivate_did_def Let_def split: option.splits)

interpretation ds: invariant_machine "did_step digest" "\<lambda>e m. True" store_inv for digest
  by unfold_locales (rule store_inv_step)

text \<open>What stays of a document as long as it is not deactivated.\<close>

definition keeps :: "string \<Rightarrow> int \<Rightarrow> did_store \<Rightarrow> bool" where
  "keeps did t m \<longleftrightarrow> (\<exists>doc. jm_get m did = Some doc \<and> dx_id doc = did \<and> dx_created doc = t)"

lemma keeps_step: "keeps did t m \<Longrightarrow> e \<noteq> DeactivateDid did \<Longrightarrow> keeps did t (did_step digest e m)"
  by (cases e) (auto simp: keeps_def create_did_def update_did_def deactivate_did_def jm_has_def Let_def split: option.splits)

interpretation dk: invariant_machine "did_step digest" "\<lambda>e m. e \<noteq> DeactivateDid did" "keeps did t" for digest did t
  by unfold_locales (rule keeps_step)

lemma admissible_all: "(\<And>e s. e \<in> set es \<Longrightarrow> ok e s) \<Longrightarrow> admissible ok f es s"
  by (induction es arbitrary: s) auto

subsection \<open>Properties\<close>

text \<open>A created DID stays: whatever is created, updated and deactivated afterwards, as long as it is not
  this DID that is deactivated, resolving it gives a document with its id and its time of creation, it is not created a
  second time, and an update changes neither.\<close>

theorem created_did_stays:
  assumes "jm_get m (did_of_input digest input) = None" and "DeactivateDid (did_of_input digest input) \<notin> set es"
    and "m' = run_events (did_step digest) es (snd (create_did digest t input m))"
  shows "\<exists>r. resolve_stored (did_of_input digest input) m' = Inr r \<and> dx_id (rz_didDocument r) = did_of_input digest input \<and>
    rz_created r = t \<and> create_did digest t' input m' = (Inl (JsTypeError ''Object.assign is not a constructor''), m')"
proof -
  have "keeps (did_of_input digest input) t (snd (create_did digest t input m))"
    using assms(1) by (simp add: keeps_def create_did_def new_document_def jm_has_def Let_def)
  then have "keeps (did_of_input digest input) t m'"
    unfolding assms(3) using assms(2) by (intro dk.inv_run admissible_all) auto
  then show ?thesis
    by (auto simp: keeps_def resolve_stored_def create_did_def jm_has_def new_object_assign_def)
qed

text \<open>Deactivating is no more than deleting: the DID cannot be resolved any more, but creating it again
  from the same verification methods is accepted and brings it back, with a new time of creation.\<close>

theorem deactivated_did_comes_back:
  assumes "jm_has m did" and "did = did_of_input digest input"
  shows "resolve_stored did (snd (deactivate_did did m)) = Inl (JsTypeError ''Object.assign is not a constructor'') \<and>
    (\<exists>doc. create_did digest t input (snd (deactivate_did did m)) = (Inr doc, jm_set did doc (jm_del did m)) \<and>
      dx_id doc = did \<and> dx_created doc = t)"
  using assms
  by (auto simp: deactivate_did_def resolve_stored_def did_not_found_def new_object_assign_def create_did_def jm_has_def
    new_document_def Let_def)

text \<open>The default authentication of a new document names its keys by position: the i-th reference, read
  relative to the DID, is the id of the i-th verification method exactly when the input did not already give
  that method an id with a colon (or gave it just that one).\<close>

theorem default_authentication_refers_to_keys:
  assumes "dx_authentication (cr_rest input) = None" and "i < length (cr_verificationMethod input)"
    and "doc = new_document t did input" and "dx_authentication doc = Some refs" "dx_verificationMethod doc = Some vms"
  shows "refs ! i = RefTo (key_name i) \<and> length refs = length vms \<and>
    (did @ key_name i = vx_id (vms ! i) \<longleftrightarrow>
      CHR '':'' \<notin> set (vx_id (cr_verificationMethod input ! i)) \<or> vx_id (cr_verificationMethod input ! i) = did @ key_name i)"
  using assms by (auto simp: new_document_def name_method_def Let_def)

text \<open>No document of the service ever has a controller, so that listing by controller finds nothing;
  listing by method gives exactly the documents of DIDs of that method, and the pages of a listing put
  together are the whole of it.\<close>

theorem did_listing:
  assumes "m = run_events (did_step digest) es jm_empty" and "c \<noteq> []" and "0 < limit"
  shows "pg_data (list_dids method (Some c) pageNo limit m) = [] \<and>
    set (matching_documents (Some meth) None m) =
      {doc. \<exists>did. jm_get m did = Some doc \<and> (meth = [] \<or> starts_with did (''did:'' @ meth @ '':''))} \<and>
    concat (map (\<lambda>p. pg_data (list_dids (Some meth) None (int p + 1) limit m)) [0..<length m]) =
      matching_documents (Some meth) None m"
proof (intro conjI)
  have inv: "store_inv m"
    unfolding assms(1) by (rule ds.inv_run) (simp_all add: store_inv_def)
  have none: "controlled_by c doc = False" if "doc \<in> set (jm_values m)" for doc
    using inv that by (auto simp: store_inv_def jm_values_get controlled_by_def)
  have "matching_documents method (Some c) m = []"
    using assms(2) none by (auto simp: matching_documents_def filter_empty_conv Let_def)
  then show "pg_data (list_dids method (Some c) pageNo limit m) = []"
    by (simp add: list_dids_def paginate_def js_slice_def Let_def)
  show "set (matching_documents (Some meth) None m) =
      {doc. \<exists>did. jm_get m did = Some doc \<and> (meth = [] \<or> starts_with did (''did:'' @ meth @ '':''))}"
    using inv by (auto simp: matching_documents_def store_inv_def jm_values_get Let_def; blast)
  obtain n where n: "limit = int n" "0 < n" using assms(3) by (metis zero_less_imp_eq_int)
  have "length (matching_documents (Some meth) None m) \<le> length m * n"
  proof -
    have "length (matching_documents (Some meth) None m) \<le> length m"
      by (auto simp: matching_documents_def jm_values_def Let_def intro: order_trans [OF length_filter_le])
    also have "\<dots> \<le> length m * n" using n(2) by simp
    finally show ?thesis .
  qed
  then show "concat (map (\<lambda>p. pg_data (list_dids (Some meth) None (int p + 1) limit m)) [0..<length m]) =
      matching_documents (Some meth) None m"
    using paginate_concat [of "matching_documents (Some meth) None m" n "length m"] by (simp add: list_dids_def n)
qed

subsection \<open>Concrete instances\<close>

definition toy_key :: stored_method where
  "toy_key = \<lparr>vx_id = ''k'', vx_type = ''Ed25519VerificationKey2020'', vx_controller = ''me'', vx_publicKeyMultibase = None,
     vx_publicKeyJwk = None\<rparr>"

definition toy_input :: create_input where
  "toy_input = \<lparr>cr_method = ''key'', cr_verificationMethod = [toy_key],
     cr_rest = \<lparr>dx_verificationMethod = None, dx_authentication = None, dx_assertionMethod = None, dx_keyAgreement = None,
       dx_capabilityInvocation = None, dx_capabilityDelegation = None, dx_service = None, dx_alsoKnownAs = None\<rparr>\<rparr>"

lemma created_did_stays_witness:
  "\<exists>r. resolve_stored ''did:key:ab'' (run_events (did_step (\<lambda>_. ''ab'')) [UpdateDid 2 ''did:key:ab'' (cr_rest toy_input)]
      (snd (create_did (\<lambda>_. ''ab'') 1 toy_input jm_empty))) = Inr r \<and> rz_created r = 1"
  using created_did_stays [of jm_empty "\<lambda>_. ''ab''" toy_input "[UpdateDid 2 ''did:key:ab'' (cr_rest toy_input)]", OF _ _ refl]
  by (auto simp: did_of_input_def toy_input_def)

lemma deactivated_did_comes_back_witness:
  "\<exists>doc. create_did (\<lambda>_. ''ab'') 5 toy_input
      (snd (deactivate_did ''did:key:ab'' (snd (create_did (\<lambda>_. ''ab'') 1 toy_input jm_empty)))) =
      (Inr doc, jm_set ''did:key:ab'' doc (jm_del ''did:key:ab'' (snd (create_did (\<lambda>_. ''ab'') 1 toy_input jm_empty))))"
proof -
  have "did_of_input (\<lambda>_. ''ab'') toy_input = ''did:key:ab''" by (simp add: did_of_input_def toy_input_def)
  moreover have "jm_has (snd (create_did (\<lambda>_. ''ab'') 1 toy_input jm_empty)) (did_of_input (\<lambda>_. ''ab'') toy_input)"
    by (simp add: create_did_def jm_has_def Let_def)
  ultimately show ?thesis
    using deactivated_did_comes_back [OF _ refl, of _ "\<lambda>_. ''ab''" toy_input 5] by fastforce
qed

lemma default_authentication_refers_to_keys_witness:
  "\<exists>refs vms. dx_authentication (new_document 1 ''did:key:ab'' toy_input) = Some refs \<and>
     dx_verificationMethod (new_document 1 ''did:key:ab'' toy_input) = Some vms \<and> ''did:key:ab'' @ key_name 0 = vx_id (vms ! 0)"
proof -
  obtain refs vms where doc: "dx_authentication (new_document 1 ''did:key:ab'' toy_input) = Some refs"
    "dx_verificationMethod (new_document 1 ''did:key:ab'' toy_input) = Some vms"
    by (simp add: new_document_def Let_def)
  have "dx_authentication (cr_rest toy_input) = None" "0 < length (cr_verificationMethod toy_input)"
    "CHR '':'' \<notin> set (vx_id (cr_verificationMethod toy_input ! 0))"
    by (simp_all add: toy_input_def toy_key_def)
  with default_authentication_refers_to_keys [OF this(1,2) refl doc] doc show ?thesis by blast
qed

lemma did_listing_witness:
  "length (matching_documents (Some ''key'') None (run_events (did_step (\<lambda>_. ''ab'')) [CreateDid 1 toy_input] jm_empty)) = 1 \<and>
   pg_data (list_dids None (Some ''me'') 1 10 (run_events (did_step (\<lambda>_. ''ab'')) [CreateDid 1 toy_input] jm_empty)) = []"
proof
  show "length (matching_documents (Some ''key'') None (run_events (did_step (\<lambda>_. ''ab'')) [CreateDid 1 toy_input] jm_empty)) = 1"
    by (simp add: create_did_def did_of_input_def new_document_def toy_input_def matching_documents_def jm_has_def jm_values_def
      jm_set_def jm_empty_def jm_get_def Let_def)
  show "pg_data (list_dids None (Some ''me'') 1 10 (run_events (did_step (\<lambda>_. ''ab'')) [CreateDid 1 toy_input] jm_empty)) = []"
    by (rule conjunct1 [OF did_listing [OF refl]]) simp_all
qed

end
