(* ===== verification/ZkpService.thy ===== *)
theory ZkpService
  imports Prelude
begin

section \<open>The proof service of the API\<close>

text \<open>
  packages/api/src/services/zkp_service.ts: a registry of circuits and a store of proofs. SHA-256 of the JSON
  text of the inputs (in hexadecimal) is a parameter, ids and the clock are arguments. Making and
  checking a proof call nothing outside this file.
\<close>

subsection \<open>Data\<close>

record circuit_definition =
  cd_id :: string
  cd_name :: string
  cd_version :: string
  cd_description :: string
  cd_publicInputs :: "string list"
  cd_publicOutputs :: "string list"
  cd_provingKeySize :: int
  cd_verificationKey :: string
  cd_supportedCurve :: string

text \<open>A proof as a caller can send it: every part may be missing (\<open>None\<close>).\<close>

record zkp_proof =
  zp_proofId :: "string option"
  zp_circuitId :: "string option"
  zp_proof :: "json option"
  zp_publicInputs :: "(string \<times> json) list option"
  zp_publicOutputs :: "(string \<times> json) list option"
  zp_created :: "int option"

record proof_request =
  zq_circuitId :: string
  zq_inputs :: "(string \<times> json) list"

record zkp_service =
  zk_circuits :: "(string, circuit_definition) jsmap"
  zk_proofs :: "(string, zkp_proof) jsmap"

record proof_verification =
  zv_verified :: bool
  zv_circuitId :: string
  zv_verificationTimeMs :: int
  zv_errors :: "string list option"

definition age_circuit :: circuit_definition where
  "age_circuit =
     \<lparr>cd_id = ''age-verification-v1'', cd_name = ''Age Verification'', cd_version = ''1.0.0'',
      cd_description = ''Prove age is above a threshold without revealing birth date'',
      cd_publicInputs = [''minAge'', ''merkleRoot''], cd_publicOutputs = [''isAboveAge''], cd_provingKeySize = 2048,
      cd_verificationKey = ''vk_age_v1_abc123'', cd_supportedCurve = ''bn254''\<rparr>"

definition kyc_circuit :: circuit_definition where
  "kyc_circuit =
     \<lparr>cd_id = ''kyc-attribute-v1'', cd_name = ''KYC Attribute Disclosure'', cd_version = ''1.0.0'',
      cd_description = ''Selectively disclose KYC attributes without revealing all data'',
      cd_publicInputs = [''claimHash'', ''issuerPubKey''], cd_publicOutputs = [''attributeValid''], cd_provingKeySize = 4096,
      cd_verificationKey = ''vk_kyc_v1_def456'', cd_supportedCurve = ''bn254''\<rparr>"

definition membership_circuit :: circuit_definition where
  "membership_circuit =
     \<lparr>cd_id = ''membership-v1'', cd_name = ''Membership Verification'', cd_version = ''1.0.0'',
      cd_description = ''Prove membership in a group without revealing identity'',
      cd_publicInputs = [''groupId'', ''root''], cd_publicOutputs = [''isMember''], cd_provingKeySize = 1024,
      cd_verificationKey = ''vk_mem_v1_ghi789'', cd_supportedCurve = ''bn254''\<rparr>"

definition registerDefaultCircuits :: zkp_service where
  "registerDefaultCircuits =
     foldl (\<lambda>s c. s\<lparr>zk_circuits := jm_set (cd_id c) c (zk_circuits s)\<rparr>)
       \<lparr>zk_circuits = jm_empty, zk_proofs = jm_empty\<rparr> [age_circuit, kyc_circuit, membership_circuit]"

subsection \<open>Operations\<close>

definition getCircuits :: "zkp_service \<Rightarrow> circuit_definition list" where
  "getCircuits s = jm_values (zk_circuits s)"

definition getCircuit :: "string \<Rightarrow> zkp_service \<Rightarrow> circuit_definition result" where
  "getCircuit i s =
     (case jm_get (zk_circuits s) i of
        None \<Rightarrow> Inl (new_object_assign (JsError (''Circuit not found: '' @ i)) 404)
      | Some c \<Rightarrow> Inr c)"

definition registerCircuit :: "circuit_definition \<Rightarrow> zkp_service \<Rightarrow> circuit_definition result \<times> zkp_service" where
  "registerCircuit c s =
     (if jm_has (zk_circuits s) (cd_id c)
      then (Inl (new_object_assign (JsError (''Circuit already exists: '' @ cd_id c)) 409), s)
      else (Inr c, s\<lparr>zk_circuits := jm_set (cd_id c) c (zk_circuits s)\<rparr>))"

definition proof_points :: "string \<Rightarrow> json" where
  "proof_points inputHash =
     JObj
       [(''pi_a'', JArr [JStr (''0x'' @ js_slice inputHash 0 32), JStr (''0x'' @ js_slice inputHash 32 64), JStr ''0x1'']),
        (''pi_b'', JArr [JArr [JStr ''0x0'', JStr ''0x0''], JArr [JStr ''0x0'', JStr ''0x0'']]),
        (''pi_c'', JArr [JStr (''0x'' @ js_slice inputHash 0 16), JStr (''0x'' @ js_slice inputHash 16 32)]),
        (''protocol'', JStr ''groth16'')]"

definition generateProof_zkp ::
    "((string \<times> json) list \<Rightarrow> string) \<Rightarrow> int \<Rightarrow> string \<Rightarrow> proof_request \<Rightarrow> zkp_service \<Rightarrow> zkp_proof result \<times> zkp_service" where
  "generateProof_zkp digest now uuid request s =
     (case getCircuit (zq_circuitId request) s of
        Inl e \<Rightarrow> (Inl e, s)
      | Inr circuit \<Rightarrow>
          (let proofId = ''proof-'' @ uuid;
               pf = \<lparr>zp_proofId = Some proofId, zp_circuitId = Some (zq_circuitId request),
                 zp_proof = Some (proof_points (digest (zq_inputs request))), zp_publicInputs = Some (zq_inputs request),
                 zp_publicOutputs = Some [(''verified'', JBool True), (''valid'', JBool True)], zp_created = Some now\<rparr>
           in (Inr pf, s\<lparr>zk_proofs := jm_set proofId pf (zk_proofs s)\<rparr>)))"

definition verifyProof_zkp :: "int \<Rightarrow> string \<Rightarrow> zkp_proof \<Rightarrow> zkp_service \<Rightarrow> proof_verification result" where
  "verifyProof_zkp durationMs circuitId pf s =
     (case getCircuit circuitId s of
        Inl e \<Rightarrow> Inl e
      | Inr circuit \<Rightarrow>
          (let errors =
             (case zp_proof pf of
                Some (JObj es) \<Rightarrow> [] | Some (JArr vs) \<Rightarrow> [] | _ \<Rightarrow> [''Invalid proof format'']) @
             (if or_default (zp_publicInputs pf) [] = [] then [''Missing public inputs''] else []) @
             (if or_default (zp_circuitId pf) [] = [] \<or> zp_circuitId pf \<noteq> Some circuitId then [''Circuit ID mismatch''] else [])
           in Inr \<lparr>zv_verified = (errors = []), zv_circuitId = circuitId, zv_verificationTimeMs = durationMs,
                   zv_errors = (if errors = [] then None else Some errors)\<rparr>))"

definition getProof :: "string \<Rightarrow> zkp_service \<Rightarrow> zkp_proof result" where
  "getProof i s =
     (case jm_get (zk_proofs s) i of
        None \<Rightarrow> Inl (new_object_assign (JsError (''Proof not found: '' @ i)) 404)
      | Some pf \<Rightarrow> Inr pf)"

subsection \<open>Runs\<close>

datatype zkp_operation = RegisterCircuit circuit_definition | GenerateProof int string proof_request

fun zkp_step :: "((string \<times> json) list \<Rightarrow> string) \<Rightarrow> zkp_operation \<Rightarrow> zkp_service \<Rightarrow> zkp_service" where
  "zkp_step digest (RegisterCircuit c) s = snd (registerCircuit c s)"
| "zkp_step digest (GenerateProof now uuid request) s = snd (generateProof_zkp digest now uuid request s)"

fun fresh_proof :: "zkp_operation \<Rightarrow> zkp_service \<Rightarrow> bool" where
  "fresh_proof (RegisterCircuit c) s = True"
| "fresh_proof (GenerateProof now uuid request) s = (\<not> jm_has (zk_proofs s) (''proof-'' @ uuid))"

text \<open>What is known of a circuit and of a proof does not change.\<close>

definition remembers :: "string \<Rightarrow> circuit_definition \<Rightarrow> string \<Rightarrow> zkp_proof \<Rightarrow> zkp_service \<Rightarrow> bool" where
  "remembers i c j pf s \<longleftrightarrow> jm_get (zk_circuits s) i = Some c \<and> jm_get (zk_proofs s) j = Some pf"

lemma remembers_step: "remembers i c j pf s \<Longrightarrow> fresh_proof e s \<Longrightarrow> remembers i c j pf (zkp_step digest e s)"
  by (cases e)
    (auto simp: remembers_def registerCircuit_def generateProof_zkp_def jm_has_def Let_def split: sum.splits option.splits)

interpretation zk: invariant_machine "zkp_step digest" fresh_proof "remembers i c j pf" for digest i c j pf
  by unfold_locales (rule remembers_step)

subsection \<open>Properties\<close>

text \<open>What the service's verification is worth: it never looks inside the proof. A proof is accepted
  exactly when the circuit is registered, its proof part is any object or array, it names the circuit and it has at
  least one public input; the verification key, the points and the outputs play no part.\<close>

theorem verification_ignores_proof:
  "(\<exists>r. verifyProof_zkp d circuitId pf s = Inr r \<and> zv_verified r) \<longleftrightarrow>
     jm_has (zk_circuits s) circuitId \<and> circuitId \<noteq> [] \<and> zp_circuitId pf = Some circuitId \<and>
     (\<exists>es. zp_publicInputs pf = Some es \<and> es \<noteq> []) \<and>
     ((\<exists>es. zp_proof pf = Some (JObj es)) \<or> (\<exists>vs. zp_proof pf = Some (JArr vs)))"
  by (cases "zp_publicInputs pf"; cases "zp_circuitId pf"; cases "zp_proof pf")
    (auto simp: verifyProof_zkp_def getCircuit_def jm_has_def Let_def split: option.splits json.splits)

text \<open>A proof made by the service stays with it unchanged, and the service verifies it for its circuit for ever,
  whatever circuits are registered and proofs made afterwards, provided it was made from at least one input; a
  proof made from none is refused.\<close>

theorem generated_proofs_verify:
  assumes "generateProof_zkp digest now uuid request s = (Inr pf, s1)"
    and "admissible fresh_proof (zkp_step digest) es s1" and "s2 = run_events (zkp_step digest) es s1"
    and "zq_circuitId request \<noteq> []"
  shows "getProof (''proof-'' @ uuid) s2 = Inr pf \<and>
    (\<exists>r. verifyProof_zkp d (zq_circuitId request) pf s2 = Inr r \<and> (zv_verified r \<longleftrightarrow> zq_inputs request \<noteq> []))"
proof -
  obtain c where c: "jm_get (zk_circuits s) (zq_circuitId request) = Some c"
    using assms(1) by (auto simp: generateProof_zkp_def getCircuit_def split: option.splits)
  then have pf: "zp_circuitId pf = Some (zq_circuitId request)" "zp_publicInputs pf = Some (zq_inputs request)"
    "\<exists>es. zp_proof pf = Some (JObj es)" "jm_get (zk_proofs s1) (''proof-'' @ uuid) = Some pf"
    "zk_circuits s1 = zk_circuits s"
    using assms(1) by (auto simp: generateProof_zkp_def getCircuit_def proof_points_def Let_def)
  then have "remembers (zq_circuitId request) c (''proof-'' @ uuid) pf s1"
    using c by (simp add: remembers_def)
  then have "remembers (zq_circuitId request) c (''proof-'' @ uuid) pf s2"
    unfolding assms(3) by (rule zk.inv_run) (rule assms(2))
  then show ?thesis
    using pf assms(4) by (auto simp: remembers_def getProof_def verifyProof_zkp_def getCircuit_def Let_def)
qed

lemma generated_proofs_verify_witness:
  "\<exists>pf s1 r. generateProof_zkp (\<lambda>_. ''00'') 1 ''u'' \<lparr>zq_circuitId = ''age-verification-v1'', zq_inputs = [(''minAge'', JNum 18)]\<rparr>
       registerDefaultCircuits = (Inr pf, s1) \<and>
     verifyProof_zkp 0 ''age-verification-v1'' pf (run_events (zkp_step (\<lambda>_. ''00'')) [RegisterCircuit age_circuit] s1) = Inr r \<and>
     zv_verified r"
proof -
  let ?q = "\<lparr>zq_circuitId = ''age-verification-v1'', zq_inputs = [(''minAge'', JNum 18)]\<rparr>"
  obtain pf s1 where made: "generateProof_zkp (\<lambda>_. ''00'') 1 ''u'' ?q registerDefaultCircuits = (Inr pf, s1)"
    by (simp add: generateProof_zkp_def getCircuit_def registerDefaultCircuits_def age_circuit_def kyc_circuit_def
      membership_circuit_def Let_def)
  from generated_proofs_verify [OF made _ refl, of "[RegisterCircuit age_circuit]" 0] made show ?thesis by fastforce
qed

end
