(* ===== verification/SdkClient.thy ===== *)
theory SdkClient
  imports BaseText
begin

section \<open>The TypeScript client library\<close>

text \<open>
  sdk/typescript/src: errors.ts and client.ts. A request is tried up to retryCount + 1 times; the network is a
  function that gives the outcome of the n-th fetch of a request (an abort by the timer is an outcome like
  any failure). The URL class and JSON.stringify are parameters. Bodies are JSON values; of an error
  response's body only texts are read as its code and its message.
\<close>

subsection \<open>Errors\<close>

record kyc_error =
  ke_name :: string
  ke_message :: string
  ke_code :: string
  ke_statusCode :: int
  ke_details :: "json option"

datatype sdk_exn = Kyc kyc_error | OtherError string

definition KYCError :: "string \<Rightarrow> string \<Rightarrow> int \<Rightarrow> json option \<Rightarrow> kyc_error" where
  "KYCError message code statusCode details =
     \<lparr>ke_name = ''KYCError'', ke_message = message, ke_code = code, ke_statusCode = statusCode, ke_details = details\<rparr>"

text \<open>A text in single quotes.\<close>

definition in_quotes :: "string \<Rightarrow> string" where
  "in_quotes s = CHR 0x27 # s @ [CHR 0x27]"

definition truthy_text :: "json option \<Rightarrow> string \<Rightarrow> string \<Rightarrow> string" where
  "truthy_text body k d =
     (case body of None \<Rightarrow> d | Some b \<Rightarrow> (case text_prop b k of Some s \<Rightarrow> if s = [] then d else s | None \<Rightarrow> d))"

definition fromHttpResponse :: "int \<Rightarrow> json \<Rightarrow> kyc_error" where
  "fromHttpResponse status body =
     KYCError (truthy_text (Some body) ''message'' (''HTTP '' @ show_int status)) (truthy_text (Some body) ''error'' ''UNKNOWN'')
       status (Some body)"

definition sdk_notFound :: "string \<Rightarrow> string \<Rightarrow> kyc_error" where
  "sdk_notFound resource i =
     KYCError (resource @ '' '' @ in_quotes i @ '' not found'') ''NOT_FOUND'' 404 (Some (JObj [(''resource'', JStr resource), (''id'', JStr i)]))"

definition sdk_unauthorized :: "string option \<Rightarrow> kyc_error" where
  "sdk_unauthorized reason =
     KYCError (if or_default reason [] = [] then ''Unauthorized'' else or_default reason []) ''UNAUTHORIZED'' 401 None"

definition sdk_validation :: "string \<Rightarrow> string \<Rightarrow> kyc_error" where
  "sdk_validation fld reason =
     KYCError (''Validation error: '' @ fld @ '' - '' @ reason) ''VALIDATION_ERROR'' 400
       (Some (JObj [(''field'', JStr fld), (''reason'', JStr reason)]))"

definition sdk_rateLimited :: "int \<Rightarrow> kyc_error" where
  "sdk_rateLimited retryAfter =
     KYCError (''Rate limited, retry after '' @ show_int retryAfter @ ''s'') ''RATE_LIMITED'' 429
       (Some (JObj [(''retryAfter'', JNum (of_int retryAfter))]))"

definition has_code :: "string \<Rightarrow> kyc_error \<Rightarrow> bool" where
  "has_code c e \<longleftrightarrow> ke_code e = c"

definition CredentialError :: "string \<Rightarrow> string \<Rightarrow> json option \<Rightarrow> kyc_error" where
  "CredentialError message code details = (KYCError message code 400 details)\<lparr>ke_name := ''CredentialError''\<rparr>"

definition credential_details :: "string \<Rightarrow> json option" where
  "credential_details i = Some (JObj [(''credentialId'', JStr i)])"

definition credential_expired :: "string \<Rightarrow> kyc_error" where
  "credential_expired i = CredentialError (''Credential '' @ in_quotes i @ '' is expired'') ''EXPIRED_CREDENTIAL'' (credential_details i)"

definition credential_revoked :: "string \<Rightarrow> kyc_error" where
  "credential_revoked i = CredentialError (''Credential '' @ in_quotes i @ '' has been revoked'') ''REVOKED_CREDENTIAL'' (credential_details i)"

definition credential_invalidProof :: "string \<Rightarrow> kyc_error" where
  "credential_invalidProof i = CredentialError (''Invalid proof for credential '' @ in_quotes i) ''INVALID_PROOF'' (credential_details i)"

definition SdkDIDError :: "string \<Rightarrow> string \<Rightarrow> json option \<Rightarrow> kyc_error" where
  "SdkDIDError message code details = (KYCError message code 400 details)\<lparr>ke_name := ''DIDError''\<rparr>"

definition did_resolutionFailed :: "string \<Rightarrow> string \<Rightarrow> kyc_error" where
  "did_resolutionFailed did reason =
     SdkDIDError (''Failed to resolve DID '' @ in_quotes did @ '': '' @ reason) ''DID_RESOLUTION_FAILED''
       (Some (JObj [(''did'', JStr did), (''reason'', JStr reason)]))"

definition did_unsupportedMethod :: "string \<Rightarrow> kyc_error" where
  "did_unsupportedMethod m =
     SdkDIDError (''Unsupported DID method: '' @ in_quotes m) ''UNSUPPORTED_DID_METHOD'' (Some (JObj [(''method'', JStr m)]))"

fun toKYCError :: "sdk_exn \<Rightarrow> kyc_error" where
  "toKYCError (Kyc e) = e"
| "toKYCError (OtherError m) = KYCError m ''UNKNOWN'' 500 None"

subsection \<open>The client\<close>

record client_config =
  kc_baseUrl :: string
  kc_apiKey :: "string option"
  kc_jwtToken :: "string option"
  kc_timeout :: "int option"
  kc_retryCount :: "int option"
  kc_retryDelay :: "int option"
  kc_headers :: "(string \<times> string) list"

record sdk_client =
  sc_baseUrl :: string
  sc_apiKey :: "string option"
  sc_jwtToken :: "string option"
  sc_timeout :: int
  sc_retryCount :: int
  sc_retryDelay :: int
  sc_defaultHeaders :: "(string \<times> string) list"

definition KYCVaultClient :: "client_config \<Rightarrow> sdk_client" where
  "KYCVaultClient config =
     \<lparr>sc_baseUrl = rev (dropWhile (\<lambda>c. c = CHR ''/'') (rev (kc_baseUrl config))),
      sc_apiKey = kc_apiKey config, sc_jwtToken = kc_jwtToken config, sc_timeout = or_default (kc_timeout config) 30000,
      sc_retryCount = or_default (kc_retryCount config) 3, sc_retryDelay = or_default (kc_retryDelay config) 1000,
      sc_defaultHeaders =
        js_spread [(''Content-Type'', ''application/json''), (''Accept'', ''application/json'')] (kc_headers config)\<rparr>"

definition setJWT :: "string \<Rightarrow> sdk_client \<Rightarrow> sdk_client" where
  "setJWT token c = c\<lparr>sc_jwtToken := Some token\<rparr>"

definition clearAuth :: "sdk_client \<Rightarrow> sdk_client" where
  "clearAuth c = c\<lparr>sc_apiKey := None, sc_jwtToken := None\<rparr>"

definition buildHeaders :: "sdk_client \<Rightarrow> (string \<times> string) list" where
  "buildHeaders c =
     (if or_default (sc_jwtToken c) [] \<noteq> []
      then jm_set ''Authorization'' (''Bearer '' @ or_default (sc_jwtToken c) []) (sc_defaultHeaders c)
      else if or_default (sc_apiKey c) [] \<noteq> []
      then jm_set ''X-API-Key'' (or_default (sc_apiKey c) []) (sc_defaultHeaders c)
      else sc_defaultHeaders c)"

text \<open>encodeURIComponent: all but the unreserved characters as the octets of their UTF-8 form.\<close>

definition unreserved :: "char \<Rightarrow> bool" where
  "unreserved c \<longleftrightarrow>
     (let n = (of_char c :: nat) in 48 \<le> n \<and> n \<le> 57 \<or> 65 \<le> n \<and> n \<le> 90 \<or> 97 \<le> n \<and> n \<le> 122) \<or> c \<in> set ''-_.!~*()'' \<or> c = CHR 0x27"

definition upper_hex :: "nat \<Rightarrow> char" where
  "upper_hex n = char_of (if n < 10 then 48 + n else 55 + n)"

definition percent_byte :: "8 word \<Rightarrow> string" where
  "percent_byte b = [CHR ''%'', upper_hex (unat b div 16), upper_hex (unat b mod 16)]"

definition encodeURIComponent :: "string \<Rightarrow> string" where
  "encodeURIComponent s =
     concat (map (\<lambda>c. if unreserved c then [c] else concat (map percent_byte (utf8 [c]))) s)"

text \<open>A call of the API: what the endpoint methods give to get and post. Undefined parameters are dropped.\<close>

record api_call =
  ac_method :: string
  ac_path :: string
  ac_body :: "json option"
  ac_params :: "(string \<times> string option) list"

definition get_call :: "string \<Rightarrow> (string \<times> string option) list \<Rightarrow> api_call" where
  "get_call path params = \<lparr>ac_method = ''GET'', ac_path = path, ac_body = None, ac_params = params\<rparr>"

definition post_call :: "string \<Rightarrow> json \<Rightarrow> api_call" where
  "post_call path body = \<lparr>ac_method = ''POST'', ac_path = path, ac_body = Some body, ac_params = []\<rparr>"

text \<open>\<open>fetch\<close> rejects with a message, or there is a response: its status, and its body if that is JSON.\<close>

datatype net_outcome = Rejected string | Arrived int "json option"

definition ok_status :: "int \<Rightarrow> bool" where
  "ok_status st \<longleftrightarrow> 200 \<le> st \<and> st \<le> 299"

text \<open>One pass of the try block: the value returned, or the exception.\<close>

fun try_once :: "net_outcome \<Rightarrow> sdk_exn + json option" where
  "try_once (Rejected m) = Inl (OtherError m)"
| "try_once (Arrived st body) =
     (if \<not> ok_status st then Inl (Kyc (fromHttpResponse st (or_default body (JObj []))))
      else if st = 204 then Inr None
      else case body of None \<Rightarrow> Inl (OtherError ''Unexpected token in JSON'') | Some j \<Rightarrow> Inr (Some j))"

definition rethrown :: "sdk_exn \<Rightarrow> bool" where
  "rethrown e \<longleftrightarrow> (case e of Kyc k \<Rightarrow> ke_statusCode k < 500 | OtherError m \<Rightarrow> False)"

text \<open>The loop from attempt \<open>n\<close> on, with \<open>left\<close> attempts to go: the result, and the delays waited for.\<close>

fun request_loop ::
    "sdk_client \<Rightarrow> (nat \<Rightarrow> net_outcome) \<Rightarrow> nat \<Rightarrow> nat \<Rightarrow> sdk_exn option \<Rightarrow> (kyc_error + json option) \<times> int list" where
  "request_loop c net n 0 lastError =
     (Inl (case lastError of Some e \<Rightarrow> toKYCError e | None \<Rightarrow> KYCError ''Request failed'' ''UNKNOWN'' 500 None), [])"
| "request_loop c net n (Suc left) lastError =
     (case try_once (net n) of
        Inr v \<Rightarrow> (Inr v, [])
      | Inl e \<Rightarrow>
          if rethrown e then (Inl (toKYCError e), [])
          else if int n < sc_retryCount c then
            (case request_loop c net (Suc n) left (Some e) of
               (r, delays) \<Rightarrow> (r, sc_retryDelay c * 2 ^ n # delays))
          else request_loop c net (Suc n) left (Some e))"

definition request :: "sdk_client \<Rightarrow> (nat \<Rightarrow> net_outcome) \<Rightarrow> (kyc_error + json option) \<times> int list" where
  "request c net = request_loop c net 0 (nat (sc_retryCount c + 1)) None"

text \<open>What every fetch of the request sends.\<close>

record sent_request =
  sq_method :: string
  sq_url :: string
  sq_headers :: "(string \<times> string) list"
  sq_body :: "string option"

definition buildUrl :: "(string \<Rightarrow> (string \<times> string) list \<Rightarrow> string) \<Rightarrow> sdk_client \<Rightarrow> api_call \<Rightarrow> string" where
  "buildUrl href c a =
     href (sc_baseUrl c @ ac_path a) (List.map_filter (\<lambda>(k, v). map_option (Pair k) v) (ac_params a))"

definition request_sent ::
    "(string \<Rightarrow> (string \<times> string) list \<Rightarrow> string) \<Rightarrow> (json \<Rightarrow> string) \<Rightarrow> sdk_client \<Rightarrow> api_call \<Rightarrow> sent_request" where
  "request_sent href to_text c a =
     \<lparr>sq_method = ac_method a, sq_url = buildUrl href c a, sq_headers = buildHeaders c, sq_body = map_option to_text (ac_body a)\<rparr>"

subsection \<open>Endpoints\<close>

text \<open>An options object spread over a body: fields that are undefined do not reach the JSON text.\<close>

definition opt_entry :: "string \<Rightarrow> json option \<Rightarrow> (string \<times> json) list" where
  "opt_entry k v = (case v of None \<Rightarrow> [] | Some w \<Rightarrow> [(k, w)])"

definition str_entry :: "string \<Rightarrow> string option \<Rightarrow> (string \<times> json) list" where
  "str_entry k v = opt_entry k (map_option JStr v)"

definition texts_entry :: "string \<Rightarrow> string list option \<Rightarrow> (string \<times> json) list" where
  "texts_entry k v = opt_entry k (map_option (\<lambda>ts. JArr (map JStr ts)) v)"

definition health_call :: api_call where
  "health_call = get_call ''/health'' []"

definition issueCredential_call ::
    "string \<Rightarrow> string \<Rightarrow> json \<Rightarrow> string option \<Rightarrow> string list option \<Rightarrow> string option \<Rightarrow> api_call" where
  "issueCredential_call issuerDid subjectDid claims expirationDate credentialType proofPurpose =
     post_call ''/v1/credentials/issue''
       (JObj ([(''issuerDid'', JStr issuerDid), (''subjectDid'', JStr subjectDid), (''claims'', claims)] @
         str_entry ''expirationDate'' expirationDate @ texts_entry ''credentialType'' credentialType @
         str_entry ''proofPurpose'' proofPurpose))"

definition verifyCredential_call :: "json \<Rightarrow> json option \<Rightarrow> string option \<Rightarrow> string option \<Rightarrow> api_call" where
  "verifyCredential_call credential pf challenge domain =
     post_call ''/v1/credentials/verify''
       (JObj ([(''credential'', credential)] @ opt_entry ''proof'' pf @ str_entry ''challenge'' challenge @ str_entry ''domain'' domain))"

definition credential_path :: "string \<Rightarrow> string" where
  "credential_path i = ''/v1/credentials/'' @ encodeURIComponent i"

definition getCredential_call :: "string \<Rightarrow> api_call" where
  "getCredential_call i = get_call (credential_path i) []"

definition revokeCredential_call :: "string \<Rightarrow> string option \<Rightarrow> api_call" where
  "revokeCredential_call i reason = post_call (credential_path i @ ''/revoke'') (JObj (str_entry ''reason'' reason))"

definition checkCredentialStatus_call :: "string \<Rightarrow> api_call" where
  "checkCredentialStatus_call i = get_call (credential_path i @ ''/status'') []"

definition listCredentials_call ::
    "int option \<Rightarrow> int option \<Rightarrow> string option \<Rightarrow> string option \<Rightarrow> string option \<Rightarrow> api_call" where
  "listCredentials_call pageNo pageSize subjectDid issuerDid status =
     get_call ''/v1/credentials''
       [(''page'', map_option show_int pageNo), (''pageSize'', map_option show_int pageSize), (''subjectDid'', subjectDid),
        (''issuerDid'', issuerDid), (''status'', status)]"

definition createPresentation_call :: "json list \<Rightarrow> string \<Rightarrow> string option \<Rightarrow> string option \<Rightarrow> api_call" where
  "createPresentation_call credentials holderDid challenge domain =
     post_call ''/v1/presentations/create''
       (JObj ([(''credentials'', JArr credentials), (''holderDid'', JStr holderDid)] @ str_entry ''challenge'' challenge @
         str_entry ''domain'' domain))"

definition verifyPresentation_call :: "json \<Rightarrow> string option \<Rightarrow> string option \<Rightarrow> api_call" where
  "verifyPresentation_call presentation challenge domain =
     post_call ''/v1/presentations/verify''
       (JObj ([(''presentation'', presentation)] @ str_entry ''challenge'' challenge @ str_entry ''domain'' domain))"

definition did_path :: "string \<Rightarrow> string" where
  "did_path did = ''/v1/did/'' @ encodeURIComponent did"

definition resolveDID_call :: "string \<Rightarrow> api_call" where
  "resolveDID_call did = get_call (did_path did) []"

definition createDID_call :: "string \<Rightarrow> string option \<Rightarrow> string option \<Rightarrow> json option \<Rightarrow> api_call" where
  "createDID_call m keyType network services =
     post_call ''/v1/did/create''
       (JObj ([(''method'', JStr m)] @ str_entry ''keyType'' keyType @ str_entry ''network'' network @ opt_entry ''services'' services))"

definition rotateKey_call :: "string \<Rightarrow> string \<Rightarrow> string option \<Rightarrow> api_call" where
  "rotateKey_call did keyId keyType =
     post_call (did_path did @ ''/rotate'') (JObj ([(''keyId'', JStr keyId)] @ str_entry ''keyType'' keyType))"

definition deactivateDID_call :: "string \<Rightarrow> api_call" where
  "deactivateDID_call did = post_call (did_path did @ ''/deactivate'') (JObj [])"

definition createWorkflow_call :: "string \<Rightarrow> string \<Rightarrow> json \<Rightarrow> api_call" where
  "createWorkflow_call workflowType subjectId config =
     post_call ''/v1/workflows'' (JObj [(''workflowType'', JStr workflowType), (''subjectId'', JStr subjectId), (''config'', config)])"

definition getWorkflow_call :: "string \<Rightarrow> api_call" where
  "getWorkflow_call i = get_call (''/v1/workflows/'' @ encodeURIComponent i) []"

definition listWorkflows_call :: "int option \<Rightarrow> int option \<Rightarrow> string option \<Rightarrow> string option \<Rightarrow> api_call" where
  "listWorkflows_call pageNo pageSize status subjectId =
     get_call ''/v1/workflows''
       [(''page'', map_option show_int pageNo), (''pageSize'', map_option show_int pageSize), (''status'', status),
        (''subjectId'', subjectId)]"

definition checkCompliance_call :: "string \<Rightarrow> string \<Rightarrow> json option \<Rightarrow> api_call" where
  "checkCompliance_call subjectId tier attributes =
     post_call ''/v1/compliance/check''
       (JObj ([(''subjectId'', JStr subjectId), (''tier'', JStr tier)] @ opt_entry ''attributes'' attributes))"

definition getComplianceReport_call :: "string \<Rightarrow> api_call" where
  "getComplianceReport_call subjectId = get_call (''/v1/compliance/'' @ encodeURIComponent subjectId @ ''/report'') []"

subsection \<open>The retry loop against its reference\<close>

text \<open>The outcome that ends the loop at once: a value, or an error the loop rethrows.\<close>

definition final_outcome :: "net_outcome \<Rightarrow> bool" where
  "final_outcome r = (case try_once r of Inr v \<Rightarrow> True | Inl e \<Rightarrow> rethrown e)"

definition as_result :: "net_outcome \<Rightarrow> kyc_error + json option" where
  "as_result r = map_sum toKYCError id (try_once r)"

definition waits :: "sdk_client \<Rightarrow> nat \<Rightarrow> int list" where
  "waits c k = map (\<lambda>i. sc_retryDelay c * 2 ^ i) [0..<k]"

lemma find_member: "find P xs = Some x \<Longrightarrow> x \<in> set xs \<and> P x"
  by (induction xs) (auto split: if_splits)

lemma request_loop_find:
  assumes "int (n + left) = sc_retryCount c + 1"
  shows "request_loop c net n left le =
     (case find (\<lambda>m. final_outcome (net m)) [n..<n + left] of
        Some m \<Rightarrow> (as_result (net m), map (\<lambda>i. sc_retryDelay c * 2 ^ i) [n..<m])
      | None \<Rightarrow>
          (Inl (case if left = 0 then le else Some (projl (try_once (net (n + left - 1)))) of
             Some e \<Rightarrow> toKYCError e | None \<Rightarrow> KYCError ''Request failed'' ''UNKNOWN'' 500 None),
           map (\<lambda>i. sc_retryDelay c * 2 ^ i) [n..<n + left - 1]))"
  using assms
proof (induction left arbitrary: n le)
  case 0
  then show ?case by simp
next
  case (Suc left)
  have range: "[n..<n + Suc left] = n # [Suc n..<Suc n + left]" by (simp add: upt_conv_Cons)
  show ?case
  proof (cases "try_once (net n)")
    case (Inr v)
    then show ?thesis unfolding range by (simp add: final_outcome_def as_result_def)
  next
    case (Inl e)
    show ?thesis
    proof (cases "rethrown e")
      case True
      then show ?thesis using Inl unfolding range by (simp add: final_outcome_def as_result_def)
    next
      case False
      note IH = Suc.IH [of "Suc n" "Some e"]
      show ?thesis
      proof (cases left)
        case 0
        then show ?thesis using Inl False Suc.prems unfolding range by (simp add: final_outcome_def)
      next
        case (Suc k)
        have less: "int n < sc_retryCount c" using Suc.prems Suc by simp
        have shape: "[n..<Suc n + left - 1] = n # [Suc n..<Suc n + left - 1]"
          using Suc by (simp add: upt_conv_Cons)
        show ?thesis
        proof (cases "find (\<lambda>m. final_outcome (net m)) [Suc n..<Suc n + left]")
          case None
          then show ?thesis using Inl False Suc.prems Suc less IH shape unfolding range
            by (simp add: final_outcome_def)
        next
          case (Some m)
          then have "n < m" using find_member by fastforce
          then show ?thesis using Inl False Suc.prems less IH Some unfolding range
            by (simp add: final_outcome_def upt_conv_Cons [of n m])
        qed
      qed
    qed
  qed
qed

lemma request_find:
  "request c net =
     (case find (\<lambda>n. final_outcome (net n)) [0..<nat (sc_retryCount c + 1)] of
        Some n \<Rightarrow> (as_result (net n), waits c n)
      | None \<Rightarrow>
          if sc_retryCount c < 0 then (Inl (KYCError ''Request failed'' ''UNKNOWN'' 500 None), [])
          else (as_result (net (nat (sc_retryCount c))), waits c (nat (sc_retryCount c))))"
proof (cases "sc_retryCount c < 0")
  case True
  then have "nat (sc_retryCount c + 1) = 0" by simp
  then show ?thesis using True by (simp add: request_def)
next
  case False
  define k where "k = nat (sc_retryCount c)"
  have k: "nat (sc_retryCount c + 1) = Suc k" "int (0 + Suc k) = sc_retryCount c + 1"
    using False by (simp_all add: k_def)
  note loop = request_loop_find [of 0 "Suc k" c net None, OF k(2)]
  show ?thesis
  proof (cases "find (\<lambda>n. final_outcome (net n)) [0..<Suc k]")
    case None
    then have "\<not> final_outcome (net k)" by (auto simp: find_None_iff)
    then have "as_result (net k) = Inl (toKYCError (projl (try_once (net k))))"
      by (auto simp: final_outcome_def as_result_def split: sum.splits)
    then show ?thesis using None loop False k(1) by (simp add: request_def waits_def k_def)
  next
    case (Some n)
    then show ?thesis using loop k(1) by (simp add: request_def waits_def)
  qed
qed


text \<open>The errors of a request are plain ones: no subclass is ever thrown.\<close>

lemma KYCError_name [simp]: "ke_name (KYCError m k st d) = ''KYCError''"
  by (simp add: KYCError_def)

lemma as_result_name: "as_result r = Inl e \<Longrightarrow> ke_name e = ''KYCError''"
  by (cases r) (auto simp: as_result_def fromHttpResponse_def split: if_splits option.splits)

lemma request_error_name: "fst (request c net) = Inl e \<Longrightarrow> ke_name e = ''KYCError''"
  by (auto simp: request_find as_result_name split: option.splits if_splits)

text \<open>a request that every fetch delivers, and that the server answers with status 201 and
  a body that is not JSON, is sent retryCount + 1 times, with all the waits, and ends in an error of
  status 500, although the server accepted each of them.\<close>

theorem accepted_request_sent_again:
  assumes "0 \<le> sc_retryCount c" and "\<And>n. net n = Arrived 201 None"
  shows "request c net =
    (Inl (KYCError ''Unexpected token in JSON'' ''UNKNOWN'' 500 None), waits c (nat (sc_retryCount c)))"
proof -
  have "find (\<lambda>n. final_outcome (net n)) ns = None" for ns
    by (simp add: assms(2) find_None_iff final_outcome_def rethrown_def ok_status_def)
  then show ?thesis
    using assms by (simp add: request_find as_result_def ok_status_def)
qed

theorem accepted_request_sent_again_witness:
  "request (KYCVaultClient \<lparr>kc_baseUrl = ''https://x/'', kc_apiKey = None, kc_jwtToken = None, kc_timeout = None,
      kc_retryCount = Some 2, kc_retryDelay = None, kc_headers = []\<rparr>) (\<lambda>_. Arrived 201 None) =
    (Inl (KYCError ''Unexpected token in JSON'' ''UNKNOWN'' 500 None), [1000, 2000])"
proof -
  define c where "c = KYCVaultClient \<lparr>kc_baseUrl = ''https://x/'', kc_apiKey = None, kc_jwtToken = None, kc_timeout = None,
      kc_retryCount = Some 2, kc_retryDelay = None, kc_headers = []\<rparr>"
  have c: "sc_retryCount c = 2" "sc_retryDelay c = 1000" by (simp_all add: c_def KYCVaultClient_def)
  have "waits c 2 = [1000, 2000]" unfolding waits_def c by (simp add: upt_rec)
  then show ?thesis
    using accepted_request_sent_again [of c "\<lambda>_. Arrived 201 None"] by (simp add: c(1) c_def [symmetric])
qed

subsection \<open>Ids in paths\<close>

text \<open>The octets an encoded text stands for: an escape is one octet, any other character its own code.\<close>

definition upper_hex_value :: "char \<Rightarrow> nat" where
  "upper_hex_value c = (let n = of_char c in if n < 65 then n - 48 else n - 55)"

function percent_octets :: "string \<Rightarrow> bytes" where
  "percent_octets [] = []"
| "percent_octets (c # s) =
     (if c = CHR ''%'' \<and> 2 \<le> length s
      then word_of_nat (16 * upper_hex_value (s ! 0) + upper_hex_value (s ! 1)) # percent_octets (drop 2 s)
      else word_of_nat (of_char c) # percent_octets s)"
  by pat_completeness auto
termination by (relation "measure length") auto

lemma of_char_upper_hex: "n < 16 \<Longrightarrow> (of_char (upper_hex n) :: nat) = (if n < 10 then 48 + n else 55 + n)"
  by (simp add: upper_hex_def)

lemma upper_hex_value_of: "n < 16 \<Longrightarrow> upper_hex_value (upper_hex n) = n"
  by (simp add: upper_hex_value_def of_char_upper_hex)

lemma byte_digits: "unat (b :: 8 word) div 16 < 16" "unat b mod 16 < 16"
  using unat_byte_less [of b] by linarith+

lemma percent_octets_byte: "percent_octets (percent_byte b @ s) = b # percent_octets s"
  by (simp add: percent_byte_def upper_hex_value_of byte_digits)

lemma percent_octets_bytes: "percent_octets (concat (map percent_byte bs) @ s) = bs @ percent_octets s"
  by (induction bs) (simp_all add: percent_octets_byte)

lemma char_unit:
  fixes c :: char
  defines "u \<equiv> word_of_nat (of_char c) :: 16 word"
  shows "unat u = of_char c" "\<not> high_surrogate u" "\<not> low_surrogate u"
proof -
  have small: "(of_char c :: nat) < 256" by (rule nat_of_char_less_256)
  moreover have "(of_char c :: nat) < 65536" by (rule order_less_trans [OF small]) simp
  ultimately show u: "unat u = of_char c" unfolding u_def using unat_unit [of "of_char c"] by (simp only:)
  show "\<not> high_surrogate u" "\<not> low_surrogate u"
    using small unfolding high_surrogate_def low_surrogate_def u by linarith+
qed

lemma utf8_char: "utf8 [c] = map word_of_nat (utf8_of (of_char c))"
  by (simp add: utf8_def to_utf8_def units_def char_unit)

lemma utf8_Cons: "utf8 (c # s) = utf8 [c] @ utf8 s"
  by (simp add: utf8_char) (simp add: utf8_def to_utf8_def units_def char_unit)

lemma unreserved_facts: "unreserved c \<Longrightarrow> c \<noteq> CHR ''%'' \<and> (of_char c :: nat) < 128"
  by (auto simp: unreserved_def Let_def)

lemma percent_octets_encode: "percent_octets (encodeURIComponent s) = utf8 s"
proof (induction s)
  case Nil
  show ?case by (simp add: encodeURIComponent_def utf8_def to_utf8_def units_def)
next
  case (Cons c s)
  then show ?case
  proof (cases "unreserved c")
    case True
    then have c: "c \<noteq> CHR ''%''" "(of_char c :: nat) < 128" using unreserved_facts by blast+
    then have "utf8 [c] = [word_of_nat (of_char c)]" by (simp add: utf8_char utf8_of_def)
    then show ?thesis using True c(1) Cons by (simp add: encodeURIComponent_def utf8_Cons [of c s])
  next
    case False
    then show ?thesis using Cons by (simp add: encodeURIComponent_def utf8_Cons [of c s] percent_octets_bytes)
  qed
qed

lemma encodeURIComponent_inj: "encodeURIComponent s = encodeURIComponent t \<longleftrightarrow> s = t"
  by (metis percent_octets_encode utf8_inj)

lemma encoded_chars: "c \<in> set (encodeURIComponent s) \<Longrightarrow> unreserved c \<or> c = CHR ''%''"
proof -
  have hex: "unreserved (upper_hex n)" if "n < 16" for n
    using that by (simp add: unreserved_def of_char_upper_hex)
  have "unreserved c \<or> c = CHR ''%''" if "c \<in> set (percent_byte b)" for b
    using that hex [OF byte_digits(1)] hex [OF byte_digits(2)] by (auto simp: percent_byte_def)
  moreover assume "c \<in> set (encodeURIComponent s)"
  ultimately show ?thesis by (auto simp: encodeURIComponent_def split: if_splits)
qed

lemma slash_not_unreserved: "\<not> unreserved (CHR ''/'')"
  by (simp add: unreserved_def)

lemma encoded_no_slash: "CHR ''/'' \<notin> set (encodeURIComponent s)"
  using encoded_chars [of "CHR ''/''" s] slash_not_unreserved by auto

text \<open>an id fills exactly one segment of the path of its endpoint, and different ids
  give different paths: what the server decodes is the id's octets, whatever characters it has. The dot
  segment is the exception the encoding leaves: the id .. is sent as it is.\<close>

theorem ids_fill_one_segment:
  "split_on (CHR ''/'') (ac_path (revokeCredential_call i reason)) =
     [[], ''v1'', ''credentials'', encodeURIComponent i, ''revoke''] \<and>
   percent_octets (encodeURIComponent i) = utf8 i \<and>
   (credential_path i = credential_path j \<longleftrightarrow> i = j) \<and>
   credential_path ''..'' = ''/v1/credentials/..''"
proof -
  have "split_on (CHR ''/'') (credential_path i @ ''/revoke'') =
      [[], ''v1'', ''credentials'', encodeURIComponent i, ''revoke'']"
    using split_on_append [OF encoded_no_slash, of i "''revoke''"] by (simp add: credential_path_def)
  moreover have "credential_path ''..'' = ''/v1/credentials/..''"
    by (simp add: credential_path_def encodeURIComponent_def unreserved_def)
  ultimately show ?thesis
    by (simp add: revokeCredential_call_def post_call_def percent_octets_encode credential_path_def encodeURIComponent_inj)
qed

end
