(* ===== verification/SdkManagers.thy ===== *)
theory SdkManagers
  imports SdkClient
begin

section \<open>The credential and DID managers of the client library\<close>

text \<open>
  sdk/typescript/src: credentials.ts and did.ts. The managers work against the client: what one call
  of the API gives is an argument of the operations, and the laws of the client they rely on are the
  locale api_client, interpreted on \<open>request\<close>. Dates are parsed by a parameter, which
  gives None for an invalid date.
\<close>

type_synonym api = "api_call \<Rightarrow> kyc_error + json option"

fun then_do :: "'e + 'a \<Rightarrow> ('a \<Rightarrow> 'e + 'b) \<Rightarrow> 'e + 'b" where
  "then_do (Inl e) f = Inl e"
| "then_do (Inr a) f = f a"

lemma then_do_Inr: "then_do r f = Inr y \<longleftrightarrow> (\<exists>x. r = Inr x \<and> f x = Inr y)"
  by (cases r) auto

lemma then_do_Inl: "then_do r f = Inl e \<longleftrightarrow> r = Inl e \<or> (\<exists>x. r = Inr x \<and> f x = Inl e)"
  by (cases r) auto

definition call :: "api \<Rightarrow> api_call \<Rightarrow> sdk_exn + json option" where
  "call api a = map_sum Kyc id (api a)"

text \<open>\<open>result.k\<close> of what the client returned.\<close>

fun read_field :: "string \<Rightarrow> json option \<Rightarrow> sdk_exn + json option" where
  "read_field k None = Inl (OtherError (''Cannot read properties of undefined (reading '' @ in_quotes k @ '')''))"
| "read_field k (Some JNull) = Inl (OtherError (''Cannot read properties of null (reading '' @ in_quotes k @ '')''))"
| "read_field k (Some v) = Inr (json_prop v k)"

definition is_truthy :: "json option \<Rightarrow> bool" where
  "is_truthy v = (case v of None \<Rightarrow> False | Some w \<Rightarrow> json_truthy w)"

subsection \<open>Credentials\<close>

record sdk_credential =
  sv_context :: "string list"
  sv_id :: string
  sv_type :: "string list"
  sv_issuer :: string
  sv_issuanceDate :: string
  sv_expirationDate :: "string option"
  sv_subject :: "(string \<times> json) list option"
  sv_status :: "json option"
  sv_proof :: "json option"

text \<open>The object that is sent: undefined fields do not reach the JSON text.\<close>

definition sdk_credential_json :: "sdk_credential \<Rightarrow> json" where
  "sdk_credential_json c =
     JObj ([(''@context'', JArr (map JStr (sv_context c))), (''id'', JStr (sv_id c)), (''type'', JArr (map JStr (sv_type c))),
            (''issuer'', JStr (sv_issuer c)), (''issuanceDate'', JStr (sv_issuanceDate c))] @
       str_entry ''expirationDate'' (sv_expirationDate c) @ opt_entry ''credentialSubject'' (map_option JObj (sv_subject c)) @
       opt_entry ''credentialStatus'' (sv_status c) @ opt_entry ''proof'' (sv_proof c))"

definition has_date :: "sdk_credential \<Rightarrow> bool" where
  "has_date c \<longleftrightarrow> or_default (sv_expirationDate c) [] \<noteq> []"

text \<open>\<open>now > new Date(expirationDate)\<close> and \<open>now <= new Date(expirationDate)\<close>: both are false for an invalid date.\<close>

definition past_date :: "(string \<Rightarrow> int option) \<Rightarrow> int \<Rightarrow> sdk_credential \<Rightarrow> bool" where
  "past_date date now c \<longleftrightarrow> (case date (or_default (sv_expirationDate c) []) of Some d \<Rightarrow> d < now | None \<Rightarrow> False)"

definition date_ahead :: "(string \<Rightarrow> int option) \<Rightarrow> int \<Rightarrow> sdk_credential \<Rightarrow> bool" where
  "date_ahead date now c \<longleftrightarrow> (case date (or_default (sv_expirationDate c) []) of Some d \<Rightarrow> now \<le> d | None \<Rightarrow> False)"

definition invalid_credential :: "string \<Rightarrow> json option \<Rightarrow> sdk_exn" where
  "invalid_credential m details = Kyc (CredentialError m ''VALIDATION_ERROR'' details)"

definition validateSubject :: "string \<Rightarrow> sdk_exn + unit" where
  "validateSubject did =
     (if did = [] \<or> take 4 did \<noteq> ''did:''
      then Inl (invalid_credential (''Invalid subject DID: '' @ in_quotes did) (Some (JObj [(''subjectDid'', JStr did)])))
      else Inr ())"

definition validateCredential_sdk :: "sdk_credential \<Rightarrow> sdk_exn + unit" where
  "validateCredential_sdk c =
     (if sv_id c = [] then Inl (invalid_credential ''Credential must have an id'' None)
      else if sv_issuer c = [] then Inl (invalid_credential ''Credential must have an issuer'' None)
      else if \<not> is_truthy (Option.bind (sv_subject c) (\<lambda>s. map_of s ''id''))
      then Inl (invalid_credential ''Credential subject must have an id'' None)
      else Inr ())"

definition issue_sdk ::
    "api \<Rightarrow> string \<Rightarrow> string \<Rightarrow> json \<Rightarrow> string option \<Rightarrow> string list option \<Rightarrow> string option \<Rightarrow> sdk_exn + json option" where
  "issue_sdk api issuerDid subjectDid claims expirationDate credentialType proofPurpose =
     then_do (validateSubject subjectDid) (\<lambda>_.
     then_do (call api (issueCredential_call issuerDid subjectDid claims expirationDate credentialType proofPurpose))
       (read_field ''credential''))"

definition verify_sdk ::
    "(string \<Rightarrow> int option) \<Rightarrow> int \<Rightarrow> api \<Rightarrow> sdk_credential \<Rightarrow> string option \<Rightarrow> string option \<Rightarrow> sdk_exn + json option" where
  "verify_sdk date now api c challenge domain =
     then_do (validateCredential_sdk c) (\<lambda>_.
     if has_date c \<and> past_date date now c then Inl (Kyc (credential_expired (sv_id c)))
     else then_do (call api (verifyCredential_call (sdk_credential_json c) None challenge domain)) (read_field ''verified''))"

definition verifyWithDetail ::
    "api \<Rightarrow> sdk_credential \<Rightarrow> string option \<Rightarrow> string option \<Rightarrow> sdk_exn + (json option \<times> json option)" where
  "verifyWithDetail api c challenge domain =
     then_do (validateCredential_sdk c) (\<lambda>_.
     then_do (call api (verifyCredential_call (sdk_credential_json c) None challenge domain)) (\<lambda>r.
     then_do (read_field ''verified'' r) (\<lambda>v.
     then_do (read_field ''checks'' r) (\<lambda>cs. Inr (v, cs)))))"

definition createPresentation_sdk ::
    "api \<Rightarrow> sdk_credential list \<Rightarrow> string \<Rightarrow> string option \<Rightarrow> string option \<Rightarrow> sdk_exn + json option" where
  "createPresentation_sdk api cs holderDid challenge domain =
     (if cs = [] then Inl (invalid_credential ''At least one credential is required to create a presentation'' None)
      else call api (createPresentation_call (map sdk_credential_json cs) holderDid challenge domain))"

definition verifyPresentation_sdk :: "api \<Rightarrow> json \<Rightarrow> string option \<Rightarrow> string option \<Rightarrow> sdk_exn + json option" where
  "verifyPresentation_sdk api presentation challenge domain =
     (if \<not> truthy_prop presentation ''verifiableCredential'' \<or> json_prop presentation ''verifiableCredential'' = Some (JArr [])
      then Inl (invalid_credential ''Presentation must contain at least one credential'' None)
      else then_do (call api (verifyPresentation_call presentation challenge domain)) (read_field ''verified''))"

definition revoke_sdk :: "api \<Rightarrow> string \<Rightarrow> string option \<Rightarrow> sdk_exn + unit" where
  "revoke_sdk api i reason =
     then_do (call api (revokeCredential_call i reason)) (\<lambda>r.
     then_do (read_field ''revoked'' r) (\<lambda>v.
     if is_truthy v then Inr ()
     else Inl (Kyc (CredentialError (''Failed to revoke credential '' @ in_quotes i) ''INTERNAL_ERROR'' (credential_details i)))))"

definition getStatus_sdk :: "api \<Rightarrow> string \<Rightarrow> sdk_exn + json option" where
  "getStatus_sdk api i = call api (checkCredentialStatus_call i)"

definition list_sdk ::
    "api \<Rightarrow> int option \<Rightarrow> int option \<Rightarrow> string option \<Rightarrow> string option \<Rightarrow> string option \<Rightarrow> sdk_exn + json option" where
  "list_sdk api pageNo pageSize subjectDid issuerDid status =
     then_do (call api (listCredentials_call pageNo pageSize subjectDid issuerDid status)) (read_field ''data'')"

definition isExpired_sdk :: "(string \<Rightarrow> int option) \<Rightarrow> int \<Rightarrow> api \<Rightarrow> sdk_credential \<Rightarrow> bool" where
  "isExpired_sdk date now api c =
     (if \<not> has_date c then False
      else case then_do (getStatus_sdk api (sv_id c)) (read_field ''status'') of
        Inr v \<Rightarrow> v = Some (JStr ''expired'')
      | Inl _ \<Rightarrow> past_date date now c)"

definition isRevoked_sdk :: "api \<Rightarrow> sdk_credential \<Rightarrow> bool" where
  "isRevoked_sdk api c =
     (case then_do (getStatus_sdk api (sv_id c)) (read_field ''status'') of
        Inr v \<Rightarrow> v = Some (JStr ''revoked'')
      | Inl _ \<Rightarrow> False)"

definition selectByType :: "sdk_credential list \<Rightarrow> string \<Rightarrow> sdk_credential list" where
  "selectByType cs t = filter (\<lambda>c. t \<in> set (sv_type c)) cs"

definition selectNonExpired :: "(string \<Rightarrow> int option) \<Rightarrow> int \<Rightarrow> sdk_credential list \<Rightarrow> sdk_credential list" where
  "selectNonExpired date now cs = filter (\<lambda>c. \<not> has_date c \<or> date_ahead date now c) cs"

text \<open>\<open>createCredential\<close>, given the text of the clock and a random UUID.\<close>

definition createCredential_sdk ::
    "string \<Rightarrow> string \<Rightarrow> string \<Rightarrow> string \<Rightarrow> (string \<times> json) list \<Rightarrow> string option \<Rightarrow> string list option \<Rightarrow> string option \<Rightarrow> sdk_credential" where
  "createCredential_sdk now uuid issuer subjectId claims i types expirationDate =
     \<lparr>sv_context = [''https://www.w3.org/2018/credentials/v1'', ''https://www.w3.org/2018/credentials/examples/v1''],
      sv_id = (if or_default i [] = [] then ''urn:uuid:'' @ uuid else or_default i []),
      sv_type = or_default types [''VerifiableCredential''], sv_issuer = issuer, sv_issuanceDate = now,
      sv_expirationDate = expirationDate, sv_subject = Some (js_spread [(''id'', JStr subjectId)] claims),
      sv_status = None, sv_proof = None\<rparr>"

definition addProof_sdk :: "sdk_credential \<Rightarrow> json \<Rightarrow> sdk_credential" where
  "addProof_sdk c pf = c\<lparr>sv_proof := Some pf\<rparr>"

definition is_string_prop :: "json option \<Rightarrow> bool" where
  "is_string_prop v = (case v of Some (JStr _) \<Rightarrow> True | _ \<Rightarrow> False)"

text \<open>An object or an array is of type object; an array has no named properties.\<close>

definition isVerifiableCredential :: "json option \<Rightarrow> bool" where
  "isVerifiableCredential v =
     (case v of
        Some (JObj vc) \<Rightarrow>
          is_string_prop (map_of vc ''id'') \<and> is_string_prop (map_of vc ''issuer'') \<and>
          (case map_of vc ''type'' of Some (JArr _) \<Rightarrow> True | _ \<Rightarrow> False) \<and>
          (case map_of vc ''credentialSubject'' of
             Some (JObj s) \<Rightarrow> is_string_prop (map_of s ''id'')
           | _ \<Rightarrow> False)
      | _ \<Rightarrow> False)"

subsection \<open>DIDs\<close>

text \<open>\<open>DIDError.validation\<close> is the static method inherited from KYCError: it makes a KYCError.\<close>

definition validateDID_sdk :: "string \<Rightarrow> sdk_exn + unit" where
  "validateDID_sdk did =
     (if did = [] then Inl (Kyc (sdk_validation ''did'' ''DID string is required''))
      else let parts = split_on (CHR '':'') did in
        if length parts < 3 \<or> parts ! 0 \<noteq> ''did''
        then Inl (Kyc (sdk_validation ''did'' (''Invalid DID format: '' @ in_quotes did)))
        else if parts ! 1 = [] then Inl (Kyc (sdk_validation ''did'' ''DID method is required''))
        else Inr ())"

definition resolve_sdk :: "api \<Rightarrow> string \<Rightarrow> sdk_exn + json option" where
  "resolve_sdk api did = then_do (validateDID_sdk did) (\<lambda>_. call api (resolveDID_call did))"

definition supported_methods :: "string list" where
  "supported_methods = [''key'', ''web'', ''ethr'', ''ion'', ''indy'']"

definition create_sdk :: "api \<Rightarrow> string \<Rightarrow> string option \<Rightarrow> string option \<Rightarrow> json option \<Rightarrow> sdk_exn + json option" where
  "create_sdk api m keyType network services =
     (if m = [] then Inl (Kyc (sdk_validation ''method'' ''DID method is required''))
      else if m \<notin> set supported_methods then Inl (Kyc (did_unsupportedMethod m))
      else call api (createDID_call m keyType network services))"

definition deactivate_sdk :: "api \<Rightarrow> string \<Rightarrow> sdk_exn + unit" where
  "deactivate_sdk api did =
     then_do (validateDID_sdk did) (\<lambda>_. then_do (call api (deactivateDID_call did)) (\<lambda>_. Inr ()))"

definition rotateKey_sdk :: "api \<Rightarrow> string \<Rightarrow> string \<Rightarrow> string option \<Rightarrow> sdk_exn + json option" where
  "rotateKey_sdk api did keyId keyType =
     then_do (validateDID_sdk did) (\<lambda>_.
     if keyId = [] then Inl (Kyc (sdk_validation ''keyId'' ''Key ID is required for rotation''))
     else call api (rotateKey_call did keyId keyType))"

text \<open>\<open>doc.k || []\<close>: the value at \<open>k\<close> if it is truthy.\<close>

definition list_field :: "string \<Rightarrow> json option \<Rightarrow> sdk_exn + json" where
  "list_field k doc = then_do (read_field k doc) (\<lambda>v. Inr (if is_truthy v then the v else JArr []))"

definition getVerificationMethods :: "api \<Rightarrow> string \<Rightarrow> sdk_exn + json" where
  "getVerificationMethods api did = then_do (resolve_sdk api did) (list_field ''verificationMethod'')"

definition getServices :: "api \<Rightarrow> string \<Rightarrow> sdk_exn + json" where
  "getServices api did = then_do (resolve_sdk api did) (list_field ''service'')"

fun find_service :: "string \<Rightarrow> json list \<Rightarrow> sdk_exn + json option" where
  "find_service t [] = Inr None"
| "find_service t (s # ss) =
     then_do (read_field ''type'' (Some s)) (\<lambda>v. if v = Some (JStr t) then Inr (Some s) else find_service t ss)"

definition findServiceByType :: "api \<Rightarrow> string \<Rightarrow> string \<Rightarrow> sdk_exn + json option" where
  "findServiceByType api did t =
     then_do (getServices api did) (\<lambda>services.
     case services of JArr ss \<Rightarrow> find_service t ss | _ \<Rightarrow> Inl (OtherError ''services.find is not a function''))"

text \<open>\<open>doc.controller || [doc.id]\<close>.\<close>

datatype controller_result = ControllerField json | OwnId "json option"

definition getController :: "api \<Rightarrow> string \<Rightarrow> sdk_exn + controller_result" where
  "getController api did =
     then_do (resolve_sdk api did) (\<lambda>doc.
     then_do (read_field ''controller'' doc) (\<lambda>v.
     if is_truthy v then Inr (ControllerField (the v))
     else then_do (read_field ''id'' doc) (\<lambda>i. Inr (OwnId i))))"

definition isDeactivated :: "api \<Rightarrow> string \<Rightarrow> sdk_exn + bool" where
  "isDeactivated api did =
     (case resolve_sdk api did of
        Inr _ \<Rightarrow> Inr False
      | Inl e \<Rightarrow>
          (case e of
             Kyc k \<Rightarrow> if ke_name k = ''DIDError'' \<and> str_includes (ke_message k) ''deactivated'' then Inr True else Inl e
           | OtherError _ \<Rightarrow> Inl e))"

text \<open>The requests of a batch are separate calls: the i-th has its own answer. The failed ones are left out.\<close>

fun batch_entries :: "(nat \<Rightarrow> api) \<Rightarrow> nat \<Rightarrow> string list \<Rightarrow> (string, json option) jsmap \<Rightarrow> (string, json option) jsmap" where
  "batch_entries api n [] results = results"
| "batch_entries api n (d # ds) results =
     batch_entries api (Suc n) ds (case resolve_sdk (api n) d of Inr doc \<Rightarrow> jm_set d doc results | Inl _ \<Rightarrow> results)"

definition batchResolve_sdk :: "(nat \<Rightarrow> api) \<Rightarrow> string list \<Rightarrow> (string, json option) jsmap" where
  "batchResolve_sdk api dids = batch_entries api 0 dids jm_empty"

definition parseDID_sdk :: "string \<Rightarrow> sdk_exn + (string \<times> string)" where
  "parseDID_sdk did =
     (let parts = split_on (CHR '':'') did in
      if length parts < 3 \<or> parts ! 0 \<noteq> ''did'' then Inl (OtherError (''Invalid DID: '' @ did))
      else Inr (parts ! 1, join_with '':'' (drop 2 parts)))"

definition isValidDID_sdk :: "string \<Rightarrow> bool" where
  "isValidDID_sdk did \<longleftrightarrow> (case parseDID_sdk did of Inr _ \<Rightarrow> True | Inl _ \<Rightarrow> False)"

definition generateDocURI :: "string \<Rightarrow> string \<Rightarrow> string" where
  "generateDocURI did fragment = did @ ''#'' @ fragment"

subsection \<open>Documents built locally\<close>

record sdk_method =
  sm_id :: string
  sm_type :: string
  sm_controller :: string
  sm_publicKeyMultibase :: "string option"
  sm_publicKeyJwk :: "json option"
  sm_blockchainAccountId :: "string option"

record sdk_service =
  se_id :: string
  se_type :: string
  se_serviceEndpoint :: json
  se_description :: "string option"

record sdk_document =
  sx_context :: "string list"
  sx_id :: string
  sx_controller :: "string list option"
  sx_alsoKnownAs :: "string list option"
  sx_verificationMethod :: "sdk_method list option"
  sx_authentication :: "string list option"
  sx_assertionMethod :: "string list option"
  sx_keyAgreement :: "string list option"
  sx_capabilityInvocation :: "string list option"
  sx_capabilityDelegation :: "string list option"
  sx_service :: "sdk_service list option"
  sx_created :: "string option"
  sx_updated :: "string option"

definition createDIDDocument ::
    "string \<Rightarrow> string \<Rightarrow> string \<Rightarrow> string list option \<Rightarrow> sdk_method list option \<Rightarrow> sdk_service list option \<Rightarrow>
     string list option \<Rightarrow> sdk_document" where
  "createDIDDocument now1 now2 i controller verificationMethods services alsoKnownAs =
     \<lparr>sx_context = [''https://www.w3.org/ns/did/v1'', ''https://w3id.org/security/suites/ed25519-2020/v1''], sx_id = i,
      sx_controller = controller, sx_alsoKnownAs = alsoKnownAs,
      sx_verificationMethod = Some (or_default verificationMethods []),
      sx_authentication = Some (map sm_id (or_default verificationMethods [])),
      sx_assertionMethod = None, sx_keyAgreement = None, sx_capabilityInvocation = None, sx_capabilityDelegation = None,
      sx_service = services, sx_created = Some now1, sx_updated = Some now2\<rparr>"

definition createVerificationMethod :: "string \<Rightarrow> string \<Rightarrow> string \<Rightarrow> string option \<Rightarrow> json option \<Rightarrow> sdk_method" where
  "createVerificationMethod i t controller multibase jwk =
     \<lparr>sm_id = i, sm_type = t, sm_controller = controller, sm_publicKeyMultibase = multibase, sm_publicKeyJwk = jwk,
      sm_blockchainAccountId = None\<rparr>"

definition addVerificationMethod_sdk :: "sdk_document \<Rightarrow> sdk_method \<Rightarrow> sdk_document" where
  "addVerificationMethod_sdk doc m =
     doc\<lparr>sx_verificationMethod := Some (or_default (sx_verificationMethod doc) [] @ [m]),
         sx_authentication := Some (or_default (sx_authentication doc) [] @ [sm_id m])\<rparr>"

definition without_id :: "string \<Rightarrow> string list option \<Rightarrow> string list option" where
  "without_id i ids = Some (filter (\<lambda>j. j \<noteq> i) (or_default ids []))"

definition removeVerificationMethod_sdk :: "sdk_document \<Rightarrow> string \<Rightarrow> sdk_document" where
  "removeVerificationMethod_sdk doc i =
     doc\<lparr>sx_verificationMethod := Some (filter (\<lambda>m. sm_id m \<noteq> i) (or_default (sx_verificationMethod doc) [])),
         sx_authentication := without_id i (sx_authentication doc),
         sx_assertionMethod := without_id i (sx_assertionMethod doc),
         sx_keyAgreement := without_id i (sx_keyAgreement doc)\<rparr>"

definition addService_sdk :: "sdk_document \<Rightarrow> sdk_service \<Rightarrow> sdk_document" where
  "addService_sdk doc s = doc\<lparr>sx_service := Some (or_default (sx_service doc) [] @ [s])\<rparr>"

definition removeService_sdk :: "sdk_document \<Rightarrow> string \<Rightarrow> sdk_document" where
  "removeService_sdk doc i = doc\<lparr>sx_service := Some (filter (\<lambda>s. se_id s \<noteq> i) (or_default (sx_service doc) []))\<rparr>"

subsection \<open>The contract of the client\<close>

text \<open>What the managers rely on: an error of the client is a plain KYCError, and the answer does
  not change while the operation runs.\<close>

locale api_client =
  fixes api :: api
  assumes plain_errors: "api a = Inl e \<Longrightarrow> ke_name e = ''KYCError''"
begin

lemma validateDID_error: "validateDID_sdk did = Inl e \<Longrightarrow> \<exists>k. e = Kyc k \<and> ke_name k = ''KYCError''"
  by (auto simp: validateDID_sdk_def sdk_validation_def Let_def split: if_splits)

lemma call_error: "call api a = Inl e \<Longrightarrow> \<exists>k. e = Kyc k \<and> ke_name k = ''KYCError''"
  by (cases "api a") (auto simp: call_def plain_errors)

lemma resolve_error: "resolve_sdk api did = Inl e \<Longrightarrow> \<exists>k. e = Kyc k \<and> ke_name k = ''KYCError''"
  by (auto simp: resolve_sdk_def then_do_Inl validateDID_error call_error)

text \<open>No error of a resolution is a DIDError, so none is taken for a deactivation.\<close>

lemma isDeactivated_resolve: "isDeactivated api did = map_sum id (\<lambda>_. False) (resolve_sdk api did)"
  using resolve_error [of did] by (auto simp: isDeactivated_def split: sum.splits)

end

text \<open>The client itself: every request goes over the network it meets.\<close>

definition client_api :: "sdk_client \<Rightarrow> (api_call \<Rightarrow> nat \<Rightarrow> net_outcome) \<Rightarrow> api" where
  "client_api c net a = fst (request c (net a))"

interpretation kyc_client: api_client "client_api c net" for c net
  by unfold_locales (simp add: client_api_def request_error_name)

subsection \<open>Properties\<close>

text \<open>over the real client isDeactivated never answers true, whatever the server replies:
  a resolved DID gives false and every failure is thrown again, since the client raises no DIDError.\<close>

theorem isDeactivated_never_true:
  "isDeactivated (client_api c net) did = map_sum id (\<lambda>_. False) (resolve_sdk (client_api c net) did)"
  by (rule kyc_client.isDeactivated_resolve)

text \<open>the check for revocation fails open: it answers true only if the server's answer was
  read and says revoked, and when the client fails the credential counts as not revoked.\<close>

theorem isRevoked_fails_open:
  "isRevoked_sdk api c =
    (case api (checkCredentialStatus_call (sv_id c)) of
       Inr (Some (JObj es)) \<Rightarrow> map_of es ''status'' = Some (JStr ''revoked'')
     | _ \<Rightarrow> False)"
  by (cases "api (checkCredentialStatus_call (sv_id c))")
    (auto simp: isRevoked_sdk_def getStatus_sdk_def call_def split: sum.splits option.splits json.splits
      elim!: read_field.elims)

lemma call_Inr [simp]: "call api a = Inr v \<longleftrightarrow> api a = Inr v"
  by (cases "api a") (simp_all add: call_def)

lemma past_not_ahead: "past_date date now c \<Longrightarrow> \<not> date_ahead date now c"
  by (auto simp: past_date_def date_ahead_def split: option.splits)

text \<open>verify answers only for a credential with an id, an issuer and a subject id whose
  expiration date is not past, and the answer is the one the server gave.\<close>

theorem verify_answer_from_server:
  assumes "verify_sdk date now api c challenge domain = Inr v"
  shows "sv_id c \<noteq> [] \<and> sv_issuer c \<noteq> [] \<and> (has_date c \<longrightarrow> \<not> past_date date now c) \<and>
    (\<exists>r. api (verifyCredential_call (sdk_credential_json c) None challenge domain) = Inr r \<and> read_field ''verified'' r = Inr v)"
  using assms
  by (auto simp: verify_sdk_def validateCredential_sdk_def then_do_Inr call_Inr split: if_splits)

theorem verify_answer_from_server_witness:
  "\<exists>c v. verify_sdk (\<lambda>_. None) 5 (\<lambda>_. Inr (Some (JObj [(''verified'', JBool True)]))) c None None = Inr v \<and>
     v = Some (JBool True) \<and> sv_issuer c \<noteq> []"
proof -
  define c where "c = createCredential_sdk ''now'' ''u'' ''did:x:i'' ''did:x:s'' [] None None None"
  have "verify_sdk (\<lambda>_. None) 5 (\<lambda>_. Inr (Some (JObj [(''verified'', JBool True)]))) c None None = Inr (Some (JBool True))"
    by (simp add: verify_sdk_def c_def createCredential_sdk_def validateCredential_sdk_def is_truthy_def json_truthy_def
      has_date_def call_def)
  then show ?thesis using verify_answer_from_server by blast
qed

text \<open>on a credential whose expiration date is no date the checks disagree: with the server
  out of reach isExpired says it is not expired, and selectNonExpired leaves it out as if it were.\<close>

theorem invalid_date_disagreement:
  assumes "has_date c" and "date (or_default (sv_expirationDate c) []) = None"
    and "api (checkCredentialStatus_call (sv_id c)) = Inl e"
  shows "\<not> isExpired_sdk date now api c \<and> c \<notin> set (selectNonExpired date now cs)"
  using assms by (simp add: isExpired_sdk_def getStatus_sdk_def call_def past_date_def selectNonExpired_def date_ahead_def)

theorem invalid_date_disagreement_witness:
  "\<exists>c e. c = createCredential_sdk ''now'' ''u'' ''did:x:i'' ''did:x:s'' [] None None (Some ''soon'') \<and>
     \<not> isExpired_sdk (\<lambda>_. None) 5 (\<lambda>_. Inl e) c \<and> c \<notin> set (selectNonExpired (\<lambda>_. None) 5 [c])"
proof -
  define c where "c = createCredential_sdk ''now'' ''u'' ''did:x:i'' ''did:x:s'' [] None None (Some ''soon'')"
  have "has_date c" by (simp add: c_def createCredential_sdk_def has_date_def)
  from invalid_date_disagreement [OF this, of "\<lambda>_. None" "\<lambda>_. Inl (sdk_unauthorized None)" _ 5 "[c]"]
  show ?thesis unfolding c_def by blast
qed

text \<open>the two checks of a DID of the library differ exactly on an empty method: isValidDID
  accepts it and the manager's own check refuses it.\<close>

theorem did_checks_differ_on_empty_method:
  "(validateDID_sdk did = Inr ()) = (case parseDID_sdk did of Inr (m, _) \<Rightarrow> m \<noteq> [] | Inl _ \<Rightarrow> False) \<and>
   isValidDID_sdk ''did::x'' \<and> validateDID_sdk ''did::x'' \<noteq> Inr ()"
proof -
  have empty: "validateDID_sdk [] \<noteq> Inr ()" "parseDID_sdk [] = Inl (OtherError (''Invalid DID: ''))"
    by (simp_all add: validateDID_sdk_def parseDID_sdk_def)
  have "(validateDID_sdk did = Inr ()) = (case parseDID_sdk did of Inr (m, _) \<Rightarrow> m \<noteq> [] | Inl _ \<Rightarrow> False)"
    using empty by (cases "did = []") (auto simp: validateDID_sdk_def parseDID_sdk_def Let_def)
  moreover have "isValidDID_sdk ''did::x''" "validateDID_sdk ''did::x'' \<noteq> Inr ()"
    by (simp_all add: isValidDID_sdk_def parseDID_sdk_def validateDID_sdk_def)
  ultimately show ?thesis by blast
qed

definition names_method :: "string \<Rightarrow> string list option \<Rightarrow> bool" where
  "names_method i ids \<longleftrightarrow> i \<in> set (or_default ids [])"

text \<open>a verification method that is removed leaves the methods and the authentication,
  assertion and key agreement lists, but a capability that names it stays: the key may still invoke it.\<close>

theorem removed_method_keeps_capabilities:
  "i \<notin> sm_id ` set (or_default (sx_verificationMethod (removeVerificationMethod_sdk doc i)) []) \<and>
   \<not> names_method i (sx_authentication (removeVerificationMethod_sdk doc i)) \<and>
   \<not> names_method i (sx_assertionMethod (removeVerificationMethod_sdk doc i)) \<and>
   \<not> names_method i (sx_keyAgreement (removeVerificationMethod_sdk doc i)) \<and>
   names_method i (sx_capabilityInvocation (removeVerificationMethod_sdk doc i)) = names_method i (sx_capabilityInvocation doc) \<and>
   names_method i (sx_capabilityDelegation (removeVerificationMethod_sdk doc i)) = names_method i (sx_capabilityDelegation doc)"
  by (auto simp: removeVerificationMethod_sdk_def without_id_def names_method_def)

text \<open>removing a verification method whose id is new to the document undoes its addition, up to
  lists that were absent and are now empty.\<close>

theorem remove_undoes_add:
  assumes "i = sm_id m" and "i \<notin> sm_id ` set (or_default (sx_verificationMethod doc) [])"
    and "\<not> names_method i (sx_authentication doc)" and "\<not> names_method i (sx_assertionMethod doc)"
    and "\<not> names_method i (sx_keyAgreement doc)"
  shows "removeVerificationMethod_sdk (addVerificationMethod_sdk doc m) i =
    doc\<lparr>sx_verificationMethod := Some (or_default (sx_verificationMethod doc) []),
        sx_authentication := Some (or_default (sx_authentication doc) []),
        sx_assertionMethod := Some (or_default (sx_assertionMethod doc) []),
        sx_keyAgreement := Some (or_default (sx_keyAgreement doc) [])\<rparr>"
proof -
  have "filter (\<lambda>m. sm_id m \<noteq> i) (or_default (sx_verificationMethod doc) []) = or_default (sx_verificationMethod doc) []"
    using assms(2) by (auto simp: filter_id_conv)
  moreover have "filter (\<lambda>j. j \<noteq> i) xs = xs" if "i \<notin> set xs" for xs
    using that by (auto simp: filter_id_conv)
  ultimately show ?thesis
    using assms by (simp add: removeVerificationMethod_sdk_def addVerificationMethod_sdk_def without_id_def names_method_def)
qed

theorem remove_undoes_add_witness:
  "\<exists>doc m. removeVerificationMethod_sdk (addVerificationMethod_sdk doc m) (sm_id m) = doc\<lparr>
     sx_verificationMethod := Some [], sx_authentication := Some [], sx_assertionMethod := Some [], sx_keyAgreement := Some []\<rparr>"
proof -
  define doc where "doc = createDIDDocument ''t'' ''t'' ''did:x:1'' None None None None"
  define m where "m = createVerificationMethod ''k'' ''Ed'' ''did:x:1'' None None"
  have "removeVerificationMethod_sdk (addVerificationMethod_sdk doc m) (sm_id m) = doc\<lparr>
     sx_verificationMethod := Some [], sx_authentication := Some [], sx_assertionMethod := Some [], sx_keyAgreement := Some []\<rparr>"
    using remove_undoes_add [of "sm_id m" m doc] by (simp add: doc_def createDIDDocument_def names_method_def)
  then show ?thesis by blast
qed

end
