(* ===== verification/Numbers.thy ===== *)
theory Numbers
  imports ByteCodec
begin

section \<open>Numbers in double precision\<close>

text \<open>
  The arithmetic of JavaScript that the prices of the program are computed with: IEEE 754 doubles,
  rounded to the nearest, ties to even. A finite double is the rational number it stands for (the two zeros
  are one: no operation used here tells them apart). Number.prototype.toFixed, parseFloat and the
  text of numbers of 10^21 and more are functions too, and all of it computes. The lemmas bound the
  rounding error, from which follows that sums of amounts in cents are exact once they are printed
  with two digits.
\<close>

subsection \<open>Rounding\<close>

datatype js_double = Finite rat | Infinite bool | NotANumber

text \<open>The exponent of the binade of a positive number.\<close>

definition binade :: "rat \<Rightarrow> int" where
  "binade q =
     (let (a, b) = quotient_of q; e = int (bit_length (nat a)) - int (bit_length (nat b))
      in if 2 powi e \<le> q then e else e - 1)"

definition half_even :: "rat \<Rightarrow> int" where
  "half_even x =
     (let f = \<lfloor>x\<rfloor>; r = x - of_int f in if r < 1 / 2 \<or> (r = 1 / 2 \<and> even f) then f else f + 1)"

text \<open>The distance of the doubles around \<open>q\<close>: 52 binary digits follow the leading one, and the
  exponent does not fall below -1022.\<close>

definition spacing :: "rat \<Rightarrow> rat" where
  "spacing q = 2 powi (max (binade \<bar>q\<bar>) (-1022) - 52)"

definition nearest :: "rat \<Rightarrow> rat" where
  "nearest q = (if q = 0 then 0 else of_int (half_even (q / spacing q)) * spacing q)"

definition to_double :: "rat \<Rightarrow> js_double" where
  "to_double q = (let r = nearest q in if \<bar>r\<bar> < 2 ^ 1024 then Finite r else Infinite (q < 0))"

fun d_plus :: "js_double \<Rightarrow> js_double \<Rightarrow> js_double" where
  "d_plus (Finite x) (Finite y) = to_double (x + y)"
| "d_plus NotANumber y = NotANumber"
| "d_plus x NotANumber = NotANumber"
| "d_plus (Infinite s) (Infinite t) = (if s = t then Infinite s else NotANumber)"
| "d_plus (Infinite s) (Finite y) = Infinite s"
| "d_plus (Finite x) (Infinite t) = Infinite t"

fun d_uminus :: "js_double \<Rightarrow> js_double" where
  "d_uminus (Finite x) = Finite (- x)"
| "d_uminus (Infinite s) = Infinite (\<not> s)"
| "d_uminus NotANumber = NotANumber"

definition d_minus :: "js_double \<Rightarrow> js_double \<Rightarrow> js_double" where
  "d_minus x y = d_plus x (d_uminus y)"

fun d_times :: "js_double \<Rightarrow> js_double \<Rightarrow> js_double" where
  "d_times (Finite x) (Finite y) = to_double (x * y)"
| "d_times NotANumber y = NotANumber"
| "d_times x NotANumber = NotANumber"
| "d_times (Infinite s) (Infinite t) = Infinite (s \<noteq> t)"
| "d_times (Infinite s) (Finite y) = (if y = 0 then NotANumber else Infinite (s \<noteq> (y < 0)))"
| "d_times (Finite x) (Infinite t) = (if x = 0 then NotANumber else Infinite ((x < 0) \<noteq> t))"

subsection \<open>Text\<close>

text \<open>The digits of a natural number, at least \<open>k\<close> of them.\<close>

definition pad_digits :: "nat \<Rightarrow> nat \<Rightarrow> string" where
  "pad_digits k n = (let s = show_nat n in replicate (k - length s) (CHR ''0'') @ s)"

text \<open>\<open>n\<close> units of 10^-k.\<close>

definition fixed_text :: "nat \<Rightarrow> nat \<Rightarrow> string" where
  "fixed_text k n = (if k = 0 then show_nat n else show_nat (n div 10 ^ k) @ ''.'' @ pad_digits k (n mod 10 ^ k))"

text \<open>The text of a number of at least 10^21: the fewest digits that are read back as the number, of
  these the closest, in scientific notation.\<close>

definition shortest_digits :: "rat \<Rightarrow> nat \<Rightarrow> nat \<Rightarrow> nat option" where
  "shortest_digits x p k =
     (let u = 10 ^ (p - k); n = nat \<lfloor>x / u\<rfloor>;
          ok = (\<lambda>m. nearest (of_nat m * u) = x)
      in if ok n \<and> (\<not> ok (n + 1) \<or> x - of_nat n * u \<le> of_nat (n + 1) * u - x) then Some n
         else if ok (n + 1) then Some (n + 1) else None)"

text \<open>\<open>n\<close> times 10^e.\<close>

definition scientific :: "nat \<Rightarrow> nat \<Rightarrow> string" where
  "scientific n e =
     (let ds = show_nat n; short = rev (dropWhile (\<lambda>c. c = CHR ''0'') (rev ds)) in
      hd short # (if length short = 1 then [] else CHR ''.'' # tl short) @ ''e+'' @ show_nat (e + length ds - 1))"

definition big_text :: "rat \<Rightarrow> string" where
  "big_text x =
     (let p = length (show_nat (nat \<lfloor>x\<rfloor>)) in
      case List.map_filter (\<lambda>k. map_option (\<lambda>n. (n, p - k)) (shortest_digits x p k)) [1..<18] of
        (n, e) # _ \<Rightarrow> scientific n e
      | [] \<Rightarrow> show_nat (nat \<lfloor>x\<rfloor>))"

text \<open>\<open>x.toFixed(k)\<close>: of two candidates as close the larger is taken.\<close>

fun toFixed :: "nat \<Rightarrow> js_double \<Rightarrow> string" where
  "toFixed k NotANumber = ''NaN''"
| "toFixed k (Infinite neg) = (if neg then ''-Infinity'' else ''Infinity'')"
| "toFixed k (Finite x) =
     (let y = \<bar>x\<bar> in
      (if x < 0 then ''-'' else []) @ (if 10 ^ 21 \<le> y then big_text y else fixed_text k (nat \<lfloor>y * 10 ^ k + 1 / 2\<rfloor>)))"

text \<open>\<open>parseFloat(s)\<close>: the longest prefix that is a number.\<close>

definition digits_nat :: "string \<Rightarrow> nat" where
  "digits_nat ds = nat (digits_val ds)"

definition parse_exponent :: "string \<Rightarrow> int" where
  "parse_exponent s =
     (case s of
        c # cs \<Rightarrow>
          if c = CHR ''e'' \<or> c = CHR ''E'' then
            (let neg = (cs \<noteq> [] \<and> hd cs = CHR ''-''); ds = (if cs \<noteq> [] \<and> hd cs \<in> set ''+-'' then tl cs else cs);
                 n = int (digits_nat (takeWhile js_digit ds))
             in if neg then - n else n)
          else 0
      | [] \<Rightarrow> 0)"

definition parse_unsigned :: "string \<Rightarrow> rat option" where
  "parse_unsigned s =
     (let w = takeWhile js_digit s; r = dropWhile js_digit s;
          f = (case r of c # cs \<Rightarrow> if c = CHR ''.'' then takeWhile js_digit cs else [] | [] \<Rightarrow> []);
          rest = (case r of c # cs \<Rightarrow> if c = CHR ''.'' then dropWhile js_digit cs else r | [] \<Rightarrow> [])
      in if w = [] \<and> f = [] then None
         else Some (of_nat (digits_nat (w @ f)) * 10 powi (parse_exponent rest - int (length f))))"

definition parseFloat :: "string \<Rightarrow> js_double" where
  "parseFloat s =
     (let t = dropWhile js_space s;
          neg = (t \<noteq> [] \<and> hd t = CHR ''-''); u = (if t \<noteq> [] \<and> hd t \<in> set ''+-'' then tl t else t)
      in if starts_with u ''Infinity'' then Infinite neg
         else case parse_unsigned u of
           None \<Rightarrow> NotANumber
         | Some q \<Rightarrow> to_double (if neg then - q else q))"

subsection \<open>The rounding error\<close>

lemma half_even_error: "\<bar>of_int (half_even x) - x\<bar> \<le> 1 / 2"
proof -
  have "of_int \<lfloor>x\<rfloor> \<le> x" "x < of_int \<lfloor>x\<rfloor> + 1" by linarith+
  then show ?thesis unfolding half_even_def Let_def by (cases "x - of_int \<lfloor>x\<rfloor> < 1 / 2 \<or> x - of_int \<lfloor>x\<rfloor> = 1 / 2 \<and> even \<lfloor>x\<rfloor>") (auto simp: abs_le_iff)
qed

lemma half_even_of_int [simp]: "half_even (of_int n) = n"
  by (simp add: half_even_def)

lemma half_even_eqI: "\<bar>x - of_int m\<bar> < 1 / 2 \<Longrightarrow> half_even x = m"
  using half_even_error [of x] by linarith

lemma half_even_nonneg: "0 \<le> x \<Longrightarrow> 0 \<le> half_even x"
  using half_even_error [of x] by linarith

lemma half_even_mono:
  assumes "x \<le> y"
  shows "half_even x \<le> half_even y"
proof (rule ccontr)
  assume less: "\<not> half_even x \<le> half_even y"
  have "of_int (half_even x) \<le> x + 1 / 2" "y - 1 / 2 \<le> of_int (half_even y)"
    using half_even_error [of x] half_even_error [of y] by linarith+
  with less assms have "x = y" by linarith
  with less show False by simp
qed

lemma nat_bit_length_bounds:
  assumes "0 < n"
  shows "2 ^ (bit_length n - 1) \<le> n" "n < 2 ^ bit_length n"
proof -
  have "bit_length n \<noteq> 0" using assms bit_length_less [of n 0] by auto
  then show "2 ^ (bit_length n - 1) \<le> n" using bit_length_less [of n "bit_length n - 1"] by auto
  show "n < 2 ^ bit_length n" using bit_length_less [of n "bit_length n"] by simp
qed

lemma bit_length_rat:
  assumes "0 < a"
  shows "2 ^ (bit_length (nat a) - 1) \<le> (of_int a :: rat)" "(of_int a :: rat) < 2 ^ bit_length (nat a)"
proof -
  have "int (2 ^ (bit_length (nat a) - 1)) \<le> a" "a < int (2 ^ bit_length (nat a))"
    using nat_bit_length_bounds [of "nat a"] assms by linarith+
  then have "of_int (int (2 ^ (bit_length (nat a) - 1))) \<le> (of_int a :: rat)"
    "(of_int a :: rat) < of_int (int (2 ^ bit_length (nat a)))"
    by (simp_all only: of_int_le_iff of_int_less_iff)
  then show "2 ^ (bit_length (nat a) - 1) \<le> (of_int a :: rat)" "(of_int a :: rat) < 2 ^ bit_length (nat a)"
    by simp_all
qed

lemma binade_bounds:
  assumes "0 < q"
  shows "2 powi (binade q) \<le> q" "q < 2 powi (binade q + 1)"
proof -
  obtain a b where ab: "quotient_of q = (a, b)" by (cases "quotient_of q")
  define i j where "i = bit_length (nat a)" and "j = bit_length (nat b)"
  have q: "q = of_int a / of_int b" "0 < b" using quotient_of_div [OF ab] quotient_of_denom_pos [OF ab] by auto
  then have a: "0 < a" using assms by (simp add: zero_less_divide_iff)
  have pos: "0 < i" "0 < j" using a q(2) bit_length_less [of "nat a" 0] bit_length_less [of "nat b" 0] by (auto simp: i_def j_def)
  note la = bit_length_rat [OF a, folded i_def] and lb = bit_length_rat [OF q(2), folded j_def]
  have e: "2 powi (int i - int j) = (2 ^ i / 2 ^ j :: rat)" by (simp add: power_int_diff)
  have up: "q < 2 powi (int i - int j + 1)"
  proof -
    have "q < 2 ^ i / 2 ^ (j - 1)" unfolding q(1) by (rule frac_less) (use la lb a in \<open>auto simp: less_imp_le\<close>)
    also have "\<dots> = 2 powi (int i - int j + 1)" using pos e by (simp add: power_int_add power_diff)
    finally show ?thesis .
  qed
  have down: "2 powi (int i - int j - 1) \<le> q"
  proof -
    have "2 powi (int i - int j - 1) = (2 ^ (i - 1) / 2 ^ j :: rat)" using pos e by (simp add: power_int_diff power_diff)
    also have "\<dots> \<le> q" unfolding q(1) by (rule frac_le) (use la lb q(2) a in auto)
    finally show ?thesis .
  qed
  have "binade q = (if 2 powi (int i - int j) \<le> q then int i - int j else int i - int j - 1)"
    by (simp add: binade_def ab i_def j_def Let_def)
  then show "2 powi (binade q) \<le> q" "q < 2 powi (binade q + 1)"
    using up down by (auto simp: not_le)
qed

lemma binade_le:
  assumes "0 < q" "q < 2 powi (k + 1)"
  shows "binade q \<le> k"
proof (rule ccontr)
  assume "\<not> binade q \<le> k"
  then have "(2 :: rat) powi (k + 1) \<le> 2 powi (binade q)" by (intro power_int_increasing) auto
  then show False using binade_bounds [OF assms(1)] assms(2) by linarith
qed

lemma spacing_pos [simp]: "0 < spacing q"
  by (simp add: spacing_def)

lemma spacing_nonzero [simp]: "spacing q \<noteq> 0"
  using spacing_pos [of q] by linarith

lemma nearest_error: "\<bar>nearest q - q\<bar> \<le> spacing q / 2"
proof (cases "q = 0")
  case False
  have "nearest q - q = (of_int (half_even (q / spacing q)) - q / spacing q) * spacing q"
    using False by (simp add: nearest_def left_diff_distrib)
  then have "\<bar>nearest q - q\<bar> = \<bar>of_int (half_even (q / spacing q)) - q / spacing q\<bar> * spacing q"
    by (simp add: abs_mult abs_of_pos)
  also have "\<dots> \<le> 1 / 2 * spacing q" by (intro mult_right_mono half_even_error) (simp add: less_imp_le)
  finally show ?thesis by simp
qed (simp add: nearest_def less_imp_le)

lemma spacing_le:
  assumes "\<bar>q\<bar> < 2 powi (k + 1)" "-1022 \<le> k" "q \<noteq> 0"
  shows "spacing q \<le> 2 powi (k - 52)"
  unfolding spacing_def using binade_le [of "\<bar>q\<bar>" k] assms by (intro power_int_increasing) auto

lemma nearest_error_below:
  assumes "\<bar>q\<bar> < 2 powi (k + 1)" "-1022 \<le> k"
  shows "\<bar>nearest q - q\<bar> \<le> 2 powi (k - 53)"
proof (cases "q = 0")
  case False
  have "spacing q / 2 \<le> 2 powi (k - 52) / 2" using spacing_le [OF assms False] by simp
  also have "\<dots> = 2 powi (k - 53)" using power_int_diff [of "2 :: rat" "k - 52" 1] by simp
  finally show ?thesis using nearest_error [of q] by linarith
qed (simp add: nearest_def)

lemma nearest_nonneg: "0 \<le> q \<Longrightarrow> 0 \<le> nearest q"
  by (auto simp: nearest_def half_even_nonneg less_imp_le intro!: mult_nonneg_nonneg)

subsection \<open>Amounts with a fixed number of digits\<close>

lemma digits_val_append: "digits_val (s @ t) = digits_val s * 10 ^ length t + digits_val t"
proof (induction t rule: rev_induct)
  case (snoc c t)
  have "digits_val (u @ [c]) = 10 * digits_val u + (of_char c - 48)" for u by (simp add: digits_val_def)
  from this [of "s @ t"] this [of t] snoc show ?case by (simp add: algebra_simps)
qed (simp add: digits_val_def)

lemma js_digit_char: "d < 10 \<Longrightarrow> js_digit (char_of (48 + d)) \<and> (of_char (char_of (48 + d) :: char) :: int) = 48 + int d"
proof -
  assume "d < 10"
  then have d: "(of_char (char_of (48 + d) :: char) :: nat) = 48 + d" by simp
  have "(of_char c :: int) = int (of_char c)" for c by (simp add: of_nat_of_char)
  from this [of "char_of (48 + d)"] d \<open>d < 10\<close> show ?thesis by (simp add: js_digit_def)
qed

lemma show_nat_digits: "list_all js_digit (show_nat n) \<and> digits_val (show_nat n) = int n \<and> show_nat n \<noteq> []"
proof (induction n rule: less_induct)
  case (less n)
  have one: "digits_val [char_of (48 + d)] = int d" if "d < 10" for d :: nat
    using js_digit_char [OF that] by (simp add: digits_val_def)
  show ?case
  proof (cases "n < 10")
    case True
    then show ?thesis using js_digit_char [of n] one [of n] by (simp add: show_nat.simps [of n])
  next
    case False
    then have "n div 10 < n" by simp
    have sum: "int (n div 10) * 10 + int (n mod 10) = int n" by presburger
    from less.IH [OF \<open>n div 10 < n\<close>] False js_digit_char [of "n mod 10"] one [of "n mod 10"] show ?thesis
      by (simp add: show_nat.simps [of n] digits_val_append sum)
  qed
qed

lemma digits_val_zeros: "digits_val (replicate m (CHR ''0'')) = 0"
  by (induction m) (simp_all add: digits_val_def)

lemma pad_digits: "list_all js_digit (pad_digits k n) \<and> digits_val (pad_digits k n) = int n"
  using show_nat_digits [of n]
  by (auto simp: pad_digits_def Let_def digits_val_append digits_val_zeros list_all_iff js_digit_def)

lemma length_pad_digits: "0 < k \<Longrightarrow> n < 10 ^ k \<Longrightarrow> length (pad_digits k n) = k"
  using show_nat_length [of k n] by (simp add: pad_digits_def Let_def)

lemma takeWhile_digits: "list_all js_digit w \<Longrightarrow> \<not> js_digit c \<Longrightarrow> takeWhile js_digit (w @ c # r) = w \<and> dropWhile js_digit (w @ c # r) = c # r"
  by (induction w) auto

text \<open>An amount printed with \<open>k\<close> digits is read back as the double next to it.\<close>

lemma parse_fixed_text:
  assumes "0 < k"
  shows "parse_unsigned (fixed_text k n) = Some (of_nat n / 10 ^ k)"
proof -
  define w where "w = show_nat (n div 10 ^ k)"
  define f where "f = pad_digits k (n mod 10 ^ k)"
  have shape: "fixed_text k n = w @ CHR ''.'' # f" using assms by (simp add: fixed_text_def w_def f_def)
  have w: "list_all js_digit w" "digits_val w = int (n div 10 ^ k)" "w \<noteq> []" using show_nat_digits by (simp_all add: w_def)
  have f: "list_all js_digit f" "digits_val f = int (n mod 10 ^ k)" "length f = k"
    using pad_digits length_pad_digits [OF assms] by (simp_all add: f_def)
  have "\<not> js_digit (CHR ''.'')" by (simp add: js_digit_def)
  from takeWhile_digits [OF w(1) this, of f] have split: "takeWhile js_digit (w @ CHR ''.'' # f) = w"
    "dropWhile js_digit (w @ CHR ''.'' # f) = CHR ''.'' # f" by blast+
  have rest: "takeWhile js_digit f = f" "dropWhile js_digit f = []" using f(1) by (induction f) auto
  have "digits_val (w @ f) = int n" by (simp add: digits_val_append w(2) f zdiv_int zmod_int div_mult_mod_eq)
  then show ?thesis
    unfolding parse_unsigned_def shape Let_def split
    by (simp add: rest w(3) f(3) digits_nat_def parse_exponent_def power_int_minus divide_simps)
qed

lemma parseFloat_fixed:
  assumes "0 < k"
  shows "parseFloat (fixed_text k n) = to_double (of_nat n / 10 ^ k)"
proof -
  obtain c cs where c: "show_nat (n div 10 ^ k) = c # cs" "js_digit c"
    using show_nat_digits [of "n div 10 ^ k"] by (cases "show_nat (n div 10 ^ k)") auto
  then obtain r where t: "fixed_text k n = c # r" using assms by (simp add: fixed_text_def)
  have "\<not> js_space c" "c \<notin> set ''+-''" "c \<noteq> CHR ''I''" "c \<noteq> CHR ''-''" using c(2) by (auto simp: js_digit_def js_space_def)
  then show ?thesis using parse_fixed_text [OF assms, of n] by (simp add: parseFloat_def t Let_def)
qed

lemma toFixed_eqI:
  assumes "0 \<le> x" "x < 10 ^ 21" "\<bar>x * 10 ^ k - of_nat n\<bar> < 1 / 2"
  shows "toFixed k (Finite x) = fixed_text k n"
proof -
  have "\<lfloor>x * 10 ^ k + 1 / 2\<rfloor> = int n" using assms(3) by (intro floor_unique; simp; linarith)
  then show ?thesis using assms(1,2) by (simp add: Let_def)
qed

subsection \<open>Amounts below 2^30\<close>

lemma near_D: "\<bar>a - b\<bar> \<le> e \<Longrightarrow> a \<le> b + e \<and> b \<le> a + e"
  for a :: rat by linarith

lemma near_I: "a \<le> b + e \<Longrightarrow> b \<le> a + e \<Longrightarrow> \<bar>a - b\<bar> \<le> e"
  for a :: rat by linarith

lemma nearest_relative:
  assumes "2 powi (-1022) \<le> \<bar>q\<bar>"
  shows "\<bar>nearest q - q\<bar> \<le> \<bar>q\<bar> * 2 powi (-53)"
proof -
  have q: "0 < \<bar>q\<bar>" using assms zero_less_power_int [of "2 :: rat" "-1022"] by linarith
  have "\<not> binade \<bar>q\<bar> + 1 \<le> -1022"
  proof
    assume "binade \<bar>q\<bar> + 1 \<le> -1022"
    then have "(2 :: rat) powi (binade \<bar>q\<bar> + 1) \<le> 2 powi (-1022)" by (intro power_int_increasing) auto
    with binade_bounds(2) [OF q] assms show False by linarith
  qed
  then have "max (binade \<bar>q\<bar>) (-1022) = binade \<bar>q\<bar>" by linarith
  then have "spacing q = 2 powi (binade \<bar>q\<bar> - 52)" by (simp only: spacing_def)
  also have "\<dots> = 2 powi (binade \<bar>q\<bar>) * 2 powi (-52)" using power_int_add [of "2 :: rat" "binade \<bar>q\<bar>" "-52"] by simp
  also have "\<dots> \<le> \<bar>q\<bar> * 2 powi (-52)" by (intro mult_right_mono binade_bounds(1) [OF q]) simp
  also have "(2 :: rat) powi (-52) = 2 * 2 powi (-53)" by (simp add: power_int_minus_divide)
  finally have "spacing q \<le> \<bar>q\<bar> * (2 * 2 powi (-53))" .
  then have "spacing q / 2 \<le> \<bar>q\<bar> * 2 powi (-53)" by (simp only: mult.left_commute)
  then show ?thesis using nearest_error [of q] by linarith
qed

lemma to_double_below:
  assumes "0 \<le> q" "q < 1073741824"
  shows "\<exists>x. to_double q = Finite x \<and> x = nearest q \<and> 0 \<le> x \<and> \<bar>x - q\<bar> \<le> 1 / 10000000"
proof -
  have "\<bar>nearest q - q\<bar> \<le> 2 powi (29 - 53)" by (rule nearest_error_below) (use assms in auto)
  also have "(2 :: rat) powi (29 - 53) \<le> 1 / 10000000" by (simp add: power_int_minus_divide)
  finally have err: "\<bar>nearest q - q\<bar> \<le> 1 / 10000000" .
  have "\<bar>nearest q\<bar> < 2 ^ 31" using near_D [OF err] assms nearest_nonneg [OF assms(1)] by simp
  also have "(2 :: rat) ^ 31 < 2 ^ 1024" by (rule power_strict_increasing) auto
  finally have "to_double q = Finite (nearest q)" by (simp add: to_double_def)
  then show ?thesis using err nearest_nonneg [OF assms(1)] by blast
qed

text \<open>A double within \<open>d\<close> of a number.\<close>

definition near :: "rat \<Rightarrow> js_double \<Rightarrow> rat \<Rightarrow> bool" where
  "near d x N \<longleftrightarrow> (\<exists>y. x = Finite y \<and> 0 \<le> y \<and> \<bar>y - N\<bar> \<le> d)"

lemma near_to_double: "0 \<le> q \<Longrightarrow> q < 1073741824 \<Longrightarrow> near (1 / 10000000) (to_double q) q"
  using to_double_below [of q] by (auto simp: near_def)

text \<open>The sum of amounts, as the program adds them up: the error grows by one rounding per step.\<close>

definition add_all :: "js_double list \<Rightarrow> js_double" where
  "add_all xs = foldl d_plus (Finite 0) xs"

lemma add_all_near:
  assumes "list_all2 (near d) xs Ns" "\<And>N. N \<in> set Ns \<Longrightarrow> 0 \<le> N" "sum_list Ns \<le> 1000000000"
    and "of_nat (length xs) * (d + 1 / 10000000) \<le> 1 / 500" "0 \<le> d"
  shows "near (of_nat (length xs) * (d + 1 / 10000000)) (add_all xs) (sum_list Ns)"
  using assms(1-4)
proof (induction xs arbitrary: Ns rule: rev_induct)
  case Nil
  then show ?case by (simp add: add_all_def near_def)
next
  case (snoc x xs)
  then obtain Ms N where Ns: "Ns = Ms @ [N]" "list_all2 (near d) xs Ms" "near d x N"
    by (auto simp: list_all2_append1 list_all2_Cons1)
  define S e where "S = sum_list Ms" and "e = of_nat (length xs) * (d + 1 / 10000000)"
  have step: "of_nat (length (xs @ [x])) * (d + 1 / 10000000) = e + (d + 1 / 10000000)"
    by (simp add: e_def distrib_right)
  then have e: "e + (d + 1 / 10000000) \<le> 1 / 500" "0 \<le> e" using snoc.prems(4) assms(5) by (simp_all add: e_def)
  have SN: "0 \<le> N" "0 \<le> S" "S + N \<le> 1000000000"
    using snoc.prems(2,3) by (auto simp: Ns S_def intro: sum_list_nonneg)
  have "S \<le> 1000000000" "e \<le> 1 / 500" using SN e assms(5) by linarith+
  then have "near e (add_all xs) S"
    using snoc.IH [OF Ns(2)] snoc.prems(2) by (simp add: Ns S_def e_def)
  then obtain y where y: "add_all xs = Finite y" "0 \<le> y" "\<bar>y - S\<bar> \<le> e" by (auto simp: near_def)
  obtain z where z: "x = Finite z" "0 \<le> z" "\<bar>z - N\<bar> \<le> d" using Ns(3) by (auto simp: near_def)
  have yz: "y \<le> S + e" "S \<le> y + e" "z \<le> N + d" "N \<le> z + d" using near_D [OF y(3)] near_D [OF z(3)] by auto
  have "0 \<le> y + z" "y + z < 1073741824" using yz e SN y(2) z(2) assms(5) by linarith+
  from to_double_below [OF this] obtain w where w: "to_double (y + z) = Finite w" "0 \<le> w"
    "\<bar>w - (y + z)\<bar> \<le> 1 / 10000000" by auto
  have "\<bar>w - (S + N)\<bar> \<le> e + (d + 1 / 10000000)"
    by (rule near_I) (use near_D [OF w(3)] yz in linarith)+
  then have "near (e + (d + 1 / 10000000)) (add_all (xs @ [x])) (S + N)"
    using y(1) z(1) w(1,2) by (simp add: add_all_def near_def)
  then show ?case by (simp only: step) (simp add: Ns S_def)
qed

definition add_amounts :: "string list \<Rightarrow> js_double" where
  "add_amounts ts = foldl (\<lambda>acc t. d_plus acc (parseFloat t)) (Finite 0) ts"

lemma add_amounts_all: "add_amounts ts = add_all (map parseFloat ts)"
  by (simp add: add_amounts_def add_all_def foldl_map)

lemma cents_bound: "n \<le> 100000000000 \<Longrightarrow> of_nat n / 100 \<le> (1000000000 :: rat)"
proof -
  assume "n \<le> 100000000000"
  then have "of_nat n \<le> (of_nat 100000000000 :: rat)" by (simp only: of_nat_le_iff)
  then show ?thesis by simp
qed

lemma count_bound: "m \<le> 10000 \<Longrightarrow> of_nat m * (1 / 10000000 + 1 / 10000000) \<le> (1 / 500 :: rat)"
proof -
  assume "m \<le> 10000"
  then have "of_nat m \<le> (of_nat 10000 :: rat)" by (simp only: of_nat_le_iff)
  then show ?thesis by simp
qed

lemma sum_list_cents: "sum_list (map (\<lambda>n. of_nat n / 100) ns) = (of_nat (sum_list ns) / 100 :: rat)"
  by (induction ns) (simp_all add: add_divide_distrib)

lemma cents_member: "n \<in> set ns \<Longrightarrow> sum_list ns \<le> m \<Longrightarrow> n \<le> (m :: nat)"
  using member_le_sum_list [of n ns] by linarith

lemma add_amounts_cents:
  assumes "sum_list ns \<le> 100000000000" "length ns \<le> 10000"
  shows "near (1 / 500) (add_amounts (map (fixed_text 2) ns)) (of_nat (sum_list ns) / 100)"
proof -
  have one: "near (1 / 10000000) (parseFloat (fixed_text 2 n)) (of_nat n / 100)" if "n \<in> set ns" for n
  proof -
    have "of_nat n / 100 < (1073741824 :: rat)" using cents_bound [OF cents_member [OF that assms(1)]] by linarith
    then show ?thesis using near_to_double [of "of_nat n / 100"] parseFloat_fixed [of 2 n] by simp
  qed
  have count: "of_nat (length ns) * (1 / 10000000 + 1 / 10000000) \<le> (1 / 500 :: rat)" by (rule count_bound [OF assms(2)])
  have "list_all2 (near (1 / 10000000)) (map (\<lambda>n. parseFloat (fixed_text 2 n)) ns) (map (\<lambda>n. of_nat n / 100) ns)"
    unfolding list_all2_conv_all_nth using one by simp
  from add_all_near [OF this] cents_bound [OF assms(1)] count
  have "near (of_nat (length ns) * (1 / 10000000 + 1 / 10000000)) (add_amounts (map (fixed_text 2) ns)) (of_nat (sum_list ns) / 100)"
    by (fastforce simp: add_amounts_all o_def sum_list_cents)
  then show ?thesis using count by (auto simp: near_def)
qed

text \<open>So the printed sum of at most 10^4 amounts in cents of at most a billion together is exact.\<close>

lemma toFixed_near_cents:
  assumes "0 \<le> x" "\<bar>x - of_nat n / 100\<bar> \<le> 1 / 250" "n \<le> 100000000000"
  shows "toFixed 2 (Finite x) = fixed_text 2 n"
proof (rule toFixed_eqI)
  show "0 \<le> x" by fact
  show "x < 10 ^ 21" using near_D [OF assms(2)] cents_bound [OF assms(3)] by simp
  have "\<bar>x * 100 - of_nat n\<bar> \<le> 2 / 5" by (rule near_I) (use near_D [OF assms(2)] in linarith)+
  then show "\<bar>x * 10 ^ 2 - of_nat n\<bar> < 1 / 2" by simp
qed

lemma near_weaken: "near d x N \<Longrightarrow> d \<le> e \<Longrightarrow> near e x N"
  by (auto simp: near_def)

lemma toFixed_near:
  assumes "near (1 / 250) x (of_nat n / 100)" "n \<le> 100000000000"
  shows "toFixed 2 x = fixed_text 2 n"
  using assms toFixed_near_cents by (auto simp: near_def simp del: toFixed.simps)

lemma toFixed_sum_cents:
  assumes "sum_list ns \<le> 100000000000" "length ns \<le> 10000"
  shows "toFixed 2 (add_amounts (map (fixed_text 2) ns)) = fixed_text 2 (sum_list ns)"
  by (rule toFixed_near [OF near_weaken [OF add_amounts_cents [OF assms]] assms(1)]) simp

text \<open>A price with at most six digits, times a quantity: the product before it is printed.\<close>

lemma price_times:
  assumes "of_nat (c * q) / 10 ^ k \<le> (1000000000 :: rat)" "k \<le> 6" "0 < k" "0 < q"
  shows "near (3 / 10000000) (d_times (parseFloat (fixed_text k c)) (Finite (of_nat q))) (of_nat (c * q) / 10 ^ k)"
proof -
  define p where "p = (of_nat c / 10 ^ k :: rat)"
  define Q where "Q = p * of_nat q"
  have p: "0 \<le> p" "of_nat (c * q) / 10 ^ k = Q" by (simp_all add: p_def Q_def)
  have Q: "0 \<le> Q" "Q \<le> 1000000000" using assms(1) p by (simp_all add: Q_def)
  have "p * 1 \<le> Q" unfolding Q_def using p(1) assms(4) by (intro mult_left_mono) auto
  then have "p < 1073741824" using Q by linarith
  from to_double_below [OF p(1) this] obtain x where x: "to_double p = Finite x" "x = nearest p" "0 \<le> x" by auto
  have rel: "\<bar>x - p\<bar> \<le> p * 2 powi (-53)"
  proof (cases "c = 0")
    case True
    then show ?thesis by (simp add: x(2) p_def nearest_def)
  next
    case False
    have "(2 :: rat) powi (-1022) \<le> 2 powi (-20)" by (rule power_int_increasing) auto
    also have "\<dots> \<le> 1 / 10 ^ 6" by (simp add: power_int_minus_divide)
    also have "(1 :: rat) / 10 ^ 6 \<le> 1 / 10 ^ k" using power_increasing [OF assms(2), of "10 :: rat"] by (intro divide_left_mono) auto
    also have "\<dots> \<le> p" unfolding p_def using False by (intro divide_right_mono) auto
    finally show ?thesis using nearest_relative [of p] p(1) by (simp add: x(2))
  qed
  have "\<bar>x * of_nat q - Q\<bar> = \<bar>x - p\<bar> * of_nat q" by (simp add: Q_def abs_mult flip: left_diff_distrib)
  also have "\<dots> \<le> p * 2 powi (-53) * of_nat q" using rel by (intro mult_right_mono) auto
  also have "\<dots> = Q * 2 powi (-53)" by (simp add: Q_def)
  also have "\<dots> \<le> 1000000000 * 2 powi (-53)" using Q(2) by (intro mult_right_mono) auto
  also have "(1000000000 * 2 powi (-53) :: rat) \<le> 2 / 10000000" by (simp add: power_int_minus_divide)
  finally have err: "\<bar>x * of_nat q - Q\<bar> \<le> 2 / 10000000" .
  have "0 \<le> x * of_nat q" using x(3) by simp
  moreover have "x * of_nat q < 1073741824" using near_D [OF err] Q(2) by linarith
  ultimately obtain y where y: "to_double (x * of_nat q) = Finite y" "0 \<le> y" "\<bar>y - x * of_nat q\<bar> \<le> 1 / 10000000"
    using to_double_below by blast
  have "\<bar>y - Q\<bar> \<le> 3 / 10000000" by (rule near_I) (use near_D [OF err] near_D [OF y(3)] in linarith)+
  then show ?thesis using y x(1) p(2) parseFloat_fixed [OF assms(3), of c] by (simp add: p_def near_def)
qed

text \<open>A price in cents: the printed product is exact.\<close>

lemma price_times_cents:
  assumes "c * q \<le> 100000000000" "0 < q"
  shows "near (3 / 10000000) (d_times (parseFloat (fixed_text 2 c)) (Finite (of_nat q))) (of_nat (c * q) / 100)"
  using price_times [of c q 2] cents_bound [OF assms(1)] assms(2) by simp

lemma toFixed_price_cents:
  assumes "c * q \<le> 100000000000" "0 < q"
  shows "toFixed 2 (d_times (parseFloat (fixed_text 2 c)) (Finite (of_nat q))) = fixed_text 2 (c * q)"
  by (rule toFixed_near [OF near_weaken [OF price_times_cents [OF assms]] assms(1)]) simp

text \<open>Adding or taking away nothing rounds once more.\<close>

lemma near_zero:
  assumes "near d x N" "N \<le> 1000000000" "d \<le> 1"
  shows "near (d + 1 / 10000000) (d_plus x (Finite 0)) N" "near (d + 1 / 10000000) (d_minus x (Finite 0)) N"
    "d_times x (Finite 0) = Finite 0"
proof -
  obtain y where y: "x = Finite y" "0 \<le> y" "\<bar>y - N\<bar> \<le> d" using assms(1) by (auto simp: near_def)
  have "y < 1073741824" using near_D [OF y(3)] assms(2,3) by linarith
  from to_double_below [OF y(2) this] obtain z where z: "to_double y = Finite z" "0 \<le> z" "\<bar>z - y\<bar> \<le> 1 / 10000000" by auto
  have "\<bar>z - N\<bar> \<le> d + 1 / 10000000" by (rule near_I) (use near_D [OF y(3)] near_D [OF z(3)] in linarith)+
  then show "near (d + 1 / 10000000) (d_plus x (Finite 0)) N" "near (d + 1 / 10000000) (d_minus x (Finite 0)) N"
    using z by (simp_all add: y(1) near_def d_minus_def)
  show "d_times x (Finite 0) = Finite 0" by (simp add: y(1) to_double_def nearest_def)
qed

lemma zero_text: "fixed_text 2 0 = ''0.00''"
  by (simp add: fixed_text_def pad_digits_def show_nat.simps) code_simp

lemma toFixed_zero: "toFixed 2 (Finite 0) = ''0.00''"
  using toFixed_near [of "Finite 0" 0] by (simp add: near_def zero_text)

lemma d_plus_NaN [simp]: "d_plus x NotANumber = NotANumber"
  by (cases x) auto

lemma add_NaN: "foldl (\<lambda>acc t. d_plus acc (parseFloat t)) NotANumber ts = NotANumber"
  by (induction ts) auto

lemma add_amounts_bad: "t \<in> set ts \<Longrightarrow> parseFloat t = NotANumber \<Longrightarrow> add_amounts ts = NotANumber"
proof -
  assume t: "t \<in> set ts" "parseFloat t = NotANumber"
  then obtain us vs where "ts = us @ t # vs" by (meson split_list)
  then show ?thesis using t(2) by (simp add: add_amounts_def add_NaN)
qed

lemma parse_NaN: "parseFloat ''NaN'' = NotANumber"
  by (simp add: parseFloat_def js_space_def parse_unsigned_def js_digit_def)

lemma add_amounts_NaN: "''NaN'' \<in> set ts \<Longrightarrow> add_amounts ts = NotANumber"
  using add_amounts_bad parse_NaN by blast

subsection \<open>Computing a rounding\<close>

lemma binade_eqI:
  assumes "2 powi e \<le> q" "q < 2 powi (e + 1)"
  shows "binade q = e"
proof -
  have q: "0 < q" using assms(1) zero_less_power_int [of "2 :: rat" e] by linarith
  have "binade q \<le> e" by (rule binade_le [OF q assms(2)])
  moreover have "\<not> binade q < e"
  proof
    assume "binade q < e"
    then have "(2 :: rat) powi (binade q + 1) \<le> 2 powi e" by (intro power_int_increasing) auto
    then show False using binade_bounds(2) [OF q] assms(1) by linarith
  qed
  ultimately show ?thesis by linarith
qed

text \<open>For witnesses: the double next to \<open>q\<close>, from its binade and its 53-bit integer.\<close>

lemma nearest_eqI:
  assumes "2 powi e \<le> q" "q < 2 powi (e + 1)" "-1022 \<le> e" "\<bar>q / 2 powi (e - 52) - of_int m\<bar> < 1 / 2"
  shows "nearest q = of_int m * 2 powi (e - 52)"
proof -
  have q: "0 < q" using assms(1) zero_less_power_int [of "2 :: rat" e] by linarith
  then have "spacing q = 2 powi (e - 52)" using binade_eqI [OF assms(1,2)] assms(3) by (simp add: spacing_def max_def)
  then show ?thesis using half_even_eqI [OF assms(4)] q by (simp add: nearest_def)
qed

end
