(* ===== verification/UcpService.thy ===== *)
theory UcpService
  imports Numbers
begin

section \<open>Checkout, carts, orders and estimates\<close>

text \<open>
  packages/api/src/services/ucp_service.ts. Prices are texts, amounts are computed in double precision
  (theory Numbers) and printed with two digits. Fresh UUIDs and the time stamp, as
  texts, are arguments (one time stamp for the fields that a call fills from the clock).
  The product catalogue is an object literal: the names that every object inherits are found in it
  and give an entry without a price.
\<close>

subsection \<open>Data\<close>

record line_item =
  li_productId :: string
  li_description :: "string option"
  li_quantity :: js_double
  li_unitPrice :: "string option"
  li_totalPrice :: string
  li_currency :: string

record ucp_cart =
  ca_sessionId :: string
  ca_customerId :: "string option"
  ca_items :: "line_item list"
  ca_subtotal :: string
  ca_currency :: string
  ca_updatedAt :: string

record checkout_options =
  co_checkoutId :: string
  co_status :: string
  co_lineItems :: "line_item list"
  co_subtotal :: string
  co_tax :: string
  co_total :: string
  co_currency :: string
  co_availableGateways :: "string list"
  co_expiresAt :: string

record ucp_order =
  uo_orderId :: string
  uo_status :: string
  uo_customerId :: string
  uo_lineItems :: "line_item list"
  uo_total :: string
  uo_currency :: string
  uo_paymentGateway :: string
  uo_paymentStatus :: string
  uo_createdAt :: string
  uo_updatedAt :: string
  uo_invoiceUrl :: "string option"
  uo_receiptUrl :: "string option"

record ucp_estimate =
  es_subtotal :: string
  es_tax :: string
  es_taxRate :: string
  es_discount :: string
  es_total :: string
  es_currency :: string
  es_estimatedDays :: int

record item_input =
  in_productId :: string
  in_name :: "string option"
  in_quantity :: js_double
  in_unitPrice :: string
  in_currency :: string

record ucp_service =
  us_carts :: "(string, ucp_cart) jsmap"
  us_orders :: "(string, ucp_order) jsmap"

definition PRODUCT_CATALOG :: "(string \<times> string \<times> string) list" where
  "PRODUCT_CATALOG =
     [(''kyc-verification-credit'', ''KYC Verification Credit'', ''0.50''),
      (''kyc-enterprise-seat'', ''Enterprise Seat'', ''99.00''),
      (''kyc-api-access'', ''API Access Package'', ''499.00''),
      (''zkp-proof-credit'', ''ZKP Proof Credit'', ''0.10''),
      (''ai-screening-credit'', ''AI Screening Credit'', ''0.05'')]"

text \<open>\<open>PRODUCT_CATALOG[id]\<close>: the name and the unit price of what is found. The inherited functions
  have a name and no unit price; \<open>__proto__\<close> has neither.\<close>

definition catalog_entry :: "string \<Rightarrow> (string option \<times> string option) option" where
  "catalog_entry i =
     (case map_of PRODUCT_CATALOG i of
        Some (n, p) \<Rightarrow> Some (Some n, Some p)
      | None \<Rightarrow>
          if i \<in> set object_prototype_keys
          then Some (if i = ''__proto__'' then None else if i = ''constructor'' then Some ''Object'' else Some i, None)
          else None)"

definition price_number :: "string option \<Rightarrow> js_double" where
  "price_number p = (case p of Some t \<Rightarrow> parseFloat t | None \<Rightarrow> NotANumber)"

definition line_total :: "string option \<Rightarrow> js_double \<Rightarrow> string" where
  "line_total p q = toFixed 2 (d_times (price_number p) q)"

definition or_usd :: "string \<Rightarrow> string" where
  "or_usd c = (if c = [] then ''USD'' else c)"

subsection \<open>Operations\<close>

text \<open>\<open>name\<close> is what stands for the product's name if the catalogue does not have it.\<close>

definition line_of :: "(item_input \<Rightarrow> string) \<Rightarrow> item_input \<Rightarrow> line_item" where
  "line_of name i =
     (let (n, p) = or_default (catalog_entry (in_productId i)) (Some (name i), Some (in_unitPrice i)) in
      \<lparr>li_productId = in_productId i, li_description = n, li_quantity = in_quantity i, li_unitPrice = p,
       li_totalPrice = line_total p (in_quantity i), li_currency = or_usd (in_currency i)\<rparr>)"

definition getCheckoutOptions :: "string \<Rightarrow> string \<Rightarrow> item_input list \<Rightarrow> string \<Rightarrow> checkout_options" where
  "getCheckoutOptions checkoutId expiresAt items currency =
     (let lineItems = map (line_of in_productId) items;
          subtotal = add_amounts (map li_totalPrice lineItems);
          tax = d_times subtotal (Finite 0);
          total = d_plus subtotal tax
      in \<lparr>co_checkoutId = checkoutId, co_status = ''pending_payment'', co_lineItems = lineItems,
          co_subtotal = toFixed 2 subtotal, co_tax = toFixed 2 tax, co_total = toFixed 2 total,
          co_currency = or_usd currency, co_availableGateways = [''stripe'', ''paddle'', ''usdc''],
          co_expiresAt = expiresAt\<rparr>)"

definition more_of :: "js_double \<Rightarrow> line_item \<Rightarrow> line_item" where
  "more_of q l =
     l\<lparr>li_quantity := d_plus (li_quantity l) q,
       li_totalPrice := line_total (li_unitPrice l) (d_plus (li_quantity l) q)\<rparr>"

text \<open>The first item with the id is replaced.\<close>

fun merge_item :: "string \<Rightarrow> js_double \<Rightarrow> line_item list \<Rightarrow> line_item list option" where
  "merge_item i q [] = None"
| "merge_item i q (l # ls) =
     (if li_productId l = i then Some (more_of q l # ls) else map_option ((#) l) (merge_item i q ls))"

definition cart_name :: "item_input \<Rightarrow> string" where
  "cart_name i = (if or_default (in_name i) [] = [] then in_productId i else the (in_name i))"

definition addToCart :: "string \<Rightarrow> string \<Rightarrow> string option \<Rightarrow> item_input \<Rightarrow> ucp_service \<Rightarrow> ucp_cart \<times> ucp_service" where
  "addToCart now sessionId customerId i s =
     (let lineItem = line_of cart_name i;
          items = (case jm_get (us_carts s) sessionId of
              Some existing \<Rightarrow>
                (case merge_item (in_productId i) (in_quantity i) (ca_items existing) of
                   Some ls \<Rightarrow> ls
                 | None \<Rightarrow> ca_items existing @ [lineItem])
            | None \<Rightarrow> [lineItem]);
          cart = \<lparr>ca_sessionId = sessionId, ca_customerId = customerId, ca_items = items,
            ca_subtotal = toFixed 2 (add_amounts (map li_totalPrice items)), ca_currency = or_usd (in_currency i),
            ca_updatedAt = now\<rparr>
      in (cart, s\<lparr>us_carts := jm_set sessionId cart (us_carts s)\<rparr>))"

definition getCart :: "string \<Rightarrow> ucp_service \<Rightarrow> ucp_cart option" where
  "getCart sessionId s = jm_get (us_carts s) sessionId"

record order_input =
  oi_checkoutId :: string
  oi_paymentMethodId :: string
  oi_paymentGateway :: string
  oi_email :: string
  oi_idempotencyKey :: string

definition completeOrder :: "string \<Rightarrow> string \<Rightarrow> string \<Rightarrow> order_input \<Rightarrow> ucp_service \<Rightarrow> ucp_order \<times> ucp_service" where
  "completeOrder uuid uuid2 now input s =
     (let order = \<lparr>uo_orderId = uuid, uo_status = ''pending'',
            uo_customerId = (if oi_email input = [] then ''cust_anonymous'' else ''cust_'' @ take 8 uuid2),
            uo_lineItems = [], uo_total = ''0.00'', uo_currency = ''USD'', uo_paymentGateway = oi_paymentGateway input,
            uo_paymentStatus = ''pending'', uo_createdAt = now, uo_updatedAt = now,
            uo_invoiceUrl = Some (''https://billing.kyc-vault.com/invoices/'' @ uuid),
            uo_receiptUrl = Some (''https://billing.kyc-vault.com/receipts/'' @ uuid)\<rparr>
      in (order, s\<lparr>us_orders := jm_set uuid order (us_orders s)\<rparr>))"

text \<open>The literals 0.50 and 0.1.\<close>

definition half_dollar :: js_double where
  "half_dollar = Finite (1 / 2)"

definition one_tenth :: js_double where
  "one_tenth = to_double (1 / 10)"

definition estimate_price :: "string \<Rightarrow> js_double" where
  "estimate_price i = (case catalog_entry i of Some (_, p) \<Rightarrow> price_number p | None \<Rightarrow> half_dollar)"

definition tax_rate :: "string option \<Rightarrow> string" where
  "tax_rate country =
     (if country \<in> {Some ''DE'', Some ''FR'', Some ''GB''} then ''0.190''
      else if country = Some ''JP'' then ''0.100''
      else if country = Some ''AU'' then ''0.100''
      else if country = Some ''IN'' then ''0.180''
      else ''0.000'')"

definition estimate :: "(string \<times> js_double) list \<Rightarrow> string \<Rightarrow> string option \<Rightarrow> string option \<Rightarrow> ucp_estimate" where
  "estimate items currency country couponCode =
     (let subtotal = add_all (map (\<lambda>(i, q). d_times (estimate_price i) q) items);
          taxRate = tax_rate country;
          tax = d_times subtotal (parseFloat taxRate);
          discount = (if or_default couponCode [] \<noteq> [] then d_times subtotal one_tenth else Finite 0)
      in \<lparr>es_subtotal = toFixed 2 subtotal, es_tax = toFixed 2 tax, es_taxRate = taxRate,
          es_discount = toFixed 2 discount, es_total = toFixed 2 (d_minus (d_plus subtotal tax) discount),
          es_currency = or_usd currency, es_estimatedDays = 1\<rparr>)"

datatype order_action = ConfirmOrder | CancelOrder | RefundOrder | OrderStatus

fun action_status :: "order_action \<Rightarrow> string \<Rightarrow> string" where
  "action_status ConfirmOrder st = ''confirmed''"
| "action_status CancelOrder st = ''cancelled''"
| "action_status RefundOrder st = ''refunded''"
| "action_status OrderStatus st = st"

definition manageOrder :: "string \<Rightarrow> string \<Rightarrow> string \<Rightarrow> order_action \<Rightarrow> ucp_service \<Rightarrow> ucp_order \<times> ucp_service" where
  "manageOrder uuid now orderId action s =
     (let existing = or_default (jm_get (us_orders s) orderId)
            \<lparr>uo_orderId = orderId, uo_status = ''pending'', uo_customerId = ''cust_'' @ take 8 uuid, uo_lineItems = [],
             uo_total = ''0.00'', uo_currency = ''USD'', uo_paymentGateway = ''stripe'', uo_paymentStatus = ''pending'',
             uo_createdAt = now, uo_updatedAt = now, uo_invoiceUrl = None, uo_receiptUrl = None\<rparr>;
          status = action_status action (uo_status existing);
          order = existing\<lparr>uo_status := (if status = [] then uo_status existing else status), uo_updatedAt := now\<rparr>
      in (order, s\<lparr>us_orders := jm_set orderId order (us_orders s)\<rparr>))"

definition getOrder :: "string \<Rightarrow> ucp_service \<Rightarrow> ucp_order option" where
  "getOrder orderId s = jm_get (us_orders s) orderId"

text \<open>The operations that change the stores.\<close>

datatype ucp_event =
    AddItem string string "string option" item_input
  | CompleteOrder string string string order_input
  | ManageOrder string string string order_action

fun ucp_step :: "ucp_event \<Rightarrow> ucp_service \<Rightarrow> ucp_service" where
  "ucp_step (AddItem now sid c i) s = snd (addToCart now sid c i s)"
| "ucp_step (CompleteOrder uuid uuid2 now input) s = snd (completeOrder uuid uuid2 now input s)"
| "ucp_step (ManageOrder uuid now oid act) s = snd (manageOrder uuid now oid act s)"

definition new_ucp :: ucp_service where
  "new_ucp = \<lparr>us_carts = jm_empty, us_orders = jm_empty\<rparr>"

subsection \<open>What the stores hold\<close>

definition cart_ok :: "string \<Rightarrow> ucp_cart \<Rightarrow> bool" where
  "cart_ok sid c \<longleftrightarrow>
     ca_sessionId c = sid \<and> ca_items c \<noteq> [] \<and> distinct (map li_productId (ca_items c)) \<and>
     list_all (\<lambda>l. li_totalPrice l = line_total (li_unitPrice l) (li_quantity l)) (ca_items c) \<and>
     ca_subtotal c = toFixed 2 (add_amounts (map li_totalPrice (ca_items c)))"

definition order_ok :: "string \<Rightarrow> ucp_order \<Rightarrow> bool" where
  "order_ok oid r \<longleftrightarrow>
     uo_orderId r = oid \<and> uo_lineItems r = [] \<and> uo_total r = ''0.00'' \<and> uo_paymentStatus r = ''pending'' \<and>
     uo_status r \<in> {''pending'', ''confirmed'', ''cancelled'', ''refunded''}"

definition ucp_inv :: "ucp_service \<Rightarrow> bool" where
  "ucp_inv s \<longleftrightarrow>
     (\<forall>sid c. jm_get (us_carts s) sid = Some c \<longrightarrow> cart_ok sid c) \<and>
     (\<forall>oid r. jm_get (us_orders s) oid = Some r \<longrightarrow> order_ok oid r)"

lemma line_of_facts [simp]:
  "li_productId (line_of f i) = in_productId i"
  "li_totalPrice (line_of f i) = line_total (li_unitPrice (line_of f i)) (li_quantity (line_of f i))"
  by (simp_all add: line_of_def split: prod.splits)

lemma merge_item_facts:
  "merge_item i q ls = Some ms \<Longrightarrow> list_all (\<lambda>l. li_totalPrice l = line_total (li_unitPrice l) (li_quantity l)) ls \<Longrightarrow>
     map li_productId ms = map li_productId ls \<and>
     list_all (\<lambda>l. li_totalPrice l = line_total (li_unitPrice l) (li_quantity l)) ms"
  by (induction ls arbitrary: ms) (auto simp: more_of_def split: if_splits)

lemma merge_item_None: "merge_item i q ls = None \<longleftrightarrow> i \<notin> li_productId ` set ls"
  by (induction ls) auto

lemma addToCart_ok:
  assumes "ucp_inv s"
  shows "cart_ok sid (fst (addToCart now sid c i s))"
proof (cases "jm_get (us_carts s) sid")
  case None
  then show ?thesis by (simp add: addToCart_def Let_def cart_ok_def)
next
  case (Some e)
  with assms have e: "cart_ok sid e" by (simp add: ucp_inv_def)
  show ?thesis
  proof (cases "merge_item (in_productId i) (in_quantity i) (ca_items e)")
    case None
    have "in_productId i \<notin> li_productId ` set (ca_items e)" using None by (simp add: merge_item_None)
    then show ?thesis using Some e None by (auto simp: addToCart_def Let_def cart_ok_def)
  next
    case (Some ms)
    have "map li_productId ms = map li_productId (ca_items e)"
      "list_all (\<lambda>l. li_totalPrice l = line_total (li_unitPrice l) (li_quantity l)) ms"
      using merge_item_facts [OF Some] e by (auto simp: cart_ok_def)
    moreover from this(1) have "ms \<noteq> []" using e by (auto simp: cart_ok_def)
    ultimately show ?thesis using \<open>jm_get (us_carts s) sid = Some e\<close> Some e by (simp add: addToCart_def Let_def cart_ok_def)
  qed
qed

lemma manageOrder_ok:
  assumes "ucp_inv s"
  shows "order_ok oid (fst (manageOrder uuid now oid act s))"
proof -
  have "order_ok oid r" if "jm_get (us_orders s) oid = Some r" for r using assms that by (simp add: ucp_inv_def)
  then show ?thesis
    by (cases "jm_get (us_orders s) oid"; cases act) (auto simp: manageOrder_def Let_def order_ok_def)
qed

lemma ucp_inv_step: "ucp_inv s \<Longrightarrow> ucp_inv (ucp_step e s)"
proof (cases e)
  case (AddItem now sid c i)
  assume "ucp_inv s"
  with addToCart_ok [OF this, of sid now c i] show ?thesis
    unfolding AddItem by (auto simp: ucp_inv_def addToCart_def Let_def split: if_splits)
next
  case (CompleteOrder uuid uuid2 now input)
  assume "ucp_inv s"
  then show ?thesis
    unfolding CompleteOrder by (auto simp: ucp_inv_def completeOrder_def Let_def order_ok_def split: if_splits)
next
  case (ManageOrder uuid now oid act)
  assume "ucp_inv s"
  with manageOrder_ok [OF this, of oid uuid now act] show ?thesis
    unfolding ManageOrder by (auto simp: ucp_inv_def manageOrder_def Let_def split: if_splits)
qed

interpretation ucp: invariant_machine ucp_step "\<lambda>_ _. True" ucp_inv
  by unfold_locales (rule ucp_inv_step)

lemma ucp_reachable: "ucp_inv (run_events ucp_step es new_ucp)"
  by (rule ucp.inv_run) (simp_all add: ucp_inv_def new_ucp_def)

subsection \<open>Amounts\<close>

text \<open>A line whose price is in cents and whose quantity is a positive integer.\<close>

definition cents_line :: "nat \<times> nat \<Rightarrow> line_item \<Rightarrow> bool" where
  "cents_line cq l \<longleftrightarrow>
     li_unitPrice l = Some (fixed_text 2 (fst cq)) \<and> li_quantity l = Finite (of_nat (snd cq)) \<and> 0 < snd cq"

definition cents_of :: "(nat \<times> nat) list \<Rightarrow> nat" where
  "cents_of cqs = sum_list (map (\<lambda>(c, q). c * q) cqs)"

lemma cents_of_member: "(c, q) \<in> set cqs \<Longrightarrow> cents_of cqs \<le> m \<Longrightarrow> c * q \<le> m"
  using cents_member [of "c * q" "map (\<lambda>(c, q). c * q) cqs"] by (force simp: cents_of_def)

lemma cents_line_total:
  "cents_line (c, q) l \<Longrightarrow> c * q \<le> 100000000000 \<Longrightarrow>
   line_total (li_unitPrice l) (li_quantity l) = fixed_text 2 (c * q)"
  using toFixed_price_cents [of c q] by (simp add: cents_line_def line_total_def price_number_def)

lemma cents_lines_totals:
  assumes "list_all2 cents_line cqs ls" "cents_of cqs \<le> 100000000000"
    and "list_all (\<lambda>l. li_totalPrice l = line_total (li_unitPrice l) (li_quantity l)) ls"
  shows "map li_totalPrice ls = map (fixed_text 2) (map (\<lambda>(c, q). c * q) cqs)"
  using assms
proof (induction rule: list_all2_induct)
  case (Cons cq cqs l ls)
  then have "fst cq * snd cq \<le> 100000000000" "cents_of cqs \<le> 100000000000" by (auto simp: cents_of_def split: prod.splits)
  then show ?case using Cons cents_line_total [of "fst cq" "snd cq" l] by (simp add: case_prod_beta)
qed simp

lemma cents_lines_sum:
  assumes "list_all2 cents_line cqs ls" "cents_of cqs \<le> 100000000000" "length cqs \<le> 10000"
    and "list_all (\<lambda>l. li_totalPrice l = line_total (li_unitPrice l) (li_quantity l)) ls"
  shows "near (1 / 500) (add_amounts (map li_totalPrice ls)) (of_nat (cents_of cqs) / 100)"
  unfolding cents_lines_totals [OF assms(1,2,4)] cents_of_def
  by (rule add_amounts_cents) (use assms(2,3) in \<open>simp_all add: cents_of_def\<close>)

subsection \<open>Properties\<close>


definition two_seats :: item_input where
  "two_seats = \<lparr>in_productId = ''kyc-enterprise-seat'', in_name = None, in_quantity = Finite 2, in_unitPrice = ''1'',
     in_currency = ''USD''\<rparr>"

lemma two_seats_line: "line_of f two_seats =
    \<lparr>li_productId = ''kyc-enterprise-seat'', li_description = Some ''Enterprise Seat'', li_quantity = Finite 2,
     li_unitPrice = Some ''99.00'', li_totalPrice = line_total (Some ''99.00'') (Finite 2), li_currency = ''USD''\<rparr>"
  by (simp add: line_of_def two_seats_def catalog_entry_def PRODUCT_CATALOG_def or_usd_def)

lemma seat_price: "''99.00'' = fixed_text 2 9900"
  by (simp add: fixed_text_def pad_digits_def show_nat.simps) code_simp


lemma checkout_amounts:
  assumes "list_all2 cents_line cqs (map (line_of in_productId) items)" "cents_of cqs \<le> 100000000000" "length cqs \<le> 10000"
  shows "co_tax (getCheckoutOptions i t items cur) = ''0.00'' \<and>
    co_subtotal (getCheckoutOptions i t items cur) = fixed_text 2 (cents_of cqs) \<and>
    co_total (getCheckoutOptions i t items cur) = fixed_text 2 (cents_of cqs)"
proof -
  define x where "x = add_amounts (map li_totalPrice (map (line_of in_productId) items))"
  have x: "near (1 / 500) x (of_nat (cents_of cqs) / 100)"
    unfolding x_def by (rule cents_lines_sum [OF assms]) (simp add: list_all_iff)
  note z = near_zero [OF x cents_bound [OF assms(2)]]
  have "toFixed 2 x = fixed_text 2 (cents_of cqs)" "toFixed 2 (d_plus x (Finite 0)) = fixed_text 2 (cents_of cqs)"
    using toFixed_near [OF near_weaken [OF x] assms(2)] toFixed_near [OF near_weaken [OF z(1)] assms(2)] by simp_all
  then show ?thesis by (simp add: getCheckoutOptions_def Let_def z(3) zero_text del: map_map flip: x_def)
qed

text \<open>a checkout charges no tax, whatever the customer's country, and its total is the exact
  total of its lines if their unit prices are amounts in cents.\<close>

theorem checkout_total_exact_and_untaxed:
  assumes "list_all2 cents_line cqs (map (line_of in_productId) items)" "cents_of cqs \<le> 100000000000" "length cqs \<le> 10000"
  shows "co_tax (getCheckoutOptions i t items cur) = ''0.00'' \<and>
    co_total (getCheckoutOptions i t items cur) = fixed_text 2 (cents_of cqs)"
  using checkout_amounts [OF assms] by blast

theorem checkout_total_exact_and_untaxed_witness:
  "co_total (getCheckoutOptions ''c'' ''t'' [two_seats, two_seats] ''USD'') = fixed_text 2 39600"
proof -
  have "list_all2 cents_line [(9900, 2), (9900, 2)] (map (line_of in_productId) [two_seats, two_seats])"
    by (simp add: two_seats_line cents_line_def seat_price)
  from checkout_total_exact_and_untaxed [OF this] show ?thesis by (simp add: cents_of_def)
qed

lemma estimate_price_line:
  "cents_line (c, q) (line_of f i) \<Longrightarrow> catalog_entry (in_productId i) \<noteq> None \<Longrightarrow> c * q \<le> 100000000000 \<Longrightarrow>
   near (3 / 10000000) (d_times (estimate_price (in_productId i)) (in_quantity i)) (of_nat (c * q) / 100)"
  using price_times_cents [of c q]
  by (auto simp: cents_line_def line_of_def estimate_price_def price_number_def split: prod.splits)

text \<open>for products of the catalogue, without a coupon and for a country that is not taxed, the
  estimate and the checkout give the same total, although the checkout rounds each line and the
  estimate only the sum.\<close>

theorem estimate_agrees_with_checkout:
  assumes "list_all2 cents_line cqs (map (line_of in_productId) items)" "cents_of cqs \<le> 100000000000" "length cqs \<le> 1000"
    and "list_all (\<lambda>i. catalog_entry (in_productId i) \<noteq> None) items" "tax_rate country = ''0.000''"
  shows "es_total (estimate (map (\<lambda>i. (in_productId i, in_quantity i)) items) cur country None) =
    co_total (getCheckoutOptions ck t items cur)"
proof -
  define xs where "xs = map (\<lambda>i. d_times (estimate_price (in_productId i)) (in_quantity i)) items"
  have len: "length items = length cqs" using assms(1) by (auto dest: list_all2_lengthD)
  have one: "near (3 / 10000000) (xs ! n) (of_nat (case cqs ! n of (c, q) \<Rightarrow> c * q) / 100)" if n: "n < length cqs" for n
  proof -
    have "cents_line (cqs ! n) (line_of in_productId (items ! n))" using list_all2_nthD [OF assms(1), of n] n len by simp
    moreover have "catalog_entry (in_productId (items ! n)) \<noteq> None" using assms(4) n len by (auto simp: list_all_iff)
    moreover have "fst (cqs ! n) * snd (cqs ! n) \<le> 100000000000"
      using cents_of_member [of "fst (cqs ! n)" "snd (cqs ! n)" cqs] n assms(2) by simp
    ultimately show ?thesis
      using estimate_price_line [of "fst (cqs ! n)" "snd (cqs ! n)" _ "items ! n"] n len by (simp add: xs_def case_prod_beta)
  qed
  have near: "list_all2 (near (3 / 10000000)) xs (map (\<lambda>n. of_nat n / 100) (map (\<lambda>(c, q). c * q) cqs))"
    unfolding list_all2_conv_all_nth using one len by (simp add: xs_def)
  have "length xs \<le> 1000" using assms(3) len by (simp add: xs_def)
  then have "of_nat (length xs) \<le> (of_nat 1000 :: rat)" by (simp only: of_nat_le_iff)
  then have count: "of_nat (length xs) * (3 / 10000000 + 1 / 10000000) \<le> (1 / 500 :: rat)" by simp
  have sum: "sum_list (map (\<lambda>n. of_nat n / 100) (map (\<lambda>(c, q). c * q) cqs)) = (of_nat (cents_of cqs) / 100 :: rat)"
    by (simp only: sum_list_cents cents_of_def)
  have "near (of_nat (length xs) * (3 / 10000000 + 1 / 10000000)) (add_all xs) (of_nat (cents_of cqs) / 100)"
    using add_all_near [OF near _ _ count] cents_bound [OF assms(2)] unfolding sum by fastforce
  then have x: "near (1 / 500) (add_all xs) (of_nat (cents_of cqs) / 100)" by (rule near_weaken [OF _ count])
  note z = near_zero [OF x cents_bound [OF assms(2)]]
  note z2 = near_zero [OF z(1) cents_bound [OF assms(2)]]
  have rate: "parseFloat ''0.000'' = Finite 0"
    by (simp add: parseFloat_def parse_unsigned_def js_space_def js_digit_def digits_nat_def digits_val_def parse_exponent_def
      to_double_def nearest_def)
  have "toFixed 2 (d_minus (d_plus (add_all xs) (Finite 0)) (Finite 0)) = fixed_text 2 (cents_of cqs)"
    by (rule toFixed_near [OF near_weaken [OF z2(2)] assms(2)]) simp_all
  moreover have "co_total (getCheckoutOptions ck t items cur) = fixed_text 2 (cents_of cqs)"
    using checkout_amounts [OF assms(1,2)] assms(3) by simp
  ultimately show ?thesis
    using z(3) by (simp add: estimate_def Let_def assms(5) rate o_def case_prod_beta xs_def)
qed

theorem estimate_agrees_with_checkout_witness:
  "es_total (estimate [(''kyc-enterprise-seat'', Finite 2)] ''USD'' (Some ''US'') None) =
   co_total (getCheckoutOptions ''c'' ''t'' [two_seats] ''USD'')"
proof -
  have "list_all2 cents_line [(9900, 2)] (map (line_of in_productId) [two_seats])"
    by (simp add: two_seats_line cents_line_def seat_price)
  from estimate_agrees_with_checkout [OF this, of "Some ''US''" "''USD''" "''c''" "''t''"] show ?thesis
    by (simp add: cents_of_def two_seats_def tax_rate_def catalog_entry_def PRODUCT_CATALOG_def)
qed

text \<open>whatever is ordered, an order never has lines or an amount: completing a checkout does not
  read the checkout or the cart, and every order of any run stays at a total of 0.00 and unpaid.\<close>

theorem orders_carry_nothing:
  assumes "getOrder oid (run_events ucp_step es new_ucp) = Some r"
  shows "uo_orderId r = oid \<and> uo_lineItems r = [] \<and> uo_total r = ''0.00'' \<and> uo_paymentStatus r = ''pending'' \<and>
    uo_status r \<in> {''pending'', ''confirmed'', ''cancelled'', ''refunded''}"
proof -
  have "order_ok oid r" using ucp_reachable [of es] assms by (simp add: ucp_inv_def getOrder_def)
  then show ?thesis by (simp add: order_ok_def)
qed

definition some_order :: order_input where
  "some_order = \<lparr>oi_checkoutId = ''c'', oi_paymentMethodId = ''pm'', oi_paymentGateway = ''stripe'', oi_email = ''a@b'',
     oi_idempotencyKey = ''k''\<rparr>"

theorem orders_carry_nothing_witness:
  "\<exists>r. getOrder ''o'' (run_events ucp_step [AddItem ''t'' ''s'' None two_seats, CompleteOrder ''o'' ''u'' ''t'' some_order] new_ucp) = Some r
     \<and> uo_total r = ''0.00''"
proof -
  obtain r where r: "getOrder ''o'' (run_events ucp_step [AddItem ''t'' ''s'' None two_seats, CompleteOrder ''o'' ''u'' ''t'' some_order] new_ucp) = Some r"
    by (simp add: getOrder_def completeOrder_def addToCart_def Let_def)
  from orders_carry_nothing [OF r] r show ?thesis by blast
qed

text \<open>an order has no life cycle: every action is carried out on an order of any status, also on
  one that does not exist, which is then stored: a refunded order can be confirmed.\<close>

theorem order_actions_unrestricted:
  "uo_status (fst (manageOrder uuid now oid ConfirmOrder s)) = ''confirmed'' \<and>
   uo_status (fst (manageOrder uuid now oid RefundOrder s)) = ''refunded'' \<and>
   uo_status (fst (manageOrder uuid now oid CancelOrder s)) = ''cancelled'' \<and>
   getOrder oid (snd (manageOrder uuid now oid act s)) = Some (fst (manageOrder uuid now oid act s))"
  by (cases act) (simp_all add: manageOrder_def Let_def getOrder_def)

text \<open>the idempotency key of an order is not looked at: completing the same checkout twice with
  the same key stores two orders.\<close>

theorem order_completed_twice:
  assumes "uuid1 \<noteq> uuid2"
  shows "getOrder uuid1 (ucp_step (CompleteOrder uuid2 v t2 input) (ucp_step (CompleteOrder uuid1 u t1 input) s)) \<noteq> None \<and>
    getOrder uuid2 (ucp_step (CompleteOrder uuid2 v t2 input) (ucp_step (CompleteOrder uuid1 u t1 input) s)) \<noteq> None"
  using assms by (simp add: completeOrder_def Let_def getOrder_def)

theorem order_completed_twice_witness:
  "getOrder ''a'' (ucp_step (CompleteOrder ''b'' ''v'' ''t'' some_order) (ucp_step (CompleteOrder ''a'' ''u'' ''t'' some_order) new_ucp)) \<noteq> None"
  using order_completed_twice [of "''a''" "''b''"] by simp

text \<open>a product id that every object inherits, such as constructor, is found in the catalogue
  without a price: its line costs NaN, and so does every cart that contains it from then on.\<close>

theorem inherited_product_poisons_cart:
  assumes "getCart sid (run_events ucp_step es new_ucp) = Some c" and "l \<in> set (ca_items c)" "li_unitPrice l = None"
  shows "li_totalPrice l = ''NaN'' \<and> ca_subtotal c = ''NaN'' \<and>
    li_unitPrice (line_of cart_name (i\<lparr>in_productId := ''constructor''\<rparr>)) = None"
proof -
  have ok: "cart_ok sid c" using ucp_reachable [of es] assms(1) by (simp add: ucp_inv_def getCart_def)
  then have "li_totalPrice l = line_total None (li_quantity l)" using assms(2,3) by (auto simp: cart_ok_def list_all_iff)
  then have total: "li_totalPrice l = ''NaN''" by (simp add: line_total_def price_number_def)
  then have "''NaN'' \<in> set (map li_totalPrice (ca_items c))" using assms(2) by force
  then have "ca_subtotal c = ''NaN''" using ok add_amounts_NaN by (simp add: cart_ok_def)
  then show ?thesis
    using total by (simp add: line_of_def catalog_entry_def PRODUCT_CATALOG_def object_prototype_keys_def)
qed

theorem inherited_product_poisons_cart_witness:
  "\<exists>c. getCart ''s'' (run_events ucp_step [AddItem ''t'' ''s'' None (two_seats\<lparr>in_productId := ''constructor''\<rparr>)] new_ucp) = Some c
     \<and> ca_subtotal c = ''NaN''"
proof -
  define i where "i = two_seats\<lparr>in_productId := ''constructor''\<rparr>"
  obtain c where c: "getCart ''s'' (run_events ucp_step [AddItem ''t'' ''s'' None i] new_ucp) = Some c"
    "ca_items c = [line_of cart_name i]"
    by (simp add: getCart_def addToCart_def new_ucp_def jm_get_def jm_set_def jm_empty_def Let_def)
  have "li_unitPrice (line_of cart_name i) = None"
    by (simp add: i_def line_of_def catalog_entry_def PRODUCT_CATALOG_def object_prototype_keys_def two_seats_def)
  from inherited_product_poisons_cart [OF c(1) _ this, of two_seats] c show ?thesis by (auto simp: i_def)
qed

text \<open>a price with three digits can be charged a cent too little: the double next to 1.005 lies
  below it, so one unit costs 1.00.\<close>

theorem half_cent_lost: "line_total (Some ''1.005'') (Finite 1) = ''1.00''"
proof -
  have parse: "parseFloat ''1.005'' = to_double (201 / 200)"
    by (simp add: parseFloat_def parse_unsigned_def js_space_def js_digit_def digits_nat_def digits_val_def parse_exponent_def
      power_int_minus_divide)
  have x: "nearest (201 / 200) = 1131529406376837 / 1125899906842624"
    using nearest_eqI [of 0 "201 / 200" 4526117625507348] by (simp add: power_int_minus_divide)
  have y: "nearest (1131529406376837 / 1125899906842624) = 1131529406376837 / 1125899906842624"
    using nearest_eqI [of 0 "1131529406376837 / 1125899906842624" 4526117625507348] by (simp add: power_int_minus_divide)
  have "to_double (201 / 200) = Finite (1131529406376837 / 1125899906842624)"
    "to_double (1131529406376837 / 1125899906842624) = Finite (1131529406376837 / 1125899906842624)"
    by (simp_all add: to_double_def Let_def x y)
  then have "d_times (parseFloat ''1.005'') (Finite 1) = Finite (1131529406376837 / 1125899906842624)" by (simp add: parse)
  moreover have "toFixed 2 (Finite (1131529406376837 / 1125899906842624)) = fixed_text 2 100" by (rule toFixed_eqI) simp_all
  moreover have "fixed_text 2 100 = ''1.00''" by (simp add: fixed_text_def pad_digits_def show_nat.simps) code_simp
  ultimately show ?thesis by (simp only: line_total_def price_number_def option.case)
qed

end
