(* ===== verification/BillingService.thy ===== *)
theory BillingService
  imports Numbers
begin

section \<open>Usage, invoices and credits\<close>

text \<open>
  packages/api/src/services/billing_service.ts. The service keeps, per customer, arrays of usage
  records and of invoices and a balance of credits. Amounts are computed as in the theory Numbers. Fresh
  UUIDs and time stamps, as texts, are arguments. The lists a reader is given are values: that getUsage
  without filters hands out the stored array itself is not modelled.
\<close>

subsection \<open>Data\<close>

record usage_record =
  ur_recordId :: string
  ur_customerId :: string
  ur_meterName :: string
  ur_quantity :: js_double
  ur_timestamp :: string
  ur_billedAmount :: string

record invoice_item =
  ii_description :: string
  ii_quantity :: js_double
  ii_unitPrice :: string
  ii_total :: string

record billing_invoice =
  bi_invoiceId :: string
  bi_customerId :: string
  bi_status :: string
  bi_periodStart :: string
  bi_periodEnd :: string
  bi_lineItems :: "invoice_item list"
  bi_subtotal :: string
  bi_tax :: string
  bi_total :: string
  bi_currency :: string
  bi_dueDate :: string
  bi_pdfUrl :: string

record credit_balance =
  cb_available :: js_double
  cb_pending :: js_double
  cb_used :: js_double

record billing_tier =
  bt_id :: string
  bt_name :: string
  bt_monthlyPrice :: string
  bt_verifications :: int
  bt_apiCallsPerMonth :: int
  bt_storageGb :: int
  bt_features :: "string list"

record billing_service =
  bs_usage :: "(string, usage_record list) jsmap"
  bs_invoices :: "(string, billing_invoice list) jsmap"
  bs_credits :: "(string, credit_balance) jsmap"

definition RATES :: "(string \<times> string) list" where
  "RATES =
     [(''api_calls'', ''0.0001''), (''verifications'', ''0.50''), (''ai_inferences'', ''0.05''),
      (''storage_bytes'', ''0.000001''), (''compute_seconds'', ''0.0001''), (''zkp_proofs'', ''0.10'')]"

definition TIERS :: "billing_tier list" where
  "TIERS =
     [\<lparr>bt_id = ''free'', bt_name = ''Free'', bt_monthlyPrice = ''0'', bt_verifications = 100, bt_apiCallsPerMonth = 1000,
       bt_storageGb = 1, bt_features = [''basic_kyc'', ''email_support'']\<rparr>,
      \<lparr>bt_id = ''starter'', bt_name = ''Starter'', bt_monthlyPrice = ''99'', bt_verifications = 1000,
       bt_apiCallsPerMonth = 50000, bt_storageGb = 10, bt_features = [''basic_kyc'', ''enhanced_kyc'', ''email_support'']\<rparr>,
      \<lparr>bt_id = ''professional'', bt_name = ''Professional'', bt_monthlyPrice = ''499'', bt_verifications = 10000,
       bt_apiCallsPerMonth = 500000, bt_storageGb = 100,
       bt_features = [''basic_kyc'', ''enhanced_kyc'', ''enterprise_kyc'', ''ai_verification'', ''priority_support'']\<rparr>,
      \<lparr>bt_id = ''enterprise'', bt_name = ''Enterprise'', bt_monthlyPrice = ''custom'', bt_verifications = -1,
       bt_apiCallsPerMonth = -1, bt_storageGb = -1,
       bt_features = [''all_features'', ''dedicated_support'', ''custom_sla'', ''on_premise'']\<rparr>]"

subsection \<open>Operations\<close>

text \<open>\<open>parseFloat(RATES[name] || '0.00')\<close>: an inherited function or object is no number.\<close>

definition rate_number :: "string \<Rightarrow> js_double" where
  "rate_number m =
     (case map_of RATES m of
        Some t \<Rightarrow> parseFloat t
      | None \<Rightarrow> if m \<in> set object_prototype_keys then NotANumber else parseFloat ''0.00'')"

definition recordUsage :: "string \<Rightarrow> string \<Rightarrow> string \<Rightarrow> string \<Rightarrow> js_double \<Rightarrow> billing_service \<Rightarrow> usage_record \<times> billing_service" where
  "recordUsage uuid now customerId meterName quantity s =
     (let record = \<lparr>ur_recordId = uuid, ur_customerId = customerId, ur_meterName = meterName, ur_quantity = quantity,
            ur_timestamp = now, ur_billedAmount = toFixed 6 (d_times (rate_number meterName) quantity)\<rparr>;
          records = or_default (jm_get (bs_usage s) customerId) []
      in (record, s\<lparr>bs_usage := jm_set customerId (records @ [record]) (bs_usage s)\<rparr>))"

definition getUsage ::
    "string \<Rightarrow> string option \<Rightarrow> string option \<Rightarrow> string option \<Rightarrow> billing_service \<Rightarrow> usage_record list" where
  "getUsage customerId startDate endDate meterName s =
     (let r0 = or_default (jm_get (bs_usage s) customerId) [];
          r1 = (if or_default startDate [] = [] then r0 else filter (\<lambda>r. js_str_le (the startDate) (ur_timestamp r)) r0);
          r2 = (if or_default endDate [] = [] then r1 else filter (\<lambda>r. js_str_le (ur_timestamp r) (the endDate)) r1)
      in if or_default meterName [] = [] then r2 else filter (\<lambda>r. ur_meterName r = the meterName) r2)"

definition createInvoice ::
    "string \<Rightarrow> string \<Rightarrow> string \<Rightarrow> string \<Rightarrow> string \<Rightarrow> invoice_item list \<Rightarrow> billing_service \<Rightarrow>
     billing_invoice \<times> billing_service" where
  "createInvoice uuid dueDate customerId periodStart periodEnd items s =
     (let invoiceId = ''INV-'' @ to_upper (take 8 uuid);
          subtotal = add_amounts (map ii_total items);
          tax = d_times subtotal (Finite 0);
          total = d_plus subtotal tax;
          invoice = \<lparr>bi_invoiceId = invoiceId, bi_customerId = customerId, bi_status = ''pending'',
            bi_periodStart = periodStart, bi_periodEnd = periodEnd, bi_lineItems = items,
            bi_subtotal = toFixed 2 subtotal, bi_tax = toFixed 2 tax, bi_total = toFixed 2 total, bi_currency = ''USD'',
            bi_dueDate = dueDate, bi_pdfUrl = ''https://billing.kyc-vault.com/invoices/'' @ invoiceId @ ''.pdf''\<rparr>;
          invoices = or_default (jm_get (bs_invoices s) customerId) []
      in (invoice, s\<lparr>bs_invoices := jm_set customerId (invoices @ [invoice]) (bs_invoices s)\<rparr>))"

definition getInvoices :: "string \<Rightarrow> billing_service \<Rightarrow> billing_invoice list" where
  "getInvoices customerId s = or_default (jm_get (bs_invoices s) customerId) []"

definition no_credits :: credit_balance where
  "no_credits = \<lparr>cb_available = Finite 0, cb_pending = Finite 0, cb_used = Finite 0\<rparr>"

definition addCredits :: "string \<Rightarrow> string \<Rightarrow> string \<Rightarrow> string \<Rightarrow> billing_service \<Rightarrow> (string \<times> string) \<times> billing_service" where
  "addCredits uuid customerId amount idempotencyKey s =
     (let balances = or_default (jm_get (bs_credits s) customerId) no_credits;
          new = balances\<lparr>cb_available := d_plus (cb_available balances) (parseFloat amount)\<rparr>
      in ((''CR-'' @ to_upper (take 8 uuid), ''applied''), s\<lparr>bs_credits := jm_set customerId new (bs_credits s)\<rparr>))"

text \<open>The available, pending and used credits, as texts; the currency is always USD.\<close>

definition getCreditBalance :: "string \<Rightarrow> billing_service \<Rightarrow> string \<times> string \<times> string \<times> string" where
  "getCreditBalance customerId s =
     (let b = or_default (jm_get (bs_credits s) customerId) no_credits
      in (toFixed 2 (cb_available b), toFixed 2 (cb_pending b), toFixed 2 (cb_used b), ''USD''))"

definition getTiers :: "billing_tier list" where
  "getTiers = TIERS"

definition getTier :: "string \<Rightarrow> billing_tier option" where
  "getTier i = find (\<lambda>t. bt_id t = i) TIERS"

definition new_billing :: billing_service where
  "new_billing = \<lparr>bs_usage = jm_empty, bs_invoices = jm_empty, bs_credits = jm_empty\<rparr>"

datatype billing_event =
    RecordUsage string string string string js_double
  | CreateInvoice string string string string string "invoice_item list"
  | AddCredits string string string string

fun billing_step :: "billing_event \<Rightarrow> billing_service \<Rightarrow> billing_service" where
  "billing_step (RecordUsage u t c m q) s = snd (recordUsage u t c m q s)"
| "billing_step (CreateInvoice u d c p1 p2 is) s = snd (createInvoice u d c p1 p2 is s)"
| "billing_step (AddCredits u c a k) s = snd (addCredits u c a k s)"

subsection \<open>The ledger the service keeps\<close>

text \<open>Abstractly the service is one ledger: all usage, all invoices and all credited amounts, each in the
  order of the calls.\<close>

record ledger =
  lg_usage :: "usage_record list"
  lg_invoices :: "billing_invoice list"
  lg_credits :: "(string \<times> string) list"

fun ledger_step :: "billing_event \<Rightarrow> ledger \<Rightarrow> ledger" where
  "ledger_step (RecordUsage u t c m q) l =
     l\<lparr>lg_usage := lg_usage l @ [\<lparr>ur_recordId = u, ur_customerId = c, ur_meterName = m, ur_quantity = q,
        ur_timestamp = t, ur_billedAmount = toFixed 6 (d_times (rate_number m) q)\<rparr>]\<rparr>"
| "ledger_step (CreateInvoice u d c p1 p2 is) l =
     l\<lparr>lg_invoices := lg_invoices l @ [fst (createInvoice u d c p1 p2 is new_billing)]\<rparr>"
| "ledger_step (AddCredits u c a k) l = l\<lparr>lg_credits := lg_credits l @ [(c, a)]\<rparr>"

definition empty_ledger :: ledger where
  "empty_ledger = \<lparr>lg_usage = [], lg_invoices = [], lg_credits = []\<rparr>"

definition amounts_of :: "string \<Rightarrow> ledger \<Rightarrow> string list" where
  "amounts_of c l = map snd (filter (\<lambda>e. fst e = c) (lg_credits l))"

definition billing_rel :: "ledger \<Rightarrow> billing_service \<Rightarrow> bool" where
  "billing_rel l s \<longleftrightarrow> (\<forall>c.
     or_default (jm_get (bs_usage s) c) [] = filter (\<lambda>r. ur_customerId r = c) (lg_usage l) \<and>
     getInvoices c s = filter (\<lambda>i. bi_customerId i = c) (lg_invoices l) \<and>
     or_default (jm_get (bs_credits s) c) no_credits = no_credits\<lparr>cb_available := add_amounts (amounts_of c l)\<rparr>)"

lemma createInvoice_any: "fst (createInvoice u d c p1 p2 is s) = fst (createInvoice u d c p1 p2 is s')"
  by (simp add: createInvoice_def Let_def)

lemma createInvoice_store:
  "snd (createInvoice u d c p1 p2 is s) =
     s\<lparr>bs_invoices := jm_set c (getInvoices c s @ [fst (createInvoice u d c p1 p2 is s)]) (bs_invoices s)\<rparr>"
  by (simp add: createInvoice_def getInvoices_def Let_def)

lemma createInvoice_customer [simp]: "bi_customerId (fst (createInvoice u d c p1 p2 is s)) = c"
  by (simp add: createInvoice_def Let_def)

lemma billing_rel_step: "billing_rel l s \<Longrightarrow> billing_rel (ledger_step e l) (billing_step e s)"
proof (cases e)
  case (RecordUsage u t c m q)
  assume "billing_rel l s"
  then show ?thesis
    unfolding RecordUsage billing_rel_def by (simp add: recordUsage_def Let_def getInvoices_def amounts_of_def)
next
  case (CreateInvoice u d c p1 p2 items)
  assume "billing_rel l s"
  then show ?thesis
    unfolding CreateInvoice billing_rel_def
    by (simp add: createInvoice_store createInvoice_any [of u d c p1 p2 items s new_billing] amounts_of_def)
      (simp add: getInvoices_def)
next
  case (AddCredits u c a k)
  assume "billing_rel l s"
  then show ?thesis
    unfolding AddCredits billing_rel_def
    by (simp add: addCredits_def Let_def getInvoices_def amounts_of_def add_amounts_def no_credits_def)
qed

interpretation billing: simulation ledger_step billing_step "\<lambda>_ _. True" billing_rel
  by unfold_locales (rule billing_rel_step)

lemma billing_reachable: "billing_rel (run_events ledger_step es empty_ledger) (run_events billing_step es new_billing)"
  by (rule billing.rel_run)
    (simp_all add: billing_rel_def empty_ledger_def new_billing_def jm_empty_def jm_get_def getInvoices_def amounts_of_def
      add_amounts_def no_credits_def)

subsection \<open>Properties\<close>

text \<open>C32: over any run of calls the service refines one ledger: what a customer's usage and invoices
  list, in order, is the ledger's part of that customer, and the credits available are the sum of all amounts
  credited; nothing is ever pending or used.\<close>

theorem billing_refines_ledger:
  "getUsage c None None None (run_events billing_step es new_billing) =
     filter (\<lambda>r. ur_customerId r = c) (lg_usage (run_events ledger_step es empty_ledger)) \<and>
   getInvoices c (run_events billing_step es new_billing) =
     filter (\<lambda>i. bi_customerId i = c) (lg_invoices (run_events ledger_step es empty_ledger)) \<and>
   getCreditBalance c (run_events billing_step es new_billing) =
     (toFixed 2 (add_amounts (amounts_of c (run_events ledger_step es empty_ledger))), ''0.00'', ''0.00'', ''USD'')"
  using billing_reachable [of es]
  by (simp add: billing_rel_def getUsage_def getCreditBalance_def Let_def no_credits_def zero_text)

text \<open>usage is billed exactly: at a rate with at most six digits and for a whole quantity, the billed
  amount, printed with six digits, is the true product up to a billion.\<close>

theorem usage_billed_exactly:
  assumes "map_of RATES m = Some (fixed_text k c)" "0 < k" "k \<le> 6" "0 < q" "c * q \<le> 1000000000 * 10 ^ k"
  shows "ur_billedAmount (fst (recordUsage u t cust m (Finite (of_nat q)) s)) = fixed_text 6 (c * q * 10 ^ (6 - k))"
proof -
  have "of_nat (c * q) \<le> (of_nat (1000000000 * 10 ^ k) :: rat)" using assms(5) by (simp only: of_nat_le_iff)
  then have exact: "of_nat (c * q) / 10 ^ k \<le> (1000000000 :: rat)" by (simp add: divide_le_eq)
  define N where "N = (of_nat (c * q) / 10 ^ k :: rat)"
  from price_times [OF exact assms(3,2,4)] obtain x
    where x: "d_times (parseFloat (fixed_text k c)) (Finite (of_nat q)) = Finite x" "0 \<le> x" "\<bar>x - N\<bar> \<le> 3 / 10000000"
    unfolding near_def N_def by blast
  have six: "(10 :: rat) ^ 6 = 10 ^ k * 10 ^ (6 - k)" using assms(3) by (simp flip: power_add)
  have "of_nat (c * q * 10 ^ (6 - k)) = (of_nat (c * q) * 10 ^ (6 - k) :: rat)" by simp
  also have "\<dots> = N * (10 ^ k * 10 ^ (6 - k))" by (simp add: N_def)
  also have "\<dots> = N * 1000000" unfolding six [symmetric] by simp
  finally have cents: "of_nat (c * q * 10 ^ (6 - k)) = N * 1000000" .
  have "\<bar>x * 1000000 - N * 1000000\<bar> \<le> 3 / 10" by (rule near_I) (use near_D [OF x(3)] in linarith)+
  moreover have "x < 10 ^ 21" using near_D [OF x(3)] exact by (simp add: N_def)
  ultimately have "toFixed 6 (Finite x) = fixed_text 6 (c * q * 10 ^ (6 - k))"
    by (intro toFixed_eqI x(2)) (simp_all only: cents, simp_all)
  then show ?thesis by (simp only: recordUsage_def Let_def fst_conv usage_record.simps rate_number_def assms(1) option.case x(1))
qed

theorem usage_billed_exactly_witness:
  "ur_billedAmount (fst (recordUsage ''u'' ''t'' ''c'' ''api_calls'' (Finite 1500) new_billing)) = fixed_text 6 150000"
proof -
  have "''0.0001'' = fixed_text 4 1" by (simp add: fixed_text_def pad_digits_def show_nat.simps) code_simp
  then have "map_of RATES ''api_calls'' = Some (fixed_text 4 1)" by (simp add: RATES_def)
  from usage_billed_exactly [OF this, of 1500] show ?thesis by simp
qed

text \<open>credits given in cents are shown exactly, but a repeated call counts again: its
  idempotency key is not looked at.\<close>

theorem credits_exact_and_repeated:
  assumes "amounts_of c (run_events ledger_step es empty_ledger) = map (fixed_text 2) ns"
    and "sum_list ns + 2 * n \<le> 100000000000" "length ns < 9999"
  shows "fst (getCreditBalance c (run_events billing_step es new_billing)) = fixed_text 2 (sum_list ns) \<and>
    fst (getCreditBalance c (run_events billing_step
      (es @ [AddCredits u c (fixed_text 2 n) key, AddCredits v c (fixed_text 2 n) key]) new_billing)) =
      fixed_text 2 (sum_list ns + 2 * n)"
proof -
  have shown: "fst (getCreditBalance c (run_events billing_step fs new_billing)) =
      toFixed 2 (add_amounts (amounts_of c (run_events ledger_step fs empty_ledger)))" for fs
    using billing_reachable [of fs] by (simp add: billing_rel_def getCreditBalance_def Let_def)
  have more: "amounts_of c (run_events ledger_step
      (es @ [AddCredits u c (fixed_text 2 n) key, AddCredits v c (fixed_text 2 n) key]) empty_ledger) =
      map (fixed_text 2) (ns @ [n, n])"
    using assms(1) by (simp add: run_events_append amounts_of_def)
  show ?thesis
    unfolding shown more assms(1)
    using toFixed_sum_cents [of ns] toFixed_sum_cents [of "ns @ [n, n]"] assms(2,3) by (simp add: mult_2 del: map_append toFixed.simps)
qed

theorem credits_exact_and_repeated_witness:
  "fst (getCreditBalance ''c'' (run_events billing_step
     ([] @ [AddCredits ''u'' ''c'' (fixed_text 2 1050) ''k'', AddCredits ''v'' ''c'' (fixed_text 2 1050) ''k'']) new_billing)) =
   fixed_text 2 2100"
  using credits_exact_and_repeated [of "''c''" "[]" "[]" 1050] by (simp add: amounts_of_def empty_ledger_def del: toFixed.simps)

text \<open>an amount of credits that is no number is applied all the same, and the customer's balance
  is NaN from then on, whatever else happens.\<close>

theorem bad_credit_spoils_balance:
  assumes "parseFloat a = NotANumber"
  shows "fst (getCreditBalance c (run_events billing_step (es @ AddCredits u c a k # fs) new_billing)) = ''NaN''"
proof -
  have grow: "set (amounts_of c l) \<subseteq> set (amounts_of c (run_events ledger_step fs l))" for l
  proof (induction fs arbitrary: l)
    case (Cons e fs)
    have "set (amounts_of c l) \<subseteq> set (amounts_of c (ledger_step e l))" by (cases e) (auto simp: amounts_of_def)
    then show ?case using Cons [of "ledger_step e l"] by auto
  qed simp
  have "a \<in> set (amounts_of c (run_events ledger_step (es @ AddCredits u c a k # fs) empty_ledger))"
    using grow [of "ledger_step (AddCredits u c a k) (run_events ledger_step es empty_ledger)"]
    by (auto simp: run_events_append amounts_of_def)
  from add_amounts_bad [OF this assms] show ?thesis
    using billing_reachable [of "es @ AddCredits u c a k # fs"]
    by (simp add: billing_rel_def getCreditBalance_def Let_def)
qed

theorem bad_credit_spoils_balance_witness:
  "fst (getCreditBalance ''c'' (run_events billing_step
     ([] @ AddCredits ''u'' ''c'' ''ten'' ''k'' # [AddCredits ''v'' ''c'' ''5.00'' ''l'']) new_billing)) = ''NaN''"
proof (rule bad_credit_spoils_balance)
  show "parseFloat ''ten'' = NotANumber" by (simp add: parseFloat_def js_space_def parse_unsigned_def js_digit_def)
qed

end
