(* ===== verification/PaymentGateway.thy ===== *)
theory PaymentGateway
  imports Prelude
begin

section \<open>The payment gateway\<close>

text \<open>
  services/payment-gateway/src: config.ts and handler.ts. Requests are taken one after the other:
  charging waits for nothing outside the process. The store of idempotency keys is
  shared by the three gateways. Request bodies are typed; the clock and the fresh UUIDs are arguments.
\<close>

subsection \<open>Configuration\<close>

record gateway_config =
  gc_port :: "int option"
  gc_host :: string
  gc_stripe :: "string \<times> string \<times> string"
  gc_paddle :: "string \<times> string \<times> string"
  gc_usdc :: "string \<times> string \<times> string \<times> int option"
  gc_eth :: "string \<times> string \<times> int option"
  gc_maxRetries :: "int option"
  gc_idempotencyTtlMs :: "int option"

definition gateway_loadConfig :: "(string \<Rightarrow> string option) \<Rightarrow> gateway_config" where
  "gateway_loadConfig env =
     \<lparr>gc_port = parseInt10 (env_or env ''PAYMENT_GATEWAY_PORT'' ''3050''),
      gc_host = env_or env ''PAYMENT_GATEWAY_HOST'' ''0.0.0.0'',
      gc_stripe = (env_or env ''STRIPE_SECRET_KEY'' ''sk_test_placeholder'',
        env_or env ''STRIPE_WEBHOOK_SECRET'' ''whsec_placeholder'', env_or env ''STRIPE_PUBLISHABLE_KEY'' ''pk_test_placeholder''),
      gc_paddle = (env_or env ''PADDLE_VENDOR_ID'' [], env_or env ''PADDLE_API_KEY'' [], env_or env ''PADDLE_WEBHOOK_SECRET'' []),
      gc_usdc = (env_or env ''USDC_RPC_URL'' ''https://mainnet.infura.io/v3/placeholder'',
        env_or env ''USDC_CONTRACT_ADDRESS'' ''0xA0b86991c6218b36c1d19D4a2e9Eb0cE3606eB48'',
        env_or env ''USDC_WALLET_ADDRESS'' [], parseInt10 (env_or env ''USDC_CHAIN_ID'' ''1'')),
      gc_eth = (env_or env ''ETH_RPC_URL'' ''https://mainnet.infura.io/v3/placeholder'',
        env_or env ''ETH_WALLET_ADDRESS'' [], parseInt10 (env_or env ''ETH_CHAIN_ID'' ''1'')),
      gc_maxRetries = parseInt10 (env_or env ''PAYMENT_MAX_RETRIES'' ''3''),
      gc_idempotencyTtlMs = parseInt10 (env_or env ''IDEMPOTENCY_TTL_MS'' ''86400000'')\<rparr>"

subsection \<open>Payments\<close>

datatype gateway = Stripe | Usdc | Eth

record payment_request =
  pq_amount :: "string option"
  pq_currency :: "string option"
  pq_idempotencyKey :: "string option"

record payment_response =
  pr_paymentId :: string
  pr_gateway :: string
  pr_status :: string
  pr_amount :: string
  pr_currency :: string
  pr_transactionHash :: "string option"
  pr_gatewayReference :: "string option"
  pr_clientSecret :: "string option"
  pr_createdAt :: string

text \<open>A stored result and when it expires; None is NaN.\<close>

type_synonym idempotency_store = "(string, payment_response \<times> int option) jsmap"

definition checkIdempotency :: "int \<Rightarrow> string \<Rightarrow> idempotency_store \<Rightarrow> payment_response option" where
  "checkIdempotency now key s =
     (case jm_get s key of
        Some (r, Some e) \<Rightarrow> if now < e then Some r else None
      | _ \<Rightarrow> None)"

definition storeIdempotency :: "int option \<Rightarrow> int \<Rightarrow> string \<Rightarrow> payment_response \<Rightarrow> idempotency_store \<Rightarrow> idempotency_store" where
  "storeIdempotency ttl now key r s = jm_set key (r, map_option ((+) now) ttl) s"

definition no_dashes :: "string \<Rightarrow> string" where
  "no_dashes s = filter (\<lambda>c. c \<noteq> CHR ''-'') s"

definition processStripePayment :: "string \<Rightarrow> string \<Rightarrow> string \<Rightarrow> string \<Rightarrow> string \<Rightarrow> payment_response" where
  "processStripePayment uuid uuid2 stamp amount currency =
     \<lparr>pr_paymentId = uuid, pr_gateway = ''stripe'', pr_status = ''succeeded'', pr_amount = amount, pr_currency = currency,
      pr_transactionHash = None, pr_gatewayReference = Some (''pi_'' @ take 16 (no_dashes uuid)),
      pr_clientSecret = Some (uuid @ ''_secret_'' @ take 8 uuid2), pr_createdAt = stamp\<rparr>"

definition chain_hash :: "string \<Rightarrow> string \<Rightarrow> string" where
  "chain_hash uuid uuid2 = ''0x'' @ no_dashes uuid @ take 32 (no_dashes uuid2)"

definition processUsdcPayment :: "string \<Rightarrow> string \<Rightarrow> string \<Rightarrow> string \<Rightarrow> payment_response" where
  "processUsdcPayment uuid uuid2 stamp amount =
     \<lparr>pr_paymentId = uuid, pr_gateway = ''usdc'', pr_status = ''pending'', pr_amount = amount, pr_currency = ''USDC'',
      pr_transactionHash = Some (chain_hash uuid uuid2), pr_gatewayReference = Some uuid,
      pr_clientSecret = None, pr_createdAt = stamp\<rparr>"

definition processEthPayment :: "string \<Rightarrow> string \<Rightarrow> string \<Rightarrow> string \<Rightarrow> payment_response" where
  "processEthPayment uuid uuid2 stamp amount =
     \<lparr>pr_paymentId = uuid, pr_gateway = ''eth'', pr_status = ''pending'', pr_amount = amount, pr_currency = ''ETH'',
      pr_transactionHash = Some (chain_hash uuid uuid2), pr_gatewayReference = Some uuid,
      pr_clientSecret = None, pr_createdAt = stamp\<rparr>"

datatype charge_answer =
    BadCharge string \<comment> \<open>status 400\<close>
  | Replayed payment_response \<comment> \<open>status 200\<close>
  | Charged payment_response \<comment> \<open>status 201\<close>

record charge =
  ch_gateway :: gateway
  ch_request :: payment_request
  ch_uuid :: string
  ch_uuid2 :: string
  ch_now :: int
  ch_stamp :: string

definition is_given :: "string option \<Rightarrow> bool" where
  "is_given v \<longleftrightarrow> or_default v [] \<noteq> []"

definition missing_field :: "charge \<Rightarrow> string option" where
  "missing_field c =
     (if ch_gateway c = Stripe \<and> \<not> (is_given (pq_amount (ch_request c)) \<and> is_given (pq_currency (ch_request c)))
      then Some ''Missing required fields: amount, currency''
      else if \<not> is_given (pq_amount (ch_request c)) then Some ''Missing required field: amount''
      else None)"

definition process_charge :: "charge \<Rightarrow> payment_response" where
  "process_charge c =
     (let amount = or_default (pq_amount (ch_request c)) []; currency = or_default (pq_currency (ch_request c)) [] in
      case ch_gateway c of
        Stripe \<Rightarrow> processStripePayment (ch_uuid c) (ch_uuid2 c) (ch_stamp c) amount currency
      | Usdc \<Rightarrow> processUsdcPayment (ch_uuid c) (ch_uuid2 c) (ch_stamp c) amount
      | Eth \<Rightarrow> processEthPayment (ch_uuid c) (ch_uuid2 c) (ch_stamp c) amount)"

text \<open>POST /charge/stripe, /charge/usdc and /charge/eth.\<close>

definition charge_route :: "int option \<Rightarrow> charge \<Rightarrow> idempotency_store \<Rightarrow> charge_answer \<times> idempotency_store" where
  "charge_route ttl c s =
     (case missing_field c of
        Some m \<Rightarrow> (BadCharge m, s)
      | None \<Rightarrow>
          (let key = pq_idempotencyKey (ch_request c); r = process_charge c in
           if is_given key then
             (case checkIdempotency (ch_now c) (the key) s of
                Some old \<Rightarrow> (Replayed old, s)
              | None \<Rightarrow> (Charged r, storeIdempotency ttl (ch_now c) (the key) r s))
           else (Charged r, s)))"

text \<open>GET /status: the answer does not depend on any payment.\<close>

definition payment_status :: "string \<Rightarrow> string \<Rightarrow> payment_response" where
  "payment_status paymentId stamp =
     \<lparr>pr_paymentId = paymentId, pr_gateway = ''stripe'', pr_status = ''succeeded'', pr_amount = ''0.00'', pr_currency = ''USD'',
      pr_transactionHash = None, pr_gatewayReference = None, pr_clientSecret = None, pr_createdAt = stamp\<rparr>"

text \<open>The state after the requests.\<close>

definition charge_step :: "int option \<Rightarrow> charge \<Rightarrow> idempotency_store \<Rightarrow> idempotency_store" where
  "charge_step ttl c s = snd (charge_route ttl c s)"

subsection \<open>One charge per key\<close>

text \<open>A charge made under a key at a time.\<close>

definition keyed :: "string \<Rightarrow> charge \<Rightarrow> bool" where
  "keyed k c \<longleftrightarrow> pq_idempotencyKey (ch_request c) = Some k"

definition newly_charged :: "charge_answer \<Rightarrow> bool" where
  "newly_charged a \<longleftrightarrow> (case a of Charged _ \<Rightarrow> True | _ \<Rightarrow> False)"

text \<open>What a run of requests within the life of a key leaves at the key: the first result.\<close>

definition holds_key :: "string \<Rightarrow> payment_response \<Rightarrow> int \<Rightarrow> idempotency_store \<Rightarrow> bool" where
  "holds_key k r e s \<longleftrightarrow> jm_get s k = Some (r, Some e)"

lemma charge_keeps_key:
  assumes "holds_key k r e s" "ch_now c < e"
  shows "holds_key k r e (charge_step ttl c s)"
  using assms
  by (auto simp: charge_step_def charge_route_def holds_key_def storeIdempotency_def checkIdempotency_def Let_def
      split: option.splits if_splits)

interpretation key_holder: invariant_machine "charge_step ttl" "\<lambda>c _. ch_now c < e" "holds_key k r e" for ttl e k r
  by unfold_locales (rule charge_keeps_key)

lemma charge_stores_key:
  assumes "k \<noteq> []" "keyed k c" "fst (charge_route (Some t) c s) = Charged r"
  shows "holds_key k r (ch_now c + t) (charge_step (Some t) c s)"
  using assms
  by (auto simp: charge_step_def charge_route_def holds_key_def storeIdempotency_def keyed_def is_given_def Let_def
      split: option.splits if_splits)

lemma held_key_replays:
  assumes "k \<noteq> []" "holds_key k r e s" "keyed k c" "ch_now c < e" "missing_field c = None"
  shows "charge_route ttl c s = (Replayed r, s)"
  using assms by (simp add: charge_route_def checkIdempotency_def holds_key_def keyed_def is_given_def Let_def)

lemma admissible_early: "list_all (\<lambda>c. ch_now c < e) cs \<Longrightarrow> admissible (\<lambda>c _. ch_now c < e) f cs s"
  by (induction cs arbitrary: s) auto

text \<open>C25: once a charge was made under a key, every later complete request with that key, before the
  key expires and whatever happened in between, is answered with the first result and charges nothing:
  also one for another gateway or another amount.\<close>

theorem one_charge_per_key:
  assumes "k \<noteq> []" "keyed k c" "fst (charge_route (Some t) c s) = Charged r"
    and "list_all (\<lambda>d. ch_now d < ch_now c + t) (cs @ [d])" "keyed k d" "missing_field d = None"
  shows "charge_route (Some t) d (run_events (charge_step (Some t)) cs (charge_step (Some t) c s)) =
    (Replayed r, run_events (charge_step (Some t)) cs (charge_step (Some t) c s))"
proof -
  have "holds_key k r (ch_now c + t) (run_events (charge_step (Some t)) cs (charge_step (Some t) c s))"
    by (rule key_holder.inv_run [OF charge_stores_key [OF assms(1-3)] admissible_early]) (use assms(4) in simp)
  then show ?thesis by (rule held_key_replays [OF assms(1) _ assms(5) _ assms(6)]) (use assms(4) in simp)
qed

definition charge_with :: "gateway \<Rightarrow> string \<Rightarrow> string \<Rightarrow> int \<Rightarrow> charge" where
  "charge_with g amount uuid now =
     \<lparr>ch_gateway = g, ch_request = \<lparr>pq_amount = Some amount, pq_currency = Some ''USD'', pq_idempotencyKey = Some ''k''\<rparr>,
      ch_uuid = uuid, ch_uuid2 = ''v'', ch_now = now, ch_stamp = ''t''\<rparr>"

text \<open>A payment in USDC of 500 under the key of a payment by card of 5 is answered with the latter.\<close>

theorem one_charge_per_key_witness:
  "\<exists>r. fst (charge_route (Some 100) (charge_with Usdc ''500'' ''b'' 50)
        (charge_step (Some 100) (charge_with Stripe ''5'' ''a'' 0) jm_empty)) = Replayed r \<and> pr_amount r = ''5'' \<and> pr_gateway r = ''stripe''"
proof -
  obtain r where r: "fst (charge_route (Some 100) (charge_with Stripe ''5'' ''a'' 0) jm_empty) = Charged r" "pr_amount r = ''5''"
    "pr_gateway r = ''stripe''"
    by (simp add: charge_route_def missing_field_def is_given_def charge_with_def process_charge_def processStripePayment_def
      checkIdempotency_def jm_get_def jm_empty_def Let_def)
  from one_charge_per_key [OF _ _ r(1), of "''k''" "[]" "charge_with Usdc ''500'' ''b'' 50"]
  have "charge_route (Some 100) (charge_with Usdc ''500'' ''b'' 50) (charge_step (Some 100) (charge_with Stripe ''5'' ''a'' 0) jm_empty) =
      (Replayed r, charge_step (Some 100) (charge_with Stripe ''5'' ''a'' 0) jm_empty)"
    by (simp add: keyed_def missing_field_def is_given_def charge_with_def)
  then show ?thesis using r by auto
qed

definition timeless :: "idempotency_store \<Rightarrow> bool" where
  "timeless s \<longleftrightarrow> (\<forall>k r e. jm_get s k \<noteq> Some (r, Some e))"

interpretation timeless_run: invariant_machine "charge_step None" "\<lambda>_ _. True" timeless
  by unfold_locales
    (auto simp: timeless_def charge_step_def charge_route_def storeIdempotency_def Let_def split: option.splits if_splits)

text \<open>when the life of the keys is no number, as for an unreadable setting, no key ever protects:
  every complete request charges again.\<close>

theorem unreadable_ttl_charges_again:
  assumes "missing_field c = None"
  shows "newly_charged (fst (charge_route None c (run_events (charge_step None) cs jm_empty)))"
proof -
  have "timeless (run_events (charge_step None) cs jm_empty)"
    by (rule timeless_run.inv_run) (simp_all add: timeless_def jm_empty_def jm_get_def)
  then show ?thesis
    using assms
    by (auto simp: charge_route_def checkIdempotency_def newly_charged_def timeless_def Let_def split: option.splits)
qed

theorem unreadable_ttl_charges_again_witness:
  "gc_idempotencyTtlMs (gateway_loadConfig (\<lambda>k. if k = ''IDEMPOTENCY_TTL_MS'' then Some ''one day'' else None)) = None \<and>
   newly_charged (fst (charge_route None (charge_with Stripe ''5'' ''b'' 1)
     (run_events (charge_step None) [charge_with Stripe ''5'' ''a'' 0] jm_empty)))"
proof -
  have "missing_field (charge_with Stripe ''5'' ''b'' 1) = None" by (simp add: missing_field_def is_given_def charge_with_def)
  from unreadable_ttl_charges_again [OF this, of "[charge_with Stripe ''5'' ''a'' 0]"] show ?thesis
    by (simp add: gateway_loadConfig_def env_or_def parseInt10_def js_space_def parse_digits_def js_digit_def)
qed

end
