(* ===== verification/ModuleRegistry.thy ===== *)
theory ModuleRegistry
  imports BaseText
begin

section \<open>The registry of trusted WebAssembly modules\<close>

text \<open>
  wasm/module-registry.ts. The digest (SHA-256) is a parameter. verifyModule is declared to return a
  boolean and returns, for a registered module, the promise of verifyHash: the value says which, together
  with how the promise settles. Entries are values: that registries built from the default list share its entry
  objects is not modelled, nor are the callback for a failed check and the two fields nothing reads.
\<close>

subsection \<open>Entries\<close>

record module_entry =
  me_name :: string
  me_sha256 :: string
  me_sizeBytes :: int
  me_version :: string
  me_requiredCapabilities :: "string list"
  me_allowedImports :: "string list"
  me_allowedExports :: "string list"
  me_maxMemoryPages :: int
  me_maxFuel :: int

record module_registry =
  mr_modules :: "(string, module_entry) jsmap"
  mr_allowUnsigned :: bool
  mr_enforceHash :: bool

definition placeholder_sha :: string where
  "placeholder_sha = ''e3b0c44298fc1c149afbf4c8996fb92427ae41e4649b934ca495991b7852b855''"

definition TRUSTED_MODULES :: "module_entry list" where
  "TRUSTED_MODULES =
     [\<lparr>me_name = ''credential-verify'', me_sha256 = placeholder_sha, me_sizeBytes = 2048, me_version = ''1.0.0'',
       me_requiredCapabilities = [''hash'', ''verify'', ''emit_event''],
       me_allowedImports = [''kyc.hash'', ''kyc.verify_credential'', ''kyc.check_attribute'', ''kyc.emit_event'', ''kyc.log_message''],
       me_allowedExports = [''memory'', ''get_module_info'', ''verify'', ''verify_credential'', ''get_credential_hash'', ''check_attribute''],
       me_maxMemoryPages = 2, me_maxFuel = 500000\<rparr>,
      \<lparr>me_name = ''did-resolve'', me_sha256 = placeholder_sha, me_sizeBytes = 1792, me_version = ''1.0.0'',
       me_requiredCapabilities = [''hash'', ''kv_store'', ''emit_event''],
       me_allowedImports = [''kyc.hash'', ''kyc.emit_event'', ''kyc.log_message'', ''kyc.store_blob'', ''kyc.get_blob''],
       me_allowedExports = [''memory'', ''get_module_info'', ''resolve_did'', ''get_method_name'', ''extract_method_specific_id''],
       me_maxMemoryPages = 2, me_maxFuel = 300000\<rparr>,
      \<lparr>me_name = ''age-proof'', me_sha256 = placeholder_sha, me_sizeBytes = 2304, me_version = ''1.0.0'',
       me_requiredCapabilities = [''hash'', ''random'', ''emit_event''],
       me_allowedImports = [''kyc.hash'', ''kyc.random_bytes'', ''kyc.emit_event'', ''kyc.log_message''],
       me_allowedExports = [''memory'', ''get_module_info'', ''prove_age_range'', ''verify_age_range'', ''commit_age''],
       me_maxMemoryPages = 2, me_maxFuel = 400000\<rparr>]"

subsection \<open>Operations\<close>

fun enter_modules :: "module_entry list \<Rightarrow> (string, module_entry) jsmap \<Rightarrow> (string, module_entry) jsmap" where
  "enter_modules [] m = m"
| "enter_modules (e # es) m = enter_modules es (jm_set (me_name e) e m)"

definition new_registry :: "module_entry list option \<Rightarrow> bool option \<Rightarrow> bool option \<Rightarrow> module_registry" where
  "new_registry modules allowUnsigned enforceHash =
     \<lparr>mr_modules = enter_modules (or_default modules TRUSTED_MODULES) jm_empty,
      mr_allowUnsigned = or_default allowUnsigned False, mr_enforceHash = or_default enforceHash True\<rparr>"

definition getEntry :: "module_registry \<Rightarrow> string \<Rightarrow> module_entry option" where
  "getEntry r name = jm_get (mr_modules r) name"

text \<open>What verifyModule returns: a boolean, or a promise and how it settles.\<close>

datatype verdict = Answer bool | PromiseOf "bool result"

definition actual_hash :: "(bytes \<Rightarrow> bytes) \<Rightarrow> bytes \<Rightarrow> string" where
  "actual_hash sha bs = to_hex (sha bs)"

definition hash_mismatch :: "string \<Rightarrow> string \<Rightarrow> string \<Rightarrow> string" where
  "hash_mismatch name expected actual =
     ''Hash mismatch for '' @ CHR 0x27 # name @ [CHR 0x27] @ '': expected '' @ expected @ '', got '' @ actual"

definition verifyHash :: "(bytes \<Rightarrow> bytes) \<Rightarrow> module_registry \<Rightarrow> bytes \<Rightarrow> string \<Rightarrow> string \<Rightarrow> bool result" where
  "verifyHash sha r wasmBytes expectedHash name =
     (let actualHash = actual_hash sha wasmBytes in
      if actualHash \<noteq> expectedHash then
        (if \<not> mr_allowUnsigned r then Inl (JsError (hash_mismatch name expectedHash actualHash)) else Inr False)
      else Inr True)"

text \<open>A text between single quotes in a message.\<close>

definition about_module :: "string \<Rightarrow> string \<Rightarrow> string \<Rightarrow> js_exn" where
  "about_module before name after = JsError (before @ CHR 0x27 # name @ CHR 0x27 # after)"

definition verifyModule :: "(bytes \<Rightarrow> bytes) \<Rightarrow> module_registry \<Rightarrow> string \<Rightarrow> bytes \<Rightarrow> verdict result" where
  "verifyModule sha r name wasmBytes =
     (case getEntry r name of
        None \<Rightarrow> if \<not> mr_allowUnsigned r then Inl (about_module ''Module '' name '' not found in trusted registry'') else Inr (Answer True)
      | Some entry \<Rightarrow>
          if \<not> mr_enforceHash r then Inr (Answer True)
          else Inr (PromiseOf (verifyHash sha r wasmBytes (me_sha256 entry) name)))"

text \<open>Every promise is truthy.\<close>

fun verdict_truthy :: "verdict \<Rightarrow> bool" where
  "verdict_truthy (Answer b) = b"
| "verdict_truthy (PromiseOf _) = True"

fun all_allowed :: "string \<Rightarrow> string \<Rightarrow> string list \<Rightarrow> string list \<Rightarrow> bool result" where
  "all_allowed what name allowed [] = Inr True"
| "all_allowed what name allowed (x # xs) =
     (if x \<notin> set allowed then Inl (about_module (what @ '' '' @ CHR 0x27 # x @ CHR 0x27 # '' not allowed for module '') name [])
      else all_allowed what name allowed xs)"

definition verifyImports :: "module_registry \<Rightarrow> string \<Rightarrow> string list \<Rightarrow> bool result" where
  "verifyImports r name imports =
     (case getEntry r name of
        None \<Rightarrow> Inr (mr_allowUnsigned r)
      | Some e \<Rightarrow> all_allowed ''Import'' name (me_allowedImports e) imports)"

definition verifyExports :: "module_registry \<Rightarrow> string \<Rightarrow> string list \<Rightarrow> bool result" where
  "verifyExports r name exports =
     (case getEntry r name of
        None \<Rightarrow> Inr (mr_allowUnsigned r)
      | Some e \<Rightarrow> all_allowed ''Export'' name (me_allowedExports e) exports)"

definition getCapabilities :: "module_registry \<Rightarrow> string \<Rightarrow> string list" where
  "getCapabilities r name = (case getEntry r name of Some e \<Rightarrow> me_requiredCapabilities e | None \<Rightarrow> [])"

definition getMaxFuel :: "module_registry \<Rightarrow> string \<Rightarrow> int" where
  "getMaxFuel r name = (case getEntry r name of Some e \<Rightarrow> me_maxFuel e | None \<Rightarrow> 100000)"

definition getMaxMemoryPages :: "module_registry \<Rightarrow> string \<Rightarrow> int" where
  "getMaxMemoryPages r name = (case getEntry r name of Some e \<Rightarrow> me_maxMemoryPages e | None \<Rightarrow> 1)"

definition registerModule :: "module_entry \<Rightarrow> module_registry \<Rightarrow> module_registry result" where
  "registerModule e r =
     (if getEntry r (me_name e) \<noteq> None then Inl (about_module ''Module '' (me_name e) '' is already registered'')
      else Inr (r\<lparr>mr_modules := jm_set (me_name e) e (mr_modules r)\<rparr>))"

definition updateModuleHash :: "string \<Rightarrow> string \<Rightarrow> module_registry \<Rightarrow> module_registry result" where
  "updateModuleHash name newSha r =
     (case getEntry r name of
        None \<Rightarrow> Inl (about_module ''Module '' name '' not found in registry'')
      | Some e \<Rightarrow> Inr (r\<lparr>mr_modules := jm_set name (e\<lparr>me_sha256 := newSha\<rparr>) (mr_modules r)\<rparr>))"

definition listModules :: "module_registry \<Rightarrow> module_entry list" where
  "listModules r = jm_values (mr_modules r)"

definition isTrusted :: "module_registry \<Rightarrow> string \<Rightarrow> bool" where
  "isTrusted r name \<longleftrightarrow> jm_has (mr_modules r) name"

text \<open>A response to fetch: its bytes, or the status text of a failure.\<close>

type_synonym fetched = "string + bytes"

definition fetchAndVerify :: "(bytes \<Rightarrow> bytes) \<Rightarrow> module_registry \<Rightarrow> string \<Rightarrow> string \<Rightarrow> fetched \<Rightarrow> bytes result" where
  "fetchAndVerify sha r name url response =
     (case response of
        Inl statusText \<Rightarrow> Inl (about_module ''Failed to fetch module '' name ('' from '' @ url @ '': '' @ statusText))
      | Inr wasmBytes \<Rightarrow>
          (case verifyModule sha r name wasmBytes of
             Inl e \<Rightarrow> Inl e
           | Inr v \<Rightarrow>
               if \<not> verdict_truthy v then Inl (about_module ''Module '' name '' failed hash verification'')
               else Inr wasmBytes))"

subsection \<open>Properties\<close>

text \<open>C29: loading a module does not check its hash: for a registered module any bytes are handed
  out, whatever the registry enforces, as the promise of the check is never awaited; the check itself
  would accept exactly the bytes with the registered digest.\<close>

theorem module_hash_not_enforced:
  assumes "getEntry r name = Some e"
  shows "fetchAndVerify sha r name url (Inr bs) = Inr bs \<and>
    (verifyHash sha r bs (me_sha256 e) name = Inr True) = (to_hex (sha bs) = me_sha256 e)"
  using assms by (simp add: fetchAndVerify_def verifyModule_def verifyHash_def actual_hash_def Let_def)

theorem module_hash_not_enforced_witness:
  "fetchAndVerify (\<lambda>_. []) (new_registry None None None) ''age-proof'' ''u'' (Inr [1, 2, 3]) = Inr [1, 2, 3]"
proof -
  have "getEntry (new_registry None None None) ''age-proof'' = Some (TRUSTED_MODULES ! 2)"
    by (simp add: getEntry_def new_registry_def TRUSTED_MODULES_def)
  from module_hash_not_enforced [OF this] show ?thesis by blast
qed

lemma all_allowed_iff: "all_allowed w n allowed xs = Inr True \<longleftrightarrow> set xs \<subseteq> set allowed"
  by (induction xs) auto

lemma all_allowed_cases: "all_allowed w n allowed xs \<noteq> Inr False"
  by (induction xs) auto

text \<open>what a registered module may import is exactly its list: one import outside it is an
  exception, and a module that is not registered passes or not by a switch, without an exception.\<close>

theorem imports_are_listed:
  "(verifyImports r name xs = Inr True) =
     (case getEntry r name of Some e \<Rightarrow> set xs \<subseteq> set (me_allowedImports e) | None \<Rightarrow> mr_allowUnsigned r) \<and>
   (verifyImports r name xs = Inr False) = (getEntry r name = None \<and> \<not> mr_allowUnsigned r)"
  by (auto simp: verifyImports_def all_allowed_iff all_allowed_cases split: option.splits)

text \<open>registering refuses a name that is taken and keeps every other entry, so a trusted module
  cannot be replaced; only its digest can be changed, by anyone who holds the registry.\<close>

theorem registering_keeps_entries:
  assumes "registerModule e r = Inr r'"
  shows "getEntry r (me_name e) = None \<and> getEntry r' (me_name e) = Some e \<and>
    (\<forall>n. n \<noteq> me_name e \<longrightarrow> getEntry r' n = getEntry r n)"
  using assms by (auto simp: registerModule_def getEntry_def split: if_splits)

theorem registering_keeps_entries_witness:
  "\<exists>r'. registerModule ((TRUSTED_MODULES ! 0)\<lparr>me_name := ''mine''\<rparr>) (new_registry None None None) = Inr r' \<and>
     getEntry r' ''age-proof'' \<noteq> None"
proof -
  have fresh: "getEntry (new_registry None None None) ''mine'' = None"
    by (simp add: getEntry_def new_registry_def TRUSTED_MODULES_def jm_get_def jm_empty_def jm_set_def)
  then obtain r' where r': "registerModule ((TRUSTED_MODULES ! 0)\<lparr>me_name := ''mine''\<rparr>) (new_registry None None None) = Inr r'"
    by (simp add: registerModule_def)
  have "getEntry (new_registry None None None) ''age-proof'' \<noteq> None"
    by (simp add: getEntry_def new_registry_def TRUSTED_MODULES_def)
  with registering_keeps_entries [OF r'] r' show ?thesis by simp
qed

end
