(* ===== verification/ComplianceReports.thy ===== *)
theory ComplianceReports
  imports Prelude "HOL-Library.Multiset"
begin

section \<open>Reports to regulators\<close>

text \<open>
  services/compliance-reporting/src: the types of regulator_interface.ts and the generator of reports.ts.
  A report given to submitReport or validateReport is a value of its own: it may be the stored one or any other
  with its id. Times are numbers (their ISO texts, which the code compares, have the same order); the random
  texts are arguments. generatePeriod works on the local calendar and is not modelled.
\<close>

subsection \<open>Types\<close>

datatype report_type =
    Suspicious_activity | Transaction_monitoring | Kyc_audit | Sanctions_screening | Pep_screening | Adverse_media
  | Aml_compliance | Data_retention | Breach_notification | Periodic_review

datatype jurisdiction =
    Us_fincen | Us_fatf | Uk_fca | Eu_amld | Ca_fintrac | Au_aurac | Sg_mas | Hk_ma | Jp_fsa | Global

datatype report_status = Draft | Pending_review | Submitted | Acknowledged | Rejected_report | Amended | Archived

record report_period =
  rp_start :: string
  rp_end :: string
  rp_type :: string

record report_format =
  rf_mimeType :: string
  rf_schema :: string
  rf_version :: string
  rf_encoding :: string

record regulatory_report =
  rr_id :: string
  rr_type :: "report_type option"
  rr_jurisdiction :: "jurisdiction option"
  rr_period :: "report_period option"
  rr_generatedAt :: int
  rr_submittedAt :: "int option"
  rr_status :: report_status
  rr_data :: "(string \<times> json) list option"
  rr_format :: report_format

record filing_error =
  fe_code :: string
  fe_message :: string
  fe_field :: "string option"

record filing_result =
  fr_reportId :: string
  fr_jurisdiction :: "jurisdiction option"
  fr_submittedAt :: int
  fr_confirmationId :: "string option"
  fr_status :: string
  fr_errors :: "filing_error list option"

definition REPORT_TEMPLATES :: "(report_type \<times> jurisdiction \<times> string list) list" where
  "REPORT_TEMPLATES =
     [(Suspicious_activity, Us_fincen, [''sarId'', ''filingEntity'', ''subject'', ''suspiciousActivity'']),
      (Kyc_audit, Global, [''auditId'', ''period'', ''totalVerifications'', ''passedVerifications'', ''failedVerifications'']),
      (Sanctions_screening, Global, [''screeningId'', ''totalScreened'', ''totalMatches'']),
      (Aml_compliance, Uk_fca, [''referenceNumber'', ''firmName'', ''reportingPeriod''])]"

definition report_template :: "report_type option \<Rightarrow> jurisdiction option \<Rightarrow> string list option" where
  "report_template t j =
     map_option (\<lambda>(_, _, fs). fs) (find (\<lambda>(t', j', _). Some t' = t \<and> Some j' = j) REPORT_TEMPLATES)"

fun type_text :: "report_type \<Rightarrow> string" where
  "type_text Suspicious_activity = ''suspicious_activity''"
| "type_text Transaction_monitoring = ''transaction_monitoring''"
| "type_text Kyc_audit = ''kyc_audit''"
| "type_text Sanctions_screening = ''sanctions_screening''"
| "type_text Pep_screening = ''pep_screening''"
| "type_text Adverse_media = ''adverse_media''"
| "type_text Aml_compliance = ''aml_compliance''"
| "type_text Data_retention = ''data_retention''"
| "type_text Breach_notification = ''breach_notification''"
| "type_text Periodic_review = ''periodic_review''"

fun jurisdiction_text :: "jurisdiction \<Rightarrow> string" where
  "jurisdiction_text Us_fincen = ''us_fincen''"
| "jurisdiction_text Us_fatf = ''us_fatf''"
| "jurisdiction_text Uk_fca = ''uk_fca''"
| "jurisdiction_text Eu_amld = ''eu_amld''"
| "jurisdiction_text Ca_fintrac = ''ca_fintrac''"
| "jurisdiction_text Au_aurac = ''au_aurac''"
| "jurisdiction_text Sg_mas = ''sg_mas''"
| "jurisdiction_text Hk_ma = ''hk_ma''"
| "jurisdiction_text Jp_fsa = ''jp_fsa''"
| "jurisdiction_text Global = ''global''"

subsection \<open>Operations\<close>

type_synonym report_store = "(string, regulatory_report) jsmap"

definition generateReport ::
    "string \<Rightarrow> int \<Rightarrow> report_type \<Rightarrow> jurisdiction \<Rightarrow> report_period \<Rightarrow> (string \<times> json) list \<Rightarrow> report_store \<Rightarrow>
     regulatory_report \<times> report_store" where
  "generateReport uuid now t j period data s =
     (let report = \<lparr>rr_id = ''RPT-'' @ to_upper (take 8 uuid), rr_type = Some t, rr_jurisdiction = Some j,
            rr_period = Some period, rr_generatedAt = now, rr_submittedAt = None, rr_status = Draft, rr_data = Some data,
            rr_format = \<lparr>rf_mimeType = ''application/json'',
              rf_schema = (if report_template (Some t) (Some j) \<noteq> None
                 then type_text t @ ''-'' @ jurisdiction_text j @ ''-'' @ rp_type period else ''generic''),
              rf_version = ''1.0.0'', rf_encoding = ''json''\<rparr>\<rparr>
      in (report, jm_set (rr_id report) report s))"

definition filing_err :: "string \<Rightarrow> string \<Rightarrow> filing_error" where
  "filing_err c m = \<lparr>fe_code = c, fe_message = m, fe_field = None\<rparr>"

definition fields_missing :: "report_type option \<Rightarrow> (string \<times> json) list \<Rightarrow> string list \<Rightarrow> filing_error list" where
  "fields_missing t data fs =
     map (\<lambda>f. \<lparr>fe_code = ''MISSING_FIELD'',
           fe_message = ''Required field '' @ CHR 0x27 # f @ CHR 0x27 # '' is missing for report type ''
             @ (case t of Some x \<Rightarrow> type_text x | None \<Rightarrow> ''undefined''),
           fe_field = Some f\<rparr>)
       (filter (\<lambda>f. f \<notin> fst ` set data) fs)"

text \<open>\<open>in\<close> on data that is not there is a TypeError.\<close>

definition validateReport :: "regulatory_report \<Rightarrow> filing_error list result" where
  "validateReport r =
     (let e1 = (if rr_type r = None then [filing_err ''MISSING_TYPE'' ''Report type is required''] else []);
          e2 = (if rr_jurisdiction r = None then [filing_err ''MISSING_JURISDICTION'' ''Jurisdiction is required''] else []);
          e3 = (case rr_period r of
                  Some p \<Rightarrow> if rp_start p \<noteq> [] \<and> rp_end p \<noteq> [] then []
                    else [filing_err ''INVALID_PERIOD'' ''Report period must have start and end dates'']
                | None \<Rightarrow> [filing_err ''INVALID_PERIOD'' ''Report period must have start and end dates'']);
          e4 = (if or_default (rr_data r) [] = [] then [filing_err ''EMPTY_DATA'' ''Report data cannot be empty''] else [])
      in case report_template (rr_type r) (rr_jurisdiction r) of
           None \<Rightarrow> Inr (e1 @ e2 @ e3 @ e4)
         | Some fs \<Rightarrow>
             (case rr_data r of
                Some data \<Rightarrow> Inr (e1 @ e2 @ e3 @ e4 @ fields_missing (rr_type r) data fs)
              | None \<Rightarrow> Inl (JsTypeError ''Cannot use in operator to search for a field in undefined'')))"

definition submitReport :: "string \<Rightarrow> int \<Rightarrow> regulatory_report \<Rightarrow> report_store \<Rightarrow> filing_result result \<times> report_store" where
  "submitReport uuid now report s =
     (case jm_get s (rr_id report) of
        None \<Rightarrow>
          (Inr \<lparr>fr_reportId = rr_id report, fr_jurisdiction = rr_jurisdiction report, fr_submittedAt = now,
             fr_confirmationId = None, fr_status = ''rejected'', fr_errors = Some [filing_err ''NOT_FOUND'' ''Report not found'']\<rparr>, s)
      | Some stored \<Rightarrow>
          (case validateReport report of
             Inl e \<Rightarrow> (Inl e, s)
           | Inr errors \<Rightarrow>
               if errors \<noteq> [] then
                 (Inr \<lparr>fr_reportId = rr_id report, fr_jurisdiction = rr_jurisdiction report, fr_submittedAt = now,
                    fr_confirmationId = None, fr_status = ''rejected'', fr_errors = Some errors\<rparr>, s)
               else
                 (Inr \<lparr>fr_reportId = rr_id report, fr_jurisdiction = rr_jurisdiction report, fr_submittedAt = now,
                    fr_confirmationId = Some (''CONF-'' @ to_upper (take 12 uuid)), fr_status = ''pending_review'', fr_errors = None\<rparr>,
                  jm_set (rr_id report) (stored\<lparr>rr_status := Submitted, rr_submittedAt := Some now\<rparr>) s)))"

definition report_not_found :: "string \<Rightarrow> js_exn" where
  "report_not_found i = JsError (''Report not found: '' @ i)"

definition getReportStatus :: "string \<Rightarrow> report_store \<Rightarrow> report_status result" where
  "getReportStatus i s = (case jm_get s i of None \<Rightarrow> Inl (report_not_found i) | Some r \<Rightarrow> Inr (rr_status r))"

definition listReports :: "jurisdiction \<Rightarrow> report_status option \<Rightarrow> report_store \<Rightarrow> regulatory_report list" where
  "listReports j st s =
     sort_key (\<lambda>r. - rr_generatedAt r)
       (filter (\<lambda>r. rr_jurisdiction r = Some j \<and> (case st of None \<Rightarrow> True | Some x \<Rightarrow> rr_status r = x)) (jm_values s))"

definition archiveReport :: "string \<Rightarrow> report_store \<Rightarrow> unit result \<times> report_store" where
  "archiveReport i s =
     (case jm_get s i of
        None \<Rightarrow> (Inl (report_not_found i), s)
      | Some r \<Rightarrow> (Inr (), jm_set i (r\<lparr>rr_status := Archived\<rparr>) s))"

datatype report_event =
    Generate string int report_type jurisdiction report_period "(string \<times> json) list"
  | Submit string int regulatory_report
  | Archive string

fun report_step :: "report_event \<Rightarrow> report_store \<Rightarrow> report_store" where
  "report_step (Generate u n t j p d) s = snd (generateReport u n t j p d s)"
| "report_step (Submit u n r) s = snd (submitReport u n r s)"
| "report_step (Archive i) s = snd (archiveReport i s)"

subsection \<open>Properties\<close>

text \<open>What every stored report satisfies: it stands under its id, and of the seven states only three are
  ever entered; a draft has not been submitted and a submitted report has its time.\<close>

definition report_ok :: "string \<Rightarrow> regulatory_report \<Rightarrow> bool" where
  "report_ok i r \<longleftrightarrow>
     rr_id r = i \<and> rr_type r \<noteq> None \<and> rr_jurisdiction r \<noteq> None \<and>
     (case rr_status r of Draft \<Rightarrow> rr_submittedAt r = None | Submitted \<Rightarrow> rr_submittedAt r \<noteq> None | Archived \<Rightarrow> True | _ \<Rightarrow> False)"

definition reports_ok :: "report_store \<Rightarrow> bool" where
  "reports_ok s \<longleftrightarrow> (\<forall>i r. jm_get s i = Some r \<longrightarrow> report_ok i r)"

lemma report_ok_step: "reports_ok s \<Longrightarrow> reports_ok (report_step e s)"
  by (cases e)
    (auto simp: reports_ok_def report_ok_def generateReport_def submitReport_def archiveReport_def Let_def
      split: option.splits sum.splits if_splits)

interpretation reports: invariant_machine report_step "\<lambda>_ _. True" reports_ok
  by unfold_locales (rule report_ok_step)

text \<open>over any run a report is a draft, submitted or archived and nothing else: it is never
  acknowledged, rejected, amended or pending review, although a submission is answered with pending_review.\<close>

theorem report_states_reached:
  assumes "jm_get (run_events report_step es jm_empty) i = Some r"
  shows "rr_id r = i \<and> rr_status r \<in> {Draft, Submitted, Archived} \<and>
    (rr_status r = Draft \<longrightarrow> rr_submittedAt r = None) \<and> (rr_status r = Submitted \<longrightarrow> rr_submittedAt r \<noteq> None)"
proof -
  have "reports_ok (run_events report_step es jm_empty)"
    by (rule reports.inv_run) (simp_all add: reports_ok_def jm_empty_def jm_get_def)
  then have "report_ok i r" using assms by (simp add: reports_ok_def)
  then show ?thesis by (cases "rr_status r") (auto simp: report_ok_def)
qed

definition a_period :: report_period where
  "a_period = \<lparr>rp_start = ''2026-01-01'', rp_end = ''2026-01-31'', rp_type = ''monthly''\<rparr>"

theorem report_states_reached_witness:
  "\<exists>r. jm_get (run_events report_step [Generate ''abcdefghij'' 5 Kyc_audit Global a_period []] jm_empty) ''RPT-ABCDEFGH'' = Some r \<and>
     rr_status r \<in> {Draft, Submitted, Archived}"
proof -
  have "to_upper (take 8 ''abcdefghij'') = ''ABCDEFGH''" by code_simp
  then obtain r where "jm_get (run_events report_step [Generate ''abcdefghij'' 5 Kyc_audit Global a_period []] jm_empty) ''RPT-ABCDEFGH'' = Some r"
    by (simp add: generateReport_def Let_def)
  with report_states_reached [OF this] show ?thesis by blast
qed

lemma validate_valid:
  "validateReport r = Inr [] \<longleftrightarrow>
     rr_type r \<noteq> None \<and> rr_jurisdiction r \<noteq> None \<and>
     (\<exists>p. rr_period r = Some p \<and> rp_start p \<noteq> [] \<and> rp_end p \<noteq> []) \<and>
     (\<exists>data. rr_data r = Some data \<and> data \<noteq> [] \<and>
        (case report_template (rr_type r) (rr_jurisdiction r) of Some fs \<Rightarrow> set fs \<subseteq> fst ` set data | None \<Rightarrow> True))"
  by (cases "rr_data r"; cases "rr_period r")
    (auto simp: validateReport_def Let_def fields_missing_def filter_empty_conv split: option.splits if_splits)


text \<open>archiving is not final, and an empty draft can be filed: handing in a complete report under the
  id of an archived report without data makes the latter submitted.\<close>

theorem archived_empty_report_submitted:
  assumes "jm_get s i = Some stored" "rr_data stored = Some []" "validateReport r = Inr []" "rr_id r = i"
  shows "\<exists>new. jm_get (report_step (Submit u now r) (report_step (Archive i) s)) i = Some new \<and>
    rr_status new = Submitted \<and> rr_data new = Some []"
  using assms by (simp add: submitReport_def archiveReport_def)

definition a_report :: regulatory_report where
  "a_report = \<lparr>rr_id = ''RPT-ABCDEFGH'', rr_type = Some Pep_screening, rr_jurisdiction = Some Global, rr_period = Some a_period,
     rr_generatedAt = 5, rr_submittedAt = None, rr_status = Draft, rr_data = Some [(''x'', JNull)],
     rr_format = \<lparr>rf_mimeType = [], rf_schema = [], rf_version = [], rf_encoding = []\<rparr>\<rparr>"

theorem archived_empty_report_submitted_witness:
  "\<exists>new. jm_get (report_step (Submit ''u'' 9 a_report) (report_step (Archive ''RPT-ABCDEFGH'')
      (jm_set ''RPT-ABCDEFGH'' (a_report\<lparr>rr_data := Some []\<rparr>) jm_empty))) ''RPT-ABCDEFGH'' = Some new \<and>
    rr_status new = Submitted \<and> rr_data new = Some []"
proof (rule archived_empty_report_submitted)
  show "jm_get (jm_set ''RPT-ABCDEFGH'' (a_report\<lparr>rr_data := Some []\<rparr>) jm_empty) ''RPT-ABCDEFGH'' = Some (a_report\<lparr>rr_data := Some []\<rparr>)"
    by simp
  show "validateReport a_report = Inr []"
    by (auto simp: validate_valid a_report_def a_period_def report_template_def REPORT_TEMPLATES_def)
qed (simp_all add: a_report_def)

text \<open>a listing has exactly the stored reports of the jurisdiction and status, each as often as it is
  stored, the newest first.\<close>

theorem report_listing:
  "mset (listReports j st s) =
     mset (filter (\<lambda>r. rr_jurisdiction r = Some j \<and> (case st of None \<Rightarrow> True | Some x \<Rightarrow> rr_status r = x)) (jm_values s)) \<and>
   sorted (map (\<lambda>r. - rr_generatedAt r) (listReports j st s))"
  by (simp add: listReports_def)

end
