(* ===== verification/Metrics.thy ===== *)
theory Metrics
  imports Numbers
begin

section \<open>The metrics collector\<close>

text \<open>
  packages/core/src/metrics/metrics_collector.ts. Values are doubles (theory Numbers). Two conversions of the
  language are parameters: \<open>compare\<close> is localeCompare, which orders the labels of a key, and
  \<open>num_text\<close> is the text of a number, the name of a bucket or quantile. Time stamps are arguments.
  Bucket maps are read by name only: the order of their names is not modelled.
\<close>

subsection \<open>Data\<close>

type_synonym labels = "(string \<times> string) list"

datatype metric_data =
    CounterData
  | GaugeData
  | HistogramData "(string, nat) jsmap" js_double nat
  | SummaryData "(string, nat) jsmap" js_double nat
  | TimingData js_double string

record metric_entry =
  mt_name :: string
  mt_help :: string
  mt_labels :: labels
  mt_value :: js_double
  mt_timestamp :: int
  mt_data :: metric_data

record collector =
  mc_metrics :: "(string, metric_entry) jsmap"
  mc_prefix :: string
  mc_defaultLabels :: labels

definition new_collector :: "string option \<Rightarrow> labels option \<Rightarrow> collector" where
  "new_collector prefix defaultLabels =
     \<lparr>mc_metrics = jm_empty, mc_prefix = or_default prefix [], mc_defaultLabels = or_default defaultLabels []\<rparr>"

subsection \<open>Keys\<close>

definition buildName :: "collector \<Rightarrow> string \<Rightarrow> string" where
  "buildName m name = (if mc_prefix m = [] then name else mc_prefix m @ ''_'' @ name)"

text \<open>A stable sort by a comparator.\<close>

fun insert_label :: "(string \<Rightarrow> string \<Rightarrow> int) \<Rightarrow> string \<times> string \<Rightarrow> labels \<Rightarrow> labels" where
  "insert_label compare l [] = [l]"
| "insert_label compare l (k # ks) = (if compare (fst l) (fst k) \<le> 0 then l # k # ks else k # insert_label compare l ks)"

definition sort_labels :: "(string \<Rightarrow> string \<Rightarrow> int) \<Rightarrow> labels \<Rightarrow> labels" where
  "sort_labels compare ls = foldr (insert_label compare) ls []"

definition labelsKey :: "(string \<Rightarrow> string \<Rightarrow> int) \<Rightarrow> string \<Rightarrow> labels \<Rightarrow> string" where
  "labelsKey compare name ls =
     name @ '':'' @ join_with '','' (map (\<lambda>(n, v). n @ ''='' @ v) (sort_labels compare ls))"

fun put_label :: "string \<Rightarrow> string \<Rightarrow> labels \<Rightarrow> labels" where
  "put_label n v [] = [(n, v)]"
| "put_label n v ((n', v') # ls) = (if n' = n then (n, v) # ls else (n', v') # put_label n v ls)"

definition mergeLabels :: "collector \<Rightarrow> labels option \<Rightarrow> labels" where
  "mergeLabels m ls = foldl (\<lambda>r (n, v). put_label n v r) (mc_defaultLabels m) (or_default ls [])"

definition metric_key :: "(string \<Rightarrow> string \<Rightarrow> int) \<Rightarrow> collector \<Rightarrow> string \<Rightarrow> labels option \<Rightarrow> string" where
  "metric_key compare m name ls = labelsKey compare (buildName m name) (mergeLabels m ls)"

subsection \<open>Operations\<close>

definition put_metric :: "string \<Rightarrow> metric_entry \<Rightarrow> collector \<Rightarrow> collector" where
  "put_metric k e m = m\<lparr>mc_metrics := jm_set k e (mc_metrics m)\<rparr>"

definition fresh_entry :: "int \<Rightarrow> collector \<Rightarrow> string \<Rightarrow> labels option \<Rightarrow> js_double \<Rightarrow> metric_data \<Rightarrow> metric_entry" where
  "fresh_entry now m name ls v d =
     \<lparr>mt_name = buildName m name, mt_help = name, mt_labels = mergeLabels m ls, mt_value = v, mt_timestamp = now, mt_data = d\<rparr>"

definition counter ::
    "(string \<Rightarrow> string \<Rightarrow> int) \<Rightarrow> int \<Rightarrow> string \<Rightarrow> js_double \<Rightarrow> labels option \<Rightarrow> collector \<Rightarrow> collector" where
  "counter compare now name v ls m =
     (let key = metric_key compare m name ls in
      case jm_get (mc_metrics m) key of
        Some e \<Rightarrow>
          if mt_data e = CounterData then put_metric key (e\<lparr>mt_value := d_plus (mt_value e) v\<rparr>) m
          else put_metric key (fresh_entry now m name ls v CounterData) m
      | None \<Rightarrow> put_metric key (fresh_entry now m name ls v CounterData) m)"

definition gauge ::
    "(string \<Rightarrow> string \<Rightarrow> int) \<Rightarrow> int \<Rightarrow> string \<Rightarrow> js_double \<Rightarrow> labels option \<Rightarrow> collector \<Rightarrow> collector" where
  "gauge compare now name v ls m = put_metric (metric_key compare m name ls) (fresh_entry now m name ls v GaugeData) m"

fun d_le :: "js_double \<Rightarrow> js_double \<Rightarrow> bool" where
  "d_le (Finite x) (Finite y) = (x \<le> y)"
| "d_le (Finite x) (Infinite neg) = (\<not> neg)"
| "d_le (Infinite neg) (Finite y) = neg"
| "d_le (Infinite a) (Infinite b) = (a \<or> \<not> b)"
| "d_le x y = False"

definition defaultBuckets :: "js_double list" where
  "defaultBuckets =
     map to_double [5 / 1000, 1 / 100, 25 / 1000, 5 / 100, 1 / 10, 25 / 100, 5 / 10, 1, 25 / 10, 5, 10]"

definition bucket_hit :: "js_double \<Rightarrow> js_double \<Rightarrow> nat" where
  "bucket_hit v b = (if d_le v b then 1 else 0)"

fun more_buckets :: "(js_double \<Rightarrow> string) \<Rightarrow> js_double \<Rightarrow> js_double list \<Rightarrow> (string, nat) jsmap \<Rightarrow> (string, nat) jsmap" where
  "more_buckets num_text v [] bm = bm"
| "more_buckets num_text v (b # bs) bm =
     more_buckets num_text v bs (jm_set (num_text b) (or_default (jm_get bm (num_text b)) 0 + bucket_hit v b) bm)"

fun first_buckets :: "(js_double \<Rightarrow> string) \<Rightarrow> js_double \<Rightarrow> js_double list \<Rightarrow> (string, nat) jsmap \<Rightarrow> (string, nat) jsmap" where
  "first_buckets num_text v [] bm = bm"
| "first_buckets num_text v (b # bs) bm = first_buckets num_text v bs (jm_set (num_text b) (bucket_hit v b) bm)"

definition histogram ::
    "(string \<Rightarrow> string \<Rightarrow> int) \<Rightarrow> (js_double \<Rightarrow> string) \<Rightarrow> int \<Rightarrow> string \<Rightarrow> js_double \<Rightarrow> labels option \<Rightarrow>
     js_double list option \<Rightarrow> collector \<Rightarrow> collector" where
  "histogram compare num_text now name v ls buckets m =
     (let key = metric_key compare m name ls;
          useBuckets = or_default buckets defaultBuckets;
          new = put_metric key (fresh_entry now m name ls v (HistogramData (first_buckets num_text v useBuckets jm_empty) v 1)) m
      in case jm_get (mc_metrics m) key of
           Some e \<Rightarrow>
             (case mt_data e of
                HistogramData bm s n \<Rightarrow>
                  put_metric key (e\<lparr>mt_data := HistogramData (more_buckets num_text v useBuckets bm) (d_plus s v) (n + 1)\<rparr>) m
              | _ \<Rightarrow> new)
         | None \<Rightarrow> new)"

definition defaultQuantiles :: "js_double list" where
  "defaultQuantiles = map to_double [5 / 10, 9 / 10, 95 / 100, 99 / 100]"

definition summary ::
    "(string \<Rightarrow> string \<Rightarrow> int) \<Rightarrow> (js_double \<Rightarrow> string) \<Rightarrow> int \<Rightarrow> string \<Rightarrow> js_double \<Rightarrow> labels option \<Rightarrow>
     js_double list option \<Rightarrow> collector \<Rightarrow> collector" where
  "summary compare num_text now name v ls quantiles m =
     (let key = metric_key compare m name ls;
          qMap = foldl (\<lambda>q x. jm_set (num_text x) 0 q) jm_empty (or_default quantiles defaultQuantiles);
          new = put_metric key (fresh_entry now m name ls v (SummaryData qMap v 1)) m
      in case jm_get (mc_metrics m) key of
           Some e \<Rightarrow>
             (case mt_data e of
                SummaryData q s n \<Rightarrow> put_metric key (e\<lparr>mt_data := SummaryData q (d_plus s v) (n + 1)\<rparr>) m
              | _ \<Rightarrow> new)
         | None \<Rightarrow> new)"

definition timing ::
    "(string \<Rightarrow> string \<Rightarrow> int) \<Rightarrow> int \<Rightarrow> string \<Rightarrow> js_double \<Rightarrow> string option \<Rightarrow> labels option \<Rightarrow> collector \<Rightarrow> collector" where
  "timing compare now name duration unit ls m =
     put_metric (metric_key compare m name ls)
       (fresh_entry now m name ls duration (TimingData duration (or_default unit ''ms''))) m"

text \<open>Without labels the key is built from none, not from the default labels.\<close>

definition removal_key :: "(string \<Rightarrow> string \<Rightarrow> int) \<Rightarrow> collector \<Rightarrow> string \<Rightarrow> labels option \<Rightarrow> string" where
  "removal_key compare m name ls =
     labelsKey compare (buildName m name) (case ls of None \<Rightarrow> [] | Some l \<Rightarrow> mergeLabels m (Some l))"

definition remove_metric :: "(string \<Rightarrow> string \<Rightarrow> int) \<Rightarrow> string \<Rightarrow> labels option \<Rightarrow> collector \<Rightarrow> collector" where
  "remove_metric compare name ls m = m\<lparr>mc_metrics := jm_del (removal_key compare m name ls) (mc_metrics m)\<rparr>"

definition clear_metrics :: "collector \<Rightarrow> collector" where
  "clear_metrics m = m\<lparr>mc_metrics := jm_empty\<rparr>"

definition reset_collector :: "(string \<Rightarrow> string \<Rightarrow> int) \<Rightarrow> string option \<Rightarrow> labels option \<Rightarrow> collector \<Rightarrow> collector" where
  "reset_collector compare name ls m =
     (if or_default name [] = [] then clear_metrics m else remove_metric compare (the name) ls m)"

definition collector_snapshot :: "collector \<Rightarrow> metric_entry list" where
  "collector_snapshot m = jm_values (mc_metrics m)"

subsection \<open>Histograms count\<close>

text \<open>A run of observations under one name and one set of labels.\<close>

definition observe_all ::
    "(string \<Rightarrow> string \<Rightarrow> int) \<Rightarrow> (js_double \<Rightarrow> string) \<Rightarrow> string \<Rightarrow> labels option \<Rightarrow> js_double list option \<Rightarrow>
     (int \<times> js_double) list \<Rightarrow> collector \<Rightarrow> collector" where
  "observe_all compare num_text name ls buckets obs m =
     foldl (\<lambda>m (now, v). histogram compare num_text now name v ls buckets m) m obs"

definition counted :: "js_double list \<Rightarrow> js_double \<Rightarrow> nat" where
  "counted vs b = length (filter (\<lambda>v. d_le v b) vs)"

text \<open>What the histogram shows after the values \<open>vs\<close>.\<close>

definition histogram_of :: "(js_double \<Rightarrow> string) \<Rightarrow> js_double list \<Rightarrow> js_double list \<Rightarrow> metric_data \<Rightarrow> bool" where
  "histogram_of num_text bs vs d \<longleftrightarrow>
     (case d of
        HistogramData bm s n \<Rightarrow>
          n = length vs \<and> s = foldl d_plus (hd vs) (tl vs) \<and>
          (\<forall>b \<in> set bs. jm_get bm (num_text b) = Some (counted vs b))
      | _ \<Rightarrow> False)"

lemma more_buckets_other: "t \<notin> num_text ` set bs \<Longrightarrow> jm_get (more_buckets num_text v bs bm) t = jm_get bm t"
  by (induction bs arbitrary: bm) auto

lemma first_buckets_other: "t \<notin> num_text ` set bs \<Longrightarrow> jm_get (first_buckets num_text v bs bm) t = jm_get bm t"
  by (induction bs arbitrary: bm) auto

lemma more_buckets_get:
  assumes "distinct bs" "inj_on num_text (set bs)" "b \<in> set bs"
  shows "jm_get (more_buckets num_text v bs bm) (num_text b) = Some (or_default (jm_get bm (num_text b)) 0 + bucket_hit v b)"
  using assms
proof (induction bs arbitrary: bm)
  case (Cons c bs)
  show ?case
  proof (cases "b = c")
    case True
    with Cons.prems have "num_text b \<notin> num_text ` set bs" by (auto simp: inj_on_def)
    from more_buckets_other [OF this] show ?thesis by (simp add: True)
  next
    case False
    with Cons.prems have "num_text b \<noteq> num_text c" "b \<in> set bs" by (auto simp: inj_on_def)
    with Cons show ?thesis by simp
  qed
qed simp

lemma first_buckets_get:
  assumes "distinct bs" "inj_on num_text (set bs)" "b \<in> set bs"
  shows "jm_get (first_buckets num_text v bs bm) (num_text b) = Some (bucket_hit v b)"
  using assms
proof (induction bs arbitrary: bm)
  case (Cons c bs)
  show ?case
  proof (cases "b = c")
    case True
    with Cons.prems have "num_text b \<notin> num_text ` set bs" by (auto simp: inj_on_def)
    from first_buckets_other [OF this] show ?thesis by (simp add: True)
  next
    case False
    with Cons.prems show ?thesis using Cons.IH by simp
  qed
qed simp

lemma put_metric_config [simp]:
  "mc_prefix (put_metric k e m) = mc_prefix m" "mc_defaultLabels (put_metric k e m) = mc_defaultLabels m"
  "mc_metrics (put_metric k e m) = jm_set k e (mc_metrics m)"
  by (simp_all add: put_metric_def)

lemma key_config:
  "mc_prefix m' = mc_prefix m \<Longrightarrow> mc_defaultLabels m' = mc_defaultLabels m \<Longrightarrow>
   metric_key compare m' name ls = metric_key compare m name ls"
  by (simp add: metric_key_def buildName_def mergeLabels_def)

lemma histogram_config [simp]:
  "mc_prefix (histogram compare num_text now name v ls buckets m) = mc_prefix m"
  "mc_defaultLabels (histogram compare num_text now name v ls buckets m) = mc_defaultLabels m"
  by (simp_all add: histogram_def Let_def split: option.splits metric_data.splits)

lemma histogram_step:
  assumes "distinct (or_default buckets defaultBuckets)" "inj_on num_text (set (or_default buckets defaultBuckets))"
    and "jm_get (mc_metrics m) (metric_key compare m name ls) = Some e"
    and "histogram_of num_text (or_default buckets defaultBuckets) vs (mt_data e)" "vs \<noteq> []"
  shows "\<exists>e'. jm_get (mc_metrics (histogram compare num_text now name v ls buckets m)) (metric_key compare m name ls) = Some e' \<and>
    histogram_of num_text (or_default buckets defaultBuckets) (vs @ [v]) (mt_data e')"
proof -
  obtain bm s n where d: "mt_data e = HistogramData bm s n" using assms(4) by (auto simp: histogram_of_def split: metric_data.splits)
  have "foldl d_plus (hd (vs @ [v])) (tl (vs @ [v])) = d_plus (foldl d_plus (hd vs) (tl vs)) v" using assms(5) by simp
  then show ?thesis
    using assms(3,4) d more_buckets_get [OF assms(1,2)]
    by (auto simp: histogram_def Let_def histogram_of_def counted_def bucket_hit_def)
qed

text \<open>after any observations under one name and labels the histogram counts exactly: the
  number and the floating-point sum of the values, and at each bucket the number of values that are not above
  it (the names of the buckets being different).\<close>

theorem histogram_counts:
  assumes "distinct (or_default buckets defaultBuckets)" "inj_on num_text (set (or_default buckets defaultBuckets))"
    and "obs \<noteq> []"
  shows "\<exists>e. jm_get (mc_metrics (observe_all compare num_text name ls buckets obs (new_collector p dl)))
      (metric_key compare (new_collector p dl) name ls) = Some e \<and>
    histogram_of num_text (or_default buckets defaultBuckets) (map snd obs) (mt_data e)"
  using assms(3)
proof (induction obs rule: rev_induct)
  case (snoc x obs)
  define m where "m = observe_all compare num_text name ls buckets obs (new_collector p dl)"
  have config: "mc_prefix m = mc_prefix (new_collector p dl) \<and> mc_defaultLabels m = mc_defaultLabels (new_collector p dl)"
    unfolding m_def by (induction obs rule: rev_induct) (simp_all add: observe_all_def case_prod_beta)
  then have key: "metric_key compare m name ls = metric_key compare (new_collector p dl) name ls" by (intro key_config) auto
  have next_m: "observe_all compare num_text name ls buckets (obs @ [x]) (new_collector p dl) =
      histogram compare num_text (fst x) name (snd x) ls buckets m"
    by (simp add: observe_all_def m_def case_prod_beta)
  show ?case
  proof (cases "obs = []")
    case True
    then have "m = new_collector p dl" by (simp add: m_def observe_all_def)
    then have "jm_get (mc_metrics m) (metric_key compare m name ls) = None" by (simp add: new_collector_def jm_get_def jm_empty_def)
    then show ?thesis
      unfolding next_m key [symmetric]
      using first_buckets_get [OF assms(1,2)] True
      by (simp add: histogram_def Let_def histogram_of_def fresh_entry_def counted_def bucket_hit_def)
  next
    case False
    then obtain e where "jm_get (mc_metrics m) (metric_key compare m name ls) = Some e"
      "histogram_of num_text (or_default buckets defaultBuckets) (map snd obs) (mt_data e)"
      using snoc.IH [OF False] by (auto simp only: key m_def [symmetric])
    from histogram_step [OF assms(1,2) this, of "fst x" "snd x"] False show ?thesis
      unfolding next_m key [symmetric] by simp
  qed
qed simp

theorem histogram_counts_witness:
  "\<exists>e. jm_get (mc_metrics (observe_all (\<lambda>_ _. 0) (\<lambda>x. if x = Finite 1 then ''1'' else ''2'') ''h'' None
      (Some [Finite 1, Finite 2]) [(0, Finite 1), (5, Finite 2)] (new_collector None None)))
      (metric_key (\<lambda>_ _. 0) (new_collector None None) ''h'' None) = Some e \<and>
    histogram_of (\<lambda>x. if x = Finite 1 then ''1'' else ''2'') [Finite 1, Finite 2] [Finite 1, Finite 2] (mt_data e)"
proof -
  have "inj_on (\<lambda>x. if x = Finite 1 then ''1'' else ''2'') (set (or_default (Some [Finite 1, Finite 2]) defaultBuckets))"
    by (simp add: inj_on_def)
  from histogram_counts [OF _ this, of "[(0, Finite 1), (5, Finite 2)]" "\<lambda>_ _. 0" "''h''" None None None]
  show ?thesis by simp
qed

subsection \<open>Keys that meet\<close>

text \<open>the values of labels are not escaped in a key: two different sets of labels share one
  counter, and what is counted for one is added to the other.\<close>

theorem label_sets_share_counter:
  assumes "compare ''a'' ''b'' \<le> 0"
  shows "\<exists>e. jm_get (mc_metrics (counter compare t2 n y (Some [(''a'', ''1,b=2'')])
        (counter compare t1 n x (Some [(''a'', ''1''), (''b'', ''2'')]) (new_collector p None))))
      (metric_key compare (new_collector p None) n (Some [(''a'', ''1,b=2'')])) = Some e \<and>
    mt_value e = d_plus x y \<and> mt_labels e = [(''a'', ''1''), (''b'', ''2'')]"
proof -
  have one: "metric_key compare (new_collector p None) n (Some [(''a'', ''1''), (''b'', ''2'')]) =
      metric_key compare (new_collector p None) n (Some [(''a'', ''1,b=2'')])"
    using assms by (simp add: metric_key_def labelsKey_def sort_labels_def mergeLabels_def new_collector_def buildName_def)
  have empty: "jm_get (mc_metrics (new_collector p None)) k = None" for k by (simp add: new_collector_def jm_get_def jm_empty_def)
  have labels: "mergeLabels (new_collector p None) (Some [(''a'', ''1''), (''b'', ''2'')]) = [(''a'', ''1''), (''b'', ''2'')]"
    by (simp add: mergeLabels_def new_collector_def)
  define k where "k = metric_key compare (new_collector p None) n (Some [(''a'', ''1,b=2'')])"
  define e where "e = fresh_entry t1 (new_collector p None) n (Some [(''a'', ''1''), (''b'', ''2'')]) x CounterData"
  define m where "m = put_metric k e (new_collector p None)"
  have m: "counter compare t1 n x (Some [(''a'', ''1''), (''b'', ''2'')]) (new_collector p None) = m"
    by (simp add: counter_def Let_def empty one m_def e_def k_def)
  have "metric_key compare m n (Some [(''a'', ''1,b=2'')]) = k" unfolding k_def by (rule key_config) (simp_all add: m_def)
  then have "counter compare t2 n y (Some [(''a'', ''1,b=2'')]) m = put_metric k (e\<lparr>mt_value := d_plus x y\<rparr>) m"
    by (simp add: counter_def Let_def) (simp add: m_def e_def fresh_entry_def)
  then show ?thesis unfolding m by (simp add: k_def [symmetric] e_def fresh_entry_def labels)
qed

theorem label_sets_share_counter_witness:
  "\<exists>e. jm_get (mc_metrics (counter (\<lambda>s t. if s = ''a'' then -1 else 1) 1 ''n'' (Finite 1) (Some [(''a'', ''1,b=2'')])
        (counter (\<lambda>s t. if s = ''a'' then -1 else 1) 0 ''n'' (Finite 1) (Some [(''a'', ''1''), (''b'', ''2'')]) (new_collector None None))))
      (metric_key (\<lambda>s t. if s = ''a'' then -1 else 1) (new_collector None None) ''n'' (Some [(''a'', ''1,b=2'')])) = Some e \<and>
    mt_value e = d_plus (Finite 1) (Finite 1) \<and> mt_labels e = [(''a'', ''1''), (''b'', ''2'')]"
  by (rule label_sets_share_counter) simp

text \<open>in a collector with default labels a metric recorded without labels cannot be removed
  without labels: removing it leaves everything as it is.\<close>

theorem default_labels_block_removal:
  assumes "mc_metrics m = [(metric_key compare m n None, e)]" "mc_defaultLabels m \<noteq> []"
  shows "remove_metric compare n None m = m \<and> reset_collector compare (Some n) None m = (if n = [] then clear_metrics m else m)"
proof -
  have "foldr (insert_label compare) ls [] \<noteq> []" if "ls \<noteq> []" for ls
  proof -
    have "insert_label compare l ks \<noteq> []" for l ks by (cases ks) auto
    then show ?thesis using that by (cases ls) auto
  qed
  then obtain l ls where sorted: "sort_labels compare (mergeLabels m None) = l # ls"
    using assms(2) by (cases "sort_labels compare (mergeLabels m None)") (auto simp: sort_labels_def mergeLabels_def)
  have "metric_key compare m n None \<noteq> removal_key compare m n None"
    by (cases l; cases ls) (simp_all add: metric_key_def removal_key_def labelsKey_def sorted, simp_all add: sort_labels_def)
  then have "remove_metric compare n None m = m"
    using assms(1) by (simp add: remove_metric_def jm_del_def)
  then show ?thesis by (simp add: reset_collector_def)
qed

theorem default_labels_block_removal_witness:
  "\<exists>m. remove_metric (\<lambda>_ _. 0) ''n'' None m = m \<and> mc_metrics m \<noteq> []"
proof -
  define m where "m = gauge (\<lambda>_ _. 0) 0 ''n'' (Finite 1) None (new_collector None (Some [(''env'', ''prod'')]))"
  have "\<exists>e. mc_metrics m = [(metric_key (\<lambda>_ _. 0) m ''n'' None, e)]" "mc_defaultLabels m \<noteq> []"
    by (simp_all add: m_def gauge_def put_metric_def new_collector_def jm_empty_def jm_set_def metric_key_def buildName_def mergeLabels_def)
  then obtain e where m: "mc_metrics m = [(metric_key (\<lambda>_ _. 0) m ''n'' None, e)]" "mc_defaultLabels m \<noteq> []" by blast
  from default_labels_block_removal [OF m] m(1) show ?thesis by auto
qed

end
