(* ===== verification/DidEthr.thy ===== *)
theory DidEthr
  imports DidDocument
begin

section \<open>The did:ethr method\<close>

text \<open>
  packages/did/src/methods/did-ethr.ts. What the Ethereum node answers is a parameter: the text eth_call
  gives, or None for any failure; the events eth_getLogs gives, with the fields the code reads, or None for any
  failure. Event fields are of the declared types; chain ids
  are below 2^53. The resolver sets the verification methods, the
  controller and the creation time of a fresh DIDDocument; the record has these, the other fields are empty.
\<close>

subsection \<open>Data\<close>

record chain_contract =
  ec_chainId :: int
  ec_address :: string
  ec_rpcUrl :: string

record attribute_log =
  al_name :: "string option"
  al_value :: "string option"
  al_validTo :: "int option"

record delegate_log =
  dl_delegateType :: "string option"
  dl_delegate :: "string option"
  dl_validTo :: "int option"

record did_attribute =
  da_name :: string
  da_value :: string
  da_validTo :: int

record did_delegate =
  de_delegateType :: string
  de_delegate :: string
  de_validTo :: int

text \<open>A verification method of the class, or a plain object with a key in hexadecimal or an account.\<close>

datatype ethr_method =
    KeyMethod verification_method
  | HexMethod (hm_id: string) (hm_type: verification_type) (hm_controller: string) (hm_publicKeyHex: string)
  | AccountMethod (am_id: string) (am_controller: string) (am_blockchainAccountId: string)

record ethr_document =
  et_id :: string
  et_controller :: "string list"
  et_verificationMethod :: "ethr_method list"
  et_created :: int

definition DEFAULT_CHAIN_CONFIGS :: "(int \<times> chain_contract) list" where
  "DEFAULT_CHAIN_CONFIGS =
     [(1, \<lparr>ec_chainId = 1, ec_address = ''0xdca7ef03e98e0eb2d0e1588c0ae6f7a2f2f0a0e0'',
        ec_rpcUrl = ''https://mainnet.infura.io/v3''\<rparr>),
      (5, \<lparr>ec_chainId = 5, ec_address = ''0x1b6b8f0a0b8a0b8a0b8a0b8a0b8a0b8a0b8a0b8a'',
        ec_rpcUrl = ''https://goerli.infura.io/v3''\<rparr>)]"

fun add_missing_configs :: "(int \<times> chain_contract) list \<Rightarrow> (int, chain_contract) jsmap \<Rightarrow> (int, chain_contract) jsmap" where
  "add_missing_configs [] m = m"
| "add_missing_configs ((i, c) # cs) m = add_missing_configs cs (if jm_has m i then m else jm_set i c m)"

definition ethr_resolver :: "(int \<times> chain_contract) list option \<Rightarrow> (int, chain_contract) jsmap" where
  "ethr_resolver configs =
     add_missing_configs DEFAULT_CHAIN_CONFIGS (foldl (\<lambda>m (i, c). jm_set i c m) jm_empty (or_default configs []))"

subsection \<open>Resolution\<close>

text \<open>What the node answers: to eth_call on a contract, and the two kinds of events of an address.\<close>

record ethr_node =
  nd_call :: "chain_contract \<Rightarrow> string \<Rightarrow> string option"
  nd_attributes :: "chain_contract \<Rightarrow> string \<Rightarrow> attribute_log list option"
  nd_delegates :: "chain_contract \<Rightarrow> string \<Rightarrow> delegate_log list option"

definition or_text :: "string option \<Rightarrow> string \<Rightarrow> string" where
  "or_text v d = (if or_default v [] = [] then d else the v)"

definition getOwner :: "ethr_node \<Rightarrow> int \<Rightarrow> chain_contract \<Rightarrow> string \<Rightarrow> string \<times> int" where
  "getOwner node now config address =
     (case nd_call node config address of
        Some data \<Rightarrow> (to_lower (''0x'' @ drop 26 data), now div 1000)
      | None \<Rightarrow> (address, now div 1000))"

definition getAttributes :: "ethr_node \<Rightarrow> chain_contract \<Rightarrow> string \<Rightarrow> did_attribute list" where
  "getAttributes node config address =
     map (\<lambda>l. \<lparr>da_name = or_text (al_name l) ''did/pub/Ed25519/verificationMethod/1'', da_value = or_text (al_value l) ''0x'',
               da_validTo = or_default (al_validTo l) 0\<rparr>)
       (or_default (nd_attributes node config address) [])"

definition getDelegates :: "ethr_node \<Rightarrow> chain_contract \<Rightarrow> string \<Rightarrow> did_delegate list" where
  "getDelegates node config address =
     map (\<lambda>l. \<lparr>de_delegateType = or_text (dl_delegateType l) ''verificationMethod'',
               de_delegate = or_text (dl_delegate l) ''0x0000000000000000000000000000000000000000'',
               de_validTo = or_default (dl_validTo l) 0\<rparr>)
       (or_default (nd_delegates node config address) [])"

definition still_valid :: "int \<Rightarrow> int \<Rightarrow> bool" where
  "still_valid now validTo \<longleftrightarrow> validTo = 0 \<or> validTo * 1000 > now"

definition attribute_method :: "string \<Rightarrow> int \<Rightarrow> did_attribute \<Rightarrow> ethr_method list" where
  "attribute_method did now a =
     (if still_valid now (da_validTo a) \<and> starts_with (da_name a) ''did/pub/'' then
        (let parts = split_on (CHR ''/'') (da_name a) in
         if 3 \<le> length parts then
           [HexMethod (did @ ''#delegate-'' @ da_name a)
              (if parts ! 2 = ''Ed25519'' then Ed25519VerificationKey2020 else EcdsaSecp256k1VerificationKey2019)
              did (da_value a)]
         else [])
      else [])"

definition delegate_method :: "string \<Rightarrow> int \<Rightarrow> int \<Rightarrow> did_delegate \<Rightarrow> ethr_method list" where
  "delegate_method did chainId now d =
     (if still_valid now (de_validTo d)
      then [AccountMethod (did @ ''#delegate-'' @ de_delegateType d) did
              (''eip155:'' @ show_int chainId @ '':'' @ de_delegate d)]
      else [])"

text \<open>The chain and the address a method-specific id names.\<close>

definition chain_and_address :: "string \<Rightarrow> int \<times> string" where
  "chain_and_address msi =
     (let parts = split_on (CHR '':'') msi in
      if 2 \<le> length parts \<and> parts ! 0 \<noteq> [] \<and> list_all js_digit (parts ! 0)
      then (digits_val (parts ! 0), to_lower (join_with '':'' (drop 1 parts)))
      else (1, to_lower msi))"

definition unsupported_chain :: "int \<Rightarrow> js_exn" where
  "unsupported_chain i = DIDError (''Unsupported chain ID: '' @ show_int i) UnsupportedMethod"

definition resolve_ethr :: "(int, chain_contract) jsmap \<Rightarrow> ethr_node \<Rightarrow> int \<Rightarrow> string \<Rightarrow> ethr_document result" where
  "resolve_ethr configs node now msi =
     (let (chainId, address) = chain_and_address msi; did = ''did:ethr:'' @ msi in
      case jm_get configs chainId of
        None \<Rightarrow> Inl (unsupported_chain chainId)
      | Some config \<Rightarrow>
          (let (owner, changed) = getOwner node now config address in
           Inr \<lparr>et_id = did, et_controller = [did],
             et_verificationMethod =
               KeyMethod (fromEd25519 (did @ ''#controller'') did (replicate 32 0)) #
               concat (map (attribute_method did now) (getAttributes node config address)) @
               concat (map (delegate_method did chainId now) (getDelegates node config address)),
             et_created = changed * 1000\<rparr>))"

subsection \<open>Properties\<close>

text \<open>the owner of the identity on the chain plays no part: whatever the contract answers, the
  document of every did:ethr DID is controlled by the DID itself, and its controller key is the
  Ed25519 key of 32 zero bytes, the same for all.\<close>

theorem ethr_owner_ignored:
  assumes "resolve_ethr configs node now msi = Inr d"
  shows "resolve_ethr configs (node\<lparr>nd_call := answer\<rparr>) now msi = Inr d \<and>
    et_controller d = [''did:ethr:'' @ msi] \<and>
    (\<exists>ms. et_verificationMethod d = KeyMethod (fromEd25519 (''did:ethr:'' @ msi @ ''#controller'') (''did:ethr:'' @ msi) (replicate 32 0)) # ms)"
proof -
  have same: "getAttributes (node\<lparr>nd_call := answer\<rparr>) = getAttributes node" "getDelegates (node\<lparr>nd_call := answer\<rparr>) = getDelegates node"
    by (simp_all add: getAttributes_def getDelegates_def fun_eq_iff)
  have changed: "snd (getOwner n now c a) = now div 1000" for n c a by (simp add: getOwner_def split: option.splits)
  show ?thesis
    using assms by (auto simp: resolve_ethr_def Let_def same changed case_prod_beta split: option.splits)
qed

definition quiet_node :: ethr_node where
  "quiet_node = \<lparr>nd_call = \<lambda>_ _. None, nd_attributes = \<lambda>_ _. Some [\<lparr>al_name = None, al_value = None, al_validTo = None\<rparr>],
     nd_delegates = \<lambda>_ _. None\<rparr>"

lemma ethr_resolves_iff: "(\<exists>d. resolve_ethr configs node now msi = Inr d) \<longleftrightarrow> jm_has configs (fst (chain_and_address msi))"
  by (auto simp: resolve_ethr_def Let_def case_prod_beta jm_has_def split: option.splits)

lemma main_chain: "jm_has (ethr_resolver None) 1"
  by (simp add: ethr_resolver_def DEFAULT_CHAIN_CONFIGS_def jm_has_def jm_empty_def jm_get_def jm_set_def)

lemma quiet_resolves: "\<exists>d. resolve_ethr (ethr_resolver None) quiet_node 5000 ''0xAB'' = Inr d"
  unfolding ethr_resolves_iff by (simp add: chain_and_address_def main_chain)

theorem ethr_owner_ignored_witness:
  "\<exists>d. resolve_ethr (ethr_resolver None) (quiet_node\<lparr>nd_call := \<lambda>_ _. Some ''0xowner''\<rparr>) 5000 ''0xAB'' = Inr d \<and>
     et_controller d = [''did:ethr:0xAB'']"
proof -
  obtain d where d: "resolve_ethr (ethr_resolver None) quiet_node 5000 ''0xAB'' = Inr d" using quiet_resolves by blast
  from ethr_owner_ignored [OF d] show ?thesis by auto
qed

text \<open>an event in the form in which nodes deliver it, without decoded fields, is taken for an
  attribute with an Ed25519 key that never expires and whose value is 0x.\<close>

theorem raw_event_becomes_key:
  assumes "resolve_ethr configs node now msi = Inr d" "chain_and_address msi = (i, a)" "jm_get configs i = Some c"
    and "nd_attributes node c a = Some ls" "\<lparr>al_name = None, al_value = None, al_validTo = None\<rparr> \<in> set ls"
  shows "HexMethod (''did:ethr:'' @ msi @ ''#delegate-did/pub/Ed25519/verificationMethod/1'') Ed25519VerificationKey2020
      (''did:ethr:'' @ msi) ''0x'' \<in> set (et_verificationMethod d)"
proof -
  define raw :: did_attribute where "raw = \<lparr>da_name = ''did/pub/Ed25519/verificationMethod/1'', da_value = ''0x'', da_validTo = 0\<rparr>"
  have "raw \<in> set (getAttributes node c a)" using assms(4,5) by (force simp: getAttributes_def or_text_def raw_def)
  moreover have "HexMethod (''did:ethr:'' @ msi @ ''#delegate-did/pub/Ed25519/verificationMethod/1'') Ed25519VerificationKey2020
      (''did:ethr:'' @ msi) ''0x'' \<in> set (attribute_method (''did:ethr:'' @ msi) now raw)"
    by (simp add: attribute_method_def raw_def still_valid_def Let_def)
  ultimately show ?thesis
    using assms(1-3) by (auto simp: resolve_ethr_def Let_def case_prod_beta)
qed

theorem raw_event_becomes_key_witness:
  "\<exists>d. resolve_ethr (ethr_resolver None) quiet_node 5000 ''0xAB'' = Inr d \<and>
    HexMethod ''did:ethr:0xAB#delegate-did/pub/Ed25519/verificationMethod/1'' Ed25519VerificationKey2020 ''did:ethr:0xAB'' ''0x''
      \<in> set (et_verificationMethod d)"
proof -
  obtain d where d: "resolve_ethr (ethr_resolver None) quiet_node 5000 ''0xAB'' = Inr d" using quiet_resolves by blast
  have chain: "chain_and_address ''0xAB'' = (1, to_lower ''0xAB'')" by (simp add: chain_and_address_def)
  obtain c where c: "jm_get (ethr_resolver None) 1 = Some c"
    using main_chain by (auto simp: jm_has_def)
  from raw_event_becomes_key [OF d chain c] d show ?thesis by (simp add: quiet_node_def)
qed

text \<open>a DID on a chain without a configured contract is refused, and one on any other chain always
  resolves, however the node behaves.\<close>

theorem ethr_resolution_total:
  "(\<exists>d. resolve_ethr configs node now msi = Inr d) = jm_has configs (fst (chain_and_address msi))"
  by (rule ethr_resolves_iff)

end
