(* ===== verification/HostInterface.thy ===== *)
theory HostInterface
  imports Json
begin

section \<open>The host of the WebAssembly modules\<close>

text \<open>
  wasm/host-interface.ts. A memory is the list of its bytes; pointers and lengths arrive as i32 values, that is as
  numbers that may be negative. The functions a host supplies are a parameter, over a state of their own; all
  of them return, except that checkAttribute may throw. What fetching and compiling a module gives
  is a parameter too: an exception, or the memory its instance exports, if any.
\<close>

subsection \<open>Memory\<close>

text \<open>\<open>bytes.indexOf(0, ptr)\<close>.\<close>

definition zero_from :: "bytes \<Rightarrow> int \<Rightarrow> int" where
  "zero_from bs ptr =
     (let from = slice_bound ptr (length bs); run = length (takeWhile (\<lambda>b. b \<noteq> 0) (drop from bs))
      in if from + run < length bs then int (from + run) else - 1)"

text \<open>\<open>new TextDecoder().decode(bytes)\<close> drops a byte order mark.\<close>

definition text_decode :: "bytes \<Rightarrow> js_text" where
  "text_decode bs = (if take 3 bs = [0xEF, 0xBB, 0xBF] then from_utf8 (drop 3 bs) else from_utf8 bs)"

definition readWasmString :: "bytes \<Rightarrow> int \<Rightarrow> int \<Rightarrow> js_text" where
  "readWasmString memory ptr maxLen =
     (let end = zero_from memory ptr; len = (if end \<ge> 0 then end - ptr else maxLen)
      in text_decode (js_slice memory ptr (ptr + len)))"

text \<open>\<open>view.set(data, ptr)\<close>.\<close>

definition typed_set :: "bytes \<Rightarrow> int \<Rightarrow> bytes \<Rightarrow> bytes result" where
  "typed_set view ptr data =
     (if ptr < 0 \<or> ptr + int (length data) > int (length view) then Inl (JsRangeError ''offset is out of bounds'')
      else Inr (take (nat ptr) view @ data @ drop (nat ptr + length data) view))"

text \<open>The final zero is an assignment to an index, which does nothing beyond the end.\<close>

definition writeWasmString :: "bytes \<Rightarrow> int \<Rightarrow> js_text \<Rightarrow> (int \<times> bytes) result" where
  "writeWasmString memory ptr str =
     (let bytes = to_utf8 str in
      case typed_set memory ptr bytes of
        Inl e \<Rightarrow> Inl e
      | Inr view \<Rightarrow> Inr (int (length bytes), view[nat (ptr + int (length bytes)) := 0]))"

definition readWasmBytes :: "bytes \<Rightarrow> int \<Rightarrow> int \<Rightarrow> bytes" where
  "readWasmBytes memory ptr len = js_slice memory ptr (ptr + len)"

definition writeWasmBytes :: "bytes \<Rightarrow> int \<Rightarrow> bytes \<Rightarrow> bytes result" where
  "writeWasmBytes memory ptr data = typed_set memory ptr data"

subsection \<open>Instances\<close>

text \<open>What the map of instances holds: an instance with the memory it exports, as the type
  of the map says, or the object with module and instance that WebAssembly.instantiate gives for bytes.\<close>

datatype stored_instance = InstanceOf "bytes option" | SourceObject

record 'h host_functions =
  hf_hash :: "bytes \<Rightarrow> bytes"
  hf_verifyCredential :: "bytes \<Rightarrow> bytes \<Rightarrow> bool"
  hf_checkAttribute :: "js_text \<Rightarrow> js_value \<Rightarrow> bool result"
  hf_storeBlob :: "js_text \<Rightarrow> bytes \<Rightarrow> 'h \<Rightarrow> 'h"
  hf_getBlob :: "js_text \<Rightarrow> 'h \<Rightarrow> bytes option"
  hf_emitEvent :: "js_text \<Rightarrow> bytes \<Rightarrow> 'h \<Rightarrow> 'h"
  hf_logMessage :: "js_text \<Rightarrow> 'h \<Rightarrow> 'h"
  hf_randomBytes :: "int \<Rightarrow> 'h \<Rightarrow> bytes \<times> 'h"

record 'h wasm_host =
  wh_instances :: "(string, stored_instance) jsmap"
  wh_host :: 'h

definition no_exports :: js_exn where
  "no_exports = JsTypeError ''Cannot read properties of undefined (reading memory)''"

text \<open>\<open>instance.exports.memory\<close>; a SourceObject has no exports.\<close>

definition exported_memory :: "stored_instance \<Rightarrow> bytes option result" where
  "exported_memory i = (case i of InstanceOf m \<Rightarrow> Inr m | SourceObject \<Rightarrow> Inl no_exports)"

definition instantiate :: "bytes option result \<Rightarrow> string \<Rightarrow> 'h wasm_host \<Rightarrow> bytes option result \<times> 'h wasm_host" where
  "instantiate loaded name w =
     (case jm_get (wh_instances w) name of
        Some existing \<Rightarrow> (exported_memory existing, w)
      | None \<Rightarrow>
          (case loaded of
             Inl e \<Rightarrow> (Inl e, w)
           | Inr _ \<Rightarrow>
               (exported_memory SourceObject, w\<lparr>wh_instances := jm_set name SourceObject (wh_instances w)\<rparr>)))"

definition getCredentialVerify :: "bytes option result \<Rightarrow> 'h wasm_host \<Rightarrow> bytes option result \<times> 'h wasm_host" where
  "getCredentialVerify loaded w = instantiate loaded ''credential-verify'' w"

definition getDidResolve :: "bytes option result \<Rightarrow> 'h wasm_host \<Rightarrow> bytes option result \<times> 'h wasm_host" where
  "getDidResolve loaded w = instantiate loaded ''did-resolve'' w"

definition getAgeProof :: "bytes option result \<Rightarrow> 'h wasm_host \<Rightarrow> bytes option result \<times> 'h wasm_host" where
  "getAgeProof loaded w = instantiate loaded ''age-proof'' w"

text \<open>The memory of the first instance that exports one, whichever module is calling.\<close>

fun getActiveMemory :: "(string, stored_instance) jsmap \<Rightarrow> (string \<times> bytes) result" where
  "getActiveMemory [] = Inl (JsError ''No active Wasm memory found'')"
| "getActiveMemory ((n, InstanceOf (Some m)) # is) = Inr (n, m)"
| "getActiveMemory ((n, InstanceOf None) # is) = getActiveMemory is"
| "getActiveMemory ((n, SourceObject) # is) = Inl no_exports"

definition destroy_host :: "'h wasm_host \<Rightarrow> 'h wasm_host" where
  "destroy_host w = w\<lparr>wh_instances := jm_empty\<rparr>"

subsection \<open>Imports\<close>

text \<open>An import that works on the active memory; \<open>with_memory\<close> is \<open>const memory = this.getActiveMemory()\<close>,
  \<open>put_memory\<close> stores what the import wrote.\<close>

definition with_memory :: "'h wasm_host \<Rightarrow> (string \<Rightarrow> bytes \<Rightarrow> int codec \<times> 'h wasm_host) \<Rightarrow> int codec \<times> 'h wasm_host" where
  "with_memory w f =
     (case getActiveMemory (wh_instances w) of Inl e \<Rightarrow> (Inl (Throws e), w) | Inr (n, m) \<Rightarrow> f n m)"

definition put_memory :: "string \<Rightarrow> bytes \<Rightarrow> 'h wasm_host \<Rightarrow> 'h wasm_host" where
  "put_memory n m w = w\<lparr>wh_instances := jm_set n (InstanceOf (Some m)) (wh_instances w)\<rparr>"

text \<open>\<open>writeWasmBytes(memory, ptr, data); return r\<close>.\<close>

definition written :: "string \<Rightarrow> bytes \<Rightarrow> int \<Rightarrow> bytes \<Rightarrow> int \<Rightarrow> 'h wasm_host \<Rightarrow> int codec \<times> 'h wasm_host" where
  "written n m ptr data r w =
     (case writeWasmBytes m ptr data of Inl e \<Rightarrow> (Inl (Throws e), w) | Inr m' \<Rightarrow> (Inr r, put_memory n m' w))"

definition kyc_hash :: "'h host_functions \<Rightarrow> int \<Rightarrow> int \<Rightarrow> int \<Rightarrow> 'h wasm_host \<Rightarrow> int codec \<times> 'h wasm_host" where
  "kyc_hash H ptr len outPtr w =
     with_memory w (\<lambda>n memory.
       (let hash = hf_hash H (readWasmBytes memory ptr len)
        in written n memory outPtr hash (int (length hash)) w))"

definition kyc_verify_credential ::
    "'h host_functions \<Rightarrow> int \<Rightarrow> int \<Rightarrow> int \<Rightarrow> int \<Rightarrow> 'h wasm_host \<Rightarrow> int codec \<times> 'h wasm_host" where
  "kyc_verify_credential H dataPtr dataLen proofPtr proofLen w =
     with_memory w (\<lambda>n memory.
       (Inr (if hf_verifyCredential H (readWasmBytes memory dataPtr dataLen) (readWasmBytes memory proofPtr proofLen)
             then 1 else 0), w))"

definition kyc_check_attribute ::
    "'h host_functions \<Rightarrow> int \<Rightarrow> int \<Rightarrow> int \<Rightarrow> int \<Rightarrow> 'h wasm_host \<Rightarrow> int codec \<times> 'h wasm_host" where
  "kyc_check_attribute H attrPtr attrLen valuePtr valueLen w =
     with_memory w (\<lambda>n memory.
       (case parse_json (readWasmString memory valuePtr valueLen) of
          Inl (Throws e) \<Rightarrow> (Inr (- 1), w)
        | Inl e \<Rightarrow> (Inl e, w)
        | Inr value \<Rightarrow>
            (case hf_checkAttribute H (readWasmString memory attrPtr attrLen) value of
               Inl e \<Rightarrow> (Inr (- 1), w)
             | Inr b \<Rightarrow> (Inr (if b then 1 else 0), w))))"

definition kyc_store_blob ::
    "'h host_functions \<Rightarrow> int \<Rightarrow> int \<Rightarrow> int \<Rightarrow> int \<Rightarrow> 'h wasm_host \<Rightarrow> int codec \<times> 'h wasm_host" where
  "kyc_store_blob H keyPtr keyLen dataPtr dataLen w =
     with_memory w (\<lambda>n memory.
       (Inr 0, w\<lparr>wh_host := hf_storeBlob H (readWasmString memory keyPtr keyLen) (readWasmBytes memory dataPtr dataLen) (wh_host w)\<rparr>))"

definition kyc_get_blob ::
    "'h host_functions \<Rightarrow> int \<Rightarrow> int \<Rightarrow> int \<Rightarrow> int \<Rightarrow> 'h wasm_host \<Rightarrow> int codec \<times> 'h wasm_host" where
  "kyc_get_blob H keyPtr keyLen outPtr outLen w =
     with_memory w (\<lambda>n memory.
       (case hf_getBlob H (readWasmString memory keyPtr keyLen) (wh_host w) of
          None \<Rightarrow> (Inr (- 2), w)
        | Some data \<Rightarrow>
            (let writeLen = min (int (length data)) outLen
             in written n memory outPtr (js_slice data 0 writeLen) writeLen w)))"

definition kyc_emit_event ::
    "'h host_functions \<Rightarrow> int \<Rightarrow> int \<Rightarrow> int \<Rightarrow> int \<Rightarrow> 'h wasm_host \<Rightarrow> int codec \<times> 'h wasm_host" where
  "kyc_emit_event H typePtr typeLen payloadPtr payloadLen w =
     with_memory w (\<lambda>n memory.
       (Inr 0, w\<lparr>wh_host := hf_emitEvent H (readWasmString memory typePtr typeLen)
          (readWasmBytes memory payloadPtr payloadLen) (wh_host w)\<rparr>))"

definition kyc_log_message :: "'h host_functions \<Rightarrow> int \<Rightarrow> int \<Rightarrow> 'h wasm_host \<Rightarrow> int codec \<times> 'h wasm_host" where
  "kyc_log_message H msgPtr msgLen w =
     with_memory w (\<lambda>n memory. (Inr 0, w\<lparr>wh_host := hf_logMessage H (readWasmString memory msgPtr msgLen) (wh_host w)\<rparr>))"

definition kyc_random_bytes :: "'h host_functions \<Rightarrow> int \<Rightarrow> int \<Rightarrow> 'h wasm_host \<Rightarrow> int codec \<times> 'h wasm_host" where
  "kyc_random_bytes H outPtr len w =
     with_memory w (\<lambda>n memory.
       (let (bytes, h) = hf_randomBytes H len (wh_host w)
        in written n memory outPtr bytes len (w\<lparr>wh_host := h\<rparr>)))"

text \<open>The imports of the older interface: the result of env.log is not used.\<close>

definition env_log :: "'h host_functions \<Rightarrow> int \<Rightarrow> 'h wasm_host \<Rightarrow> int codec \<times> 'h wasm_host" where
  "env_log H msg w =
     with_memory w (\<lambda>n memory. (Inr 0, w\<lparr>wh_host := hf_logMessage H (readWasmString memory msg 1024) (wh_host w)\<rparr>))"

definition env_get_credential :: "int \<Rightarrow> int" where
  "env_get_credential i = 0"

definition env_verify_proof :: "int \<Rightarrow> int \<Rightarrow> int" where
  "env_verify_proof proofPtr proofLen = 1"

definition env_emit_event :: "int \<Rightarrow> int \<Rightarrow> int" where
  "env_emit_event eventType dataPtr = 0"

subsection \<open>Reading what was written\<close>

text \<open>What a caller relies on: a region that was written reads back, and regions apart from it keep
  their contents.\<close>

locale linear_memory =
  fixes rd :: "'m \<Rightarrow> int \<Rightarrow> int \<Rightarrow> 'b list"
    and wr :: "'m \<Rightarrow> int \<Rightarrow> 'b list \<Rightarrow> 'm result"
  assumes read_written: "wr m p d = Inr m' \<Longrightarrow> rd m' p (int (length d)) = d"
    and read_apart: "wr m p d = Inr m' \<Longrightarrow> 0 \<le> q \<Longrightarrow> 0 \<le> l \<Longrightarrow> q + l \<le> p \<or> p + int (length d) \<le> q \<Longrightarrow>
      rd m' q l = rd m q l"
    and write_at: "wr m p d = Inr m' \<Longrightarrow> 0 \<le> p"
begin

text \<open>Two regions written one after the other both rd back, when they are apart.\<close>

lemma two_regions:
  assumes "wr m p d = Inr m'" "wr m' q e = Inr m''" "p + int (length d) \<le> q \<or> q + int (length e) \<le> p"
  shows "rd m'' p (int (length d)) = d \<and> rd m'' q (int (length e)) = e"
  using read_written [OF assms(2)] read_apart [OF assms(2) write_at [OF assms(1)], of "int (length d)"] assms(3)
    read_written [OF assms(1)] by auto

end

lemma readWasmBytes_nat: "readWasmBytes m (int p) (int l) = take l (drop p m)"
  using js_slice_nat [of m p "p + l"] by (simp add: readWasmBytes_def)

lemma typed_set_Inr:
  "typed_set v p d = Inr v' \<longleftrightarrow>
     (\<exists>n. p = int n \<and> n + length d \<le> length v \<and> v' = take n v @ d @ drop (n + length d) v)"
proof -
  have "\<exists>n. p = int n" if "0 \<le> p" using that by (rule_tac x = "nat p" in exI) simp
  then show ?thesis by (auto simp: typed_set_def)
qed

lemma typed_set_length: "typed_set v p d = Inr v' \<Longrightarrow> length v' = length v"
  by (auto simp: typed_set_Inr)

lemma take_drop_apart:
  assumes "n + length d \<le> length m" "q + l \<le> n \<or> n + length d \<le> q"
  shows "take l (drop q (take n m @ d @ drop (n + length d) m)) = take l (drop q m)"
  using assms(2)
proof
  assume "q + l \<le> n"
  then show ?thesis using assms(1) by (simp add: drop_take)
next
  assume "n + length d \<le> q"
  then show ?thesis using assms(1) by (simp add: drop_append)
qed

interpretation wasm_memory: linear_memory readWasmBytes writeWasmBytes
proof
  fix m m' d :: bytes and p q l :: int
  assume w: "writeWasmBytes m p d = Inr m'"
  then obtain n where n: "p = int n" "n + length d \<le> length m" "m' = take n m @ d @ drop (n + length d) m"
    by (auto simp: writeWasmBytes_def typed_set_Inr)
  show "readWasmBytes m' p (int (length d)) = d"
    unfolding n(1) readWasmBytes_nat using n(2) by (simp add: n(3))
  show "0 \<le> p" by (simp add: n(1))
  assume "0 \<le> q" "0 \<le> l" and apart: "q + l \<le> p \<or> p + int (length d) \<le> q"
  then obtain q' l' where q: "q = int q'" "l = int l'" by (metis nonneg_int_cases)
  have "q' + l' \<le> n \<or> n + length d \<le> q'" using apart by (simp add: q n(1)) linarith
  from take_drop_apart [OF n(2) this] show "readWasmBytes m' q l = readWasmBytes m q l"
    unfolding q readWasmBytes_nat n(3) .
qed

subsection \<open>Texts\<close>

lemma zero_from_found:
  assumes "m = a @ s @ 0 # z" "0 \<notin> set s"
  shows "zero_from m (int (length a)) = int (length a + length s)"
proof -
  have "takeWhile (\<lambda>b. b \<noteq> 0) (s @ 0 # z) = s" using assms(2) by (induction s) auto
  then show ?thesis using assms(1) by (simp add: zero_from_def slice_bound_def Let_def)
qed

lemma read_text:
  assumes "m = a @ s @ 0 # z" "0 \<notin> set s"
  shows "readWasmString m (int (length a)) maxLen = text_decode s"
proof -
  have "js_slice m (int (length a)) (int (length a + length s)) = s"
    unfolding js_slice_nat using assms(1) by simp
  then show ?thesis using zero_from_found [OF assms] by (simp add: readWasmString_def)
qed

lemma code_points_no_zero:
  assumes "0 \<notin> set s" "c \<in> set (code_points s)"
  shows "c \<noteq> 0"
  using assms
proof (induction s rule: code_points.induct)
  case (2 u us)
  have u: "unat u \<noteq> 0" using "2.prems"(1) by (auto simp: unat_eq_zero)
  show ?case
  proof (cases "high_surrogate u")
    case True
    then show ?thesis using 2 by (cases us) (auto split: if_splits)
  next
    case False
    then show ?thesis using 2 u by (auto split: if_splits)
  qed
qed simp

lemma to_utf8_no_zero:
  assumes "0 \<notin> set s"
  shows "(0 :: byte) \<notin> set (to_utf8 s)"
proof -
  have cp: "c \<noteq> 0" if "c \<in> set (code_points s)" for c
    by (rule code_points_no_zero [OF assms that])
  have byte: "(word_of_nat b :: byte) \<noteq> 0" if "c \<in> set (code_points s)" "b \<in> set (utf8_of c)" for b c
  proof -
    have "b < 256" by (rule utf8_of_byte [OF code_points_scalar [OF that(1)] that(2)])
    moreover have "b \<noteq> 0" using that(2) cp [OF that(1)] by (auto simp: utf8_of_def split: if_splits)
    ultimately show ?thesis by (metis unat_byte unat_0)
  qed
  then show ?thesis by (auto simp: to_utf8_def)
qed


lemma short_text: "to_utf8 (units ''AB'') = [65, 66]" "well_formed_text (units ''AB'')" "0 \<notin> set (units ''AB'')"
proof -
  have "ascii ''AB''" by code_simp
  then show "to_utf8 (units ''AB'') = [65, 66]" by (simp add: ascii_utf8)
qed (simp_all add: units_well_formed, code_simp)


text \<open>the length named for a key is not what ends it: a key that is not followed by a zero is read on
  up to the next zero of the memory, and the blob is stored under what both texts together decode to.\<close>

theorem blob_key_overreads:
  assumes "getActiveMemory (wh_instances w) = Inr (n, a @ key @ extra @ 0 # z)" "0 \<notin> set (key @ extra)"
  shows "kyc_store_blob H (int (length a)) (int (length key)) dataPtr dataLen w =
    (Inr 0, w\<lparr>wh_host := hf_storeBlob H (text_decode (key @ extra))
      (readWasmBytes (a @ key @ extra @ 0 # z) dataPtr dataLen) (wh_host w)\<rparr>)"
  using assms(1) read_text [of "a @ key @ extra @ 0 # z" a "key @ extra" z, OF _ assms(2)]
  by (simp add: kyc_store_blob_def with_memory_def)

text \<open>A host that keeps blobs in a map.\<close>

definition map_host :: "(js_text, bytes) jsmap host_functions" where
  "map_host =
     \<lparr>hf_hash = id, hf_verifyCredential = (\<lambda>d p. d = p), hf_checkAttribute = (\<lambda>a v. Inr True),
      hf_storeBlob = jm_set, hf_getBlob = (\<lambda>k h. jm_get h k), hf_emitEvent = (\<lambda>t p h. h),
      hf_logMessage = (\<lambda>t h. h), hf_randomBytes = (\<lambda>l h. (replicate (nat l) 7, h))\<rparr>"

definition one_instance :: "bytes \<Rightarrow> 'h \<Rightarrow> 'h wasm_host" where
  "one_instance m h = \<lparr>wh_instances = [(''age-proof'', InstanceOf (Some m))], wh_host = h\<rparr>"

text \<open>The key of length one at address 1 takes the byte after it along.\<close>

theorem blob_key_overreads_witness:
  "fst (kyc_store_blob map_host 1 1 5 1 (one_instance [9, 65, 66, 0, 0, 42] jm_empty)) = Inr 0 \<and>
   jm_get (wh_host (snd (kyc_store_blob map_host 1 1 5 1 (one_instance [9, 65, 66, 0, 0, 42] jm_empty)))) (text_decode [65, 66]) = Some [42]"
proof -
  have "getActiveMemory (wh_instances (one_instance [9, 65, 66, 0, 0, 42] jm_empty)) = Inr (''age-proof'', [9] @ [65] @ [66] @ 0 # [0, 42])"
    by (simp add: one_instance_def)
  from blob_key_overreads [OF this, of map_host 5 1] show ?thesis
    by (simp add: map_host_def readWasmBytes_def js_slice_def slice_bound_def Let_def one_instance_def)
qed

lemma active_after_put:
  "getActiveMemory is = Inr (n, m) \<Longrightarrow> getActiveMemory (jm_set n (InstanceOf (Some m')) is) = Inr (n, m')"
  by (induction "is" rule: getActiveMemory.induct) (auto simp: jm_set_def)

lemma written_Inr:
  assumes "getActiveMemory (wh_instances w) = Inr (n, m)" "0 \<le> p" "p + int (length d) \<le> int (length m)"
  shows "\<exists>m'. written n m p d r w = (Inr r, put_memory n m' w) \<and>
    getActiveMemory (wh_instances (put_memory n m' w)) = Inr (n, m') \<and> readWasmBytes m' p (int (length d)) = d"
proof -
  obtain m' where "writeWasmBytes m p d = Inr m'" using assms(2,3) by (simp add: writeWasmBytes_def typed_set_def)
  with wasm_memory.read_written [OF this] active_after_put [OF assms(1)] show ?thesis
    by (auto simp: written_def put_memory_def)
qed

text \<open>what a module stores under a key it gets back under the same key, in full if its buffer is
  large enough, provided the host keeps what it is given.\<close>

theorem blob_roundtrip:
  assumes "\<And>k d h. hf_getBlob H k (hf_storeBlob H k d h) = Some d"
    and "getActiveMemory (wh_instances w) = Inr (n, m)"
    and "dataPtr = int d" "dataLen = int l" "d + l \<le> length m"
    and "0 \<le> outPtr" "outPtr + dataLen \<le> int (length m)" "dataLen \<le> outLen"
  shows "\<exists>w' m'. kyc_get_blob H keyPtr keyLen outPtr outLen (snd (kyc_store_blob H keyPtr keyLen dataPtr dataLen w)) = (Inr dataLen, w') \<and>
    getActiveMemory (wh_instances w') = Inr (n, m') \<and> readWasmBytes m' outPtr dataLen = readWasmBytes m dataPtr dataLen"
proof -
  define data where "data = readWasmBytes m dataPtr dataLen"
  have len: "int (length data) = dataLen"
    unfolding data_def assms(3,4) readWasmBytes_nat using assms(5) by simp
  have all: "js_slice data 0 (min (int (length data)) outLen) = data"
    using assms(8) js_slice_nat [of data 0 "length data"] by (simp add: len)
  let ?w = "snd (kyc_store_blob H keyPtr keyLen dataPtr dataLen w)"
  have w: "getActiveMemory (wh_instances ?w) = Inr (n, m)" "wh_host ?w = hf_storeBlob H (readWasmString m keyPtr keyLen) data (wh_host w)"
    using assms(2) by (simp_all add: kyc_store_blob_def with_memory_def data_def)
  have "kyc_get_blob H keyPtr keyLen outPtr outLen ?w = written n m outPtr data dataLen ?w"
    using w all len assms(8) by (simp add: kyc_get_blob_def with_memory_def assms(1) Let_def)
  moreover have "outPtr + int (length data) \<le> int (length m)" using assms(7) len by simp
  from written_Inr [OF w(1) assms(6) this, of dataLen] obtain m' where
    "written n m outPtr data dataLen ?w = (Inr dataLen, put_memory n m' ?w)"
    "getActiveMemory (wh_instances (put_memory n m' ?w)) = Inr (n, m')" "readWasmBytes m' outPtr dataLen = data"
    unfolding len by blast
  ultimately show ?thesis unfolding data_def [symmetric] by auto
qed

theorem blob_roundtrip_witness:
  "\<exists>w' m'. kyc_get_blob map_host 0 2 3 9 (snd (kyc_store_blob map_host 0 2 1 2 (one_instance [65, 0, 5, 0, 0] jm_empty))) = (Inr 2, w') \<and>
    getActiveMemory (wh_instances w') = Inr (''age-proof'', m') \<and> readWasmBytes m' 3 2 = [0, 5]"
proof -
  have "hf_getBlob map_host k (hf_storeBlob map_host k d h) = Some d" for k d h by (simp add: map_host_def)
  from blob_roundtrip [of map_host, OF this, of "one_instance [65, 0, 5, 0, 0] jm_empty" "''age-proof''" "[65, 0, 5, 0, 0]" 1 1 2 2 3 9 0 2]
  show ?thesis by (simp add: one_instance_def readWasmBytes_def js_slice_def slice_bound_def Let_def)
qed

subsection \<open>Loading\<close>

definition new_host :: "'h \<Rightarrow> 'h wasm_host" where
  "new_host h = \<lparr>wh_instances = jm_empty, wh_host = h\<rparr>"

definition load_step :: "string \<times> bytes option result \<Rightarrow> 'h wasm_host \<Rightarrow> 'h wasm_host" where
  "load_step e w = snd (instantiate (snd e) (fst e) w)"

definition no_instance :: "'h wasm_host \<Rightarrow> bool" where
  "no_instance w \<longleftrightarrow> list_all (\<lambda>(n, i). i = SourceObject) (wh_instances w)"

lemma all_source_set: "list_all (\<lambda>(n, i). i = SourceObject) is \<Longrightarrow> list_all (\<lambda>(n, i). i = SourceObject) (jm_set n SourceObject is)"
  by (induction "is") (auto simp: jm_set_def)

lemma all_source_get: "list_all (\<lambda>(n, i). i = SourceObject) is \<Longrightarrow> jm_get is n = Some i \<Longrightarrow> i = SourceObject"
  by (induction "is") (auto simp: jm_get_def split: if_splits)

interpretation loading: invariant_machine load_step "\<lambda>_ _. True" no_instance
  by unfold_locales
    (auto simp: load_step_def no_instance_def instantiate_def all_source_set split: option.splits sum.splits)

lemma no_instance_fails:
  assumes "no_instance w"
  shows "\<exists>e. fst (instantiate loaded name w) = Inl e" "\<exists>e. getActiveMemory (wh_instances w) = Inl e"
proof -
  show "\<exists>e. fst (instantiate loaded name w) = Inl e"
    using assms all_source_get [of "wh_instances w" name]
    by (auto simp: instantiate_def no_instance_def exported_memory_def split: option.splits sum.splits)
  show "\<exists>e. getActiveMemory (wh_instances w) = Inl e"
    using assms by (cases "wh_instances w") (auto simp: no_instance_def)
qed

text \<open>no module is ever instantiated: what is stored for a loaded module has no exports, so every call of
  the loader ends with an exception, whatever was loaded before, and so does every import, without
  reaching the functions of the host.\<close>

theorem no_module_instantiates:
  "(\<exists>e. fst (instantiate loaded name (run_events load_step es (new_host h))) = Inl e) \<and>
   (\<exists>e. with_memory (run_events load_step es (new_host h)) f = (Inl (Throws e), run_events load_step es (new_host h)))"
proof -
  have "no_instance (run_events load_step es (new_host h))"
    by (rule loading.inv_run) (simp_all add: no_instance_def new_host_def jm_empty_def)
  from no_instance_fails [OF this] show ?thesis by (auto simp: with_memory_def)
qed

text \<open>an import works on the memory of the module that was stored first: while two modules are
  there, what the second one stores is read from, and what it asks for is written to, the first
  one's memory, and its own stays as it is.\<close>

theorem imports_use_first_memory:
  assumes "wh_instances w = [(a, InstanceOf (Some m)), (b, InstanceOf (Some m2))]" "a \<noteq> b"
  shows "wh_host (snd (kyc_store_blob H kp kl dp dl w)) = hf_storeBlob H (readWasmString m kp kl) (readWasmBytes m dp dl) (wh_host w) \<and>
    jm_get (wh_instances (snd (kyc_random_bytes H p l w))) b = Some (InstanceOf (Some m2)) \<and>
    jm_get (wh_instances (snd (kyc_hash H hp hl p w))) b = Some (InstanceOf (Some m2))"
proof -
  have get: "jm_get (wh_instances w) b = Some (InstanceOf (Some m2))" using assms by (simp add: jm_get_def)
  have keep: "jm_get (wh_instances (snd (written a m q d r v))) b = jm_get (wh_instances v) b"
    for q d r and v :: "'a wasm_host"
    using assms(2) by (simp add: written_def put_memory_def split: sum.splits)
  show ?thesis using assms(1) get
    by (simp add: kyc_store_blob_def kyc_random_bytes_def kyc_hash_def with_memory_def keep Let_def split: prod.splits)
qed

theorem imports_use_first_memory_witness:
  "jm_get (wh_instances (snd (kyc_random_bytes map_host 0 1
     \<lparr>wh_instances = [(''did-resolve'', InstanceOf (Some [1, 2])), (''age-proof'', InstanceOf (Some [3, 4]))], wh_host = jm_empty\<rparr>)))
     ''age-proof'' = Some (InstanceOf (Some [3, 4]))"
  using imports_use_first_memory [where a = "''did-resolve''" and b = "''age-proof''" and m = "[1, 2]" and ?m2.0 = "[3, 4]"
    and H = map_host and p = 0 and l = 1 and w = "\<lparr>wh_instances = [(''did-resolve'', InstanceOf (Some [1, 2])),
      (''age-proof'', InstanceOf (Some [3, 4]))], wh_host = jm_empty\<rparr>"] by simp

text \<open>an address in the upper half of the 32-bit range arrives as a negative number: reading counts it
  from the end of the memory, without an error, writing is an exception.\<close>

theorem negative_address_reads_end:
  assumes "0 < k" "k \<le> length m"
  shows "readWasmBytes m (- int k) (int k - 1) = butlast (drop (length m - k) m) \<and>
    writeWasmBytes m (- int k) d = Inl (JsRangeError ''offset is out of bounds'')"
proof -
  have "js_slice m (- int k) (- 1) = take (k - 1) (drop (length m - k) m)"
    using assms by (simp add: js_slice_def slice_bound_def Let_def nat_diff_distrib')
  moreover have "take (k - 1) (drop (length m - k) m) = butlast (drop (length m - k) m)"
    using assms by (simp add: butlast_conv_take)
  ultimately show ?thesis using assms by (simp add: readWasmBytes_def writeWasmBytes_def typed_set_def)
qed

theorem negative_address_reads_end_witness:
  "readWasmBytes [1, 2, 3, 4] (- int 3) (int 3 - 1) = [2, 3] \<and>
   writeWasmBytes [1, 2, 3, 4] (- int 3) [9] = Inl (JsRangeError ''offset is out of bounds'')"
  using negative_address_reads_end [of 3 "[1, 2, 3, 4]" "[9]"] by (simp del: of_nat_numeral)

end
