(* ===== verification/LegacyImport.thy ===== *)
theory LegacyImport
  imports Json
begin

section \<open>Importing credentials of older systems\<close>

text \<open>
  services/migration/src/legacy_import.ts. What the file system answers is a parameter: the entries of a
  directory with the contents of each, or the exception that reading it throws. Contents are texts of one-byte
  characters; the fields a mapping names are not names that every object inherits; a source id keeps
  its parts instead of their text. Assigning a value other than an object to the attributes, and
  a record's own __proto__ there, are outside the model (\<open>OutOfModel\<close>).
\<close>

subsection \<open>Data\<close>

record field_mapping =
  fm_sourceField :: string
  fm_targetField :: string
  fm_transform :: "(js_value \<Rightarrow> js_value result) option"
  fm_required :: bool
  fm_defaultValue :: "js_value option"

datatype import_source = InFile string | OfRecord string js_value

record import_error =
  ie_sourceId :: import_source
  ie_message :: string
  ie_code :: string
  ie_recoverable :: bool

record import_result =
  im_totalFound :: nat
  im_totalImported :: nat
  im_totalFailed :: nat
  im_errors :: "import_error list"
  im_credentials :: "js_value list"
  im_startedAt :: string
  im_completedAt :: string

type_synonym mapping_store = "(string, field_mapping list) jsmap"

definition plain_mapping :: "string \<Rightarrow> string \<Rightarrow> bool \<Rightarrow> field_mapping" where
  "plain_mapping s t req =
     \<lparr>fm_sourceField = s, fm_targetField = t, fm_transform = None, fm_required = req, fm_defaultValue = None\<rparr>"

definition default_mappings :: "field_mapping list" where
  "default_mappings =
     [plain_mapping ''id'' ''id'' True, plain_mapping ''type'' ''type'' True, plain_mapping ''subject'' ''subject'' True,
      plain_mapping ''subject_id'' ''subject'' False, plain_mapping ''issuer'' ''issuer'' True,
      plain_mapping ''issued_at'' ''issuedAt'' True, plain_mapping ''issuedDate'' ''issuedAt'' False,
      plain_mapping ''created_at'' ''issuedAt'' False, plain_mapping ''expires_at'' ''expiresAt'' False,
      plain_mapping ''expiryDate'' ''expiresAt'' False, plain_mapping ''valid_until'' ''expiresAt'' False,
      plain_mapping ''signature'' ''signature'' False,
      (plain_mapping ''format'' ''format'' False)\<lparr>fm_defaultValue := Some (VString (units ''json''))\<rparr>]"

definition registerMapping :: "string \<Rightarrow> field_mapping list \<Rightarrow> mapping_store \<Rightarrow> mapping_store" where
  "registerMapping systemName mappings s = jm_set systemName mappings s"

definition mappings_of :: "mapping_store \<Rightarrow> string \<Rightarrow> field_mapping list" where
  "mappings_of s systemName = or_default (jm_get s systemName) default_mappings"

subsection \<open>Mapping a record\<close>

definition absent :: "js_value \<Rightarrow> bool" where
  "absent v \<longleftrightarrow> v = VUndefined \<or> v = VNull"

text \<open>\<open>Object.assign(attributes, value)\<close>.\<close>

definition assign_attributes :: "js_value \<Rightarrow> js_value entries \<Rightarrow> js_value entries codec" where
  "assign_attributes v attrs =
     (case v of
        VObject es \<Rightarrow>
          if units ''__proto__'' \<in> fst ` set es then Inl OutOfModel
          else Inr (foldl (\<lambda>a (k, x). set_property k x a) attrs es)
      | VUndefined \<Rightarrow> Inr attrs
      | VNull \<Rightarrow> Inr attrs
      | VBool b \<Rightarrow> Inr attrs
      | VNumber n \<Rightarrow> Inr attrs
      | _ \<Rightarrow> Inl OutOfModel)"

definition attributes_of :: "js_value entries \<Rightarrow> js_value entries" where
  "attributes_of r = (case map_of r (units ''attributes'') of Some (VObject a) \<Rightarrow> a | _ \<Rightarrow> [])"

text \<open>The transformation of a value and the assignment to its target.\<close>

definition place :: "field_mapping \<Rightarrow> js_value \<Rightarrow> js_value entries \<Rightarrow> js_value entries codec" where
  "place m v r =
     and_then (case fm_transform m of None \<Rightarrow> Inr v | Some f \<Rightarrow> lift_result (f v)) (\<lambda>value.
       if fm_targetField m = ''attributes''
       then and_then (assign_attributes value (attributes_of r)) (\<lambda>a. Inr (set_property (units ''attributes'') (VObject a) r))
       else Inr (set_property (units (fm_targetField m)) value r))"

definition not_found :: "string \<Rightarrow> js_exn" where
  "not_found f = JsError (''Required field '' @ CHR 0x27 # f @ CHR 0x27 # '' not found in source data'')"

definition apply_mapping :: "field_mapping \<Rightarrow> js_value \<Rightarrow> js_value entries \<Rightarrow> js_value entries codec" where
  "apply_mapping m source r =
     and_then (lift_result (read_property (fm_sourceField m) source)) (\<lambda>value.
       if absent value then
         (if fm_required m then Inl (Throws (not_found (fm_sourceField m)))
          else case fm_defaultValue m of Some d \<Rightarrow> place m d r | None \<Rightarrow> Inr r)
       else place m value r)"

fun apply_mappings :: "field_mapping list \<Rightarrow> js_value \<Rightarrow> js_value entries \<Rightarrow> js_value entries codec" where
  "apply_mappings [] source r = Inr r"
| "apply_mappings (m # ms) source r = and_then (apply_mapping m source r) (apply_mappings ms source)"

definition mapToCredential :: "js_value \<Rightarrow> field_mapping list \<Rightarrow> string \<Rightarrow> js_value codec" where
  "mapToCredential source mappings systemName =
     and_then (apply_mappings mappings source
         [(units ''attributes'', VObject []), (units ''source'', VString (units systemName))])
       (\<lambda>r. Inr (VObject r))"

subsection \<open>Parsing a file\<close>

text \<open>\<open>values[index] || ''\<close>.\<close>

definition record_cell :: "string list \<Rightarrow> nat \<Rightarrow> string" where
  "record_cell cells i = (if i < length cells then cells ! i else [])"

text \<open>Assigning a text to __proto__ does nothing.\<close>

definition csv_record :: "string list \<Rightarrow> string \<Rightarrow> js_value" where
  "csv_record headers line =
     (let cells = map js_trim (split_on (CHR '','') line) in
      VObject (foldl (\<lambda>es (i, h). if h = ''__proto__'' then es else set_property (units h) (VString (units (record_cell cells i))) es)
        [] (enumerate 0 headers)))"

definition parseCsv :: "string \<Rightarrow> js_value list" where
  "parseCsv content =
     (let lines = split_on (CHR 0x0A) (js_trim content) in
      if length lines < 2 then []
      else map (csv_record (map js_trim (split_on (CHR '','') (hd lines)))) (tl lines))"

text \<open>The extension is not looked at.\<close>

definition parseFile :: "string \<Rightarrow> string \<Rightarrow> string \<Rightarrow> js_value list codec" where
  "parseFile content format extension =
     (if format = ''json'' then
        and_then (parse_json (units content)) (\<lambda>v. Inr (case v of VArray vs \<Rightarrow> vs | v \<Rightarrow> [v]))
      else if format = ''csv'' then Inr (parseCsv content)
      else Inl (Throws (JsError (''Unsupported format: '' @ format))))"

subsection \<open>Importing\<close>

definition import_err :: "import_source \<Rightarrow> js_exn \<Rightarrow> string \<Rightarrow> import_error" where
  "import_err src e code = \<lparr>ie_sourceId = src, ie_message = exn_message e, ie_code = code, ie_recoverable = True\<rparr>"

type_synonym import_state = "js_value list \<times> import_error list"

text \<open>The source id of a record of a directory's file: reading its id may throw, as for null.\<close>

definition record_source :: "string \<Rightarrow> js_value \<Rightarrow> import_source codec" where
  "record_source name r =
     and_then (lift_result (read_property ''id'' r)) (\<lambda>v.
       Inr (OfRecord name (if value_truthy v then v else VString (units ''unknown''))))"

text \<open>The loop over the records of one file: what was imported, the errors, and the exception that
  leaves the loop, if any. \<open>source\<close> gives the source id of a record that cannot be mapped.\<close>

fun import_records ::
    "(js_value \<Rightarrow> import_source codec) \<Rightarrow> field_mapping list \<Rightarrow> string \<Rightarrow> js_value list \<Rightarrow> import_state \<Rightarrow>
     (import_state \<times> js_exn option) codec" where
  "import_records source ms sys [] st = Inr (st, None)"
| "import_records source ms sys (r # rs) (creds, errs) =
     (case mapToCredential r ms sys of
        Inr c \<Rightarrow> import_records source ms sys rs (creds @ [c], errs)
      | Inl (Throws e) \<Rightarrow>
          (case source r of
             Inr src \<Rightarrow> import_records source ms sys rs (creds, errs @ [import_err src e ''MAPPING_FAILED''])
           | Inl (Throws e') \<Rightarrow> Inr ((creds, errs), Some e')
           | Inl x \<Rightarrow> Inl x)
      | Inl x \<Rightarrow> Inl x)"

definition finish_import :: "string \<Rightarrow> string \<Rightarrow> nat \<Rightarrow> import_state \<Rightarrow> import_result" where
  "finish_import startedAt completedAt found st =
     \<lparr>im_totalFound = found, im_totalImported = length (fst st), im_totalFailed = length (snd st), im_errors = snd st,
      im_credentials = fst st, im_startedAt = startedAt, im_completedAt = completedAt\<rparr>"

text \<open>\<open>path.extname(name)\<close>: from the last dot on, unless the name starts with it.\<close>

definition extname :: "string \<Rightarrow> string" where
  "extname name =
     (let after = rev (takeWhile (\<lambda>c. c \<noteq> CHR ''.'') (rev name)) in
      if length name \<le> Suc (length after) \<or> name = ''..'' then [] else CHR ''.'' # after)"

record dir_entry =
  de_name :: string
  de_isFile :: bool
  de_content :: "string result"

definition importable :: "dir_entry \<Rightarrow> bool" where
  "importable e \<longleftrightarrow> de_isFile e \<and> to_lower (extname (de_name e)) \<in> {''.json'', ''.xml'', ''.csv''}"

definition read_failed :: "string \<Rightarrow> js_exn \<Rightarrow> import_state \<Rightarrow> import_state" where
  "read_failed name e st = (fst st, snd st @ [import_err (InFile name) e ''READ_FAILED''])"

definition import_entry :: "field_mapping list \<Rightarrow> string \<Rightarrow> string \<Rightarrow> dir_entry \<Rightarrow> import_state \<Rightarrow> import_state codec" where
  "import_entry ms sys format e st =
     (case and_then (lift_result (de_content e)) (\<lambda>content. parseFile content format (to_lower (extname (de_name e)))) of
        Inl (Throws x) \<Rightarrow> Inr (read_failed (de_name e) x st)
      | Inl x \<Rightarrow> Inl x
      | Inr rs \<Rightarrow>
          and_then (import_records (record_source (de_name e)) ms sys rs st) (\<lambda>(st', x).
            Inr (case x of None \<Rightarrow> st' | Some x \<Rightarrow> read_failed (de_name e) x st')))"

fun import_entries :: "field_mapping list \<Rightarrow> string \<Rightarrow> string \<Rightarrow> dir_entry list \<Rightarrow> import_state \<Rightarrow> import_state codec" where
  "import_entries ms sys format [] st = Inr st"
| "import_entries ms sys format (e # es) st =
     (if importable e then and_then (import_entry ms sys format e st) (import_entries ms sys format es)
      else import_entries ms sys format es st)"

definition importFromDirectory ::
    "string \<Rightarrow> string \<Rightarrow> dir_entry list result \<Rightarrow> string \<Rightarrow> string \<Rightarrow> mapping_store \<Rightarrow> import_result codec" where
  "importFromDirectory startedAt completedAt listing systemName format s =
     and_then (lift_result listing) (\<lambda>entries.
     and_then (import_entries (mappings_of s systemName) systemName format entries ([], [])) (\<lambda>st.
       Inr (finish_import startedAt completedAt (length (filter importable entries)) st)))"

definition basename :: "string \<Rightarrow> string" where
  "basename p = last (split_on (CHR ''/'') p)"

definition importFromFile ::
    "string \<Rightarrow> string \<Rightarrow> string \<Rightarrow> string result \<Rightarrow> string \<Rightarrow> string \<Rightarrow> mapping_store \<Rightarrow> import_result codec" where
  "importFromFile startedAt completedAt filePath file systemName format s =
     and_then (lift_result file) (\<lambda>content.
     and_then (parseFile content format (to_lower (extname (basename filePath)))) (\<lambda>records.
     and_then (import_records (\<lambda>r. Inr (InFile (basename filePath))) (mappings_of s systemName) systemName records ([], []))
       (\<lambda>(st, x). Inr (finish_import startedAt completedAt (length records) st))))"

subsection \<open>What the mappings give\<close>

text \<open>The value of a source field, if it is there.\<close>

definition given :: "js_value entries \<Rightarrow> string \<Rightarrow> js_value option" where
  "given es f = (case map_of es (units f) of Some v \<Rightarrow> if absent v then None else Some v | None \<Rightarrow> None)"

text \<open>What a mapping without transformation assigns.\<close>

definition mapped_value :: "js_value entries \<Rightarrow> field_mapping \<Rightarrow> js_value option" where
  "mapped_value es m = (case given es (fm_sourceField m) of Some v \<Rightarrow> Some v | None \<Rightarrow> fm_defaultValue m)"

definition assigns :: "field_mapping \<Rightarrow> bool" where
  "assigns m \<longleftrightarrow> fm_transform m = None \<and> fm_targetField m \<noteq> ''attributes''"

definition assigned :: "js_value entries \<Rightarrow> field_mapping \<Rightarrow> js_value entries \<Rightarrow> js_value entries" where
  "assigned es m r = (case mapped_value es m of Some v \<Rightarrow> set_property (units (fm_targetField m)) v r | None \<Rightarrow> r)"

lemma apply_mapping_object:
  assumes "assigns m"
  shows "apply_mapping m (VObject es) r =
    (if fm_required m \<and> given es (fm_sourceField m) = None then Inl (Throws (not_found (fm_sourceField m)))
     else Inr (assigned es m r))"
  using assms
  by (auto simp: apply_mapping_def lift_result_def place_def assigns_def assigned_def mapped_value_def given_def absent_def
      split: option.splits)

lemma apply_mappings_object:
  assumes "list_all assigns ms"
  shows "apply_mappings ms (VObject es) r = Inr r' \<longleftrightarrow>
    list_all (\<lambda>m. fm_required m \<longrightarrow> given es (fm_sourceField m) \<noteq> None) ms \<and> r' = fold (assigned es) ms r"
  using assms by (induction ms arbitrary: r) (auto simp: apply_mapping_object and_then_Inr)

lemma apply_mappings_missing:
  assumes "list_all assigns ms" "apply_mappings ms (VObject es) r = Inl e"
  shows "\<exists>f. e = Throws (not_found f)"
  using assms by (induction ms arbitrary: r) (auto simp: apply_mapping_object and_then_Inl split: if_splits)

text \<open>The last mapping to a target that has a value decides.\<close>

fun last_assigned :: "js_value entries \<Rightarrow> string \<Rightarrow> field_mapping list \<Rightarrow> js_value option \<Rightarrow> js_value option" where
  "last_assigned es t [] acc = acc"
| "last_assigned es t (m # ms) acc =
     last_assigned es t ms (if fm_targetField m = t \<and> mapped_value es m \<noteq> None then mapped_value es m else acc)"

lemma fold_assigned:
  "map_of (fold (assigned es) ms r) (units t) = last_assigned es t ms (map_of r (units t))"
proof (induction ms arbitrary: r)
  case (Cons m ms)
  have "map_of (assigned es m r) (units t) =
      (if fm_targetField m = t \<and> mapped_value es m \<noteq> None then mapped_value es m else map_of r (units t))"
    by (auto simp: assigned_def set_property_lookup units_eq_iff split: option.splits)
  then show ?case by (simp add: Cons.IH)
qed simp

lemma default_assigns: "list_all assigns default_mappings"
  by (simp add: default_mappings_def assigns_def plain_mapping_def)

definition first_given :: "js_value entries \<Rightarrow> string list \<Rightarrow> js_value option" where
  "first_given es fs = (case filter (\<lambda>f. given es f \<noteq> None) fs of [] \<Rightarrow> None | f # _ \<Rightarrow> given es f)"

lemma first_given_Cons:
  "first_given es (f # fs) = (if given es f \<noteq> None then given es f else first_given es fs)"
  "first_given es [] = None"
  by (simp_all add: first_given_def)

lemma plain_mapping_facts:
  "fm_sourceField (plain_mapping s t b) = s" "fm_targetField (plain_mapping s t b) = t"
  "mapped_value es (plain_mapping s t b) = given es s"
  by (simp_all add: plain_mapping_def mapped_value_def split: option.splits)

lemma last_default:
  "last_assigned es ''id'' default_mappings None = given es ''id''"
  "last_assigned es ''subject'' default_mappings None = first_given es [''subject_id'', ''subject'']"
  "last_assigned es ''issuedAt'' default_mappings None = first_given es [''created_at'', ''issuedDate'', ''issued_at'']"
  "last_assigned es ''expiresAt'' default_mappings None = first_given es [''valid_until'', ''expiryDate'', ''expires_at'']"
  "last_assigned es ''attributes'' default_mappings acc = acc"
  "last_assigned es ''source'' default_mappings acc = acc"
  by (simp_all add: default_mappings_def plain_mapping_facts first_given_Cons)

lemma default_required:
  "list_all (\<lambda>m. fm_required m \<longrightarrow> given es (fm_sourceField m) \<noteq> None) default_mappings \<longleftrightarrow>
   list_all (\<lambda>f. given es f \<noteq> None) [''id'', ''type'', ''subject'', ''issuer'', ''issued_at'']"
  by (simp add: default_mappings_def plain_mapping_def)

lemma mapped_default:
  "mapToCredential (VObject es) default_mappings sys = Inr c \<longleftrightarrow>
     list_all (\<lambda>f. given es f \<noteq> None) [''id'', ''type'', ''subject'', ''issuer'', ''issued_at''] \<and>
     c = VObject (fold (assigned es) default_mappings
       [(units ''attributes'', VObject []), (units ''source'', VString (units sys))])"
  unfolding mapToCredential_def and_then_Inr apply_mappings_object [OF default_assigns] default_required by auto

text \<open>the default mappings accept an object exactly if it has an id, a type, a subject, an issuer and
  an issued_at that are neither undefined nor null: the alternative names subject_id, issuedDate and
  created_at do not replace them.\<close>

theorem default_mapping_accepts:
  "(\<exists>c. mapToCredential (VObject es) default_mappings sys = Inr c) =
     list_all (\<lambda>f. given es f \<noteq> None) [''id'', ''type'', ''subject'', ''issuer'', ''issued_at'']"
  unfolding mapped_default by blast

text \<open>what the default mappings make of an object: the alternative names win over the main ones where
  both are given, the system is kept as the source, and the attributes of the record are lost.\<close>

theorem default_mapping_result:
  assumes "mapToCredential (VObject es) default_mappings sys = Inr (VObject r)"
  shows "map_of r (units ''id'') = given es ''id'' \<and>
    map_of r (units ''subject'') = first_given es [''subject_id'', ''subject''] \<and>
    map_of r (units ''issuedAt'') = first_given es [''created_at'', ''issuedDate'', ''issued_at''] \<and>
    map_of r (units ''expiresAt'') = first_given es [''valid_until'', ''expiryDate'', ''expires_at''] \<and>
    map_of r (units ''attributes'') = Some (VObject []) \<and>
    map_of r (units ''source'') = Some (VString (units sys))"
proof -
  have req: "list_all (\<lambda>f. given es f \<noteq> None) [''id'', ''type'', ''subject'', ''issuer'', ''issued_at'']"
    and "r = fold (assigned es) default_mappings [(units ''attributes'', VObject []), (units ''source'', VString (units sys))]"
    using assms unfolding mapped_default by auto
  then have "map_of r (units t) = last_assigned es t default_mappings
      (map_of [(units ''attributes'', VObject []), (units ''source'', VString (units sys))] (units t))" for t
    by (simp add: fold_assigned)
  then show ?thesis by (simp add: last_default units_eq_iff)
qed

text \<open>A record with a blank issuer and both names for its time of issue.\<close>

definition old_record :: "js_value entries" where
  "old_record = map (\<lambda>(k, v). (units k, VString (units v)))
     [(''id'', ''7''), (''type'', ''kyc''), (''subject'', ''did:a''), (''issuer'', []), (''issued_at'', ''2020''), (''created_at'', ''2019'')]"

lemma old_record_given:
  "given old_record f = map_option (\<lambda>v. VString (units v)) (map_of [(''id'', ''7''), (''type'', ''kyc''), (''subject'', ''did:a''),
     (''issuer'', []), (''issued_at'', ''2020''), (''created_at'', ''2019'')] f)"
  by (simp add: given_def old_record_def absent_def units_eq_iff)

theorem default_mapping_result_witness:
  "\<exists>r. mapToCredential (VObject old_record) default_mappings ''crm'' = Inr (VObject r) \<and>
    map_of r (units ''issuedAt'') = Some (VString (units ''2019'')) \<and> map_of r (units ''attributes'') = Some (VObject [])"
proof -
  obtain r where r: "mapToCredential (VObject old_record) default_mappings ''crm'' = Inr (VObject r)"
    by (simp add: mapped_default old_record_given)
  from default_mapping_result [OF r] show ?thesis using r by (simp add: first_given_def old_record_given)
qed

subsection \<open>Accounting\<close>

lemma import_records_total:
  assumes "import_records (\<lambda>r. Inr src) ms sys rs st = Inr (st', x)"
  shows "x = None \<and> length (fst st') + length (snd st') = length rs + length (fst st) + length (snd st)"
  using assms
proof (induction rs arbitrary: st)
  case (Cons r rs)
  show ?case
  proof (cases st)
    case (Pair creds errs)
    with Cons show ?thesis by (auto split: sum.splits codec_error.splits dest!: Cons.IH)
  qed
qed simp

text \<open>an import from a file accounts for every record: each is either imported or reported once.\<close>

theorem file_import_accounts:
  assumes "importFromFile t1 t2 path file sys format s = Inr res"
  shows "im_totalImported res + im_totalFailed res = im_totalFound res \<and>
    im_totalImported res = length (im_credentials res) \<and> im_totalFailed res = length (im_errors res)"
proof -
  obtain recs st x where "import_records (\<lambda>r. Inr (InFile (basename path))) (mappings_of s sys) sys recs ([], []) = Inr (st, x)"
    and "res = finish_import t1 t2 (length recs) st"
    using assms by (auto simp: importFromFile_def and_then_Inr)
  with import_records_total [of "InFile (basename path)"] show ?thesis by (auto simp: finish_import_def)
qed

text \<open>A table can always be imported with the default mappings.\<close>

lemma object_outcome:
  assumes "list_all assigns ms"
  shows "(\<exists>c. mapToCredential (VObject es) ms sys = Inr c) \<or> (\<exists>f. mapToCredential (VObject es) ms sys = Inl (Throws (not_found f)))"
proof (cases "apply_mappings ms (VObject es) [(units ''attributes'', VObject []), (units ''source'', VString (units sys))]")
  case (Inl e)
  with apply_mappings_missing [OF assms Inl] show ?thesis by (auto simp: mapToCredential_def)
qed (simp add: mapToCredential_def)

lemma objects_importable:
  assumes "list_all assigns ms" "\<forall>r \<in> set rs. \<exists>es. r = VObject es"
  shows "\<exists>st'. import_records (\<lambda>r. Inr src) ms sys rs st = Inr (st', None)"
  using assms(2)
proof (induction rs arbitrary: st)
  case (Cons r rs)
  obtain es where r: "r = VObject es" using Cons.prems by auto
  obtain creds errs where st: "st = (creds, errs)" by (cases st)
  from object_outcome [OF assms(1), of es sys] show ?case
    using Cons.IH Cons.prems by (auto simp: r st)
qed simp

lemma csv_import_returns:
  assumes "jm_get s sys = None"
  shows "\<exists>res. importFromFile t1 t2 path (Inr content) sys ''csv'' s = Inr res"
proof -
  have "\<forall>r \<in> set (parseCsv content). \<exists>es. r = VObject es"
    by (auto simp: parseCsv_def csv_record_def Let_def)
  from objects_importable [OF default_assigns this, of "InFile (basename path)" sys "([], [])"]
  show ?thesis using assms by (auto simp: importFromFile_def lift_result_def parseFile_def mappings_of_def)
qed

theorem file_import_accounts_witness:
  "\<exists>res. importFromFile ''t'' ''u'' ''/in/a.csv'' (Inr (''id'' @ CHR 0x0A # ''7'')) ''crm'' ''csv'' jm_empty = Inr res \<and>
    im_totalImported res + im_totalFailed res = im_totalFound res"
proof -
  obtain res where "importFromFile ''t'' ''u'' ''/in/a.csv'' (Inr (''id'' @ CHR 0x0A # ''7'')) ''crm'' ''csv'' jm_empty = Inr res"
    using csv_import_returns [OF jm_get_empty] by blast
  with file_import_accounts [OF this] show ?thesis by blast
qed

text \<open>in a directory the records after a null are lost without a trace: the null cannot be named in a
  report, which ends the file with one error, although it was readable.\<close>

theorem null_record_loses_rest:
  assumes "importable e" "de_content e = Inr t" "parse_json (units t) = Inr (VArray (VNull # rs))" "jm_get s sys = None"
  shows "\<exists>res. importFromDirectory t1 t2 (Inr [e]) sys ''json'' s = Inr res \<and>
    im_credentials res = [] \<and> im_totalFound res = 1 \<and> map (\<lambda>x. (ie_sourceId x, ie_code x)) (im_errors res) = [(InFile (de_name e), ''READ_FAILED'')]"
  using assms
  by (simp add: importFromDirectory_def lift_result_def import_entry_def parseFile_def mappings_of_def mapToCredential_def
    default_mappings_def apply_mapping_def record_source_def read_failed_def finish_import_def import_err_def)

lemma parse_null_first: "parse_json (units ''[null,true]'') = Inr (VArray [VNull, VBool True])"
  using json_roundtrip [of "VArray [VNull, VBool True]" "units ''[null,true]''"] by (simp add: units_def show_bool_def)

theorem null_record_loses_rest_witness:
  "\<exists>res. importFromDirectory ''t'' ''u'' (Inr [\<lparr>de_name = ''a.json'', de_isFile = True, de_content = Inr ''[null,true]''\<rparr>]) ''crm'' ''json'' jm_empty = Inr res \<and>
    im_credentials res = [] \<and> im_totalFound res = 1"
proof -
  have "importable \<lparr>de_name = ''a.json'', de_isFile = True, de_content = Inr ''[null,true]''\<rparr>"
    by (simp add: importable_def extname_def to_lower_def)
  from null_record_loses_rest [OF this _ parse_null_first, of jm_empty "''crm''" "''t''" "''u''"] show ?thesis by auto
qed

subsection \<open>Tables\<close>

definition cell_ok :: "string \<Rightarrow> bool" where
  "cell_ok c \<longleftrightarrow> c \<noteq> [] \<and> CHR '','' \<notin> set c \<and> CHR 0x0A \<notin> set c \<and> \<not> js_space (hd c) \<and> \<not> js_space (last c)"

definition csv_text :: "string list list \<Rightarrow> string" where
  "csv_text rows = join_with [CHR 0x0A] (map (join_with '','') rows)"

lemma split_join_with:
  assumes "ls \<noteq> []" "\<forall>l \<in> set ls. d \<notin> set l"
  shows "split_on d (join_with [d] ls) = ls"
  using assms by (induction "[d]" ls rule: join_with.induct) (auto simp: split_on_notin split_on_append)

lemma join_with_ends:
  assumes "ls \<noteq> []" "\<forall>l \<in> set ls. l \<noteq> []"
  shows "join_with d ls \<noteq> [] \<and> hd (join_with d ls) = hd (hd ls) \<and> last (join_with d ls) = last (last ls)"
  using assms by (induction d ls rule: join_with.induct) auto

lemma set_join_with: "c \<in> set (join_with d ls) \<Longrightarrow> c \<in> set d \<or> (\<exists>l \<in> set ls. c \<in> set l)"
  by (induction d ls rule: join_with.induct) auto

lemma enumerate_cells:
  assumes "length cells = n + length hs"
  shows "foldl (\<lambda>es (i, h). f h (cells ! i) es) acc (enumerate n hs) = foldl (\<lambda>es (h, c). f h c es) acc (zip hs (drop n cells))"
  using assms
proof (induction hs arbitrary: n acc)
  case (Cons h hs)
  then have "drop n cells = cells ! n # drop (Suc n) cells" by (simp add: Cons_nth_drop_Suc)
  then show ?case using Cons by simp
qed simp

text \<open>a table whose cells are not blank, contain no comma and no line break and do not start or end with
  a space is read back: each row gives the record of its cells by the column names.\<close>

theorem csv_table_read_back:
  assumes "header \<noteq> []" "''__proto__'' \<notin> set header"
    and "list_all (\<lambda>row. length row = length header \<and> list_all cell_ok row) (header # rows)"
  shows "parseCsv (csv_text (header # rows)) =
    map (\<lambda>row. VObject (build_object (map (\<lambda>(h, c). (units h, VString (units c))) (zip header row)))) rows"
proof -
  have row: "split_on (CHR '','') (join_with '','' r) = r" "CHR 0x0A \<notin> set (join_with '','' r)" "map js_trim r = r"
      "join_with '','' r \<noteq> []" "\<not> js_space (hd (join_with '','' r))" "\<not> js_space (last (join_with '','' r))"
    if "r \<in> set (header # rows)" for r
  proof -
    have r: "r \<noteq> []" "\<forall>c \<in> set r. cell_ok c" using assms(1,3) that by (auto simp: list_all_iff)
    show "split_on (CHR '','') (join_with '','' r) = r" by (rule split_join_with) (use r in \<open>auto simp: cell_ok_def\<close>)
    show "CHR 0x0A \<notin> set (join_with '','' r)" using r(2) by (auto simp: cell_ok_def dest!: set_join_with)
    show "map js_trim r = r" using r(2) by (auto simp: cell_ok_def js_trim_id intro!: map_idI)
    have "\<forall>c \<in> set r. c \<noteq> []" using r(2) by (auto simp: cell_ok_def)
    from join_with_ends [OF r(1) this, of "'',''"] r
    show "join_with '','' r \<noteq> []" "\<not> js_space (hd (join_with '','' r))" "\<not> js_space (last (join_with '','' r))"
      by (auto simp: cell_ok_def)
  qed
  let ?ls = "map (join_with '','') (header # rows)"
  have ends: "csv_text (header # rows) \<noteq> []" "hd (csv_text (header # rows)) = hd (hd ?ls)" "last (csv_text (header # rows)) = last (last ?ls)"
    using join_with_ends [of ?ls "[CHR 0x0A]"] row(4) unfolding csv_text_def by auto
  have "last ?ls = join_with '','' (last (header # rows))" by (rule last_map) simp
  then have trim: "js_trim (csv_text (header # rows)) = csv_text (header # rows)"
    using ends row(5,6) by (intro js_trim_id) auto
  have lines: "split_on (CHR 0x0A) (csv_text (header # rows)) = ?ls"
    unfolding csv_text_def by (rule split_join_with) (use row(2) in auto)
  have rec: "csv_record header (join_with '','' r) = VObject (build_object (map (\<lambda>(h, c). (units h, VString (units c))) (zip header r)))"
    if "r \<in> set rows" for r
  proof -
    have len: "length r = length header" using assms(3) that by (auto simp: list_all_iff)
    have h: "h \<noteq> ''__proto__'' \<and> record_cell r i = r ! i" if "(i, h) \<in> set (enumerate 0 header)" for i h
      using that assms(2) len nth_mem [of i header] by (auto simp: in_set_enumerate_eq record_cell_def)
    have "csv_record header (join_with '','' r) =
        VObject (foldl (\<lambda>es (i, h). set_property (units h) (VString (units (r ! i))) es) [] (enumerate 0 header))"
      unfolding csv_record_def using row(1,3) [of r] that h
      by (auto simp: Let_def intro!: foldl_cong split: prod.splits)
    also have "... = VObject (foldl (\<lambda>es (h, c). set_property (units h) (VString (units c)) es) [] (zip header r))"
      using enumerate_cells [of r 0 header "\<lambda>h c. set_property (units h) (VString (units c))" "[]"] len by simp
    finally show ?thesis by (simp add: build_object_def foldl_map case_prod_unfold)
  qed
  show ?thesis
    unfolding parseCsv_def Let_def trim lines using row(1,3) [of header] rec by auto
qed

theorem csv_table_read_back_witness:
  "parseCsv (csv_text [[''id'', ''name''], [''7'', ''Ann Lee''], [''8'', ''Bo'']]) =
    [VObject (build_object [(units ''id'', VString (units ''7'')), (units ''name'', VString (units ''Ann Lee''))]),
     VObject (build_object [(units ''id'', VString (units ''8'')), (units ''name'', VString (units ''Bo''))])]"
  using csv_table_read_back [of "[''id'', ''name'']" "[[''7'', ''Ann Lee''], [''8'', ''Bo'']]"]
  by (simp add: cell_ok_def js_space_def)

text \<open>quotation marks do not protect a comma: a quoted name with a comma is split and what follows it moves
  one column on; and a cell that is missing is a blank text, which a required field accepts.\<close>

theorem csv_quotes_split:
  "csv_record [''id'', ''name'', ''issuer''] ''7,\"Lee, Ann\",gov'' =
     VObject [(units ''id'', VString (units ''7'')), (units ''name'', VString (units ''\"Lee'')), (units ''issuer'', VString (units ''Ann\"''))] \<and>
   given (case csv_record [''id'', ''issuer''] ''7'' of VObject es \<Rightarrow> es | _ \<Rightarrow> []) ''issuer'' = Some (VString [])"
  by (simp add: csv_record_def record_cell_def js_trim_def js_space_def enumerate_eq_zip set_property_def index_key_def units_def
    given_def absent_def Let_def)

end
