(* ===== verification/FormatConverter.thy ===== *)
theory FormatConverter
  imports Jwt
begin

section \<open>Converting credentials between formats\<close>

text \<open>
  services/migration/src/format_converter.ts. A credential that is written as indented JSON is kept as its
  value. The parsing of dates by Date, the text of a date and the fresh UUID are parameters. Numbers
  that are no integers, and spreading a text, are outside the model (\<open>OutOfModel\<close>). The names that are
  read are none that every object inherits.
\<close>

subsection \<open>Formats\<close>

datatype credential_format = JsonLd | JwtFormat | VcFormat

text \<open>The text handed in, an unsigned token, or the value that is written as JSON.\<close>

datatype conversion_output = SameText string | TokenText string | JsonOf js_value

record conversion_result =
  cr_output :: conversion_output
  cr_format :: credential_format
  cr_warnings :: "string list"

record conversion_world =
  cw_date :: "js_value \<Rightarrow> int option" \<comment> \<open>new Date(v).getTime(), None for NaN\<close>
  cw_iso :: "int \<Rightarrow> js_text" \<comment> \<open>toISOString of a time within the range of Date\<close>
  cw_uuid :: js_text

record format_converter =
  fc_contexts :: "string list"
  fc_types :: "string list"

definition new_converter :: format_converter where
  "new_converter =
     \<lparr>fc_contexts = [''https://www.w3.org/2018/credentials/v1'', ''https://www.w3.org/ns/credentials/v2'',
        ''https://w3id.org/security/suites/ed25519-2020/v1'', ''https://w3id.org/security/suites/secp256k1-2019/v1''],
      fc_types = [''VerifiableCredential'', ''KycBasic'', ''KycAdvanced'', ''AgeCredential'', ''IdentityCredential'', ''AddressCredential'']\<rparr>"

definition set_add :: "string \<Rightarrow> string list \<Rightarrow> string list" where
  "set_add x xs = (if x \<in> set xs then xs else xs @ [x])"

definition registerContext :: "string \<Rightarrow> format_converter \<Rightarrow> format_converter" where
  "registerContext c f = f\<lparr>fc_contexts := set_add c (fc_contexts f)\<rparr>"

definition registerType :: "string \<Rightarrow> format_converter \<Rightarrow> format_converter" where
  "registerType t f = f\<lparr>fc_types := set_add t (fc_types f)\<rparr>"

subsection \<open>Values\<close>

definition value_nullish :: "js_value \<Rightarrow> bool" where
  "value_nullish v \<longleftrightarrow> v = VUndefined \<or> v = VNull"

text \<open>\<open>v?.k\<close>.\<close>

definition optional_claim :: "string \<Rightarrow> js_value \<Rightarrow> js_value codec" where
  "optional_claim k v = (if value_nullish v then Inr VUndefined else read_claim k v)"

text \<open>\<open>a || b\<close>.\<close>

definition or_value :: "js_value \<Rightarrow> js_value \<Rightarrow> js_value" where
  "or_value a b = (if value_truthy a then a else b)"

text \<open>\<open>[...v]\<close>.\<close>

definition spread_list :: "js_value \<Rightarrow> js_value list codec" where
  "spread_list v =
     (case v of VArray vs \<Rightarrow> Inr vs | VString s \<Rightarrow> Inl OutOfModel | _ \<Rightarrow> Inl (Throws (JsTypeError ''not iterable'')))"

text \<open>\<open>{...v}\<close>.\<close>

definition spread_object :: "js_value \<Rightarrow> js_value entries codec" where
  "spread_object v =
     (case v of VObject es \<Rightarrow> Inr es | VString s \<Rightarrow> Inl OutOfModel | VArray vs \<Rightarrow> Inl OutOfModel | _ \<Rightarrow> Inr [])"

text \<open>\<open>new Date(v * 1000).toISOString()\<close>.\<close>

definition seconds_iso :: "conversion_world \<Rightarrow> js_value \<Rightarrow> js_value codec" where
  "seconds_iso W v =
     (case v of
        VNumber (NumInt n) \<Rightarrow> and_then (lift_result (date_iso (Some (n * 1000)))) (\<lambda>t. Inr (VString (cw_iso W t)))
      | VUndefined \<Rightarrow> Inl (Throws (JsRangeError ''Invalid time value''))
      | _ \<Rightarrow> Inl OutOfModel)"

text \<open>\<open>Math.floor(new Date(v).getTime() / 1000)\<close>.\<close>

definition date_seconds :: "conversion_world \<Rightarrow> js_value \<Rightarrow> js_value" where
  "date_seconds W v = VNumber (case cw_date W v of Some t \<Rightarrow> NumInt (t div 1000) | None \<Rightarrow> NumBits nan_bits)"

definition base_context :: js_value where
  "base_context = VArray [VString (units ''https://www.w3.org/2018/credentials/v1'')]"

definition vc_type :: js_value where
  "vc_type = VString (units ''VerifiableCredential'')"

definition urn_uuid :: "conversion_world \<Rightarrow> js_value" where
  "urn_uuid W = VString (units ''urn:uuid:'' @ cw_uuid W)"

subsection \<open>Conversions\<close>

definition detectFormat :: "string \<Rightarrow> credential_format codec" where
  "detectFormat input =
     (let trimmed = js_trim input in
      if starts_with trimmed ''{'' then
        (case parse_json (units trimmed) of
           Inl (Throws e) \<Rightarrow> Inr JwtFormat
         | Inl e \<Rightarrow> Inl e
         | Inr parsed \<Rightarrow>
             and_then (read_claim ''@context'' parsed) (\<lambda>c.
             and_then (read_claim ''vc'' parsed) (\<lambda>vc.
             and_then (read_claim ''vp'' parsed) (\<lambda>vp.
               Inr (if value_truthy c then JsonLd else if value_truthy vc \<or> value_truthy vp then JwtFormat else VcFormat)))))
      else Inr JwtFormat)"

definition decodeJwt :: "string \<Rightarrow> js_value codec" where
  "decodeJwt jwt =
     (case split_on (CHR ''.'') jwt of [h, p, s] \<Rightarrow> parse_part p | _ \<Rightarrow> Inl (Throws (JsError ''Invalid JWT format'')))"

text \<open>The credential of a token's payload: \<open>context\<close> is what stands for its context, \<open>types\<close> what
  follows VerifiableCredential when it names no types.\<close>

definition payload_credential ::
    "conversion_world \<Rightarrow> js_value \<Rightarrow> js_value \<Rightarrow> js_value \<Rightarrow> js_value \<Rightarrow> js_value codec" where
  "payload_credential W context types vc payload =
     and_then (optional_claim ''type'' vc) (\<lambda>ty.
     and_then (spread_list (or_value ty types)) (\<lambda>tys.
     and_then (read_claim ''iss'' payload) (\<lambda>iss.
     and_then (read_claim ''iat'' payload) (\<lambda>iat.
     and_then (seconds_iso W iat) (\<lambda>issued.
     and_then (optional_claim ''credentialSubject'' vc) (\<lambda>subject.
     and_then (read_claim ''sub'' payload) (\<lambda>sub.
     and_then (read_claim ''exp'' payload) (\<lambda>exp.
     and_then (if value_truthy exp then and_then (seconds_iso W exp) (\<lambda>t. Inr [(units ''expirationDate'', t)]) else Inr []) (\<lambda>expiry.
       Inr (VObject
         ([(units ''@context'', context), (units ''id'', urn_uuid W), (units ''type'', VArray (vc_type # tys)),
           (units ''issuer'', iss), (units ''issuanceDate'', issued),
           (units ''credentialSubject'', or_value subject (VObject [(units ''id'', sub)]))] @ expiry)))))))))))"

definition jwt_to_jsonld :: "conversion_world \<Rightarrow> string \<Rightarrow> conversion_result codec" where
  "jwt_to_jsonld W input =
     and_then (decodeJwt input) (\<lambda>payload.
     and_then (read_claim ''vc'' payload) (\<lambda>vc.
     and_then (optional_claim ''@context'' vc) (\<lambda>context.
     and_then (payload_credential W (or_value context base_context) (VArray []) vc payload) (\<lambda>v.
       Inr \<lparr>cr_output = JsonOf v, cr_format = JsonLd,
         cr_warnings = (if value_truthy vc then [] else [''JWT payload has no vc claim; converting as minimal credential''])\<rparr>))))"

text \<open>A credential in the third format is converted as if it were a token.\<close>

definition toJsonLd :: "conversion_world \<Rightarrow> string \<Rightarrow> credential_format \<Rightarrow> conversion_result codec" where
  "toJsonLd W input sourceFormat =
     (if sourceFormat = JsonLd then Inr \<lparr>cr_output = SameText input, cr_format = JsonLd, cr_warnings = []\<rparr>
      else jwt_to_jsonld W input)"

definition issuer_text :: "js_value \<Rightarrow> js_value codec" where
  "issuer_text issuer =
     (case issuer of
        VString s \<Rightarrow> Inr (VString s)
      | _ \<Rightarrow> and_then (optional_claim ''id'' issuer) (\<lambda>i. Inr (or_value i (VString []))))"

definition unlisted_types :: "js_value \<Rightarrow> js_value codec" where
  "unlisted_types ty =
     (case ty of
        VArray ts \<Rightarrow> Inr (VArray (filter (\<lambda>t. t \<noteq> vc_type) ts))
      | _ \<Rightarrow> Inl (Throws (JsTypeError ''vc.type.filter is not a function'')))"

definition jwt_payload :: "conversion_world \<Rightarrow> js_value \<Rightarrow> js_value codec" where
  "jwt_payload W vc =
     and_then (read_claim ''credentialSubject'' vc) (\<lambda>subject.
     and_then (optional_claim ''id'' subject) (\<lambda>sub.
     and_then (read_claim ''issuer'' vc) (\<lambda>issuer.
     and_then (issuer_text issuer) (\<lambda>iss.
     and_then (read_claim ''issuanceDate'' vc) (\<lambda>issued.
     and_then (read_claim ''@context'' vc) (\<lambda>context.
     and_then (read_claim ''type'' vc) (\<lambda>ty.
     and_then (unlisted_types ty) (\<lambda>types.
     and_then (spread_object subject) (\<lambda>claims.
     and_then (read_claim ''expirationDate'' vc) (\<lambda>expires.
       Inr (VObject
         ([(units ''sub'', or_value sub (VString [])), (units ''iss'', iss), (units ''iat'', date_seconds W issued),
           (units ''vc'', VObject [(units ''@context'', context), (units ''type'', types), (units ''credentialSubject'', VObject claims)])] @
          (if value_truthy expires then [(units ''exp'', date_seconds W expires)] else [])))))))))))))"

definition converter_header :: "js_value \<Rightarrow> js_value" where
  "converter_header kid =
     VObject [(units ''alg'', VString (units ''EdDSA'')), (units ''typ'', VString (units ''JWT'')), (units ''kid'', kid)]"

definition toJwt :: "conversion_world \<Rightarrow> string \<Rightarrow> credential_format \<Rightarrow> conversion_result codec" where
  "toJwt W input sourceFormat =
     (if sourceFormat = JwtFormat then Inr \<lparr>cr_output = SameText input, cr_format = JwtFormat, cr_warnings = []\<rparr>
      else
        and_then (parse_json (units input)) (\<lambda>vc.
        and_then (jwt_payload W vc) (\<lambda>payload.
        and_then (read_claim ''proof'' vc) (\<lambda>proof.
        and_then (optional_claim ''verificationMethod'' proof) (\<lambda>kid.
        and_then (json_base64url (converter_header kid)) (\<lambda>encodedHeader.
        and_then (json_base64url payload) (\<lambda>encodedPayload.
          Inr \<lparr>cr_output = TokenText (encodedHeader @ ''.'' @ encodedPayload), cr_format = JwtFormat,
            cr_warnings = [''JWT is unsigned; signing required before use'']\<rparr>)))))))"

definition jwt_to_vc :: "conversion_world \<Rightarrow> string \<Rightarrow> conversion_result codec" where
  "jwt_to_vc W input =
     and_then (decodeJwt input) (\<lambda>payload.
     and_then (read_claim ''vc'' payload) (\<lambda>vc.
     and_then (payload_credential W base_context (VArray [VString (units ''KycBasic'')]) vc payload) (\<lambda>v.
       Inr \<lparr>cr_output = JsonOf v, cr_format = VcFormat, cr_warnings = []\<rparr>)))"

text \<open>The type of a JSON-LD credential, made a list.\<close>

definition type_list :: "js_value \<Rightarrow> js_value" where
  "type_list ty = (case ty of VArray ts \<Rightarrow> ty | _ \<Rightarrow> VArray [vc_type, or_value ty (VString (units ''KycBasic''))])"

definition jsonld_to_vc :: "conversion_world \<Rightarrow> string \<Rightarrow> conversion_result codec" where
  "jsonld_to_vc W input =
     and_then (parse_json (units input)) (\<lambda>parsed.
     and_then (read_claim ''@context'' parsed) (\<lambda>context.
     and_then (read_claim ''id'' parsed) (\<lambda>i.
     and_then (read_claim ''type'' parsed) (\<lambda>ty.
     and_then (read_claim ''issuer'' parsed) (\<lambda>issuer.
     and_then (read_claim ''issuanceDate'' parsed) (\<lambda>issued.
     and_then (read_claim ''issuedAt'' parsed) (\<lambda>issuedAt.
     and_then (read_claim ''credentialSubject'' parsed) (\<lambda>subject.
     and_then (read_claim ''attributes'' parsed) (\<lambda>attrs.
     and_then (read_claim ''proof'' parsed) (\<lambda>proof.
     and_then (read_claim ''expirationDate'' parsed) (\<lambda>expires.
     and_then (read_claim ''expiresAt'' parsed) (\<lambda>expiresAt.
       Inr \<lparr>cr_output = JsonOf (VObject
         ([(units ''@context'', or_value context base_context), (units ''id'', or_value i (urn_uuid W)), (units ''type'', type_list ty),
           (units ''issuer'', issuer), (units ''issuanceDate'', or_value issued issuedAt),
           (units ''credentialSubject'', or_value subject (or_value attrs parsed)), (units ''proof'', proof)] @
          (if value_truthy (or_value expires expiresAt) then [(units ''expirationDate'', or_value expires expiresAt)] else []))),
         cr_format = VcFormat, cr_warnings = []\<rparr>))))))))))))"

definition toVc :: "conversion_world \<Rightarrow> string \<Rightarrow> credential_format \<Rightarrow> conversion_result codec" where
  "toVc W input sourceFormat =
     (case sourceFormat of
        VcFormat \<Rightarrow> Inr \<lparr>cr_output = SameText input, cr_format = VcFormat, cr_warnings = []\<rparr>
      | JwtFormat \<Rightarrow> jwt_to_vc W input
      | JsonLd \<Rightarrow> jsonld_to_vc W input)"

definition convert :: "conversion_world \<Rightarrow> string \<Rightarrow> credential_format \<Rightarrow> conversion_result codec" where
  "convert W input targetFormat =
     and_then (detectFormat input) (\<lambda>sourceFormat.
       if sourceFormat = targetFormat
       then Inr \<lparr>cr_output = SameText input, cr_format = targetFormat, cr_warnings = [''Input and output formats are the same'']\<rparr>
       else case targetFormat of
              JsonLd \<Rightarrow> toJsonLd W input sourceFormat
            | JwtFormat \<Rightarrow> toJwt W input sourceFormat
            | VcFormat \<Rightarrow> toVc W input sourceFormat)"

subsection \<open>What converting keeps\<close>

lemma json_base64url_chars:
  assumes "json_base64url v = Inr s"
  shows "CHR ''.'' \<notin> set s \<and> CHR ''{'' \<notin> set s"
proof -
  obtain u where "s = to_base64url u" using assms by (auto simp: json_base64url_def and_then_Inr split: option.splits)
  then have "\<forall>c \<in> set s. \<exists>n < 64. c = b64_char n" by (auto simp: to_base64url_def dest: sextet_less)
  moreover have "b64_char n \<noteq> CHR ''{''" if "n < 64" for n using that by (intro char_neqI) auto
  ultimately show ?thesis using b64_value_char(3) by metis
qed

lemma no_brace_is_token:
  assumes "CHR ''{'' \<notin> set t"
  shows "detectFormat t = Inr JwtFormat"
proof -
  have "\<not> starts_with (js_trim t) ''{''" using assms set_js_trim [of "CHR ''{''" t] by (auto simp: starts_with_iff)
  then show ?thesis by (simp add: detectFormat_def Let_def)
qed

text \<open>A token the converter made has two parts.\<close>

lemma converted_token_shape:
  assumes "convert W input JwtFormat = Inr r" "cr_output r = TokenText t"
  obtains vc payload h b where "parse_json (units input) = Inr vc" "jwt_payload W vc = Inr payload"
    "json_base64url payload = Inr b" "t = h @ ''.'' @ b" "CHR ''.'' \<notin> set h" "CHR ''{'' \<notin> set h"
proof -
  obtain vc payload kid h b where "parse_json (units input) = Inr vc" "jwt_payload W vc = Inr payload"
    "json_base64url (converter_header kid) = Inr h" "json_base64url payload = Inr b" "t = h @ ''.'' @ b"
    using assms by (auto simp: convert_def toJwt_def and_then_Inr split: if_splits)
  with json_base64url_chars [of "converter_header kid" h] that show ?thesis by blast
qed

text \<open>the converter does not read its own tokens: what it writes has two parts, without a signature, and
  converting that to another format is an exception.\<close>

theorem own_token_refused:
  assumes "convert W input JwtFormat = Inr r" "cr_output r = TokenText t"
  shows "convert W t JsonLd = Inl (Throws (JsError ''Invalid JWT format'')) \<and>
    convert W t VcFormat = Inl (Throws (JsError ''Invalid JWT format''))"
proof -
  obtain vc payload h b where t: "json_base64url payload = Inr b" "t = h @ ''.'' @ b" "CHR ''.'' \<notin> set h" "CHR ''{'' \<notin> set h"
    using converted_token_shape [OF assms] by metis
  have b: "CHR ''.'' \<notin> set b" "CHR ''{'' \<notin> set b" using json_base64url_chars [OF t(1)] by auto
  have "decodeJwt t = Inl (Throws (JsError ''Invalid JWT format''))"
    using t(3) b(1) by (simp add: t(2) decodeJwt_def split_on_append split_on_notin)
  moreover have "detectFormat t = Inr JwtFormat" using t(4) b(2) by (intro no_brace_is_token) (simp add: t(2))
  ultimately show ?thesis by (simp add: convert_def toJsonLd_def toVc_def jwt_to_jsonld_def jwt_to_vc_def)
qed

text \<open>a credential in the plain format is never converted to JSON-LD: its JSON text is taken for a token, which it
  is not unless it happens to contain exactly two dots.\<close>

theorem plain_credential_not_converted:
  assumes "detectFormat input = Inr VcFormat" "length (split_on (CHR ''.'') input) \<noteq> 3"
  shows "convert W input JsonLd = Inl (Throws (JsError ''Invalid JWT format''))"
  using assms(2) by (auto simp: convert_def assms(1) toJsonLd_def jwt_to_jsonld_def decodeJwt_def split: list.splits)

lemma read_claim_object: "read_claim k (VObject es) = Inr (case map_of es (units k) of None \<Rightarrow> VUndefined | Some v \<Rightarrow> v)"
  by (simp add: read_claim_def lift_result_def)

definition field_of :: "js_value entries \<Rightarrow> string \<Rightarrow> js_value" where
  "field_of es k = (case map_of es (units k) of None \<Rightarrow> VUndefined | Some v \<Rightarrow> v)"

text \<open>A value that JSON carries unchanged.\<close>

definition json_stable :: "js_value \<Rightarrow> bool" where
  "json_stable v \<longleftrightarrow> json_able v \<and> json_image v = v \<and> v \<noteq> VUndefined"

text \<open>signed with any third part, a token made from a JSON-LD credential converts back to a JSON-LD credential with
  the same context, issuer, subject and types; its times are cut to whole seconds, its id is a
  fresh one and its proof is gone.\<close>

theorem signed_token_converts_back:
  assumes "parse_json (units input) = Inr (VObject es)" "convert W input JwtFormat = Inr r" "cr_output r = TokenText t"
    and "value_truthy (field_of es ''@context'')" "json_stable (field_of es ''@context'')"
    and "field_of es ''issuer'' = VString iss" "field_of es ''type'' = VArray ts" "list_all json_stable ts"
    and "field_of es ''credentialSubject'' = VObject ss" "json_stable (VObject ss)" "field_of ss ''id'' = VString sid"
    and "cw_date W (field_of es ''issuanceDate'') = Some ms" "\<bar>ms div 1000 * 1000\<bar> \<le> 8640000000000000"
    and "\<not> value_truthy (field_of es ''expirationDate'')"
    and "CHR ''.'' \<notin> set sig" "CHR ''{'' \<notin> set sig"
  shows "convert W (t @ ''.'' @ sig) JsonLd = Inr \<lparr>cr_output = JsonOf (VObject
      [(units ''@context'', field_of es ''@context''), (units ''id'', urn_uuid W), (units ''type'', VArray (vc_type # filter (\<lambda>t. t \<noteq> vc_type) ts)),
       (units ''issuer'', VString iss), (units ''issuanceDate'', VString (cw_iso W (ms div 1000 * 1000))),
       (units ''credentialSubject'', VObject ss)]), cr_format = JsonLd, cr_warnings = []\<rparr>"
proof -
  obtain payload h b where t: "jwt_payload W (VObject es) = Inr payload" "json_base64url payload = Inr b" "t = h @ ''.'' @ b"
      "CHR ''.'' \<notin> set h" "CHR ''{'' \<notin> set h"
    using converted_token_shape [OF assms(2,3)] assms(1) by (metis sum.inject(2))
  let ?vc = "VObject [(units ''@context'', field_of es ''@context''), (units ''type'', VArray (filter (\<lambda>t. t \<noteq> vc_type) ts)),
      (units ''credentialSubject'', VObject ss)]"
  let ?p = "VObject [(units ''sub'', or_value (VString sid) (VString [])), (units ''iss'', VString iss), (units ''iat'', VNumber (NumInt (ms div 1000))),
      (units ''vc'', ?vc)]"
  have p: "payload = ?p"
    using t(1) assms(6,7,9,11,12,14)
    by (simp add: jwt_payload_def read_claim_object field_of_def [symmetric] optional_claim_def value_nullish_def issuer_text_def
      unlisted_types_def spread_object_def date_seconds_def)
  have types: "list_all json_able (filter (\<lambda>t. t \<noteq> vc_type) ts)" "map json_image (filter (\<lambda>t. t \<noteq> vc_type) ts) = filter (\<lambda>t. t \<noteq> vc_type) ts"
    using assms(8) by (auto simp: json_stable_def list_all_iff intro!: map_idI)
  have able: "json_able ?p"
    using assms(5,10) types
    by (auto simp: json_stable_def defined_entry_def or_value_def units_eq_iff index_key_named intro!: object_entries_named)
  have image: "json_image ?p = ?p"
    using assms(5,10) types by (auto simp: json_stable_def defined_entry_def or_value_def)
  have b: "parse_part b = Inr ?p" using json_base64url_parse [OF t(2)] able image by (simp add: p)
  have chars: "CHR ''.'' \<notin> set b" "CHR ''{'' \<notin> set b" using json_base64url_chars [OF t(2)] by auto
  have decode: "decodeJwt (t @ ''.'' @ sig) = Inr ?p"
    using b chars(1) t(4) assms(15) by (simp add: t(3) decodeJwt_def split_on_append split_on_notin)
  have detect: "detectFormat (t @ ''.'' @ sig) = Inr JwtFormat"
    using chars(2) t(5) assms(16) by (intro no_brace_is_token) (simp add: t(3))
  show ?thesis
    using assms(4,13)
    by (simp add: convert_def detect [simplified] toJsonLd_def jwt_to_jsonld_def decode [simplified] payload_credential_def read_claim_object optional_claim_def
      value_nullish_def units_eq_iff or_value_def spread_list_def seconds_iso_def date_iso_def lift_result_def)
qed

text \<open>A small credential.\<close>

definition sample_text :: string where
  "sample_text = ''{\"@context\":\"c\",\"issuer\":\"i\",\"type\":[],\"credentialSubject\":{\"id\":\"s\"},\"issuanceDate\":\"d\"}''"

definition sample_entries :: "js_value entries" where
  "sample_entries = [(units ''@context'', VString (units ''c'')), (units ''issuer'', VString (units ''i'')), (units ''type'', VArray []),
     (units ''credentialSubject'', VObject [(units ''id'', VString (units ''s''))]), (units ''issuanceDate'', VString (units ''d''))]"

definition sample_world :: conversion_world where
  "sample_world = \<lparr>cw_date = (\<lambda>v. Some 5999), cw_iso = (\<lambda>t. if t = 5000 then units ''1970'' else []), cw_uuid = units ''u''\<rparr>"

text \<open>A text of plain characters is quoted as it is.\<close>

definition plain_char :: "char \<Rightarrow> bool" where
  "plain_char c \<longleftrightarrow> (let n = of_char c :: nat in 32 \<le> n \<and> n \<noteq> 34 \<and> n \<noteq> 92)"

lemma json_quote_plain:
  assumes "list_all plain_char s"
  shows "json_quote (units s) = units ([CHR 0x22] @ s @ [CHR 0x22])"
proof -
  have "json_escape (units s) = units s" using assms
  proof (induction s)
    case (Cons c s)
    define n where "n = (of_char c :: nat)"
    have n: "n < 256" "32 \<le> n" "n \<noteq> 34" "n \<noteq> 92"
      using Cons.prems nat_of_char_less_256 [of c] by (simp_all add: n_def plain_char_def Let_def)
    have u: "unat (word_of_nat n :: 16 word) = n" using n(1) by simp
    have k: "unat k < 32 \<or> unat k = 34 \<or> unat k = 92" if "k \<in> {0x22, 0x5C, 8, 0xC, 0xA, 0xD, 9}" for k :: "16 word"
      using that by auto
    have "(word_of_nat n :: 16 word) \<notin> {0x22, 0x5C, 8, 0xC, 0xA, 0xD, 9}"
    proof
      assume "(word_of_nat n :: 16 word) \<in> {0x22, 0x5C, 8, 0xC, 0xA, 0xD, 9}"
      from k [OF this] n show False by (simp only: u) linarith
    qed
    moreover have "\<not> (word_of_nat n :: 16 word) < 0x20" using n u by (simp add: word_less_nat_alt)
    moreover have "\<not> high_surrogate (word_of_nat n)" "\<not> low_surrogate (word_of_nat n)"
      using n(1) u by (simp_all add: high_surrogate_def low_surrogate_def)
    ultimately show ?case using Cons by (simp add: units_Cons n_def [symmetric])
  qed simp
  then show ?thesis by (simp add: json_quote_def units_def)
qed

lemma sample_parsed: "parse_json (units sample_text) = Inr (VObject sample_entries)"
proof -
  have "stringify (VObject sample_entries) = Inr (Some (units sample_text))"
    by (simp add: sample_entries_def sample_text_def json_quote_plain plain_char_def) (simp add: units_def)
  moreover have "json_able (VObject sample_entries)"
    by (auto simp: sample_entries_def defined_entry_def units_eq_iff index_key_named intro!: object_entries_named)
  moreover have "json_image (VObject sample_entries) = VObject sample_entries" by (simp add: sample_entries_def defined_entry_def)
  ultimately show ?thesis using json_roundtrip by metis
qed

lemma sample_fields:
  "field_of sample_entries ''@context'' = VString (units ''c'')" "field_of sample_entries ''issuer'' = VString (units ''i'')"
  "field_of sample_entries ''type'' = VArray []" "field_of sample_entries ''credentialSubject'' = VObject [(units ''id'', VString (units ''s''))]"
  "field_of sample_entries ''issuanceDate'' = VString (units ''d'')" "field_of sample_entries ''expirationDate'' = VUndefined"
  "field_of sample_entries ''proof'' = VUndefined" "field_of sample_entries ''vc'' = VUndefined" "field_of sample_entries ''vp'' = VUndefined"
  by (simp_all add: field_of_def sample_entries_def units_eq_iff)

lemma sample_converted: "\<exists>r t. convert sample_world sample_text JwtFormat = Inr r \<and> cr_output r = TokenText t"
proof -
  have trim: "js_trim sample_text = sample_text" by (rule js_trim_id) (simp_all add: sample_text_def js_space_def)
  have "starts_with sample_text ''{''" by (simp add: sample_text_def)
  then have "detectFormat sample_text = Inr JsonLd"
    by (simp add: detectFormat_def trim sample_parsed read_claim_object field_of_def [symmetric] sample_fields) (simp add: units_def)
  then show ?thesis
    by (simp add: convert_def toJwt_def sample_parsed jwt_payload_def read_claim_object field_of_def [symmetric] sample_fields
      optional_claim_def value_nullish_def issuer_text_def unlisted_types_def spread_object_def date_seconds_def converter_header_def
      json_base64url_def or_value_def sample_world_def)
qed

theorem own_token_refused_witness:
  "\<exists>r t. convert sample_world sample_text JwtFormat = Inr r \<and> cr_output r = TokenText t \<and>
    convert sample_world t JsonLd = Inl (Throws (JsError ''Invalid JWT format''))"
  using sample_converted own_token_refused by blast

theorem signed_token_converts_back_witness:
  "\<exists>t. convert sample_world (t @ ''.'' @ ''sig'') JsonLd = Inr \<lparr>cr_output = JsonOf (VObject
      [(units ''@context'', VString (units ''c'')), (units ''id'', VString (units ''urn:uuid:u'')), (units ''type'', VArray [vc_type]),
       (units ''issuer'', VString (units ''i'')), (units ''issuanceDate'', VString (units ''1970'')),
       (units ''credentialSubject'', VObject [(units ''id'', VString (units ''s''))])]), cr_format = JsonLd, cr_warnings = []\<rparr>"
proof -
  obtain r t where "convert sample_world sample_text JwtFormat = Inr r" "cr_output r = TokenText t"
    using sample_converted by blast
  moreover have "object_entries [(units ''id'', VString (units ''s''))]"
    by (auto simp: index_key_named intro!: object_entries_named)
  moreover have "field_of [(units ''id'', VString (units ''s''))] ''id'' = VString (units ''s'')" by (simp add: field_of_def)
  moreover have "cw_date sample_world v = Some 5999" "cw_iso sample_world 5000 = units ''1970''"
      "urn_uuid sample_world = VString (units ''urn:uuid:u'')" for v
    by (simp_all add: sample_world_def urn_uuid_def units_def)
  moreover have "value_truthy (VString (units ''c''))" by (simp add: units_def)
  ultimately show ?thesis
    using signed_token_converts_back [OF sample_parsed, of sample_world r t "units ''i''" "[]" "[(units ''id'', VString (units ''s''))]"
      "units ''s''" 5999 "''sig''"]
    by (auto simp: sample_fields json_stable_def defined_entry_def simp del: append.simps)
qed

theorem plain_credential_not_converted_witness:
  "convert sample_world ''{}'' JsonLd = Inl (Throws (JsError ''Invalid JWT format''))"
proof -
  have "parse_json (units ''{}'') = Inr (VObject [])"
    using json_roundtrip [of "VObject []" "units ''{}''"] by (simp add: units_def object_entries_def build_object_def)
  then have "detectFormat ''{}'' = Inr VcFormat"
    by (simp add: detectFormat_def js_trim_def js_space_def read_claim_object)
  then show ?thesis by (rule plain_credential_not_converted) simp
qed

end
