(* ===== verification/JwtValidator.thy ===== *)
theory JwtValidator
  imports Jwt
begin

section \<open>The validator of tokens\<close>

text \<open>
  packages/core/src/validation/jwt_validator.ts. Errors are their field and code, without the message. A
  time claim that is no integer, the in operator on an array, and putting a claim into a message that has a toString of
  its own or is a nested array, are outside the model (\<open>OutOfModel\<close>). Times are below 2^53 milliseconds, so that no
  comparison depends on rounding.
\<close>

record validation_options =
  vo_algorithms :: "string list option"
  vo_audience :: "audience option"
  vo_issuer :: "js_text option"
  vo_subject :: "js_text option"
  vo_maxAgeMs :: "int option"
  vo_clockToleranceMs :: "int option"
  vo_requiredClaims :: "string list option"

type_synonym jwt_errors = "(string \<times> string) list"

record jwt_validation =
  vr_errors :: jwt_errors
  vr_warnings :: "string list"
  vr_header :: "js_value option"
  vr_payload :: "js_value option"

definition vr_valid :: "jwt_validation \<Rightarrow> bool" where
  "vr_valid r \<longleftrightarrow> vr_errors r = []"

definition SUPPORTED_ALGORITHMS :: "string list" where
  "SUPPORTED_ALGORITHMS = [''HS256'', ''HS384'', ''HS512'', ''ES256'', ''ES384'', ''ES512'', ''EdDSA'', ''RS256'', ''RS384'', ''RS512'']"

subsection \<open>The parts\<close>

text \<open>\<open>/^[A-Za-z0-9\-_]+$/\<close>.\<close>

definition part_char :: "char \<Rightarrow> bool" where
  "part_char c \<longleftrightarrow>
     (let n = of_char c :: nat in (65 \<le> n \<and> n \<le> 90) \<or> (97 \<le> n \<and> n \<le> 122) \<or> (48 \<le> n \<and> n \<le> 57) \<or> n = 45 \<or> n = 95)"

definition part_errors :: "string \<Rightarrow> string \<Rightarrow> jwt_errors" where
  "part_errors i p =
     (let field = ''token.part['' @ i @ '']'' in
      if p = [] then [(field, ''EMPTY_PART'')]
      else if \<not> list_all part_char p then [(field, ''INVALID_BASE64URL'')]
      else [])"

subsection \<open>The header\<close>

text \<open>The list of warnings that a header without the type JWT is to be added to is a variable of another method: the
  statement throws.\<close>

definition header_extras :: "validation_options \<Rightarrow> string \<Rightarrow> js_value \<Rightarrow> js_value \<Rightarrow> jwt_errors codec" where
  "header_extras options alg typ kid =
     (if typ \<noteq> VString (units ''JWT'') then Inl (Throws (JsReferenceError ''warnings is not defined''))
      else Inr
        ((case vo_algorithms options of
            Some as \<Rightarrow> if as \<noteq> [] \<and> alg \<notin> set as then [(''header.alg'', ''ALG_NOT_ALLOWED'')] else []
          | None \<Rightarrow> []) @
         (case kid of VUndefined \<Rightarrow> [] | VString _ \<Rightarrow> [] | _ \<Rightarrow> [(''header.kid'', ''INVALID_KID'')])))"

definition validateHeader :: "validation_options \<Rightarrow> js_value \<Rightarrow> jwt_errors codec" where
  "validateHeader options header =
     and_then (read_claim ''alg'' header) (\<lambda>alg.
       if \<not> value_truthy alg \<or> (\<forall>s. alg \<noteq> VString s) then Inr [(''header.alg'', ''MISSING_ALG'')]
       else case List.find (\<lambda>a. alg = VString (units a)) SUPPORTED_ALGORITHMS of
              None \<Rightarrow> Inr [(''header.alg'', ''UNSUPPORTED_ALG'')]
            | Some a \<Rightarrow>
                and_then (read_claim ''typ'' header) (\<lambda>typ.
                and_then (read_claim ''kid'' header) (\<lambda>kid.
                  header_extras options a typ kid)))"

subsection \<open>The payload\<close>

text \<open>\<open>claim in payload\<close> also finds what every object inherits.\<close>

definition has_claim :: "string \<Rightarrow> js_value \<Rightarrow> bool codec" where
  "has_claim k payload =
     (case payload of
        VObject es \<Rightarrow> Inr (units k \<in> fst ` set es \<or> k \<in> set object_prototype_keys)
      | VArray vs \<Rightarrow> Inl OutOfModel
      | _ \<Rightarrow> Inl (Throws (JsTypeError ''Cannot use in operator to search for a claim in a primitive value'')))"

fun claim_errors :: "string list \<Rightarrow> js_value \<Rightarrow> jwt_errors codec" where
  "claim_errors [] payload = Inr []"
| "claim_errors (k # ks) payload =
     and_then (has_claim k payload) (\<lambda>b.
     and_then (claim_errors ks payload) (\<lambda>es.
       Inr (if b then es else (''payload.'' @ k, ''MISSING_CLAIM'') # es)))"

text \<open>\<open>`got ${v}`\<close>.\<close>

definition shown_claim :: "js_value \<Rightarrow> unit codec" where
  "shown_claim v =
     (case v of
        VObject es \<Rightarrow> if units ''toString'' \<in> fst ` set es then Inl OutOfModel else Inr ()
      | VArray vs \<Rightarrow> if list_ex (\<lambda>x. case x of VArray _ \<Rightarrow> True | VObject _ \<Rightarrow> True | _ \<Rightarrow> False) vs then Inl OutOfModel else Inr ()
      | _ \<Rightarrow> Inr ())"

definition equals_claim :: "js_text option \<Rightarrow> string \<Rightarrow> string \<Rightarrow> js_value \<Rightarrow> jwt_errors codec" where
  "equals_claim expected k code payload =
     (if or_default expected [] = [] then Inr []
      else and_then (read_claim k payload) (\<lambda>v.
        if v = VString (the expected) then Inr []
        else and_then (shown_claim v) (\<lambda>_. Inr [(''payload.'' @ k, code)])))"

definition audience_errors :: "audience option \<Rightarrow> js_value \<Rightarrow> jwt_errors codec" where
  "audience_errors expected payload =
     (case expected of
        None \<Rightarrow> Inr []
      | Some a \<Rightarrow>
          if a = OneAudience [] then Inr []
          else and_then (read_claim ''aud'' payload) (\<lambda>aud.
            Inr (if \<not> value_truthy aud then [(''payload.aud'', ''MISSING_AUDIENCE'')]
                 else if list_ex (\<lambda>e. VString e \<in> set (audience_values aud)) (expected_audiences a) then []
                 else [(''payload.aud'', ''AUDIENCE_MISMATCH'')])))"

definition tolerance_of :: "validation_options \<Rightarrow> int" where
  "tolerance_of options = or_default (vo_clockToleranceMs options) 0"

text \<open>A claim that, if it is there, is a number for which \<open>bad\<close> does not hold.\<close>

definition time_errors :: "string \<Rightarrow> string \<Rightarrow> string \<Rightarrow> (int \<Rightarrow> bool) \<Rightarrow> js_value \<Rightarrow> jwt_errors codec" where
  "time_errors k not_number code bad payload =
     and_then (read_claim k payload) (\<lambda>v.
       case v of
         VUndefined \<Rightarrow> Inr []
       | VNumber (NumInt n) \<Rightarrow> Inr (if bad n then [(''payload.'' @ k, code)] else [])
       | VNumber _ \<Rightarrow> Inl OutOfModel
       | _ \<Rightarrow> Inr [(''payload.'' @ k, not_number)])"

definition iat_errors :: "js_value \<Rightarrow> jwt_errors codec" where
  "iat_errors payload =
     and_then (read_claim ''iat'' payload) (\<lambda>v.
       Inr (case v of VUndefined \<Rightarrow> [] | VNumber _ \<Rightarrow> [] | _ \<Rightarrow> [(''payload.iat'', ''INVALID_IAT'')]))"

definition age_errors :: "validation_options \<Rightarrow> int \<Rightarrow> js_value \<Rightarrow> jwt_errors codec" where
  "age_errors options now payload =
     (if or_default (vo_maxAgeMs options) 0 = 0 then Inr []
      else and_then (read_claim ''iat'' payload) (\<lambda>v.
        case v of
          VNumber (NumInt n) \<Rightarrow>
            Inr (if n \<noteq> 0 \<and> now > n * 1000 + the (vo_maxAgeMs options) + tolerance_of options
                 then [(''payload.iat'', ''MAX_AGE_EXCEEDED'')] else [])
        | VNumber _ \<Rightarrow> Inl OutOfModel
        | _ \<Rightarrow> Inr []))"

definition jti_errors :: "js_value \<Rightarrow> jwt_errors codec" where
  "jti_errors payload =
     and_then (read_claim ''jti'' payload) (\<lambda>v.
       Inr (case v of VUndefined \<Rightarrow> [] | VString _ \<Rightarrow> [] | _ \<Rightarrow> [(''payload.jti'', ''INVALID_JTI'')]))"

text \<open>The errors of the checks, in order.\<close>

fun collect_errors :: "jwt_errors codec list \<Rightarrow> jwt_errors codec" where
  "collect_errors [] = Inr []"
| "collect_errors (c # cs) = and_then c (\<lambda>es. and_then (collect_errors cs) (\<lambda>fs. Inr (es @ fs)))"

definition validatePayload :: "validation_options \<Rightarrow> int \<Rightarrow> js_value \<Rightarrow> jwt_errors codec" where
  "validatePayload options now payload =
     collect_errors
       [claim_errors (or_default (vo_requiredClaims options) []) payload,
        equals_claim (vo_issuer options) ''iss'' ''ISSUER_MISMATCH'' payload,
        equals_claim (vo_subject options) ''sub'' ''SUBJECT_MISMATCH'' payload,
        audience_errors (vo_audience options) payload,
        iat_errors payload,
        time_errors ''nbf'' ''INVALID_NBF'' ''TOKEN_NOT_YET_VALID'' (\<lambda>n. now + tolerance_of options < n * 1000) payload,
        time_errors ''exp'' ''INVALID_EXP'' ''TOKEN_EXPIRED'' (\<lambda>n. now > n * 1000 + tolerance_of options) payload,
        age_errors options now payload,
        jti_errors payload]"

subsection \<open>Validation\<close>

definition refused :: "jwt_errors \<Rightarrow> jwt_validation" where
  "refused es = \<lparr>vr_errors = es, vr_warnings = [], vr_header = None, vr_payload = None\<rparr>"

text \<open>\<open>header = JSON.parse(...); payload = JSON.parse(...)\<close>; None when one of them throws.\<close>

definition decode_parts :: "string \<Rightarrow> string \<Rightarrow> (js_value \<times> js_value) option codec" where
  "decode_parts h p =
     catch_null (and_then (parse_part h) (\<lambda>header. and_then (parse_part p) (\<lambda>payload. Inr (Some (header, payload)))))"

definition validate_jwt :: "validation_options \<Rightarrow> int \<Rightarrow> string \<Rightarrow> jwt_validation codec" where
  "validate_jwt options now token =
     (if js_trim token = [] then Inr (refused [(''token'', ''INVALID_TOKEN_TYPE'')])
      else case split_on (CHR ''.'') token of
        [h, p, s] \<Rightarrow>
          (let errors = part_errors ''0'' h @ part_errors ''1'' p @ part_errors ''2'' s in
           if errors \<noteq> [] then Inr (refused errors)
           else and_then (decode_parts h p) (\<lambda>d.
             case d of
               None \<Rightarrow> Inr (refused [(''token'', ''DECODE_FAILED'')])
             | Some (header, payload) \<Rightarrow>
                 and_then (validateHeader options header) (\<lambda>e1.
                 and_then (validatePayload options now payload) (\<lambda>e2.
                   Inr \<lparr>vr_errors = e1 @ e2, vr_warnings = [], vr_header = Some header, vr_payload = Some payload\<rparr>))))
      | _ \<Rightarrow> Inr (refused [(''token'', ''INVALID_PARTS_COUNT'')]))"

subsection \<open>What is checked, and what is not\<close>

lemma part_errors_None: "part_errors i p = [] \<longleftrightarrow> p \<noteq> [] \<and> list_all part_char p"
  by (simp add: part_errors_def Let_def)

text \<open>the third part of a token is never looked into: any text of the characters of base64url
  instead of the signature gives the same result.\<close>

theorem validator_ignores_signature:
  assumes "split_on (CHR ''.'') token = [h, p, s]" "split_on (CHR ''.'') token' = [h, p, s']"
    and "s \<noteq> []" "list_all part_char s" "s' \<noteq> []" "list_all part_char s'"
  shows "validate_jwt options now token = validate_jwt options now token'"
proof -
  have same: "part_errors ''2'' s = []" "part_errors ''2'' s' = []" using assms(3-6) by (simp_all add: part_errors_None)
  have blank: "js_trim t \<noteq> []" if "split_on (CHR ''.'') t = [h, p, u]" for t u
  proof
    assume "js_trim t = []"
    then have "\<forall>c \<in> set t. js_space c" by (simp add: js_trim_Nil)
    moreover have "CHR ''.'' \<in> set t"
    proof (rule ccontr)
      assume "CHR ''.'' \<notin> set t"
      with that split_on_notin show False by fastforce
    qed
    ultimately show False by (auto simp: js_space_def)
  qed
  show ?thesis using blank [OF assms(1)] blank [OF assms(2)] by (simp add: validate_jwt_def assms(1,2) same)
qed

lemma tokens_apart:
  "split_on (CHR ''.'') ''e30.e30.A'' = [''e30'', ''e30'', ''A'']" "split_on (CHR ''.'') ''e30.e30.B'' = [''e30'', ''e30'', ''B'']"
  by simp_all

theorem validator_ignores_signature_witness:
  "validate_jwt options now ''e30.e30.A'' = validate_jwt options now ''e30.e30.B''"
  by (rule validator_ignores_signature [OF tokens_apart]) (simp_all add: part_char_def)

text \<open>What the payload of an accepted token satisfies.\<close>

definition expected_claim :: "js_text option \<Rightarrow> string \<Rightarrow> js_value \<Rightarrow> bool" where
  "expected_claim expected k payload \<longleftrightarrow>
     or_default expected [] = [] \<or> read_claim k payload = Inr (VString (the expected))"

definition time_claim_ok :: "string \<Rightarrow> (int \<Rightarrow> bool) \<Rightarrow> js_value \<Rightarrow> bool" where
  "time_claim_ok k good payload \<longleftrightarrow>
     read_claim k payload = Inr VUndefined \<or> (\<exists>n. read_claim k payload = Inr (VNumber (NumInt n)) \<and> good n)"

lemma collect_errors_Nil: "collect_errors cs = Inr [] \<longleftrightarrow> (\<forall>c \<in> set cs. c = Inr [])"
  by (induction cs) (auto simp: and_then_Inr)

lemma claim_errors_Nil: "claim_errors ks payload = Inr [] \<longleftrightarrow> (\<forall>k \<in> set ks. has_claim k payload = Inr True)"
  by (induction ks) (auto simp: and_then_Inr split: if_splits)

lemma equals_claim_Nil: "equals_claim expected k code payload = Inr [] \<longleftrightarrow> expected_claim expected k payload"
  by (auto simp: equals_claim_def expected_claim_def and_then_Inr split: if_splits)

lemma time_errors_Nil: "time_errors k c d bad payload = Inr [] \<longleftrightarrow> time_claim_ok k (\<lambda>n. \<not> bad n) payload"
proof (cases "read_claim k payload")
  case (Inr v)
  show ?thesis
  proof (cases v)
    case (VNumber n)
    with Inr show ?thesis by (cases n) (simp_all add: time_errors_def time_claim_ok_def)
  qed (simp_all add: Inr time_errors_def time_claim_ok_def)
qed (simp add: time_errors_def time_claim_ok_def)

lemma validateHeader_ok:
  assumes "validateHeader options header = Inr []"
  shows "\<exists>a. read_claim ''alg'' header = Inr (VString (units a)) \<and> read_claim ''typ'' header = Inr (VString (units ''JWT'')) \<and> a \<in> set SUPPORTED_ALGORITHMS \<and>
    (case vo_algorithms options of Some as \<Rightarrow> as = [] \<or> a \<in> set as | None \<Rightarrow> True)"
proof -
  obtain alg where alg: "read_claim ''alg'' header = Inr alg" using assms by (auto simp: validateHeader_def and_then_Inr)
  obtain a ty kid where a: "List.find (\<lambda>a. alg = VString (units a)) SUPPORTED_ALGORITHMS = Some a"
      "read_claim ''typ'' header = Inr ty" "header_extras options a ty kid = Inr []"
    using assms by (auto simp: validateHeader_def and_then_Inr alg split: if_splits option.splits)
  from a(1) have "alg = VString (units a)" "a \<in> set SUPPORTED_ALGORITHMS" by (auto simp: find_Some_iff)
  with alg a(2,3) show ?thesis by (auto simp: header_extras_def split: option.splits if_splits)
qed

lemma validate_jwt_valid:
  assumes "validate_jwt options now token = Inr r" "vr_valid r"
  obtains h p s header payload where "split_on (CHR ''.'') token = [h, p, s]" "decode_parts h p = Inr (Some (header, payload))"
    "validateHeader options header = Inr []" "validatePayload options now payload = Inr []"
proof -
  note r = assms [unfolded validate_jwt_def vr_valid_def]
  from r obtain h p s where parts: "split_on (CHR ''.'') token = [h, p, s]"
    by (auto simp: refused_def split: if_splits list.splits)
  from r obtain d where d: "decode_parts h p = Inr (Some d)"
    by (auto simp: parts refused_def Let_def and_then_Inr split: if_splits option.splits)
  from r obtain e1 e2 where "validateHeader options (fst d) = Inr e1" "validatePayload options now (snd d) = Inr e2" "e1 @ e2 = []"
    by (cases d) (auto simp: parts refused_def Let_def and_then_Inr d split: if_splits)
  with that [OF parts] d show ?thesis by (cases d) auto
qed

text \<open>C15: a token that is found valid has the type JWT, a supported algorithm, one of those asked for, the issuer and the subject asked
  for, has not expired and has begun, up to the tolerance, and has every required claim, its own or
  one that every object inherits.\<close>

theorem validator_guarantees:
  assumes "validate_jwt options now token = Inr r" "vr_valid r"
  shows "\<exists>h p s header payload a. split_on (CHR ''.'') token = [h, p, s] \<and> parse_part h = Inr header \<and> parse_part p = Inr payload \<and>
    read_claim ''typ'' header = Inr (VString (units ''JWT'')) \<and>
    read_claim ''alg'' header = Inr (VString (units a)) \<and> a \<in> set SUPPORTED_ALGORITHMS \<and>
    (case vo_algorithms options of Some as \<Rightarrow> as = [] \<or> a \<in> set as | None \<Rightarrow> True) \<and>
    expected_claim (vo_issuer options) ''iss'' payload \<and> expected_claim (vo_subject options) ''sub'' payload \<and>
    time_claim_ok ''exp'' (\<lambda>n. now \<le> n * 1000 + tolerance_of options) payload \<and>
    time_claim_ok ''nbf'' (\<lambda>n. n * 1000 \<le> now + tolerance_of options) payload \<and>
    list_all (\<lambda>k. has_claim k payload = Inr True) (or_default (vo_requiredClaims options) [])"
proof -
  obtain h p s header payload where parts: "split_on (CHR ''.'') token = [h, p, s]" and d: "decode_parts h p = Inr (Some (header, payload))"
    and hd: "validateHeader options header = Inr []" and pl: "validatePayload options now payload = Inr []"
    using validate_jwt_valid [OF assms] by metis
  have parse: "parse_part h = Inr header" "parse_part p = Inr payload"
    using d by (auto simp: decode_parts_def catch_null_Some and_then_Inr)
  have "claim_errors (or_default (vo_requiredClaims options) []) payload = Inr []"
    "equals_claim (vo_issuer options) ''iss'' ''ISSUER_MISMATCH'' payload = Inr []"
    "equals_claim (vo_subject options) ''sub'' ''SUBJECT_MISMATCH'' payload = Inr []"
    "time_errors ''nbf'' ''INVALID_NBF'' ''TOKEN_NOT_YET_VALID'' (\<lambda>n. now + tolerance_of options < n * 1000) payload = Inr []"
    "time_errors ''exp'' ''INVALID_EXP'' ''TOKEN_EXPIRED'' (\<lambda>n. now > n * 1000 + tolerance_of options) payload = Inr []"
    using pl unfolding validatePayload_def collect_errors_Nil by auto
  then show ?thesis
    using parts parse validateHeader_ok [OF hd]
    by (auto simp: claim_errors_Nil equals_claim_Nil time_errors_Nil list_all_iff not_less)
qed

text \<open>a token that has not expired for verifyJWT has not expired here, but not conversely: during the second named by
  the claim it is refused there and still accepted here, until its first millisecond is over.\<close>

theorem validator_expiry_against_core:
  assumes "read_claim ''exp'' payload = Inr (VNumber (NumInt e))" "e \<noteq> 0" "0 \<le> tolerance"
  shows "(check_exp payload (now div 1000) = Inr True \<longrightarrow>
      time_errors ''exp'' c d (\<lambda>n. now > n * 1000 + tolerance) payload = Inr []) \<and>
    check_exp payload (e * 1000 div 1000) = Inr False \<and>
      time_errors ''exp'' c d (\<lambda>n. e * 1000 > n * 1000 + tolerance) payload = Inr []"
proof -
  have check: "check_exp payload t = Inr (t < e)" for t
    using assms(1,2) by (auto simp: check_exp_def time_claim_def)
  have "now \<le> e * 1000" if "now div 1000 < e" using that by linarith
  then show ?thesis using assms(1,3) by (auto simp: check time_errors_def)
qed

theorem validator_expiry_against_core_witness:
  "check_exp sample_payload 2000000000 = Inr False \<and>
   time_errors ''exp'' c d (\<lambda>n. 2000000000000 > n * 1000 + 0) sample_payload = Inr []"
proof -
  have "read_claim ''exp'' sample_payload = Inr (VNumber (NumInt 2000000000))"
    by (simp add: sample_payload_def read_claim_def lift_result_def)
  from validator_expiry_against_core [OF this, of 0 0 c d] show ?thesis by simp
qed

text \<open>a header with a supported algorithm and without the type JWT, which the standard makes optional, is neither
  accepted nor refused: the validator throws, whatever the payload.\<close>

theorem validator_throws_without_typ:
  assumes "read_claim ''alg'' header = Inr (VString (units a))" "a \<in> set SUPPORTED_ALGORITHMS"
    and "read_claim ''typ'' header = Inr ty" "ty \<noteq> VString (units ''JWT'')" "read_claim ''kid'' header = Inr kid"
  shows "validateHeader options header = Inl (Throws (JsReferenceError ''warnings is not defined''))"
proof -
  have "List.find (\<lambda>b. VString (units a) = VString (units b)) SUPPORTED_ALGORITHMS \<noteq> None"
    using assms(2) unfolding find_None_iff by auto
  then obtain b where "List.find (\<lambda>b. VString (units a) = VString (units b)) SUPPORTED_ALGORITHMS = Some b" by blast
  moreover have "value_truthy (VString (units a))" using assms(2) by (auto simp: SUPPORTED_ALGORITHMS_def units_def)
  ultimately show ?thesis using assms by (simp add: validateHeader_def header_extras_def)
qed

theorem validator_throws_without_typ_witness:
  "validateHeader options (VObject [(units ''alg'', VString (units ''EdDSA''))]) =
    Inl (Throws (JsReferenceError ''warnings is not defined''))"
  by (rule validator_throws_without_typ [where a = "''EdDSA''" and ty = VUndefined and kid = VUndefined])
    (simp_all add: read_claim_def lift_result_def units_eq_iff SUPPORTED_ALGORITHMS_def)

text \<open>a header or a payload that is the JSON null is not reported: the validator throws.\<close>

theorem validator_throws_on_null:
  assumes "split_on (CHR ''.'') token = [h, p, s]" "list_all part_char (h @ p @ s)" "h \<noteq> []" "p \<noteq> []" "s \<noteq> []"
    and "parse_part h = Inr VNull" "parse_part p = Inr payload"
  shows "\<exists>m. validate_jwt options now token = Inl (Throws (JsTypeError m))"
proof -
  have "js_trim token \<noteq> []"
  proof
    assume "js_trim token = []"
    then have "CHR ''.'' \<notin> set token" by (auto simp: js_trim_Nil js_space_def)
    with assms(1) split_on_notin show False by fastforce
  qed
  then show ?thesis
    using assms by (simp add: validate_jwt_def part_errors_None Let_def decode_parts_def catch_null_def validateHeader_def read_claim_def
      lift_result_def)
qed

lemma sample_null_token:
  "split_on (CHR ''.'') ''bnVsbA.bnVsbA.A'' = [''bnVsbA'', ''bnVsbA'', ''A'']" "parse_part ''bnVsbA'' = Inr VNull"
proof -
  show "split_on (CHR ''.'') ''bnVsbA.bnVsbA.A'' = [''bnVsbA'', ''bnVsbA'', ''A'']" by simp
  have "json_base64url VNull = Inr ''bnVsbA''"
    by (simp add: json_base64url_def ascii_utf8 ascii_def) code_simp
  from json_base64url_parse(1) [OF this] show "parse_part ''bnVsbA'' = Inr VNull" by simp
qed

theorem validator_throws_on_null_witness:
  "\<exists>m. validate_jwt options now ''bnVsbA.bnVsbA.A'' = Inl (Throws (JsTypeError m))"
  by (rule validator_throws_on_null [OF sample_null_token(1) _ _ _ _ sample_null_token(2,2)]) (simp_all add: part_char_def)

subsection \<open>The tokens of the core\<close>

lemma part_char_b64: "n < 64 \<Longrightarrow> part_char (b64_char n)"
  by (auto simp: part_char_def Let_def)

lemma base64url_part: "list_all part_char (to_base64url bs)"
  by (auto simp: to_base64url_def list_all_iff intro: part_char_b64 dest: sextet_less)

lemma to_base64url_Nil: "to_base64url bs = [] \<longleftrightarrow> bs = []"
  by (cases bs rule: sextets.cases) (auto simp: to_base64url_def)

lemma to_utf8_Nil: "to_utf8 t = [] \<longleftrightarrow> t = []"
proof
  assume "to_utf8 t = []"
  then have "code_points t = []" by (cases "code_points t") (auto simp: to_utf8_def utf8_of_def split: if_splits)
  then show "t = []" by (cases t) (auto split: if_splits list.splits)
qed (simp add: to_utf8_def)

lemma json_base64url_part:
  assumes "json_base64url v = Inr s"
  shows "list_all part_char s \<and> s \<noteq> []"
proof -
  obtain u where u: "stringify v = Inr (Some u)" "s = to_base64url (to_utf8 u)"
    using assms by (auto simp: json_base64url_def and_then_Inr split: option.splits)
  have "u \<noteq> []" using json_text_head [OF u(1)] by (auto simp: value_head_def)
  with u(2) show ?thesis by (simp add: base64url_part to_base64url_Nil to_utf8_Nil)
qed

lemma own_token_validated:
  assumes "sk_type key = Hmac" "createJWT C payload key [] = Inr token" "\<And>d. jc_hmac C (sk_key key) d \<noteq> []"
    and "json_able payload" "json_able (jwt_header key [])" "vo_algorithms options = None"
    and "validatePayload options now (json_image payload) = Inr es"
  shows "\<exists>r. validate_jwt options now token = Inr r \<and> vr_errors r = es \<and> vr_warnings r = [] \<and> vr_payload r = Some (json_image payload)"
proof -
  obtain h b where h: "json_base64url (jwt_header key []) = Inr h" and b: "json_base64url payload = Inr b"
    and token: "token = h @ ''.'' @ b @ ''.'' @ to_base64url (jc_hmac C (sk_key key) (utf8 (h @ ''.'' @ b)))"
    using assms(1,2) by (auto simp: createJWT_def and_then_Inr lift_result_def Let_def)
  define s where "s = to_base64url (jc_hmac C (sk_key key) (utf8 (h @ ''.'' @ b)))"
  note h' = json_base64url_parse [OF h assms(5)] and b' = json_base64url_parse [OF b assms(4)]
  have dot: "CHR ''.'' \<notin> set s" unfolding s_def using base64url_chars by blast
  have token': "token = h @ ''.'' @ b @ ''.'' @ s" unfolding token s_def ..
  have parts: "split_on (CHR ''.'') token = [h, b, s]"
    using h'(2) b'(2) dot by (simp add: token' split_on_append split_on_notin)
  have "js_trim token \<noteq> []" unfolding js_trim_Nil by (auto simp: token' js_space_def)
  moreover have "part_errors i h = []" "part_errors i b = []" "part_errors i s = []" for i
    using json_base64url_part [OF h] json_base64url_part [OF b] assms(3)
    by (simp_all add: part_errors_None s_def base64url_part to_base64url_Nil)
  moreover have "validateHeader options (json_image (jwt_header key [])) = Inr []"
    using assms(1,6)
    by (cases "sk_kid key")
      (simp_all add: validateHeader_def read_claim_def lift_result_def jwt_header_def defined_entry_def units_eq_iff
        SUPPORTED_ALGORITHMS_def header_extras_def, simp_all add: units_def)
  ultimately show ?thesis
    by (simp add: validate_jwt_def parts decode_parts_def h'(1) b'(1) catch_null_def assms(7))
qed

text \<open>a token that createJWT made with an HMAC key gets exactly the errors of its payload, which comes back as it
  went in, whatever key it was made with, as long as no other algorithm is asked for.\<close>

theorem validator_reads_own_tokens:
  assumes "sk_type key = Hmac" "createJWT C payload key [] = Inr token" "\<And>d. jc_hmac C (sk_key key) d \<noteq> []"
    and "json_able payload" "json_able (jwt_header key [])" "vo_algorithms options = None"
    and "validatePayload options now (json_image payload) = Inr es"
  shows "\<exists>r. validate_jwt options now token = Inr r \<and> vr_errors r = es \<and> vr_warnings r = [] \<and> vr_payload r = Some (json_image payload)"
  by (rule own_token_validated [OF assms])

definition any_options :: validation_options where
  "any_options = \<lparr>vo_algorithms = None, vo_audience = None, vo_issuer = Some (units ''vault''), vo_subject = None,
     vo_maxAgeMs = None, vo_clockToleranceMs = None, vo_requiredClaims = Some [''exp'', ''constructor'']\<rparr>"

lemma sample_payload_valid: "validatePayload any_options 1700000000000 sample_payload = Inr []"
  by (simp add: validatePayload_def any_options_def sample_payload_def has_claim_def object_prototype_keys_def equals_claim_def
    audience_errors_def iat_errors_def time_errors_def age_errors_def jti_errors_def read_claim_def lift_result_def units_eq_iff
    tolerance_of_def)

lemma sample_validated:
  "\<exists>token r. validate_jwt any_options 1700000000000 token = Inr r \<and> vr_valid r"
proof -
  obtain token where t: "createJWT toy_crypto sample_payload sample_key [] = Inr token" using sample_token by blast
  have "jc_hmac toy_crypto (sk_key sample_key) d \<noteq> []" for d by (simp add: toy_crypto_def)
  from own_token_validated [OF _ t this, of any_options 1700000000000 "[]"] sample_payload_valid sample_able
  show ?thesis by (auto simp: sample_key_def any_options_def vr_valid_def)
qed

theorem validator_reads_own_tokens_witness:
  "\<exists>token r. createJWT toy_crypto sample_payload sample_key [] = Inr token \<and>
     validate_jwt any_options 1700000000000 token = Inr r \<and> vr_errors r = [] \<and> vr_payload r = Some sample_payload"
proof -
  obtain token where t: "createJWT toy_crypto sample_payload sample_key [] = Inr token" using sample_token by blast
  have "jc_hmac toy_crypto (sk_key sample_key) d \<noteq> []" for d by (simp add: toy_crypto_def)
  from validator_reads_own_tokens [OF _ t this, of any_options 1700000000000 "[]"] t sample_payload_valid sample_able
  show ?thesis by (auto simp: sample_key_def any_options_def)
qed

theorem validator_guarantees_witness:
  "\<exists>token h p s header payload a. split_on (CHR ''.'') token = [h, p, s] \<and> parse_part h = Inr header \<and>
    parse_part p = Inr payload \<and> read_claim ''alg'' header = Inr (VString (units a)) \<and> a \<in> set SUPPORTED_ALGORITHMS \<and>
    expected_claim (Some (units ''vault'')) ''iss'' payload \<and> time_claim_ok ''exp'' (\<lambda>n. 1700000000000 \<le> n * 1000) payload"
proof -
  obtain token r where r: "validate_jwt any_options 1700000000000 token = Inr r" "vr_valid r"
    using sample_validated by blast
  obtain h p s header payload a where "split_on (CHR ''.'') token = [h, p, s]" "parse_part h = Inr header"
    "parse_part p = Inr payload" "read_claim ''alg'' header = Inr (VString (units a))" "a \<in> set SUPPORTED_ALGORITHMS"
    "expected_claim (vo_issuer any_options) ''iss'' payload"
    "time_claim_ok ''exp'' (\<lambda>n. 1700000000000 \<le> n * 1000 + tolerance_of any_options) payload"
    using validator_guarantees [OF r] by (elim exE conjE) (rule that)
  moreover have "vo_issuer any_options = Some (units ''vault'')" "tolerance_of any_options = 0"
    by (simp_all add: any_options_def tolerance_of_def)
  ultimately show ?thesis by (intro exI conjI) simp_all
qed

end
