(* ===== verification/InputSanitizer.thy ===== *)
theory InputSanitizer
  imports Prelude
begin

section \<open>Cleaning untrusted input\<close>

text \<open>
  packages/core/src/validation/input_sanitizer.ts. Texts are of one-byte characters; normalize('NFKC') is a
  parameter. The regular expressions are matchers: what follows a match at the beginning of a text. They
  are global ones, so that test goes on where the last match ended: the position of SCRIPT_TAG_REGEX is a
  state of isSafe (the others are set back by the replacement that comes before). Keys that are array indices are
  not moved to the front; a key __proto__, which sets the prototype of the copy, is missing from its entries.
\<close>

subsection \<open>Regular expressions\<close>

type_synonym matcher = "string \<Rightarrow> string option"

text \<open>\<open>s.replace(regex, '')\<close> with the g flag. Matches are not empty.\<close>

function remove_matches :: "matcher \<Rightarrow> string \<Rightarrow> string" where
  "remove_matches m [] = []"
| "remove_matches m (c # s) =
     (case m (c # s) of
        Some r \<Rightarrow> if length r \<le> length s then remove_matches m r else c # remove_matches m s
      | None \<Rightarrow> c # remove_matches m s)"
  by pat_completeness auto
termination
  by (relation "measure (\<lambda>(m, s). length s)") auto

text \<open>\<open>regex.test(s)\<close> from a position on: the position after the first match.\<close>

fun test_from :: "matcher \<Rightarrow> nat \<Rightarrow> string \<Rightarrow> nat option" where
  "test_from m pos [] = None"
| "test_from m pos (c # s) =
     (case m (c # s) of
        Some r \<Rightarrow> Some (pos + (Suc (length s) - length r))
      | None \<Rightarrow> test_from m (Suc pos) s)"

text \<open>A word, in any case.\<close>

definition word_ci :: "string \<Rightarrow> matcher" where
  "word_ci w s = (if to_lower (take (length w) s) = w then Some (drop (length w) s) else None)"

text \<open>What follows the first occurrence of a word.\<close>

fun after_word :: "string \<Rightarrow> matcher" where
  "after_word w [] = word_ci w []"
| "after_word w (c # s) = (case word_ci w (c # s) of Some r \<Rightarrow> Some r | None \<Rightarrow> after_word w s)"

definition SCRIPT_TAG :: matcher where
  "SCRIPT_TAG s = (case word_ci ''<script'' s of Some r \<Rightarrow> after_word ''</script>'' r | None \<Rightarrow> None)"

definition HTML_TAG :: matcher where
  "HTML_TAG s =
     (case s of
        c # r \<Rightarrow>
          if c = CHR ''<'' then (case dropWhile (\<lambda>d. d \<noteq> CHR ''>'') r of [] \<Rightarrow> None | _ # q \<Rightarrow> Some q) else None
      | [] \<Rightarrow> None)"

definition word_char :: "char \<Rightarrow> bool" where
  "word_char c \<longleftrightarrow>
     (let n = of_char c :: nat in (65 \<le> n \<and> n \<le> 90) \<or> (97 \<le> n \<and> n \<le> 122) \<or> (48 \<le> n \<and> n \<le> 57) \<or> n = 95)"

definition one_char :: "char list \<Rightarrow> matcher" where
  "one_char cs s = (case s of c # r \<Rightarrow> if c \<in> set cs then Some r else None | [] \<Rightarrow> None)"

definition quote_chars :: "char list" where
  "quote_chars = [CHR 0x22, CHR 0x27]"

definition ON_EVENT :: matcher where
  "ON_EVENT s =
     (case s of
        [] \<Rightarrow> None
      | c # s1 \<Rightarrow>
          if \<not> js_space c then None
          else Option.bind (word_ci ''on'' s1) (\<lambda>s2.
            if takeWhile word_char s2 = [] then None
            else Option.bind (one_char [CHR ''=''] (dropWhile js_space (dropWhile word_char s2))) (\<lambda>s3.
              Option.bind (one_char quote_chars (dropWhile js_space s3)) (\<lambda>s4.
                one_char quote_chars (dropWhile (\<lambda>d. d \<notin> set quote_chars) s4)))))"

text \<open>\<open>/word\s*:/gi\<close>.\<close>

definition protocol :: "string \<Rightarrow> matcher" where
  "protocol w s = Option.bind (word_ci w s) (\<lambda>r. one_char [CHR '':''] (dropWhile js_space r))"

definition JAVASCRIPT_PROTOCOL :: matcher where
  "JAVASCRIPT_PROTOCOL = protocol ''javascript''"

definition DATA_PROTOCOL :: matcher where
  "DATA_PROTOCOL = protocol ''data''"

text \<open>\<open>\p{C}\<close>.\<close>

definition control_char :: "char \<Rightarrow> bool" where
  "control_char c \<longleftrightarrow> (let n = of_char c :: nat in n < 32 \<or> (127 \<le> n \<and> n \<le> 159) \<or> n = 173)"

subsection \<open>Texts\<close>

record sanitizer_options =
  so_stripHtml :: bool
  so_stripScriptTags :: bool
  so_maxLength :: nat
  so_encodeSpecialChars :: bool
  so_trimWhitespace :: bool
  so_normalizeUnicode :: bool

definition DEFAULT_OPTIONS :: sanitizer_options where
  "DEFAULT_OPTIONS =
     \<lparr>so_stripHtml = True, so_stripScriptTags = True, so_maxLength = 10000, so_encodeSpecialChars = True,
      so_trimWhitespace = True, so_normalizeUnicode = True\<rparr>"

definition encode_special :: "string \<Rightarrow> string" where
  "encode_special s =
     replace_char (CHR 0x27) ''&#x27;'' (replace_char (CHR 0x22) ''&quot;'' (replace_char (CHR ''>'') ''&gt;''
       (replace_char (CHR ''<'') ''&lt;'' (replace_char (CHR ''&'') ''&amp;'' s))))"

text \<open>The value, whether it was modified, the warnings.\<close>

type_synonym 'a sanitized = "'a \<times> bool \<times> string list"

text \<open>\<open>if (on) { const next = f(value); if (next !== value) { modified = true; value = next; warn } }\<close>.\<close>

definition stage :: "bool \<Rightarrow> (string \<Rightarrow> string) \<Rightarrow> string list \<Rightarrow> string sanitized \<Rightarrow> string sanitized" where
  "stage on f warn st =
     (case st of (v, m, ws) \<Rightarrow> if on \<and> f v \<noteq> v then (f v, True, ws @ warn) else (v, m, ws))"

text \<open>This removal does not count as a modification.\<close>

definition drop_controls :: "string sanitized \<Rightarrow> string sanitized" where
  "drop_controls st = (case st of (v, m, ws) \<Rightarrow> (filter (\<lambda>c. \<not> control_char c) v, m, ws))"

definition sanitizeString :: "(string \<Rightarrow> string) \<Rightarrow> sanitizer_options \<Rightarrow> string \<Rightarrow> string sanitized" where
  "sanitizeString nfkc o1 input =
     stage (so_encodeSpecialChars o1) encode_special []
      (stage True (take (so_maxLength o1)) [''Input was truncated to '' @ show_nat (so_maxLength o1) @ '' characters'']
       (stage True (remove_matches DATA_PROTOCOL) [''data: protocol references were removed'']
        (stage True (remove_matches JAVASCRIPT_PROTOCOL) [''javascript: protocol references were removed'']
         (stage True (remove_matches ON_EVENT) [''Inline event handlers were removed from input'']
          (stage (so_stripHtml o1) (remove_matches HTML_TAG) [''HTML tags were removed from input'']
           (stage (so_stripScriptTags o1) (remove_matches SCRIPT_TAG) [''Script tags were removed from input'']
            (drop_controls
             (stage (so_normalizeUnicode o1) nfkc []
              (stage (so_trimWhitespace o1) js_trim [] (input, False, []))))))))))"

subsection \<open>Values\<close>

definition with_index :: "nat \<Rightarrow> string \<Rightarrow> string" where
  "with_index i w = ''['' @ show_nat i @ ''] '' @ w"

definition add_entry :: "string \<Rightarrow> json \<Rightarrow> (string \<times> json) list \<Rightarrow> (string \<times> json) list" where
  "add_entry k v es = (if k = ''__proto__'' then es else jm_set k v es)"

fun sanitize :: "(string \<Rightarrow> string) \<Rightarrow> sanitizer_options \<Rightarrow> json \<Rightarrow> json sanitized"
  and sanitizeArray :: "(string \<Rightarrow> string) \<Rightarrow> sanitizer_options \<Rightarrow> nat \<Rightarrow> json list \<Rightarrow> json list sanitized"
  and sanitizeObject ::
    "(string \<Rightarrow> string) \<Rightarrow> sanitizer_options \<Rightarrow> (string \<times> json) list \<Rightarrow> (string \<times> json) list sanitized \<Rightarrow> (string \<times> json) list sanitized"
where
  "sanitize nfkc o1 (JStr s) = (case sanitizeString nfkc o1 s of (v, m, ws) \<Rightarrow> (JStr v, m, ws))"
| "sanitize nfkc o1 (JArr vs) = (case sanitizeArray nfkc o1 0 vs of (rs, m, ws) \<Rightarrow> (JArr rs, m, ws))"
| "sanitize nfkc o1 (JObj es) = (case sanitizeObject nfkc o1 es ([], False, []) of (rs, m, ws) \<Rightarrow> (JObj rs, m, ws))"
| "sanitize nfkc o1 JNull = (JNull, False, [])"
| "sanitize nfkc o1 (JBool b) = (JBool b, False, [])"
| "sanitize nfkc o1 (JNum n) = (JNum n, False, [])"
| "sanitizeArray nfkc o1 i [] = ([], False, [])"
| "sanitizeArray nfkc o1 i (v # vs) =
     (case sanitize nfkc o1 v of (r, m, ws) \<Rightarrow>
      case sanitizeArray nfkc o1 (Suc i) vs of (rs, ms, wss) \<Rightarrow> (r # rs, m \<or> ms, map (with_index i) ws @ wss))"
| "sanitizeObject nfkc o1 [] acc = acc"
| "sanitizeObject nfkc o1 ((k, v) # es) (rs, m, ws) =
     (case sanitizeString nfkc o1 k of (k', _, _) \<Rightarrow>
      case sanitize nfkc o1 v of (r, mv, wv) \<Rightarrow>
        sanitizeObject nfkc o1 es
          (add_entry k' r rs, m \<or> k' \<noteq> k \<or> mv, ws @ (if k' \<noteq> k then [''Key was sanitized: '' @ k] else []) @ wv))"

subsection \<open>isSafe\<close>

text \<open>The answer, and the position of SCRIPT_TAG_REGEX afterwards. A replacement with the expression sets it to 0, and
  so does a test without a match.\<close>

definition isSafe :: "(string \<Rightarrow> string) \<Rightarrow> sanitizer_options \<Rightarrow> string \<Rightarrow> nat \<Rightarrow> bool \<times> nat" where
  "isSafe nfkc o1 input lastIndex =
     (let pos = (if so_stripScriptTags o1 then 0 else lastIndex) in
      if fst (snd (sanitizeString nfkc o1 input)) then (False, pos)
      else case test_from SCRIPT_TAG pos (drop pos input) of
             Some next \<Rightarrow> (False, next)
           | None \<Rightarrow> (test_from JAVASCRIPT_PROTOCOL 0 input = None, 0))"

subsection \<open>What is left of a text\<close>

definition html_char :: "char \<Rightarrow> bool" where
  "html_char c \<longleftrightarrow> c \<in> {CHR ''<'', CHR ''>'', CHR 0x22, CHR 0x27}"

definition html_free :: "string \<Rightarrow> bool" where
  "html_free s \<longleftrightarrow> list_all (\<lambda>c. \<not> html_char c) s"

lemma replace_char_removes: "c \<notin> set r \<Longrightarrow> c \<notin> set (replace_char c r s)"
  by (auto simp: replace_char_def)

lemma replace_char_adds: "d \<in> set (replace_char c r s) \<Longrightarrow> d \<in> set s \<or> d \<in> set r"
  by (auto simp: replace_char_def split: if_splits)

lemma replace_char_notin: "c \<notin> set s \<Longrightarrow> replace_char c r s = s"
  by (induction s) (auto simp: replace_char_def)

lemma encode_special_html_free: "html_free (encode_special s)"
proof -
  define s1 where "s1 = replace_char (CHR ''<'') ''&lt;'' (replace_char (CHR ''&'') ''&amp;'' s)"
  define s2 where "s2 = replace_char (CHR ''>'') ''&gt;'' s1"
  define s3 where "s3 = replace_char (CHR 0x22) ''&quot;'' s2"
  have s: "encode_special s = replace_char (CHR 0x27) ''&#x27;'' s3"
    by (simp add: encode_special_def s1_def s2_def s3_def)
  have "CHR ''<'' \<notin> set s1" unfolding s1_def by (rule replace_char_removes) simp
  then have 2: "CHR ''<'' \<notin> set s2" "CHR ''>'' \<notin> set s2"
    unfolding s2_def using replace_char_removes by (auto dest!: replace_char_adds)
  then have 3: "CHR ''<'' \<notin> set s3" "CHR ''>'' \<notin> set s3" "CHR 0x22 \<notin> set s3"
    unfolding s3_def using replace_char_removes by (auto dest!: replace_char_adds)
  then have "CHR ''<'' \<notin> set (encode_special s)" "CHR ''>'' \<notin> set (encode_special s)" "CHR 0x22 \<notin> set (encode_special s)"
      "CHR 0x27 \<notin> set (encode_special s)"
    unfolding s using replace_char_removes by (auto dest!: replace_char_adds)
  then show ?thesis by (auto simp: html_free_def html_char_def list_all_iff)
qed

lemma stage_value: "fst (stage on f w st) = (if on then f (fst st) else fst st)"
  by (cases st) (simp add: stage_def)

lemma stage_modified: "fst (snd (stage on f w st)) \<longleftrightarrow> fst (snd st) \<or> (on \<and> f (fst st) \<noteq> fst st)"
  by (cases st) (auto simp: stage_def)

lemma drop_controls_simps [simp]:
  "fst (drop_controls st) = filter (\<lambda>c. \<not> control_char c) (fst st)" "fst (snd (drop_controls st)) = fst (snd st)"
  by (cases st; simp add: drop_controls_def)+

lemma sanitized_text:
  "so_encodeSpecialChars o1 \<Longrightarrow> html_free (fst (sanitizeString nfkc o1 s))"
  by (simp add: sanitizeString_def stage_value encode_special_html_free)

lemma sanitized_shape:
  "\<exists>t. fst (sanitizeString nfkc o1 s) =
     (if so_encodeSpecialChars o1 then encode_special (take (so_maxLength o1) t) else take (so_maxLength o1) t)"
  unfolding sanitizeString_def stage_value if_True by (rule exI) (rule refl)

text \<open>The number of characters that one character becomes.\<close>

fun enc_length :: "string \<Rightarrow> nat" where
  "enc_length [] = 0"
| "enc_length (c # s) =
     (if c = CHR ''&'' then 5 else if c \<in> {CHR ''<'', CHR ''>''} then 4 else if c \<in> {CHR 0x22, CHR 0x27} then 6 else 1) + enc_length s"

lemma encode_special_Cons: "length (encode_special (c # s)) = enc_length [c] + length (encode_special s)"
  by (auto simp: encode_special_def replace_char_def)

lemma encode_special_length: "length (encode_special s) = enc_length s"
proof (induction s)
  case (Cons c s)
  then show ?case by (simp add: encode_special_Cons)
qed (simp add: encode_special_def replace_char_def)

lemma enc_length_bound: "enc_length s \<le> 6 * length s"
  by (induction s) auto

text \<open>the length that the options allow is that of the text before its special characters are encoded: the
  result can be six times as long, and no longer.\<close>

theorem sanitized_length_bound:
  "length (fst (sanitizeString nfkc o1 s)) \<le> 6 * so_maxLength o1 \<and>
   length (encode_special (replicate n (CHR 0x22))) = 6 * n"
proof -
  obtain t where t: "fst (sanitizeString nfkc o1 s) =
      (if so_encodeSpecialChars o1 then encode_special (take (so_maxLength o1) t) else take (so_maxLength o1) t)"
    using sanitized_shape by blast
  have "length (fst (sanitizeString nfkc o1 s)) \<le> 6 * length (take (so_maxLength o1) t)"
    using enc_length_bound [of "take (so_maxLength o1) t"] by (simp add: t encode_special_length)
  also have "... \<le> 6 * so_maxLength o1" by simp
  finally have "length (fst (sanitizeString nfkc o1 s)) \<le> 6 * so_maxLength o1" .
  moreover have "enc_length (replicate n (CHR 0x22)) = 6 * n" by (induction n) auto
  ultimately show ?thesis by (simp add: encode_special_length)
qed

subsection \<open>Values\<close>

text \<open>No text of a value, and none of its keys, has a character of HTML.\<close>

fun html_free_value :: "json \<Rightarrow> bool" where
  "html_free_value (JStr s) = html_free s"
| "html_free_value (JArr vs) = list_all html_free_value vs"
| "html_free_value (JObj es) = list_all (\<lambda>(k, v). html_free k \<and> html_free_value v) es"
| "html_free_value v = True"

lemma add_entry_free:
  assumes "html_free k" "html_free_value v" "list_all (\<lambda>(k, v). html_free k \<and> html_free_value v) es"
  shows "list_all (\<lambda>(k, v). html_free k \<and> html_free_value v) (add_entry k v es)"
proof -
  have "list_all (\<lambda>(k, v). html_free k \<and> html_free_value v) (AList.update k v es)" using assms by (induction es) auto
  then show ?thesis using assms(3) by (simp add: add_entry_def jm_set_def)
qed

lemma sanitized_values:
  shows "so_encodeSpecialChars o1 \<Longrightarrow> html_free_value (fst (sanitize nfkc o1 v))"
    and "so_encodeSpecialChars o1 \<Longrightarrow> list_all html_free_value (fst (sanitizeArray nfkc o1 i vs))"
    and "so_encodeSpecialChars o1 \<Longrightarrow> list_all (\<lambda>(k, v). html_free k \<and> html_free_value v) (fst acc) \<Longrightarrow>
      list_all (\<lambda>(k, v). html_free k \<and> html_free_value v) (fst (sanitizeObject nfkc o1 es acc))"
proof (induction nfkc o1 v and nfkc o1 i vs and nfkc o1 es acc
    rule: sanitize_sanitizeArray_sanitizeObject.induct)
  case (1 nfkc o1 s)
  then show ?case using sanitized_text [of o1 nfkc s] by (auto split: prod.splits)
next
  case (10 nfkc o1 k v es rs m ws)
  obtain k' a b where k: "sanitizeString nfkc o1 k = (k', a, b)" by (cases "sanitizeString nfkc o1 k")
  obtain r mv wv where r: "sanitize nfkc o1 v = (r, mv, wv)" by (cases "sanitize nfkc o1 v")
  have "html_free k'" using sanitized_text [OF 10(3), of nfkc k] k by simp
  moreover have "html_free_value r" using 10(1) [OF k [symmetric] _ 10(3)] r by simp
  ultimately show ?case using 10(2) 10(3,4) k r by (simp add: add_entry_free)
qed (auto split: prod.splits)

text \<open>C30: when special characters are encoded, no text of the result and none of its keys contains an angle bracket or a
  quotation mark, however deep the input is nested and whatever the normalisation does.\<close>

theorem sanitized_value_html_free:
  assumes "so_encodeSpecialChars o1"
  shows "html_free_value (fst (sanitize nfkc o1 v))"
  by (rule sanitized_values(1) [OF assms])

theorem sanitized_value_html_free_witness:
  "html_free_value (fst (sanitize id DEFAULT_OPTIONS (JObj [(''a'', JArr [JStr ''<b>'', JNull])])))"
  by (rule sanitized_value_html_free) (simp add: DEFAULT_OPTIONS_def)

text \<open>A text that was not modified.\<close>

lemma unmodified_text:
  assumes "\<not> fst (snd (sanitizeString nfkc o1 s))"
  shows "fst (sanitizeString nfkc o1 s) = filter (\<lambda>c. \<not> control_char c) s \<and>
    (so_encodeSpecialChars o1 \<longrightarrow> encode_special (filter (\<lambda>c. \<not> control_char c) s) = filter (\<lambda>c. \<not> control_char c) s)"
proof -
  define s1 where "s1 = stage (so_trimWhitespace o1) js_trim [] (s, False, [])"
  define s2 where "s2 = stage (so_normalizeUnicode o1) nfkc [] s1"
  define s3 where "s3 = stage (so_stripScriptTags o1) (remove_matches SCRIPT_TAG) [''Script tags were removed from input''] (drop_controls s2)"
  define s4 where "s4 = stage (so_stripHtml o1) (remove_matches HTML_TAG) [''HTML tags were removed from input''] s3"
  define s5 where "s5 = stage True (remove_matches ON_EVENT) [''Inline event handlers were removed from input''] s4"
  define s6 where "s6 = stage True (remove_matches JAVASCRIPT_PROTOCOL) [''javascript: protocol references were removed''] s5"
  define s7 where "s7 = stage True (remove_matches DATA_PROTOCOL) [''data: protocol references were removed''] s6"
  define s8 where "s8 = stage True (take (so_maxLength o1)) [''Input was truncated to '' @ show_nat (so_maxLength o1) @ '' characters''] s7"
  define s9 where "s9 = stage (so_encodeSpecialChars o1) encode_special [] s8"
  note defs = s1_def s2_def s3_def s4_def s5_def s6_def s7_def s8_def s9_def
  have all: "sanitizeString nfkc o1 s = s9" by (simp add: sanitizeString_def defs)
  have 9: "\<not> fst (snd s8)" "fst s9 = fst s8" "so_encodeSpecialChars o1 \<longrightarrow> encode_special (fst s8) = fst s8"
    using assms unfolding all s9_def stage_modified stage_value by auto
  have 8: "\<not> fst (snd s7)" "fst s8 = fst s7" using 9(1) unfolding s8_def stage_modified stage_value by auto
  have 7: "\<not> fst (snd s6)" "fst s7 = fst s6" using 8(1) unfolding s7_def stage_modified stage_value by auto
  have 6: "\<not> fst (snd s5)" "fst s6 = fst s5" using 7(1) unfolding s6_def stage_modified stage_value by auto
  have 5: "\<not> fst (snd s4)" "fst s5 = fst s4" using 6(1) unfolding s5_def stage_modified stage_value by auto
  have 4: "\<not> fst (snd s3)" "fst s4 = fst s3" using 5(1) unfolding s4_def stage_modified stage_value by auto
  have 3: "\<not> fst (snd s2)" "fst s3 = filter (\<lambda>c. \<not> control_char c) (fst s2)"
    using 4(1) unfolding s3_def stage_modified stage_value drop_controls_simps by auto
  have 2: "\<not> fst (snd s1)" "fst s2 = fst s1" using 3(1) unfolding s2_def stage_modified stage_value by auto
  have 1: "fst s1 = s" using 2(1) unfolding s1_def stage_modified stage_value by auto
  have "fst s8 = filter (\<lambda>c. \<not> control_char c) s" unfolding 8(2) 7(2) 6(2) 5(2) 4(2) 3(2) 2(2) 1 ..
  with 9(2,3) show ?thesis by (simp add: all)
qed

text \<open>the report that nothing was modified does not say that the result is the input: control characters have been
  dropped all the same, and only they.\<close>

theorem unmodified_drops_controls:
  assumes "\<not> fst (snd (sanitizeString nfkc o1 s))"
  shows "fst (sanitizeString nfkc o1 s) = filter (\<lambda>c. \<not> control_char c) s"
  using unmodified_text [OF assms] by blast

text \<open>The default options with a short limit.\<close>

definition short_options :: sanitizer_options where
  "short_options =
     \<lparr>so_stripHtml = True, so_stripScriptTags = True, so_maxLength = 40, so_encodeSpecialChars = True,
      so_trimWhitespace = True, so_normalizeUnicode = True\<rparr>"

lemma plain_example: "sanitizeString (\<lambda>s. s) short_options [CHR ''a'', CHR 0x07, CHR ''b''] = (''ab'', False, [])"
  by code_simp

theorem unmodified_drops_controls_witness:
  "filter (\<lambda>c. \<not> control_char c) [CHR ''a'', CHR 0x07, CHR ''b''] = ''ab''"
  using unmodified_drops_controls [of "\<lambda>s. s" short_options "[CHR ''a'', CHR 0x07, CHR ''b'']"] by (simp add: plain_example)

text \<open>what isSafe calls safe has none of the characters that are encoded, when they are encoded.\<close>

theorem safe_text_is_plain:
  assumes "fst (isSafe nfkc o1 s pos)" "so_encodeSpecialChars o1"
  shows "html_free s"
proof -
  have "\<not> fst (snd (sanitizeString nfkc o1 s))" using assms(1) by (auto simp: isSafe_def Let_def split: if_splits)
  from unmodified_text [OF this] assms(2) have "html_free (filter (\<lambda>c. \<not> control_char c) s)"
    using encode_special_html_free by metis
  moreover have "\<not> control_char c" if "html_char c" for c using that by (auto simp: html_char_def control_char_def)
  ultimately show ?thesis by (auto simp: html_free_def list_all_iff)
qed

lemma safe_example: "isSafe (\<lambda>s. s) short_options ''plain'' 0 = (True, 0)"
  by code_simp

theorem safe_text_is_plain_witness: "html_free ''plain''"
  using safe_text_is_plain [of "\<lambda>s. s" short_options "''plain''" 0] by (simp add: safe_example) (simp add: short_options_def)

text \<open>one pass is not enough: removing what is forbidden can leave a new occurrence of it, and encoding again encodes the
  ampersands of the first time.\<close>

theorem one_pass_is_not_enough:
  "fst (sanitizeString (\<lambda>s. s) short_options ''javajavascript:script:x'') = ''javascript:x'' \<and>
   fst (sanitizeString (\<lambda>s. s) short_options (fst (sanitizeString (\<lambda>s. s) short_options ''a&b''))) = ''a&amp;amp;b''"
  by code_simp

text \<open>The options under which scripts are looked for and not removed.\<close>

definition check_only :: sanitizer_options where
  "check_only = short_options\<lparr>so_stripHtml := False, so_stripScriptTags := False, so_encodeSpecialChars := False\<rparr>"

text \<open>with the stripping of scripts turned off, isSafe forgets what it found: asked twice about the same text with
  a script, it answers no and then yes, as the position of the expression is kept.\<close>

theorem isSafe_alternates:
  "isSafe (\<lambda>s. s) check_only ''<script></script>'' 0 = (False, 17) \<and> isSafe (\<lambda>s. s) check_only ''<script></script>'' 17 = (True, 0)"
  by code_simp

end
