(* ===== verification/Spec2Isabelle.thy ===== *)
theory Spec2Isabelle
  imports
    KycOrchestrator KycService CredentialService AuditChain
    CircuitBreaker RetryPolicy RetryQueue
    Cache CachePolicy CacheMetrics
    Rbac Capabilities
    DidUrl DidDocument
    WebhookRelay
    ByteCodec MessagePack Cbor Varint Avro Protobuf JsonSchema
    BaseText Json Session Jwt Mfa ApiKeys DidAuth
    RateLimit SchemaValidator
    ApiAuth ResponseCache ApiMiddleware
    EventBus CredentialIssuer
    WebhookService FieldValidators DidService ZkpService
    SdkClient SdkManagers
    Numbers UcpService BillingService PaymentGateway
    ModuleRegistry ComplianceReports Metrics DidEthr
    HostInterface LegacyImport FormatConverter JwtValidator InputSanitizer
begin

text \<open>
  A model of the TypeScript core of the privacy-preserving KYC vault, and what it guarantees.

  \<^bold>\<open>The program.\<close> The vault takes a person through a KYC workflow, issues a verifiable
  credential for the outcome, keeps an audit trail and tells other platforms about it. The
  TypeScript part consists of libraries (packages/core, packages/did, packages/crypto,
  packages/zkp), of the API server (packages/api, of which services/kyc, services/credential and
  others are copies) and of stand-alone Express services (services/kyc-orchestrator,
  services/webhook-relay and others). Each service keeps its state in Map objects of one process;
  a request runs without interruption up to an await. The components meet in the values they
  exchange: the API services and the orchestrator produce credentials and audit entries; the
  retry queue runs its tasks under a retry policy and a back-off, and optionally behind a circuit
  breaker; the DID resolver produces the documents credentials refer to; the
  access-control modules decide on requests; the relay delivers events.

  \<^bold>\<open>The theories.\<close> Each names its source files and describes its conventions in its first text.
    \<^item> \<^theory_text>\<open>Prelude\<close>: exceptions as values of a sum type, JSON values, insertion-ordered Map
      objects, spread, parseInt, slice and pages, strings; the contracts shared by the
      components: \<open>keyed_store\<close> (a store by key, interpreted on the Map model),
      \<open>invariant_machine\<close> (a state machine whose admissible steps keep an invariant) and its
      extension \<open>monotone_machine\<close> (a quantity that no step decreases). Every stateful component
      interprets one of the two on its own step function, and its properties rest on the
      interpreted facts about runs. \<open>simulation\<close> is the contract of a refinement: a relation
      between abstract and concrete states that every admissible step keeps.
    \<^item> \<^theory_text>\<open>KycOrchestrator\<close>: services/kyc-orchestrator (config, orchestrator, handler): the workflow
      store with its per-user index, the transition table, the steps, the expiry sweep and
      every HTTP route. No user exceeds the configured number of active workflows, terminal
      workflows stay terminal, only verification leads to approval.
    \<^item> \<^theory_text>\<open>KycService\<close>: packages/api/src/services/kyc_service.ts: the API's own workflow service. The
      history of a workflow replays to its state; decisions without review follow the transition
      table; reviews do not.
    \<^item> \<^theory_text>\<open>CredentialService\<close>: issuing, looking up, verifying, revoking and listing credentials.
      Revocation is permanent; issuing and verifying agree.
    \<^item> \<^theory_text>\<open>AuditChain\<close>: the hash-chained audit log, with the hash as a parameter. The chain of any
      run verifies; what tampering it detects and what it cannot; the CSV export reads back.
    \<^item> \<^theory_text>\<open>CircuitBreaker\<close>, \<^theory_text>\<open>RetryPolicy\<close>, \<^theory_text>\<open>RetryQueue\<close>: packages/core/src/retry. The breaker and
      the queue are machines whose steps (a call begins, a call settles, a timer fires)
      interleave freely; delays and their bounds; concurrency and priority of the queue.
    \<^item> \<^theory_text>\<open>Cache\<close>, \<^theory_text>\<open>CachePolicy\<close>, \<^theory_text>\<open>CacheMetrics\<close>: packages/core/src/cache. The contract of a cache
      tier is the locale \<open>cache_tier\<close>, interpreted on the memory tier; the manager over a memory,
      a Redis and a disk tier; eviction; warm-up loops, whose non-termination is a value;
      metrics.
    \<^item> \<^theory_text>\<open>Rbac\<close>, \<^theory_text>\<open>Capabilities\<close>: packages/core/src/auth/rbac.ts and capabilities.ts: what a role may do,
      and when a relationship check or a capability token is accepted.
    \<^item> \<^theory_text>\<open>ByteCodec\<close>: what the codecs share: buffers, readers that consume a prefix, and the
      contract \<open>token_decoder\<close> of a recursive decoder, from which follows that fuel beyond the length
      of the input changes nothing. \<^theory_text>\<open>MessagePack\<close>, \<^theory_text>\<open>Cbor\<close>, \<^theory_text>\<open>Avro\<close>, \<^theory_text>\<open>Protobuf\<close> (with
      \<^theory_text>\<open>Varint\<close>) and \<^theory_text>\<open>JsonSchema\<close>: packages/core/src/serialization: encoders and decoders, the
      values that come back and those that do not.
    \<^item> \<^theory_text>\<open>BaseText\<close>, \<^theory_text>\<open>Json\<close>: what the token and session code uses of node and the language:
      base64url, hexadecimal digits, UTF-8, JSON.stringify and JSON.parse as functions, with their
      round trips.
    \<^item> \<^theory_text>\<open>Session\<close>, \<^theory_text>\<open>Jwt\<close>, \<^theory_text>\<open>Mfa\<close>, \<^theory_text>\<open>ApiKeys\<close>, \<^theory_text>\<open>DidAuth\<close>: the rest of
      packages/core/src/auth: session tokens and the store with its timers, which refines a map with
      expiry; JSON web tokens, accepted exactly under the stated conditions; base 32, TOTP, backup
      codes and WebAuthn; API keys; authentication with a DID.
    \<^item> \<^theory_text>\<open>RateLimit\<close>: packages/api/src/middleware/rate-limit.ts: the token bucket and the sliding
      window, with the bounds they enforce over any run of requests.
    \<^item> \<^theory_text>\<open>ApiAuth\<close>, \<^theory_text>\<open>ResponseCache\<close>, \<^theory_text>\<open>ApiMiddleware\<close>: the other middleware of
      packages/api: who is let through and with which permissions, also for the tokens that the
      core's Jwt and DidAuth make; the response cache over any run of requests, answers and prunings; CORS,
      validation, problem documents, audit, billing and security headers.
    \<^item> \<^theory_text>\<open>EventBus\<close>: packages/core/src/events/event_bus.ts: subscriptions and the tasks that emitting
      leaves with the scheduler, as an inductive step relation in which they interleave; its
      invariants hold in every reachable world.
    \<^item> \<^theory_text>\<open>CredentialIssuer\<close>: services/credential-issuer (config, issuer, handler): issuing against
      the schema registry, verification, revocation and suspension, and every HTTP route.
    \<^item> \<^theory_text>\<open>DidService\<close>, \<^theory_text>\<open>ZkpService\<close>, \<^theory_text>\<open>WebhookService\<close>: packages/api/src/services: the
      API's stores of DIDs and of proofs, and its webhooks with delivery loops that overlap when a receiver
      is slow.
    \<^item> \<^theory_text>\<open>SdkClient\<close>, \<^theory_text>\<open>SdkManagers\<close>: sdk/typescript: the client library's retry loop against its
      reference, addresses and errors; the managers work against the locale \<open>api_client\<close>, interpreted on
      the client's own request function.
    \<^item> \<^theory_text>\<open>FieldValidators\<close>: the other validators of packages/core/src/validation: what they accept.
    \<^item> \<^theory_text>\<open>SchemaValidator\<close>: packages/core/src/validation/schema_validator.ts: agreement with the
      standard's reading of the keywords, and where the code departs from it.
    \<^item> \<^theory_text>\<open>DidUrl\<close>, \<^theory_text>\<open>DidDocument\<close>: packages/did: parsing and printing of DID URLs, documents and
      their JSON, did:key, did:web and the caching resolver.
    \<^item> \<^theory_text>\<open>WebhookRelay\<close>: services/webhook-relay (config, relay, handler): subscriptions, events,
      delivery attempts with retries, and every HTTP route.
    \<^item> \<^theory_text>\<open>Numbers\<close>: doubles: rounding to the nearest, sums and products, parseFloat and toFixed, with
      the lemma that carries the amounts: a sum of texts in cents prints the exact total.
      \<^theory_text>\<open>UcpService\<close>, \<^theory_text>\<open>BillingService\<close>: packages/api/src/services: carts, checkouts, orders and
      estimates; usage, invoices and credits, which refine one ledger.
    \<^item> \<^theory_text>\<open>PaymentGateway\<close>: services/payment-gateway (config, handler): one charge per key.
    \<^item> \<^theory_text>\<open>ComplianceReports\<close>: services/compliance-reporting: drafting, checking, filing and archiving
      reports. \<^theory_text>\<open>ModuleRegistry\<close>: wasm/module-registry.ts: the registry of trusted modules and
      the check that is never awaited.
    \<^item> \<^theory_text>\<open>Metrics\<close>: packages/core/src/metrics/metrics_collector.ts: counters, gauges, histograms and
      their keys. \<^theory_text>\<open>DidEthr\<close>: packages/did/src/methods/did-ethr.ts: did:ethr documents over what
      the chain's node answers.
    \<^item> \<^theory_text>\<open>HostInterface\<close>: wasm/host-interface.ts: reading and writing the linear memory of a
      module, under a contract that every import rests on, the store of instances and the imports.
    \<^item> \<^theory_text>\<open>LegacyImport\<close>, \<^theory_text>\<open>FormatConverter\<close>: services/migration: mapping records of older systems, from
      JSON or CSV, to credentials; converting credentials between JSON-LD, tokens and the plain format.
    \<^item> \<^theory_text>\<open>JwtValidator\<close>, \<^theory_text>\<open>InputSanitizer\<close>: packages/core/src/validation: the checks of a token without its
      signature, compared with verifyJWT; cleaning of untrusted values, the regular expressions as matchers.

  \<^bold>\<open>State and operations.\<close> A class is a record of its fields, a union of string literals a datatype, a
  method a function from its arguments and the state to its result and the new state; a
  rejected promise or a thrown exception is \<open>Inl\<close>. The clock (\<open>now\<close>), fresh names (\<open>uuid\<close>) and
  Math.random are arguments. A method that awaits something another call can overtake is split
  there into several steps. Where the source has a mistake the model has it too: the
  properties then say what the code does, and the texts before them point it out.

  \<^bold>\<open>Bounds and fuel.\<close> Loops that end are recursions with a termination proof; loops that need not
  end (the warm-up loops, the recursion of the capability check) are partial functions into
  option, and both their termination and their divergence are proved. Fuel is used in two places:
  the traversal of expandTree has the number of stored keys plus two, one more than the keys it can
  visit; the recursive decoders have the length of their input plus one, and since every value
  consumes at least one byte or character, more fuel gives the same result (\<open>token_decoder\<close>).
  Machine integers are words wherever the code shifts, masks or writes them (base 32, TOTP,
  varints, the formats of the codecs); otherwise integers are unbounded, as the counters and time
  stamps of the program stay far below the 53 bits of a JavaScript number. Amounts of money and values of
  metrics are doubles, a rational with the rounding of IEEE 754 after every operation; the exactness of
  sums is proved for at most 10^4 lines and 10^11 cents, where the accumulated error stays below half
  a cent. Where a conversion of
  the language would be needed that the model does not have, a codec returns \<open>OutOfModel\<close> instead
  of a value, and no property claims anything of it.

  \<^bold>\<open>The properties\<close> are invariants of all runs (limits,
  agreement of counters and indexes, replay of histories, verification of the audit chain),
  refinement (the session store, the billing ledger), safety of decisions (approval, revocation, permissions, tokens,
  tampering), equivalence with a reference definition (base 32, the schema validator), bounds over
  runs (the rate limiters), functional behaviour and termination of single operations (tripping and
  recovery of the breaker, dispatch, eviction, warm-up, delivery), and round trips (the codecs,
  tokens, DID URLs, documents, CSV rows, policies).

  \<^bold>\<open>Not modelled.\<close> Express itself, network and database access, node's crypto (a parameter where it
  is used), regular expressions given by configuration, the parsing of dates by Date (a
  parameter), log output, and the components listed as such in the manifest: route
  wrappers that pass a request to a modelled service, event handlers and exporters that write
  text to a log or a port, health probes, the layout of invoices, the platform
  adapters, which pass data on to services outside the repository, the React and WASI glue, and
  everything that is not TypeScript.
\<close>

end
